(* ===== verification/Prelude.thy ===== *)
theory Prelude
  imports Complex_Main "HOL-Library.List_Lexorder" "HOL-Library.Char_ord"
begin

text \<open>
  Shared vocabulary of the development.  A TypeScript function that throws is a HOL
  function into \<open>'e + 'a\<close>: \<open>Inl\<close> carries the thrown error, \<open>Inr\<close> the
  returned value.  Strings are \<open>string\<close>: one \<open>char\<close> stands for one UTF-16 code
  unit below 256; Chinese literals that the code compares are constructors of datatypes.
  The theory holds the error monad, the JavaScript list idioms the code uses
  (\<open>[...new Set(xs)]\<close>, \<open>sort\<close>, \<open>trim\<close>), and their lemmas.
\<close>

named_theorems err_simps \<open>equations of the error monad\<close>
named_theorems js_simps \<open>facts about the JavaScript list and string idioms\<close>

section \<open>Errors as values\<close>

definition bindE :: "'e + 'a \<Rightarrow> ('a \<Rightarrow> 'e + 'b) \<Rightarrow> 'e + 'b" where
  "bindE m f = (case m of Inl e \<Rightarrow> Inl e | Inr x \<Rightarrow> f x)"

lemma bindE_simps [simp, err_simps]:
  "bindE (Inl e) f = Inl e"
  "bindE (Inr x) f = f x"
  by (simp_all add: bindE_def)

lemma bindE_Inr_iff [err_simps]: "bindE m f = Inr y \<longleftrightarrow> (\<exists>x. m = Inr x \<and> f x = Inr y)"
  by (cases m) simp_all

lemma bindE_InrE: "bindE m f = Inr y \<Longrightarrow> (\<And>x. m = Inr x \<Longrightarrow> f x = Inr y \<Longrightarrow> P) \<Longrightarrow> P"
  by (cases m) simp_all

lemma bindE_Inl_iff [err_simps]:
  "bindE m f = Inl e \<longleftrightarrow> m = Inl e \<or> (\<exists>x. m = Inr x \<and> f x = Inl e)"
  by (cases m) simp_all

lemma bindE_cong [fundef_cong]:
  "m = m' \<Longrightarrow> (\<And>x. m' = Inr x \<Longrightarrow> f x = f' x) \<Longrightarrow> bindE m f = bindE m' f'"
  by (cases m') simp_all

definition isOk :: "'e + 'a \<Rightarrow> bool" where
  "isOk m = (case m of Inl _ \<Rightarrow> False | Inr _ \<Rightarrow> True)"

lemma isOk_simps [simp]: "isOk (Inr x)" "\<not> isOk (Inl e)"
  by (simp_all add: isOk_def)

lemma isOk_iff: "isOk m \<longleftrightarrow> (\<exists>x. m = Inr x)"
  by (cases m) simp_all

text \<open>\<open>xs.map(f)\<close> where \<open>f\<close> may throw: the first error ends the loop.\<close>

fun mapE :: "('a \<Rightarrow> 'e + 'b) \<Rightarrow> 'a list \<Rightarrow> 'e + 'b list" where
  "mapE f [] = Inr []"
| "mapE f (x # xs) = bindE (f x) (\<lambda>y. bindE (mapE f xs) (\<lambda>ys. Inr (y # ys)))"

lemma mapE_cong [fundef_cong]:
  "xs = ys \<Longrightarrow> (\<And>x. x \<in> set ys \<Longrightarrow> f x = g x) \<Longrightarrow> mapE f xs = mapE g ys"
  by (induction xs arbitrary: ys) auto

lemma mapE_Inr_iff: "mapE f xs = Inr ys \<longleftrightarrow> list_all2 (\<lambda>x y. f x = Inr y) xs ys"
proof (induction xs arbitrary: ys)
  case Nil
  then show ?case by (cases ys) auto
next
  case (Cons x xs)
  then show ?case by (cases ys) (auto simp: err_simps)
qed

lemma mapE_Inr_map: "(\<And>x. x \<in> set xs \<Longrightarrow> f x = Inr (g x)) \<Longrightarrow> mapE f xs = Inr (map g xs)"
  by (induction xs) auto

lemma mapE_length: "mapE f xs = Inr ys \<Longrightarrow> length ys = length xs"
  by (auto simp: mapE_Inr_iff dest: list_all2_lengthD)

lemma mapE_member:
  "mapE f xs = Inr ys \<Longrightarrow> y \<in> set ys \<Longrightarrow> \<exists>x \<in> set xs. f x = Inr y"
  by (induction xs arbitrary: ys) (auto simp: err_simps)

text \<open>The same loop when the callback also updates variables of the enclosing function.\<close>

fun mapES :: "('a \<Rightarrow> 's \<Rightarrow> 'e + 'b \<times> 's) \<Rightarrow> 'a list \<Rightarrow> 's \<Rightarrow> 'e + 'b list \<times> 's" where
  "mapES f [] s = Inr ([], s)"
| "mapES f (x # xs) s =
     (case f x s of Inl e \<Rightarrow> Inl e
      | Inr (y, s') \<Rightarrow>
          (case mapES f xs s' of Inl e \<Rightarrow> Inl e | Inr (ys, s'') \<Rightarrow> Inr (y # ys, s'')))"

lemma mapES_cong [fundef_cong]:
  "xs = ys \<Longrightarrow> s = t \<Longrightarrow> (\<And>x u. x \<in> set ys \<Longrightarrow> f x u = g x u) \<Longrightarrow> mapES f xs s = mapES g ys t"
proof (induction xs arbitrary: ys s t)
  case Nil
  then show ?case by auto
next
  case (Cons x xs)
  then have "\<And>s. mapES f xs s = mapES g xs s" by auto
  with Cons.prems show ?case by (auto split: sum.splits prod.splits)
qed

section \<open>JavaScript list idioms\<close>

text \<open>\<open>[...new Set(xs)]\<close>: each value once, in order of first occurrence.\<close>

definition js_dedup :: "'a list \<Rightarrow> 'a list" where
  "js_dedup xs = rev (remdups (rev xs))"

lemma set_js_dedup [simp, js_simps]: "set (js_dedup xs) = set xs"
  by (simp add: js_dedup_def)

lemma distinct_js_dedup [simp, js_simps]: "distinct (js_dedup xs)"
  by (simp add: js_dedup_def)

lemma js_dedup_distinct [js_simps]: "distinct xs \<Longrightarrow> js_dedup xs = xs"
  by (simp add: js_dedup_def distinct_remdups_id)

lemma js_dedup_idem [simp]: "js_dedup (js_dedup xs) = js_dedup xs"
  by (simp add: js_dedup_distinct)

lemma length_js_dedup_le: "length (js_dedup xs) \<le> length xs"
  by (simp add: js_dedup_def) (metis length_remdups_leq length_rev)

text \<open>\<open>xs.at(-1)\<close> and \<open>xs[0]\<close>: \<open>undefined\<close> on an empty array.\<close>

definition js_last :: "'a list \<Rightarrow> 'a option" where
  "js_last xs = (if xs = [] then None else Some (last xs))"

definition js_first :: "'a list \<Rightarrow> 'a option" where
  "js_first xs = (case xs of [] \<Rightarrow> None | x # _ \<Rightarrow> Some x)"

lemma js_first_Some: "js_first xs = Some x \<Longrightarrow> x \<in> set xs"
  by (auto simp: js_first_def split: list.splits)

lemma find_Some_mem: "find P xs = Some x \<Longrightarrow> x \<in> set xs \<and> P x"
  by (auto simp: find_Some_iff)

lemma sum_list_map_filter_le:
  "(\<And>x. x \<in> set xs \<Longrightarrow> (0::'a::linordered_idom) \<le> f x) \<Longrightarrow>
   sum_list (map f (filter P xs)) \<le> sum_list (map f xs)"
proof (induction xs)
  case Nil
  then show ?case by simp
next
  case (Cons x xs)
  then have "0 \<le> f x" and "sum_list (map f (filter P xs)) \<le> sum_list (map f xs)" by simp_all
  then show ?case by simp
qed

section \<open>JavaScript string idioms\<close>

text \<open>The white space that \<open>String.prototype.trim\<close> and \<open>\s\<close> know below code unit 256.\<close>

definition js_space :: "char \<Rightarrow> bool" where
  "js_space c \<longleftrightarrow> c \<in> set [CHR 0x09, CHR 0x0A, CHR 0x0B, CHR 0x0C, CHR 0x0D, CHR 0x20, CHR 0xA0]"

definition js_trim :: "string \<Rightarrow> string" where
  "js_trim s = rev (dropWhile js_space (rev (dropWhile js_space s)))"

lemma js_trim_Nil [simp]: "js_trim [] = []"
  by (simp add: js_trim_def)

lemma dropWhile_idem_hd: "xs = [] \<or> \<not> P (hd xs) \<Longrightarrow> dropWhile P xs = xs"
  by (cases xs) auto

lemma js_trim_hd: "js_trim s \<noteq> [] \<Longrightarrow> \<not> js_space (hd (js_trim s))"
proof -
  assume ne: "js_trim s \<noteq> []"
  let ?t = "dropWhile js_space s"
  obtain pre where pre: "rev ?t = pre @ dropWhile js_space (rev ?t)"
    by (metis takeWhile_dropWhile_id)
  then have t: "?t = js_trim s @ rev pre"
    by (metis js_trim_def rev_append rev_rev_ident)
  then have "hd ?t = hd (js_trim s)" using ne by simp
  moreover from t ne have "?t \<noteq> []" by auto
  ultimately show ?thesis by (metis hd_dropWhile)
qed

lemma js_trim_idem [simp, js_simps]: "js_trim (js_trim s) = js_trim s"
proof -
  have "dropWhile js_space (js_trim s) = js_trim s"
    using js_trim_hd by (intro dropWhile_idem_hd) blast
  then have "js_trim (js_trim s) = rev (dropWhile js_space (rev (js_trim s)))"
    by (simp add: js_trim_def)
  also have "\<dots> = js_trim s"
    by (simp add: js_trim_def dropWhile_idem_hd hd_dropWhile)
  finally show ?thesis .
qed

lemma length_js_trim_le: "length (js_trim s) \<le> length s"
proof -
  have "length (js_trim s) \<le> length (dropWhile js_space s)"
    unfolding js_trim_def by (metis length_dropWhile_le length_rev)
  also have "\<dots> \<le> length s" by (rule length_dropWhile_le)
  finally show ?thesis .
qed

lemma js_trim_plain: "list_all (\<lambda>c. \<not> js_space c) s \<Longrightarrow> js_trim s = s"
proof -
  assume a: "list_all (\<lambda>c. \<not> js_space c) s"
  then have "dropWhile js_space s = s" by (cases s) auto
  moreover from a have "dropWhile js_space (rev s) = rev s"
    by (cases "rev s") (auto simp: list_all_iff)
  ultimately show ?thesis by (simp add: js_trim_def)
qed

text \<open>\<open>toLowerCase\<close> on the code units below 256.\<close>

definition js_lower :: "string \<Rightarrow> string" where
  "js_lower s = map (\<lambda>c. let n = (of_char c :: nat) in
     if 65 \<le> n \<and> n \<le> 90 \<or> 192 \<le> n \<and> n \<le> 222 \<and> n \<noteq> 215 then char_of (n + 32) else c) s"

text \<open>\<open>xs.join(sep)\<close> and \<open>s.split(c)\<close> for a one-character separator.\<close>

fun js_join :: "string \<Rightarrow> string list \<Rightarrow> string" where
  "js_join sep [] = []"
| "js_join sep [x] = x"
| "js_join sep (x # y # ys) = x @ sep @ js_join sep (y # ys)"

fun js_split :: "char \<Rightarrow> string \<Rightarrow> string list" where
  "js_split c [] = [[]]"
| "js_split c (x # xs) =
     (if x = c then [] # js_split c xs
      else (case js_split c xs of [] \<Rightarrow> [[x]] | w # ws \<Rightarrow> (x # w) # ws))"

lemma js_split_nonempty [simp]: "js_split c s \<noteq> []"
  by (induction s) (auto split: list.splits)

lemma js_join_split: "js_join [c] (js_split c s) = s"
proof (induction s)
  case Nil
  then show ?case by simp
next
  case (Cons x xs)
  obtain w ws where "js_split c xs = w # ws" by (meson js_split_nonempty list.exhaust)
  with Cons show ?case by (cases ws) auto
qed

lemma js_split_no_sep: "w \<in> set (js_split c s) \<Longrightarrow> c \<notin> set w"
proof (induction s arbitrary: w)
  case Nil
  then show ?case by simp
next
  case (Cons x xs)
  then show ?case by (force split: if_splits list.splits)
qed

end
