(* ===== verification/JsValues.thy ===== *)
theory JsValues
  imports Prelude
begin

text \<open>
  JavaScript values as the request handlers receive them (\<open>unknown\<close> after
  \<open>JSON.parse\<close>), with the conversions the code applies to them: property lookup,
  truthiness, \<open>String(v)\<close>, \<open>Number(v)\<close>, \<open>Number.isInteger\<close> and
  \<open>JSON.stringify\<close>.  Numbers are rationals (the finite doubles); a conversion that
  yields \<open>NaN\<close> or an infinity is \<open>None\<close>, which every check of the code treats
  alike.  The host functions that are not part of the sources (number printing, SHA-256,
  the URL parser) are the fields of \<open>host\<close>, a parameter of the model.
\<close>

datatype json =
    JNull
  | JBool bool
  | JNum rat
  | JStr string
  | JArr "json list"
  | JObj "(string \<times> json) list"

record host =
  num_str :: "rat \<Rightarrow> string"
  sha256 :: "string \<Rightarrow> string"
  url_protocol :: "string \<Rightarrow> string option"

text \<open>\<open>o.k\<close> (\<open>None\<close> is \<open>undefined\<close>) and \<open>Object.keys(o)\<close>.\<close>

definition jget :: "(string \<times> json) list \<Rightarrow> string \<Rightarrow> json option" where
  "jget kvs k = map_of kvs k"

definition jkeys :: "(string \<times> json) list \<Rightarrow> string list" where
  "jkeys kvs = map fst kvs"

fun truthy :: "json option \<Rightarrow> bool" where
  "truthy None = False"
| "truthy (Some JNull) = False"
| "truthy (Some (JBool b)) = b"
| "truthy (Some (JNum n)) = (n \<noteq> 0)"
| "truthy (Some (JStr s)) = (s \<noteq> [])"
| "truthy (Some (JArr _)) = True"
| "truthy (Some (JObj _)) = True"

text \<open>\<open>v == null\<close> and \<open>v ?? d\<close>.\<close>

definition nullish :: "json option \<Rightarrow> bool" where
  "nullish v = (v = None \<or> v = Some JNull)"

definition coalesce :: "json option \<Rightarrow> json \<Rightarrow> json" where
  "coalesce v d = (case v of None \<Rightarrow> d | Some JNull \<Rightarrow> d | Some j \<Rightarrow> j)"

lemma coalesce_simps [simp]:
  "coalesce None d = d" "coalesce (Some JNull) d = d"
  "coalesce (Some (JNum n)) d = JNum n" "coalesce (Some (JStr s)) d = JStr s"
  "coalesce (Some (JBool b)) d = JBool b" "coalesce (Some (JArr xs)) d = JArr xs"
  "coalesce (Some (JObj kvs)) d = JObj kvs"
  by (simp_all add: coalesce_def)

section \<open>Conversions\<close>

definition js_digit :: "char \<Rightarrow> bool" where
  "js_digit c \<longleftrightarrow> c \<in> set ''0123456789''"

definition digit_value :: "char \<Rightarrow> nat" where
  "digit_value c = (of_char c :: nat) - 48"

definition digits_value :: "string \<Rightarrow> rat" where
  "digits_value ds = foldl (\<lambda>a c. 10 * a + of_nat (digit_value c)) 0 ds"

definition hex_digit :: "char \<Rightarrow> bool" where
  "hex_digit c \<longleftrightarrow> c \<in> set ''0123456789abcdefABCDEF''"

definition hex_value :: "char \<Rightarrow> nat" where
  "hex_value c = (let n = (of_char c :: nat)
     in if n \<le> 57 then n - 48 else if n \<le> 70 then n - 55 else n - 87)"

definition radix_value :: "nat \<Rightarrow> string \<Rightarrow> rat option" where
  "radix_value b ds =
     (if ds \<noteq> [] \<and> list_all (\<lambda>c. hex_digit c \<and> hex_value c < b) ds
      then Some (foldl (\<lambda>a c. of_nat b * a + of_nat (hex_value c)) 0 ds) else None)"

text \<open>\<open>StrUnsignedDecimalLiteral\<close>: digits, fraction and exponent.\<close>

definition decimal_exponent :: "rat \<Rightarrow> string \<Rightarrow> rat option" where
  "decimal_exponent m r =
     (case r of
        [] \<Rightarrow> Some m
      | e # r' \<Rightarrow>
          if e \<noteq> CHR ''e'' \<and> e \<noteq> CHR ''E'' then None
          else (let neg = (case r' of c # _ \<Rightarrow> c = CHR ''-'' | [] \<Rightarrow> False);
                    ds = (case r' of c # r'' \<Rightarrow> if c = CHR ''-'' \<or> c = CHR ''+'' then r'' else r'
                          | [] \<Rightarrow> [])
                in if ds = [] \<or> \<not> list_all js_digit ds then None
                   else let k = foldl (\<lambda>a c. 10 * a + digit_value c) 0 ds
                        in Some (if neg then m / 10 ^ k else m * 10 ^ k)))"

definition decimal_value :: "string \<Rightarrow> rat option" where
  "decimal_value s =
     (let ip = takeWhile js_digit s;
          r = dropWhile js_digit s;
          fp = (case r of c # r' \<Rightarrow> if c = CHR ''.'' then takeWhile js_digit r' else [] | [] \<Rightarrow> []);
          rest = (case r of c # r' \<Rightarrow> if c = CHR ''.'' then dropWhile js_digit r' else r | [] \<Rightarrow> [])
      in if ip = [] \<and> fp = [] then None
         else decimal_exponent (digits_value ip + digits_value fp / 10 ^ length fp) rest)"

text \<open>\<open>Number(s)\<close> of a string.\<close>

definition string_number :: "string \<Rightarrow> rat option" where
  "string_number s =
     (let t = js_trim s in
      case t of
        [] \<Rightarrow> Some 0
      | c # r \<Rightarrow>
          if c = CHR ''-'' then map_option uminus (decimal_value r)
          else if c = CHR ''+'' then decimal_value r
          else if c = CHR ''0'' \<and> r \<noteq> [] \<and> hd r \<in> set ''xX'' then radix_value 16 (tl r)
          else if c = CHR ''0'' \<and> r \<noteq> [] \<and> hd r \<in> set ''oO'' then radix_value 8 (tl r)
          else if c = CHR ''0'' \<and> r \<noteq> [] \<and> hd r \<in> set ''bB'' then radix_value 2 (tl r)
          else decimal_value t)"

text \<open>
  \<open>Number(v)\<close>.  An array goes through its string: no element is the empty string, one
  element is that element's string (\<open>null\<close> empty, a number's string reads back as the
  number), two or more contain a comma.
\<close>

fun js_number :: "json \<Rightarrow> rat option" where
  "js_number JNull = Some 0"
| "js_number (JBool b) = Some (if b then 1 else 0)"
| "js_number (JNum n) = Some n"
| "js_number (JStr s) = string_number s"
| "js_number (JArr []) = Some 0"
| "js_number (JArr [JBool _]) = None"
| "js_number (JArr [x]) = js_number x"
| "js_number (JArr (_ # _ # _)) = None"
| "js_number (JObj _) = None"

definition js_number_opt :: "json option \<Rightarrow> rat option" where
  "js_number_opt v = (case v of None \<Rightarrow> None | Some j \<Rightarrow> js_number j)"

definition rat_is_int :: "rat \<Rightarrow> bool" where
  "rat_is_int r \<longleftrightarrow> of_int \<lfloor>r\<rfloor> = r"

text \<open>\<open>Number.isInteger(v)\<close>: only a value of type number.\<close>

fun js_is_integer :: "json \<Rightarrow> bool" where
  "js_is_integer (JNum n) = rat_is_int n"
| "js_is_integer _ = False"

text \<open>\<open>String(v)\<close>.\<close>

fun js_string :: "host \<Rightarrow> json \<Rightarrow> string" where
  "js_string h JNull = ''null''"
| "js_string h (JBool b) = (if b then ''true'' else ''false'')"
| "js_string h (JNum n) = num_str h n"
| "js_string h (JStr s) = s"
| "js_string h (JArr xs) =
     js_join '','' (map (\<lambda>x. case x of JNull \<Rightarrow> [] | _ \<Rightarrow> js_string h x) xs)"
| "js_string h (JObj _) = ''[object Object]''"

section \<open>JSON.stringify\<close>

definition hex4 :: "nat \<Rightarrow> string" where
  "hex4 n = map (\<lambda>k. ''0123456789abcdef'' ! ((n div 16 ^ k) mod 16)) [3, 2, 1, 0]"

definition json_escape_char :: "char \<Rightarrow> string" where
  "json_escape_char c =
     (if c = CHR 0x22 then [CHR 0x5C, CHR 0x22]
      else if c = CHR 0x5C then [CHR 0x5C, CHR 0x5C]
      else if c = CHR 0x08 then CHR 0x5C # ''b''
      else if c = CHR 0x09 then CHR 0x5C # ''t''
      else if c = CHR 0x0A then CHR 0x5C # ''n''
      else if c = CHR 0x0C then CHR 0x5C # ''f''
      else if c = CHR 0x0D then CHR 0x5C # ''r''
      else if (of_char c :: nat) < 32 then CHR 0x5C # CHR ''u'' # hex4 (of_char c)
      else [c])"

definition json_quote :: "string \<Rightarrow> string" where
  "json_quote s = CHR 0x22 # concat (map json_escape_char s) @ [CHR 0x22]"

fun json_text :: "host \<Rightarrow> json \<Rightarrow> string" where
  "json_text h JNull = ''null''"
| "json_text h (JBool b) = (if b then ''true'' else ''false'')"
| "json_text h (JNum n) = num_str h n"
| "json_text h (JStr s) = json_quote s"
| "json_text h (JArr xs) = ''['' @ js_join '','' (map (json_text h) xs) @ '']''"
| "json_text h (JObj kvs) =
     ''{'' @ js_join '','' (map (\<lambda>(k, v). json_quote k @ '':'' @ json_text h v) kvs) @ ''}''"

section \<open>Lemmas\<close>

lemma jget_Nil [simp]: "jget [] k = None"
  by (simp add: jget_def)

lemma jget_Cons [simp]: "jget ((a, v) # kvs) k = (if a = k then Some v else jget kvs k)"
  by (simp add: jget_def)

lemma jkeys_simps [simp]: "jkeys [] = []" "jkeys ((a, v) # kvs) = a # jkeys kvs"
  by (simp_all add: jkeys_def)

lemma jget_append: "jget (xs @ ys) k = (case jget xs k of None \<Rightarrow> jget ys k | Some v \<Rightarrow> Some v)"
  by (simp add: jget_def map_add_def split: option.splits)

lemma jget_jkeys: "jget kvs k = Some v \<Longrightarrow> k \<in> set (jkeys kvs)"
  by (force simp: jget_def jkeys_def dest: map_of_SomeD)

lemma rat_is_int_of_int [simp]: "rat_is_int (of_int k)"
  by (simp add: rat_is_int_def)

lemma rat_is_int_numeral [simp]: "rat_is_int (numeral k)" "rat_is_int 0" "rat_is_int 1"
  by (simp_all add: rat_is_int_def)

lemma rat_is_int_Ints: "rat_is_int r \<longleftrightarrow> r \<in> \<int>"
  by (metis Ints_cases Ints_of_int rat_is_int_def rat_is_int_of_int)

end
