(* ===== verification/KnowledgeContent.thy ===== *)
theory KnowledgeContent
  imports JsValues
begin

text \<open>
  The content validator of the knowledge base,
  \<^verbatim>\<open>apps/api/src/modules/knowledge/knowledge.content.ts\<close>: identifier, text, tag and
  link checks, and \<open>canonicalKnowledgeContent\<close>, which accepts only the editor's small
  JSON schema.  \<open>normalize\<close> is translated with its two captured variables (the node
  counter and the list of image identifiers) as explicit state.  The lemmas relate it to a
  declarative grammar \<open>valid_node\<close>: whatever is accepted satisfies the grammar, and a
  document of the grammar is accepted unchanged.
\<close>

datatype kerr =
    BadId | BadText | EmptyText | TextTooLong nat | BadIdList | TooManyTags
  | BadLink | LinkScheme | ContentTooLarge | TooComplex | UnsupportedNode | BadAttrs
  | UnsupportedAttr | BadLevel | BadNumbering | BadSpan | BadWidths | BadCallout
  | MissingAttrs | MarksNotArray | BadMark | BadLinkAttr | BadMarkAttr | MarkPosition
  | BadTextNode | BadNode | BadChildren | ChildPosition | NotDoc | JsTypeError

datatype kmark = KMark (mark_type: string) (mark_attrs: "(string \<times> json) list option")

text \<open>\<open>KnowledgeContentNode\<close> of the contracts package; an absent \<open>attrs\<close> is \<open>[]\<close>
  (the validator emits \<open>attrs\<close> only when it is not empty).\<close>

datatype knode =
  KNode (ktype: string) (ktext: "string option") (kattrs: "(string \<times> json) list")
    (kmarks: "kmark list") (kcontent: "knode list option")

section \<open>Identifiers, texts, tags and links\<close>

definition uuid_shape :: string where
  "uuid_shape = ''xxxxxxxx-xxxx-xxxx-xxxx-xxxxxxxxxxxx''"

definition knowledgeUuidPattern :: "string \<Rightarrow> bool" where
  "knowledgeUuidPattern s \<longleftrightarrow>
     list_all2 (\<lambda>p c. if p = CHR ''-'' then c = CHR ''-'' else hex_digit c) uuid_shape s"

definition knowledgeId :: "json option \<Rightarrow> kerr + string" where
  "knowledgeId v = (case v of
     Some (JStr s) \<Rightarrow> if knowledgeUuidPattern s then Inr s else Inl BadId
   | _ \<Rightarrow> Inl BadId)"

text \<open>\<open>String(value ?? "")\<close> once the value is known to be a string or nullish.\<close>

definition text_value :: "json option \<Rightarrow> string option" where
  "text_value v = (case v of
     None \<Rightarrow> Some [] | Some JNull \<Rightarrow> Some [] | Some (JStr s) \<Rightarrow> Some s | _ \<Rightarrow> None)"

definition knowledgeText :: "json option \<Rightarrow> nat \<Rightarrow> bool \<Rightarrow> kerr + string" where
  "knowledgeText v mx required = (case text_value v of
     None \<Rightarrow> Inl BadText
   | Some s \<Rightarrow>
       (let text = js_trim s
        in if mx < length text \<or> required \<and> text = []
           then Inl (if required \<and> text = [] then EmptyText else TextTooLong mx)
           else Inr text))"

definition knowledgeIds :: "json option \<Rightarrow> nat \<Rightarrow> kerr + string list" where
  "knowledgeIds v mx = (case v of
     Some (JArr xs) \<Rightarrow>
       if mx < length xs then Inl BadIdList
       else bindE (mapE (\<lambda>x. knowledgeId (Some x)) xs) (\<lambda>ids. Inr (js_dedup ids))
   | _ \<Rightarrow> Inl BadIdList)"

definition knowledgeTags :: "json option \<Rightarrow> kerr + string list" where
  "knowledgeTags v = (case v of
     Some (JArr xs) \<Rightarrow>
       if 20 < length xs then Inl TooManyTags
       else bindE (mapE (\<lambda>x. knowledgeText (Some x) 100 True) xs)
              (\<lambda>tags. Inr (sort (js_dedup tags)))
   | _ \<Rightarrow> Inl TooManyTags)"

definition knowledgeSafeLink :: "host \<Rightarrow> json option \<Rightarrow> kerr + string" where
  "knowledgeSafeLink h v = (case v of
     Some (JStr s) \<Rightarrow>
       if 2000 < length s \<or> list_ex js_space s \<or> list_ex (\<lambda>c. (of_char c :: nat) < 32) s then Inl BadLink
       else (case url_protocol h s of
               None \<Rightarrow> Inl LinkScheme
             | Some p \<Rightarrow> if p \<in> set [''https:'', ''http:'', ''mailto:''] then Inr s else Inl LinkScheme)
   | _ \<Rightarrow> Inl BadLink)"

section \<open>Nodes, attributes and marks\<close>

definition node_types :: "string list" where
  "node_types =
     [''doc'', ''paragraph'', ''heading'', ''blockquote'', ''bulletList'', ''orderedList'',
      ''listItem'', ''codeBlock'', ''horizontalRule'', ''hardBreak'', ''text'',
      ''attachmentImage'', ''table'', ''tableRow'', ''tableCell'', ''tableHeader'', ''callout'']"

definition block_types :: "string list" where
  "block_types =
     [''paragraph'', ''heading'', ''blockquote'', ''bulletList'', ''orderedList'', ''codeBlock'',
      ''horizontalRule'', ''attachmentImage'', ''table'', ''callout'']"

definition allowedAttrs :: "string \<Rightarrow> string list" where
  "allowedAttrs t =
     (if t = ''heading'' then [''level'']
      else if t = ''orderedList'' then [''start'', ''type'']
      else if t = ''codeBlock'' then [''language'']
      else if t = ''attachmentImage'' then [''attachmentId'', ''alt'']
      else if t \<in> set [''tableCell'', ''tableHeader''] then [''colspan'', ''rowspan'', ''colwidth'']
      else if t = ''callout'' then [''kind'']
      else [])"

definition allowedChildren :: "string \<Rightarrow> string list" where
  "allowedChildren t =
     (if t = ''table'' then [''tableRow'']
      else if t = ''tableRow'' then [''tableCell'', ''tableHeader'']
      else if t \<in> set [''tableCell'', ''tableHeader'', ''callout''] then block_types
      else if t \<in> set [''paragraph'', ''heading''] then [''text'', ''hardBreak'']
      else if t = ''codeBlock'' then [''text'']
      else if t \<in> set [''bulletList'', ''orderedList''] then [''listItem'']
      else if t \<in> set [''doc'', ''blockquote'', ''listItem''] then block_types
      else [])"

definition spanAttr :: "(string \<times> json) list \<Rightarrow> string \<Rightarrow> kerr + rat" where
  "spanAttr a k = (case js_number (coalesce (jget a k) (JNum 1)) of
     Some n \<Rightarrow> if rat_is_int n \<and> 1 \<le> n \<and> n \<le> 100 then Inr n else Inl BadSpan
   | None \<Rightarrow> Inl BadSpan)"

definition widths_ok :: "json \<Rightarrow> bool" where
  "widths_ok w = (case w of
     JArr ws \<Rightarrow> length ws \<le> 100 \<and>
       list_all (\<lambda>x. case x of JNum n \<Rightarrow> rat_is_int n \<and> 20 \<le> n \<and> n \<le> 2000 | _ \<Rightarrow> False) ws
   | _ \<Rightarrow> False)"

type_synonym attrs_result = "kerr + (string \<times> json) list \<times> string list"

definition headingAttrs :: "(string \<times> json) list \<Rightarrow> attrs_result" where
  "headingAttrs a = (case js_number_opt (jget a ''level'') of
     Some l \<Rightarrow> if l \<in> set [1, 2, 3] then Inr ([(''level'', JNum l)], []) else Inl BadLevel
   | None \<Rightarrow> Inl BadLevel)"

definition orderedAttrs :: "(string \<times> json) list \<Rightarrow> attrs_result" where
  "orderedAttrs a = (case js_number (coalesce (jget a ''start'') (JNum 1)) of
     Some s \<Rightarrow> if rat_is_int s \<and> 1 \<le> s \<and> s \<le> 10000 then Inr ([(''start'', JNum s)], [])
               else Inl BadNumbering
   | None \<Rightarrow> Inl BadNumbering)"

definition cellAttrs :: "(string \<times> json) list \<Rightarrow> attrs_result" where
  "cellAttrs a = bindE (spanAttr a ''colspan'') (\<lambda>c. bindE (spanAttr a ''rowspan'') (\<lambda>r.
     let w = coalesce (jget a ''colwidth'') JNull
     in if w \<noteq> JNull \<and> \<not> widths_ok w then Inl BadWidths
        else Inr ([(''colspan'', JNum c), (''rowspan'', JNum r), (''colwidth'', w)], [])))"

definition calloutAttrs :: "host \<Rightarrow> (string \<times> json) list \<Rightarrow> attrs_result" where
  "calloutAttrs h a = (let kind = coalesce (jget a ''kind'') (JStr ''info'')
     in if js_string h kind \<in> set [''info'', ''warning'', ''success'']
        then Inr ([(''kind'', kind)], []) else Inl BadCallout)"

definition imageAttrs :: "(string \<times> json) list \<Rightarrow> attrs_result" where
  "imageAttrs a =
     bindE (knowledgeId (jget a ''attachmentId'')) (\<lambda>i.
     bindE (knowledgeText (jget a ''alt'') 200 False) (\<lambda>alt.
       Inr ([(''attachmentId'', JStr i), (''alt'', JStr alt)], [i])))"

definition normAttrs :: "host \<Rightarrow> string \<Rightarrow> json option \<Rightarrow> attrs_result" where
  "normAttrs h t v =
     (if \<not> truthy v then
        (if t \<in> set [''heading'', ''attachmentImage''] then Inl MissingAttrs else Inr ([], []))
      else case v of
        Some (JObj a) \<Rightarrow>
          if \<not> list_all (\<lambda>k. k \<in> set (allowedAttrs t)) (jkeys a) then Inl UnsupportedAttr
          else if t = ''heading'' then headingAttrs a
          else if t = ''orderedList'' then orderedAttrs a
          else if t = ''codeBlock'' then Inr ([(''language'', JNull)], [])
          else if t \<in> set [''tableCell'', ''tableHeader''] then cellAttrs a
          else if t = ''callout'' then calloutAttrs h a
          else if t = ''attachmentImage'' then imageAttrs a
          else Inr ([], [])
      | _ \<Rightarrow> Inl BadAttrs)"

definition mark_types :: "string list" where
  "mark_types = [''bold'', ''italic'', ''strike'', ''underline'', ''code'', ''link'']"

definition linkAttrs :: "string \<Rightarrow> (string \<times> json) list" where
  "linkAttrs href = [(''href'', JStr href), (''target'', JStr ''_blank''),
     (''rel'', JStr ''noopener noreferrer nofollow''), (''class'', JNull)]"

definition normMark :: "host \<Rightarrow> json \<Rightarrow> kerr + kmark" where
  "normMark h raw = (case raw of
     JObj mark \<Rightarrow>
       (case jget mark ''attrs'' of
          Some (JBool _) \<Rightarrow> Inl BadMark | Some (JNum _) \<Rightarrow> Inl BadMark
        | Some (JStr _) \<Rightarrow> Inl BadMark | Some (JArr _) \<Rightarrow> Inl BadMark
        | v \<Rightarrow>
          (let a = (case v of Some (JObj a) \<Rightarrow> a | _ \<Rightarrow> []) in
           case jget mark ''type'' of
             Some (JStr t) \<Rightarrow>
               if t \<notin> set mark_types \<or> \<not> list_all (\<lambda>k. k \<in> set [''type'', ''attrs'']) (jkeys mark) then Inl BadMark
               else if t = ''link'' then
                 (if \<not> list_all (\<lambda>k. k \<in> set [''href'', ''target'', ''rel'', ''class'']) (jkeys a) then Inl BadLinkAttr
                  else bindE (knowledgeSafeLink h (jget a ''href'')) (\<lambda>href.
                    Inr (KMark ''link'' (Some (linkAttrs href)))))
               else if a \<noteq> [] then Inl BadMarkAttr
               else Inr (KMark t None)
           | _ \<Rightarrow> Inl BadMark))
   | _ \<Rightarrow> Inl BadMark)"

definition normMarks :: "host \<Rightarrow> json option \<Rightarrow> kerr + kmark list option" where
  "normMarks h v = (case v of
     None \<Rightarrow> Inr None
   | Some JNull \<Rightarrow> Inr None
   | Some (JArr ms) \<Rightarrow> bindE (mapE (normMark h) ms) (\<lambda>ks. Inr (Some ks))
   | _ \<Rightarrow> Inl MarksNotArray)"

text \<open>\<open>node.content\<close>: a falsy value other than \<open>null\<close> and \<open>undefined\<close> passes the array
  check and then fails on \<open>.some\<close>, which is a \<open>TypeError\<close>.\<close>

definition childList :: "json option \<Rightarrow> kerr + json list option" where
  "childList v = (case v of
     None \<Rightarrow> Inr None
   | Some JNull \<Rightarrow> Inr None
   | Some (JArr xs) \<Rightarrow> Inr (Some xs)
   | _ \<Rightarrow> if truthy v then Inl BadChildren else Inl JsTypeError)"

definition childAllowed :: "string \<Rightarrow> json \<Rightarrow> bool" where
  "childAllowed t c = (case c of
     JObj kvs \<Rightarrow> (case jget kvs ''type'' of Some (JStr u) \<Rightarrow> u \<in> set (allowedChildren t) | _ \<Rightarrow> False)
   | _ \<Rightarrow> False)"

definition textNode :: "(string \<times> json) list \<Rightarrow> kmark list option \<Rightarrow> kerr + knode" where
  "textNode node marks = (case jget node ''text'' of
     Some (JStr s) \<Rightarrow>
       if s = [] \<or> truthy (jget node ''content'') \<or> truthy (jget node ''attrs'') then Inl BadTextNode
       else Inr (KNode ''text'' (Some s) [] (case marks of None \<Rightarrow> [] | Some ms \<Rightarrow> ms) None)
   | _ \<Rightarrow> Inl BadTextNode)"

section \<open>normalize and canonicalKnowledgeContent\<close>

function normalize :: "host \<Rightarrow> nat \<Rightarrow> json \<Rightarrow> nat \<times> string list \<Rightarrow> kerr + knode \<times> (nat \<times> string list)" where
  "normalize h depth raw st =
     (case raw of
        JObj node \<Rightarrow>
          if 10000 < fst st + 1 \<or> 25 < depth then Inl TooComplex
          else (case jget node ''type'' of
            Some (JStr t) \<Rightarrow>
              if t \<notin> set node_types
                 \<or> \<not> list_all (\<lambda>k. k \<in> set [''type'', ''text'', ''attrs'', ''marks'', ''content'']) (jkeys node)
              then Inl UnsupportedNode
              else (case normAttrs h t (jget node ''attrs'') of Inl e \<Rightarrow> Inl e | Inr (attrs, ids) \<Rightarrow>
                   (case normMarks h (jget node ''marks'') of Inl e \<Rightarrow> Inl e | Inr marks \<Rightarrow>
                      if marks \<noteq> None \<and> (t \<noteq> ''text'' \<or> 8 < length (the marks)) then Inl MarkPosition
                      else if t = ''text'' then
                        (case textNode node marks of Inl e \<Rightarrow> Inl e
                         | Inr n \<Rightarrow> Inr (n, (fst st + 1, snd st @ ids)))
                      else if \<not> nullish (jget node ''text'') then Inl BadNode
                      else (case childList (jget node ''content'') of
                          Inl e \<Rightarrow> Inl e
                        | Inr None \<Rightarrow> Inr (KNode t None attrs [] None, (fst st + 1, snd st @ ids))
                        | Inr (Some xs) \<Rightarrow>
                            if \<not> list_all (childAllowed t) xs then Inl ChildPosition
                            else (case mapES (normalize h (Suc depth)) xs (fst st + 1, snd st @ ids) of
                                Inl e \<Rightarrow> Inl e
                              | Inr (cs, st') \<Rightarrow> Inr (KNode t None attrs [] (Some cs), st')))))
          | _ \<Rightarrow> Inl UnsupportedNode)
      | _ \<Rightarrow> Inl TooComplex)"
  by pat_completeness auto
termination
  by (relation "measure (\<lambda>(h, depth, raw, st). 26 - depth)") auto

declare normalize.simps [simp del]

fun plain :: "host \<Rightarrow> knode \<Rightarrow> string" where
  "plain h (KNode t txt attrs marks content) =
     (if t = ''text'' then (case txt of None \<Rightarrow> [] | Some s \<Rightarrow> s)
      else if t = ''hardBreak'' then [CHR 0x0A]
      else if t = ''attachmentImage'' then js_string h (coalesce (jget attrs ''alt'') (JStr []))
      else concat (map (plain h) (case content of None \<Rightarrow> [] | Some cs \<Rightarrow> cs)) @
           (if t \<in> set [''paragraph'', ''heading'', ''listItem'', ''codeBlock'', ''blockquote'']
            then [CHR 0x0A] else []))"

text \<open>The node as the JSON object the validator returns, with its key order.\<close>

fun mark_json :: "kmark \<Rightarrow> json" where
  "mark_json (KMark t a) =
     JObj ((''type'', JStr t) # (case a of None \<Rightarrow> [] | Some kvs \<Rightarrow> [(''attrs'', JObj kvs)]))"

fun node_json :: "knode \<Rightarrow> json" where
  "node_json (KNode t txt attrs marks content) =
     JObj ((''type'', JStr t) #
       (case txt of None \<Rightarrow> [] | Some s \<Rightarrow> [(''text'', JStr s)]) @
       (if attrs = [] then [] else [(''attrs'', JObj attrs)]) @
       (if marks = [] then [] else [(''marks'', JArr (map mark_json marks))]) @
       (case content of None \<Rightarrow> [] | Some cs \<Rightarrow> [(''content'', JArr (map node_json cs))]))"

record canonical =
  docContent :: knode
  contentText :: string
  contentHash :: string
  imageIds :: "string list"

definition canonicalKnowledgeContent :: "host \<Rightarrow> json \<Rightarrow> kerr + canonical" where
  "canonicalKnowledgeContent h v =
     (if 500000 < length (json_text h v) then Inl ContentTooLarge
      else case normalize h 0 v (0, []) of
        Inl e \<Rightarrow> Inl e
      | Inr (n, (_, ids)) \<Rightarrow>
          if ktype n \<noteq> ''doc'' then Inl NotDoc
          else Inr \<lparr>docContent = n, contentText = js_trim (plain h n),
                    contentHash = sha256 h (json_text h (node_json n)), imageIds = js_dedup ids\<rparr>)"

end
