(* ===== verification/KnowledgeContentLaws.thy ===== *)
theory KnowledgeContentLaws
  imports KnowledgeContent
begin

text \<open>
  The grammar of canonical documents and the correctness of the validator: soundness (what
  it accepts is in the grammar, within the size and depth limits), completeness (a document
  of the grammar is accepted unchanged), and the facts about identifiers, texts, tags and
  links that other components use.
\<close>

named_theorems canon \<open>facts that rewrite the validator's local checks\<close>

section \<open>The grammar\<close>

definition valid_heading :: "(string \<times> json) list \<Rightarrow> bool" where
  "valid_heading a \<longleftrightarrow> a \<in> set (map (\<lambda>l. [(''level'', JNum l)]) [1, 2, 3])"

fun valid_ordered :: "(string \<times> json) list \<Rightarrow> bool" where
  "valid_ordered [(k, JNum s)] = (k = ''start'' \<and> rat_is_int s \<and> 1 \<le> s \<and> s \<le> 10000)"
| "valid_ordered _ = False"

fun valid_cell :: "(string \<times> json) list \<Rightarrow> bool" where
  "valid_cell [(k1, JNum c), (k2, JNum r), (k3, w)] =
     (k1 = ''colspan'' \<and> k2 = ''rowspan'' \<and> k3 = ''colwidth'' \<and>
      rat_is_int c \<and> 1 \<le> c \<and> c \<le> 100 \<and> rat_is_int r \<and> 1 \<le> r \<and> r \<le> 100 \<and>
      (w = JNull \<or> widths_ok w))"
| "valid_cell _ = False"

fun valid_callout :: "host \<Rightarrow> (string \<times> json) list \<Rightarrow> bool" where
  "valid_callout h [(k, v)] =
     (k = ''kind'' \<and> v \<noteq> JNull \<and> js_string h v \<in> set [''info'', ''warning'', ''success''])"
| "valid_callout h _ = False"

fun valid_image :: "(string \<times> json) list \<Rightarrow> bool" where
  "valid_image [(k1, JStr i), (k2, JStr alt)] =
     (k1 = ''attachmentId'' \<and> k2 = ''alt'' \<and> knowledgeUuidPattern i \<and>
      length alt \<le> 200 \<and> js_trim alt = alt)"
| "valid_image _ = False"

fun_cases valid_orderedE: "valid_ordered x"
fun_cases valid_cellE: "valid_cell x"
fun_cases valid_calloutE: "valid_callout h x"
fun_cases valid_imageE: "valid_image x"

definition valid_attrs :: "host \<Rightarrow> string \<Rightarrow> (string \<times> json) list \<Rightarrow> bool" where
  "valid_attrs h t attrs =
     (if t = ''heading'' then valid_heading attrs
      else if t = ''attachmentImage'' then valid_image attrs
      else attrs = [] \<or>
        (if t = ''orderedList'' then valid_ordered attrs
         else if t = ''codeBlock'' then attrs = [(''language'', JNull)]
         else if t \<in> set [''tableCell'', ''tableHeader''] then valid_cell attrs
         else if t = ''callout'' then valid_callout h attrs
         else False))"

definition attr_images :: "string \<Rightarrow> (string \<times> json) list \<Rightarrow> string list" where
  "attr_images t attrs =
     (if t = ''attachmentImage'' then (case attrs of (_, JStr i) # _ \<Rightarrow> [i] | _ \<Rightarrow> []) else [])"

definition safe_href :: "host \<Rightarrow> string \<Rightarrow> bool" where
  "safe_href h s \<longleftrightarrow> length s \<le> 2000 \<and> list_all (\<lambda>c. \<not> js_space c \<and> \<not> (of_char c :: nat) < 32) s \<and>
     url_protocol h s \<in> set (map Some [''https:'', ''http:'', ''mailto:''])"

fun valid_mark :: "host \<Rightarrow> kmark \<Rightarrow> bool" where
  "valid_mark h (KMark t a) =
     (if t = ''link'' then
        (case a of Some ((_, JStr href) # r) \<Rightarrow> a = Some (linkAttrs href) \<and> safe_href h href | _ \<Rightarrow> False)
      else t \<in> set mark_types \<and> a = None)"

fun valid_node :: "host \<Rightarrow> nat \<Rightarrow> knode \<Rightarrow> bool" where
  "valid_node h depth (KNode t txt attrs marks content) =
     (depth \<le> 25 \<and> t \<in> set node_types \<and> valid_attrs h t attrs \<and>
      (if t = ''text'' then
         (case txt of Some s \<Rightarrow> s \<noteq> [] | None \<Rightarrow> False) \<and> content = None \<and>
         length marks \<le> 8 \<and> list_all (valid_mark h) marks
       else txt = None \<and> marks = [] \<and>
         (case content of None \<Rightarrow> True
          | Some cs \<Rightarrow> list_all (\<lambda>c. ktype c \<in> set (allowedChildren t)) cs \<and>
                       list_all (valid_node h (Suc depth)) cs)))"

fun node_size :: "knode \<Rightarrow> nat" where
  "node_size (KNode t txt attrs marks content) =
     Suc (sum_list (map node_size (case content of None \<Rightarrow> [] | Some cs \<Rightarrow> cs)))"

fun node_images :: "knode \<Rightarrow> string list" where
  "node_images (KNode t txt attrs marks content) =
     attr_images t attrs @ concat (map node_images (case content of None \<Rightarrow> [] | Some cs \<Rightarrow> cs))"

section \<open>Identifiers, texts and links\<close>

lemma knowledgeId_Inr [canon]:
  "knowledgeId v = Inr s \<longleftrightarrow> v = Some (JStr s) \<and> knowledgeUuidPattern s"
  by (auto simp: knowledgeId_def split: option.splits json.splits)

lemma knowledgeText_Inr [canon]:
  "knowledgeText v mx r = Inr s \<Longrightarrow> length s \<le> mx \<and> js_trim s = s \<and> (r \<longrightarrow> s \<noteq> [])"
  by (auto simp: knowledgeText_def Let_def split: option.splits if_splits)

lemma knowledgeText_fix [canon]:
  "length s \<le> mx \<Longrightarrow> js_trim s = s \<Longrightarrow> (r \<Longrightarrow> s \<noteq> []) \<Longrightarrow> knowledgeText (Some (JStr s)) mx r = Inr s"
  by (auto simp: knowledgeText_def text_value_def)

lemma knowledgeSafeLink_Inr [canon]:
  "knowledgeSafeLink h v = Inr s \<longleftrightarrow> v = Some (JStr s) \<and> safe_href h s"
  by (auto simp: knowledgeSafeLink_def safe_href_def list_all_iff list_ex_iff
      split: option.splits json.splits if_splits)

lemma knowledgeTags_Inr:
  assumes "knowledgeTags v = Inr ts"
  shows "sorted ts \<and> distinct ts \<and> length ts \<le> 20 \<and> (\<forall>t \<in> set ts. t \<noteq> [] \<and> length t \<le> 100 \<and> js_trim t = t)"
proof -
  obtain xs ys where xs: "v = Some (JArr xs)" "length xs \<le> 20"
    and ys: "mapE (\<lambda>x. knowledgeText (Some x) 100 True) xs = Inr ys" and ts: "ts = sort (js_dedup ys)"
    using assms by (auto simp: knowledgeTags_def err_simps split: option.splits json.splits if_splits)
  have "length ts \<le> length ys" using length_js_dedup_le ts by simp
  with xs mapE_length [OF ys] have "length ts \<le> 20" by simp
  moreover have "\<forall>t \<in> set ts. t \<noteq> [] \<and> length t \<le> 100 \<and> js_trim t = t"
    using ts mapE_member [OF ys] by (auto dest!: knowledgeText_Inr)
  ultimately show ?thesis using ts by simp
qed

section \<open>Attributes and marks\<close>

lemma spanAttr_Inr:
  "spanAttr a k = Inr n \<Longrightarrow> rat_is_int n \<and> 1 \<le> n \<and> n \<le> 100"
  by (auto simp: spanAttr_def split: option.splits if_splits)

lemma headingAttrs_sound: "headingAttrs a = Inr (x, ids) \<Longrightarrow> valid_heading x \<and> ids = []"
  by (auto simp: headingAttrs_def valid_heading_def split: option.splits if_splits)

lemma orderedAttrs_sound: "orderedAttrs a = Inr (x, ids) \<Longrightarrow> valid_ordered x \<and> ids = []"
  by (auto simp: orderedAttrs_def split: option.splits if_splits)

lemma cellAttrs_sound: "cellAttrs a = Inr (x, ids) \<Longrightarrow> valid_cell x \<and> ids = []"
  by (auto simp: cellAttrs_def err_simps Let_def split: if_splits dest!: spanAttr_Inr)

lemma coalesce_not_null: "v \<noteq> JNull \<Longrightarrow> coalesce (Some v) d = v"
  by (cases v) auto

lemma coalesce_neq_null: "d \<noteq> JNull \<Longrightarrow> coalesce v d \<noteq> JNull"
  by (auto simp: coalesce_def split: option.splits json.splits)

lemma calloutAttrs_sound: "calloutAttrs h a = Inr (x, ids) \<Longrightarrow> valid_callout h x \<and> ids = []"
  by (auto simp: calloutAttrs_def coalesce_neq_null Let_def split: if_splits)

lemma imageAttrs_sound: "imageAttrs a = Inr (x, ids) \<Longrightarrow>
    valid_image x \<and> ids = attr_images ''attachmentImage'' x"
  by (auto simp: imageAttrs_def attr_images_def err_simps knowledgeId_Inr
      dest!: knowledgeText_Inr)

lemmas attrs_sound = headingAttrs_sound orderedAttrs_sound cellAttrs_sound calloutAttrs_sound
  imageAttrs_sound

lemma attr_images_other: "t \<noteq> ''attachmentImage'' \<Longrightarrow> attr_images t x = []"
  by (simp add: attr_images_def)

lemma normAttrs_sound:
  assumes "normAttrs h t v = Inr (attrs, ids)"
  shows "valid_attrs h t attrs \<and> ids = attr_images t attrs"
proof (cases "truthy v")
  case False
  with assms show ?thesis
    by (auto simp: normAttrs_def valid_attrs_def attr_images_def split: if_splits)
next
  case True
  with assms obtain a where v: "v = Some (JObj a)"
    by (auto simp: normAttrs_def split: option.splits json.splits)
  show ?thesis
    using assms unfolding v normAttrs_def
    by (auto simp: valid_attrs_def attr_images_other split: if_splits dest!: attrs_sound)
qed

definition attrs_json :: "(string \<times> json) list \<Rightarrow> json option" where
  "attrs_json attrs = (if attrs = [] then None else Some (JObj attrs))"

lemma headingAttrs_fix: "valid_heading x \<Longrightarrow> headingAttrs x = Inr (x, []) \<and> jkeys x = [''level'']"
  by (auto simp: headingAttrs_def valid_heading_def js_number_opt_def)

lemma orderedAttrs_fix: "valid_ordered x \<Longrightarrow> orderedAttrs x = Inr (x, []) \<and> jkeys x = [''start'']"
  by (elim valid_orderedE) (simp add: orderedAttrs_def)

lemma coalesce_null_id [simp]: "coalesce (Some w) JNull = w"
  by (cases w) auto

lemma cellAttrs_fix: "valid_cell x \<Longrightarrow>
    cellAttrs x = Inr (x, []) \<and> jkeys x = [''colspan'', ''rowspan'', ''colwidth'']"
  by (elim valid_cellE) (auto simp: cellAttrs_def spanAttr_def Let_def)

lemma calloutAttrs_fix: "valid_callout h x \<Longrightarrow> calloutAttrs h x = Inr (x, []) \<and> jkeys x = [''kind'']"
  by (elim valid_calloutE) (simp add: calloutAttrs_def coalesce_not_null Let_def)

lemma imageAttrs_fix: "valid_image x \<Longrightarrow>
    imageAttrs x = Inr (x, attr_images ''attachmentImage'' x) \<and> jkeys x = [''attachmentId'', ''alt'']"
  by (elim valid_imageE) (auto simp: imageAttrs_def attr_images_def knowledgeId_def knowledgeText_fix)

lemmas attrs_fix = headingAttrs_fix orderedAttrs_fix cellAttrs_fix calloutAttrs_fix imageAttrs_fix

lemma valid_attrs_Nil: "attrs = [] \<Longrightarrow> valid_attrs h t attrs \<Longrightarrow>
    t \<noteq> ''heading'' \<and> t \<noteq> ''attachmentImage''"
  by (auto simp: valid_attrs_def valid_heading_def split: if_splits)

lemma valid_attrs_kinds:
  assumes "valid_attrs h t attrs" "attrs \<noteq> []"
  obtains (heading) "t = ''heading''" "valid_heading attrs"
  | (image) "t = ''attachmentImage''" "valid_image attrs"
  | (ordered) "t = ''orderedList''" "valid_ordered attrs"
  | (code) "t = ''codeBlock''" "attrs = [(''language'', JNull)]"
  | (cell) "t = ''tableCell'' \<or> t = ''tableHeader''" "valid_cell attrs"
  | (callout) "t = ''callout''" "valid_callout h attrs"
  using assms unfolding valid_attrs_def by (simp split: if_splits)

lemma normAttrs_fix:
  assumes v: "valid_attrs h t attrs"
  shows "normAttrs h t (attrs_json attrs) = Inr (attrs, attr_images t attrs)"
proof (cases "attrs = []")
  case True
  with valid_attrs_Nil [OF True v] show ?thesis
    by (simp add: attrs_json_def normAttrs_def attr_images_def)
next
  case False
  note unf = attrs_json_def normAttrs_def allowedAttrs_def attr_images_other
  from v False show ?thesis
  proof (cases rule: valid_attrs_kinds)
    case heading
    with False headingAttrs_fix [of attrs] show ?thesis by (simp add: unf)
  next
    case image
    with False imageAttrs_fix [of attrs] show ?thesis by (simp add: unf)
  next
    case ordered
    with False orderedAttrs_fix [of attrs] show ?thesis by (simp add: unf)
  next
    case code
    then show ?thesis by (simp add: unf)
  next
    case cell
    with False cellAttrs_fix [of attrs] show ?thesis by (elim disjE) (simp_all add: unf)
  next
    case callout
    with False calloutAttrs_fix [of h attrs] show ?thesis by (simp add: unf)
  qed
qed

lemma linkAttrs_get [simp]: "jget (linkAttrs s) ''href'' = Some (JStr s)"
  by (simp add: linkAttrs_def)

lemma linkAttrs_keys [simp]:
  "jkeys (linkAttrs s) = [''href'', ''target'', ''rel'', ''class'']"
  by (simp add: linkAttrs_def)

lemma valid_mark_link: "valid_mark h (KMark ''link'' a) \<longleftrightarrow> (\<exists>s. a = Some (linkAttrs s) \<and> safe_href h s)"
  by (auto simp: linkAttrs_def split: option.splits list.splits prod.splits json.splits)

lemma normMark_sound: "normMark h raw = Inr m \<Longrightarrow> valid_mark h m"
proof -
  assume a: "normMark h raw = Inr m"
  then obtain kvs where raw: "raw = JObj kvs" by (auto simp: normMark_def split: json.splits)
  from a show ?thesis
    unfolding raw normMark_def
    by (auto simp: Let_def err_simps knowledgeSafeLink_Inr valid_mark_link simp del: valid_mark.simps
        split: option.splits json.splits if_splits) (auto)
qed

lemma normMark_fix:
  assumes "valid_mark h m"
  shows "normMark h (mark_json m) = Inr m"
proof (cases m)
  case (KMark t a)
  show ?thesis
  proof (cases "t = ''link''")
    case True
    with assms KMark obtain s where "a = Some (linkAttrs s)" "safe_href h s"
      using valid_mark_link by blast
    moreover from this have "knowledgeSafeLink h (Some (JStr s)) = Inr s"
      by (simp add: knowledgeSafeLink_Inr)
    ultimately show ?thesis using KMark True by (simp add: normMark_def mark_types_def)
  next
    case False
    with assms KMark have "t \<in> set mark_types" "a = None" by simp_all
    with KMark False show ?thesis by (simp add: normMark_def)
  qed
qed

lemma normMarks_sound:
  "normMarks h v = Inr (Some ms) \<Longrightarrow> list_all (valid_mark h) ms"
  by (auto simp: normMarks_def err_simps list_all_iff split: option.splits json.splits
      dest!: mapE_member normMark_sound)

lemma normMarks_fix:
  "list_all (valid_mark h) ms \<Longrightarrow> normMarks h (Some (JArr (map mark_json ms))) = Inr (Some ms)"
proof -
  assume a: "list_all (valid_mark h) ms"
  then have "mapE (normMark h) (map mark_json ms) = Inr ms"
    by (induction ms) (auto simp: normMark_fix)
  then show ?thesis by (simp add: normMarks_def)
qed

section \<open>Soundness\<close>

lemma mapES_sound:
  assumes "mapES f xs s = Inr (ys, s')"
    and "\<And>x s y s'. x \<in> set xs \<Longrightarrow> f x s = Inr (y, s') \<Longrightarrow>
           P x y \<and> fst s' = fst s + sz y \<and> snd s' = snd s @ im y \<and> fst s' \<le> (K::nat)"
    and "fst s \<le> K"
  shows "list_all2 P xs ys \<and> fst s' = fst s + sum_list (map sz ys) \<and>
         snd s' = snd s @ concat (map im ys) \<and> fst s' \<le> K"
  using assms
proof (induction xs arbitrary: s ys)
  case Nil
  then show ?case by auto
next
  case (Cons x xs)
  from Cons.prems(1) obtain y s1 zs where x: "f x s = Inr (y, s1)"
    and rest: "mapES f xs s1 = Inr (zs, s')" and ys: "ys = y # zs"
    by (auto split: sum.splits prod.splits)
  have 1: "P x y" "fst s1 = fst s + sz y" "snd s1 = snd s @ im y" "fst s1 \<le> K"
    using Cons.prems(2) [OF _ x] by auto
  have step: "\<And>x s y s'. x \<in> set xs \<Longrightarrow> f x s = Inr (y, s') \<Longrightarrow>
       P x y \<and> fst s' = fst s + sz y \<and> snd s' = snd s @ im y \<and> fst s' \<le> K"
    using Cons.prems(2) by (meson list.set_intros(2))
  have "list_all2 P xs zs \<and> fst s' = fst s1 + sum_list (map sz zs) \<and>
         snd s' = snd s1 @ concat (map im zs) \<and> fst s' \<le> K"
    using Cons.IH [OF rest step] 1(4) by simp
  with 1 ys show ?case by simp
qed

definition raw_type :: "json \<Rightarrow> string \<Rightarrow> bool" where
  "raw_type raw t \<longleftrightarrow> (\<exists>kvs. raw = JObj kvs \<and> jget kvs ''type'' = Some (JStr t))"

lemma childAllowed_raw_type: "childAllowed t raw \<Longrightarrow> raw_type raw u \<Longrightarrow> u \<in> set (allowedChildren t)"
  by (auto simp: childAllowed_def raw_type_def)

lemma textNode_sound:
  "textNode node marks = Inr n \<Longrightarrow>
     \<exists>s. s \<noteq> [] \<and> n = KNode ''text'' (Some s) [] (case marks of None \<Rightarrow> [] | Some ms \<Rightarrow> ms) None"
  by (auto simp: textNode_def split: option.splits json.splits if_splits)

lemma list_all2_children:
  "list_all2 (\<lambda>x y. A y \<and> raw_type x (ktype y)) xs ys \<Longrightarrow> list_all (childAllowed t) xs \<Longrightarrow>
   list_all A ys \<and> list_all (\<lambda>c. ktype c \<in> set (allowedChildren t)) ys"
  by (induction rule: list_all2_induct) (auto simp: childAllowed_raw_type)

text \<open>The shape of a successful call: the guards that held and what it returned.\<close>

lemma normalize_cases:
  assumes "normalize h depth raw st = Inr (n, st')"
  obtains (textual) node attrs ids marks where
      "raw = JObj node" "fst st < 10000" "depth \<le> 25" "raw_type raw ''text''"
      "normAttrs h ''text'' (jget node ''attrs'') = Inr (attrs, ids)"
      "normMarks h (jget node ''marks'') = Inr marks"
      "marks \<noteq> None \<longrightarrow> length (the marks) \<le> 8"
      "textNode node marks = Inr n" "st' = (fst st + 1, snd st @ ids)"
  | (leaf) node t attrs ids where
      "raw = JObj node" "fst st < 10000" "depth \<le> 25" "raw_type raw t" "t \<in> set node_types" "t \<noteq> ''text''"
      "normAttrs h t (jget node ''attrs'') = Inr (attrs, ids)"
      "n = KNode t None attrs [] None" "st' = (fst st + 1, snd st @ ids)"
  | (inner) node t attrs ids xs cs where
      "raw = JObj node" "fst st < 10000" "depth \<le> 25" "raw_type raw t" "t \<in> set node_types" "t \<noteq> ''text''"
      "normAttrs h t (jget node ''attrs'') = Inr (attrs, ids)"
      "list_all (childAllowed t) xs"
      "mapES (normalize h (Suc depth)) xs (fst st + 1, snd st @ ids) = Inr (cs, st')"
      "n = KNode t None attrs [] (Some cs)"
  using assms
  by (subst (asm) normalize.simps)
     (auto simp: raw_type_def split: json.splits if_splits option.splits sum.splits prod.splits)

theorem normalize_sound:
  "normalize h depth raw st = Inr (n, st') \<Longrightarrow>
     valid_node h depth n \<and> raw_type raw (ktype n) \<and>
     fst st' = fst st + node_size n \<and> snd st' = snd st @ node_images n \<and> fst st' \<le> 10000"
proof (induction "26 - depth" arbitrary: depth raw st n st')
  case 0
  from 0(2) show ?case by (rule normalize_cases) (use 0(1) in auto)
next
  case (Suc k)
  from Suc.prems show ?case
  proof (cases rule: normalize_cases)
    case (textual node attrs ids marks)
    from textNode_sound [OF textual(8)] obtain s where s: "s \<noteq> []"
      and n: "n = KNode ''text'' (Some s) [] (case marks of None \<Rightarrow> [] | Some ms \<Rightarrow> ms) None" by blast
    from normAttrs_sound [OF textual(5)] have "ids = []" by (simp add: attr_images_def)
    moreover have "list_all (valid_mark h) (kmarks n)"
      using textual(6) n by (auto split: option.splits dest: normMarks_sound)
    ultimately show ?thesis
      using textual s n by (auto simp: node_types_def valid_attrs_def attr_images_def split: option.splits)
  next
    case (leaf node t attrs ids)
    with normAttrs_sound [OF leaf(7)] show ?thesis by auto
  next
    case (inner node t attrs ids xs cs)
    from Suc.hyps(2) have k: "k = 26 - Suc depth" by simp
    have "list_all2 (\<lambda>x y. valid_node h (Suc depth) y \<and> raw_type x (ktype y)) xs cs \<and>
        fst st' = fst (fst st + 1, snd st @ ids) + sum_list (map node_size cs) \<and>
        snd st' = snd (fst st + 1, snd st @ ids) @ concat (map node_images cs) \<and> fst st' \<le> 10000"
      by (rule mapES_sound [OF inner(9)]) (use Suc.hyps(1) [OF k] inner(2) in auto)
    with list_all2_children [OF _ inner(8)] normAttrs_sound [OF inner(7)] inner show ?thesis by auto
  qed
qed

section \<open>Completeness\<close>

lemma mapES_fix:
  assumes "\<And>y s. y \<in> set ys \<Longrightarrow> fst s + sz y \<le> (K::nat) \<Longrightarrow>
             f (g y) s = Inr (y, (fst s + sz y, snd s @ im y))"
    and "fst s + sum_list (map sz ys) \<le> K"
  shows "mapES f (map g ys) s = Inr (ys, (fst s + sum_list (map sz ys), snd s @ concat (map im ys)))"
  using assms by (induction ys arbitrary: s) (auto simp: add.assoc)

lemma node_json_type: "raw_type (node_json n) (ktype n)"
  by (cases n) (simp add: raw_type_def)

lemma node_json_childAllowed: "ktype n \<in> set (allowedChildren t) \<Longrightarrow> childAllowed t (node_json n)"
  by (cases n) (simp add: childAllowed_def)

lemma node_size_pos: "0 < node_size n"
  by (cases n) simp

definition node_fields :: "knode \<Rightarrow> (string \<times> json) list" where
  "node_fields n = (case node_json n of JObj kvs \<Rightarrow> kvs | _ \<Rightarrow> [])"

lemma node_json_fields: "node_json n = JObj (node_fields n)"
  by (cases n) (simp add: node_fields_def)

lemma node_fields_get:
  "jget (node_fields (KNode t txt attrs marks cont)) ''type'' = Some (JStr t)"
  "jget (node_fields (KNode t txt attrs marks cont)) ''text'' = map_option JStr txt"
  "jget (node_fields (KNode t txt attrs marks cont)) ''attrs'' = attrs_json attrs"
  "jget (node_fields (KNode t txt attrs marks cont)) ''marks'' =
     (if marks = [] then None else Some (JArr (map mark_json marks)))"
  "jget (node_fields (KNode t txt attrs marks cont)) ''content'' =
     map_option (\<lambda>cs. JArr (map node_json cs)) cont"
  by (auto simp: node_fields_def jget_append attrs_json_def split: option.splits)

lemma node_fields_keys:
  "list_all (\<lambda>k. k \<in> set [''type'', ''text'', ''attrs'', ''marks'', ''content'']) (jkeys (node_fields n))"
  by (cases n) (auto simp: node_fields_def jkeys_def split: option.splits)

lemma normalize_complete:
  "valid_node h depth n \<Longrightarrow> fst st + node_size n \<le> 10000 \<Longrightarrow>
   normalize h depth (node_json n) st = Inr (n, (fst st + node_size n, snd st @ node_images n))"
proof (induction h depth n arbitrary: st rule: valid_node.induct)
  case (1 h depth t tx attrs marks cont)
  have small: "fst st < 10000" and depth: "depth \<le> 25" and t: "t \<in> set node_types"
    and attrs: "normAttrs h t (attrs_json attrs) = Inr (attrs, attr_images t attrs)"
    using 1(2,3) normAttrs_fix by auto
  note unf = normalize.simps [of h depth] node_json_fields node_fields_get node_fields_keys [simplified]
  show ?case
  proof (cases "t = ''text''")
    case True
    with 1(2) obtain s where s: "tx = Some s" "s \<noteq> []" "cont = None" "length marks \<le> 8"
      "list_all (valid_mark h) marks" "attrs = []"
      by (auto simp: valid_attrs_def split: option.splits)
    have "normMarks h (if marks = [] then None else Some (JArr (map mark_json marks))) =
        Inr (if marks = [] then None else Some marks)"
      using normMarks_fix [OF s(5)] by (simp add: normMarks_def)
    with True small depth t attrs s show ?thesis
      by (auto simp: unf textNode_def attrs_json_def attr_images_def)
  next
    case False
    with 1(2) have n: "tx = None" "marks = []" by auto
    have nm: "normMarks h None = Inr None" by (simp add: normMarks_def)
    show ?thesis
    proof (cases cont)
      case None
      with False small depth t attrs n nm show ?thesis
        by (simp add: unf childList_def nullish_def)
    next
      case (Some cs)
      from False Some 1(2) have kids: "list_all (\<lambda>c. ktype c \<in> set (allowedChildren t)) cs"
        and valid: "list_all (valid_node h (Suc depth)) cs" by auto
      have allowed: "list_all (childAllowed t) (map node_json cs)"
        using kids node_json_childAllowed by (auto simp: list_all_iff)
      have step: "\<And>c s. c \<in> set cs \<Longrightarrow> fst s + node_size c \<le> 10000 \<Longrightarrow>
          normalize h (Suc depth) (node_json c) s = Inr (c, (fst s + node_size c, snd s @ node_images c))"
        using 1(1) [OF False Some] valid by (auto simp: list_all_iff)
      have "mapES (normalize h (Suc depth)) (map node_json cs) (fst st + 1, snd st @ attr_images t attrs) =
          Inr (cs, (fst (fst st + 1, snd st @ attr_images t attrs) + sum_list (map node_size cs),
                    snd (fst st + 1, snd st @ attr_images t attrs) @ concat (map node_images cs)))"
        using 1(3) Some by (intro mapES_fix [where K = 10000] step) auto
      with False Some small depth t attrs n nm allowed show ?thesis
        by (simp add: unf childList_def nullish_def)
    qed
  qed
qed

section \<open>The validator as a whole\<close>

lemma canonical_Inr:
  "canonicalKnowledgeContent h v = Inr c \<longleftrightarrow>
     length (json_text h v) \<le> 500000 \<and>
     (\<exists>k ids. normalize h 0 v (0, []) = Inr (docContent c, (k, ids)) \<and> imageIds c = js_dedup ids) \<and>
     ktype (docContent c) = ''doc'' \<and> contentText c = js_trim (plain h (docContent c)) \<and>
     contentHash c = sha256 h (json_text h (node_json (docContent c)))"
  by (cases c) (auto simp: canonicalKnowledgeContent_def split: sum.splits)

definition sample_host :: host where
  "sample_host = \<lparr>num_str = (\<lambda>_. ''1''), sha256 = (\<lambda>s. s),
     url_protocol = (\<lambda>s. if take 5 s = ''http:'' then Some ''http:'' else None)\<rparr>"

definition sample_doc :: knode where
  "sample_doc = KNode ''doc'' None [] [] (Some [KNode ''paragraph'' None [] []
     (Some [KNode ''text'' (Some ''hi'') [] [KMark ''link'' (Some (linkAttrs ''http:a''))] None])])"

lemmas sample_defs = sample_host_def sample_doc_def linkAttrs_def json_quote_def json_escape_char_def

lemma sample_doc_valid: "valid_node sample_host 0 sample_doc"
  by (simp add: sample_defs node_types_def valid_attrs_def allowedChildren_def block_types_def
      safe_href_def js_space_def)

lemma sample_doc_small: "length (json_text sample_host (node_json sample_doc)) \<le> 500000"
  by (simp add: sample_defs)

text \<open>C14: whatever the validator accepts is a document of the grammar: only known node types
  in allowed positions, only known attributes with checked values, every link an http, https
  or mailto URL without white space, at most 10000 nodes and 25 levels; and the returned
  image identifiers are exactly the identifiers in the document, each once.\<close>

theorem canonical_content_sound:
  assumes "canonicalKnowledgeContent h v = Inr c"
  shows "valid_node h 0 (docContent c) \<and> ktype (docContent c) = ''doc'' \<and>
         node_size (docContent c) \<le> 10000 \<and>
         distinct (imageIds c) \<and> set (imageIds c) = set (node_images (docContent c))"
proof -
  obtain k ids where n: "normalize h 0 v (0, []) = Inr (docContent c, (k, ids))"
    and "imageIds c = js_dedup ids" "ktype (docContent c) = ''doc''"
    using assms by (auto simp: canonical_Inr)
  with normalize_sound [OF n] show ?thesis by simp
qed

text \<open>C15: validating is idempotent, and complete for the grammar: a document of the grammar
  within the limits is accepted unchanged, with the identifiers it holds.\<close>

theorem canonical_content_fixpoint:
  assumes "valid_node h 0 n" "ktype n = ''doc''" "node_size n \<le> 10000"
    and "length (json_text h (node_json n)) \<le> 500000"
  shows "canonicalKnowledgeContent h (node_json n) =
           Inr \<lparr>docContent = n, contentText = js_trim (plain h n),
                contentHash = sha256 h (json_text h (node_json n)),
                imageIds = js_dedup (node_images n)\<rparr>"
  using assms normalize_complete [of h 0 n "(0, [])"] by (simp add: canonical_Inr)

theorem canonical_content_fixpoint_witness:
  "isOk (canonicalKnowledgeContent sample_host (node_json sample_doc))"
proof -
  have "ktype sample_doc = ''doc''" "node_size sample_doc \<le> 10000"
    by (simp_all add: sample_doc_def)
  from canonical_content_fixpoint [OF sample_doc_valid this sample_doc_small] show ?thesis by simp
qed

theorem canonical_content_sound_witness:
  "\<exists>c. canonicalKnowledgeContent sample_host (node_json sample_doc) = Inr c \<and>
       valid_node sample_host 0 (docContent c)"
proof -
  have "ktype sample_doc = ''doc''" "node_size sample_doc \<le> 10000"
    by (simp_all add: sample_doc_def)
  then have "normalize sample_host 0 (node_json sample_doc) (0, []) =
      Inr (sample_doc, (node_size sample_doc, node_images sample_doc))"
    using normalize_complete [OF sample_doc_valid, of "(0, [])"] by simp
  then obtain c where c: "canonicalKnowledgeContent sample_host (node_json sample_doc) = Inr c"
    using sample_doc_small by (simp add: canonicalKnowledgeContent_def sample_doc_def)
  with canonical_content_sound [OF c] show ?thesis by blast
qed

end
