(* ===== verification/DraftSession.thy ===== *)
theory DraftSession
  imports JsValues "HOL-Library.AList"
begin

text \<open>
  The autosave session of the knowledge editor and the cache of unsaved drafts,
  \<^verbatim>\<open>apps/web/src/modules/knowledge/knowledge-autosave.ts\<close>.  The session serialises its
  work: \<open>flush\<close> and \<open>run\<close> append a job to \<open>queue\<close>; one job is active at a time
  and may be waiting for a save or for an operation.  Each synchronous stretch of the code
  (a method call, the start of the next job, the continuation after an \<open>await\<close>) is one
  function on the session, and \<open>draft_step\<close> is their interleaving with the user's edits
  and the server's answers.  Payloads are association lists with \<open>Object.assign\<close> as
  \<open>AList.merge\<close>.  Listener notification (\<open>emit\<close>) has no effect on the session.
\<close>

datatype save_state = Saved | Dirty | SavingState | Failed | Conflict

datatype job = FlushJob | RunJob

datatype 'v activity =
    Idle
  | SaveInFlight job "(string \<times> 'v) list" nat
  | OpInFlight nat

record 'v session =
  version :: nat
  state :: save_state
  error :: string
  local_edits :: "(string \<times> 'v) list"
  pending :: "(string \<times> 'v) list"
  operations :: nat
  timer :: bool
  queue :: "job list"
  active :: "'v activity"

definition new_session :: "nat \<Rightarrow> 'v session" where
  "new_session v = \<lparr>version = v, state = Saved, error = [], local_edits = [], pending = [],
     operations = 0, timer = False, queue = [], active = Idle\<rparr>"

section \<open>The methods\<close>

definition changed :: "(string \<times> 'v) list \<Rightarrow> 'v session \<Rightarrow> 'v session" where
  "changed patch s =
     (let s1 = s\<lparr>pending := AList.merge (pending s) patch,
                 local_edits := AList.merge (local_edits s) patch\<rparr>;
          s2 = (if state s1 \<noteq> Conflict then s1\<lparr>state := Dirty\<rparr> else s1);
          s3 = s2\<lparr>timer := False\<rparr>
      in if state s3 \<noteq> Conflict then s3\<lparr>timer := True\<rparr> else s3)"

definition flush :: "'v session \<Rightarrow> 'v session" where
  "flush s = s\<lparr>timer := False, queue := queue s @ [FlushJob]\<rparr>"

definition run :: "'v session \<Rightarrow> 'v session" where
  "run s = s\<lparr>timer := False, operations := Suc (operations s), queue := queue s @ [RunJob]\<rparr>"

text \<open>One turn of the \<open>while\<close> loop of \<open>drain\<close>, up to its \<open>await\<close> or its end; when
  the loop ends, a \<open>run\<close> job goes on to its operation.\<close>

definition drain :: "job \<Rightarrow> 'v session \<Rightarrow> 'v session" where
  "drain j s =
     (if pending s \<noteq> [] then
        s\<lparr>pending := [], state := SavingState, error := [],
          active := SaveInFlight j (pending s) (version s)\<rparr>
      else s\<lparr>state := Saved, error := [],
             active := (case j of FlushJob \<Rightarrow> Idle | RunJob \<Rightarrow> OpInFlight (version s))\<rparr>)"

text \<open>The job's promise has settled; a \<open>run\<close> job decrements \<open>operations\<close> in its \<open>finally\<close>.\<close>

definition settle :: "job \<Rightarrow> 'v session \<Rightarrow> 'v session" where
  "settle j s = (case j of FlushJob \<Rightarrow> s\<lparr>active := Idle\<rparr>
     | RunJob \<Rightarrow> s\<lparr>active := Idle, operations := operations s - 1\<rparr>)"

definition start_job :: "'v session \<Rightarrow> 'v session" where
  "start_job s = (case queue s of
     [] \<Rightarrow> s
   | j # js \<Rightarrow> (let s1 = s\<lparr>queue := js\<rparr> in
       if state s1 = Conflict then settle j s1 else drain j s1))"

definition save_ok :: "nat \<Rightarrow> 'v session \<Rightarrow> 'v session" where
  "save_ok v s = (case active s of
     SaveInFlight j patch n \<Rightarrow> drain j (s\<lparr>version := v\<rparr>) | _ \<Rightarrow> s)"

definition save_failed :: "nat \<Rightarrow> string \<Rightarrow> 'v session \<Rightarrow> 'v session" where
  "save_failed status msg s = (case active s of
     SaveInFlight j patch n \<Rightarrow>
       settle j (s\<lparr>pending := AList.merge patch (pending s),
                   state := (if status = 409 then Conflict else Failed), error := msg\<rparr>)
   | _ \<Rightarrow> s)"

definition op_ok :: "nat \<Rightarrow> 'v session \<Rightarrow> 'v session" where
  "op_ok v s = (case active s of OpInFlight n \<Rightarrow> settle RunJob (s\<lparr>version := v\<rparr>) | _ \<Rightarrow> s)"

definition op_failed :: "nat \<Rightarrow> string \<Rightarrow> 'v session \<Rightarrow> 'v session" where
  "op_failed status msg s = (case active s of
     OpInFlight n \<Rightarrow> settle RunJob (if status = 409 then s\<lparr>state := Conflict, error := msg\<rparr> else s)
   | _ \<Rightarrow> s)"

definition isOperating :: "'v session \<Rightarrow> bool" where
  "isOperating s \<longleftrightarrow> 0 < operations s"

definition recovery :: "'v session \<Rightarrow> (string \<times> 'v) list" where
  "recovery s = local_edits s"

definition hasUnsaved :: "'v session \<Rightarrow> bool" where
  "hasUnsaved s \<longleftrightarrow>
     pending s \<noteq> [] \<or> 0 < operations s \<or> state s = SavingState \<or> state s = Conflict"

definition compareServerVersion :: "nat \<Rightarrow> 'v session \<Rightarrow> 'v session" where
  "compareServerVersion v s =
     (if hasUnsaved s \<and> state s \<noteq> SavingState \<and> \<not> isOperating s \<and> v \<noteq> version s
      then s\<lparr>state := Conflict, error := ''server version changed''\<rparr> else s)"

definition stop :: "'v session \<Rightarrow> 'v session" where
  "stop s = s\<lparr>timer := False\<rparr>"

lemmas session_defs = changed_def flush_def run_def drain_def settle_def start_job_def save_ok_def
  save_failed_def op_ok_def op_failed_def compareServerVersion_def stop_def new_session_def

section \<open>Interleavings\<close>

text \<open>
  A session together with two history variables: what the server has acknowledged so far,
  and whether \<open>stop\<close> (the editor is left) came after the last edit.  An edit reports at
  least one field.
\<close>

record 'v world =
  sess :: "'v session"
  acked :: "(string \<times> 'v) list"
  stopped :: bool

inductive draft_step :: "'v world \<Rightarrow> 'v world \<Rightarrow> bool" where
  edit: "p \<noteq> [] \<Longrightarrow> draft_step w (w\<lparr>sess := changed p (sess w), stopped := False\<rparr>)"
| timeout: "timer (sess w) \<Longrightarrow> draft_step w (w\<lparr>sess := flush (sess w)\<rparr>)"
| flush: "draft_step w (w\<lparr>sess := flush (sess w)\<rparr>)"
| run: "draft_step w (w\<lparr>sess := run (sess w)\<rparr>)"
| start: "active (sess w) = Idle \<Longrightarrow> draft_step w (w\<lparr>sess := start_job (sess w)\<rparr>)"
| save_ok: "active (sess w) = SaveInFlight j p n \<Longrightarrow>
     draft_step w (w\<lparr>sess := save_ok v (sess w), acked := AList.merge (acked w) p\<rparr>)"
| save_failed: "active (sess w) = SaveInFlight j p n \<Longrightarrow>
     draft_step w (w\<lparr>sess := save_failed status msg (sess w)\<rparr>)"
| op_ok: "active (sess w) = OpInFlight n \<Longrightarrow> draft_step w (w\<lparr>sess := op_ok v (sess w)\<rparr>)"
| op_failed: "active (sess w) = OpInFlight n \<Longrightarrow>
     draft_step w (w\<lparr>sess := op_failed status msg (sess w)\<rparr>)"
| compare: "draft_step w (w\<lparr>sess := compareServerVersion v (sess w)\<rparr>)"
| stop: "draft_step w (w\<lparr>sess := stop (sess w), stopped := True\<rparr>)"

inductive draft_reach :: "nat \<Rightarrow> 'v world \<Rightarrow> bool" for v where
  init: "draft_reach v \<lparr>sess = new_session v, acked = [], stopped = False\<rparr>"
| step: "draft_reach v w \<Longrightarrow> draft_step w w' \<Longrightarrow> draft_reach v w'"

section \<open>The invariant\<close>

definition in_flight :: "'v session \<Rightarrow> (string \<times> 'v) list" where
  "in_flight s = (case active s of SaveInFlight j p n \<Rightarrow> p | _ \<Rightarrow> [])"

definition saving :: "'v session \<Rightarrow> bool" where
  "saving s = (case active s of SaveInFlight j p n \<Rightarrow> True | _ \<Rightarrow> False)"

fun run_active :: "'v activity \<Rightarrow> nat" where
  "run_active Idle = 0"
| "run_active (SaveInFlight FlushJob p n) = 0"
| "run_active (SaveInFlight RunJob p n) = 1"
| "run_active (OpInFlight n) = 1"

definition run_jobs :: "'v session \<Rightarrow> nat" where
  "run_jobs s = length (filter (\<lambda>j. j = RunJob) (queue s)) + run_active (active s)"

definition edits_inv :: "'v world \<Rightarrow> bool" where
  "edits_inv w \<longleftrightarrow> map_of (local_edits (sess w)) =
     (map_of (acked w) ++ map_of (in_flight (sess w))) ++ map_of (pending (sess w))"

fun request_inv :: "'v activity \<Rightarrow> 'v session \<Rightarrow> bool" where
  "request_inv Idle s \<longleftrightarrow> state s \<noteq> SavingState"
| "request_inv (SaveInFlight j p n) s \<longleftrightarrow> n = version s \<and> p \<noteq> [] \<and>
     state s \<in> {SavingState, Conflict, Dirty}"
| "request_inv (OpInFlight n) s \<longleftrightarrow> n = version s \<and> state s \<in> {Saved, Dirty}"

definition status_inv :: "'v world \<Rightarrow> bool" where
  "status_inv w \<longleftrightarrow>
     (let s = sess w in
      operations s = run_jobs s \<and> request_inv (active s) s \<and>
      (state s \<in> {Dirty, Failed} \<longrightarrow> pending s \<noteq> []) \<and>
      (state s = Saved \<longrightarrow> pending s = []) \<and>
      (state s = Dirty \<longrightarrow> timer s \<or> queue s \<noteq> [] \<or> saving s \<or> stopped w))"

lemma in_flight_simps [simp]:
  "active s = Idle \<Longrightarrow> in_flight s = []"
  "active s = SaveInFlight j p n \<Longrightarrow> in_flight s = p"
  "active s = OpInFlight n \<Longrightarrow> in_flight s = []"
  by (simp_all add: in_flight_def)

lemma saving_simps [simp]:
  "active s = Idle \<Longrightarrow> \<not> saving s"
  "active s = SaveInFlight j p n \<Longrightarrow> saving s"
  "active s = OpInFlight n \<Longrightarrow> \<not> saving s"
  by (simp_all add: saving_def)

lemma request_inv_frame [simp]:
  "request_inv a (s\<lparr>timer := b\<rparr>) = request_inv a s"
  "request_inv a (s\<lparr>queue := q\<rparr>) = request_inv a s"
  "request_inv a (s\<lparr>operations := k\<rparr>) = request_inv a s"
  by (cases a, simp_all)+

lemma run_active_Inf [simp]: "active s = OpInFlight n \<Longrightarrow> run_active (active s) = 1"
  by simp

lemma merge_eq_Nil [simp]: "AList.merge xs ys = [] \<longleftrightarrow> xs = [] \<and> ys = []"
proof -
  have "dom (map_of (AList.merge xs ys)) = dom (map_of xs) \<union> dom (map_of ys)"
    by (simp add: merge_conv' dom_map_add Un_commute)
  then show ?thesis by (auto simp: dom_map_of_conv_image_fst)
qed

lemma edits_inv_step: "draft_step w w' \<Longrightarrow> edits_inv w \<Longrightarrow> edits_inv w'"
proof (induction rule: draft_step.induct)
  case (start w)
  then show ?case
    by (cases "queue (sess w)")
      (auto simp: edits_inv_def start_job_def drain_def settle_def Let_def in_flight_def split: job.splits)
qed (auto simp: edits_inv_def session_defs merge_conv' in_flight_def Let_def split: job.splits)

lemma status_inv_compare:
  assumes inv: "status_inv w"
  shows "status_inv (w\<lparr>sess := compareServerVersion v (sess w)\<rparr>)"
proof (cases "hasUnsaved (sess w) \<and> state (sess w) \<noteq> SavingState \<and> \<not> isOperating (sess w) \<and> v \<noteq> version (sess w)")
  case False
  then show ?thesis using inv by (simp only: compareServerVersion_def if_False) simp
next
  case True
  let ?s = "sess w"
  from True have cmp: "compareServerVersion v ?s =
      ?s\<lparr>state := Conflict, error := ''server version changed''\<rparr>"
    by (simp add: compareServerVersion_def)
  have no_op: "run_jobs ?s = 0" using True inv by (simp add: isOperating_def status_inv_def Let_def)
  have "request_inv (active ?s) (?s\<lparr>state := Conflict, error := e\<rparr>)" for e
  proof (cases "active ?s")
    case (OpInFlight n)
    then show ?thesis using no_op by (simp add: run_jobs_def)
  qed (use inv in \<open>auto simp: status_inv_def Let_def\<close>)
  then show ?thesis using inv unfolding cmp by (simp add: status_inv_def Let_def run_jobs_def)
qed

lemma status_inv_step: "draft_step w w' \<Longrightarrow> status_inv w \<Longrightarrow> status_inv w'"
proof (induction rule: draft_step.induct)
  case (start w)
  then show ?case
    by (cases "queue (sess w)")
      (auto simp: status_inv_def run_jobs_def start_job_def drain_def settle_def Let_def saving_def
        split: job.splits)
next
  case (save_ok w j p n v)
  then show ?case
    by (cases j) (auto simp: status_inv_def run_jobs_def save_ok_def drain_def Let_def saving_def)
next
  case (save_failed w j p n status msg)
  then show ?case
    by (cases j) (auto simp: status_inv_def run_jobs_def save_failed_def settle_def Let_def saving_def)
next
  case (edit p w)
  then show ?case
    by (cases "active (sess w)")
      (auto simp: status_inv_def run_jobs_def changed_def Let_def saving_def)
next
  case (compare w v)
  then show ?case by (rule status_inv_compare)
qed (auto simp: status_inv_def run_jobs_def session_defs saving_def Let_def isOperating_def)

lemma draft_reach_inv: "draft_reach v w \<Longrightarrow> edits_inv w \<and> status_inv w"
proof (induction rule: draft_reach.induct)
  case init
  show ?case by (simp add: edits_inv_def status_inv_def new_session_def run_jobs_def Let_def)
next
  case (step w w')
  then show ?case using edits_inv_step status_inv_step by blast
qed


lemma hasUnsaved_iff:
  "status_inv w \<Longrightarrow> hasUnsaved (sess w) \<longleftrightarrow> state (sess w) \<noteq> Saved \<or> 0 < operations (sess w)"
  by (cases "state (sess w)") (auto simp: status_inv_def hasUnsaved_def Let_def)

lemma saved_no_request:
  assumes inv: "status_inv w" and clean: "\<not> hasUnsaved (sess w)"
  shows "in_flight (sess w) = [] \<and> pending (sess w) = []"
proof -
  have "state (sess w) = Saved" "pending (sess w) = []"
    using inv clean by (simp add: hasUnsaved_iff, simp add: hasUnsaved_def)
  with inv show ?thesis by (cases "active (sess w)") (auto simp: status_inv_def Let_def)
qed

section \<open>The draft cache\<close>

text \<open>
  The cache maps page ids to sessions, which are shared objects: it holds their addresses
  in a store of sessions.  \<open>currentOwner\<close> reads the stored session user, \<open>None\<close> when
  \<open>localStorage\<close> or \<open>JSON.parse\<close> throws.
\<close>

record cache =
  owner :: string
  drafts :: "(string \<times> nat) list"

definition js_or_null :: "json option \<Rightarrow> json" where
  "js_or_null v = (case v of None \<Rightarrow> JNull | Some j \<Rightarrow> j)"

definition currentOwner :: "host \<Rightarrow> json option \<Rightarrow> string" where
  "currentOwner h stored = (case stored of
     Some (JObj user) \<Rightarrow>
       if truthy (jget user ''sub'')
       then json_text h (JArr (map (\<lambda>k. js_or_null (jget user k))
              [''sub'', ''permissions'', ''moduleAdminCodes'', ''tableDataScopes'']))
       else []
   | _ \<Rightarrow> [])"

definition clearKnowledgeDraftCache :: "cache \<Rightarrow> cache" where
  "clearKnowledgeDraftCache c = c\<lparr>drafts := [], owner := []\<rparr>"

definition recoverKnowledgeDraft :: "string \<Rightarrow> string \<Rightarrow> cache \<Rightarrow> nat option \<times> cache" where
  "recoverKnowledgeDraft now i c =
     (let c' = (if now \<noteq> owner c then c\<lparr>drafts := [], owner := now\<rparr> else c)
      in (map_of (drafts c') i, c'))"

definition rememberKnowledgeDraft ::
  "string \<Rightarrow> string \<Rightarrow> nat \<Rightarrow> (nat \<Rightarrow> 'v session) \<Rightarrow> cache \<Rightarrow> cache" where
  "rememberKnowledgeDraft now i r store c =
     (if now \<noteq> owner c then c
      else if hasUnsaved (store r) then c\<lparr>drafts := AList.update i r (drafts c)\<rparr>
      else c\<lparr>drafts := AList.delete i (drafts c)\<rparr>)"

text \<open>The \<open>beforeunload\<close> handler: whether the browser must ask, and the cache after it.\<close>

definition beforeunload :: "string \<Rightarrow> (nat \<Rightarrow> 'v session) \<Rightarrow> cache \<Rightarrow> bool \<times> cache" where
  "beforeunload now store c =
     (if now \<noteq> owner c then (False, clearKnowledgeDraftCache c)
      else (list_ex (\<lambda>(i, r). hasUnsaved (store r)) (drafts c), c))"

text \<open>\<open>flushKnowledgeDrafts\<close> up to the first draft it has to wait for: the addresses whose
  \<open>flush\<close> it awaits in turn, or the error at a draft with a running file operation.\<close>

fun flush_all :: "(nat \<Rightarrow> 'v session) \<Rightarrow> (string \<times> nat) list \<Rightarrow> string + nat list" where
  "flush_all store [] = Inr []"
| "flush_all store ((i, r) # ds) =
     (if isOperating (store r) then Inl ''file operation in progress''
      else bindE (flush_all store ds) (\<lambda>rs. Inr (r # rs)))"

definition flushKnowledgeDrafts ::
  "string \<Rightarrow> (nat \<Rightarrow> 'v session) \<Rightarrow> cache \<Rightarrow> (string + nat list) \<times> cache" where
  "flushKnowledgeDrafts now store c =
     (if now \<noteq> owner c then (Inr [], clearKnowledgeDraftCache c)
      else (flush_all store (drafts c), c))"

text \<open>
  The cache in use: the identity that is signed in changes freely between calls, and the
  history \<open>noted\<close> records for which identity a session was remembered.
\<close>

record 'v browser =
  cached :: cache
  noted :: "(string \<times> string \<times> nat) set"

inductive cache_step :: "'v itself \<Rightarrow> 'v browser \<Rightarrow> 'v browser \<Rightarrow> bool" for ty where
  clear: "cache_step ty b (b\<lparr>cached := clearKnowledgeDraftCache (cached b)\<rparr>)"
| recover: "cache_step ty b (b\<lparr>cached := snd (recoverKnowledgeDraft now i (cached b))\<rparr>)"
| remember: "cache_step ty b (b\<lparr>cached := rememberKnowledgeDraft now i r (store :: nat \<Rightarrow> 'v session) (cached b),
     noted := insert (now, i, r) (noted b)\<rparr>)"
| unload: "cache_step ty b
     (b\<lparr>cached := snd (beforeunload now (store :: nat \<Rightarrow> 'v session) (cached b))\<rparr>)"
| flush_drafts: "cache_step ty b
     (b\<lparr>cached := snd (flushKnowledgeDrafts now (store :: nat \<Rightarrow> 'v session) (cached b))\<rparr>)"

inductive cache_reach :: "'v itself \<Rightarrow> 'v browser \<Rightarrow> bool" for ty where
  init: "cache_reach ty \<lparr>cached = \<lparr>owner = [], drafts = []\<rparr>, noted = {}\<rparr>"
| step: "cache_reach ty b \<Longrightarrow> cache_step ty b b' \<Longrightarrow> cache_reach ty b'"

definition owned :: "'v browser \<Rightarrow> bool" where
  "owned b \<longleftrightarrow> (\<forall>(i, r) \<in> set (drafts (cached b)). (owner (cached b), i, r) \<in> noted b)"

lemmas cache_defs = clearKnowledgeDraftCache_def recoverKnowledgeDraft_def rememberKnowledgeDraft_def
  beforeunload_def flushKnowledgeDrafts_def

lemma set_delete_subset: "set (AList.delete i ds) \<subseteq> set ds"
  by (auto simp: AList.delete_eq)

lemma set_update_subset: "set (AList.update i r ds) \<subseteq> insert (i, r) (set ds)"
  by (induction ds) auto

lemma owned_step: "cache_step ty b b' \<Longrightarrow> owned b \<Longrightarrow> owned b'"
proof (induction rule: cache_step.induct)
  case (remember b now i r store)
  then show ?case
    using set_delete_subset[of i "drafts (cached b)"] set_update_subset[of i r "drafts (cached b)"]
    by (fastforce simp: owned_def rememberKnowledgeDraft_def)
qed (auto simp: owned_def cache_defs Let_def)

lemma cache_reach_owned: "cache_reach ty b \<Longrightarrow> owned b"
proof (induction rule: cache_reach.induct)
  case init
  show ?case by (simp add: owned_def)
next
  case (step b b')
  then show ?case by (rule_tac owned_step)
qed

section \<open>Properties\<close>

text \<open>C16: however edits, saves, commands, failures and version notices interleave, no edit is
  lost: what the session can recover is the acknowledged fields overlaid with the save in
  flight and the pending edits, and once the session reports nothing unsaved, every edit has
  been acknowledged by the server.\<close>

theorem draft_no_edit_lost:
  assumes "draft_reach v w"
  shows "map_of (recovery (sess w)) =
      (map_of (acked w) ++ map_of (in_flight (sess w))) ++ map_of (pending (sess w)) \<and>
    (\<not> hasUnsaved (sess w) \<longrightarrow> map_of (recovery (sess w)) = map_of (acked w))"
proof -
  from draft_reach_inv[OF assms] have "edits_inv w" "status_inv w" by simp_all
  then show ?thesis
    using saved_no_request[of w] by (auto simp: edits_inv_def recovery_def)
qed

definition sample_draft_run :: "nat world" where
  "sample_draft_run = \<lparr>sess = \<lparr>version = 2, state = SavingState, error = [],
     local_edits = [(''title'', 1), (''tags'', 7)], pending = [], operations = 0, timer = True,
     queue = [], active = SaveInFlight FlushJob [(''tags'', 7)] 2\<rparr>,
     acked = [(''title'', 1)], stopped = False\<rparr>"

lemma sample_draft_reach: "draft_reach 1 sample_draft_run"
proof -
  let ?w0 = "\<lparr>sess = new_session 1, acked = [], stopped = False\<rparr> :: nat world"
  let ?w1 = "?w0\<lparr>sess := changed [(''title'', 1)] (sess ?w0), stopped := False\<rparr>"
  let ?w2 = "?w1\<lparr>sess := flush (sess ?w1)\<rparr>"
  let ?w3 = "?w2\<lparr>sess := start_job (sess ?w2)\<rparr>"
  let ?w4 = "?w3\<lparr>sess := changed [(''tags'', 7)] (sess ?w3), stopped := False\<rparr>"
  let ?w5 = "?w4\<lparr>sess := save_ok 2 (sess ?w4), acked := AList.merge (acked ?w4) [(''title'', 1)]\<rparr>"
  note sd = session_defs Let_def AList.merge_def
  have "draft_reach 1 ?w0" by (rule draft_reach.init)
  moreover have "draft_step ?w0 ?w1" by (rule draft_step.edit) simp
  moreover have "draft_step ?w1 ?w2" by (rule draft_step.flush)
  moreover have "draft_step ?w2 ?w3" by (rule draft_step.start) (simp add: sd)
  moreover have "draft_step ?w3 ?w4" by (rule draft_step.edit) simp
  moreover have "draft_step ?w4 ?w5"
    by (rule draft_step.save_ok[where j = FlushJob and n = 1]) (simp add: sd)
  ultimately have "draft_reach 1 ?w5" by (meson draft_reach.step)
  moreover have "?w5 = sample_draft_run" by (simp add: sd sample_draft_run_def)
  ultimately show ?thesis by simp
qed

theorem draft_no_edit_lost_witness:
  "map_of (recovery (sess sample_draft_run)) =
     (map_of (acked sample_draft_run) ++ map_of (in_flight (sess sample_draft_run))) ++
       map_of (pending (sess sample_draft_run))"
  using draft_no_edit_lost[OF sample_draft_reach] by simp

text \<open>the request that is out always carries the version the session holds, a dirty
  session always has a save coming (its timer, a queued job or the loop of the save in
  flight) unless the editor was left, the operation counter counts the commands that have not
  finished, and \<open>hasUnsaved\<close> is false exactly in the state \<open>saved\<close> with no
  command.\<close>

theorem draft_status_consistent:
  assumes "draft_reach v w"
  shows "(active (sess w) = SaveInFlight j p n \<or> active (sess w) = OpInFlight n \<longrightarrow>
      n = version (sess w)) \<and>
    (state (sess w) = Dirty \<longrightarrow>
      timer (sess w) \<or> queue (sess w) \<noteq> [] \<or> saving (sess w) \<or> stopped w) \<and>
    operations (sess w) = run_jobs (sess w) \<and>
    (hasUnsaved (sess w) \<longleftrightarrow> state (sess w) \<noteq> Saved \<or> 0 < operations (sess w))"
proof -
  have inv: "status_inv w" using draft_reach_inv[OF assms] by simp
  then show ?thesis
    using hasUnsaved_iff[OF inv] by (auto simp: status_inv_def Let_def)
qed

theorem draft_status_consistent_witness:
  "hasUnsaved (sess sample_draft_run) \<and> operations (sess sample_draft_run) = 0"
  using draft_status_consistent[OF sample_draft_reach, of FlushJob "[(''tags'', 7)]" 2]
  by (simp add: sample_draft_run_def)

text \<open>A draft is only handed back to the identity (user, permissions, module and table
  scopes) for which it was remembered, whatever the order of sign-ins and cache calls.\<close>

theorem draft_cache_owner:
  assumes "cache_reach ty b" and "fst (recoverKnowledgeDraft now i (cached b)) = Some r"
  shows "(now, i, r) \<in> noted b"
  using cache_reach_owned[OF assms(1)] assms(2)
  by (auto simp: owned_def recoverKnowledgeDraft_def Let_def split: if_splits dest: map_of_SomeD)

definition sample_browser :: "nat browser" where
  "sample_browser = \<lparr>cached = \<lparr>owner = ''u1'', drafts = [(''p1'', 4)]\<rparr>,
     noted = {(''u1'', ''p1'', 4)}\<rparr>"

lemma sample_browser_reach: "cache_reach TYPE(nat) sample_browser"
proof -
  let ?b0 = "\<lparr>cached = \<lparr>owner = [], drafts = []\<rparr>, noted = {}\<rparr> :: nat browser"
  let ?b1 = "?b0\<lparr>cached := snd (recoverKnowledgeDraft ''u1'' ''p1'' (cached ?b0))\<rparr>"
  let ?st = "\<lambda>_. changed [(''title'', 1)] (new_session 1) :: nat session"
  let ?b2 = "?b1\<lparr>cached := rememberKnowledgeDraft ''u1'' ''p1'' 4 ?st (cached ?b1),
    noted := insert (''u1'', ''p1'', 4) (noted ?b1)\<rparr>"
  have "cache_reach TYPE(nat) ?b0" by (rule cache_reach.init)
  moreover have "cache_step TYPE(nat) ?b0 ?b1" by (rule cache_step.recover)
  moreover have "cache_step TYPE(nat) ?b1 ?b2" by (rule cache_step.remember)
  ultimately have "cache_reach TYPE(nat) ?b2" by (meson cache_reach.step)
  moreover have "?b2 = sample_browser"
    by (simp add: sample_browser_def cache_defs hasUnsaved_def session_defs Let_def AList.merge_def)
  ultimately show ?thesis by simp
qed

theorem draft_cache_owner_witness:
  "(''u1'', ''p1'', 4) \<in> noted sample_browser"
  by (rule draft_cache_owner[OF sample_browser_reach])
    (simp add: sample_browser_def recoverKnowledgeDraft_def)

end
