(* ===== verification/ApprovalPolicy.thy ===== *)
theory ApprovalPolicy
  imports Prelude
begin

text \<open>
  The approval policy shared by every human approval flow,
  \<^verbatim>\<open>packages/workflow-sdk/src/index.ts\<close>: withdrawal before the next node acts and return
  to an earlier stage.  Stage keys are a type parameter; a flow instantiates it with its
  own statuses.  The locale \<open>stage_table\<close> states what a flow promises about its
  table of stages and gives the consequences for the policy.
\<close>

record 'k stage =
  stageKey :: 'k
  stageLabel :: string
  stageOrder :: int
  stageTerminal :: bool

record 'k transition =
  transActor :: string
  fromStage :: "'k option"
  toStage :: 'k
  withdrawable :: bool

record 'k capabilities =
  canWithdraw :: bool
  withdrawTarget :: "'k stage option"
  returnTargets :: "'k stage list"

definition find_stage :: "'k stage list \<Rightarrow> 'k \<Rightarrow> 'k stage option" where
  "find_stage stages k = find (\<lambda>s. stageKey s = k) stages"

text \<open>\<open>Inl k\<close> is the \<open>Unknown approval stage\<close> error.\<close>

definition approvalCapabilities ::
  "'k stage list \<Rightarrow> 'k \<Rightarrow> string \<Rightarrow> bool \<Rightarrow> 'k transition option \<Rightarrow> 'k + 'k capabilities" where
  "approvalCapabilities stages currentStage actorId isCurrentNodeActor latest =
     (let ordered = sort_key stageOrder stages in
      case find_stage ordered currentStage of
        None \<Rightarrow> Inl currentStage
      | Some current \<Rightarrow>
          (let earlier = filter (\<lambda>s. \<not> stageTerminal s \<and> stageOrder s < stageOrder current) ordered;
               target = (case latest of
                   Some t \<Rightarrow> (case fromStage t of Some k \<Rightarrow> find_stage ordered k | None \<Rightarrow> None)
                 | None \<Rightarrow> None);
               can = (\<not> stageTerminal current \<and>
                 (case latest of None \<Rightarrow> False
                  | Some t \<Rightarrow> withdrawable t \<and> transActor t = actorId \<and> toStage t = stageKey current) \<and>
                 (case target of None \<Rightarrow> False | Some w \<Rightarrow> stageOrder w < stageOrder current))
           in Inr \<lparr>canWithdraw = can,
                   withdrawTarget = (if can then target else None),
                   returnTargets = (if \<not> stageTerminal current \<and> isCurrentNodeActor then earlier else [])\<rparr>))"

text \<open>\<open>Inl ()\<close>: the target is not a valid stage before the current one.\<close>

definition assertEarlierApprovalStage :: "'k stage list \<Rightarrow> 'k \<Rightarrow> 'k \<Rightarrow> unit + 'k stage" where
  "assertEarlierApprovalStage stages currentStage targetStage =
     (case (find_stage stages currentStage, find_stage stages targetStage) of
        (Some current, Some target) \<Rightarrow>
          if stageTerminal target \<or> stageOrder target \<ge> stageOrder current then Inl () else Inr target
      | _ \<Rightarrow> Inl ())"

text \<open>The gateway of the first phase: nothing needs approval.\<close>

datatype workflow_status = NOT_REQUIRED | PENDING | APPROVED | REJECTED

definition phaseOneRequest :: "string \<Rightarrow> string \<times> workflow_status" where
  "phaseOneRequest resourceId = (''phase-one:'' @ resourceId, NOT_REQUIRED)"

lemma find_stage_Some: "find_stage stages k = Some s \<Longrightarrow> s \<in> set stages \<and> stageKey s = k"
  unfolding find_stage_def by (auto dest: find_Some_mem)

lemma find_stage_None: "find_stage stages k = None \<longleftrightarrow> k \<notin> stageKey ` set stages"
  by (auto simp: find_stage_def find_None_iff)

lemma find_stage_distinct:
  "distinct (map stageKey stages) \<Longrightarrow> s \<in> set stages \<Longrightarrow> find_stage stages (stageKey s) = Some s"
  by (induction stages) (auto simp: find_stage_def)

section \<open>The contract of a stage table\<close>

locale stage_table =
  fixes stages :: "'k stage list"
  assumes keys_distinct: "distinct (map stageKey stages)"
    and in_order: "sorted_wrt (\<lambda>a b. stageOrder a < stageOrder b) stages"
begin

lemma ordered_id: "sort_key stageOrder stages = stages"
proof -
  have "sorted (map stageOrder stages)"
    using in_order by (auto simp: sorted_map intro: sorted_wrt_mono_rel[rotated])
  then show ?thesis by (simp add: sort_key_id_if_sorted)
qed

lemma capabilities_ok_iff:
  "isOk (approvalCapabilities stages k a b l) \<longleftrightarrow> k \<in> stageKey ` set stages"
  using find_stage_None[of stages k]
  by (cases "find_stage stages k") (auto simp: approvalCapabilities_def ordered_id Let_def)

lemma returns_are_valid:
  assumes "approvalCapabilities stages k a b l = Inr c" and "s \<in> set (returnTargets c)"
  shows "b \<and> assertEarlierApprovalStage stages k (stageKey s) = Inr s"
proof -
  from assms(1) obtain cur where cur: "find_stage stages k = Some cur"
    by (cases "find_stage stages k") (auto simp: approvalCapabilities_def ordered_id)
  with assms have s: "b" "s \<in> set stages" "\<not> stageTerminal s" "stageOrder s < stageOrder cur"
    by (auto simp: approvalCapabilities_def ordered_id Let_def split: if_splits)
  with cur find_stage_distinct[OF keys_distinct s(2)] show ?thesis
    by (simp add: assertEarlierApprovalStage_def)
qed

lemma valid_is_return:
  assumes "approvalCapabilities stages k a True l = Inr c" and "find_stage stages k = Some cur"
    and "\<not> stageTerminal cur"
  shows "s \<in> set (returnTargets c) \<longleftrightarrow> s \<in> set stages \<and> \<not> stageTerminal s \<and> stageOrder s < stageOrder cur"
  using assms by (auto simp: approvalCapabilities_def ordered_id Let_def)

lemma withdraw_iff:
  assumes "find_stage stages k = Some cur" and "approvalCapabilities stages k a b l = Inr c"
  shows "canWithdraw c \<and> withdrawTarget c = Some w \<longleftrightarrow>
    \<not> stageTerminal cur \<and> stageOrder w < stageOrder cur \<and>
    (\<exists>t f. l = Some t \<and> withdrawable t \<and> transActor t = a \<and> toStage t = k \<and> fromStage t = Some f \<and>
      find_stage stages f = Some w)"
proof -
  have "stageKey cur = k" using find_stage_Some[OF assms(1)] by simp
  then show ?thesis
    using assms by (auto simp: approvalCapabilities_def ordered_id Let_def split: option.splits)
qed

lemma withdraw_has_target:
  "approvalCapabilities stages k a b l = Inr c \<Longrightarrow> canWithdraw c \<Longrightarrow> withdrawTarget c \<noteq> None"
  by (auto simp: approvalCapabilities_def ordered_id Let_def split: option.splits)

end

end
