(* ===== verification/DevelopmentRequests.thy ===== *)
theory DevelopmentRequests
  imports ApprovalPolicy JsValues
begin

text \<open>
  The development request flow:
  \<^verbatim>\<open>apps/api/src/modules/development-requests/development-request.workflow.ts\<close>
  (stages, capabilities and offered actions) and
  \<^verbatim>\<open>apps/api/src/modules/development-requests/development-request.service.ts\<close>
  (the commands and queries).  The tables are lists in a database record; a command is a
  transaction: it returns an error and leaves the database as it was, or the request and the
  new database.  A request's latest event is the last one appended (the code orders by
  creation time).  Display texts are rendered in English; time stamps are numbers.
\<close>

section \<open>Stages\<close>

datatype dev_status =
    DRAFT
  | PENDING_REQUESTER_APPROVAL
  | PENDING_ADMIN_ASSIGNMENT
  | PENDING_HANDLER_PLAN
  | PENDING_HANDLER_MANAGER_APPROVAL
  | APPROVED_FOR_DEVELOPMENT
  | REQUESTER_REJECTED
  | OtherStatus string

definition developmentRequestStages :: "dev_status stage list" where
  "developmentRequestStages =
    [\<lparr>stageKey = DRAFT, stageLabel = ''create and fill in'', stageOrder = 0, stageTerminal = False\<rparr>,
     \<lparr>stageKey = PENDING_REQUESTER_APPROVAL, stageLabel = ''requester manager approval'', stageOrder = 1, stageTerminal = False\<rparr>,
     \<lparr>stageKey = PENDING_ADMIN_ASSIGNMENT, stageLabel = ''administrator assignment'', stageOrder = 2, stageTerminal = False\<rparr>,
     \<lparr>stageKey = PENDING_HANDLER_PLAN, stageLabel = ''resource and schedule estimate'', stageOrder = 3, stageTerminal = False\<rparr>,
     \<lparr>stageKey = PENDING_HANDLER_MANAGER_APPROVAL, stageLabel = ''handler manager approval'', stageOrder = 4, stageTerminal = False\<rparr>,
     \<lparr>stageKey = APPROVED_FOR_DEVELOPMENT, stageLabel = ''approved for development'', stageOrder = 5, stageTerminal = True\<rparr>]"

datatype dev_action =
    EDIT_DRAFT | SAVE_DRAFT | SUBMIT | RESUBMIT | WITHDRAW | RETURN | REJECT
  | REQUESTER_APPROVE | ASSIGN | SUBMIT_PLAN | HANDLER_APPROVE

datatype return_mode = ANY_PREVIOUS | PREVIOUS_ONLY
datatype reject_mode = RejectToDraft | RejectToPrevious

record dev_policy =
  allowWithdraw :: bool
  returnMode :: return_mode
  adminRoleNames :: "string list"
  nodeLabels :: "(dev_status \<times> string) list"

record dev_actor =
  actor_id :: string
  actor_name :: string
  roles :: "string list"
  isSystemAdmin :: bool
  moduleAdminCodes :: "string list"

record dev_request =
  rid :: string
  requestNumber :: string
  title :: "string option"
  category :: "string option"
  description :: "string option"
  businessValue :: "string option"
  urgency :: string
  desiredDate :: "string option"
  status :: dev_status
  requesterId :: string
  requesterManagerId :: "string option"
  handlerId :: "string option"
  handlerManagerId :: "string option"
  requiredResources :: "string option"
  estimatedWorkdays :: "string option"
  plannedCompletionDate :: "string option"
  requesterApprovedAt :: "nat option"
  assignedAt :: "nat option"
  planSubmittedAt :: "nat option"
  handlerManagerApprovedAt :: "nat option"
  rversion :: nat
  updatedAt :: nat

definition configuredDevelopmentStages :: "(dev_status \<times> string) list \<Rightarrow> dev_status stage list" where
  "configuredDevelopmentStages labels =
     map (\<lambda>s. s\<lparr>stageLabel := (case map_of labels (stageKey s) of
              Some l \<Rightarrow> if l = [] then stageLabel s else l | None \<Rightarrow> stageLabel s)\<rparr>)
       developmentRequestStages"

definition isDevelopmentAdmin :: "dev_actor \<Rightarrow> string list \<Rightarrow> bool" where
  "isDevelopmentAdmin a adminRoles \<longleftrightarrow>
     isSystemAdmin a \<or> ''workflow'' \<in> set (moduleAdminCodes a) \<or>
     list_ex (\<lambda>r. r \<in> set adminRoles) (roles a)"

definition isCurrentNodeActor :: "dev_request \<Rightarrow> dev_actor \<Rightarrow> dev_policy \<Rightarrow> bool" where
  "isCurrentNodeActor r a p =
     (if status r = PENDING_REQUESTER_APPROVAL then requesterManagerId r = Some (actor_id a)
      else if status r = PENDING_ADMIN_ASSIGNMENT then isDevelopmentAdmin a (adminRoleNames p)
      else if status r = PENDING_HANDLER_PLAN then handlerId r = Some (actor_id a)
      else if status r = PENDING_HANDLER_MANAGER_APPROVAL then handlerManagerId r = Some (actor_id a)
      else False)"

datatype snapshot =
    NoSnapshot
  | PatchSnapshot "(string \<times> string option) list"
  | TargetSnapshot dev_status "string option"
  | AssignSnapshot string string
  | PlanSnapshot string rat string

record dev_event =
  evRequest :: string
  evActor :: string
  evActorName :: string
  evAction :: dev_action
  evFrom :: "dev_status option"
  evTo :: dev_status
  evComment :: "string option"
  evSnapshot :: snapshot
  evAt :: nat

definition forwardActions :: "dev_action list" where
  "forwardActions = [SUBMIT, RESUBMIT, REQUESTER_APPROVE, ASSIGN, SUBMIT_PLAN]"

definition event_transition :: "dev_event option \<Rightarrow> dev_status transition option" where
  "event_transition ev = map_option (\<lambda>e. \<lparr>transActor = evActor e, fromStage = evFrom e,
     toStage = evTo e, withdrawable = evAction e \<in> set forwardActions\<rparr>) ev"

text \<open>\<open>Inl\<close>: the status is not a stage and the policy throws.\<close>

definition developmentApprovalCapabilities ::
  "dev_request \<Rightarrow> dev_actor \<Rightarrow> dev_event option \<Rightarrow> dev_policy \<Rightarrow> dev_status + dev_status capabilities" where
  "developmentApprovalCapabilities r a latest p =
     bindE (approvalCapabilities (configuredDevelopmentStages (nodeLabels p)) (status r) (actor_id a)
              (isCurrentNodeActor r a p) (event_transition latest))
       (\<lambda>c. let c1 = (if allowWithdraw p then c else c\<lparr>canWithdraw := False\<rparr>)
            in Inr (if returnMode p = PREVIOUS_ONLY \<and> 1 < length (returnTargets c1)
                    then c1\<lparr>returnTargets := [last (returnTargets c1)]\<rparr> else c1))"

definition availableDevelopmentActions ::
  "dev_request \<Rightarrow> dev_actor \<Rightarrow> dev_event option \<Rightarrow> dev_policy \<Rightarrow> dev_status + dev_action list" where
  "availableDevelopmentActions r a latest p =
     (let acts =
        (if status r = DRAFT \<and> requesterId r = actor_id a then [EDIT_DRAFT, SUBMIT] else []) @
        (if status r = PENDING_REQUESTER_APPROVAL \<and> requesterManagerId r = Some (actor_id a)
         then [REQUESTER_APPROVE, REJECT] else []) @
        (if status r = PENDING_ADMIN_ASSIGNMENT \<and> isDevelopmentAdmin a (adminRoleNames p)
         then [ASSIGN] else []) @
        (if status r = PENDING_HANDLER_PLAN \<and> handlerId r = Some (actor_id a) then [SUBMIT_PLAN] else []) @
        (if status r = PENDING_HANDLER_MANAGER_APPROVAL \<and> handlerManagerId r = Some (actor_id a)
         then [HANDLER_APPROVE, REJECT] else [])
      in bindE (developmentApprovalCapabilities r a latest p)
        (\<lambda>c. Inr (acts @ (if returnTargets c \<noteq> [] then [RETURN] else []) @
                  (if canWithdraw c then [WITHDRAW] else []))))"

section \<open>Texts and drafts\<close>

datatype dev_error = BadRequest string | Forbidden string | NotFound | UnknownStage dev_status

definition lift_stage :: "dev_status + 'a \<Rightarrow> dev_error + 'a" where
  "lift_stage m = (case m of Inl k \<Rightarrow> Inl (UnknownStage k) | Inr x \<Rightarrow> Inr x)"

definition text_of :: "host \<Rightarrow> json option \<Rightarrow> string" where
  "text_of h v = js_trim (js_string h (coalesce v (JStr [])))"

definition cleanText :: "host \<Rightarrow> json option \<Rightarrow> string \<Rightarrow> nat \<Rightarrow> dev_error + string" where
  "cleanText h v what maxLength =
     (let t = text_of h v in
      if t = [] then Inl (BadRequest (what @ '' must not be empty''))
      else if length t > maxLength then Inl (BadRequest (what @ '' is too long'')) else Inr t)"

definition optionalText :: "host \<Rightarrow> json option \<Rightarrow> string \<Rightarrow> nat \<Rightarrow> dev_error + string option" where
  "optionalText h v what maxLength =
     (let t = text_of h v in
      if length t > maxLength then Inl (BadRequest (what @ '' is too long''))
      else Inr (if t = [] then None else Some t))"

text \<open>\<open>\d{4}-\d{2}-\d{2}\<close> and \<open>Date.parse\<close>, which checks month 1..12 and
  day 1..31 and lets a day past the end of the month roll over.\<close>

definition iso_date_shape :: "string \<Rightarrow> bool" where
  "iso_date_shape s \<longleftrightarrow> length s = 10 \<and> s ! 4 = CHR ''-'' \<and> s ! 7 = CHR ''-'' \<and>
     list_all (\<lambda>i. js_digit (s ! i)) [0, 1, 2, 3, 5, 6, 8, 9]"

definition date_parses :: "string \<Rightarrow> bool" where
  "date_parses s \<longleftrightarrow>
     (let month = digits_value [s ! 5, s ! 6]; d = digits_value [s ! 8, s ! 9]
      in 1 \<le> month \<and> month \<le> 12 \<and> 1 \<le> d \<and> d \<le> 31)"

definition optionalDate :: "host \<Rightarrow> json option \<Rightarrow> string \<Rightarrow> dev_error + string option" where
  "optionalDate h v what =
     (let t = text_of h v in
      if t = [] then Inr None
      else if \<not> iso_date_shape t \<or> \<not> date_parses t then Inl (BadRequest (what @ '' is malformed''))
      else Inr (Some t))"

text \<open>A draft patch holds the fields the input has, each with its new value
  (\<open>None\<close> is \<open>null\<close>).\<close>

definition own :: "(string \<times> json) list \<Rightarrow> string \<Rightarrow> (json option \<Rightarrow> dev_error + string option) \<Rightarrow>
    dev_error + (string \<times> string option) list" where
  "own input k f = (if k \<in> set (jkeys input)
     then bindE (f (jget input k)) (\<lambda>v. Inr [(k, v)]) else Inr [])"

definition patchUrgency :: "host \<Rightarrow> json option \<Rightarrow> dev_error + string option" where
  "patchUrgency h v =
     (let u = js_string h (coalesce v (JStr ''NORMAL'')) in
      if u \<in> set [''LOW'', ''NORMAL'', ''HIGH'', ''URGENT''] then Inr (Some u)
      else Inl (BadRequest ''urgency is invalid''))"

definition patchManager :: "host \<Rightarrow> json option \<Rightarrow> dev_error + string option" where
  "patchManager h v = (let t = text_of h v in Inr (if t = [] then None else Some t))"

definition draftPatch :: "host \<Rightarrow> (string \<times> json) list \<Rightarrow> dev_error + (string \<times> string option) list" where
  "draftPatch h input =
     bindE (own input ''title'' (\<lambda>v. optionalText h v ''title'' 200)) (\<lambda>a.
     bindE (own input ''category'' (\<lambda>v. optionalText h v ''category'' 50)) (\<lambda>b.
     bindE (own input ''description'' (\<lambda>v. optionalText h v ''description'' 10000)) (\<lambda>c.
     bindE (own input ''businessValue'' (\<lambda>v. optionalText h v ''business value'' 5000)) (\<lambda>d.
     bindE (own input ''urgency'' (patchUrgency h)) (\<lambda>e.
     bindE (own input ''desiredDate'' (\<lambda>v. optionalDate h v ''desired date'')) (\<lambda>f.
     bindE (own input ''requesterManagerId'' (patchManager h)) (\<lambda>g.
       Inr (a @ b @ c @ d @ e @ f @ g))))))))"

definition patched :: "(string \<times> string option) list \<Rightarrow> string \<Rightarrow> string option \<Rightarrow> string option" where
  "patched p k old = (case map_of p k of Some v \<Rightarrow> v | None \<Rightarrow> old)"

text \<open>\<open>Object.assign(request, patch)\<close>.\<close>

definition applyPatch :: "(string \<times> string option) list \<Rightarrow> dev_request \<Rightarrow> dev_request" where
  "applyPatch p r = r\<lparr>title := patched p ''title'' (title r), category := patched p ''category'' (category r),
     description := patched p ''description'' (description r),
     businessValue := patched p ''businessValue'' (businessValue r),
     urgency := (case map_of p ''urgency'' of Some (Some u) \<Rightarrow> u | _ \<Rightarrow> urgency r),
     desiredDate := patched p ''desiredDate'' (desiredDate r),
     requesterManagerId := patched p ''requesterManagerId'' (requesterManagerId r)\<rparr>"

section \<open>The tables\<close>

record dev_user =
  userId :: string
  username :: string
  displayName :: string
  employeeNo :: "string option"
  wechatUserId :: "string option"
  enabled :: bool

record dev_db =
  requests :: "dev_request list"
  events :: "dev_event list"
  users :: "dev_user list"
  sequence_no :: nat

record flow_config =
  flowEnabled :: bool
  allowDraft :: bool
  flowPolicy :: dev_policy
  rejectTargetMode :: reject_mode
  approvalCommentRequired :: bool

definition activeUser :: "dev_db \<Rightarrow> string option \<Rightarrow> string \<Rightarrow> dev_error + dev_user" where
  "activeUser db i what = (case i of
     None \<Rightarrow> Inl (BadRequest (''choose '' @ what))
   | Some k \<Rightarrow>
       if k = [] then Inl (BadRequest (''choose '' @ what))
       else (case find (\<lambda>u. userId u = k \<and> enabled u) (users db) of
               None \<Rightarrow> Inl (BadRequest (what @ '' does not exist or is disabled''))
             | Some u \<Rightarrow> Inr u))"

definition ensureSubmittable :: "host \<Rightarrow> dev_db \<Rightarrow> dev_request \<Rightarrow> dev_error + dev_request" where
  "ensureSubmittable h db r =
     bindE (cleanText h (map_option JStr (title r)) ''title'' 200) (\<lambda>t.
     bindE (cleanText h (map_option JStr (category r)) ''category'' 50) (\<lambda>c.
     bindE (cleanText h (map_option JStr (description r)) ''description'' 10000) (\<lambda>d.
     bindE (activeUser db (requesterManagerId r) ''approving manager'') (\<lambda>u.
       if userId u = requesterId r then Inl (BadRequest ''the approving manager must be someone else'')
       else Inr (r\<lparr>title := Some t, category := Some c, description := Some d,
                   requesterManagerId := Some (userId u)\<rparr>)))))"

definition locked :: "dev_db \<Rightarrow> string \<Rightarrow> dev_error + dev_request" where
  "locked db i = (case find (\<lambda>r. rid r = i) (requests db) of None \<Rightarrow> Inl NotFound | Some r \<Rightarrow> Inr r)"

definition events_of :: "dev_db \<Rightarrow> string \<Rightarrow> dev_event list" where
  "events_of db i = filter (\<lambda>e. evRequest e = i) (events db)"

definition latestEvent :: "dev_db \<Rightarrow> string \<Rightarrow> dev_event option" where
  "latestEvent db i = js_last (events_of db i)"

definition save_request :: "nat \<Rightarrow> dev_request \<Rightarrow> dev_db \<Rightarrow> dev_db" where
  "save_request now r db = db\<lparr>requests :=
     map (\<lambda>x. if rid x = rid r then r\<lparr>updatedAt := now\<rparr> else x) (requests db)\<rparr>"

definition commentText :: "string option \<Rightarrow> string option" where
  "commentText c = (case c of None \<Rightarrow> None
     | Some s \<Rightarrow> (let t = js_trim s in if t = [] then None else Some t))"

definition addEvent :: "nat \<Rightarrow> dev_request \<Rightarrow> dev_actor \<Rightarrow> dev_action \<Rightarrow> dev_status option \<Rightarrow>
    string option \<Rightarrow> snapshot \<Rightarrow> dev_db \<Rightarrow> dev_db" where
  "addEvent now r a act from comment snap db = db\<lparr>events := events db @
     [\<lparr>evRequest = rid r, evActor = actor_id a, evActorName = actor_name a, evAction = act,
       evFrom = from, evTo = status r, evComment = commentText comment, evSnapshot = snap,
       evAt = now\<rparr>]\<rparr>"

text \<open>The end of every command: \<open>manager.save(request)\<close> and its event.\<close>

definition commit :: "nat \<Rightarrow> dev_request \<Rightarrow> dev_actor \<Rightarrow> dev_action \<Rightarrow> dev_status option \<Rightarrow>
    string option \<Rightarrow> snapshot \<Rightarrow> dev_db \<Rightarrow> dev_request \<times> dev_db" where
  "commit now r a act from comment snap db =
     (r\<lparr>updatedAt := now\<rparr>, addEvent now r a act from comment snap (save_request now r db))"

section \<open>Commands\<close>

type_synonym dev_result = "dev_error + dev_request \<times> dev_db"

text \<open>\<open>'REQ-' || to_char(current_date,'YYYYMM') || '-' || lpad(nextval(...)::text,6,'0')\<close>;
  \<open>lpad\<close> cuts a longer number.\<close>

fun nat_text :: "nat \<Rightarrow> string" where
  "nat_text n = (if n < 10 then [char_of (48 + n)] else nat_text (n div 10) @ [char_of (48 + n mod 10)])"

definition lpad :: "nat \<Rightarrow> char \<Rightarrow> string \<Rightarrow> string" where
  "lpad k c s = take k (replicate (k - length s) c @ s)"

definition request_number :: "string \<Rightarrow> nat \<Rightarrow> string" where
  "request_number yyyymm n = ''REQ-'' @ yyyymm @ ''-'' @ lpad 6 CHR ''0'' (nat_text n)"

definition blank_request :: "string \<Rightarrow> string \<Rightarrow> string \<Rightarrow> dev_request" where
  "blank_request i number requester =
     \<lparr>rid = i, requestNumber = number, title = None, category = None, description = None,
      businessValue = None, urgency = ''NORMAL'', desiredDate = None, status = DRAFT,
      requesterId = requester, requesterManagerId = None, handlerId = None, handlerManagerId = None,
      requiredResources = None, estimatedWorkdays = None, plannedCompletionDate = None,
      requesterApprovedAt = None, assignedAt = None, planSubmittedAt = None,
      handlerManagerApprovedAt = None, rversion = 1, updatedAt = 0\<rparr>"

definition submit_new :: "host \<Rightarrow> bool \<Rightarrow> dev_db \<Rightarrow> dev_request \<Rightarrow> dev_error + dev_request" where
  "submit_new h submit db r = (if submit
     then bindE (ensureSubmittable h db r) (\<lambda>r1. Inr (r1\<lparr>status := PENDING_REQUESTER_APPROVAL\<rparr>))
     else Inr r)"

text \<open>\<open>i\<close> is the id the database generates for the new row.\<close>

definition create :: "host \<Rightarrow> flow_config \<Rightarrow> nat \<Rightarrow> string \<Rightarrow> string \<Rightarrow> (string \<times> json) list \<Rightarrow> bool \<Rightarrow>
    dev_actor \<Rightarrow> dev_db \<Rightarrow> dev_result" where
  "create h cfg now yyyymm i input submit a db =
     (if \<not> flowEnabled cfg then Inl (BadRequest ''the flow is disabled'')
      else if \<not> submit \<and> \<not> allowDraft cfg then Inl (BadRequest ''drafts are not enabled'')
      else bindE (draftPatch h input) (\<lambda>patch.
           bindE (activeUser db (Some (actor_id a)) ''requester'') (\<lambda>_.
           let db1 = db\<lparr>sequence_no := Suc (sequence_no db)\<rparr>;
               r = applyPatch patch (blank_request i (request_number yyyymm (sequence_no db)) (actor_id a))
           in bindE (submit_new h submit db1 r) (\<lambda>r2.
              Inr (commit now r2 a (if submit then SUBMIT else SAVE_DRAFT)
                     (if submit then Some DRAFT else None)
                     (Some (if submit then ''submitted'' else ''draft saved'')) (PatchSnapshot patch)
                     (db1\<lparr>requests := requests db1 @ [r2]\<rparr>))))))"

definition updateDraft :: "host \<Rightarrow> flow_config \<Rightarrow> nat \<Rightarrow> string \<Rightarrow> (string \<times> json) list \<Rightarrow> bool \<Rightarrow>
    dev_actor \<Rightarrow> dev_db \<Rightarrow> dev_result" where
  "updateDraft h cfg now i input submit a db =
     (if \<not> submit \<and> \<not> allowDraft cfg then Inl (BadRequest ''drafts are not enabled'')
      else bindE (draftPatch h input) (\<lambda>patch.
           bindE (locked db i) (\<lambda>r.
           if status r \<noteq> DRAFT \<or> requesterId r \<noteq> actor_id a then Inl (Forbidden ''not your draft'')
           else bindE (if submit then ensureSubmittable h db (applyPatch patch r)
                       else Inr (applyPatch patch r)) (\<lambda>r1.
             let r2 = (if submit then r1\<lparr>status := PENDING_REQUESTER_APPROVAL\<rparr> else r1);
                 r3 = r2\<lparr>rversion := rversion r2 + 1\<rparr>
             in Inr (commit now r3 a (if submit then SUBMIT else SAVE_DRAFT) (Some (status r1))
                       (Some (if submit then ''submitted'' else ''draft saved'')) (PatchSnapshot patch) db)))))"

definition submitDraft :: "host \<Rightarrow> flow_config \<Rightarrow> nat \<Rightarrow> string \<Rightarrow> dev_actor \<Rightarrow> dev_db \<Rightarrow> dev_result" where
  "submitDraft h cfg now i a db = updateDraft h cfg now i [] True a db"

definition resubmit :: "host \<Rightarrow> nat \<Rightarrow> string \<Rightarrow> (string \<times> json) list \<Rightarrow> dev_actor \<Rightarrow> dev_db \<Rightarrow> dev_result" where
  "resubmit h now i input a db =
     bindE (locked db i) (\<lambda>r.
       if status r \<noteq> REQUESTER_REJECTED \<or> requesterId r \<noteq> actor_id a
       then Inl (Forbidden ''not yours to resubmit'')
       else bindE (draftPatch h input) (\<lambda>patch.
            bindE (ensureSubmittable h db (applyPatch patch (r\<lparr>status := DRAFT\<rparr>))) (\<lambda>r1.
            let r2 = r1\<lparr>status := PENDING_REQUESTER_APPROVAL, rversion := rversion r1 + 1\<rparr>
            in Inr (commit now r2 a RESUBMIT (Some REQUESTER_REJECTED) (Some ''resubmitted'') NoSnapshot db))))"

definition resetForStage :: "dev_request \<Rightarrow> dev_status \<Rightarrow> dev_error + dev_request" where
  "resetForStage r target = (case find_stage developmentRequestStages target of
     None \<Rightarrow> Inl (BadRequest ''invalid return stage'')
   | Some s \<Rightarrow>
       (let r1 = r\<lparr>status := stageKey s, handlerManagerApprovedAt := None\<rparr>;
            r2 = (if stageOrder s \<le> 3 then r1\<lparr>planSubmittedAt := None\<rparr> else r1);
            r3 = (if stageOrder s \<le> 2 then r2\<lparr>handlerId := None, handlerManagerId := None, assignedAt := None,
                    requiredResources := None, estimatedWorkdays := None, plannedCompletionDate := None\<rparr>
                  else r2);
            r4 = (if stageOrder s \<le> 1 then r3\<lparr>requesterApprovedAt := None\<rparr> else r3)
        in Inr r4))"

text \<open>The common end of withdrawing, returning and rejecting.\<close>

definition move_back :: "nat \<Rightarrow> dev_request \<Rightarrow> dev_status \<Rightarrow> dev_actor \<Rightarrow> dev_action \<Rightarrow> string \<Rightarrow>
    (dev_request \<Rightarrow> snapshot) \<Rightarrow> dev_db \<Rightarrow> dev_result" where
  "move_back now r target a act comment snap db =
     bindE (resetForStage r target) (\<lambda>r1.
       let r2 = r1\<lparr>rversion := rversion r1 + 1\<rparr>
       in Inr (commit now r2 a act (Some (status r)) (Some comment) (snap r2) db))"

definition withdraw :: "flow_config \<Rightarrow> nat \<Rightarrow> string \<Rightarrow> string option \<Rightarrow> dev_actor \<Rightarrow> dev_db \<Rightarrow> dev_result" where
  "withdraw cfg now i comment a db =
     bindE (locked db i) (\<lambda>r.
     bindE (lift_stage (developmentApprovalCapabilities r a (latestEvent db i) (flowPolicy cfg))) (\<lambda>c.
       case (canWithdraw c, withdrawTarget c) of
         (True, Some target) \<Rightarrow>
           move_back now r (stageKey target) a WITHDRAW
             (case comment of None \<Rightarrow> ''withdrawn'' | Some t \<Rightarrow> if t = [] then ''withdrawn'' else t)
             (\<lambda>r2. TargetSnapshot (status r2) None) db
       | _ \<Rightarrow> Inl (Forbidden ''cannot withdraw'')))"

definition returnTo :: "host \<Rightarrow> flow_config \<Rightarrow> nat \<Rightarrow> string \<Rightarrow> dev_status option \<Rightarrow> string option \<Rightarrow>
    dev_actor \<Rightarrow> dev_db \<Rightarrow> dev_result" where
  "returnTo h cfg now i targetStatus comment a db =
     bindE (cleanText h (map_option JStr comment) ''reason'' 2000) (\<lambda>reason.
     bindE (locked db i) (\<lambda>r.
     bindE (lift_stage (developmentApprovalCapabilities r a (latestEvent db i) (flowPolicy cfg))) (\<lambda>c.
       case find (\<lambda>s. Some (stageKey s) = targetStatus) (returnTargets c) of
         None \<Rightarrow> Inl (Forbidden ''cannot return'')
       | Some target \<Rightarrow> move_back now r (stageKey target) a RETURN reason
           (\<lambda>_. TargetSnapshot (stageKey target) (Some (stageLabel target))) db)))"

definition rejectTarget :: "flow_config \<Rightarrow> dev_request \<Rightarrow> dev_status stage option" where
  "rejectTarget cfg r =
     (let stages = configuredDevelopmentStages (nodeLabels (flowPolicy cfg)) in
      case rejectTargetMode cfg of
        RejectToDraft \<Rightarrow> find_stage stages DRAFT
      | RejectToPrevious \<Rightarrow>
          (case find_stage stages (status r) of
             None \<Rightarrow> None
           | Some current \<Rightarrow> js_last (filter (\<lambda>s. stageOrder s < stageOrder current) stages)))"

definition reject :: "host \<Rightarrow> flow_config \<Rightarrow> nat \<Rightarrow> string \<Rightarrow> string option \<Rightarrow> dev_actor \<Rightarrow> dev_db \<Rightarrow> dev_result" where
  "reject h cfg now i comment a db =
     bindE (cleanText h (map_option JStr comment) ''reason'' 2000) (\<lambda>reason.
     bindE (locked db i) (\<lambda>r.
       if \<not> (status r = PENDING_REQUESTER_APPROVAL \<and> requesterManagerId r = Some (actor_id a) \<or>
             status r = PENDING_HANDLER_MANAGER_APPROVAL \<and> handlerManagerId r = Some (actor_id a))
       then Inl (Forbidden ''only the approver may reject'')
       else (case rejectTarget cfg r of
               None \<Rightarrow> Inl (BadRequest ''no reject target'')
             | Some target \<Rightarrow> move_back now r (stageKey target) a REJECT reason
                 (\<lambda>_. TargetSnapshot (stageKey target) (Some (stageLabel target))) db)))"

definition approvalComment :: "host \<Rightarrow> flow_config \<Rightarrow> string option \<Rightarrow> dev_error + unit" where
  "approvalComment h cfg comment = (if approvalCommentRequired cfg
     then bindE (cleanText h (map_option JStr comment) ''comment'' 2000) (\<lambda>_. Inr ()) else Inr ())"

definition requesterDecision :: "host \<Rightarrow> flow_config \<Rightarrow> nat \<Rightarrow> string \<Rightarrow> bool \<Rightarrow> string option \<Rightarrow>
    dev_actor \<Rightarrow> dev_db \<Rightarrow> dev_result" where
  "requesterDecision h cfg now i approved comment a db =
     (if \<not> approved then returnTo h cfg now i (Some DRAFT) comment a db
      else bindE (approvalComment h cfg comment) (\<lambda>_.
           bindE (locked db i) (\<lambda>r.
           if status r \<noteq> PENDING_REQUESTER_APPROVAL \<or> requesterManagerId r \<noteq> Some (actor_id a)
           then Inl (Forbidden ''not at your node'')
           else Inr (commit now (r\<lparr>status := PENDING_ADMIN_ASSIGNMENT, requesterApprovedAt := Some now,
                       rversion := rversion r + 1\<rparr>) a REQUESTER_APPROVE (Some (status r)) comment NoSnapshot db))))"

definition assign :: "flow_config \<Rightarrow> nat \<Rightarrow> string \<Rightarrow> string option \<Rightarrow> string option \<Rightarrow> string option \<Rightarrow>
    dev_actor \<Rightarrow> dev_db \<Rightarrow> dev_result" where
  "assign cfg now i handler manager comment a db =
     (if \<not> isDevelopmentAdmin a (adminRoleNames (flowPolicy cfg)) then Inl (Forbidden ''administrators only'')
      else bindE (locked db i) (\<lambda>r.
           if status r \<noteq> PENDING_ADMIN_ASSIGNMENT then Inl (BadRequest ''not at the assignment node'')
           else bindE (activeUser db handler ''handler'') (\<lambda>u.
                bindE (activeUser db manager ''handler manager'') (\<lambda>m.
                if userId u = userId m then Inl (BadRequest ''the manager must be someone else'')
                else Inr (commit now (r\<lparr>handlerId := Some (userId u), handlerManagerId := Some (userId m),
                       status := PENDING_HANDLER_PLAN, assignedAt := Some now, rversion := rversion r + 1\<rparr>)
                       a ASSIGN (Some (status r)) comment (AssignSnapshot (userId u) (userId m)) db)))))"

definition submitPlan :: "host \<Rightarrow> nat \<Rightarrow> string \<Rightarrow> json option \<Rightarrow> json option \<Rightarrow> json option \<Rightarrow>
    dev_actor \<Rightarrow> dev_db \<Rightarrow> dev_result" where
  "submitPlan h now i resources workdays planned a db =
     bindE (locked db i) (\<lambda>r.
       if status r \<noteq> PENDING_HANDLER_PLAN \<or> handlerId r \<noteq> Some (actor_id a)
       then Inl (Forbidden ''not yours to plan'')
       else bindE (cleanText h resources ''resources'' 10000) (\<lambda>res.
         case js_number_opt workdays of
           None \<Rightarrow> Inl (BadRequest ''work days must be positive'')
         | Some d \<Rightarrow>
             if d \<le> 0 \<or> d > 9999 then Inl (BadRequest ''work days must be positive'')
             else bindE (optionalDate h planned ''planned date'') (\<lambda>date.
               case date of
                 None \<Rightarrow> Inl (BadRequest ''choose a planned date'')
               | Some day \<Rightarrow> Inr (commit now (r\<lparr>requiredResources := Some res,
                     estimatedWorkdays := Some (num_str h d), plannedCompletionDate := Some day,
                     status := PENDING_HANDLER_MANAGER_APPROVAL, planSubmittedAt := Some now,
                     rversion := rversion r + 1\<rparr>) a SUBMIT_PLAN (Some (status r)) (Some ''plan submitted'')
                     (PlanSnapshot res d day) db))))"

definition handlerManagerDecision :: "host \<Rightarrow> flow_config \<Rightarrow> nat \<Rightarrow> string \<Rightarrow> bool \<Rightarrow> string option \<Rightarrow>
    dev_actor \<Rightarrow> dev_db \<Rightarrow> dev_result" where
  "handlerManagerDecision h cfg now i approved comment a db =
     (if \<not> approved then returnTo h cfg now i (Some PENDING_HANDLER_PLAN) comment a db
      else bindE (approvalComment h cfg comment) (\<lambda>_.
           bindE (locked db i) (\<lambda>r.
           if status r \<noteq> PENDING_HANDLER_MANAGER_APPROVAL \<or> handlerManagerId r \<noteq> Some (actor_id a)
           then Inl (Forbidden ''not at your node'')
           else Inr (commit now (r\<lparr>status := APPROVED_FOR_DEVELOPMENT, handlerManagerApprovedAt := Some now,
                       rversion := rversion r + 1\<rparr>) a HANDLER_APPROVE (Some (status r)) comment NoSnapshot db))))"

section \<open>Queries\<close>

definition canView :: "dev_request \<Rightarrow> dev_actor \<Rightarrow> dev_policy \<Rightarrow> bool" where
  "canView r a p = isDevelopmentAdmin a (adminRoleNames p)"

record presented =
  pRequest :: dev_request
  requesterName :: string
  requesterManagerName :: string
  handlerName :: "string option"
  handlerManagerName :: "string option"
  availableActions :: "dev_action list"
  presentedTargets :: "(dev_status \<times> string) list"

definition name_of :: "dev_db \<Rightarrow> string \<Rightarrow> string" where
  "name_of db i = (case find (\<lambda>u. userId u = i) (users db) of Some u \<Rightarrow> displayName u | None \<Rightarrow> ''-'')"

definition present1 :: "dev_db \<Rightarrow> dev_actor \<Rightarrow> dev_policy \<Rightarrow> dev_request \<Rightarrow> dev_error + presented" where
  "present1 db a p r =
     (let latest = latestEvent db (rid r) in
      bindE (lift_stage (developmentApprovalCapabilities r a latest p)) (\<lambda>c.
      bindE (lift_stage (availableDevelopmentActions r a latest p)) (\<lambda>acts.
        Inr \<lparr>pRequest = r, requesterName = name_of db (requesterId r),
             requesterManagerName = (case requesterManagerId r of Some m \<Rightarrow> name_of db m | None \<Rightarrow> ''to be chosen''),
             handlerName = map_option (name_of db) (handlerId r),
             handlerManagerName = map_option (name_of db) (handlerManagerId r),
             availableActions = acts,
             presentedTargets = map (\<lambda>s. (stageKey s, stageLabel s)) (returnTargets c)\<rparr>)))"

definition present :: "dev_db \<Rightarrow> dev_actor \<Rightarrow> dev_policy \<Rightarrow> dev_request list \<Rightarrow> dev_error + presented list" where
  "present db a p rows = mapE (present1 db a p) rows"

definition js_includes :: "string \<Rightarrow> string \<Rightarrow> bool" where
  "js_includes s t = list_ex (\<lambda>i. take (length t) (drop i s) = t) [0..<Suc (length s)]"

definition matches_search :: "string \<Rightarrow> dev_request \<Rightarrow> bool" where
  "matches_search keyword r = list_ex (\<lambda>v. js_includes (js_lower v) keyword)
     [requestNumber r, case_option [] id (title r), case_option [] id (description r),
      case_option [] id (category r)]"

datatype list_scope = MineScope | TodoScope | AllScope

text \<open>\<open>filterGroup\<close> is the compiled filter, a predicate on rows.\<close>

definition list_requests :: "flow_config \<Rightarrow> list_scope \<Rightarrow> string \<Rightarrow> (dev_request \<Rightarrow> bool) \<Rightarrow> dev_actor \<Rightarrow>
    dev_db \<Rightarrow> dev_error + presented list" where
  "list_requests cfg scope search filterGroup a db =
     (let p = flowPolicy cfg in
      if \<not> isDevelopmentAdmin a (adminRoleNames p) then Inl (Forbidden ''administrators only'')
      else (let rows = take 1000 (rev (sort_key updatedAt (filter filterGroup (requests db))));
                seen = filter (\<lambda>r. canView r a p) rows;
                keyword = js_lower (js_trim search);
                found = (if keyword = [] then seen else filter (matches_search keyword) seen)
            in bindE (present db a p found) (\<lambda>ps. Inr (case scope of
                 MineScope \<Rightarrow> filter (\<lambda>x. requesterId (pRequest x) = actor_id a) ps
               | TodoScope \<Rightarrow> filter (\<lambda>x. availableActions x \<noteq> []) ps
               | AllScope \<Rightarrow> ps))))"

definition detail :: "flow_config \<Rightarrow> string \<Rightarrow> dev_actor \<Rightarrow> dev_db \<Rightarrow> dev_error + presented \<times> dev_event list" where
  "detail cfg i a db =
     bindE (locked db i) (\<lambda>r.
       if \<not> canView r a (flowPolicy cfg) then Inl (Forbidden ''not visible'')
       else bindE (present1 db a (flowPolicy cfg) r) (\<lambda>x. Inr (x, events_of db i)))"

end
