(* ===== verification/DevelopmentRequestsLaws.thy ===== *)
theory DevelopmentRequestsLaws
  imports DevelopmentRequests
begin

text \<open>
  Laws of the development request flow.  The interpretation \<open>dev\<close> discharges the
  contract of a stage table for the configured stages.  \<open>dev_exec\<close> collects the commands,
  \<open>dev_step\<close> and \<open>dev_reach\<close> let any users issue them in any order while user
  accounts and the flow's configuration change, and \<open>dev_inv\<close> relates each request to its
  stage and to its event trail.
\<close>

section \<open>The stage table\<close>

fun stage_no :: "dev_status \<Rightarrow> nat" where
  "stage_no DRAFT = 0"
| "stage_no PENDING_REQUESTER_APPROVAL = 1"
| "stage_no PENDING_ADMIN_ASSIGNMENT = 2"
| "stage_no PENDING_HANDLER_PLAN = 3"
| "stage_no PENDING_HANDLER_MANAGER_APPROVAL = 4"
| "stage_no APPROVED_FOR_DEVELOPMENT = 5"
| "stage_no REQUESTER_REJECTED = 6"
| "stage_no (OtherStatus k) = 6"

definition known :: "dev_status \<Rightarrow> bool" where
  "known k \<longleftrightarrow> stage_no k \<le> 5"

lemma map_key_configured: "map stageKey (configuredDevelopmentStages l) = map stageKey developmentRequestStages"
  by (simp add: configuredDevelopmentStages_def)

lemma configured_eq:
  "\<exists>f. configuredDevelopmentStages l = map (\<lambda>s. s\<lparr>stageLabel := f s\<rparr>) developmentRequestStages"
  unfolding configuredDevelopmentStages_def by (rule exI) (rule refl)

interpretation dev: stage_table "configuredDevelopmentStages l" for l
proof
  show "distinct (map stageKey (configuredDevelopmentStages l))"
    by (simp add: map_key_configured) (simp add: developmentRequestStages_def)
  show "sorted_wrt (\<lambda>a b. stageOrder a < stageOrder b) (configuredDevelopmentStages l)"
    using configured_eq[of l] by (auto simp: developmentRequestStages_def)
qed

lemma configured_member:
  "s \<in> set (configuredDevelopmentStages l) \<Longrightarrow>
    known (stageKey s) \<and> stageOrder s = int (stage_no (stageKey s)) \<and>
    (stageTerminal s \<longleftrightarrow> stageKey s = APPROVED_FOR_DEVELOPMENT)"
  using configured_eq[of l] by (auto simp: developmentRequestStages_def known_def)

lemma known_keys: "known k \<longleftrightarrow> k \<in> stageKey ` set (configuredDevelopmentStages l)"
proof -
  have "set (map stageKey (configuredDevelopmentStages l)) = {k. known k}"
    unfolding map_key_configured
  proof
    show "{k. known k} \<subseteq> set (map stageKey developmentRequestStages)"
    proof
      fix k assume "k \<in> {k. known k}"
      then show "k \<in> set (map stageKey developmentRequestStages)"
        by (cases k) (simp_all add: known_def developmentRequestStages_def)
    qed
  qed (auto simp: known_def developmentRequestStages_def)
  then show ?thesis by auto
qed

lemma find_base_stage:
  "find_stage developmentRequestStages k = Some s \<Longrightarrow> stageKey s = k \<and> stageOrder s = int (stage_no k) \<and> known k"
  by (auto simp: find_stage_def developmentRequestStages_def known_def split: if_splits)

lemma find_base_known: "known k \<Longrightarrow> \<exists>s. find_stage developmentRequestStages k = Some s"
  by (cases k) (auto simp: find_stage_def developmentRequestStages_def known_def)

section \<open>Executions\<close>

datatype dev_op =
    Create string string "(string \<times> json) list" bool
  | UpdateDraft string "(string \<times> json) list" bool
  | SubmitDraft string
  | Resubmit string "(string \<times> json) list"
  | Withdraw string "string option"
  | ReturnTo string "dev_status option" "string option"
  | Reject string "string option"
  | RequesterDecision string bool "string option"
  | Assign string "string option" "string option" "string option"
  | SubmitPlan string "json option" "json option" "json option"
  | HandlerManagerDecision string bool "string option"

fun dev_exec :: "host \<Rightarrow> flow_config \<Rightarrow> nat \<Rightarrow> dev_op \<Rightarrow> dev_actor \<Rightarrow> dev_db \<Rightarrow> dev_result" where
  "dev_exec h cfg now (Create month i input s) a db = create h cfg now month i input s a db"
| "dev_exec h cfg now (UpdateDraft i input s) a db = updateDraft h cfg now i input s a db"
| "dev_exec h cfg now (SubmitDraft i) a db = submitDraft h cfg now i a db"
| "dev_exec h cfg now (Resubmit i input) a db = resubmit h now i input a db"
| "dev_exec h cfg now (Withdraw i c) a db = withdraw cfg now i c a db"
| "dev_exec h cfg now (ReturnTo i t c) a db = returnTo h cfg now i t c a db"
| "dev_exec h cfg now (Reject i c) a db = reject h cfg now i c a db"
| "dev_exec h cfg now (RequesterDecision i b c) a db = requesterDecision h cfg now i b c a db"
| "dev_exec h cfg now (Assign i u m c) a db = assign cfg now i u m c a db"
| "dev_exec h cfg now (SubmitPlan i r w d) a db = submitPlan h now i r w d a db"
| "dev_exec h cfg now (HandlerManagerDecision i b c) a db = handlerManagerDecision h cfg now i b c a db"

text \<open>The database generates a new id for a new row.\<close>

fun fresh_op :: "dev_op \<Rightarrow> dev_db \<Rightarrow> bool" where
  "fresh_op (Create month i input s) db \<longleftrightarrow> i \<notin> rid ` set (requests db)"
| "fresh_op _ db \<longleftrightarrow> True"

inductive dev_step :: "host \<Rightarrow> dev_db \<Rightarrow> dev_db \<Rightarrow> bool" for h where
  command: "dev_exec h cfg now op a db = Inr (r, db') \<Longrightarrow> fresh_op op db \<Longrightarrow> dev_step h db db'"
| accounts: "dev_step h db (db\<lparr>users := us\<rparr>)"

inductive dev_reach :: "host \<Rightarrow> dev_db \<Rightarrow> bool" for h where
  init: "dev_reach h \<lparr>requests = [], events = [], users = us, sequence_no = n\<rparr>"
| step: "dev_reach h db \<Longrightarrow> dev_step h db db' \<Longrightarrow> dev_reach h db'"

section \<open>The invariant\<close>

text \<open>The event of an approval that no later step has taken back below stage \<open>k\<close>.\<close>

definition in_force :: "dev_action \<Rightarrow> string option \<Rightarrow> nat \<Rightarrow> dev_event list \<Rightarrow> bool" where
  "in_force act who k es \<longleftrightarrow> (\<exists>xs e ys. es = xs @ e # ys \<and> evAction e = act \<and> Some (evActor e) = who \<and>
     stage_no (evTo e) = k \<and> (\<forall>y \<in> set ys. k \<le> stage_no (evTo y)))"

definition trail_ok :: "dev_status \<Rightarrow> nat \<Rightarrow> dev_event list \<Rightarrow> bool" where
  "trail_ok st ver es \<longleftrightarrow> known st \<and> es \<noteq> [] \<and> ver = length es \<and> evTo (last es) = st \<and>
     (evFrom (hd es) = None \<or> evFrom (hd es) = Some DRAFT) \<and>
     successively (\<lambda>a b. evFrom b = Some (evTo a)) es"

definition submitted_ok :: "dev_request \<Rightarrow> bool" where
  "submitted_ok r \<longleftrightarrow> title r \<noteq> None \<and> title r \<noteq> Some [] \<and> category r \<noteq> None \<and> category r \<noteq> Some [] \<and>
     description r \<noteq> None \<and> description r \<noteq> Some [] \<and>
     requesterManagerId r \<noteq> None \<and> requesterManagerId r \<noteq> Some (requesterId r)"

definition assigned_ok :: "dev_request \<Rightarrow> bool" where
  "assigned_ok r \<longleftrightarrow> handlerId r \<noteq> None \<and> handlerManagerId r \<noteq> None \<and>
     handlerManagerId r \<noteq> handlerId r"

definition planned_ok :: "dev_request \<Rightarrow> bool" where
  "planned_ok r \<longleftrightarrow> requiredResources r \<noteq> None \<and> estimatedWorkdays r \<noteq> None \<and>
     plannedCompletionDate r \<noteq> None"

definition stage_ok :: "dev_request \<Rightarrow> bool" where
  "stage_ok r \<longleftrightarrow> (let k = stage_no (status r) in
     (1 \<le> k \<longrightarrow> submitted_ok r) \<and>
     (requesterApprovedAt r \<noteq> None \<longleftrightarrow> 2 \<le> k) \<and>
     (assignedAt r \<noteq> None \<longleftrightarrow> 3 \<le> k) \<and>
     (if 3 \<le> k then assigned_ok r else handlerId r = None \<and> handlerManagerId r = None) \<and>
     (planSubmittedAt r \<noteq> None \<longleftrightarrow> 4 \<le> k) \<and>
     (4 \<le> k \<longrightarrow> planned_ok r) \<and>
     (handlerManagerApprovedAt r \<noteq> None \<longleftrightarrow> k = 5))"

definition approvals_ok :: "dev_request \<Rightarrow> dev_event list \<Rightarrow> bool" where
  "approvals_ok r es \<longleftrightarrow> (let k = stage_no (status r) in
     (2 \<le> k \<longrightarrow> in_force REQUESTER_APPROVE (requesterManagerId r) 2 es) \<and>
     (4 \<le> k \<longrightarrow> in_force SUBMIT_PLAN (handlerId r) 4 es) \<and>
     (k = 5 \<longrightarrow> in_force HANDLER_APPROVE (handlerManagerId r) 5 es))"

definition req_ok :: "dev_request \<Rightarrow> dev_event list \<Rightarrow> bool" where
  "req_ok r es \<longleftrightarrow> trail_ok (status r) (rversion r) es \<and> stage_ok r \<and> approvals_ok r es"

definition dev_inv :: "dev_db \<Rightarrow> bool" where
  "dev_inv db \<longleftrightarrow> distinct (map rid (requests db)) \<and>
     (\<forall>e \<in> set (events db). evRequest e \<in> rid ` set (requests db)) \<and>
     (\<forall>r \<in> set (requests db). req_ok r (events_of db (rid r)))"

lemma in_force_snoc:
  "in_force act who k es \<Longrightarrow> k \<le> stage_no (evTo e) \<Longrightarrow> in_force act who k (es @ [e])"
proof -
  assume "in_force act who k es" and k: "k \<le> stage_no (evTo e)"
  then obtain xs x ys where "es = xs @ x # ys" "evAction x = act" "Some (evActor x) = who"
      "stage_no (evTo x) = k" "\<forall>y \<in> set ys. k \<le> stage_no (evTo y)" unfolding in_force_def by blast
  with k have "es @ [e] = xs @ x # (ys @ [e])" "\<forall>y \<in> set (ys @ [e]). k \<le> stage_no (evTo y)" by auto
  with \<open>evAction x = act\<close> \<open>Some (evActor x) = who\<close> \<open>stage_no (evTo x) = k\<close>
  show ?thesis unfolding in_force_def by blast
qed

lemma in_force_last:
  "evAction e = act \<Longrightarrow> Some (evActor e) = who \<Longrightarrow> stage_no (evTo e) = k \<Longrightarrow> in_force act who k (es @ [e])"
  unfolding in_force_def by (intro exI[of _ es] exI[of _ e] exI[of _ "[]"]) simp

lemma trail_snoc:
  "trail_ok st v es \<Longrightarrow> evFrom e = Some st \<Longrightarrow> known (evTo e) \<Longrightarrow> trail_ok (evTo e) (Suc v) (es @ [e])"
  by (auto simp: trail_ok_def successively_append_iff)

lemma req_ok_updatedAt [simp]: "req_ok (r\<lparr>updatedAt := t\<rparr>) es = req_ok r es"
  by (simp add: req_ok_def stage_ok_def approvals_ok_def submitted_ok_def assigned_ok_def planned_ok_def)

section \<open>The common end of the commands\<close>

lemma locked_Inr: "locked db i = Inr r \<Longrightarrow> r \<in> set (requests db) \<and> rid r = i"
  by (auto simp: locked_def split: option.splits dest: find_Some_mem)

definition new_event :: "nat \<Rightarrow> dev_request \<Rightarrow> dev_actor \<Rightarrow> dev_action \<Rightarrow> dev_status option \<Rightarrow>
    string option \<Rightarrow> snapshot \<Rightarrow> dev_event" where
  "new_event now r a act from comment snap =
     \<lparr>evRequest = rid r, evActor = actor_id a, evActorName = actor_name a, evAction = act,
      evFrom = from, evTo = status r, evComment = commentText comment, evSnapshot = snap, evAt = now\<rparr>"

lemma new_event_sel [simp]:
  "evRequest (new_event now r a act from c s) = rid r"
  "evActor (new_event now r a act from c s) = actor_id a"
  "evAction (new_event now r a act from c s) = act"
  "evFrom (new_event now r a act from c s) = from"
  "evTo (new_event now r a act from c s) = status r"
  by (simp_all add: new_event_def)

lemma commit_unfold:
  "commit now r a act from c s db =
     (r\<lparr>updatedAt := now\<rparr>,
      db\<lparr>requests := map (\<lambda>x. if rid x = rid r then r\<lparr>updatedAt := now\<rparr> else x) (requests db),
         events := events db @ [new_event now r a act from c s]\<rparr>)"
  by (simp add: commit_def addEvent_def save_request_def new_event_def)

lemma events_of_snoc:
  "events_of (db\<lparr>requests := rs, events := events db @ [e]\<rparr>) i =
     (if evRequest e = i then events_of db i @ [e] else events_of db i)"
  by (simp add: events_of_def)

lemma events_of_frame [simp]:
  "events_of (db\<lparr>requests := rs\<rparr>) i = events_of db i"
  "events_of (db\<lparr>sequence_no := n\<rparr>) i = events_of db i"
  "events_of (db\<lparr>sequence_no := n, requests := rs\<rparr>) i = events_of db i"
  "events_of (db\<lparr>users := us\<rparr>) i = events_of db i"
  by (simp_all add: events_of_def)

text \<open>The invariant but for the request \<open>i\<close> that is being written.\<close>

definition dev_inv_but :: "string \<Rightarrow> dev_db \<Rightarrow> bool" where
  "dev_inv_but i db \<longleftrightarrow> distinct (map rid (requests db)) \<and>
     (\<forall>e \<in> set (events db). evRequest e \<in> rid ` set (requests db)) \<and>
     (\<forall>r \<in> set (requests db). rid r \<noteq> i \<longrightarrow> req_ok r (events_of db (rid r)))"

lemma dev_inv_but: "dev_inv db \<Longrightarrow> dev_inv_but i db"
  by (simp add: dev_inv_def dev_inv_but_def)

lemma commit_inv:
  assumes inv: "dev_inv_but (rid r) db" and l: "locked db (rid r) = Inr r0"
    and ok: "req_ok r (events_of db (rid r) @ [new_event now r a act from c s])"
  shows "dev_inv (snd (commit now r a act from c s db))"
proof -
  let ?rs = "map (\<lambda>x. if rid x = rid r then r\<lparr>updatedAt := now\<rparr> else x) (requests db)"
  have ids: "map rid ?rs = map rid (requests db)" by simp
  have "r0 \<in> set (requests db)" "rid r0 = rid r" using locked_Inr[OF l] by simp_all
  then have mem: "rid r \<in> rid ` set (requests db)" by (metis image_eqI)
  have ids': "rid ` set ?rs = rid ` set (requests db)" using ids by (metis set_map)
  show ?thesis unfolding dev_inv_def commit_unfold snd_conv
  proof (intro conjI ballI)
    show "distinct (map rid (requests (db\<lparr>requests := ?rs, events := events db @ [new_event now r a act from c s]\<rparr>)))"
    proof -
      have "distinct (map rid ?rs)" unfolding ids using inv by (simp add: dev_inv_but_def)
      then show ?thesis by simp
    qed
  next
    fix e assume "e \<in> set (events (db\<lparr>requests := ?rs, events := events db @ [new_event now r a act from c s]\<rparr>))"
    then have "evRequest e \<in> rid ` set (requests db)" using inv mem by (auto simp: dev_inv_but_def)
    then show "evRequest e \<in> rid ` set (requests (db\<lparr>requests := ?rs, events := events db @ [new_event now r a act from c s]\<rparr>))"
      using ids' by simp
  next
    fix x assume "x \<in> set (requests (db\<lparr>requests := ?rs, events := events db @ [new_event now r a act from c s]\<rparr>))"
    then consider "x = r\<lparr>updatedAt := now\<rparr>" | "x \<in> set (requests db)" "rid x \<noteq> rid r" by auto
    then show "req_ok x (events_of (db\<lparr>requests := ?rs, events := events db @ [new_event now r a act from c s]\<rparr>) (rid x))"
    proof cases
      case 1
      then show ?thesis using ok by (simp add: events_of_snoc)
    next
      case 2
      then show ?thesis using inv by (simp add: events_of_snoc dev_inv_but_def)
    qed
  qed
qed

section \<open>The moves\<close>

text \<open>One command takes a request from \<open>r\<close> to \<open>r'\<close>: the checks of its stage and of the
  approvals in force carry over.\<close>

definition advances :: "dev_request \<Rightarrow> dev_request \<Rightarrow> dev_action \<Rightarrow> dev_actor \<Rightarrow> bool" where
  "advances r r' act a \<longleftrightarrow> rid r' = rid r \<and> rversion r' = Suc (rversion r) \<and> known (status r') \<and>
     (stage_ok r \<longrightarrow> stage_ok r') \<and>
     (\<forall>es e. approvals_ok r es \<longrightarrow> evAction e = act \<longrightarrow> evActor e = actor_id a \<longrightarrow>
        evTo e = status r' \<longrightarrow> approvals_ok r' (es @ [e]))"

lemma commit_advances:
  assumes inv: "dev_inv db" and l: "locked db i = Inr r" and adv: "advances r r' act a"
  shows "dev_inv (snd (commit now r' a act (Some (status r)) c s db))"
proof -
  from locked_Inr[OF l] have r: "r \<in> set (requests db)" "rid r = i" by simp_all
  with inv have ok: "req_ok r (events_of db i)" by (auto simp: dev_inv_def)
  from adv have rid: "rid r' = i" using r by (simp add: advances_def)
  let ?e = "new_event now r' a act (Some (status r)) c s"
  have "trail_ok (status r') (rversion r') (events_of db i @ [?e])"
    using trail_snoc[of "status r" "rversion r" "events_of db i" ?e] ok adv
    by (simp add: req_ok_def advances_def)
  then have "req_ok r' (events_of db (rid r') @ [?e])"
    using ok adv rid by (simp add: req_ok_def advances_def)
  then show ?thesis using commit_inv[OF dev_inv_but[OF inv], of r' r] l rid by simp
qed

named_theorems stage_simps \<open>unfolding of the checks of a stage\<close>

lemmas [stage_simps] = stage_ok_def approvals_ok_def submitted_ok_def assigned_ok_def planned_ok_def
  known_def Let_def

lemma applyPatch_frame [simp]:
  "rid (applyPatch p r) = rid r" "status (applyPatch p r) = status r"
  "requesterId (applyPatch p r) = requesterId r" "rversion (applyPatch p r) = rversion r"
  "requesterApprovedAt (applyPatch p r) = requesterApprovedAt r" "assignedAt (applyPatch p r) = assignedAt r"
  "handlerId (applyPatch p r) = handlerId r" "handlerManagerId (applyPatch p r) = handlerManagerId r"
  "planSubmittedAt (applyPatch p r) = planSubmittedAt r"
  "handlerManagerApprovedAt (applyPatch p r) = handlerManagerApprovedAt r"
  by (simp_all add: applyPatch_def)

lemma draft_advances:
  "status r = DRAFT \<Longrightarrow>
    advances r (applyPatch p r\<lparr>rversion := Suc (rversion r)\<rparr>) SAVE_DRAFT a"
  by (simp add: advances_def stage_simps)

lemma cleanText_Inr: "cleanText h v what m = Inr t \<Longrightarrow> t \<noteq> [] \<and> length t \<le> m \<and> js_trim t = t"
  by (auto simp: cleanText_def text_of_def Let_def split: if_splits)

lemma ensureSubmittable_Inr:
  assumes "ensureSubmittable h db r = Inr r'"
  shows "\<exists>t c d u. r' = r\<lparr>title := Some t, category := Some c, description := Some d, requesterManagerId := Some u\<rparr>
    \<and> t \<noteq> [] \<and> c \<noteq> [] \<and> d \<noteq> [] \<and> u \<noteq> requesterId r"
  using assms by (auto simp: ensureSubmittable_def err_simps split: if_splits dest!: cleanText_Inr)

lemma submit_advances:
  assumes "ensureSubmittable h db (applyPatch p r) = Inr r1" and "status r = DRAFT"
  shows "advances r (r1\<lparr>status := PENDING_REQUESTER_APPROVAL, rversion := Suc (rversion r1)\<rparr>) act a"
    and "status r1 = DRAFT"
proof -
  from ensureSubmittable_Inr[OF assms(1)] obtain t c d u where r1:
    "r1 = applyPatch p r\<lparr>title := Some t, category := Some c, description := Some d, requesterManagerId := Some u\<rparr>"
    "t \<noteq> []" "c \<noteq> []" "d \<noteq> []" "u \<noteq> requesterId r" by auto
  then show "advances r (r1\<lparr>status := PENDING_REQUESTER_APPROVAL, rversion := Suc (rversion r1)\<rparr>) act a"
    using assms(2) by (simp add: advances_def stage_simps)
  show "status r1 = DRAFT" using r1(1) assms(2) by simp
qed

lemma requester_approve_advances:
  assumes "status r = PENDING_REQUESTER_APPROVAL" and "requesterManagerId r = Some (actor_id a)"
  shows "advances r (r\<lparr>status := PENDING_ADMIN_ASSIGNMENT, requesterApprovedAt := Some now,
    rversion := Suc (rversion r)\<rparr>) REQUESTER_APPROVE a"
  using assms by (auto simp: advances_def stage_simps intro: in_force_last)

lemma assign_advances:
  assumes "status r = PENDING_ADMIN_ASSIGNMENT" and "u \<noteq> m"
  shows "advances r (r\<lparr>handlerId := Some u, handlerManagerId := Some m, status := PENDING_HANDLER_PLAN,
    assignedAt := Some now, rversion := Suc (rversion r)\<rparr>) ASSIGN a"
  using assms by (auto simp: advances_def stage_simps intro: in_force_snoc)

lemma plan_advances:
  assumes "status r = PENDING_HANDLER_PLAN" and "handlerId r = Some (actor_id a)"
  shows "advances r (r\<lparr>requiredResources := Some x, estimatedWorkdays := Some y, plannedCompletionDate := Some z,
    status := PENDING_HANDLER_MANAGER_APPROVAL, planSubmittedAt := Some now, rversion := Suc (rversion r)\<rparr>) SUBMIT_PLAN a"
  using assms by (auto simp: advances_def stage_simps intro: in_force_snoc in_force_last)

lemma handler_approve_advances:
  assumes "status r = PENDING_HANDLER_MANAGER_APPROVAL" and "handlerManagerId r = Some (actor_id a)"
  shows "advances r (r\<lparr>status := APPROVED_FOR_DEVELOPMENT, handlerManagerApprovedAt := Some now,
    rversion := Suc (rversion r)\<rparr>) HANDLER_APPROVE a"
  using assms by (auto simp: advances_def stage_simps intro: in_force_snoc in_force_last)

lemma resetForStage_known: "known k \<Longrightarrow> isOk (resetForStage r k)"
  using find_base_known[of k] by (auto simp: resetForStage_def Let_def)

lemma reset_advances:
  assumes "resetForStage r k = Inr r1" and "stage_no k < stage_no (status r)" and "stage_no (status r) \<le> 5"
  shows "advances r (r1\<lparr>rversion := Suc (rversion r1)\<rparr>) act a"
proof -
  from assms(1) obtain s where s: "find_stage developmentRequestStages k = Some s"
    by (auto simp: resetForStage_def split: option.splits)
  from find_base_stage[OF s] have k: "stageKey s = k" "stageOrder s = int (stage_no k)" "known k" by simp_all
  from assms(1) s k have r1: "r1 = (let r1 = r\<lparr>status := k, handlerManagerApprovedAt := None\<rparr>;
            r2 = (if stage_no k \<le> 3 then r1\<lparr>planSubmittedAt := None\<rparr> else r1);
            r3 = (if stage_no k \<le> 2 then r2\<lparr>handlerId := None, handlerManagerId := None, assignedAt := None,
                    requiredResources := None, estimatedWorkdays := None, plannedCompletionDate := None\<rparr>
                  else r2)
        in if stage_no k \<le> 1 then r3\<lparr>requesterApprovedAt := None\<rparr> else r3)"
    by (simp add: resetForStage_def Let_def)
  show ?thesis
    using assms(2,3) k(3) unfolding r1
    by (cases k) (auto simp: advances_def stage_simps intro: in_force_snoc)
qed

section \<open>Every command keeps the invariant\<close>

lemma inv_known: "dev_inv db \<Longrightarrow> locked db i = Inr r \<Longrightarrow> known (status r)"
  using locked_Inr[of db i r] by (auto simp: dev_inv_def req_ok_def trail_ok_def)

lemma inv_req_ok: "dev_inv db \<Longrightarrow> locked db i = Inr r \<Longrightarrow> req_ok r (events_of db i)"
  using locked_Inr[of db i r] by (auto simp: dev_inv_def)

definition moved :: "dev_db \<Rightarrow> string \<Rightarrow> dev_actor \<Rightarrow> dev_action \<Rightarrow> dev_request \<times> dev_db \<Rightarrow> bool" where
  "moved db i a act x \<longleftrightarrow> (\<exists>r r1 now c s. locked db i = Inr r \<and> status r \<noteq> APPROVED_FOR_DEVELOPMENT \<and>
     advances r r1 act a \<and> x = commit now r1 a act (Some (status r)) c s db)"

lemma movedI:
  "locked db i = Inr r \<Longrightarrow> advances r r1 act a \<Longrightarrow> status r \<noteq> APPROVED_FOR_DEVELOPMENT \<Longrightarrow>
    x = commit now r1 a act (Some (status r)) c s db \<Longrightarrow> moved db i a act x"
  unfolding moved_def by blast

lemma moved_inv: "dev_inv db \<Longrightarrow> moved db i a act x \<Longrightarrow> dev_inv (snd x)"
  unfolding moved_def using commit_advances by blast

lemma updateDraft_moved:
  assumes "updateDraft h cfg now i input submit a db = Inr x"
  shows "moved db i a (if submit then SUBMIT else SAVE_DRAFT) x"
proof (cases submit)
  case True
  with assms obtain p r r1 where l: "locked db i = Inr r" "status r = DRAFT"
    and e: "ensureSubmittable h db (applyPatch p r) = Inr r1"
    and x: "x = commit now (r1\<lparr>status := PENDING_REQUESTER_APPROVAL, rversion := Suc (rversion r1)\<rparr>) a SUBMIT
      (Some (status r1)) (Some ''submitted'') (PatchSnapshot p) db"
    by (clarsimp simp: updateDraft_def err_simps Let_def split: if_splits)
  from movedI[OF l(1) submit_advances(1)[OF e l(2), of SUBMIT a]] submit_advances(2)[OF e l(2)] l x True
  show ?thesis by simp
next
  case False
  with assms obtain p r where l: "locked db i = Inr r" "status r = DRAFT"
    and x: "x = commit now (applyPatch p r\<lparr>rversion := Suc (rversion r)\<rparr>) a SAVE_DRAFT
      (Some (status r)) (Some ''draft saved'') (PatchSnapshot p) db"
    by (clarsimp simp: updateDraft_def err_simps Let_def split: if_splits)
  from movedI[OF l(1) draft_advances[OF l(2)] _ x] l(2) False show ?thesis by simp
qed

lemma resubmit_never:
  "dev_inv db \<Longrightarrow> \<not> isOk (resubmit h now i input a db)"
  using inv_known[of db i] by (cases "locked db i") (auto simp: resubmit_def known_def)

lemma move_back_moved:
  assumes "move_back now r k a act c snap db = Inr x" and "locked db i = Inr r"
    and "stage_no k < stage_no (status r)" and "known (status r)"
    and live: "status r \<noteq> APPROVED_FOR_DEVELOPMENT"
  shows "moved db i a act x"
proof -
  from assms(1) obtain r1 where "resetForStage r k = Inr r1"
    and x: "x = commit now (r1\<lparr>rversion := Suc (rversion r1)\<rparr>) a act (Some (status r)) (Some c)
      (snap (r1\<lparr>rversion := Suc (rversion r1)\<rparr>)) db"
    by (auto simp: move_back_def err_simps Let_def)
  from movedI[OF assms(2) reset_advances[OF this(1) assms(3) assms(4)[unfolded known_def]] live x] show ?thesis .
qed

lemma last_mem: "Suc 0 < length xs \<Longrightarrow> last xs \<in> set xs"
  by (cases xs) auto

lemma dev_capabilities:
  assumes "developmentApprovalCapabilities r a l p = Inr c"
  shows "s \<in> set (returnTargets c) \<Longrightarrow> isCurrentNodeActor r a p \<and> stage_no (stageKey s) < stage_no (status r)"
    and "canWithdraw c \<Longrightarrow> withdrawTarget c = Some w \<Longrightarrow> stage_no (stageKey w) < stage_no (status r) \<and>
      allowWithdraw p \<and> (\<exists>e. l = Some e \<and> evAction e \<in> set forwardActions \<and> evActor e = actor_id a \<and>
        evTo e = status r \<and> evFrom e = Some (stageKey w))"
    and "status r \<noteq> APPROVED_FOR_DEVELOPMENT \<or> returnTargets c = [] \<and> \<not> canWithdraw c"
proof -
  let ?st = "configuredDevelopmentStages (nodeLabels p)"
  from assms obtain c0 where c0: "approvalCapabilities ?st (status r) (actor_id a)
      (isCurrentNodeActor r a p) (event_transition l) = Inr c0"
    and ret: "set (returnTargets c) \<subseteq> set (returnTargets c0)"
    and wd: "canWithdraw c \<longrightarrow> canWithdraw c0 \<and> allowWithdraw p" "withdrawTarget c = withdrawTarget c0"
    by (auto simp: developmentApprovalCapabilities_def err_simps Let_def last_mem split: if_splits)
  from c0 have "isOk (approvalCapabilities ?st (status r) (actor_id a)
      (isCurrentNodeActor r a p) (event_transition l))" by simp
  then obtain cur where cur: "find_stage ?st (status r) = Some cur"
    unfolding dev.capabilities_ok_iff using find_stage_None[of ?st "status r"] by auto
  have cur': "stageKey cur = status r" "stageOrder cur = int (stage_no (status r))"
    "stageTerminal cur \<longleftrightarrow> status r = APPROVED_FOR_DEVELOPMENT"
    using find_stage_Some[OF cur] configured_member[of cur] by auto
  show "s \<in> set (returnTargets c) \<Longrightarrow> isCurrentNodeActor r a p \<and> stage_no (stageKey s) < stage_no (status r)"
  proof -
    assume "s \<in> set (returnTargets c)"
    with ret have s: "s \<in> set (returnTargets c0)" by blast
    from dev.returns_are_valid[OF c0 s] have b: "isCurrentNodeActor r a p"
      and e: "assertEarlierApprovalStage ?st (status r) (stageKey s) = Inr s" by simp_all
    from e cur have lt: "stageOrder s < stageOrder cur" and f: "find_stage ?st (stageKey s) = Some s"
      by (auto simp: assertEarlierApprovalStage_def split: option.splits if_splits)
    have "stageOrder s = int (stage_no (stageKey s))"
      using find_stage_Some[OF f] configured_member by blast
    with lt cur' b show "isCurrentNodeActor r a p \<and> stage_no (stageKey s) < stage_no (status r)" by simp
  qed
  show "canWithdraw c \<Longrightarrow> withdrawTarget c = Some w \<Longrightarrow> stage_no (stageKey w) < stage_no (status r) \<and>
      allowWithdraw p \<and> (\<exists>e. l = Some e \<and> evAction e \<in> set forwardActions \<and> evActor e = actor_id a \<and>
        evTo e = status r \<and> evFrom e = Some (stageKey w))"
  proof -
    assume "canWithdraw c" "withdrawTarget c = Some w"
    with wd have "canWithdraw c0 \<and> withdrawTarget c0 = Some w" "allowWithdraw p" by simp_all
    with dev.withdraw_iff[OF cur c0, of w] obtain t f where t: "stageOrder w < stageOrder cur"
      "event_transition l = Some t" "withdrawable t" "transActor t = actor_id a" "toStage t = status r"
      "fromStage t = Some f" "find_stage ?st f = Some w" by auto
    moreover have "stageKey w = f" "stageOrder w = int (stage_no f)"
      using find_stage_Some[OF t(7)] configured_member[of w] by auto
    ultimately show ?thesis using \<open>allowWithdraw p\<close> cur' by (auto simp: event_transition_def)
  qed
  show "status r \<noteq> APPROVED_FOR_DEVELOPMENT \<or> returnTargets c = [] \<and> \<not> canWithdraw c"
  proof (cases "status r = APPROVED_FOR_DEVELOPMENT")
    case True
    then have "stageTerminal cur" using cur' by simp
    with c0 cur have "returnTargets c0 = [] \<and> \<not> canWithdraw c0"
      by (auto simp: approvalCapabilities_def dev.ordered_id Let_def)
    with ret wd show ?thesis by simp
  qed simp
qed

lemma dev_capabilities_known:
  assumes "developmentApprovalCapabilities r a l p = Inr c"
  shows "s \<in> set (returnTargets c) \<Longrightarrow> known (stageKey s)"
    and "canWithdraw c \<Longrightarrow> \<exists>w. withdrawTarget c = Some w \<and> known (stageKey w)"
proof -
  let ?st = "configuredDevelopmentStages (nodeLabels p)"
  from assms obtain c0 where c0: "approvalCapabilities ?st (status r) (actor_id a)
      (isCurrentNodeActor r a p) (event_transition l) = Inr c0"
    and ret: "set (returnTargets c) \<subseteq> set (returnTargets c0)"
    and wd: "canWithdraw c \<longrightarrow> canWithdraw c0" "withdrawTarget c = withdrawTarget c0"
    by (auto simp: developmentApprovalCapabilities_def err_simps Let_def last_mem split: if_splits)
  have sub: "set (returnTargets c0) \<subseteq> set ?st"
    using c0 by (auto simp: approvalCapabilities_def dev.ordered_id Let_def split: option.splits if_splits)
  show "s \<in> set (returnTargets c) \<Longrightarrow> known (stageKey s)"
    using ret sub configured_member by blast
  assume "canWithdraw c"
  with wd dev.withdraw_has_target[OF c0] obtain w where w: "withdrawTarget c0 = Some w" by auto
  with c0 have "w \<in> set ?st"
    by (auto simp: approvalCapabilities_def dev.ordered_id Let_def split: option.splits if_splits
        dest!: find_stage_Some)
  with w wd configured_member show "\<exists>w. withdrawTarget c = Some w \<and> known (stageKey w)" by auto
qed

lemma lift_stage_Inr [simp]: "lift_stage m = Inr x \<longleftrightarrow> m = Inr x"
  by (cases m) (simp_all add: lift_stage_def)

lemma withdraw_moved:
  assumes inv: "dev_inv db" and run: "withdraw cfg now i c a db = Inr x"
  shows "moved db i a WITHDRAW x"
proof -
  from run obtain r cap t cm snap where l: "locked db i = Inr r"
    and cap: "developmentApprovalCapabilities r a (latestEvent db i) (flowPolicy cfg) = Inr cap"
    and t: "canWithdraw cap" "withdrawTarget cap = Some t"
    and x: "move_back now r (stageKey t) a WITHDRAW cm snap db = Inr x"
    by (auto simp: withdraw_def err_simps split: bool.splits option.splits)
  with dev_capabilities(2)[OF cap t] dev_capabilities(3)[OF cap] inv_known[OF inv l] x l
  show ?thesis using move_back_moved by blast
qed

lemma returnTo_moved:
  assumes inv: "dev_inv db" and run: "returnTo h cfg now i target c a db = Inr x"
  shows "moved db i a RETURN x"
proof -
  from run obtain r cap t cm snap where l: "locked db i = Inr r"
    and cap: "developmentApprovalCapabilities r a (latestEvent db i) (flowPolicy cfg) = Inr cap"
    and t: "find (\<lambda>s. Some (stageKey s) = target) (returnTargets cap) = Some t"
    and x: "move_back now r (stageKey t) a RETURN cm snap db = Inr x"
    by (auto simp: returnTo_def err_simps split: option.splits)
  from find_Some_mem[OF t] have "t \<in> set (returnTargets cap)" by simp
  with dev_capabilities(1)[OF cap this] dev_capabilities(3)[OF cap] inv_known[OF inv l] x l
  show ?thesis using move_back_moved by fastforce
qed

lemma rejectTarget_earlier:
  assumes "rejectTarget cfg r = Some t" and "stage_no (status r) \<in> {1..5}"
  shows "stage_no (stageKey t) < stage_no (status r)"
proof (cases "rejectTargetMode cfg")
  case RejectToDraft
  with assms have "stageKey t = DRAFT" by (auto simp: rejectTarget_def Let_def dest: find_stage_Some)
  with assms show ?thesis by simp
next
  case RejectToPrevious
  with assms obtain cur where cur: "find_stage (configuredDevelopmentStages (nodeLabels (flowPolicy cfg))) (status r) = Some cur"
    and t: "t \<in> set (filter (\<lambda>s. stageOrder s < stageOrder cur) (configuredDevelopmentStages (nodeLabels (flowPolicy cfg))))"
    by (auto simp: rejectTarget_def Let_def js_last_def split: option.splits if_splits dest!: last_in_set)
  have "stageOrder cur = int (stage_no (status r))"
    using find_stage_Some[OF cur] configured_member by metis
  moreover have "stageOrder t = int (stage_no (stageKey t))" using t configured_member by auto
  ultimately show ?thesis using t by simp
qed

lemma reject_moved:
  assumes inv: "dev_inv db" and run: "reject h cfg now i c a db = Inr x"
  shows "moved db i a REJECT x"
proof -
  from run obtain r t cm snap where l: "locked db i = Inr r"
    and st: "status r = PENDING_REQUESTER_APPROVAL \<or> status r = PENDING_HANDLER_MANAGER_APPROVAL"
    and t: "rejectTarget cfg r = Some t" and x: "move_back now r (stageKey t) a REJECT cm snap db = Inr x"
    by (auto simp: reject_def err_simps split: option.splits if_splits)
  from st have "known (status r)" "status r \<noteq> APPROVED_FOR_DEVELOPMENT" "stage_no (status r) \<in> {1..5}"
    by (auto simp: known_def)
  with rejectTarget_earlier[OF t] x l show ?thesis using move_back_moved by blast
qed

lemma requesterDecision_moved:
  assumes inv: "dev_inv db" and run: "requesterDecision h cfg now i b c a db = Inr x"
  shows "\<exists>act. moved db i a act x"
proof (cases b)
  case True
  with run show ?thesis
    by (auto simp: requesterDecision_def err_simps split: if_splits
        intro!: exI movedI requester_approve_advances)
next
  case False
  with run have "returnTo h cfg now i (Some DRAFT) c a db = Inr x" by (simp add: requesterDecision_def)
  from returnTo_moved[OF inv this] show ?thesis by blast
qed

lemma assign_moved:
  assumes "assign cfg now i u m c a db = Inr x"
  shows "moved db i a ASSIGN x"
  using assms by (auto simp: assign_def err_simps split: if_splits intro!: movedI assign_advances)

lemma submitPlan_moved:
  assumes "submitPlan h now i res w d a db = Inr x"
  shows "moved db i a SUBMIT_PLAN x"
proof -
  from assms obtain r where l: "locked db i = Inr r" by (auto simp: submitPlan_def err_simps)
  from assms l obtain n where n: "js_number_opt w = Some n" and st: "status r = PENDING_HANDLER_PLAN" "handlerId r = Some (actor_id a)"
    by (cases "js_number_opt w") (auto simp: submitPlan_def err_simps split: if_splits)
  with assms l obtain t q where "x = commit now (r\<lparr>requiredResources := Some t,
      estimatedWorkdays := Some (num_str h n), plannedCompletionDate := Some q,
      status := PENDING_HANDLER_MANAGER_APPROVAL, planSubmittedAt := Some now,
      rversion := Suc (rversion r)\<rparr>) a SUBMIT_PLAN (Some (status r)) (Some ''plan submitted'')
      (PlanSnapshot t n q) db"
    by (auto simp: submitPlan_def err_simps split: if_splits option.splits)
  from movedI[OF l plan_advances[OF st] _ this] st show ?thesis by simp
qed

lemma handlerManagerDecision_moved:
  assumes inv: "dev_inv db" and run: "handlerManagerDecision h cfg now i b c a db = Inr x"
  shows "\<exists>act. moved db i a act x"
proof (cases b)
  case True
  with run show ?thesis
    by (auto simp: handlerManagerDecision_def err_simps split: if_splits
        intro!: exI movedI handler_approve_advances)
next
  case False
  with run have "returnTo h cfg now i (Some PENDING_HANDLER_PLAN) c a db = Inr x" by (simp add: handlerManagerDecision_def)
  from returnTo_moved[OF inv this] show ?thesis by blast
qed

lemma locked_append_new:
  "i \<notin> rid ` set (requests db) \<Longrightarrow> rid r = i \<Longrightarrow>
    locked (db\<lparr>requests := requests db @ [r]\<rparr>) i = Inr r"
proof -
  assume n: "i \<notin> rid ` set (requests db)" and r: "rid r = i"
  then have "find (\<lambda>x. rid x = i) (requests db @ [r]) = Some r"
  proof -
    have "find (\<lambda>x. rid x = i) (xs @ [r]) = Some r" if "i \<notin> rid ` set xs" for xs
      using that r by (induction xs) auto
    with n show ?thesis by blast
  qed
  then show ?thesis by (simp add: locked_def)
qed

lemma create_request_ok:
  assumes "submit_new h submit db1 (applyPatch p (blank_request i num u)) = Inr r"
  shows "rid r = i \<and> req_ok r [new_event now r a act (if submit then Some DRAFT else None) c s]"
proof (cases submit)
  case True
  with assms obtain r1 where r1: "ensureSubmittable h db1 (applyPatch p (blank_request i num u)) = Inr r1"
    and r: "r = r1\<lparr>status := PENDING_REQUESTER_APPROVAL\<rparr>" by (auto simp: submit_new_def err_simps)
  from ensureSubmittable_Inr[OF r1] r True show ?thesis
    by (auto simp: blank_request_def req_ok_def trail_ok_def stage_simps)
next
  case False
  with assms have "r = applyPatch p (blank_request i num u)" by (simp add: submit_new_def)
  with False show ?thesis by (simp add: blank_request_def req_ok_def trail_ok_def stage_simps)
qed

lemma create_Inr:
  assumes "create h cfg now month i input submit a db = Inr (r', db')"
  shows "\<exists>p r act c.
    submit_new h submit (db\<lparr>sequence_no := Suc (sequence_no db)\<rparr>)
      (applyPatch p (blank_request i (request_number month (sequence_no db)) (actor_id a))) = Inr r \<and>
    commit now r a act (if submit then Some DRAFT else None) c (PatchSnapshot p)
      (db\<lparr>sequence_no := Suc (sequence_no db), requests := requests db @ [r]\<rparr>) = (r', db')"
  using assms unfolding create_def Let_def
  by (auto simp: err_simps simp del: if_split split: if_splits)

lemma create_inv:
  assumes inv: "dev_inv db" and new: "i \<notin> rid ` set (requests db)"
    and run: "create h cfg now month i input submit a db = Inr (r', db')"
  shows "dev_inv db'"
proof -
  let ?db1 = "db\<lparr>sequence_no := Suc (sequence_no db)\<rparr>"
  from create_Inr[OF run] obtain p r act c where
    r: "submit_new h submit ?db1 (applyPatch p (blank_request i (request_number month (sequence_no db)) (actor_id a))) = Inr r"
    and x: "commit now r a act (if submit then Some DRAFT else None) c (PatchSnapshot p)
      (db\<lparr>sequence_no := Suc (sequence_no db), requests := requests db @ [r]\<rparr>) = (r', db')" by blast
  let ?db2 = "db\<lparr>sequence_no := Suc (sequence_no db), requests := requests db @ [r]\<rparr>"
  have rid: "rid r = i" using create_request_ok[OF r] by simp
  have none: "events_of db i = []"
    using inv new by (auto simp: dev_inv_def events_of_def filter_empty_conv)
  have "dev_inv_but (rid r) ?db2"
    using inv new rid by (auto simp: dev_inv_but_def dev_inv_def)
  moreover have "locked ?db2 (rid r) = Inr r" using locked_append_new[of i ?db1 r] new rid by simp
  ultimately have "dev_inv (snd (r', db'))" unfolding x[symmetric]
    using create_request_ok[OF r] rid none by (intro commit_inv) simp_all
  then show ?thesis by simp
qed

lemma dev_exec_inv:
  assumes "dev_inv db" and "dev_exec h cfg now op a db = Inr (r, db')" and "fresh_op op db"
  shows "dev_inv db'"
proof -
  have m: "\<exists>i act. moved db i a act (r, db') \<Longrightarrow> dev_inv db'" using moved_inv[OF assms(1)] by fastforce
  show ?thesis
  proof (cases op)
    case (Create month i input s)
    with assms create_inv show ?thesis by simp
  next
    case (Resubmit i input)
    with assms resubmit_never[OF assms(1)] show ?thesis by (metis dev_exec.simps(4) isOk_simps(1))
  next
    case (RequesterDecision i b c)
    with assms requesterDecision_moved[OF assms(1)] m show ?thesis by (metis dev_exec.simps(8))
  next
    case (HandlerManagerDecision i b c)
    with assms handlerManagerDecision_moved[OF assms(1)] m show ?thesis by (metis dev_exec.simps(11))
  qed (use assms in \<open>auto intro!: m simp: submitDraft_def dest: updateDraft_moved withdraw_moved[OF assms(1)]
     returnTo_moved[OF assms(1)] reject_moved[OF assms(1)]
     assign_moved submitPlan_moved\<close>)
qed

lemma dev_inv_users: "dev_inv (db\<lparr>users := us\<rparr>) = dev_inv db"
  by (simp add: dev_inv_def events_of_def)

lemma dev_reach_inv: "dev_reach h db \<Longrightarrow> dev_inv db"
proof (induction rule: dev_reach.induct)
  case (init us n)
  show ?case by (simp add: dev_inv_def)
next
  case (step db db')
  from step.hyps(2) step.IH show ?case
    by cases (auto simp: dev_inv_users dest: dev_exec_inv)
qed

section \<open>What is offered is possible\<close>

lemma move_back_ok: "known k \<Longrightarrow> isOk (move_back now r k a act m snap db)"
  using resetForStage_known[of k r] by (cases "resetForStage r k") (auto simp: move_back_def Let_def)

lemma withdraw_possible:
  assumes l: "locked db i = Inr r"
    and cap: "developmentApprovalCapabilities r a (latestEvent db i) (flowPolicy cfg) = Inr cap"
  shows "isOk (withdraw cfg now i c a db) \<longleftrightarrow> canWithdraw cap"
proof (cases "canWithdraw cap")
  case True
  from dev_capabilities_known(2)[OF cap True] obtain w where "withdrawTarget cap = Some w" "known (stageKey w)" by blast
  with True show ?thesis by (simp add: withdraw_def l cap lift_stage_def move_back_ok)
next
  case False
  then show ?thesis by (simp add: withdraw_def l cap lift_stage_def)
qed

lemma return_possible:
  assumes l: "locked db i = Inr r"
    and cap: "developmentApprovalCapabilities r a (latestEvent db i) (flowPolicy cfg) = Inr cap"
    and c: "cleanText h (Some (JStr c)) ''reason'' 2000 = Inr reason"
  shows "(\<exists>t. isOk (returnTo h cfg now i (Some t) (Some c) a db)) \<longleftrightarrow> returnTargets cap \<noteq> []"
proof
  assume "returnTargets cap \<noteq> []"
  then obtain s ss where s: "returnTargets cap = s # ss" by (cases "returnTargets cap") auto
  with dev_capabilities_known(1)[OF cap, of s] have "known (stageKey s)" by simp
  with s have "isOk (returnTo h cfg now i (Some (stageKey s)) (Some c) a db)"
    by (simp add: returnTo_def l cap c lift_stage_def move_back_ok)
  then show "\<exists>t. isOk (returnTo h cfg now i (Some t) (Some c) a db)" ..
next
  assume "\<exists>t. isOk (returnTo h cfg now i (Some t) (Some c) a db)"
  then show "returnTargets cap \<noteq> []" by (auto simp: returnTo_def l cap c lift_stage_def)
qed

lemma rejectTarget_exists:
  assumes "stage_no (status r) \<in> {1..5}"
  shows "\<exists>t. rejectTarget cfg r = Some t \<and> known (stageKey t)"
proof -
  let ?st = "configuredDevelopmentStages (nodeLabels (flowPolicy cfg))"
  have find: "\<exists>s. find_stage ?st k = Some s \<and> known (stageKey s)" if "known k" for k
    using that known_keys[of k] find_stage_None[of ?st k] configured_member find_stage_Some
    by (metis option.exhaust)
  from find[of DRAFT] obtain d where d: "find_stage ?st DRAFT = Some d" "known (stageKey d)"
    by (auto simp: known_def)
  from find[of "status r"] assms obtain cur where cur: "find_stage ?st (status r) = Some cur"
    by (auto simp: known_def)
  let ?before = "filter (\<lambda>s. stageOrder s < stageOrder cur) ?st"
  have "stageOrder d < stageOrder cur"
    using configured_member[of d] configured_member[of cur] find_stage_Some[OF d(1)] find_stage_Some[OF cur] assms
    by auto
  then have ne: "?before \<noteq> []" using find_stage_Some[OF d(1)] by (auto simp: filter_empty_conv)
  have "last ?before \<in> set ?st" using last_in_set[OF ne] by simp
  then have "known (stageKey (last ?before))" using configured_member by blast
  with ne d cur show ?thesis
    by (cases "rejectTargetMode cfg") (auto simp: rejectTarget_def Let_def js_last_def)
qed

lemma reject_possible:
  assumes l: "locked db i = Inr r" and c: "cleanText h (Some (JStr c)) ''reason'' 2000 = Inr reason"
  shows "isOk (reject h cfg now i (Some c) a db) \<longleftrightarrow>
    status r = PENDING_REQUESTER_APPROVAL \<and> requesterManagerId r = Some (actor_id a) \<or>
    status r = PENDING_HANDLER_MANAGER_APPROVAL \<and> handlerManagerId r = Some (actor_id a)"
    (is "_ \<longleftrightarrow> ?at")
proof (cases ?at)
  case True
  then have "stage_no (status r) \<in> {1..5}" by auto
  from rejectTarget_exists[OF this] obtain t where "rejectTarget cfg r = Some t" "known (stageKey t)" by blast
  with True show ?thesis by (auto simp: reject_def l c move_back_ok)
next
  case False
  then show ?thesis by (auto simp: reject_def l c)
qed

section \<open>A sample run\<close>

fun dev_run :: "host \<Rightarrow> flow_config \<Rightarrow> (dev_op \<times> dev_actor) list \<Rightarrow> dev_db \<Rightarrow> dev_db" where
  "dev_run h cfg [] db = db"
| "dev_run h cfg ((op, a) # ops) db = dev_run h cfg ops
     (case dev_exec h cfg 0 op a db of Inl _ \<Rightarrow> db
      | Inr (r, db') \<Rightarrow> if fresh_op op db then db' else db)"

lemma dev_run_reach: "dev_reach h db \<Longrightarrow> dev_reach h (dev_run h cfg ops db)"
proof (induction ops arbitrary: db)
  case Nil
  then show ?case by simp
next
  case (Cons p ops)
  obtain op a where p: "p = (op, a)" by (cases p)
  have "dev_reach h (case dev_exec h cfg 0 op a db of Inl _ \<Rightarrow> db
      | Inr (r, db') \<Rightarrow> if fresh_op op db then db' else db)"
    using Cons.prems by (auto split: sum.split intro: dev_reach.step dev_step.command)
  with Cons.IH show ?case by (simp add: p)
qed

definition dev_host :: host where
  "dev_host = \<lparr>num_str = (\<lambda>_. ''5''), sha256 = id, url_protocol = (\<lambda>_. None)\<rparr>"

definition dev_config :: flow_config where
  "dev_config = \<lparr>flowEnabled = True, allowDraft = True,
     flowPolicy = \<lparr>allowWithdraw = True, returnMode = ANY_PREVIOUS, adminRoleNames = [''admin''], nodeLabels = []\<rparr>,
     rejectTargetMode = RejectToDraft, approvalCommentRequired = False\<rparr>"

definition dev_user_row :: "string \<Rightarrow> dev_user" where
  "dev_user_row i = \<lparr>userId = i, username = i, displayName = i, employeeNo = None, wechatUserId = None, enabled = True\<rparr>"

definition dev_actor_of :: "string \<Rightarrow> string list \<Rightarrow> dev_actor" where
  "dev_actor_of i rs = \<lparr>actor_id = i, actor_name = i, roles = rs, isSystemAdmin = False, moduleAdminCodes = []\<rparr>"

definition dev_start :: dev_db where
  "dev_start = \<lparr>requests = [], events = [], users = map dev_user_row [''u'', ''m'', ''h'', ''l''], sequence_no = 1\<rparr>"

definition dev_ops :: "(dev_op \<times> dev_actor) list" where
  "dev_ops =
    [(Create ''202601'' ''r1'' [(''title'', JStr ''t''), (''category'', JStr ''c''), (''description'', JStr ''d''),
        (''requesterManagerId'', JStr ''m'')] True, dev_actor_of ''u'' []),
     (RequesterDecision ''r1'' True None, dev_actor_of ''m'' []),
     (Assign ''r1'' (Some ''h'') (Some ''l'') None, dev_actor_of ''a'' [''admin'']),
     (SubmitPlan ''r1'' (Some (JStr ''x'')) (Some (JNum 5)) (Some (JStr ''2026-02-01'')), dev_actor_of ''h'' []),
     (HandlerManagerDecision ''r1'' True None, dev_actor_of ''l'' [])]"

definition dev_final :: dev_db where
  "dev_final = dev_run dev_host dev_config dev_ops dev_start"

lemma dev_final_reach: "dev_reach dev_host dev_final"
  unfolding dev_final_def dev_start_def by (rule dev_run_reach) (rule dev_reach.init)

lemma dev_final_rows: "map (\<lambda>r. (rid r, status r, handlerManagerId r)) (requests dev_final) =
    [(''r1'', APPROVED_FOR_DEVELOPMENT, Some ''l'')]"
  by code_simp

section \<open>Properties\<close>

text \<open>C17: in every state the commands can reach, a request's fields agree with its stage (a
  submitted request has its texts and an approver other than the requester; approval,
  assignment, plan and final approval time stamps are set exactly from their stage on; handler
  and handler's manager are set and distinct from the assignment on and cleared before it), and
  its events form an unbroken trail: as many events as the version, each starting where the
  previous one ended, the last one at the current status.\<close>

theorem dev_request_lifecycle:
  assumes "dev_reach h db" and "r \<in> set (requests db)"
  shows "stage_ok r \<and> trail_ok (status r) (rversion r) (events_of db (rid r))"
  using dev_reach_inv[OF assms(1)] assms(2) by (auto simp: dev_inv_def req_ok_def)

theorem dev_request_lifecycle_witness:
  "\<exists>r \<in> set (requests dev_final). stage_ok r \<and> trail_ok (status r) (rversion r) (events_of dev_final (rid r))"
proof -
  from dev_final_rows obtain r where "r \<in> set (requests dev_final)"
    by (cases "requests dev_final") auto
  with dev_request_lifecycle[OF dev_final_reach] show ?thesis by blast
qed

text \<open>C18: separation of duties: a request approved for development carries, in its trail and
  not taken back since, an approval by its requester's chosen manager, who is not the
  requester, a plan by its handler, and a final approval by the handler's manager, who is not
  the handler.\<close>

theorem dev_approval_separation:
  assumes "dev_reach h db" and "r \<in> set (requests db)" and "status r = APPROVED_FOR_DEVELOPMENT"
  shows "requesterManagerId r \<noteq> None \<and> requesterManagerId r \<noteq> Some (requesterId r) \<and>
    handlerId r \<noteq> None \<and> handlerManagerId r \<noteq> None \<and> handlerManagerId r \<noteq> handlerId r \<and>
    in_force REQUESTER_APPROVE (requesterManagerId r) 2 (events_of db (rid r)) \<and>
    in_force SUBMIT_PLAN (handlerId r) 4 (events_of db (rid r)) \<and>
    in_force HANDLER_APPROVE (handlerManagerId r) 5 (events_of db (rid r))"
proof -
  have "req_ok r (events_of db (rid r))"
    using dev_reach_inv[OF assms(1)] assms(2) by (auto simp: dev_inv_def)
  with assms(3) show ?thesis by (auto simp: req_ok_def stage_simps)
qed

theorem dev_approval_separation_witness:
  "\<exists>r \<in> set (requests dev_final). in_force HANDLER_APPROVE (handlerManagerId r) 5 (events_of dev_final (rid r))"
proof -
  from dev_final_rows obtain r where "r \<in> set (requests dev_final)" "status r = APPROVED_FOR_DEVELOPMENT"
    by (cases "requests dev_final") auto
  with dev_approval_separation[OF dev_final_reach] show ?thesis by blast
qed

text \<open>approval is final: no command of any user changes a request that is approved for
  development, nor any request other than the one it names.\<close>

theorem dev_approved_is_final:
  assumes "dev_reach h db" and "r \<in> set (requests db)" and "status r = APPROVED_FOR_DEVELOPMENT"
    and "dev_exec h cfg now op a db = Inr (r', db')" and "fresh_op op db"
  shows "r \<in> set (requests db')"
proof -
  have inv: "dev_inv db" by (rule dev_reach_inv[OF assms(1)])
  have m: "r \<in> set (requests (snd x))" if "moved db i b act x" for i b act x
  proof -
    from that obtain r0 r1 now c s where l: "locked db i = Inr r0" and live: "status r0 \<noteq> APPROVED_FOR_DEVELOPMENT"
      and adv: "advances r0 r1 act b" and x: "x = commit now r1 b act (Some (status r0)) c s db"
      unfolding moved_def by blast
    have r0: "r0 \<in> set (requests db)" "rid r0 = i" using locked_Inr[OF l] by simp_all
    have "rid r \<noteq> rid r1"
    proof
      assume "rid r = rid r1"
      then have "rid r = rid r0" using adv by (simp add: advances_def)
      then have "r = r0" using inv r0(1) assms(2) by (meson dev_inv_def distinct_map inj_onD)
      then show False using live assms(3) by simp
    qed
    then show ?thesis using assms(2) by (force simp: x commit_unfold)
  qed
  show ?thesis
  proof (cases op)
    case (Create month i input s)
    with assms(4) have "create h cfg now month i input s a db = Inr (r', db')" by simp
    from create_Inr[OF this] obtain p c act d where
      c: "submit_new h s (db\<lparr>sequence_no := Suc (sequence_no db)\<rparr>)
        (applyPatch p (blank_request i (request_number month (sequence_no db)) (actor_id a))) = Inr c"
      and x: "commit now c a act (if s then Some DRAFT else None) d (PatchSnapshot p)
        (db\<lparr>sequence_no := Suc (sequence_no db), requests := requests db @ [c]\<rparr>) = (r', db')" by blast
    have "rid c = i" using create_request_ok[OF c] by simp
    moreover have "i \<notin> rid ` set (requests db)" using assms(5) Create by simp
    ultimately have "rid r \<noteq> rid c" using assms(2) by (metis image_eqI)
    then show ?thesis using x assms(2) by (force simp: commit_unfold)
  next
    case (Resubmit i input)
    with assms(4) resubmit_never[OF inv] show ?thesis by (metis dev_exec.simps(4) isOk_simps(1))
  next
    case (RequesterDecision i b c)
    with assms(4) requesterDecision_moved[OF inv] m show ?thesis by (metis dev_exec.simps(8) snd_conv)
  next
    case (HandlerManagerDecision i b c)
    with assms(4) handlerManagerDecision_moved[OF inv] m show ?thesis by (metis dev_exec.simps(11) snd_conv)
  qed (use assms(4) in \<open>auto simp: submitDraft_def dest!: updateDraft_moved withdraw_moved[OF inv]
     returnTo_moved[OF inv] reject_moved[OF inv] assign_moved submitPlan_moved dest: m\<close>)
qed

definition dev_next :: "dev_error + dev_request \<times> dev_db" where
  "dev_next = dev_exec dev_host dev_config 0 (Create ''202602'' ''r2'' [] False) (dev_actor_of ''u'' []) dev_final"

lemma dev_next_ok: "isOk dev_next \<and> fresh_op (Create ''202602'' ''r2'' [] False) dev_final"
  by code_simp

theorem dev_approved_is_final_witness:
  "\<exists>r r' db'. dev_next = Inr (r', db') \<and> r \<in> set (requests db') \<and> status r = APPROVED_FOR_DEVELOPMENT"
proof -
  obtain r' db' where n: "dev_next = Inr (r', db')" using dev_next_ok by (metis isOk_iff surj_pair)
  from dev_final_rows obtain r where r: "r \<in> set (requests dev_final)" "status r = APPROVED_FOR_DEVELOPMENT"
    by (cases "requests dev_final") auto
  from dev_approved_is_final[OF dev_final_reach r n[unfolded dev_next_def]] dev_next_ok n r
  show ?thesis by blast
qed

text \<open>C19: the actions the flow offers are the ones the commands carry out: on a request of a
  known stage, withdrawing, rejecting and the two approvals succeed exactly when they are
  offered, and returning is offered exactly when some stage accepts the request.\<close>

theorem dev_offered_iff_possible:
  assumes l: "locked db i = Inr r" and k: "known (status r)"
    and acts: "availableDevelopmentActions r a (latestEvent db i) (flowPolicy cfg) = Inr acts"
    and reason: "isOk (cleanText h (Some (JStr c)) ''reason'' 2000)" "isOk (cleanText h (Some (JStr c)) ''comment'' 2000)"
  shows "(WITHDRAW \<in> set acts \<longleftrightarrow> isOk (withdraw cfg now i (Some c) a db)) \<and>
    (REJECT \<in> set acts \<longleftrightarrow> isOk (reject h cfg now i (Some c) a db)) \<and>
    (REQUESTER_APPROVE \<in> set acts \<longleftrightarrow> isOk (requesterDecision h cfg now i True (Some c) a db)) \<and>
    (HANDLER_APPROVE \<in> set acts \<longleftrightarrow> isOk (handlerManagerDecision h cfg now i True (Some c) a db)) \<and>
    (RETURN \<in> set acts \<longleftrightarrow> (\<exists>t. isOk (returnTo h cfg now i (Some t) (Some c) a db)))"
proof -
  from acts obtain cap where cap: "developmentApprovalCapabilities r a (latestEvent db i) (flowPolicy cfg) = Inr cap"
    by (auto simp: availableDevelopmentActions_def err_simps Let_def)
  obtain r1 r2 where texts: "cleanText h (Some (JStr c)) ''reason'' 2000 = Inr r1"
      "cleanText h (Some (JStr c)) ''comment'' 2000 = Inr r2"
    using reason by (cases "cleanText h (Some (JStr c)) ''reason'' 2000"; cases "cleanText h (Some (JStr c)) ''comment'' 2000") auto
  from acts cap have set_acts: "acts = projr (availableDevelopmentActions r a (latestEvent db i) (flowPolicy cfg))"
    by simp
  note mem = set_acts availableDevelopmentActions_def Let_def cap
  have "WITHDRAW \<in> set acts \<longleftrightarrow> isOk (withdraw cfg now i (Some c) a db)"
    using withdraw_possible[OF l cap] by (simp add: mem)
  moreover have "RETURN \<in> set acts \<longleftrightarrow> (\<exists>t. isOk (returnTo h cfg now i (Some t) (Some c) a db))"
    using return_possible[OF l cap texts(1)] by (simp add: mem)
  moreover have "REJECT \<in> set acts \<longleftrightarrow> isOk (reject h cfg now i (Some c) a db)"
    using reject_possible[OF l texts(1)] by (auto simp: mem)
  moreover have "REQUESTER_APPROVE \<in> set acts \<longleftrightarrow> isOk (requesterDecision h cfg now i True (Some c) a db)"
    by (simp add: mem requesterDecision_def approvalComment_def texts l)
  moreover have "HANDLER_APPROVE \<in> set acts \<longleftrightarrow> isOk (handlerManagerDecision h cfg now i True (Some c) a db)"
    by (simp add: mem handlerManagerDecision_def approvalComment_def texts l)
  ultimately show ?thesis by blast
qed

definition dev_middle :: dev_db where
  "dev_middle = dev_run dev_host dev_config (take 4 dev_ops) dev_start"

definition dev_row :: "dev_db \<Rightarrow> dev_request" where
  "dev_row db = hd (requests db)"

definition dev_middle_actions :: "dev_status + dev_action list" where
  "dev_middle_actions = availableDevelopmentActions (dev_row dev_middle) (dev_actor_of ''l'' [])
     (latestEvent dev_middle ''r1'') (flowPolicy dev_config)"

lemma dev_middle_actions: "dev_middle_actions = Inr [HANDLER_APPROVE, REJECT, RETURN]"
  by code_simp

lemma dev_middle_row: "map (\<lambda>r. (rid r, status r)) (requests dev_middle) = [(''r1'', PENDING_HANDLER_MANAGER_APPROVAL)]"
  by code_simp

lemma dev_middle_locked:
  "locked dev_middle ''r1'' = Inr (dev_row dev_middle)" "known (status (dev_row dev_middle))"
  using dev_middle_row
  by (cases "requests dev_middle"; auto simp: locked_def dev_row_def known_def)+

lemma sample_reason: "isOk (cleanText dev_host (Some (JStr ''no'')) what 2000)"
  by (simp add: cleanText_def text_of_def js_trim_def js_space_def Let_def)

theorem dev_offered_iff_possible_witness:
  "isOk (reject dev_host dev_config 0 ''r1'' (Some ''no'') (dev_actor_of ''l'' []) dev_middle)"
  using dev_offered_iff_possible[OF dev_middle_locked dev_middle_actions[unfolded dev_middle_actions_def]
      sample_reason sample_reason, of 0] by simp

end
