(* ===== verification/SqlLogic.thy ===== *)
theory SqlLogic
  imports JsValues
begin

text \<open>
  The meaning of the SQL the code builds: three-valued truth (\<open>None\<close> is NULL) with its
  connectives, text predicates and pattern matching.  A clause is modelled by a function from a
  row to a truth value; \<open>WHERE\<close> keeps a row when the value is true (\<open>holds\<close>).
\<close>

type_synonym tv = "bool option"

fun sql_not :: "tv \<Rightarrow> tv" where
  "sql_not None = None"
| "sql_not (Some b) = Some (\<not> b)"

fun sql_and :: "tv \<Rightarrow> tv \<Rightarrow> tv" where
  "sql_and (Some False) y = Some False"
| "sql_and (Some True) y = y"
| "sql_and None (Some False) = Some False"
| "sql_and None y = None"

fun sql_or :: "tv \<Rightarrow> tv \<Rightarrow> tv" where
  "sql_or (Some True) y = Some True"
| "sql_or (Some False) y = y"
| "sql_or None (Some True) = Some True"
| "sql_or None y = None"

definition sql_all :: "tv list \<Rightarrow> tv" where
  "sql_all cs = foldr sql_and cs (Some True)"

definition sql_any :: "tv list \<Rightarrow> tv" where
  "sql_any cs = foldr sql_or cs (Some False)"

definition holds :: "tv \<Rightarrow> bool" where
  "holds v \<longleftrightarrow> v = Some True"

lemma holds_simps [simp]: "holds (Some b) = b" "\<not> holds None"
  by (simp_all add: holds_def)

lemma tv_cases: "(x = None \<Longrightarrow> P) \<Longrightarrow> (x = Some True \<Longrightarrow> P) \<Longrightarrow> (x = Some False \<Longrightarrow> P) \<Longrightarrow> P" for x :: tv
  by (cases x) (metis (full_types))+

lemma holds_and [simp]: "holds (sql_and x y) \<longleftrightarrow> holds x \<and> holds y"
  by (rule tv_cases[of x]; rule tv_cases[of y]) simp_all

lemma holds_or [simp]: "holds (sql_or x y) \<longleftrightarrow> holds x \<or> holds y"
  by (rule tv_cases[of x]; rule tv_cases[of y]) simp_all

lemma holds_not [simp]: "holds (sql_not x) \<longleftrightarrow> x = Some False"
  by (cases x) (auto simp: holds_def)

lemma holds_all: "holds (sql_all cs) \<longleftrightarrow> (\<forall>c \<in> set cs. holds c)"
  by (induction cs) (auto simp: sql_all_def)

lemma holds_any: "holds (sql_any cs) \<longleftrightarrow> (\<exists>c \<in> set cs. holds c)"
  by (induction cs) (auto simp: sql_any_def)

lemma sql_de_morgan: "sql_not (sql_and x y) = sql_or (sql_not x) (sql_not y)"
  by (rule tv_cases[of x]; rule tv_cases[of y]) simp_all

text \<open>\<open>btrim\<close> removes spaces only; \<open>lower\<close> as case-insensitive comparison uses it.\<close>

definition btrim :: "string \<Rightarrow> string" where
  "btrim s = rev (dropWhile (\<lambda>c. c = CHR '' '') (rev (dropWhile (\<lambda>c. c = CHR '' '') s)))"

definition lower_char :: "char \<Rightarrow> char" where
  "lower_char c = (let n = (of_char c :: nat) in
     if 65 \<le> n \<and> n \<le> 90 \<or> 192 \<le> n \<and> n \<le> 222 \<and> n \<noteq> 215 then char_of (n + 32) else c)"

definition lower :: "string \<Rightarrow> string" where
  "lower s = map lower_char s"

text \<open>\<open>LIKE\<close> with its wildcards and the escape character.\<close>

fun like_match :: "string \<Rightarrow> string \<Rightarrow> bool" where
  "like_match [] s = (s = [])"
| "like_match (c # p) s =
     (if c = CHR ''%'' then like_match p s \<or> (case s of [] \<Rightarrow> False | _ # t \<Rightarrow> like_match (c # p) t)
      else if c = CHR ''_'' then (case s of [] \<Rightarrow> False | _ # t \<Rightarrow> like_match p t)
      else if c = CHR 0x5C
      then (case p of [] \<Rightarrow> False | d # q \<Rightarrow> (case s of [] \<Rightarrow> False | x # t \<Rightarrow> x = d \<and> like_match q t))
      else (case s of [] \<Rightarrow> False | x # t \<Rightarrow> x = c \<and> like_match p t))"

definition ilike :: "string \<Rightarrow> string \<Rightarrow> bool" where
  "ilike s pattern = like_match (lower pattern) (lower s)"

end
