(* ===== verification/Forest.thy ===== *)
theory Forest
  imports Prelude
begin

text \<open>
  Walks over tables whose rows name their parent, as the code and its recursive queries do
  them: up along the parents and down to all descendants, both with a set of visited keys so
  that they end on any table.  The lemmas characterise them by reachability and show when
  re-hanging a row keeps the parent relation acyclic.
\<close>

definition lookup_row :: "('a \<Rightarrow> 'k) \<Rightarrow> 'a list \<Rightarrow> 'k \<Rightarrow> 'a option" where
  "lookup_row key rows k = find (\<lambda>r. key r = k) rows"

lemma lookup_row_Some: "lookup_row key rows k = Some r \<Longrightarrow> r \<in> set rows \<and> key r = k"
  unfolding lookup_row_def by (auto dest: find_Some_mem)

lemma lookup_row_mem:
  "distinct (map key rows) \<Longrightarrow> r \<in> set rows \<Longrightarrow> lookup_row key rows (key r) = Some r"
  by (induction rows) (auto simp: lookup_row_def)

lemma lookup_row_None: "lookup_row key rows k = None \<longleftrightarrow> k \<notin> key ` set rows"
  by (auto simp: lookup_row_def find_None_iff)

definition unvisited :: "('a \<Rightarrow> 'k) \<Rightarrow> 'a list \<Rightarrow> 'k set \<Rightarrow> nat" where
  "unvisited key rows visited = card (key ` set rows - visited)"

lemma unvisited_insert:
  "r \<in> set rows \<Longrightarrow> key r \<notin> visited \<Longrightarrow> unvisited key rows (insert (key r) visited) < unvisited key rows visited"
  unfolding unvisited_def by (intro psubset_card_mono) auto

section \<open>Upwards\<close>

text \<open>The rows met from \<open>current\<close> on; \<open>next\<close> finds the row to continue with.  The
  test \<open>r \<in> set rows\<close> always holds in the code, where rows come from the table.\<close>

function climb :: "('a \<Rightarrow> 'k) \<Rightarrow> ('a \<Rightarrow> 'a option) \<Rightarrow> 'a list \<Rightarrow> 'a option \<Rightarrow> 'k set \<Rightarrow> 'a list" where
  "climb key nxt rows current visited = (case current of
     None \<Rightarrow> []
   | Some r \<Rightarrow> if key r \<in> visited \<or> r \<notin> set rows then []
               else r # climb key nxt rows (nxt r) (insert (key r) visited))"
  by pat_completeness auto
termination
  by (relation "measure (\<lambda>(key, nxt, rows, c, v). unvisited key rows v)") (auto simp: unvisited_insert)

declare climb.simps [simp del]

lemma climb_subset: "set (climb key nxt rows c v) \<subseteq> set rows"
proof (induction key nxt rows c v rule: climb.induct)
  case (1 key nxt rows c v)
  then show ?case by (subst climb.simps) (auto split: option.splits)
qed

section \<open>Downwards\<close>

text \<open>A row and all its descendants: \<open>WITH RECURSIVE ... WHERE NOT id = ANY(visited)\<close>, where
  \<open>visited\<close> is the path to the row.\<close>

function below :: "('a \<Rightarrow> 'k) \<Rightarrow> ('a \<Rightarrow> 'k option) \<Rightarrow> 'a list \<Rightarrow> 'a \<Rightarrow> 'k set \<Rightarrow> 'a list" where
  "below key par rows r visited =
     r # concat (map (\<lambda>c. below key par rows c (insert (key c) visited))
                  (filter (\<lambda>c. par c = Some (key r) \<and> key c \<notin> visited) rows))"
  by pat_completeness auto
termination
  by (relation "measure (\<lambda>(key, par, rows, r, v). unvisited key rows v)") (auto simp: unvisited_insert)

declare below.simps [simp del]

definition child_of :: "('a \<Rightarrow> 'k) \<Rightarrow> ('a \<Rightarrow> 'k option) \<Rightarrow> 'a list \<Rightarrow> ('a \<times> 'a) set" where
  "child_of key par rows = {(c, p). c \<in> set rows \<and> p \<in> set rows \<and> par c = Some (key p)}"

lemma below_subset: "r \<in> set rows \<Longrightarrow> set (below key par rows r v) \<subseteq> set rows"
proof (induction key par rows r v rule: below.induct)
  case (1 key par rows r v)
  then show ?case by (subst below.simps) auto
qed

lemma below_reaches:
  "r \<in> set rows \<Longrightarrow> x \<in> set (below key par rows r v) \<Longrightarrow> (x, r) \<in> (child_of key par rows)\<^sup>*"
proof (induction key par rows r v arbitrary: x rule: below.induct)
  case (1 key par rows r v)
  from 1(3) consider "x = r" | c where "c \<in> set rows" "par c = Some (key r)" "key c \<notin> v"
      "x \<in> set (below key par rows c (insert (key c) v))"
    by (subst (asm) below.simps) auto
  then show ?case
  proof cases
    case 2
    then have "(x, c) \<in> (child_of key par rows)\<^sup>*" using 1(1) by simp
    moreover have "(c, r) \<in> child_of key par rows" using 2 1(2) by (simp add: child_of_def)
    ultimately show ?thesis by (rule rtrancl_into_rtrancl)
  qed simp
qed

lemma child_of_trancl_rows: "(y, c) \<in> (child_of key par rows)\<^sup>+ \<Longrightarrow> y \<in> set rows \<and> c \<in> set rows"
  by (induction rule: trancl_induct) (auto simp: child_of_def)

lemma same_key: "distinct (map key rows) \<Longrightarrow> x \<in> set rows \<Longrightarrow> y \<in> set rows \<Longrightarrow> key x = key y \<Longrightarrow> x = y"
  by (simp add: distinct_map inj_on_def)

text \<open>With distinct keys and no cycle every descendant is found, once.\<close>

lemma child_of_functional:
  "distinct (map key rows) \<Longrightarrow> (c, p) \<in> child_of key par rows \<Longrightarrow> (c, q) \<in> child_of key par rows \<Longrightarrow> p = q"
  by (auto simp: child_of_def distinct_map inj_on_def)

lemma below_child:
  "c \<in> set rows \<Longrightarrow> par c = Some (key r) \<Longrightarrow> key c \<notin> v \<Longrightarrow>
    x \<in> set (below key par rows c (insert (key c) v)) \<Longrightarrow> x \<in> set (below key par rows r v)"
  by (subst below.simps) auto

lemma below_self: "r \<in> set (below key par rows r v)"
  by (subst below.simps) simp

lemma acyclic_ne: "acyclic R \<Longrightarrow> (y, c) \<in> R\<^sup>+ \<Longrightarrow> y \<noteq> c"
  unfolding acyclic_def by blast

lemma reaches_below:
  assumes "distinct (map key rows)" and "acyclic (child_of key par rows)" and "r \<in> set rows"
    and "(x, r) \<in> (child_of key par rows)\<^sup>*"
    and "\<And>y. (y, r) \<in> (child_of key par rows)\<^sup>+ \<Longrightarrow> key y \<notin> v"
  shows "x \<in> set (below key par rows r v)"
  using assms
proof (induction key par rows r v arbitrary: x rule: below.induct)
  case (1 key par rows r v)
  let ?R = "child_of key par rows"
  note keys = 1(2) and ac = 1(3) and fresh = 1(6)
  show ?case
  proof (cases "x = r")
    case True
    then show ?thesis by (simp add: below_self)
  next
    case False
    with 1(5) obtain c where c: "(x, c) \<in> ?R\<^sup>*" "(c, r) \<in> ?R" by (metis rtranclE)
    then have cs: "c \<in> set rows" "par c = Some (key r)" by (simp_all add: child_of_def)
    have kc: "key c \<notin> v" using fresh[of c] c(2) by (simp add: r_into_trancl')
    have sub: "key y \<notin> insert (key c) v" if y: "(y, c) \<in> ?R\<^sup>+" for y
    proof -
      have "(y, r) \<in> ?R\<^sup>+" using y c(2) by (rule trancl_into_trancl)
      then have "key y \<notin> v" by (rule fresh)
      moreover have "key y \<noteq> key c"
        using same_key[OF keys] child_of_trancl_rows[OF y] acyclic_ne[OF ac y] by metis
      ultimately show ?thesis by simp
    qed
    have "c \<in> set (filter (\<lambda>c. par c = Some (key r) \<and> key c \<notin> v) rows)" using cs kc by simp
    then have "x \<in> set (below key par rows c (insert (key c) v))"
      using keys ac cs(1) c(1) sub by (rule 1(1))
    then show ?thesis using below_child[where c = c] cs kc by metis
  qed
qed

definition descendants_of :: "('a \<Rightarrow> 'k) \<Rightarrow> ('a \<Rightarrow> 'k option) \<Rightarrow> 'a list \<Rightarrow> 'k \<Rightarrow> 'a list" where
  "descendants_of key par rows k = (case lookup_row key rows k of
     None \<Rightarrow> [] | Some r \<Rightarrow> below key par rows r {key r})"

lemma descendants_of_set:
  assumes "distinct (map key rows)" and ac: "acyclic (child_of key par rows)" and r: "r \<in> set rows"
  shows "set (descendants_of key par rows (key r)) = {x. (x, r) \<in> (child_of key par rows)\<^sup>*}"
proof -
  have d: "descendants_of key par rows (key r) = below key par rows r {key r}"
    by (simp add: descendants_of_def lookup_row_mem[OF assms(1) r])
  have "key y \<notin> {key r}" if "(y, r) \<in> (child_of key par rows)\<^sup>+" for y
  proof -
    have "y \<noteq> r" using that ac unfolding acyclic_def by blast
    then show ?thesis using same_key[OF assms(1)] child_of_trancl_rows[OF that] by auto
  qed
  then have "x \<in> set (below key par rows r {key r})" if "(x, r) \<in> (child_of key par rows)\<^sup>*" for x
    using reaches_below[OF assms(1) ac r that] by blast
  then show ?thesis unfolding d using below_reaches[OF r] by blast
qed

lemma descendants_of_subset: "set (descendants_of key par rows k) \<subseteq> set rows"
proof (cases "lookup_row key rows k")
  case (Some r)
  then show ?thesis using below_subset[of r rows] lookup_row_Some[OF Some] by (simp add: descendants_of_def)
qed (simp add: descendants_of_def)

lemma functional_comparable:
  assumes "\<And>a b c. (a, b) \<in> R \<Longrightarrow> (a, c) \<in> R \<Longrightarrow> b = c" and "(x, y) \<in> R\<^sup>*" and "(x, z) \<in> R\<^sup>*"
  shows "(y, z) \<in> R\<^sup>* \<or> (z, y) \<in> R\<^sup>*"
  using assms(2)
proof (induction rule: rtrancl_induct)
  case base
  then show ?case using assms(3) by simp
next
  case (step y w)
  then consider "(y, z) \<in> R\<^sup>*" | "(z, y) \<in> R\<^sup>*" by blast
  then show ?case
  proof cases
    case 1
    then show ?thesis using step(2) assms(1) by (metis converse_rtranclE r_into_rtrancl)
  next
    case 2
    then show ?thesis using step(2) by (meson rtrancl_into_rtrancl)
  qed
qed

lemma siblings_disjoint:
  assumes "distinct (map key rows)" and "acyclic (child_of key par rows)"
    and "(c, r) \<in> child_of key par rows" and "(d, r) \<in> child_of key par rows"
    and "(x, c) \<in> (child_of key par rows)\<^sup>*" and "(x, d) \<in> (child_of key par rows)\<^sup>*"
  shows "c = d"
proof (rule ccontr)
  let ?R = "child_of key par rows"
  assume "c \<noteq> d"
  have no: False if "(a, b) \<in> ?R\<^sup>*" "a \<noteq> b" "(a, r) \<in> ?R" "(b, r) \<in> ?R" for a b
  proof -
    from that(1,2) obtain p where p: "(a, p) \<in> ?R" "(p, b) \<in> ?R\<^sup>*" by (metis converse_rtranclE)
    then have "p = r" using child_of_functional[OF assms(1) p(1) that(3)] by simp
    then have "(r, r) \<in> ?R\<^sup>+" using p(2) that(4) by (meson rtrancl_into_trancl1)
    then show False using assms(2) unfolding acyclic_def by blast
  qed
  from functional_comparable[OF _ assms(5,6)] child_of_functional[OF assms(1)]
  have "(c, d) \<in> ?R\<^sup>* \<or> (d, c) \<in> ?R\<^sup>*" by blast
  then show False using no assms(3,4) \<open>c \<noteq> d\<close> by blast
qed

lemma distinct_concat_map:
  "distinct xs \<Longrightarrow> (\<And>x. x \<in> set xs \<Longrightarrow> distinct (f x)) \<Longrightarrow>
    (\<And>x y. x \<in> set xs \<Longrightarrow> y \<in> set xs \<Longrightarrow> x \<noteq> y \<Longrightarrow> set (f x) \<inter> set (f y) = {}) \<Longrightarrow> distinct (concat (map f xs))"
  by (induction xs) (auto simp: disjoint_iff)

lemma below_distinct:
  assumes "distinct (map key rows)" and "acyclic (child_of key par rows)" and "r \<in> set rows"
  shows "distinct (below key par rows r v)"
  using assms
proof (induction key par rows r v rule: below.induct)
  case (1 key par rows r v)
  let ?R = "child_of key par rows"
  let ?cs = "filter (\<lambda>c. par c = Some (key r) \<and> key c \<notin> v) rows"
  let ?sub = "\<lambda>c. below key par rows c (insert (key c) v)"
  have child: "(c, r) \<in> ?R" if "c \<in> set ?cs" for c using that 1(4) by (simp add: child_of_def)
  have reach: "(x, c) \<in> ?R\<^sup>*" if "c \<in> set ?cs" "x \<in> set (?sub c)" for c x
  proof -
    have "c \<in> set rows" using that(1) by simp
    then show ?thesis using that(2) by (rule below_reaches)
  qed
  have "distinct (concat (map ?sub ?cs))"
  proof (rule distinct_concat_map)
    show "distinct ?cs" using 1(2) by (simp add: distinct_map)
    show "distinct (?sub c)" if "c \<in> set ?cs" for c using 1(1)[OF that] 1(2,3) that by simp
    show "set (?sub c) \<inter> set (?sub d) = {}" if "c \<in> set ?cs" "d \<in> set ?cs" "c \<noteq> d" for c d
    proof (rule ccontr)
      assume "set (?sub c) \<inter> set (?sub d) \<noteq> {}"
      then obtain x where "x \<in> set (?sub c)" "x \<in> set (?sub d)" by blast
      then show False
        using siblings_disjoint[OF 1(2,3) child[OF that(1)] child[OF that(2)] reach[OF that(1)] reach[OF that(2)]] that(3)
        by blast
    qed
  qed
  moreover have "r \<notin> set (concat (map ?sub ?cs))"
  proof
    assume "r \<in> set (concat (map ?sub ?cs))"
    then obtain c where "c \<in> set ?cs" "r \<in> set (?sub c)" by auto
    then have "(r, r) \<in> ?R\<^sup>+" using reach child by (meson rtrancl_into_trancl1)
    then show False using 1(3) unfolding acyclic_def by blast
  qed
  ultimately show ?case by (subst below.simps) simp
qed

lemma descendants_of_distinct:
  assumes "distinct (map key rows)" and "acyclic (child_of key par rows)"
  shows "distinct (map key (descendants_of key par rows k))"
proof (cases "lookup_row key rows k")
  case (Some r)
  have r: "r \<in> set rows" using lookup_row_Some[OF Some] by simp
  have "inj_on key (set (below key par rows r {key r}))"
    using assms(1) below_subset[OF r] by (meson distinct_map inj_on_subset)
  then show ?thesis using below_distinct[OF assms r] Some by (simp add: descendants_of_def distinct_map)
qed (simp add: descendants_of_def)

section \<open>Changing the table\<close>

lemma child_of_map:
  assumes "\<And>r. r \<in> set rows \<Longrightarrow> key (f r) = key r" and "\<And>r. r \<in> set rows \<Longrightarrow> par (f r) = par r"
  shows "child_of key par (map f rows) = (\<lambda>(c, p). (f c, f p)) ` child_of key par rows"
  using assms by (force simp: child_of_def image_iff)

text \<open>The relation on keys does not change when rows keep key and parent.\<close>

definition key_rel :: "('a \<Rightarrow> 'k) \<Rightarrow> ('a \<Rightarrow> 'k option) \<Rightarrow> 'a list \<Rightarrow> ('k \<times> 'k) set" where
  "key_rel key par rows = {(k, l). \<exists>c \<in> set rows. key c = k \<and> par c = Some l}"

lemma key_rel_map:
  assumes "\<And>r. r \<in> set rows \<Longrightarrow> key (f r) = key r \<and> par (f r) = par r"
  shows "key_rel key par (map f rows) = key_rel key par rows"
  using assms by (force simp: key_rel_def)

lemma key_rel_append: "key_rel key par (xs @ ys) = key_rel key par xs \<union> key_rel key par ys"
  by (auto simp: key_rel_def)

lemma key_rel_filter: "key_rel key par (filter P rows) \<subseteq> key_rel key par rows"
  by (auto simp: key_rel_def)

lemma child_of_key_rel: "(c, p) \<in> child_of key par rows \<Longrightarrow> (key c, key p) \<in> key_rel key par rows"
  by (auto simp: child_of_def key_rel_def)

lemma child_of_trancl: "(x, y) \<in> (child_of key par rows)\<^sup>+ \<Longrightarrow> (key x, key y) \<in> (key_rel key par rows)\<^sup>+"
proof (induction rule: trancl_induct)
  case (base y)
  then show ?case using child_of_key_rel by (metis r_into_trancl')
next
  case (step y z)
  then show ?case using child_of_key_rel by (metis trancl.trancl_into_trancl)
qed

lemma child_of_acyclic: "acyclic (key_rel key par rows) \<Longrightarrow> acyclic (child_of key par rows)"
  using child_of_trancl unfolding acyclic_def by fast

lemma key_rel_rtrancl:
  assumes "distinct (map key rows)" and "\<And>r k. r \<in> set rows \<Longrightarrow> par r = Some k \<Longrightarrow> k \<in> key ` set rows"
    and "x \<in> set rows" and "y \<in> set rows" and "(key x, key y) \<in> (key_rel key par rows)\<^sup>*"
  shows "(x, y) \<in> (child_of key par rows)\<^sup>*"
proof -
  have "\<exists>y \<in> set rows. key y = l \<and> (x, y) \<in> (child_of key par rows)\<^sup>*"
    if "(key x, l) \<in> (key_rel key par rows)\<^sup>*" for l
    using that
  proof (induction rule: rtrancl_induct)
    case base
    then show ?case using assms(3) by blast
  next
    case (step k l)
    then obtain y where y: "y \<in> set rows" "key y = k" "(x, y) \<in> (child_of key par rows)\<^sup>*" by blast
    from step(2) obtain c where c: "c \<in> set rows" "key c = k" "par c = Some l" by (auto simp: key_rel_def)
    then have "c = y" using y assms(1) by (auto simp: distinct_map inj_on_def)
    from c assms(2) obtain z where "z \<in> set rows" "key z = l" by auto
    then have "(y, z) \<in> child_of key par rows" using c y \<open>c = y\<close> by (simp add: child_of_def)
    then have "(x, z) \<in> (child_of key par rows)\<^sup>*" using y(3) by (meson rtrancl_into_rtrancl)
    then show ?case using \<open>z \<in> set rows\<close> \<open>key z = l\<close> by blast
  qed
  from this[OF assms(5)] assms(1,4) show ?thesis by (auto simp: distinct_map inj_on_def)
qed

lemma acyclic_rehang:
  assumes "acyclic r" and "\<And>l. (k, l) \<in> s \<Longrightarrow> l = k' \<and> (k', k) \<notin> r\<^sup>*"
    and "\<And>a b. a \<noteq> k \<Longrightarrow> (a, b) \<in> s \<Longrightarrow> (a, b) \<in> r"
  shows "acyclic s"
proof (cases "(k', k) \<in> r\<^sup>*")
  case True
  have "s \<subseteq> r"
  proof
    fix p assume "p \<in> s"
    then show "p \<in> r" using assms(2)[of "snd p"] assms(3)[of "fst p" "snd p"] True by (cases p) auto
  qed
  then show ?thesis using assms(1) acyclic_subset by blast
next
  case False
  have "s \<subseteq> insert (k, k') r"
  proof
    fix p assume "p \<in> s"
    then show "p \<in> insert (k, k') r"
      using assms(2)[of "snd p"] assms(3)[of "fst p" "snd p"] by (cases p) auto
  qed
  moreover have "acyclic (insert (k, k') r)" using False assms(1) by (simp add: acyclic_insert)
  ultimately show ?thesis by (metis acyclic_subset)
qed

section \<open>What a climb meets\<close>

definition up_next :: "('a \<Rightarrow> 'k) \<Rightarrow> ('a \<Rightarrow> 'k option) \<Rightarrow> 'a list \<Rightarrow> 'a \<Rightarrow> 'a option" where
  "up_next key par rows r = (case par r of None \<Rightarrow> None | Some k \<Rightarrow> lookup_row key rows k)"

lemma key_rel_unique:
  "distinct (map key rows) \<Longrightarrow> r \<in> set rows \<Longrightarrow> (key r, l) \<in> key_rel key par rows \<Longrightarrow> par r = Some l"
  by (auto simp: key_rel_def distinct_map inj_on_def)

lemma climb_covers:
  assumes "distinct (map key rows)" and "acyclic (key_rel key par rows)"
    and "\<And>x. x \<in> set rows \<Longrightarrow> nxt x = up_next key par rows x"
    and "current = Some r" and "r \<in> set rows" and "(key r, l) \<in> (key_rel key par rows)\<^sup>*"
    and "l \<in> key ` set rows" and "\<And>z. (key r, z) \<in> (key_rel key par rows)\<^sup>* \<Longrightarrow> z \<notin> v"
  shows "l \<in> key ` set (climb key nxt rows current v)"
  using assms
proof (induction key nxt rows current v arbitrary: r rule: climb.induct)
  case (1 key nxt rows current v)
  let ?R = "key_rel key par rows"
  have fresh: "key r \<notin> v" using 1(9)[of "key r"] by simp
  have eq: "climb key nxt rows current v = r # climb key nxt rows (nxt r) (insert (key r) v)"
    using fresh 1(5,6) by (subst climb.simps) simp
  show ?case
  proof (cases "l = key r")
    case True
    then show ?thesis using eq by simp
  next
    case False
    with 1(7) obtain m where m: "(key r, m) \<in> ?R" "(m, l) \<in> ?R\<^sup>*" by (metis converse_rtranclE)
    have par: "par r = Some m" by (rule key_rel_unique[OF 1(2,6) m(1)])
    have "m \<in> key ` set rows"
    proof (cases "m = l")
      case False
      then obtain n where "(m, n) \<in> ?R" using m(2) by (metis converse_rtranclE)
      then show ?thesis by (auto simp: key_rel_def)
    qed (use 1(8) in simp)
    then obtain q where q: "q \<in> set rows" "key q = m" by auto
    have nx: "nxt r = Some q"
      using 1(4)[OF 1(6)] par lookup_row_mem[OF 1(2) q(1), unfolded q(2)] by (simp add: up_next_def)
    have sub: "z \<notin> insert (key r) v" if z: "(key q, z) \<in> ?R\<^sup>*" for z
    proof -
      have rz: "(key r, z) \<in> ?R\<^sup>+" using m(1) z q(2) by (metis rtrancl_into_trancl2)
      then have "z \<noteq> key r" using 1(3) unfolding acyclic_def by blast
      moreover have "z \<notin> v" using rz 1(9) by (meson trancl_into_rtrancl)
      ultimately show ?thesis by simp
    qed
    have cond: "\<not> (key r \<in> v \<or> r \<notin> set rows)" using fresh 1(6) by simp
    have "l \<in> key ` set (climb key nxt rows (nxt r) (insert (key r) v))"
      by (rule 1(1)[OF 1(5) cond 1(2,3,4) nx q(1) _ 1(8)]) (use m(2) q(2) sub in auto)
    then show ?thesis using eq by simp
  qed
qed

lemma climb_start: "r \<in> set rows \<Longrightarrow> r \<in> set (climb key nxt rows (Some r) {})"
  by (subst climb.simps) simp

text \<open>A row may be hung below \<open>l\<close> when the climb from there does not meet it.\<close>

lemma climb_guard:
  assumes "distinct (map key rows)" and "acyclic (key_rel key par rows)" and "r \<in> set rows"
    and "k \<in> key ` set rows" and "k \<notin> set (map key (climb key (up_next key par rows) rows (Some r) {}))"
  shows "(key r, k) \<notin> (key_rel key par rows)\<^sup>*"
proof
  assume "(key r, k) \<in> (key_rel key par rows)\<^sup>*"
  then have "k \<in> key ` set (climb key (up_next key par rows) rows (Some r) {})"
    by (intro climb_covers[OF assms(1,2) _ _ assms(3) _ assms(4)]) simp_all
  then show False using assms(5) by simp
qed

lemma child_of_rtrancl_key: "(x, y) \<in> (child_of key par rows)\<^sup>* \<Longrightarrow> (key x, key y) \<in> (key_rel key par rows)\<^sup>*"
proof (induction rule: rtrancl_induct)
  case (step y z)
  then show ?case using child_of_key_rel by (metis rtrancl.rtrancl_into_rtrancl)
qed simp

lemma descendants_keys:
  assumes "distinct (map key rows)" and "acyclic (key_rel key par rows)"
    and "\<And>r k. r \<in> set rows \<Longrightarrow> par r = Some k \<Longrightarrow> k \<in> key ` set rows" and "r \<in> set rows" and "x \<in> set rows"
  shows "x \<in> set (descendants_of key par rows (key r)) \<longleftrightarrow> (key x, key r) \<in> (key_rel key par rows)\<^sup>*"
proof -
  have eq: "set (descendants_of key par rows (key r)) = {x. (x, r) \<in> (child_of key par rows)\<^sup>*}"
    by (rule descendants_of_set[OF assms(1) child_of_acyclic[OF assms(2)] assms(4)])
  show ?thesis
  proof
    assume "x \<in> set (descendants_of key par rows (key r))"
    then have "(x, r) \<in> (child_of key par rows)\<^sup>*" using eq by simp
    then show "(key x, key r) \<in> (key_rel key par rows)\<^sup>*" by (rule child_of_rtrancl_key)
  next
    assume rel: "(key x, key r) \<in> (key_rel key par rows)\<^sup>*"
    have "(x, r) \<in> (child_of key par rows)\<^sup>*"
      by (rule key_rel_rtrancl[OF assms(1)]) (fact assms rel)+
    then show "x \<in> set (descendants_of key par rows (key r))" using eq by simp
  qed
qed

end
