(* ===== verification/OrganizationIndex.thy ===== *)
theory OrganizationIndex
  imports Forest
begin

text \<open>
  The organisation index of \<^verbatim>\<open>packages/permissions/src/index.ts\<close>: paths of units by
  walking the parent links, matching of a member's department path to the unique deepest unit,
  and membership in a unit or one of its ancestors.  Both walks stop at a unit they have seen,
  so they end on cyclic data.  The memo table \<open>pathById\<close> does not change results and is
  left out.
\<close>

record org_unit =
  unitId :: string
  unitName :: string
  unitParent :: "string option"

definition unitById :: "org_unit list \<Rightarrow> string \<Rightarrow> org_unit option" where
  "unitById units i = find (\<lambda>u. unitId u = i) (rev units)"

text \<open>The parent to continue with: \<open>current.parentId ? unitById.get(...) : undefined\<close>.\<close>

definition parent_of :: "org_unit list \<Rightarrow> org_unit \<Rightarrow> org_unit option" where
  "parent_of units u = (case unitParent u of
     None \<Rightarrow> None | Some p \<Rightarrow> if p = [] then None else unitById units p)"

definition normalizedOrganizationPath :: "string list \<Rightarrow> string list" where
  "normalizedOrganizationPath path = filter (\<lambda>p. p \<noteq> []) (map js_trim path)"

definition canonicalOrganizationPath :: "string list \<Rightarrow> string list" where
  "canonicalOrganizationPath path =
     (let values = normalizedOrganizationPath path
      in map fst (filter (\<lambda>(part, prev). prev \<noteq> Some part) (zip values (None # map Some values))))"

definition organizationPathKey :: "string list \<Rightarrow> string" where
  "organizationPathKey path = js_join [CHR 0x1F] (canonicalOrganizationPath path)"

lemma unitById_Some: "unitById units i = Some u \<Longrightarrow> u \<in> set units \<and> unitId u = i"
  unfolding unitById_def by (auto dest: find_Some_mem)

lemma parent_of_mem: "parent_of units u = Some p \<Longrightarrow> p \<in> set units"
  by (auto simp: parent_of_def split: option.splits if_splits dest: unitById_Some)

section \<open>The walks\<close>

text \<open>The units from \<open>current\<close> upwards.\<close>

definition walk :: "org_unit list \<Rightarrow> org_unit option \<Rightarrow> org_unit list" where
  "walk units current = climb unitId (parent_of units) units current {}"

definition pathFor :: "org_unit list \<Rightarrow> string \<Rightarrow> string list" where
  "pathFor units i = normalizedOrganizationPath (map unitName (rev (walk units (unitById units i))))"

definition idsByCanonicalPath :: "org_unit list \<Rightarrow> string \<Rightarrow> string list" where
  "idsByCanonicalPath units key =
     filter (\<lambda>i. organizationPathKey (pathFor units i) = key) (map unitId units)"

definition resolveDepartmentPath :: "org_unit list \<Rightarrow> string list \<Rightarrow> string list" where
  "resolveDepartmentPath units path =
     (let candidates = idsByCanonicalPath units (organizationPathKey path) in
      if candidates = [] then []
      else (let deepestLevel = Max (set (map (\<lambda>i. length (pathFor units i)) candidates));
                deepest = filter (\<lambda>i. length (pathFor units i) = deepestLevel) candidates
            in if length deepest = 1 then deepest else []))"

function descends :: "org_unit list \<Rightarrow> org_unit option \<Rightarrow> string \<Rightarrow> string set \<Rightarrow> bool" where
  "descends units current ancestorId visited = (case current of
     None \<Rightarrow> False
   | Some u \<Rightarrow>
       if unitId u \<in> visited \<or> u \<notin> set units then False
       else if unitId u = ancestorId then True
       else descends units (parent_of units u) ancestorId (insert (unitId u) visited))"
  by pat_completeness auto
termination by (relation "measure (\<lambda>(units, c, a, v). unvisited unitId units v)") (auto simp: unvisited_insert)

declare descends.simps [simp del]

definition isDescendantOrSelf :: "org_unit list \<Rightarrow> string \<Rightarrow> string \<Rightarrow> bool" where
  "isDescendantOrSelf units unit ancestor = descends units (unitById units unit) ancestor {}"

definition unitIdForDepartmentPath :: "org_unit list \<Rightarrow> string list \<Rightarrow> string option" where
  "unitIdForDepartmentPath units path = js_first (resolveDepartmentPath units path)"

definition departmentPathBelongsTo :: "org_unit list \<Rightarrow> string list \<Rightarrow> string \<Rightarrow> bool" where
  "departmentPathBelongsTo units path organization =
     list_ex (\<lambda>u. isDescendantOrSelf units u organization) (resolveDepartmentPath units path)"

section \<open>The walk decides reachability\<close>

definition up :: "org_unit list \<Rightarrow> (org_unit \<times> org_unit) set" where
  "up units = {(u, p). u \<in> set units \<and> parent_of units u = Some p}"

text \<open>Two rows with the same id are one unit for the index, the last of them.\<close>

definition canonical_row :: "org_unit list \<Rightarrow> org_unit \<Rightarrow> bool" where
  "canonical_row units u \<longleftrightarrow> unitById units (unitId u) = Some u"

lemma unitById_canonical: "unitById units i = Some u \<Longrightarrow> canonical_row units u"
  by (metis canonical_row_def unitById_Some)

lemma parent_canonical: "parent_of units u = Some p \<Longrightarrow> canonical_row units p"
  by (auto simp: parent_of_def split: option.splits if_splits intro: unitById_canonical)

lemma up_closed:
  assumes "(u, w) \<in> (up units)\<^sup>*" and "u \<in> V" and "\<And>v p. v \<in> V \<Longrightarrow> parent_of units v = Some p \<Longrightarrow> p \<in> V"
  shows "w \<in> V"
  using assms(1,2)
proof (induction rule: rtrancl_induct)
  case base
  then show ?case by simp
next
  case (step y z)
  then show ?case using assms(3) by (auto simp: up_def)
qed

lemma up_step:
  assumes "u \<in> set units" and "parent_of units u = Some p"
  shows "(u, w) \<in> (up units)\<^sup>* \<longleftrightarrow> w = u \<or> (p, w) \<in> (up units)\<^sup>*"
proof
  assume "(u, w) \<in> (up units)\<^sup>*"
  then show "w = u \<or> (p, w) \<in> (up units)\<^sup>*"
    by (rule converse_rtranclE) (use assms in \<open>auto simp: up_def\<close>)
next
  have "(u, p) \<in> up units" using assms by (simp add: up_def)
  moreover assume "w = u \<or> (p, w) \<in> (up units)\<^sup>*"
  ultimately show "(u, w) \<in> (up units)\<^sup>*" by (auto intro: converse_rtrancl_into_rtrancl)
qed

lemma up_end:
  assumes "parent_of units u = None"
  shows "(u, w) \<in> (up units)\<^sup>* \<longleftrightarrow> w = u"
proof
  assume "(u, w) \<in> (up units)\<^sup>*"
  then show "w = u" by (rule converse_rtranclE) (use assms in \<open>auto simp: up_def\<close>)
qed simp

lemma descends_iff:
  assumes "canonical_row units u" "u \<in> set units"
    and "\<And>v. v \<in> V \<Longrightarrow> canonical_row units v \<and> unitId v \<noteq> a"
    and "\<And>v p. v \<in> V \<Longrightarrow> parent_of units v = Some p \<Longrightarrow> p \<in> V \<or> p = u"
  shows "descends units (Some u) a (unitId ` V) \<longleftrightarrow> (\<exists>w. (u, w) \<in> (up units)\<^sup>* \<and> unitId w = a)"
  using assms
proof (induction "unvisited unitId units (unitId ` V)" arbitrary: u V rule: less_induct)
  case less
  show ?case
  proof (cases "unitId u \<in> unitId ` V")
    case True
    then obtain v where "v \<in> V" "unitId v = unitId u" by auto
    then have "u \<in> V" using less.prems(1,3) by (metis canonical_row_def option.inject)
    then have "w \<in> V" if "(u, w) \<in> (up units)\<^sup>*" for w
      using up_closed[OF that \<open>u \<in> V\<close>] less.prems(4) \<open>u \<in> V\<close> by blast
    then show ?thesis using True less.prems(3) by (auto simp: descends.simps)
  next
    case False
    show ?thesis
    proof (cases "unitId u = a")
      case True
      then show ?thesis using False less.prems(2) by (auto simp: descends.simps)
    next
      case ne: False
      have step: "descends units (Some u) a (unitId ` V) =
          descends units (parent_of units u) a (unitId ` insert u V)"
        using False ne less.prems(2) by (subst descends.simps) simp
      show ?thesis
      proof (cases "parent_of units u")
        case None
        then have "descends units (parent_of units u) a X = False" for X by (subst descends.simps) simp
        moreover have "\<not> (\<exists>w. (u, w) \<in> (up units)\<^sup>* \<and> unitId w = a)"
          using up_end[OF None] ne by auto
        ultimately show ?thesis using step by simp
      next
        case (Some p)
        have "unvisited unitId units (unitId ` insert u V) < unvisited unitId units (unitId ` V)"
          using False less.prems(2) unvisited_insert[of u units unitId "unitId ` V"] by simp
        moreover have "canonical_row units p" "p \<in> set units"
          using Some parent_canonical parent_of_mem by blast+
        moreover have "\<And>v. v \<in> insert u V \<Longrightarrow> canonical_row units v \<and> unitId v \<noteq> a"
          using less.prems(1,3) ne by blast
        moreover have "\<And>v q. v \<in> insert u V \<Longrightarrow> parent_of units v = Some q \<Longrightarrow> q \<in> insert u V \<or> q = p"
          using less.prems(4) Some by auto
        ultimately have "descends units (Some p) a (unitId ` insert u V) \<longleftrightarrow>
            (\<exists>w. (p, w) \<in> (up units)\<^sup>* \<and> unitId w = a)"
          by (rule less.hyps)
        moreover have "(\<exists>w. (u, w) \<in> (up units)\<^sup>* \<and> unitId w = a) \<longleftrightarrow>
            (\<exists>w. (p, w) \<in> (up units)\<^sup>* \<and> unitId w = a)"
          using up_step[OF less.prems(2) Some] ne by auto
        ultimately show ?thesis using step Some by simp
      qed
    qed
  qed
qed

lemma isDescendantOrSelf_reach:
  "isDescendantOrSelf units i a \<longleftrightarrow>
     (\<exists>u w. unitById units i = Some u \<and> (u, w) \<in> (up units)\<^sup>* \<and> unitId w = a)"
proof (cases "unitById units i")
  case None
  then show ?thesis by (simp add: isDescendantOrSelf_def descends.simps)
next
  case (Some u)
  have "descends units (Some u) a {} \<longleftrightarrow> (\<exists>w. (u, w) \<in> (up units)\<^sup>* \<and> unitId w = a)"
    using descends_iff[where V = "{}" and u = u and a = a and units = units]
      unitById_canonical[OF Some] unitById_Some[OF Some] by simp
  then show ?thesis using Some by (simp add: isDescendantOrSelf_def)
qed

lemma up_canonical: "(u, w) \<in> (up units)\<^sup>* \<Longrightarrow> canonical_row units u \<Longrightarrow> canonical_row units w"
  by (induction rule: rtrancl_induct) (auto simp: up_def intro: parent_canonical)

lemma isDescendantOrSelf_trans:
  assumes "isDescendantOrSelf units a b" and "isDescendantOrSelf units b c"
  shows "isDescendantOrSelf units a c"
proof -
  from assms obtain u w x y where *: "unitById units a = Some u" "(u, w) \<in> (up units)\<^sup>*" "unitId w = b"
      "unitById units b = Some x" "(x, y) \<in> (up units)\<^sup>*" "unitId y = c"
    unfolding isDescendantOrSelf_reach by blast
  then have "canonical_row units w" using unitById_canonical up_canonical by blast
  then have "w = x" using * by (simp add: canonical_row_def)
  with * have "(u, y) \<in> (up units)\<^sup>*" by (meson rtrancl_trans)
  with * show ?thesis unfolding isDescendantOrSelf_reach by blast
qed

lemma resolveDepartmentPath_cases:
  "resolveDepartmentPath units path = [] \<or>
   (\<exists>u \<in> set units. resolveDepartmentPath units path = [unitId u] \<and>
      organizationPathKey (pathFor units (unitId u)) = organizationPathKey path)"
proof (cases "resolveDepartmentPath units path = []")
  case False
  let ?ids = "idsByCanonicalPath units (organizationPathKey path)"
  from False obtain P where r: "resolveDepartmentPath units path = filter P ?ids" and l: "length (filter P ?ids) = 1"
    by (auto simp: resolveDepartmentPath_def Let_def split: if_splits)
  then obtain i where i: "filter P ?ids = [i]" by (cases "filter P ?ids") auto
  then have "i \<in> set ?ids" using list.set_intros(1)[of i "[]"] unfolding i[symmetric] by simp
  with r i show ?thesis by (auto simp: idsByCanonicalPath_def)
qed simp

section \<open>Properties\<close>

text \<open>C20: a department path is resolved to at most one unit, and a member of a unit is a member
  of every unit above it: if the path belongs to \<open>b\<close> and \<open>b\<close> lies under \<open>c\<close>, it
  belongs to \<open>c\<close>, also when the parent links form cycles.\<close>

theorem department_membership_upward:
  assumes "departmentPathBelongsTo units path b" and "isDescendantOrSelf units b c"
  shows "departmentPathBelongsTo units path c \<and> length (resolveDepartmentPath units path) = 1"
proof -
  from assms(1) obtain u where u: "resolveDepartmentPath units path = [u]" "isDescendantOrSelf units u b"
    using resolveDepartmentPath_cases[of units path] by (auto simp: departmentPathBelongsTo_def)
  with isDescendantOrSelf_trans[OF u(2) assms(2)] show ?thesis by (simp add: departmentPathBelongsTo_def)
qed

definition sample_units :: "org_unit list" where
  "sample_units = [\<lparr>unitId = ''a'', unitName = ''Group'', unitParent = None\<rparr>,
     \<lparr>unitId = ''b'', unitName = ''Works'', unitParent = Some ''a''\<rparr>,
     \<lparr>unitId = ''c'', unitName = ''Works'', unitParent = Some ''b''\<rparr>]"

lemma sample_units_facts:
  "departmentPathBelongsTo sample_units [''Group'', '' Works''] ''b'' \<and> isDescendantOrSelf sample_units ''b'' ''a''"
  by code_simp

theorem department_membership_upward_witness:
  "departmentPathBelongsTo sample_units [''Group'', '' Works''] ''a''"
  using department_membership_upward sample_units_facts by blast

text \<open>The walk with its set of visited units decides reachability along parent links, and it
  ends on every table of units.\<close>

theorem isDescendantOrSelf_correct:
  "isDescendantOrSelf units i a \<longleftrightarrow>
     (\<exists>u w. unitById units i = Some u \<and> (u, w) \<in> {(u, p). u \<in> set units \<and> parent_of units u = Some p}\<^sup>* \<and> unitId w = a)"
  using isDescendantOrSelf_reach[of units i a] by (simp add: up_def)

end
