(* ===== verification/KnowledgeScope.thy ===== *)
theory KnowledgeScope
  imports SqlLogic OrganizationIndex KnowledgeContent
begin

text \<open>
  Who may see and change what in the knowledge base:
  \<^verbatim>\<open>apps/api/src/common/filtering/data-scope.ts\<close> (platform data scopes) and
  \<^verbatim>\<open>apps/api/src/modules/knowledge/knowledge.scope.ts\<close> with the column table of
  \<^verbatim>\<open>knowledge.types.ts\<close>.  The tables of one tenant are lists in the record \<open>kb\<close>;
  the tenant conditions of the queries hold throughout.  A clause the code builds is modelled by
  its meaning on a row.  PostgreSQL's collation and its text rendering of numbers, JSON and
  time stamps are parameters (\<open>kb_env\<close>); \<open>page_column\<close> stands for the columns whose
  text is JSON or a time stamp.
\<close>

section \<open>Tables\<close>

datatype subject_type = EVERYONE | USER | ROLE | ORGANIZATION
datatype access_level = VIEWER | EDITOR | FULL_ACCESS

record access_entry =
  subjectType :: subject_type
  subjectId :: "string option"
  accessLevel :: access_level

datatype space_status = SpaceActive | SpaceArchived
datatype page_status = PageDraft | PagePublished | PageArchived | PageTrashed
datatype content_mode = RICH_TEXT | FILE_MODE
datatype file_role = PRIMARY | INLINE | SUPPLEMENTAL
datatype kmode = PublishedMode | WorkingMode | TrashMode

record kspace =
  spId :: string
  spCode :: string
  spName :: string
  spDescription :: string
  spIcon :: string
  spSort :: int
  spStatus :: space_status
  spVersion :: nat
  spCreatedBy :: "string option"

record kpage =
  pgId :: string
  pgSpace :: string
  pgParent :: "string option"
  pgFolder :: "string option"
  pgTitle :: string
  pgSort :: int
  pgContent :: knode
  pgText :: string
  pgHash :: string
  pgMode :: content_mode
  pgDescription :: string
  pgStatus :: page_status
  pgBefore :: "page_status option"
  pgBatch :: "string option"
  pgPublished :: "string option"
  pgRestricted :: bool
  pgSearch :: string
  pgVersion :: nat
  pgCreatedBy :: "string option"

record kversion =
  verId :: string
  verPage :: string
  verNo :: nat
  verTitle :: string
  verContent :: knode
  verText :: string
  verHash :: string
  verTags :: "string list"
  verBreadcrumb :: "(string \<times> string) list"
  verAccess :: "access_entry list list"
  verSearch :: string
  verMode :: content_mode
  verDescription :: string
  verSpace :: string
  verParent :: "string option"
  verFolder :: "string option"
  verBy :: "string option"

record kfolder =
  fdId :: string
  fdSpace :: string
  fdParent :: "string option"
  fdName :: string
  fdSort :: int
  fdActive :: bool
  fdVersion :: nat

record kfile =
  flId :: string
  flPage :: string
  flName :: string
  flKey :: string
  flType :: string
  flSize :: nat
  flSha :: string
  flVersion :: nat

datatype preview_status = PreviewPending | PreviewRunning | PreviewSucceeded | PreviewFailed

record kpreview =
  pvId :: string
  pvFile :: string
  pvSha :: string
  pvStatus :: preview_status
  pvAttempts :: nat
  pvRetries :: nat
  pvError :: "string option"
  pvKey :: "string option"
  pvSize :: "nat option"
  pvLease :: "string option"
  pvUntil :: "int option"

record kupload =
  upActor :: "string option"
  upKey :: string
  upHash :: string
  upPage :: string

record kcleanup =
  clKey :: string
  clBy :: "string option"
  clAttempts :: nat

record kaudit =
  auActor :: "string option"
  auResource :: string
  auRecord :: "string option"
  auAction :: string

record kdirectory =
  dirUsers :: "(string \<times> string list list) list"
  dirUnits :: "org_unit list"
  dirUserRoles :: "(string \<times> string) list"
  dirRoleUnits :: "(string \<times> string) list"
  dirPlainRoles :: "string list"

text \<open>\<open>dirUsers\<close> and \<open>dirUnits\<close> hold the enabled rows; \<open>dirPlainRoles\<close> the roles
  that are not permission groups.\<close>

record kb =
  spaces :: "kspace list"
  pages :: "kpage list"
  versions :: "kversion list"
  folders :: "kfolder list"
  spaceAccess :: "(string \<times> access_entry) list"
  pageAccess :: "(string \<times> access_entry) list"
  pageTags :: "(string \<times> string) list"
  tagNames :: "string list"
  files :: "kfile list"
  pageFiles :: "(string \<times> string \<times> file_role) list"
  versionFiles :: "(string \<times> string \<times> string \<times> file_role) list"
  previews :: "kpreview list"
  uploads :: "kupload list"
  cleanup :: "kcleanup list"
  audits :: "kaudit list"
  directory :: kdirectory

record kb_env =
  env_host :: host
  tenant_hex :: string
  text_less :: "string \<Rightarrow> string \<Rightarrow> bool"
  int_text :: "int \<Rightarrow> string"
  space_column :: "kspace \<Rightarrow> string \<Rightarrow> string option"
  page_column :: "kb \<Rightarrow> kmode \<Rightarrow> kpage \<Rightarrow> string \<Rightarrow> string option"

section \<open>Actors and platform permissions\<close>

record scope_rule =
  fieldKey :: "string option"
  ruleOperator :: "string option"
  ruleValue :: "json option"

record data_scope =
  scopeResource :: string
  scopeKind :: string
  scopeMatch :: "string option"
  scopeActions :: "string list option"
  scopeRules :: "scope_rule list"

record kactor =
  kaUser :: "string option"
  kaName :: string
  kaPermissions :: "string list"
  kaSystemAdmin :: bool
  kaModules :: "string list"
  kaScopes :: "data_scope list"

definition knowledgeAdministrator :: "kactor \<Rightarrow> bool" where
  "knowledgeAdministrator a \<longleftrightarrow>
     kaSystemAdmin a \<or> ''*'' \<in> set (kaPermissions a) \<or> ''knowledge'' \<in> set (kaModules a)"

definition canKnowledge :: "kactor \<Rightarrow> string \<Rightarrow> string \<Rightarrow> bool" where
  "canKnowledge a resource action \<longleftrightarrow>
     knowledgeAdministrator a \<or> resource @ '':*:'' @ action \<in> set (kaPermissions a)"

definition canKnowledgeField :: "kactor \<Rightarrow> string \<Rightarrow> string \<Rightarrow> string \<Rightarrow> bool" where
  "canKnowledgeField a resource field action \<longleftrightarrow>
     knowledgeAdministrator a \<or>
     resource @ '':'' @ (if field = ''folderId'' then ''parentId'' else field) @ '':'' @ action
       \<in> set (kaPermissions a)"

datatype kb_error = KbContent kerr | KbForbidden | KbNotFound | KbConflict nat | KbBad string | KbStorage

definition assertKnowledgeAction :: "kactor \<Rightarrow> string \<Rightarrow> string \<Rightarrow> kb_error + unit" where
  "assertKnowledgeAction a resource action =
     (if canKnowledge a resource action then Inr () else Inl KbForbidden)"

definition assertKnowledgeFields :: "kactor \<Rightarrow> string \<Rightarrow> string list \<Rightarrow> string \<Rightarrow> kb_error + unit" where
  "assertKnowledgeFields a resource fs action =
     (if list_all (\<lambda>f. canKnowledgeField a resource f action) fs then Inr () else Inl KbForbidden)"

section \<open>Platform data scopes\<close>

text \<open>One rule of a custom scope on a row; \<open>cols\<close> gives a field's column value
  (\<open>None\<close> outside: no such column).  An outer \<open>None\<close> result is a rule the code drops.
  The knowledge base passes no numeric and no member-array fields.\<close>

definition scope_value :: "kactor \<Rightarrow> scope_rule \<Rightarrow> json option" where
  "scope_value a r = (if ruleValue r = Some (JStr ''CURRENT_USER'') then map_option JStr (kaUser a)
     else ruleValue r)"

definition scope_strings :: "kb_env \<Rightarrow> json option \<Rightarrow> string list" where
  "scope_strings env v = (case v of
     Some (JArr xs) \<Rightarrow> filter (\<lambda>s. s \<noteq> []) (map (js_string (env_host env)) xs) | _ \<Rightarrow> [])"

definition null_safe :: "string option \<Rightarrow> (string \<Rightarrow> bool) \<Rightarrow> tv" where
  "null_safe t f = map_option f t"

definition comparison :: "kb_env \<Rightarrow> string \<Rightarrow> (string \<Rightarrow> string \<Rightarrow> bool) option" where
  "comparison env op =
     (if op = ''EQ'' then Some (\<lambda>x y. x = y)
      else if op = ''NE'' then Some (\<lambda>x y. x \<noteq> y)
      else if op = ''GT'' then Some (\<lambda>x y. text_less env y x)
      else if op = ''GTE'' then Some (\<lambda>x y. \<not> text_less env x y)
      else if op = ''LT'' then Some (\<lambda>x y. text_less env x y)
      else if op = ''LTE'' then Some (\<lambda>x y. \<not> text_less env y x)
      else None)"

definition scope_rule_clause ::
  "kb_env \<Rightarrow> kactor \<Rightarrow> (string \<Rightarrow> string option option) \<Rightarrow> scope_rule \<Rightarrow> tv option" where
  "scope_rule_clause env a cols r =
     (case cols (case fieldKey r of Some k \<Rightarrow> k | None \<Rightarrow> []) of
        None \<Rightarrow> None
      | Some t \<Rightarrow>
          (let op = (case ruleOperator r of Some s \<Rightarrow> s | None \<Rightarrow> []); v = scope_value a r in
           if op = ''IS_EMPTY'' then Some (Some (case t of None \<Rightarrow> True | Some s \<Rightarrow> btrim s = []))
           else if op = ''IS_NOT_EMPTY'' then Some (Some (case t of None \<Rightarrow> False | Some s \<Rightarrow> btrim s \<noteq> []))
           else if op \<in> set [''IN'', ''NOT_IN''] then
             (let vs = scope_strings env v in
              if vs = [] then Some (Some (op = ''NOT_IN''))
              else Some (null_safe t (\<lambda>s. if op = ''NOT_IN'' then s \<notin> set vs else s \<in> set vs)))
           else case v of
                None \<Rightarrow> None
              | Some JNull \<Rightarrow> None
              | Some j \<Rightarrow>
                  (let s = js_string (env_host env) j in
                   case comparison env op of
                     Some f \<Rightarrow> Some (null_safe t (\<lambda>x. f x s))
                   | None \<Rightarrow>
                       if op \<in> set [''CONTAINS'', ''NOT_CONTAINS'', ''STARTS_WITH''] then
                         (let pattern = (if op = ''STARTS_WITH'' then s @ ''%'' else ''%'' @ s @ ''%'');
                              m = ilike (case t of None \<Rightarrow> [] | Some x \<Rightarrow> x) pattern
                          in Some (Some (if op = ''NOT_CONTAINS'' then \<not> m else m)))
                       else None)))"

definition buildDataScopeClause ::
  "kb_env \<Rightarrow> kactor \<Rightarrow> string \<Rightarrow> string \<Rightarrow> (string \<Rightarrow> string option option) \<Rightarrow> string option \<Rightarrow> tv" where
  "buildDataScopeClause env a resource action cols createdBy =
     (if kaSystemAdmin a \<or> ''*'' \<in> set (kaPermissions a) \<or> ''planning'' \<in> set (kaModules a) then Some True
      else
        (let scopes = filter (\<lambda>s. scopeResource s = resource \<and>
               (case scopeActions s of None \<Rightarrow> True | Some as \<Rightarrow> action \<in> set as)) (kaScopes a) in
         if list_ex (\<lambda>s. scopeKind s \<in> set [''ALL'', ''NONE'']) scopes then Some True
         else
           (let own = (case kaUser a of
                  Some u \<Rightarrow> if list_ex (\<lambda>s. scopeKind s = ''OWN'') scopes
                             then [null_safe createdBy (\<lambda>c. c = u)] else []
                | None \<Rightarrow> []);
                custom = concat (map (\<lambda>s.
                  (let rules = List.map_filter (scope_rule_clause env a cols) (scopeRules s) in
                   if rules = [] then []
                   else [if scopeMatch s = Some ''ANY'' then sql_any rules else sql_all rules]))
                  (filter (\<lambda>s. scopeKind s = ''CUSTOM'') scopes))
            in if own @ custom = [] then Some False else sql_any (own @ custom))))"

text \<open>\<open>knowledgeDataScope\<close>: the module list is emptied, so other modules' administrators
  do not pass.\<close>

definition knowledgeDataScope ::
  "kb_env \<Rightarrow> kactor \<Rightarrow> string \<Rightarrow> string \<Rightarrow> (string \<Rightarrow> string option option) \<Rightarrow> string option \<Rightarrow> tv" where
  "knowledgeDataScope env a resource action cols createdBy =
     (if knowledgeAdministrator a then Some True
      else buildDataScopeClause env (a\<lparr>kaModules := []\<rparr>) resource action cols createdBy)"

section \<open>Membership and access levels\<close>

record membership =
  memberUser :: "string option"
  memberUnits :: "string list"
  memberRoles :: "string list"

definition membership :: "kdirectory \<Rightarrow> kactor \<Rightarrow> membership" where
  "membership d a =
     (case kaUser a of
        None \<Rightarrow> \<lparr>memberUser = None, memberUnits = [], memberRoles = []\<rparr>
      | Some u \<Rightarrow>
          if knowledgeAdministrator a then \<lparr>memberUser = Some u, memberUnits = [], memberRoles = []\<rparr>
          else
            (let found = find (\<lambda>(i, _). i = u) (dirUsers d);
                 paths = (case found of Some (_, ps) \<Rightarrow> ps | None \<Rightarrow> []);
                 org = map unitId (filter (\<lambda>x. list_ex (\<lambda>path. departmentPathBelongsTo (dirUnits d) path (unitId x)) paths)
                         (dirUnits d));
                 direct = map snd (filter (\<lambda>(i, r). i = u \<and> r \<in> set (dirPlainRoles d)) (dirUserRoles d));
                 linked = map fst (filter (\<lambda>(r, o'). r \<in> set (dirPlainRoles d) \<and> o' \<in> set org) (dirRoleUnits d))
             in \<lparr>memberUser = (if found = None then None else Some u), memberUnits = org,
                 memberRoles = js_dedup (direct @ linked)\<rparr>))"

fun accessRank :: "access_level \<Rightarrow> nat" where
  "accessRank VIEWER = 1"
| "accessRank EDITOR = 2"
| "accessRank FULL_ACCESS = 3"

text \<open>The subject test of \<open>effectiveKnowledgeRank\<close>; a missing subject id reads as the empty
  string for units and roles.\<close>

definition entry_applies :: "membership \<Rightarrow> access_entry \<Rightarrow> bool" where
  "entry_applies m e \<longleftrightarrow>
     subjectType e = EVERYONE \<or>
     subjectType e = USER \<and> subjectId e = memberUser m \<or>
     subjectType e = ORGANIZATION \<and> (case subjectId e of Some i \<Rightarrow> i | None \<Rightarrow> []) \<in> set (memberUnits m) \<or>
     subjectType e = ROLE \<and> (case subjectId e of Some i \<Rightarrow> i | None \<Rightarrow> []) \<in> set (memberRoles m)"

definition entries_rank :: "membership \<Rightarrow> access_entry list \<Rightarrow> nat" where
  "entries_rank m es = foldr max (map (\<lambda>e. accessRank (accessLevel e)) (filter (entry_applies m) es)) 0"

definition effectiveKnowledgeRank :: "access_entry list \<Rightarrow> access_entry list list \<Rightarrow> membership \<Rightarrow> nat" where
  "effectiveKnowledgeRank space restrictions m =
     foldr min (map (entries_rank m) restrictions) (entries_rank m space)"

text \<open>The SQL test \<open>matches\<close>: comparisons with a NULL subject or user do not hold.\<close>

definition matches :: "membership \<Rightarrow> access_entry \<Rightarrow> bool" where
  "matches m e \<longleftrightarrow> holds (sql_any
     [Some (subjectType e = EVERYONE),
      sql_and (Some (subjectType e = USER))
        (case (subjectId e, memberUser m) of (Some i, Some u) \<Rightarrow> Some (i = u) | _ \<Rightarrow> None),
      sql_and (Some (subjectType e = ORGANIZATION)) (null_safe (subjectId e) (\<lambda>i. i \<in> set (memberUnits m))),
      sql_and (Some (subjectType e = ROLE)) (null_safe (subjectId e) (\<lambda>i. i \<in> set (memberRoles m)))])"

definition entries_of :: "(string \<times> access_entry) list \<Rightarrow> string \<Rightarrow> access_entry list" where
  "entries_of acl i = map snd (filter (\<lambda>(k, _). k = i) acl)"

text \<open>\<open>COALESCE(max(CASE ...),0)\<close> over the matching entries.\<close>

definition spaceRank :: "kb \<Rightarrow> kactor \<Rightarrow> membership \<Rightarrow> string \<Rightarrow> nat" where
  "spaceRank db a m space =
     (if knowledgeAdministrator a then 3
      else foldr max (map (\<lambda>e. accessRank (accessLevel e)) (filter (matches m) (entries_of (spaceAccess db) space))) 0)"

section \<open>Columns\<close>

definition published_version :: "kb \<Rightarrow> kpage \<Rightarrow> kversion option" where
  "published_version db p = (case pgPublished p of None \<Rightarrow> None
     | Some v \<Rightarrow> find (\<lambda>x. verId x = v \<and> verPage x = pgId p) (versions db))"

fun space_status_text :: "space_status \<Rightarrow> string" where
  "space_status_text SpaceActive = ''ACTIVE''"
| "space_status_text SpaceArchived = ''ARCHIVED''"

fun page_status_text :: "page_status \<Rightarrow> string" where
  "page_status_text PageDraft = ''DRAFT''"
| "page_status_text PagePublished = ''PUBLISHED''"
| "page_status_text PageArchived = ''ARCHIVED''"
| "page_status_text PageTrashed = ''TRASHED''"

fun mode_text :: "content_mode \<Rightarrow> string" where
  "mode_text RICH_TEXT = ''RICH_TEXT''"
| "mode_text FILE_MODE = ''FILE''"

definition spaceColumns :: "kb_env \<Rightarrow> kspace \<Rightarrow> string \<Rightarrow> string option option" where
  "spaceColumns env s k =
     (if k = ''id'' then Some (Some (spId s))
      else if k = ''version'' then Some (Some (int_text env (int (spVersion s))))
      else if k = ''code'' then Some (Some (spCode s))
      else if k = ''name'' then Some (Some (spName s))
      else if k = ''description'' then Some (Some (spDescription s))
      else if k = ''icon'' then Some (Some (spIcon s))
      else if k = ''status'' then Some (Some (space_status_text (spStatus s)))
      else if k = ''sortOrder'' then Some (Some (int_text env (spSort s)))
      else if k = ''createdBy'' then Some (spCreatedBy s)
      else if k \<in> set [''createdAt'', ''updatedBy'', ''updatedAt''] then Some (space_column env s k)
      else None)"

text \<open>\<open>knowledgeExpressions\<close>: in published mode the columns of the published version, all
  NULL when there is none.\<close>

definition pageColumns :: "kb_env \<Rightarrow> kb \<Rightarrow> kmode \<Rightarrow> kpage \<Rightarrow> string \<Rightarrow> string option option" where
  "pageColumns env db mode p k =
     (let pub = published_version db p;
          pick = (\<lambda>w f. if mode = PublishedMode then Option.bind pub f else w)
      in
      if k = ''id'' then Some (Some (pgId p))
      else if k = ''version'' then Some (Some (int_text env (int (pgVersion p))))
      else if k = ''spaceId'' then Some (pick (Some (pgSpace p)) (\<lambda>v. Some (verSpace v)))
      else if k = ''parentId'' then Some (pick (pgParent p) verParent)
      else if k = ''folderId'' then Some (pick (pgFolder p) verFolder)
      else if k = ''contentMode'' then Some (pick (Some (mode_text (pgMode p))) (\<lambda>v. Some (mode_text (verMode v))))
      else if k = ''description'' then Some (pick (Some (pgDescription p)) (\<lambda>v. Some (verDescription v)))
      else if k = ''title'' then Some (pick (Some (pgTitle p)) (\<lambda>v. Some (verTitle v)))
      else if k = ''contentText'' then Some (pick (Some (pgText p)) (\<lambda>v. Some (verText v)))
      else if k = ''slug'' then Some (Some (''page-'' @ pgId p))
      else if k = ''status'' then Some (Some (page_status_text (pgStatus p)))
      else if k = ''sortOrder'' then Some (Some (int_text env (pgSort p)))
      else if k = ''createdBy'' then Some (pgCreatedBy p)
      else if k = ''publishedVersion'' then Some (map_option (\<lambda>v. int_text env (int (verNo v))) pub)
      else if k = ''publishedBy'' then Some (Option.bind pub verBy)
      else if k \<in> set [''content'', ''tags'', ''attachmentIds'', ''createdAt'', ''updatedAt'', ''updatedBy'', ''publishedAt'']
        then Some (page_column env db mode p k)
      else None)"

section \<open>Visibility\<close>

text \<open>A page's place in a mode: the working one, or that of its published version.\<close>

definition place_parent :: "kb \<Rightarrow> kmode \<Rightarrow> kpage \<Rightarrow> string option" where
  "place_parent db mode p = (if mode = PublishedMode
     then Option.bind (published_version db p) verParent else pgParent p)"

definition place_space :: "kb \<Rightarrow> kmode \<Rightarrow> kpage \<Rightarrow> string option" where
  "place_space db mode p = (if mode = PublishedMode
     then map_option verSpace (published_version db p) else Some (pgSpace p))"

text \<open>The recursive query \<open>chain\<close>: the page and its ancestors in the mode; outside published
  mode an ancestor in another space ends it.\<close>

definition chain_next :: "kb \<Rightarrow> kmode \<Rightarrow> kpage \<Rightarrow> kpage option" where
  "chain_next db mode p = (case place_parent db mode p of
     None \<Rightarrow> None
   | Some i \<Rightarrow> (case lookup_row pgId (pages db) i of
       None \<Rightarrow> None
     | Some q \<Rightarrow> if mode \<noteq> PublishedMode \<and> pgSpace q \<noteq> pgSpace p then None else Some q))"

definition chain :: "kb \<Rightarrow> kmode \<Rightarrow> kpage \<Rightarrow> kpage list" where
  "chain db mode p = climb pgId (chain_next db mode) (pages db) (Some p) {}"

definition space_row :: "kb \<Rightarrow> string option \<Rightarrow> kspace option" where
  "space_row db i = (case i of None \<Rightarrow> None | Some k \<Rightarrow> lookup_row spId (spaces db) k)"

definition spaceScope :: "kb_env \<Rightarrow> kactor \<Rightarrow> string \<Rightarrow> kspace \<Rightarrow> tv" where
  "spaceScope env a action s = knowledgeDataScope env a ''knowledge-spaces'' action (spaceColumns env s) (spCreatedBy s)"

definition pageScope :: "kb_env \<Rightarrow> kb \<Rightarrow> kactor \<Rightarrow> kmode \<Rightarrow> string \<Rightarrow> kpage \<Rightarrow> tv" where
  "pageScope env db a mode action p =
     knowledgeDataScope env a ''knowledge-pages'' action (pageColumns env db mode p) (pgCreatedBy p)"

text \<open>\<open>restriction\<close>: the chain element is restricted and none of its entries lets the actor
  in at the level asked for.\<close>

definition restriction :: "kb \<Rightarrow> kactor \<Rightarrow> membership \<Rightarrow> nat \<Rightarrow> kpage \<Rightarrow> bool" where
  "restriction db a m minimum c \<longleftrightarrow> \<not> knowledgeAdministrator a \<and> pgRestricted c \<and>
     \<not> list_ex (\<lambda>e. minimum \<le> accessRank (accessLevel e) \<and> matches m e) (entries_of (pageAccess db) (pgId c))"

definition blocked_state :: "kmode \<Rightarrow> kpage \<Rightarrow> bool" where
  "blocked_state mode c = (case mode of
     PublishedMode \<Rightarrow> pgStatus c \<notin> {PagePublished, PageArchived} \<or> pgPublished c = None
   | TrashMode \<Rightarrow> False
   | WorkingMode \<Rightarrow> pgStatus c = PageTrashed)"

definition space_open :: "kb_env \<Rightarrow> kb \<Rightarrow> kactor \<Rightarrow> membership \<Rightarrow> kmode \<Rightarrow> nat \<Rightarrow> string option \<Rightarrow> bool" where
  "space_open env db a m mode minimum i = (case space_row db i of
     None \<Rightarrow> False
   | Some s \<Rightarrow> holds (spaceScope env a ''read'' s) \<and> minimum \<le> spaceRank db a m (spId s) \<and>
       (mode = TrashMode \<or> spStatus s = SpaceActive))"

text \<open>An element of the chain that hides the page.  The scope test is the SQL
  \<open>NOT (scope)\<close>: it does not hold when the scope is NULL.\<close>

definition hides :: "kb_env \<Rightarrow> kb \<Rightarrow> kactor \<Rightarrow> membership \<Rightarrow> kmode \<Rightarrow> nat \<Rightarrow> kpage \<Rightarrow> bool" where
  "hides env db a m mode minimum c \<longleftrightarrow>
     restriction db a m minimum c \<or> blocked_state mode c \<or>
     holds (sql_not (pageScope env db a mode ''read'' c)) \<or>
     mode = PublishedMode \<and> \<not> space_open env db a m mode minimum (place_space db mode c)"

definition clause_minimum :: "kmode \<Rightarrow> string \<Rightarrow> nat" where
  "clause_minimum mode action = (case mode of TrashMode \<Rightarrow> 3 | WorkingMode \<Rightarrow> 2
     | PublishedMode \<Rightarrow> if action \<in> set [''read'', ''export''] then 1 else 2)"

definition visible :: "kb_env \<Rightarrow> kb \<Rightarrow> kactor \<Rightarrow> kmode \<Rightarrow> string \<Rightarrow> nat \<Rightarrow> kpage \<Rightarrow> bool" where
  "visible env db a mode action minimum p =
     (let m = membership (directory db) a in
      holds (pageScope env db a mode action p) \<and>
      space_open env db a m mode minimum (place_space db mode p) \<and>
      \<not> list_ex (hides env db a m mode minimum) (chain db mode p) \<and>
      (mode = TrashMode \<longrightarrow> pgStatus p = PageTrashed) \<and>
      (action = ''export'' \<longrightarrow> holds (pageScope env db a mode ''read'' p)))"

text \<open>The assertions \<open>clause\<close> makes before it builds anything.\<close>

definition clause_allowed :: "kactor \<Rightarrow> kmode \<Rightarrow> string \<Rightarrow> kb_error + unit" where
  "clause_allowed a mode action =
     bindE (assertKnowledgeAction a ''knowledge-pages'' action) (\<lambda>_.
     bindE (assertKnowledgeAction a ''knowledge-spaces'' ''read'') (\<lambda>_.
       if mode = WorkingMode \<and> action = ''read'' then assertKnowledgeAction a ''knowledge-pages'' ''update''
       else Inr ()))"

definition spaceClause :: "kb_env \<Rightarrow> kb \<Rightarrow> kactor \<Rightarrow> string \<Rightarrow> nat \<Rightarrow> kspace \<Rightarrow> bool" where
  "spaceClause env db a action minimum s \<longleftrightarrow>
     holds (spaceScope env a action s) \<and>
     minimum \<le> spaceRank db a (membership (directory db) a) (spId s)"

definition ancestors :: "kb \<Rightarrow> kmode \<Rightarrow> string \<Rightarrow> kpage list" where
  "ancestors db mode i = (case lookup_row pgId (pages db) i of
     None \<Rightarrow> [] | Some p \<Rightarrow> rev (chain db mode p))"

text \<open>\<open>historicalClause\<close>: every group of the access snapshot has an entry for the actor.\<close>

definition historicalClause :: "kactor \<Rightarrow> membership \<Rightarrow> access_entry list list \<Rightarrow> bool" where
  "historicalClause a m snapshot \<longleftrightarrow>
     knowledgeAdministrator a \<or> list_all (\<lambda>g. list_ex (matches m) g) snapshot"

end
