(* ===== verification/KnowledgeSpaces.thy ===== *)
theory KnowledgeSpaces
  imports KnowledgeScope
begin

text \<open>
  \<^verbatim>\<open>apps/api/src/modules/knowledge/knowledge.application.service.ts\<close>, first part: the
  input checks every command shares, the locks on spaces and pages, the access lists, and the
  commands on spaces.  A command runs under the tenant's advisory lock, so it is one atomic
  function: an error leaves the tables as they were.  Identifiers from a request are compared
  as strings by the code and case-insensitively by the database (\<open>dbid\<close>).
\<close>

section \<open>Input checks\<close>

definition liftK :: "kerr + 'a \<Rightarrow> kb_error + 'a" where
  "liftK m = (case m of Inl e \<Rightarrow> Inl (KbContent e) | Inr x \<Rightarrow> Inr x)"

lemma liftK_Inr [simp]: "liftK m = Inr x \<longleftrightarrow> m = Inr x"
  by (cases m) (simp_all add: liftK_def)

definition require :: "bool \<Rightarrow> string \<Rightarrow> kb_error + unit" where
  "require b msg = (if b then Inr () else Inl (KbBad msg))"

lemma require_Inr [simp]: "require b msg = Inr u \<longleftrightarrow> b"
  by (simp add: require_def)

definition dbid :: "string \<Rightarrow> string" where
  "dbid i = lower i"

definition keys_check :: "json \<Rightarrow> string list \<Rightarrow> kb_error + (string \<times> json) list" where
  "keys_check input allowed = (case input of
     JObj kvs \<Rightarrow> if list_ex (\<lambda>k. k \<notin> set allowed) (jkeys kvs) then Inl (KbBad ''unsupported field'') else Inr kvs
   | _ \<Rightarrow> Inl (KbBad ''unsupported field''))"

definition version_number :: "nat \<Rightarrow> rat option \<Rightarrow> kb_error + unit" where
  "version_number current v = (case v of
     None \<Rightarrow> Inl (KbBad ''missing version'')
   | Some n \<Rightarrow>
       if \<not> rat_is_int n \<or> n < 1 then Inl (KbBad ''missing version'')
       else if n \<noteq> of_nat current then Inl (KbConflict current) else Inr ())"

definition version_check :: "nat \<Rightarrow> json option \<Rightarrow> kb_error + unit" where
  "version_check current expected =
     (case expected of
        Some (JNum n) \<Rightarrow> version_number current (Some n)
      | Some (JStr s) \<Rightarrow> version_number current (string_number s)
      | _ \<Rightarrow> Inl (KbBad ''missing version''))"

text \<open>\<open>sort(value = 0)\<close>.\<close>

definition sort_check :: "json option \<Rightarrow> kb_error + int" where
  "sort_check v = (case v of
     None \<Rightarrow> Inr 0
   | Some (JNum n) \<Rightarrow> if rat_is_int n \<and> \<bar>n\<bar> \<le> 1000000 then Inr \<lfloor>n\<rfloor> else Inl (KbBad ''invalid order'')
   | _ \<Rightarrow> Inl (KbBad ''invalid order''))"

definition add_audit :: "kactor \<Rightarrow> string \<Rightarrow> string option \<Rightarrow> string \<Rightarrow> kb \<Rightarrow> kb" where
  "add_audit a resource i action db = db\<lparr>audits := audits db @
     [\<lparr>auActor = kaUser a, auResource = resource, auRecord = i, auAction = ''knowledge.'' @ action\<rparr>]\<rparr>"

section \<open>Locks\<close>

definition lockSpace :: "kb_env \<Rightarrow> string \<Rightarrow> kactor \<Rightarrow> string \<Rightarrow> nat \<Rightarrow> kb \<Rightarrow> kb_error + kspace" where
  "lockSpace env i a action minimum db =
     bindE (liftK (knowledgeId (Some (JStr i)))) (\<lambda>_.
     bindE (assertKnowledgeAction a ''knowledge-spaces'' action) (\<lambda>_.
       case lookup_row spId (spaces db) (dbid i) of
         None \<Rightarrow> Inl KbNotFound
       | Some s \<Rightarrow> if spaceClause env db a action minimum s then Inr s else Inl KbNotFound))"

definition lockPage :: "kb_env \<Rightarrow> string \<Rightarrow> kactor \<Rightarrow> string \<Rightarrow> nat \<Rightarrow> kmode \<Rightarrow> kb \<Rightarrow> kb_error + kpage" where
  "lockPage env i a action minimum mode db =
     bindE (liftK (knowledgeId (Some (JStr i)))) (\<lambda>_.
     bindE (clause_allowed a mode action) (\<lambda>_.
       case lookup_row pgId (pages db) (dbid i) of
         None \<Rightarrow> Inl KbNotFound
       | Some p \<Rightarrow> if visible env db a mode action minimum p then Inr p else Inl KbNotFound))"

text \<open>All the pages of a list are in the clause: the query returns as many rows as ids.\<close>

definition all_visible :: "kb_env \<Rightarrow> kb \<Rightarrow> kactor \<Rightarrow> kmode \<Rightarrow> string \<Rightarrow> nat \<Rightarrow> string list \<Rightarrow> kb_error + bool" where
  "all_visible env db a mode action minimum ids =
     bindE (clause_allowed a mode action) (\<lambda>_. Inr (length (filter
       (\<lambda>p. pgId p \<in> set ids \<and> visible env db a mode action minimum p) (pages db)) = length ids))"

definition page_descendants :: "kb \<Rightarrow> string \<Rightarrow> kpage list" where
  "page_descendants db i = descendants_of pgId pgParent (pages db) i"

definition validateKnowledgeFolder :: "kb \<Rightarrow> string \<Rightarrow> json option \<Rightarrow> kb_error + string option" where
  "validateKnowledgeFolder db space v =
     (if nullish v \<or> v = Some (JStr []) then Inr None
      else bindE (liftK (knowledgeId v)) (\<lambda>i.
        if list_ex (\<lambda>f. fdId f = dbid i \<and> fdSpace f = dbid space \<and> fdActive f) (folders db)
        then Inr (Some i) else Inl (KbBad ''folder not usable'')))"

definition folder_next :: "kb \<Rightarrow> string \<Rightarrow> kfolder \<Rightarrow> kfolder option" where
  "folder_next db space f = (case fdParent f of None \<Rightarrow> None
     | Some i \<Rightarrow> lookup_row fdId (filter (\<lambda>g. fdSpace g = space) (folders db)) i)"

definition knowledgeFolderBreadcrumb :: "kb \<Rightarrow> string \<Rightarrow> string option \<Rightarrow> (string \<times> string) list" where
  "knowledgeFolderBreadcrumb db space folder =
     (let start = (case folder of None \<Rightarrow> None
            | Some i \<Rightarrow> lookup_row fdId (filter (\<lambda>g. fdSpace g = space) (folders db)) i)
      in map (\<lambda>f. (fdId f, fdName f)) (rev (climb fdId (folder_next db space) (folders db) start {})))"

section \<open>Access lists\<close>

definition subject_of_text :: "json option \<Rightarrow> subject_type option" where
  "subject_of_text v = (case v of
     Some (JStr s) \<Rightarrow>
       if s = ''ALL'' then Some EVERYONE else if s = ''USER'' then Some USER
       else if s = ''ROLE'' then Some ROLE else if s = ''ORGANIZATION'' then Some ORGANIZATION else None
   | _ \<Rightarrow> None)"

definition level_of_text :: "json option \<Rightarrow> access_level option" where
  "level_of_text v = (case v of
     Some (JStr s) \<Rightarrow>
       if s = ''VIEWER'' then Some VIEWER else if s = ''EDITOR'' then Some EDITOR
       else if s = ''FULL_ACCESS'' then Some FULL_ACCESS else None
   | _ \<Rightarrow> None)"

definition accessEntry :: "json \<Rightarrow> kb_error + access_entry" where
  "accessEntry raw = (case raw of
     JObj kvs \<Rightarrow>
       (case (subject_of_text (jget kvs ''subjectType''), level_of_text (jget kvs ''accessLevel'')) of
          (Some t, Some l) \<Rightarrow>
            if t = EVERYONE then Inr \<lparr>subjectType = t, subjectId = None, accessLevel = l\<rparr>
            else bindE (liftK (knowledgeId (jget kvs ''subjectId'')))
                   (\<lambda>i. Inr \<lparr>subjectType = t, subjectId = Some i, accessLevel = l\<rparr>)
        | _ \<Rightarrow> Inl (KbBad ''invalid member''))
   | _ \<Rightarrow> Inl (KbBad ''invalid member''))"

fun access_loop :: "json list \<Rightarrow> access_entry list \<Rightarrow> kb_error + access_entry list" where
  "access_loop [] acc = Inr acc"
| "access_loop (raw # rest) acc =
     bindE (accessEntry raw) (\<lambda>e.
       if list_ex (\<lambda>x. subjectType x = subjectType e \<and> subjectId x = subjectId e) acc
       then Inl (KbBad ''duplicate member'') else access_loop rest (acc @ [e]))"

definition valid_subjects :: "kdirectory \<Rightarrow> subject_type \<Rightarrow> string list" where
  "valid_subjects d t = (case t of
     USER \<Rightarrow> map fst (dirUsers d) | ROLE \<Rightarrow> dirPlainRoles d
   | ORGANIZATION \<Rightarrow> map unitId (dirUnits d) | EVERYONE \<Rightarrow> [])"

definition subjects_exist :: "kdirectory \<Rightarrow> access_entry list \<Rightarrow> subject_type \<Rightarrow> bool" where
  "subjects_exist d es t =
     (let ids = List.map_filter subjectId (filter (\<lambda>e. subjectType e = t) es)
      in ids = [] \<or> length (filter (\<lambda>i. i \<in> set (map dbid ids)) (valid_subjects d t)) = length ids)"

definition accessEntries :: "kb \<Rightarrow> json option \<Rightarrow> kb_error + access_entry list" where
  "accessEntries db v = (case v of
     Some (JArr xs) \<Rightarrow>
       if 200 < length xs then Inl (KbBad ''member list'')
       else bindE (access_loop xs []) (\<lambda>es.
         if list_all (subjects_exist (directory db) es) [USER, ROLE, ORGANIZATION] then Inr es
         else Inl (KbBad ''member does not exist''))
   | _ \<Rightarrow> Inl (KbBad ''member list''))"

definition stored_entry :: "access_entry \<Rightarrow> access_entry" where
  "stored_entry e = e\<lparr>subjectId := map_option dbid (subjectId e)\<rparr>"

section \<open>The search projection\<close>

definition concat_ws :: "string \<Rightarrow> string option list \<Rightarrow> string" where
  "concat_ws sep parts = js_join sep (List.map_filter id parts)"

definition string_agg :: "string \<Rightarrow> string list \<Rightarrow> string option" where
  "string_agg sep xs = (if xs = [] then None else Some (js_join sep xs))"

definition published_next :: "kb \<Rightarrow> kpage \<Rightarrow> kpage option" where
  "published_next db p = (case place_parent db PublishedMode p of
     None \<Rightarrow> None | Some i \<Rightarrow> lookup_row pgId (pages db) i)"

definition published_from :: "kb \<Rightarrow> string option \<Rightarrow> kpage list" where
  "published_from db i = (case i of None \<Rightarrow> []
     | Some k \<Rightarrow> climb pgId (published_next db) (pages db) (lookup_row pgId (pages db) k) {})"

definition version_file_names :: "kb \<Rightarrow> string \<Rightarrow> string list" where
  "version_file_names db v = List.map_filter
     (\<lambda>(pg, ver, fl, role). if ver = v \<and> role = PRIMARY then map_option flName (lookup_row flId (files db) fl) else None)
     (versionFiles db)"

text \<open>Rows of an aggregate without ORDER BY are taken in table order.\<close>

definition search_text :: "kb \<Rightarrow> kversion \<Rightarrow> kspace \<Rightarrow> string" where
  "search_text db v s = concat_ws [CHR 0x0A]
     [Some (verTitle v), Some (verText v), Some (verDescription v),
      string_agg [CHR 0x0A] (version_file_names db (verId v)), string_agg [CHR 0x0A] (verTags v), Some (spName s),
      string_agg [CHR 0x0A] (map snd (knowledgeFolderBreadcrumb db (verSpace v) (verFolder v))),
      string_agg [CHR 0x0A] (List.map_filter (\<lambda>p. map_option verTitle (published_version db p))
        (published_from db (verParent v)))]"

definition search_target :: "kb \<Rightarrow> string option \<Rightarrow> string option \<Rightarrow> kpage \<Rightarrow> bool" where
  "search_target db page space p \<longleftrightarrow>
     (case page of None \<Rightarrow> True | Some i \<Rightarrow> pgId p \<in> set (map pgId (page_descendants db i))) \<and>
     (case space of None \<Rightarrow> True
      | Some s \<Rightarrow> pgSpace p = s \<or> (case published_version db p of Some v \<Rightarrow> verSpace v = s | None \<Rightarrow> False))"

definition rebuildSearch :: "string option \<Rightarrow> string option \<Rightarrow> kb \<Rightarrow> kb" where
  "rebuildSearch page space db = db\<lparr>pages := map (\<lambda>p.
     if search_target db page space p
     then (case published_version db p of
             None \<Rightarrow> p
           | Some v \<Rightarrow> (case lookup_row spId (spaces db) (verSpace v) of
               None \<Rightarrow> p | Some s \<Rightarrow> p\<lparr>pgSearch := search_text db v s\<rparr>))
     else p) (pages db)\<rparr>"

section \<open>Commands on spaces\<close>

definition spaceFields :: "string list" where
  "spaceFields = [''code'', ''name'', ''description'', ''icon'', ''sortOrder'', ''status'']"

definition input_or :: "(string \<times> json) list \<Rightarrow> string \<Rightarrow> json \<Rightarrow> json" where
  "input_or kvs k d = coalesce (jget kvs k) d"

definition nextOrder :: "kspace list \<Rightarrow> int" where
  "nextOrder rows = (if rows = [] then 0 else Max (set (map spSort rows))) + 10"

definition createSpace :: "kb_env \<Rightarrow> string \<Rightarrow> json \<Rightarrow> kactor \<Rightarrow> kb \<Rightarrow> kb_error + (string \<times> nat) \<times> kb" where
  "createSpace env i input a db =
     bindE (assertKnowledgeAction a ''knowledge-spaces'' ''create'') (\<lambda>_.
     bindE (keys_check input [''name'', ''description'', ''icon'', ''sortOrder'']) (\<lambda>kvs.
     bindE (assertKnowledgeFields a ''knowledge-spaces'' (jkeys kvs) ''update'') (\<lambda>_.
     bindE (liftK (knowledgeText (jget kvs ''name'') 100 True)) (\<lambda>name.
     bindE (liftK (knowledgeText (jget kvs ''description'') 2000 False)) (\<lambda>descr.
     bindE (liftK (knowledgeText (Some (input_or kvs ''icon'' (JStr ''book''))) 50 False)) (\<lambda>icon.
     bindE (sort_check (Some (input_or kvs ''sortOrder'' (JNum (of_int (nextOrder (spaces db))))))) (\<lambda>order.
     let code = ''SPACE_'' @ filter (\<lambda>c. c \<noteq> CHR ''-'') i;
         row = \<lparr>spId = i, spCode = code, spName = name, spDescription = descr, spIcon = icon, spSort = order,
                spStatus = SpaceActive, spVersion = 1, spCreatedBy = kaUser a\<rparr>;
         db1 = db\<lparr>spaces := spaces db @ [row],
                  spaceAccess := spaceAccess db @ (case kaUser a of None \<Rightarrow> []
                    | Some u \<Rightarrow> [(i, \<lparr>subjectType = USER, subjectId = Some u, accessLevel = FULL_ACCESS\<rparr>)])\<rparr>
     in bindE (require (code \<notin> set (map spCode (spaces db))) ''duplicate'') (\<lambda>_.
        bindE (require (holds (spaceScope env a ''create'' row)) ''outside the data scope'') (\<lambda>_.
          Inr ((i, 1), add_audit a ''knowledge-spaces'' (Some i) ''space.created'' db1))))))))))"

definition code_char :: "char \<Rightarrow> bool" where
  "code_char c \<longleftrightarrow> c \<in> set ''ABCDEFGHIJKLMNOPQRSTUVWXYZabcdefghijklmnopqrstuvwxyz0123456789_-''"

definition space_status_of :: "json \<Rightarrow> kb_error + space_status" where
  "space_status_of v =
     (if v = JStr ''ACTIVE'' then Inr SpaceActive
      else if v = JStr ''ARCHIVED'' then Inr SpaceArchived else Inl (KbBad ''invalid status''))"

definition set_space :: "kspace \<Rightarrow> kb \<Rightarrow> kb" where
  "set_space s db = db\<lparr>spaces := map (\<lambda>x. if spId x = spId s then s else x) (spaces db)\<rparr>"

definition merged :: "(string \<times> json) list \<Rightarrow> string \<Rightarrow> json \<Rightarrow> json" where
  "merged kvs k old = (case jget kvs k of Some v \<Rightarrow> v | None \<Rightarrow> old)"

definition updateSpace :: "kb_env \<Rightarrow> string \<Rightarrow> json \<Rightarrow> kactor \<Rightarrow> kb \<Rightarrow> kb_error + (string \<times> nat) \<times> kb" where
  "updateSpace env i input a db =
     bindE (keys_check input (spaceFields @ [''expectedVersion''])) (\<lambda>kvs.
     bindE (assertKnowledgeFields a ''knowledge-spaces'' (filter (\<lambda>k. k \<noteq> ''expectedVersion'') (jkeys kvs)) ''update'') (\<lambda>_.
     bindE (lockSpace env i a ''update'' 3 db) (\<lambda>row.
     bindE (version_check (spVersion row) (jget kvs ''expectedVersion'')) (\<lambda>_.
     bindE (liftK (knowledgeText (Some (merged kvs ''code'' (JStr (spCode row)))) 64 True)) (\<lambda>code.
     bindE (require (list_all code_char code) ''invalid code'') (\<lambda>_.
     bindE (space_status_of (merged kvs ''status'' (JStr (space_status_text (spStatus row))))) (\<lambda>st.
     bindE (liftK (knowledgeText (Some (merged kvs ''name'' (JStr (spName row)))) 100 True)) (\<lambda>name.
     bindE (liftK (knowledgeText (Some (merged kvs ''description'' (JStr (spDescription row)))) 2000 False)) (\<lambda>descr.
     bindE (liftK (knowledgeText (Some (merged kvs ''icon'' (JStr (spIcon row)))) 50 False)) (\<lambda>icon.
     bindE (sort_check (Some (merged kvs ''sortOrder'' (JNum (of_int (spSort row)))))) (\<lambda>order.
     bindE (require (code \<notin> set (map spCode (filter (\<lambda>s. spId s \<noteq> spId row) (spaces db)))) ''duplicate'') (\<lambda>_.
     let row1 = row\<lparr>spCode := code, spName := name, spDescription := descr, spIcon := icon, spSort := order,
                    spStatus := st, spVersion := spVersion row + 1\<rparr>;
         db1 = set_space row1 db;
         db2 = (if ''name'' \<in> set (jkeys kvs) then rebuildSearch None (Some (spId row)) db1 else db1)
     in Inr ((i, spVersion row + 1), add_audit a ''knowledge-spaces'' (Some (spId row)) ''space.updated'' db2)))))))))))))"

definition archiveSpace :: "kb_env \<Rightarrow> string \<Rightarrow> json \<Rightarrow> kactor \<Rightarrow> kb \<Rightarrow> kb_error + (string \<times> nat) \<times> kb" where
  "archiveSpace env i input a db =
     bindE (keys_check input [''expectedVersion'']) (\<lambda>kvs.
     bindE (assertKnowledgeFields a ''knowledge-spaces'' [''status''] ''update'') (\<lambda>_.
     bindE (lockSpace env i a ''delete'' 3 db) (\<lambda>row.
     bindE (version_check (spVersion row) (jget kvs ''expectedVersion'')) (\<lambda>_.
       Inr ((i, spVersion row + 1),
         add_audit a ''knowledge-spaces'' (Some (spId row)) ''space.archived''
           (set_space (row\<lparr>spStatus := SpaceArchived, spVersion := spVersion row + 1\<rparr>) db))))))"

definition set_page :: "kpage \<Rightarrow> kb \<Rightarrow> kb" where
  "set_page p db = db\<lparr>pages := map (\<lambda>x. if pgId x = pgId p then p else x) (pages db)\<rparr>"

definition setSpaceAccess :: "kb_env \<Rightarrow> string \<Rightarrow> json \<Rightarrow> kactor \<Rightarrow> kb \<Rightarrow> kb_error + (string \<times> nat) \<times> kb" where
  "setSpaceAccess env i input a db =
     bindE (keys_check input [''entries'', ''restricted'', ''expectedVersion'']) (\<lambda>kvs.
     bindE (assertKnowledgeFields a ''knowledge-spaces'' [''access''] ''update'') (\<lambda>_.
     bindE (lockSpace env i a ''update'' 3 db) (\<lambda>row.
     bindE (version_check (spVersion row) (jget kvs ''expectedVersion'')) (\<lambda>_.
     bindE (accessEntries db (jget kvs ''entries'')) (\<lambda>es.
     let db1 = db\<lparr>spaceAccess := filter (\<lambda>(k, _). k \<noteq> spId row) (spaceAccess db) @
                    map (\<lambda>e. (spId row, stored_entry e)) es\<rparr>
     in Inr ((i, spVersion row + 1),
          add_audit a ''knowledge-spaces'' (Some (spId row)) ''space.access_changed''
            (set_space (row\<lparr>spVersion := spVersion row + 1\<rparr>) db1)))))))"

definition setPageAccess :: "kb_env \<Rightarrow> string \<Rightarrow> json \<Rightarrow> kactor \<Rightarrow> kb \<Rightarrow> kb_error + (string \<times> nat) \<times> kb" where
  "setPageAccess env i input a db =
     bindE (keys_check input [''entries'', ''restricted'', ''expectedVersion'']) (\<lambda>kvs.
     bindE (assertKnowledgeFields a ''knowledge-pages'' [''access''] ''update'') (\<lambda>_.
     bindE (lockPage env i a ''update'' 3 WorkingMode db) (\<lambda>row.
     bindE (version_check (pgVersion row) (jget kvs ''expectedVersion'')) (\<lambda>_.
     bindE (accessEntries db (jget kvs ''entries'')) (\<lambda>es.
       case jget kvs ''restricted'' of
         Some (JBool b) \<Rightarrow>
           (let db1 = db\<lparr>pageAccess := filter (\<lambda>(k, _). k \<noteq> pgId row) (pageAccess db) @
                      (if b then map (\<lambda>e. (pgId row, stored_entry e)) es else [])\<rparr>
            in Inr ((i, pgVersion row + 1),
                 add_audit a ''knowledge-pages'' (Some (pgId row)) ''page.access_changed''
                   (set_page (row\<lparr>pgRestricted := b, pgVersion := pgVersion row + 1\<rparr>) db1)))
       | _ \<Rightarrow> Inl (KbBad ''say whether access is restricted''))))))"

end
