(* ===== verification/KnowledgePages.thy ===== *)
theory KnowledgePages
  imports KnowledgeSpaces
begin

text \<open>
  \<^verbatim>\<open>apps/api/src/modules/knowledge/knowledge.application.service.ts\<close>, second part: the
  commands on pages (create, edit, publish, move, archive, trash, restore, purge).  The guard of
  the page table, the trigger \<open>knowledge2_check_tree\<close> of
  \<^verbatim>\<open>migrations/1722920085000-Knowledge2SpacePageModel.ts\<close>, is \<open>tree_guard\<close>; fresh ids
  that the code generates are arguments.
\<close>

definition pageFields :: "string list" where
  "pageFields = [''title'', ''content'', ''tags'', ''sortOrder'', ''description'']"

definition empty_doc :: json where
  "empty_doc = JObj [(''type'', JStr ''doc''), (''content'', JArr [])]"

definition optional_id :: "json option \<Rightarrow> kb_error + string option" where
  "optional_id v = (if nullish v then Inr None else bindE (liftK (knowledgeId v)) (\<lambda>i. Inr (Some i)))"

text \<open>The trigger: the new parent's ancestors must not contain the page.\<close>

definition parent_next :: "kpage list \<Rightarrow> kpage \<Rightarrow> kpage option" where
  "parent_next rows p = (case pgParent p of None \<Rightarrow> None | Some i \<Rightarrow> lookup_row pgId rows i)"

definition tree_guard :: "kpage list \<Rightarrow> kpage \<Rightarrow> kb_error + unit" where
  "tree_guard rows p = (case pgParent p of
     None \<Rightarrow> Inr ()
   | Some i \<Rightarrow> require (pgId p \<notin> set (map pgId (climb pgId (parent_next rows) rows (lookup_row pgId rows i) {})))
       ''tree structure'')"

definition set_tags :: "string \<Rightarrow> string list \<Rightarrow> kb \<Rightarrow> kb" where
  "set_tags i tags db = db\<lparr>pageTags := filter (\<lambda>(k, _). k \<noteq> i) (pageTags db) @ map (\<lambda>t. (i, t)) tags,
     tagNames := tagNames db @ filter (\<lambda>t. t \<notin> set (tagNames db)) tags\<rparr>"

definition page_tag_names :: "kb \<Rightarrow> string \<Rightarrow> string list" where
  "page_tag_names db i = sort (map snd (filter (\<lambda>(k, _). k = i) (pageTags db)))"

definition image_types :: "string list" where
  "image_types = [''image/png'', ''image/jpeg'', ''image/webp'']"

definition validateImages :: "kb \<Rightarrow> string \<Rightarrow> string list \<Rightarrow> kb_error + unit" where
  "validateImages db i ids =
     (if ids = [] then Inr ()
      else require (length (filter (\<lambda>f. flPage f = i \<and> flId f \<in> set (map dbid ids) \<and>
             list_ex (\<lambda>(pg, fl, _). pg = i \<and> fl = flId f) (pageFiles db) \<and> flType f \<in> set image_types) (files db))
           = length ids) ''images must be private images of the page'')"

definition content_mode_of :: "json option \<Rightarrow> kb_error + content_mode" where
  "content_mode_of v =
     (if nullish v then Inr RICH_TEXT
      else if v = Some (JStr ''RICH_TEXT'') then Inr RICH_TEXT
      else if v = Some (JStr ''FILE'') then Inr FILE_MODE
      else Inl (KbBad ''invalid content mode''))"

definition createPageIn :: "kb_env \<Rightarrow> string \<Rightarrow> string \<Rightarrow> json \<Rightarrow> kactor \<Rightarrow> kb \<Rightarrow> kb_error + (string \<times> nat) \<times> kb" where
  "createPageIn env i action input a db =
     bindE (assertKnowledgeAction a ''knowledge-pages'' action) (\<lambda>_.
     bindE (assertKnowledgeFields a ''knowledge-pages''
       (''spaceId'' # (case input of JObj kvs \<Rightarrow>
          filter (\<lambda>k. k \<in> set pageFields \<or> k \<in> set [''parentId'', ''folderId'']) (jkeys kvs) | _ \<Rightarrow> [])) ''update'') (\<lambda>_.
     bindE (keys_check input ([''spaceId'', ''parentId'', ''folderId'', ''contentMode''] @ pageFields)) (\<lambda>kvs.
     bindE (content_mode_of (jget kvs ''contentMode'')) (\<lambda>mode.
     bindE (liftK (knowledgeId (jget kvs ''spaceId''))) (\<lambda>si.
     bindE (lockSpace env si a ''read'' 2 db) (\<lambda>space.
     bindE (require (spStatus space = SpaceActive) ''space is archived'') (\<lambda>_.
     bindE (optional_id (jget kvs ''parentId'')) (\<lambda>parent.
     bindE (case parent of None \<Rightarrow> Inr ()
       | Some par_i \<Rightarrow> bindE (lockPage env par_i a action 2 WorkingMode db) (\<lambda>p.
           require (pgSpace p = spId space) ''parent in another space'')) (\<lambda>_.
     bindE (validateKnowledgeFolder db (spId space) (jget kvs ''folderId'')) (\<lambda>folder.
     bindE (liftK (knowledgeText (Some (input_or kvs ''title'' (JStr ''untitled page''))) 300 True)) (\<lambda>title.
     bindE (liftK (canonicalKnowledgeContent (env_host env) (input_or kvs ''content'' empty_doc))) (\<lambda>canon.
     bindE (require (imageIds canon = []) ''upload images first'') (\<lambda>_.
     bindE (sort_check (jget kvs ''sortOrder'')) (\<lambda>order.
     bindE (liftK (knowledgeText (jget kvs ''description'') 4000 False)) (\<lambda>descr.
     let row = \<lparr>pgId = i, pgSpace = spId space, pgParent = map_option dbid parent, pgFolder = map_option dbid folder,
           pgTitle = title, pgSort = order, pgContent = docContent canon, pgText = contentText canon,
           pgHash = contentHash canon, pgMode = mode, pgDescription = descr, pgStatus = PageDraft,
           pgBefore = None, pgBatch = None, pgPublished = None, pgRestricted = False, pgSearch = [],
           pgVersion = 1, pgCreatedBy = kaUser a\<rparr>
     in bindE (tree_guard (pages db) row) (\<lambda>_.
        bindE (liftK (knowledgeTags (Some (input_or kvs ''tags'' (JArr []))))) (\<lambda>tags.
        let db1 = set_tags i tags (db\<lparr>pages := pages db @ [row]\<rparr>)
        in bindE (lockPage env i a action 2 WorkingMode db1) (\<lambda>_.
           Inr ((i, 1), add_audit a ''knowledge-pages'' (Some i) ''page.created'' db1)))))))))))))))))))"

definition createPage :: "kb_env \<Rightarrow> string \<Rightarrow> json \<Rightarrow> kactor \<Rightarrow> kb \<Rightarrow> kb_error + (string \<times> nat) \<times> kb" where
  "createPage env i input a db = createPageIn env i ''create'' input a db"

definition updatePageIn :: "kb_env \<Rightarrow> string \<Rightarrow> (string \<times> json) list \<Rightarrow> kactor \<Rightarrow> kb \<Rightarrow> kb_error + (string \<times> nat) \<times> kb" where
  "updatePageIn env i kvs a db =
     bindE (lockPage env i a ''update'' 2 WorkingMode db) (\<lambda>row.
     bindE (version_check (pgVersion row) (jget kvs ''expectedVersion'')) (\<lambda>_.
     bindE (liftK (canonicalKnowledgeContent (env_host env) (input_or kvs ''content'' (node_json (pgContent row))))) (\<lambda>canon.
     bindE (validateImages db (pgId row) (imageIds canon)) (\<lambda>_.
     bindE (liftK (knowledgeText (Some (input_or kvs ''title'' (JStr (pgTitle row)))) 300 True)) (\<lambda>title.
     bindE (if nullish (jget kvs ''sortOrder'') then Inr (pgSort row) else sort_check (jget kvs ''sortOrder'')) (\<lambda>order.
     bindE (liftK (knowledgeText (Some (input_or kvs ''description'' (JStr (pgDescription row)))) 4000 False)) (\<lambda>descr.
     let row1 = row\<lparr>pgTitle := title, pgSort := order, pgContent := docContent canon, pgText := contentText canon,
                    pgHash := contentHash canon, pgDescription := descr, pgVersion := pgVersion row + 1\<rparr>;
         db1 = set_page row1 db
     in bindE (if ''tags'' \<in> set (jkeys kvs)
               then bindE (liftK (knowledgeTags (jget kvs ''tags''))) (\<lambda>tags. Inr (set_tags (pgId row) tags db1))
               else Inr db1) (\<lambda>db2.
        bindE (lockPage env i a ''update'' 2 WorkingMode db2) (\<lambda>_.
          Inr ((i, pgVersion row + 1), add_audit a ''knowledge-pages'' (Some (pgId row)) ''page.edited'' db2))))))))))"

definition updatePage :: "kb_env \<Rightarrow> string \<Rightarrow> json \<Rightarrow> kactor \<Rightarrow> kb \<Rightarrow> kb_error + (string \<times> nat) \<times> kb" where
  "updatePage env i input a db =
     bindE (keys_check input (pageFields @ [''expectedVersion''])) (\<lambda>kvs.
     bindE (assertKnowledgeFields a ''knowledge-pages'' (filter (\<lambda>k. k \<noteq> ''expectedVersion'') (jkeys kvs)) ''update'') (\<lambda>_.
       updatePageIn env i kvs a db))"

section \<open>Publishing\<close>

definition primary_hashes :: "kb \<Rightarrow> string \<Rightarrow> string list" where
  "primary_hashes db i = List.map_filter
     (\<lambda>(pg, fl, role). if pg = i \<and> role = PRIMARY then map_option flSha (lookup_row flId (files db) fl) else None)
     (pageFiles db)"

definition file_page_hash :: "host \<Rightarrow> string \<Rightarrow> string \<Rightarrow> string \<Rightarrow> string" where
  "file_page_hash h contentH descr fileSha = sha256 h (json_text h (JObj
     [(''content'', JStr contentH), (''description'', JStr descr), (''fileSha256'', JStr fileSha)]))"

definition publish_hash :: "kb_env \<Rightarrow> kb \<Rightarrow> kpage \<Rightarrow> string \<Rightarrow> kb_error + string" where
  "publish_hash env db row contentH =
     (if pgMode row = FILE_MODE
      then (case primary_hashes db (pgId row) of
              [sha] \<Rightarrow> Inr (file_page_hash (env_host env) contentH (pgDescription row) sha)
            | _ \<Rightarrow> Inl (KbBad ''file pages need one primary file''))
      else Inr contentH)"

text \<open>The code compares the ancestors with the id \<open>i\<close> of the request.\<close>

definition page_breadcrumb :: "kb \<Rightarrow> string \<Rightarrow> kpage \<Rightarrow> kpage list \<Rightarrow> (string \<times> string) list" where
  "page_breadcrumb db i row ancestry =
     (case lookup_row spId (spaces db) (pgSpace row) of None \<Rightarrow> [] | Some s \<Rightarrow> [(spId s, spName s)]) @
     knowledgeFolderBreadcrumb db (pgSpace row) (pgFolder row) @
     map (\<lambda>p. (pgId p, if pgId p = i then pgTitle row
            else (case published_version db p of Some v \<Rightarrow> verTitle v | None \<Rightarrow> []))) ancestry"

definition access_snapshot :: "kb \<Rightarrow> kpage \<Rightarrow> kpage list \<Rightarrow> access_entry list list" where
  "access_snapshot db row ancestry =
     entries_of (spaceAccess db) (pgSpace row) #
     map (\<lambda>p. entries_of (pageAccess db) (pgId p)) (filter pgRestricted ancestry)"

definition next_version_no :: "kb \<Rightarrow> string \<Rightarrow> nat" where
  "next_version_no db i = (let ns = map verNo (filter (\<lambda>v. verPage v = i) (versions db))
     in (if ns = [] then 0 else Max (set ns)) + 1)"

definition publish_version :: "kb \<Rightarrow> kactor \<Rightarrow> string \<Rightarrow> string \<Rightarrow> kpage \<Rightarrow> canonical \<Rightarrow> string \<Rightarrow> kpage list \<Rightarrow> kversion" where
  "publish_version db a vid i row canon hsh ancestry =
     (let tags = page_tag_names db (pgId row); crumbs = page_breadcrumb db i row ancestry
      in \<lparr>verId = vid, verPage = pgId row, verNo = next_version_no db (pgId row), verTitle = pgTitle row,
          verContent = docContent canon, verText = contentText canon, verHash = hsh, verTags = tags,
          verBreadcrumb = crumbs, verAccess = access_snapshot db row ancestry,
          verSearch = js_join [CHR 0x0A] ([pgTitle row, contentText canon] @ tags @ map snd crumbs),
          verMode = pgMode row, verDescription = pgDescription row, verSpace = pgSpace row,
          verParent = pgParent row, verFolder = pgFolder row, verBy = kaUser a\<rparr>)"

definition publish :: "kb_env \<Rightarrow> string \<Rightarrow> string \<Rightarrow> json \<Rightarrow> kactor \<Rightarrow> kb \<Rightarrow> kb_error + (string \<times> nat) \<times> kb" where
  "publish env vid i input a db =
     bindE (keys_check input [''expectedVersion'']) (\<lambda>kvs.
     bindE (assertKnowledgeFields a ''knowledge-pages'' [''status''] ''update'') (\<lambda>_.
     bindE (assertKnowledgeFields a ''knowledge-pages'' [''title'', ''content'', ''contentText'', ''tags'', ''attachmentIds''] ''read'') (\<lambda>_.
     bindE (lockPage env i a ''update'' 2 WorkingMode db) (\<lambda>row.
     bindE (version_check (pgVersion row) (jget kvs ''expectedVersion'')) (\<lambda>_.
     bindE (require (pgId row \<notin> set (map pgId (published_from db (pgParent row)))) ''published tree would have a cycle'') (\<lambda>_.
     bindE (liftK (canonicalKnowledgeContent (env_host env) (node_json (pgContent row)))) (\<lambda>canon.
     bindE (publish_hash env db row (contentHash canon)) (\<lambda>hsh.
     bindE (validateImages db (pgId row) (imageIds canon)) (\<lambda>_.
     let ancestry = ancestors db WorkingMode (pgId row)
     in bindE (require (list_all (\<lambda>p. pgId p = i \<or> pgStatus p = PagePublished) ancestry) ''publish the parents first'') (\<lambda>_.
        let ver = publish_version db a vid i row canon hsh ancestry;
            links = map (\<lambda>(pg, fl, role). (pg, vid, fl, role)) (filter (\<lambda>(pg, _). pg = pgId row) (pageFiles db));
            db1 = db\<lparr>versions := versions db @ [ver], versionFiles := versionFiles db @ links\<rparr>;
            db2 = set_page (row\<lparr>pgStatus := PagePublished, pgPublished := Some vid, pgVersion := pgVersion row + 1\<rparr>) db1
        in Inr ((i, pgVersion row + 1), add_audit a ''knowledge-pages'' (Some (pgId row)) ''page.published''
             (rebuildSearch (Some (pgId row)) None db2))))))))))))"

section \<open>Moving\<close>

definition relocate :: "string list \<Rightarrow> string \<Rightarrow> string option \<Rightarrow> kb \<Rightarrow> kb" where
  "relocate ids space folder db = db\<lparr>pages := map (\<lambda>p. if pgId p \<in> set ids
     then p\<lparr>pgSpace := space, pgFolder := folder, pgVersion := pgVersion p + 1\<rparr> else p) (pages db)\<rparr>"

definition destination_parent ::
  "kb_env \<Rightarrow> kactor \<Rightarrow> kb \<Rightarrow> string \<Rightarrow> string option \<Rightarrow> kb_error + unit" where
  "destination_parent env a db space parent = (case parent of
     None \<Rightarrow> Inr ()
   | Some par_i \<Rightarrow> bindE (lockPage env par_i a ''create'' 2 WorkingMode db) (\<lambda>p.
       require (pgSpace p = space) ''parent is not in the target space''))"

definition cross_space_rights :: "kb_env \<Rightarrow> kactor \<Rightarrow> kb \<Rightarrow> string list \<Rightarrow> string \<Rightarrow> kb_error + unit" where
  "cross_space_rights env a db ids space =
     bindE (assertKnowledgeAction a ''knowledge-pages'' ''create'') (\<lambda>_.
     bindE (all_visible env db a WorkingMode ''update'' 3 ids) (\<lambda>ok.
     bindE (require ok ''full access to the subtree is needed'') (\<lambda>_.
     bindE (lockSpace env space a ''read'' 3 db) (\<lambda>_. Inr ()))))"

definition move :: "kb_env \<Rightarrow> string \<Rightarrow> json \<Rightarrow> kactor \<Rightarrow> kb \<Rightarrow> kb_error + (string \<times> nat) \<times> kb" where
  "move env i input a db =
     bindE (keys_check input [''parentId'', ''folderId'', ''spaceId'', ''sortOrder'', ''expectedVersion'']) (\<lambda>kvs.
     bindE (assertKnowledgeFields a ''knowledge-pages'' [''parentId'', ''spaceId'', ''sortOrder''] ''update'') (\<lambda>_.
     bindE (lockPage env i a ''update'' 2 WorkingMode db) (\<lambda>row.
     bindE (version_check (pgVersion row) (jget kvs ''expectedVersion'')) (\<lambda>_.
     bindE (optional_id (jget kvs ''spaceId'')) (\<lambda>space_in.
     bindE (optional_id (jget kvs ''parentId'')) (\<lambda>parent.
     let space = (case space_in of None \<Rightarrow> pgSpace row | Some s \<Rightarrow> s);
         ids = map pgId (page_descendants db (pgId row));
         replace = (''folderId'' \<in> set (jkeys kvs) \<or> space \<noteq> pgSpace row)
     in bindE (require (parent \<noteq> Some i) ''cannot move under itself'') (\<lambda>_.
        bindE (require (case parent of None \<Rightarrow> True | Some par_i \<Rightarrow> par_i \<notin> set ids) ''cannot move under a descendant'') (\<lambda>_.
        bindE (lockSpace env space a ''read'' 2 db) (\<lambda>dest.
        bindE (require (spStatus dest = SpaceActive) ''target space is archived'') (\<lambda>_.
        bindE (validateKnowledgeFolder db space (jget kvs ''folderId'')) (\<lambda>folder.
        bindE (destination_parent env a db space parent) (\<lambda>_.
        bindE (all_visible env db a WorkingMode ''update'' 2 ids) (\<lambda>ok.
        bindE (require ok ''edit rights on the subtree are needed'') (\<lambda>_.
        bindE (if space \<noteq> pgSpace row then cross_space_rights env a db ids space else Inr ()) (\<lambda>_.
        bindE (sort_check (Some (input_or kvs ''sortOrder'' (JNum (of_int (pgSort row)))))) (\<lambda>order.
        let row1 = row\<lparr>pgParent := map_option dbid parent, pgSort := order, pgVersion := pgVersion row + 1\<rparr>
        in bindE (tree_guard (pages db) row1) (\<lambda>_.
           let db1 = set_page row1 db;
               db2 = (if replace then relocate ids (dbid space) (map_option dbid folder) db1 else db1)
           in bindE (lockPage env i a ''update'' 2 WorkingMode db2) (\<lambda>_.
              bindE (if space \<noteq> pgSpace row then all_visible env db2 a WorkingMode ''create'' 2 ids else Inr True) (\<lambda>ok2.
              bindE (require ok2 ''target subtree is outside the data scope'') (\<lambda>_.
                Inr ((i, pgVersion row + 1 + (if replace then 1 else 0)),
                  add_audit a ''knowledge-pages'' (Some (pgId row)) ''page.moved''
                    (rebuildSearch (Some (pgId row)) None db2))))))))))))))))))))))"

section \<open>Archiving, trash and restore\<close>

datatype transition_kind = Archive | Unarchive | Trash | Restore

definition transition_action :: "transition_kind \<Rightarrow> string" where
  "transition_action k = (if k = Trash then ''delete'' else ''update'')"

definition transition_mode :: "transition_kind \<Rightarrow> kmode" where
  "transition_mode k = (if k = Restore then TrashMode else WorkingMode)"

definition transition_targets :: "transition_kind \<Rightarrow> kpage \<Rightarrow> kpage list \<Rightarrow> kpage list" where
  "transition_targets k row ds =
     (if k = Restore then filter (\<lambda>p. pgStatus p = PageTrashed \<and> pgBatch p = pgBatch row) ds
      else filter (\<lambda>p. pgStatus p \<noteq> PageTrashed) ds)"

definition transition_row :: "transition_kind \<Rightarrow> string \<Rightarrow> kpage \<Rightarrow> kpage" where
  "transition_row k batch p =
     (let p1 = (case k of
          Archive \<Rightarrow> p\<lparr>pgStatus := PageArchived\<rparr>
        | Unarchive \<Rightarrow> (if pgStatus p = PageArchived then p\<lparr>pgStatus := PagePublished\<rparr> else p)
        | Trash \<Rightarrow> p\<lparr>pgBefore := Some (pgStatus p), pgStatus := PageTrashed, pgBatch := Some batch\<rparr>
        | Restore \<Rightarrow> p\<lparr>pgStatus := (case pgBefore p of Some s \<Rightarrow> s | None \<Rightarrow> PageDraft),
                      pgBefore := None, pgBatch := None\<rparr>)
      in p1\<lparr>pgVersion := pgVersion p1 + 1\<rparr>)"

definition transition_all :: "transition_kind \<Rightarrow> string \<Rightarrow> string list \<Rightarrow> kb \<Rightarrow> kb" where
  "transition_all k batch ids db = db\<lparr>pages := map (\<lambda>p. if pgId p \<in> set ids then transition_row k batch p else p) (pages db)\<rparr>"

definition transition_parent :: "kb_env \<Rightarrow> kactor \<Rightarrow> kb \<Rightarrow> transition_kind \<Rightarrow> kpage \<Rightarrow> kb_error + unit" where
  "transition_parent env a db k row =
     (if k \<in> {Restore, Unarchive} then
        (case pgParent row of
           None \<Rightarrow> Inr ()
         | Some par_i \<Rightarrow> bindE (lockPage env par_i a ''update'' 3 WorkingMode db) (\<lambda>p.
             require (k = Unarchive \<longrightarrow> pgStatus p = PagePublished) ''republish the parent first''))
      else Inr ())"

definition transition_verb :: "transition_kind \<Rightarrow> string" where
  "transition_verb k = (case k of Archive \<Rightarrow> ''page.archive'' | Unarchive \<Rightarrow> ''page.unarchive''
     | Trash \<Rightarrow> ''page.trash'' | Restore \<Rightarrow> ''page.restore'')"

definition transitionPage :: "kb_env \<Rightarrow> string \<Rightarrow> string \<Rightarrow> transition_kind \<Rightarrow> json \<Rightarrow> kactor \<Rightarrow> kb \<Rightarrow> kb_error + (string \<times> nat) \<times> kb" where
  "transitionPage env batch i k input a db =
     bindE (keys_check input [''expectedVersion'']) (\<lambda>kvs.
     bindE (assertKnowledgeFields a ''knowledge-pages'' [''status''] ''update'') (\<lambda>_.
     bindE (lockPage env i a (transition_action k) 3 (transition_mode k) db) (\<lambda>row.
     bindE (version_check (pgVersion row) (jget kvs ''expectedVersion'')) (\<lambda>_.
     bindE (require (k = Unarchive \<longrightarrow> pgStatus row = PageArchived) ''only archived pages'') (\<lambda>_.
     let targets = transition_targets k row (page_descendants db (pgId row));
         ids = map pgId targets
     in bindE (all_visible env db a (transition_mode k) (transition_action k) 3 ids) (\<lambda>ok.
        bindE (require ok ''full access to the subtree is needed'') (\<lambda>_.
        bindE (require (k = Archive \<longrightarrow> list_all (\<lambda>p. pgStatus p = PagePublished) targets) ''publish the drafts first'') (\<lambda>_.
        bindE (transition_parent env a db k row) (\<lambda>_.
          Inr ((i, pgVersion row + 1), add_audit a ''knowledge-pages'' (Some (pgId row)) (transition_verb k)
            (transition_all k batch ids db)))))))))))"

section \<open>Purging\<close>

definition enqueueCleanup :: "kactor \<Rightarrow> string list \<Rightarrow> kb \<Rightarrow> kb" where
  "enqueueCleanup a keys db = db\<lparr>cleanup := cleanup db @
     map (\<lambda>k. \<lparr>clKey = k, clBy = kaUser a, clAttempts = 0\<rparr>)
       (filter (\<lambda>k. k \<notin> set (map clKey (cleanup db))) (js_dedup keys))\<rparr>"

text \<open>The objects of the pages' files and of their previews; then the rows of the pages with
  everything that cascades from them.\<close>

definition page_objects :: "kb \<Rightarrow> string list \<Rightarrow> string list" where
  "page_objects db ids =
     js_dedup (map flKey (filter (\<lambda>f. flPage f \<in> set ids) (files db)) @
       List.map_filter (\<lambda>v. if list_ex (\<lambda>f. flId f = pvFile v \<and> flPage f \<in> set ids) (files db) then pvKey v else None)
         (previews db))"

definition delete_pages :: "string list \<Rightarrow> kb \<Rightarrow> kb" where
  "delete_pages ids db = db\<lparr>
     pages := filter (\<lambda>p. pgId p \<notin> set ids) (pages db),
     versions := filter (\<lambda>v. verPage v \<notin> set ids) (versions db),
     pageAccess := filter (\<lambda>(k, _). k \<notin> set ids) (pageAccess db),
     pageTags := filter (\<lambda>(k, _). k \<notin> set ids) (pageTags db),
     versionFiles := filter (\<lambda>(pg, _). pg \<notin> set ids) (versionFiles db),
     pageFiles := filter (\<lambda>(pg, _). pg \<notin> set ids) (pageFiles db),
     previews := filter (\<lambda>v. \<not> list_ex (\<lambda>f. flId f = pvFile v \<and> flPage f \<in> set ids) (files db)) (previews db),
     files := filter (\<lambda>f. flPage f \<notin> set ids) (files db)\<rparr>"

definition published_outside :: "kb \<Rightarrow> string list \<Rightarrow> bool" where
  "published_outside db ids = list_ex (\<lambda>p. pgId p \<notin> set ids \<and>
     (case published_version db p of Some v \<Rightarrow> (case verParent v of Some q \<Rightarrow> q \<in> set ids | None \<Rightarrow> False) | None \<Rightarrow> False))
     (pages db)"

text \<open>The transaction of \<open>purge\<close>; the clean-up run that follows it is \<open>processCleanup\<close>.\<close>

definition purge :: "kb_env \<Rightarrow> string \<Rightarrow> json \<Rightarrow> kactor \<Rightarrow> kb \<Rightarrow> kb_error + string \<times> kb" where
  "purge env i input a db =
     bindE (keys_check input [''expectedVersion'']) (\<lambda>kvs.
     bindE (lockPage env i a ''delete'' 3 TrashMode db) (\<lambda>row.
     bindE (version_check (pgVersion row) (jget kvs ''expectedVersion'')) (\<lambda>_.
     let ids = map pgId (page_descendants db (pgId row))
     in bindE (all_visible env db a TrashMode ''delete'' 3 ids) (\<lambda>ok.
        bindE (require ok ''the whole trashed subtree must be yours'') (\<lambda>_.
        bindE (require (\<not> published_outside db ids) ''published pages still refer to it'') (\<lambda>_.
          let keys = page_objects db ids
          in Inr (i, add_audit a ''knowledge-pages'' (Some (pgId row)) ''page.permanently_deleted''
               (enqueueCleanup a keys (delete_pages ids db)))))))))"

section \<open>Unpublished changes\<close>

text \<open>\<^verbatim>\<open>knowledge-publication.ts\<close>: does the working page differ from its published
  version in anything that gets published.\<close>

definition same_links :: "(string \<times> file_role) list \<Rightarrow> (string \<times> file_role) list \<Rightarrow> bool" where
  "same_links xs ys \<longleftrightarrow> set xs = set ys"

definition working_links :: "kb \<Rightarrow> string \<Rightarrow> (string \<times> file_role) list" where
  "working_links db i = map snd (filter (\<lambda>(pg, _). pg = i) (pageFiles db))"

definition version_links :: "kb \<Rightarrow> string \<Rightarrow> string \<Rightarrow> (string \<times> file_role) list" where
  "version_links db i v = map (\<lambda>(_, _, l). l) (filter (\<lambda>(pg, ver, _). pg = i \<and> ver = v) (versionFiles db))"

definition knowledgeUnpublishedChanges :: "kb \<Rightarrow> kpage \<Rightarrow> bool" where
  "knowledgeUnpublishedChanges db p = (case published_version db p of
     None \<Rightarrow> True
   | Some v \<Rightarrow>
       pgSpace p \<noteq> verSpace v \<or> pgParent p \<noteq> verParent v \<or> pgFolder p \<noteq> verFolder v \<or>
       pgTitle p \<noteq> verTitle v \<or> pgContent p \<noteq> verContent v \<or> pgDescription p \<noteq> verDescription v \<or>
       pgMode p \<noteq> verMode v \<or> page_tag_names db (pgId p) \<noteq> verTags v \<or>
       \<not> same_links (working_links db (pgId p)) (version_links db (pgId p) (verId v)))"

end
