(* ===== verification/KnowledgeFiles.thy ===== *)
theory KnowledgeFiles
  imports KnowledgePages
begin

text \<open>
  The files of the knowledge base and the private object storage behind them:
  \<^verbatim>\<open>knowledge.files.service.ts\<close>, the file and clean-up commands of
  \<^verbatim>\<open>knowledge.application.service.ts\<close>, and the preview queue of
  \<^verbatim>\<open>knowledge.preview.service.ts\<close>.  The storage is the list \<open>st\<close> of the keys it
  holds; it is outside the transaction, so a command returns it also when it fails.  What the
  storage and the database do (\<open>io\<close>), the checked upload (\<open>meta\<close>) and the clock are
  arguments.
\<close>

section \<open>Objects\<close>

record io =
  put_ok :: bool
  db_ok :: bool
  del_ok :: bool

record file_meta =
  metaName :: string
  metaType :: string
  metaSize :: nat
  metaSha :: string

type_synonym 'a stored_result = "(kb_error + 'a \<times> kb) \<times> string list"

definition object_prefix :: "kb_env \<Rightarrow> string" where
  "object_prefix env = ''.private/knowledge/'' @ tenant_hex env @ ''/''"

definition object_key :: "kb_env \<Rightarrow> string \<Rightarrow> string \<Rightarrow> string" where
  "object_key env page fid = object_prefix env @ page @ ''/'' @ fid"

definition add_object :: "string \<Rightarrow> string list \<Rightarrow> string list" where
  "add_object k st = (if k \<in> set st then st else st @ [k])"

definition drop_object :: "string \<Rightarrow> string list \<Rightarrow> string list" where
  "drop_object k st = filter (\<lambda>x. x \<noteq> k) st"

definition discard :: "io \<Rightarrow> string \<Rightarrow> string list \<Rightarrow> string list" where
  "discard x k st = (if del_ok x then drop_object k st else st)"

section \<open>The preview queue\<close>

definition contains_text :: "string \<Rightarrow> string \<Rightarrow> bool" where
  "contains_text s needle \<longleftrightarrow> list_ex (\<lambda>k. take (length needle) (drop k s) = needle) [0..<Suc (length s)]"

definition needsKnowledgeConversion :: "string \<Rightarrow> bool" where
  "needsKnowledgeConversion type \<longleftrightarrow>
     list_ex (contains_text type) [''msword'', ''ms-excel'', ''ms-powerpoint'', ''officedocument'']"

definition enqueuePreview :: "string \<Rightarrow> string \<Rightarrow> file_meta \<Rightarrow> kb \<Rightarrow> kb" where
  "enqueuePreview vid fid meta db =
     (if \<not> needsKnowledgeConversion (metaType meta) \<or>
         list_ex (\<lambda>v. pvFile v = fid \<and> pvSha v = metaSha meta) (previews db) then db
      else db\<lparr>previews := previews db @ [\<lparr>pvId = vid, pvFile = fid, pvSha = metaSha meta,
        pvStatus = PreviewPending, pvAttempts = 0, pvRetries = 0, pvError = None, pvKey = None,
        pvSize = None, pvLease = None, pvUntil = None\<rparr>]\<rparr>)"

definition queue_key :: "string option \<Rightarrow> string \<Rightarrow> kb \<Rightarrow> kb" where
  "queue_key by k db = (if k \<in> set (map clKey (cleanup db)) then db
     else db\<lparr>cleanup := cleanup db @ [\<lparr>clKey = k, clBy = by, clAttempts = 0\<rparr>]\<rparr>)"

definition claimable :: "int \<Rightarrow> kb \<Rightarrow> kpreview \<Rightarrow> bool" where
  "claimable now db v \<longleftrightarrow>
     list_ex (\<lambda>f. flId f = pvFile v \<and> flSha f = pvSha v) (files db) \<and>
     (pvStatus v = PreviewPending \<or>
      pvStatus v = PreviewRunning \<and> (case pvUntil v of Some t \<Rightarrow> t < now | None \<Rightarrow> False))"

definition set_preview :: "kpreview \<Rightarrow> kb \<Rightarrow> kb" where
  "set_preview v db = db\<lparr>previews := map (\<lambda>x. if pvId x = pvId v then v else x) (previews db)\<rparr>"

definition preview_key :: "kb_env \<Rightarrow> kpreview \<Rightarrow> string \<Rightarrow> string" where
  "preview_key env v lease = ''.private/knowledge-previews/'' @ tenant_hex env @ ''/'' @ pvFile v @ ''/'' @
     pvId v @ ''/'' @ lease @ ''.pdf''"

definition exhausted_job :: "kpreview \<Rightarrow> kpreview" where
  "exhausted_job v = v\<lparr>pvStatus := PreviewFailed, pvError := Some ''interrupted too often'',
     pvLease := None, pvUntil := None\<rparr>"

definition leased_job :: "kb_env \<Rightarrow> string \<Rightarrow> int \<Rightarrow> kpreview \<Rightarrow> kpreview" where
  "leased_job env lease until v = v\<lparr>pvStatus := PreviewRunning, pvAttempts := pvAttempts v + 1, pvError := None,
     pvLease := Some lease, pvUntil := Some until, pvKey := Some (preview_key env v lease), pvSize := None\<rparr>"

text \<open>\<open>claim\<close>: the oldest claimable job; \<open>None\<close> when there is none or it is exhausted.\<close>

definition claim :: "kb_env \<Rightarrow> string \<Rightarrow> int \<Rightarrow> int \<Rightarrow> kb \<Rightarrow> kb_error + kpreview option \<times> kb" where
  "claim env lease now seconds db =
     (if seconds < 30 \<or> 1800 < seconds then Inl (KbBad ''invalid lease'')
      else case find (claimable now db) (previews db) of
        None \<Rightarrow> Inr (None, db)
      | Some v \<Rightarrow>
          if 3 \<le> pvAttempts v then Inr (None, set_preview (exhausted_job v) db)
          else
            (let job = leased_job env lease (now + seconds) v;
                 db1 = (case pvKey v of None \<Rightarrow> db | Some k \<Rightarrow> queue_key None k db)
             in Inr (Some job, set_preview job db1)))"

definition may_complete :: "string \<Rightarrow> string \<Rightarrow> int \<Rightarrow> kpreview \<Rightarrow> bool" where
  "may_complete vid lease now v \<longleftrightarrow> pvId v = vid \<and> pvLease v = Some lease \<and> pvStatus v = PreviewRunning \<and>
     (case pvUntil v of Some t \<Rightarrow> now < t | None \<Rightarrow> False)"

definition completed_job :: "nat option \<Rightarrow> string option \<Rightarrow> kpreview \<Rightarrow> kpreview" where
  "completed_job sz err v = v\<lparr>
     pvStatus := (if err \<noteq> None \<and> err \<noteq> Some [] then PreviewFailed else PreviewSucceeded),
     pvSize := sz, pvError := map_option (take 1000) err, pvLease := None, pvUntil := None\<rparr>"

definition complete :: "string \<Rightarrow> string \<Rightarrow> int \<Rightarrow> nat option \<Rightarrow> string option \<Rightarrow> kb \<Rightarrow> bool \<times> kb" where
  "complete vid lease now sz err db =
     (length (filter (may_complete vid lease now) (previews db)) = 1,
      db\<lparr>previews := map (\<lambda>v. if may_complete vid lease now v then completed_job sz err v else v) (previews db)\<rparr>)"

definition retried_job :: "kpreview \<Rightarrow> kpreview" where
  "retried_job v = v\<lparr>pvStatus := PreviewPending, pvAttempts := 0, pvRetries := pvRetries v + 1, pvError := None,
     pvKey := None, pvSize := None, pvLease := None, pvUntil := None\<rparr>"

text \<open>\<open>retry\<close>: \<open>file\<close> is what the read service returns for the attachment.\<close>

definition retry :: "kb_error + kfile \<Rightarrow> kactor \<Rightarrow> kb \<Rightarrow> kb_error + unit \<times> kb" where
  "retry file a db =
     bindE (require (knowledgeAdministrator a) ''administrators only'') (\<lambda>_.
     bindE file (\<lambda>f.
     case find (\<lambda>v. pvFile v = flId f \<and> pvSha v = flSha f) (previews db) of
       None \<Rightarrow> Inl (KbBad ''no conversion job'')
     | Some v \<Rightarrow>
         bindE (require (pvStatus v = PreviewFailed) ''only failed jobs'') (\<lambda>_.
           let db1 = (case pvKey v of None \<Rightarrow> db | Some k \<Rightarrow> queue_key (kaUser a) k db)
           in Inr ((), add_audit a ''knowledge-pages'' (Some (flPage f)) ''file.preview_retried''
                (set_preview (retried_job v) db1)))))"

section \<open>Uploads\<close>

fun role_text :: "file_role \<Rightarrow> string" where
  "role_text PRIMARY = ''PRIMARY''"
| "role_text INLINE = ''INLINE''"
| "role_text SUPPLEMENTAL = ''SUPPLEMENTAL''"

definition role_of :: "string \<Rightarrow> file_role option" where
  "role_of s = find (\<lambda>r. role_text r = s) [PRIMARY, INLINE, SUPPLEMENTAL]"

definition is_image :: "string \<Rightarrow> bool" where
  "is_image type \<longleftrightarrow> take 6 type = ''image/''"

definition file_row :: "string \<Rightarrow> string \<Rightarrow> string \<Rightarrow> file_meta \<Rightarrow> kfile" where
  "file_row fid page key meta = \<lparr>flId = fid, flPage = page, flName = metaName meta, flKey = key,
     flType = metaType meta, flSize = metaSize meta, flSha = metaSha meta, flVersion = 1\<rparr>"

definition link_file :: "string \<Rightarrow> string \<Rightarrow> file_role \<Rightarrow> kb \<Rightarrow> kb" where
  "link_file page fid role db = db\<lparr>pageFiles :=
     (if role = PRIMARY then filter (\<lambda>(pg, _, r). \<not> (pg = page \<and> r = PRIMARY)) (pageFiles db) else pageFiles db)
       @ [(page, fid, role)]\<rparr>"

definition page_rows :: "kb \<Rightarrow> string \<Rightarrow> (string \<times> string \<times> file_role) list" where
  "page_rows db page = filter (\<lambda>(pg, _). pg = page) (pageFiles db)"

text \<open>\<open>store\<close>: \<open>raw\<close> is the page id as the caller has it, \<open>page\<close> the id of its row;
  \<open>db_ok\<close> says that the statements after the upload of the object succeed.\<close>

definition store_rows :: "kactor \<Rightarrow> string \<Rightarrow> string \<Rightarrow> string \<Rightarrow> file_meta \<Rightarrow> file_role \<Rightarrow> string \<Rightarrow> kb \<Rightarrow> kb" where
  "store_rows a fid vid key meta role page db =
     add_audit a ''knowledge-pages'' (Some page) ''file.uploaded''
       (enqueuePreview vid fid meta (link_file page fid role (db\<lparr>files := files db @ [file_row fid page key meta]\<rparr>)))"

definition store ::
  "kb_env \<Rightarrow> io \<Rightarrow> kactor \<Rightarrow> string \<Rightarrow> string \<Rightarrow> file_meta \<Rightarrow> file_role \<Rightarrow> string \<Rightarrow> string \<Rightarrow> kb \<Rightarrow> string list \<Rightarrow> string stored_result" where
  "store env x a fid vid meta role raw page db st =
     (if role \<noteq> PRIMARY \<and> 20 \<le> length (filter (\<lambda>(_, _, r). r \<noteq> PRIMARY) (page_rows db page))
      then (Inl (KbBad ''too many files''), st)
      else if \<not> put_ok x then (Inl KbStorage, st)
      else
        (let key = object_key env raw fid; st1 = add_object key st in
         if db_ok x then (Inr (key, store_rows a fid vid key meta role page db), st1)
         else (Inl KbStorage, discard x key st1)))"

definition upload_role :: "kb_env \<Rightarrow> (string \<times> json) list \<Rightarrow> kb_error + file_role" where
  "upload_role env kvs =
     (case role_of (js_string (env_host env) (input_or kvs ''role'' (JStr ''SUPPLEMENTAL''))) of
        None \<Rightarrow> Inl (KbBad ''invalid role'') | Some r \<Rightarrow> Inr r)"

text \<open>What \<open>upload\<close> decides before it opens the transaction, and inside before it stores.\<close>

definition upload_checks :: "kb_env \<Rightarrow> json \<Rightarrow> kb_error + file_meta \<Rightarrow> kactor \<Rightarrow> kb_error + (string \<times> json) list \<times> file_role \<times> file_meta" where
  "upload_checks env input meta a =
     bindE (assertKnowledgeAction a ''knowledge-pages'' ''update'') (\<lambda>_.
     bindE (assertKnowledgeFields a ''knowledge-pages'' [''attachmentIds''] ''update'') (\<lambda>_.
     bindE (keys_check input [''expectedVersion'', ''role'']) (\<lambda>kvs.
     bindE (upload_role env kvs) (\<lambda>role.
     bindE meta (\<lambda>mt.
     bindE (require (role = INLINE \<longrightarrow> is_image (metaType mt)) ''images only'') (\<lambda>_.
       Inr (kvs, role, mt)))))))"

definition upload_target :: "kb_env \<Rightarrow> string \<Rightarrow> (string \<times> json) list \<Rightarrow> file_role \<Rightarrow> kactor \<Rightarrow> kb \<Rightarrow> kb_error + kpage" where
  "upload_target env i kvs role a db =
     bindE (lockPage env i a ''update'' 2 WorkingMode db) (\<lambda>page.
     bindE (version_check (pgVersion page) (jget kvs ''expectedVersion'')) (\<lambda>_.
     bindE (require (role = PRIMARY \<longrightarrow> pgMode page = FILE_MODE) ''no primary file on articles'') (\<lambda>_. Inr page)))"

definition upload ::
  "kb_env \<Rightarrow> io \<Rightarrow> string \<Rightarrow> string \<Rightarrow> string \<Rightarrow> json \<Rightarrow> kb_error + file_meta \<Rightarrow> kactor \<Rightarrow> kb \<Rightarrow> string list \<Rightarrow>
    (string \<times> nat) stored_result" where
  "upload env x fid vid i input meta a db st =
     (case bindE (upload_checks env input meta a) (\<lambda>(kvs, role, mt).
             bindE (upload_target env i kvs role a db) (\<lambda>page. Inr (role, mt, page))) of
        Inl e \<Rightarrow> (Inl e, st)
      | Inr (role, mt, page) \<Rightarrow>
          (case store env x a fid vid mt role i (pgId page) db st of
             (Inl e, st1) \<Rightarrow> (Inl e, st1)
           | (Inr (key, db1), st1) \<Rightarrow>
               (Inr ((fid, pgVersion page + 1), set_page (page\<lparr>pgVersion := pgVersion page + 1\<rparr>) db1), st1)))"

text \<open>\<open>create\<close>: a file page in one request, safe to repeat under its idempotency key.\<close>

definition strip_extension :: "string \<Rightarrow> string" where
  "strip_extension name =
     (let ext = takeWhile (\<lambda>c. c \<noteq> CHR ''.'') (rev name)
      in if ext = [] \<or> length ext = length name then name else take (length name - length ext - 1) name)"

definition truthy_id :: "json option \<Rightarrow> kb_error + json" where
  "truthy_id v = (if truthy v then bindE (liftK (knowledgeId v)) (\<lambda>i. Inr (JStr i)) else Inr JNull)"

definition file_page_input :: "(string \<times> json) list \<Rightarrow> file_meta \<Rightarrow> kb_error + (string \<times> json) list" where
  "file_page_input kvs meta =
     bindE (liftK (knowledgeId (jget kvs ''spaceId''))) (\<lambda>space.
     bindE (truthy_id (jget kvs ''parentId'')) (\<lambda>parent.
     bindE (if ''folderId'' \<in> set (jkeys kvs)
            then bindE (truthy_id (jget kvs ''folderId'')) (\<lambda>f. Inr [(''folderId'', f)]) else Inr []) (\<lambda>folder.
     bindE (liftK (knowledgeText (Some (input_or kvs ''title'' (JStr (strip_extension (metaName meta))))) 300 True)) (\<lambda>title.
       Inr ([(''spaceId'', JStr space), (''parentId'', parent)] @ folder @
         [(''title'', JStr title), (''contentMode'', JStr ''FILE'')])))))"

definition upload_hash :: "host \<Rightarrow> (string \<times> json) list \<Rightarrow> file_meta \<Rightarrow> string" where
  "upload_hash h page meta = sha256 h (json_text h (JObj (page @
     [(''sha256'', JStr (metaSha meta)), (''name'', JStr (metaName meta))])))"

definition previous_upload :: "kb \<Rightarrow> kactor \<Rightarrow> string \<Rightarrow> kupload option" where
  "previous_upload db a k = (case kaUser a of None \<Rightarrow> None
     | Some u \<Rightarrow> find (\<lambda>r. upActor r = Some u \<and> upKey r = dbid k) (uploads db))"

definition create_checks :: "json \<Rightarrow> kb_error + file_meta \<Rightarrow> kactor \<Rightarrow> kb_error + string \<times> file_meta \<times> (string \<times> json) list" where
  "create_checks input meta a =
     bindE (assertKnowledgeAction a ''knowledge-pages'' ''create'') (\<lambda>_.
     bindE (assertKnowledgeFields a ''knowledge-pages'' [''spaceId'', ''parentId'', ''title'', ''attachmentIds''] ''update'') (\<lambda>_.
     bindE (keys_check input [''spaceId'', ''parentId'', ''folderId'', ''title'', ''idempotencyKey'']) (\<lambda>kvs.
     bindE (liftK (knowledgeId (jget kvs ''idempotencyKey''))) (\<lambda>k.
     bindE meta (\<lambda>mt.
     bindE (file_page_input kvs mt) (\<lambda>page. Inr (k, mt, page)))))))"

definition repeat_upload :: "kb_env \<Rightarrow> kactor \<Rightarrow> string \<Rightarrow> kupload \<Rightarrow> kb \<Rightarrow> kb_error + (string \<times> bool) \<times> kb" where
  "repeat_upload env a hsh r db =
     bindE (require (upHash r = hsh) ''request differs from the first one'') (\<lambda>_.
     bindE (lockPage env (upPage r) a ''create'' 2 WorkingMode db) (\<lambda>_. Inr ((upPage r, True), db)))"

definition createFilePage ::
  "kb_env \<Rightarrow> io \<Rightarrow> string \<Rightarrow> string \<Rightarrow> string \<Rightarrow> json \<Rightarrow> kb_error + file_meta \<Rightarrow> kactor \<Rightarrow> kb \<Rightarrow> string list \<Rightarrow>
    (string \<times> bool) stored_result" where
  "createFilePage env x i fid vid input meta a db st =
     (case create_checks input meta a of
        Inl e \<Rightarrow> (Inl e, st)
      | Inr (k, mt, page) \<Rightarrow>
          (let hsh = upload_hash (env_host env) page mt in
           case previous_upload db a k of
             Some r \<Rightarrow> (repeat_upload env a hsh r db, st)
           | None \<Rightarrow>
               (case createPageIn env i ''create'' (JObj page) a db of
                  Inl e \<Rightarrow> (Inl e, st)
                | Inr (_, db1) \<Rightarrow>
                    (case store env (x\<lparr>db_ok := db_ok x \<and> kaUser a \<noteq> None\<rparr>) a fid vid mt PRIMARY i i db1 st of
                       (Inl e, st1) \<Rightarrow> (Inl e, st1)
                     | (Inr (key, db2), st1) \<Rightarrow>
                         (Inr ((i, False), db2\<lparr>uploads := uploads db2 @
                            [\<lparr>upActor = kaUser a, upKey = dbid k, upHash = hsh, upPage = i\<rparr>]\<rparr>), st1)))))"

text \<open>\<open>uploadIn\<close>, the import's way to attach an image or a document; no preview is queued.\<close>

definition uploadIn ::
  "kb_env \<Rightarrow> io \<Rightarrow> string \<Rightarrow> string \<Rightarrow> kb_error + file_meta \<Rightarrow> kactor \<Rightarrow> kb \<Rightarrow> string list \<Rightarrow> string stored_result" where
  "uploadIn env x fid i meta a db st =
     (if 20 \<le> length (page_rows db i) then (Inl (KbBad ''too many files''), st)
      else case meta of
        Inl e \<Rightarrow> (Inl e, st)
      | Inr mt \<Rightarrow>
          if \<not> put_ok x then (Inl KbStorage, st)
          else
            (let key = object_key env i fid; st1 = add_object key st;
                 role = (if is_image (metaType mt) then INLINE else SUPPLEMENTAL) in
             if db_ok x
             then (Inr (key, add_audit a ''knowledge-pages'' (Some i) ''attachment.uploaded''
                    (link_file i fid role (db\<lparr>files := files db @ [file_row fid i key mt]\<rparr>))), st1)
             else (Inl KbStorage, discard x key st1)))"

section \<open>Detaching\<close>

definition bump_file :: "string \<Rightarrow> kb \<Rightarrow> kb" where
  "bump_file fid db = db\<lparr>files := map (\<lambda>f. if flId f = fid then f\<lparr>flVersion := flVersion f + 1\<rparr> else f) (files db)\<rparr>"

definition attached :: "kb \<Rightarrow> string \<Rightarrow> bool" where
  "attached db fid \<longleftrightarrow> list_ex (\<lambda>(_, fl, _). fl = fid) (pageFiles db)"

definition unlink_file :: "string \<Rightarrow> kb \<Rightarrow> kb" where
  "unlink_file fid db = db\<lparr>pageFiles := filter (\<lambda>(_, fl, _). fl \<noteq> fid) (pageFiles db)\<rparr>"

definition attachment_row :: "json option \<Rightarrow> kb \<Rightarrow> kb_error + kfile" where
  "attachment_row i db = bindE (liftK (knowledgeId i)) (\<lambda>k.
     case lookup_row flId (files db) (dbid k) of
       None \<Rightarrow> Inl KbNotFound
     | Some f \<Rightarrow> if attached db (flId f) then Inr f else Inl KbNotFound)"

definition removeAttachment :: "kb_env \<Rightarrow> string \<Rightarrow> json \<Rightarrow> kactor \<Rightarrow> kb \<Rightarrow> kb_error + (string \<times> nat) \<times> kb" where
  "removeAttachment env i input a db =
     bindE (keys_check input [''expectedVersion'']) (\<lambda>kvs.
     bindE (assertKnowledgeFields a ''knowledge-pages'' [''attachmentIds''] ''update'') (\<lambda>_.
     bindE (attachment_row (Some (JStr i)) db) (\<lambda>f.
     bindE (lockPage env (flPage f) a ''update'' 2 WorkingMode db) (\<lambda>page.
     bindE (version_check (pgVersion page) (jget kvs ''expectedVersion'')) (\<lambda>_.
     bindE (liftK (canonicalKnowledgeContent (env_host env) (node_json (pgContent page)))) (\<lambda>canon.
     bindE (require (i \<notin> set (imageIds canon)) ''image still in the text'') (\<lambda>_.
     bindE (require (\<not> list_ex (\<lambda>(_, fl, r). fl = flId f \<and> r = PRIMARY) (pageFiles db)) ''replace the primary file'') (\<lambda>_.
       Inr ((i, pgVersion page + 1), add_audit a ''knowledge-pages'' (Some (pgId page)) ''attachment.detached''
         (set_page (page\<lparr>pgVersion := pgVersion page + 1\<rparr>) (bump_file (flId f) (unlink_file (flId f) db))))))))))))"

section \<open>Cleaning up\<close>

definition orphan :: "kb_env \<Rightarrow> kactor \<Rightarrow> kb \<Rightarrow> kfile \<Rightarrow> bool" where
  "orphan env a db f \<longleftrightarrow>
     (case lookup_row pgId (pages db) (flPage f) of
        None \<Rightarrow> False | Some p \<Rightarrow> visible env db a WorkingMode ''delete'' 3 p) \<and>
     \<not> attached db (flId f) \<and> \<not> list_ex (\<lambda>(_, _, fl, _). fl = flId f) (versionFiles db)"

definition preview_keys :: "kb \<Rightarrow> string list \<Rightarrow> string list" where
  "preview_keys db fids = List.map_filter (\<lambda>v. if pvFile v \<in> set fids then pvKey v else None) (previews db)"

definition delete_files :: "string list \<Rightarrow> kb \<Rightarrow> kb" where
  "delete_files fids db = db\<lparr>files := filter (\<lambda>f. flId f \<notin> set fids) (files db),
     previews := filter (\<lambda>v. pvFile v \<notin> set fids) (previews db)\<rparr>"

definition clean_orphan_rows :: "kb_env \<Rightarrow> kactor \<Rightarrow> kb \<Rightarrow> kb_error + nat \<times> kb" where
  "clean_orphan_rows env a db =
     bindE (assertKnowledgeAction a ''knowledge-pages'' ''delete'') (\<lambda>_.
     bindE (clause_allowed a WorkingMode ''delete'') (\<lambda>_.
     let fs = filter (orphan env a db) (files db);
         fids = map flId fs;
         db1 = enqueueCleanup a (preview_keys db fids) db;
         db2 = delete_files fids db1;
         db3 = enqueueCleanup a (map flKey fs) db2
     in Inr (length fs, add_audit a ''knowledge-pages'' None ''attachment.orphans_cleaned'' db3)))"

definition own_entry :: "kactor \<Rightarrow> kcleanup \<Rightarrow> bool" where
  "own_entry a c \<longleftrightarrow> knowledgeAdministrator a \<or> (kaUser a \<noteq> None \<and> clBy c = kaUser a)"

text \<open>The deletion loop of \<open>processCleanup\<close>; \<open>del\<close> says for which keys the storage
  deletes.\<close>

fun cleanup_loop :: "(string \<Rightarrow> bool) \<Rightarrow> kcleanup list \<Rightarrow> kcleanup list \<times> string list \<Rightarrow> kcleanup list \<times> string list" where
  "cleanup_loop del [] s = s"
| "cleanup_loop del (c # cs) (queue, st) =
     (if del (clKey c)
      then cleanup_loop del cs (filter (\<lambda>x. clKey x \<noteq> clKey c) queue, drop_object (clKey c) st)
      else cleanup_loop del cs
        (map (\<lambda>x. if clKey x = clKey c then x\<lparr>clAttempts := clAttempts x + 1\<rparr> else x) queue, st))"

definition processCleanup :: "(string \<Rightarrow> bool) \<Rightarrow> kactor \<Rightarrow> kb \<Rightarrow> string list \<Rightarrow> (nat \<times> nat) \<times> kb \<times> string list" where
  "processCleanup del a db st =
     (let entries = take 100 (filter (own_entry a) (cleanup db));
          (queue, st1) = cleanup_loop del entries (cleanup db, st)
      in ((length (filter (\<lambda>c. del (clKey c)) entries), length (filter (own_entry a) queue)),
          db\<lparr>cleanup := queue\<rparr>, st1))"

text \<open>\<open>reconcileStorageOrphans\<close>: objects under the tenant's prefix that no row knows are
  queued; batching by 200 does not change what is queued.  \<open>listing\<close>: the storage can list.\<close>

definition known_keys :: "kb \<Rightarrow> string list" where
  "known_keys db = map flKey (files db) @ map clKey (cleanup db)"

definition unknown_objects :: "kb_env \<Rightarrow> kb \<Rightarrow> string list \<Rightarrow> string list" where
  "unknown_objects env db st = filter
     (\<lambda>k. take (length (object_prefix env)) k = object_prefix env \<and> k \<notin> set (known_keys db)) (js_dedup st)"

definition reconcileStorageOrphans :: "kb_env \<Rightarrow> bool \<Rightarrow> kactor \<Rightarrow> kb \<Rightarrow> string list \<Rightarrow> nat \<times> kb" where
  "reconcileStorageOrphans env listing a db st =
     (if \<not> knowledgeAdministrator a \<or> \<not> listing then (0, db)
      else
        (let ks = unknown_objects env db st; db1 = enqueueCleanup a ks db in
         (length ks, if ks = [] then db1
            else add_audit a ''knowledge-pages'' None ''attachment.storage_orphans_reconciled'' db1)))"

definition cleanOrphans ::
  "kb_env \<Rightarrow> bool \<Rightarrow> (string \<Rightarrow> bool) \<Rightarrow> kactor \<Rightarrow> kb \<Rightarrow> string list \<Rightarrow> (kb_error + (nat \<times> nat) \<times> kb) \<times> string list" where
  "cleanOrphans env listing del a db st =
     (case clean_orphan_rows env a db of
        Inl e \<Rightarrow> (Inl e, st)
      | Inr (removed, db1) \<Rightarrow>
          (let db2 = snd (reconcileStorageOrphans env listing a db1 st);
               ((_, pending), db3, st1) = processCleanup del a db2 st
           in (Inr ((removed, pending), db3), st1)))"

definition purgeAndClean ::
  "kb_env \<Rightarrow> (string \<Rightarrow> bool) \<Rightarrow> string \<Rightarrow> json \<Rightarrow> kactor \<Rightarrow> kb \<Rightarrow> string list \<Rightarrow> (kb_error + (string \<times> nat) \<times> kb) \<times> string list" where
  "purgeAndClean env del i input a db st =
     (case purge env i input a db of
        Inl e \<Rightarrow> (Inl e, st)
      | Inr (r, db1) \<Rightarrow>
          (let ((_, pending), db2, st1) = processCleanup del a db1 st in (Inr ((r, pending), db2), st1)))"

definition cleanup_actor :: kactor where
  "cleanup_actor = \<lparr>kaUser = None, kaName = ''knowledge-cleanup'', kaPermissions = [''*''], kaSystemAdmin = True,
     kaModules = [], kaScopes = []\<rparr>"

definition retryStorageCleanup :: "kb_env \<Rightarrow> bool \<Rightarrow> (string \<Rightarrow> bool) \<Rightarrow> kb \<Rightarrow> string list \<Rightarrow> kb \<times> string list" where
  "retryStorageCleanup env listing del db st =
     snd (processCleanup del cleanup_actor (snd (reconcileStorageOrphans env listing cleanup_actor db st)) st)"

end
