(* ===== verification/KnowledgeFolders.thy ===== *)
theory KnowledgeFolders
  imports KnowledgeSpaces
begin

text \<open>
  \<^verbatim>\<open>apps/api/src/modules/knowledge/knowledge.folders.service.ts\<close>: the folders of a space.
  The unique index on active names and the guard trigger of the folder table
  (\<^verbatim>\<open>migrations/1722920087000-KnowledgeFolders.ts\<close>) are \<open>folder_name_free\<close> and
  \<open>folder_guard\<close>.
\<close>

section \<open>Access and locks\<close>

definition folder_space :: "kb_env \<Rightarrow> string \<Rightarrow> kactor \<Rightarrow> string \<Rightarrow> kb \<Rightarrow> kb_error + kspace" where
  "folder_space env si a action db =
     bindE (assertKnowledgeAction a ''knowledge-pages'' action) (\<lambda>_.
     bindE (assertKnowledgeFields a ''knowledge-spaces'' [''name''] ''read'') (\<lambda>_.
     bindE (if action \<noteq> ''read'' then assertKnowledgeFields a ''knowledge-pages'' [''parentId''] ''update'' else Inr ()) (\<lambda>_.
     bindE (liftK (knowledgeId (Some (JStr si)))) (\<lambda>i.
     let minimum = (if action = ''delete'' then 3 else if action = ''read'' then 1 else 2)
     in case lookup_row spId (spaces db) (dbid i) of
          None \<Rightarrow> Inl KbNotFound
        | Some s \<Rightarrow>
            if \<not> spaceClause env db a ''read'' minimum s then Inl KbNotFound
            else bindE (require (spStatus s = SpaceActive) ''space is archived'') (\<lambda>_. Inr s)))))"

definition folder_lock :: "kb_env \<Rightarrow> string \<Rightarrow> kactor \<Rightarrow> string \<Rightarrow> kb \<Rightarrow> kb_error + kfolder" where
  "folder_lock env i a action db =
     bindE (liftK (knowledgeId (Some (JStr i)))) (\<lambda>k.
     case lookup_row fdId (filter fdActive (folders db)) (dbid k) of
       None \<Rightarrow> Inl KbNotFound
     | Some f \<Rightarrow> bindE (folder_space env (fdSpace f) a action db) (\<lambda>_. Inr f))"

section \<open>Constraints of the table\<close>

definition folder_name_free :: "kfolder list \<Rightarrow> kfolder \<Rightarrow> bool" where
  "folder_name_free rows f \<longleftrightarrow> \<not> list_ex (\<lambda>g. fdActive g \<and> fdId g \<noteq> fdId f \<and> fdSpace g = fdSpace f \<and>
     fdParent g = fdParent f \<and> lower (btrim (fdName g)) = lower (btrim (fdName f))) rows"

definition folder_parent_next :: "kfolder list \<Rightarrow> kfolder \<Rightarrow> kfolder option" where
  "folder_parent_next rows f = (case fdParent f of None \<Rightarrow> None | Some i \<Rightarrow> lookup_row fdId rows i)"

definition folder_guard :: "kfolder list \<Rightarrow> kfolder \<Rightarrow> kb_error + unit" where
  "folder_guard rows f = (case fdParent f of
     None \<Rightarrow> Inr ()
   | Some i \<Rightarrow> require (fdId f \<notin> set (map fdId (climb fdId (folder_parent_next rows) rows (lookup_row fdId rows i) {})))
       ''folder cycle'')"

definition folder_descendants :: "kb \<Rightarrow> string \<Rightarrow> kfolder list" where
  "folder_descendants db i = descendants_of fdId fdParent (folders db) i"

section \<open>Commands\<close>

definition js_string_opt :: "kb_env \<Rightarrow> json option \<Rightarrow> string" where
  "js_string_opt env v = (case v of None \<Rightarrow> ''undefined'' | Some j \<Rightarrow> js_string (env_host env) j)"

definition createFolder :: "kb_env \<Rightarrow> string \<Rightarrow> json \<Rightarrow> kactor \<Rightarrow> kb \<Rightarrow> kb_error + (string \<times> nat) \<times> kb" where
  "createFolder env i input a db =
     bindE (keys_check input [''spaceId'', ''parentFolderId'', ''name'', ''sortOrder'']) (\<lambda>kvs.
     bindE (folder_space env (js_string_opt env (jget kvs ''spaceId'')) a ''create'' db) (\<lambda>space.
     bindE (validateKnowledgeFolder db (spId space) (jget kvs ''parentFolderId'')) (\<lambda>parent.
     bindE (liftK (knowledgeText (jget kvs ''name'') 200 True)) (\<lambda>name.
     bindE (sort_check (jget kvs ''sortOrder'')) (\<lambda>order.
     let row = \<lparr>fdId = i, fdSpace = spId space, fdParent = map_option dbid parent, fdName = name, fdSort = order,
                fdActive = True, fdVersion = 1\<rparr>
     in bindE (folder_guard (folders db) row) (\<lambda>_.
        bindE (require (folder_name_free (folders db) row) ''folder name exists'') (\<lambda>_.
          Inr ((i, 1), add_audit a ''knowledge-folders'' (Some i) ''folder.created''
            (db\<lparr>folders := folders db @ [row]\<rparr>)))))))))"

definition set_folder :: "kfolder \<Rightarrow> kb \<Rightarrow> kb" where
  "set_folder f db = db\<lparr>folders := map (\<lambda>x. if fdId x = fdId f then f else x) (folders db)\<rparr>"

definition updateFolder :: "kb_env \<Rightarrow> string \<Rightarrow> json \<Rightarrow> kactor \<Rightarrow> kb \<Rightarrow> kb_error + (string \<times> nat) \<times> kb" where
  "updateFolder env i input a db =
     bindE (keys_check input [''name'', ''parentFolderId'', ''expectedVersion'']) (\<lambda>kvs.
     bindE (folder_lock env i a ''update'' db) (\<lambda>row.
     bindE (version_check (fdVersion row) (jget kvs ''expectedVersion'')) (\<lambda>_.
     bindE (if ''parentFolderId'' \<in> set (jkeys kvs)
            then validateKnowledgeFolder db (fdSpace row) (jget kvs ''parentFolderId'') else Inr (fdParent row)) (\<lambda>parent.
     bindE (require (parent \<noteq> Some i) ''cannot move under itself'') (\<lambda>_.
     let stored = (if ''parentFolderId'' \<in> set (jkeys kvs) then map_option dbid parent else parent)
     in
     bindE (require (case stored of None \<Rightarrow> True
         | Some p \<Rightarrow> p \<notin> set (map fdId (folder_descendants db (fdId row)))) ''cannot move under a descendant'') (\<lambda>_.
     bindE (liftK (knowledgeText (Some (input_or kvs ''name'' (JStr (fdName row)))) 200 True)) (\<lambda>name.
     let row1 = row\<lparr>fdName := name, fdParent := stored, fdVersion := fdVersion row + 1\<rparr>
     in bindE (folder_guard (folders db) row1) (\<lambda>_.
        bindE (require (folder_name_free (folders db) row1) ''folder name exists'') (\<lambda>_.
          Inr ((i, fdVersion row + 1), add_audit a ''knowledge-folders'' (Some (fdId row)) ''folder.updated''
            (rebuildSearch None (Some (fdSpace row)) (set_folder row1 db))))))))))))"

definition folder_in_use :: "kb \<Rightarrow> string \<Rightarrow> bool" where
  "folder_in_use db i \<longleftrightarrow>
     list_ex (\<lambda>f. fdParent f = Some i \<and> fdActive f) (folders db) \<or>
     list_ex (\<lambda>p. pgFolder p = Some i \<or>
       (case published_version db p of Some v \<Rightarrow> verFolder v = Some i | None \<Rightarrow> False)) (pages db)"

definition deleteFolder :: "kb_env \<Rightarrow> string \<Rightarrow> json \<Rightarrow> kactor \<Rightarrow> kb \<Rightarrow> kb_error + (string \<times> nat) \<times> kb" where
  "deleteFolder env i input a db =
     bindE (keys_check input [''expectedVersion'']) (\<lambda>kvs.
     bindE (folder_lock env i a ''delete'' db) (\<lambda>row.
     bindE (version_check (fdVersion row) (jget kvs ''expectedVersion'')) (\<lambda>_.
     bindE (require (\<not> folder_in_use db (fdId row)) ''folder is not empty'') (\<lambda>_.
       Inr ((i, fdVersion row + 1), add_audit a ''knowledge-folders'' (Some (fdId row)) ''folder.deleted''
         (set_folder (row\<lparr>fdActive := False, fdVersion := fdVersion row + 1\<rparr>) db))))))"

end
