(* ===== verification/PageTree.thy ===== *)
theory PageTree
  imports KnowledgeScope
begin

text \<open>
  The abstract page tree of the knowledge base: what a page is to its neighbours (place,
  life cycle, trash batch, published version), and the steps a tree may take.  The invariant
  \<open>tree_ok\<close> holds in every tree these steps reach; the theory \<open>KnowledgeTree\<close> shows
  that every command of the code is one of them.
\<close>

record tnode =
  tnId :: string
  tnParent :: "string option"
  tnSpace :: string
  tnStatus :: page_status
  tnBefore :: "page_status option"
  tnBatch :: "string option"
  tnPublished :: "string option"

record ptree =
  ptNodes :: "tnode list"
  ptSpaces :: "string list"
  ptVersions :: "(string \<times> string \<times> nat) list"

abbreviation up_rel :: "ptree \<Rightarrow> (string \<times> string) set" where
  "up_rel t \<equiv> key_rel tnId tnParent (ptNodes t)"

definition in_subtree :: "ptree \<Rightarrow> string \<Rightarrow> tnode \<Rightarrow> bool" where
  "in_subtree t k n \<longleftrightarrow> (tnId n, k) \<in> (up_rel t)\<^sup>*"

definition live_parent :: "ptree \<Rightarrow> string \<Rightarrow> string option \<Rightarrow> bool" where
  "live_parent t s par \<longleftrightarrow> (case par of None \<Rightarrow> True
     | Some q \<Rightarrow> \<exists>n \<in> set (ptNodes t). tnId n = q \<and> tnSpace n = s \<and> tnStatus n \<noteq> PageTrashed)"

definition change :: "(tnode \<Rightarrow> tnode) \<Rightarrow> ptree \<Rightarrow> ptree" where
  "change f t = t\<lparr>ptNodes := map f (ptNodes t)\<rparr>"

section \<open>Steps\<close>

definition fresh_node :: "string \<Rightarrow> string option \<Rightarrow> string \<Rightarrow> tnode" where
  "fresh_node k par s = \<lparr>tnId = k, tnParent = par, tnSpace = s, tnStatus = PageDraft, tnBefore = None,
     tnBatch = None, tnPublished = None\<rparr>"

definition published_node :: "string \<Rightarrow> string \<Rightarrow> tnode \<Rightarrow> tnode" where
  "published_node k vid n = (if tnId n = k then n\<lparr>tnStatus := PagePublished, tnPublished := Some vid\<rparr> else n)"

definition rehung_node :: "ptree \<Rightarrow> string \<Rightarrow> string option \<Rightarrow> string \<Rightarrow> tnode \<Rightarrow> tnode" where
  "rehung_node t k par s n =
     (let n1 = (if in_subtree t k n then n\<lparr>tnSpace := s\<rparr> else n)
      in if tnId n = k then n1\<lparr>tnParent := par\<rparr> else n1)"

definition trashed_node :: "ptree \<Rightarrow> string \<Rightarrow> string \<Rightarrow> tnode \<Rightarrow> tnode" where
  "trashed_node t k b n = (if in_subtree t k n \<and> tnStatus n \<noteq> PageTrashed
     then n\<lparr>tnBefore := Some (tnStatus n), tnStatus := PageTrashed, tnBatch := Some b\<rparr> else n)"

definition restored_node :: "ptree \<Rightarrow> tnode \<Rightarrow> tnode \<Rightarrow> tnode" where
  "restored_node t r n = (if in_subtree t (tnId r) n \<and> tnStatus n = PageTrashed \<and> tnBatch n = tnBatch r
     then n\<lparr>tnStatus := (case tnBefore n of Some s \<Rightarrow> s | None \<Rightarrow> PageDraft), tnBefore := None, tnBatch := None\<rparr>
     else n)"

definition archived_node :: "ptree \<Rightarrow> string \<Rightarrow> tnode \<Rightarrow> tnode" where
  "archived_node t k n = (if in_subtree t k n \<and> tnStatus n \<noteq> PageTrashed then n\<lparr>tnStatus := PageArchived\<rparr> else n)"

definition unarchived_node :: "ptree \<Rightarrow> string \<Rightarrow> tnode \<Rightarrow> tnode" where
  "unarchived_node t k n = (if in_subtree t k n \<and> tnStatus n = PageArchived then n\<lparr>tnStatus := PagePublished\<rparr> else n)"

inductive tree_step :: "ptree \<Rightarrow> ptree \<Rightarrow> bool" where
  step_same: "tree_step t t"
| step_space: "s \<notin> set (ptSpaces t) \<Longrightarrow> lower s = s \<Longrightarrow> tree_step t (t\<lparr>ptSpaces := ptSpaces t @ [s]\<rparr>)"
| step_add: "k \<notin> tnId ` set (ptNodes t) \<Longrightarrow> lower k = k \<Longrightarrow> s \<in> set (ptSpaces t) \<Longrightarrow> live_parent t s par \<Longrightarrow>
    tree_step t (t\<lparr>ptNodes := ptNodes t @ [fresh_node k par s]\<rparr>)"
| step_publish: "n \<in> set (ptNodes t) \<Longrightarrow> tnStatus n \<noteq> PageTrashed \<Longrightarrow> vid \<notin> fst ` set (ptVersions t) \<Longrightarrow>
    (\<And>w m. (w, tnId n, m) \<in> set (ptVersions t) \<Longrightarrow> m < no) \<Longrightarrow>
    tree_step t (change (published_node (tnId n) vid) (t\<lparr>ptVersions := ptVersions t @ [(vid, tnId n, no)]\<rparr>))"
| step_move: "n \<in> set (ptNodes t) \<Longrightarrow> (\<And>m. m \<in> set (ptNodes t) \<Longrightarrow> in_subtree t (tnId n) m \<Longrightarrow> tnStatus m \<noteq> PageTrashed) \<Longrightarrow>
    s \<in> set (ptSpaces t) \<Longrightarrow> live_parent t s par \<Longrightarrow> (\<And>q. par = Some q \<Longrightarrow> (q, tnId n) \<notin> (up_rel t)\<^sup>*) \<Longrightarrow>
    tree_step t (change (rehung_node t (tnId n) par s) t)"
| step_trash: "n \<in> set (ptNodes t) \<Longrightarrow> tnStatus n \<noteq> PageTrashed \<Longrightarrow> Some b \<notin> tnBatch ` set (ptNodes t) \<Longrightarrow>
    tree_step t (change (trashed_node t (tnId n) b) t)"
| step_restore: "n \<in> set (ptNodes t) \<Longrightarrow> tnStatus n = PageTrashed \<Longrightarrow> live_parent t (tnSpace n) (tnParent n) \<Longrightarrow>
    tree_step t (change (restored_node t n) t)"
| step_archive: "n \<in> set (ptNodes t) \<Longrightarrow> tnStatus n \<noteq> PageTrashed \<Longrightarrow>
    (\<And>m. m \<in> set (ptNodes t) \<Longrightarrow> in_subtree t (tnId n) m \<Longrightarrow> tnStatus m = PageTrashed \<or> tnStatus m = PagePublished) \<Longrightarrow>
    tree_step t (change (archived_node t (tnId n)) t)"
| step_unarchive: "n \<in> set (ptNodes t) \<Longrightarrow> tnStatus n = PageArchived \<Longrightarrow>
    tree_step t (change (unarchived_node t (tnId n)) t)"
| step_purge: "n \<in> set (ptNodes t) \<Longrightarrow>
    (\<And>m. m \<in> set (ptNodes t) \<Longrightarrow> in_subtree t (tnId n) m \<Longrightarrow> tnStatus m = PageTrashed) \<Longrightarrow>
    tree_step t (t\<lparr>ptNodes := filter (\<lambda>m. \<not> in_subtree t (tnId n) m) (ptNodes t),
      ptVersions := filter (\<lambda>(_, p, _). \<not> (\<exists>m \<in> set (ptNodes t). tnId m = p \<and> in_subtree t (tnId n) m)) (ptVersions t)\<rparr>)"

section \<open>The invariant\<close>

definition places_ok :: "ptree \<Rightarrow> bool" where
  "places_ok t \<longleftrightarrow> distinct (map tnId (ptNodes t)) \<and> acyclic (up_rel t) \<and>
     (\<forall>n \<in> set (ptNodes t). tnSpace n \<in> set (ptSpaces t)) \<and>
     (\<forall>n \<in> set (ptNodes t). \<forall>q. tnParent n = Some q \<longrightarrow>
        (\<exists>m \<in> set (ptNodes t). tnId m = q \<and> tnSpace m = tnSpace n))"

text \<open>Trash is closed downwards, and between two pages of one batch every page is of it.\<close>

definition node_ok :: "tnode \<Rightarrow> bool" where
  "node_ok n \<longleftrightarrow> (tnStatus n = PageTrashed) = (tnBatch n \<noteq> None) \<and>
     (tnBefore n \<noteq> None) = (tnBatch n \<noteq> None) \<and> tnBefore n \<noteq> Some PageTrashed"

definition trash_closed :: "ptree \<Rightarrow> bool" where
  "trash_closed t \<longleftrightarrow> (\<forall>n \<in> set (ptNodes t). \<forall>m \<in> set (ptNodes t).
     tnParent n = Some (tnId m) \<longrightarrow> tnStatus m = PageTrashed \<longrightarrow> tnStatus n = PageTrashed)"

definition batches_convex :: "ptree \<Rightarrow> bool" where
  "batches_convex t \<longleftrightarrow> (\<forall>n \<in> set (ptNodes t). \<forall>m \<in> set (ptNodes t). \<forall>r \<in> set (ptNodes t).
     tnParent n = Some (tnId m) \<longrightarrow> in_subtree t (tnId r) m \<longrightarrow> tnBatch n = tnBatch r \<longrightarrow>
     tnBatch n \<noteq> None \<longrightarrow> tnBatch m = tnBatch n)"

definition trash_ok :: "ptree \<Rightarrow> bool" where
  "trash_ok t \<longleftrightarrow> (\<forall>n \<in> set (ptNodes t). node_ok n) \<and> trash_closed t \<and> batches_convex t"

definition versions_ok :: "ptree \<Rightarrow> bool" where
  "versions_ok t \<longleftrightarrow> distinct (map fst (ptVersions t)) \<and> distinct (map snd (ptVersions t)) \<and>
     (\<forall>n \<in> set (ptNodes t). \<forall>v. tnPublished n = Some v \<longrightarrow> (\<exists>no. (v, tnId n, no) \<in> set (ptVersions t))) \<and>
     (\<forall>n \<in> set (ptNodes t). tnStatus n \<in> {PagePublished, PageArchived} \<or>
        tnBefore n \<in> {Some PagePublished, Some PageArchived} \<longrightarrow> tnPublished n \<noteq> None)"

text \<open>Ids are in the lower case the database gives them.\<close>

definition ids_ok :: "ptree \<Rightarrow> bool" where
  "ids_ok t \<longleftrightarrow> (\<forall>s \<in> set (ptSpaces t). lower s = s) \<and> (\<forall>n \<in> set (ptNodes t). lower (tnId n) = tnId n)"

definition tree_ok :: "ptree \<Rightarrow> bool" where
  "tree_ok t \<longleftrightarrow> ids_ok t \<and> places_ok t \<and> trash_ok t \<and> versions_ok t"

section \<open>Places are kept\<close>

lemma change_simps [simp]:
  "ptNodes (change f t) = map f (ptNodes t)" "ptSpaces (change f t) = ptSpaces t"
  "ptVersions (change f t) = ptVersions t"
  by (simp_all add: change_def)

lemma node_fields [simp]:
  "tnId (published_node k v n) = tnId n" "tnParent (published_node k v n) = tnParent n" "tnSpace (published_node k v n) = tnSpace n"
  "tnId (trashed_node t k b n) = tnId n" "tnParent (trashed_node t k b n) = tnParent n" "tnSpace (trashed_node t k b n) = tnSpace n"
  "tnId (restored_node t r n) = tnId n" "tnParent (restored_node t r n) = tnParent n" "tnSpace (restored_node t r n) = tnSpace n"
  "tnId (archived_node t k n) = tnId n" "tnParent (archived_node t k n) = tnParent n" "tnSpace (archived_node t k n) = tnSpace n"
  "tnId (unarchived_node t k n) = tnId n" "tnParent (unarchived_node t k n) = tnParent n" "tnSpace (unarchived_node t k n) = tnSpace n"
  "tnId (rehung_node t k par s n) = tnId n"
  by (simp_all add: published_node_def trashed_node_def restored_node_def archived_node_def unarchived_node_def
      rehung_node_def Let_def)

text \<open>Changes that keep every node in its place.\<close>

definition keeps_place :: "(tnode \<Rightarrow> tnode) \<Rightarrow> bool" where
  "keeps_place f \<longleftrightarrow> (\<forall>n. tnId (f n) = tnId n \<and> tnParent (f n) = tnParent n \<and> tnSpace (f n) = tnSpace n)"

lemma keeps_place_nodes:
  "keeps_place (published_node k v)" "keeps_place (trashed_node t k b)" "keeps_place (restored_node t r)"
  "keeps_place (archived_node t k)" "keeps_place (unarchived_node t k)"
  by (simp_all add: keeps_place_def)

lemma keeps_place_rel: "keeps_place f \<Longrightarrow> up_rel (change f t) = up_rel t"
  unfolding change_simps by (rule key_rel_map) (simp add: keeps_place_def)

lemma keeps_place_subtree: "keeps_place f \<Longrightarrow> in_subtree (change f t) k (f n) = in_subtree t k n"
  using keeps_place_rel[of f t] unfolding in_subtree_def by (simp add: keeps_place_def)

lemma places_okI:
  assumes "distinct (map tnId (ptNodes t))" and "acyclic (up_rel t)"
    and "\<And>n. n \<in> set (ptNodes t) \<Longrightarrow> tnSpace n \<in> set (ptSpaces t)"
    and "\<And>n q. n \<in> set (ptNodes t) \<Longrightarrow> tnParent n = Some q \<Longrightarrow>
      \<exists>m \<in> set (ptNodes t). tnId m = q \<and> tnSpace m = tnSpace n"
  shows "places_ok t"
  using assms unfolding places_ok_def by blast

lemma places_okD:
  assumes "places_ok t"
  shows "distinct (map tnId (ptNodes t))" and "acyclic (up_rel t)"
    and "n \<in> set (ptNodes t) \<Longrightarrow> tnSpace n \<in> set (ptSpaces t)"
  using assms unfolding places_ok_def by blast+

lemma places_ids: "places_ok t \<Longrightarrow> n \<in> set (ptNodes t) \<Longrightarrow> m \<in> set (ptNodes t) \<Longrightarrow> tnId n = tnId m \<Longrightarrow> n = m"
  unfolding places_ok_def by (blast intro: same_key)

lemma places_parent:
  "places_ok t \<Longrightarrow> n \<in> set (ptNodes t) \<Longrightarrow> tnParent n = Some q \<Longrightarrow>
    \<exists>m \<in> set (ptNodes t). tnId m = q \<and> tnSpace m = tnSpace n"
  unfolding places_ok_def by blast

lemma places_change:
  assumes "keeps_place f" and "places_ok t"
  shows "places_ok (change f t)"
proof (rule places_okI)
  have "map tnId (ptNodes (change f t)) = map tnId (ptNodes t)" using assms(1) by (simp add: keeps_place_def)
  then show "distinct (map tnId (ptNodes (change f t)))" using places_okD(1)[OF assms(2)] by (simp only:)
  show "acyclic (up_rel (change f t))" unfolding keeps_place_rel[OF assms(1)] by (rule places_okD(2)[OF assms(2)])
next
  fix n assume "n \<in> set (ptNodes (change f t))"
  then obtain n0 where n0: "n0 \<in> set (ptNodes t)" "n = f n0" by auto
  then show "tnSpace n \<in> set (ptSpaces (change f t))"
    using assms(1) places_okD(3)[OF assms(2)] by (simp add: keeps_place_def)
  fix q assume "tnParent n = Some q"
  then have "tnParent n0 = Some q" using assms(1) n0 by (simp add: keeps_place_def)
  with places_parent[OF assms(2) n0(1)] obtain m
    where m: "m \<in> set (ptNodes t)" "tnId m = q" "tnSpace m = tnSpace n0" by blast
  have "f m \<in> set (ptNodes (change f t))" using m(1) by simp
  moreover have "tnId (f m) = q \<and> tnSpace (f m) = tnSpace n" using m n0(2) assms(1) by (simp add: keeps_place_def)
  ultimately show "\<exists>m \<in> set (ptNodes (change f t)). tnId m = q \<and> tnSpace m = tnSpace n" by blast
qed

lemma up_rel_parent: "n \<in> set (ptNodes t) \<Longrightarrow> tnParent n = Some q \<Longrightarrow> (tnId n, q) \<in> up_rel t"
  by (auto simp: key_rel_def)

lemma in_subtree_self [simp]: "n \<in> set (ptNodes t) \<Longrightarrow> in_subtree t (tnId n) n"
  by (simp add: in_subtree_def)

lemma in_subtree_child:
  "n \<in> set (ptNodes t) \<Longrightarrow> tnParent n = Some (tnId m) \<Longrightarrow> in_subtree t k m \<Longrightarrow> in_subtree t k n"
  unfolding in_subtree_def by (meson converse_rtrancl_into_rtrancl up_rel_parent)

lemma in_subtree_parent:
  assumes "places_ok t" and "n \<in> set (ptNodes t)" and "in_subtree t k n" and "tnId n \<noteq> k"
  obtains m where "m \<in> set (ptNodes t)" and "tnParent n = Some (tnId m)" and "in_subtree t k m"
proof -
  from assms(3,4) obtain q where q: "(tnId n, q) \<in> up_rel t" "(q, k) \<in> (up_rel t)\<^sup>*"
    unfolding in_subtree_def by (metis converse_rtranclE)
  have "tnParent n = Some q"
    using assms(1) by (intro key_rel_unique[OF _ assms(2) q(1)]) (simp add: places_ok_def)
  moreover from places_parent[OF assms(1,2) this] obtain m where "m \<in> set (ptNodes t)" "tnId m = q" by blast
  ultimately show thesis using that q(2) by (simp add: in_subtree_def)
qed

lemma places_add:
  assumes "places_ok t" and "k \<notin> tnId ` set (ptNodes t)" and "s \<in> set (ptSpaces t)" and "live_parent t s par"
  shows "places_ok (t\<lparr>ptNodes := ptNodes t @ [fresh_node k par s]\<rparr>)"
proof -
  let ?new = "key_rel tnId tnParent [fresh_node k par s]"
  have parent: "\<exists>m \<in> set (ptNodes t). tnId m = q \<and> tnSpace m = s" if "par = Some q" for q
    using assms(4) that by (auto simp: live_parent_def)
  have "acyclic (up_rel t \<union> ?new)"
  proof (rule acyclic_rehang[of "up_rel t" k _ "the par"])
    show "acyclic (up_rel t)" using assms(1) by (simp add: places_ok_def)
    show "l = the par \<and> (the par, k) \<notin> (up_rel t)\<^sup>*" if "(k, l) \<in> up_rel t \<union> ?new" for l
    proof -
      have new: "par = Some l" using that assms(2) by (auto simp: key_rel_def fresh_node_def)
      have "(l, k) \<notin> (up_rel t)\<^sup>*"
      proof
        assume "(l, k) \<in> (up_rel t)\<^sup>*"
        then obtain x where "l = k \<or> (x, k) \<in> up_rel t" by (meson rtranclE)
        moreover have "l \<noteq> k" using parent[OF new] assms(2) by auto
        moreover have "(x, k) \<notin> up_rel t"
        proof
          assume "(x, k) \<in> up_rel t"
          then obtain n where "n \<in> set (ptNodes t)" "tnParent n = Some k" by (auto simp: key_rel_def)
          then show False using places_parent[OF assms(1)] assms(2) by blast
        qed
        ultimately show False by blast
      qed
      then show ?thesis using new by simp
    qed
    show "(a, b) \<in> up_rel t" if "a \<noteq> k" "(a, b) \<in> up_rel t \<union> ?new" for a b
      using that by (auto simp: key_rel_def fresh_node_def)
  qed
  then show ?thesis
    using assms parent by (auto simp: places_ok_def key_rel_append) (auto simp: fresh_node_def)
qed

lemma places_purge:
  assumes "places_ok t"
  shows "places_ok (t\<lparr>ptNodes := filter (\<lambda>m. \<not> in_subtree t k m) (ptNodes t), ptVersions := vs\<rparr>)"
proof (rule places_okI)
  let ?t = "t\<lparr>ptNodes := filter (\<lambda>m. \<not> in_subtree t k m) (ptNodes t), ptVersions := vs\<rparr>"
  show "distinct (map tnId (ptNodes ?t))" using places_okD(1)[OF assms] by (simp add: distinct_map_filter)
  have "up_rel ?t \<subseteq> up_rel t" using key_rel_filter by simp
  then show "acyclic (up_rel ?t)" using places_okD(2)[OF assms] acyclic_subset by blast
  fix n assume "n \<in> set (ptNodes ?t)"
  then have n: "n \<in> set (ptNodes t)" "\<not> in_subtree t k n" by simp_all
  then show "tnSpace n \<in> set (ptSpaces ?t)" using places_okD(3)[OF assms] by simp
  fix q assume q: "tnParent n = Some q"
  with places_parent[OF assms n(1)] obtain m
    where m: "m \<in> set (ptNodes t)" "tnId m = q" "tnSpace m = tnSpace n" by blast
  then have "\<not> in_subtree t k m" using in_subtree_child[OF n(1)] q n(2) by blast
  then show "\<exists>m \<in> set (ptNodes ?t). tnId m = q \<and> tnSpace m = tnSpace n" using m by auto
qed

lemma rehung_fields:
  "tnParent (rehung_node t k par s n) = (if tnId n = k then par else tnParent n)"
  "tnSpace (rehung_node t k par s n) = (if in_subtree t k n then s else tnSpace n)"
  by (simp_all add: rehung_node_def Let_def)

lemma places_move:
  assumes ok: "places_ok t" and n: "n \<in> set (ptNodes t)" and s: "s \<in> set (ptSpaces t)"
    and live: "live_parent t s par" and above: "\<And>q. par = Some q \<Longrightarrow> (q, tnId n) \<notin> (up_rel t)\<^sup>*"
  shows "places_ok (change (rehung_node t (tnId n) par s) t)"
proof (rule places_okI)
  let ?f = "rehung_node t (tnId n) par s"
  let ?t = "change ?f t"
  have "map tnId (ptNodes ?t) = map tnId (ptNodes t)" by simp
  then show "distinct (map tnId (ptNodes ?t))" using places_okD(1)[OF ok] by (simp only:)
  show "acyclic (up_rel ?t)"
  proof (rule acyclic_rehang[OF places_okD(2)[OF ok], of "tnId n" _ "the par"])
    show "l = the par \<and> (the par, tnId n) \<notin> (up_rel t)\<^sup>*" if l: "(tnId n, l) \<in> up_rel ?t" for l
    proof -
      from l have "par = Some l" by (auto simp: key_rel_def rehung_fields)
      then show ?thesis using above by simp
    qed
    show "(a, b) \<in> up_rel t" if "a \<noteq> tnId n" "(a, b) \<in> up_rel ?t" for a b
      using that by (auto simp: key_rel_def rehung_fields)
  qed
  fix x assume "x \<in> set (ptNodes ?t)"
  then obtain x0 where x0: "x0 \<in> set (ptNodes t)" "x = ?f x0" by auto
  then show "tnSpace x \<in> set (ptSpaces ?t)" using places_okD(3)[OF ok] s by (simp add: rehung_fields)
  fix q assume q: "tnParent x = Some q"
  have "\<exists>m0 \<in> set (ptNodes t). tnId m0 = q \<and> tnSpace (?f m0) = tnSpace x"
  proof (cases "tnId x0 = tnId n")
    case True
    then have "par = Some q" "tnSpace x = s" using q x0 n by (simp_all add: rehung_fields in_subtree_def)
    with live obtain m0 where "m0 \<in> set (ptNodes t)" "tnId m0 = q" "tnSpace m0 = s" by (auto simp: live_parent_def)
    then show ?thesis using \<open>tnSpace x = s\<close> by (auto simp: rehung_fields intro!: bexI[of _ m0])
  next
    case False
    then have qx: "tnParent x0 = Some q" using q x0 by (simp add: rehung_fields)
    with places_parent[OF ok x0(1)] obtain m0
      where m0: "m0 \<in> set (ptNodes t)" "tnId m0 = q" "tnSpace m0 = tnSpace x0" by blast
    have "in_subtree t (tnId n) m0 = in_subtree t (tnId n) x0"
    proof
      assume "in_subtree t (tnId n) m0"
      then show "in_subtree t (tnId n) x0" using in_subtree_child[OF x0(1)] qx m0(2) by blast
    next
      assume "in_subtree t (tnId n) x0"
      then obtain m where "m \<in> set (ptNodes t)" "tnParent x0 = Some (tnId m)" "in_subtree t (tnId n) m"
        using in_subtree_parent[OF ok x0(1) _ False] by blast
      then show "in_subtree t (tnId n) m0" using qx m0(2) by (simp add: in_subtree_def)
    qed
    then show ?thesis using m0 x0(2) by (auto simp: rehung_fields intro!: bexI[of _ m0])
  qed
  then obtain m0 where "m0 \<in> set (ptNodes t)" "tnId m0 = q" "tnSpace (?f m0) = tnSpace x" by blast
  then have "?f m0 \<in> set (ptNodes ?t)" "tnId (?f m0) = q" "tnSpace (?f m0) = tnSpace x" by simp_all
  then show "\<exists>m \<in> set (ptNodes ?t). tnId m = q \<and> tnSpace m = tnSpace x" by blast
qed

lemma places_space: "places_ok t \<Longrightarrow> places_ok (t\<lparr>ptSpaces := ptSpaces t @ [s]\<rparr>)"
  unfolding places_ok_def by simp

lemma places_versions: "places_ok t \<Longrightarrow> places_ok (t\<lparr>ptVersions := vs\<rparr>)"
  unfolding places_ok_def by simp

lemma places_kept: "tree_step t t' \<Longrightarrow> places_ok t \<Longrightarrow> places_ok t'"
proof (induction rule: tree_step.induct)
  case (step_space s t)
  then show ?case by (intro places_space)
next
  case (step_add k t s par)
  then show ?case by (intro places_add)
next
  case (step_publish n t vid no)
  then show ?case by (intro places_change keeps_place_nodes places_versions)
next
  case (step_move n t s par)
  then show ?case by (intro places_move)
next
  case (step_trash n t b)
  then show ?case by (intro places_change keeps_place_nodes)
next
  case (step_restore n t)
  then show ?case by (intro places_change keeps_place_nodes)
next
  case (step_archive n t)
  then show ?case by (intro places_change keeps_place_nodes)
next
  case (step_unarchive n t)
  then show ?case by (intro places_change keeps_place_nodes)
next
  case (step_purge n t)
  then show ?case by (intro places_purge)
qed

section \<open>The trash is kept\<close>

lemma trash_closedD:
  "trash_closed t \<Longrightarrow> n \<in> set (ptNodes t) \<Longrightarrow> m \<in> set (ptNodes t) \<Longrightarrow> tnParent n = Some (tnId m) \<Longrightarrow>
    tnStatus m = PageTrashed \<Longrightarrow> tnStatus n = PageTrashed"
  unfolding trash_closed_def by blast

lemma batches_convexD:
  "batches_convex t \<Longrightarrow> n \<in> set (ptNodes t) \<Longrightarrow> m \<in> set (ptNodes t) \<Longrightarrow> r \<in> set (ptNodes t) \<Longrightarrow>
    tnParent n = Some (tnId m) \<Longrightarrow> in_subtree t (tnId r) m \<Longrightarrow> tnBatch n = tnBatch r \<Longrightarrow> tnBatch n \<noteq> None \<Longrightarrow>
    tnBatch m = tnBatch n"
  unfolding batches_convex_def by blast

lemma in_subtree_trans:
  "in_subtree t (tnId r) m \<Longrightarrow> in_subtree t k r \<Longrightarrow> in_subtree t k m"
  unfolding in_subtree_def by simp

text \<open>Node by node.\<close>

lemma node_ok_steps:
  "node_ok n \<Longrightarrow> node_ok (trashed_node t k b n)"
  "node_ok n \<Longrightarrow> node_ok (restored_node t r n)"
  "node_ok n \<Longrightarrow> node_ok (archived_node t k n)"
  "node_ok n \<Longrightarrow> node_ok (unarchived_node t k n)"
  "node_ok n \<Longrightarrow> node_ok (rehung_node t k par s n)"
  "node_ok n \<Longrightarrow> tnStatus n \<noteq> PageTrashed \<or> tnId n \<noteq> k \<Longrightarrow> node_ok (published_node k v n)"
  "node_ok (fresh_node k par s)"
  by (auto simp: node_ok_def trashed_node_def restored_node_def archived_node_def unarchived_node_def
      rehung_node_def published_node_def fresh_node_def Let_def split: option.splits)

text \<open>Closure.  First the changes that keep what is in the trash.\<close>

definition keeps_trash :: "ptree \<Rightarrow> (tnode \<Rightarrow> tnode) \<Rightarrow> bool" where
  "keeps_trash t f \<longleftrightarrow> (\<forall>n \<in> set (ptNodes t). (tnStatus (f n) = PageTrashed) = (tnStatus n = PageTrashed) \<and>
     tnBatch (f n) = tnBatch n)"

lemma keeps_trash_nodes:
  "keeps_trash t (archived_node t k)" "keeps_trash t (unarchived_node t k)" "keeps_trash t (rehung_node t k par s)"
  "places_ok t \<Longrightarrow> n \<in> set (ptNodes t) \<Longrightarrow> tnStatus n \<noteq> PageTrashed \<Longrightarrow> keeps_trash t (published_node (tnId n) v)"
  by (auto simp: keeps_trash_def archived_node_def unarchived_node_def rehung_node_def published_node_def Let_def
      dest: places_ids)

lemma closed_keep:
  assumes "keeps_place f" and "keeps_trash t f" and "trash_closed t"
  shows "trash_closed (change f t)"
proof -
  have "tnStatus (f n) = PageTrashed"
    if "n \<in> set (ptNodes t)" "m \<in> set (ptNodes t)" "tnParent (f n) = Some (tnId (f m))" "tnStatus (f m) = PageTrashed" for n m
    using that assms(1,2) trash_closedD[OF assms(3) that(1,2)] by (simp add: keeps_place_def keeps_trash_def)
  then show ?thesis by (auto simp: trash_closed_def)
qed

lemma closed_trash:
  assumes "trash_closed t"
  shows "trash_closed (change (trashed_node t k b) t)"
proof -
  let ?f = "trashed_node t k b"
  have "tnStatus (?f n) = PageTrashed"
    if n: "n \<in> set (ptNodes t)" "m \<in> set (ptNodes t)" "tnParent n = Some (tnId m)" and m: "tnStatus (?f m) = PageTrashed" for n m
  proof (cases "tnStatus m = PageTrashed")
    case True
    then show ?thesis using trash_closedD[OF assms n] by (simp add: trashed_node_def)
  next
    case False
    then have "in_subtree t k m" using m by (simp add: trashed_node_def split: if_splits)
    then have "in_subtree t k n" by (rule in_subtree_child[OF n(1,3)])
    then show ?thesis by (simp add: trashed_node_def)
  qed
  then show ?thesis by (auto simp: trash_closed_def)
qed

lemma closed_restore:
  assumes ok: "places_ok t" and nodes: "\<And>n. n \<in> set (ptNodes t) \<Longrightarrow> node_ok n" and closed: "trash_closed t"
    and convex: "batches_convex t" and r: "r \<in> set (ptNodes t)" "tnStatus r = PageTrashed"
    and live: "live_parent t (tnSpace r) (tnParent r)"
  shows "trash_closed (change (restored_node t r) t)"
proof -
  let ?f = "restored_node t r"
  have "tnStatus (?f n) = PageTrashed"
    if n: "n \<in> set (ptNodes t)" "m \<in> set (ptNodes t)" "tnParent n = Some (tnId m)" and m: "tnStatus (?f m) = PageTrashed" for n m
  proof (rule ccontr)
    assume no: "tnStatus (?f n) \<noteq> PageTrashed"
    have before: "tnBefore m \<noteq> Some PageTrashed" using nodes[OF n(2)] by (simp add: node_ok_def)
    then have mt: "tnStatus m = PageTrashed" using m by (auto simp: restored_node_def split: if_splits option.splits)
    then have nt: "tnStatus n = PageTrashed" using trash_closedD[OF closed n] by simp
    have sub: "in_subtree t (tnId r) n" "tnBatch n = tnBatch r"
      using no nt by (auto simp: restored_node_def split: if_splits)
    have kept: "\<not> (in_subtree t (tnId r) m \<and> tnBatch m = tnBatch r)"
      using m before mt by (auto simp: restored_node_def split: if_splits option.splits)
    show False
    proof (cases "tnId n = tnId r")
      case True
      then have "n = r" using places_ids[OF ok n(1) r(1)] by simp
      then obtain p where "p \<in> set (ptNodes t)" "tnId p = tnId m" "tnStatus p \<noteq> PageTrashed"
        using live n(3) by (auto simp: live_parent_def)
      then show False using places_ids[OF ok _ n(2)] mt by blast
    next
      case False
      then obtain p where "p \<in> set (ptNodes t)" "tnParent n = Some (tnId p)" "in_subtree t (tnId r) p"
        using in_subtree_parent[OF ok n(1) sub(1)] by blast
      then have m_sub: "in_subtree t (tnId r) m" using n(3) by (simp add: in_subtree_def)
      have "tnBatch n \<noteq> None" using nt nodes[OF n(1)] by (simp add: node_ok_def)
      then have "tnBatch m = tnBatch n" by (rule batches_convexD[OF convex n(1,2) r(1) n(3) m_sub sub(2)])
      then show False using kept m_sub sub(2) by simp
    qed
  qed
  then show ?thesis by (auto simp: trash_closed_def)
qed

lemma live_parent_at:
  "places_ok t \<Longrightarrow> live_parent t s (Some (tnId m)) \<Longrightarrow> m \<in> set (ptNodes t) \<Longrightarrow> tnStatus m \<noteq> PageTrashed"
  unfolding live_parent_def by (auto dest: places_ids)

lemma closed_move:
  assumes "places_ok t" and "trash_closed t" and "live_parent t s par"
  shows "trash_closed (change (rehung_node t k par s) t)"
proof -
  let ?f = "rehung_node t k par s"
  have st: "tnStatus (?f n) = tnStatus n" for n by (simp add: rehung_node_def Let_def)
  have "tnStatus n = PageTrashed"
    if n: "n \<in> set (ptNodes t)" "m \<in> set (ptNodes t)" "tnParent (?f n) = Some (tnId m)" "tnStatus m = PageTrashed" for n m
  proof (cases "tnId n = k")
    case True
    then have "par = Some (tnId m)" using n(3) by (simp add: rehung_fields)
    then have "live_parent t s (Some (tnId m))" using assms(3) by simp
    then show ?thesis using live_parent_at[OF assms(1) _ n(2)] n(4) by blast
  next
    case False
    then have "tnParent n = Some (tnId m)" using n(3) by (simp add: rehung_fields)
    then show ?thesis using trash_closedD[OF assms(2) n(1,2)] n(4) by simp
  qed
  then show ?thesis by (auto simp: trash_closed_def st)
qed

text \<open>A new node is nobody's parent.\<close>

lemma fresh_no_child: "places_ok t \<Longrightarrow> k \<notin> tnId ` set (ptNodes t) \<Longrightarrow> n \<in> set (ptNodes t) \<Longrightarrow> tnParent n \<noteq> Some k"
  using places_parent[of t n k] by auto

lemma fresh_fields [simp]:
  "tnId (fresh_node k par s) = k" "tnParent (fresh_node k par s) = par" "tnStatus (fresh_node k par s) = PageDraft"
  "tnBatch (fresh_node k par s) = None" "tnPublished (fresh_node k par s) = None" "tnBefore (fresh_node k par s) = None"
  by (simp_all add: fresh_node_def)

lemma closed_add:
  assumes "places_ok t" and "trash_closed t" and "k \<notin> tnId ` set (ptNodes t)" and "live_parent t s par"
  shows "trash_closed (t\<lparr>ptNodes := ptNodes t @ [fresh_node k par s]\<rparr>)"
proof -
  have "tnStatus m \<noteq> PageTrashed" if "m \<in> set (ptNodes t)" "par = Some (tnId m)" for m
    using live_parent_at[OF assms(1) _ that(1)] assms(4) that(2) by simp
  moreover have "par \<noteq> Some k" using assms(3,4) by (auto simp: live_parent_def)
  ultimately show ?thesis
    using assms(2) by (simp add: trash_closed_def)
qed

lemma closed_filter: "trash_closed t \<Longrightarrow> trash_closed (t\<lparr>ptNodes := filter P (ptNodes t), ptVersions := vs\<rparr>)"
  unfolding trash_closed_def by auto

lemma trash_kept_closed:
  assumes "tree_step t t'" and "places_ok t" and "trash_ok t"
  shows "trash_closed t'"
  using assms
proof (induction rule: tree_step.induct)
  case (step_publish n t vid no)
  then have "trash_closed (change (published_node (tnId n) vid) t)"
    by (intro closed_keep keeps_place_nodes keeps_trash_nodes) (simp_all add: trash_ok_def)
  then show ?case by (simp add: trash_closed_def change_def)
next
  case (step_restore n t)
  then show ?case by (intro closed_restore) (simp_all add: trash_ok_def)
next
  case (step_move n t s par)
  then show ?case by (intro closed_move) (simp_all add: trash_ok_def)
next
  case (step_add k t s par)
  then show ?case by (intro closed_add) (simp_all add: trash_ok_def)
next
  case (step_trash n t b)
  then show ?case by (intro closed_trash) (simp_all add: trash_ok_def)
next
  case (step_archive n t)
  then show ?case by (intro closed_keep keeps_place_nodes keeps_trash_nodes) (simp_all add: trash_ok_def)
next
  case (step_unarchive n t)
  then show ?case by (intro closed_keep keeps_place_nodes keeps_trash_nodes) (simp_all add: trash_ok_def)
next
  case (step_purge n t)
  then show ?case by (intro closed_filter) (simp add: trash_ok_def)
qed (simp_all add: trash_ok_def trash_closed_def)

text \<open>Convexity.\<close>

lemma convex_keep:
  assumes "keeps_place f" and "keeps_trash t f" and "batches_convex t"
  shows "batches_convex (change f t)"
proof -
  have f: "tnId (f n) = tnId n" "tnParent (f n) = tnParent n" for n using assms(1) by (simp_all add: keeps_place_def)
  have b: "tnBatch (f n) = tnBatch n" if "n \<in> set (ptNodes t)" for n using that assms(2) by (simp add: keeps_trash_def)
  have "tnBatch (f m) = tnBatch (f n)"
    if "n \<in> set (ptNodes t)" "m \<in> set (ptNodes t)" "r \<in> set (ptNodes t)" "tnParent n = Some (tnId m)"
      "in_subtree t (tnId r) m" "tnBatch (f n) = tnBatch (f r)" "tnBatch (f n) \<noteq> None" for n m r
    using that b batches_convexD[OF assms(3) that(1-5)] by simp
  then show ?thesis
    unfolding batches_convex_def change_simps by (auto simp: f keeps_place_subtree[OF assms(1)])
qed

lemma convex_trash:
  assumes nodes: "\<And>n. n \<in> set (ptNodes t) \<Longrightarrow> node_ok n" and closed: "trash_closed t" and convex: "batches_convex t"
    and fresh: "Some b \<notin> tnBatch ` set (ptNodes t)"
  shows "batches_convex (change (trashed_node t k b) t)"
proof -
  let ?f = "trashed_node t k b"
  have new: "tnBatch (?f n) = Some b \<longleftrightarrow> in_subtree t k n \<and> tnStatus n \<noteq> PageTrashed" if "n \<in> set (ptNodes t)" for n
    using fresh that by (auto simp: trashed_node_def image_iff)
  have old: "tnBatch (?f n) = tnBatch n" if "n \<in> set (ptNodes t)" "tnStatus n = PageTrashed" for n
    using that by (simp add: trashed_node_def)
  have "tnBatch (?f m) = tnBatch (?f n)"
    if n: "n \<in> set (ptNodes t)" "m \<in> set (ptNodes t)" "r \<in> set (ptNodes t)" "tnParent n = Some (tnId m)"
      and r: "in_subtree t (tnId r) m" "tnBatch (?f n) = tnBatch (?f r)" "tnBatch (?f n) \<noteq> None" for n m r
  proof (cases "tnBatch (?f n) = Some b")
    case True
    then have "tnStatus n \<noteq> PageTrashed" "in_subtree t k r" using new[OF n(1)] new[OF n(3)] r(2) by simp_all
    then have "tnStatus m \<noteq> PageTrashed" "in_subtree t k m"
      using trash_closedD[OF closed n(1,2,4)] in_subtree_trans[OF r(1)] by blast+
    then show ?thesis using new[OF n(2)] True by simp
  next
    case False
    have same: "?f x = x" if "tnBatch (?f x) = tnBatch (?f n)" for x
      using that False by (auto simp: trashed_node_def split: if_splits)
    have nr: "tnBatch n = tnBatch r" "tnBatch n \<noteq> None" using r(2,3) same[of n] same[of r] by simp_all
    then have mb: "tnBatch m = tnBatch n" by (rule batches_convexD[OF convex n(1-3) n(4) r(1)])
    then have "tnStatus m = PageTrashed" using nodes[OF n(2)] nr(2) by (simp add: node_ok_def)
    then show ?thesis using old[OF n(2)] mb same[of n] by simp
  qed
  then show ?thesis unfolding batches_convex_def change_simps by (auto simp: keeps_place_subtree[OF keeps_place_nodes(2)])
qed

lemma convex_restore:
  assumes nodes: "\<And>n. n \<in> set (ptNodes t) \<Longrightarrow> node_ok n" and convex: "batches_convex t"
  shows "batches_convex (change (restored_node t q) t)"
proof -
  let ?f = "restored_node t q"
  have "tnBatch (?f m) = tnBatch (?f n)"
    if n: "n \<in> set (ptNodes t)" "m \<in> set (ptNodes t)" "r \<in> set (ptNodes t)" "tnParent n = Some (tnId m)"
      and r: "in_subtree t (tnId r) m" "tnBatch (?f n) = tnBatch (?f r)" "tnBatch (?f n) \<noteq> None" for n m r
  proof -
    have same: "?f x = x" if "tnBatch (?f x) = tnBatch (?f n)" for x
      using that r(3) by (auto simp: restored_node_def split: if_splits)
    have nr: "tnBatch n = tnBatch r" "tnBatch n \<noteq> None" using r(2,3) same[of n] same[of r] by simp_all
    then have mb: "tnBatch m = tnBatch n" by (rule batches_convexD[OF convex n(1-3) n(4) r(1)])
    have nt: "tnStatus n = PageTrashed" using nodes[OF n(1)] nr(2) by (simp add: node_ok_def)
    have "\<not> (in_subtree t (tnId q) n \<and> tnBatch n = tnBatch q)"
      using r(3) nt by (auto simp: restored_node_def)
    then have "\<not> (in_subtree t (tnId q) m \<and> tnBatch m = tnBatch q)"
      using in_subtree_child[OF n(1,4)] mb by auto
    then have "?f m = m" by (auto simp: restored_node_def)
    then show ?thesis using mb same[of n] by simp
  qed
  then show ?thesis unfolding batches_convex_def change_simps by (auto simp: keeps_place_subtree[OF keeps_place_nodes(3)])
qed

text \<open>Paths that do not start at the node \<open>k\<close> whose edges are new stay what they were.\<close>

lemma old_path:
  assumes "(x, y) \<in> S\<^sup>*" and "\<And>a b. a \<noteq> k \<Longrightarrow> (a, b) \<in> S \<Longrightarrow> (a, b) \<in> R" and "(x, k) \<notin> R\<^sup>*"
  shows "(x, y) \<in> R\<^sup>*"
  using assms(1)
proof (induction rule: rtrancl_induct)
  case (step a b)
  then have "a \<noteq> k" using assms(3) by auto
  then have "(a, b) \<in> R" by (rule assms(2)[OF _ step(2)])
  then show ?case using step(3) by (meson rtrancl_into_rtrancl)
qed simp

lemma convex_move:
  assumes nodes: "\<And>n. n \<in> set (ptNodes t) \<Longrightarrow> node_ok n" and convex: "batches_convex t"
    and live: "\<And>m. m \<in> set (ptNodes t) \<Longrightarrow> in_subtree t k m \<Longrightarrow> tnStatus m \<noteq> PageTrashed"
  shows "batches_convex (change (rehung_node t k par s) t)"
proof -
  let ?f = "rehung_node t k par s"
  let ?t = "change ?f t"
  have f: "tnId (?f x) = tnId x" "tnBatch (?f x) = tnBatch x" for x by (simp_all add: rehung_node_def Let_def)
  have edges: "(a, b) \<in> up_rel t" if "a \<noteq> k" "(a, b) \<in> up_rel ?t" for a b
    using that by (auto simp: key_rel_def rehung_fields)
  have "tnBatch m = tnBatch n"
    if n: "n \<in> set (ptNodes t)" "m \<in> set (ptNodes t)" "r \<in> set (ptNodes t)" "tnParent (?f n) = Some (tnId m)"
      and r: "in_subtree ?t (tnId r) m" "tnBatch n = tnBatch r" "tnBatch n \<noteq> None" for n m r
  proof -
    have out: "\<not> in_subtree t k n" using live[OF n(1)] nodes[OF n(1)] r(3) by (auto simp: node_ok_def)
    then have nk: "tnId n \<noteq> k" by (auto simp: in_subtree_def)
    then have par: "tnParent n = Some (tnId m)" using n(4) by (simp add: rehung_fields)
    then have "\<not> in_subtree t k m" using in_subtree_child[OF n(1)] out by blast
    then have "(tnId m, tnId r) \<in> (up_rel t)\<^sup>*"
      using r(1) unfolding in_subtree_def by (intro old_path[OF _ edges]) simp_all
    then show ?thesis
      using batches_convexD[OF convex n(1-3) par _ r(2,3)] by (simp add: in_subtree_def)
  qed
  then show ?thesis unfolding batches_convex_def change_simps by (auto simp: f in_subtree_def)
qed

lemma convex_add:
  assumes ok: "places_ok t" and convex: "batches_convex t" and k: "k \<notin> tnId ` set (ptNodes t)"
  shows "batches_convex (t\<lparr>ptNodes := ptNodes t @ [fresh_node k par s]\<rparr>)" (is "batches_convex ?t")
proof -
  have edges: "(a, b) \<in> up_rel t" if "a \<noteq> k" "(a, b) \<in> up_rel ?t" for a b
    using that by (auto simp: key_rel_def)
  have "tnBatch m = tnBatch n"
    if n: "n \<in> set (ptNodes ?t)" "m \<in> set (ptNodes ?t)" "r \<in> set (ptNodes ?t)" "tnParent n = Some (tnId m)"
      and r: "in_subtree ?t (tnId r) m" "tnBatch n = tnBatch r" "tnBatch n \<noteq> None" for n m r
  proof -
    have old: "n \<in> set (ptNodes t)" "r \<in> set (ptNodes t)" using n(1,3) r(2,3) by auto
    have m: "m \<in> set (ptNodes t)" using n(2,4) fresh_no_child[OF ok k old(1)] by auto
    have "(tnId m, k) \<notin> (up_rel t)\<^sup>*"
    proof
      assume "(tnId m, k) \<in> (up_rel t)\<^sup>*"
      then consider "tnId m = k" | x where "(x, k) \<in> up_rel t" by (meson rtranclE)
      then show False
      proof cases
        case 1
        then show False using m k by auto
      next
        case 2
        then obtain y where "y \<in> set (ptNodes t)" "tnParent y = Some k" by (auto simp: key_rel_def)
        then show False using fresh_no_child[OF ok k] by blast
      qed
    qed
    then have "(tnId m, tnId r) \<in> (up_rel t)\<^sup>*"
      using r(1) unfolding in_subtree_def by (intro old_path[OF _ edges]) simp_all
    then show ?thesis
      using batches_convexD[OF convex old(1) m old(2) n(4) _ r(2,3)] by (simp add: in_subtree_def)
  qed
  then show ?thesis unfolding batches_convex_def by blast
qed

lemma convex_filter:
  assumes "batches_convex t"
  shows "batches_convex (t\<lparr>ptNodes := filter P (ptNodes t), ptVersions := vs\<rparr>)" (is "batches_convex ?t")
proof -
  have "up_rel ?t \<subseteq> up_rel t" using key_rel_filter by simp
  then have sub: "in_subtree ?t k m \<Longrightarrow> in_subtree t k m" for k m
    unfolding in_subtree_def using rtrancl_mono by blast
  have "tnBatch m = tnBatch n"
    if n: "n \<in> set (ptNodes ?t)" "m \<in> set (ptNodes ?t)" "r \<in> set (ptNodes ?t)" "tnParent n = Some (tnId m)"
      and r: "in_subtree ?t (tnId r) m" "tnBatch n = tnBatch r" "tnBatch n \<noteq> None" for n m r
    using n batches_convexD[OF assms _ _ _ n(4) sub[OF r(1)] r(2,3)] by simp
  then show ?thesis unfolding batches_convex_def by blast
qed

lemma convex_versions: "batches_convex (t\<lparr>ptVersions := vs\<rparr>) = batches_convex t"
  by (simp add: batches_convex_def in_subtree_def)

lemma trash_kept_convex:
  assumes "tree_step t t'" and "places_ok t" and "trash_ok t"
  shows "batches_convex t'"
  using assms
proof (induction rule: tree_step.induct)
  case (step_publish n t vid no)
  then have "batches_convex (change (published_node (tnId n) vid) t)"
    by (intro convex_keep keeps_place_nodes keeps_trash_nodes) (simp_all add: trash_ok_def)
  then have "batches_convex ((change (published_node (tnId n) vid) t)\<lparr>ptVersions := ptVersions t @ [(vid, tnId n, no)]\<rparr>)"
    by (simp only: convex_versions)
  then show ?case by (simp add: change_def batches_convex_def in_subtree_def)
next
  case (step_restore n t)
  then show ?case by (intro convex_restore) (simp_all add: trash_ok_def)
next
  case (step_move n t s par)
  then show ?case by (intro convex_move) (simp_all add: trash_ok_def)
next
  case (step_add k t s par)
  then show ?case by (intro convex_add) (simp_all add: trash_ok_def)
next
  case (step_trash n t b)
  then show ?case by (intro convex_trash) (simp_all add: trash_ok_def)
next
  case (step_archive n t)
  then show ?case by (intro convex_keep keeps_place_nodes keeps_trash_nodes) (simp_all add: trash_ok_def)
next
  case (step_unarchive n t)
  then show ?case by (intro convex_keep keeps_place_nodes keeps_trash_nodes) (simp_all add: trash_ok_def)
next
  case (step_purge n t)
  then show ?case by (intro convex_filter) (simp add: trash_ok_def)
qed (simp_all add: trash_ok_def batches_convex_def in_subtree_def)

lemma trash_kept_nodes:
  assumes "tree_step t t'" and "places_ok t" and "trash_ok t" and "n \<in> set (ptNodes t')"
  shows "node_ok n"
  using assms
proof (induction rule: tree_step.induct)
  case (step_publish m t vid no)
  then obtain x where x: "x \<in> set (ptNodes t)" "n = published_node (tnId m) vid x" by auto
  moreover have "tnStatus x \<noteq> PageTrashed \<or> tnId x \<noteq> tnId m"
    using places_ids[OF step_publish(5) x(1) step_publish(1)] step_publish(2) by auto
  moreover have "node_ok x" using x(1) step_publish(6) by (simp add: trash_ok_def)
  ultimately show ?case by (simp add: node_ok_steps)
qed (auto simp: trash_ok_def node_ok_steps)

lemma trash_kept: "tree_step t t' \<Longrightarrow> places_ok t \<Longrightarrow> trash_ok t \<Longrightarrow> trash_ok t'"
  unfolding trash_ok_def[of t'] by (blast intro: trash_kept_nodes trash_kept_closed trash_kept_convex)

section \<open>Published versions are kept\<close>

definition published_ok :: "(string \<times> string \<times> nat) list \<Rightarrow> tnode \<Rightarrow> bool" where
  "published_ok vs n \<longleftrightarrow> (\<forall>v. tnPublished n = Some v \<longrightarrow> (\<exists>no. (v, tnId n, no) \<in> set vs)) \<and>
     (tnStatus n \<in> {PagePublished, PageArchived} \<or> tnBefore n \<in> {Some PagePublished, Some PageArchived} \<longrightarrow>
        tnPublished n \<noteq> None)"

lemma versions_ok_iff:
  "versions_ok t \<longleftrightarrow> distinct (map fst (ptVersions t)) \<and> distinct (map snd (ptVersions t)) \<and>
     (\<forall>n \<in> set (ptNodes t). published_ok (ptVersions t) n)"
  unfolding versions_ok_def published_ok_def by blast

lemma published_ok_mono: "published_ok vs n \<Longrightarrow> set vs \<subseteq> set ws \<Longrightarrow> published_ok ws n"
  unfolding published_ok_def by blast

lemma published_ok_steps:
  "published_ok vs n \<Longrightarrow> published_ok vs (trashed_node t k b n)"
  "published_ok vs n \<Longrightarrow> published_ok vs (restored_node t r n)"
  "published_ok vs n \<Longrightarrow> published_ok vs (rehung_node t k par s n)"
  "published_ok vs n \<Longrightarrow> published_ok vs (unarchived_node t k n)"
  "published_ok vs n \<Longrightarrow> in_subtree t k n \<Longrightarrow> tnStatus n = PageTrashed \<or> tnStatus n = PagePublished \<Longrightarrow>
    published_ok vs (archived_node t k n)"
  "published_ok vs n \<Longrightarrow> \<not> in_subtree t k n \<Longrightarrow> published_ok vs (archived_node t k n)"
  "published_ok vs n \<Longrightarrow> (vid, k, no) \<in> set vs \<Longrightarrow> published_ok vs (published_node k vid n)"
  "published_ok vs (fresh_node k par s)"
  by (auto simp: published_ok_def trashed_node_def restored_node_def archived_node_def unarchived_node_def
      rehung_node_def published_node_def Let_def split: option.splits)

lemma versions_kept: "tree_step t t' \<Longrightarrow> versions_ok t \<Longrightarrow> versions_ok t'"
proof (induction rule: tree_step.induct)
  case (step_publish n t vid no)
  let ?vs = "ptVersions t @ [(vid, tnId n, no)]"
  have "distinct (map fst ?vs)" using step_publish by (simp add: versions_ok_iff)
  moreover have "(tnId n, no) \<notin> snd ` set (ptVersions t)" using step_publish(4) by fastforce
  then have "distinct (map snd ?vs)" using step_publish by (simp add: versions_ok_iff)
  moreover have "published_ok ?vs (published_node (tnId n) vid x)" if "x \<in> set (ptNodes t)" for x
  proof (rule published_ok_steps(7)[where no = no])
    have "published_ok (ptVersions t) x" using step_publish(5) that by (simp add: versions_ok_iff)
    then show "published_ok ?vs x" by (rule published_ok_mono) auto
  qed simp
  ultimately show ?case by (simp add: versions_ok_iff)
next
  case (step_archive n t)
  have "published_ok (ptVersions t) (archived_node t (tnId n) x)" if "x \<in> set (ptNodes t)" for x
    using that step_archive(3)[OF that] step_archive(4)
    by (cases "in_subtree t (tnId n) x") (simp_all add: versions_ok_iff published_ok_steps)
  then show ?case using step_archive(4) by (simp add: versions_ok_iff)
next
  case (step_purge n t)
  let ?gone = "\<lambda>p. \<exists>m \<in> set (ptNodes t). tnId m = p \<and> in_subtree t (tnId n) m"
  have "published_ok (filter (\<lambda>(_, p, _). \<not> ?gone p) (ptVersions t)) x"
    if "x \<in> set (ptNodes t)" "\<not> in_subtree t (tnId n) x" for x
  proof -
    have "\<not> ?gone (tnId x)" using that(2) by (auto simp: in_subtree_def)
    then show ?thesis using step_purge(3) that(1) by (fastforce simp: versions_ok_iff published_ok_def)
  qed
  then show ?case using step_purge(3) by (simp add: versions_ok_iff distinct_map_filter)
qed (auto simp: versions_ok_iff published_ok_steps)

lemma ids_kept: "tree_step t t' \<Longrightarrow> ids_ok t \<Longrightarrow> ids_ok t'"
  by (induction rule: tree_step.induct) (auto simp: ids_ok_def)

theorem tree_ok_kept: "tree_step t t' \<Longrightarrow> tree_ok t \<Longrightarrow> tree_ok t'"
  unfolding tree_ok_def using ids_kept places_kept trash_kept versions_kept by blast

end
