(* ===== verification/KnowledgeTree.thy ===== *)
theory KnowledgeTree
  imports KnowledgeFiles KnowledgeFolders PageTree
begin

text \<open>
  What the commands on the knowledge base keep true of the page tree and of the published
  versions (\<open>tree_ok\<close>), over every sequence of commands by any actors (\<open>kb_reach\<close>);
  what publishing, moving and purging do to it.
\<close>

section \<open>Inverting the commands\<close>

lemma lockPage_row:
  "lockPage env i a action n mode db = Inr p \<Longrightarrow>
    p \<in> set (pages db) \<and> pgId p = dbid i \<and> visible env db a mode action n p"
  unfolding lockPage_def by (auto simp: err_simps split: option.splits if_splits dest: lookup_row_Some)

lemma visible_live:
  assumes "visible env db a WorkingMode action n p" and "p \<in> set (pages db)"
  shows "pgStatus p \<noteq> PageTrashed"
proof -
  have "p \<in> set (chain db WorkingMode p)" unfolding chain_def using assms(2) by (rule climb_start)
  then have "\<not> blocked_state WorkingMode p" using assms(1) by (auto simp: visible_def Let_def list_ex_iff hides_def)
  then show ?thesis by (simp add: blocked_state_def)
qed

lemma lockPage_live: "lockPage env i a action n WorkingMode db = Inr p \<Longrightarrow> pgStatus p \<noteq> PageTrashed"
  using lockPage_row visible_live by blast

lemma lockPage_trashed:
  "lockPage env i a action n TrashMode db = Inr p \<Longrightarrow> pgStatus p = PageTrashed"
  using lockPage_row by (fastforce simp: visible_def Let_def)

lemma lockSpace_row:
  "lockSpace env i a action n db = Inr s \<Longrightarrow> s \<in> set (spaces db) \<and> spId s = dbid i"
  unfolding lockSpace_def by (auto simp: err_simps split: option.splits if_splits dest: lookup_row_Some)

text \<open>The parts of the tables a command writes.\<close>

lemma add_audit_simps [simp]:
  "pages (add_audit a r i s db) = pages db" "versions (add_audit a r i s db) = versions db"
  "spaces (add_audit a r i s db) = spaces db" "folders (add_audit a r i s db) = folders db"
  "files (add_audit a r i s db) = files db" "previews (add_audit a r i s db) = previews db"
  "cleanup (add_audit a r i s db) = cleanup db" "pageFiles (add_audit a r i s db) = pageFiles db"
  "versionFiles (add_audit a r i s db) = versionFiles db" "pageTags (add_audit a r i s db) = pageTags db"
  by (simp_all add: add_audit_def)

lemma set_tags_simps [simp]:
  "pages (set_tags i ts db) = pages db" "versions (set_tags i ts db) = versions db"
  "spaces (set_tags i ts db) = spaces db" "folders (set_tags i ts db) = folders db"
  "files (set_tags i ts db) = files db" "cleanup (set_tags i ts db) = cleanup db"
  by (simp_all add: set_tags_def)

lemma set_page_simps [simp]:
  "pages (set_page p db) = map (\<lambda>x. if pgId x = pgId p then p else x) (pages db)"
  "versions (set_page p db) = versions db" "spaces (set_page p db) = spaces db"
  "folders (set_page p db) = folders db" "files (set_page p db) = files db"
  "cleanup (set_page p db) = cleanup db"
  by (simp_all add: set_page_def)

lemma set_space_simps [simp]:
  "spaces (set_space s db) = map (\<lambda>x. if spId x = spId s then s else x) (spaces db)"
  "pages (set_space s db) = pages db" "versions (set_space s db) = versions db"
  "folders (set_space s db) = folders db"
  by (simp_all add: set_space_def)

section \<open>The tree of the tables\<close>

definition node :: "kpage \<Rightarrow> tnode" where
  "node p = \<lparr>tnId = pgId p, tnParent = pgParent p, tnSpace = pgSpace p, tnStatus = pgStatus p,
     tnBefore = pgBefore p, tnBatch = pgBatch p, tnPublished = pgPublished p\<rparr>"

definition tree_of :: "kb \<Rightarrow> ptree" where
  "tree_of db = \<lparr>ptNodes = map node (pages db), ptSpaces = map spId (spaces db),
     ptVersions = map (\<lambda>v. (verId v, verPage v, verNo v)) (versions db)\<rparr>"

lemma node_simps [simp]:
  "tnId (node p) = pgId p" "tnParent (node p) = pgParent p" "tnSpace (node p) = pgSpace p"
  "tnStatus (node p) = pgStatus p" "tnBefore (node p) = pgBefore p" "tnBatch (node p) = pgBatch p"
  "tnPublished (node p) = pgPublished p"
  by (simp_all add: node_def)

lemma tree_of_simps [simp]:
  "ptNodes (tree_of db) = map node (pages db)" "ptSpaces (tree_of db) = map spId (spaces db)"
  "ptVersions (tree_of db) = map (\<lambda>v. (verId v, verPage v, verNo v)) (versions db)"
  by (simp_all add: tree_of_def)

lemma tree_of_cong:
  "map node (pages db') = map node (pages db) \<Longrightarrow> map spId (spaces db') = map spId (spaces db) \<Longrightarrow>
    versions db' = versions db \<Longrightarrow> tree_of db' = tree_of db"
  by (simp add: tree_of_def)

lemma up_rel_pages: "up_rel (tree_of db) = key_rel pgId pgParent (pages db)"
  by (auto simp: key_rel_def)

definition kb_ok :: "kb \<Rightarrow> bool" where
  "kb_ok db \<longleftrightarrow> tree_ok (tree_of db)"

lemma kb_ok_ids:
  "kb_ok db \<Longrightarrow> s \<in> set (spaces db) \<Longrightarrow> dbid (spId s) = spId s"
  "kb_ok db \<Longrightarrow> p \<in> set (pages db) \<Longrightarrow> dbid (pgId p) = pgId p"
  by (auto simp: kb_ok_def tree_ok_def ids_ok_def dbid_def)

lemma kb_ok_places: "kb_ok db \<Longrightarrow> places_ok (tree_of db)"
  by (simp add: kb_ok_def tree_ok_def)

lemma kb_ok_distinct: "kb_ok db \<Longrightarrow> distinct (map pgId (pages db))"
  using places_okD(1)[OF kb_ok_places] by (simp add: comp_def)

lemma kb_ok_same: "kb_ok db \<Longrightarrow> p \<in> set (pages db) \<Longrightarrow> q \<in> set (pages db) \<Longrightarrow> pgId p = pgId q \<Longrightarrow> p = q"
  by (rule same_key[OF kb_ok_distinct])

lemma subtree_descendants:
  assumes "kb_ok db" and "r \<in> set (pages db)" and "p \<in> set (pages db)"
  shows "pgId p \<in> set (map pgId (page_descendants db (pgId r))) \<longleftrightarrow> in_subtree (tree_of db) (pgId r) (node p)"
proof -
  have places: "places_ok (tree_of db)" by (rule kb_ok_places[OF assms(1)])
  have ac: "acyclic (key_rel pgId pgParent (pages db))" using places_okD(2)[OF places] by (simp only: up_rel_pages)
  have parents: "k \<in> pgId ` set (pages db)" if "x \<in> set (pages db)" "pgParent x = Some k" for x k
    using places_parent[OF places, of "node x" k] that by auto
  have keys: "x \<in> set (page_descendants db (pgId r)) \<longleftrightarrow> in_subtree (tree_of db) (pgId r) (node x)"
    if "x \<in> set (pages db)" for x
    unfolding page_descendants_def in_subtree_def up_rel_pages node_simps
    by (rule descendants_keys[OF kb_ok_distinct[OF assms(1)] ac parents assms(2) that])
  have "x \<in> set (pages db)" if "x \<in> set (page_descendants db (pgId r))" for x
    by (rule subsetD[OF descendants_of_subset that[unfolded page_descendants_def]])
  then have "pgId p \<in> set (map pgId (page_descendants db (pgId r))) \<longleftrightarrow> p \<in> set (page_descendants db (pgId r))"
    using kb_ok_same[OF assms(1) assms(3)] by auto
  then show ?thesis using keys[OF assms(3)] by simp
qed

lemma descendants_distinct:
  assumes "kb_ok db"
  shows "distinct (map pgId (page_descendants db i))"
  unfolding page_descendants_def
  using places_okD(2)[OF kb_ok_places[OF assms]] unfolding up_rel_pages
  by (intro descendants_of_distinct kb_ok_distinct[OF assms] child_of_acyclic)

lemma descendants_pages: "set (page_descendants db i) \<subseteq> set (pages db)"
  unfolding page_descendants_def by (rule descendants_of_subset)

lemma all_visible_each:
  assumes "kb_ok db" and "all_visible env db a mode action n ids = Inr True" and "distinct ids"
    and "p \<in> set (pages db)" and "pgId p \<in> set ids"
  shows "visible env db a mode action n p"
proof (rule ccontr)
  let ?P = "\<lambda>p. pgId p \<in> set ids"
  let ?Q = "\<lambda>p. ?P p \<and> visible env db a mode action n p"
  assume no: "\<not> visible env db a mode action n p"
  have "length (filter ?Q (pages db)) = length ids" using assms(2) by (auto simp: all_visible_def err_simps)
  moreover have "length (filter ?P (pages db)) \<le> length ids"
  proof -
    have d: "distinct (map pgId (filter ?P (pages db)))" using kb_ok_distinct[OF assms(1)] by (simp add: distinct_map_filter)
    have "set (map pgId (filter ?P (pages db))) \<subseteq> set ids" by auto
    then have "card (set (map pgId (filter ?P (pages db)))) \<le> card (set ids)" by (simp add: card_mono)
    then show ?thesis using distinct_card[OF d] distinct_card[OF assms(3)] by simp
  qed
  moreover have "length (filter ?Q (pages db)) < length (filter ?P (pages db))"
  proof -
    have "filter ?Q (pages db) = filter (visible env db a mode action n) (filter ?P (pages db))"
      by (simp add: conj_commute)
    moreover have "p \<in> set (filter ?P (pages db))" using assms(4,5) by simp
    then have "length (filter (visible env db a mode action n) (filter ?P (pages db))) < length (filter ?P (pages db))"
      by (rule length_filter_less) (rule no)
    ultimately show ?thesis by simp
  qed
  ultimately show False by simp
qed

section \<open>Effects that keep the tree\<close>

lemma tree_audit [simp]: "tree_of (add_audit a r i s db) = tree_of db"
  by (rule tree_of_cong) simp_all

lemma tree_tags [simp]: "tree_of (set_tags i ts db) = tree_of db"
  by (rule tree_of_cong) simp_all

lemma node_search [simp]: "node (p\<lparr>pgSearch := x\<rparr>) = node p" "node (p\<lparr>pgVersion := v\<rparr>) = node p"
  by (simp_all add: node_def)

lemma rebuild_simps [simp]:
  "versions (rebuildSearch a b db) = versions db" "spaces (rebuildSearch a b db) = spaces db"
  "map node (pages (rebuildSearch a b db)) = map node (pages db)"
  by (auto simp: rebuildSearch_def comp_def split: option.splits)

lemma tree_rebuild [simp]: "tree_of (rebuildSearch a b db) = tree_of db"
  by (rule tree_of_cong) simp_all

lemma set_page_tree:
  assumes "kb_ok db" and "row \<in> set (pages db)" and "pgId row1 = pgId row"
  shows "tree_of (set_page row1 db) = change (\<lambda>n. if tnId n = pgId row then node row1 else n) (tree_of db)"
  using assms(3) by (simp add: tree_of_def change_def comp_def if_distrib cong: map_cong)

lemma set_page_same:
  assumes "kb_ok db" and "row \<in> set (pages db)" and "node row1 = node row"
  shows "tree_of (set_page row1 db) = tree_of db"
proof (rule tree_of_cong)
  have id: "pgId row1 = pgId row" using arg_cong[OF assms(3), of tnId] by simp
  show "map node (pages (set_page row1 db)) = map node (pages db)"
    using kb_ok_same[OF assms(1) _ assms(2)] assms(3) id by (auto simp: comp_def)
qed simp_all

lemma set_space_spaces: "map spId (spaces (set_space s db)) = map spId (spaces db)"
  by (auto simp: comp_def)

lemma set_space_tree [simp]: "tree_of (set_space s db) = tree_of db"
  by (rule tree_of_cong) (simp_all add: set_space_spaces del: set_space_simps(1))

section \<open>Every command is a step of the abstract tree\<close>

lemma set_page_other [simp]:
  "set_page p (db\<lparr>pageAccess := x\<rparr>) = (set_page p db)\<lparr>pageAccess := x\<rparr>"
  "set_page p (db\<lparr>files := fs\<rparr>) = (set_page p db)\<lparr>files := fs\<rparr>"
  "set_page p (db\<lparr>pageFiles := ls\<rparr>) = (set_page p db)\<lparr>pageFiles := ls\<rparr>"
  "set_page p (db\<lparr>previews := vs\<rparr>) = (set_page p db)\<lparr>previews := vs\<rparr>"
  "set_page p (add_audit a r i s db) = add_audit a r i s (set_page p db)"
  by (simp_all add: set_page_def add_audit_def)

lemma tree_other [simp]:
  "tree_of (db\<lparr>pageAccess := x\<rparr>) = tree_of db" "tree_of (db\<lparr>spaceAccess := x\<rparr>) = tree_of db"
  "tree_of (db\<lparr>files := fs\<rparr>) = tree_of db" "tree_of (db\<lparr>pageFiles := ls\<rparr>) = tree_of db"
  "tree_of (db\<lparr>previews := vs\<rparr>) = tree_of db" "tree_of (db\<lparr>cleanup := cs\<rparr>) = tree_of db"
  "tree_of (db\<lparr>uploads := us\<rparr>) = tree_of db" "tree_of (db\<lparr>folders := gs\<rparr>) = tree_of db"
  by (simp_all add: tree_of_def)

lemma set_page_edit:
  assumes "kb_ok db" and "lockPage env i a action n mode db = Inr row"
  shows "tree_of (set_page (row\<lparr>pgVersion := v\<rparr>) db) = tree_of db"
    and "tree_of (set_page (row\<lparr>pgTitle := ti, pgSort := so, pgContent := co, pgText := te, pgHash := ha,
      pgDescription := de, pgVersion := v\<rparr>) db) = tree_of db"
    and "tree_of (set_page (row\<lparr>pgTitle := ti, pgContent := co, pgText := te, pgHash := ha,
      pgDescription := de, pgVersion := v\<rparr>) db) = tree_of db"
    and "tree_of (set_page (row\<lparr>pgRestricted := b, pgVersion := v\<rparr>) db) = tree_of db"
  using lockPage_row[OF assms(2)] by (auto intro!: set_page_same[OF assms(1)] simp: node_def)

lemma updatePageIn_tree:
  assumes "kb_ok db" and "updatePageIn env i kvs a db = Inr (r, db')"
  shows "tree_of db' = tree_of db \<and> spaces db' = spaces db"
  using assms(2) unfolding updatePageIn_def Let_def
  by (elim bindE_InrE) (auto split: if_splits elim!: bindE_InrE simp: set_page_edit[OF assms(1)])

lemma updatePage_tree:
  "kb_ok db \<Longrightarrow> updatePage env i input a db = Inr (r, db') \<Longrightarrow> tree_of db' = tree_of db \<and> spaces db' = spaces db"
  unfolding updatePage_def by (elim bindE_InrE) (rule updatePageIn_tree)

lemma setPageAccess_tree:
  assumes "kb_ok db" and "setPageAccess env i input a db = Inr (r, db')"
  shows "tree_of db' = tree_of db \<and> spaces db' = spaces db"
  using assms(2) unfolding setPageAccess_def Let_def
  by (elim bindE_InrE) (auto split: option.splits json.splits simp: set_page_edit[OF assms(1)])

lemma tree_append_page:
  "tree_of (db\<lparr>pages := pages db @ [row]\<rparr>) = (tree_of db)\<lparr>ptNodes := ptNodes (tree_of db) @ [node row]\<rparr>"
  by (simp add: tree_of_def)

lemma createPageIn_tree:
  assumes "kb_ok db" and "i \<notin> pgId ` set (pages db) \<and> dbid i = i" and "createPageIn env i action input a db = Inr (r, db')"
  shows "tree_step (tree_of db) (tree_of db') \<and> spaces db' = spaces db"
proof -
  obtain par s row where step: "tree_of db' = (tree_of db)\<lparr>ptNodes := ptNodes (tree_of db) @ [node row]\<rparr>"
    and row: "node row = fresh_node i par s" and s: "s \<in> spId ` set (spaces db)"
    and live: "live_parent (tree_of db) s par" and sp: "spaces db' = spaces db"
  proof -
    show thesis
      using assms(3) unfolding createPageIn_def Let_def
    proof (elim bindE_InrE, goal_cases)
      case (1 u1 u2 kvs mode si space u3 parent u4 folder title canon u5 order descr u6 tags u7)
      let ?row = "\<lparr>pgId = i, pgSpace = spId space, pgParent = map_option dbid parent, pgFolder = map_option dbid folder,
           pgTitle = title, pgSort = order, pgContent = docContent canon, pgText = contentText canon,
           pgHash = contentHash canon, pgMode = mode, pgDescription = descr, pgStatus = PageDraft,
           pgBefore = None, pgBatch = None, pgPublished = None, pgRestricted = False, pgSearch = [],
           pgVersion = 1, pgCreatedBy = kaUser a\<rparr>"
      have db': "db' = add_audit a ''knowledge-pages'' (Some i) ''page.created'' (set_tags i tags (db\<lparr>pages := pages db @ [?row]\<rparr>))"
        using 1(19) by simp
      show thesis
      proof (rule that)
        show "tree_of db' = (tree_of db)\<lparr>ptNodes := ptNodes (tree_of db) @ [node ?row]\<rparr>"
          unfolding db' tree_audit tree_tags by (rule tree_append_page)
        show "node ?row = fresh_node i (map_option dbid parent) (spId space)" by (simp add: node_def fresh_node_def)
        show "spId space \<in> spId ` set (spaces db)" using lockSpace_row[OF 1(6)] by blast
        show "live_parent (tree_of db) (spId space) (map_option dbid parent)"
        proof (cases parent)
          case (Some k)
          then obtain p where p: "lockPage env k a action 2 WorkingMode db = Inr p" "pgSpace p = spId space"
            using 1(9) by (auto elim!: bindE_InrE)
          then show ?thesis using lockPage_row[OF p(1)] lockPage_live[OF p(1)] Some
            by (auto simp: live_parent_def intro!: bexI[of _ p])
        qed (simp add: live_parent_def)
        show "spaces db' = spaces db" unfolding db' by simp
      qed
    qed
  qed
  have "tree_step (tree_of db) ((tree_of db)\<lparr>ptNodes := ptNodes (tree_of db) @ [fresh_node i par s]\<rparr>)"
    using assms(2) s live by (intro step_add) (auto simp: dbid_def)
  then show ?thesis using step row sp by simp
qed

lemma tree_append_version:
  "tree_of (db\<lparr>versions := versions db @ [v], versionFiles := ls\<rparr>) =
    (tree_of db)\<lparr>ptVersions := ptVersions (tree_of db) @ [(verId v, verPage v, verNo v)]\<rparr>"
  by (simp add: tree_of_def)

lemma next_version_greater:
  "v \<in> set (versions db) \<Longrightarrow> verPage v = i \<Longrightarrow> verNo v < next_version_no db i"
  unfolding next_version_no_def Let_def by (auto simp: filter_empty_conv less_Suc_eq_le)

lemma publish_version_simps [simp]:
  "verId (publish_version db a vid i row canon h anc) = vid" "verPage (publish_version db a vid i row canon h anc) = pgId row"
  "verNo (publish_version db a vid i row canon h anc) = next_version_no db (pgId row)"
  by (simp_all add: publish_version_def Let_def)

lemma kb_ok_version: "kb_ok db \<Longrightarrow> distinct (map pgId (pages (db\<lparr>versions := vs, versionFiles := ls\<rparr>)))"
  using kb_ok_distinct by simp

lemma set_page_change:
  assumes "distinct (map pgId (pages db))" and "row \<in> set (pages db)" and "pgId row1 = pgId row"
    and "node row1 = f (node row)" and "\<And>p. p \<in> set (pages db) \<Longrightarrow> pgId p \<noteq> pgId row \<Longrightarrow> f (node p) = node p"
  shows "tree_of (set_page row1 db) = change f (tree_of db)"
proof -
  have "node (if pgId p = pgId row1 then row1 else p) = f (node p)" if p: "p \<in> set (pages db)" for p
  proof (cases "pgId p = pgId row")
    case True
    then have "p = row" by (rule same_key[OF assms(1) p assms(2)])
    then show ?thesis using assms(3,4) by simp
  next
    case False
    then show ?thesis using assms(3,5) p by simp
  qed
  then show ?thesis by (simp add: tree_of_def change_def comp_def)
qed

lemma publish_tree:
  assumes "kb_ok db" and "vid \<notin> verId ` set (versions db)" and "publish env vid i input a db = Inr (r, db')"
  shows "tree_step (tree_of db) (tree_of db') \<and> spaces db' = spaces db"
  using assms(3) unfolding publish_def Let_def
proof (elim bindE_InrE, goal_cases)
  case (1 kvs u1 u2 row u3 u4 canon hsh u5 u6)
  have row: "row \<in> set (pages db)" "pgStatus row \<noteq> PageTrashed"
    using lockPage_row[OF 1(4)] lockPage_live[OF 1(4)] by simp_all
  let ?v = "publish_version db a vid i row canon hsh (ancestors db WorkingMode (pgId row))"
  let ?links = "map (\<lambda>(pg, fl, role). (pg, vid, fl, role)) (filter (\<lambda>(pg, _). pg = pgId row) (pageFiles db))"
  let ?db1 = "db\<lparr>versions := versions db @ [?v], versionFiles := versionFiles db @ ?links\<rparr>"
  let ?row1 = "row\<lparr>pgStatus := PagePublished, pgPublished := Some vid, pgVersion := pgVersion row + 1\<rparr>"
  have db': "db' = add_audit a ''knowledge-pages'' (Some (pgId row)) ''page.published''
      (rebuildSearch (Some (pgId row)) None (set_page ?row1 ?db1))" using 1(11) by simp
  have "tree_of (set_page ?row1 ?db1) = change (published_node (pgId row) vid) (tree_of ?db1)"
    using row(1) kb_ok_version[OF assms(1)] by (intro set_page_change) (auto simp: published_node_def node_def)
  also have "tree_of ?db1 = (tree_of db)\<lparr>ptVersions := ptVersions (tree_of db) @
      [(vid, pgId row, next_version_no db (pgId row))]\<rparr>"
    by (simp only: tree_append_version publish_version_simps)
  finally have "tree_of db' = change (published_node (tnId (node row)) vid) ((tree_of db)\<lparr>ptVersions :=
      ptVersions (tree_of db) @ [(vid, tnId (node row), next_version_no db (pgId row))]\<rparr>)"
    unfolding db' tree_audit tree_rebuild node_simps .
  moreover have "tree_step (tree_of db) (change (published_node (tnId (node row)) vid) ((tree_of db)\<lparr>ptVersions :=
      ptVersions (tree_of db) @ [(vid, tnId (node row), next_version_no db (pgId row))]\<rparr>))"
    using row assms(2) next_version_greater by (intro step_publish) (auto simp: image_iff)
  ultimately show ?case unfolding db' by simp
qed

lemma createSpace_tree:
  assumes "i \<notin> spId ` set (spaces db)" and "dbid i = i" and "createSpace env i input a db = Inr (r, db')"
  shows "tree_step (tree_of db) (tree_of db') \<and> (\<exists>s. spaces db' = spaces db @ [s] \<and> spId s = i)"
  using assms(3) unfolding createSpace_def Let_def
proof (elim bindE_InrE, goal_cases)
  case 1
  then have sp: "\<exists>s. spaces db' = spaces db @ [s] \<and> spId s = i" and "pages db' = pages db" "versions db' = versions db"
    by auto
  then have "tree_of db' = (tree_of db)\<lparr>ptSpaces := ptSpaces (tree_of db) @ [i]\<rparr>" by (auto simp: tree_of_def)
  moreover have "tree_step (tree_of db) ((tree_of db)\<lparr>ptSpaces := ptSpaces (tree_of db) @ [i]\<rparr>)"
    using assms(1,2) by (intro step_space) (auto simp: dbid_def)
  ultimately show ?case using sp by simp
qed

lemma target_ids:
  assumes "kb_ok db" and "row \<in> set (pages db)" and "p \<in> set (pages db)"
  shows "pgId p \<in> set (map pgId (filter P (page_descendants db (pgId row)))) \<longleftrightarrow>
    in_subtree (tree_of db) (pgId row) (node p) \<and> P p"
proof -
  have "x = p" if "x \<in> set (page_descendants db (pgId row))" "pgId x = pgId p" for x
    using kb_ok_same[OF assms(1) _ assms(3) that(2)] descendants_pages that(1) by blast
  then have "pgId p \<in> set (map pgId (filter P (page_descendants db (pgId row)))) \<longleftrightarrow>
      pgId p \<in> set (map pgId (page_descendants db (pgId row))) \<and> P p" by auto
  then show ?thesis using subtree_descendants[OF assms] by simp
qed

lemma transition_tree_change:
  assumes "\<And>p. p \<in> set (pages db) \<Longrightarrow>
    (if pgId p \<in> set ids then node (transition_row k b p) else node p) = f (node p)"
  shows "tree_of (transition_all k b ids db) = change f (tree_of db)"
proof -
  have "node (if pgId p \<in> set ids then transition_row k b p else p) = f (node p)" if "p \<in> set (pages db)" for p
    using assms[OF that] by (cases "pgId p \<in> set ids") simp_all
  then show ?thesis by (simp add: tree_of_def change_def transition_all_def)
qed

lemma parent_is_live:
  assumes "kb_ok db" and "row \<in> set (pages db)" and "pgParent row = Some q"
    and "lockPage env q a action n WorkingMode db = Inr p"
  shows "live_parent (tree_of db) (pgSpace row) (pgParent row)"
proof -
  from places_parent[OF kb_ok_places[OF assms(1)], of "node row" q] assms(2,3)
  obtain m where m: "m \<in> set (pages db)" "pgId m = q" "pgSpace m = pgSpace row" by auto
  have "dbid q = q" using kb_ok_ids(2)[OF assms(1) m(1)] m(2) by simp
  then have "p = m" using lockPage_row[OF assms(4)] kb_ok_same[OF assms(1) _ m(1)] m(2) by simp
  then show ?thesis using m assms(3) lockPage_live[OF assms(4)] by (auto simp: live_parent_def intro!: bexI[of _ m])
qed

lemma transition_row_node:
  "node (transition_row Archive b p) = (node p)\<lparr>tnStatus := PageArchived\<rparr>"
  "node (transition_row Unarchive b p) =
    (if pgStatus p = PageArchived then (node p)\<lparr>tnStatus := PagePublished\<rparr> else node p)"
  "node (transition_row Trash b p) =
    (node p)\<lparr>tnBefore := Some (pgStatus p), tnStatus := PageTrashed, tnBatch := Some b\<rparr>"
  "node (transition_row Restore b p) = (node p)\<lparr>tnStatus := (case pgBefore p of Some s \<Rightarrow> s | None \<Rightarrow> PageDraft),
     tnBefore := None, tnBatch := None\<rparr>"
  by (simp_all add: transition_row_def node_def Let_def)

lemma transition_all_step:
  assumes ok: "kb_ok db" and row: "row \<in> set (pages db)"
    and ids: "ids = map pgId (transition_targets k row (page_descendants db (pgId row)))"
    and batch: "Some b \<notin> pgBatch ` set (pages db)"
    and trashed: "k = Restore \<Longrightarrow> pgStatus row = PageTrashed" and alive: "k \<noteq> Restore \<Longrightarrow> pgStatus row \<noteq> PageTrashed"
    and archived: "k = Unarchive \<Longrightarrow> pgStatus row = PageArchived"
    and all: "k = Archive \<Longrightarrow> list_all (\<lambda>p. pgStatus p = PagePublished) (transition_targets k row (page_descendants db (pgId row)))"
    and parent: "k = Restore \<Longrightarrow> live_parent (tree_of db) (pgSpace row) (pgParent row)"
  shows "tree_step (tree_of db) (tree_of (transition_all k b ids db))"
proof -
  have r: "node row \<in> set (ptNodes (tree_of db))" using row by simp
  have mem: "pgId p \<in> set ids \<longleftrightarrow> in_subtree (tree_of db) (pgId row) (node p) \<and>
      (if k = Restore then pgStatus p = PageTrashed \<and> pgBatch p = pgBatch row else pgStatus p \<noteq> PageTrashed)"
    if "p \<in> set (pages db)" for p
    using target_ids[OF ok row that] unfolding ids by (auto simp: transition_targets_def)
  show ?thesis
  proof (cases k)
    case Archive
    have "tree_of (transition_all k b ids db) = change (archived_node (tree_of db) (pgId row)) (tree_of db)"
      using mem Archive by (intro transition_tree_change) (auto simp: transition_row_node archived_node_def)
    moreover have "tnStatus m = PageTrashed \<or> tnStatus m = PagePublished"
      if m: "m \<in> set (ptNodes (tree_of db))" "in_subtree (tree_of db) (tnId (node row)) m" for m
    proof -
      obtain p where p: "p \<in> set (pages db)" "m = node p" using m(1) by auto
      then have "p \<in> set (page_descendants db (pgId row))"
        using subtree_descendants[OF ok row p(1)] m(2) kb_ok_same[OF ok p(1)] descendants_pages[of db "pgId row"] by auto
      then show ?thesis using all[OF Archive] Archive p(2) by (auto simp: transition_targets_def list_all_iff)
    qed
    ultimately show ?thesis using step_archive[OF r] alive Archive by simp
  next
    case Unarchive
    have "tree_of (transition_all k b ids db) = change (unarchived_node (tree_of db) (pgId row)) (tree_of db)"
      using mem Unarchive by (intro transition_tree_change) (auto simp: transition_row_node unarchived_node_def)
    then show ?thesis using step_unarchive[OF r] archived[OF Unarchive] by simp
  next
    case Trash
    have "tree_of (transition_all k b ids db) = change (trashed_node (tree_of db) (pgId row) b) (tree_of db)"
      using mem Trash by (intro transition_tree_change) (auto simp: transition_row_node trashed_node_def)
    moreover have "Some b \<notin> tnBatch ` set (ptNodes (tree_of db))" using batch by auto
    ultimately show ?thesis using step_trash[OF r] alive Trash by simp
  next
    case Restore
    have "tree_of (transition_all k b ids db) = change (restored_node (tree_of db) (node row)) (tree_of db)"
      using mem Restore by (intro transition_tree_change) (auto simp: transition_row_node restored_node_def)
    then show ?thesis using step_restore[OF r] trashed[OF Restore] parent[OF Restore] by simp
  qed
qed

lemma transition_tree:
  assumes "kb_ok db" and "Some b \<notin> pgBatch ` set (pages db)" and "transitionPage env b i k input a db = Inr (r, db')"
  shows "tree_step (tree_of db) (tree_of db') \<and> spaces db' = spaces db"
  using assms(3) unfolding transitionPage_def Let_def
proof (elim bindE_InrE, goal_cases)
  case (1 kvs u1 row u2 u3 ok u4 u5 u6)
  let ?ids = "map pgId (transition_targets k row (page_descendants db (pgId row)))"
  have db': "db' = add_audit a ''knowledge-pages'' (Some (pgId row)) (transition_verb k) (transition_all k b ?ids db)"
    using 1(10) by simp
  have row: "row \<in> set (pages db)" using lockPage_row[OF 1(3)] by simp
  have "tree_step (tree_of db) (tree_of (transition_all k b ?ids db))"
  proof (rule transition_all_step[OF assms(1) row refl assms(2)])
    show "pgStatus row = PageTrashed" if "k = Restore" using 1(3) that lockPage_trashed by (simp add: transition_mode_def)
    show "pgStatus row \<noteq> PageTrashed" if "k \<noteq> Restore" using 1(3) that lockPage_live by (simp add: transition_mode_def)
    show "live_parent (tree_of db) (pgSpace row) (pgParent row)" if rs: "k = Restore"
    proof (cases "pgParent row")
      case (Some q)
      then obtain p where "lockPage env q a ''update'' 3 WorkingMode db = Inr p"
        using 1(9) rs by (auto simp: transition_parent_def elim!: bindE_InrE)
      then show ?thesis by (rule parent_is_live[OF assms(1) row Some])
    qed (simp add: live_parent_def)
  qed (use 1 in simp_all)
  then show ?case unfolding db' by (simp add: transition_all_def)
qed

section \<open>Moving and purging\<close>

lemma tree_guard_above:
  assumes "kb_ok db" and "tree_guard (pages db) row1 = Inr ()" and "pgParent row1 = Some q"
    and "p \<in> set (pages db)" and "pgId p = q" and "pgId row1 \<in> pgId ` set (pages db)"
  shows "(q, pgId row1) \<notin> (up_rel (tree_of db))\<^sup>*"
proof -
  have nx: "parent_next rows = up_next pgId pgParent rows" for rows
    by (simp add: parent_next_def up_next_def fun_eq_iff)
  have d: "distinct (map pgId (pages db))" by (rule kb_ok_distinct[OF assms(1)])
  have ac: "acyclic (key_rel pgId pgParent (pages db))"
    using places_okD(2)[OF kb_ok_places[OF assms(1)]] by (simp only: up_rel_pages)
  have "lookup_row pgId (pages db) q = Some p" using lookup_row_mem[OF d assms(4)] assms(5) by simp
  then have "pgId row1 \<notin> set (map pgId (climb pgId (up_next pgId pgParent (pages db)) (pages db) (Some p) {}))"
    using assms(2,3) by (simp add: tree_guard_def nx)
  from climb_guard[OF d ac assms(4,6) this] show ?thesis unfolding up_rel_pages assms(5) .
qed

lemma subtree_space:
  assumes "places_ok t" and "r \<in> set (ptNodes t)" and "n \<in> set (ptNodes t)" and "in_subtree t (tnId r) n"
  shows "tnSpace n = tnSpace r"
proof -
  have "\<exists>m \<in> set (ptNodes t). tnId m = k \<and> tnSpace m = tnSpace n" if "(tnId n, k) \<in> (up_rel t)\<^sup>*" for k
    using that
  proof (induction rule: rtrancl_induct)
    case base
    then show ?case using assms(3) by blast
  next
    case (step k l)
    then obtain m where m: "m \<in> set (ptNodes t)" "tnId m = k" "tnSpace m = tnSpace n" by blast
    have "tnParent m = Some l"
      using key_rel_unique[OF places_okD(1)[OF assms(1)] m(1)] step(2) m(2) by blast
    then show ?case using places_parent[OF assms(1) m(1)] m(3) by auto
  qed
  then obtain m where m: "m \<in> set (ptNodes t)" "tnId m = tnId r" "tnSpace m = tnSpace n"
    using assms(4) unfolding in_subtree_def by blast
  then have "m = r" using places_ids[OF assms(1) m(1) assms(2)] by blast
  then show ?thesis using m(3) by simp
qed

lemma move_rows_tree:
  assumes ok: "kb_ok db" and row: "row \<in> set (pages db)"
    and ids: "ids = map pgId (page_descendants db (pgId row))"
    and same: "\<not> replace \<Longrightarrow> s = pgSpace row"
    and row1: "row1 = row\<lparr>pgParent := par, pgSort := o1, pgVersion := v1\<rparr>"
  shows "tree_of (if replace then relocate ids s folder (set_page row1 db) else set_page row1 db) =
    change (rehung_node (tree_of db) (pgId row) par s) (tree_of db)" (is "tree_of ?db' = _")
proof -
  let ?t = "tree_of db"
  have in_ids: "pgId p \<in> set ids \<longleftrightarrow> in_subtree ?t (pgId row) (node p)" if "p \<in> set (pages db)" for p
    unfolding ids by (rule subtree_descendants[OF ok row that])
  have space: "pgSpace p = pgSpace row" if "p \<in> set (pages db)" "in_subtree ?t (pgId row) (node p)" for p
    using subtree_space[OF kb_ok_places[OF ok], of "node row" "node p"] that row by simp
  define f where "f p = (let p1 = (if pgId p = pgId row then row1 else p)
    in if replace \<and> pgId p1 \<in> set ids then p1\<lparr>pgSpace := s, pgFolder := folder, pgVersion := pgVersion p1 + 1\<rparr> else p1)" for p
  have pages: "pages ?db' = map f (pages db)"
    unfolding f_def Let_def by (auto simp: relocate_def row1 comp_def)
  have "node (f p) = rehung_node ?t (pgId row) par s (node p)" if p: "p \<in> set (pages db)" for p
  proof (cases "pgId p = pgId row")
    case True
    then have "p = row" by (rule kb_ok_same[OF ok p row])
    moreover have "in_subtree ?t (pgId row) (node row)" using row by (simp add: in_subtree_def)
    ultimately show ?thesis
      using in_ids[OF row] same by (cases replace) (auto simp: f_def row1 rehung_node_def node_def Let_def)
  next
    case False
    then show ?thesis
      using in_ids[OF p] same space[OF p] by (cases replace) (auto simp: f_def rehung_node_def node_def Let_def)
  qed
  then show ?thesis using pages by (simp add: tree_of_def change_def) (simp add: relocate_def)
qed

lemma destination_live:
  assumes "kb_ok db" and "destination_parent env a db space parent = Inr u" and "parent = Some k"
  obtains p where "p \<in> set (pages db)" and "pgId p = dbid k" and "pgSpace p = space" and "pgStatus p \<noteq> PageTrashed"
    and "dbid space = space"
proof -
  obtain p where p: "lockPage env k a ''create'' 2 WorkingMode db = Inr p" "pgSpace p = space"
    using assms(2,3) by (auto simp: destination_parent_def elim!: bindE_InrE)
  have row: "p \<in> set (pages db)" "pgId p = dbid k" using lockPage_row[OF p(1)] by simp_all
  have "space \<in> spId ` set (spaces db)"
    using places_okD(3)[OF kb_ok_places[OF assms(1)], of "node p"] row(1) p(2) by auto
  then have "dbid space = space" using kb_ok_ids(1)[OF assms(1)] by auto
  then show thesis using that row p lockPage_live[OF p(1)] by blast
qed

lemma move_tree:
  assumes ok: "kb_ok db" and "move env i input a db = Inr (r, db')"
  shows "tree_step (tree_of db) (tree_of db') \<and> spaces db' = spaces db"
  using assms(2) unfolding move_def Let_def
proof (elim bindE_InrE, goal_cases)
  case (1 kvs u1 row u2 space_in parent u3 u4 dest u5 folder u6 okv u7 u8 order u9 u10 ok2 u11)
  let ?space = "case space_in of None \<Rightarrow> pgSpace row | Some s \<Rightarrow> s"
  let ?ids = "map pgId (page_descendants db (pgId row))"
  let ?row1 = "row\<lparr>pgParent := map_option dbid parent, pgSort := order, pgVersion := pgVersion row + 1\<rparr>"
  let ?replace = "''folderId'' \<in> set (jkeys kvs) \<or> ?space \<noteq> pgSpace row"
  let ?db2 = "if ?replace then relocate ?ids (dbid ?space) (map_option dbid folder) (set_page ?row1 db) else set_page ?row1 db"
  have row: "row \<in> set (pages db)" using lockPage_row[OF 1(3)] by simp
  have db': "db' = add_audit a ''knowledge-pages'' (Some (pgId row)) ''page.moved''
      (rebuildSearch (Some (pgId row)) None ?db2)" using 1(21) by simp
  have dest: "dbid ?space \<in> spId ` set (spaces db)" using lockSpace_row[OF 1(9)] by (metis image_eqI)
  have place: "dbid (pgSpace row) = pgSpace row"
    using places_okD(3)[OF kb_ok_places[OF ok], of "node row"] row kb_ok_ids(1)[OF ok] by auto
  have tree: "tree_of ?db2 = change (rehung_node (tree_of db) (pgId row) (map_option dbid parent) (dbid ?space)) (tree_of db)"
    by (rule move_rows_tree[OF ok row refl]) (use place in auto)
  have alive: "tnStatus m \<noteq> PageTrashed"
    if m: "m \<in> set (ptNodes (tree_of db))" "in_subtree (tree_of db) (tnId (node row)) m" for m
  proof -
    obtain p where p: "p \<in> set (pages db)" "m = node p" using m(1) by auto
    have "all_visible env db a WorkingMode ''update'' 2 ?ids = Inr True" using 1(13,14) by simp
    moreover have "pgId p \<in> set ?ids" using subtree_descendants[OF ok row p(1)] m(2) p(2) by simp
    ultimately have "visible env db a WorkingMode ''update'' 2 p"
      by (intro all_visible_each[OF ok _ descendants_distinct[OF ok] p(1)])
    then show ?thesis using visible_live p by simp
  qed
  have live: "live_parent (tree_of db) (dbid ?space) (map_option dbid parent)"
  proof (cases parent)
    case (Some k)
    obtain p where "p \<in> set (pages db)" "pgId p = dbid k" "pgSpace p = ?space" "pgStatus p \<noteq> PageTrashed" "dbid ?space = ?space"
      by (rule destination_live[OF ok 1(12) Some])
    then show ?thesis using Some by (auto simp: live_parent_def intro!: bexI[of _ p])
  qed (simp add: live_parent_def)
  have above: "(q, tnId (node row)) \<notin> (up_rel (tree_of db))\<^sup>*" if q: "map_option dbid parent = Some q" for q
  proof -
    obtain k where k: "parent = Some k" "q = dbid k" using q by auto
    obtain p where "p \<in> set (pages db)" "pgId p = dbid k" by (rule destination_live[OF ok 1(12) k(1)])
    moreover have "tree_guard (pages db) ?row1 = Inr ()" using 1(17) by simp
    ultimately have "(q, pgId ?row1) \<notin> (up_rel (tree_of db))\<^sup>*"
      using q k row by (intro tree_guard_above[OF ok]) auto
    then show ?thesis by simp
  qed
  have "tree_step (tree_of db) (change (rehung_node (tree_of db) (tnId (node row)) (map_option dbid parent) (dbid ?space)) (tree_of db))"
    by (rule step_move[OF _ alive _ live above]) (use row dest in auto)
  moreover have "spaces ?db2 = spaces db" by (simp add: relocate_def)
  ultimately show ?case unfolding db' using tree by simp
qed

lemma purge_tree:
  assumes ok: "kb_ok db" and "purge env i input a db = Inr (r, db')"
  shows "tree_step (tree_of db) (tree_of db') \<and> spaces db' = spaces db"
  using assms(2) unfolding purge_def Let_def
proof (elim bindE_InrE, goal_cases)
  case (1 kvs row u1 okv u2 u3)
  let ?ids = "map pgId (page_descendants db (pgId row))"
  let ?t = "tree_of db"
  have row: "row \<in> set (pages db)" using lockPage_row[OF 1(2)] by simp
  have db': "db' = add_audit a ''knowledge-pages'' (Some (pgId row)) ''page.permanently_deleted''
      (enqueueCleanup a (page_objects db ?ids) (delete_pages ?ids db))" using 1(7) by simp
  have in_ids: "pgId p \<in> set ?ids \<longleftrightarrow> in_subtree ?t (pgId row) (node p)" if "p \<in> set (pages db)" for p
    by (rule subtree_descendants[OF ok row that])
  have gone: "k \<in> set ?ids \<longleftrightarrow> (\<exists>m \<in> set (ptNodes ?t). tnId m = k \<and> in_subtree ?t (tnId (node row)) m)" for k
  proof -
    have sub: "set ?ids \<subseteq> pgId ` set (pages db)" using descendants_pages[of db "pgId row"] by auto
    show ?thesis
    proof
      assume k: "k \<in> set ?ids"
      then obtain p where p: "p \<in> set (pages db)" "k = pgId p" using sub by blast
      then have "in_subtree ?t (pgId row) (node p)" using in_ids k by blast
      then show "\<exists>m \<in> set (ptNodes ?t). tnId m = k \<and> in_subtree ?t (tnId (node row)) m"
        using p by (intro bexI[of _ "node p"]) simp_all
    next
      assume "\<exists>m \<in> set (ptNodes ?t). tnId m = k \<and> in_subtree ?t (tnId (node row)) m"
      then obtain p where "p \<in> set (pages db)" "pgId p = k" "in_subtree ?t (pgId row) (node p)" by auto
      then show "k \<in> set ?ids" using in_ids by blast
    qed
  qed
  have nodes: "map node (filter (\<lambda>p. pgId p \<notin> set ?ids) (pages db)) = filter (\<lambda>m. \<not> in_subtree ?t (tnId (node row)) m) (map node (pages db))"
    using in_ids by (simp add: filter_map comp_def cong: filter_cong)
  have vers: "map (\<lambda>v. (verId v, verPage v, verNo v)) (filter (\<lambda>v. verPage v \<notin> set ?ids) (versions db)) =
      filter (\<lambda>(_, k, _). \<not> (\<exists>m \<in> set (ptNodes ?t). tnId m = k \<and> in_subtree ?t (tnId (node row)) m)) (ptVersions ?t)"
    unfolding tree_of_simps(3) filter_map comp_def prod.case using gone by (simp only:)
  have "tree_of db' = ?t\<lparr>ptNodes := filter (\<lambda>m. \<not> in_subtree ?t (tnId (node row)) m) (ptNodes ?t),
      ptVersions := filter (\<lambda>(_, k, _). \<not> (\<exists>m \<in> set (ptNodes ?t). tnId m = k \<and> in_subtree ?t (tnId (node row)) m)) (ptVersions ?t)\<rparr>"
    unfolding db' tree_audit
    using nodes vers by (simp add: tree_of_def enqueueCleanup_def delete_pages_def)
  moreover have "tnStatus m = PageTrashed"
    if m: "m \<in> set (ptNodes ?t)" "in_subtree ?t (tnId (node row)) m" for m
  proof -
    obtain p where p: "p \<in> set (pages db)" "m = node p" using m(1) by auto
    have "all_visible env db a TrashMode ''delete'' 3 ?ids = Inr True" using 1(4,5) by simp
    moreover have "pgId p \<in> set ?ids" using in_ids[OF p(1)] m(2) p(2) by simp
    ultimately have "visible env db a TrashMode ''delete'' 3 p"
      by (intro all_visible_each[OF ok _ descendants_distinct[OF ok] p(1)])
    then show ?thesis using p(2) by (simp add: visible_def Let_def)
  qed
  ultimately show ?case
    using step_purge[of "node row" ?t] row unfolding db' by (simp add: enqueueCleanup_def delete_pages_def)
qed

section \<open>Spaces, folders and files leave the tree alone\<close>

lemma set_space_other [simp]:
  "set_space s (db\<lparr>spaceAccess := x\<rparr>) = (set_space s db)\<lparr>spaceAccess := x\<rparr>"
  by (simp add: set_space_def)

lemma updateSpace_tree:
  assumes "updateSpace env i input a db = Inr (r, db')"
  shows "tree_of db' = tree_of db"
  using assms unfolding updateSpace_def Let_def
  by (elim bindE_InrE) (auto split: if_splits)

lemma archiveSpace_tree:
  assumes "archiveSpace env i input a db = Inr (r, db')"
  shows "tree_of db' = tree_of db"
  using assms unfolding archiveSpace_def Let_def by (elim bindE_InrE) auto

lemma setSpaceAccess_tree:
  assumes "setSpaceAccess env i input a db = Inr (r, db')"
  shows "tree_of db' = tree_of db"
  using assms unfolding setSpaceAccess_def Let_def by (elim bindE_InrE) auto

lemma folder_trees:
  "createFolder env i input a db = Inr (r, db') \<Longrightarrow> tree_of db' = tree_of db"
  "updateFolder env i input a db = Inr (r, db') \<Longrightarrow> tree_of db' = tree_of db"
  "deleteFolder env i input a db = Inr (r, db') \<Longrightarrow> tree_of db' = tree_of db"
  unfolding createFolder_def updateFolder_def deleteFolder_def Let_def set_folder_def
  by (elim bindE_InrE, auto)+

lemma removeAttachment_tree:
  assumes "kb_ok db" and "removeAttachment env i input a db = Inr (r, db')"
  shows "tree_of db' = tree_of db"
  using assms(2) unfolding removeAttachment_def Let_def bump_file_def unlink_file_def
  by (elim bindE_InrE) (auto simp: set_page_edit[OF assms(1)])

lemma kb_ok_tree: "tree_of db' = tree_of db \<Longrightarrow> kb_ok db \<Longrightarrow> kb_ok db'"
  by (simp add: kb_ok_def)

end
