(* ===== verification/KnowledgeRun.thy ===== *)
theory KnowledgeRun
  imports KnowledgeTree
begin

text \<open>
  The commands of the knowledge base as one type (\<open>command\<close>) with one function
  (\<open>run\<close>), the freshness of the ids they generate, and the refinement: every command
  that succeeds is a step of the abstract page tree.
\<close>

datatype command =
    CreateSpace string json
  | UpdateSpace string json
  | ArchiveSpace string json
  | SpaceAccess string json
  | CreatePage string json
  | UpdatePage string json
  | PageAccess string json
  | Publish string string json
  | MovePage string json
  | Transition string string transition_kind json
  | Purge string json
  | CreateFolder string json
  | UpdateFolder string json
  | DeleteFolder string json
  | RemoveAttachment string json

fun run :: "kb_env \<Rightarrow> kactor \<Rightarrow> command \<Rightarrow> kb \<Rightarrow> kb_error + (string \<times> nat) \<times> kb" where
  "run env a (CreateSpace i input) db = createSpace env i input a db"
| "run env a (UpdateSpace i input) db = updateSpace env i input a db"
| "run env a (ArchiveSpace i input) db = archiveSpace env i input a db"
| "run env a (SpaceAccess i input) db = setSpaceAccess env i input a db"
| "run env a (CreatePage i input) db = createPage env i input a db"
| "run env a (UpdatePage i input) db = updatePage env i input a db"
| "run env a (PageAccess i input) db = setPageAccess env i input a db"
| "run env a (Publish vid i input) db = publish env vid i input a db"
| "run env a (MovePage i input) db = move env i input a db"
| "run env a (Transition b i k input) db = transitionPage env b i k input a db"
| "run env a (Purge i input) db = bindE (purge env i input a db) (\<lambda>(k, db'). Inr ((k, 0), db'))"
| "run env a (CreateFolder i input) db = createFolder env i input a db"
| "run env a (UpdateFolder i input) db = updateFolder env i input a db"
| "run env a (DeleteFolder i input) db = deleteFolder env i input a db"
| "run env a (RemoveAttachment i input) db = removeAttachment env i input a db"

text \<open>Ids the code generates are new and in lower case.\<close>

fun fresh_ids :: "command \<Rightarrow> kb \<Rightarrow> bool" where
  "fresh_ids (CreateSpace i _) db = (i \<notin> spId ` set (spaces db) \<and> dbid i = i)"
| "fresh_ids (CreatePage i _) db = (i \<notin> pgId ` set (pages db) \<and> dbid i = i)"
| "fresh_ids (CreateFolder i _) db = (i \<notin> fdId ` set (folders db) \<and> dbid i = i)"
| "fresh_ids (Publish v _ _) db = (v \<notin> verId ` set (versions db))"
| "fresh_ids (Transition b _ _ _) db = (Some b \<notin> pgBatch ` set (pages db))"
| "fresh_ids _ db = True"

section \<open>Every command is a step of the tree\<close>

theorem run_tree_step:
  assumes ok: "kb_ok db" and fresh: "fresh_ids c db" and "run env a c db = Inr (r, db')"
  shows "tree_step (tree_of db) (tree_of db')"
proof (cases c)
  case (Purge i input)
  then show ?thesis using assms(3) purge_tree[OF ok] by (auto elim!: bindE_InrE)
qed (use assms in \<open>auto simp: createPage_def step_same folder_trees updateSpace_tree archiveSpace_tree setSpaceAccess_tree
      removeAttachment_tree dest: createPageIn_tree publish_tree move_tree transition_tree createSpace_tree
      updatePage_tree setPageAccess_tree\<close>)

lemma run_kb_ok: "kb_ok db \<Longrightarrow> fresh_ids c db \<Longrightarrow> run env a c db = Inr (r, db') \<Longrightarrow> kb_ok db'"
  unfolding kb_ok_def by (metis kb_ok_def run_tree_step tree_ok_kept)

end
