(* ===== verification/KnowledgeStorage.thy ===== *)
theory KnowledgeStorage
  imports KnowledgeRun
begin

text \<open>
  The system of tables and object storage.  Its steps are the commands of any actors, uploads
  that may fail after the object is stored, clean-up runs in which the storage may refuse to
  delete, and the preview worker.  In every state they reach the object of each file row is in
  the storage and is not queued for deletion (\<open>storage_ok\<close>); a clean-up run finds every
  object nobody refers to.
\<close>

section \<open>Steps and reachable states\<close>

definition after :: "(kb_error + 'a \<times> kb) \<Rightarrow> kb \<Rightarrow> kb" where
  "after res db = (case res of Inl _ \<Rightarrow> db | Inr q \<Rightarrow> snd q)"

lemma after_simps [simp]: "after (Inl e) db = db" "after (Inr q) db = snd q"
  by (simp_all add: after_def)

definition fresh_object :: "kb_env \<Rightarrow> string \<Rightarrow> kb \<Rightarrow> string list \<Rightarrow> bool" where
  "fresh_object env fid db st \<longleftrightarrow> fid \<notin> flId ` set (files db) \<and>
     (\<forall>page. object_key env page fid \<notin> set st \<and> object_key env page fid \<notin> clKey ` set (cleanup db))"

definition fresh_page :: "string \<Rightarrow> kb \<Rightarrow> bool" where
  "fresh_page i db \<longleftrightarrow> i \<notin> pgId ` set (pages db) \<and> dbid i = i"

inductive kb_step :: "kb_env \<Rightarrow> kb \<times> string list \<Rightarrow> kb \<times> string list \<Rightarrow> bool" for env where
  step_run: "fresh_ids c db \<Longrightarrow> run env a c db = Inr (r, db') \<Longrightarrow> kb_step env (db, st) (db', st)"
| step_upload: "fresh_object env fid db st \<Longrightarrow> upload env x fid vid i input meta a db st = (res, st') \<Longrightarrow>
    kb_step env (db, st) (after res db, st')"
| step_create: "fresh_object env fid db st \<Longrightarrow> fresh_page i db \<Longrightarrow>
    createFilePage env x i fid vid input meta a db st = (res, st') \<Longrightarrow> kb_step env (db, st) (after res db, st')"
| step_import: "fresh_object env fid db st \<Longrightarrow> i \<in> pgId ` set (pages db) \<Longrightarrow>
    uploadIn env x fid i meta a db st = (res, st') \<Longrightarrow> kb_step env (db, st) (after res db, st')"
| step_orphans: "cleanOrphans env listing del a db st = (res, st') \<Longrightarrow> kb_step env (db, st) (after res db, st')"
| step_purge: "purgeAndClean env del i input a db st = (res, st') \<Longrightarrow> kb_step env (db, st) (after res db, st')"
| step_retry_cleanup: "retryStorageCleanup env listing del db st = (db', st') \<Longrightarrow> kb_step env (db, st) (db', st')"
| step_claim: "claim env lease now seconds db = Inr (job, db') \<Longrightarrow> kb_step env (db, st) (db', st)"
| step_complete: "complete vid lease now sz err db = (ok, db') \<Longrightarrow> kb_step env (db, st) (db', st)"
| step_retry_job: "retry file a db = Inr (r, db') \<Longrightarrow> kb_step env (db, st) (db', st)"
| step_preview_put: "kb_step env (db, st) (db, add_object (preview_key env v lease) st)"
| step_preview_delete: "kb_step env (db, st) (db, drop_object (preview_key env v lease) st)"

definition kb_empty :: "kdirectory \<Rightarrow> kb" where
  "kb_empty d = \<lparr>spaces = [], pages = [], versions = [], folders = [], spaceAccess = [], pageAccess = [],
     pageTags = [], tagNames = [], files = [], pageFiles = [], versionFiles = [], previews = [], uploads = [],
     cleanup = [], audits = [], directory = d\<rparr>"

inductive kb_reach :: "kb_env \<Rightarrow> kb \<times> string list \<Rightarrow> bool" for env where
  reach_start: "kb_reach env (kb_empty d, [])"
| reach_step: "kb_reach env s \<Longrightarrow> kb_step env s s' \<Longrightarrow> kb_reach env s'"

section \<open>The pages\<close>

lemma tree_store_rows [simp]: "tree_of (store_rows a fid vid key mt role page db) = tree_of db"
  by (simp add: store_rows_def enqueuePreview_def link_file_def)

lemma tree_queue [simp]:
  "tree_of (enqueueCleanup a ks db) = tree_of db" "tree_of (queue_key by k db) = tree_of db"
  "tree_of (set_preview v db) = tree_of db" "tree_of (delete_files fids db) = tree_of db"
  by (simp_all add: enqueueCleanup_def queue_key_def set_preview_def delete_files_def)

lemma tree_clean [simp]:
  "tree_of (fst (snd (processCleanup del a db st))) = tree_of db"
  "tree_of (snd (reconcileStorageOrphans env listing a db st)) = tree_of db"
  by (simp_all add: processCleanup_def reconcileStorageOrphans_def Let_def split: prod.split)

lemma store_tree: "store env x a fid vid mt role raw page db st = (Inr (key, db'), st') \<Longrightarrow> tree_of db' = tree_of db"
  by (auto simp: store_def Let_def split: if_splits)

lemma store_pages: "store env x a fid vid mt role raw page db st = (Inr (key, db'), st') \<Longrightarrow> pages db' = pages db"
  by (auto simp: store_def Let_def store_rows_def enqueuePreview_def link_file_def split: if_splits)

lemma upload_target_row: "upload_target env i kvs role a db = Inr page \<Longrightarrow> page \<in> set (pages db)"
  unfolding upload_target_def by (auto elim!: bindE_InrE dest: lockPage_row)

lemma upload_tree:
  assumes "kb_ok db" and "upload env x fid vid i input meta a db st = (res, st')"
  shows "tree_of (after res db) = tree_of db"
proof (cases res)
  case (Inr q)
  then obtain role mt page kvs key db1 st1 where page: "upload_target env i kvs role a db = Inr page"
    and store: "store env x a fid vid mt role i (pgId page) db st = (Inr (key, db1), st1)"
    and q: "q = ((fid, pgVersion page + 1), set_page (page\<lparr>pgVersion := pgVersion page + 1\<rparr>) db1)"
    using assms(2) unfolding upload_def by (auto simp: err_simps split: sum.splits prod.splits)
  have ok: "kb_ok db1" by (rule kb_ok_tree[OF store_tree[OF store] assms(1)])
  have "tree_of (snd q) = tree_of db1"
    unfolding q snd_conv using upload_target_row[OF page] store_pages[OF store] by (intro set_page_same[OF ok]) simp_all
  then show ?thesis using Inr store_tree[OF store] by (simp add: after_def)
qed (simp add: after_def)

lemma repeat_upload_after [simp]: "after (repeat_upload env a hsh r db) db = db"
  by (simp add: repeat_upload_def bindE_def after_def split: sum.split)

lemma createFilePage_tree:
  assumes "kb_ok db" and "fresh_page i db" and "createFilePage env x i fid vid input meta a db st = (res, st')"
  shows "tree_step (tree_of db) (tree_of (after res db))"
proof (cases res)
  case (Inr q)
  then consider (same) "snd q = db" | (new) page r db1 key db2 st1 mt k h x2 where
      "createPageIn env i ''create'' page a db = Inr (r, db1)"
      "store env x2 a fid vid mt PRIMARY i i db1 st = (Inr (key, db2), st1)"
      "snd q = db2\<lparr>uploads := uploads db2 @ [\<lparr>upActor = kaUser a, upKey = dbid k, upHash = h, upPage = i\<rparr>]\<rparr>"
    using assms(3) unfolding createFilePage_def Let_def repeat_upload_def
    by (fastforce simp: err_simps split: sum.splits prod.splits option.splits)
  then show ?thesis
  proof cases
    case same
    then show ?thesis using Inr by (simp add: after_def step_same)
  next
    case new
    have "tree_of (snd q) = tree_of db1" unfolding new(3) using store_tree[OF new(2)] by simp
    moreover have "tree_step (tree_of db) (tree_of db1)"
      using createPageIn_tree[OF assms(1) _ new(1)] assms(2) by (simp add: fresh_page_def)
    ultimately show ?thesis using Inr by (simp add: after_def)
  qed
qed (simp add: after_def step_same)

lemma uploadIn_tree:
  "uploadIn env x fid i meta a db st = (res, st') \<Longrightarrow> tree_of (after res db) = tree_of db"
  by (auto simp: uploadIn_def Let_def after_def link_file_def split: if_splits sum.splits)

lemma clean_orphan_rows_tree: "clean_orphan_rows env a db = Inr (n, db') \<Longrightarrow> tree_of db' = tree_of db"
  unfolding clean_orphan_rows_def Let_def by (elim bindE_InrE) auto

lemma cleanOrphans_tree:
  "cleanOrphans env listing del a db st = (res, st') \<Longrightarrow> tree_of (after res db) = tree_of db"
  unfolding cleanOrphans_def Let_def
  by (auto simp: after_def clean_orphan_rows_tree split: sum.splits prod.splits)
    (metis clean_orphan_rows_tree fst_conv snd_conv tree_clean)+

lemma purgeAndClean_tree:
  assumes "kb_ok db" and "purgeAndClean env del i input a db st = (res, st')"
  shows "tree_step (tree_of db) (tree_of (after res db))"
proof (cases "purge env i input a db")
  case (Inr q)
  obtain r db1 where q: "q = (r, db1)" by (cases q)
  obtain c db2 st1 where c: "processCleanup del a db1 st = (c, db2, st1)" by (cases "processCleanup del a db1 st") auto
  have "after res db = db2" using assms(2) Inr q c by (auto simp: purgeAndClean_def after_def split: prod.splits)
  moreover have "tree_of db2 = tree_of db1" using tree_clean(1)[of del a db1 st] c by simp
  moreover have "tree_step (tree_of db) (tree_of db1)" using purge_tree[OF assms(1)] Inr q by blast
  ultimately show ?thesis by simp
qed (use assms(2) in \<open>auto simp: purgeAndClean_def after_def step_same\<close>)

lemma preview_trees:
  "claim env lease now seconds db = Inr (job, db') \<Longrightarrow> tree_of db' = tree_of db"
  "complete vid lease now sz err db = (ok, db') \<Longrightarrow> tree_of db' = tree_of db"
  by (auto simp: claim_def complete_def Let_def split: if_splits option.splits)

text \<open>What a successful \<open>retry\<close> does.\<close>

lemma retry_effect:
  assumes "retry file a db = Inr (r, db')"
  obtains f :: kfile and v where "db' = add_audit a ''knowledge-pages'' (Some (flPage f)) ''file.preview_retried''
    (set_preview (retried_job v) (case pvKey v of None \<Rightarrow> db | Some k \<Rightarrow> queue_key (kaUser a) k db))"
    and "v \<in> set (previews db)" and "pvStatus v = PreviewFailed"
proof -
  show thesis
    using assms unfolding retry_def Let_def
  proof (elim bindE_InrE, goal_cases)
    case (1 u f)
    then obtain v where v: "find (\<lambda>v. pvFile v = flId f \<and> pvSha v = flSha f) (previews db) = Some v"
      by (cases "find (\<lambda>v. pvFile v = flId f \<and> pvSha v = flSha f) (previews db)") auto
    have st: "pvStatus v = PreviewFailed" and eq: "db' = add_audit a ''knowledge-pages'' (Some (flPage f)) ''file.preview_retried''
      (set_preview (retried_job v) (case pvKey v of None \<Rightarrow> db | Some k \<Rightarrow> queue_key (kaUser a) k db))"
      using 1(3) v by (simp_all add: err_simps)
    show thesis by (rule that[OF eq _ st]) (use find_Some_mem[OF v] in simp)
  qed
qed

lemma retry_tree:
  assumes "retry file a db = Inr (r, db')"
  shows "tree_of db' = tree_of db"
proof (rule retry_effect[OF assms])
  fix f :: kfile and v assume "db' = add_audit a ''knowledge-pages'' (Some (flPage f)) ''file.preview_retried''
    (set_preview (retried_job v) (case pvKey v of None \<Rightarrow> db | Some k \<Rightarrow> queue_key (kaUser a) k db))"
  then show ?thesis by (simp split: option.split)
qed

lemma retryStorageCleanup_tree: "retryStorageCleanup env listing del db st = (db', st') \<Longrightarrow> tree_of db' = tree_of db"
  unfolding retryStorageCleanup_def by (metis fst_conv tree_clean)

lemma kb_step_tree: "kb_step env s s' \<Longrightarrow> kb_ok (fst s) \<Longrightarrow> tree_step (tree_of (fst s)) (tree_of (fst s'))"
proof (induction rule: kb_step.induct)
  case (step_run c db a r db' st)
  then show ?case using run_tree_step by simp
next
  case (step_create fid db st i x vid input meta a res st')
  then show ?case using createFilePage_tree by simp
next
  case (step_purge del i input a db st res st')
  then show ?case using purgeAndClean_tree by simp
qed (simp_all add: upload_tree uploadIn_tree cleanOrphans_tree preview_trees retry_tree retryStorageCleanup_tree step_same)

lemma kb_reach_ok: "kb_reach env s \<Longrightarrow> kb_ok (fst s)"
proof (induction rule: kb_reach.induct)
  case (reach_start d)
  have "acyclic ({} :: (string \<times> string) set)" by (simp add: acyclic_def)
  then show ?case
    by (simp add: kb_ok_def tree_ok_def ids_ok_def places_ok_def trash_ok_def trash_closed_def batches_convex_def
        versions_ok_def kb_empty_def tree_of_def key_rel_def)
next
  case (reach_step s s')
  then show ?case using kb_step_tree tree_ok_kept unfolding kb_ok_def by blast
qed

section \<open>The objects of the files\<close>

definition preview_object :: "kb_env \<Rightarrow> string \<Rightarrow> bool" where
  "preview_object env k \<longleftrightarrow> (\<exists>v lease. k = preview_key env v lease)"

lemma object_not_preview: "\<not> preview_object env (object_key env page fid)"
  by (simp add: preview_object_def object_key_def object_prefix_def preview_key_def)

definition file_keys_ok :: "kb_env \<Rightarrow> kb \<Rightarrow> bool" where
  "file_keys_ok env db \<longleftrightarrow> distinct (map flId (files db)) \<and> distinct (map flKey (files db)) \<and>
     (\<forall>f \<in> set (files db). \<exists>page. flKey f = object_key env page (flId f)) \<and>
     (\<forall>v \<in> set (previews db). \<forall>k. pvKey v = Some k \<longrightarrow> preview_object env k)"

definition objects_ok :: "kb \<Rightarrow> string list \<Rightarrow> bool" where
  "objects_ok db st \<longleftrightarrow> (\<forall>f \<in> set (files db). flKey f \<in> set st \<and> flKey f \<notin> clKey ` set (cleanup db))"

definition storage_ok :: "kb_env \<Rightarrow> kb \<times> string list \<Rightarrow> bool" where
  "storage_ok env s \<longleftrightarrow> file_keys_ok env (fst s) \<and> objects_ok (fst s) (snd s)"

text \<open>The rows the invariant speaks of.\<close>

definition stored_rows :: "kb \<Rightarrow> (string \<times> string) list \<times> string list \<times> kpreview list" where
  "stored_rows db = (map (\<lambda>f. (flId f, flKey f)) (files db), map clKey (cleanup db), previews db)"

lemma stored_rows_keys:
  assumes "stored_rows db' = stored_rows db"
  shows "map flId (files db') = map flId (files db)" and "map flKey (files db') = map flKey (files db)"
    and "previews db' = previews db" and "clKey ` set (cleanup db') = clKey ` set (cleanup db)"
    and "f' \<in> set (files db') \<Longrightarrow> \<exists>f \<in> set (files db). flId f' = flId f \<and> flKey f' = flKey f"
proof -
  from assms have eq: "map (\<lambda>f. (flId f, flKey f)) (files db') = map (\<lambda>f. (flId f, flKey f)) (files db)"
    and cl: "map clKey (cleanup db') = map clKey (cleanup db)" and pv: "previews db' = previews db"
    by (simp_all add: stored_rows_def)
  show "map flId (files db') = map flId (files db)" using arg_cong[OF eq, of "map fst"] by (simp add: comp_def)
  show "map flKey (files db') = map flKey (files db)" using arg_cong[OF eq, of "map snd"] by (simp add: comp_def)
  show "previews db' = previews db" by (rule pv)
  show "clKey ` set (cleanup db') = clKey ` set (cleanup db)" using arg_cong[OF cl, of set] by simp
  assume "f' \<in> set (files db')"
  then have "(flId f', flKey f') \<in> set (map (\<lambda>f. (flId f, flKey f)) (files db))" unfolding eq[symmetric] by force
  then show "\<exists>f \<in> set (files db). flId f' = flId f \<and> flKey f' = flKey f" by auto
qed

lemma storage_ok_same:
  assumes "stored_rows db' = stored_rows db" and "storage_ok env (db, st)"
  shows "storage_ok env (db', st)"
proof -
  note rows = stored_rows_keys[OF assms(1)]
  have "\<exists>page. flKey f = object_key env page (flId f)" "flKey f \<in> set st \<and> flKey f \<notin> clKey ` set (cleanup db')"
    if f: "f \<in> set (files db')" for f
  proof -
    obtain g where g: "g \<in> set (files db)" "flId f = flId g" "flKey f = flKey g" using rows(5)[OF f] by blast
    show "\<exists>page. flKey f = object_key env page (flId f)"
      using assms(2) g by (simp add: storage_ok_def file_keys_ok_def)
    show "flKey f \<in> set st \<and> flKey f \<notin> clKey ` set (cleanup db')"
      using assms(2) g unfolding rows(4) by (simp add: storage_ok_def objects_ok_def)
  qed
  then show ?thesis
    using assms(2) unfolding storage_ok_def file_keys_ok_def objects_ok_def fst_conv snd_conv rows(1,2,3) by blast
qed

lemma stored_rows_simps [simp]:
  "stored_rows (add_audit a r i s db) = stored_rows db" "stored_rows (set_page p db) = stored_rows db"
  "stored_rows (set_tags pg ts db) = stored_rows db" "stored_rows (rebuildSearch x y db) = stored_rows db"
  "stored_rows (set_space sp db) = stored_rows db" "stored_rows (set_folder fd db) = stored_rows db"
  "stored_rows (unlink_file fid db) = stored_rows db" "stored_rows (transition_all k b ids db) = stored_rows db"
  "stored_rows (relocate ids sp2 fo db) = stored_rows db" "stored_rows (link_file pg fid role db) = stored_rows db"
  "stored_rows (bump_file fid db) = stored_rows db"
  by (simp_all add: stored_rows_def add_audit_def set_page_def set_tags_def rebuildSearch_def set_space_def
      set_folder_def unlink_file_def transition_all_def relocate_def link_file_def bump_file_def comp_def if_distrib
      cong: if_cong)

lemma stored_rows_updates [simp]:
  "stored_rows (db\<lparr>pages := ps\<rparr>) = stored_rows db" "stored_rows (db\<lparr>spaces := ss\<rparr>) = stored_rows db"
  "stored_rows (db\<lparr>pageAccess := pa\<rparr>) = stored_rows db" "stored_rows (db\<lparr>spaceAccess := sa\<rparr>) = stored_rows db"
  "stored_rows (db\<lparr>folders := fo\<rparr>) = stored_rows db" "stored_rows (db\<lparr>uploads := us\<rparr>) = stored_rows db"
  "stored_rows (db\<lparr>versions := vs\<rparr>) = stored_rows db" "stored_rows (db\<lparr>versionFiles := vf\<rparr>) = stored_rows db"
  by (simp_all add: stored_rows_def)

lemma createPageIn_rows: "createPageIn env i action input a db = Inr (r, db') \<Longrightarrow> stored_rows db' = stored_rows db"
  unfolding createPageIn_def Let_def by (elim bindE_InrE) auto

lemma run_rows_pages:
  "updatePage env i input a db = Inr (r, db') \<Longrightarrow> stored_rows db' = stored_rows db"
  "setPageAccess env i input a db = Inr (r, db') \<Longrightarrow> stored_rows db' = stored_rows db"
  "publish env vid i input a db = Inr (r, db') \<Longrightarrow> stored_rows db' = stored_rows db"
  "move env i input a db = Inr (r, db') \<Longrightarrow> stored_rows db' = stored_rows db"
  "transitionPage env b i k input a db = Inr (r, db') \<Longrightarrow> stored_rows db' = stored_rows db"
  "removeAttachment env i input a db = Inr (r, db') \<Longrightarrow> stored_rows db' = stored_rows db"
  unfolding updatePage_def updatePageIn_def setPageAccess_def publish_def move_def transitionPage_def
    removeAttachment_def Let_def
  by (elim bindE_InrE, auto elim!: bindE_InrE split: if_splits option.splits json.splits)+

lemma run_rows_others:
  "createSpace env i input a db = Inr (r, db') \<Longrightarrow> stored_rows db' = stored_rows db"
  "updateSpace env i input a db = Inr (r, db') \<Longrightarrow> stored_rows db' = stored_rows db"
  "archiveSpace env i input a db = Inr (r, db') \<Longrightarrow> stored_rows db' = stored_rows db"
  "setSpaceAccess env i input a db = Inr (r, db') \<Longrightarrow> stored_rows db' = stored_rows db"
  "createFolder env i input a db = Inr (r, db') \<Longrightarrow> stored_rows db' = stored_rows db"
  "updateFolder env i input a db = Inr (r, db') \<Longrightarrow> stored_rows db' = stored_rows db"
  "deleteFolder env i input a db = Inr (r, db') \<Longrightarrow> stored_rows db' = stored_rows db"
  unfolding createSpace_def updateSpace_def archiveSpace_def setSpaceAccess_def createFolder_def updateFolder_def
    deleteFolder_def Let_def
  by (elim bindE_InrE, auto split: if_splits)+

text \<open>Queueing keys that belong to no file row, and removing rows.\<close>

lemma storage_queue:
  assumes "storage_ok env (db, st)" and "\<And>f. f \<in> set (files db) \<Longrightarrow> flKey f \<notin> set ks"
  shows "storage_ok env (enqueueCleanup a ks db, st)"
  using assms by (auto simp: storage_ok_def file_keys_ok_def objects_ok_def enqueueCleanup_def)

lemma storage_queue_key:
  assumes "storage_ok env (db, st)" and "preview_object env k"
  shows "storage_ok env (queue_key by k db, st)"
proof -
  have "flKey f \<noteq> k" if "f \<in> set (files db)" for f
    using that assms object_not_preview by (fastforce simp: storage_ok_def file_keys_ok_def)
  then show ?thesis using assms(1) by (auto simp: storage_ok_def file_keys_ok_def objects_ok_def queue_key_def)
qed

lemma storage_fewer_rows:
  assumes "storage_ok env (db, st)" and "files db' = filter P (files db)" and "set (previews db') \<subseteq> set (previews db)"
    and "clKey ` set (cleanup db') \<subseteq> clKey ` set (cleanup db)"
  shows "storage_ok env (db', st)"
proof -
  have "flKey f \<notin> clKey ` set (cleanup db')" if "f \<in> set (files db)" for f
    using that assms(1,4) by (auto simp: storage_ok_def objects_ok_def)
  moreover have "preview_object env k" if "v \<in> set (previews db')" "pvKey v = Some k" for v k
    using that assms(1,3) by (auto simp: storage_ok_def file_keys_ok_def)
  ultimately show ?thesis
    using assms(1,2) by (auto simp: storage_ok_def file_keys_ok_def objects_ok_def distinct_map_filter)
qed

lemma storage_delete_file_rows:
  assumes "storage_ok env (db, st)" and "\<And>f. f \<in> set (files db) \<Longrightarrow> flKey f \<in> set ks \<Longrightarrow> \<not> P f"
    and "files db' = filter P (files db)" and "set (previews db') \<subseteq> set (previews db)" and "cleanup db' = cleanup db"
  shows "storage_ok env (enqueueCleanup a ks db', st)"
  by (rule storage_queue, rule storage_fewer_rows[OF assms(1,3,4)]) (use assms(2,3,5) in auto)

lemma storage_purge:
  assumes ok: "storage_ok env (db, st)" and "purge env i input a db = Inr (r, db')"
  shows "storage_ok env (db', st)"
  using assms(2) unfolding purge_def Let_def
proof (elim bindE_InrE, goal_cases)
  case (1 kvs row u1 okv u2 u3)
  let ?ids = "map pgId (page_descendants db (pgId row))"
  have db': "db' = add_audit a ''knowledge-pages'' (Some (pgId row)) ''page.permanently_deleted''
      (enqueueCleanup a (page_objects db ?ids) (delete_pages ?ids db))" using 1(7) by simp
  have "flPage f \<in> set ?ids" if f: "f \<in> set (files db)" "flKey f \<in> set (page_objects db ?ids)" for f
  proof -
    from f(2) consider g where "g \<in> set (files db)" "flPage g \<in> set ?ids" "flKey g = flKey f"
      | v where "v \<in> set (previews db)" "pvKey v = Some (flKey f)"
      by (fastforce simp: page_objects_def List.map_filter_def split: if_splits)
    then show ?thesis
    proof cases
      case 1
      then have "g = f" using same_key[of flKey "files db" g f] ok f(1) by (simp add: storage_ok_def file_keys_ok_def)
      then show ?thesis using 1 by simp
    next
      case 2
      then have "preview_object env (flKey f)" using ok by (auto simp: storage_ok_def file_keys_ok_def)
      moreover obtain page where "flKey f = object_key env page (flId f)"
        using ok f(1) by (auto simp: storage_ok_def file_keys_ok_def)
      ultimately show ?thesis using object_not_preview by simp
    qed
  qed
  then have "storage_ok env (enqueueCleanup a (page_objects db ?ids) (delete_pages ?ids db), st)"
    by (intro storage_delete_file_rows[OF ok, where P = "\<lambda>f. flPage f \<notin> set ?ids"]) (auto simp: delete_pages_def)
  then show ?case unfolding db' by (rule storage_ok_same[OF stored_rows_simps(1)])
qed

lemma run_storage:
  assumes "storage_ok env (db, st)" and "run env a c db = Inr (r, db')"
  shows "storage_ok env (db', st)"
proof (cases c)
  case (Purge i input)
  then show ?thesis using assms(2) storage_purge[OF assms(1)] by (auto elim!: bindE_InrE)
qed (use assms in \<open>auto simp: createPage_def intro: storage_ok_same run_rows_pages run_rows_others createPageIn_rows\<close>)

section \<open>Uploads and clean-up runs\<close>

lemma storage_more_objects: "storage_ok env (db, st) \<Longrightarrow> set st \<subseteq> set st' \<Longrightarrow> storage_ok env (db, st')"
  by (auto simp: storage_ok_def objects_ok_def)

lemma storage_drop:
  assumes "storage_ok env (db, st)" and "\<And>f. f \<in> set (files db) \<Longrightarrow> flKey f \<noteq> k"
  shows "storage_ok env (db, drop_object k st)"
  using assms by (auto simp: storage_ok_def objects_ok_def drop_object_def)

lemma set_add_object [simp]: "set (add_object k st) = insert k (set st)"
  by (auto simp: add_object_def)

lemma fresh_object_key:
  assumes "storage_ok env (db, st)" and "fresh_object env fid db st" and "f \<in> set (files db)"
  shows "flKey f \<noteq> object_key env page fid"
  using assms by (auto simp: storage_ok_def objects_ok_def fresh_object_def)

text \<open>An upload that ends in an error.\<close>

lemma storage_discard:
  assumes "storage_ok env (db, st)" and "fresh_object env fid db st"
  shows "storage_ok env (db, discard x (object_key env page fid) (add_object (object_key env page fid) st))"
proof -
  have "storage_ok env (db, add_object (object_key env page fid) st)" by (rule storage_more_objects[OF assms(1)]) auto
  then show ?thesis using storage_drop fresh_object_key[OF assms] by (auto simp: discard_def)
qed

text \<open>A new file row.\<close>

lemma storage_new_file:
  assumes ok: "storage_ok env (db, st)" and fresh: "fresh_object env fid db st"
    and rows: "files db' = files db @ [file_row fid page (object_key env raw fid) mt]" "cleanup db' = cleanup db"
    and pv: "\<And>v k. v \<in> set (previews db') \<Longrightarrow> pvKey v = Some k \<Longrightarrow> preview_object env k"
  shows "storage_ok env (db', add_object (object_key env raw fid) st)"
proof -
  have row: "flId (file_row fid page k mt) = fid" "flKey (file_row fid page k mt) = k" for k by (simp_all add: file_row_def)
  have "fid \<notin> flId ` set (files db)" and "object_key env raw fid \<notin> clKey ` set (cleanup db)"
    using fresh by (simp_all add: fresh_object_def)
  moreover have "object_key env raw fid \<notin> flKey ` set (files db)"
    using fresh_object_key[OF ok fresh, of _ raw] by fastforce
  ultimately show ?thesis
    using ok pv rows by (auto simp: storage_ok_def file_keys_ok_def objects_ok_def row)
qed

lemma previews_ok: "storage_ok env (db, st) \<Longrightarrow> v \<in> set (previews db) \<Longrightarrow> pvKey v = Some k \<Longrightarrow> preview_object env k"
  by (auto simp: storage_ok_def file_keys_ok_def)

lemma store_storage:
  assumes ok: "storage_ok env (db, st)" and fresh: "fresh_object env fid db st"
    and "store env x a fid vid mt role raw page db st = (res, st')"
  shows "storage_ok env (after res db, st')"
proof (cases "db_ok x \<and> put_ok x \<and> isOk res")
  case True
  then have "res = Inr (object_key env raw fid, store_rows a fid vid (object_key env raw fid) mt role page db)"
    and st': "st' = add_object (object_key env raw fid) st"
    using assms(3) by (auto simp: store_def Let_def split: if_splits)
  then have "after res db = store_rows a fid vid (object_key env raw fid) mt role page db" by (simp add: after_def)
  moreover have "storage_ok env (store_rows a fid vid (object_key env raw fid) mt role page db, st')"
    unfolding st' using previews_ok[OF ok]
    by (intro storage_new_file[OF ok fresh, of _ page raw mt])
      (auto simp: store_rows_def enqueuePreview_def link_file_def split: if_splits)
  ultimately show ?thesis by simp
next
  case False
  then have "after res db = db" and "st' = st \<or> (\<exists>y. st' = discard y (object_key env raw fid) (add_object (object_key env raw fid) st))"
    using assms(3) by (auto simp: store_def Let_def after_def split: if_splits)
  then show ?thesis using ok storage_discard[OF ok fresh] by auto
qed

lemma upload_storage:
  assumes ok: "storage_ok env (db, st)" and fresh: "fresh_object env fid db st"
    and "upload env x fid vid i input meta a db st = (res, st')"
  shows "storage_ok env (after res db, st')"
proof (cases "bindE (upload_checks env input meta a) (\<lambda>(kvs, role, mt).
    bindE (upload_target env i kvs role a db) (\<lambda>page. Inr (role, mt, page)))")
  case (Inl e)
  then show ?thesis using assms(3) ok by (auto simp: upload_def)
next
  case (Inr q)
  then obtain role mt page where q: "q = (role, mt, page)" by (cases q)
  obtain sres st1 where s: "store env x a fid vid mt role i (pgId page) db st = (sres, st1)" by fastforce
  have "st' = st1" and "stored_rows (after res db) = stored_rows (after sres db)"
    using assms(3) Inr q s by (auto simp: upload_def split: sum.splits)
  then show ?thesis using storage_ok_same store_storage[OF ok fresh s] by blast
qed

lemma after_repeat [simp]: "after (repeat_upload env a h u db) db = db"
  by (simp add: after_def repeat_upload_def require_def bindE_def split: sum.split)

lemma createFilePage_storage:
  assumes ok: "storage_ok env (db, st)" and fresh: "fresh_object env fid db st"
    and "createFilePage env x i fid vid input meta a db st = (res, st')"
  shows "storage_ok env (after res db, st')"
proof -
  consider (same) "after res db = db" "st' = st" | (new) page r db1 x2 mt sres st1 where
      "createPageIn env i ''create'' page a db = Inr (r, db1)"
      "store env x2 a fid vid mt PRIMARY i i db1 st = (sres, st1)" "st' = st1"
      "stored_rows (after res db) = stored_rows (after sres db1)"
  proof (cases "create_checks input meta a")
    case (Inl e)
    then show ?thesis using same assms(3) by (auto simp: createFilePage_def)
  next
    case (Inr q)
    then obtain k mt page where q: "q = (k, mt, page)" by (cases q)
    show ?thesis
    proof (cases "previous_upload db a k")
      case (Some u)
      then show ?thesis using same assms(3) Inr q
        by (auto simp: createFilePage_def Let_def)
    next
      case None
      show ?thesis
      proof (cases "createPageIn env i ''create'' (JObj page) a db")
        case (Inl e)
        then show ?thesis using same assms(3) Inr q None by (auto simp: createFilePage_def Let_def)
      next
        case p: (Inr w)
        obtain r db1 where w: "w = (r, db1)" by (cases w)
        obtain sres st1 where s: "store env (x\<lparr>db_ok := db_ok x \<and> kaUser a \<noteq> None\<rparr>) a fid vid mt PRIMARY i i db1 st = (sres, st1)"
          by fastforce
        have "st' = st1" "stored_rows (after res db) = stored_rows (after sres db1)"
          using assms(3) Inr q None p w s createPageIn_rows[of env i "''create''" "JObj page" a db r db1]
          by (auto simp: createFilePage_def Let_def split: sum.splits)
        then show ?thesis using new p w s by blast
      qed
    qed
  qed
  then show ?thesis
  proof cases
    case same
    then show ?thesis using ok by simp
  next
    case new
    note rows = createPageIn_rows[OF new(1)]
    have ok1: "storage_ok env (db1, st)" by (rule storage_ok_same[OF rows ok])
    have "flId ` set (files db1) = flId ` set (files db)"
      using arg_cong[OF stored_rows_keys(1)[OF rows], of set] by simp
    then have "fresh_object env fid db1 st"
      using fresh stored_rows_keys(4)[OF rows] by (simp add: fresh_object_def)
    from store_storage[OF ok1 this new(2)] have "storage_ok env (after sres db1, st')" unfolding new(3) .
    then show ?thesis by (rule storage_ok_same[OF new(4)])
  qed
qed

lemma uploadIn_storage:
  assumes ok: "storage_ok env (db, st)" and fresh: "fresh_object env fid db st"
    and "uploadIn env x fid i meta a db st = (res, st')"
  shows "storage_ok env (after res db, st')"
proof -
  consider (fail) "after res db = db" "st' \<in> {st, discard x (object_key env i fid) (add_object (object_key env i fid) st)}"
    | (new) mt role where "st' = add_object (object_key env i fid) st" "after res db = add_audit a ''knowledge-pages'' (Some i) ''attachment.uploaded''
        (link_file i fid role (db\<lparr>files := files db @ [file_row fid i (object_key env i fid) mt]\<rparr>))"
    using assms(3) unfolding uploadIn_def Let_def by (auto split: if_splits sum.splits)
  then show ?thesis
  proof cases
    case fail
    then show ?thesis using ok storage_discard[OF ok fresh] by auto
  next
    case new
    have "storage_ok env (db\<lparr>files := files db @ [file_row fid i (object_key env i fid) mt]\<rparr>, st')"
      unfolding new(1) using previews_ok[OF ok] by (intro storage_new_file[OF ok fresh, of _ i i mt]) auto
    then show ?thesis unfolding new(2) by (rule storage_ok_same[rotated]) simp
  qed
qed

text \<open>The deletion loop only removes objects whose keys are queued.\<close>

lemma cleanup_loop_queue: "clKey ` set (fst (cleanup_loop del cs (queue, st))) \<subseteq> clKey ` set queue"
proof (induction cs arbitrary: queue st)
  case (Cons c cs)
  let ?rest = "filter (\<lambda>x. clKey x \<noteq> clKey c) queue"
  let ?bump = "map (\<lambda>x. if clKey x = clKey c then x\<lparr>clAttempts := clAttempts x + 1\<rparr> else x) queue"
  have rest: "clKey ` set ?rest \<subseteq> clKey ` set queue" by auto
  have bump: "clKey ` set ?bump \<subseteq> clKey ` set queue" by (auto simp: image_image intro: rev_image_eqI)
  show ?case
  proof (cases "del (clKey c)")
    case True
    with subset_trans[OF Cons rest] show ?thesis by (simp only: cleanup_loop.simps if_True)
  next
    case False
    with subset_trans[OF Cons bump] show ?thesis by (simp only: cleanup_loop.simps if_False)
  qed
qed simp

lemma cleanup_loop_keeps: "k \<in> set st \<Longrightarrow> k \<notin> clKey ` set cs \<Longrightarrow> k \<in> set (snd (cleanup_loop del cs (queue, st)))"
  by (induction cs arbitrary: queue st) (simp_all add: drop_object_def)

lemma processCleanup_storage:
  assumes ok: "storage_ok env (db, st)" and "processCleanup del a db st = (n, db', st')"
  shows "storage_ok env (db', st')"
proof -
  let ?es = "take 100 (filter (own_entry a) (cleanup db))"
  obtain queue where loop: "cleanup_loop del ?es (cleanup db, st) = (queue, st')" and db': "db' = db\<lparr>cleanup := queue\<rparr>"
    using assms(2) by (auto simp: processCleanup_def Let_def split: prod.splits)
  have "set ?es \<subseteq> set (cleanup db)" by (auto dest: in_set_takeD)
  then have "flKey f \<in> set st'" if "f \<in> set (files db)" for f
    using that ok cleanup_loop_keeps[of "flKey f" st ?es del "cleanup db"]
    unfolding loop by (fastforce simp: storage_ok_def objects_ok_def)
  then have "storage_ok env (db, st')" using ok by (simp add: storage_ok_def objects_ok_def)
  then show ?thesis
    unfolding db' by (rule storage_fewer_rows[where P = "\<lambda>_. True"]) (use cleanup_loop_queue[of del ?es "cleanup db" st] loop in auto)
qed

lemma reconcile_storage:
  assumes "storage_ok env (db, st)"
  shows "storage_ok env (snd (reconcileStorageOrphans env listing a db st), st)"
proof -
  have "storage_ok env (enqueueCleanup a (unknown_objects env db st) db, st)"
    by (rule storage_queue[OF assms]) (auto simp: unknown_objects_def known_keys_def)
  then have "storage_ok env (add_audit a r i s (enqueueCleanup a (unknown_objects env db st) db), st)" for r i s
    by (rule storage_ok_same[OF stored_rows_simps(1)])
  moreover have "storage_ok env (enqueueCleanup a [] db, st)" by (rule storage_queue[OF assms]) simp
  ultimately show ?thesis using assms by (simp add: reconcileStorageOrphans_def Let_def)
qed

lemma clean_orphan_rows_storage:
  assumes ok: "storage_ok env (db, st)" and "clean_orphan_rows env a db = Inr (n, db')"
  shows "storage_ok env (db', st)"
  using assms(2) unfolding clean_orphan_rows_def Let_def
proof (elim bindE_InrE, goal_cases)
  case (1 u1 u2)
  let ?fs = "filter (orphan env a db) (files db)"
  let ?db1 = "enqueueCleanup a (preview_keys db (map flId ?fs)) db"
  have db': "db' = add_audit a ''knowledge-pages'' None ''attachment.orphans_cleaned''
      (enqueueCleanup a (map flKey ?fs) (delete_files (map flId ?fs) ?db1))" using 1(3) by simp
  have ok1: "storage_ok env (?db1, st)"
  proof (rule storage_queue[OF ok])
    fix f assume f: "f \<in> set (files db)"
    obtain page where "flKey f = object_key env page (flId f)" using ok f by (auto simp: storage_ok_def file_keys_ok_def)
    moreover have "preview_object env k" if "k \<in> set (preview_keys db (map flId ?fs))" for k
      using that previews_ok[OF ok] by (auto simp: preview_keys_def List.map_filter_def split: if_splits)
    ultimately show "flKey f \<notin> set (preview_keys db (map flId ?fs))" using object_not_preview by metis
  qed
  have "flId f \<in> set (map flId ?fs)" if f: "f \<in> set (files db)" "flKey f \<in> set (map flKey ?fs)" for f
  proof -
    obtain g where g: "g \<in> set ?fs" "flKey g = flKey f" using f(2) by auto
    then have "g = f" using same_key[of flKey "files db" g f] ok f(1) by (simp add: storage_ok_def file_keys_ok_def)
    then show ?thesis using g by auto
  qed
  then have "storage_ok env (enqueueCleanup a (map flKey ?fs) (delete_files (map flId ?fs) ?db1), st)"
    by (intro storage_delete_file_rows[OF ok1, where P = "\<lambda>f. flId f \<notin> set (map flId ?fs)"])
      (auto simp: delete_files_def enqueueCleanup_def)
  then show ?case unfolding db' by (rule storage_ok_same[OF stored_rows_simps(1)])
qed

lemma cleanOrphans_storage:
  assumes ok: "storage_ok env (db, st)" and "cleanOrphans env listing del a db st = (res, st')"
  shows "storage_ok env (after res db, st')"
proof (cases "clean_orphan_rows env a db")
  case (Inl e)
  then show ?thesis using assms by (auto simp: cleanOrphans_def)
next
  case (Inr q)
  obtain n db1 where q: "q = (n, db1)" by (cases q)
  let ?db2 = "snd (reconcileStorageOrphans env listing a db1 st)"
  obtain c db3 st3 where p: "processCleanup del a ?db2 st = (c, db3, st3)" by (cases "processCleanup del a ?db2 st") auto
  have "storage_ok env (?db2, st)" using clean_orphan_rows_storage[OF ok] Inr q by (intro reconcile_storage) simp
  then have "storage_ok env (db3, st3)" using p by (rule processCleanup_storage)
  moreover have "after res db = db3" "st' = st3" using assms(2) Inr q p by (auto simp: cleanOrphans_def Let_def split: prod.splits)
  ultimately show ?thesis by simp
qed

lemma purgeAndClean_storage:
  assumes ok: "storage_ok env (db, st)" and "purgeAndClean env del i input a db st = (res, st')"
  shows "storage_ok env (after res db, st')"
proof (cases "purge env i input a db")
  case (Inl e)
  then show ?thesis using assms by (auto simp: purgeAndClean_def)
next
  case (Inr q)
  obtain r db1 where q: "q = (r, db1)" by (cases q)
  obtain c db3 st3 where p: "processCleanup del a db1 st = (c, db3, st3)" by (cases "processCleanup del a db1 st") auto
  have "storage_ok env (db1, st)" using storage_purge[OF ok] Inr q by blast
  then have "storage_ok env (db3, st3)" using p by (rule processCleanup_storage)
  moreover have "after res db = db3" "st' = st3" using assms(2) Inr q p by (auto simp: purgeAndClean_def Let_def split: prod.splits)
  ultimately show ?thesis by simp
qed

lemma storage_previews:
  assumes "storage_ok env (db, st)" and "files db' = files db" and "cleanup db' = cleanup db"
    and "\<And>v k. v \<in> set (previews db') \<Longrightarrow> pvKey v = Some k \<Longrightarrow> preview_object env k"
  shows "storage_ok env (db', st)"
  using assms by (auto simp: storage_ok_def file_keys_ok_def objects_ok_def)

lemma set_preview_storage:
  assumes "storage_ok env (db, st)" and "\<And>k. pvKey v = Some k \<Longrightarrow> preview_object env k"
  shows "storage_ok env (set_preview v db, st)"
  using assms(2) previews_ok[OF assms(1)] by (intro storage_previews[OF assms(1)]) (auto simp: set_preview_def split: if_splits)

lemma storage_queue_old_key:
  assumes "storage_ok env (db, st)" and "v \<in> set (previews db)"
  shows "storage_ok env (case pvKey v of None \<Rightarrow> db | Some k \<Rightarrow> queue_key by k db, st)"
  using assms storage_queue_key previews_ok by (auto split: option.split)

lemma claim_storage:
  assumes ok: "storage_ok env (db, st)" and "claim env lease now seconds db = Inr (job, db')"
  shows "storage_ok env (db', st)"
proof (cases "find (claimable now db) (previews db)")
  case None
  then show ?thesis using assms by (auto simp: claim_def split: if_splits)
next
  case (Some v)
  have v: "v \<in> set (previews db)" using find_Some_mem[OF Some] by simp
  have "storage_ok env (set_preview (exhausted_job v) db, st)"
    using previews_ok[OF ok v] by (intro set_preview_storage[OF ok]) (simp add: exhausted_job_def)
  moreover have "storage_ok env (set_preview (leased_job env lease u v) (case pvKey v of None \<Rightarrow> db | Some k \<Rightarrow> queue_key None k db), st)" for u
    by (rule set_preview_storage[OF storage_queue_old_key[OF ok v]]) (auto simp: leased_job_def preview_object_def)
  ultimately show ?thesis using assms(2) Some by (auto simp: claim_def Let_def split: if_splits)
qed

lemma complete_storage:
  assumes "storage_ok env (db, st)" and "complete vid lease now sz err db = (ok, db')"
  shows "storage_ok env (db', st)"
  using assms(2) previews_ok[OF assms(1)]
  by (intro storage_previews[OF assms(1)]) (auto simp: complete_def completed_job_def split: if_splits)

lemma retry_storage:
  assumes ok: "storage_ok env (db, st)" and "retry file a db = Inr (r, db')"
  shows "storage_ok env (db', st)"
proof (rule retry_effect[OF assms(2)])
  fix f :: kfile and v
  assume db': "db' = add_audit a ''knowledge-pages'' (Some (flPage f)) ''file.preview_retried''
    (set_preview (retried_job v) (case pvKey v of None \<Rightarrow> db | Some k \<Rightarrow> queue_key (kaUser a) k db))" and v: "v \<in> set (previews db)"
  have "storage_ok env (set_preview (retried_job v) (case pvKey v of None \<Rightarrow> db | Some k \<Rightarrow> queue_key (kaUser a) k db), st)"
    by (rule set_preview_storage[OF storage_queue_old_key[OF ok v]]) (simp add: retried_job_def)
  then show ?thesis unfolding db' by (rule storage_ok_same[OF stored_rows_simps(1)])
qed

lemma retryStorageCleanup_storage:
  assumes "storage_ok env (db, st)" and "retryStorageCleanup env listing del db st = (db', st')"
  shows "storage_ok env (db', st')"
  using assms(2) processCleanup_storage[OF reconcile_storage[OF assms(1)]]
  unfolding retryStorageCleanup_def by (metis prod.collapse)

lemma preview_drop_storage:
  assumes "storage_ok env (db, st)"
  shows "storage_ok env (db, drop_object (preview_key env v lease) st)"
proof (rule storage_drop[OF assms])
  fix f assume "f \<in> set (files db)"
  then obtain page where "flKey f = object_key env page (flId f)" using assms by (auto simp: storage_ok_def file_keys_ok_def)
  then show "flKey f \<noteq> preview_key env v lease" using object_not_preview unfolding preview_object_def by metis
qed

lemma kb_step_storage: "kb_step env s s' \<Longrightarrow> storage_ok env s \<Longrightarrow> storage_ok env s'"
proof (induction rule: kb_step.induct)
  case (step_preview_put db st v lease)
  then show ?case by (rule storage_more_objects) auto
qed (blast intro: run_storage upload_storage createFilePage_storage uploadIn_storage cleanOrphans_storage
    purgeAndClean_storage retryStorageCleanup_storage claim_storage complete_storage retry_storage preview_drop_storage)+

lemma kb_reach_storage: "kb_reach env s \<Longrightarrow> storage_ok env s"
proof (induction rule: kb_reach.induct)
  case (reach_start d)
  then show ?case by (simp add: storage_ok_def file_keys_ok_def objects_ok_def kb_empty_def)
next
  case (reach_step s s')
  then show ?case using kb_step_storage by blast
qed

end
