(* ===== verification/KnowledgeVersions.thy ===== *)
theory KnowledgeVersions
  imports KnowledgeStorage
begin

text \<open>
  Optimistic locking.  Pages, spaces and folders carry a version number; a command on one of
  them names the version it was made for (\<open>expectedVersion\<close>).  The locale
  \<open>versioned_rows\<close> states what that gives: once a command was accepted, no command made
  for the same version is, whatever happened in between.  The three tables are its instances.
\<close>

section \<open>The contract of a versioned table\<close>

text \<open>The version number a request asks for, as \<open>version_check\<close> reads it.\<close>

definition asked_version :: "json \<Rightarrow> rat option" where
  "asked_version input = (case input of
     JObj kvs \<Rightarrow> (case jget kvs ''expectedVersion'' of
         Some (JNum n) \<Rightarrow> Some n | Some (JStr s) \<Rightarrow> string_number s | _ \<Rightarrow> None)
   | _ \<Rightarrow> None)"

text \<open>Commands of any actors, while the tables keep \<open>P\<close>.\<close>

inductive steps_keeping :: "kb_env \<Rightarrow> (kb \<Rightarrow> bool) \<Rightarrow> kb \<Rightarrow> kb \<Rightarrow> bool" for env P where
  keep_start: "P db \<Longrightarrow> steps_keeping env P db db"
| keep_step: "steps_keeping env P db db1 \<Longrightarrow> run env a c db1 = Inr (r, db2) \<Longrightarrow> P db2 \<Longrightarrow> steps_keeping env P db db2"

lemma steps_keeping_ends: "steps_keeping env P db db' \<Longrightarrow> P db \<and> P db'"
  by (induction rule: steps_keeping.induct) auto

locale versioned_rows =
  fixes ver :: "kb \<Rightarrow> string \<Rightarrow> nat option" and edits :: "command \<Rightarrow> (string \<times> json) option"
  assumes accepted: "edits c = Some (i, input) \<Longrightarrow> run env a c db = Inr (q, db') \<Longrightarrow>
      \<exists>n. ver db (dbid i) = Some n \<and> asked_version input = Some (of_nat n) \<and>
        (\<forall>n'. ver db' (dbid i) = Some n' \<longrightarrow> n < n')"
    and kept: "run env a c db = Inr (q, db') \<Longrightarrow> ver db k = Some n \<Longrightarrow> ver db' k = Some n' \<Longrightarrow> n \<le> n'"
begin

lemma steps_keep:
  assumes "steps_keeping env (\<lambda>d. ver d k \<noteq> None) db db'" and "ver db k = Some n" and "ver db' k = Some n'"
  shows "n \<le> n'"
  using assms
proof (induction arbitrary: n' rule: steps_keeping.induct)
  case (keep_step db db1 a c q db2)
  obtain n1 where n1: "ver db1 k = Some n1" using steps_keeping_ends[OF keep_step(1)] by auto
  show ?case using keep_step.IH[OF keep_step.prems(1) n1] kept[OF keep_step(2) n1 keep_step.prems(2)] by simp
qed simp

lemma no_lost_update:
  assumes "edits c = Some (i, input)" and "run env a c db = Inr (q, db1)"
    and path: "steps_keeping env (\<lambda>d. ver d (dbid i) \<noteq> None) db1 db2"
    and "edits c' = Some (i', input')" and "dbid i' = dbid i" and "asked_version input' = asked_version input"
  shows "\<not> isOk (run env a' c' db2)"
proof
  assume "isOk (run env a' c' db2)"
  then obtain q' db3 where ok: "run env a' c' db2 = Inr (q', db3)" by (auto simp: isOk_iff)
  obtain n where n: "asked_version input = Some (of_nat n)" "\<And>n'. ver db1 (dbid i) = Some n' \<Longrightarrow> n < n'"
    using accepted[OF assms(1,2)] by blast
  obtain n1 where n1: "ver db1 (dbid i) = Some n1" using steps_keeping_ends[OF path] by auto
  obtain n2 where n2: "ver db2 (dbid i) = Some n2" "asked_version input = Some (of_nat n2)"
    using accepted[OF assms(4) ok] assms(5,6) by auto
  have "n = n2" using n(1) n2(2) by simp
  then show False using n(2)[OF n1] steps_keep[OF path n1 n2(1)] by simp
qed

end

section \<open>The tables of the knowledge base\<close>

fun page_edit :: "command \<Rightarrow> (string \<times> json) option" where
  "page_edit (UpdatePage i input) = Some (i, input)"
| "page_edit (PageAccess i input) = Some (i, input)"
| "page_edit (Publish _ i input) = Some (i, input)"
| "page_edit (MovePage i input) = Some (i, input)"
| "page_edit (Transition _ i _ input) = Some (i, input)"
| "page_edit _ = None"

fun space_edit :: "command \<Rightarrow> (string \<times> json) option" where
  "space_edit (UpdateSpace i input) = Some (i, input)"
| "space_edit (ArchiveSpace i input) = Some (i, input)"
| "space_edit (SpaceAccess i input) = Some (i, input)"
| "space_edit _ = None"

fun folder_edit :: "command \<Rightarrow> (string \<times> json) option" where
  "folder_edit (UpdateFolder i input) = Some (i, input)"
| "folder_edit (DeleteFolder i input) = Some (i, input)"
| "folder_edit _ = None"

definition page_ver :: "kb \<Rightarrow> string \<Rightarrow> nat option" where
  "page_ver db k = map_option pgVersion (lookup_row pgId (pages db) k)"

definition space_ver :: "kb \<Rightarrow> string \<Rightarrow> nat option" where
  "space_ver db k = map_option spVersion (lookup_row spId (spaces db) k)"

definition folder_ver :: "kb \<Rightarrow> string \<Rightarrow> nat option" where
  "folder_ver db k = map_option fdVersion (lookup_row fdId (filter fdActive (folders db)) k)"

text \<open>Rows change in place; new ones are appended.\<close>

lemma lookup_row_map:
  "(\<And>r. key (f r) = key r) \<Longrightarrow> lookup_row key (map f rows) k = map_option f (lookup_row key rows k)"
  by (induction rows) (simp_all add: lookup_row_def)

lemma lookup_row_append:
  "lookup_row key rows k = Some r \<Longrightarrow> lookup_row key (rows @ xs) k = Some r"
  by (induction rows) (auto simp: lookup_row_def)

lemma lookup_row_filter:
  assumes "\<And>x y. key x = key y \<Longrightarrow> P x = P y" and "lookup_row key (filter P rows) k = Some r"
  shows "lookup_row key rows k = Some r"
proof -
  have r: "P r" "key r = k" using lookup_row_Some[OF assms(2)] by simp_all
  have "lookup_row key rows k = lookup_row key (filter P rows) k"
  proof (induction rows)
    case (Cons x xs)
    have "P x" if "key x = k" using that r assms(1)[of x r] by simp
    then show ?case using Cons by (auto simp: lookup_row_def)
  qed simp
  then show ?thesis using assms(2) by simp
qed

lemma map_option_replace:
  assumes "lookup_row key rows k = x"
  shows "map_option ver (map_option (\<lambda>x. if key x = key r then r else x) x) =
    (if k = key r \<and> x \<noteq> None then Some (ver r) else map_option ver x)"
  using assms by (cases x) (auto dest: lookup_row_Some)

lemma page_ver_set [simp]:
  "page_ver (set_page p db) k = (if k = pgId p \<and> page_ver db k \<noteq> None then Some (pgVersion p) else page_ver db k)"
  by (auto simp: page_ver_def lookup_row_map map_option_replace[OF refl])

lemma space_ver_set [simp]:
  "space_ver (set_space s db) k = (if k = spId s \<and> space_ver db k \<noteq> None then Some (spVersion s) else space_ver db k)"
  by (auto simp: space_ver_def lookup_row_map map_option_replace[OF refl])

lemma folder_ver_set [simp]:
  "folder_ver (set_folder f db) k =
    (if k = fdId f then (if fdActive f \<and> k \<in> fdId ` set (folders db) then Some (fdVersion f) else None) else folder_ver db k)"
proof -
  have "lookup_row fdId (filter fdActive (map (\<lambda>x. if fdId x = fdId f then f else x) rows)) k =
    (if k = fdId f then (if fdActive f \<and> k \<in> fdId ` set rows then Some f else None) else lookup_row fdId (filter fdActive rows) k)" for rows
    by (induction rows) (auto simp: lookup_row_def)
  then show ?thesis by (simp add: folder_ver_def set_folder_def)
qed

lemma page_ver_search [simp]: "page_ver (rebuildSearch a b db) k = page_ver db k"
proof -
  have "pages (rebuildSearch a b db) = map (\<lambda>p. if search_target db a b p
     then (case published_version db p of None \<Rightarrow> p
       | Some v \<Rightarrow> (case lookup_row spId (spaces db) (verSpace v) of None \<Rightarrow> p | Some s \<Rightarrow> p\<lparr>pgSearch := search_text db v s\<rparr>))
     else p) (pages db)" by (simp add: rebuildSearch_def)
  moreover have "pgId (if search_target db a b p
     then (case published_version db p of None \<Rightarrow> p
       | Some v \<Rightarrow> (case lookup_row spId (spaces db) (verSpace v) of None \<Rightarrow> p | Some s \<Rightarrow> p\<lparr>pgSearch := search_text db v s\<rparr>))
     else p) = pgId p" for p by (simp split: option.split)
  ultimately show ?thesis
    unfolding page_ver_def by (simp add: lookup_row_map option.map_comp comp_def cong: map_option_cong)
      (auto intro!: map_option_cong split: option.split)
qed

lemma page_ver_relocate [simp]:
  "page_ver (relocate ids s f db) k = map_option (\<lambda>n. if k \<in> set ids then n + 1 else n) (page_ver db k)"
  unfolding page_ver_def relocate_def
  by (auto simp: lookup_row_map option.map_comp comp_def intro!: map_option_cong dest: lookup_row_Some)

lemma transition_row_simps [simp]: "pgId (transition_row kind b p) = pgId p" "pgVersion (transition_row kind b p) = pgVersion p + 1"
  by (simp_all add: transition_row_def Let_def split: transition_kind.split)

lemma page_ver_transition [simp]:
  "page_ver (transition_all kind b ids db) k = map_option (\<lambda>n. if k \<in> set ids then n + 1 else n) (page_ver db k)"
  unfolding page_ver_def transition_all_def
  by (auto simp: lookup_row_map option.map_comp comp_def intro!: map_option_cong dest: lookup_row_Some)


lemma ver_other [simp]:
  "page_ver (add_audit a r i s db) = page_ver db" "page_ver (set_tags pg ts db) = page_ver db"
  "page_ver (enqueueCleanup a ks db) = page_ver db" "page_ver (unlink_file fid db) = page_ver db"
  "page_ver (bump_file fid db) = page_ver db" "page_ver (set_space s' db) = page_ver db" "page_ver (set_folder f db) = page_ver db"
  "space_ver (add_audit a r i s db) = space_ver db" "space_ver (set_tags pg ts db) = space_ver db"
  "space_ver (enqueueCleanup a ks db) = space_ver db" "space_ver (unlink_file fid db) = space_ver db"
  "space_ver (bump_file fid db) = space_ver db" "space_ver (set_page p db) = space_ver db" "space_ver (set_folder f db) = space_ver db"
  "space_ver (rebuildSearch x y db) = space_ver db" "space_ver (relocate ids sp fo db) = space_ver db"
  "space_ver (transition_all kind b ids db) = space_ver db" "space_ver (delete_pages ids db) = space_ver db"
  "folder_ver (add_audit a r i s db) = folder_ver db" "folder_ver (set_tags pg ts db) = folder_ver db"
  "folder_ver (enqueueCleanup a ks db) = folder_ver db" "folder_ver (unlink_file fid db) = folder_ver db"
  "folder_ver (bump_file fid db) = folder_ver db" "folder_ver (set_page p db) = folder_ver db" "folder_ver (set_space s' db) = folder_ver db"
  "folder_ver (rebuildSearch x y db) = folder_ver db" "folder_ver (relocate ids sp fo db) = folder_ver db"
  "folder_ver (transition_all kind b ids db) = folder_ver db" "folder_ver (delete_pages ids db) = folder_ver db"
  by (simp_all add: page_ver_def space_ver_def folder_ver_def fun_eq_iff add_audit_def set_tags_def enqueueCleanup_def
      unlink_file_def bump_file_def set_space_def set_folder_def set_page_def rebuildSearch_def relocate_def
      transition_all_def delete_pages_def)

lemma ver_updates [simp]:
  "page_ver (db\<lparr>versions := vs\<rparr>) = page_ver db" "page_ver (db\<lparr>versionFiles := vf\<rparr>) = page_ver db"
  "page_ver (db\<lparr>spaces := ss\<rparr>) = page_ver db" "page_ver (db\<lparr>spaceAccess := sa\<rparr>) = page_ver db"
  "page_ver (db\<lparr>pageAccess := pa\<rparr>) = page_ver db" "page_ver (db\<lparr>folders := fo\<rparr>) = page_ver db"
  "space_ver (db\<lparr>versions := vs\<rparr>) = space_ver db" "space_ver (db\<lparr>versionFiles := vf\<rparr>) = space_ver db"
  "space_ver (db\<lparr>pages := ps\<rparr>) = space_ver db" "space_ver (db\<lparr>spaceAccess := sa\<rparr>) = space_ver db"
  "space_ver (db\<lparr>pageAccess := pa\<rparr>) = space_ver db" "space_ver (db\<lparr>folders := fo\<rparr>) = space_ver db"
  "folder_ver (db\<lparr>versions := vs\<rparr>) = folder_ver db" "folder_ver (db\<lparr>versionFiles := vf\<rparr>) = folder_ver db"
  "folder_ver (db\<lparr>pages := ps\<rparr>) = folder_ver db" "folder_ver (db\<lparr>spaceAccess := sa\<rparr>) = folder_ver db"
  "folder_ver (db\<lparr>pageAccess := pa\<rparr>) = folder_ver db" "folder_ver (db\<lparr>spaces := ss\<rparr>) = folder_ver db"
  by (simp_all add: page_ver_def space_ver_def folder_ver_def fun_eq_iff)

section \<open>What each command does to the version numbers\<close>

definition edited :: "(kb \<Rightarrow> string \<Rightarrow> nat option) \<Rightarrow> kb \<Rightarrow> kb \<Rightarrow> string \<Rightarrow> json \<Rightarrow> bool" where
  "edited ver db db' k input \<longleftrightarrow>
     (\<exists>n. ver db k = Some n \<and> asked_version input = Some (of_nat n) \<and> (\<forall>n'. ver db' k = Some n' \<longrightarrow> n < n'))"

definition grown :: "(kb \<Rightarrow> string \<Rightarrow> nat option) \<Rightarrow> kb \<Rightarrow> kb \<Rightarrow> bool" where
  "grown ver db db' \<longleftrightarrow> (\<forall>k n n'. ver db k = Some n \<longrightarrow> ver db' k = Some n' \<longrightarrow> n \<le> n')"

lemma grown_same: "ver db' = ver db \<Longrightarrow> grown ver db db'"
  by (simp add: grown_def)

lemma grown_if: "(\<And>k n n'. ver db k = Some n \<Longrightarrow> ver db' k = Some n' \<Longrightarrow> n \<le> n') \<Longrightarrow> grown ver db db'"
  by (auto simp: grown_def)

lemma version_check_asked:
  "keys_check input ks = Inr kvs \<Longrightarrow> version_check n (jget kvs ''expectedVersion'') = Inr u \<Longrightarrow> asked_version input = Some (of_nat n)"
  by (auto simp: keys_check_def version_check_def version_number_def asked_version_def split: json.splits option.splits if_splits)

lemma lockPage_ver: "lockPage env i a action n mode db = Inr p \<Longrightarrow> page_ver db (dbid i) = Some (pgVersion p) \<and> pgId p = dbid i"
  unfolding lockPage_def page_ver_def by (auto simp: err_simps split: option.splits if_splits dest: lookup_row_Some)

lemma lockSpace_ver: "lockSpace env i a action n db = Inr s \<Longrightarrow> space_ver db (dbid i) = Some (spVersion s) \<and> spId s = dbid i"
  unfolding lockSpace_def space_ver_def by (auto simp: err_simps split: option.splits if_splits dest: lookup_row_Some)

lemma lookup_row_filter_Some: "lookup_row key (filter P rows) k = Some r \<Longrightarrow> r \<in> set rows \<and> P r \<and> key r = k"
  by (auto dest!: lookup_row_Some)

lemma updatePage_ver:
  assumes "updatePage env i input a db = Inr (q, db')"
  shows "edited page_ver db db' (dbid i) input \<and> grown page_ver db db'"
  using assms unfolding updatePage_def updatePageIn_def Let_def
proof (elim bindE_InrE, goal_cases)
  case (1 kvs u row u1 canon u2 title order descr db2 p)
  note row = lockPage_ver[OF 1(3)]
  have "page_ver db2 = page_ver (set_page (row\<lparr>pgTitle := title, pgSort := order, pgContent := docContent canon,
      pgText := contentText canon, pgHash := contentHash canon, pgDescription := descr, pgVersion := pgVersion row + 1\<rparr>) db)"
    using 1(10) by (auto split: if_splits elim!: bindE_InrE)
  then show ?case using 1(12) row version_check_asked[OF 1(1) 1(4)]
    by (auto simp: edited_def grown_def split: if_splits)
qed

lemma setPageAccess_ver:
  assumes "setPageAccess env i input a db = Inr (q, db')"
  shows "edited page_ver db db' (dbid i) input \<and> grown page_ver db db'"
  using assms unfolding setPageAccess_def Let_def
proof (elim bindE_InrE, goal_cases)
  case (1 kvs u row u1 es)
  then show ?case using lockPage_ver[OF 1(3)] version_check_asked[OF 1(1) 1(4)]
    by (auto simp: edited_def grown_def split: if_splits option.splits json.splits)
qed

lemma publish_ver:
  assumes "publish env vid i input a db = Inr (q, db')"
  shows "edited page_ver db db' (dbid i) input \<and> grown page_ver db db'"
  using assms unfolding publish_def Let_def
proof (elim bindE_InrE, goal_cases)
  case (1 kvs u u1 row)
  then show ?case using lockPage_ver[OF 1(4)] version_check_asked[OF 1(1) 1(5)]
    by (auto simp: edited_def grown_def split: if_splits)
qed

lemma move_ver:
  assumes "move env i input a db = Inr (q, db')"
  shows "edited page_ver db db' (dbid i) input \<and> grown page_ver db db'"
  using assms unfolding move_def Let_def
proof (elim bindE_InrE, goal_cases)
  case (1 kvs u row)
  then show ?case using lockPage_ver[OF 1(3)] version_check_asked[OF 1(1) 1(4)]
    by (auto simp: edited_def grown_def split: if_splits)
qed

lemma transition_has_row:
  assumes "lockPage env i a (transition_action kind) 3 (transition_mode kind) db = Inr row"
  shows "row \<in> set (transition_targets kind row (page_descendants db (pgId row)))"
proof -
  have "lookup_row pgId (pages db) (dbid i) = Some row"
    using assms unfolding lockPage_def by (auto simp: err_simps split: option.splits if_splits)
  then have row: "lookup_row pgId (pages db) (pgId row) = Some row" using lookup_row_Some by fastforce
  then have "row \<in> set (page_descendants db (pgId row))"
    by (simp add: page_descendants_def descendants_of_def below_self)
  moreover have "pgStatus row = PageTrashed" if "kind = Restore"
    using assms that lockPage_trashed by (simp add: transition_mode_def)
  moreover have "pgStatus row \<noteq> PageTrashed" if "kind \<noteq> Restore"
    using assms that lockPage_live by (simp add: transition_mode_def)
  ultimately show ?thesis by (simp add: transition_targets_def)
qed

lemma transitionPage_ver:
  assumes "transitionPage env b i kind input a db = Inr (q, db')"
  shows "edited page_ver db db' (dbid i) input \<and> grown page_ver db db'"
  using assms unfolding transitionPage_def Let_def
proof (elim bindE_InrE, goal_cases)
  case (1 kvs u row)
  have "pgId row \<in> set (map pgId (transition_targets kind row (page_descendants db (pgId row))))"
    using transition_has_row[OF 1(3)] by (metis image_eqI set_map)
  then show ?case using 1 lockPage_ver[OF 1(3)] version_check_asked[OF 1(1) 1(4)]
    by (auto simp: edited_def grown_def split: if_splits)
qed

lemma page_ver_kept:
  "createPageIn env i action input a db = Inr (q, db') \<Longrightarrow> grown page_ver db db'"
  "purge env i input a db = Inr (key, db') \<Longrightarrow> grown page_ver db db'"
  "removeAttachment env i input a db = Inr (q, db') \<Longrightarrow> grown page_ver db db'"
proof -
  assume "createPageIn env i action input a db = Inr (q, db')"
  then obtain row where "pages db' = pages db @ [row]"
    unfolding createPageIn_def Let_def by (elim bindE_InrE) auto
  then show "grown page_ver db db'"
    by (auto simp: grown_def page_ver_def dest: lookup_row_append[of _ _ _ _ "[row]"])
next
  assume "purge env i input a db = Inr (key, db')"
  then obtain ids where "pages db' = filter (\<lambda>p. pgId p \<notin> ids) (pages db)"
    unfolding purge_def Let_def by (elim bindE_InrE) (auto simp: enqueueCleanup_def delete_pages_def)
  then show "grown page_ver db db'"
    using lookup_row_filter[of pgId "\<lambda>p. pgId p \<notin> ids" "pages db"] by (fastforce simp: grown_def page_ver_def)
next
  assume "removeAttachment env i input a db = Inr (q, db')"
  then show "grown page_ver db db'"
    unfolding removeAttachment_def
    by (elim bindE_InrE) (auto simp: grown_def dest!: lockPage_ver split: if_splits)
qed

lemma space_folder_pages:
  "createSpace env i input a db = Inr (q, db') \<Longrightarrow> page_ver db' = page_ver db"
  "updateSpace env i input a db = Inr (q, db') \<Longrightarrow> page_ver db' = page_ver db"
  "archiveSpace env i input a db = Inr (q, db') \<Longrightarrow> page_ver db' = page_ver db"
  "setSpaceAccess env i input a db = Inr (q, db') \<Longrightarrow> page_ver db' = page_ver db"
  "createFolder env i input a db = Inr (q, db') \<Longrightarrow> page_ver db' = page_ver db"
  "updateFolder env i input a db = Inr (q, db') \<Longrightarrow> page_ver db' = page_ver db"
  "deleteFolder env i input a db = Inr (q, db') \<Longrightarrow> page_ver db' = page_ver db"
  unfolding createSpace_def updateSpace_def archiveSpace_def setSpaceAccess_def createFolder_def updateFolder_def
    deleteFolder_def Let_def fun_eq_iff
  by (elim bindE_InrE, auto split: if_splits option.splits)+

lemma page_folder_spaces:
  "createPageIn env i action input a db = Inr (q, db') \<Longrightarrow> space_ver db' = space_ver db \<and> folder_ver db' = folder_ver db"
  "updatePage env i input a db = Inr (q, db') \<Longrightarrow> space_ver db' = space_ver db \<and> folder_ver db' = folder_ver db"
  "setPageAccess env i input a db = Inr (q, db') \<Longrightarrow> space_ver db' = space_ver db \<and> folder_ver db' = folder_ver db"
  "publish env vid i input a db = Inr (q, db') \<Longrightarrow> space_ver db' = space_ver db \<and> folder_ver db' = folder_ver db"
  "move env i input a db = Inr (q, db') \<Longrightarrow> space_ver db' = space_ver db \<and> folder_ver db' = folder_ver db"
  "transitionPage env b i kind input a db = Inr (q, db') \<Longrightarrow> space_ver db' = space_ver db \<and> folder_ver db' = folder_ver db"
  "purge env i input a db = Inr (key, db') \<Longrightarrow> space_ver db' = space_ver db \<and> folder_ver db' = folder_ver db"
  "removeAttachment env i input a db = Inr (q, db') \<Longrightarrow> space_ver db' = space_ver db \<and> folder_ver db' = folder_ver db"
  unfolding createPageIn_def updatePage_def updatePageIn_def setPageAccess_def publish_def move_def transitionPage_def
    purge_def removeAttachment_def Let_def
  by (elim bindE_InrE, auto elim!: bindE_InrE split: if_splits option.splits json.splits)+

lemma space_commands_ver:
  "updateSpace env i input a db = Inr (q, db') \<Longrightarrow> edited space_ver db db' (dbid i) input \<and> grown space_ver db db'"
  "archiveSpace env i input a db = Inr (q, db') \<Longrightarrow> edited space_ver db db' (dbid i) input \<and> grown space_ver db db'"
  "setSpaceAccess env i input a db = Inr (q, db') \<Longrightarrow> edited space_ver db db' (dbid i) input \<and> grown space_ver db db'"
  unfolding updateSpace_def archiveSpace_def setSpaceAccess_def Let_def
  by (elim bindE_InrE, frule (1) version_check_asked, frule lockSpace_ver,
      auto simp: edited_def grown_def split: if_splits)+

lemma space_folder_ver:
  "createSpace env i input a db = Inr (q, db') \<Longrightarrow> grown space_ver db db' \<and> folder_ver db' = folder_ver db"
  "createFolder env i input a db = Inr (q, db') \<Longrightarrow> grown folder_ver db db' \<and> space_ver db' = space_ver db"
proof -
  assume "createSpace env i input a db = Inr (q, db')"
  then obtain row where "spaces db' = spaces db @ [row]" "folders db' = folders db"
    unfolding createSpace_def Let_def by (elim bindE_InrE) auto
  then show "grown space_ver db db' \<and> folder_ver db' = folder_ver db"
    by (auto simp: grown_def space_ver_def folder_ver_def fun_eq_iff dest: lookup_row_append[of _ _ _ _ "[row]"])
next
  assume "createFolder env i input a db = Inr (q, db')"
  then obtain row where "folders db' = folders db @ [row]" "spaces db' = spaces db"
    unfolding createFolder_def Let_def by (elim bindE_InrE) auto
  then show "grown folder_ver db db' \<and> space_ver db' = space_ver db"
    by (auto simp: grown_def space_ver_def folder_ver_def fun_eq_iff dest: lookup_row_append[of _ _ _ _ "[row]"])
qed

lemma folder_lock_ver:
  "folder_lock env i a action db = Inr f \<Longrightarrow> folder_ver db (dbid i) = Some (fdVersion f) \<and> fdId f = dbid i"
  unfolding folder_lock_def folder_ver_def
  by (auto simp: knowledgeId_def err_simps split: option.splits if_splits json.splits dest: lookup_row_Some)

lemma folder_commands_ver:
  "updateFolder env i input a db = Inr (q, db') \<Longrightarrow> edited folder_ver db db' (dbid i) input \<and> grown folder_ver db db'"
  "deleteFolder env i input a db = Inr (q, db') \<Longrightarrow> edited folder_ver db db' (dbid i) input \<and> grown folder_ver db db'"
  unfolding updateFolder_def deleteFolder_def Let_def
  by (elim bindE_InrE, frule (1) version_check_asked, frule folder_lock_ver,
      auto simp: edited_def grown_def split: if_splits)+

lemma folder_commands_spaces:
  "updateFolder env i input a db = Inr (q, db') \<Longrightarrow> space_ver db' = space_ver db"
  "deleteFolder env i input a db = Inr (q, db') \<Longrightarrow> space_ver db' = space_ver db"
  "updateSpace env i input a db = Inr (q, db') \<Longrightarrow> folder_ver db' = folder_ver db"
  "archiveSpace env i input a db = Inr (q, db') \<Longrightarrow> folder_ver db' = folder_ver db"
  "setSpaceAccess env i input a db = Inr (q, db') \<Longrightarrow> folder_ver db' = folder_ver db"
  unfolding updateFolder_def deleteFolder_def updateSpace_def archiveSpace_def setSpaceAccess_def Let_def
  by (elim bindE_InrE, auto split: if_splits)+

lemma run_page_ver: "run env a c db = Inr (q, db') \<Longrightarrow> grown page_ver db db'"
  by (cases c) (auto simp: createPage_def grown_same space_folder_pages page_ver_kept elim!: bindE_InrE
      dest: updatePage_ver setPageAccess_ver publish_ver move_ver transitionPage_ver page_ver_kept)

lemma run_space_ver: "run env a c db = Inr (q, db') \<Longrightarrow> grown space_ver db db'"
  by (cases c) (auto simp: createPage_def grown_same elim!: bindE_InrE
      dest: page_folder_spaces space_commands_ver space_folder_ver folder_commands_spaces)

lemma run_folder_ver: "run env a c db = Inr (q, db') \<Longrightarrow> grown folder_ver db db'"
  by (cases c) (auto simp: createPage_def grown_same elim!: bindE_InrE
      dest: page_folder_spaces folder_commands_ver space_folder_ver folder_commands_spaces)

lemma run_page_edit: "page_edit c = Some (i, input) \<Longrightarrow> run env a c db = Inr (q, db') \<Longrightarrow> edited page_ver db db' (dbid i) input"
  by (cases c) (auto dest: updatePage_ver setPageAccess_ver publish_ver move_ver transitionPage_ver)

lemma run_space_edit: "space_edit c = Some (i, input) \<Longrightarrow> run env a c db = Inr (q, db') \<Longrightarrow> edited space_ver db db' (dbid i) input"
  by (cases c) (auto dest: space_commands_ver)

lemma run_folder_edit: "folder_edit c = Some (i, input) \<Longrightarrow> run env a c db = Inr (q, db') \<Longrightarrow> edited folder_ver db db' (dbid i) input"
  by (cases c) (auto dest: folder_commands_ver)

interpretation page_rows: versioned_rows page_ver page_edit
  by unfold_locales (use run_page_edit run_page_ver in \<open>auto simp: edited_def grown_def\<close>)

interpretation space_rows: versioned_rows space_ver space_edit
  by unfold_locales (use run_space_edit run_space_ver in \<open>auto simp: edited_def grown_def\<close>)

interpretation folder_rows: versioned_rows folder_ver folder_edit
  by unfold_locales (use run_folder_edit run_folder_ver in \<open>auto simp: edited_def grown_def\<close>)

end
