(* ===== verification/KnowledgePublication.thy ===== *)
theory KnowledgePublication
  imports KnowledgeStorage KnowledgeContentLaws
begin

text \<open>
  Published versions over the steps of the knowledge base: what a step may do to the version
  tables (\<open>pub_step\<close>), that stored documents stay documents of the grammar
  (\<open>contents_valid\<close>), and what publishing a page does.
\<close>

section \<open>What is published\<close>

definition pub_rows :: "kb \<Rightarrow> string list \<times> kversion list \<times> (string \<times> string \<times> string \<times> file_role) list" where
  "pub_rows db = (map pgId (pages db), versions db, versionFiles db)"

lemma replaced_ids: "map (\<lambda>x. pgId (if pgId x = pgId p then p else x)) xs = map pgId xs"
  by (induction xs) simp_all

lemma pub_rows_simps [simp]:
  "pub_rows (add_audit a r i s db) = pub_rows db" "pub_rows (set_page p db) = pub_rows db"
  "pub_rows (set_tags pg ts db) = pub_rows db" "pub_rows (rebuildSearch x y db) = pub_rows db"
  "pub_rows (set_space sp db) = pub_rows db" "pub_rows (set_folder fd db) = pub_rows db"
  "pub_rows (unlink_file fid db) = pub_rows db" "pub_rows (transition_all k b ids db) = pub_rows db"
  "pub_rows (relocate ids sp2 fo db) = pub_rows db" "pub_rows (link_file pg fid role db) = pub_rows db"
  "pub_rows (bump_file fid db) = pub_rows db" "pub_rows (enqueueCleanup a ks db) = pub_rows db"
  "pub_rows (queue_key by ky db) = pub_rows db" "pub_rows (set_preview v db) = pub_rows db"
  "pub_rows (delete_files fids db) = pub_rows db" "pub_rows (enqueuePreview vid fid mt db) = pub_rows db"
  by (auto simp: pub_rows_def add_audit_def set_page_def set_tags_def rebuildSearch_def set_space_def
      set_folder_def unlink_file_def transition_all_def relocate_def link_file_def bump_file_def enqueueCleanup_def
      queue_key_def set_preview_def delete_files_def enqueuePreview_def comp_def replaced_ids
      transition_row_def Let_def split: option.split transition_kind.split)

lemma pub_rows_updates [simp]:
  "pub_rows (db\<lparr>spaces := ss\<rparr>) = pub_rows db" "pub_rows (db\<lparr>pageAccess := pa\<rparr>) = pub_rows db"
  "pub_rows (db\<lparr>spaceAccess := sa\<rparr>) = pub_rows db" "pub_rows (db\<lparr>folders := fo\<rparr>) = pub_rows db"
  "pub_rows (db\<lparr>uploads := us\<rparr>) = pub_rows db" "pub_rows (db\<lparr>files := fs\<rparr>) = pub_rows db"
  "pub_rows (db\<lparr>cleanup := cl\<rparr>) = pub_rows db" "pub_rows (db\<lparr>previews := pv\<rparr>) = pub_rows db"
  "pub_rows (db\<lparr>spaceAccess := sa, spaces := ss\<rparr>) = pub_rows db" "pub_rows (db\<lparr>spaces := ss, spaceAccess := sa\<rparr>) = pub_rows db"
  by (simp_all add: pub_rows_def)

lemma pub_rows_page [simp]:
  "pub_rows (db\<lparr>pages := pages db @ [row]\<rparr>) = (map pgId (pages db) @ [pgId row], versions db, versionFiles db)"
  by (simp add: pub_rows_def)

lemma pub_same_commands:
  "updatePage env i input a db = Inr (q, db') \<Longrightarrow> pub_rows db' = pub_rows db"
  "setPageAccess env i input a db = Inr (q, db') \<Longrightarrow> pub_rows db' = pub_rows db"
  "move env i input a db = Inr (q, db') \<Longrightarrow> pub_rows db' = pub_rows db"
  "transitionPage env b i k input a db = Inr (q, db') \<Longrightarrow> pub_rows db' = pub_rows db"
  "removeAttachment env i input a db = Inr (q, db') \<Longrightarrow> pub_rows db' = pub_rows db"
  "createSpace env i input a db = Inr (q, db') \<Longrightarrow> pub_rows db' = pub_rows db"
  "updateSpace env i input a db = Inr (q, db') \<Longrightarrow> pub_rows db' = pub_rows db"
  "archiveSpace env i input a db = Inr (q, db') \<Longrightarrow> pub_rows db' = pub_rows db"
  "setSpaceAccess env i input a db = Inr (q, db') \<Longrightarrow> pub_rows db' = pub_rows db"
  "createFolder env i input a db = Inr (q, db') \<Longrightarrow> pub_rows db' = pub_rows db"
  "updateFolder env i input a db = Inr (q, db') \<Longrightarrow> pub_rows db' = pub_rows db"
  "deleteFolder env i input a db = Inr (q, db') \<Longrightarrow> pub_rows db' = pub_rows db"
  unfolding updatePage_def updatePageIn_def setPageAccess_def move_def transitionPage_def removeAttachment_def
    createSpace_def updateSpace_def archiveSpace_def setSpaceAccess_def createFolder_def updateFolder_def deleteFolder_def Let_def
  by (elim bindE_InrE, auto elim!: bindE_InrE split: if_splits option.splits json.splits)+

lemma pub_create: "createPageIn env i action input a db = Inr (q, db') \<Longrightarrow>
    pub_rows db' = (map pgId (pages db) @ [i], versions db, versionFiles db)"
  unfolding createPageIn_def Let_def by (elim bindE_InrE) auto

lemma pub_store: "store env x a fid vid mt role raw page db st = (Inr (key, db'), st') \<Longrightarrow> pub_rows db' = pub_rows db"
  by (auto simp: store_def store_rows_def Let_def split: if_splits)

lemma pub_files:
  "upload env x fid vid i input meta a db st = (res, st') \<Longrightarrow> pub_rows (after res db) = pub_rows db"
  "uploadIn env x fid i meta a db st = (res2, st') \<Longrightarrow> pub_rows (after res2 db) = pub_rows db"
  by (auto simp: upload_def uploadIn_def Let_def split: if_splits sum.splits prod.splits dest: pub_store)

lemma pub_createFile:
  assumes "createFilePage env x i fid vid input meta a db st = (res, st')"
  shows "\<exists>new. pub_rows (after res db) = (map pgId (pages db) @ new, versions db, versionFiles db)"
proof -
  have same: "\<exists>new. pub_rows db = (map pgId (pages db) @ new, versions db, versionFiles db)"
    by (rule exI[of _ "[]"]) (simp add: pub_rows_def)
  show ?thesis
    using assms unfolding createFilePage_def Let_def
    by (auto simp: err_simps same split: sum.splits prod.splits option.splits dest!: pub_store pub_create)
qed

lemma pub_cleanup [simp]: "pub_rows (fst (snd (processCleanup del a db st))) = pub_rows db"
  "pub_rows (snd (reconcileStorageOrphans env listing a db st)) = pub_rows db"
  by (simp_all add: processCleanup_def reconcileStorageOrphans_def Let_def split: prod.split)

lemma pub_orphan_rows: "clean_orphan_rows env a db = Inr (n, db') \<Longrightarrow> pub_rows db' = pub_rows db"
  unfolding clean_orphan_rows_def Let_def by (elim bindE_InrE) auto

lemma pub_cleanOrphans: "cleanOrphans env listing del a db st = (res, st') \<Longrightarrow> pub_rows (after res db) = pub_rows db"
  unfolding cleanOrphans_def Let_def
  by (auto simp: pub_orphan_rows split: sum.splits prod.splits)
    (metis pub_orphan_rows fst_conv snd_conv pub_cleanup)+

lemma pub_retryCleanup: "retryStorageCleanup env listing del db st = (db', st') \<Longrightarrow> pub_rows db' = pub_rows db"
  unfolding retryStorageCleanup_def by (metis fst_conv pub_cleanup)

lemma pub_previews:
  "claim env lease now seconds db = Inr (job, db') \<Longrightarrow> pub_rows db' = pub_rows db"
  "complete vid lease now sz err db = (ok, db') \<Longrightarrow> pub_rows db' = pub_rows db"
  by (auto simp: claim_def complete_def Let_def split: if_splits option.splits)

lemma pub_retry:
  assumes "retry file a db = Inr (r, db')"
  shows "pub_rows db' = pub_rows db"
  by (rule retry_effect[OF assms]) (simp split: option.split)

inductive pub_step :: "kb \<Rightarrow> kb \<Rightarrow> bool" where
  pub_more: "pub_rows db' = (map pgId (pages db) @ new, versions db, versionFiles db) \<Longrightarrow> pub_step db db'"
| pub_publish: "p \<in> set (pages db) \<Longrightarrow> verPage v = pgId p \<Longrightarrow> verId v \<notin> verId ` set (versions db) \<Longrightarrow>
    pub_rows db' = (map pgId (pages db), versions db @ [v],
      versionFiles db @ map (\<lambda>(pg, fl, role). (pg, verId v, fl, role)) (filter (\<lambda>(pg, _). pg = verPage v) (pageFiles db))) \<Longrightarrow> pub_step db db'"
| pub_purge: "pub_rows db' = (map pgId (filter (\<lambda>p. pgId p \<notin> ids) (pages db)), filter (\<lambda>v. verPage v \<notin> ids) (versions db),
    filter (\<lambda>(pg, _). pg \<notin> ids) (versionFiles db)) \<Longrightarrow> pub_step db db'"

lemma pub_same: "pub_rows db' = pub_rows db \<Longrightarrow> pub_step db db'"
  by (rule pub_more[of _ _ "[]"]) (simp add: pub_rows_def)

lemma publish_pub:
  assumes "publish env vid i input a db = Inr (q, db')" and "vid \<notin> verId ` set (versions db)"
  shows "pub_step db db'"
  using assms(1) unfolding publish_def Let_def
proof (elim bindE_InrE, goal_cases)
  case (1 kvs u u1 row u2 u3 canon hsh)
  let ?v = "publish_version db a vid i row canon hsh (ancestors db WorkingMode (pgId row))"
  have row: "row \<in> set (pages db)" using lockPage_row[OF 1(4)] by simp
  have "pub_rows db' = pub_rows (db\<lparr>versions := versions db @ [?v], versionFiles := versionFiles db @
      map (\<lambda>(pg, fl, role). (pg, vid, fl, role)) (filter (\<lambda>(pg, _). pg = pgId row) (pageFiles db))\<rparr>)"
    using 1(11) by auto
  also have "\<dots> = (map pgId (pages db), versions db @ [?v], versionFiles db @
      map (\<lambda>(pg, fl, role). (pg, verId ?v, fl, role)) (filter (\<lambda>(pg, _). pg = verPage ?v) (pageFiles db)))"
    by (simp add: pub_rows_def)
  finally show ?case by (rule pub_publish[OF row, rotated 2]) (use assms(2) in simp_all)
qed

lemma purge_pub: "purge env i input a db = Inr (key, db') \<Longrightarrow> pub_step db db'"
  unfolding purge_def Let_def
  by (elim bindE_InrE, rule pub_purge) (auto simp: pub_rows_def delete_pages_def enqueueCleanup_def)

lemma run_pub: "run env a c db = Inr (q, db') \<Longrightarrow> fresh_ids c db \<Longrightarrow> pub_step db db'"
  by (cases c) (auto simp: createPage_def pub_same_commands elim!: bindE_InrE
      intro: pub_same publish_pub purge_pub pub_more dest: pub_create)

lemma pub_step_rows: "pub_step db db1 \<Longrightarrow> pub_rows db2 = pub_rows db1 \<Longrightarrow> pub_step db db2"
  by (induction rule: pub_step.induct) (auto intro: pub_step.intros)

lemma purgeAndClean_pub:
  assumes "purgeAndClean env del i input a db st = (res, st')"
  shows "pub_step db (after res db)"
proof (cases "purge env i input a db")
  case (Inr q)
  obtain r db1 where q: "q = (r, db1)" by (cases q)
  obtain c db2 st1 where c: "processCleanup del a db1 st = (c, db2, st1)" by (cases "processCleanup del a db1 st") auto
  have "after res db = db2" using assms Inr q c by (auto simp: purgeAndClean_def split: prod.splits)
  moreover have "pub_rows db2 = pub_rows db1" using pub_cleanup(1)[of del a db1 st] c by simp
  ultimately show ?thesis using pub_step_rows purge_pub Inr q by metis
qed (use assms in \<open>auto simp: purgeAndClean_def intro: pub_same\<close>)

lemma kb_step_pub: "kb_step env s s' \<Longrightarrow> pub_step (fst s) (fst s')"
proof (induction rule: kb_step.induct)
  case (step_create fid db st i x vid input meta a res st')
  then show ?case using pub_createFile pub_more by fastforce
qed (auto intro: pub_same run_pub simp: pub_files pub_cleanOrphans pub_retryCleanup pub_previews pub_retry purgeAndClean_pub)

section \<open>Stored documents are documents of the grammar\<close>

definition valid_doc :: "host \<Rightarrow> knode \<Rightarrow> bool" where
  "valid_doc h n \<longleftrightarrow> valid_node h 0 n \<and> node_size n \<le> 10000"

definition contents_valid :: "kb_env \<Rightarrow> kb \<Rightarrow> bool" where
  "contents_valid env db \<longleftrightarrow> list_all (valid_doc (env_host env)) (map pgContent (pages db))"

lemma canonical_valid: "canonicalKnowledgeContent h v = Inr c \<Longrightarrow> valid_doc h (docContent c)"
  using normalize_sound[of h 0 v "(0, [])"] by (fastforce simp: canonical_Inr valid_doc_def)

lemma canonical_same: "canonicalKnowledgeContent h (node_json n) = Inr c \<Longrightarrow> valid_doc h n \<Longrightarrow> docContent c = n"
  using normalize_complete[of h 0 n "(0, [])"] by (auto simp: canonical_Inr valid_doc_def)

lemma contents_simps [simp]:
  "contents_valid env (add_audit a r i s db) = contents_valid env db"
  "contents_valid env (set_tags pg ts db) = contents_valid env db"
  "contents_valid env (set_space sp db) = contents_valid env db" "contents_valid env (set_folder fd db) = contents_valid env db"
  "contents_valid env (unlink_file fid db) = contents_valid env db" "contents_valid env (link_file pg fid role db) = contents_valid env db"
  "contents_valid env (bump_file fid db) = contents_valid env db" "contents_valid env (enqueueCleanup a ks db) = contents_valid env db"
  "contents_valid env (queue_key by ky db) = contents_valid env db" "contents_valid env (set_preview v db) = contents_valid env db"
  "contents_valid env (delete_files fids db) = contents_valid env db"
  "contents_valid env (enqueuePreview vid fid mt db) = contents_valid env db"
  by (simp_all add: contents_valid_def add_audit_def set_tags_def set_space_def set_folder_def unlink_file_def
      link_file_def bump_file_def enqueueCleanup_def queue_key_def set_preview_def delete_files_def enqueuePreview_def)

lemma contents_updates [simp]:
  "contents_valid env (db\<lparr>spaces := ss\<rparr>) = contents_valid env db" "contents_valid env (db\<lparr>pageAccess := pa\<rparr>) = contents_valid env db"
  "contents_valid env (db\<lparr>spaceAccess := sa\<rparr>) = contents_valid env db" "contents_valid env (db\<lparr>folders := fo\<rparr>) = contents_valid env db"
  "contents_valid env (db\<lparr>uploads := us\<rparr>) = contents_valid env db" "contents_valid env (db\<lparr>files := fs\<rparr>) = contents_valid env db"
  "contents_valid env (db\<lparr>cleanup := cl\<rparr>) = contents_valid env db" "contents_valid env (db\<lparr>previews := pv\<rparr>) = contents_valid env db"
  "contents_valid env (db\<lparr>versions := vs\<rparr>) = contents_valid env db" "contents_valid env (db\<lparr>versionFiles := vf\<rparr>) = contents_valid env db"
  "contents_valid env (db\<lparr>pages := pages db @ [row]\<rparr>) \<longleftrightarrow> contents_valid env db \<and> valid_doc (env_host env) (pgContent row)"
  by (auto simp: contents_valid_def)

lemma contents_pages [simp]:
  "contents_valid env (rebuildSearch x y db) = contents_valid env db"
  "contents_valid env (transition_all k batch ids db) = contents_valid env db"
  "contents_valid env (relocate ids sp2 fo db) = contents_valid env db"
proof -
  have search: "map pgContent (pages (rebuildSearch x y db)) = map pgContent (pages db)"
    by (auto simp: rebuildSearch_def split: option.split)
  have moved: "map pgContent (pages (relocate ids sp2 fo db)) = map pgContent (pages db)" by (auto simp: relocate_def)
  have turned: "map pgContent (pages (transition_all k batch ids db)) = map pgContent (pages db)" for batch
    by (auto simp: transition_all_def transition_row_def Let_def split: transition_kind.split)
  show "contents_valid env (rebuildSearch x y db) = contents_valid env db"
    "contents_valid env (transition_all k batch ids db) = contents_valid env db"
    "contents_valid env (relocate ids sp2 fo db) = contents_valid env db" for batch
    by (simp_all only: contents_valid_def search moved turned)
qed

lemma contents_set_page: "contents_valid env db \<Longrightarrow> valid_doc (env_host env) (pgContent p) \<Longrightarrow> contents_valid env (set_page p db)"
  by (auto simp: contents_valid_def set_page_def list_all_iff split: if_splits)

lemma contents_row: "contents_valid env db \<Longrightarrow> lockPage env i a action n mode db = Inr p \<Longrightarrow> valid_doc (env_host env) (pgContent p)"
  using lockPage_row by (fastforce simp: contents_valid_def list_all_iff)

lemma contents_spaces:
  "createSpace env i input a db = Inr (q, db') \<Longrightarrow> contents_valid env db' = contents_valid env db"
  "updateSpace env i input a db = Inr (q, db') \<Longrightarrow> contents_valid env db' = contents_valid env db"
  "archiveSpace env i input a db = Inr (q, db') \<Longrightarrow> contents_valid env db' = contents_valid env db"
  "setSpaceAccess env i input a db = Inr (q, db') \<Longrightarrow> contents_valid env db' = contents_valid env db"
  "createFolder env i input a db = Inr (q, db') \<Longrightarrow> contents_valid env db' = contents_valid env db"
  "updateFolder env i input a db = Inr (q, db') \<Longrightarrow> contents_valid env db' = contents_valid env db"
  "deleteFolder env i input a db = Inr (q, db') \<Longrightarrow> contents_valid env db' = contents_valid env db"
  unfolding createSpace_def updateSpace_def archiveSpace_def setSpaceAccess_def createFolder_def updateFolder_def deleteFolder_def Let_def
  by (elim bindE_InrE, auto split: if_splits option.splits)+

lemma contents_create: "createPageIn env i action input a db = Inr (q, db') \<Longrightarrow> contents_valid env db \<Longrightarrow> contents_valid env db'"
  unfolding createPageIn_def Let_def by (elim bindE_InrE) (auto dest: canonical_valid)

lemma contents_edit: "contents_valid env db \<Longrightarrow> updatePage env i input a db = Inr (q, db') \<Longrightarrow> contents_valid env db'"
  unfolding updatePage_def updatePageIn_def Let_def
  by (elim bindE_InrE, frule (1) contents_row, simp only: liftK_Inr, frule canonical_valid)
    (auto intro!: contents_set_page elim!: bindE_InrE split: if_splits)

lemma contents_commands:
  "contents_valid env db \<Longrightarrow> setPageAccess env i input a db = Inr (q, db') \<Longrightarrow> contents_valid env db'"
  "contents_valid env db \<Longrightarrow> publish env vid i input a db = Inr (q, db') \<Longrightarrow> contents_valid env db'"
  "contents_valid env db \<Longrightarrow> move env i input a db = Inr (q, db') \<Longrightarrow> contents_valid env db'"
  "contents_valid env db \<Longrightarrow> transitionPage env b i k input a db = Inr (q, db') \<Longrightarrow> contents_valid env db'"
  "contents_valid env db \<Longrightarrow> removeAttachment env i input a db = Inr (q, db') \<Longrightarrow> contents_valid env db'"
  unfolding setPageAccess_def publish_def move_def transitionPage_def removeAttachment_def Let_def
  by (elim bindE_InrE, frule (1) contents_row, auto intro!: contents_set_page split: if_splits option.splits json.splits)+

lemma contents_purge: "purge env i input a db = Inr (key, db') \<Longrightarrow> contents_valid env db \<Longrightarrow> contents_valid env db'"
  unfolding purge_def Let_def by (elim bindE_InrE) (auto simp: contents_valid_def list_all_iff delete_pages_def enqueueCleanup_def)

lemma contents_run: "run env a c db = Inr (q, db') \<Longrightarrow> contents_valid env db \<Longrightarrow> contents_valid env db'"
  by (cases c) (auto simp: createPage_def contents_spaces elim!: bindE_InrE dest: contents_edit contents_commands contents_purge contents_create)

lemma contents_store: "store env x a fid vid mt role raw page db st = (Inr (key, db'), st') \<Longrightarrow> contents_valid env db' = contents_valid env db"
  by (auto simp: store_def store_rows_def Let_def split: if_splits)

lemma contents_upload:
  assumes "contents_valid env db" and "upload env x fid vid i input meta a db st = (res, st')"
  shows "contents_valid env (after res db)"
proof (cases res)
  case (Inr q)
  then obtain role mt page kvs key db1 st1 where page: "upload_target env i kvs role a db = Inr page"
    and store: "store env x a fid vid mt role i (pgId page) db st = (Inr (key, db1), st1)"
    and q: "q = ((fid, pgVersion page + 1), set_page (page\<lparr>pgVersion := pgVersion page + 1\<rparr>) db1)"
    using assms(2) unfolding upload_def by (auto simp: err_simps split: sum.splits prod.splits)
  have "valid_doc (env_host env) (pgContent page)"
    using upload_target_row[OF page] assms(1) by (auto simp: contents_valid_def list_all_iff)
  moreover have "contents_valid env db1" using contents_store[OF store] assms(1) by simp
  ultimately show ?thesis unfolding Inr q by (simp add: contents_set_page)
qed (use assms in simp)

lemma contents_files:
  assumes "contents_valid env db"
  shows "createFilePage env x i fid vid input meta a db st = (res, st') \<Longrightarrow> contents_valid env (after res db)"
    and "uploadIn env x fid i meta a db st = (res2, st') \<Longrightarrow> contents_valid env (after res2 db)"
  using assms unfolding createFilePage_def uploadIn_def Let_def
  by (auto split: if_splits sum.splits prod.splits option.splits simp: contents_store dest: contents_create)

lemma contents_cleanup [simp]: "contents_valid env (fst (snd (processCleanup del a db st))) = contents_valid env db"
  "contents_valid env (snd (reconcileStorageOrphans env2 listing a db st)) = contents_valid env db"
  by (simp_all add: processCleanup_def reconcileStorageOrphans_def Let_def split: prod.split)

lemma contents_orphan_rows: "clean_orphan_rows env2 a db = Inr (n, db') \<Longrightarrow> contents_valid env db' = contents_valid env db"
  unfolding clean_orphan_rows_def Let_def by (elim bindE_InrE) auto

lemma contents_cleanOrphans:
  "cleanOrphans env listing del a db st = (res, st') \<Longrightarrow> contents_valid env (after res db) = contents_valid env db"
  unfolding cleanOrphans_def Let_def
  by (auto simp: contents_orphan_rows split: sum.splits prod.splits)
    (metis contents_orphan_rows fst_conv snd_conv contents_cleanup)+

lemma contents_retryCleanup:
  "retryStorageCleanup env listing del db st = (db', st') \<Longrightarrow> contents_valid env db' = contents_valid env db"
  unfolding retryStorageCleanup_def by (metis fst_conv contents_cleanup)

lemma contents_previews:
  "claim env lease now seconds db = Inr (job, db') \<Longrightarrow> contents_valid env db' = contents_valid env db"
  "complete vid lease now sz err db = (ok, db') \<Longrightarrow> contents_valid env db' = contents_valid env db"
  by (auto simp: claim_def complete_def Let_def split: if_splits option.splits)

lemma contents_retry:
  assumes "retry file a db = Inr (r, db')"
  shows "contents_valid env db' = contents_valid env db"
  by (rule retry_effect[OF assms]) (simp split: option.split)

lemma contents_purgeAndClean:
  assumes "contents_valid env db" and "purgeAndClean env del i input a db st = (res, st')"
  shows "contents_valid env (after res db)"
proof (cases "purge env i input a db")
  case (Inr q)
  obtain r db1 where q: "q = (r, db1)" by (cases q)
  obtain c db2 st1 where c: "processCleanup del a db1 st = (c, db2, st1)" by (cases "processCleanup del a db1 st") auto
  have "after res db = db2" using assms Inr q c by (auto simp: purgeAndClean_def split: prod.splits)
  moreover have "contents_valid env db2 = contents_valid env db1" using contents_cleanup(1)[of env del a db1 st] c by simp
  ultimately show ?thesis using contents_purge[of env i input a db r db1] assms(1) Inr q by simp
qed (use assms in \<open>auto simp: purgeAndClean_def\<close>)

lemma kb_step_contents: "kb_step env s s' \<Longrightarrow> contents_valid env (fst s) \<Longrightarrow> contents_valid env (fst s')"
  by (induction rule: kb_step.induct)
    (auto simp: contents_cleanOrphans contents_retryCleanup contents_previews contents_retry
      dest: contents_run contents_upload contents_files contents_purgeAndClean)

lemma kb_reach_contents: "kb_reach env s \<Longrightarrow> contents_valid env (fst s)"
proof (induction rule: kb_reach.induct)
  case (reach_step s s')
  then show ?case using kb_step_contents by blast
qed (simp add: contents_valid_def kb_empty_def)

section \<open>Versions and their attachments belong to pages\<close>

definition pub_ok :: "kb \<Rightarrow> bool" where
  "pub_ok db \<longleftrightarrow> (\<forall>v \<in> set (versions db). verPage v \<in> pgId ` set (pages db)) \<and>
     (\<forall>(pg, w, l) \<in> set (versionFiles db). \<exists>v \<in> set (versions db). verId v = w \<and> verPage v = pg)"

lemma pub_rowsD:
  assumes "pub_rows db = (ids, vs, ls)"
  shows "pgId ` set (pages db) = set ids" and "versions db = vs" and "versionFiles db = ls"
  using assms by (auto simp: pub_rows_def)

lemma pub_step_ok: "pub_step db db' \<Longrightarrow> pub_ok db \<Longrightarrow> pub_ok db'"
proof (induction rule: pub_step.induct)
  case (pub_more db' db new)
  show ?case using pub_more.prems unfolding pub_ok_def pub_rowsD[OF pub_more.hyps] by auto
next
  case (pub_publish p db v db')
  show ?case using pub_publish.prems pub_publish.hyps(1,2) unfolding pub_ok_def pub_rowsD[OF pub_publish.hyps(4)] by fastforce
next
  case (pub_purge db' ids db)
  show ?case using pub_purge.prems unfolding pub_ok_def pub_rowsD[OF pub_purge.hyps] by fastforce
qed

lemma kb_reach_pub: "kb_reach env s \<Longrightarrow> pub_ok (fst s)"
proof (induction rule: kb_reach.induct)
  case (reach_step s s')
  then show ?case using kb_step_pub pub_step_ok by blast
qed (simp add: pub_ok_def kb_empty_def)

text \<open>One step keeps the versions of every page that is still there and adds at most one.\<close>

lemma pub_step_history:
  assumes "pub_step db db'" and "pub_ok db"
  shows "\<exists>new. versions db' = filter (\<lambda>v. verPage v \<in> pgId ` set (pages db')) (versions db) @ new \<and> length new \<le> 1"
    and "\<exists>new. versionFiles db' = filter (\<lambda>(pg, _). pg \<in> pgId ` set (pages db')) (versionFiles db) @ new"
proof -
  have vs: "filter (\<lambda>v. verPage v \<in> S) (versions db) = versions db" if "pgId ` set (pages db) \<subseteq> S" for S
    using assms(2) that by (auto simp: pub_ok_def filter_id_conv)
  have ls: "filter (\<lambda>(pg, _). pg \<in> S) (versionFiles db) = versionFiles db" if "pgId ` set (pages db) \<subseteq> S" for S
    using assms(2) that by (fastforce simp: pub_ok_def filter_id_conv)
  from assms(1) show "\<exists>new. versions db' = filter (\<lambda>v. verPage v \<in> pgId ` set (pages db')) (versions db) @ new \<and> length new \<le> 1"
  proof cases
    case (pub_more new)
    show ?thesis unfolding pub_rowsD[OF pub_more] by (rule exI[of _ "[]"]) (use vs[of "pgId ` set (pages db) \<union> set new"] in simp)
  next
    case (pub_publish p v)
    show ?thesis unfolding pub_rowsD[OF pub_publish(4)] by (rule exI[of _ "[v]"]) (simp add: vs)
  next
    case (pub_purge ids)
    show ?thesis unfolding pub_rowsD[OF pub_purge] using assms(2)
      by (intro exI[of _ "[]"]) (auto simp: pub_ok_def intro!: filter_cong)
  qed
  from assms(1) show "\<exists>new. versionFiles db' = filter (\<lambda>(pg, _). pg \<in> pgId ` set (pages db')) (versionFiles db) @ new"
  proof cases
    case (pub_more new)
    show ?thesis unfolding pub_rowsD[OF pub_more] by (rule exI[of _ "[]"]) (use ls[of "pgId ` set (pages db) \<union> set new"] in simp)
  next
    case (pub_publish p v)
    show ?thesis unfolding pub_rowsD[OF pub_publish(4)] by (simp add: ls)
  next
    case (pub_purge ids)
    show ?thesis unfolding pub_rowsD[OF pub_purge] using assms(2)
      by (intro exI[of _ "[]"]) (fastforce simp: pub_ok_def intro!: filter_cong)
  qed
qed

section \<open>Publishing\<close>

lemma search_row:
  assumes "p \<in> set (pages db)"
  shows "\<exists>x. p\<lparr>pgSearch := x\<rparr> \<in> set (pages (rebuildSearch a b db))"
proof -
  define f where "f = (\<lambda>p. if search_target db a b p
     then (case published_version db p of None \<Rightarrow> p
       | Some v \<Rightarrow> (case lookup_row spId (spaces db) (verSpace v) of None \<Rightarrow> p | Some s \<Rightarrow> p\<lparr>pgSearch := search_text db v s\<rparr>))
     else p)"
  have "pages (rebuildSearch a b db) = map f (pages db)" by (simp add: rebuildSearch_def f_def)
  then have mem: "f p \<in> set (pages (rebuildSearch a b db))" using assms by simp
  have same: "\<exists>x. p = p\<lparr>pgSearch := x\<rparr>" by (rule exI[of _ "pgSearch p"]) simp
  have "\<exists>x. f p = p\<lparr>pgSearch := x\<rparr>" unfolding f_def using same by (auto split: option.split)
  then obtain x where "f p = p\<lparr>pgSearch := x\<rparr>" by blast
  then show ?thesis using mem by auto
qed

lemma publish_other [simp]:
  "pageTags (add_audit a r i s db) = pageTags db" "pageFiles (add_audit a r i s db) = pageFiles db"
  "versionFiles (add_audit a r i s db) = versionFiles db"
  "pageTags (rebuildSearch x y db) = pageTags db" "pageFiles (rebuildSearch x y db) = pageFiles db"
  "versionFiles (rebuildSearch x y db) = versionFiles db" "versions (rebuildSearch x y db) = versions db"
  "pageTags (set_page p db) = pageTags db" "pageFiles (set_page p db) = pageFiles db"
  "versionFiles (set_page p db) = versionFiles db"
  by (simp_all add: add_audit_def rebuildSearch_def set_page_def)

lemma publish_effect:
  assumes "publish env vid i input a db = Inr (q, db')"
  obtains row canon hsh x where "row \<in> set (pages db)" and "pgId row = dbid i"
    and "canonicalKnowledgeContent (env_host env) (node_json (pgContent row)) = Inr canon"
    and "row\<lparr>pgStatus := PagePublished, pgPublished := Some vid, pgVersion := pgVersion row + 1, pgSearch := x\<rparr> \<in> set (pages db')"
    and "versions db' = versions db @ [publish_version db a vid i row canon hsh (ancestors db WorkingMode (pgId row))]"
    and "versionFiles db' = versionFiles db @
      map (\<lambda>(pg, fl, role). (pg, vid, fl, role)) (filter (\<lambda>(pg, _). pg = pgId row) (pageFiles db))"
    and "pageFiles db' = pageFiles db" and "pageTags db' = pageTags db"
proof -
  show thesis
    using assms unfolding publish_def Let_def
  proof (elim bindE_InrE, goal_cases)
    case (1 kvs u u1 row u2 u3 canon hsh)
    let ?row = "row\<lparr>pgStatus := PagePublished, pgPublished := Some vid, pgVersion := pgVersion row + 1\<rparr>"
    let ?ver = "publish_version db a vid i row canon hsh (ancestors db WorkingMode (pgId row))"
    let ?db = "set_page ?row (db\<lparr>versions := versions db @ [?ver], versionFiles := versionFiles db @
      map (\<lambda>(pg, fl, role). (pg, vid, fl, role)) (filter (\<lambda>(pg, _). pg = pgId row) (pageFiles db))\<rparr>)"
    have db': "db' = add_audit a ''knowledge-pages'' (Some (pgId row)) ''page.published'' (rebuildSearch (Some (pgId row)) None ?db)"
      using 1(11) by auto
    have row: "row \<in> set (pages db)" "pgId row = dbid i" using lockPage_row[OF 1(4)] by simp_all
    have "?row \<in> set (pages ?db)" using row(1) by force
    then obtain x where "?row\<lparr>pgSearch := x\<rparr> \<in> set (pages db')" unfolding db' using search_row by fastforce
    then show thesis using that[of row canon x hsh] row 1(7) unfolding db' by simp
  qed
qed

lemma find_append_new: "(\<And>x. x \<in> set xs \<Longrightarrow> \<not> P x) \<Longrightarrow> P y \<Longrightarrow> find P (xs @ [y]) = Some y"
  by (induction xs) auto

end
