(* ===== verification/KnowledgeAccess.thy ===== *)
theory KnowledgeAccess
  imports KnowledgeStorage
begin

text \<open>
  Access lists over the steps of the knowledge base: every stored entry names its subject
  (\<open>acl_ok\<close>), the SQL tests and the rank function agree on such entries, and the chain a
  query walks has every ancestor.
\<close>

section \<open>Access entries name their subject\<close>

definition entry_ok :: "access_entry \<Rightarrow> bool" where
  "entry_ok e \<longleftrightarrow> (subjectType e \<noteq> EVERYONE \<longrightarrow> subjectId e \<noteq> None)"

definition entries_ok :: "(string \<times> access_entry) list \<Rightarrow> bool" where
  "entries_ok acl \<longleftrightarrow> (\<forall>(k, e) \<in> set acl. entry_ok e)"

definition acl_ok :: "kb \<Rightarrow> bool" where
  "acl_ok db \<longleftrightarrow> entries_ok (spaceAccess db) \<and> entries_ok (pageAccess db)"

lemma entries_ok_simps [simp]:
  "entries_ok []" "entries_ok (xs @ ys) \<longleftrightarrow> entries_ok xs \<and> entries_ok ys"
  "entries_ok (map (\<lambda>e. (k, stored_entry e)) es) \<longleftrightarrow> (\<forall>e \<in> set es. entry_ok (stored_entry e))"
  "entries_ok [x] \<longleftrightarrow> entry_ok (snd x)"
  by (auto simp: entries_ok_def)

lemma entries_ok_filter [simp]: "entries_ok xs \<Longrightarrow> entries_ok (filter P xs)"
  by (auto simp: entries_ok_def)

lemma acl_simps [simp]:
  "acl_ok (add_audit a r i s db) = acl_ok db" "acl_ok (set_page p db) = acl_ok db"
  "acl_ok (set_tags pg ts db) = acl_ok db" "acl_ok (rebuildSearch x y db) = acl_ok db"
  "acl_ok (set_space sp db) = acl_ok db" "acl_ok (set_folder fd db) = acl_ok db"
  "acl_ok (unlink_file fid db) = acl_ok db" "acl_ok (transition_all k b ids db) = acl_ok db"
  "acl_ok (relocate ids sp2 fo db) = acl_ok db" "acl_ok (link_file pg fid role db) = acl_ok db"
  "acl_ok (bump_file fid db) = acl_ok db" "acl_ok (enqueueCleanup a ks db) = acl_ok db"
  "acl_ok (queue_key by ky db) = acl_ok db" "acl_ok (set_preview v db) = acl_ok db"
  "acl_ok (delete_files fids db) = acl_ok db" "acl_ok (enqueuePreview vid fid mt db) = acl_ok db"
  by (simp_all add: acl_ok_def add_audit_def set_page_def set_tags_def rebuildSearch_def set_space_def
      set_folder_def unlink_file_def transition_all_def relocate_def link_file_def bump_file_def enqueueCleanup_def
      queue_key_def set_preview_def delete_files_def enqueuePreview_def)

lemma acl_updates [simp]:
  "acl_ok (db\<lparr>spaces := ss\<rparr>) = acl_ok db" "acl_ok (db\<lparr>folders := fo\<rparr>) = acl_ok db"
  "acl_ok (db\<lparr>uploads := us\<rparr>) = acl_ok db" "acl_ok (db\<lparr>files := fs\<rparr>) = acl_ok db"
  "acl_ok (db\<lparr>cleanup := cl\<rparr>) = acl_ok db" "acl_ok (db\<lparr>previews := pv\<rparr>) = acl_ok db"
  "acl_ok (db\<lparr>versions := vs\<rparr>) = acl_ok db" "acl_ok (db\<lparr>versionFiles := vf\<rparr>) = acl_ok db"
  "acl_ok (db\<lparr>pages := ps\<rparr>) = acl_ok db"
  "acl_ok (db\<lparr>spaceAccess := xs\<rparr>) \<longleftrightarrow> entries_ok xs \<and> entries_ok (pageAccess db)"
  "acl_ok (db\<lparr>pageAccess := xs\<rparr>) \<longleftrightarrow> entries_ok (spaceAccess db) \<and> entries_ok xs"
  by (simp_all add: acl_ok_def)

lemma access_rows [simp]:
  "pageAccess (set_space sp db) = pageAccess db" "spaceAccess (set_page p db) = spaceAccess db"
  by (simp_all add: set_space_def set_page_def)

lemma accessEntry_ok: "accessEntry raw = Inr e \<Longrightarrow> entry_ok (stored_entry e)"
  by (auto simp: accessEntry_def entry_ok_def stored_entry_def err_simps split: json.splits option.splits if_splits)

lemma access_loop_ok: "access_loop xs acc = Inr es \<Longrightarrow> \<forall>e \<in> set acc. entry_ok (stored_entry e) \<Longrightarrow> \<forall>e \<in> set es. entry_ok (stored_entry e)"
  by (induction xs acc rule: access_loop.induct) (auto simp: err_simps accessEntry_ok split: if_splits)

lemma accessEntries_ok: "accessEntries db v = Inr es \<Longrightarrow> \<forall>e \<in> set es. entry_ok (stored_entry e)"
  unfolding accessEntries_def
  by (auto simp: err_simps split: option.splits json.splits if_splits dest: access_loop_ok)

lemma acl_access:
  assumes "acl_ok db"
  shows "setSpaceAccess env i input a db = Inr (q, db') \<Longrightarrow> acl_ok db'"
    and "setPageAccess env i input a db = Inr (q, db') \<Longrightarrow> acl_ok db'"
proof -
  have old: "entries_ok (spaceAccess db)" "entries_ok (pageAccess db)" using assms by (simp_all add: acl_ok_def)
  show "setSpaceAccess env i input a db = Inr (q, db') \<Longrightarrow> acl_ok db'"
    unfolding setSpaceAccess_def Let_def by (elim bindE_InrE, drule accessEntries_ok) (use old in auto)
  show "setPageAccess env i input a db = Inr (q, db') \<Longrightarrow> acl_ok db'"
    unfolding setPageAccess_def Let_def
    by (elim bindE_InrE, drule accessEntries_ok) (use old in \<open>auto split: option.splits json.splits if_splits\<close>)
qed

lemma acl_commands:
  assumes "acl_ok db"
  shows "createPageIn env i action input a db = Inr (q, db') \<Longrightarrow> acl_ok db'"
    and "updatePage env i input a db = Inr (q, db') \<Longrightarrow> acl_ok db'"
    and "publish env vid i input a db = Inr (q, db') \<Longrightarrow> acl_ok db'"
    and "move env i input a db = Inr (q, db') \<Longrightarrow> acl_ok db'"
    and "transitionPage env b i k input a db = Inr (q, db') \<Longrightarrow> acl_ok db'"
    and "removeAttachment env i input a db = Inr (q, db') \<Longrightarrow> acl_ok db'"
    and "updateSpace env i input a db = Inr (q, db') \<Longrightarrow> acl_ok db'"
    and "archiveSpace env i input a db = Inr (q, db') \<Longrightarrow> acl_ok db'"
    and "createFolder env i input a db = Inr (q, db') \<Longrightarrow> acl_ok db'"
    and "updateFolder env i input a db = Inr (q, db') \<Longrightarrow> acl_ok db'"
    and "deleteFolder env i input a db = Inr (q, db') \<Longrightarrow> acl_ok db'"
  using assms unfolding createPageIn_def updatePage_def updatePageIn_def publish_def move_def transitionPage_def
    removeAttachment_def updateSpace_def archiveSpace_def createFolder_def updateFolder_def deleteFolder_def Let_def
  by (elim bindE_InrE, auto elim!: bindE_InrE split: if_splits option.splits)+

lemma acl_createSpace:
  assumes "acl_ok db" and "createSpace env i input a db = Inr (q, db')"
  shows "acl_ok db'"
proof -
  have old: "entries_ok (spaceAccess db)" "entries_ok (pageAccess db)" using assms by (simp_all add: acl_ok_def)
  show ?thesis using assms(2) unfolding createSpace_def Let_def
    by (elim bindE_InrE) (use old assms(1) in \<open>auto simp: entry_ok_def split: option.splits\<close>)
qed

lemma acl_delete: "acl_ok db \<Longrightarrow> acl_ok (delete_pages ids db)"
  by (simp add: acl_ok_def delete_pages_def)

lemma acl_purge: "purge env i input a db = Inr (key, db') \<Longrightarrow> acl_ok db \<Longrightarrow> acl_ok db'"
  unfolding purge_def Let_def by (elim bindE_InrE) (auto intro: acl_delete)

lemma acl_run: "run env a c db = Inr (q, db') \<Longrightarrow> acl_ok db \<Longrightarrow> acl_ok db'"
  by (cases c) (auto simp: createPage_def elim!: bindE_InrE dest: acl_commands acl_access acl_createSpace acl_purge)

lemma acl_store: "store env x a fid vid mt role raw page db st = (Inr (key, db'), st') \<Longrightarrow> acl_ok db' = acl_ok db"
  by (auto simp: store_def store_rows_def Let_def split: if_splits)

lemma acl_files:
  assumes "acl_ok db"
  shows "upload env x fid vid i input meta a db st = (res, st') \<Longrightarrow> acl_ok (after res db)"
    and "createFilePage env x i fid vid input meta a db st = (res1, st') \<Longrightarrow> acl_ok (after res1 db)"
    and "uploadIn env x fid i meta a db st = (res2, st') \<Longrightarrow> acl_ok (after res2 db)"
  using assms unfolding upload_def createFilePage_def uploadIn_def Let_def
  by (auto split: if_splits sum.splits prod.splits option.splits simp: acl_store dest: acl_commands)

lemma acl_cleanup [simp]: "acl_ok (fst (snd (processCleanup del a db st))) = acl_ok db"
  "acl_ok (snd (reconcileStorageOrphans env listing a db st)) = acl_ok db"
  by (simp_all add: processCleanup_def reconcileStorageOrphans_def Let_def split: prod.split)

lemma acl_orphan_rows: "clean_orphan_rows env a db = Inr (n, db') \<Longrightarrow> acl_ok db' = acl_ok db"
  unfolding clean_orphan_rows_def Let_def by (elim bindE_InrE) auto

lemma acl_cleanOrphans:
  "cleanOrphans env listing del a db st = (res, st') \<Longrightarrow> acl_ok (after res db) = acl_ok db"
  unfolding cleanOrphans_def Let_def
  by (auto simp: acl_orphan_rows split: sum.splits prod.splits)
    (metis acl_orphan_rows fst_conv snd_conv acl_cleanup)+

lemma acl_others:
  "retryStorageCleanup env listing del db st = (db', st') \<Longrightarrow> acl_ok db' = acl_ok db"
  "claim env lease now seconds db = Inr (job, db') \<Longrightarrow> acl_ok db' = acl_ok db"
  "complete vid lease now sz err db = (ok, db') \<Longrightarrow> acl_ok db' = acl_ok db"
  unfolding retryStorageCleanup_def
  by (metis fst_conv acl_cleanup) (auto simp: claim_def complete_def Let_def split: if_splits option.splits)

lemma acl_retry:
  assumes "retry file a db = Inr (r, db')"
  shows "acl_ok db' = acl_ok db"
  by (rule retry_effect[OF assms]) (simp split: option.split)

lemma acl_purgeAndClean:
  assumes "acl_ok db" and "purgeAndClean env del i input a db st = (res, st')"
  shows "acl_ok (after res db)"
proof (cases "purge env i input a db")
  case (Inr q)
  obtain r db1 where q: "q = (r, db1)" by (cases q)
  obtain c db2 st1 where c: "processCleanup del a db1 st = (c, db2, st1)" by (cases "processCleanup del a db1 st") auto
  have "after res db = db2" using assms Inr q c by (auto simp: purgeAndClean_def split: prod.splits)
  moreover have "acl_ok db2 = acl_ok db1" using acl_cleanup(1)[of del a db1 st] c by simp
  ultimately show ?thesis using acl_purge[of env i input a db r db1] assms(1) Inr q by simp
qed (use assms in \<open>auto simp: purgeAndClean_def\<close>)

lemma kb_step_acl: "kb_step env s s' \<Longrightarrow> acl_ok (fst s) \<Longrightarrow> acl_ok (fst s')"
  by (induction rule: kb_step.induct)
    (auto simp: acl_cleanOrphans acl_others acl_retry dest: acl_run acl_files acl_purgeAndClean)

lemma kb_reach_acl: "kb_reach env s \<Longrightarrow> acl_ok (fst s)"
proof (induction rule: kb_reach.induct)
  case (reach_step s s')
  then show ?case using kb_step_acl by blast
qed (simp add: acl_ok_def kb_empty_def)

section \<open>Access levels\<close>

lemma matches_applies: "entry_ok e \<Longrightarrow> matches m e = entry_applies m e"
  by (cases "subjectType e"; cases "subjectId e"; cases "memberUser m")
    (auto simp: matches_def holds_any entry_applies_def entry_ok_def null_safe_def)

lemma foldr_max_le: "n \<le> foldr max xs (k :: nat) \<longleftrightarrow> n \<le> k \<or> (\<exists>x \<in> set xs. n \<le> x)"
  by (induction xs) auto

lemma foldr_min_le: "n \<le> foldr min xs (k :: nat) \<longleftrightarrow> n \<le> k \<and> (\<forall>x \<in> set xs. n \<le> x)"
  by (induction xs) auto

lemma entries_rank_le: "0 < n \<Longrightarrow> n \<le> entries_rank m es \<longleftrightarrow> (\<exists>e \<in> set es. entry_applies m e \<and> n \<le> accessRank (accessLevel e))"
  by (auto simp: entries_rank_def foldr_max_le)

lemma entries_of_ok: "entries_ok acl \<Longrightarrow> e \<in> set (entries_of acl i) \<Longrightarrow> entry_ok e"
  by (auto simp: entries_ok_def entries_of_def)

lemma spaceRank_entries:
  assumes "entries_ok (spaceAccess db)" and "\<not> knowledgeAdministrator a"
  shows "spaceRank db a m s = entries_rank m (entries_of (spaceAccess db) s)"
proof -
  have "filter (matches m) (entries_of (spaceAccess db) s) = filter (entry_applies m) (entries_of (spaceAccess db) s)"
    using entries_of_ok[OF assms(1)] matches_applies by (intro filter_cong) auto
  then show ?thesis using assms(2) by (simp add: spaceRank_def entries_rank_def)
qed

lemma restriction_entries:
  assumes "entries_ok (pageAccess db)" and "\<not> knowledgeAdministrator a" and "0 < n"
  shows "restriction db a m n c \<longleftrightarrow> pgRestricted c \<and> \<not> n \<le> entries_rank m (entries_of (pageAccess db) (pgId c))"
  using assms entries_of_ok[OF assms(1)] matches_applies by (auto simp: restriction_def entries_rank_le list_ex_iff)

lemma rank_split:
  assumes "acl_ok db" and "\<not> knowledgeAdministrator a" and "0 < n"
  shows "n \<le> effectiveKnowledgeRank (entries_of (spaceAccess db) s)
      (map (\<lambda>c. entries_of (pageAccess db) (pgId c)) (filter pgRestricted cs)) m \<longleftrightarrow>
    n \<le> spaceRank db a m s \<and> \<not> list_ex (restriction db a m n) cs"
  using assms restriction_entries[of db a n m] spaceRank_entries[of db a m s]
  by (auto simp: acl_ok_def effectiveKnowledgeRank_def foldr_min_le list_ex_iff)

section \<open>Ancestors\<close>

lemma chain_covers:
  assumes ok: "kb_ok db" and p: "p \<in> set (pages db)" and mode: "mode \<noteq> PublishedMode"
    and c: "c \<in> set (pages db)" "(pgId p, pgId c) \<in> (key_rel pgId pgParent (pages db))\<^sup>*"
  shows "c \<in> set (chain db mode p)"
proof -
  have places: "places_ok (tree_of db)" by (rule kb_ok_places[OF ok])
  have up: "chain_next db mode x = up_next pgId pgParent (pages db) x" if x: "x \<in> set (pages db)" for x
  proof (cases "pgParent x")
    case None
    then show ?thesis using mode by (simp add: chain_next_def place_parent_def up_next_def)
  next
    case (Some k)
    obtain q where q: "q \<in> set (pages db)" "pgId q = k" "pgSpace q = pgSpace x"
      using places_parent[OF places, of "node x" k] x Some by auto
    have "lookup_row pgId (pages db) k = Some q" using lookup_row_mem[OF kb_ok_distinct[OF ok] q(1)] q(2) by simp
    then show ?thesis using mode Some q(3) by (simp add: chain_next_def place_parent_def up_next_def)
  qed
  have "pgId c \<in> pgId ` set (chain db mode p)"
    unfolding chain_def using places_okD(2)[OF places] c unfolding up_rel_pages
    by (intro climb_covers[OF kb_ok_distinct[OF ok] _ up refl p]) auto
  then obtain d where d: "d \<in> set (chain db mode p)" "pgId d = pgId c" by auto
  have "d \<in> set (pages db)" using d(1) unfolding chain_def by (rule subsetD[OF climb_subset])
  then show ?thesis using kb_ok_same[OF ok _ c(1) d(2)] d(1) by simp
qed

end
