(* ===== verification/KnowledgeFolderTree.thy ===== *)
theory KnowledgeFolderTree
  imports KnowledgeStorage
begin

text \<open>
  The folders of \<^verbatim>\<open>knowledge.folders.service.ts\<close>: in every reachable state they form
  trees inside their spaces, a folder in use has its parent in use, and no two folders in use
  stand side by side under one name.
\<close>

section \<open>The invariant\<close>

abbreviation folder_rel :: "kfolder list \<Rightarrow> (string \<times> string) set" where
  "folder_rel \<equiv> key_rel fdId fdParent"

definition folder_above :: "kfolder list \<Rightarrow> kfolder \<Rightarrow> string \<Rightarrow> bool" where
  "folder_above fs f k \<longleftrightarrow> (\<exists>g \<in> set fs. fdId g = k \<and> fdSpace g = fdSpace f \<and> (fdActive f \<longrightarrow> fdActive g))"

definition same_folder_name :: "kfolder \<Rightarrow> kfolder \<Rightarrow> bool" where
  "same_folder_name f g \<longleftrightarrow> fdSpace f = fdSpace g \<and> fdParent f = fdParent g \<and>
     lower (btrim (fdName f)) = lower (btrim (fdName g))"

definition folders_placed :: "kfolder list \<Rightarrow> bool" where
  "folders_placed fs \<longleftrightarrow> distinct (map fdId fs) \<and> acyclic (folder_rel fs) \<and>
     (\<forall>f \<in> set fs. dbid (fdId f) = fdId f \<and> dbid (fdSpace f) = fdSpace f) \<and>
     (\<forall>f \<in> set fs. \<forall>k. fdParent f = Some k \<longrightarrow> folder_above fs f k)"

definition folders_named :: "kfolder list \<Rightarrow> bool" where
  "folders_named fs \<longleftrightarrow> (\<forall>f \<in> set fs. \<forall>g \<in> set fs. fdActive f \<longrightarrow> fdActive g \<longrightarrow> same_folder_name f g \<longrightarrow> fdId f = fdId g)"

definition put_folder :: "kfolder \<Rightarrow> kfolder list \<Rightarrow> kfolder list" where
  "put_folder f fs = map (\<lambda>x. if fdId x = fdId f then f else x) fs"

lemma put_folder_mem: "g \<in> set (put_folder f fs) \<longleftrightarrow> (g = f \<and> fdId f \<in> fdId ` set fs) \<or> (g \<in> set fs \<and> fdId g \<noteq> fdId f)"
  by (auto simp: put_folder_def intro: rev_image_eqI)

lemma put_folder_ids: "map fdId (put_folder f fs) = map fdId fs"
  by (simp add: put_folder_def)

lemma set_folder_folders [simp]: "folders (set_folder f db) = put_folder f (folders db)"
  by (simp add: set_folder_def put_folder_def)

lemma folder_guard_above:
  assumes ok: "distinct (map fdId rows)" "acyclic (folder_rel rows)" and "folder_guard rows f = Inr u"
    and "fdParent f = Some k" and k: "k \<in> fdId ` set rows" and "fdId f \<in> fdId ` set rows"
  shows "(k, fdId f) \<notin> (folder_rel rows)\<^sup>*"
proof -
  obtain g where g: "g \<in> set rows" "fdId g = k" using k by auto
  have "lookup_row fdId rows k = Some g" using lookup_row_mem[OF ok(1) g(1)] g(2) by simp
  moreover have "folder_parent_next rows = up_next fdId fdParent rows"
    by (simp add: fun_eq_iff folder_parent_next_def up_next_def)
  ultimately have "fdId f \<notin> set (map fdId (climb fdId (up_next fdId fdParent rows) rows (Some g) {}))"
    using assms(3,4) by (simp add: folder_guard_def)
  from climb_guard[OF ok g(1) assms(6) this] show ?thesis using g(2) by simp
qed

section \<open>Changes of the table\<close>

lemma folder_rel_target: "folders_placed fs \<Longrightarrow> (x, k) \<in> folder_rel fs \<Longrightarrow> k \<in> fdId ` set fs"
  by (fastforce simp: folders_placed_def folder_above_def key_rel_def)

lemma placed_add:
  assumes ok: "folders_placed fs" and new: "fdId f \<notin> fdId ` set fs" "dbid (fdId f) = fdId f" "dbid (fdSpace f) = fdSpace f"
    and par: "\<And>k. fdParent f = Some k \<Longrightarrow> folder_above fs f k"
  shows "folders_placed (fs @ [f])"
proof -
  have "acyclic (folder_rel (fs @ [f]))"
  proof (rule acyclic_rehang[where r = "folder_rel fs" and k = "fdId f" and k' = "the (fdParent f)"])
    fix l assume "(fdId f, l) \<in> folder_rel (fs @ [f])"
    then have l: "fdParent f = Some l" using new(1) by (auto simp: key_rel_def image_iff)
    then have "l \<noteq> fdId f" using par[OF l] new(1) by (auto simp: folder_above_def image_iff)
    then have "(l, fdId f) \<notin> (folder_rel fs)\<^sup>*"
      using folder_rel_target[OF ok] new(1) by (auto elim: rtranclE)
    then show "l = the (fdParent f) \<and> (the (fdParent f), fdId f) \<notin> (folder_rel fs)\<^sup>*" using l by simp
  qed (use ok in \<open>auto simp: folders_placed_def key_rel_def\<close>)
  then show ?thesis using ok new par by (auto simp: folders_placed_def folder_above_def)
qed

lemma placed_put:
  assumes ok: "folders_placed fs" and r: "r \<in> set fs" "fdId r = fdId f" "fdSpace r = fdSpace f" "fdActive f \<longrightarrow> fdActive r"
    and par: "\<And>k. fdParent f = Some k \<Longrightarrow> folder_above fs f k \<and> (k, fdId f) \<notin> (folder_rel fs)\<^sup>*"
    and idle: "\<not> fdActive f \<Longrightarrow> (\<And>g. g \<in> set fs \<Longrightarrow> fdParent g = Some (fdId f) \<Longrightarrow> \<not> fdActive g)"
  shows "folders_placed (put_folder f fs)"
proof -
  have mem: "fdId f \<in> fdId ` set fs" unfolding r(2)[symmetric] using r(1) by (rule imageI)
  have "acyclic (folder_rel (put_folder f fs))"
  proof (rule acyclic_rehang[where r = "folder_rel fs" and k = "fdId f" and k' = "the (fdParent f)"])
    fix l assume "(fdId f, l) \<in> folder_rel (put_folder f fs)"
    then have "fdParent f = Some l" by (auto simp: key_rel_def put_folder_mem)
    then show "l = the (fdParent f) \<and> (the (fdParent f), fdId f) \<notin> (folder_rel fs)\<^sup>*" using par by simp
  qed (use ok in \<open>auto simp: folders_placed_def key_rel_def put_folder_mem\<close>)
  moreover have "folder_above (put_folder f fs) g k" if g: "g \<in> set (put_folder f fs)" "fdParent g = Some k" for g k
  proof -
    have "folder_above fs g k" using g ok par by (auto simp: put_folder_mem folders_placed_def)
    then obtain h where h: "h \<in> set fs" "fdId h = k" "fdSpace h = fdSpace g" "fdActive g \<longrightarrow> fdActive h"
      by (auto simp: folder_above_def)
    show ?thesis
    proof (cases "k = fdId f")
      case True
      have "h = r" using same_key[of fdId fs h r] ok h r True by (simp add: folders_placed_def)
      moreover have "g \<noteq> f"
      proof
        assume "g = f"
        then show False using par[of k] g(2) True by simp
      qed
      then have "g \<in> set fs" using g(1) by (simp add: put_folder_mem)
      ultimately show ?thesis
        using True h r idle[of g] g(2) mem by (intro folder_above_def[THEN iffD2] bexI[of _ f]) (auto simp: put_folder_mem)
    next
      case False
      then show ?thesis using h by (auto simp: folder_above_def put_folder_mem)
    qed
  qed
  moreover have "dbid (fdId r) = fdId r \<and> dbid (fdSpace r) = fdSpace r" using ok r(1) by (simp add: folders_placed_def)
  then have "dbid (fdId f) = fdId f \<and> dbid (fdSpace f) = fdSpace f" unfolding r(2,3) .
  ultimately show ?thesis
    using ok unfolding folders_placed_def put_folder_ids by (auto simp: put_folder_mem)
qed

lemma name_freeD:
  "folder_name_free fs f \<Longrightarrow> g \<in> set fs \<Longrightarrow> fdActive g \<Longrightarrow> same_folder_name f g \<or> same_folder_name g f \<Longrightarrow> fdId g = fdId f"
  by (auto simp: folder_name_free_def same_folder_name_def list_ex_iff)

lemma named_add:
  assumes "folders_named fs" and "folder_name_free fs f"
  shows "folders_named (fs @ [f])"
  unfolding folders_named_def
proof (intro ballI impI)
  fix g h assume "g \<in> set (fs @ [f])" "h \<in> set (fs @ [f])" "fdActive g" "fdActive h" "same_folder_name g h"
  then show "fdId g = fdId h"
    using assms(1) name_freeD[OF assms(2), of g] name_freeD[OF assms(2), of h] unfolding folders_named_def by auto
qed

lemma named_put:
  assumes "folders_named fs" and "fdActive f \<Longrightarrow> folder_name_free fs f"
  shows "folders_named (put_folder f fs)"
  unfolding folders_named_def
proof (intro ballI impI)
  fix g h assume gh: "g \<in> set (put_folder f fs)" "h \<in> set (put_folder f fs)" "fdActive g" "fdActive h" "same_folder_name g h"
  have free: "fdId x = fdId f" if "fdActive f" "x \<in> set fs" "fdActive x" "same_folder_name f x \<or> same_folder_name x f" for x
    using name_freeD[OF assms(2)[OF that(1)] that(2-)] .
  from gh show "fdId g = fdId h"
    using assms(1) free[of g] free[of h] unfolding folders_named_def put_folder_mem by auto
qed

section \<open>The commands\<close>

definition folders_ok :: "kb \<Rightarrow> bool" where
  "folders_ok db \<longleftrightarrow> folders_placed (folders db) \<and> folders_named (folders db)"

lemma validated_folder:
  "validateKnowledgeFolder db space v = Inr (Some k) \<Longrightarrow>
    \<exists>g \<in> set (folders db). fdId g = dbid k \<and> fdSpace g = dbid space \<and> fdActive g"
  by (auto simp: validateKnowledgeFolder_def err_simps list_ex_iff split: if_splits)

lemma folder_space_row: "folder_space env si a action db = Inr s \<Longrightarrow> s \<in> set (spaces db)"
  unfolding folder_space_def Let_def
  by (auto simp: err_simps split: option.splits if_splits dest: lookup_row_Some)

lemma lookup_row_active: "lookup_row fdId (filter fdActive fs) k = Some f \<Longrightarrow> f \<in> set fs \<and> fdActive f"
  using lookup_row_Some by fastforce

lemma folder_lock_row: "folder_lock env i a action db = Inr f \<Longrightarrow> f \<in> set (folders db) \<and> fdActive f"
  unfolding folder_lock_def
  by (elim bindE_InrE) (auto split: option.splits elim!: bindE_InrE dest: lookup_row_active)

lemma createFolder_folders:
  assumes ok: "folders_ok db" and kb: "kb_ok db" and fresh: "i \<notin> fdId ` set (folders db)" "dbid i = i"
    and "createFolder env i input a db = Inr (q, db')"
  shows "folders_ok db'"
  using assms(5) unfolding createFolder_def Let_def
proof (elim bindE_InrE, goal_cases)
  case (1 kvs s parent name order u u2)
  let ?f = "\<lparr>fdId = i, fdSpace = spId s, fdParent = map_option dbid parent, fdName = name, fdSort = order, fdActive = True, fdVersion = 1\<rparr>"
  have s: "dbid (spId s) = spId s" using kb_ok_ids(1)[OF kb folder_space_row[OF 1(2)]] .
  have "folder_above (folders db) ?f k" if "fdParent ?f = Some k" for k
    using that 1(3) s validated_folder by (fastforce simp: folder_above_def)
  then have "folders_placed (folders db @ [?f])"
    using ok fresh s by (intro placed_add) (simp_all add: folders_ok_def)
  moreover have "folders_named (folders db @ [?f])"
    using ok 1(7) by (intro named_add) (simp_all add: folders_ok_def)
  moreover have "folders db' = folders db @ [?f]" using 1(8) by auto
  ultimately show ?case by (simp add: folders_ok_def)
qed

lemma folders_search [simp]: "folders (rebuildSearch x y db) = folders db"
  by (simp add: rebuildSearch_def)

lemma updateFolder_folders:
  assumes ok: "folders_ok db" and "updateFolder env i input a db = Inr (q, db')"
  shows "folders_ok db'"
  using assms(2) unfolding updateFolder_def Let_def
proof (elim bindE_InrE, goal_cases)
  case (1 kvs row u parent u2 u3 name u4 u5)
  let ?stored = "if ''parentFolderId'' \<in> set (jkeys kvs) then map_option dbid parent else parent"
  let ?f = "row\<lparr>fdName := name, fdParent := ?stored, fdVersion := fdVersion row + 1\<rparr>"
  have row: "row \<in> set (folders db)" "fdActive row" using folder_lock_row[OF 1(2)] by simp_all
  have placed: "folders_placed (folders db)" using ok by (simp add: folders_ok_def)
  have above: "folder_above (folders db) ?f k" if k: "fdParent ?f = Some k" for k
  proof (cases "''parentFolderId'' \<in> set (jkeys kvs)")
    case True
    then obtain j where "parent = Some j" "k = dbid j" using k by auto
    then show ?thesis using validated_folder[of db "fdSpace row" _ j] 1(4) True placed row
      by (auto simp: folder_above_def folders_placed_def)
  next
    case False
    then show ?thesis using k 1(4) placed row by (auto simp: folders_placed_def folder_above_def)
  qed
  have guard: "(k, fdId ?f) \<notin> (folder_rel (folders db))\<^sup>*" if "fdParent ?f = Some k" for k
    using above[OF that] placed 1(8) row that
    by (intro folder_guard_above[where u = u4]) (auto simp: folders_placed_def folder_above_def)
  have "folders_placed (put_folder ?f (folders db))"
    by (rule placed_put[OF placed row(1)]) (use above guard row(2) in auto)
  moreover have "folders_named (put_folder ?f (folders db))"
    using ok 1(9) by (intro named_put) (simp_all add: folders_ok_def)
  moreover have "folders db' = put_folder ?f (folders db)" using 1(10) by auto
  ultimately show ?case by (simp add: folders_ok_def)
qed

lemma deleteFolder_folders:
  assumes ok: "folders_ok db" and "deleteFolder env i input a db = Inr (q, db')"
  shows "folders_ok db'"
  using assms(2) unfolding deleteFolder_def
proof (elim bindE_InrE, goal_cases)
  case (1 kvs row u u2)
  let ?f = "row\<lparr>fdActive := False, fdVersion := fdVersion row + 1\<rparr>"
  have row: "row \<in> set (folders db)" "fdActive row" using folder_lock_row[OF 1(2)] by simp_all
  have placed: "folders_placed (folders db)" using ok by (simp add: folders_ok_def)
  have par: "folder_above (folders db) ?f k \<and> (k, fdId ?f) \<notin> (folder_rel (folders db))\<^sup>*" if "fdParent ?f = Some k" for k
  proof -
    have "fdParent row = Some k" using that by simp
    then have "(fdId row, k) \<in> folder_rel (folders db)" "folder_above (folders db) row k"
      using row(1) placed by (auto simp: key_rel_def folders_placed_def)
    moreover have "(k, fdId row) \<notin> (folder_rel (folders db))\<^sup>*" if "(fdId row, k) \<in> folder_rel (folders db)"
      using placed rtrancl_into_trancl2[OF that] by (auto simp: folders_placed_def acyclic_def)
    ultimately show ?thesis by (auto simp: folder_above_def)
  qed
  have idle: "\<not> fdActive g" if "g \<in> set (folders db)" "fdParent g = Some (fdId ?f)" for g
    using 1(4) that by (auto simp: folder_in_use_def list_ex_iff)
  have "folders_placed (put_folder ?f (folders db))"
    by (rule placed_put[OF placed row(1)]) (use par idle row(2) in auto)
  moreover have "folders_named (put_folder ?f (folders db))"
    using ok by (intro named_put) (simp_all add: folders_ok_def)
  moreover have "folders db' = put_folder ?f (folders db)" using 1(5) by auto
  ultimately show ?case by (simp add: folders_ok_def)
qed

section \<open>Everything else leaves the folders alone\<close>

lemma folders_simps [simp]:
  "folders (add_audit a r i s db) = folders db" "folders (set_page p db) = folders db"
  "folders (set_tags pg ts db) = folders db" "folders (set_space sp db) = folders db"
  "folders (unlink_file fid db) = folders db" "folders (transition_all k b ids db) = folders db"
  "folders (relocate ids sp2 fo db) = folders db" "folders (link_file pg fid role db) = folders db"
  "folders (bump_file fid db) = folders db" "folders (enqueueCleanup a ks db) = folders db"
  "folders (queue_key by ky db) = folders db" "folders (set_preview v db) = folders db"
  "folders (delete_files fids db) = folders db" "folders (enqueuePreview vid fid mt db) = folders db"
  "folders (delete_pages ids db) = folders db"
  by (simp_all add: add_audit_def set_page_def set_tags_def set_space_def unlink_file_def transition_all_def
      relocate_def link_file_def bump_file_def enqueueCleanup_def queue_key_def set_preview_def delete_files_def
      enqueuePreview_def delete_pages_def)

lemma folders_commands:
  "createSpace env i input a db = Inr (q, db') \<Longrightarrow> folders db' = folders db"
  "updateSpace env i input a db = Inr (q, db') \<Longrightarrow> folders db' = folders db"
  "archiveSpace env i input a db = Inr (q, db') \<Longrightarrow> folders db' = folders db"
  "setSpaceAccess env i input a db = Inr (q, db') \<Longrightarrow> folders db' = folders db"
  "createPageIn env i action input a db = Inr (q, db') \<Longrightarrow> folders db' = folders db"
  "updatePage env i input a db = Inr (q, db') \<Longrightarrow> folders db' = folders db"
  "setPageAccess env i input a db = Inr (q, db') \<Longrightarrow> folders db' = folders db"
  "publish env vid i input a db = Inr (q, db') \<Longrightarrow> folders db' = folders db"
  "move env i input a db = Inr (q, db') \<Longrightarrow> folders db' = folders db"
  "transitionPage env b i k input a db = Inr (q, db') \<Longrightarrow> folders db' = folders db"
  "removeAttachment env i input a db = Inr (q, db') \<Longrightarrow> folders db' = folders db"
  "purge env i input a db = Inr (key, db') \<Longrightarrow> folders db' = folders db"
  unfolding createSpace_def updateSpace_def archiveSpace_def setSpaceAccess_def createPageIn_def updatePage_def
    updatePageIn_def setPageAccess_def publish_def move_def transitionPage_def removeAttachment_def purge_def Let_def
  by (elim bindE_InrE, auto elim!: bindE_InrE split: if_splits option.splits json.splits)+

lemma folders_store: "store env x a fid vid mt role raw page db st = (Inr (key, db'), st') \<Longrightarrow> folders db' = folders db"
  by (auto simp: store_def store_rows_def Let_def split: if_splits)

lemma folders_files:
  "upload env x fid vid i input meta a db st = (res, st') \<Longrightarrow> folders (after res db) = folders db"
  "createFilePage env x i fid vid input meta a db st = (res1, st') \<Longrightarrow> folders (after res1 db) = folders db"
  "uploadIn env x fid i meta a db st = (res2, st') \<Longrightarrow> folders (after res2 db) = folders db"
  unfolding upload_def createFilePage_def uploadIn_def Let_def
  by (auto split: if_splits sum.splits prod.splits option.splits simp: folders_store dest: folders_commands)

lemma folders_cleanup [simp]: "folders (fst (snd (processCleanup del a db st))) = folders db"
  "folders (snd (reconcileStorageOrphans env listing a db st)) = folders db"
  by (simp_all add: processCleanup_def reconcileStorageOrphans_def Let_def split: prod.split)

lemma folders_orphan_rows: "clean_orphan_rows env a db = Inr (n, db') \<Longrightarrow> folders db' = folders db"
  unfolding clean_orphan_rows_def Let_def by (elim bindE_InrE) auto

lemma folders_cleanOrphans:
  "cleanOrphans env listing del a db st = (res, st') \<Longrightarrow> folders (after res db) = folders db"
  unfolding cleanOrphans_def Let_def
  by (auto simp: folders_orphan_rows split: sum.splits prod.splits)
    (metis folders_orphan_rows fst_conv snd_conv folders_cleanup)+

lemma folders_purgeAndClean:
  "purgeAndClean env del i input a db st = (res, st') \<Longrightarrow> folders (after res db) = folders db"
  unfolding purgeAndClean_def Let_def
  by (auto split: sum.splits prod.splits dest: folders_commands)
    (metis folders_commands(12) fst_conv snd_conv folders_cleanup(1))+

lemma folders_others:
  "retryStorageCleanup env listing del db st = (db', st') \<Longrightarrow> folders db' = folders db"
  "claim env lease now seconds db = Inr (job, db') \<Longrightarrow> folders db' = folders db"
  "complete vid lease now sz err db = (ok, db') \<Longrightarrow> folders db' = folders db"
  unfolding retryStorageCleanup_def
  by (metis fst_conv folders_cleanup) (auto simp: claim_def complete_def Let_def split: if_splits option.splits)

lemma folders_retry:
  assumes "retry file a db = Inr (r, db')"
  shows "folders db' = folders db"
  by (rule retry_effect[OF assms]) (simp split: option.split)

lemma folders_ok_same: "folders db' = folders db \<Longrightarrow> folders_ok db' = folders_ok db"
  by (simp add: folders_ok_def)

lemma folders_run: "run env a c db = Inr (q, db') \<Longrightarrow> fresh_ids c db \<Longrightarrow> kb_ok db \<Longrightarrow> folders_ok db \<Longrightarrow> folders_ok db'"
  by (cases c) (auto simp: createPage_def elim!: bindE_InrE dest: folders_commands[THEN folders_ok_same]
      createFolder_folders updateFolder_folders deleteFolder_folders)

lemma kb_step_folders: "kb_step env s s' \<Longrightarrow> kb_ok (fst s) \<Longrightarrow> folders_ok (fst s) \<Longrightarrow> folders_ok (fst s')"
  by (induction rule: kb_step.induct)
    (auto dest: folders_run simp: folders_files[THEN folders_ok_same] folders_cleanOrphans[THEN folders_ok_same]
      folders_purgeAndClean[THEN folders_ok_same] folders_others[THEN folders_ok_same] folders_retry[THEN folders_ok_same])

lemma kb_reach_folders: "kb_reach env s \<Longrightarrow> folders_ok (fst s)"
proof (induction rule: kb_reach.induct)
  case (reach_start d)
  have "acyclic ({} :: (string \<times> string) set)" by (simp add: acyclic_def)
  then show ?case by (simp add: folders_ok_def folders_placed_def folders_named_def kb_empty_def key_rel_def)
next
  case (reach_step s s')
  then show ?case using kb_step_folders kb_reach_ok by blast
qed

end
