(* ===== verification/KnowledgeSample.thy ===== *)
theory KnowledgeSample
  imports KnowledgeStorage "HOL-Library.Code_Target_Nat"
begin

text \<open>
  A small knowledge base for the examples: a space with a folder, a published restricted page and
  a published page below it, reached by eight commands of an administrator.
\<close>

fun runs :: "kb_env \<Rightarrow> kactor \<Rightarrow> command list \<Rightarrow> kb \<Rightarrow> kb_error + kb" where
  "runs env a [] db = Inr db"
| "runs env a (c # cs) db = (if fresh_ids c db then bindE (run env a c db) (\<lambda>q. runs env a cs (snd q))
     else Inl (KbBad ''used id''))"

lemma runs_reach: "kb_reach env (db, st) \<Longrightarrow> runs env a cs db = Inr db' \<Longrightarrow> kb_reach env (db', st)"
proof (induction cs arbitrary: db)
  case (Cons c cs)
  then obtain r db1 where step: "fresh_ids c db" "run env a c db = Inr (r, db1)" and rest: "runs env a cs db1 = Inr db'"
    by (auto split: if_splits elim!: bindE_InrE)
  show ?case using Cons.IH[OF reach_step[OF Cons.prems(1) step_run[OF step]] rest] .
qed simp

section \<open>Who and what\<close>

definition sample_kb_host :: host where
  "sample_kb_host = \<lparr>num_str = (\<lambda>_. ''1''), sha256 = (\<lambda>_. ''hash''), url_protocol = (\<lambda>_. None)\<rparr>"

definition sample_env :: kb_env where
  "sample_env = \<lparr>env_host = sample_kb_host, tenant_hex = ''0a'', text_less = (\<lambda>_ _. False), int_text = (\<lambda>_. ''1''),
     space_column = (\<lambda>_ _. None), page_column = (\<lambda>_ _ _ _. None)\<rparr>"

definition sample_user :: string where
  "sample_user = ''00000000-0000-4000-8000-000000000001''"

definition sample_admin :: kactor where
  "sample_admin = \<lparr>kaUser = Some sample_user, kaName = ''admin'', kaPermissions = [], kaSystemAdmin = True,
     kaModules = [], kaScopes = []\<rparr>"

definition sample_member_id :: string where
  "sample_member_id = ''00000000-0000-4000-8000-000000000002''"

definition sample_member :: kactor where
  "sample_member = \<lparr>kaUser = Some sample_member_id, kaName = ''member'', kaPermissions = [], kaSystemAdmin = False,
     kaModules = [], kaScopes = map (\<lambda>r. \<lparr>scopeResource = r, scopeKind = ''ALL'', scopeMatch = None,
       scopeActions = None, scopeRules = []\<rparr>) [''knowledge-spaces'', ''knowledge-pages'']\<rparr>"

definition sample_space :: string where
  "sample_space = ''00000000-0000-4000-8000-00000000000a''"

definition sample_page :: string where
  "sample_page = ''00000000-0000-4000-8000-00000000000b''"

definition sample_child :: string where
  "sample_child = ''00000000-0000-4000-8000-00000000000c''"

definition sample_folder :: string where
  "sample_folder = ''00000000-0000-4000-8000-00000000000d''"

definition at_version :: "nat \<Rightarrow> (string \<times> json) list \<Rightarrow> json" where
  "at_version n kvs = JObj ((''expectedVersion'', JNum (of_nat n)) # kvs)"

definition sample_entry :: "string \<Rightarrow> (string \<times> json) list \<Rightarrow> json" where
  "sample_entry t kvs = JObj ([(''subjectType'', JStr t), (''accessLevel'', JStr ''EDITOR'')] @ kvs)"

definition sample_directory :: kdirectory where
  "sample_directory = \<lparr>dirUsers = [(sample_member_id, [])], dirUnits = [], dirUserRoles = [], dirRoleUnits = [],
     dirPlainRoles = []\<rparr>"

definition sample_commands :: "command list" where
  "sample_commands =
     [CreateSpace sample_space (JObj [(''name'', JStr ''Docs'')]),
      CreateFolder sample_folder (JObj [(''spaceId'', JStr sample_space), (''name'', JStr ''F'')]),
      CreatePage sample_page (JObj [(''spaceId'', JStr sample_space), (''title'', JStr ''A'')]),
      CreatePage sample_child (JObj [(''spaceId'', JStr sample_space), (''title'', JStr ''B''), (''parentId'', JStr sample_page)]),
      Publish ''v1'' sample_page (at_version 1 []), Publish ''v2'' sample_child (at_version 1 []),
      SpaceAccess sample_space (at_version 1 [(''entries'', JArr [sample_entry ''ALL'' []])]),
      PageAccess sample_page (at_version 2 [(''restricted'', JBool True),
        (''entries'', JArr [sample_entry ''USER'' [(''subjectId'', JStr sample_member_id)]])])]"

section \<open>The tables they lead to\<close>

definition sample_doc_node :: knode where
  "sample_doc_node = KNode ''doc'' None [] [] (Some [])"

definition sample_page_row :: "string \<Rightarrow> string option \<Rightarrow> string \<Rightarrow> string \<Rightarrow> bool \<Rightarrow> nat \<Rightarrow> string list \<Rightarrow> kpage" where
  "sample_page_row i par title v restricted n search = \<lparr>pgId = i, pgSpace = sample_space, pgParent = par, pgFolder = None,
     pgTitle = title, pgSort = 0, pgContent = sample_doc_node, pgText = [], pgHash = ''hash'', pgMode = RICH_TEXT,
     pgDescription = [], pgStatus = PagePublished, pgBefore = None, pgBatch = None, pgPublished = Some v,
     pgRestricted = restricted, pgSearch = js_join [CHR 0x0A] search, pgVersion = n, pgCreatedBy = Some sample_user\<rparr>"

definition sample_version_row ::
  "string \<Rightarrow> string \<Rightarrow> string option \<Rightarrow> string \<Rightarrow> (string \<times> string) list \<Rightarrow> string list \<Rightarrow> kversion" where
  "sample_version_row v i par title crumbs search = \<lparr>verId = v, verPage = i, verNo = 1, verTitle = title,
     verContent = sample_doc_node, verText = [], verHash = ''hash'', verTags = [],
     verBreadcrumb = (sample_space, ''Docs'') # crumbs,
     verAccess = [[\<lparr>subjectType = USER, subjectId = Some sample_user, accessLevel = FULL_ACCESS\<rparr>]],
     verSearch = js_join [CHR 0x0A] search, verMode = RICH_TEXT, verDescription = [], verSpace = sample_space,
     verParent = par, verFolder = None, verBy = Some sample_user\<rparr>"

definition sample_audit :: "string \<Rightarrow> string \<Rightarrow> string \<Rightarrow> kaudit" where
  "sample_audit r i what = \<lparr>auActor = Some sample_user, auResource = r, auRecord = Some i, auAction = ''knowledge.'' @ what\<rparr>"

definition sample_kb :: kb where
  "sample_kb = \<lparr>
     spaces = [\<lparr>spId = sample_space, spCode = ''SPACE_0000000000004000800000000000000a'', spName = ''Docs'',
       spDescription = [], spIcon = ''book'', spSort = 10, spStatus = SpaceActive, spVersion = 2,
       spCreatedBy = Some sample_user\<rparr>],
     pages = [sample_page_row sample_page None ''A'' ''v1'' True 3 [''A'', [], [], ''Docs''],
       sample_page_row sample_child (Some sample_page) ''B'' ''v2'' False 2 [''B'', [], [], ''Docs'', ''A'']],
     versions = [sample_version_row ''v1'' sample_page None ''A'' [(sample_page, ''A'')] [''A'', [], ''Docs'', ''A''],
       sample_version_row ''v2'' sample_child (Some sample_page) ''B'' [(sample_page, ''A''), (sample_child, ''B'')]
         [''B'', [], ''Docs'', ''A'', ''B'']],
     folders = [\<lparr>fdId = sample_folder, fdSpace = sample_space, fdParent = None, fdName = ''F'', fdSort = 0,
       fdActive = True, fdVersion = 1\<rparr>],
     spaceAccess = [(sample_space, \<lparr>subjectType = EVERYONE, subjectId = None, accessLevel = EDITOR\<rparr>)],
     pageAccess = [(sample_page, \<lparr>subjectType = USER, subjectId = Some sample_member_id, accessLevel = EDITOR\<rparr>)],
     pageTags = [], tagNames = [], files = [], pageFiles = [], versionFiles = [], previews = [], uploads = [], cleanup = [],
     audits = [sample_audit ''knowledge-spaces'' sample_space ''space.created'',
       sample_audit ''knowledge-folders'' sample_folder ''folder.created'',
       sample_audit ''knowledge-pages'' sample_page ''page.created'',
       sample_audit ''knowledge-pages'' sample_child ''page.created'',
       sample_audit ''knowledge-pages'' sample_page ''page.published'',
       sample_audit ''knowledge-pages'' sample_child ''page.published'',
       sample_audit ''knowledge-spaces'' sample_space ''space.access_changed'',
       sample_audit ''knowledge-pages'' sample_page ''page.access_changed''],
     directory = sample_directory\<rparr>"

lemma sample_runs: "runs sample_env sample_admin sample_commands (kb_empty sample_directory) = Inr sample_kb"
  by code_simp

lemma sample_reach: "kb_reach sample_env (sample_kb, [])"
  by (rule runs_reach[OF reach_start sample_runs])

end
