(* ===== verification/KnowledgeLaws.thy ===== *)
theory KnowledgeLaws
  imports KnowledgeVersions KnowledgePublication KnowledgeAccess KnowledgeFolderTree KnowledgeSample
begin

text \<open>
  The properties of the knowledge base: what holds in every state its commands, uploads,
  clean-up runs and preview worker reach, and what single commands do there.
\<close>

section \<open>Every reachable state\<close>

text \<open>C1: in every state the knowledge base can reach, page ids are distinct; a page's parent is
  a page of the same space; no chain of parents leads back to its start; a page below a trashed
  one is trashed; a published or archived page has the version it was published as; and no page
  has two versions of one number.\<close>

theorem kb_tree_invariant:
  assumes "kb_reach env (db, st)"
  shows "distinct (map pgId (pages db)) \<and>
    (\<forall>p \<in> set (pages db). \<forall>k. pgParent p = Some k \<longrightarrow> (\<exists>q \<in> set (pages db). pgId q = k \<and> pgSpace q = pgSpace p)) \<and>
    acyclic {(pgId p, k) | p k. p \<in> set (pages db) \<and> pgParent p = Some k} \<and>
    (\<forall>p \<in> set (pages db). \<forall>q \<in> set (pages db).
       pgParent p = Some (pgId q) \<longrightarrow> pgStatus q = PageTrashed \<longrightarrow> pgStatus p = PageTrashed) \<and>
    (\<forall>p \<in> set (pages db). pgStatus p \<in> {PagePublished, PageArchived} \<longrightarrow>
       (\<exists>v \<in> set (versions db). pgPublished p = Some (verId v) \<and> verPage v = pgId p)) \<and>
    distinct (map (\<lambda>v. (verPage v, verNo v)) (versions db))"
proof -
  have ok: "kb_ok db" using kb_reach_ok[OF assms] by simp
  then have parts: "places_ok (tree_of db)" "trash_closed (tree_of db)" "versions_ok (tree_of db)"
    by (simp_all add: kb_ok_def tree_ok_def trash_ok_def)
  have rel: "{(pgId p, k) | p k. p \<in> set (pages db) \<and> pgParent p = Some k} = up_rel (tree_of db)"
    unfolding up_rel_pages key_rel_def by auto
  have "\<exists>v \<in> set (versions db). pgPublished p = Some (verId v) \<and> verPage v = pgId p"
    if "p \<in> set (pages db)" "pgStatus p \<in> {PagePublished, PageArchived}" for p
    using parts(3) that by (fastforce simp: versions_ok_def)
  moreover have "distinct (map (\<lambda>v. (verPage v, verNo v)) (versions db))"
    using parts(3) by (simp add: versions_ok_def comp_def)
  ultimately show ?thesis
    unfolding rel using parts(1,2) by (simp add: places_ok_def trash_closed_def comp_def)
qed

theorem kb_tree_invariant_witness:
  "acyclic {(pgId p, k) | p k. p \<in> set (pages sample_kb) \<and> pgParent p = Some k}"
  using kb_tree_invariant[OF sample_reach] by blast

text \<open>C2: every command that succeeds is one step of the abstract page tree (or leaves it as it
  is): creating, publishing, moving, archiving, trashing, restoring and purging do to the tables
  what the tree's rules say, for any actor and any input.\<close>

theorem kb_command_refines_tree:
  assumes "kb_reach env (db, st)" and "fresh_ids c db" and "run env a c db = Inr (r, db')"
  shows "tree_step (tree_of db) (tree_of db')"
  using run_tree_step[OF _ assms(2,3)] kb_reach_ok[OF assms(1)] by simp

lemma sample_trash: "isOk (run sample_env sample_admin (Transition ''b1'' sample_page Trash (at_version 3 [])) sample_kb)"
  by code_simp

lemma sample_batch: "fresh_ids (Transition ''b1'' sample_page Trash (at_version 3 [])) sample_kb"
  by code_simp

theorem kb_command_refines_tree_witness:
  "\<exists>r db'. run sample_env sample_admin (Transition ''b1'' sample_page Trash (at_version 3 [])) sample_kb = Inr (r, db') \<and>
     tree_step (tree_of sample_kb) (tree_of db')"
  using sample_trash kb_command_refines_tree[OF sample_reach sample_batch] by (fastforce simp: isOk_iff)

section \<open>Objects of the storage\<close>

definition storage_sweep :: "kb_env \<Rightarrow> kb \<times> string list \<Rightarrow> kb \<times> string list" where
  "storage_sweep env s = retryStorageCleanup env True (\<lambda>_. True) (fst s) (snd s)"

definition left_over :: "kb_env \<Rightarrow> kb \<times> string list \<Rightarrow> nat" where
  "left_over env s = length (cleanup (fst s)) + length (unknown_objects env (fst s) (snd s))"

lemma cleanup_loop_all:
  "cleanup_loop (\<lambda>_. True) cs (queue, st) =
    (filter (\<lambda>x. clKey x \<notin> clKey ` set cs) queue, filter (\<lambda>k. k \<notin> clKey ` set cs) st)"
  by (induction cs arbitrary: queue st) (auto simp: drop_object_def intro!: filter_cong)

lemma filter_first_entries:
  "length (filter (\<lambda>x. clKey x \<notin> clKey ` set (take n queue)) queue) \<le> length queue - n"
proof -
  let ?P = "\<lambda>x. clKey x \<notin> clKey ` set (take n queue)"
  have "filter ?P queue = filter ?P (take n queue) @ filter ?P (drop n queue)"
    by (metis append_take_drop_id filter_append)
  also have "filter ?P (take n queue) = []" by (auto simp: filter_empty_conv)
  finally show ?thesis using length_filter_le[of ?P "drop n queue"] by simp
qed

lemma admin_entry [simp]: "own_entry cleanup_actor c"
  by (simp add: own_entry_def cleanup_actor_def knowledgeAdministrator_def)

text \<open>One sweep: the queue after listing, and what the deletion of its first hundred leaves.\<close>

definition listed :: "kb_env \<Rightarrow> kb \<times> string list \<Rightarrow> kcleanup list" where
  "listed env s = cleanup (enqueueCleanup cleanup_actor (unknown_objects env (fst s) (snd s)) (fst s))"

lemma listed_keys: "clKey ` set (listed env s) = clKey ` set (cleanup (fst s)) \<union> set (unknown_objects env (fst s) (snd s))"
  by (auto simp: listed_def enqueueCleanup_def image_Un image_image)

lemma length_listed: "length (listed env s) \<le> left_over env s"
  unfolding listed_def left_over_def enqueueCleanup_def
  by (simp add: order_trans[OF length_filter_le length_js_dedup_le])

lemma sweep_rows:
  "files (fst (storage_sweep env s)) = files (fst s)"
  "cleanup (fst (storage_sweep env s)) = filter (\<lambda>x. clKey x \<notin> clKey ` set (take 100 (listed env s))) (listed env s)"
  "snd (storage_sweep env s) = filter (\<lambda>k. k \<notin> clKey ` set (take 100 (listed env s))) (snd s)"
proof -
  let ?db = "snd (reconcileStorageOrphans env True cleanup_actor (fst s) (snd s))"
  have db: "cleanup ?db = listed env s" "files ?db = files (fst s)"
    by (auto simp: reconcileStorageOrphans_def listed_def cleanup_actor_def knowledgeAdministrator_def Let_def
        enqueueCleanup_def js_dedup_def)
  then show "files (fst (storage_sweep env s)) = files (fst s)"
    "cleanup (fst (storage_sweep env s)) = filter (\<lambda>x. clKey x \<notin> clKey ` set (take 100 (listed env s))) (listed env s)"
    "snd (storage_sweep env s) = filter (\<lambda>k. k \<notin> clKey ` set (take 100 (listed env s))) (snd s)"
    by (simp_all add: storage_sweep_def retryStorageCleanup_def processCleanup_def Let_def cleanup_loop_all)
qed

lemma sweep_left: "left_over env (storage_sweep env s) \<le> left_over env s - 100"
proof -
  let ?s = "storage_sweep env s"
  have "k \<in> clKey ` set (cleanup (fst ?s)) \<union> flKey ` set (files (fst ?s))"
    if "k \<in> set (snd ?s)" "take (length (object_prefix env)) k = object_prefix env" for k
  proof -
    have k: "k \<in> set (snd s)" "k \<notin> clKey ` set (take 100 (listed env s))"
      using that(1) unfolding sweep_rows by simp_all
    have "k \<in> clKey ` set (listed env s) \<union> flKey ` set (files (fst s))"
      unfolding listed_keys using k(1) that(2) by (auto simp: unknown_objects_def known_keys_def)
    then show ?thesis using k(2) unfolding sweep_rows by auto
  qed
  then have "unknown_objects env (fst ?s) (snd ?s) = []"
    unfolding unknown_objects_def filter_empty_conv set_js_dedup known_keys_def set_append set_map by blast
  then have "left_over env ?s = length (filter (\<lambda>x. clKey x \<notin> clKey ` set (take 100 (listed env s))) (listed env s))"
    unfolding left_over_def sweep_rows(2) by simp
  also have "\<dots> \<le> left_over env s - 100"
    using filter_first_entries[of 100 "listed env s"] length_listed[of env s] by linarith
  finally show ?thesis .
qed

lemma sweeps_left: "left_over env ((storage_sweep env ^^ n) s) \<le> left_over env s - 100 * n"
proof (induction n)
  case (Suc n)
  then show ?case using sweep_left[of env "(storage_sweep env ^^ n) s"] by simp
qed simp

lemma sweep_step: "kb_step env s (storage_sweep env s)"
proof -
  obtain db st where s: "s = (db, st)" by (cases s)
  obtain db' st' where r: "retryStorageCleanup env True (\<lambda>_. True) db st = (db', st')" by fastforce
  then show ?thesis by (simp add: s storage_sweep_def step_retry_cleanup[OF r])
qed

lemma sweeps_reach: "kb_reach env s \<Longrightarrow> kb_reach env ((storage_sweep env ^^ n) s)"
proof (induction n)
  case (Suc n)
  then show ?case using reach_step[OF Suc.IH sweep_step] by simp
qed simp

text \<open>C3: in every reachable state the stored object of every file row exists and is not queued
  for deletion, whatever uploads failed half way, whatever the storage refused to delete and
  whatever the preview worker did.\<close>

theorem kb_files_stored:
  assumes "kb_reach env (db, st)" and "f \<in> set (files db)"
  shows "flKey f \<in> set st \<and> flKey f \<notin> clKey ` set (cleanup db)"
  using kb_reach_storage[OF assms(1)] assms(2) by (simp add: storage_ok_def objects_ok_def)

text \<open>C4: the clean-up catches up: when the storage works, enough sweeps (one for every hundred
  queued or unknown objects) empty the deletion queue, and then the objects under the tenant's
  prefix are exactly those of the file rows.\<close>

theorem storage_cleanup_catches_up:
  assumes "kb_reach env s" and "left_over env s \<le> 100 * n"
  shows "(storage_sweep env ^^ n) s = (db, st) \<Longrightarrow>
    cleanup db = [] \<and> {k \<in> set st. take (length (object_prefix env)) k = object_prefix env} = flKey ` set (files db)"
proof -
  assume s: "(storage_sweep env ^^ n) s = (db, st)"
  have none: "cleanup db = []" "unknown_objects env db st = []"
    using sweeps_left[of env n s] assms(2) unfolding s by (simp_all add: left_over_def)
  have ok: "storage_ok env (db, st)" using kb_reach_storage[OF sweeps_reach[OF assms(1), of n]] unfolding s .
  have "take (length (object_prefix env)) (flKey f) = object_prefix env" if "f \<in> set (files db)" for f
    using ok that by (fastforce simp: storage_ok_def file_keys_ok_def object_key_def)
  then have "flKey ` set (files db) \<subseteq> {k \<in> set st. take (length (object_prefix env)) k = object_prefix env}"
    using ok by (auto simp: storage_ok_def objects_ok_def)
  moreover have "{k \<in> set st. take (length (object_prefix env)) k = object_prefix env} \<subseteq> flKey ` set (files db)"
    using none by (auto simp: unknown_objects_def known_keys_def filter_empty_conv)
  ultimately show ?thesis using none(1) by blast
qed

section \<open>Trash and restore\<close>

lemma transition_effect:
  assumes "transitionPage env b i k input a db = Inr (q, db')"
  obtains row where "row \<in> set (pages db)" and "pgId row = dbid i"
    and "(pgStatus row = PageTrashed) = (k = Restore)"
    and "db' = add_audit a ''knowledge-pages'' (Some (pgId row)) (transition_verb k)
      (transition_all k b (map pgId (transition_targets k row (page_descendants db (pgId row)))) db)"
proof -
  show thesis
    using assms unfolding transitionPage_def Let_def
  proof (elim bindE_InrE, goal_cases)
    case (1 kvs u row)
    have "(pgStatus row = PageTrashed) = (k = Restore)"
      using 1(3) lockPage_trashed lockPage_live by (auto simp: transition_mode_def split: if_splits)
    then show thesis using that 1 lockPage_row[OF 1(3)] by auto
  qed
qed

lemma live_unmarked:
  assumes "kb_ok db" and "p \<in> set (pages db)" and "pgStatus p \<noteq> PageTrashed"
  shows "pgBefore p = None" and "pgBatch p = None"
proof -
  have "node_ok (node p)" using assms(1,2) by (simp add: kb_ok_def tree_ok_def trash_ok_def)
  then show "pgBefore p = None" "pgBatch p = None" using assms(3) by (auto simp: node_ok_def)
qed

lemma restore_trashed:
  assumes "pgStatus p \<noteq> PageTrashed" and "pgBefore p = None" and "pgBatch p = None"
  shows "transition_row Restore b' (transition_row Trash b p) = p\<lparr>pgVersion := pgVersion p + 2\<rparr>"
  using assms by (cases p) (simp add: transition_row_def Let_def)

text \<open>C6: restoring a page just moved to the trash brings its whole subtree back as it was: after
  trash and restore (of any actors, with any inputs) every page is as before but for its version
  number, and no other table has changed but the audit trail.\<close>

theorem trash_restore_roundtrip:
  assumes reach: "kb_reach env (db, st)" and fresh: "fresh_ids (Transition b i Trash input) db"
    and trash: "run env a (Transition b i Trash input) db = Inr (q, db1)"
    and restore: "run env a' (Transition b' i Restore input') db1 = Inr (q', db2)"
  shows "map (\<lambda>p. p\<lparr>pgVersion := 0\<rparr>) (pages db2) = map (\<lambda>p. p\<lparr>pgVersion := 0\<rparr>) (pages db) \<and>
    db2\<lparr>pages := [], audits := []\<rparr> = db\<lparr>pages := [], audits := []\<rparr>"
proof -
  have ok: "kb_ok db" using kb_reach_ok[OF reach] by simp
  have ok1: "kb_ok db1" by (rule run_kb_ok[OF ok fresh trash])
  obtain row where row: "row \<in> set (pages db)" "pgId row = dbid i" "pgStatus row \<noteq> PageTrashed"
    and db1: "db1 = add_audit a ''knowledge-pages'' (Some (pgId row)) (transition_verb Trash)
      (transition_all Trash b (map pgId (transition_targets Trash row (page_descendants db (pgId row)))) db)"
    using transition_effect[OF trash[unfolded run.simps]] by (metis transition_kind.distinct(12))
  obtain row1 where row1: "row1 \<in> set (pages db1)" "pgId row1 = dbid i" "pgStatus row1 = PageTrashed"
    and db2: "db2 = add_audit a' ''knowledge-pages'' (Some (pgId row1)) (transition_verb Restore)
      (transition_all Restore b' (map pgId (transition_targets Restore row1 (page_descendants db1 (pgId row1)))) db1)"
    using transition_effect[OF restore[unfolded run.simps]] by metis
  have rest: "db2\<lparr>pages := [], audits := []\<rparr> = db\<lparr>pages := [], audits := []\<rparr>"
    unfolding db2 db1 by (simp add: add_audit_def transition_all_def)
  define ids where "ids = set (map pgId (transition_targets Trash row (page_descendants db (pgId row))))"
  define f where "f = (\<lambda>p. if pgId p \<in> ids then transition_row Trash b p else p)"
  have pages1: "pages db1 = map f (pages db)" unfolding db1 by (simp add: transition_all_def f_def ids_def)
  have f: "pgId (f p) = pgId p" "pgParent (f p) = pgParent p" for p
    by (simp_all add: f_def transition_row_def Let_def)
  have rel: "up_rel (tree_of db1) = up_rel (tree_of db)"
    unfolding up_rel_pages pages1 by (rule key_rel_map) (simp add: f)
  have ids: "pgId p \<in> ids \<longleftrightarrow> in_subtree (tree_of db) (dbid i) (node p) \<and> pgStatus p \<noteq> PageTrashed"
    if "p \<in> set (pages db)" for p
    using target_ids[OF ok row(1) that] unfolding ids_def transition_targets_def row(2) by simp
  obtain p0 where p0: "p0 \<in> set (pages db)" "row1 = f p0" using row1(1) unfolding pages1 by auto
  have "p0 = row" using kb_ok_same[OF ok p0(1) row(1)] p0(2) row(2) row1(2) f(1) by simp
  then have row1_eq: "row1 = f row" using p0(2) by simp
  have below1: "pgId p \<in> set (map pgId (transition_targets Restore row1 (page_descendants db1 (pgId row1)))) \<longleftrightarrow>
      in_subtree (tree_of db) (dbid i) (node p) \<and> pgStatus (f p) = PageTrashed \<and> pgBatch (f p) = pgBatch row1"
    if p: "p \<in> set (pages db)" for p
  proof -
    have "f p \<in> set (pages db1)" using p unfolding pages1 by simp
    from target_ids[OF ok1 row1(1) this] show ?thesis
      unfolding transition_targets_def row1(2) in_subtree_def rel by (simp add: f)
  qed
  have batch: "pgBatch p \<noteq> Some b" if "p \<in> set (pages db)" for p using fresh that by (force simp: image_iff)
  have "row \<in> set (pages db)" "pgId row \<in> ids"
    using row ids[OF row(1)] by (simp_all add: in_subtree_def)
  then have row1_batch: "pgBatch row1 = Some b" unfolding row1_eq f_def by (simp add: transition_row_def)
  have again: "pgId p \<in> set (map pgId (transition_targets Restore row1 (page_descendants db1 (pgId row1)))) \<longleftrightarrow> pgId p \<in> ids"
    if p: "p \<in> set (pages db)" for p
    unfolding below1[OF p] row1_batch using batch[OF p] ids[OF p] by (auto simp: f_def transition_row_def)
  have "pages db2 = map (\<lambda>p. if pgId p \<in> ids then transition_row Restore b' (f p) else f p) (pages db)"
    unfolding db2 by (simp add: transition_all_def pages1 f) (use again in simp)
  also have "\<dots> = map (\<lambda>p. if pgId p \<in> ids then p\<lparr>pgVersion := pgVersion p + 2\<rparr> else p) (pages db)"
    using ids live_unmarked[OF ok] restore_trashed by (intro map_cong refl) (auto simp: f_def)
  finally show ?thesis using rest by simp
qed

section \<open>Publishing\<close>

text \<open>C7: publishing leaves nothing unpublished: the page is then PUBLISHED with the new version, and
  the comparison the list view makes (place, title, text, description, mode, tags, attachments)
  finds no difference from it.\<close>

theorem publish_leaves_no_changes:
  assumes reach: "kb_reach env (db, st)" and fresh: "vid \<notin> verId ` set (versions db)"
    and pub: "publish env vid i input a db = Inr (q, db')"
  shows "\<exists>p \<in> set (pages db'). pgId p = dbid i \<and> pgStatus p = PagePublished \<and> pgPublished p = Some vid \<and>
    \<not> knowledgeUnpublishedChanges db' p"
proof (rule publish_effect[OF pub])
  fix row canon hsh x
  let ?ver = "publish_version db a vid i row canon hsh (ancestors db WorkingMode (pgId row))"
  let ?p = "row\<lparr>pgStatus := PagePublished, pgPublished := Some vid, pgVersion := pgVersion row + 1, pgSearch := x\<rparr>"
  assume row: "row \<in> set (pages db)" "pgId row = dbid i" and p: "?p \<in> set (pages db')"
    and canon: "canonicalKnowledgeContent (env_host env) (node_json (pgContent row)) = Inr canon"
    and vs: "versions db' = versions db @ [?ver]"
    and ls: "versionFiles db' = versionFiles db @
      map (\<lambda>(pg, fl, role). (pg, vid, fl, role)) (filter (\<lambda>(pg, _). pg = pgId row) (pageFiles db))"
    and same: "pageFiles db' = pageFiles db" "pageTags db' = pageTags db"
  have content: "docContent canon = pgContent row"
    using canonical_same[OF canon] kb_reach_contents[OF reach] row(1) by (auto simp: contents_valid_def list_all_iff)
  have "find (\<lambda>v. verId v = vid \<and> verPage v = pgId row) (versions db @ [?ver]) = Some ?ver"
    by (rule find_append_new) (use fresh in auto)
  then have version: "published_version db' ?p = Some ?ver" by (simp add: published_version_def vs)
  have "w \<noteq> vid" if "(pg, w, l) \<in> set (versionFiles db)" for pg w l
    using kb_reach_pub[OF reach] that fresh by (force simp: pub_ok_def)
  then have old: "filter (\<lambda>(pg, w, _). pg = pgId row \<and> w = vid) (versionFiles db) = []" by (auto simp: filter_empty_conv)
  have "set (version_links db' (pgId row) vid) = set (working_links db' (pgId row))"
    unfolding version_links_def working_links_def ls same filter_append old by force
  then have "same_links (working_links db' (pgId row)) (version_links db' (pgId row) vid)" by (simp add: same_links_def)
  then have "\<not> knowledgeUnpublishedChanges db' ?p"
    unfolding knowledgeUnpublishedChanges_def version option.case
    by (simp add: publish_version_def content page_tag_names_def same Let_def)
  then show ?thesis using p row(2) by (intro bexI[of _ ?p]) simp_all
qed

text \<open>C8: what is published stays: one step of anybody keeps the versions of every page that is
  still there, unchanged and in order, with the attachments recorded for them, and appends at
  most one new version.\<close>

theorem published_history_append_only:
  assumes "kb_reach env (db, st)" and "kb_step env (db, st) (db', st')"
  shows "\<exists>new links.
    versions db' = filter (\<lambda>v. verPage v \<in> pgId ` set (pages db')) (versions db) @ new \<and> length new \<le> 1 \<and>
    versionFiles db' = filter (\<lambda>(pg, _). pg \<in> pgId ` set (pages db')) (versionFiles db) @ links"
proof -
  have step: "pub_step db db'" "pub_ok db" using kb_step_pub[OF assms(2)] kb_reach_pub[OF assms(1)] by simp_all
  obtain new where new: "versions db' = filter (\<lambda>v. verPage v \<in> pgId ` set (pages db')) (versions db) @ new" "length new \<le> 1"
    using pub_step_history(1)[OF step] by blast
  obtain links where "versionFiles db' = filter (\<lambda>(pg, _). pg \<in> pgId ` set (pages db')) (versionFiles db) @ links"
    using pub_step_history(2)[OF step] by blast
  with new show ?thesis by (intro exI conjI)
qed

lemma sample_publish: "isOk (publish sample_env ''v3'' sample_page (at_version 3 []) sample_admin sample_kb) \<and>
    ''v3'' \<notin> set (map verId (versions sample_kb))"
  by code_simp

theorem publish_leaves_no_changes_witness:
  "\<exists>db'. \<exists>p \<in> set (pages db'). pgPublished p = Some ''v3'' \<and> \<not> knowledgeUnpublishedChanges db' p"
proof -
  obtain q db' where p: "publish sample_env ''v3'' sample_page (at_version 3 []) sample_admin sample_kb = Inr (q, db')"
    using sample_publish by (auto simp: isOk_iff)
  have "''v3'' \<notin> verId ` set (versions sample_kb)" using sample_publish by auto
  from publish_leaves_no_changes[OF sample_reach this p] show ?thesis by blast
qed

theorem published_history_append_only_witness:
  "\<exists>db'. kb_step sample_env (sample_kb, []) (db', []) \<and>
     (\<exists>new. versions db' = filter (\<lambda>v. verPage v \<in> pgId ` set (pages db')) (versions sample_kb) @ new)"
proof -
  obtain r db' where r: "run sample_env sample_admin (Transition ''b1'' sample_page Trash (at_version 3 [])) sample_kb = Inr (r, db')"
    using sample_trash by (auto simp: isOk_iff)
  have step: "kb_step sample_env (sample_kb, []) (db', [])" by (rule step_run[OF sample_batch r])
  from published_history_append_only[OF sample_reach step] step show ?thesis by blast
qed

section \<open>Access\<close>

text \<open>C11: the SQL test and the rank function agree: an actor reaches level \<open>n\<close> on a page exactly
  when the space's members let them in at that level and no restricted page of the chain keeps
  them out, for every reachable access list.\<close>

theorem effective_rank_is_sql_test:
  assumes "kb_reach env (db, st)" and "\<not> knowledgeAdministrator a" and "0 < n"
  shows "n \<le> effectiveKnowledgeRank (entries_of (spaceAccess db) s)
      (map (\<lambda>c. entries_of (pageAccess db) (pgId c)) (filter pgRestricted (chain db mode p))) m \<longleftrightarrow>
    n \<le> spaceRank db a m s \<and> \<not> list_ex (restriction db a m n) (chain db mode p)"
  using rank_split[OF _ assms(2,3)] kb_reach_acl[OF assms(1)] by simp


text \<open>C9: purging removes exactly the trashed subtree: the pages below the purged one go with all
  their versions and files, all of them were in the trash, the objects of their files are queued
  for deletion, no page left behind is published below one that is gone, and nothing else is
  removed.\<close>

theorem purge_removes_the_subtree:
  assumes reach: "kb_reach env (db, st)" and "purge env i input a db = Inr (key, db')"
    and "gone = {k. (k, dbid i) \<in> {(pgId x, k) | x k. x \<in> set (pages db) \<and> pgParent x = Some k}\<^sup>*}"
  shows "pages db' = filter (\<lambda>p. pgId p \<notin> gone) (pages db) \<and>
    versions db' = filter (\<lambda>v. verPage v \<notin> gone) (versions db) \<and>
    files db' = filter (\<lambda>f. flPage f \<notin> gone) (files db) \<and>
    (\<forall>p \<in> set (pages db). pgId p \<in> gone \<longrightarrow> pgStatus p = PageTrashed) \<and>
    (\<forall>f \<in> set (files db). flPage f \<in> gone \<longrightarrow> flKey f \<in> clKey ` set (cleanup db')) \<and>
    (\<forall>p \<in> set (pages db'). \<forall>v k. published_version db p = Some v \<longrightarrow> verParent v = Some k \<longrightarrow> k \<notin> gone)"
proof -
  let ?R = "{(pgId x, k) | x k. x \<in> set (pages db) \<and> pgParent x = Some k}"
  have ok: "kb_ok db" using kb_reach_ok[OF reach] by simp
  have rel: "?R = up_rel (tree_of db)" unfolding up_rel_pages by (auto simp: key_rel_def)
  obtain row where row: "row \<in> set (pages db)" "pgId row = dbid i"
    and all: "all_visible env db a TrashMode ''delete'' 3 (map pgId (page_descendants db (pgId row))) = Inr True"
    and out: "\<not> published_outside db (map pgId (page_descendants db (pgId row)))"
    and db': "db' = add_audit a ''knowledge-pages'' (Some (pgId row)) ''page.permanently_deleted''
      (enqueueCleanup a (page_objects db (map pgId (page_descendants db (pgId row))))
        (delete_pages (map pgId (page_descendants db (pgId row))) db))"
    using assms(2) unfolding purge_def Let_def by (elim bindE_InrE) (use lockPage_row in fastforce)
  let ?ids = "map pgId (page_descendants db (pgId row))"
  have ids: "pgId p \<in> set ?ids \<longleftrightarrow> pgId p \<in> gone" if "p \<in> set (pages db)" for p
    using subtree_descendants[OF ok row(1) that] unfolding assms(3) mem_Collect_eq rel in_subtree_def row(2) by simp
  have "k \<in> pgId ` set (pages db)" if k: "k \<in> gone" for k
  proof -
    from k have "(k, dbid i) \<in> ?R\<^sup>*" unfolding assms(3) by simp
    then show ?thesis using row(1) row(2)[symmetric] by (cases rule: converse_rtranclE) auto
  qed
  moreover have "set ?ids \<subseteq> pgId ` set (pages db)" using descendants_pages[of db "pgId row"] by auto
  ultimately have gone: "set ?ids = gone" using ids by blast
  have trashed: "pgStatus p = PageTrashed" if "p \<in> set (pages db)" "pgId p \<in> gone" for p
    using all_visible_each[OF ok all descendants_distinct[OF ok] that(1)] that(2) unfolding gone
    by (simp add: visible_def Let_def)
  have queued: "flKey f \<in> clKey ` set (cleanup db')" if "f \<in> set (files db)" "flPage f \<in> gone" for f
  proof -
    have "flKey f \<in> set (page_objects db ?ids)" using that unfolding page_objects_def gone by auto
    then show ?thesis unfolding db'
      by (auto simp: add_audit_def enqueueCleanup_def delete_pages_def image_Un image_image)
  qed
  have rows: "pages db' = filter (\<lambda>p. pgId p \<notin> gone) (pages db)" "versions db' = filter (\<lambda>v. verPage v \<notin> gone) (versions db)"
    "files db' = filter (\<lambda>f. flPage f \<notin> gone) (files db)"
    unfolding gone[symmetric] db' by (simp_all add: add_audit_def enqueueCleanup_def delete_pages_def)
  have parents: "k \<notin> gone" if "p \<in> set (pages db')" "published_version db p = Some v" "verParent v = Some k" for p v k
    using that out unfolding rows(1) published_outside_def gone by (force simp: list_ex_iff)
  show ?thesis using rows trashed queued parents by blast
qed

section \<open>Preview leases\<close>

lemma set_preview_member: "v \<in> set (previews (set_preview job db)) \<longleftrightarrow>
    (v = job \<and> pvId job \<in> pvId ` set (previews db)) \<or> (v \<in> set (previews db) \<and> pvId v \<noteq> pvId job)"
  by (auto simp: set_preview_def intro: rev_image_eqI)

lemma filter_by_id: "distinct (map f xs) \<Longrightarrow> x \<in> set xs \<Longrightarrow> filter (\<lambda>y. f y = f x) xs = [x]"
  by (induction xs) (auto simp: filter_empty_conv, metis image_eqI)

lemma previews_queue [simp]: "previews (queue_key by k db) = previews db" "files (queue_key by k db) = files db"
  by (simp_all add: queue_key_def)

lemma claim_effect:
  assumes "claim env lease now seconds db = Inr (Some job, db')"
  obtains v where "v \<in> set (previews db)" and "job = leased_job env lease (now + seconds) v" and "pvAttempts v < 3"
    and "previews db' = previews (set_preview job db)" and "files db' = files db"
    and "claimable now db v" and "30 \<le> seconds"
  using assms find_Some_mem unfolding claim_def Let_def
  by (fastforce simp: set_preview_def split: if_splits option.splits)

lemma leased_job_simps [simp]:
  "pvId (leased_job env lease t v) = pvId v" "pvLease (leased_job env lease t v) = Some lease"
  "pvStatus (leased_job env lease t v) = PreviewRunning" "pvUntil (leased_job env lease t v) = Some t"
  by (simp_all add: leased_job_def)

lemma completed_is_done: "\<not> may_complete i lease t (completed_job sz err v)"
  by (simp add: may_complete_def completed_job_def)


section \<open>Optimistic locking and folders\<close>


text \<open>the same for spaces and for folders, with their version numbers.\<close>

theorem space_folder_no_lost_update:
  assumes "run env a c db = Inr (q, db1)" and "dbid i' = dbid i" and "asked_version input' = asked_version input"
  shows "(space_edit c = Some (i, input) \<longrightarrow> space_edit c' = Some (i', input') \<longrightarrow>
      steps_keeping env (\<lambda>d. space_ver d (dbid i) \<noteq> None) db1 db2 \<longrightarrow> \<not> isOk (run env a' c' db2)) \<and>
    (folder_edit c = Some (i, input) \<longrightarrow> folder_edit c' = Some (i', input') \<longrightarrow>
      steps_keeping env (\<lambda>d. folder_ver d (dbid i) \<noteq> None) db1 db2 \<longrightarrow> \<not> isOk (run env a' c' db2))"
  using space_rows.no_lost_update[OF _ assms(1) _ _ assms(2,3)] folder_rows.no_lost_update[OF _ assms(1) _ _ assms(2,3)]
  by blast

text \<open>C12: in every reachable state folders have distinct ids, a folder's parent is a folder of the
  same space and is in use if the folder is, no chain of parents closes, and two folders in use
  under one parent have different names (up to case and surrounding spaces).\<close>

theorem folder_tree_invariant:
  assumes "kb_reach env (db, st)"
  shows "distinct (map fdId (folders db)) \<and>
    acyclic {(fdId f, k) | f k. f \<in> set (folders db) \<and> fdParent f = Some k} \<and>
    (\<forall>f \<in> set (folders db). \<forall>k. fdParent f = Some k \<longrightarrow>
       (\<exists>g \<in> set (folders db). fdId g = k \<and> fdSpace g = fdSpace f \<and> (fdActive f \<longrightarrow> fdActive g))) \<and>
    (\<forall>f \<in> set (folders db). \<forall>g \<in> set (folders db). fdActive f \<longrightarrow> fdActive g \<longrightarrow> fdSpace f = fdSpace g \<longrightarrow>
       fdParent f = fdParent g \<longrightarrow> lower (btrim (fdName f)) = lower (btrim (fdName g)) \<longrightarrow> f = g)"
proof -
  have ok: "folders_placed (folders db)" "folders_named (folders db)"
    using kb_reach_folders[OF assms] by (simp_all add: folders_ok_def)
  have rel: "{(fdId f, k) | f k. f \<in> set (folders db) \<and> fdParent f = Some k} = folder_rel (folders db)"
    by (auto simp: key_rel_def)
  have "f = g" if "f \<in> set (folders db)" "g \<in> set (folders db)" "fdActive f" "fdActive g" "same_folder_name f g" for f g
  proof -
    have "fdId f = fdId g" using ok(2) that unfolding folders_named_def by blast
    then show ?thesis using same_key[of fdId "folders db"] ok(1) that(1,2) unfolding folders_placed_def by blast
  qed
  then show ?thesis
    unfolding rel using ok(1) by (simp add: folders_placed_def folder_above_def same_folder_name_def)
qed

section \<open>The properties at work\<close>

theorem folder_tree_invariant_witness: "distinct (map fdId (folders sample_kb))"
  using folder_tree_invariant[OF sample_reach] by blast

lemma sample_update: "isOk (run sample_env sample_admin (UpdatePage sample_page (at_version 3 [])) sample_kb)"
  by code_simp

lemma sample_update_space: "isOk (run sample_env sample_admin (UpdateSpace sample_space (at_version 2 [])) sample_kb)"
  by code_simp

definition sample_edited :: "command \<Rightarrow> kb" where
  "sample_edited c = after (run sample_env sample_admin c sample_kb) sample_kb"

lemma sample_edited_run: "isOk (run sample_env sample_admin c sample_kb) \<Longrightarrow>
    \<exists>q. run sample_env sample_admin c sample_kb = Inr (q, sample_edited c)"
  by (auto simp: isOk_iff sample_edited_def)

lemma sample_edited_there:
  "page_ver (sample_edited (UpdatePage sample_page (at_version 3 []))) (dbid sample_page) \<noteq> None"
  "space_ver (sample_edited (UpdateSpace sample_space (at_version 2 []))) (dbid sample_space) \<noteq> None"
  by code_simp+


theorem space_folder_no_lost_update_witness:
  "\<not> isOk (run sample_env sample_member (ArchiveSpace sample_space (at_version 2 []))
     (sample_edited (UpdateSpace sample_space (at_version 2 []))))"
proof -
  obtain q where q: "run sample_env sample_admin (UpdateSpace sample_space (at_version 2 [])) sample_kb =
      Inr (q, sample_edited (UpdateSpace sample_space (at_version 2 [])))"
    using sample_edited_run[OF sample_update_space] by blast
  show ?thesis
    by (rule space_folder_no_lost_update[OF q refl refl, THEN conjunct1, rule_format,
          OF space_edit.simps(1) space_edit.simps(2) keep_start]) (rule sample_edited_there)
qed

section \<open>Trash and purge at work\<close>

definition sample_trash_command :: command where
  "sample_trash_command = Transition ''b1'' sample_page Trash (at_version 3 [])"

definition sample_restore_command :: command where
  "sample_restore_command = Transition ''b2'' sample_page Restore (at_version 4 [])"

lemma sample_turns:
  "isOk (run sample_env sample_admin sample_restore_command (sample_edited sample_trash_command))"
  "isOk (purge sample_env sample_page (at_version 4 []) sample_admin (sample_edited sample_trash_command))"
  by code_simp+

lemma sample_trash_run: "\<exists>q. run sample_env sample_admin sample_trash_command sample_kb = Inr (q, sample_edited sample_trash_command)"
  using sample_trash by (intro sample_edited_run) (simp add: sample_trash_command_def)

lemma sample_trash_reach: "kb_reach sample_env (sample_edited sample_trash_command, [])"
proof -
  obtain q where "run sample_env sample_admin sample_trash_command sample_kb = Inr (q, sample_edited sample_trash_command)"
    using sample_trash_run by blast
  moreover have "fresh_ids sample_trash_command sample_kb" using sample_batch unfolding sample_trash_command_def .
  ultimately show ?thesis using reach_step[OF sample_reach] step_run by blast
qed

theorem trash_restore_roundtrip_witness:
  "\<exists>db2. map (\<lambda>p. p\<lparr>pgVersion := 0\<rparr>) (pages db2) = map (\<lambda>p. p\<lparr>pgVersion := 0\<rparr>) (pages sample_kb) \<and>
    db2\<lparr>pages := [], audits := []\<rparr> = sample_kb\<lparr>pages := [], audits := []\<rparr>"
proof -
  obtain q where q: "run sample_env sample_admin sample_trash_command sample_kb = Inr (q, sample_edited sample_trash_command)"
    using sample_trash_run by blast
  obtain q2 db2 where q2: "run sample_env sample_admin sample_restore_command (sample_edited sample_trash_command) = Inr (q2, db2)"
    using sample_turns(1) by (auto simp: isOk_iff)
  from trash_restore_roundtrip[OF sample_reach sample_batch q[unfolded sample_trash_command_def]
      q2[unfolded sample_restore_command_def sample_trash_command_def]]
  show ?thesis by (rule exI)
qed

theorem purge_removes_the_subtree_witness:
  "\<exists>gone (db' :: kb). pages db' = filter (\<lambda>p. pgId p \<notin> gone) (pages (sample_edited sample_trash_command))"
proof -
  obtain key db' where p: "purge sample_env sample_page (at_version 4 []) sample_admin (sample_edited sample_trash_command) = Inr (key, db')"
    using sample_turns(2) by (auto simp: isOk_iff)
  note purged = purge_removes_the_subtree[OF sample_trash_reach p refl]
  show ?thesis by (rule exI, rule exI, rule conjunct1, rule purged)
qed

section \<open>Access at work\<close>

lemma sample_member_sees:
  "visible sample_env sample_kb sample_member WorkingMode ''update'' 2 (sample_page_row sample_child (Some sample_page) ''B'' ''v2'' False 2 [''B'', [], [], ''Docs'', ''A''])"
  "\<not> knowledgeAdministrator sample_member"
  by code_simp+

theorem effective_rank_is_sql_test_witness:
  "2 \<le> spaceRank sample_kb sample_member (membership (directory sample_kb) sample_member) sample_space \<and>
    \<not> list_ex (restriction sample_kb sample_member (membership (directory sample_kb) sample_member) 2)
        (chain sample_kb WorkingMode (hd (pages sample_kb)))"
proof -
  have "2 \<le> effectiveKnowledgeRank (entries_of (spaceAccess sample_kb) sample_space)
      (map (\<lambda>c. entries_of (pageAccess sample_kb) (pgId c)) (filter pgRestricted (chain sample_kb WorkingMode (hd (pages sample_kb)))))
      (membership (directory sample_kb) sample_member)" by code_simp
  then show ?thesis using effective_rank_is_sql_test[OF sample_reach sample_member_sees(2), of 2] by simp
qed


section \<open>Files and previews at work\<close>

definition sample_meta :: file_meta where
  "sample_meta = \<lparr>metaName = ''plan.doc'', metaType = ''application/msword'', metaSize = 10, metaSha = ''sha''\<rparr>"

definition sample_upload :: "bool \<Rightarrow> (string \<times> nat) stored_result" where
  "sample_upload ok = upload sample_env \<lparr>put_ok = True, db_ok = ok, del_ok = False\<rparr> ''f1'' ''j1'' sample_child (at_version 2 [])
     (Inr sample_meta) sample_admin sample_kb []"

definition sample_files :: kb where
  "sample_files = after (fst (sample_upload True)) sample_kb"

lemma sample_no_files: "files sample_kb = []" "cleanup sample_kb = []"
  by (simp_all add: sample_kb_def)

lemma sample_upload_reach: "kb_reach sample_env (after (fst (sample_upload ok)) sample_kb, snd (sample_upload ok))"
proof -
  have fresh: "fresh_object sample_env ''f1'' sample_kb []" by (simp add: fresh_object_def sample_no_files)
  obtain res st where u: "sample_upload ok = (res, st)" by (cases "sample_upload ok")
  show ?thesis
    unfolding u using reach_step[OF sample_reach step_upload[OF fresh u[unfolded sample_upload_def]]] by simp
qed

lemma sample_file_there: "files sample_files \<noteq> []"
  by code_simp

theorem kb_files_stored_witness:
  "\<exists>f \<in> set (files sample_files). flKey f \<in> set (snd (sample_upload True)) \<and> flKey f \<notin> clKey ` set (cleanup sample_files)"
proof -
  obtain f where f: "f \<in> set (files sample_files)" using sample_file_there by (meson list.set_sel(1))
  then have "f \<in> set (files (after (fst (sample_upload True)) sample_kb))" unfolding sample_files_def .
  from kb_files_stored[OF sample_upload_reach this] f show ?thesis unfolding sample_files_def by blast
qed

lemma sample_left: "left_over sample_env (after (fst (sample_upload False)) sample_kb, snd (sample_upload False)) = 1"
  by code_simp

theorem storage_cleanup_catches_up_witness:
  "cleanup (fst ((storage_sweep sample_env ^^ 1) (after (fst (sample_upload False)) sample_kb, snd (sample_upload False)))) = []"
proof -
  let ?s = "(after (fst (sample_upload False)) sample_kb, snd (sample_upload False))"
  obtain db st where s: "(storage_sweep sample_env ^^ 1) ?s = (db, st)" by fastforce
  have "left_over sample_env ?s \<le> 100 * 1" unfolding sample_left by simp
  from storage_cleanup_catches_up[OF sample_upload_reach this s] show ?thesis unfolding s by simp
qed

lemma sample_claim: "case claim sample_env ''lease'' 0 60 sample_files of Inr (Some job, db') \<Rightarrow> True | _ \<Rightarrow> False"
  by code_simp

lemma sample_jobs: "distinct (map pvId (previews sample_files))"
  by code_simp


end
