(* ===== verification/Calendar.thy ===== *)
theory Calendar
  imports JsValues
begin

text \<open>
  Calendar days as the code handles them: a JavaScript \<open>Date\<close> at midnight UTC is a day number
  (\<open>day_no\<close>, counted from the first day of year 0), \<open>Date.UTC\<close> normalises months beyond
  the year (\<open>utc\<close>), and \<open>toISOString().slice(0, 10)\<close> is \<open>iso_text\<close>.  Day numbers and
  dates correspond one to one, and for four-digit years the order of the texts is the order of the
  days, which is what the code's string comparisons rely on.
\<close>

section \<open>Days and dates\<close>

type_synonym date = "nat \<times> nat \<times> nat"

definition leap :: "nat \<Rightarrow> bool" where
  "leap y \<longleftrightarrow> y mod 4 = 0 \<and> (y mod 100 \<noteq> 0 \<or> y mod 400 = 0)"

definition month_len :: "nat \<Rightarrow> nat \<Rightarrow> nat" where
  "month_len y m = (if m = 2 then (if leap y then 29 else 28) else if m \<in> set [4, 6, 9, 11] then 30 else 31)"

fun year_start :: "nat \<Rightarrow> nat" where
  "year_start 0 = 0"
| "year_start (Suc y) = year_start y + (if leap y then 366 else 365)"

fun month_start :: "nat \<Rightarrow> nat \<Rightarrow> nat" where
  "month_start y 0 = 0"
| "month_start y (Suc m) = (if m = 0 then 0 else month_start y m + month_len y m)"

definition valid_date :: "date \<Rightarrow> bool" where
  "valid_date = (\<lambda>(y, m, d). 1 \<le> m \<and> m \<le> 12 \<and> 1 \<le> d \<and> d \<le> month_len y m)"

definition day_no :: "date \<Rightarrow> nat" where
  "day_no = (\<lambda>(y, m, d). year_start y + month_start y m + d - 1)"

fun split_year :: "nat \<Rightarrow> nat \<Rightarrow> nat \<times> nat" where
  "split_year y n = (let len = (if leap y then 366 else 365) in if n < len then (y, n) else split_year (Suc y) (n - len))"

declare split_year.simps [simp del]

definition split_month :: "nat \<Rightarrow> nat \<Rightarrow> nat \<times> nat" where
  "split_month y n = (case find (\<lambda>m. n < month_start y (Suc m)) [1..<13] of
     Some m \<Rightarrow> (m, n - month_start y m + 1) | None \<Rightarrow> (12, n - month_start y 12 + 1))"

definition date_of :: "nat \<Rightarrow> date" where
  "date_of n = (let (y, k) = split_year 0 n in (y, split_month y k))"

lemma month_starts:
  "month_start y 1 = 0" "month_start y 2 = 31"
  "month_start y 3 = 31 + month_len y 2" "month_start y 4 = 62 + month_len y 2"
  "month_start y 5 = 92 + month_len y 2" "month_start y 6 = 123 + month_len y 2"
  "month_start y 7 = 153 + month_len y 2" "month_start y 8 = 184 + month_len y 2"
  "month_start y 9 = 215 + month_len y 2" "month_start y 10 = 245 + month_len y 2"
  "month_start y 11 = 276 + month_len y 2" "month_start y 12 = 306 + month_len y 2"
  "month_start y 13 = 337 + month_len y 2"
  by (simp_all add: eval_nat_numeral month_len_def)

lemma year_ends: "month_start y 13 = (if leap y then 366 else 365)"
  by (simp add: month_starts month_len_def)

lemma month_start_mono: "m \<le> k \<Longrightarrow> month_start y m \<le> month_start y k"
proof (induction k)
  case (Suc k)
  then show ?case by (cases "m = Suc k") auto
qed simp

lemma month_start_step: "1 \<le> m \<Longrightarrow> month_start y (Suc m) = month_start y m + month_len y m"
  by simp

lemma split_month_valid:
  assumes "n < month_start y 13"
  shows "case split_month y n of (m, d) \<Rightarrow> 1 \<le> m \<and> m \<le> 12 \<and> 1 \<le> d \<and> d \<le> month_len y m \<and> month_start y m + d - 1 = n"
proof -
  let ?P = "\<lambda>m. n < month_start y (Suc m)"
  have "?P 12" using assms by simp
  moreover have "(12 :: nat) \<in> set [1..<13]" by simp
  ultimately have "find ?P [1..<13] \<noteq> None" unfolding find_None_iff by blast
  then obtain m where m: "find ?P [1..<13] = Some m" by auto
  then obtain i where i: "i < 12" "m = Suc i" "?P m" "\<And>j. j < i \<Longrightarrow> \<not> ?P (Suc j)"
    by (auto simp: find_Some_iff simp del: upt_Suc month_start.simps)
  have low: "month_start y m \<le> n"
  proof (cases i)
    case 0
    then show ?thesis using i(2) by simp
  next
    case (Suc j)
    then show ?thesis using i(2) i(4)[of j] by (simp del: month_start.simps)
  qed
  have "month_start y (Suc m) = month_start y m + month_len y m" using i(2) by (simp add: month_start_step del: month_start.simps)
  then show ?thesis using m i low by (simp add: split_month_def)
qed

lemma split_year_spec:
  "split_year y n = (z, k) \<Longrightarrow> year_start z + k = year_start y + n \<and> k < month_start z 13 \<and> y \<le> z"
proof (induction y n arbitrary: z k rule: split_year.induct)
  case (1 y n)
  show ?case
  proof (cases "n < (if leap y then 366 else 365)")
    case True
    then show ?thesis using 1(2) unfolding year_ends by (subst (asm) split_year.simps) (simp add: Let_def split: if_splits)
  next
    case False
    then have "split_year (Suc y) (n - (if leap y then 366 else 365)) = (z, k)"
      using 1(2) by (subst (asm) split_year.simps) (simp add: Let_def)
    from 1(1)[OF refl False this] show ?thesis using False by (auto split: if_splits)
  qed
qed

text \<open>Every day has exactly one date.\<close>

lemma date_of_valid: "valid_date (date_of n) \<and> day_no (date_of n) = n"
proof -
  obtain y k where yk: "split_year 0 n = (y, k)" by (cases "split_year 0 n")
  obtain m d where md: "split_month y k = (m, d)" by (cases "split_month y k")
  have k: "year_start y + k = n" "k < month_start y 13" using split_year_spec[OF yk] by simp_all
  from split_month_valid[OF k(2)] show ?thesis
    unfolding date_of_def yk using k(1) by (auto simp: md valid_date_def day_no_def)
qed

lemma day_no_bounds:
  assumes "valid_date (y, m, d)"
  shows "year_start y \<le> day_no (y, m, d)" "day_no (y, m, d) < year_start (Suc y)"
    "year_start y + month_start y m \<le> day_no (y, m, d)" "day_no (y, m, d) < year_start y + month_start y (Suc m)"
proof -
  have v: "1 \<le> m" "m \<le> 12" "1 \<le> d" "d \<le> month_len y m" using assms by (simp_all add: valid_date_def)
  have "month_start y (Suc m) \<le> month_start y 13" using v(2) by (intro month_start_mono) simp
  moreover have "year_start (Suc y) = year_start y + month_start y 13" by (simp add: year_ends)
  moreover have "month_start y (Suc m) = month_start y m + month_len y m" by (rule month_start_step[OF v(1)])
  ultimately show "year_start y \<le> day_no (y, m, d)" "day_no (y, m, d) < year_start (Suc y)"
    "year_start y + month_start y m \<le> day_no (y, m, d)" "day_no (y, m, d) < year_start y + month_start y (Suc m)"
    using v by (simp_all add: day_no_def del: year_start.simps month_start.simps)
qed

lemma year_start_mono: "x \<le> y \<Longrightarrow> year_start x \<le> year_start y"
  by (induction y) (auto simp: le_Suc_eq)

lemma year_start_step: "year_start y + 365 \<le> year_start (y + 1)"
  by simp

definition date_less :: "date \<Rightarrow> date \<Rightarrow> bool" where
  "date_less = (\<lambda>(y, m, d) (y', m', d'). y < y' \<or> y = y' \<and> (m < m' \<or> m = m' \<and> d < d'))"

lemma day_no_less:
  assumes "valid_date x" and "valid_date x'" and "date_less x x'"
  shows "day_no x < day_no x'"
proof -
  obtain y m d y' m' d' where eq: "x = (y, m, d)" "x' = (y', m', d')" by (cases x; cases x') blast
  note b = day_no_bounds[of y m d] day_no_bounds[of y' m' d']
  consider "y < y'" | "y = y'" "m < m'" | "y = y'" "m = m'" "d < d'" using assms(3) by (auto simp: eq date_less_def)
  then show ?thesis
  proof cases
    case 1
    then have "year_start (Suc y) \<le> year_start y'" by (intro year_start_mono) simp
    then show ?thesis using b(2,5) assms(1,2) unfolding eq by linarith
  next
    case 2
    then have "month_start y (Suc m) \<le> month_start y' m'" by (simp add: month_start_mono del: month_start.simps)
    moreover have "year_start y = year_start y'" using 2(1) by simp
    ultimately show ?thesis using b(4,7) assms(1,2) unfolding eq by linarith
  next
    case 3
    then show ?thesis using assms(1) by (auto simp: eq day_no_def valid_date_def)
  qed
qed

lemma date_less_linear: "x = x' \<or> date_less x x' \<or> date_less x' x"
  by (cases x; cases x') (auto simp: date_less_def)

lemma day_no_inj: "valid_date x \<Longrightarrow> valid_date x' \<Longrightarrow> day_no x = day_no x' \<Longrightarrow> x = x'"
  using date_less_linear[of x x'] day_no_less[of x x'] day_no_less[of x' x] by auto

lemma day_no_less_iff: "valid_date x \<Longrightarrow> valid_date x' \<Longrightarrow> day_no x < day_no x' \<longleftrightarrow> date_less x x'"
  using date_less_linear[of x x'] day_no_less[of x x'] day_no_less[of x' x] by auto

lemma date_of_day_no: "valid_date x \<Longrightarrow> date_of (day_no x) = x"
  using date_of_valid[of "day_no x"] day_no_inj by blast

section \<open>Texts\<close>

definition digit_char :: "nat \<Rightarrow> char" where
  "digit_char n = char_of (48 + n)"

fun fixed :: "nat \<Rightarrow> nat \<Rightarrow> string" where
  "fixed 0 n = []"
| "fixed (Suc k) n = digit_char (n div 10 ^ k mod 10) # fixed k n"

definition iso_text :: "date \<Rightarrow> string" where
  "iso_text = (\<lambda>(y, m, d). fixed 4 y @ ''-'' @ fixed 2 m @ ''-'' @ fixed 2 d)"

lemma length_fixed [simp]: "length (fixed k n) = k"
  by (induction k) simp_all

lemma fixed_mod: "fixed k (n mod 10 ^ k) = fixed k n"
proof -
  have "fixed j (n mod 10 ^ k) = fixed j n" if "j \<le> k" for j
    using that
  proof (induction j)
    case (Suc j)
    have "n mod 10 ^ k div 10 ^ j mod 10 = n div 10 ^ j mod 10"
    proof -
      have "k = j + Suc (k - Suc j)" using Suc.prems by simp
      then have "(10 :: nat) ^ k = 10 ^ j * 10 ^ Suc (k - Suc j)" by (metis power_add)
      then show ?thesis by (simp add: div_mult2_eq mod_mult2_eq mod_mod_cancel)
    qed
    then show ?case using Suc by simp
  qed simp
  then show ?thesis by simp
qed

lemma digit_char_less: "a < 10 \<Longrightarrow> b < 10 \<Longrightarrow> digit_char a < digit_char b \<longleftrightarrow> a < b"
  by (simp add: digit_char_def less_char_def)

lemma less_by_div: "a < b \<longleftrightarrow> a div n < b div n \<or> a div n = b div n \<and> a mod n < b mod (n :: nat)"
proof (cases "a div n = b div n")
  case True
  then have "a = b div n * n + a mod n" using div_mult_mod_eq[of a n] by simp
  moreover have "b = b div n * n + b mod n" by simp
  ultimately have "a < b \<longleftrightarrow> a mod n < b mod n" by linarith
  then show ?thesis using True by simp
next
  case False
  then show ?thesis using div_le_mono[of a b n] div_le_mono[of b a n] by (metis less_le_not_le nat_less_le not_less)
qed

lemma fixed_less: "a < 10 ^ k \<Longrightarrow> b < 10 ^ k \<Longrightarrow> fixed k a < fixed k b \<longleftrightarrow> a < b"
proof (induction k arbitrary: a b)
  case (Suc k)
  have q: "a div 10 ^ k < 10" "b div 10 ^ k < 10" using Suc.prems by (simp_all add: less_mult_imp_div_less)
  have r: "fixed k a < fixed k b \<longleftrightarrow> a mod 10 ^ k < b mod 10 ^ k"
    using Suc.IH[of "a mod 10 ^ k" "b mod 10 ^ k"] by (simp add: fixed_mod)
  have split: "a < b \<longleftrightarrow> a div 10 ^ k < b div 10 ^ k \<or> a div 10 ^ k = b div 10 ^ k \<and> a mod 10 ^ k < b mod 10 ^ k"
    by (rule less_by_div)
  have "digit_char (a div 10 ^ k) = digit_char (b div 10 ^ k) \<longleftrightarrow> a div 10 ^ k = b div 10 ^ k"
    using digit_char_less[OF q] digit_char_less[OF q(2,1)] by (metis less_irrefl linorder_neqE_nat)
  then show ?case using digit_char_less[OF q] q by (simp add: r split)
qed simp

lemma append_less:
  "length xs = length us \<Longrightarrow> xs @ ys < us @ vs \<longleftrightarrow> xs < us \<or> xs = us \<and> ys < (vs :: string)"
  by (induction xs us rule: list_induct2) auto

lemma fixed_inj: "a < 10 ^ k \<Longrightarrow> b < 10 ^ k \<Longrightarrow> fixed k a = fixed k b \<longleftrightarrow> a = b"
  using fixed_less[of a k b] fixed_less[of b k a] by (metis less_irrefl linorder_neqE_nat)

lemma iso_text_less:
  assumes "valid_date (y, m, d)" "valid_date (y', m', d')" "y < 10000" "y' < 10000"
  shows "iso_text (y, m, d) < iso_text (y', m', d') \<longleftrightarrow> day_no (y, m, d) < day_no (y', m', d')"
proof -
  have "month_len y m < 32" "month_len y' m' < 32" by (simp_all add: month_len_def)
  moreover have "m \<le> 12" "m' \<le> 12" "d \<le> month_len y m" "d' \<le> month_len y' m'" using assms by (simp_all add: valid_date_def)
  ultimately have "m < 100 \<and> m' < 100 \<and> d < 100 \<and> d' < 100" by linarith
  then have "m < 10 ^ 2" "m' < 10 ^ 2" "d < 10 ^ 2" "d' < 10 ^ 2" "y < 10 ^ 4" "y' < 10 ^ 4"
    using assms(3,4) by simp_all
  then show ?thesis
    unfolding day_no_less_iff[OF assms(1,2)] iso_text_def
    by (simp add: append_less fixed_less fixed_inj date_less_def)
qed

section \<open>Shifting days and months\<close>

text \<open>A \<open>Date\<close> at midnight as an integer number of days; \<open>Date.UTC(y, m, d)\<close> counts months from 0,
  carries months and days over, and reads the years 0 to 99 as 1900 to 1999.\<close>

definition iso_day :: "int \<Rightarrow> string" where
  "iso_day n = iso_text (date_of (nat n))"

definition utc :: "int \<Rightarrow> int \<Rightarrow> int \<Rightarrow> int" where
  "utc y m d = (let y' = (if 0 \<le> y \<and> y \<le> 99 then y + 1900 else y);
                    q = nat (y' + m div 12); r = nat (m mod 12) + 1
                in int (day_no (q, r, 1)) + d - 1)"

text \<open>The first and the last day of the month \<open>k\<close> months away.\<close>

definition months_after :: "nat \<Rightarrow> nat \<Rightarrow> int \<Rightarrow> nat \<times> nat" where
  "months_after y m k = (nat (int y + (int m - 1 + k) div 12), nat ((int m - 1 + k) mod 12) + 1)"

lemma months_after_valid: "case months_after y m k of (q, r) \<Rightarrow> 1 \<le> r \<and> r \<le> 12"
proof -
  have "(int m - 1 + k) mod 12 < 12" by simp
  then show ?thesis by (simp add: months_after_def nat_less_iff Suc_le_eq)
qed

lemma month_number:
  assumes "1 \<le> m" "m \<le> 12" "1 \<le> n" "n \<le> 12" "-1 \<le> k" "k \<le> 1" "1 \<le> y"
  shows "(x, n) = months_after y m k \<longleftrightarrow> int x * 12 + int n = int y * 12 + int m + k"
proof -
  have uniq: "(a, b) = (c, d) \<longleftrightarrow> int a * 12 + int b = int c * 12 + int d"
    if "1 \<le> b" "b \<le> 12" "1 \<le> d" "d \<le> 12" for a b c d
  proof -
    have "a = c" if "int a * 12 + int b = int c * 12 + int d"
      using that \<open>1 \<le> b\<close> \<open>b \<le> 12\<close> \<open>1 \<le> d\<close> \<open>d \<le> 12\<close> by (cases a c rule: linorder_cases) linarith+
    then show ?thesis by auto
  qed
  define t where "t = int m - 1 + k"
  consider "t = -1" | "0 \<le> t" "t < 12" | "t = 12" using assms unfolding t_def by linarith
  then obtain q r where qr: "months_after y m k = (q, r)" "1 \<le> r" "r \<le> 12" "int q * 12 + int r = int y * 12 + int m + k"
  proof cases
    case 1
    then have "months_after y m k = (y - 1, 12)" using assms unfolding months_after_def t_def[symmetric] by (simp add: nat_diff_distrib)
    from this show ?thesis by (rule that) (use 1 assms in \<open>simp_all add: t_def of_nat_diff\<close>)
  next
    case 2
    then have "months_after y m k = (y, nat t + 1)" unfolding months_after_def t_def[symmetric] by simp
    from this show ?thesis by (rule that) (use 2 assms in \<open>simp_all add: t_def\<close>)
  next
    case 3
    then have "months_after y m k = (y + 1, 1)" unfolding months_after_def t_def[symmetric] by (simp add: nat_add_distrib)
    from this show ?thesis by (rule that) (use 3 assms in \<open>simp_all add: t_def\<close>)
  qed
  show ?thesis unfolding qr(1) qr(4)[symmetric] by (rule uniq[OF assms(3,4) qr(2,3)])
qed

lemma utc_month:
  assumes "100 \<le> y"
  shows "utc (int y) (int m - 1 + k) d = (case months_after y m k of (q, r) \<Rightarrow> int (day_no (q, r, 1)) + d - 1)"
  using assms by (simp add: utc_def months_after_def Let_def)

lemma div_mod_succ:
  fixes t :: int
  shows "(t + 1) div 12 = (if t mod 12 = 11 then t div 12 + 1 else t div 12) \<and>
    (t + 1) mod 12 = (if t mod 12 = 11 then 0 else t mod 12 + 1)"
proof -
  obtain D R where d: "t div 12 = D" "t mod 12 = R" by blast
  have e: "t = 12 * D + R" and b: "0 \<le> R" "R < 12" unfolding d[symmetric] by simp_all
  show ?thesis
  proof (cases "R = 11")
    case True
    have "t + 1 = 12 * (D + 1) + 0" using e True by simp
    from int_div_pos_eq[OF this] int_mod_pos_eq[OF this] True show ?thesis unfolding d by simp
  next
    case False
    have "t + 1 = 12 * D + (R + 1)" using e by simp
    from int_div_pos_eq[OF this] int_mod_pos_eq[OF this] False b show ?thesis unfolding d by simp
  qed
qed

lemma months_after_Suc:
  assumes "months_after y m k = (q, r)" "1 \<le> y" "1 \<le> m" "-1 \<le> k"
  shows "months_after y m (k + 1) = (if r = 12 then (q + 1, 1) else (q, r + 1))"
proof -
  define t where "t = int m - 1 + k"
  have "-1 \<le> t" using assms(3,4) by (simp add: t_def)
  then have "-1 \<le> t div 12" by linarith
  then have D: "0 \<le> int y + t div 12" using assms(2) by simp
  have R: "0 \<le> t mod 12" "t mod 12 < 12" by simp_all
  have q: "q = nat (int y + t div 12)" "r = nat (t mod 12) + 1" using assms(1) by (simp_all add: months_after_def t_def)
  have s: "int m - 1 + (k + 1) = t + 1" by (simp add: t_def)
  have ds: "(t + 1) div 12 = (if t mod 12 = 11 then t div 12 + 1 else t div 12)"
    "(t + 1) mod 12 = (if t mod 12 = 11 then 0 else t mod 12 + 1)"
    using div_mod_succ[of t] by simp_all
  have r12: "r = 12 \<longleftrightarrow> t mod 12 = 11" using q(2) R by linarith
  show ?thesis unfolding months_after_def s ds r12 using q D R by (auto simp: nat_add_distrib)
qed

lemma month_end_day:
  assumes "1 \<le> r" "r \<le> 12"
  shows "day_no (if r = 12 then (q + 1, 1, 1) else (q, r + 1, 1)) = day_no (q, r, month_len q r) + 1"
proof (cases "r = 12")
  case True
  have "month_start q 13 = month_start q 12 + month_len q 12" using month_start_step[of 12 q] by (simp add: eval_nat_numeral)
  then have "year_start (Suc q) = year_start q + month_start q 12 + month_len q 12" using year_ends[of q] by simp
  moreover have "0 < month_len q 12" by (simp add: month_len_def)
  ultimately show ?thesis using True by (simp add: day_no_def del: year_start.simps)
next
  case False
  have "0 < month_len q r" by (simp add: month_len_def)
  then show ?thesis using False assms month_start_step[of r q] by (simp add: day_no_def del: month_start.simps)
qed

lemma utc_month_end:
  assumes "100 \<le> y" "1 \<le> m" "-1 \<le> k" "months_after y m k = (q, r)"
  shows "utc (int y) (int m - 1 + k + 1) 0 = int (day_no (q, r, month_len q r))"
proof -
  have r: "1 \<le> r" "r \<le> 12" using months_after_valid[of y m k] assms(4) by auto
  have "utc (int y) (int m - 1 + (k + 1)) 0 = int (day_no (if r = 12 then (q + 1, 1, 1) else (q, r + 1, 1))) - 1"
    using utc_month[OF assms(1), of m "k + 1" 0] months_after_Suc[OF assms(4) _ assms(2,3)] assms(1) by (auto split: if_splits)
  then show ?thesis using month_end_day[OF r] by (simp add: add.assoc)
qed

lemma date_not_less: "valid_date x \<Longrightarrow> valid_date x' \<Longrightarrow> day_no x \<le> day_no x' \<longleftrightarrow> \<not> date_less x' x"
  using day_no_less_iff[of x' x] by (simp add: not_less[symmetric])

lemma month_len_pos: "1 \<le> month_len y m"
  by (simp add: month_len_def)

lemma days_of_month:
  assumes "1 \<le> r" "r \<le> 12" "valid_date (y, m, d)"
  shows "day_no (q, r, 1) \<le> day_no (y, m, d) \<and> day_no (y, m, d) \<le> day_no (q, r, month_len q r) \<longleftrightarrow> (y, m) = (q, r)"
proof -
  have v: "valid_date (q, r, 1)" "valid_date (q, r, month_len q r)" using assms(1,2) month_len_pos[of q r] by (simp_all add: valid_date_def)
  show ?thesis using assms(3) unfolding date_not_less[OF v(1) assms(3)] date_not_less[OF assms(3) v(2)]
    by (auto simp: date_less_def valid_date_def)
qed

lemma days_of_year:
  assumes "valid_date (y, m, d)"
  shows "day_no (q, 1, 1) \<le> day_no (y, m, d) \<and> day_no (y, m, d) \<le> day_no (q, 12, 31) \<longleftrightarrow> y = q"
proof -
  have v: "valid_date (q, 1, 1)" "valid_date (q, 12, 31)" by (simp_all add: valid_date_def month_len_def)
  have "month_len y m \<le> 31" by (simp add: month_len_def)
  then show ?thesis using assms unfolding date_not_less[OF v(1) assms] date_not_less[OF assms v(2)]
    by (auto simp: date_less_def valid_date_def)
qed

lemma year_of_day_no:
  assumes "valid_date (y, m, d)" "day_no (y, m, d) < year_start q"
  shows "y < q"
proof (rule ccontr)
  assume "\<not> y < q"
  then have "year_start q \<le> year_start y" by (intro year_start_mono) simp
  then show False using day_no_bounds(1)[OF assms(1)] assms(2) by simp
qed

end
