(* ===== verification/DynamicDate.thy ===== *)
theory DynamicDate
  imports Calendar
begin

text \<open>
  \<open>common/filtering/dynamic-date.ts\<close>: the eleven keywords of the dynamic date filter and the interval
  of days each one stands for, as texts.  \<open>today\<close> (\<open>shanghaiToday()\<close>, the clock) is a parameter.
\<close>

definition upper_char :: "char \<Rightarrow> char" where
  "upper_char c = (let n = (of_char c :: nat) in if 97 \<le> n \<and> n \<le> 122 then char_of (n - 32) else c)"

text \<open>\<open>toUpperCase\<close> as far as comparison with a text of capital letters and digits can see it.\<close>

definition js_upper :: "string \<Rightarrow> string" where
  "js_upper s = map upper_char s"

definition tableFilterDynamicDateKeys :: "string list" where
  "tableFilterDynamicDateKeys = [''YESTERDAY'', ''TODAY'', ''TOMORROW'', ''NEXT_1_WEEK'', ''NEXT_2_WEEKS'', ''LAST_MONTH'',
     ''THIS_MONTH'', ''NEXT_MONTH'', ''LAST_YEAR'', ''THIS_YEAR'', ''NEXT_YEAR'']"

fun decimal_text :: "nat \<Rightarrow> string" where
  "decimal_text n = (if n < 10 then [digit_char n] else decimal_text (n div 10) @ [digit_char (n mod 10)])"

declare decimal_text.simps [simp del]

definition int_text :: "int \<Rightarrow> string" where
  "int_text i = (if i < 0 then CHR ''-'' # decimal_text (nat (- i)) else decimal_text (nat i))"

definition dynamicDateRange :: "date \<Rightarrow> string \<Rightarrow> (string \<times> string) option" where
  "dynamicDateRange today key =
     (let normalized = js_upper key;
          base = int (day_no today);
          (y, m, d) = today;
          shift = (\<lambda>days. iso_day (base + days));
          monthStart = (\<lambda>offset. iso_day (utc (int y) (int m - 1 + offset) 1));
          monthEnd = (\<lambda>offset. iso_day (utc (int y) (int m - 1 + offset + 1) 0));
          yearOf = (\<lambda>offset. (int_text (int y + offset) @ ''-01-01'', int_text (int y + offset) @ ''-12-31''))
      in if normalized \<notin> set tableFilterDynamicDateKeys then None
         else Some (if normalized = ''YESTERDAY'' then (shift (-1), shift (-1))
           else if normalized = ''TODAY'' then (iso_text today, iso_text today)
           else if normalized = ''TOMORROW'' then (shift 1, shift 1)
           else if normalized = ''NEXT_1_WEEK'' then (iso_text today, shift 7)
           else if normalized = ''NEXT_2_WEEKS'' then (iso_text today, shift 14)
           else if normalized = ''LAST_MONTH'' then (monthStart (-1), monthEnd (-1))
           else if normalized = ''THIS_MONTH'' then (monthStart 0, monthEnd 0)
           else if normalized = ''NEXT_MONTH'' then (monthStart 1, monthEnd 1)
           else if normalized = ''LAST_YEAR'' then yearOf (-1)
           else if normalized = ''THIS_YEAR'' then yearOf 0
           else yearOf 1))"

section \<open>What the keywords mean\<close>

definition month_index :: "date \<Rightarrow> int" where
  "month_index = (\<lambda>(y, m, d). int y * 12 + int m)"

definition dynamic_days :: "date \<Rightarrow> string \<Rightarrow> date \<Rightarrow> bool" where
  "dynamic_days today key x =
     (let n = int (day_no x) - int (day_no today); k = month_index x - month_index today; j = int (fst x) - int (fst today)
      in if key = ''YESTERDAY'' then n = -1 else if key = ''TODAY'' then n = 0 else if key = ''TOMORROW'' then n = 1
         else if key = ''NEXT_1_WEEK'' then 0 \<le> n \<and> n \<le> 7 else if key = ''NEXT_2_WEEKS'' then 0 \<le> n \<and> n \<le> 14
         else if key = ''LAST_MONTH'' then k = -1 else if key = ''THIS_MONTH'' then k = 0 else if key = ''NEXT_MONTH'' then k = 1
         else if key = ''LAST_YEAR'' then j = -1 else if key = ''THIS_YEAR'' then j = 0 else if key = ''NEXT_YEAR'' then j = 1
         else False)"

lemma fixed_snoc: "fixed (Suc k) n = fixed k (n div 10) @ [digit_char (n mod 10)]"
proof (induction k)
  case (Suc k)
  have "n div 10 ^ Suc k = n div 10 div 10 ^ k" by (simp add: div_mult2_eq)
  then show ?case using Suc by simp
qed simp

lemma decimal_text_fixed: "10 ^ k \<le> n \<Longrightarrow> n < 10 ^ Suc k \<Longrightarrow> decimal_text n = fixed (Suc k) n"
proof (induction k arbitrary: n)
  case 0
  then show ?case by (simp add: decimal_text.simps[of n])
next
  case (Suc k)
  have "(1 :: nat) \<le> 10 ^ k" by simp
  then have "\<not> n < 10" using Suc.prems(1) unfolding power_Suc by linarith
  moreover have "10 ^ k \<le> n div 10" using div_le_mono[OF Suc.prems(1), of 10] by simp
  moreover have "n div 10 < 10 ^ Suc k" by (rule less_mult_imp_div_less) (use Suc.prems(2) in \<open>simp only: power_Suc mult.commute\<close>)
  moreover have "n div 10 < 10 ^ Suc k \<Longrightarrow> 10 ^ k \<le> n div 10 \<Longrightarrow> decimal_text (n div 10) = fixed (Suc k) (n div 10)"
    by (rule Suc.IH)
  ultimately show ?case by (subst decimal_text.simps) (simp only: if_False fixed_snoc[of "Suc k"] simp_thms)
qed

lemma year_text: "1000 \<le> y \<Longrightarrow> y < 10000 \<Longrightarrow> int_text (int y) = fixed 4 y"
  using decimal_text_fixed[of 3 y] by (simp add: int_text_def del: fixed.simps)

text \<open>The interval is given by texts of days, and the days in it are the ones the keyword means.\<close>

definition range_of :: "string \<times> string \<Rightarrow> (date \<Rightarrow> bool) \<Rightarrow> date \<Rightarrow> date \<Rightarrow> bool" where
  "range_of r P a b \<longleftrightarrow> valid_date a \<and> valid_date b \<and> fst a < 10000 \<and> fst b < 10000 \<and> r = (iso_text a, iso_text b) \<and>
     (\<forall>x. valid_date x \<longrightarrow> (day_no a \<le> day_no x \<and> day_no x \<le> day_no b \<longleftrightarrow> P x))"

lemma range_single:
  assumes "valid_date a" "valid_date b" "fst a < 10000" "fst b < 10000"
    and "\<And>x. valid_date x \<Longrightarrow> day_no a \<le> day_no x \<and> day_no x \<le> day_no b \<longleftrightarrow> P x"
  shows "range_of (iso_text a, iso_text b) P a b"
  using assms by (simp add: range_of_def)

lemma shifted_day:
  assumes "valid_date today" "1000 \<le> fst today" "fst today \<le> 9998" "-1 \<le> k" "k \<le> 14"
  obtains a where "valid_date a" "fst a < 10000" "iso_day (int (day_no today) + k) = iso_text a" "int (day_no a) = int (day_no today) + k"
proof -
  obtain y m d where t: "today = (y, m, d)" by (cases today)
  define n where "n = nat (int (day_no today) + k)"
  have lo: "year_start 1000 \<le> day_no today"
    using day_no_bounds(1)[of y m d] year_start_mono[of 1000 y] assms(1,2) by (simp add: t)
  have "365 \<le> year_start 1" by (simp add: leap_def)
  then have pos: "1 \<le> day_no today" using lo year_start_mono[of 1 1000] by linarith
  then have n: "int n = int (day_no today) + k" using assms(4) by (simp add: n_def)
  have "day_no today < year_start (Suc y)" using day_no_bounds(2)[of y m d] assms(1) by (simp add: t)
  moreover have "year_start (Suc y) \<le> year_start 9999" using assms(3) by (intro year_start_mono) (simp add: t)
  moreover have "year_start 9999 + 365 \<le> year_start 10000" using year_start_step[of 9999] by simp
  ultimately have "n < year_start 10000" using n assms(5) by simp
  then have "fst (date_of n) < 10000"
    using date_of_valid[of n] year_of_day_no[of "fst (date_of n)" "fst (snd (date_of n))" "snd (snd (date_of n))" 10000] by simp
  then show ?thesis using date_of_valid[of n] n by (intro that[of "date_of n"]) (simp_all add: iso_day_def n_def)
qed

lemma month_texts: "fixed 2 1 = ''01''" "fixed 2 12 = ''12''" "fixed 2 31 = ''31''"
  by code_simp+

lemma year_range:
  assumes "1000 \<le> q" "q < 10000"
  shows "range_of (int_text (int q) @ ''-01-01'', int_text (int q) @ ''-12-31'') (\<lambda>x. fst x = q) (q, 1, 1) (q, 12, 31)"
proof -
  have t: "iso_text (q, 1, 1) = int_text (int q) @ ''-01-01''" "iso_text (q, 12, 31) = int_text (int q) @ ''-12-31''"
    unfolding year_text[OF assms] iso_text_def by (simp_all only: prod.case month_texts, simp_all)
  show ?thesis unfolding t[symmetric]
  proof (rule range_single)
    show "valid_date (q, 1, 1)" "valid_date (q, 12, 31)" by (simp_all add: valid_date_def month_len_def)
    fix x assume "valid_date x"
    then show "day_no (q, 1, 1) \<le> day_no x \<and> day_no x \<le> day_no (q, 12, 31) \<longleftrightarrow> fst x = q"
      by (cases x) (simp only: days_of_year fst_conv)
  qed (use assms in simp_all)
qed

lemma month_range:
  assumes "valid_date (y, m, d)" "1000 \<le> y" "y \<le> 9998" "-1 \<le> k" "k \<le> 1"
  obtains q r where "range_of (iso_day (utc (int y) (int m - 1 + k) 1), iso_day (utc (int y) (int m - 1 + k + 1) 0))
    (\<lambda>x. month_index x - month_index (y, m, d) = k) (q, r, 1) (q, r, month_len q r)"
proof -
  obtain q r where qr: "months_after y m k = (q, r)" by (cases "months_after y m k")
  have m: "1 \<le> m" "m \<le> 12" using assms(1) by (simp_all add: valid_date_def)
  have r: "1 \<le> r" "r \<le> 12" using months_after_valid[of y m k] qr by simp_all
  have y: "100 \<le> y" "1 \<le> y" using assms(2) by simp_all
  have idx: "int q * 12 + int r = int y * 12 + int m + k"
    using month_number[OF m r assms(4,5) y(2), of q] qr by simp
  have q: "q < 10000" using idx r m assms(3,5) by linarith
  have v: "valid_date (q, r, 1)" "valid_date (q, r, month_len q r)" using r month_len_pos[of q r] by (simp_all add: valid_date_def)
  have f: "iso_day (utc (int y) (int m - 1 + k) 1) = iso_text (q, r, 1)"
    using utc_month[OF y(1), of m k 1] qr date_of_day_no[OF v(1)] by (simp add: iso_day_def)
  have l: "iso_day (utc (int y) (int m - 1 + k + 1) 0) = iso_text (q, r, month_len q r)"
    using utc_month_end[OF y(1) m(1) assms(4) qr] by (simp add: iso_day_def date_of_day_no[OF v(2)])
  have "range_of (iso_text (q, r, 1), iso_text (q, r, month_len q r)) (\<lambda>x. month_index x - month_index (y, m, d) = k) (q, r, 1) (q, r, month_len q r)"
  proof (rule range_single[OF v])
    fix x assume x: "valid_date x"
    obtain a b c where abc: "x = (a, b, c)" by (cases x)
    have b: "1 \<le> b" "b \<le> 12" using x by (simp_all add: abc valid_date_def)
    have "(a, b) = (q, r) \<longleftrightarrow> int a * 12 + int b = int y * 12 + int m + k"
      using month_number[OF m b assms(4,5) y(2), of a] qr by simp
    also have "\<dots> \<longleftrightarrow> month_index x - month_index (y, m, d) = k" by (auto simp: month_index_def abc)
    finally show "day_no (q, r, 1) \<le> day_no x \<and> day_no x \<le> day_no (q, r, month_len q r) \<longleftrightarrow> month_index x - month_index (y, m, d) = k"
      using days_of_month[OF r x[unfolded abc], of q] unfolding abc by simp
  qed (use q in simp_all)
  then show ?thesis unfolding f[symmetric] l[symmetric] by (rule that)
qed

lemma day_range:
  assumes "valid_date today" "1000 \<le> fst today" "fst today \<le> 9998" "-1 \<le> k" "k \<le> 14" "-1 \<le> j" "j \<le> 14"
  obtains a b where "range_of (iso_day (int (day_no today) + k), iso_day (int (day_no today) + j))
    (\<lambda>x. k \<le> int (day_no x) - int (day_no today) \<and> int (day_no x) - int (day_no today) \<le> j) a b"
proof -
  obtain a where a: "valid_date a" "fst a < 10000" "iso_day (int (day_no today) + k) = iso_text a" "int (day_no a) = int (day_no today) + k"
    using shifted_day[OF assms(1-5)] by blast
  obtain b where b: "valid_date b" "fst b < 10000" "iso_day (int (day_no today) + j) = iso_text b" "int (day_no b) = int (day_no today) + j"
    using shifted_day[OF assms(1-3,6,7)] by blast
  show ?thesis unfolding a(3) b(3)
    by (rule that[of a b]) (unfold a(3) b(3), rule range_single[OF a(1) b(1) a(2) b(2)], use a(4) b(4) in linarith)
qed

text \<open>All keywords at once.\<close>

lemma iso_today: "valid_date today \<Longrightarrow> iso_day (int (day_no today)) = iso_text today"
  by (simp add: iso_day_def date_of_day_no)

lemma range_ofE: "range_of r P a b \<Longrightarrow> (\<And>x. valid_date x \<Longrightarrow> P x \<longleftrightarrow> Q x) \<Longrightarrow> \<exists>a b. range_of r Q a b"
  unfolding range_of_def by blast

lemmas range_simps = dynamicDateRange_def dynamic_days_def tableFilterDynamicDateKeys_def Let_def

lemma dynamic_range_days:
  assumes "valid_date today" "1001 \<le> fst today" "fst today \<le> 9998" "dynamicDateRange today key = Some r"
  shows "\<exists>a b. range_of r (dynamic_days today (js_upper key)) a b"
proof -
  obtain y m d where t: "today = (y, m, d)" by (cases today)
  have y: "1000 \<le> fst today" "1000 \<le> y" "y \<le> 9998" "1001 \<le> y" using assms(2,3) by (simp_all add: t)
  note r = assms(4) and it = iso_today[OF assms(1), unfolded t]
  have days: "\<exists>a b. range_of r (dynamic_days today (js_upper key)) a b"
    if "-1 \<le> k" "k \<le> 14" "-1 \<le> j" "j \<le> 14" "r = (iso_day (int (day_no today) + k), iso_day (int (day_no today) + j))"
      "\<And>x. dynamic_days today (js_upper key) x \<longleftrightarrow> k \<le> int (day_no x) - int (day_no today) \<and> int (day_no x) - int (day_no today) \<le> j" for k j
    by (rule day_range[OF assms(1) y(1) assms(3) that(1-4)]) (unfold that(5) ext[of "dynamic_days today (js_upper key)", OF that(6)], intro exI)
  have months: "\<exists>a b. range_of r (dynamic_days today (js_upper key)) a b"
    if "-1 \<le> k" "k \<le> 1" "r = (iso_day (utc (int y) (int m - 1 + k) 1), iso_day (utc (int y) (int m - 1 + k + 1) 0))"
      "\<And>x. dynamic_days today (js_upper key) x \<longleftrightarrow> month_index x - month_index today = k" for k
    by (rule month_range[OF assms(1)[unfolded t] y(2,3) that(1,2)])
      (unfold that(3) ext[of "dynamic_days today (js_upper key)", OF that(4)], unfold t, intro exI)
  have years: "\<exists>a b. range_of r (dynamic_days today (js_upper key)) a b"
    if "-1 \<le> k" "k \<le> 1" "r = (int_text (int y + k) @ ''-01-01'', int_text (int y + k) @ ''-12-31'')"
      "\<And>x. dynamic_days today (js_upper key) x \<longleftrightarrow> int (fst x) - int y = k" for k
  proof -
    have q: "int (nat (int y + k)) = int y + k" "1000 \<le> nat (int y + k)" "nat (int y + k) < 10000" using that(1,2) y by simp_all
    have "fst x = nat (int y + k) \<longleftrightarrow> int (fst x) - int y = k" for x :: date using q(1) by auto
    then have "range_of r (\<lambda>x. int (fst x) - int y = k) (nat (int y + k), 1, 1) (nat (int y + k), 12, 31)"
      using year_range[OF q(2,3)] unfolding that(3) q(1) by simp
    then show ?thesis unfolding ext[of "dynamic_days today (js_upper key)", OF that(4)] by (intro exI)
  qed
  have "js_upper key \<in> set tableFilterDynamicDateKeys" using r by (auto simp: dynamicDateRange_def Let_def t split: if_splits)
  then consider "js_upper key = ''YESTERDAY''" | "js_upper key = ''TODAY''" | "js_upper key = ''TOMORROW''" | "js_upper key = ''NEXT_1_WEEK''" | "js_upper key = ''NEXT_2_WEEKS''" | "js_upper key = ''LAST_MONTH''" | "js_upper key = ''THIS_MONTH''" | "js_upper key = ''NEXT_MONTH''" | "js_upper key = ''LAST_YEAR''" | "js_upper key = ''THIS_YEAR''" | "js_upper key = ''NEXT_YEAR''"
    by (auto simp: tableFilterDynamicDateKeys_def)
  then show ?thesis
  proof cases
    case 1
    show ?thesis by (rule days[of "-1" "-1"]) (use r in \<open>auto simp: 1 range_simps t it\<close>)
  next
    case 2
    show ?thesis by (rule days[of "0" "0"]) (use r in \<open>auto simp: 2 range_simps t it\<close>)
  next
    case 3
    show ?thesis by (rule days[of "1" "1"]) (use r in \<open>auto simp: 3 range_simps t it\<close>)
  next
    case 4
    show ?thesis by (rule days[of "0" "7"]) (use r in \<open>auto simp: 4 range_simps t it\<close>)
  next
    case 5
    show ?thesis by (rule days[of "0" "14"]) (use r in \<open>auto simp: 5 range_simps t it\<close>)
  next
    case 6
    show ?thesis by (rule months[of "-1"]) (use r in \<open>auto simp: 6 range_simps t it\<close>)
  next
    case 7
    show ?thesis by (rule months[of "0"]) (use r in \<open>auto simp: 7 range_simps t it\<close>)
  next
    case 8
    show ?thesis by (rule months[of "1"]) (use r in \<open>auto simp: 8 range_simps t it\<close>)
  next
    case 9
    show ?thesis by (rule years[of "-1"]) (use r in \<open>auto simp: 9 range_simps t it\<close>)
  next
    case 10
    show ?thesis by (rule years[of "0"]) (use r in \<open>auto simp: 10 range_simps t it\<close>)
  next
    case 11
    show ?thesis by (rule years[of "1"]) (use r in \<open>auto simp: 11 range_simps t it\<close>)
  qed
qed

end
