(* ===== verification/FilterGroups.thy ===== *)
theory FilterGroups
  imports DynamicDate
begin

text \<open>
  \<open>common/filtering/filter.contract.ts\<close> and the operator registry of \<open>packages/contracts\<close>: what a
  filter request may look like, and which operators each field type offers.  \<open>parseFilterGroup\<close> counts
  the rules in a variable shared by all nested groups, which the model threads through the recursion.
\<close>

section \<open>Errors and groups\<close>

datatype filter_error = BadFormat | TooDeep | BadLogic | TooManyRules
  | UnknownField string | ForbiddenField string | UnsupportedField string | UnsupportedOperator string
  | MissingValue string | ValueTooLong string | NotANumber string | BadDate string | BadDatetime string
  | NoValues string | TooManyValues string | BadDynamic string

datatype logic = LAnd | LOr

type_synonym rule = "(string \<times> json) list"

datatype fgroup = FGroup logic "rule list" "fgroup list option"

definition maxFilterRules :: nat where "maxFilterRules = 50"

definition maxFilterDepth :: nat where "maxFilterDepth = 4"

definition isBlankFilterValue :: "host \<Rightarrow> json option \<Rightarrow> bool" where
  "isBlankFilterValue h v = (case v of None \<Rightarrow> True | Some JNull \<Rightarrow> True | Some j \<Rightarrow> js_trim (js_string h j) = [])"

definition parse_logic :: "host \<Rightarrow> json option \<Rightarrow> logic option" where
  "parse_logic h v =
     (let rawLogic = (if nullish v then ''AND'' else js_upper (js_string h (the v)));
          l = (if rawLogic = ''ALL'' then ''AND'' else if rawLogic = ''ANY'' then ''OR'' else rawLogic)
      in if l = ''AND'' then Some LAnd else if l = ''OR'' then Some LOr else None)"

definition parse_rule :: "json \<Rightarrow> filter_error + rule" where
  "parse_rule j = (case j of JObj kvs \<Rightarrow> Inr kvs | _ \<Rightarrow> Inl BadFormat)"

fun group_list :: "json option \<Rightarrow> filter_error + json list option" where
  "group_list None = Inr None"
| "group_list (Some (JArr gs)) = Inr (Some gs)"
| "group_list (Some _) = Inl BadFormat"

text \<open>\<open>parse\<close>: the depth, the candidate and the number of rules seen so far.\<close>

function parse_group :: "host \<Rightarrow> nat \<Rightarrow> json \<Rightarrow> nat \<Rightarrow> filter_error + fgroup \<times> nat" where
  "parse_group h depth candidate ruleCount =
     (if maxFilterDepth < depth then Inl TooDeep
      else case candidate of
        JObj kvs \<Rightarrow>
          (case parse_logic h (jget kvs ''logic'') of
             None \<Rightarrow> Inl BadLogic
           | Some logic \<Rightarrow>
               (case jget kvs ''rules'' of
                  Some (JArr raws) \<Rightarrow>
                    bindE (group_list (jget kvs ''groups'')) (\<lambda>gs.
                      let count = ruleCount + length raws in
                      if maxFilterRules < count then Inl TooManyRules
                      else bindE (mapE parse_rule raws) (\<lambda>rules.
                        case gs of
                          None \<Rightarrow> Inr (FGroup logic rules None, count)
                        | Some groups \<Rightarrow>
                            bindE (mapES (parse_group h (depth + 1)) groups count) (\<lambda>(parsed, count').
                              Inr (FGroup logic rules (Some parsed), count'))))
                | _ \<Rightarrow> Inl BadFormat))
      | _ \<Rightarrow> Inl BadFormat)"
  by pat_completeness auto

termination
  by (relation "measure (\<lambda>(h, depth, c, n). 5 - depth)") (auto simp: maxFilterDepth_def)

declare parse_group.simps [simp del]

definition parseFilterGroup :: "host \<Rightarrow> (string \<Rightarrow> json option) \<Rightarrow> json option \<Rightarrow> filter_error + fgroup" where
  "parseFilterGroup h json_parse input =
     (if nullish input \<or> input = Some (JStr []) then Inr (FGroup LAnd [] None)
      else let v = (case the input of
                      JStr s \<Rightarrow> (case json_parse s of None \<Rightarrow> Inl BadFormat | Some j \<Rightarrow> Inr j)
                    | j \<Rightarrow> Inr j)
           in bindE v (\<lambda>value'. case value' of
                JObj kvs \<Rightarrow> bindE (parse_group h 1 value' 0) (\<lambda>(g, _). Inr g)
              | _ \<Rightarrow> Inl BadFormat))"

section \<open>Operators\<close>

datatype ftype = FText | FNumber | FDate | FDatetime | FBoolean | FDictionary | FMember | FDepartment | FReference
  | FAttachment | FStructured

record field =
  f_key :: string
  f_type :: ftype
  f_multiple :: bool
  f_options :: "(string \<times> string) list"

definition TEXT_OPERATORS :: "string list" where
  "TEXT_OPERATORS = [''eq'', ''neq'', ''in'', ''not_in'', ''contains'', ''not_contains'', ''starts_with'', ''is_empty'', ''is_not_empty'']"

definition CHOICE_OPERATORS :: "string list" where
  "CHOICE_OPERATORS = [''eq'', ''neq'', ''in'', ''not_in'', ''is_empty'', ''is_not_empty'']"

definition NUMBER_OPERATORS :: "string list" where
  "NUMBER_OPERATORS = [''eq'', ''neq'', ''gt'', ''gte'', ''lt'', ''lte'', ''between'', ''in'', ''not_in'', ''is_empty'', ''is_not_empty'']"

definition DATE_OPERATORS :: "string list" where
  "DATE_OPERATORS = [''eq'', ''neq'', ''gt'', ''lt'', ''gte'', ''lte'', ''between'', ''dynamic'', ''is_empty'', ''is_not_empty'']"

definition BOOLEAN_OPERATORS :: "string list" where
  "BOOLEAN_OPERATORS = [''is_true'', ''is_false'', ''is_empty'', ''is_not_empty'']"

definition MULTIPLE_OPERATORS :: "string list" where
  "MULTIPLE_OPERATORS = [''contains_any'', ''contains_all'', ''not_contains_any'', ''count_eq'', ''count_gte'', ''count_lte'',
     ''is_empty'', ''is_not_empty'']"

definition ATTACHMENT_OPERATORS :: "string list" where
  "ATTACHMENT_OPERATORS = [''has_attachment'', ''has_no_attachment'']"

definition tableFilterOperatorsFor :: "field \<Rightarrow> string list" where
  "tableFilterOperatorsFor f =
     (if f_type f = FAttachment then ATTACHMENT_OPERATORS
      else if f_type f = FStructured then []
      else if f_multiple f then MULTIPLE_OPERATORS
      else case f_type f of
        FNumber \<Rightarrow> NUMBER_OPERATORS
      | FDate \<Rightarrow> DATE_OPERATORS
      | FDatetime \<Rightarrow> DATE_OPERATORS
      | FBoolean \<Rightarrow> BOOLEAN_OPERATORS
      | FDictionary \<Rightarrow> CHOICE_OPERATORS
      | FMember \<Rightarrow> CHOICE_OPERATORS
      | FDepartment \<Rightarrow> CHOICE_OPERATORS
      | FReference \<Rightarrow> CHOICE_OPERATORS
      | _ \<Rightarrow> TEXT_OPERATORS)"

section \<open>Rules and depth of a parsed group\<close>

fun all_rules :: "fgroup \<Rightarrow> rule list" where
  "all_rules (FGroup l rs None) = rs"
| "all_rules (FGroup l rs (Some gs)) = rs @ concat (map all_rules gs)"

fun depth_of :: "fgroup \<Rightarrow> nat" where
  "depth_of (FGroup l rs None) = 1"
| "depth_of (FGroup l rs (Some gs)) = Suc (foldr max (map depth_of gs) 0)"

end
