(* ===== verification/FilterCompiler.thy ===== *)
theory FilterCompiler
  imports FilterGroups
begin

text \<open>
  \<open>common/filtering/sql-filter.compiler.ts\<close>: the compiler from filter requests to SQL text and
  parameters.  The text is a list of tokens: \<open>Lit\<close> is a text of the compiler, \<open>Col\<close> the expression the
  caller registered for a field (after the caller's \<open>expression\<close> function), \<open>Ph\<close> a placeholder and
  \<open>Num\<close> a number the compiler prints; \<open>render\<close> gives the string.  The parameters pushed so far are
  threaded through.  Fields, expressions, permissions, option resolver, clock and \<open>JSON.parse\<close> are the
  environment.  Error messages are constructors carrying the field key (the code prints the label).
\<close>

section \<open>Tokens and environment\<close>

datatype tok = Lit string | Col string | Ph nat | Num nat

datatype param = PText string | PList "string list"

fun show_tok :: "(nat \<Rightarrow> string) \<Rightarrow> tok \<Rightarrow> string" where
  "show_tok placeholder (Lit s) = s"
| "show_tok placeholder (Col s) = s"
| "show_tok placeholder (Ph n) = placeholder n"
| "show_tok placeholder (Num n) = decimal_text n"

definition render :: "(nat \<Rightarrow> string) \<Rightarrow> tok list \<Rightarrow> string" where
  "render placeholder ts = concat (map (show_tok placeholder) ts)"

record filter_env =
  fe_host :: host
  fe_json :: "string \<Rightarrow> json option"
  fe_fields :: "field list"
  fe_expressions :: "string \<Rightarrow> string option"
  fe_can :: "string \<Rightarrow> bool"
  fe_expression :: "string \<Rightarrow> string"
  fe_resolve :: "string \<Rightarrow> string \<Rightarrow> string list option"
  fe_today :: date

type_synonym compiled = "filter_error + tok list \<times> param list"

section \<open>Operands\<close>

text \<open>The regular expressions: \<open>#\<close> stands for a digit.\<close>

definition shape :: "string \<Rightarrow> string \<Rightarrow> bool" where
  "shape pat s \<longleftrightarrow> list_all2 (\<lambda>p c. if p = CHR ''#'' then js_digit c else c = p) pat s"

definition datePattern :: "string \<Rightarrow> bool" where
  "datePattern s \<longleftrightarrow> shape ''####-##-##'' s"

definition datetimePattern :: "string \<Rightarrow> bool" where
  "datetimePattern s \<longleftrightarrow> shape ''####-##-##'' (take 10 s) \<and>
     (case drop 10 s of [] \<Rightarrow> True
      | c # t \<Rightarrow> c \<in> set ''T '' \<and> (shape ''##:##'' t \<or> shape ''##:##:##'' t))"

datatype precision = Second | Millisecond

record datetime_match =
  dm_day :: string
  dm_hour :: string
  dm_minute :: string
  dm_second :: string
  dm_fraction :: string

definition datetimeOperandPattern :: "string \<Rightarrow> datetime_match option" where
  "datetimeOperandPattern s =
     (let day = take 10 s; sep = take 1 (drop 10 s); hour = take 2 (drop 11 s); colon = take 1 (drop 13 s);
          minute = take 2 (drop 14 s); rest = drop 16 s
      in if \<not> (shape ''####-##-##'' day \<and> sep \<in> set [''T'', '' ''] \<and> shape ''##'' hour \<and> colon = '':'' \<and> shape ''##'' minute)
         then None
         else if rest = [] then Some \<lparr>dm_day = day, dm_hour = hour, dm_minute = minute, dm_second = ''00'', dm_fraction = []\<rparr>
         else if shape '':##'' (take 3 rest) \<and>
           (drop 3 rest = [] \<or> hd (drop 3 rest) = CHR ''.'' \<and> length (drop 4 rest) \<in> set [1, 2, 3, 4, 5, 6] \<and> list_all js_digit (drop 4 rest))
         then Some \<lparr>dm_day = day, dm_hour = hour, dm_minute = minute, dm_second = drop 1 (take 3 rest), dm_fraction = drop 3 rest\<rparr>
         else None)"

definition numberPattern :: "string \<Rightarrow> bool" where
  "numberPattern s \<longleftrightarrow>
     (let u = (case s of c # t \<Rightarrow> if c = CHR ''-'' then t else s | [] \<Rightarrow> []);
          ip = takeWhile js_digit u; r = dropWhile js_digit u
      in ip \<noteq> [] \<and> (case r of [] \<Rightarrow> True | c # fp \<Rightarrow> c = CHR ''.'' \<and> fp \<noteq> [] \<and> list_all js_digit fp))"

definition textOperand :: "filter_env \<Rightarrow> string \<Rightarrow> json option \<Rightarrow> filter_error + string" where
  "textOperand e label v =
     (if isBlankFilterValue (fe_host e) v then Inl (MissingValue label)
      else let t = js_trim (js_string (fe_host e) (the v))
           in if 500 < length t then Inl (ValueTooLong label) else Inr t)"

definition numberOperand :: "filter_env \<Rightarrow> string \<Rightarrow> json option \<Rightarrow> filter_error + string" where
  "numberOperand e label v =
     (if isBlankFilterValue (fe_host e) v then Inl (MissingValue label)
      else let t = js_trim (js_string (fe_host e) (the v))
           in if \<not> numberPattern t then Inl (NotANumber label) else Inr t)"

definition dateOperand :: "filter_env \<Rightarrow> string \<Rightarrow> json option \<Rightarrow> filter_error + string" where
  "dateOperand e label v = bindE (textOperand e label v) (\<lambda>t.
     if \<not> (datePattern t \<or> datetimePattern t) then Inl (BadDate label) else Inr (take 10 t))"

definition BUSINESS_TIMEZONE_OFFSET :: string where
  "BUSINESS_TIMEZONE_OFFSET = ''+08:00''"

definition datetimeOperand :: "filter_env \<Rightarrow> string \<Rightarrow> json option \<Rightarrow> filter_error + string \<times> precision" where
  "datetimeOperand e label v = bindE (textOperand e label v) (\<lambda>t.
     case datetimeOperandPattern t of
       None \<Rightarrow> Inl (BadDatetime label)
     | Some d \<Rightarrow> Inr (dm_day d @ '' '' @ dm_hour d @ '':'' @ dm_minute d @ '':'' @ dm_second d @ dm_fraction d @ BUSINESS_TIMEZONE_OFFSET,
                  if dm_fraction d \<noteq> [] then Millisecond else Second))"

text \<open>\<open>new Date(Date.parse(day) + 1 day)\<close> of a day text the dynamic range printed.\<close>

definition text_nat :: "string \<Rightarrow> nat" where
  "text_nat ds = foldl (\<lambda>a c. 10 * a + digit_value c) 0 ds"

definition nextDay :: "string \<Rightarrow> string" where
  "nextDay day = iso_day (int (day_no (text_nat (take 4 day), text_nat (take 2 (drop 5 day)), text_nat (take 2 (drop 8 day)))) + 1)"

definition dynamicOperand :: "filter_env \<Rightarrow> rule \<Rightarrow> filter_error + string \<times> string" where
  "dynamicOperand e r =
     (let key = js_string (fe_host e) (coalesce (jget r ''dynamic'') (JStr []))
      in case dynamicDateRange (fe_today e) key of None \<Rightarrow> Inl (BadDynamic key) | Some rng \<Rightarrow> Inr rng)"

definition listOperands :: "filter_env \<Rightarrow> string \<Rightarrow> rule \<Rightarrow> filter_error + string list" where
  "listOperands e label r =
     (let raw = (case jget r ''values'' of
                   Some (JArr vs) \<Rightarrow> map Some vs
                 | _ \<Rightarrow> if isBlankFilterValue (fe_host e) (jget r ''value'') then [] else [jget r ''value''])
      in bindE (mapE (textOperand e label) raw) (\<lambda>vs.
           if vs = [] then Inl (NoValues label)
           else if maxFilterRules < length vs then Inl (TooManyValues label) else Inr vs))"

text \<open>A label or value is resolved by the field's own options, then by the resolver, else kept.\<close>

definition resolve_option :: "filter_env \<Rightarrow> field \<Rightarrow> string \<Rightarrow> string list" where
  "resolve_option e f v =
     (let matched = map fst (filter (\<lambda>(ov, ol). ov = v \<or> ol = v) (f_options f))
      in if matched \<noteq> [] then matched
         else case fe_resolve e (f_key f) v of Some xs \<Rightarrow> xs | None \<Rightarrow> [v])"

definition resolveValues :: "filter_env \<Rightarrow> field \<Rightarrow> string list \<Rightarrow> string list" where
  "resolveValues e f raw =
     (if f_options f \<noteq> [] then js_dedup (concat (map (resolve_option e f) raw)) else raw)"

section \<open>Clauses\<close>

definition push :: "param list \<Rightarrow> param \<Rightarrow> param list" where
  "push ps p = ps @ [p]"

definition text_tokens :: "string \<Rightarrow> tok list" where
  "text_tokens target = [Col target, Lit ''::text'']"

definition blank_text :: "string \<Rightarrow> tok list" where
  "blank_text target = [Lit ''COALESCE('', Col target, Lit ''::text'', Lit '','', Lit [CHR 0x27, CHR 0x27], Lit '')'']"

definition jsonb_array :: "string \<Rightarrow> tok list" where
  "jsonb_array target =
     [Lit ''CASE WHEN jsonb_typeof(to_jsonb('', Col target, Lit (''))='' @ [CHR 0x27] @ ''array'' @ [CHR 0x27] @ '' THEN to_jsonb(''),
      Col target, Lit ('') ELSE '' @ [CHR 0x27] @ ''[]'' @ [CHR 0x27] @ ''::jsonb END'')]"

definition jsonb_length :: "string \<Rightarrow> tok list" where
  "jsonb_length target = [Lit ''COALESCE(jsonb_array_length(''] @ jsonb_array target @ [Lit ''),0)'']"

definition jsonb_length_multiple :: "string \<Rightarrow> tok list" where
  "jsonb_length_multiple target = [Lit ''COALESCE(jsonb_array_length(('' ] @ jsonb_array target @ [Lit '')),0)'']"

text \<open>The two parameters of a day range.\<close>

definition date_range :: "string \<Rightarrow> string \<Rightarrow> string \<Rightarrow> param list \<Rightarrow> tok list \<times> param list" where
  "date_range target from' to' ps =
     (let ps' = push (push ps (PText from')) (PText to')
      in ([Lit ''('', Col target, Lit ''::date >= '', Ph (length ps' - 1), Lit ''::date AND '', Col target, Lit ''::date < ('',
           Ph (length ps'), Lit (''::date + interval '' @ [CHR 0x27] @ ''1 day'' @ [CHR 0x27] @ ''))'')], ps'))"

definition date_rule :: "filter_env \<Rightarrow> field \<Rightarrow> string \<Rightarrow> rule \<Rightarrow> string \<Rightarrow> param list \<Rightarrow> compiled" where
  "date_rule e f operator r target ps =
     (let day = (\<lambda>bound. [Lit ''('', Ph bound, Lit (''::date + interval '' @ [CHR 0x27] @ ''1 day'' @ [CHR 0x27] @ '')'')]) in
      if operator = ''dynamic'' then bindE (dynamicOperand e r) (\<lambda>(a, b). Inr (date_range target a b ps))
      else if operator = ''between'' then
        bindE (dateOperand e (f_key f) (jget r ''min'')) (\<lambda>a.
        bindE (dateOperand e (f_key f) (jget r ''max'')) (\<lambda>b. Inr (date_range target a b ps)))
      else bindE (dateOperand e (f_key f) (jget r ''value'')) (\<lambda>v.
        if operator = ''eq'' then Inr (date_range target v v ps)
        else if operator = ''neq'' then
          (case date_range target v v ps of (ts, ps') \<Rightarrow> Inr ([Lit ''NOT (''] @ ts @ [Lit '')''], ps'))
        else
          let ps' = push ps (PText v); n = length ps' in
          if operator = ''gt'' then Inr ([Col target, Lit ''::date >= ''] @ day n, ps')
          else if operator = ''gte'' then Inr ([Col target, Lit ''::date >= '', Ph n, Lit ''::date''], ps')
          else if operator = ''lt'' then Inr ([Col target, Lit ''::date < '', Ph n, Lit ''::date''], ps')
          else if operator = ''lte'' then Inr ([Col target, Lit ''::date < ''] @ day n, ps')
          else Inl (UnsupportedOperator (f_key f))))"

text \<open>The interval of one instant, at the precision of the operand.\<close>

definition same_window :: "string \<Rightarrow> string \<times> precision \<Rightarrow> param list \<Rightarrow> tok list \<times> param list" where
  "same_window target op ps =
     (let ps' = push ps (PText (fst op)); n = length ps'
      in ([Lit ''('', Col target, Lit '' >= '', Ph n, Lit ''::timestamptz AND '', Col target, Lit '' < '', Ph n,
           Lit (''::timestamptz + interval '' @ [CHR 0x27] @ (if snd op = Millisecond then ''1 millisecond'' else ''1 second'') @ [CHR 0x27] @ '')'')], ps'))"

definition instant_range :: "string \<Rightarrow> string \<Rightarrow> string \<Rightarrow> string \<Rightarrow> param list \<Rightarrow> tok list \<times> param list" where
  "instant_range target upper from' to' ps =
     (let ps' = push ps (PText from'); ps'' = push ps' (PText to')
      in ([Lit ''('', Col target, Lit '' >= '', Ph (length ps'), Lit ''::timestamptz AND '', Col target, Lit upper,
           Ph (length ps''), Lit ''::timestamptz)''], ps''))"

definition datetime_rule :: "filter_env \<Rightarrow> field \<Rightarrow> string \<Rightarrow> rule \<Rightarrow> string \<Rightarrow> param list \<Rightarrow> compiled" where
  "datetime_rule e f operator r target ps =
     (if operator = ''dynamic'' then bindE (dynamicOperand e r) (\<lambda>(a, b).
        Inr (instant_range target '' < '' (a @ '' 00:00:00'' @ BUSINESS_TIMEZONE_OFFSET) (nextDay b @ '' 00:00:00'' @ BUSINESS_TIMEZONE_OFFSET) ps))
      else if operator = ''between'' then
        bindE (datetimeOperand e (f_key f) (jget r ''min'')) (\<lambda>a.
        bindE (datetimeOperand e (f_key f) (jget r ''max'')) (\<lambda>b. Inr (instant_range target '' <= '' (fst a) (fst b) ps)))
      else bindE (datetimeOperand e (f_key f) (jget r ''value'')) (\<lambda>v.
        if operator = ''eq'' then Inr (same_window target v ps)
        else if operator = ''neq'' then (case same_window target v ps of (ts, ps') \<Rightarrow> Inr ([Lit ''NOT ''] @ ts, ps'))
        else
          let ps' = push ps (PText (fst v)); bound = [Ph (length ps'), Lit ''::timestamptz''] in
          if operator = ''gt'' then Inr ([Col target, Lit '' > ''] @ bound, ps')
          else if operator = ''gte'' then Inr ([Col target, Lit '' >= ''] @ bound, ps')
          else if operator = ''lt'' then Inr ([Col target, Lit '' < ''] @ bound, ps')
          else if operator = ''lte'' then Inr ([Col target, Lit '' <= ''] @ bound, ps')
          else Inl (UnsupportedOperator (f_key f))))"

definition compare_sign :: "string \<Rightarrow> string option" where
  "compare_sign operator = map_of [(''eq'', '' = ''), (''neq'', '' <> ''), (''gt'', '' > ''), (''gte'', '' >= ''), (''lt'', '' < ''), (''lte'', '' <= '')] operator"

definition as_number :: "string \<Rightarrow> tok list" where
  "as_number target = [Lit ''NULLIF('', Col target, Lit ''::text'', Lit '','', Lit [CHR 0x27, CHR 0x27], Lit '')::numeric'']"

definition number_rule :: "filter_env \<Rightarrow> field \<Rightarrow> string \<Rightarrow> rule \<Rightarrow> string \<Rightarrow> param list \<Rightarrow> compiled" where
  "number_rule e f operator r target ps =
     (if operator = ''between'' then
        bindE (numberOperand e (f_key f) (jget r ''min'')) (\<lambda>a.
        bindE (numberOperand e (f_key f) (jget r ''max'')) (\<lambda>b.
          let ps' = push (push ps (PText a)) (PText b) in
          Inr (as_number target @ [Lit '' BETWEEN '', Ph (length ps' - 1), Lit ''::numeric AND '', Ph (length ps'), Lit ''::numeric''], ps')))
      else if operator = ''in'' \<or> operator = ''not_in'' then
        bindE (listOperands e (f_key f) r) (\<lambda>raw.
        bindE (mapE (\<lambda>v. numberOperand e (f_key f) (Some (JStr v))) raw) (\<lambda>vs.
          let ps' = push ps (PList vs); index = [Ph (length ps'), Lit ''::numeric[]''] in
          Inr (if operator = ''in'' then as_number target @ [Lit '' =ANY(''] @ index @ [Lit '')'']
               else [Lit ''(''] @ as_number target @ [Lit '' IS NULL OR ''] @ as_number target @ [Lit '' <>ALL(''] @ index @ [Lit ''))''], ps')))
      else bindE (numberOperand e (f_key f) (jget r ''value'')) (\<lambda>v.
        let ps' = push ps (PText v) in
        case compare_sign operator of
          None \<Rightarrow> Inl (UnsupportedOperator (f_key f))
        | Some sign \<Rightarrow> Inr (as_number target @ [Lit sign, Ph (length ps'), Lit ''::numeric''], ps')))"

definition text_rule :: "filter_env \<Rightarrow> field \<Rightarrow> string \<Rightarrow> rule \<Rightarrow> string \<Rightarrow> param list \<Rightarrow> compiled" where
  "text_rule e f operator r target ps =
     (if operator = ''contains'' \<or> operator = ''not_contains'' \<or> operator = ''starts_with'' then
        bindE (textOperand e (f_key f) (jget r ''value'')) (\<lambda>raw.
          let ps' = push ps (PText (if operator = ''starts_with'' then raw @ ''%'' else ''%'' @ raw @ ''%'')) in
          Inr (blank_text target @ [Lit (if operator = ''not_contains'' then '' NOT ILIKE '' else '' ILIKE ''), Ph (length ps')], ps'))
      else if operator = ''in'' \<or> operator = ''not_in'' then
        bindE (listOperands e (f_key f) r) (\<lambda>raw.
          let vs = resolveValues e f raw; ps' = push ps (PList vs); index = [Ph (length ps'), Lit ''::text[]''] in
          if vs = [] then Inr ([Lit ''1=0''], ps)
          else Inr (if operator = ''in'' then text_tokens target @ [Lit '' =ANY(''] @ index @ [Lit '')'']
                    else blank_text target @ [Lit '' <>ALL(''] @ index @ [Lit '')''], ps'))
      else bindE (textOperand e (f_key f) (jget r ''value'')) (\<lambda>raw.
          let vs = resolveValues e f [raw]; ps' = push ps (PList vs); index = [Ph (length ps'), Lit ''::text[]''] in
          if vs = [] then Inr ([Lit ''1=0''], ps)
          else Inr (if operator = ''neq'' then blank_text target @ [Lit '' <>ALL(''] @ index @ [Lit '')'']
                    else text_tokens target @ [Lit '' =ANY(''] @ index @ [Lit '')''], ps')))"

definition compileMultiple :: "filter_env \<Rightarrow> field \<Rightarrow> string \<Rightarrow> rule \<Rightarrow> string \<Rightarrow> param list \<Rightarrow> compiled" where
  "compileMultiple e f operator r target ps =
     (if operator = ''is_empty'' then Inr (jsonb_length_multiple target @ [Lit ''=0''], ps)
      else if operator = ''is_not_empty'' then Inr (jsonb_length_multiple target @ [Lit ''>0''], ps)
      else if operator = ''count_eq'' \<or> operator = ''count_gte'' \<or> operator = ''count_lte'' then
        bindE (numberOperand e (f_key f) (jget r ''value'')) (\<lambda>v.
          let ps' = push ps (PText v) in
          Inr (jsonb_length_multiple target @ [Lit (if operator = ''count_eq'' then '' = '' else if operator = ''count_gte'' then '' >= '' else '' <= ''),
               Ph (length ps'), Lit ''::numeric''], ps'))
      else bindE (listOperands e (f_key f) r) (\<lambda>raw.
        let vs = resolveValues e f raw in
        if vs = [] then Inr ([Lit (if operator = ''not_contains_any'' then ''true'' else ''1=0'')], ps)
        else
          let ps' = push ps (PList vs);
              index = [Ph (length ps'), Lit ''::text[]''];
              body = [Lit ''jsonb_array_elements_text(('' ] @ jsonb_array target @ [Lit '')) AS elements(element)'', Lit '' WHERE element =ANY(''] @ index @ [Lit ''))''] in
          if operator = ''contains_any'' then Inr ([Lit ''EXISTS (SELECT 1 FROM ''] @ body, ps')
          else if operator = ''contains_all'' then Inr ([Lit ''(SELECT count(DISTINCT element) FROM ''] @ body @ [Lit '' = '', Num (length vs)], ps')
          else if operator = ''not_contains_any'' then Inr ([Lit ''NOT EXISTS (SELECT 1 FROM ''] @ body, ps')
          else Inl (UnsupportedOperator (f_key f))))"

section \<open>Rules and groups\<close>

definition compileRule :: "filter_env \<Rightarrow> rule \<Rightarrow> param list \<Rightarrow> compiled" where
  "compileRule e r ps =
     (let key = js_string (fe_host e) (coalesce (jget r ''field'') (JStr [])) in
      case find (\<lambda>c. f_key c = key) (fe_fields e) of
        None \<Rightarrow> Inl (UnknownField key)
      | Some f \<Rightarrow>
          if \<not> fe_can e key then Inl (ForbiddenField key)
          else case fe_expressions e key of
            None \<Rightarrow> Inl (UnsupportedField key)
          | Some column \<Rightarrow>
              if column = [] then Inl (UnsupportedField key)
              else
                let operator = js_string (fe_host e) (coalesce (jget r ''operator'') (JStr []));
                    target = fe_expression e column in
                if operator \<notin> set (tableFilterOperatorsFor f) then Inl (UnsupportedOperator key)
                else if \<not> f_multiple f \<and> operator = ''is_empty'' then Inr (blank_text target @ [Lit ''='', Lit [CHR 0x27, CHR 0x27]], ps)
                else if \<not> f_multiple f \<and> operator = ''is_not_empty'' then Inr (blank_text target @ [Lit ''<>'', Lit [CHR 0x27, CHR 0x27]], ps)
                else if operator = ''is_true'' then Inr ([Col target, Lit '' IS TRUE''], ps)
                else if operator = ''is_false'' then Inr ([Col target, Lit '' IS NOT TRUE''], ps)
                else if f_type f = FAttachment \<and> operator = ''has_attachment'' then Inr (jsonb_length target @ [Lit ''>0''], ps)
                else if f_type f = FAttachment \<and> operator = ''has_no_attachment'' then Inr (jsonb_length target @ [Lit ''=0''], ps)
                else if f_type f = FStructured then Inl (UnsupportedField key)
                else if f_multiple f then compileMultiple e f operator r target ps
                else if f_type f = FDate then date_rule e f operator r target ps
                else if f_type f = FDatetime then datetime_rule e f operator r target ps
                else if f_type f = FNumber then number_rule e f operator r target ps
                else text_rule e f operator r target ps)"

text \<open>\<open>[...].map(compile)\<close> with the shared parameter list, then \<open>join\<close>.\<close>

fun compile_all :: "('a \<Rightarrow> param list \<Rightarrow> compiled) \<Rightarrow> 'a list \<Rightarrow> param list \<Rightarrow> filter_error + tok list list \<times> param list" where
  "compile_all f [] ps = Inr ([], ps)"
| "compile_all f (x # xs) ps = bindE (f x ps) (\<lambda>(c, ps'). bindE (compile_all f xs ps') (\<lambda>(cs, ps''). Inr (c # cs, ps'')))"

lemma compile_all_cong [fundef_cong]:
  "xs = ys \<Longrightarrow> ps = qs \<Longrightarrow> (\<And>x u. x \<in> set ys \<Longrightarrow> f x u = g x u) \<Longrightarrow> compile_all f xs ps = compile_all g ys qs"
proof (induction xs arbitrary: ys ps qs)
  case (Cons x xs)
  then have "compile_all f xs u = compile_all g xs u" for u by auto
  then show ?case using Cons.prems by auto
qed auto

definition join_clauses :: "logic \<Rightarrow> tok list list \<Rightarrow> tok list" where
  "join_clauses l cs =
     (case filter (\<lambda>c. c \<noteq> []) cs of
        [] \<Rightarrow> [Lit ''true'']
      | c # ds \<Rightarrow> [Lit ''(''] @ c @ concat (map (\<lambda>d. Lit (if l = LOr then '' OR '' else '' AND '') # d) ds) @ [Lit '')''])"

fun compileGroup :: "filter_env \<Rightarrow> fgroup \<Rightarrow> param list \<Rightarrow> compiled" where
  "compileGroup e (FGroup l rs gs) ps =
     bindE (compile_all (compileRule e) rs ps) (\<lambda>(cs, ps').
     bindE (case gs of None \<Rightarrow> Inr ([], ps') | Some hs \<Rightarrow> compile_all (compileGroup e) hs ps') (\<lambda>(ds, ps'').
       Inr (join_clauses l (cs @ ds), ps'')))"

definition compile :: "filter_env \<Rightarrow> json option \<Rightarrow> param list \<Rightarrow> compiled" where
  "compile e input ps = bindE (parseFilterGroup (fe_host e) (fe_json e) input) (\<lambda>g. compileGroup e g ps)"

text \<open>The text handed to the database driver.\<close>

definition compile_text :: "(nat \<Rightarrow> string) \<Rightarrow> filter_env \<Rightarrow> json option \<Rightarrow> param list \<Rightarrow> filter_error + string \<times> param list" where
  "compile_text placeholder e input ps = bindE (compile e input ps) (\<lambda>(ts, ps'). Inr (render placeholder ts, ps'))"

end
