(* ===== verification/FilterLaws.thy ===== *)
theory FilterLaws
  imports FilterCompiler
begin

text \<open>
  What the filter compiler promises: a parsed request stays within its limits, the SQL consists of the
  compiler's own words, expressions of fields the caller may filter by and placeholders of the parameters
  it pushed, and the dynamic dates cover the days they name.
\<close>

section \<open>Parsed groups\<close>

definition counted :: "nat \<Rightarrow> nat \<Rightarrow> nat \<Rightarrow> fgroup \<Rightarrow> bool" where
  "counted d n n' g \<longleftrightarrow> n' = n + length (all_rules g) \<and> (n \<le> 50 \<longrightarrow> n' \<le> 50) \<and> depth_of g + d \<le> 5"

lemma depth_le: "(\<And>g. g \<in> set gs \<Longrightarrow> depth_of g \<le> k) \<Longrightarrow> foldr max (map depth_of gs) 0 \<le> k"
  by (induction gs) auto

lemma counted_all:
  assumes "\<And>x u g v. x \<in> set xs \<Longrightarrow> f x u = Inr (g, v) \<Longrightarrow> counted d u v g"
  shows "mapES f xs n = Inr (gs, n') \<Longrightarrow> n' = n + length (concat (map all_rules gs)) \<and> (n \<le> 50 \<longrightarrow> n' \<le> 50) \<and> (\<forall>g \<in> set gs. depth_of g + d \<le> 5)"
  using assms
proof (induction xs arbitrary: n gs)
  case (Cons x xs)
  from Cons.prems(1) obtain g u hs where h: "f x n = Inr (g, u)" "mapES f xs u = Inr (hs, n')" "gs = g # hs"
    by (auto split: sum.splits prod.splits)
  have "counted d n u g" by (rule Cons.prems(2)[OF _ h(1)]) simp
  moreover have "n' = u + length (concat (map all_rules hs)) \<and> (u \<le> 50 \<longrightarrow> n' \<le> 50) \<and> (\<forall>g \<in> set hs. depth_of g + d \<le> 5)"
    by (rule Cons.IH[OF h(2)]) (rule Cons.prems(2), simp_all)
  ultimately show ?case by (auto simp: h(3) counted_def)
qed simp

lemma parse_rules_length: "mapE parse_rule raws = Inr rules \<Longrightarrow> length rules = length raws"
  by (rule mapE_length)

lemma parse_group_counted: "parse_group h d c n = Inr (g, n') \<Longrightarrow> counted d n n' g"
proof (induction h d c n arbitrary: g n' rule: parse_group.induct)
  case (1 h depth c n)
  from 1(2) obtain kvs where d: "\<not> maxFilterDepth < depth" and c: "c = JObj kvs"
    by (subst (asm) parse_group.simps) (auto split: if_splits json.splits)
  from 1(2) obtain l raws gs rules where s: "parse_logic h (jget kvs ''logic'') = Some l" "jget kvs ''rules'' = Some (JArr raws)"
      "group_list (jget kvs ''groups'') = Inr gs" "\<not> maxFilterRules < n + length raws" "mapE parse_rule raws = Inr rules"
    and r: "(case gs of None \<Rightarrow> Inr (FGroup l rules None, n + length raws)
        | Some groups \<Rightarrow> bindE (mapES (parse_group h (depth + 1)) groups (n + length raws)) (\<lambda>(parsed, count').
             Inr (FGroup l rules (Some parsed), count'))) = Inr (g, n')"
    by (subst (asm) parse_group.simps) (auto simp: c Let_def err_simps split: if_splits json.splits option.splits)
  have len: "length rules = length raws" by (rule parse_rules_length[OF s(5)])
  show ?case
  proof (cases gs)
    case None
    then show ?thesis using r d s(4) len by (auto simp: counted_def maxFilterDepth_def maxFilterRules_def)
  next
    case (Some groups)
    with r obtain parsed where p: "mapES (parse_group h (depth + 1)) groups (n + length raws) = Inr (parsed, n')"
        "g = FGroup l rules (Some parsed)"
      by (auto simp: err_simps)
    have ih: "counted (depth + 1) u v q" if "x \<in> set groups" "parse_group h (depth + 1) x u = Inr (q, v)" for x u q v
      using 1(1) d c s Some that by (metis (no_types, lifting))
    have "n' = n + length raws + length (concat (map all_rules parsed)) \<and> (n + length raws \<le> 50 \<longrightarrow> n' \<le> 50) \<and>
        (\<forall>q \<in> set parsed. depth_of q + (depth + 1) \<le> 5)"
      by (rule counted_all[OF _ p(1)]) (rule ih)
    then have a: "n' = n + length raws + length (concat (map all_rules parsed))"
      "n + length raws \<le> 50 \<longrightarrow> n' \<le> 50" "\<forall>q \<in> set parsed. depth_of q + (depth + 1) \<le> 5" by blast+
    have "foldr max (map depth_of parsed) 0 \<le> 4 - depth" using a(3) by (intro depth_le) fastforce
    then show ?thesis using a(1,2) s(4) d len unfolding p(2)
      by (auto simp: counted_def maxFilterRules_def maxFilterDepth_def)
  qed
qed

lemma parseFilterGroup_limits:
  assumes "parseFilterGroup h p input = Inr g"
  shows "length (all_rules g) \<le> maxFilterRules \<and> depth_of g \<le> maxFilterDepth"
proof (cases "nullish input \<or> input = Some (JStr [])")
  case True
  then show ?thesis using assms by (auto simp: parseFilterGroup_def maxFilterRules_def maxFilterDepth_def)
next
  case False
  then obtain v where "(case v of JObj kvs \<Rightarrow> bindE (parse_group h 1 v 0) (\<lambda>(g, _). Inr g) | _ \<Rightarrow> Inl BadFormat) = Inr g"
    using assms unfolding parseFilterGroup_def Let_def by (simp only: if_False bindE_Inr_iff) blast
  then obtain n' where "parse_group h 1 v 0 = Inr (g, n')"
    by (cases v) (auto simp: err_simps)
  from parse_group_counted[OF this] show ?thesis by (simp add: counted_def maxFilterRules_def maxFilterDepth_def)
qed

section \<open>Tokens\<close>

fun lits :: "tok list \<Rightarrow> string list" where
  "lits [] = []" | "lits (Lit s # ts) = s # lits ts" | "lits (_ # ts) = lits ts"

fun cols :: "tok list \<Rightarrow> string list" where
  "cols [] = []" | "cols (Col s # ts) = s # cols ts" | "cols (_ # ts) = cols ts"

fun phs :: "tok list \<Rightarrow> nat list" where
  "phs [] = []" | "phs (Ph n # ts) = n # phs ts" | "phs (_ # ts) = phs ts"

lemma lits_append [simp]: "lits (xs @ ys) = lits xs @ lits ys"
  by (induction xs rule: lits.induct) simp_all

lemma cols_append [simp]: "cols (xs @ ys) = cols xs @ cols ys"
  by (induction xs rule: cols.induct) simp_all

lemma phs_append [simp]: "phs (xs @ ys) = phs xs @ phs ys"
  by (induction xs rule: phs.induct) simp_all

definition sql_words :: "string list" where
  "sql_words = (let q = [CHR 0x27] in
     [''::text'', ''COALESCE('', '','', q @ q, '')'', ''='', ''<>'', '' IS TRUE'', '' IS NOT TRUE'', ''>0'', ''=0'', ''true'', ''1=0'',
      ''CASE WHEN jsonb_typeof(to_jsonb('', (''))='' @ q @ ''array'' @ q @ '' THEN to_jsonb(''), ('') ELSE '' @ q @ ''[]'' @ q @ ''::jsonb END''),
      ''COALESCE(jsonb_array_length('', ''),0)'', ''COALESCE(jsonb_array_length(('', '')),0)'', '' = '', '' <> '', '' > '', '' >= '', '' < '', '' <= '',
      ''('', ''::date >= '', ''::date AND '', ''::date < ('', (''::date + interval '' @ q @ ''1 day'' @ q @ ''))''), (''::date + interval '' @ q @ ''1 day'' @ q @ '')''),
      ''NOT ('', ''NOT '', ''::date < '', ''::date'', ''::timestamptz AND '', ''::timestamptz)'', ''::timestamptz'',
      (''::timestamptz + interval '' @ q @ ''1 millisecond'' @ q @ '')''), (''::timestamptz + interval '' @ q @ ''1 second'' @ q @ '')''),
      ''NULLIF('', '')::numeric'', '' BETWEEN '', ''::numeric AND '', ''::numeric'', ''::numeric[]'', '' =ANY('', '' IS NULL OR '', '' <>ALL('', ''))'',
      '' NOT ILIKE '', '' ILIKE '', ''::text[]'', ''jsonb_array_elements_text(('', '')) AS elements(element)'', '' WHERE element =ANY('',
      ''EXISTS (SELECT 1 FROM '', ''(SELECT count(DISTINCT element) FROM '', ''NOT EXISTS (SELECT 1 FROM '', '' OR '', '' AND ''])"

definition word :: "string \<Rightarrow> bool" where
  "word s \<longleftrightarrow> s \<in> set sql_words"

text \<open>An expression of a field the caller may filter by.\<close>

definition permitted :: "filter_env \<Rightarrow> string \<Rightarrow> bool" where
  "permitted e c \<longleftrightarrow> (\<exists>f \<in> set (fe_fields e). fe_can e (f_key f) \<and> (\<exists>column. fe_expressions e (f_key f) = Some column \<and> c = fe_expression e column))"

definition short_param :: "param \<Rightarrow> bool" where
  "short_param p = (case p of PText s \<Rightarrow> length s \<le> 502 \<or> numberPattern s | PList _ \<Rightarrow> True)"

text \<open>The contract of a clause: what it emits and what it pushes.\<close>

definition emits :: "filter_env \<Rightarrow> nat \<Rightarrow> tok list \<times> param list \<Rightarrow> param list \<Rightarrow> bool" where
  "emits e k c ps \<longleftrightarrow> (\<exists>new. snd c = ps @ new \<and> length new \<le> k \<and> list_all word (lits (fst c)) \<and> list_all (permitted e) (cols (fst c)) \<and>
     set (phs (fst c)) = {length ps <.. length ps + length new} \<and> list_all short_param new)"

lemma all_words: "list_all word sql_words"
  by (simp add: word_def list_all_iff)

lemmas word_simps = all_words[unfolded sql_words_def Let_def, simplified]

lemma permittedI [simp]: "permitted e c \<Longrightarrow> permitted e c"
  by assumption

lemma emitsI:
  assumes "snd c = ps @ new" "length new \<le> k" "list_all word (lits (fst c))" "list_all (permitted e) (cols (fst c))"
    "set (phs (fst c)) = {length ps <.. length ps + length new}" "list_all short_param new"
  shows "emits e k c ps"
  unfolding emits_def using assms by blast

lemma one_ph: "{n <.. n + 1} = {Suc n}" "{n <.. Suc n} = {Suc n}" "{n <.. Suc (Suc n)} = {Suc n, Suc (Suc n)}"
  by auto

lemmas emit_simps = push_def text_tokens_def blank_text_def jsonb_array_def jsonb_length_def jsonb_length_multiple_def as_number_def
  one_ph short_param_def

lemma emits_date_range:
  "permitted e target \<Longrightarrow> length a \<le> 502 \<Longrightarrow> length b \<le> 502 \<Longrightarrow> emits e 2 (date_range target a b ps) ps"
  by (rule emitsI[of _ _ "[PText a, PText b]"]) (simp_all add: date_range_def Let_def emit_simps word_simps insert_commute)

lemma emits_same_window: "permitted e target \<Longrightarrow> length (fst v) \<le> 502 \<Longrightarrow> emits e 2 (same_window target v ps) ps"
  by (rule emitsI[of _ _ "[PText (fst v)]"]) (simp_all add: same_window_def Let_def emit_simps word_simps)

lemma emits_instant_range:
  "permitted e target \<Longrightarrow> word upper \<Longrightarrow> length a \<le> 502 \<Longrightarrow> length b \<le> 502 \<Longrightarrow> emits e 2 (instant_range target upper a b ps) ps"
  by (rule emitsI[of _ _ "[PText a, PText b]"]) (simp_all add: instant_range_def Let_def emit_simps word_simps)

section \<open>Operands\<close>

definition env_ok :: "filter_env \<Rightarrow> bool" where
  "env_ok e \<longleftrightarrow> valid_date (fe_today e) \<and> 1001 \<le> fst (fe_today e) \<and> fst (fe_today e) \<le> 9998"

lemma text_short: "textOperand e l v = Inr t \<Longrightarrow> length t \<le> 500"
  by (auto simp: textOperand_def Let_def split: if_splits)

lemma number_text: "numberOperand e l v = Inr t \<Longrightarrow> numberPattern t"
  by (auto simp: numberOperand_def Let_def split: if_splits)

lemma date_short: "dateOperand e l v = Inr t \<Longrightarrow> length t \<le> 502"
  by (auto simp: dateOperand_def err_simps split: if_splits)

lemma datetime_short:
  assumes "datetimeOperand e l v = Inr t"
  shows "length (fst t) \<le> 502"
proof -
  obtain s d where d: "textOperand e l v = Inr s" "datetimeOperandPattern s = Some d"
    "fst t = dm_day d @ '' '' @ dm_hour d @ '':'' @ dm_minute d @ '':'' @ dm_second d @ dm_fraction d @ BUSINESS_TIMEZONE_OFFSET"
    using assms by (auto simp: datetimeOperand_def err_simps split: option.splits)
  have "length (dm_day d) \<le> 10 \<and> length (dm_hour d) \<le> 2 \<and> length (dm_minute d) \<le> 2 \<and> length (dm_second d) \<le> 3 \<and> length (dm_fraction d) \<le> 7"
    using d(2) unfolding datetimeOperandPattern_def Let_def by (auto split: if_splits)
  then show ?thesis unfolding d(3) by (simp add: BUSINESS_TIMEZONE_OFFSET_def)
qed

lemma length_iso_text [simp]: "length (iso_text x) = 10"
  by (cases x) (simp add: iso_text_def)

lemma dynamic_short:
  assumes "env_ok e" "dynamicOperand e r = Inr (a, b)"
  shows "length a \<le> 10 \<and> length b \<le> 10"
proof -
  obtain k where "dynamicDateRange (fe_today e) k = Some (a, b)"
    using assms(2) by (auto simp: dynamicOperand_def Let_def split: option.splits)
  with dynamic_range_days[of "fe_today e" k "(a, b)"] assms(1) show ?thesis by (auto simp: env_ok_def range_of_def)
qed

section \<open>Rules\<close>

lemma emits_day_rule:
  assumes "env_ok e" "permitted e target" "date_rule e f op r target ps = Inr c"
  shows "emits e 2 c ps"
proof -
  note p = assms(2)
  consider a b where "dynamicOperand e r = Inr (a, b)" "c = date_range target a b ps"
    | a b where "dateOperand e (f_key f) (jget r ''min'') = Inr a" "dateOperand e (f_key f) (jget r ''max'') = Inr b" "c = date_range target a b ps"
    | v where "dateOperand e (f_key f) (jget r ''value'') = Inr v" "c = date_range target v v ps"
    | v where "dateOperand e (f_key f) (jget r ''value'') = Inr v"
        "c = ([Lit ''NOT (''] @ fst (date_range target v v ps) @ [Lit '')''], snd (date_range target v v ps))"
    | v ts where "dateOperand e (f_key f) (jget r ''value'') = Inr v" "c = ([Col target] @ ts, push ps (PText v))"
        "list_all word (lits ts)" "cols ts = []" "phs ts = [Suc (length ps)]"
    using assms(3) unfolding date_rule_def Let_def
    by (auto simp: err_simps push_def word_simps split: if_splits prod.splits)
  then show ?thesis
  proof cases
    case 1
    then show ?thesis using dynamic_short[OF assms(1) 1(1)] p by (auto intro: emits_date_range)
  next
    case 2
    then show ?thesis using date_short p by (auto intro: emits_date_range)
  next
    case 3
    then show ?thesis using date_short p by (auto intro: emits_date_range)
  next
    case 4
    with emits_date_range[OF p, of v v ps] date_short[OF 4(1)] show ?thesis
      by (auto simp: emits_def word_simps)
  next
    case 5
    then show ?thesis using date_short[OF 5(1)] p by (intro emitsI[of _ _ "[PText v]"]) (simp_all add: push_def one_ph short_param_def)
  qed
qed

lemma emits_instant_rule:
  assumes "env_ok e" "permitted e target" "datetime_rule e f op r target ps = Inr c"
  shows "emits e 2 c ps"
proof -
  note p = assms(2)
  consider a b where "dynamicOperand e r = Inr (a, b)"
      "c = instant_range target '' < '' (a @ '' 00:00:00'' @ BUSINESS_TIMEZONE_OFFSET) (nextDay b @ '' 00:00:00'' @ BUSINESS_TIMEZONE_OFFSET) ps"
    | a b where "datetimeOperand e (f_key f) (jget r ''min'') = Inr a" "datetimeOperand e (f_key f) (jget r ''max'') = Inr b"
        "c = instant_range target '' <= '' (fst a) (fst b) ps"
    | v where "datetimeOperand e (f_key f) (jget r ''value'') = Inr v" "c = same_window target v ps"
    | v where "datetimeOperand e (f_key f) (jget r ''value'') = Inr v"
        "c = ([Lit ''NOT ''] @ fst (same_window target v ps), snd (same_window target v ps))"
    | v ts where "datetimeOperand e (f_key f) (jget r ''value'') = Inr v" "c = ([Col target] @ ts, push ps (PText (fst v)))"
        "list_all word (lits ts)" "cols ts = []" "phs ts = [Suc (length ps)]"
    using assms(3) unfolding datetime_rule_def Let_def
    by (auto simp: err_simps push_def word_simps split: if_splits prod.splits)
  then show ?thesis
  proof cases
    case 1
    then show ?thesis using dynamic_short[OF assms(1) 1(1)] p
      by (auto intro!: emits_instant_range simp: BUSINESS_TIMEZONE_OFFSET_def nextDay_def iso_day_def word_simps)
  next
    case 2
    then show ?thesis using datetime_short[OF 2(1)] datetime_short[OF 2(2)] p by (auto intro!: emits_instant_range simp: word_simps)
  next
    case 3
    then show ?thesis using emits_same_window[OF p datetime_short[OF 3(1)]] by simp
  next
    case 4
    with emits_same_window[OF p, of v ps] datetime_short[OF 4(1)] show ?thesis
      by (auto simp: emits_def word_simps)
  next
    case 5
    then show ?thesis using datetime_short[OF 5(1)] p by (intro emitsI[of _ _ "[PText (fst v)]"]) (simp_all add: push_def one_ph short_param_def)
  qed
qed

text \<open>A clause with one parameter, or with none.\<close>

lemma emits_one:
  "list_all word (lits ts) \<Longrightarrow> list_all (permitted e) (cols ts) \<Longrightarrow> set (phs ts) = {Suc (length ps)} \<Longrightarrow> short_param p \<Longrightarrow>
   emits e 2 (ts, push ps p) ps"
  by (rule emitsI[of _ _ "[p]"]) (simp_all add: push_def one_ph)

lemma emits_none: "list_all word (lits ts) \<Longrightarrow> list_all (permitted e) (cols ts) \<Longrightarrow> phs ts = [] \<Longrightarrow> emits e 2 (ts, ps) ps"
  by (rule emitsI[of _ _ "[]"]) simp_all

lemma compare_sign_word: "compare_sign op = Some s \<Longrightarrow> word s"
  by (auto simp: compare_sign_def split: if_splits) (simp_all add: word_simps)

lemma emits_number_rule:
  assumes "permitted e target" "number_rule e f op r target ps = Inr c"
  shows "emits e 2 c ps"
proof -
  note p = assms(1)
  consider a b where "numberOperand e (f_key f) (jget r ''min'') = Inr a" "numberOperand e (f_key f) (jget r ''max'') = Inr b"
      "c = (as_number target @ [Lit '' BETWEEN '', Ph (Suc (length ps)), Lit ''::numeric AND '', Ph (Suc (Suc (length ps))), Lit ''::numeric''], ps @ [PText a, PText b])"
    | vs ts where "c = (ts, push ps (PList vs))" "list_all word (lits ts)" "list_all (permitted e) (cols ts)" "phs ts = [Suc (length ps)]"
    | v s where "numberOperand e (f_key f) (jget r ''value'') = Inr v" "compare_sign op = Some s"
        "c = (as_number target @ [Lit s, Ph (Suc (length ps)), Lit ''::numeric''], push ps (PText v))"
    using assms(2) p unfolding number_rule_def Let_def
    by (auto simp: err_simps push_def word_simps as_number_def split: if_splits option.splits)
  then show ?thesis
  proof cases
    case 1
    show ?thesis unfolding 1(3) by (rule emitsI[of _ _ "[PText a, PText b]"])
        (simp_all add: emit_simps word_simps p number_text[OF 1(1)] number_text[OF 1(2)])
  next
    case 2
    then show ?thesis by (auto intro!: emits_one simp: short_param_def)
  next
    case 3
    show ?thesis unfolding 3(3)
      by (rule emits_one) (simp_all add: emit_simps word_simps p number_text[OF 3(1)] compare_sign_word[OF 3(2)])
  qed
qed

text \<open>The shape shared by the remaining clauses: no parameter, or one.\<close>

definition one_param :: "filter_env \<Rightarrow> tok list \<times> param list \<Rightarrow> param list \<Rightarrow> bool" where
  "one_param e c ps \<longleftrightarrow> list_all word (lits (fst c)) \<and> list_all (permitted e) (cols (fst c)) \<and>
     (snd c = ps \<and> phs (fst c) = [] \<or> (\<exists>p. snd c = push ps p \<and> short_param p \<and> phs (fst c) = [Suc (length ps)]))"

lemma emits_one_param: "one_param e c ps \<Longrightarrow> emits e 2 c ps"
  unfolding one_param_def by (cases c) (auto intro: emits_one emits_none)

lemma one_paramI:
  "list_all word (lits ts) \<Longrightarrow> list_all (permitted e) (cols ts) \<Longrightarrow> phs ts = [Suc (length ps)] \<Longrightarrow> short_param p \<Longrightarrow> one_param e (ts, push ps p) ps"
  unfolding one_param_def by auto

lemma no_paramI: "list_all word (lits ts) \<Longrightarrow> list_all (permitted e) (cols ts) \<Longrightarrow> phs ts = [] \<Longrightarrow> one_param e (ts, ps) ps"
  unfolding one_param_def by auto

lemmas clause_simps = word_simps text_tokens_def blank_text_def jsonb_length_def jsonb_length_multiple_def jsonb_array_def push_def

lemma emits_text_rule:
  assumes "permitted e target" "text_rule e f op r target ps = Inr c"
  shows "emits e 2 c ps"
proof (rule emits_one_param)
  note p = assms(1)
  note def = assms(2)[unfolded text_rule_def Let_def]
  show "one_param e c ps"
  proof (cases "op = ''contains'' \<or> op = ''not_contains'' \<or> op = ''starts_with''")
    case True
    obtain raw where raw: "textOperand e (f_key f) (jget r ''value'') = Inr raw"
        "c = (blank_text target @ [Lit (if op = ''not_contains'' then '' NOT ILIKE '' else '' ILIKE ''), Ph (length (push ps (PText (if op = ''starts_with'' then raw @ ''%'' else ''%'' @ raw @ ''%''))))],
              push ps (PText (if op = ''starts_with'' then raw @ ''%'' else ''%'' @ raw @ ''%'')))"
      using def unfolding if_P[OF True] by (rule bindE_InrE) (rule that, assumption, simp only: sum.inject)
    show ?thesis unfolding raw(2) by (rule one_paramI) (use text_short[OF raw(1)] p in \<open>simp_all add: clause_simps short_param_def\<close>)
  next
    case False
    note def' = def[unfolded if_not_P[OF False]]
    show ?thesis
    proof (cases "op = ''in'' \<or> op = ''not_in''")
      case True
      show ?thesis using def' unfolding if_P[OF True]
        by (rule bindE_InrE) (auto simp: clause_simps p short_param_def one_param_def split: if_splits)
    next
      case False
      show ?thesis using def' unfolding if_not_P[OF False]
        by (rule bindE_InrE) (auto simp: clause_simps p short_param_def one_param_def split: if_splits)
    qed
  qed
qed

lemma emits_compileMultiple:
  assumes "permitted e target" "compileMultiple e f op r target ps = Inr c"
  shows "emits e 2 c ps"
proof (rule emits_one_param)
  show "one_param e c ps"
    using assms unfolding compileMultiple_def Let_def one_param_def
    by (auto simp: err_simps push_def word_simps jsonb_length_multiple_def jsonb_array_def short_param_def split: if_splits dest!: number_text)
qed

definition rule_key :: "filter_env \<Rightarrow> rule \<Rightarrow> string" where
  "rule_key e r = js_string (fe_host e) (coalesce (jget r ''field'') (JStr []))"

definition rule_operator :: "filter_env \<Rightarrow> rule \<Rightarrow> string" where
  "rule_operator e r = js_string (fe_host e) (coalesce (jget r ''operator'') (JStr []))"

text \<open>A rule the caller may use: a registered field, readable, with one of its type's operators.\<close>

definition rule_permitted :: "filter_env \<Rightarrow> rule \<Rightarrow> bool" where
  "rule_permitted e r \<longleftrightarrow> (\<exists>f \<in> set (fe_fields e). f_key f = rule_key e r \<and> fe_can e (rule_key e r) \<and>
     fe_expressions e (rule_key e r) \<noteq> None \<and> rule_operator e r \<in> set (tableFilterOperatorsFor f))"

lemma compileRule_permitted:
  assumes "compileRule e r ps = Inr c"
  shows "rule_permitted e r"
proof -
  obtain f column where f: "find (\<lambda>c. f_key c = rule_key e r) (fe_fields e) = Some f" "fe_can e (rule_key e r)"
      "fe_expressions e (rule_key e r) = Some column" "rule_operator e r \<in> set (tableFilterOperatorsFor f)"
    using assms unfolding compileRule_def Let_def rule_key_def[symmetric] rule_operator_def[symmetric]
    by (cases "find (\<lambda>c. f_key c = rule_key e r) (fe_fields e)"; cases "fe_expressions e (rule_key e r)") (simp_all split: if_splits)
  then show ?thesis using find_Some_mem[OF f(1)] unfolding rule_permitted_def by auto
qed

lemma emits_compileRule:
  assumes "env_ok e" "compileRule e r ps = Inr c"
  shows "emits e 2 c ps"
proof -
  let ?key = "js_string (fe_host e) (coalesce (jget r ''field'') (JStr []))"
  let ?op = "js_string (fe_host e) (coalesce (jget r ''operator'') (JStr []))"
  obtain f column where f: "find (\<lambda>c. f_key c = ?key) (fe_fields e) = Some f" "fe_can e ?key" "fe_expressions e ?key = Some column"
    using assms(2) unfolding compileRule_def Let_def by (auto split: option.splits if_splits)
  define target where "target = fe_expression e column"
  have "f \<in> set (fe_fields e)" "f_key f = ?key" using find_Some_mem[OF f(1)] by simp_all
  then have p: "permitted e target" using f(2,3) unfolding permitted_def target_def by (intro bexI[of _ f]) auto
  have "one_param e c ps \<or> compileMultiple e f ?op r target ps = Inr c \<or> date_rule e f ?op r target ps = Inr c \<or>
      datetime_rule e f ?op r target ps = Inr c \<or> number_rule e f ?op r target ps = Inr c \<or> text_rule e f ?op r target ps = Inr c"
    using assms(2) p f unfolding compileRule_def Let_def target_def[symmetric]
    by (auto simp: one_param_def word_simps blank_text_def jsonb_length_def jsonb_array_def target_def[symmetric] split: if_splits)
  then show ?thesis
    using emits_one_param emits_compileMultiple[OF p] emits_day_rule[OF assms(1) p] emits_instant_rule[OF assms(1) p]
      emits_number_rule[OF p] emits_text_rule[OF p] by (elim disjE) (simp_all only:)
qed

section \<open>Groups\<close>

lemma emits_trans:
  assumes "emits e k (ts, ps') ps" "emits e l (us, ps'') ps'"
  shows "emits e (k + l) (ts @ us, ps'') ps"
proof -
  obtain a where a: "ps' = ps @ a" "length a \<le> k" "list_all word (lits ts)" "list_all (permitted e) (cols ts)"
      "set (phs ts) = {length ps <.. length ps + length a}" "list_all short_param a"
    using assms(1) by (auto simp: emits_def)
  obtain b where b: "ps'' = ps' @ b" "length b \<le> l" "list_all word (lits us)" "list_all (permitted e) (cols us)"
      "set (phs us) = {length ps' <.. length ps' + length b}" "list_all short_param b"
    using assms(2) by (auto simp: emits_def)
  show ?thesis using a b by (intro emitsI[of _ _ "a @ b"]) auto
qed

lemma emits_weaken: "emits e k c ps \<Longrightarrow> k \<le> l \<Longrightarrow> emits e l c ps"
  unfolding emits_def by (meson le_trans)

lemma emits_compile_all:
  assumes "\<And>x u c. x \<in> set xs \<Longrightarrow> f x u = Inr c \<Longrightarrow> emits e (2 * w x) c u"
  shows "compile_all f xs ps = Inr (cs, ps') \<Longrightarrow> emits e (2 * sum_list (map w xs)) (concat cs, ps') ps"
  using assms
proof (induction xs arbitrary: ps cs)
  case Nil
  then show ?case by (simp add: emits_def)
next
  case (Cons x xs)
  from Cons.prems(1) obtain c u ds where d: "f x ps = Inr (c, u)" "compile_all f xs u = Inr (ds, ps')" "cs = c # ds"
    by (auto simp: err_simps)
  have "emits e (2 * w x) (c, u) ps" by (rule Cons.prems(2)[OF _ d(1)]) simp
  moreover have "emits e (2 * sum_list (map w xs)) (concat ds, ps') u" by (rule Cons.IH[OF d(2)]) (rule Cons.prems(2), simp_all)
  ultimately show ?case using emits_trans by (fastforce simp: d(3))
qed

lemma concat_filter_ne: "concat (filter (\<lambda>c. c \<noteq> []) cs) = concat cs"
  by (induction cs) auto

lemma join_tokens:
  "set (phs (concat (map (\<lambda>d. Lit s # d) ds))) = set (phs (concat ds))"
  "set (cols (concat (map (\<lambda>d. Lit s # d) ds))) = set (cols (concat ds))"
  "set (lits (concat (map (\<lambda>d. Lit s # d) ds))) \<subseteq> insert s (set (lits (concat ds)))"
  by (induction ds) auto

lemma emits_join:
  assumes "emits e k (concat cs, ps') ps"
  shows "emits e k (join_clauses l cs, ps') ps"
proof (cases "filter (\<lambda>c. c \<noteq> []) cs")
  case Nil
  then have "concat cs = []" using concat_filter_ne[of cs] by (simp only: concat.simps)
  with assms have "emits e k ([], ps') ps" by (simp only:)
  then show ?thesis unfolding emits_def by (auto simp: join_clauses_def Nil word_simps)
next
  case (Cons c ds)
  then have "concat cs = c @ concat ds" using concat_filter_ne[of cs] by simp
  then show ?thesis using assms join_tokens(3)[of "if l = LOr then '' OR '' else '' AND ''" ds]
    by (auto simp: join_clauses_def Cons emits_def list_all_iff word_simps join_tokens(1,2) split: if_splits)
qed

lemma all_rules_sum: "length (concat (map all_rules gs)) = sum_list (map (length \<circ> all_rules) gs)"
  by (induction gs) simp_all

lemma emits_compileGroup:
  assumes "env_ok e"
  shows "compileGroup e g ps = Inr c \<Longrightarrow> emits e (2 * length (all_rules g)) c ps"
proof (induction g arbitrary: ps c)
  case (FGroup l rs gs)
  from FGroup.prems obtain cs u ds v where d: "compile_all (compileRule e) rs ps = Inr (cs, u)"
      "(case gs of None \<Rightarrow> Inr ([], u) | Some hs \<Rightarrow> compile_all (compileGroup e) hs u) = Inr (ds, v)" "c = (join_clauses l (cs @ ds), v)"
    by (auto simp: err_simps)
  have "emits e (2 * sum_list (map (\<lambda>_. 1) rs)) (concat cs, u) ps"
    by (rule emits_compile_all[OF _ d(1)]) (use emits_compileRule[OF assms] in simp)
  then have a: "emits e (2 * length rs) (concat cs, u) ps" by (simp add: sum_list_triv)
  show ?case
  proof (cases gs)
    case None
    then show ?thesis using a d(2,3) by (auto intro!: emits_join)
  next
    case (Some hs)
    have "emits e (2 * sum_list (map (length \<circ> all_rules) hs)) (concat ds, v) u"
      by (rule emits_compile_all[of _ "compileGroup e"]) (use FGroup.IH d(2) in \<open>auto simp: Some\<close>)
    from emits_trans[OF a this] show ?thesis unfolding d(3)
      by (intro emits_join) (simp add: Some all_rules_sum)
  qed
qed

lemma compile_all_rules:
  "compile_all f xs ps = Inr (cs, ps') \<Longrightarrow> x \<in> set xs \<Longrightarrow> \<exists>u c. f x u = Inr c"
  by (induction xs arbitrary: ps cs) (auto simp: err_simps)

lemma compileGroup_permitted: "compileGroup e g ps = Inr c \<Longrightarrow> r \<in> set (all_rules g) \<Longrightarrow> rule_permitted e r"
proof (induction g arbitrary: ps c)
  case (FGroup l rs gs)
  from FGroup.prems(1) obtain cs u ds v where d: "compile_all (compileRule e) rs ps = Inr (cs, u)"
      "(case gs of None \<Rightarrow> Inr ([], u) | Some hs \<Rightarrow> compile_all (compileGroup e) hs u) = Inr (ds, v)"
    by (auto simp: err_simps)
  show ?case
  proof (cases "r \<in> set rs")
    case True
    then show ?thesis using compile_all_rules[OF d(1)] compileRule_permitted by blast
  next
    case False
    then obtain hs h where h: "gs = Some hs" "h \<in> set hs" "r \<in> set (all_rules h)"
      using FGroup.prems(2) by (cases gs) auto
    then obtain w c' where "compileGroup e h w = Inr c'" using compile_all_rules[of "compileGroup e" hs u ds v h] d(2) by auto
    then show ?thesis using FGroup.IH[of hs h] h by auto
  qed
qed

section \<open>Errors\<close>

text \<open>Errors about the value of a rule, as opposed to its field or operator.\<close>

fun operand_error :: "filter_error \<Rightarrow> bool" where
  "operand_error (MissingValue _) = True" | "operand_error (ValueTooLong _) = True" | "operand_error (NotANumber _) = True"
| "operand_error (BadDate _) = True" | "operand_error (BadDatetime _) = True" | "operand_error (NoValues _) = True"
| "operand_error (TooManyValues _) = True" | "operand_error (BadDynamic _) = True" | "operand_error _ = False"

lemma bindE_InlE: "bindE m f = Inl e \<Longrightarrow> (m = Inl e \<Longrightarrow> P) \<Longrightarrow> (\<And>x. m = Inr x \<Longrightarrow> f x = Inl e \<Longrightarrow> P) \<Longrightarrow> P"
  by (cases m) simp_all

lemma mapE_error: "mapE f xs = Inl err \<Longrightarrow> \<exists>x \<in> set xs. f x = Inl err"
  by (induction xs) (auto simp: err_simps)

lemma text_error: "textOperand e l v = Inl err \<Longrightarrow> operand_error err"
  by (auto simp: textOperand_def Let_def split: if_splits)

lemma number_error: "numberOperand e l v = Inl err \<Longrightarrow> operand_error err"
  by (auto simp: numberOperand_def Let_def split: if_splits)

lemma date_error: "dateOperand e l v = Inl err \<Longrightarrow> operand_error err"
  by (auto simp: dateOperand_def err_simps text_error split: if_splits)

lemma datetime_error: "datetimeOperand e l v = Inl err \<Longrightarrow> operand_error err"
  by (auto simp: datetimeOperand_def err_simps text_error split: option.splits)

lemma dynamic_error: "dynamicOperand e r = Inl err \<Longrightarrow> operand_error err"
  by (auto simp: dynamicOperand_def Let_def split: option.splits)

lemma list_error: "listOperands e l r = Inl err \<Longrightarrow> operand_error err"
  unfolding listOperands_def Let_def by (auto simp: err_simps split: if_splits dest!: mapE_error intro: text_error)

lemma numbers_error: "mapE (\<lambda>v. numberOperand e l (Some (JStr v))) raw = Inl err \<Longrightarrow> operand_error err"
  by (auto dest!: mapE_error intro: number_error)

lemmas operand_errors = text_error number_error date_error datetime_error dynamic_error list_error numbers_error

lemma date_rule_error:
  "op \<in> set [''eq'', ''neq'', ''gt'', ''lt'', ''gte'', ''lte'', ''between'', ''dynamic''] \<Longrightarrow> date_rule e f op r target ps = Inl err \<Longrightarrow> operand_error err"
  unfolding set_simps insert_iff empty_iff
  by (elim disjE) (auto simp: date_rule_def Let_def err_simps split_beta intro: operand_errors)

lemma datetime_rule_error:
  "op \<in> set [''eq'', ''neq'', ''gt'', ''lt'', ''gte'', ''lte'', ''between'', ''dynamic''] \<Longrightarrow> datetime_rule e f op r target ps = Inl err \<Longrightarrow> operand_error err"
  unfolding set_simps insert_iff empty_iff
  by (elim disjE) (auto simp: datetime_rule_def Let_def err_simps split_beta intro: operand_errors)

lemma number_rule_error:
  "op \<in> set [''eq'', ''neq'', ''gt'', ''gte'', ''lt'', ''lte'', ''between'', ''in'', ''not_in''] \<Longrightarrow> number_rule e f op r target ps = Inl err \<Longrightarrow> operand_error err"
  unfolding set_simps insert_iff empty_iff
  by (elim disjE) (auto simp: number_rule_def Let_def err_simps compare_sign_def intro: operand_errors)

lemma text_rule_error: "text_rule e f op r target ps = Inl err \<Longrightarrow> operand_error err"
proof -
  assume "text_rule e f op r target ps = Inl err"
  note def = this[unfolded text_rule_def Let_def]
  show ?thesis
  proof (cases "op = ''contains'' \<or> op = ''not_contains'' \<or> op = ''starts_with''")
    case True
    show ?thesis using def unfolding if_P[OF True] by (rule bindE_InlE) (simp_all add: text_error)
  next
    case False
    note def' = def[unfolded if_not_P[OF False]]
    show ?thesis
    proof (cases "op = ''in'' \<or> op = ''not_in''")
      case True
      show ?thesis using def' unfolding if_P[OF True] by (rule bindE_InlE) (simp_all add: list_error split: if_split_asm)
    next
      case False
      show ?thesis using def' unfolding if_not_P[OF False] by (rule bindE_InlE) (simp_all add: text_error split: if_split_asm)
    qed
  qed
qed

lemma compileMultiple_error:
  "op \<in> set MULTIPLE_OPERATORS \<Longrightarrow> compileMultiple e f op r target ps = Inl err \<Longrightarrow> operand_error err"
  unfolding MULTIPLE_OPERATORS_def set_simps insert_iff empty_iff
  by (elim disjE) (auto simp: compileMultiple_def Let_def err_simps split: if_splits intro: operand_errors)

lemmas operator_lists = TEXT_OPERATORS_def CHOICE_OPERATORS_def NUMBER_OPERATORS_def DATE_OPERATORS_def BOOLEAN_OPERATORS_def
  ATTACHMENT_OPERATORS_def tableFilterOperatorsFor_def

text \<open>Once field, permission, expression and operator are accepted, only the value can be wrong.\<close>

lemma compileRule_dispatch:
  assumes "find (\<lambda>c. f_key c = rule_key e r) (fe_fields e) = Some f" "fe_can e (rule_key e r)"
    "fe_expressions e (rule_key e r) = Some column" "column \<noteq> []" "rule_operator e r \<in> set (tableFilterOperatorsFor f)"
    "compileRule e r ps = Inl err"
  shows "operand_error err"
proof -
  let ?t = "fe_expression e column" and ?op = "rule_operator e r"
  note d = assms(6)[unfolded compileRule_def Let_def rule_key_def[symmetric] rule_operator_def[symmetric]]
  have "f_type f \<noteq> FStructured" using assms(5) by (auto simp: tableFilterOperatorsFor_def ATTACHMENT_OPERATORS_def split: if_splits)
  moreover have "f_type f = FAttachment \<Longrightarrow> ?op = ''has_attachment'' \<or> ?op = ''has_no_attachment''"
    using assms(5) by (simp add: tableFilterOperatorsFor_def ATTACHMENT_OPERATORS_def)
  ultimately have "\<not> f_multiple f \<and> ?op \<noteq> ''is_empty'' \<and> ?op \<noteq> ''is_not_empty'' \<and>
        (f_type f = FDate \<and> date_rule e f ?op r ?t ps = Inl err \<or> f_type f = FDatetime \<and> datetime_rule e f ?op r ?t ps = Inl err \<or>
         f_type f = FNumber \<and> number_rule e f ?op r ?t ps = Inl err) \<or>
      f_multiple f \<and> f_type f \<noteq> FAttachment \<and> f_type f \<noteq> FStructured \<and> compileMultiple e f ?op r ?t ps = Inl err \<or> text_rule e f ?op r ?t ps = Inl err"
    using d assms(1-5) by (simp split: if_split_asm) blast?
  moreover have "f_type f = FDate \<or> f_type f = FDatetime \<Longrightarrow> \<not> f_multiple f \<Longrightarrow> ?op \<noteq> ''is_empty'' \<Longrightarrow> ?op \<noteq> ''is_not_empty'' \<Longrightarrow>
      ?op \<in> set [''eq'', ''neq'', ''gt'', ''lt'', ''gte'', ''lte'', ''between'', ''dynamic'']"
    using assms(5) by (auto simp: tableFilterOperatorsFor_def DATE_OPERATORS_def)
  moreover have "f_type f = FNumber \<Longrightarrow> \<not> f_multiple f \<Longrightarrow> ?op \<noteq> ''is_empty'' \<Longrightarrow> ?op \<noteq> ''is_not_empty'' \<Longrightarrow>
      ?op \<in> set [''eq'', ''neq'', ''gt'', ''gte'', ''lt'', ''lte'', ''between'', ''in'', ''not_in'']"
    using assms(5) by (auto simp: tableFilterOperatorsFor_def NUMBER_OPERATORS_def)
  moreover have "f_multiple f \<Longrightarrow> f_type f \<noteq> FAttachment \<Longrightarrow> f_type f \<noteq> FStructured \<Longrightarrow> ?op \<in> set MULTIPLE_OPERATORS"
    using assms(5) by (simp add: tableFilterOperatorsFor_def)
  ultimately show ?thesis
    using date_rule_error datetime_rule_error number_rule_error compileMultiple_error text_rule_error by (metis (no_types, lifting))
qed

section \<open>The properties\<close>

definition sample_fields :: "field list" where
  "sample_fields = [\<lparr>f_key = ''name'', f_type = FText, f_multiple = False, f_options = []\<rparr>,
     \<lparr>f_key = ''created'', f_type = FDatetime, f_multiple = False, f_options = []\<rparr>,
     \<lparr>f_key = ''tags'', f_type = FDictionary, f_multiple = True, f_options = [(''a'', ''Alpha''), (''b'', ''Beta'')]\<rparr>,
     \<lparr>f_key = ''cost'', f_type = FNumber, f_multiple = False, f_options = []\<rparr>]"

definition sample_filter_env :: filter_env where
  "sample_filter_env = \<lparr>fe_host = \<lparr>num_str = (\<lambda>_. ''1''), sha256 = (\<lambda>_. []), url_protocol = (\<lambda>_. None)\<rparr>, fe_json = (\<lambda>_. None),
     fe_fields = sample_fields,
     fe_expressions = map_of [(''name'', ''t.name''), (''created'', ''t.created_at''), (''tags'', ''t.tags''), (''cost'', ''t.cost'')],
     fe_can = (\<lambda>k. k \<noteq> ''cost''), fe_expression = (\<lambda>c. c), fe_resolve = (\<lambda>_ _. None), fe_today = (2024, 2, 29)\<rparr>"

definition sample_filter :: json where
  "sample_filter = JObj [(''logic'', JStr ''any''), (''rules'', JArr
       [JObj [(''field'', JStr ''name''), (''operator'', JStr ''contains''), (''value'', JStr '' O'')],
        JObj [(''field'', JStr ''tags''), (''operator'', JStr ''contains_all''), (''values'', JArr [JStr ''Alpha'', JStr ''b''])]]),
     (''groups'', JArr [JObj [(''rules'', JArr [JObj [(''field'', JStr ''created''), (''operator'', JStr ''eq''), (''value'', JStr ''2024-02-29 08:30'')]])]])]"

lemma sample_env_ok: "env_ok sample_filter_env"
  by (simp add: env_ok_def sample_filter_env_def valid_date_def month_len_def leap_def)

lemma sample_compiles:
  "map_sum id (\<lambda>(ts, ps). (phs ts, ps)) (compile sample_filter_env (Some sample_filter) [PText ''x'']) =
     Inr ([2, 3, 4, 4], [PText ''x'', PText ''%O%'', PList [''a'', ''b''], PText ''2024-02-29 08:30:00+08:00''])"
  by code_simp

lemma sample_parses: "map_sum id (map (rule_key sample_filter_env) \<circ> all_rules) (parseFilterGroup (fe_host sample_filter_env) (fe_json sample_filter_env) (Some sample_filter)) =
    Inr [''name'', ''tags'', ''created'']"
  by code_simp

text \<open>C21: What the compiler sends to the database is built from its own fixed words, the expressions registered
  for fields the caller may filter by, and placeholders of exactly the parameters it appended: no text of the
  request reaches the SQL, no parameter is left unreferenced and the caller's earlier parameters stay in place.\<close>

theorem filter_sql_safe:
  assumes "env_ok e" and "compile e input ps = Inr (ts, ps')"
  shows "set (lits ts) \<subseteq> set sql_words \<and> (\<forall>c \<in> set (cols ts). permitted e c) \<and>
    set (phs ts) = {length ps <.. length ps'} \<and> take (length ps) ps' = ps"
proof -
  obtain g where "compileGroup e g ps = Inr (ts, ps')" using assms(2) by (auto simp: compile_def err_simps)
  from emits_compileGroup[OF assms(1) this] show ?thesis
    by (auto simp: emits_def list_all_iff word_def)
qed

lemma filter_sql_safe_witness:
  "\<exists>ts ps'. compile sample_filter_env (Some sample_filter) [PText ''x''] = Inr (ts, ps') \<and> set (phs ts) = {1 <.. length ps'} \<and> set (lits ts) \<subseteq> set sql_words"
proof -
  obtain ts ps' where c: "compile sample_filter_env (Some sample_filter) [PText ''x''] = Inr (ts, ps')"
    using sample_compiles by (cases "compile sample_filter_env (Some sample_filter) [PText ''x'']") auto
  from filter_sql_safe[OF sample_env_ok c] c show ?thesis by auto
qed

text \<open>A request is compiled only within its limits: at most 50 rules, four levels of nesting, two parameters a rule,
  and every text parameter is at most 502 characters long or a decimal number.\<close>

theorem filter_request_limits:
  assumes "env_ok e" and "compile e input ps = Inr (ts, ps')"
  shows "\<exists>g. parseFilterGroup (fe_host e) (fe_json e) input = Inr g \<and> length (all_rules g) \<le> 50 \<and> depth_of g \<le> 4 \<and>
    length ps' \<le> length ps + 2 * length (all_rules g) \<and>
    (\<forall>s. PText s \<in> set (drop (length ps) ps') \<longrightarrow> length s \<le> 502 \<or> numberPattern s)"
proof -
  obtain g where g: "parseFilterGroup (fe_host e) (fe_json e) input = Inr g" "compileGroup e g ps = Inr (ts, ps')"
    using assms(2) by (auto simp: compile_def err_simps)
  from parseFilterGroup_limits[OF g(1)] emits_compileGroup[OF assms(1) g(2)] g(1) show ?thesis
    by (auto simp: emits_def list_all_iff short_param_def maxFilterRules_def maxFilterDepth_def split: param.splits)
qed

lemma filter_request_limits_witness:
  "\<exists>g. parseFilterGroup (fe_host sample_filter_env) (fe_json sample_filter_env) (Some sample_filter) = Inr g \<and> length (all_rules g) \<le> 50 \<and> depth_of g \<le> 4"
proof -
  obtain ts ps' where c: "compile sample_filter_env (Some sample_filter) [PText ''x''] = Inr (ts, ps')"
    using sample_compiles by (cases "compile sample_filter_env (Some sample_filter) [PText ''x'']") auto
  from filter_request_limits[OF sample_env_ok c] show ?thesis by blast
qed

text \<open>C22: If a request compiles, every rule in it, at any depth, names a registered field the caller may filter by and an
  operator its type offers: one rule on a hidden field makes the whole request fail.\<close>

theorem filter_fields_permitted:
  assumes "compile e input ps = Inr c" and "parseFilterGroup (fe_host e) (fe_json e) input = Inr g" and "r \<in> set (all_rules g)"
  shows "\<exists>f \<in> set (fe_fields e). f_key f = rule_key e r \<and> fe_can e (f_key f) \<and> fe_expressions e (f_key f) \<noteq> None \<and>
    rule_operator e r \<in> set (tableFilterOperatorsFor f)"
proof -
  have "compileGroup e g ps = Inr c" using assms(1,2) by (simp add: compile_def)
  from compileGroup_permitted[OF this assms(3)] show ?thesis by (auto simp: rule_permitted_def)
qed

lemma filter_fields_permitted_witness:
  "\<exists>g. parseFilterGroup (fe_host sample_filter_env) (fe_json sample_filter_env) (Some sample_filter) = Inr g \<and>
    (\<exists>f \<in> set (fe_fields sample_filter_env). f_key f = rule_key sample_filter_env (all_rules g ! 2) \<and> fe_can sample_filter_env (f_key f))"
proof -
  obtain c where c: "compile sample_filter_env (Some sample_filter) [PText ''x''] = Inr c"
    using sample_compiles by (cases "compile sample_filter_env (Some sample_filter) [PText ''x'']") auto
  obtain g where g: "parseFilterGroup (fe_host sample_filter_env) (fe_json sample_filter_env) (Some sample_filter) = Inr g"
      "map (rule_key sample_filter_env) (all_rules g) = [''name'', ''tags'', ''created'']"
    using sample_parses by (cases "parseFilterGroup (fe_host sample_filter_env) (fe_json sample_filter_env) (Some sample_filter)") auto
  have "length (all_rules g) = 3" using arg_cong[OF g(2), of length] by simp
  then have "all_rules g ! 2 \<in> set (all_rules g)" by simp
  from filter_fields_permitted[OF c g(1) this] g(1) show ?thesis by blast
qed



text \<open>Each dynamic date keyword stands for an interval of days, printed as texts, that contains exactly the days it
  names: the last, this or next day, week or weeks, month or year as seen from today.\<close>

theorem dynamic_dates_cover:
  assumes "valid_date today" and "1001 \<le> fst today" and "fst today \<le> 9998" and "dynamicDateRange today key = Some (a, b)"
  shows "\<exists>x y. a = iso_text x \<and> b = iso_text y \<and> valid_date x \<and> valid_date y \<and>
    (\<forall>d. valid_date d \<longrightarrow> (day_no x \<le> day_no d \<and> day_no d \<le> day_no y \<longleftrightarrow> dynamic_days today (js_upper key) d))"
  using dynamic_range_days[OF assms] unfolding range_of_def prod.inject by blast

lemma dynamic_dates_cover_witness:
  "\<exists>x y. iso_text (2024, 2, 29) = iso_text x \<and> iso_text (2024, 2, 29) = iso_text y \<and> valid_date x \<and> valid_date y \<and>
    (\<forall>d. valid_date d \<longrightarrow> (day_no x \<le> day_no d \<and> day_no d \<le> day_no y \<longleftrightarrow> day_no d = day_no (2024, 2, 29)))"
proof -
  have u: "js_upper ''today'' = ''TODAY''" by code_simp
  have "dynamicDateRange (2024, 2, 29) ''today'' = Some (iso_text (2024, 2, 29), iso_text (2024, 2, 29))"
    by (simp add: dynamicDateRange_def u tableFilterDynamicDateKeys_def Let_def)
  moreover have "valid_date (2024, 2, 29)" by code_simp
  moreover have "dynamic_days (2024, 2, 29) ''TODAY'' d \<longleftrightarrow> day_no d = day_no (2024, 2, 29)" for d
    by (auto simp: dynamic_days_def Let_def)
  ultimately show ?thesis using dynamic_dates_cover[of "(2024, 2, 29)" "''today''"] by (simp add: u)
qed

end
