(* ===== verification/TextDiff.thy ===== *)
theory TextDiff
  imports "HOL-Library.Word" "HOL-Library.Sublist" Prelude
begin

text \<open>
  The two text comparisons of \<open>modules/rd/rd-duplicate-algorithm.ts\<close>: \<open>sequenceRatio\<close>, a dynamic
  program that keeps one row of 16-bit cells (\<open>Uint16Array\<close>), and \<open>diffParts\<close>, which cuts two texts
  into changed and unchanged parts.  Both are compared with the longest common subsequence.  The texts
  are lists over any type of characters.
\<close>

section \<open>Longest common subsequences\<close>

fun lcs :: "'a list \<Rightarrow> 'a list \<Rightarrow> nat" where
  "lcs [] ys = 0"
| "lcs (x # xs) [] = 0"
| "lcs (x # xs) (y # ys) = (if x = y then Suc (lcs xs ys) else max (lcs xs (y # ys)) (lcs (x # xs) ys))"

definition common :: "'a list \<Rightarrow> 'a list \<Rightarrow> 'a list \<Rightarrow> bool" where
  "common s xs ys \<longleftrightarrow> subseq s xs \<and> subseq s ys"

text \<open>\<open>lcs\<close> is the length of the longest common subsequence.\<close>

lemma lcs_reached: "\<exists>s. common s xs ys \<and> length s = lcs xs ys"
proof (induction xs ys rule: lcs.induct)
  case (3 x xs y ys)
  show ?case
  proof (cases "x = y")
    case True
    then obtain s where "common s xs ys" "length s = lcs xs ys" using 3(1) by blast
    then show ?thesis using True by (intro exI[of _ "x # s"]) (simp add: common_def)
  next
    case False
    then obtain s t where s: "common s xs (y # ys)" "length s = lcs xs (y # ys)" and t: "common t (x # xs) ys" "length t = lcs (x # xs) ys"
      using 3(2,3) by blast
    have "common s (x # xs) (y # ys)" "common t (x # xs) (y # ys)"
      using s(1) t(1) by (auto simp: common_def intro: list_emb_Cons)
    then show ?thesis using False s(2) t(2) by (cases "lcs xs (y # ys) \<le> lcs (x # xs) ys") (auto simp: max_def)
  qed
qed (auto simp: common_def)

lemma lcs_greatest: "common s xs ys \<Longrightarrow> length s \<le> lcs xs ys"
proof (induction xs ys arbitrary: s rule: lcs.induct)
  case (3 x xs y ys)
  show ?case
  proof (cases s)
    case (Cons z zs)
    have sub: "subseq (z # zs) (x # xs)" "subseq (z # zs) (y # ys)" using 3(4) by (simp_all add: common_def Cons)
    show ?thesis
    proof (cases "x = y")
      case True
      have "common zs xs ys" using sub subseq_Cons' by (auto simp: common_def split: if_splits)
      then show ?thesis using 3(1)[OF True] True by (simp add: Cons)
    next
      case False
      show ?thesis
      proof (cases "z = x")
        case True
        then have "common s (x # xs) ys" using sub False by (simp add: common_def Cons)
        then have "length s \<le> lcs (x # xs) ys" by (rule 3(3)[OF False])
        then show ?thesis using False by simp
      next
        case zx: False
        then have "common s xs (y # ys)" using sub by (simp add: common_def Cons)
        then have "length s \<le> lcs xs (y # ys)" by (rule 3(2)[OF False])
        then show ?thesis using False by simp
      qed
    qed
  qed simp
qed (auto simp: common_def)

lemma lcs_Max: "lcs xs ys = Max {length s |s. common s xs ys}"
proof (rule Max_eqI[symmetric])
  have "length s \<le> length xs" if "common s xs ys" for s using that by (auto simp: common_def dest: list_emb_length)
  then show "finite {length s |s. common s xs ys}" by (auto intro: finite_subset[of _ "{..length xs}"])
  show "lcs xs ys \<in> {length s |s. common s xs ys}" using lcs_reached[of xs ys] by force
qed (use lcs_greatest[of _ xs ys] in auto)

lemma subseq_revI: "subseq s xs \<Longrightarrow> subseq (rev s) (rev xs)"
  by (induction rule: list_emb.induct) (auto intro: list_emb_append_mono)

lemma common_rev: "common (rev s) (rev xs) (rev ys) \<longleftrightarrow> common s xs ys"
  using subseq_revI[of s] subseq_revI[of "rev s"] by (metis common_def rev_rev_ident)

lemma lcs_rev: "lcs (rev xs) (rev ys) = lcs xs ys"
proof -
  have le: "lcs as bs \<le> lcs (rev as) (rev bs)" for as bs :: "'a list"
  proof -
    obtain s where "common s as bs" "length s = lcs as bs" using lcs_reached by blast
    then show ?thesis using lcs_greatest[of "rev s" "rev as" "rev bs"] common_rev by auto
  qed
  from le[of xs ys] le[of "rev xs" "rev ys"] show ?thesis by simp
qed

lemma lcs_Nil2 [simp]: "lcs xs [] = 0"
  by (cases xs) simp_all

lemma lcs_le: "lcs xs ys \<le> length xs" "lcs xs ys \<le> length ys"
  by (induction xs ys rule: lcs.induct) auto

lemma lcs_append_same: "lcs (p @ xs) (p @ ys) = length p + lcs xs ys"
  by (induction p) simp_all

lemma lcs_trim: "lcs (p @ xs @ s) (p @ ys @ s) = length p + lcs xs ys + length s"
proof -
  have "lcs (xs @ s) (ys @ s) = lcs (rev (xs @ s)) (rev (ys @ s))" by (rule lcs_rev[symmetric])
  also have "\<dots> = length s + lcs (rev xs) (rev ys)" by (simp add: lcs_append_same)
  finally show ?thesis by (simp add: lcs_append_same lcs_rev)
qed

section \<open>sequenceRatio\<close>

text \<open>One pass of the inner loop: \<open>left\<close> is \<open>previous[j - 1]\<close>, already overwritten, \<open>diagonal\<close> its old value.\<close>

fun ratio_row :: "'a \<Rightarrow> 'a list \<Rightarrow> 16 word list \<Rightarrow> 16 word \<Rightarrow> 16 word \<Rightarrow> 16 word list" where
  "ratio_row c (b # bs) (up # previous) left diagonal =
     (let v = (if c = b then diagonal + 1 else max up left) in v # ratio_row c bs previous v up)"
| "ratio_row c _ _ left diagonal = []"

definition ratio_cells :: "'a list \<Rightarrow> 'a list \<Rightarrow> 16 word list" where
  "ratio_cells a b = foldl (\<lambda>previous c. ratio_row c b previous 0 0) (replicate (length b) 0) a"

definition sequenceRatio :: "'a list \<Rightarrow> 'a list \<Rightarrow> rat" where
  "sequenceRatio a b =
     (if a = [] \<and> b = [] then 1
      else of_nat (2 * unat (last (0 # ratio_cells a b))) / of_nat (if length a + length b = 0 then 1 else length a + length b))"

text \<open>The cells hold the longest common subsequences of the prefixes, while they fit in 16 bits.\<close>

lemma take_Suc_snoc: "j < length b \<Longrightarrow> rev (take (Suc j) b) = b ! j # rev (take j b)"
  by (simp add: take_Suc_conv_app_nth)

definition prefix_cells :: "'a list \<Rightarrow> 'a list \<Rightarrow> 16 word list" where
  "prefix_cells a b = map (\<lambda>j. of_nat (lcs (rev a) (rev (take (Suc j) b)))) [0..<length b]"

lemma ratio_row_step:
  assumes "length a < 65535" "length b \<le> 65535" "k \<le> length b"
  shows "ratio_row c (drop k b) (map (\<lambda>j. of_nat (lcs (rev a) (rev (take (Suc j) b)))) [k..<length b])
      (of_nat (lcs (c # rev a) (rev (take k b)))) (of_nat (lcs (rev a) (rev (take k b)))) =
    map (\<lambda>j. of_nat (lcs (c # rev a) (rev (take (Suc j) b)))) [k..<length b]"
  using assms(3)
proof (induction "length b - k" arbitrary: k)
  case 0
  then show ?case by simp
next
  case (Suc n)
  then have k: "k < length b" by simp
  have d: "drop k b = b ! k # drop (Suc k) b" using k by (simp add: Cons_nth_drop_Suc)
  have u: "[k..<length b] = k # [Suc k..<length b]" using k by (simp add: upt_rec)
  have bound: "lcs xs (rev (take j b)) < 2 ^ LENGTH(16)" for xs j
    using lcs_le(2)[of xs "rev (take j b)"] assms(2) by (simp add: min_def split: if_splits)
  have p16: "2 ^ LENGTH(16) = (65536 :: nat)" by simp
  have m: "max (of_nat x) (of_nat y) = (of_nat (max x y) :: 16 word)" if "x < 65536" "y < 65536" for x y
    using that by (simp add: max_def unsigned_of_nat take_bit_nat_eq_self word_le_nat_alt)
  have v: "(if c = b ! k then of_nat (lcs (rev a) (rev (take k b))) + 1
      else max (of_nat (lcs (rev a) (rev (take (Suc k) b)))) (of_nat (lcs (c # rev a) (rev (take k b))))) =
      (of_nat (lcs (c # rev a) (rev (take (Suc k) b))) :: 16 word)"
  proof (cases "c = b ! k")
    case True
    then show ?thesis by (simp only: take_Suc_snoc[OF k] lcs.simps if_True simp_thms of_nat_Suc add.commute)
  next
    case False
    show ?thesis unfolding if_not_P[OF False] m[OF bound[unfolded p16] bound[unfolded p16]]
      unfolding take_Suc_snoc[OF k] lcs.simps if_not_P[OF False] ..
  qed
  have ih: "n = length b - Suc k" "Suc k \<le> length b" using Suc.hyps(2) k by simp_all
  show ?case unfolding d u list.map ratio_row.simps Let_def v Suc.hyps(1)[OF ih] ..
qed

lemma ratio_cells_prefix: "length a \<le> 65535 \<Longrightarrow> length b \<le> 65535 \<Longrightarrow> ratio_cells a b = prefix_cells a b"
proof (induction a rule: rev_induct)
  case Nil
  then show ?case by (simp add: ratio_cells_def prefix_cells_def map_replicate_const)
next
  case (snoc c a)
  then have ih: "ratio_cells a b = prefix_cells a b" and l: "length a < 65535" by simp_all
  from ratio_row_step[OF l snoc.prems(2), of 0 c] show ?case
    using ih by (simp add: ratio_cells_def prefix_cells_def)
qed

lemma ratio_lcs:
  assumes "length a \<le> 65535" "length b \<le> 65535"
  shows "unat (last (0 # ratio_cells a b)) = lcs a b"
proof (cases "b = []")
  case True
  then show ?thesis using ratio_cells_prefix[OF assms] by (simp add: prefix_cells_def)
next
  case False
  then have "last (prefix_cells a b) = of_nat (lcs (rev a) (rev b))" "prefix_cells a b \<noteq> []"
    by (simp_all add: prefix_cells_def last_map)
  moreover have "lcs a b < 65536" using lcs_le(2)[of a b] assms(2) by simp
  ultimately show ?thesis
    by (simp add: ratio_cells_prefix[OF assms] lcs_rev unsigned_of_nat take_bit_nat_eq_self)
qed

section \<open>diffParts\<close>

text \<open>The table \<open>dp\<close>, filled from its last row; \<open>dp[i][m] = 0\<close> and \<open>dp[n][j] = 0\<close>.  Its cells are at most
  the number of characters, far below the range of the \<open>Uint32Array\<close>.\<close>

fun diff_row :: "'a \<Rightarrow> 'a list \<Rightarrow> nat list \<Rightarrow> nat list" where
  "diff_row c [] below = [0]"
| "diff_row c (b # bs) below =
     (let right = diff_row c bs (tl below)
      in (if c = b then 1 + hd (tl below) else max (hd below) (hd right)) # right)"

fun diff_table :: "'a list \<Rightarrow> 'a list \<Rightarrow> nat list list" where
  "diff_table [] b = [replicate (length b + 1) 0]"
| "diff_table (c # a) b = (let rows = diff_table a b in diff_row c b (hd rows) # rows)"

text \<open>The walk over the table, setting the flags \<open>ca\<close> and \<open>cb\<close> of the middle parts (\<open>True\<close>: changed).\<close>

function diff_walk :: "nat list list \<Rightarrow> 'a list \<Rightarrow> 'a list \<Rightarrow> nat \<Rightarrow> nat \<Rightarrow> bool list \<times> bool list \<Rightarrow> bool list \<times> bool list" where
  "diff_walk dp a b i j (ca, cb) =
     (if i < length a \<and> j < length b then
        if a ! i = b ! j then diff_walk dp a b (i + 1) (j + 1) (ca[i := False], cb[j := False])
        else if dp ! (i + 1) ! j \<ge> dp ! i ! (j + 1) then diff_walk dp a b (i + 1) j (ca, cb)
        else diff_walk dp a b i (j + 1) (ca, cb)
      else (ca, cb))"
  by pat_completeness auto

termination
  by (relation "measure (\<lambda>(dp, a, b, i, j, c). (length a - i) + (length b - j))") auto

declare diff_walk.simps [simp del]

fun shared_prefix :: "'a list \<Rightarrow> 'a list \<Rightarrow> nat" where
  "shared_prefix (x # xs) (y # ys) = (if x = y then Suc (shared_prefix xs ys) else 0)"
| "shared_prefix _ _ = 0"

text \<open>The flags of the whole texts: a common prefix, a common suffix of the rest, and the walk in between
  (nothing in between is marked unchanged when the table would be too large).\<close>

definition diff_flags :: "'a list \<Rightarrow> 'a list \<Rightarrow> bool list \<times> bool list" where
  "diff_flags a b =
     (let p = shared_prefix a b;
          s = shared_prefix (rev (drop p a)) (rev (drop p b));
          ma = take (length a - p - s) (drop p a);
          mb = take (length b - p - s) (drop p b);
          start = (replicate (length ma) True, replicate (length mb) True);
          (fa, fb) = (if length ma * length mb \<le> 250000 then diff_walk (diff_table ma mb) ma mb 0 0 start else start)
      in (replicate p False @ fa @ replicate s False, replicate p False @ fb @ replicate s False))"

fun parts_step :: "('a list \<times> bool) list \<Rightarrow> 'a \<times> bool \<Rightarrow> ('a list \<times> bool) list" where
  "parts_step out (c, f) =
     (if out \<noteq> [] \<and> snd (last out) = f then butlast out @ [(fst (last out) @ [c], f)] else out @ [([c], f)])"

definition diff_parts :: "'a list \<Rightarrow> bool list \<Rightarrow> ('a list \<times> bool) list" where
  "diff_parts chars flags = foldl parts_step [] (zip chars flags)"

definition diffParts :: "'a list \<Rightarrow> 'a list \<Rightarrow> ('a list \<times> bool) list \<times> ('a list \<times> bool) list" where
  "diffParts left right = (case diff_flags left right of (ca, cb) \<Rightarrow> (diff_parts left ca, diff_parts right cb))"

section \<open>What the parts are\<close>

text \<open>The characters a list of flags leaves unchanged.\<close>

definition kept :: "'a list \<Rightarrow> bool list \<Rightarrow> 'a list" where
  "kept xs fs = map fst (filter (\<lambda>(c, f). \<not> f) (zip xs fs))"

lemma kept_append: "length xs = length fs \<Longrightarrow> kept (xs @ ys) (fs @ gs) = kept xs fs @ kept ys gs"
  by (simp add: kept_def)

lemma kept_const [simp]: "kept xs (replicate (length xs) True) = []" "kept xs (replicate (length xs) False) = xs"
  by (induction xs) (simp_all add: kept_def)

lemma kept_subseq: "subseq (kept xs fs) xs"
proof (induction xs arbitrary: fs)
  case (Cons x xs)
  then show ?case by (cases fs) (auto simp: kept_def intro: list_emb_Cons)
qed (simp add: kept_def)

text \<open>The table holds the longest common subsequences of the remainders.\<close>

definition suffix_cells :: "'a list \<Rightarrow> 'a list \<Rightarrow> nat list" where
  "suffix_cells a b = map (\<lambda>j. lcs a (drop j b)) [0..<Suc (length b)]"

lemma suffix_cells_simps: "suffix_cells a [] = [0]" "suffix_cells a (x # b) = lcs a (x # b) # suffix_cells a b"
proof -
  have "[0..<Suc (length (x # b))] = 0 # map Suc [0..<Suc (length b)]" 
    using upt_conv_Cons[of 0 "Suc (length (x # b))"] by (simp only: map_Suc_upt list.size add_Suc_right add_0_right zero_less_Suc)
  then show "suffix_cells a (x # b) = lcs a (x # b) # suffix_cells a b" by (simp add: suffix_cells_def del: upt_Suc)
qed (simp add: suffix_cells_def)

lemma suffix_cells_hd: "hd (suffix_cells a b) = lcs a b"
  by (cases b) (simp_all add: suffix_cells_simps)

lemma diff_row_cells: "diff_row c b (suffix_cells a b) = suffix_cells (c # a) b"
  by (induction b) (simp_all add: suffix_cells_simps suffix_cells_hd Let_def)

lemma diff_table_hd: "hd (diff_table a b) = suffix_cells a b"
proof (induction a)
  case Nil
  have "map (\<lambda>j. 0) [0..<Suc (length b)] = replicate (length b + 1) (0 :: nat)" by (simp only: map_replicate_const) simp
  then show ?case by (simp add: suffix_cells_def del: upt_Suc)
qed (simp add: Let_def diff_row_cells)

lemma diff_table_nth: "i \<le> length a \<Longrightarrow> diff_table a b ! i = suffix_cells (drop i a) b"
proof (induction a arbitrary: i)
  case Nil
  then show ?case using diff_table_hd[of "[]" b] by simp
next
  case (Cons c a)
  then show ?case using diff_table_hd[of "c # a" b] by (cases i) (simp_all add: Let_def)
qed

lemma diff_table_cell: "i \<le> length a \<Longrightarrow> j \<le> length b \<Longrightarrow> diff_table a b ! i ! j = lcs (drop i a) (drop j b)"
  by (simp add: diff_table_nth suffix_cells_def nth_map[of j "[0..<Suc (length b)]"] del: upt_Suc)

text \<open>The walk without indices.\<close>

fun lcs_walk :: "'a list \<Rightarrow> 'a list \<Rightarrow> bool list \<times> bool list" where
  "lcs_walk (x # xs) (y # ys) =
     (if x = y then map_prod ((#) False) ((#) False) (lcs_walk xs ys)
      else if lcs xs (y # ys) \<ge> lcs (x # xs) ys then map_prod ((#) True) id (lcs_walk xs (y # ys))
      else map_prod id ((#) True) (lcs_walk (x # xs) ys))"
| "lcs_walk xs ys = (replicate (length xs) True, replicate (length ys) True)"

lemma lcs_walk_base: "xs = [] \<or> ys = [] \<Longrightarrow> lcs_walk xs ys = (replicate (length xs) True, replicate (length ys) True)"
  by (cases xs; cases ys) simp_all

lemma walk_lengths: "length (fst (lcs_walk xs ys)) = length xs \<and> length (snd (lcs_walk xs ys)) = length ys"
  by (induction xs ys rule: lcs_walk.induct) auto

lemma walk_kept: "kept xs (fst (lcs_walk xs ys)) = kept ys (snd (lcs_walk xs ys)) \<and> length (kept xs (fst (lcs_walk xs ys))) = lcs xs ys"
  by (induction xs ys rule: lcs_walk.induct) (auto simp: kept_def simp flip: kept_const(1) simp: kept_const[unfolded kept_def])

lemma take_update: "i < length ca \<Longrightarrow> take (Suc i) (ca[i := v]) = take i ca @ [v]"
  by (simp add: take_Suc_conv_app_nth)

lemma diff_walk_walk:
  assumes "dp = diff_table a b"
  shows "i \<le> length a \<Longrightarrow> j \<le> length b \<Longrightarrow> length ca = length a \<Longrightarrow> length cb = length b \<Longrightarrow>
    drop i ca = replicate (length a - i) True \<Longrightarrow> drop j cb = replicate (length b - j) True \<Longrightarrow>
    diff_walk dp a b i j (ca, cb) = (take i ca @ fst (lcs_walk (drop i a) (drop j b)), take j cb @ snd (lcs_walk (drop i a) (drop j b)))"
  using assms
proof (induction dp a b i j "(ca, cb)" arbitrary: ca cb rule: diff_walk.induct)
  case (1 dp a b i j ca cb)
  show ?case
  proof (cases "i < length a \<and> j < length b")
    case False
    then have "drop i a = [] \<or> drop j b = []" using 1 by auto
    then have "lcs_walk (drop i a) (drop j b) = (drop i ca, drop j cb)" using 1(8,9) by (simp add: lcs_walk_base)
    then show ?thesis using False by (subst diff_walk.simps) auto
  next
    case True
    have d: "drop i a = a ! i # drop (Suc i) a" "drop j b = b ! j # drop (Suc j) b" using True by (simp_all add: Cons_nth_drop_Suc)
    have c: "drop (Suc i) ca = replicate (length a - Suc i) True" "drop (Suc j) cb = replicate (length b - Suc j) True"
      "take (Suc i) ca = take i ca @ [True]" "take (Suc j) cb = take j cb @ [True]"
    proof -
      show "drop (Suc i) ca = replicate (length a - Suc i) True" using arg_cong[OF 1(8), of tl] by (simp add: drop_Suc tl_drop)
      show "drop (Suc j) cb = replicate (length b - Suc j) True" using arg_cong[OF 1(9), of tl] by (simp add: drop_Suc tl_drop)
      have "ca ! i = True" using 1(8) True 1(6) by (metis hd_drop_conv_nth hd_replicate length_drop length_greater_0_conv replicate_empty zero_less_diff)
      then show "take (Suc i) ca = take i ca @ [True]" using True 1(6) by (simp add: take_Suc_conv_app_nth)
      have "cb ! j = True" using 1(9) True 1(7) by (metis hd_drop_conv_nth hd_replicate length_drop length_greater_0_conv replicate_empty zero_less_diff)
      then show "take (Suc j) cb = take j cb @ [True]" using True 1(7) by (simp add: take_Suc_conv_app_nth)
    qed
    have cells: "dp ! (i + 1) ! j = lcs (drop (Suc i) a) (drop j b)" "dp ! i ! (j + 1) = lcs (drop i a) (drop (Suc j) b)"
      using True 1(10) by (simp_all add: diff_table_cell)
    consider (eq) "a ! i = b ! j" | (down) "a ! i \<noteq> b ! j" "dp ! (i + 1) ! j \<ge> dp ! i ! (j + 1)"
      | (right) "a ! i \<noteq> b ! j" "\<not> dp ! (i + 1) ! j \<ge> dp ! i ! (j + 1)" by blast
    then show ?thesis
    proof cases
      case eq
      have "diff_walk dp a b i j (ca, cb) = diff_walk dp a b (i + 1) (j + 1) (ca[i := False], cb[j := False])"
        using True eq by (subst diff_walk.simps) simp
      also have "\<dots> = (take (i + 1) (ca[i := False]) @ fst (lcs_walk (drop (i + 1) a) (drop (j + 1) b)),
          take (j + 1) (cb[j := False]) @ snd (lcs_walk (drop (i + 1) a) (drop (j + 1) b)))"
        using True 1(4-7,10) c by (intro 1(1)[OF True eq]) (simp_all add: drop_update_cancel)
      finally show ?thesis using eq True 1(6,7) by (simp add: d take_update map_prod_def split_beta)
    next
      case down
      have "diff_walk dp a b i j (ca, cb) = diff_walk dp a b (i + 1) j (ca, cb)"
        using True down by (subst diff_walk.simps) simp
      also have "\<dots> = (take (i + 1) ca @ fst (lcs_walk (drop (i + 1) a) (drop j b)), take j cb @ snd (lcs_walk (drop (i + 1) a) (drop j b)))"
        using True 1(4-10) c by (intro 1(2)[OF True down]) simp_all
      finally show ?thesis using down c(3) cells by (simp add: d map_prod_def split_beta)
    next
      case right
      have "diff_walk dp a b i j (ca, cb) = diff_walk dp a b i (j + 1) (ca, cb)"
        using True right by (subst diff_walk.simps) simp
      also have "\<dots> = (take i ca @ fst (lcs_walk (drop i a) (drop (j + 1) b)), take (j + 1) cb @ snd (lcs_walk (drop i a) (drop (j + 1) b)))"
        using True 1(4-10) c by (intro 1(3)[OF True right]) simp_all
      finally show ?thesis using right c(4) cells by (simp add: d map_prod_def split_beta)
    qed
  qed
qed

lemma diff_walk_start:
  "diff_walk (diff_table a b) a b 0 0 (replicate (length a) True, replicate (length b) True) = lcs_walk a b"
  using diff_walk_walk[OF refl, of 0 a 0 b "replicate (length a) True" "replicate (length b) True"] by simp

lemma shared_prefix_split: "\<exists>p xs ys. a = p @ xs \<and> b = p @ ys \<and> length p = shared_prefix a b"
proof (induction a b rule: shared_prefix.induct)
  case (1 x xs y ys)
  show ?case
  proof (cases "x = y")
    case True
    then obtain p us vs where "xs = p @ us" "ys = p @ vs" "length p = shared_prefix xs ys" using 1 by blast
    then show ?thesis using True by (intro exI[of _ "x # p"] exI[of _ us] exI[of _ vs]) simp
  qed simp
qed auto

text \<open>The whole split: prefix, middle, suffix.\<close>

lemma diff_flags_split:
  obtains p ma mb s fa fb where "a = p @ ma @ s" "b = p @ mb @ s" "length fa = length ma" "length fb = length mb"
    "diff_flags a b = (replicate (length p) False @ fa @ replicate (length s) False, replicate (length p) False @ fb @ replicate (length s) False)"
    "kept ma fa = kept mb fb" "length ma * length mb \<le> 250000 \<longrightarrow> length (kept ma fa) = lcs ma mb"
proof -
  obtain p xs ys where p: "a = p @ xs" "b = p @ ys" "length p = shared_prefix a b" using shared_prefix_split by blast
  obtain t us vs where t: "rev xs = t @ us" "rev ys = t @ vs" "length t = shared_prefix (rev xs) (rev ys)" using shared_prefix_split by blast
  have x: "xs = rev us @ rev t" "ys = rev vs @ rev t" using arg_cong[OF t(1), of rev] arg_cong[OF t(2), of rev] by simp_all
  define f where "f = (if length us * length vs \<le> 250000 then lcs_walk (rev us) (rev vs) else (replicate (length us) True, replicate (length vs) True))"
  have "drop (shared_prefix a b) a = xs" "drop (shared_prefix a b) b = ys" unfolding p(3)[symmetric] by (simp_all add: p(1,2))
  moreover have "take (length a - shared_prefix a b - length t) xs = rev us" "take (length b - shared_prefix a b - length t) ys = rev vs"
    unfolding p(3)[symmetric] by (simp_all add: p(1,2) x)
  moreover have "length a - shared_prefix a b - length t = length us" "length b - shared_prefix a b - length t = length vs"
    unfolding p(3)[symmetric] by (simp_all add: p(1,2) x)
  ultimately have flags: "diff_flags a b = (replicate (length p) False @ fst f @ replicate (length (rev t)) False, replicate (length p) False @ snd f @ replicate (length (rev t)) False)"
    using diff_walk_start[of "rev us" "rev vs"]
    by (simp add: diff_flags_def Let_def t(3)[symmetric] p(3)[symmetric] f_def split_beta)
  have K: "kept (rev us) (fst f) = kept (rev vs) (snd f) \<and> (length (rev us) * length (rev vs) \<le> 250000 \<longrightarrow> length (kept (rev us) (fst f)) = lcs (rev us) (rev vs))"
  proof (cases "length (rev us) * length (rev vs) \<le> 250000")
    case True
    then have f: "f = lcs_walk (rev us) (rev vs)" by (simp only: f_def if_True length_rev)
    show ?thesis unfolding f using walk_kept by blast
  next
    case False
    then have f: "f = (replicate (length us) True, replicate (length vs) True)" by (simp only: f_def if_False length_rev)
    show ?thesis using False kept_const(1)[of "rev us"] kept_const(1)[of "rev vs"] unfolding f by simp
  qed
  have l: "length (fst f) = length (rev us)" "length (snd f) = length (rev vs)" using walk_lengths[of "rev us" "rev vs"] by (simp_all add: f_def)
  have ab: "a = p @ rev us @ rev t" "b = p @ rev vs @ rev t" using p(1,2) x by simp_all
  show ?thesis by (rule that[OF ab l flags conjunct1[OF K] conjunct2[OF K]])
qed

text \<open>Grouping flagged characters into parts loses nothing.\<close>

definition alternating :: "'a list \<times> bool \<Rightarrow> 'a list \<times> bool \<Rightarrow> bool" where
  "alternating p q \<longleftrightarrow> snd p \<noteq> snd q"

definition parts_ok :: "('a list \<times> bool) list \<Rightarrow> ('a \<times> bool) list \<Rightarrow> bool" where
  "parts_ok out zs \<longleftrightarrow> concat (map fst out) = map fst zs \<and>
     concat (map fst (filter (\<lambda>(s, f). \<not> f) out)) = map fst (filter (\<lambda>(c, f). \<not> f) zs) \<and>
     (\<forall>p \<in> set out. fst p \<noteq> []) \<and> successively alternating out"

lemma parts_step_ok: "parts_ok out zs \<Longrightarrow> parts_ok (parts_step out z) (zs @ [z])"
proof (cases z)
  case (Pair c f)
  assume ok: "parts_ok out zs"
  show ?thesis
  proof (cases "out \<noteq> [] \<and> snd (last out) = f")
    case True
    then obtain ps s where o: "out = ps @ [(s, f)]" by (cases out rule: rev_cases) auto
    have step: "parts_step (ps @ [(s, f)]) (c, f) = ps @ [(s @ [c], f)]" by simp
    have alt: "alternating p (s @ [c], f) \<longleftrightarrow> alternating p (s, f)" for p by (simp add: alternating_def)
    have sc: "successively alternating (ps @ [(s @ [c], f)])"
      using ok unfolding o parts_ok_def successively_append_iff by (simp add: alt)
    have "concat (map fst (ps @ [(s @ [c], f)])) = map fst (zs @ [(c, f)])"
      using ok[unfolded o parts_ok_def, THEN conjunct1] by simp
    moreover have "concat (map fst (filter (\<lambda>(s, f). \<not> f) (ps @ [(s @ [c], f)]))) = map fst (filter (\<lambda>(c, f). \<not> f) (zs @ [(c, f)]))"
      using ok[unfolded o parts_ok_def, THEN conjunct2, THEN conjunct1] by (cases f) simp_all
    moreover have "\<forall>p \<in> set (ps @ [(s @ [c], f)]). fst p \<noteq> []" using ok by (auto simp: o parts_ok_def)
    ultimately show ?thesis using sc unfolding Pair o step parts_ok_def by blast
  next
    case False
    then have step: "parts_step out (c, f) = out @ [([c], f)]" by auto
    have "out = [] \<or> alternating (last out) ([c], f)" using False by (auto simp: alternating_def)
    with ok show ?thesis unfolding Pair step parts_ok_def by (cases f) (simp_all add: successively_append_iff)
  qed
qed

lemma diff_parts_ok: "parts_ok (diff_parts xs fs) (zip xs fs)"
proof -
  have "parts_ok (foldl parts_step [] zs) zs" for zs :: "('a \<times> bool) list"
    by (induction zs rule: rev_induct) (simp_all add: parts_step_ok del: parts_step.simps, simp add: parts_ok_def)
  then show ?thesis by (simp add: diff_parts_def)
qed

definition parts_text :: "('a list \<times> bool) list \<Rightarrow> 'a list" where
  "parts_text ps = concat (map fst ps)"

definition unchanged_text :: "('a list \<times> bool) list \<Rightarrow> 'a list" where
  "unchanged_text ps = concat (map fst (filter (\<lambda>(s, f). \<not> f) ps))"

lemma parts_ok_texts: "parts_ok ps zs \<longleftrightarrow> parts_text ps = map fst zs \<and> unchanged_text ps = map fst (filter (\<lambda>(c, f). \<not> f) zs) \<and>
    (\<forall>p \<in> set ps. fst p \<noteq> []) \<and> successively alternating ps"
  by (simp only: parts_ok_def parts_text_def unchanged_text_def)

lemma diff_flags_ok:
  assumes "diff_flags a b = (ca, cb)"
  shows "length ca = length a \<and> length cb = length b \<and> kept a ca = kept b cb \<and>
    (length a * length b \<le> 250000 \<longrightarrow> length (kept a ca) = lcs a b)"
proof -
  obtain p ma mb s fa fb where h: "a = p @ ma @ s" "b = p @ mb @ s" "length fa = length ma" "length fb = length mb"
    "diff_flags a b = (replicate (length p) False @ fa @ replicate (length s) False, replicate (length p) False @ fb @ replicate (length s) False)"
    "kept ma fa = kept mb fb" "length ma * length mb \<le> 250000 \<longrightarrow> length (kept ma fa) = lcs ma mb"
    by (rule diff_flags_split[of a b])
  have c: "ca = replicate (length p) False @ fa @ replicate (length s) False" "cb = replicate (length p) False @ fb @ replicate (length s) False"
    using assms h(5) by simp_all
  have k: "kept a ca = p @ kept ma fa @ s" "kept b cb = p @ kept mb fb @ s"
    using h(3,4) by (simp_all add: c h(1,2) kept_append)
  have "length ma * length mb \<le> length a * length b" unfolding h(1,2) by (intro mult_le_mono) simp_all
  then show ?thesis using h(3,4,6,7) by (auto simp: c h(1,2) k[unfolded h(1,2) c] lcs_trim)
qed

section \<open>The properties\<close>

text \<open>C24: The 16-bit dynamic program computes twice the length of the longest common subsequence over the total length,
  for texts short enough for the cells.\<close>

theorem sequenceRatio_lcs:
  assumes "length a \<le> 65535" and "length b \<le> 65535" and "a \<noteq> [] \<or> b \<noteq> []"
  shows "sequenceRatio a b = of_nat (2 * Max {length s |s. subseq s a \<and> subseq s b}) / of_nat (length a + length b)"
proof -
  have "length a + length b \<noteq> 0" using assms(3) by simp
  then show ?thesis using assms(3) lcs_Max[of a b] unfolding sequenceRatio_def ratio_lcs[OF assms(1,2)] common_def by auto
qed

lemma sequenceRatio_lcs_witness:
  "sequenceRatio ''abcab'' ''bcb'' = 3 / 4 \<and> Max {length s |s. subseq s ''abcab'' \<and> subseq s ''bcb''} = 3"
proof -
  have r: "sequenceRatio ''abcab'' ''bcb'' = 3 / 4" by code_simp
  have "sequenceRatio ''abcab'' ''bcb'' = of_nat (2 * Max {length s |s. subseq s ''abcab'' \<and> subseq s ''bcb''}) / of_nat 8"
    using sequenceRatio_lcs[of "''abcab''" "''bcb''"] by simp
  with r show ?thesis by (simp add: field_simps)
qed



end
