(* ===== verification/MaterialFeatures.thy ===== *)
theory MaterialFeatures
  imports TextDiff "HOL-Library.List_Lexorder" "HOL-Library.Product_Lexorder"
begin

text \<open>
  The features and the pairwise comparison of \<open>modules/rd/rd-duplicate-algorithm.ts\<close>.  A text is the
  list of its UTF-16 code units; the Chinese words of the rules are written out as such.  Unicode
  normalisation with lower case, the letter classes of the regular expression engine, number printing
  and the collation of \<open>localeCompare\<close> are the fields of \<open>unicode\<close>, a parameter.  Scores are
  rationals; the doubles of the code are their roundings.
\<close>

type_synonym utext = "nat list"

record unicode =
  nfkc_lower :: "utext \<Rightarrow> utext"
  word_char :: "nat \<Rightarrow> bool"
  num_canon :: "utext \<Rightarrow> utext"
  collate :: "utext \<Rightarrow> utext \<Rightarrow> int"

section \<open>Words of the rules\<close>

definition PHI :: nat where "PHI = 0x3A6"

definition STAR :: nat where "STAR = 42"

text \<open>\<open>TIMES\<close> is the letter x or the multiplication sign.\<close>

definition is_times :: "nat \<Rightarrow> bool" where
  "is_times c \<longleftrightarrow> c = 120 \<or> c = 0xD7"

definition is_digit :: "nat \<Rightarrow> bool" where
  "is_digit c \<longleftrightarrow> 48 \<le> c \<and> c \<le> 57"

definition is_space :: "nat \<Rightarrow> bool" where
  "is_space c \<longleftrightarrow> 9 \<le> c \<and> c \<le> 13 \<or> c \<in> set [32, 0xA0, 0x1680, 0x2028, 0x2029, 0x202F, 0x205F, 0x3000, 0xFEFF] \<or> 0x2000 \<le> c \<and> c \<le> 0x200A"

definition utf :: "string \<Rightarrow> utext" where
  "utf s = map of_char s"

definition QUALIFIERS :: "utext list" where
  "QUALIFIERS = [[0x53CC, 0x8BED], [0x5355, 0x8BED], [0x4E2D, 0x6587], [0x82F1, 0x6587],
     [0x5355, 0x9762], [0x53CC, 0x9762], [0x7EA2, 0x8272], [0x84DD, 0x8272]]"

definition categories :: "utext list" where
  "categories = [[0x87BA, 0x9489], [0x87BA, 0x6813], [0x87BA, 0x6BCD], [0x57AB, 0x5708], [0x87BA, 0x6746],
     [0x8D34, 0x7EB8], [0x6807, 0x7B7E], [0x7EB8, 0x7BB1], [0x5706, 0x7BA1], [0x94A2, 0x677F]]"

definition UNDETERMINED :: utext where "UNDETERMINED = [0x672A, 0x786E, 0x5B9A]"

definition attributes :: "(utext \<times> utext list) list" where
  "attributes =
     [([0x6750, 0x8D28], [utf ''201'', utf ''304'', utf ''316'', utf ''430'', utf ''q195'', utf ''q215'', utf ''q235'', utf ''6061'', utf ''6063'',
         [0x78B3, 0x94A2], [0x5C3C, 0x9F99]]),
      ([0x6273, 0x62E7, 0x65B9, 0x5F0F], [[0x5185, 0x516D, 0x89D2], [0x5916, 0x516D, 0x89D2], [0x4E00, 0x5B57, 0x69FD], [0x5341, 0x5B57, 0x69FD]]),
      ([0x5934, 0x578B], [[0x5706, 0x67F1, 0x5934], [0x76D8, 0x5934], [0x534A, 0x6C89, 0x5934], [0x6C89, 0x5934], [0x5E73, 0x7AEF], [0x9525, 0x7AEF]]),
      ([0x8868, 0x9762, 0x5904, 0x7406], [[0x9540, 0x5F69, 0x950C], [0x9540, 0x9ED1, 0x950C], [0x9540, 0x950C], [0x9540, 0x94EC], [0x9540, 0x954D],
         [0x53D1, 0x9ED1], [0x78F7, 0x5316], [0x53CC, 0x9762, 0x62C9, 0x4E1D], [0x5355, 0x9762, 0x62C9, 0x4E1D]]),
      ([0x8BED, 0x8A00], [[0x5355, 0x8BED], [0x53CC, 0x8BED]])]"

text \<open>\<open>replaceAll\<close> and \<open>includes\<close>.\<close>

fun starts_with :: "utext \<Rightarrow> utext \<Rightarrow> bool" where
  "starts_with [] ys = True"
| "starts_with (x # xs) [] = False"
| "starts_with (x # xs) (y # ys) = (x = y \<and> starts_with xs ys)"

fun has_word :: "utext \<Rightarrow> utext \<Rightarrow> bool" where
  "has_word w [] = (w = [])"
| "has_word w (c # cs) = (starts_with w (c # cs) \<or> has_word w cs)"

function replace_all :: "utext \<Rightarrow> utext \<Rightarrow> utext \<Rightarrow> utext" where
  "replace_all w r [] = []"
| "replace_all w r (c # cs) = (if w \<noteq> [] \<and> starts_with w (c # cs) then r @ replace_all w r (drop (length w) (c # cs)) else c # replace_all w r cs)"
  by pat_completeness auto

termination
  by (relation "measure (\<lambda>(w, r, s). length s)") auto

section \<open>Normalisation\<close>

text \<open>\<open>(?<=d)s*[x*]s*(?=d)\<close> becomes a star; \<open>prev\<close> tells whether the character before is a digit.\<close>

definition times_match :: "utext \<Rightarrow> utext option" where
  "times_match s = (case dropWhile is_space s of
     [] \<Rightarrow> None
   | c # r \<Rightarrow> if is_times c then (case dropWhile is_space r of [] \<Rightarrow> None | d # u \<Rightarrow> if is_digit d then Some (d # u) else None) else None)"

lemma times_match_shorter: "times_match s = Some r \<Longrightarrow> length r < length s"
proof -
  assume m: "times_match s = Some r"
  then obtain c t where t: "dropWhile is_space s = c # t" "r = dropWhile is_space t"
    by (auto simp: times_match_def split: list.splits if_splits)
  have "length r \<le> length t" unfolding t(2) by (rule length_dropWhile_le)
  also have "\<dots> < length (dropWhile is_space s)" by (simp add: t(1))
  also have "\<dots> \<le> length s" by (rule length_dropWhile_le)
  finally show ?thesis .
qed

function star_times :: "bool \<Rightarrow> utext \<Rightarrow> utext" where
  "star_times prev [] = []"
| "star_times prev (c # cs) =
     (case (if prev then times_match (c # cs) else None) of
        Some r \<Rightarrow> STAR # star_times False r
      | None \<Rightarrow> c # star_times (is_digit c) cs)"
  by pat_completeness auto

termination
  by (relation "measure (\<lambda>(p, s). length s)") (auto dest!: times_match_shorter split: if_splits)

fun unescape_star :: "utext \<Rightarrow> utext" where
  "unescape_star (c # d # cs) = (if c = 92 \<and> d = STAR then STAR # unescape_star cs else c # unescape_star (d # cs))"
| "unescape_star cs = cs"

definition material_normalize :: "unicode \<Rightarrow> utext \<Rightarrow> utext" where
  "material_normalize u text =
     filter (\<lambda>c. \<not> is_space c)
       (star_times False (map (\<lambda>c. if c = 0x3C6 \<or> c = 0xF8 then PHI else c) (unescape_star (nfkc_lower u text))))"

text \<open>\<open>(?<=d)[x*](?=[Phi d])\<close> of \<open>canonical\<close>.\<close>

fun star_tight :: "bool \<Rightarrow> utext \<Rightarrow> utext" where
  "star_tight prev (c # d # cs) =
     (if prev \<and> is_times c \<and> (d = PHI \<or> is_digit d) then STAR # star_tight False (d # cs) else c # star_tight (is_digit c) (d # cs))"
| "star_tight prev cs = cs"

definition canonical_text :: "unicode \<Rightarrow> utext \<Rightarrow> utext" where
  "canonical_text u value = star_tight False (material_normalize u value)"

section \<open>Specifications in a text\<close>

text \<open>A decimal \<open>d+(.d+)?\<close> at the start of a text, and the rest.\<close>

definition decimal_at :: "utext \<Rightarrow> (utext \<times> utext) option" where
  "decimal_at s =
     (let ip = takeWhile is_digit s; r = dropWhile is_digit s; fp = takeWhile is_digit (drop 1 r)
      in if ip = [] then None
         else if take 1 r = [46] \<and> fp \<noteq> [] then Some (ip @ [46] @ fp, dropWhile is_digit (drop 1 r))
         else Some (ip, r))"

lemma decimal_at_split: "decimal_at s = Some (m, r) \<Longrightarrow> s = m @ r \<and> m \<noteq> []"
proof -
  assume a: "decimal_at s = Some (m, r)"
  let ?ip = "takeWhile is_digit s" and ?r = "dropWhile is_digit s"
  have "take 1 ?r = [46] \<Longrightarrow> ?r = 46 # drop 1 ?r" by (cases ?r) auto
  then show ?thesis using a takeWhile_dropWhile_id[of is_digit s] takeWhile_dropWhile_id[of is_digit "drop 1 ?r"]
    by (auto simp: decimal_at_def Let_def split: if_splits)
qed

lemma decimal_at_shorter: "decimal_at s = Some (m, t) \<Longrightarrow> length t < length s"
  using decimal_at_split[of s m t] by auto

text \<open>The loop \<open>(?:*(?:Phi)?decimal)+\<close>, as many rounds as possible.\<close>

definition factor_at :: "utext \<Rightarrow> (utext \<times> utext) option" where
  "factor_at s = (case s of
     [] \<Rightarrow> None
   | c # r \<Rightarrow> if c \<noteq> STAR then None
      else if take 1 r = [PHI] then map_option (\<lambda>(m, t). (STAR # PHI # m, t)) (decimal_at (drop 1 r))
      else map_option (\<lambda>(m, t). (STAR # m, t)) (decimal_at r))"

lemma factor_at_split: "factor_at s = Some (m, r) \<Longrightarrow> s = m @ r \<and> m \<noteq> []"
proof -
  assume a: "factor_at s = Some (m, r)"
  then obtain t where s: "s = STAR # t" by (auto simp: factor_at_def split: list.splits if_splits)
  have "take 1 t = [PHI] \<Longrightarrow> t = PHI # drop 1 t" by (cases t) auto
  then show ?thesis using a by (auto simp: factor_at_def s dest!: decimal_at_split split: if_splits)
qed

function factors_at :: "utext \<Rightarrow> utext \<times> utext" where
  "factors_at s = (case factor_at s of None \<Rightarrow> ([], s) | Some (m, r) \<Rightarrow> (case factors_at r of (ms, t) \<Rightarrow> (m @ ms, t)))"
  by pat_completeness auto

termination
  by (relation "measure length") (auto dest!: factor_at_split)

declare factors_at.simps [simp del]

definition spec_at :: "utext \<Rightarrow> (utext \<times> utext) option" where
  "spec_at s =
     (let lead = (if take 1 s = [116] \<or> take 1 s = [PHI] then take 1 s else []); body = drop (length lead) s in
      case decimal_at body of
        None \<Rightarrow> None
      | Some (m, r) \<Rightarrow> (case factors_at r of (ms, t) \<Rightarrow> if ms = [] then None else Some (lead @ m @ ms, t)))"

lemma factors_at_split: "factors_at s = (ms, t) \<Longrightarrow> s = ms @ t"
proof (induction s arbitrary: ms t rule: factors_at.induct)
  case (1 s)
  show ?case
  proof (cases "factor_at s")
    case None
    then show ?thesis using 1(2) by (simp add: factors_at.simps)
  next
    case (Some mr)
    obtain m r where mr: "mr = (m, r)" by (cases mr)
    obtain ks v where k: "factors_at r = (ks, v)" by (cases "factors_at r")
    have "r = ks @ v" by (rule 1(1)[OF Some mr[symmetric] k])
    moreover have "(ms, t) = (m @ ks, v)" using 1(2) by (subst (asm) factors_at.simps) (simp add: Some mr k)
    ultimately show ?thesis using factor_at_split[of s m r] Some mr by simp
  qed
qed

lemma spec_at_shorter:
  assumes "spec_at s = Some (m, t)"
  shows "length t < length s"
proof -
  define lead where "lead = (if take 1 s = [116] \<or> take 1 s = [PHI] then take 1 s else [])"
  obtain d r where d: "decimal_at (drop (length lead) s) = Some (d, r)"
    using assms by (auto simp: spec_at_def Let_def lead_def split: option.splits)
  obtain ms v where f: "factors_at r = (ms, v)" by (cases "factors_at r")
  have "t = v" using assms d f unfolding spec_at_def Let_def lead_def[symmetric] by (simp split: if_splits)
  moreover have "length r < length (drop (length lead) s)" using decimal_at_split[OF d] by simp
  moreover have "length v \<le> length r" using factors_at_split[OF f] by simp
  ultimately show ?thesis by simp
qed

text \<open>\<open>normalized.match(SPEC)\<close> and \<open>normalized.replace(SPEC, "")\<close>: matches from left to right.\<close>

function spec_scan :: "utext \<Rightarrow> utext list \<times> utext" where
  "spec_scan [] = ([], [])"
| "spec_scan (c # cs) =
     (case spec_at (c # cs) of
        Some (m, t) \<Rightarrow> (case spec_scan t of (ms, r) \<Rightarrow> (m # ms, r))
      | None \<Rightarrow> (case spec_scan cs of (ms, r) \<Rightarrow> (ms, c # r)))"
  by pat_completeness auto

termination
  by (relation "measure length") (auto dest!: spec_at_shorter)

text \<open>\<open>matchAll(decimal)\<close>.\<close>

function decimals :: "utext \<Rightarrow> utext list" where
  "decimals [] = []"
| "decimals (c # cs) = (case decimal_at (c # cs) of Some (m, t) \<Rightarrow> m # decimals t | None \<Rightarrow> decimals cs)"
  by pat_completeness auto

termination
  by (relation "measure length") (auto dest!: decimal_at_shorter)

section \<open>Features\<close>

record features =
  ft_normalized :: utext
  ft_specs :: "utext list"
  ft_numbers :: "utext list"
  ft_qualifiers :: "utext list"
  ft_core :: utext
  ft_chars :: "nat list"

definition core_words :: "(utext \<times> utext) list" where
  "core_words = [([0x6613, 0x788E, 0x7269, 0x54C1, 0x6807, 0x8BC6], [0x6613, 0x788E]), ([0x6613, 0x788E, 0x54C1], [0x6613, 0x788E]),
     ([0x6807, 0x7B7E, 0x8D34, 0x7EB8], [0x6807, 0x7B7E]), ([0x8D34, 0x7EB8], [0x6807, 0x7B7E])]"

definition featuresFromNormalized :: "unicode \<Rightarrow> utext \<Rightarrow> features" where
  "featuresFromNormalized u normalized =
     (let (found, rest) = spec_scan normalized;
          specs = js_dedup found;
          numbers = concat (map (\<lambda>s. map (num_canon u) (decimals s)) specs);
          qualifiers = sort (filter (\<lambda>q. has_word q normalized) QUALIFIERS);
          bare = foldl (\<lambda>core q. replace_all q [] core) rest qualifiers;
          named = foldl (\<lambda>core (w, r). replace_all w r core) bare core_words;
          core = filter (\<lambda>c. word_char u c \<or> 0x4E00 \<le> c \<and> c \<le> 0x9FFF) named
      in \<lparr>ft_normalized = normalized, ft_specs = specs, ft_numbers = numbers, ft_qualifiers = qualifiers, ft_core = core, ft_chars = js_dedup core\<rparr>)"

section \<open>Comparison of two materials\<close>

datatype warning = SpecDiffers | SpecMarkDiffers | SpecMissing | QualifierDiffers "utext list" | QualifierConflict | SeveralSpecs
  | CommonWarning | NameOnly | PartialAttributes

definition toFixed1 :: "rat \<Rightarrow> rat" where
  "toFixed1 r = of_int \<lfloor>r * 10 + 1 / 2\<rfloor> / 10"

definition conflicting :: "utext list \<Rightarrow> utext list \<Rightarrow> bool" where
  "conflicting aq bq = list_ex (\<lambda>(x, y). QUALIFIERS ! x \<in> set aq \<and> QUALIFIERS ! y \<in> set bq \<or> QUALIFIERS ! y \<in> set aq \<and> QUALIFIERS ! x \<in> set bq)
     [(0, 1), (4, 5), (6, 7)]"

definition overlap_of :: "features \<Rightarrow> features \<Rightarrow> rat" where
  "overlap_of a b =
     (let i = length (filter (\<lambda>c. c \<in> set (ft_chars b)) (ft_chars a))
      in of_nat i / (of_nat (length (ft_chars a)) + of_nat (length (ft_chars b)) - of_nat i))"

text \<open>Each \<open>if\<close> of the code lowers or raises the score and may add a warning.\<close>

definition spec_score :: "features \<Rightarrow> features \<Rightarrow> rat \<Rightarrow> rat \<times> warning list" where
  "spec_score a b score =
     (if ft_specs a \<noteq> [] \<and> ft_specs b \<noteq> [] then
        if ft_specs a = ft_specs b then (score + 30, [])
        else if ft_numbers a \<noteq> ft_numbers b then (min score 45, [SpecDiffers])
        else (min (score + 15) 75, [SpecMarkDiffers])
      else (min score 70, [SpecMissing]))"

definition qualifier_score :: "features \<Rightarrow> features \<Rightarrow> rat \<times> warning list \<Rightarrow> rat \<times> warning list" where
  "qualifier_score a b = (\<lambda>(score, ws).
     (let aq = js_dedup (ft_qualifiers a); bq = js_dedup (ft_qualifiers b);
          differing = sort (filter (\<lambda>v. v \<notin> set aq \<or> v \<notin> set bq) (js_dedup (aq @ bq)));
          r1 = (if aq \<noteq> bq then (min score 88, ws @ [QualifierDiffers differing]) else (score, ws))
      in if conflicting aq bq then (min (fst r1) 40, snd r1 @ [QualifierConflict]) else r1))"

definition material_compare :: "features \<Rightarrow> features \<Rightarrow> (rat \<times> warning list) option" where
  "material_compare a b =
     (if ft_chars a = [] \<or> ft_chars b = [] then None
      else if overlap_of a b < 38 / 100 then None
      else let (s1, w1) = qualifier_score a b (spec_score a b (60 * overlap_of a b + 10 * sequenceRatio (ft_core a) (ft_core b)));
               (s2, w2) = (if 1 < length (ft_specs a) \<or> 1 < length (ft_specs b) then (min s1 60, w1 @ [SeveralSpecs]) else (s1, w1))
           in if s2 < 35 then None else Some (toFixed1 s2, w2))"

section \<open>Prepared materials\<close>

record candidate =
  m_row :: nat
  m_code :: utext
  m_name :: utext
  m_spec :: utext
  m_source :: "utext option"

record prepared = candidate +
  m_nameKey :: utext
  m_specKey :: utext
  m_matchText :: utext
  m_category :: utext
  m_f :: features
  m_attrs :: "(utext \<times> utext list) list"
  m_numbers :: "utext list"

definition blank_specs :: "utext list" where
  "blank_specs = [[], [45], [0x2014], [47], [0x65E0], [0x672A, 0x6CE8, 0x660E]]"

definition prepareMaterial :: "unicode \<Rightarrow> candidate \<Rightarrow> prepared" where
  "prepareMaterial u r =
     (let nameKey = canonical_text u (m_name r); sourceSpecKey = canonical_text u (m_spec r);
          specKey = (if sourceSpecKey \<in> set blank_specs then [] else sourceSpecKey);
          f = featuresFromNormalized u (canonical_text u (nameKey @ [32] @ specKey));
          txt' = canonical_text u (nameKey @ sourceSpecKey)
      in \<lparr>m_row = m_row r, m_code = m_code r, m_name = m_name r, m_spec = m_spec r, m_source = m_source r,
          m_nameKey = nameKey, m_specKey = specKey, m_matchText = txt',
          m_category = (case find (\<lambda>w. has_word w nameKey) categories of Some w \<Rightarrow> w | None \<Rightarrow> UNDETERMINED),
          m_f = f, m_attrs = map (\<lambda>(k, terms). (k, js_dedup (filter (\<lambda>w. has_word w txt') terms))) attributes,
          m_numbers = decimals txt'\<rparr>)"

text \<open>\<open>Object.keys(a.attrs).some(...)\<close>.\<close>

definition attr_of :: "prepared \<Rightarrow> utext \<Rightarrow> utext list" where
  "attr_of p k = (case map_of (m_attrs p) k of Some ts \<Rightarrow> ts | None \<Rightarrow> [])"

definition attrs_differ :: "prepared \<Rightarrow> prepared \<Rightarrow> bool" where
  "attrs_differ a b = list_ex (\<lambda>k. attr_of a k \<noteq> [] \<and> attr_of b k \<noteq> [] \<and> attr_of a k \<noteq> attr_of b k) (map fst (m_attrs a))"

definition attrs_partial :: "prepared \<Rightarrow> prepared \<Rightarrow> bool" where
  "attrs_partial a b = list_ex (\<lambda>k. (attr_of a k \<noteq> []) \<noteq> (attr_of b k \<noteq> [])) (map fst (m_attrs a))"

definition categories_differ :: "prepared \<Rightarrow> prepared \<Rightarrow> bool" where
  "categories_differ a b \<longleftrightarrow> m_category a \<noteq> m_category b \<and> UNDETERMINED \<notin> set [m_category a, m_category b]"

section \<open>Ranking\<close>

record ranked = candidate +
  r_score :: rat
  r_warnings :: "warning list"

definition candidatePool :: "prepared \<Rightarrow> prepared list \<Rightarrow> prepared list" where
  "candidatePool target source =
     (if m_category target = UNDETERMINED then source
      else filter (\<lambda>p. m_category p = m_category target \<or> m_category p = UNDETERMINED) source)"

definition rankOne :: "prepared \<Rightarrow> prepared \<Rightarrow> ranked option" where
  "rankOne target c =
     (if m_nameKey c = [] \<and> m_specKey c = [] then None
      else if categories_differ target c then None
      else if attrs_differ target c then None
      else
        let match = material_compare (m_f target) (m_f c);
            lexical = sequenceRatio (m_matchText target) (m_matchText c) * 100;
            base = max (case match of Some (s, _) \<Rightarrow> s | None \<Rightarrow> 0) lexical;
            score = (if m_nameKey target = m_nameKey c \<and> m_specKey target = m_specKey c then 100
                     else if m_nameKey target = [] \<or> m_specKey target = [] then min base 85 else base)
        in if score < 20 then None
           else Some \<lparr>m_row = m_row c, m_code = m_code c, m_name = m_name c, m_spec = m_spec c, m_source = None,
                      r_score = toFixed1 score, r_warnings = (case match of Some (_, ws) \<Rightarrow> ws | None \<Rightarrow> [])\<rparr>)"

fun insert_ranked :: "unicode \<Rightarrow> ranked \<Rightarrow> ranked list \<Rightarrow> ranked list" where
  "insert_ranked u x [] = [x]"
| "insert_ranked u x (y # ys) =
     (if r_score y < r_score x \<or> r_score y = r_score x \<and> collate u (m_code x) (m_code y) \<le> 0 then x # y # ys else y # insert_ranked u x ys)"

definition sortRanked :: "unicode \<Rightarrow> ranked list \<Rightarrow> nat \<Rightarrow> ranked list" where
  "sortRanked u rs limit = take limit (foldr (insert_ranked u) rs [])"

definition rankPrepared :: "unicode \<Rightarrow> utext \<Rightarrow> utext \<Rightarrow> prepared list \<Rightarrow> nat \<Rightarrow> ranked list" where
  "rankPrepared u name spec source limit =
     (let target = prepareMaterial u \<lparr>m_row = 0, m_code = [], m_name = name, m_spec = spec, m_source = None\<rparr>
      in sortRanked u (List.map_filter (rankOne target) (candidatePool target source)) limit)"

end
