(* ===== verification/MaterialScan.thy ===== *)
theory MaterialScan
  imports MaterialFeatures "HOL-Library.Multiset"
begin

text \<open>
  The history scan of \<open>modules/rd/rd-duplicate-algorithm.ts\<close>: \<open>scanPreparedRows\<close> looks at the whole
  material library, \<open>scanChangedPreparedRows\<close> only reports groups with a changed row.  The code writes the
  two out separately, and so does the model.  \<open>add\<close> numbers the groups as it pushes them, so a scan is
  first the list of its findings (\<open>finding\<close>) in the order of the pushes, then their description.
  Progress callbacks and the time stamp of the result are left out.
\<close>

section \<open>Buckets in insertion order\<close>

definition add_to :: "'k \<Rightarrow> nat \<Rightarrow> ('k \<times> nat list) list \<Rightarrow> ('k \<times> nat list) list" where
  "add_to k i m =
     (if k \<in> set (map fst m) then map (\<lambda>(k', is). if k' = k then (k', is @ [i]) else (k', is)) m else m @ [(k, [i])])"

record buckets =
  b_exact :: "((utext \<times> utext) \<times> nat list) list"
  b_missing :: "(utext \<times> nat list) list"
  b_codes :: "(utext \<times> nat list) list"
  b_blocks :: "((utext list + utext) \<times> nat list) list"

text \<open>\<open>candidateKeys\<close>: the specifications, or the raw text of the specification column.\<close>

definition candidateKeys :: "prepared \<Rightarrow> (utext list + utext) list" where
  "candidateKeys r = (if ft_specs (m_f r) \<noteq> [] then [Inl (ft_specs (m_f r))] else if m_specKey r \<noteq> [] then [Inr (m_specKey r)] else [])"

definition add_row :: "prepared \<times> nat \<Rightarrow> buckets \<Rightarrow> buckets" where
  "add_row = (\<lambda>(r, i) b.
     (let b1 = b\<lparr>b_codes := add_to (m_code r) i (b_codes b)\<rparr>;
          b2 = (if m_nameKey r \<noteq> []
                then if m_specKey r \<noteq> [] then b1\<lparr>b_exact := add_to (m_nameKey r, m_specKey r) i (b_exact b1)\<rparr>
                     else b1\<lparr>b_missing := add_to (m_nameKey r) i (b_missing b1)\<rparr>
                else b1)
      in b2\<lparr>b_blocks := foldl (\<lambda>m k. add_to k i m) (b_blocks b2) (candidateKeys r)\<rparr>))"

definition fill :: "prepared list \<Rightarrow> buckets" where
  "fill rows = fold add_row (zip rows [0..<length rows]) \<lparr>b_exact = [], b_missing = [], b_codes = [], b_blocks = []\<rparr>"

section \<open>Findings\<close>

datatype gkind = Exact | Similar | Missing | Code

record finding =
  fi_kind :: gkind
  fi_indexes :: "nat list"
  fi_score :: "rat option"
  fi_warnings :: "warning list"

definition several_codes :: "prepared list \<Rightarrow> nat list \<Rightarrow> bool" where
  "several_codes rows is \<longleftrightarrow> 1 < length (js_dedup (map (\<lambda>i. m_code (rows ! i)) is))"

definition exact_finding :: "nat list \<Rightarrow> finding" where
  "exact_finding is = \<lparr>fi_kind = Exact, fi_indexes = is, fi_score = Some 95, fi_warnings = [CommonWarning]\<rparr>"

definition missing_finding :: "nat list \<Rightarrow> finding" where
  "missing_finding is = \<lparr>fi_kind = Missing, fi_indexes = is, fi_score = None, fi_warnings = [NameOnly, CommonWarning]\<rparr>"

definition code_finding :: "nat list \<Rightarrow> finding" where
  "code_finding is = \<lparr>fi_kind = Code, fi_indexes = is, fi_score = None, fi_warnings = [CommonWarning]\<rparr>"

definition repeated_code :: "prepared list \<Rightarrow> nat list \<Rightarrow> bool" where
  "repeated_code rows is \<longleftrightarrow> is \<noteq> [] \<and> m_code (rows ! hd is) \<noteq> [] \<and> 1 < length is"

text \<open>Pairs \<open>x < y\<close> of a bucket, in the order of the two loops.\<close>

fun pairs :: "nat list \<Rightarrow> (nat \<times> nat) list" where
  "pairs [] = []"
| "pairs (i # is) = map (\<lambda>j. (i, j)) is @ pairs is"

definition compared :: "prepared list \<Rightarrow> nat \<times> nat \<Rightarrow> bool" where
  "compared rows = (\<lambda>(i, j). let a = rows ! i; b = rows ! j in
     \<not> (m_code a = m_code b \<or> m_nameKey a = m_nameKey b \<and> m_specKey a = m_specKey b))"

definition similar_finding :: "prepared list \<Rightarrow> nat \<times> nat \<Rightarrow> finding option" where
  "similar_finding rows = (\<lambda>(i, j).
     (let a = rows ! i; b = rows ! j in
      if categories_differ a b \<or> attrs_differ a b \<or> sort (m_numbers a) \<noteq> sort (m_numbers b) then None
      else case material_compare (m_f a) (m_f b) of
        None \<Rightarrow> None
      | Some (score, ws) \<Rightarrow>
          if score < 80 then None
          else Some \<lparr>fi_kind = Similar, fi_indexes = [i, j], fi_score = Some (min score 90),
                 fi_warnings = (if attrs_partial a b then [PartialAttributes] else []) @ ws @ [CommonWarning]\<rparr>))"

record counters =
  c_compared :: nat
  c_blocks :: nat
  c_pairs :: nat

text \<open>The pairs of the small buckets, and what is counted on the way.\<close>

definition small_buckets :: "(('k \<times> nat list) list) \<Rightarrow> nat list list" where
  "small_buckets m = filter (\<lambda>is. \<not> 120 < length is) (map snd m)"

definition large_buckets :: "(('k \<times> nat list) list) \<Rightarrow> nat list list" where
  "large_buckets m = filter (\<lambda>is. 120 < length is) (map snd m)"

definition pair_count :: "nat list \<Rightarrow> nat" where
  "pair_count is = length is * (length is - 1) div 2"

definition count_scan :: "prepared list \<Rightarrow> buckets \<Rightarrow> counters" where
  "count_scan rows b =
     \<lparr>c_compared = length (filter (compared rows) (concat (map pairs (small_buckets (b_blocks b))))),
      c_blocks = length (large_buckets (b_blocks b)),
      c_pairs = sum_list (map pair_count (large_buckets (b_blocks b)))\<rparr>"

definition scan_findings :: "prepared list \<Rightarrow> finding list" where
  "scan_findings rows =
     (let b = fill rows in
      map exact_finding (filter (several_codes rows) (map snd (b_exact b))) @
      map missing_finding (filter (several_codes rows) (map snd (b_missing b))) @
      map code_finding (filter (repeated_code rows) (map snd (b_codes b))) @
      List.map_filter (similar_finding rows) (filter (compared rows) (concat (map pairs (small_buckets (b_blocks b))))))"

text \<open>The incremental scan: rows whose source changed, and only groups and pairs with such a row.\<close>

definition changed_indexes :: "prepared list \<Rightarrow> utext set \<Rightarrow> nat list" where
  "changed_indexes rows ids = filter (\<lambda>i. case m_source (rows ! i) of Some s \<Rightarrow> s \<noteq> [] \<and> s \<in> ids | None \<Rightarrow> False) [0..<length rows]"

definition touches :: "nat list \<Rightarrow> nat list \<Rightarrow> bool" where
  "touches changed is = list_ex (\<lambda>i. i \<in> set changed) is"

definition scan_changed_findings :: "prepared list \<Rightarrow> utext set \<Rightarrow> finding list" where
  "scan_changed_findings rows ids =
     (let b = fill rows; changed = changed_indexes rows ids in
      map exact_finding (filter (\<lambda>is. touches changed is \<and> several_codes rows is) (map snd (b_exact b))) @
      map missing_finding (filter (\<lambda>is. touches changed is \<and> several_codes rows is) (map snd (b_missing b))) @
      map code_finding (filter (\<lambda>is. touches changed is \<and> repeated_code rows is) (map snd (b_codes b))) @
      List.map_filter (\<lambda>(i, j). if i \<notin> set changed \<and> j \<notin> set changed then None else similar_finding rows (i, j))
        (filter (compared rows) (concat (map pairs (small_buckets (b_blocks b))))))"

section \<open>Groups\<close>

record group =
  g_id :: nat
  g_kind :: gkind
  g_score :: "rat option"
  g_warnings :: "warning list"
  g_count :: nat
  g_distinct :: nat
  g_records :: "candidate list"
  g_truncated :: bool
  g_search :: utext

definition candidate_of :: "prepared \<Rightarrow> candidate" where
  "candidate_of p = \<lparr>m_row = m_row p, m_code = m_code p, m_name = m_name p, m_spec = m_spec p, m_source = m_source p\<rparr>"

fun join_lines :: "utext list \<Rightarrow> utext" where
  "join_lines [] = []"
| "join_lines [x] = x"
| "join_lines (x # y # ys) = x @ [10] @ join_lines (y # ys)"

definition describe :: "prepared list \<Rightarrow> nat \<Rightarrow> finding \<Rightarrow> group" where
  "describe rows n f =
     (let records = map (\<lambda>i. rows ! i) (fi_indexes f) in
      \<lparr>g_id = n, g_kind = fi_kind f, g_score = fi_score f, g_warnings = fi_warnings f, g_count = length records,
       g_distinct = length (js_dedup (map m_code records)), g_records = map candidate_of (take 50 records),
       g_truncated = (50 < length records),
       g_search = join_lines (map (\<lambda>r. m_code r @ [32] @ m_name r @ [32] @ m_spec r) records)\<rparr>)"

definition number :: "prepared list \<Rightarrow> finding list \<Rightarrow> group list" where
  "number rows fs = map (\<lambda>(f, n). describe rows n f) (zip fs [1..<length fs + 1])"

fun kind_order :: "gkind \<Rightarrow> nat" where
  "kind_order Exact = 0" | "kind_order Similar = 1" | "kind_order Missing = 2" | "kind_order Code = 3"

definition group_key :: "group \<Rightarrow> nat \<times> rat \<times> int \<times> nat" where
  "group_key g = (kind_order (g_kind g), - (case g_score g of Some s \<Rightarrow> s | None \<Rightarrow> 0), - int (g_count g), g_id g)"

record scan_result =
  sr_rows :: nat
  sr_groups :: "group list"
  sr_counts :: "(gkind \<times> nat) list"
  sr_counters :: counters

definition finishGroups :: "prepared list \<Rightarrow> group list \<Rightarrow> counters \<Rightarrow> scan_result" where
  "finishGroups rows groups cs =
     \<lparr>sr_rows = length rows, sr_groups = sort_key group_key groups,
      sr_counts = map (\<lambda>k. (k, length (filter (\<lambda>g. g_kind g = k) groups))) [Exact, Similar, Missing, Code], sr_counters = cs\<rparr>"

definition scanPreparedRows :: "prepared list \<Rightarrow> scan_result" where
  "scanPreparedRows rows = finishGroups rows (number rows (scan_findings rows)) (count_scan rows (fill rows))"

definition scanChangedPreparedRows :: "prepared list \<Rightarrow> utext set \<Rightarrow> scan_result" where
  "scanChangedPreparedRows rows ids = finishGroups rows (number rows (scan_changed_findings rows ids)) (count_scan rows (fill rows))"

definition scanRows :: "unicode \<Rightarrow> candidate list \<Rightarrow> scan_result" where
  "scanRows u source = scanPreparedRows (map (prepareMaterial u) source)"

section \<open>The incremental scan against the full one\<close>

lemma map_filter_filter: "(\<And>x y. f x = Some y \<Longrightarrow> Q y \<longleftrightarrow> P x) \<Longrightarrow> List.map_filter f (filter P xs) = filter Q (List.map_filter f xs)"
  by (induction xs) (auto simp: List.map_filter_simps split: option.splits)

lemma filter_map_finding: "(\<And>is. fi_indexes (mk is) = is) \<Longrightarrow>
    filter (\<lambda>f. touches c (fi_indexes f)) (map mk xs) = map mk (filter (touches c) xs)"
  by (induction xs) auto

lemma changed_findings_filter:
  "scan_changed_findings rows ids = filter (\<lambda>f. touches (changed_indexes rows ids) (fi_indexes f)) (scan_findings rows)"
proof -
  let ?c = "changed_indexes rows ids" and ?b = "fill rows"
  have conj: "filter (\<lambda>is. touches ?c is \<and> P is) xs = filter (touches ?c) (filter P xs)" for P xs by (induction xs) auto
  have s: "List.map_filter (\<lambda>(i, j). if i \<notin> set ?c \<and> j \<notin> set ?c then None else similar_finding rows (i, j)) ps =
      filter (\<lambda>f. touches ?c (fi_indexes f)) (List.map_filter (similar_finding rows) ps)" for ps
  proof -
    have "List.map_filter (\<lambda>(i, j). if i \<notin> set ?c \<and> j \<notin> set ?c then None else similar_finding rows (i, j)) ps =
        List.map_filter (similar_finding rows) (filter (\<lambda>(i, j). i \<in> set ?c \<or> j \<in> set ?c) ps)"
      by (induction ps) (auto simp: List.map_filter_simps split: option.splits if_splits)
    also have "\<dots> = filter (\<lambda>f. touches ?c (fi_indexes f)) (List.map_filter (similar_finding rows) ps)"
      by (rule map_filter_filter)
        (auto simp: similar_finding_def Let_def touches_def split: if_splits option.splits prod.splits)
    finally show ?thesis .
  qed
  show ?thesis
    unfolding scan_changed_findings_def scan_findings_def Let_def filter_append s conj
    by (simp add: filter_map_finding exact_finding_def missing_finding_def code_finding_def)
qed

text \<open>Buckets hold, in row order, the rows with their key.\<close>

lemma map_of_update: "map_of (map (\<lambda>(k', is). if k' = k then (k', is @ [i]) else (k', is)) m) k' =
    (if k' = k then map_option (\<lambda>is. is @ [i]) (map_of m k) else map_of m k')"
  by (induction m) auto

lemma map_of_add_to: "map_of (add_to k i m) k' =
    (if k' = k then Some ((case map_of m k of None \<Rightarrow> [] | Some is \<Rightarrow> is) @ [i]) else map_of m k')"
proof (cases "k \<in> set (map fst m)")
  case True
  then obtain js where "map_of m k = Some js" by (metis map_of_eq_None_iff not_None_eq set_map)
  then show ?thesis using True by (simp add: add_to_def map_of_update)
next
  case False
  then have "map_of m k = None" by (simp add: map_of_eq_None_iff)
  then show ?thesis using False by (auto simp: add_to_def map_add_def split: option.splits)
qed

lemma fold_filter_buckets:
  "map_of (fold (\<lambda>(r, i) m. if c r then add_to (key r) i m else m) rs m) k =
    (let is = map snd (filter (\<lambda>(r, i). c r \<and> key r = k) rs)
     in if is = [] then map_of m k else Some ((case map_of m k of None \<Rightarrow> [] | Some js \<Rightarrow> js) @ is))"
  by (induction rs arbitrary: m) (auto simp: Let_def map_of_add_to split: option.splits if_splits)

lemma exact_buckets:
  "b_exact (fold add_row rs b) =
    fold (\<lambda>(r, i) m. if m_nameKey r \<noteq> [] \<and> m_specKey r \<noteq> [] then add_to (m_nameKey r, m_specKey r) i m else m) rs (b_exact b)"
  by (induction rs arbitrary: b) (auto simp: add_row_def Let_def)

lemma exact_bucket:
  assumes "i < length rows" "m_nameKey (rows ! i) \<noteq> []" "m_specKey (rows ! i) \<noteq> []"
  obtains ks where "ks \<in> set (map snd (b_exact (fill rows)))"
    "\<And>j. j \<in> set ks \<longleftrightarrow> j < length rows \<and> m_nameKey (rows ! j) = m_nameKey (rows ! i) \<and> m_specKey (rows ! j) = m_specKey (rows ! i)"
proof -
  let ?k = "(m_nameKey (rows ! i), m_specKey (rows ! i))"
  let ?is = "map snd (filter (\<lambda>(r, j). (m_nameKey r \<noteq> [] \<and> m_specKey r \<noteq> []) \<and> (m_nameKey r, m_specKey r) = ?k) (zip rows [0..<length rows]))"
  have mem: "j \<in> set ?is \<longleftrightarrow> j < length rows \<and> m_nameKey (rows ! j) = m_nameKey (rows ! i) \<and> m_specKey (rows ! j) = m_specKey (rows ! i)" for j
    using assms(2,3) by (force simp: set_zip image_iff)
  then have "?is \<noteq> []" using assms(1) by fastforce
  then have "map_of (b_exact (fill rows)) ?k = Some ?is"
    unfolding fill_def exact_buckets fold_filter_buckets Let_def by simp
  then have "?is \<in> set (map snd (b_exact (fill rows)))" by (force dest: map_of_SomeD)
  then show ?thesis using mem by (rule that)
qed

lemma several_codes_two: "i \<in> set is \<Longrightarrow> j \<in> set is \<Longrightarrow> m_code (rows ! i) \<noteq> m_code (rows ! j) \<Longrightarrow> several_codes rows is"
proof -
  assume h: "i \<in> set is" "j \<in> set is" "m_code (rows ! i) \<noteq> m_code (rows ! j)"
  let ?xs = "js_dedup (map (\<lambda>i. m_code (rows ! i)) is)"
  have "{m_code (rows ! i), m_code (rows ! j)} \<subseteq> set ?xs" using h(1,2) by auto
  then have "card {m_code (rows ! i), m_code (rows ! j)} \<le> card (set ?xs)" by (intro card_mono) simp_all
  then show ?thesis using h(3) card_length[of ?xs] by (simp add: several_codes_def)
qed

lemma describe_unnumbered: "(describe rows n f)\<lparr>g_id := 0\<rparr> = describe rows 0 f"
  by (simp add: describe_def Let_def)

lemma number_unnumbered: "map (\<lambda>g. g\<lparr>g_id := 0\<rparr>) (number rows fs) = map (describe rows 0) fs"
  unfolding number_def by (rule nth_equalityI) (simp_all add: describe_unnumbered del: upt_Suc)

section \<open>The properties\<close>

text \<open>C26: The incremental scan reports exactly the groups of the full scan that contain a row whose source changed, with
  the same scores, warnings, counts and members; only the running numbers of the groups can differ.\<close>

theorem incremental_scan_is_filtered_scan:
  "\<exists>fs. mset (map (\<lambda>g. g\<lparr>g_id := 0\<rparr>) (sr_groups (scanPreparedRows rows))) = mset (map (describe rows 0) fs) \<and>
    mset (map (\<lambda>g. g\<lparr>g_id := 0\<rparr>) (sr_groups (scanChangedPreparedRows rows ids))) =
      mset (map (describe rows 0) (filter (\<lambda>f. touches (changed_indexes rows ids) (fi_indexes f)) fs)) \<and>
    sr_counters (scanChangedPreparedRows rows ids) = sr_counters (scanPreparedRows rows)"
proof (intro exI[of _ "scan_findings rows"] conjI)
  show "mset (map (\<lambda>g. g\<lparr>g_id := 0\<rparr>) (sr_groups (scanPreparedRows rows))) = mset (map (describe rows 0) (scan_findings rows))"
    using arg_cong[OF number_unnumbered, of mset] by (simp add: scanPreparedRows_def finishGroups_def)
  show "mset (map (\<lambda>g. g\<lparr>g_id := 0\<rparr>) (sr_groups (scanChangedPreparedRows rows ids))) =
      mset (map (describe rows 0) (filter (\<lambda>f. touches (changed_indexes rows ids) (fi_indexes f)) (scan_findings rows)))"
    using arg_cong[OF number_unnumbered, of mset] unfolding changed_findings_filter[symmetric]
    by (simp add: scanChangedPreparedRows_def finishGroups_def)
  show "sr_counters (scanChangedPreparedRows rows ids) = sr_counters (scanPreparedRows rows)"
    by (simp add: scanPreparedRows_def scanChangedPreparedRows_def finishGroups_def)
qed

text \<open>Two rows with different codes but the same non-empty name and specification keys are reported together in an
  exact group with score 95, by the full scan and, when one of them changed, by the incremental scan.\<close>

theorem exact_duplicates_reported:
  assumes "i < length rows" and "j < length rows" and "m_code (rows ! i) \<noteq> m_code (rows ! j)"
    and "m_nameKey (rows ! i) = m_nameKey (rows ! j)" and "m_nameKey (rows ! i) \<noteq> []"
    and "m_specKey (rows ! i) = m_specKey (rows ! j)" and "m_specKey (rows ! i) \<noteq> []"
  shows "\<exists>is. i \<in> set is \<and> j \<in> set is \<and> exact_finding is \<in> set (scan_findings rows) \<and>
    (i \<in> set (changed_indexes rows ids) \<longrightarrow> exact_finding is \<in> set (scan_changed_findings rows ids))"
proof -
  obtain ks where ks: "ks \<in> set (map snd (b_exact (fill rows)))"
    "\<And>j. j \<in> set ks \<longleftrightarrow> j < length rows \<and> m_nameKey (rows ! j) = m_nameKey (rows ! i) \<and> m_specKey (rows ! j) = m_specKey (rows ! i)"
    using exact_bucket[OF assms(1,5,7)] by blast
  have ij: "i \<in> set ks" "j \<in> set ks" using ks(2) assms by simp_all
  have "several_codes rows ks" by (rule several_codes_two[OF ij assms(3)])
  then have "exact_finding ks \<in> set (scan_findings rows)" using ks(1) by (auto simp: scan_findings_def Let_def)
  moreover from this have "i \<in> set (changed_indexes rows ids) \<Longrightarrow> exact_finding ks \<in> set (scan_changed_findings rows ids)"
    using ij(1) by (auto simp: changed_findings_filter touches_def exact_finding_def list_ex_iff)
  ultimately show ?thesis using ij by blast
qed

lemma exact_duplicates_reported_witness:
  "\<exists>rows is. (0 :: nat) \<in> set is \<and> 1 \<in> set is \<and> exact_finding is \<in> set (scan_findings rows) \<and>
    exact_finding is \<in> set (scan_changed_findings rows {[9]}) \<and> length rows = 2"
proof -
  define f where "f = \<lparr>ft_normalized = [], ft_specs = [], ft_numbers = [], ft_qualifiers = [], ft_core = [], ft_chars = []\<rparr>"
  define p where "p = (\<lambda>c s. \<lparr>m_row = 1, m_code = [c], m_name = [65], m_spec = [66], m_source = Some [s], m_nameKey = [97], m_specKey = [98],
     m_matchText = [97, 98], m_category = UNDETERMINED, m_f = f, m_attrs = [], m_numbers = []\<rparr>)"
  have c: "0 \<in> set (changed_indexes [p 1 9, p 2 8] {[9]})" by (simp add: changed_indexes_def p_def)
  obtain ks where "(0 :: nat) \<in> set ks \<and> 1 \<in> set ks \<and> exact_finding ks \<in> set (scan_findings [p 1 9, p 2 8]) \<and>
      (0 \<in> set (changed_indexes [p 1 9, p 2 8] {[9]}) \<longrightarrow> exact_finding ks \<in> set (scan_changed_findings [p 1 9, p 2 8] {[9]}))"
    using exact_duplicates_reported[of 0 "[p 1 9, p 2 8]" 1 "{[9]}"] by (auto simp: p_def)
  with c show ?thesis by (intro exI[of _ "[p 1 9, p 2 8]"] exI[of _ ks]) simp
qed

end
