(* ===== verification/MaterialHistory.thy ===== *)
theory MaterialHistory
  imports MaterialScan
begin

text \<open>
  The stored result of a history scan (\<open>modules/rd/rd-history-scan.service.ts\<close>): when a scan starts
  (\<open>start_decision\<close>) and what the two ways of saving it leave in the tables.  A stored group carries its
  member rows as a list; an incremental scan copies the groups of the base scan without a changed member
  and appends its own.
\<close>

section \<open>Starting a scan\<close>

datatype scan_mode = FullScan | IncrementalScan

datatype scan_status = ScanRunning | ScanComplete | ScanFailed

record scan_row =
  sc_id :: nat
  sc_status :: scan_status
  sc_mode :: scan_mode
  sc_rule :: string

datatype decision = ForbidRead | ForbidFull | AlreadyRunning scan_row | NoBaseline | RuleMismatch | NoChanges nat
  | StartScan scan_mode "nat option" "utext list"

definition RD_DUPLICATE_RULE_VERSION :: string where
  "RD_DUPLICATE_RULE_VERSION = ''history-1''"

text \<open>\<open>changed_since\<close> and \<open>existing\<close> stand for the two queries of \<open>changedItems\<close>.\<close>

definition changedItems :: "(nat \<Rightarrow> utext list) \<Rightarrow> (utext list \<Rightarrow> utext list) \<Rightarrow> scan_row option \<Rightarrow> utext list option \<Rightarrow> utext list" where
  "changedItems changed_since existing base ids =
     (case ids of
        Some (i # is) \<Rightarrow> existing (i # is)
      | _ \<Rightarrow> (case base of None \<Rightarrow> [] | Some b \<Rightarrow> changed_since (sc_id b)))"

definition start_decision ::
  "bool \<Rightarrow> bool \<Rightarrow> scan_row option \<Rightarrow> scan_row option \<Rightarrow> (nat \<Rightarrow> utext list) \<Rightarrow> (utext list \<Rightarrow> utext list) \<Rightarrow> scan_mode \<Rightarrow> utext list option \<Rightarrow> decision" where
  "start_decision may_read may_update current base changed_since existing mode ids =
     (if \<not> may_read then ForbidRead
      else if mode = FullScan \<and> \<not> may_update then ForbidFull
      else case (case current of Some c \<Rightarrow> if sc_status c = ScanRunning then Some c else None | None \<Rightarrow> None) of
        Some c \<Rightarrow> AlreadyRunning c
      | None \<Rightarrow>
          if mode = IncrementalScan \<and> base = None then NoBaseline
          else if mode = IncrementalScan \<and> sc_rule (the base) \<noteq> RD_DUPLICATE_RULE_VERSION then RuleMismatch
          else
            let retrying = (case current of Some c \<Rightarrow> sc_status c = ScanFailed | None \<Rightarrow> False);
                changed = (if mode = IncrementalScan then changedItems changed_since existing base (if retrying then None else ids) else [])
            in if mode = IncrementalScan \<and> changed = [] then NoChanges (sc_id (the base))
               else StartScan mode (if mode = IncrementalScan then Some (sc_id (the base)) else None) changed)"

section \<open>Saving a scan\<close>

record stored_group =
  sg_no :: nat
  sg_kind :: gkind
  sg_score :: "rat option"
  sg_warnings :: "warning list"
  sg_count :: nat
  sg_distinct :: nat
  sg_truncated :: bool
  sg_members :: "utext list"

definition store_group :: "nat \<Rightarrow> group \<Rightarrow> stored_group" where
  "store_group n g =
     \<lparr>sg_no = n, sg_kind = g_kind g, sg_score = g_score g, sg_warnings = g_warnings g, sg_count = g_count g,
      sg_distinct = g_distinct g, sg_truncated = g_truncated g,
      sg_members = map (\<lambda>r. case m_source r of Some s \<Rightarrow> s | None \<Rightarrow> []) (g_records g)\<rparr>"

definition insertGroupsAndMembers :: "nat \<Rightarrow> group list \<Rightarrow> stored_group list" where
  "insertGroupsAndMembers offset groups = map (\<lambda>(g, n). store_group n g) (zip groups [offset..<offset + length groups])"

definition persistFull :: "scan_result \<Rightarrow> stored_group list" where
  "persistFull report = insertGroupsAndMembers 1 (sr_groups report)"

definition untouched :: "utext set \<Rightarrow> stored_group \<Rightarrow> bool" where
  "untouched changed g \<longleftrightarrow> \<not> list_ex (\<lambda>m. m \<in> changed) (sg_members g)"

definition persistIncremental :: "stored_group list \<Rightarrow> utext set \<Rightarrow> scan_result \<Rightarrow> stored_group list" where
  "persistIncremental base changed report =
     (let copied = filter (untouched changed) base
      in copied @ insertGroupsAndMembers (foldr max (map sg_no copied) 0 + 1) (sr_groups report))"

section \<open>What an incremental scan can lose\<close>

text \<open>
  Three rows form one exact group.  When one of them is renamed, the base group is dropped because it has
  a changed member, and the incremental scan does not report the two remaining rows because neither
  changed: a full scan still finds them.
\<close>

definition plain_features :: features where
  "plain_features = \<lparr>ft_normalized = [], ft_specs = [], ft_numbers = [], ft_qualifiers = [], ft_core = [], ft_chars = []\<rparr>"

definition plain_row :: "nat \<Rightarrow> nat \<Rightarrow> nat \<Rightarrow> prepared" where
  "plain_row c name s =
     \<lparr>m_row = s, m_code = [c], m_name = [name], m_spec = [66], m_source = Some [s], m_nameKey = [name], m_specKey = [66],
      m_matchText = [name, 66], m_category = UNDETERMINED, m_f = plain_features, m_attrs = [], m_numbers = []\<rparr>"

definition library_before :: "prepared list" where
  "library_before = [plain_row 1 65 1, plain_row 2 65 2, plain_row 3 65 3]"

definition library_after :: "prepared list" where
  "library_after = [plain_row 1 65 1, plain_row 2 65 2, plain_row 3 67 3]"

lemma fill_before: "fill library_before = \<lparr>b_exact = [(([65], [66]), [0, 1, 2])], b_missing = [],
    b_codes = [([1], [0]), ([2], [1]), ([3], [2])], b_blocks = [(Inr [66], [0, 1, 2])]\<rparr>"
  by (simp add: fill_def library_before_def plain_row_def plain_features_def add_row_def Let_def add_to_def candidateKeys_def numeral_eq_Suc)

lemma fill_after: "fill library_after = \<lparr>b_exact = [(([65], [66]), [0, 1]), (([67], [66]), [2])], b_missing = [],
    b_codes = [([1], [0]), ([2], [1]), ([3], [2])], b_blocks = [(Inr [66], [0, 1, 2])]\<rparr>"
  by (simp add: fill_def library_after_def plain_row_def plain_features_def add_row_def Let_def add_to_def candidateKeys_def numeral_eq_Suc)

lemmas scan_simps = Let_def several_codes_def js_dedup_def repeated_code_def small_buckets_def compared_def List.map_filter_simps
  plain_row_def plain_features_def similar_finding_def categories_differ_def attrs_differ_def material_compare_def touches_def

lemma findings_before: "scan_findings library_before = [exact_finding [0, 1, 2]]"
  unfolding scan_findings_def fill_before by (simp add: scan_simps library_before_def)

lemma findings_after: "scan_findings library_after = [exact_finding [0, 1]]"
  unfolding scan_findings_def fill_after by (simp add: scan_simps library_after_def)

lemma changed_after: "changed_indexes library_after {[3]} = [2]"
  by (simp add: changed_indexes_def library_after_def plain_row_def upt_rec)

lemma findings_changed: "scan_changed_findings library_after {[3]} = []"
  unfolding changed_findings_filter findings_after changed_after by (simp add: touches_def exact_finding_def)

lemma incremental_scan_loses_group:
  "map sg_members (persistFull (scanPreparedRows library_before)) = [[[1], [2], [3]]] \<and>
   map sg_members (persistFull (scanPreparedRows library_after)) = [[[1], [2]]] \<and>
   persistIncremental (persistFull (scanPreparedRows library_before)) {[3]} (scanChangedPreparedRows library_after {[3]}) = []"
  unfolding scanPreparedRows_def scanChangedPreparedRows_def findings_before findings_after findings_changed finishGroups_def persistFull_def
    persistIncremental_def insertGroupsAndMembers_def
  by (simp add: number_def describe_def Let_def store_group_def exact_finding_def candidate_of_def library_before_def library_after_def
      plain_row_def untouched_def upt_rec)

end
