(* ===== verification/RdWatermark.thy ===== *)
theory RdWatermark
  imports Prelude
begin

text \<open>
  \<open>modules/rd/rd-watermark.ts\<close>: the cursor up to which the material synchronisation has read.  Time stamps
  stay texts with six fractional digits, so that their order is the order of the texts; identifiers are
  ordered by their bytes as \<open>sqlServerUuidSortKey\<close> arranges them.  A source value is absent, a JavaScript
  \<open>Date\<close> (refused) or anything else as \<open>String(value)\<close> prints it.
\<close>

datatype source_value = Absent | DateObject | Printed string

datatype watermark_error = DateRefused | BadTimestamp string | BadUuid string

record cursor =
  cu_at :: string
  cu_id :: string

section \<open>Normalisation\<close>

definition wm_digit :: "char \<Rightarrow> bool" where
  "wm_digit c \<longleftrightarrow> c \<in> set ''0123456789''"

definition wm_shape :: "string \<Rightarrow> string \<Rightarrow> bool" where
  "wm_shape pat s \<longleftrightarrow> list_all2 (\<lambda>p c. if p = CHR ''#'' then wm_digit c else c = p) pat s"

definition utc_suffix :: "string \<Rightarrow> bool" where
  "utc_suffix s \<longleftrightarrow> s \<in> set [[], ''Z'', ''+00'', ''+0000'', ''+00:00'']"

text \<open>The match groups 1 to 3 of \<open>TIMESTAMP_PATTERN\<close>.\<close>

definition TIMESTAMP_PATTERN :: "string \<Rightarrow> (string \<times> string \<times> string) option" where
  "TIMESTAMP_PATTERN s =
     (let day = take 10 s; sep = take 1 (drop 10 s); time = take 8 (drop 11 s); rest = drop 19 s;
          fraction = (if take 1 rest = ''.'' then takeWhile wm_digit (drop 1 rest) else []);
          tail = (if take 1 rest = ''.'' then dropWhile wm_digit (drop 1 rest) else rest)
      in if wm_shape ''####-##-##'' day \<and> sep \<in> set [''T'', '' ''] \<and> wm_shape ''##:##:##'' time \<and> utc_suffix tail \<and>
           (take 1 rest = ''.'' \<longrightarrow> 1 \<le> length fraction \<and> length fraction \<le> 6)
         then Some (day, time, fraction) else None)"

definition pad6 :: "string \<Rightarrow> string" where
  "pad6 s = s @ replicate (6 - length s) (CHR ''0'')"

definition normalizeRdTimestamp :: "source_value \<Rightarrow> watermark_error + string option" where
  "normalizeRdTimestamp v =
     (case v of
        Absent \<Rightarrow> Inr None
      | DateObject \<Rightarrow> Inl DateRefused
      | Printed s \<Rightarrow>
          if s = [] then Inr None
          else case TIMESTAMP_PATTERN (js_trim s) of
            None \<Rightarrow> Inl (BadTimestamp s)
          | Some (day, time, fraction) \<Rightarrow> Inr (Some (day @ '' '' @ time @ ''.'' @ pad6 fraction)))"

definition wm_hex :: "char \<Rightarrow> bool" where
  "wm_hex c \<longleftrightarrow> c \<in> set ''0123456789abcdef''"

definition wm_lower :: "char \<Rightarrow> char" where
  "wm_lower c = (let n = (of_char c :: nat) in if 65 \<le> n \<and> n \<le> 90 then char_of (n + 32) else c)"

text \<open>\<open>UUID_PATTERN\<close> on a text in lower case: five groups of hexadecimal digits.\<close>

definition uuid_groups :: "string \<Rightarrow> string list" where
  "uuid_groups s = js_split (CHR ''-'') s"

definition UUID_PATTERN :: "string \<Rightarrow> bool" where
  "UUID_PATTERN s \<longleftrightarrow> map length (uuid_groups s) = [8, 4, 4, 4, 12] \<and> list_all (list_all wm_hex) (uuid_groups s)"

definition normalizeRdUuid :: "source_value \<Rightarrow> watermark_error + string" where
  "normalizeRdUuid v =
     (let printed = (case v of Printed s \<Rightarrow> s | _ \<Rightarrow> []); normalized = map wm_lower (js_trim printed)
      in if \<not> UUID_PATTERN normalized then Inl (BadUuid printed) else Inr normalized)"

section \<open>Order\<close>

fun byte_pairs :: "string \<Rightarrow> string list" where
  "byte_pairs (a # b # s) = [a, b] # byte_pairs s"
| "byte_pairs _ = []"

definition reverseBytes :: "string \<Rightarrow> string" where
  "reverseBytes part = concat (rev (byte_pairs part))"

definition sqlServerUuidSortKey :: "string \<Rightarrow> string" where
  "sqlServerUuidSortKey v =
     (case uuid_groups v of
        [a, b, c, d, e] \<Rightarrow> reverseBytes a @ reverseBytes b @ reverseBytes c @ d @ e
      | _ \<Rightarrow> v)"

definition compareRdCursor :: "cursor \<Rightarrow> cursor \<Rightarrow> int" where
  "compareRdCursor l r =
     (if cu_at l < cu_at r then -1 else if cu_at r < cu_at l then 1
      else let leftId = sqlServerUuidSortKey (cu_id l); rightId = sqlServerUuidSortKey (cu_id r)
           in if leftId < rightId then -1 else if rightId < leftId then 1 else 0)"

definition advanceRdCursor :: "cursor option \<Rightarrow> source_value \<Rightarrow> source_value \<Rightarrow> watermark_error + cursor option" where
  "advanceRdCursor current stamp i =
     bindE (normalizeRdTimestamp stamp) (\<lambda>normalizedAt.
       case normalizedAt of
         None \<Rightarrow> Inr current
       | Some t \<Rightarrow>
           if i = Absent \<or> i = Printed [] then Inr current
           else bindE (normalizeRdUuid i) (\<lambda>n.
             let candidate = \<lparr>cu_at = t, cu_id = n\<rparr> in
             case current of
               None \<Rightarrow> Inr (Some candidate)
             | Some c \<Rightarrow> Inr (Some (if compareRdCursor candidate c > 0 then candidate else c))))"

definition postgresRdTimestamp :: "string option \<Rightarrow> string option" where
  "postgresRdTimestamp t = (case t of Some s \<Rightarrow> if s = [] then None else Some (s @ ''+00:00'') | None \<Rightarrow> None)"

fun replace_first_space :: "string \<Rightarrow> string" where
  "replace_first_space [] = []"
| "replace_first_space (c # cs) = (if c = CHR '' '' then CHR ''T'' # cs else c # replace_first_space cs)"

definition apiRdTimestamp :: "string option \<Rightarrow> string option" where
  "apiRdTimestamp t = (case t of Some s \<Rightarrow> if s = [] then None else Some (replace_first_space s @ ''Z'') | None \<Rightarrow> None)"

text \<open>The cursor after a stream of rows, as \<open>sync\<close> advances it row by row.\<close>

fun stream_cursor :: "cursor option \<Rightarrow> (source_value \<times> source_value) list \<Rightarrow> watermark_error + cursor option" where
  "stream_cursor current [] = Inr current"
| "stream_cursor current ((stamp, i) # rows) = bindE (advanceRdCursor current stamp i) (\<lambda>c. stream_cursor c rows)"

section \<open>The cursor is the greatest row\<close>

definition cursor_le :: "cursor \<Rightarrow> cursor \<Rightarrow> bool" where
  "cursor_le a b \<longleftrightarrow> compareRdCursor a b \<le> 0"

lemma cursor_le_key: "cursor_le a b \<longleftrightarrow> cu_at a < cu_at b \<or> cu_at a = cu_at b \<and> sqlServerUuidSortKey (cu_id a) \<le> sqlServerUuidSortKey (cu_id b)"
  by (auto simp: cursor_le_def compareRdCursor_def Let_def)

lemma cursor_le_refl: "cursor_le a a"
  by (simp add: cursor_le_key)

lemma cursor_le_trans: "cursor_le a b \<Longrightarrow> cursor_le b c \<Longrightarrow> cursor_le a c"
  by (auto simp: cursor_le_key intro: less_trans)

lemma cursor_le_linear: "cursor_le a b \<or> cursor_le b a"
  by (auto simp: cursor_le_key not_less_iff_gr_or_eq linorder_neq_iff)

lemma compare_swap: "compareRdCursor a b > 0 \<longleftrightarrow> \<not> cursor_le a b"
  by (simp add: cursor_le_def not_le)

text \<open>The cursor of one row, if it has one.\<close>

definition row_cursor :: "source_value \<times> source_value \<Rightarrow> watermark_error + cursor option" where
  "row_cursor r = advanceRdCursor None (fst r) (snd r)"

lemma advance_row_cursor:
  "advanceRdCursor current stamp i = bindE (row_cursor (stamp, i)) (\<lambda>n. Inr (case n of None \<Rightarrow> current
     | Some c \<Rightarrow> (case current of None \<Rightarrow> Some c | Some d \<Rightarrow> Some (if cursor_le c d then d else c))))"
  unfolding row_cursor_def advanceRdCursor_def
  by (cases "normalizeRdTimestamp stamp"; cases current)
    (auto simp: Let_def compare_swap bindE_def split: option.splits sum.splits)

definition options :: "'a option list \<Rightarrow> 'a set" where
  "options xs = {c. Some c \<in> set xs}"

lemma stream_cursor_max:
  assumes "stream_cursor current rows = Inr final"
  shows "\<exists>cs. mapE row_cursor rows = Inr cs \<and>
    (case final of
       None \<Rightarrow> current = None \<and> options cs = {}
     | Some c \<Rightarrow> c \<in> options (current # cs) \<and> (\<forall>d \<in> options (current # cs). cursor_le d c))"
  using assms
proof (induction rows arbitrary: current)
  case Nil
  then show ?case by (auto simp: options_def cursor_le_refl split: option.splits)
next
  case (Cons r rows)
  obtain stamp i where r: "r = (stamp, i)" by (cases r)
  from Cons.prems obtain n where n: "row_cursor r = Inr n"
      "stream_cursor (case n of None \<Rightarrow> current | Some c \<Rightarrow> (case current of None \<Rightarrow> Some c | Some d \<Rightarrow> Some (if cursor_le c d then d else c))) rows = Inr final"
    by (auto simp: r advance_row_cursor err_simps)
  from Cons.IH[OF n(2)] obtain cs where cs: "mapE row_cursor rows = Inr cs"
    "case final of None \<Rightarrow> (case n of None \<Rightarrow> current | Some c \<Rightarrow> (case current of None \<Rightarrow> Some c | Some d \<Rightarrow> Some (if cursor_le c d then d else c))) = None \<and> options cs = {}
     | Some c \<Rightarrow> c \<in> options ((case n of None \<Rightarrow> current | Some c \<Rightarrow> (case current of None \<Rightarrow> Some c | Some d \<Rightarrow> Some (if cursor_le c d then d else c))) # cs) \<and>
         (\<forall>d \<in> options ((case n of None \<Rightarrow> current | Some c \<Rightarrow> (case current of None \<Rightarrow> Some c | Some d \<Rightarrow> Some (if cursor_le c d then d else c))) # cs). cursor_le d c)"
    by blast
  show ?case
  proof (intro exI conjI)
    show "mapE row_cursor (r # rows) = Inr (n # cs)" using n(1) cs(1) by simp
    show "case final of None \<Rightarrow> current = None \<and> options (n # cs) = {}
       | Some c \<Rightarrow> c \<in> options (current # n # cs) \<and> (\<forall>d \<in> options (current # n # cs). cursor_le d c)"
    proof (cases final)
      case None
      then show ?thesis using cs(2) by (cases n; cases current) (auto simp: options_def)
    next
      case (Some c)
      note m = cs(2)[unfolded Some option.case]
      show ?thesis
      proof (cases n)
        case None
        then show ?thesis using m Some by (auto simp: options_def)
      next
        case nd: (Some d)
        show ?thesis
        proof (cases current)
          case None
          then show ?thesis using m Some nd by (auto simp: options_def)
        next
          case (Some e)
          let ?top = "if cursor_le d e then e else d"
          have top: "cursor_le d ?top" "cursor_le e ?top" using cursor_le_linear[of d e] cursor_le_refl by auto
          have c: "c \<in> options (Some ?top # cs)" "\<forall>x \<in> options (Some ?top # cs). cursor_le x c"
            using m by (simp_all add: nd Some)
          then have "cursor_le ?top c" by (auto simp: options_def)
          then have "cursor_le d c" "cursor_le e c" using top cursor_le_trans by blast+
          then show ?thesis using c \<open>final = Some c\<close> by (auto simp: nd Some options_def split: if_splits)
        qed
      qed
    qed
  qed
qed

lemma advance_none: "row_cursor (stamp, i) = Inr None \<longleftrightarrow> normalizeRdTimestamp stamp = Inr None \<or> (\<exists>t. normalizeRdTimestamp stamp = Inr (Some t)) \<and> (i = Absent \<or> i = Printed [])"
  unfolding row_cursor_def advanceRdCursor_def
  by (cases "normalizeRdTimestamp stamp") (auto simp: Let_def err_simps split: option.splits)

section \<open>The property\<close>

text \<open>After a stream of rows the cursor is the greatest of the rows' cursors and the previous one, whatever order the
  rows come in: it never moves back, and re-reading older rows leaves it where it was.\<close>

theorem watermark_is_greatest:
  assumes "stream_cursor current rows = Inr (Some c)"
  shows "\<exists>cs. mapE row_cursor rows = Inr cs \<and> (current = Some c \<or> Some c \<in> set cs) \<and>
    (\<forall>d. current = Some d \<or> Some d \<in> set cs \<longrightarrow> compareRdCursor d c \<le> 0)"
  using stream_cursor_max[OF assms] by (auto simp: options_def cursor_le_def)

lemma watermark_is_greatest_witness:
  "\<exists>c. stream_cursor None [(Printed ''2026-09-30T14:45:14.000978Z'', Printed ''3F9EA2A3-6cbf-4b13-1f82-1dfcff27aca7''), (Absent, Absent),
      (Printed ''2026-09-30 13:47:09'', Printed ''63319afa-3414-4644-eb42-1dfcf70afdb1'')] = Inr (Some c) \<and>
    c = \<lparr>cu_at = ''2026-09-30 14:45:14.000978'', cu_id = ''3f9ea2a3-6cbf-4b13-1f82-1dfcff27aca7''\<rparr> \<and>
    compareRdCursor \<lparr>cu_at = ''2026-09-30 13:47:09.000000'', cu_id = ''63319afa-3414-4644-eb42-1dfcf70afdb1''\<rparr> c \<le> 0"
proof -
  let ?rows = "[(Printed ''2026-09-30T14:45:14.000978Z'', Printed ''3F9EA2A3-6cbf-4b13-1f82-1dfcff27aca7''), (Absent, Absent),
      (Printed ''2026-09-30 13:47:09'', Printed ''63319afa-3414-4644-eb42-1dfcf70afdb1'')]"
  let ?c = "\<lparr>cu_at = ''2026-09-30 14:45:14.000978'', cu_id = ''3f9ea2a3-6cbf-4b13-1f82-1dfcff27aca7''\<rparr>"
  let ?d = "\<lparr>cu_at = ''2026-09-30 13:47:09.000000'', cu_id = ''63319afa-3414-4644-eb42-1dfcf70afdb1''\<rparr>"
  have r: "stream_cursor None ?rows = Inr (Some ?c)" by code_simp
  moreover have "mapE row_cursor ?rows = Inr [Some ?c, None, Some ?d]" by code_simp
  ultimately show ?thesis using watermark_is_greatest[OF r] by auto
qed

end
