(* ===== verification/JsSort.thy ===== *)
theory JsSort
  imports Calendar "HOL-Library.Multiset"
begin

text \<open>
  \<open>xs.sort(compare)\<close>: the stable sort by a comparison function that returns a number.  The laws a
  comparison needs are the locale \<open>comparison\<close>; \<open>localeCompare\<close>, whose tables are not part of the
  sources, is any function with the laws of \<open>collation\<close>, and the comparison of code units is one.
\<close>

fun insert_cmp :: "('a \<Rightarrow> 'a \<Rightarrow> int) \<Rightarrow> 'a \<Rightarrow> 'a list \<Rightarrow> 'a list" where
  "insert_cmp cmp x [] = [x]"
| "insert_cmp cmp x (y # ys) = (if cmp x y \<le> 0 then x # y # ys else y # insert_cmp cmp x ys)"

definition js_sort :: "('a \<Rightarrow> 'a \<Rightarrow> int) \<Rightarrow> 'a list \<Rightarrow> 'a list" where
  "js_sort cmp xs = foldr (insert_cmp cmp) xs []"

lemma mset_insert_cmp: "mset (insert_cmp cmp x xs) = add_mset x (mset xs)"
  by (induction xs) auto

lemma mset_js_sort [simp]: "mset (js_sort cmp xs) = mset xs"
  by (induction xs) (simp_all add: js_sort_def mset_insert_cmp)

lemma set_js_sort [simp]: "set (js_sort cmp xs) = set xs"
  by (metis mset_js_sort set_mset_mset)

lemma length_js_sort [simp]: "length (js_sort cmp xs) = length xs"
  by (metis mset_js_sort size_mset)

locale comparison =
  fixes cmp :: "'a \<Rightarrow> 'a \<Rightarrow> int"
  assumes total: "0 < cmp x y \<Longrightarrow> cmp y x \<le> 0"
    and trans: "cmp x y \<le> 0 \<Longrightarrow> cmp y z \<le> 0 \<Longrightarrow> cmp x z \<le> 0"
begin

lemma sorted_insert: "sorted_wrt (\<lambda>x y. cmp x y \<le> 0) xs \<Longrightarrow> sorted_wrt (\<lambda>x y. cmp x y \<le> 0) (insert_cmp cmp x xs)"
proof (induction xs)
  case (Cons y ys)
  have set: "set (insert_cmp cmp x ys) = insert x (set ys)" by (metis mset_insert_cmp set_mset_add_mset_insert set_mset_mset)
  show ?case
  proof (cases "cmp x y \<le> 0")
    case True
    then show ?thesis using Cons.prems trans[OF True] by auto
  next
    case False
    then have "cmp y x \<le> 0" by (intro total) simp
    then show ?thesis using Cons False set by auto
  qed
qed simp

lemma sorted_js_sort: "sorted_wrt (\<lambda>x y. cmp x y \<le> 0) (js_sort cmp xs)"
  by (induction xs) (simp_all add: js_sort_def sorted_insert)

end

text \<open>Comparing by one thing, then by another: \<open>c || d\<close>.\<close>

definition cmp_then :: "int \<Rightarrow> int \<Rightarrow> int" where
  "cmp_then c d = (if c = 0 then d else c)"

definition cmp_int :: "int \<Rightarrow> int \<Rightarrow> int" where
  "cmp_int a b = (if a < b then -1 else if a > b then 1 else 0)"

definition cmp_units :: "string \<Rightarrow> string \<Rightarrow> int" where
  "cmp_units a b = (if a < b then -1 else if b < a then 1 else 0)"

text \<open>Antisymmetric signs and a transitive order: what \<open>localeCompare\<close> and comparisons of keys promise.\<close>

locale collation =
  fixes loc :: "'k \<Rightarrow> 'k \<Rightarrow> int"
  assumes sign: "loc y x < 0 \<longleftrightarrow> 0 < loc x y"
    and loc_trans: "loc x y \<le> 0 \<Longrightarrow> loc y z \<le> 0 \<Longrightarrow> loc x z \<le> 0"

sublocale collation \<subseteq> comparison loc
proof
  show "loc y x \<le> 0" if "0 < loc x y" for x y using that sign[of y x] by simp
qed (rule loc_trans)

lemma cmp_units_laws: "cmp_units y x < 0 \<longleftrightarrow> 0 < cmp_units x y" "cmp_units x y \<le> 0 \<longleftrightarrow> x \<le> y"
  by (auto simp: cmp_units_def)

interpretation units: collation cmp_units
  by unfold_locales (auto simp: cmp_units_laws)

text \<open>A sorted list by code units, through the interpretation.\<close>

lemma js_sort_units: "sorted (js_sort cmp_units xs)"
  using units.sorted_js_sort[of xs] by (simp add: cmp_units_laws sorted_wrt_iff_nth_less sorted_iff_nth_mono_less)

text \<open>Comparisons in sequence keep the laws.\<close>

context collation
begin

lemma sorted_by: "sorted_wrt (\<lambda>x y. loc x y \<le> 0) (js_sort loc xs)"
  by (rule sorted_js_sort)

lemma zero_sym: "loc x y = 0 \<longleftrightarrow> loc y x = 0"
  using sign[of x y] sign[of y x] by linarith

lemma on_key: "collation (\<lambda>x y. loc (key x) (key y))"
proof
  show "loc (key y) (key x) < 0 \<longleftrightarrow> 0 < loc (key x) (key y)" for x y by (rule sign)
  show "loc (key x) (key y) \<le> 0 \<Longrightarrow> loc (key y) (key z) \<le> 0 \<Longrightarrow> loc (key x) (key z) \<le> 0" for x y z by (rule loc_trans)
qed

lemma lexicographic:
  assumes "collation d"
  shows "collation (\<lambda>x y. cmp_then (loc (key x) (key y)) (d x y))"
proof
  fix x y
  show "cmp_then (loc (key y) (key x)) (d y x) < 0 \<longleftrightarrow> 0 < cmp_then (loc (key x) (key y)) (d x y)"
    using sign[of "key y" "key x"] zero_sym[of "key x" "key y"] collation.sign[OF assms, of y x] by (simp add: cmp_then_def)
next
  have t: "d x y \<le> 0 \<Longrightarrow> d y z \<le> 0 \<Longrightarrow> d x z \<le> 0" for x y z using collation.loc_trans[OF assms] by blast
  fix x y z
  let ?l = "\<lambda>a b. loc (key a) (key b)"
  assume h: "cmp_then (?l x y) (d x y) \<le> 0" "cmp_then (?l y z) (d y z) \<le> 0"
  then have le: "?l x y \<le> 0" "?l y z \<le> 0" by (auto simp: cmp_then_def split: if_splits)
  then have xz: "?l x z \<le> 0" by (rule loc_trans)
  show "cmp_then (?l x z) (d x z) \<le> 0"
  proof (cases "?l x z = 0")
    case True
    then have "?l z x \<le> 0" using zero_sym[of "key x" "key z"] by simp
    then have "?l y x \<le> 0" "?l z y \<le> 0" using le loc_trans by blast+
    then have "?l x y = 0" "?l y z = 0" using le sign[of "key x" "key y"] sign[of "key y" "key z"] by linarith+
    then show ?thesis using h t[of x y z] True by (simp add: cmp_then_def)
  next
    case False
    then show ?thesis using xz by (simp add: cmp_then_def)
  qed
qed

end

end
