(* ===== verification/MasterPlan.thy ===== *)
theory MasterPlan
  imports JsSort
begin

text \<open>
  \<open>modules/master-plan-system/master-plan.domain.ts\<close> and \<open>master-plan.bom-process.domain.ts\<close>: the
  process registry, reverse scheduling from the review date, first-in first-out allocation of inbound
  quantities, the statuses and the group totals.  Quantities are rationals: \<open>Decimal\<close> adds and subtracts
  exactly up to its twenty digits, \<open>toFixed(4)\<close> rounds half away from zero.  Chinese labels are
  constructors.
\<close>

section \<open>Decimals\<close>

definition round_half_up :: "nat \<Rightarrow> rat \<Rightarrow> rat" where
  "round_half_up k r = (if 0 \<le> r then of_int \<lfloor>r * 10 ^ k + 1 / 2\<rfloor> / 10 ^ k else - (of_int \<lfloor>(- r) * 10 ^ k + 1 / 2\<rfloor> / 10 ^ k))"

definition toFixed4 :: "rat \<Rightarrow> rat" where
  "toFixed4 = round_half_up 4"

definition four_places :: "rat \<Rightarrow> bool" where
  "four_places r \<longleftrightarrow> of_int \<lfloor>r * 10000\<rfloor> = r * 10000"

section \<open>The registry and reverse scheduling\<close>

record process_definition =
  pd_code :: string
  pd_field :: string
  pd_order :: nat

definition standardProcesses :: "process_definition list" where
  "standardProcesses = map (\<lambda>(c, f, n). \<lparr>pd_code = c, pd_field = f, pd_order = n\<rparr>)
     [(''cutting'', ''cuttingDays'', 1), (''machining'', ''machiningDays'', 2), (''bending'', ''bendingDays'', 3),
      (''spotWelding'', ''spotWeldingDays'', 4), (''welding'', ''weldingDays'', 5), (''woodworking'', ''woodworkingDays'', 6),
      (''grinding'', ''grindingDays'', 7), (''blank'', ''blankDays'', 8), (''surfaceTreatment'', ''surfaceTreatmentDays'', 9),
      (''packaging'', ''packagingDays'', 10)]"

datatype manufacturing = SelfMade | CentreBought | Outsourced | SelfMadeAndOutsourced | OtherMethod string

definition shouldEnableProcess :: "manufacturing option \<Rightarrow> string \<Rightarrow> bool" where
  "shouldEnableProcess m code \<longleftrightarrow> m \<in> set [Some SelfMade, Some SelfMadeAndOutsourced] \<and> list_ex (\<lambda>p. pd_code p = code) standardProcesses"

record schedule_process =
  sp_code :: string
  sp_sequence :: int
  sp_cycle :: "int option"

record scheduled = schedule_process +
  sp_due :: "string option"

definition process_cmp :: "(string \<Rightarrow> string \<Rightarrow> int) \<Rightarrow> schedule_process \<Rightarrow> schedule_process \<Rightarrow> int" where
  "process_cmp loc l r = cmp_then (sp_sequence l - sp_sequence r) (loc (sp_code l) (sp_code r))"

definition scheduled_of :: "schedule_process \<Rightarrow> string option \<Rightarrow> scheduled" where
  "scheduled_of p due = \<lparr>sp_code = sp_code p, sp_sequence = sp_sequence p, sp_cycle = sp_cycle p, sp_due = due\<rparr>"

text \<open>The loop from the last process to the first: the cursor is a day number.\<close>

fun schedule_loop :: "int \<Rightarrow> bool \<Rightarrow> schedule_process list \<Rightarrow> scheduled list" where
  "schedule_loop cursor known [] = []"
| "schedule_loop cursor known (p # ps) =
     scheduled_of p (if known then Some (iso_day cursor) else None) #
     (case sp_cycle p of
        None \<Rightarrow> schedule_loop cursor False ps
      | Some c \<Rightarrow> schedule_loop (if known then cursor - max 0 c else cursor) known ps)"

definition reverseScheduleForProcesses :: "(string \<Rightarrow> string \<Rightarrow> int) \<Rightarrow> date \<Rightarrow> schedule_process list \<Rightarrow> scheduled list" where
  "reverseScheduleForProcesses loc anchor processes =
     rev (schedule_loop (int (day_no anchor)) True (rev (js_sort (process_cmp loc) processes)))"

definition reverseSchedule :: "(string \<Rightarrow> string \<Rightarrow> int) \<Rightarrow> date \<Rightarrow> (string \<Rightarrow> int option) \<Rightarrow> scheduled list" where
  "reverseSchedule loc anchor cycles =
     reverseScheduleForProcesses loc anchor
       (map (\<lambda>(p, i). \<lparr>sp_code = pd_code p, sp_sequence = int i + 1, sp_cycle = cycles (pd_field p)\<rparr>)
         (zip standardProcesses [0..<length standardProcesses]))"

section \<open>Inbound allocation\<close>

record delivery =
  dv_id :: string
  dv_due :: string
  dv_number :: int
  dv_planned :: rat

record allocation =
  al_delivery :: delivery
  al_allocated :: rat
  al_pending :: rat

definition compareDeliveryNumbers :: "int \<Rightarrow> int \<Rightarrow> int" where
  "compareDeliveryNumbers a b = (if a < b then -1 else if a > b then 1 else 0)"

definition fifo_cmp :: "(string \<Rightarrow> string \<Rightarrow> int) \<Rightarrow> delivery \<Rightarrow> delivery \<Rightarrow> int" where
  "fifo_cmp loc l r = cmp_then (loc (dv_due l) (dv_due r))
     (cmp_then (compareDeliveryNumbers (dv_number l) (dv_number r)) (loc (dv_id l) (dv_id r)))"

fun allocate :: "rat \<Rightarrow> delivery list \<Rightarrow> allocation list" where
  "allocate remaining [] = []"
| "allocate remaining (d # ds) =
     (let planned = max (dv_planned d) 0; allocated = min remaining planned
      in \<lparr>al_delivery = d, al_allocated = toFixed4 allocated, al_pending = toFixed4 (planned - allocated)\<rparr> #
         allocate (max (remaining - allocated) 0) ds)"

definition allocateInboundFifo :: "(string \<Rightarrow> string \<Rightarrow> int) \<Rightarrow> delivery list \<Rightarrow> rat \<Rightarrow> allocation list" where
  "allocateInboundFifo loc deliveries inbound = allocate (max inbound 0) (js_sort (fifo_cmp loc) deliveries)"

section \<open>Statuses and totals\<close>

datatype process_status = Done | Late | InProgress | NotStarted

definition processStatus :: "rat \<Rightarrow> rat \<Rightarrow> string option \<Rightarrow> string \<Rightarrow> process_status" where
  "processStatus planned reported due today =
     (if planned > 0 \<and> reported \<ge> planned then Done
      else if (case due of Some d \<Rightarrow> d \<noteq> [] \<and> d < today | None \<Rightarrow> False) then Late
      else if reported > 0 then InProgress
      else NotStarted)"

datatype outsourcing_status = Inbound | OutNotStarted | OutLate | OutInProgress

definition outsourcingStatus :: "string option \<Rightarrow> string option \<Rightarrow> string option \<Rightarrow> string \<Rightarrow> outsourcing_status" where
  "outsourcingStatus order inbound due today =
     (if (case inbound of Some d \<Rightarrow> d \<noteq> [] | None \<Rightarrow> False) then Inbound
      else if (case order of Some n \<Rightarrow> js_trim n = [] | None \<Rightarrow> True) then OutNotStarted
      else if (case due of Some d \<Rightarrow> d \<noteq> [] \<and> d < today | None \<Rightarrow> False) then OutLate
      else OutInProgress)"

record group_totals =
  gt_required :: rat
  gt_completed :: rat
  gt_pending :: rat
  gt_rate :: rat

definition item_rate :: "rat \<times> rat \<Rightarrow> rat" where
  "item_rate = (\<lambda>(required, inbound). if required \<le> 0 then 0 else min (max inbound 0 / required) 1)"

definition aggregateGroup :: "(rat \<times> rat) list \<Rightarrow> group_totals" where
  "aggregateGroup items =
     (let rates = map item_rate items;
          required = sum_list (map fst items);
          completed = sum_list (map (\<lambda>(required, inbound). min (max inbound 0) (max required 0)) items)
      in \<lparr>gt_required = toFixed4 required, gt_completed = toFixed4 completed, gt_pending = toFixed4 (max (required - completed) 0),
          gt_rate = (if rates \<noteq> [] then round_half_up 4 (sum_list rates / of_nat (length rates)) else 0)\<rparr>)"

section \<open>Binding source processes to the registry\<close>

record mapping =
  mp_source :: string
  mp_mode :: string
  mp_process :: "string option"
  mp_enabled :: bool

datatype binding_state = Matched | Ignored | Unmapped

record binding =
  bi_source :: string
  bi_name :: string
  bi_children :: "string list"
  bi_process :: "string option"
  bi_state :: binding_state

text \<open>The source processes with the child items that use them, in order of first appearance.\<close>

definition add_process :: "string \<Rightarrow> string \<times> string \<Rightarrow> (string \<times> string \<times> string list) list \<Rightarrow> (string \<times> string \<times> string list) list" where
  "add_process child = (\<lambda>(code, name) source.
     if code \<in> set (map fst source)
     then map (\<lambda>(c, n, cs). if c = code then (c, n, if child \<in> set cs then cs else cs @ [child]) else (c, n, cs)) source
     else source @ [(code, name, [child])])"

definition source_processes :: "(string \<times> (string \<times> string) list) list \<Rightarrow> (string \<times> string \<times> string list) list" where
  "source_processes children = fold (\<lambda>(item, ps) source. fold (add_process item) ps source) children []"

definition bind_process :: "mapping list \<Rightarrow> string \<times> string \<times> string list \<Rightarrow> binding" where
  "bind_process mappings = (\<lambda>(code, name, children).
     (let m = find (\<lambda>r. mp_source r = code) mappings;
          canonical = map pd_code standardProcesses;
          matched = (case m of Some r \<Rightarrow> mp_enabled r \<and> mp_mode r = ''MATCH'' \<and> (case mp_process r of Some c \<Rightarrow> c \<in> set canonical | None \<Rightarrow> False)
                     | None \<Rightarrow> False);
          ignored = (case m of Some r \<Rightarrow> mp_enabled r \<and> mp_mode r = ''IGNORE'' | None \<Rightarrow> False)
      in \<lparr>bi_source = code, bi_name = name, bi_children = sort children,
          bi_process = (if matched then mp_process (the m) else None),
          bi_state = (if matched then Matched else if ignored then Ignored else Unmapped)\<rparr>))"

definition bindBomProcesses :: "(string \<Rightarrow> string \<Rightarrow> int) \<Rightarrow> (string \<times> (string \<times> string) list) list \<Rightarrow> mapping list \<Rightarrow> binding list \<times> string list" where
  "bindBomProcesses loc children mappings =
     (let bindings = map (bind_process mappings) (js_sort (\<lambda>a b. loc (fst a) (fst b)) (source_processes children));
          codes = List.map_filter (\<lambda>b. if bi_state b = Matched then bi_process b else None) bindings
      in (bindings, map pd_code (filter (\<lambda>p. pd_code p \<in> set codes) standardProcesses)))"

section \<open>Laws of the schedule\<close>

definition cycle_known :: "schedule_process \<Rightarrow> bool" where
  "cycle_known p \<longleftrightarrow> sp_cycle p \<noteq> None"

definition cycle_days :: "schedule_process \<Rightarrow> int" where
  "cycle_days p = max 0 (the (sp_cycle p))"

lemma schedule_loop_length [simp]: "length (schedule_loop c k ps) = length ps"
  by (induction ps arbitrary: c k) (auto split: option.splits)

text \<open>The due date of the \<open>i\<close>-th process from the end: the anchor less the cycles after it, if all are known.\<close>

lemma schedule_loop_due:
  "i < length ps \<Longrightarrow> schedule_loop c k ps ! i = scheduled_of (ps ! i)
     (if k \<and> (\<forall>p \<in> set (take i ps). cycle_known p)
      then Some (iso_day (c - sum_list (map cycle_days (take i ps)))) else None)"
proof (induction ps arbitrary: c k i)
  case (Cons p ps)
  show ?case
  proof (cases i)
    case 0
    then show ?thesis by simp
  next
    case (Suc j)
    then have j: "j < length ps" using Cons.prems by simp
    show ?thesis
    proof (cases "sp_cycle p")
      case None
      then show ?thesis using Cons.IH[OF j, of c False] Suc by (simp add: cycle_known_def[of p])
    next
      case (Some d)
      then show ?thesis using Cons.IH[OF j, of "if k then c - max 0 d else c" k] Suc by (cases k) (simp_all add: cycle_known_def[of p] cycle_days_def[of p] diff_diff_eq)
    qed
  qed
qed simp

lemma take_rev_drop: "i < length xs \<Longrightarrow> take i (rev xs) = rev (drop (length xs - i) xs)"
  by (simp add: take_rev)

lemma reverse_schedule_nth:
  assumes "i < length ps"
  shows "reverseScheduleForProcesses loc anchor ps ! i = scheduled_of (js_sort (process_cmp loc) ps ! i)
     (if \<forall>p \<in> set (drop (Suc i) (js_sort (process_cmp loc) ps)). cycle_known p
      then Some (iso_day (int (day_no anchor) - sum_list (map cycle_days (drop (Suc i) (js_sort (process_cmp loc) ps))))) else None)"
proof -
  let ?o = "js_sort (process_cmp loc) ps" and ?k = "length ps - Suc i"
  have k: "?k < length (rev ?o)" using assms by simp
  have t: "take ?k (rev ?o) = rev (drop (Suc i) ?o)" using assms by (simp add: take_rev)
  have n: "rev ?o ! ?k = ?o ! i" using assms by (simp add: rev_nth Suc_diff_Suc)
  have "reverseScheduleForProcesses loc anchor ps ! i = schedule_loop (int (day_no anchor)) True (rev ?o) ! ?k"
    using assms by (simp add: reverseScheduleForProcesses_def rev_nth)
  then show ?thesis unfolding schedule_loop_due[OF k] t n rev_map[symmetric] sum_list_rev by simp
qed

section \<open>Laws of the allocation\<close>

lemma toFixed4_exact: "four_places r \<Longrightarrow> toFixed4 r = r"
proof -
  assume r: "four_places r"
  then obtain k where k: "r * 10000 = of_int k" by (auto simp: four_places_def)
  have "\<lfloor>of_int j + 1 / 2 :: rat\<rfloor> = j" for j :: int by (rule floor_unique) simp_all
  then show ?thesis using k by (simp add: toFixed4_def round_half_up_def)
qed

lemma four_places_Ints: "four_places r \<longleftrightarrow> r * 10000 \<in> \<int>"
  by (metis Ints_cases Ints_of_int floor_of_int four_places_def)

lemma four_places_0 [simp]: "four_places 0"
  by (simp add: four_places_def)

lemma four_places_diff [simp]: "four_places a \<Longrightarrow> four_places b \<Longrightarrow> four_places (a - b)"
  by (simp add: four_places_Ints left_diff_distrib)

lemma four_places_choice [simp]:
  "four_places a \<Longrightarrow> four_places b \<Longrightarrow> four_places (min a b)" "four_places a \<Longrightarrow> four_places b \<Longrightarrow> four_places (max a b)"
  by (simp_all add: min_def max_def)

definition planned_of :: "delivery \<Rightarrow> rat" where
  "planned_of d = max (dv_planned d) 0"

lemma allocate_Cons:
  assumes "four_places r" "0 \<le> r" "four_places (dv_planned d)"
  shows "allocate r (d # ds) = \<lparr>al_delivery = d, al_allocated = min r (planned_of d), al_pending = planned_of d - min r (planned_of d)\<rparr> #
    allocate (r - min r (planned_of d)) ds"
proof -
  have "four_places (planned_of d)" using assms(3) by (simp add: planned_of_def)
  then show ?thesis using assms(1,2) by (simp add: Let_def planned_of_def[symmetric] toFixed4_exact)
qed

lemma allocate_rest: "four_places r \<Longrightarrow> 0 \<le> r \<Longrightarrow> four_places (dv_planned d) \<Longrightarrow>
    four_places (r - min r (planned_of d)) \<and> 0 \<le> r - min r (planned_of d)"
  by (simp add: planned_of_def)

lemma allocate_zero: "\<forall>d \<in> set ds. four_places (dv_planned d) \<Longrightarrow> a \<in> set (allocate 0 ds) \<Longrightarrow> al_allocated a = 0"
  by (induction ds) (auto simp: allocate_Cons planned_of_def simp del: allocate.simps(2))

lemma allocate_laws:
  assumes "four_places r" "0 \<le> r" "\<forall>d \<in> set ds. four_places (dv_planned d)"
  shows "map al_delivery (allocate r ds) = ds \<and>
    sum_list (map al_allocated (allocate r ds)) = min r (sum_list (map planned_of ds)) \<and>
    (\<forall>a \<in> set (allocate r ds). 0 \<le> al_allocated a \<and> al_allocated a \<le> planned_of (al_delivery a) \<and> al_allocated a + al_pending a = planned_of (al_delivery a)) \<and>
    sorted_wrt (\<lambda>a b. 0 < al_pending a \<longrightarrow> al_allocated b = 0) (allocate r ds)"
  using assms
proof (induction ds arbitrary: r)
  case (Cons d ds)
  let ?m = "min r (planned_of d)"
  have d: "four_places (dv_planned d)" "\<forall>d \<in> set ds. four_places (dv_planned d)" using Cons.prems(3) by simp_all
  have rest: "four_places (r - ?m)" "0 \<le> r - ?m" using allocate_rest[OF Cons.prems(1,2) d(1)] by simp_all
  note ih = Cons.IH[OF rest d(2)]
  have p: "0 \<le> planned_of d" by (simp add: planned_of_def)
  have "0 \<le> sum_list (map planned_of ds)" by (rule sum_list_nonneg) (auto simp: planned_of_def)
  then have sum: "?m + min (r - ?m) (sum_list (map planned_of ds)) = min r (planned_of d + sum_list (map planned_of ds))"
    using Cons.prems(2) p by (auto simp: min_def)
  have later: "al_allocated b = 0" if "0 < planned_of d - ?m" "b \<in> set (allocate (r - ?m) ds)" for b
  proof -
    have "r - ?m = 0" using that(1) by (auto simp: min_def split: if_splits)
    then show ?thesis using allocate_zero[OF d(2)] that(2) by simp
  qed
  show ?case unfolding allocate_Cons[OF Cons.prems(1,2) d(1)]
    using ih p Cons.prems(2) sum later by (auto simp: min_le_iff_disj)
qed simp

interpretation delivery_numbers: collation compareDeliveryNumbers
  by unfold_locales (auto simp: compareDeliveryNumbers_def split: if_splits)

text \<open>The comparison of deliveries is lawful for every lawful collation.\<close>

lemma fifo_collation:
  assumes "collation loc"
  shows "collation (fifo_cmp loc)"
proof -
  have "collation (\<lambda>l r. cmp_then (compareDeliveryNumbers (dv_number l) (dv_number r)) (loc (dv_id l) (dv_id r)))"
    by (rule delivery_numbers.lexicographic) (rule collation.on_key[OF assms])
  from collation.lexicographic[OF assms this, of dv_due] show ?thesis by (simp add: fifo_cmp_def[abs_def])
qed

lemma fifo_sorted: "collation loc \<Longrightarrow> sorted_wrt (\<lambda>x y. fifo_cmp loc x y \<le> 0) (js_sort (fifo_cmp loc) ds)"
  by (rule collation.sorted_by) (rule fifo_collation)

section \<open>The properties\<close>

text \<open>C27: Inbound quantity goes to the deliveries in the order of due date, number and id: nothing is invented or lost, no
  delivery gets more than it planned, and while one is short every later one gets nothing.\<close>

theorem inbound_allocation_fifo:
  assumes "collation loc" and "four_places inbound" and "\<forall>d \<in> set ds. four_places (dv_planned d)"
    and "out = allocateInboundFifo loc ds inbound"
  shows "mset (map al_delivery out) = mset ds \<and>
    sorted_wrt (\<lambda>a b. fifo_cmp loc (al_delivery a) (al_delivery b) \<le> 0) out \<and>
    sum_list (map al_allocated out) = min (max inbound 0) (sum_list (map (\<lambda>d. max (dv_planned d) 0) ds)) \<and>
    (\<forall>a \<in> set out. 0 \<le> al_allocated a \<and> al_allocated a + al_pending a = max (dv_planned (al_delivery a)) 0 \<and> 0 \<le> al_pending a) \<and>
    sorted_wrt (\<lambda>a b. 0 < al_pending a \<longrightarrow> al_allocated b = 0) out"
proof -
  let ?ds = "js_sort (fifo_cmp loc) ds"
  have p: "\<forall>d \<in> set ?ds. four_places (dv_planned d)" using assms(3) by simp
  have r: "four_places (max inbound 0)" "0 \<le> max inbound 0" using assms(2) by simp_all
  note laws = allocate_laws[OF r p]
  have o: "out = allocate (max inbound 0) ?ds" by (simp add: assms(4) allocateInboundFifo_def)
  have s: "sum_list (map planned_of ?ds) = sum_list (map planned_of ds)"
    by (metis mset_js_sort mset_map sum_mset_sum_list)
  have "sorted_wrt (\<lambda>x y. fifo_cmp loc x y \<le> 0) (map al_delivery out)" using laws fifo_sorted[OF assms(1), of ds] by (simp add: o)
  then have "sorted_wrt (\<lambda>a b. fifo_cmp loc (al_delivery a) (al_delivery b) \<le> 0) out" by (simp only: sorted_wrt_map)
  moreover have "mset (map al_delivery out) = mset ds" using laws by (metis o mset_js_sort)
  moreover have "\<forall>a \<in> set out. 0 \<le> al_allocated a \<and> al_allocated a + al_pending a = planned_of (al_delivery a) \<and> 0 \<le> al_pending a"
    using laws unfolding o[symmetric] by force
  moreover have "sum_list (map al_allocated out) = min (max inbound 0) (sum_list (map planned_of ds))"
    "sorted_wrt (\<lambda>a b. 0 < al_pending a \<longrightarrow> al_allocated b = 0) out" using laws unfolding o[symmetric] s by blast+
  ultimately show ?thesis unfolding planned_of_def[abs_def] by blast
qed

definition sample_deliveries :: "delivery list" where
  "sample_deliveries =
     [\<lparr>dv_id = ''b'', dv_due = ''2026-02-01'', dv_number = 2, dv_planned = 5\<rparr>,
      \<lparr>dv_id = ''a'', dv_due = ''2026-01-01'', dv_number = 1, dv_planned = 3\<rparr>]"

theorem inbound_allocation_fifo_witness:
  "sum_list (map al_allocated (allocateInboundFifo cmp_units sample_deliveries 4)) = 4 \<and>
   map (\<lambda>a. (dv_id (al_delivery a), al_allocated a)) (allocateInboundFifo cmp_units sample_deliveries 4) = [(''a'', 3), (''b'', 1)]"
proof -
  have "four_places 4 \<and> (\<forall>d \<in> set sample_deliveries. four_places (dv_planned d))"
    by (simp add: four_places_def sample_deliveries_def)
  then have "sum_list (map al_allocated (allocateInboundFifo cmp_units sample_deliveries 4)) =
      min (max 4 0) (sum_list (map (\<lambda>d. max (dv_planned d) 0) sample_deliveries))"
    using inbound_allocation_fifo[OF units.collation_axioms, of 4 sample_deliveries] by blast
  moreover have "map (\<lambda>a. (dv_id (al_delivery a), al_allocated a)) (allocateInboundFifo cmp_units sample_deliveries 4) = [(''a'', 3), (''b'', 1)]"
    by code_simp
  ultimately show ?thesis by (simp add: sample_deliveries_def)
qed

text \<open>Reverse scheduling keeps the processes in their order and gives each the review date less the cycles of the
  processes after it; a process before an unknown cycle has no date.\<close>

theorem reverse_schedule_dates:
  assumes "i < length ps" and "ordered = js_sort (process_cmp loc) ps"
  shows "length (reverseScheduleForProcesses loc anchor ps) = length ps \<and>
    sp_code (reverseScheduleForProcesses loc anchor ps ! i) = sp_code (ordered ! i) \<and>
    sp_due (reverseScheduleForProcesses loc anchor ps ! i) =
      (if \<forall>p \<in> set (drop (Suc i) ordered). cycle_known p
       then Some (iso_day (int (day_no anchor) - sum_list (map cycle_days (drop (Suc i) ordered)))) else None)"
  using reverse_schedule_nth[OF assms(1), of loc anchor]
  by (simp add: assms(2) scheduled_of_def reverseScheduleForProcesses_def)

definition sample_steps :: "schedule_process list" where
  "sample_steps = [\<lparr>sp_code = ''packaging'', sp_sequence = 2, sp_cycle = Some 2\<rparr>, \<lparr>sp_code = ''cutting'', sp_sequence = 1, sp_cycle = Some 3\<rparr>]"

theorem reverse_schedule_dates_witness:
  "sp_due (reverseScheduleForProcesses cmp_units (2026, 3, 1) sample_steps ! 0) = Some (iso_text (2026, 2, 27))"
proof -
  have "0 < length sample_steps" by code_simp
  note dates = reverse_schedule_dates[OF this refl, of cmp_units "(2026, 3, 1)"]
  have valid: "valid_date (2026, 2, 27)" by code_simp
  have order: "js_sort (process_cmp cmp_units) sample_steps = rev sample_steps" by code_simp
  have "day_no (2026, 3, 1) - 2 = day_no (2026, 2, 27)" by (simp add: day_no_def month_starts month_len_def leap_def)
  moreover have "2 \<le> day_no (2026, 3, 1)" by (simp add: day_no_def month_starts)
  ultimately have "iso_day (int (day_no (2026, 3, 1)) - 2) = iso_day (int (day_no (2026, 2, 27)))"
    by (metis of_nat_diff of_nat_numeral)
  also have "\<dots> = iso_text (2026, 2, 27)" by (simp only: iso_day_def nat_int date_of_day_no[OF valid])
  finally show ?thesis using dates unfolding order by (simp add: sample_steps_def cycle_known_def cycle_days_def)
qed

end
