(* ===== verification/ShippingWindow.thy ===== *)
theory ShippingWindow
  imports JsSort
begin

text \<open>
  \<open>modules/master-plan-system/master-plan.shipping-window.ts\<close>: when the shipping plan may be edited.
  The setting \<open>shipping_edit_weekday\<close> is a JSON value that lists weekdays (1 is Monday) and
  \<open>shipping_temporary_unlock_until\<close> an instant; an instant is a number of milliseconds since the
  epoch, \<open>Date.parse\<close> is a parameter.  Asia/Shanghai is eight hours ahead of UTC (since 1991).
\<close>

section \<open>The weekdays\<close>

datatype weekday_error = EmptyWeekdays | IllegalWeekdays string

definition weekday_number :: "string \<Rightarrow> nat" where
  "weekday_number token = foldl (\<lambda>a c. 10 * a + digit_value c) 0 token"

definition parseWeekday :: "string \<Rightarrow> string \<Rightarrow> weekday_error + nat" where
  "parseWeekday raw part =
     (let token = js_trim part in
      if token = [] then Inl (IllegalWeekdays (take 64 raw))
      else if \<not> list_all js_digit token then Inl (IllegalWeekdays (take 64 raw))
      else let weekday = weekday_number token in
        if weekday < 1 \<or> weekday > 7 then Inl (IllegalWeekdays (take 64 raw)) else Inr weekday)"

definition weekday_cmp :: "nat \<Rightarrow> nat \<Rightarrow> int" where
  "weekday_cmp left right = int left - int right"

definition parseWeekdays :: "host \<Rightarrow> json option \<Rightarrow> weekday_error + nat list" where
  "parseWeekdays h v =
     (if nullish v then Inr []
      else let raw = js_string h (the v); body = js_trim raw in
        if body = [] then Inl EmptyWeekdays
        else bindE (mapE (parseWeekday raw) (js_split (CHR '','') body)) (\<lambda>parsed.
          Inr (js_sort weekday_cmp (js_dedup parsed))))"

definition weekdays_text :: "nat list \<Rightarrow> string" where
  "weekdays_text ws = js_join '','' (map (\<lambda>w. [digit_char w]) ws)"

text \<open>The save path; its only error message is a constant.\<close>

definition normalizeShippingEditWeekday :: "host \<Rightarrow> json option \<Rightarrow> unit + string" where
  "normalizeShippingEditWeekday h v =
     (if (case v of Some (JArr _) \<Rightarrow> True | _ \<Rightarrow> False) then Inl ()
      else case parseWeekdays h v of Inl _ \<Rightarrow> Inl () | Inr ws \<Rightarrow> Inr (weekdays_text ws))"

definition DEFAULT_SHIPPING_EDIT_WEEKDAYS :: "nat list" where
  "DEFAULT_SHIPPING_EDIT_WEEKDAYS = [5]"

definition resolveShippingEditWeekdays :: "host \<Rightarrow> json option \<Rightarrow> weekday_error + nat list" where
  "resolveShippingEditWeekdays h v = (if nullish v then Inr DEFAULT_SHIPPING_EDIT_WEEKDAYS else parseWeekdays h v)"

section \<open>The window\<close>

datatype shipping_error = IllegalUnlock | IllegalWeekdaySetting | ClosedToday "nat list" nat
datatype shipping_reason = TEMPORARY_UNLOCK | EDIT_WEEKDAY

definition shanghaiWeekday :: "int \<Rightarrow> nat" where
  "shanghaiWeekday now = nat (((now + 8 * 3600000) div 86400000 + 3) mod 7) + 1"

definition by_weekday :: "host \<Rightarrow> json option \<Rightarrow> int \<Rightarrow> shipping_error + shipping_reason" where
  "by_weekday h editWeekday now =
     (case resolveShippingEditWeekdays h editWeekday of
        Inl _ \<Rightarrow> Inl IllegalWeekdaySetting
      | Inr weekdays \<Rightarrow>
          if shanghaiWeekday now \<notin> set weekdays then Inl (ClosedToday weekdays (shanghaiWeekday now)) else Inr EDIT_WEEKDAY)"

definition assertShippingEditAllowed ::
    "host \<Rightarrow> (string \<Rightarrow> int option) \<Rightarrow> json option \<Rightarrow> json option \<Rightarrow> int \<Rightarrow> shipping_error + shipping_reason" where
  "assertShippingEditAllowed h date_parse editWeekday unlock now =
     (if \<not> nullish unlock \<and> js_trim (js_string h (the unlock)) \<noteq> [] \<and> js_string h (the unlock) \<noteq> ''null''
      then case date_parse (js_string h (the unlock)) of
          None \<Rightarrow> Inl IllegalUnlock
        | Some until \<Rightarrow> if until > now then Inr TEMPORARY_UNLOCK else by_weekday h editWeekday now
      else by_weekday h editWeekday now)"

section \<open>Saving the setting\<close>

text \<open>\<open>normalizeSystemSetting\<close> of the application service: the value stored in the \<open>jsonb\<close> column.\<close>

definition normalizeSystemSetting :: "host \<Rightarrow> string \<Rightarrow> json option \<Rightarrow> unit + json option" where
  "normalizeSystemSetting h setting_key v =
     (if setting_key \<noteq> ''shipping_edit_weekday'' then Inr v
      else bindE (normalizeShippingEditWeekday h v) (\<lambda>s. Inr (Some (JStr s))))"

section \<open>Laws\<close>

lemma nullish_json [simp]: "nullish None" "nullish (Some JNull)" "\<not> nullish (Some (JStr s))" "\<not> nullish (Some (JArr xs))"
    "\<not> nullish (Some (JNum n))" "\<not> nullish (Some (JBool b))" "\<not> nullish (Some (JObj kvs))"
  by (simp_all add: nullish_def)

interpretation weekdays: collation weekday_cmp
  by unfold_locales (simp_all add: weekday_cmp_def)

lemma sorted_weekdays: "sorted (js_sort weekday_cmp ws)"
  using weekdays.sorted_js_sort[of ws] by (simp add: weekday_cmp_def)

lemma distinct_js_sort: "distinct (js_sort cmp xs) \<longleftrightarrow> distinct xs"
  by (metis mset_js_sort mset_eq_imp_distinct_iff)

lemma js_sort_sorted: "sorted ws \<Longrightarrow> js_sort weekday_cmp ws = ws"
  by (metis mset_js_sort sorted_weekdays properties_for_sort sorted_sort_id)

lemma parseWeekday_Inr: "parseWeekday raw part = Inr w \<longleftrightarrow>
    js_trim part \<noteq> [] \<and> list_all js_digit (js_trim part) \<and> w = weekday_number (js_trim part) \<and> 1 \<le> w \<and> w \<le> 7"
  by (auto simp: parseWeekday_def Let_def)

lemma parseWeekdays_ok:
  assumes "parseWeekdays h (Some v) = Inr ws" and "v \<noteq> JNull"
  shows "ws \<noteq> [] \<and> distinct ws \<and> sorted ws \<and> set ws \<subseteq> {1..7} \<and>
    (\<forall>part \<in> set (js_split (CHR '','') (js_trim (js_string h v))). js_trim part \<noteq> [] \<and> list_all js_digit (js_trim part)) \<and>
    set ws = (\<lambda>part. weekday_number (js_trim part)) ` set (js_split (CHR '','') (js_trim (js_string h v)))"
proof -
  let ?parts = "js_split (CHR '','') (js_trim (js_string h v))"
  obtain parsed where p: "mapE (parseWeekday (js_string h v)) ?parts = Inr parsed" "ws = js_sort weekday_cmp (js_dedup parsed)"
    using assms by (auto simp: parseWeekdays_def nullish_def Let_def err_simps split: if_splits)
  then have each: "list_all2 (\<lambda>x y. parseWeekday (js_string h v) x = Inr y) ?parts parsed" by (simp add: mapE_Inr_iff)
  then have map: "parsed = map (\<lambda>part. weekday_number (js_trim part)) ?parts"
    by (auto simp: list_all2_conv_all_nth parseWeekday_Inr intro: nth_equalityI)
  have ok: "js_trim part \<noteq> [] \<and> list_all js_digit (js_trim part) \<and> weekday_number (js_trim part) \<in> {1..7}" if "part \<in> set ?parts" for part
    using each that by (auto simp: list_all2_conv_all_nth parseWeekday_Inr in_set_conv_nth)
  have "set ws = set parsed" by (simp add: p(2))
  moreover have "parsed \<noteq> []" by (simp add: map)
  ultimately have "ws \<noteq> []" by (metis empty_set set_empty)
  then show ?thesis using ok by (auto simp: p(2) distinct_js_sort sorted_weekdays map image_iff)
qed

lemma js_split_join: "ws \<noteq> [] \<Longrightarrow> \<forall>w \<in> set ws. c \<notin> set w \<Longrightarrow> js_split c (js_join [c] ws) = ws"
proof (induction "[c]" ws rule: js_join.induct)
  have part: "c \<notin> set w \<Longrightarrow> js_split c w = [w]" for w by (induction w) auto
  have cut: "c \<notin> set w \<Longrightarrow> js_split c (w @ c # r) = w # js_split c r" for w r by (induction w) auto
  case (2 x)
  then show ?case using part by simp
next
  have cut: "c \<notin> set w \<Longrightarrow> js_split c (w @ c # r) = w # js_split c r" for w r by (induction w) auto
  case (3 x y ys)
  then show ?case using cut by simp
qed simp

lemma weekday_digit:
  assumes "w \<in> {1..7}"
  shows "js_trim [digit_char w] = [digit_char w] \<and> js_digit (digit_char w) \<and> weekday_number [digit_char w] = w \<and> digit_char w \<noteq> CHR '',''"
proof -
  have "w \<in> {1, 2, 3, 4, 5, 6, 7}" using assms by auto
  then show ?thesis by (elim insertE emptyE) (simp_all only:, code_simp+)
qed

lemma parse_digit: "w \<in> {1..7} \<Longrightarrow> parseWeekday raw [digit_char w] = Inr w"
  unfolding parseWeekday_Inr using weekday_digit[of w] by simp

lemma js_join_set: "c \<in> set (js_join sep ws) \<Longrightarrow> c \<in> set sep \<or> (\<exists>w \<in> set ws. c \<in> set w)"
  by (induction sep ws rule: js_join.induct) auto

lemma weekdays_text_trim:
  assumes "set ws \<subseteq> {1..7}"
  shows "js_trim (weekdays_text ws) = weekdays_text ws"
proof (rule js_trim_plain)
  have "\<not> js_space c" if "c \<in> set (weekdays_text ws)" for c
  proof -
    have "c = CHR '','' \<or> (\<exists>w \<in> {1..7}. c = digit_char w)" using js_join_set[OF that[unfolded weekdays_text_def]] assms by auto
    moreover have "\<not> js_space (CHR '','')" by code_simp
    moreover have "\<not> js_space (digit_char w)" if "w \<in> {1..7}" for w
      using weekday_digit[OF that] js_trim_hd[of "[digit_char w]"] by simp
    ultimately show ?thesis by blast
  qed
  then show "list_all (\<lambda>c. \<not> js_space c) (weekdays_text ws)" by (simp add: list_all_iff)
qed

lemma weekdays_text_parse:
  assumes "ws \<noteq> []" "distinct ws" "sorted ws" "set ws \<subseteq> {1..7}"
  shows "parseWeekdays h (Some (JStr (weekdays_text ws))) = Inr ws"
proof -
  let ?ds = "map (\<lambda>w. [digit_char w]) ws"
  have "js_split (CHR '','') (weekdays_text ws) = ?ds" unfolding weekdays_text_def
  proof (rule js_split_join)
    show "\<forall>w \<in> set ?ds. CHR '','' \<notin> set w"
    proof
      fix x assume "x \<in> set ?ds"
      then obtain w where w: "x = [digit_char w]" "w \<in> {1..7}" using assms(4) by auto
      then show "CHR '','' \<notin> set x" using conjunct2[OF conjunct2[OF conjunct2[OF weekday_digit[OF w(2)]]]] by (metis empty_set set_ConsD empty_iff)
    qed
  qed (use assms(1) in simp)
  moreover have "mapE (parseWeekday raw) ?ds = Inr ws" for raw
    unfolding mapE_Inr_iff using assms(4) parse_digit by (auto simp: list_all2_conv_all_nth subset_iff)
  moreover have "weekdays_text ws \<noteq> []" using assms(1) by (cases ws rule: remdups_adj.cases) (simp_all add: weekdays_text_def)
  ultimately show ?thesis using assms by (simp add: parseWeekdays_def Let_def weekdays_text_trim js_dedup_distinct js_sort_sorted)
qed

section \<open>The properties\<close>

text \<open>The shipping plan can be edited only under an unlock that has not ended, with no weekday configured on a Friday, or
  on a weekday that a well-formed list of the numbers 1 to 7 names; a list that is malformed in any part never permits it.\<close>

theorem shipping_window_fail_closed:
  assumes "assertShippingEditAllowed h date_parse editWeekday unlock now = Inr reason"
  shows "(reason = TEMPORARY_UNLOCK \<and> (\<exists>u until. unlock = Some u \<and> date_parse (js_string h u) = Some until \<and> now < until)) \<or>
    (reason = EDIT_WEEKDAY \<and> nullish editWeekday \<and> shanghaiWeekday now = 5) \<or>
    (reason = EDIT_WEEKDAY \<and> (\<exists>v. editWeekday = Some v \<and> v \<noteq> JNull \<and>
      (\<forall>part \<in> set (js_split (CHR '','') (js_trim (js_string h v))). js_trim part \<noteq> [] \<and> list_all js_digit (js_trim part) \<and> weekday_number (js_trim part) \<in> {1..7}) \<and>
      (\<exists>part \<in> set (js_split (CHR '','') (js_trim (js_string h v))). weekday_number (js_trim part) = shanghaiWeekday now)))"
proof -
  have weekday: ?thesis if w: "by_weekday h editWeekday now = Inr reason"
  proof -
    from w obtain ws where ws: "resolveShippingEditWeekdays h editWeekday = Inr ws" "shanghaiWeekday now \<in> set ws" "reason = EDIT_WEEKDAY"
      by (auto simp: by_weekday_def split: sum.splits if_splits)
    show ?thesis
    proof (cases "nullish editWeekday")
      case True
      then have "ws = [5]" using ws(1) by (simp add: resolveShippingEditWeekdays_def DEFAULT_SHIPPING_EDIT_WEEKDAYS_def)
      then have "shanghaiWeekday now = 5" using ws(2) by simp
      then show ?thesis using True ws(3) by blast
    next
      case False
      then obtain v where v: "editWeekday = Some v" "v \<noteq> JNull" by (cases editWeekday) (auto simp: nullish_def)
      then have "parseWeekdays h (Some v) = Inr ws" using ws(1) False by (simp add: resolveShippingEditWeekdays_def)
      from parseWeekdays_ok[OF this v(2)] have ok: "set ws \<subseteq> {1..7}"
        "set ws = (\<lambda>part. weekday_number (js_trim part)) ` set (js_split (CHR '','') (js_trim (js_string h v)))"
        "\<forall>part \<in> set (js_split (CHR '','') (js_trim (js_string h v))). js_trim part \<noteq> [] \<and> list_all js_digit (js_trim part)"
        by blast+
      then show ?thesis using v ws(2,3) by (intro disjI2) (auto simp del: atLeastAtMost_iff)
    qed
  qed
  show ?thesis using assms weekday
    by (cases unlock) (auto simp: assertShippingEditAllowed_def simp del: js_string.simps split: if_splits option.splits)
qed

definition window_host :: host where
  "window_host = \<lparr>num_str = \<lambda>_. ''5'', sha256 = \<lambda>s. s, url_protocol = \<lambda>_. None\<rparr>"

theorem shipping_window_fail_closed_witness:
  "assertShippingEditAllowed window_host (\<lambda>_. None) (Some (JStr ''2, 4'')) None 0 = Inr EDIT_WEEKDAY \<and> shanghaiWeekday 0 = 4 \<and>
   (\<exists>part \<in> set [''2'', '' 4'']. weekday_number (js_trim part) = 4) \<and>
   assertShippingEditAllowed window_host (\<lambda>_. None) (Some (JStr ''2,a'')) None 0 = Inl IllegalWeekdaySetting"
proof -
  have a: "assertShippingEditAllowed window_host (\<lambda>_. None) (Some (JStr ''2, 4'')) None 0 = Inr EDIT_WEEKDAY" by code_simp
  have b: "assertShippingEditAllowed window_host (\<lambda>_. None) (Some (JStr ''2,a'')) None 0 = Inl IllegalWeekdaySetting" by code_simp
  have s: "js_split (CHR '','') (js_trim (js_string window_host (JStr ''2, 4''))) = [''2'', '' 4'']" by code_simp
  have t: "shanghaiWeekday 0 = 4" by code_simp
  have "\<exists>part \<in> set [''2'', '' 4'']. weekday_number (js_trim part) = 4"
    using shipping_window_fail_closed[OF a] unfolding t by (auto simp: s simp del: js_string.simps js_split.simps)
  then show ?thesis using a b t by blast
qed

text \<open>What the save path accepts of a given weekday setting is stored as a text that the reading path parses to the same
  weekdays: a strictly increasing, non-empty list of numbers from 1 to 7.\<close>

theorem shipping_weekdays_roundtrip:
  assumes "normalizeSystemSetting h ''shipping_edit_weekday'' (Some v) = Inr stored" and "v \<noteq> JNull"
  shows "\<exists>ws. parseWeekdays h (Some v) = Inr ws \<and> resolveShippingEditWeekdays h stored = Inr ws \<and>
    ws \<noteq> [] \<and> distinct ws \<and> sorted ws \<and> set ws \<subseteq> {1..7}"
proof -
  from assms obtain ws where ws: "parseWeekdays h (Some v) = Inr ws" "stored = Some (JStr (weekdays_text ws))"
    by (auto simp: normalizeSystemSetting_def normalizeShippingEditWeekday_def err_simps split: if_splits sum.splits)
  from parseWeekdays_ok[OF ws(1) assms(2)] have ok: "ws \<noteq> []" "distinct ws" "sorted ws" "set ws \<subseteq> {1..7}" by blast+
  then show ?thesis using ws weekdays_text_parse[OF ok] by (auto simp: resolveShippingEditWeekdays_def)
qed

theorem shipping_weekdays_roundtrip_witness:
  "normalizeSystemSetting window_host ''shipping_edit_weekday'' (Some (JStr '' 5,2,2'')) = Inr (Some (JStr ''2,5'')) \<and>
   (\<exists>ws. parseWeekdays window_host (Some (JStr '' 5,2,2'')) = Inr ws \<and> resolveShippingEditWeekdays window_host (Some (JStr ''2,5'')) = Inr ws \<and> ws \<noteq> [])"
proof -
  have a: "normalizeSystemSetting window_host ''shipping_edit_weekday'' (Some (JStr '' 5,2,2'')) = Inr (Some (JStr ''2,5''))" by code_simp
  show ?thesis using shipping_weekdays_roundtrip[OF a] a by blast
qed

text \<open>A JSON \<open>null\<close> is not a weekday setting the reading path accepts once it has been saved: it is stored as the empty text.\<close>

lemma null_setting_closes:
  "normalizeSystemSetting h ''shipping_edit_weekday'' (Some JNull) = Inr (Some (JStr [])) \<and>
   resolveShippingEditWeekdays h (Some JNull) = Inr [5] \<and> resolveShippingEditWeekdays h (Some (JStr [])) = Inl EmptyWeekdays"
  by (simp add: normalizeSystemSetting_def normalizeShippingEditWeekday_def parseWeekdays_def weekdays_text_def
      resolveShippingEditWeekdays_def DEFAULT_SHIPPING_EDIT_WEEKDAYS_def Let_def)

end
