(* ===== verification/SupervisionInput.thy ===== *)
theory SupervisionInput
  imports DynamicDate
begin

text \<open>
  \<open>modules/supervision\<close>, part one: actors and permissions (\<open>supervision.scope.ts\<close>), the rows of the three
  tables and the checks on request bodies (the private methods of \<open>supervision.application.service.ts\<close>).
  A request body is a JSON object.  Instants are milliseconds since the epoch.  The environment holds what
  the service reads elsewhere: the clock, the enabled users and departments, and the record scope test,
  a compiled SQL condition.  Identifiers are compared as they are written (the database also takes a UUID in
  capitals for the same value).
\<close>

section \<open>Errors, actors, environment\<close>

datatype sv_error = SvForbidden string | SvNotFound string | SvBadRequest string | SvConflict string | SvUnique string

definition ensure :: "bool \<Rightarrow> sv_error \<Rightarrow> sv_error + unit" where
  "ensure b e = (if b then Inr () else Inl e)"

lemma ensure_Inr [simp, err_simps]: "ensure b e = Inr u \<longleftrightarrow> b"
  by (simp add: ensure_def)

type_synonym body = "(string \<times> json) list"

record sv_scope_rule =
  sr_field :: string
  sr_operator :: string
  sr_value :: json

record table_scope =
  ts_resource :: string
  ts_scope :: string
  ts_match :: "string option"
  ts_actions :: "string list option"
  ts_rules :: "sv_scope_rule list"

record sv_actor =
  sa_tenant :: string
  sa_user :: "string option"
  sa_username :: string
  sa_admin :: bool
  sa_modules :: "string list"
  sa_permissions :: "string list"
  sa_scopes :: "table_scope list"

definition administrator :: "sv_actor \<Rightarrow> bool" where
  "administrator a \<longleftrightarrow> sa_admin a \<or> ''*'' \<in> set (sa_permissions a) \<or> ''project-task'' \<in> set (sa_modules a)"

definition hasSupervisionPermission :: "sv_actor \<Rightarrow> string \<Rightarrow> string \<Rightarrow> bool" where
  "hasSupervisionPermission a resource action \<longleftrightarrow> administrator a \<or> (resource @ '':*:'' @ action) \<in> set (sa_permissions a)"

definition hasSupervisionFieldPermission :: "sv_actor \<Rightarrow> string \<Rightarrow> string \<Rightarrow> string \<Rightarrow> bool" where
  "hasSupervisionFieldPermission a resource field action \<longleftrightarrow>
     administrator a \<or> (resource @ '':'' @ field @ '':'' @ action) \<in> set (sa_permissions a)"

definition assertAction :: "sv_actor \<Rightarrow> string \<Rightarrow> string \<Rightarrow> sv_error + unit" where
  "assertAction a resource action = ensure (hasSupervisionPermission a resource action) (SvForbidden action)"

definition assertFields :: "sv_actor \<Rightarrow> string \<Rightarrow> string list \<Rightarrow> sv_error + unit" where
  "assertFields a resource changed =
     (case find (\<lambda>f. \<not> hasSupervisionFieldPermission a resource f ''update'') changed of
        Some f \<Rightarrow> Inl (SvForbidden f) | None \<Rightarrow> Inr ())"

section \<open>Rows\<close>

datatype lifecycle = NOT_STARTED | IN_PROGRESS | COMPLETED | ABORTED

record attachment =
  at_key :: string
  at_name :: string
  at_type :: string
  at_size :: rat

text \<open>What \<open>projectInput\<close> and \<open>taskInput\<close> return and \<open>Object.assign\<close> writes into the row.\<close>

record project_fields =
  pf_name :: string
  pf_description :: string
  pf_sourceType :: string
  pf_sourceName :: "string option"
  pf_sourceDate :: "string option"
  pf_owner :: string
  pf_supervisor :: "string option"
  pf_department :: string
  pf_participants :: "string list"
  pf_priority :: string
  pf_start :: string
  pf_due :: string
  pf_delivered :: "string option"
  pf_criteria :: string
  pf_attachments :: "attachment list"

record project =
  pj_id :: string
  pj_tenant :: string
  pj_code :: string
  pj_fields :: project_fields
  pj_status :: lifecycle
  pj_completed :: "int option"
  pj_summary :: "string option"
  pj_stop :: "string option"
  pj_created_by :: "string option"
  pj_updated_by :: string
  pj_version :: nat

record task_fields =
  tf_project :: string
  tf_name :: string
  tf_description :: string
  tf_owner :: string
  tf_collaborators :: "string list"
  tf_department :: string
  tf_priority :: string
  tf_start :: string
  tf_due :: string
  tf_delivered :: "string option"
  tf_progress :: rat
  tf_criteria :: string
  tf_followup :: "string option"
  tf_attachments :: "attachment list"

record task =
  tk_id :: string
  tk_tenant :: string
  tk_code :: string
  tk_fields :: task_fields
  tk_status :: lifecycle
  tk_completed :: "int option"
  tk_stop :: "string option"
  tk_created_by :: "string option"
  tk_updated_by :: string
  tk_version :: nat

record progress_row =
  pr_id :: string
  pr_tenant :: string
  pr_task :: string
  pr_project :: string
  pr_kind :: string
  pr_progress :: "rat option"
  pr_summary :: string
  pr_risk :: "string option"
  pr_action :: "string option"
  pr_followup :: "string option"
  pr_proposed :: "string option"
  pr_reason :: "string option"
  pr_attachments :: "attachment list"
  pr_created_by :: "string option"

text \<open>An audit row without its JSON images of the record.\<close>

record audit_row =
  ar_tenant :: string
  ar_actor :: "string option"
  ar_resource :: string
  ar_record :: "string option"
  ar_action :: string

record sv_db =
  sv_projects :: "project list"
  sv_tasks :: "task list"
  sv_progress :: "progress_row list"
  sv_audit :: "audit_row list"

record sv_env =
  se_host :: host
  se_now :: int
  se_users :: "string list"
  se_departments :: "string list"
  se_scope :: "sv_actor \<Rightarrow> string \<Rightarrow> string \<Rightarrow> sv_db \<Rightarrow> string \<Rightarrow> bool"

section \<open>Checks on a body\<close>

text \<open>The day of an instant in Asia/Shanghai.\<close>

definition shanghaiDate :: "int \<Rightarrow> string" where
  "shanghaiDate now = iso_day ((now + 8 * 3600000) div 86400000 + int (day_no (1970, 1, 1)))"

definition body_text :: "host \<Rightarrow> json option \<Rightarrow> string" where
  "body_text h v = js_string h (coalesce v (JStr []))"

definition requiredText :: "host \<Rightarrow> json option \<Rightarrow> string \<Rightarrow> nat \<Rightarrow> sv_error + string" where
  "requiredText h v label bound =
     (let t = js_trim (body_text h v) in
      if t = [] then Inl (SvBadRequest (label @ '' is empty'')) else if bound < length t then Inl (SvBadRequest (label @ '' is too long'')) else Inr t)"

definition optionalBodyText :: "host \<Rightarrow> json option \<Rightarrow> nat \<Rightarrow> sv_error + string option" where
  "optionalBodyText h v bound =
     (if nullish v \<or> js_trim (js_string h (the v)) = [] then Inr None
      else let t = js_trim (js_string h (the v)) in
        if bound < length t then Inl (SvBadRequest ''text is too long'') else Inr (Some t))"

text \<open>\<open>datePattern\<close>, and \<open>Date.parse\<close> of that day at midnight, which only looks at the ranges of month and day.\<close>

definition body_date :: "string \<Rightarrow> bool" where
  "body_date s \<longleftrightarrow> list_all2 (\<lambda>p c. if p = CHR ''#'' then js_digit c else c = p) ''####-##-##'' s"

definition body_date_parses :: "string \<Rightarrow> bool" where
  "body_date_parses s \<longleftrightarrow>
     (let month = digits_value (take 2 (drop 5 s)); d = digits_value (drop 8 s) in 1 \<le> month \<and> month \<le> 12 \<and> 1 \<le> d \<and> d \<le> 31)"

definition requiredDate :: "host \<Rightarrow> json option \<Rightarrow> string \<Rightarrow> sv_error + string" where
  "requiredDate h v label =
     (let d = body_text h v in if \<not> body_date d \<or> \<not> body_date_parses d then Inl (SvBadRequest (label @ '' is not a date'')) else Inr d)"

definition optionalBodyDate :: "host \<Rightarrow> json option \<Rightarrow> string \<Rightarrow> sv_error + string option" where
  "optionalBodyDate h v label =
     (if nullish v \<or> v = Some (JStr []) then Inr None else bindE (requiredDate h v label) (\<lambda>d. Inr (Some d)))"

definition body_progress :: "json option \<Rightarrow> sv_error + rat" where
  "body_progress v =
     (case js_number_opt v of
        None \<Rightarrow> Inl (SvBadRequest ''progress'')
      | Some n \<Rightarrow> if n < 0 \<or> 100 < n then Inl (SvBadRequest ''progress'') else Inr (of_int \<lfloor>n * 100 + 1 / 2\<rfloor> / 100))"

definition body_ids :: "host \<Rightarrow> json option \<Rightarrow> sv_error + string list" where
  "body_ids h v =
     (if nullish v then Inr []
      else case v of
        Some (JArr xs) \<Rightarrow> Inr (js_dedup (filter (\<lambda>s. s \<noteq> []) (map (js_string h) xs)))
      | _ \<Rightarrow> Inl (SvBadRequest ''members''))"

definition prop_of :: "json \<Rightarrow> string \<Rightarrow> json option" where
  "prop_of j k = (case j of JObj kvs \<Rightarrow> jget kvs k | _ \<Rightarrow> None)"

definition key_char :: "bool \<Rightarrow> char \<Rightarrow> bool" where
  "key_char dot c \<longleftrightarrow> c \<in> set ''ABCDEFGHIJKLMNOPQRSTUVWXYZabcdefghijklmnopqrstuvwxyz0123456789_-'' \<or> dot \<and> c = CHR ''.''"

definition attachment_key :: "string \<Rightarrow> bool" where
  "attachment_key key \<longleftrightarrow>
     (case js_split (CHR ''/'') key of
        [a, b, c, d] \<Rightarrow> a = ''supervision'' \<and> b \<noteq> [] \<and> list_all (key_char False) b \<and> c \<noteq> [] \<and> list_all (key_char False) c \<and>
          d \<noteq> [] \<and> list_all (key_char True) d
      | _ \<Rightarrow> False)"

definition body_attachment :: "host \<Rightarrow> json \<Rightarrow> sv_error + attachment" where
  "body_attachment h item =
     (let key = body_text h (prop_of item ''key''); name = js_trim (body_text h (prop_of item ''name''));
          contentType = js_string h (coalesce (prop_of item ''contentType'') (JStr ''application/octet-stream''));
          bytes = js_number_opt (prop_of item ''size'')
      in case bytes of
           None \<Rightarrow> Inl (SvBadRequest ''attachment'')
         | Some n \<Rightarrow>
             if \<not> attachment_key key \<or> name = [] \<or> \<not> rat_is_int n \<or> n < 0 \<or> 20 * 1024 * 1024 < n then Inl (SvBadRequest ''attachment'')
             else Inr \<lparr>at_key = key, at_name = take 255 name, at_type = take 150 contentType, at_size = n\<rparr>)"

definition body_attachments :: "host \<Rightarrow> json option \<Rightarrow> sv_error + attachment list" where
  "body_attachments h v =
     (if nullish v then Inr []
      else case v of
        Some (JArr xs) \<Rightarrow> if 20 < length xs then Inl (SvBadRequest ''attachments'') else mapE (body_attachment h) xs
      | _ \<Rightarrow> Inl (SvBadRequest ''attachments''))"

definition assertAttachmentTenant :: "attachment list \<Rightarrow> sv_actor \<Rightarrow> sv_error + unit" where
  "assertAttachmentTenant atts a =
     (let pre = ''supervision/'' @ map (\<lambda>c. if key_char False c then c else CHR ''_'') (sa_tenant a) @ ''/''
      in ensure (list_all (\<lambda>t. take (length pre) (at_key t) = pre) atts) (SvForbidden ''attachment''))"

definition assertVersion :: "nat \<Rightarrow> json option \<Rightarrow> sv_error + unit" where
  "assertVersion current expected =
     (case js_number_opt expected of
        None \<Rightarrow> Inl (SvBadRequest ''version'')
      | Some n \<Rightarrow> if \<not> rat_is_int n \<or> n < 1 then Inl (SvBadRequest ''version'') else ensure (of_nat current = n) (SvConflict ''version''))"

text \<open>\<open>members\<close>: every named user exists and is enabled.\<close>

definition members :: "sv_env \<Rightarrow> string list \<Rightarrow> sv_error + unit" where
  "members e ids =
     (let named = filter (\<lambda>i. i \<noteq> []) ids; unique = js_dedup named in
      if unique = [] \<or> length unique \<noteq> length named \<and> [] \<in> set ids then Inl (SvBadRequest ''owner'')
      else ensure (length (filter (\<lambda>u. u \<in> set unique) (se_users e)) = length unique) (SvBadRequest ''unknown member''))"

definition requiredDepartment :: "sv_env \<Rightarrow> json option \<Rightarrow> sv_error + string" where
  "requiredDepartment e v =
     (if nullish v \<or> v = Some (JStr []) then Inl (SvBadRequest ''department'')
      else let i = js_string (se_host e) (the v) in
        if i \<notin> set (se_departments e) then Inl (SvBadRequest ''department'')
        else if i = [] then Inl (SvBadRequest ''department'') else Inr i)"

definition sv_priorities :: "string list" where
  "sv_priorities = [''HIGH'', ''MEDIUM'', ''LOW'']"

definition sv_sources :: "string list" where
  "sv_sources = [''IMPORTANT_MEETING'', ''STRATEGIC_TASK'', ''LEADER_ASSIGNMENT'', ''SPECIAL_WORK'', ''OTHER'']"

text \<open>\<open>projectInput\<close>: the input is a lookup, so that an update can merge the body over the row.\<close>

definition projectInput :: "sv_env \<Rightarrow> (string \<Rightarrow> json option) \<Rightarrow> sv_error + project_fields" where
  "projectInput e input = (let h = se_host e in
     bindE (requiredDate h (input ''plannedStartDate'') ''plannedStartDate'') (\<lambda>start.
     bindE (requiredDate h (input ''dueDate'') ''dueDate'') (\<lambda>due.
     bindE (ensure (start \<le> due) (SvBadRequest ''dates'')) (\<lambda>_.
     bindE (requiredText h (input ''sourceType'') ''sourceType'' 40) (\<lambda>source.
     bindE (ensure (source \<in> set sv_sources) (SvBadRequest ''sourceType'')) (\<lambda>_.
     let priority = js_string h (coalesce (input ''priority'') (JStr ''MEDIUM'')) in
     bindE (ensure (priority \<in> set sv_priorities) (SvBadRequest ''priority'')) (\<lambda>_.
     let owner = body_text h (input ''ownerId'');
         supervisor = (if truthy (input ''supervisorId'') then Some (js_string h (the (input ''supervisorId''))) else None) in
     bindE (body_ids h (input ''participantIds'')) (\<lambda>participants.
     bindE (ensure (owner \<noteq> []) (SvBadRequest ''owner'')) (\<lambda>_.
     bindE (ensure (participants \<noteq> []) (SvBadRequest ''participants'')) (\<lambda>_.
     bindE (members e ([owner] @ (case supervisor of Some s \<Rightarrow> [s] | None \<Rightarrow> []) @ participants)) (\<lambda>_.
     bindE (requiredDepartment e (input ''departmentId'')) (\<lambda>department.
     bindE (requiredText h (input ''projectName'') ''projectName'' 300) (\<lambda>name.
     bindE (requiredText h (input ''projectDescription'') ''projectDescription'' 10000) (\<lambda>description.
     bindE (optionalBodyText h (input ''sourceName'') 300) (\<lambda>sourceName.
     bindE (optionalBodyDate h (input ''sourceDate'') ''sourceDate'') (\<lambda>sourceDate.
     bindE (optionalBodyDate h (input ''actualDeliveryDate'') ''actualDeliveryDate'') (\<lambda>delivered.
     bindE (requiredText h (input ''acceptanceCriteria'') ''acceptanceCriteria'' 10000) (\<lambda>criteria.
     bindE (body_attachments h (input ''attachments'')) (\<lambda>atts.
       Inr \<lparr>pf_name = name, pf_description = description, pf_sourceType = source, pf_sourceName = sourceName, pf_sourceDate = sourceDate,
            pf_owner = owner, pf_supervisor = supervisor, pf_department = department, pf_participants = participants, pf_priority = priority,
            pf_start = start, pf_due = due, pf_delivered = delivered, pf_criteria = criteria, pf_attachments = atts\<rparr>)))))))))))))))))))"

definition taskInput :: "sv_env \<Rightarrow> (string \<Rightarrow> json option) \<Rightarrow> task option \<Rightarrow> sv_error + task_fields" where
  "taskInput e input existing = (let h = se_host e;
       project = (case existing of Some t \<Rightarrow> tf_project (tk_fields t) | None \<Rightarrow> body_text h (input ''projectId'')) in
     bindE (ensure (project \<noteq> []) (SvBadRequest ''projectId'')) (\<lambda>_.
     let owner = body_text h (input ''ownerId'') in
     bindE (ensure (owner \<noteq> []) (SvBadRequest ''owner'')) (\<lambda>_.
     bindE (body_ids h (input ''collaboratorIds'')) (\<lambda>collaborators.
     bindE (ensure (collaborators \<noteq> []) (SvBadRequest ''participants'')) (\<lambda>_.
     bindE (members e (owner # collaborators)) (\<lambda>_.
     bindE (requiredDepartment e (input ''departmentId'')) (\<lambda>department.
     let priority = js_string h (coalesce (input ''priority'') (JStr ''MEDIUM'')) in
     bindE (ensure (priority \<in> set sv_priorities) (SvBadRequest ''priority'')) (\<lambda>_.
     bindE (requiredDate h (input ''dueDate'') ''dueDate'') (\<lambda>due.
     bindE (requiredDate h (input ''plannedStartDate'') ''plannedStartDate'') (\<lambda>start.
     bindE (ensure (start \<le> due) (SvBadRequest ''dates'')) (\<lambda>_.
     let currentProgress = (case existing of Some t \<Rightarrow> Some (JNum (tf_progress (tk_fields t))) | None \<Rightarrow> input ''progress'') in
     bindE (ensure (\<not> nullish currentProgress) (SvBadRequest ''progress'')) (\<lambda>_.
     bindE (requiredText h (input ''taskName'') ''taskName'' 300) (\<lambda>name.
     bindE (requiredText h (input ''description'') ''description'' 10000) (\<lambda>description.
     bindE (optionalBodyDate h (input ''actualDeliveryDate'') ''actualDeliveryDate'') (\<lambda>delivered.
     bindE (body_progress currentProgress) (\<lambda>progress.
     bindE (requiredText h (input ''acceptanceCriteria'') ''acceptanceCriteria'' 10000) (\<lambda>criteria.
     bindE (optionalBodyDate h (input ''nextFollowupDate'') ''nextFollowupDate'') (\<lambda>followup.
     bindE (body_attachments h (input ''attachments'')) (\<lambda>atts.
       Inr \<lparr>tf_project = project, tf_name = name, tf_description = description, tf_owner = owner, tf_collaborators = collaborators,
            tf_department = department, tf_priority = priority, tf_start = start, tf_due = due, tf_delivered = delivered, tf_progress = progress,
            tf_criteria = criteria, tf_followup = followup, tf_attachments = atts\<rparr>)))))))))))))))))))"

end
