(* ===== verification/Supervision.thy ===== *)
theory Supervision
  imports SupervisionInput
begin

text \<open>
  \<open>modules/supervision\<close>, part two: the commands of \<open>supervision.application.service.ts\<close>, each one
  transaction over the three tables and the audit log, and the display rules of \<open>supervision.domain.ts\<close>.
  Identifiers come from \<open>uuidv7()\<close>, a parameter of each command that inserts; inserting a row whose
  identifier or code is taken fails as the unique constraints make it.
\<close>

section \<open>Display and performance\<close>

datatype display_status = DisplayNormal | DisplayOverdue | DisplayCompleted | DisplayAborted

definition supervisionDisplayStatus :: "lifecycle \<Rightarrow> string \<Rightarrow> int \<Rightarrow> display_status" where
  "supervisionDisplayStatus status due now =
     (if status = COMPLETED then DisplayCompleted
      else if status = ABORTED then DisplayAborted
      else if due < shanghaiDate now then DisplayOverdue else DisplayNormal)"

datatype timeliness = OnTime | TooLate

definition completionTimeliness :: "lifecycle \<Rightarrow> string \<Rightarrow> int option \<Rightarrow> timeliness option" where
  "completionTimeliness status due completed =
     (if status \<noteq> COMPLETED \<or> completed = None then None
      else if shanghaiDate (the completed) \<le> due then Some OnTime else Some TooLate)"

record performance =
  pe_total :: nat
  pe_on_time :: nat
  pe_late :: nat
  pe_overdue_now :: nat
  pe_overdue :: nat
  pe_not_due :: nat
  pe_aborted :: nat

text \<open>The counts of \<open>aggregateOwnerPerformance\<close> over status, due date and completion.\<close>

definition aggregateOwnerPerformance :: "(lifecycle \<times> string \<times> int option) list \<Rightarrow> int \<Rightarrow> performance" where
  "aggregateOwnerPerformance tasks asOf =
     (let currentDate = shanghaiDate asOf;
          effective = filter (\<lambda>(st, due, done). st \<noteq> ABORTED) tasks;
          onTime = filter (\<lambda>(st, due, done). completionTimeliness st due done = Some OnTime) effective;
          late = filter (\<lambda>(st, due, done). completionTimeliness st due done = Some TooLate) effective;
          overdue = filter (\<lambda>(st, due, done). st \<noteq> COMPLETED \<and> due < currentDate) effective;
          notDue = filter (\<lambda>(st, due, done). st \<noteq> COMPLETED \<and> currentDate \<le> due) effective
      in \<lparr>pe_total = length effective, pe_on_time = length onTime, pe_late = length late, pe_overdue_now = length overdue,
          pe_overdue = length late + length overdue, pe_not_due = length notDue,
          pe_aborted = length (filter (\<lambda>(st, due, done). st = ABORTED) tasks)\<rparr>)"

section \<open>Rows as JSON\<close>

definition json_option :: "string option \<Rightarrow> json" where
  "json_option v = (case v of Some s \<Rightarrow> JStr s | None \<Rightarrow> JNull)"

text \<open>A stored attachment comes back with the key order of \<open>jsonb\<close>.\<close>

definition attachment_json :: "attachment \<Rightarrow> json" where
  "attachment_json t = JObj [(''key'', JStr (at_key t)), (''name'', JStr (at_name t)), (''size'', JNum (at_size t)), (''contentType'', JStr (at_type t))]"

definition project_json :: "project_fields \<Rightarrow> body" where
  "project_json f =
     [(''projectName'', JStr (pf_name f)), (''projectDescription'', JStr (pf_description f)), (''sourceType'', JStr (pf_sourceType f)),
      (''sourceName'', json_option (pf_sourceName f)), (''sourceDate'', json_option (pf_sourceDate f)), (''ownerId'', JStr (pf_owner f)),
      (''supervisorId'', json_option (pf_supervisor f)), (''departmentId'', JStr (pf_department f)),
      (''participantIds'', JArr (map JStr (pf_participants f))), (''priority'', JStr (pf_priority f)), (''plannedStartDate'', JStr (pf_start f)),
      (''dueDate'', JStr (pf_due f)), (''actualDeliveryDate'', json_option (pf_delivered f)), (''acceptanceCriteria'', JStr (pf_criteria f)),
      (''attachments'', JArr (map attachment_json (pf_attachments f)))]"

text \<open>A \<open>numeric(5,2)\<close> column is read back as text.\<close>

definition progress_text :: "rat \<Rightarrow> string" where
  "progress_text p = (let n = nat \<lfloor>p * 100\<rfloor> in decimal_text (n div 100) @ ''.'' @ fixed 2 (n mod 100))"

definition task_json :: "task_fields \<Rightarrow> body" where
  "task_json f =
     [(''projectId'', JStr (tf_project f)), (''taskName'', JStr (tf_name f)), (''description'', JStr (tf_description f)), (''ownerId'', JStr (tf_owner f)),
      (''collaboratorIds'', JArr (map JStr (tf_collaborators f))), (''departmentId'', JStr (tf_department f)), (''priority'', JStr (tf_priority f)),
      (''plannedStartDate'', JStr (tf_start f)), (''dueDate'', JStr (tf_due f)), (''actualDeliveryDate'', json_option (tf_delivered f)),
      (''progress'', JStr (progress_text (tf_progress f))), (''acceptanceCriteria'', JStr (tf_criteria f)), (''nextFollowupDate'', json_option (tf_followup f)),
      (''attachments'', JArr (map attachment_json (tf_attachments f)))]"

text \<open>\<open>{ ...row, ...input }\<close>.\<close>

definition merged_body :: "body \<Rightarrow> body \<Rightarrow> string \<Rightarrow> json option" where
  "merged_body row input k = (case jget input k of Some v \<Rightarrow> Some v | None \<Rightarrow> jget row k)"

definition is_array :: "json option \<Rightarrow> bool" where
  "is_array v = (case v of Some (JArr _) \<Rightarrow> True | _ \<Rightarrow> False)"

definition blank_to_null :: "host \<Rightarrow> json option \<Rightarrow> string option" where
  "blank_to_null h v = (if nullish v \<or> v = Some (JStr []) then None else Some (js_string h (the v)))"

definition sameFieldValue :: "host \<Rightarrow> string \<Rightarrow> json option \<Rightarrow> json option \<Rightarrow> bool" where
  "sameFieldValue h field left right =
     (if field = ''progress'' then js_number_opt (Some (coalesce left (JNum 0))) \<noteq> None \<and>
        js_number_opt (Some (coalesce left (JNum 0))) = js_number_opt (Some (coalesce right (JNum 0)))
      else if is_array left \<or> is_array right then json_text h (coalesce left (JArr [])) = json_text h (coalesce right (JArr []))
      else blank_to_null h left = blank_to_null h right)"

definition projectFields :: "string list" where
  "projectFields = [''projectName'', ''projectDescription'', ''sourceType'', ''sourceName'', ''sourceDate'', ''ownerId'', ''supervisorId'',
     ''departmentId'', ''participantIds'', ''priority'', ''plannedStartDate'', ''dueDate'', ''actualDeliveryDate'', ''acceptanceCriteria'', ''attachments'']"

definition taskFields :: "string list" where
  "taskFields = [''projectId'', ''taskName'', ''description'', ''ownerId'', ''collaboratorIds'', ''departmentId'', ''priority'', ''plannedStartDate'',
     ''actualDeliveryDate'', ''acceptanceCriteria'', ''nextFollowupDate'', ''attachments'']"

definition changed_fields :: "host \<Rightarrow> string list \<Rightarrow> body \<Rightarrow> body \<Rightarrow> string list" where
  "changed_fields h names row input = filter (\<lambda>f. f \<in> set (jkeys input) \<and> \<not> sameFieldValue h f (jget input f) (jget row f)) names"

section \<open>Scopes\<close>

text \<open>\<open>assertCreateScope\<close>: one rule against the new row, then the scopes of the resource.\<close>

definition scope_compare :: "host \<Rightarrow> sv_actor \<Rightarrow> body \<Rightarrow> sv_scope_rule \<Rightarrow> bool" where
  "scope_compare h a row r =
     (let actual = jget row (sr_field r);
          expected = (if sr_value r = JStr ''CURRENT_USER'' then json_option (sa_user a) else sr_value r);
          actualText = body_text h actual; expectedText = body_text h (Some expected);
          choices = (case expected of JArr xs \<Rightarrow> map (js_string h) xs | _ \<Rightarrow> [expectedText]);
          op = sr_operator r
      in if op = ''IS_EMPTY'' then nullish actual \<or> js_trim (js_string h (the actual)) = []
         else if op = ''IS_NOT_EMPTY'' then \<not> nullish actual \<and> js_trim (js_string h (the actual)) \<noteq> []
         else if op = ''IN'' then actualText \<in> set choices
         else if op = ''NOT_IN'' then actualText \<notin> set choices
         else if op = ''EQ'' then actualText = expectedText
         else if op = ''NE'' then actualText \<noteq> expectedText
         else if op = ''CONTAINS'' then (\<exists>n \<le> length actualText. take (length expectedText) (drop n actualText) = expectedText)
         else False)"

definition assertCreateScope :: "host \<Rightarrow> sv_actor \<Rightarrow> string \<Rightarrow> body \<Rightarrow> sv_error + unit" where
  "assertCreateScope h a resource row =
     (let scopes = filter (\<lambda>s. ts_resource s = resource \<and> (case ts_actions s of None \<Rightarrow> True | Some xs \<Rightarrow> ''create'' \<in> set xs)) (sa_scopes a) in
      if administrator a \<or> list_ex (\<lambda>s. ts_scope s \<in> set [''ALL'', ''OWN'', ''NONE'']) scopes then Inr ()
      else ensure (list_ex (\<lambda>s. ts_scope s = ''CUSTOM'' \<and> ts_rules s \<noteq> [] \<and>
          (if ts_match s = Some ''ANY'' then list_ex (scope_compare h a row) (ts_rules s) else list_all (scope_compare h a row) (ts_rules s))) scopes)
        (SvForbidden ''scope''))"

definition assertRecordScope :: "sv_env \<Rightarrow> string \<Rightarrow> string \<Rightarrow> sv_actor \<Rightarrow> string \<Rightarrow> sv_db \<Rightarrow> sv_error + unit" where
  "assertRecordScope e resource i a action db = ensure (administrator a \<or> se_scope e a resource action db i) (SvNotFound resource)"

definition find_project :: "sv_actor \<Rightarrow> string \<Rightarrow> sv_db \<Rightarrow> project option" where
  "find_project a i db = find (\<lambda>p. pj_id p = i \<and> pj_tenant p = sa_tenant a) (sv_projects db)"

definition find_task :: "sv_actor \<Rightarrow> string \<Rightarrow> sv_db \<Rightarrow> task option" where
  "find_task a i db = find (\<lambda>t. tk_id t = i \<and> tk_tenant t = sa_tenant a) (sv_tasks db)"

definition lockProject :: "sv_env \<Rightarrow> string \<Rightarrow> sv_actor \<Rightarrow> string \<Rightarrow> sv_db \<Rightarrow> sv_error + project" where
  "lockProject e i a action db =
     bindE (assertAction a ''supervision-projects'' action) (\<lambda>_.
     bindE (assertRecordScope e ''supervision-projects'' i a action db) (\<lambda>_.
       case find_project a i db of None \<Rightarrow> Inl (SvNotFound ''project'') | Some p \<Rightarrow> Inr p))"

definition lockTask :: "sv_env \<Rightarrow> string \<Rightarrow> sv_actor \<Rightarrow> string \<Rightarrow> sv_db \<Rightarrow> sv_error + task" where
  "lockTask e i a action db =
     bindE (assertRecordScope e ''supervision-tasks'' i a action db) (\<lambda>_.
       case find_task a i db of None \<Rightarrow> Inl (SvNotFound ''task'') | Some t \<Rightarrow> Inr t)"

text \<open>\<open>taskCreationProjectScopeClause\<close> on one project row.\<close>

definition taskCreationProjectScope :: "sv_actor \<Rightarrow> project \<Rightarrow> bool" where
  "taskCreationProjectScope a p \<longleftrightarrow>
     hasSupervisionPermission a ''supervision-tasks'' ''create'' \<and> pj_tenant p = sa_tenant a \<and> pj_status p \<notin> set [COMPLETED, ABORTED] \<and>
     (administrator a \<or> (case sa_user a of
        None \<Rightarrow> False
      | Some u \<Rightarrow> u \<noteq> [] \<and> (pf_owner (pj_fields p) = u \<or> pf_supervisor (pj_fields p) = Some u \<or> u \<in> set (pf_participants (pj_fields p)))))"

definition lockTaskCreationProject :: "string \<Rightarrow> sv_actor \<Rightarrow> sv_db \<Rightarrow> sv_error + project" where
  "lockTaskCreationProject i a db =
     bindE (ensure (i \<noteq> []) (SvBadRequest ''projectId'')) (\<lambda>_.
       case find (\<lambda>p. pj_id p = i \<and> taskCreationProjectScope a p) (sv_projects db) of
         None \<Rightarrow> Inl (SvNotFound ''project'')
       | Some _ \<Rightarrow> (case find_project a i db of None \<Rightarrow> Inl (SvNotFound ''project'') | Some p \<Rightarrow> Inr p))"

section \<open>Writing rows\<close>

definition updatedBy :: "sv_actor \<Rightarrow> string" where
  "updatedBy a = (case sa_user a of Some u \<Rightarrow> u | None \<Rightarrow> sa_username a)"

definition audit :: "sv_actor \<Rightarrow> string \<Rightarrow> string option \<Rightarrow> string \<Rightarrow> sv_db \<Rightarrow> sv_db" where
  "audit a resource i action db =
     db\<lparr>sv_audit := sv_audit db @ [\<lparr>ar_tenant = sa_tenant a, ar_actor = sa_user a, ar_resource = resource, ar_record = i, ar_action = action\<rparr>]\<rparr>"

definition save_project :: "project \<Rightarrow> sv_db \<Rightarrow> sv_db" where
  "save_project p db = db\<lparr>sv_projects := map (\<lambda>q. if pj_id q = pj_id p then p else q) (sv_projects db)\<rparr>"

definition save_task :: "task \<Rightarrow> sv_db \<Rightarrow> sv_db" where
  "save_task t db = db\<lparr>sv_tasks := map (\<lambda>s. if tk_id s = tk_id t then t else s) (sv_tasks db)\<rparr>"

definition insert_project :: "project \<Rightarrow> sv_db \<Rightarrow> sv_error + sv_db" where
  "insert_project p db =
     bindE (ensure (pj_id p \<notin> set (map pj_id (sv_projects db))) (SvUnique ''id'')) (\<lambda>_.
     bindE (ensure ((pj_tenant p, pj_code p) \<notin> set (map (\<lambda>q. (pj_tenant q, pj_code q)) (sv_projects db))) (SvUnique ''code'')) (\<lambda>_.
       Inr (db\<lparr>sv_projects := sv_projects db @ [p]\<rparr>)))"

definition insert_task :: "task \<Rightarrow> sv_db \<Rightarrow> sv_error + sv_db" where
  "insert_task t db =
     bindE (ensure (tk_id t \<notin> set (map tk_id (sv_tasks db))) (SvUnique ''id'')) (\<lambda>_.
     bindE (ensure ((tk_tenant t, tk_code t) \<notin> set (map (\<lambda>s. (tk_tenant s, tk_code s)) (sv_tasks db))) (SvUnique ''code'')) (\<lambda>_.
       Inr (db\<lparr>sv_tasks := sv_tasks db @ [t]\<rparr>)))"

definition insert_progress :: "progress_row \<Rightarrow> sv_db \<Rightarrow> sv_error + sv_db" where
  "insert_progress r db =
     bindE (ensure (pr_id r \<notin> set (map pr_id (sv_progress db))) (SvUnique ''id'')) (\<lambda>_. Inr (db\<lparr>sv_progress := sv_progress db @ [r]\<rparr>))"

definition upper_ascii :: "char \<Rightarrow> char" where
  "upper_ascii c = (let n = (of_char c :: nat) in if 97 \<le> n \<and> n \<le> 122 then char_of (n - 32) else c)"

definition sv_code :: "string \<Rightarrow> int \<Rightarrow> string \<Rightarrow> string" where
  "sv_code pre now i = pre @ ''-'' @ filter (\<lambda>c. c \<noteq> CHR ''-'') (shanghaiDate now) @ ''-'' @ map upper_ascii (take 8 i)"

definition startProject :: "string \<Rightarrow> sv_actor \<Rightarrow> sv_db \<Rightarrow> sv_db" where
  "startProject i a db =
     (case find_project a i db of
        None \<Rightarrow> db
      | Some p \<Rightarrow>
          if pj_status p \<noteq> NOT_STARTED then db
          else audit a ''supervision-projects'' (Some i) ''supervision.project.started''
            (save_project (p\<lparr>pj_status := IN_PROGRESS, pj_version := pj_version p + 1, pj_updated_by := updatedBy a\<rparr>) db))"

section \<open>Project commands\<close>

definition createProject :: "sv_env \<Rightarrow> sv_actor \<Rightarrow> string \<Rightarrow> body \<Rightarrow> sv_db \<Rightarrow> sv_error + sv_db" where
  "createProject e a i input db =
     bindE (assertAction a ''supervision-projects'' ''create'') (\<lambda>_.
     bindE (ensure (''progress'' \<notin> set (jkeys input)) (SvBadRequest ''progress is derived'')) (\<lambda>_.
     bindE (projectInput e (jget input)) (\<lambda>normalized.
     bindE (assertAttachmentTenant (pf_attachments normalized) a) (\<lambda>_.
     bindE (assertCreateScope (se_host e) a ''supervision-projects'' (project_json normalized)) (\<lambda>_.
     bindE (insert_project
        \<lparr>pj_id = i, pj_tenant = sa_tenant a, pj_code = sv_code ''SP'' (se_now e) i, pj_fields = normalized, pj_status = NOT_STARTED,
         pj_completed = None, pj_summary = None, pj_stop = None, pj_created_by = sa_user a, pj_updated_by = updatedBy a, pj_version = 1\<rparr> db) (\<lambda>db'.
       Inr (audit a ''supervision-projects'' (Some i) ''supervision.project.created'' db')))))))"

definition updateProject :: "sv_env \<Rightarrow> sv_actor \<Rightarrow> string \<Rightarrow> body \<Rightarrow> sv_db \<Rightarrow> sv_error + sv_db" where
  "updateProject e a i input db =
     bindE (assertAction a ''supervision-projects'' ''update'') (\<lambda>_.
     bindE (ensure (''progress'' \<notin> set (jkeys input)) (SvBadRequest ''progress is derived'')) (\<lambda>_.
     bindE (lockProject e i a ''update'' db) (\<lambda>p.
     bindE (assertVersion (pj_version p) (jget input ''expectedVersion'')) (\<lambda>_.
     bindE (ensure (pj_status p \<notin> set [COMPLETED, ABORTED]) (SvBadRequest ''project has ended'')) (\<lambda>_.
     bindE (assertFields a ''supervision-projects'' (changed_fields (se_host e) projectFields (project_json (pj_fields p)) input)) (\<lambda>_.
     bindE (projectInput e (merged_body (project_json (pj_fields p)) input)) (\<lambda>normalized.
     bindE (assertAttachmentTenant (pf_attachments normalized) a) (\<lambda>_.
       Inr (audit a ''supervision-projects'' (Some i) ''supervision.project.updated''
         (save_project (p\<lparr>pj_fields := normalized, pj_version := pj_version p + 1, pj_updated_by := updatedBy a\<rparr>) db))))))))))"

definition completeProject :: "sv_env \<Rightarrow> sv_actor \<Rightarrow> string \<Rightarrow> body \<Rightarrow> sv_db \<Rightarrow> sv_error + sv_db" where
  "completeProject e a i input db =
     bindE (assertAction a ''supervision-projects'' ''update'') (\<lambda>_.
     bindE (lockProject e i a ''update'' db) (\<lambda>p.
     bindE (assertVersion (pj_version p) (jget input ''expectedVersion'')) (\<lambda>_.
     bindE (ensure (pj_status p \<noteq> ABORTED) (SvBadRequest ''project is aborted'')) (\<lambda>_.
     bindE (ensure (pj_status p \<noteq> COMPLETED) (SvBadRequest ''project is completed'')) (\<lambda>_.
     bindE (requiredText (se_host e) (jget input ''completionSummary'') ''completionSummary'' 5000) (\<lambda>summary.
     let tasks = filter (\<lambda>t. tk_tenant t = sa_tenant a \<and> tf_project (tk_fields t) = i) (sv_tasks db);
         active = filter (\<lambda>t. tk_status t \<noteq> ABORTED) tasks in
     bindE (ensure (active \<noteq> []) (SvBadRequest ''no task'')) (\<lambda>_.
     bindE (ensure (list_all (\<lambda>t. tk_status t = COMPLETED) active) (SvBadRequest ''open tasks'')) (\<lambda>_.
       let f = pj_fields p;
           p' = p\<lparr>pj_status := COMPLETED, pj_completed := Some (se_now e), pj_summary := Some summary,
             pj_fields := f\<lparr>pf_delivered := (case pf_delivered f of Some d \<Rightarrow> Some d | None \<Rightarrow> Some (shanghaiDate (se_now e)))\<rparr>,
             pj_version := pj_version p + 1, pj_updated_by := updatedBy a\<rparr>
       in Inr (audit a ''supervision-projects'' (Some i) ''supervision.project.completed'' (save_project p' db))))))))))"

definition abortProject :: "sv_env \<Rightarrow> sv_actor \<Rightarrow> string \<Rightarrow> body \<Rightarrow> sv_db \<Rightarrow> sv_error + sv_db" where
  "abortProject e a i input db =
     bindE (assertAction a ''supervision-projects'' ''update'') (\<lambda>_.
     bindE (lockProject e i a ''update'' db) (\<lambda>p.
     bindE (assertVersion (pj_version p) (jget input ''expectedVersion'')) (\<lambda>_.
     bindE (ensure (pj_status p \<noteq> COMPLETED) (SvBadRequest ''project is completed'')) (\<lambda>_.
     bindE (ensure (pj_status p \<noteq> ABORTED) (SvBadRequest ''project is aborted'')) (\<lambda>_.
     let tasks = filter (\<lambda>t. tk_tenant t = sa_tenant a \<and> tf_project (tk_fields t) = i) (sv_tasks db) in
     bindE (ensure (length tasks = length (filter (\<lambda>t. tk_status t \<in> set [COMPLETED, ABORTED]) tasks)) (SvBadRequest ''open tasks'')) (\<lambda>_.
     bindE (requiredText (se_host e) (jget input ''stopReason'') ''stopReason'' 5000) (\<lambda>reason.
       Inr (audit a ''supervision-projects'' (Some i) ''supervision.project.aborted''
         (save_project (p\<lparr>pj_status := ABORTED, pj_stop := Some reason, pj_completed := None, pj_version := pj_version p + 1, pj_updated_by := updatedBy a\<rparr>) db)))))))))"

section \<open>Task commands\<close>

definition createTask :: "sv_env \<Rightarrow> sv_actor \<Rightarrow> string \<Rightarrow> body \<Rightarrow> sv_db \<Rightarrow> sv_error + sv_db" where
  "createTask e a i input db =
     bindE (assertAction a ''supervision-tasks'' ''create'') (\<lambda>_.
     bindE (lockTaskCreationProject (body_text (se_host e) (jget input ''projectId'')) a db) (\<lambda>p.
     bindE (taskInput e (jget input) None) (\<lambda>normalized.
     bindE (assertAttachmentTenant (tf_attachments normalized) a) (\<lambda>_.
     bindE (assertCreateScope (se_host e) a ''supervision-tasks'' (task_json normalized @ [(''projectName'', JStr (pf_name (pj_fields p)))])) (\<lambda>_.
     bindE (insert_task
        \<lparr>tk_id = i, tk_tenant = sa_tenant a, tk_code = sv_code ''ST'' (se_now e) i, tk_fields = normalized, tk_status = NOT_STARTED,
         tk_completed = None, tk_stop = None, tk_created_by = sa_user a, tk_updated_by = updatedBy a, tk_version = 1\<rparr> db) (\<lambda>db'.
       Inr (audit a ''supervision-tasks'' (Some i) ''supervision.task.created'' db')))))))"

definition updateTask :: "sv_env \<Rightarrow> sv_actor \<Rightarrow> string \<Rightarrow> body \<Rightarrow> sv_db \<Rightarrow> sv_error + sv_db" where
  "updateTask e a i input db =
     bindE (assertAction a ''supervision-tasks'' ''update'') (\<lambda>_.
     bindE (ensure (''dueDate'' \<notin> set (jkeys input)) (SvBadRequest ''dueDate'')) (\<lambda>_.
     bindE (ensure (''progress'' \<notin> set (jkeys input)) (SvBadRequest ''progress'')) (\<lambda>_.
     bindE (lockTask e i a ''update'' db) (\<lambda>t.
     bindE (assertVersion (tk_version t) (jget input ''expectedVersion'')) (\<lambda>_.
     bindE (ensure (tk_status t \<notin> set [COMPLETED, ABORTED]) (SvBadRequest ''task has ended'')) (\<lambda>_.
     bindE (assertFields a ''supervision-tasks'' (changed_fields (se_host e) taskFields (task_json (tk_fields t)) input)) (\<lambda>_.
     bindE (ensure (\<not> truthy (jget input ''projectId'') \<or> jget input ''projectId'' = Some (JStr (tf_project (tk_fields t)))) (SvBadRequest ''projectId'')) (\<lambda>_.
     bindE (taskInput e (merged_body (task_json (tk_fields t)) (filter (\<lambda>(k, v). k \<noteq> ''dueDate'') input)) (Some t)) (\<lambda>normalized.
     bindE (assertAttachmentTenant (tf_attachments normalized) a) (\<lambda>_.
       Inr (audit a ''supervision-tasks'' (Some i) ''supervision.task.updated''
         (save_task (t\<lparr>tk_fields := normalized\<lparr>tf_project := tf_project (tk_fields t)\<rparr>, tk_version := tk_version t + 1, tk_updated_by := updatedBy a\<rparr>) db))))))))))))"

definition progressRecord :: "sv_actor \<Rightarrow> task \<Rightarrow> string \<Rightarrow> progress_row \<Rightarrow> progress_row" where
  "progressRecord a t i v = v\<lparr>pr_id := i, pr_tenant := sa_tenant a, pr_task := tk_id t, pr_project := tf_project (tk_fields t), pr_created_by := sa_user a\<rparr>"

definition progress_value :: "string \<Rightarrow> rat option \<Rightarrow> string \<Rightarrow> string option \<Rightarrow> string option \<Rightarrow> string option \<Rightarrow> string option \<Rightarrow> string option \<Rightarrow> attachment list \<Rightarrow> progress_row" where
  "progress_value kind p summary risk action followup proposed reason atts =
     \<lparr>pr_id = [], pr_tenant = [], pr_task = [], pr_project = [], pr_kind = kind, pr_progress = p, pr_summary = summary, pr_risk = risk,
      pr_action = action, pr_followup = followup, pr_proposed = proposed, pr_reason = reason, pr_attachments = atts, pr_created_by = None\<rparr>"

definition addProgress :: "sv_env \<Rightarrow> sv_actor \<Rightarrow> string \<Rightarrow> body \<Rightarrow> sv_db \<Rightarrow> sv_error + sv_db" where
  "addProgress e a i input db = (let h = se_host e in
     bindE (assertAction a ''supervision-task-progress'' ''create'') (\<lambda>_.
     bindE (assertAction a ''supervision-tasks'' ''update'') (\<lambda>_.
     bindE (assertFields a ''supervision-tasks'' (''progress'' # (if jget input ''nextFollowupDate'' \<noteq> None then [''nextFollowupDate''] else []))) (\<lambda>_.
     bindE (lockTask e (body_text h (jget input ''taskId'')) a ''update'' db) (\<lambda>t.
     bindE (assertVersion (tk_version t) (jget input ''expectedTaskVersion'')) (\<lambda>_.
     bindE (ensure (tk_status t \<notin> set [COMPLETED, ABORTED]) (SvBadRequest ''task has ended'')) (\<lambda>_.
     let updateType = coalesce (jget input ''updateType'') (JStr ''PROGRESS'') in
     bindE (ensure (updateType \<in> set [JStr ''PROGRESS'', JStr ''RISK'']) (SvBadRequest ''updateType'')) (\<lambda>_.
     bindE (if nullish (jget input ''progress'') then Inr None else bindE (body_progress (jget input ''progress'')) (\<lambda>p. Inr (Some p))) (\<lambda>progress.
     bindE (if jget input ''nextFollowupDate'' = None then Inr (tf_followup (tk_fields t)) else optionalBodyDate h (jget input ''nextFollowupDate'') ''nextFollowupDate'') (\<lambda>followup.
     let f = tk_fields t;
         t' = t\<lparr>tk_fields := f\<lparr>tf_progress := (case progress of Some p \<Rightarrow> p | None \<Rightarrow> tf_progress f), tf_followup := followup\<rparr>,
           tk_status := IN_PROGRESS, tk_version := tk_version t + 1, tk_updated_by := updatedBy a\<rparr> in
     bindE (requiredText h (jget input ''summary'') ''summary'' 10000) (\<lambda>summary.
     bindE (optionalBodyText h (jget input ''riskIssue'') 10000) (\<lambda>risk.
     bindE (optionalBodyText h (jget input ''nextAction'') 10000) (\<lambda>action.
     bindE (body_attachments h (jget input ''attachments'')) (\<lambda>atts.
     bindE (assertAttachmentTenant atts a) (\<lambda>_.
     bindE (insert_progress (progressRecord a t' i (progress_value (js_string h updateType) progress summary risk action followup None None atts)) (save_task t' db)) (\<lambda>db'.
       Inr (audit a ''supervision-tasks'' (Some (tk_id t)) ''supervision.task.progress_applied''
         (audit a ''supervision-task-progress'' (Some i) ''supervision.task.progress_added'' (startProject (tf_project f) a db')))))))))))))))))))"

definition changeTaskDueDate :: "sv_env \<Rightarrow> sv_actor \<Rightarrow> string \<Rightarrow> string \<Rightarrow> body \<Rightarrow> sv_db \<Rightarrow> sv_error + sv_db" where
  "changeTaskDueDate e a i r input db = (let h = se_host e in
     bindE (assertAction a ''supervision-tasks'' ''update'') (\<lambda>_.
     bindE (assertFields a ''supervision-tasks'' [''dueDate'']) (\<lambda>_.
     bindE (lockTask e i a ''update'' db) (\<lambda>t.
     bindE (assertVersion (tk_version t) (jget input ''expectedVersion'')) (\<lambda>_.
     bindE (ensure (tk_status t \<notin> set [COMPLETED, ABORTED]) (SvBadRequest ''task has ended'')) (\<lambda>_.
     bindE (requiredDate h (jget input ''dueDate'') ''dueDate'') (\<lambda>due.
     let f = tk_fields t in
     bindE (ensure (tf_start f = [] \<or> tf_start f \<le> due) (SvBadRequest ''dates'')) (\<lambda>_.
     bindE (requiredText h (jget input ''changeReason'') ''changeReason'' 5000) (\<lambda>reason.
     let t' = t\<lparr>tk_fields := f\<lparr>tf_due := due\<rparr>, tk_version := tk_version t + 1, tk_updated_by := updatedBy a\<rparr> in
     bindE (insert_progress (progressRecord a t' r (progress_value ''DUE_DATE_CHANGE'' (Some (tf_progress f)) (''due date changed from '' @ tf_due f @ '' to '' @ due)
         None None (tf_followup f) (Some due) (Some reason) [])) (save_task t' db)) (\<lambda>db'.
       Inr (audit a ''supervision-task-progress'' (Some r) ''supervision.task.due_date_change_recorded''
         (audit a ''supervision-tasks'' (Some (tk_id t)) ''supervision.task.due_date_changed'' db'))))))))))))"

definition completeTask :: "sv_env \<Rightarrow> sv_actor \<Rightarrow> string \<Rightarrow> string \<Rightarrow> body \<Rightarrow> sv_db \<Rightarrow> sv_error + sv_db" where
  "completeTask e a i r input db = (let h = se_host e in
     bindE (assertAction a ''supervision-tasks'' ''update'') (\<lambda>_.
     bindE (lockTask e i a ''update'' db) (\<lambda>t.
     bindE (assertVersion (tk_version t) (jget input ''expectedVersion'')) (\<lambda>_.
     bindE (ensure (tk_status t \<noteq> ABORTED) (SvBadRequest ''task is aborted'')) (\<lambda>_.
     bindE (ensure (tk_status t \<noteq> COMPLETED) (SvBadRequest ''task is completed'')) (\<lambda>_.
     bindE (requiredText h (jget input ''completionSummary'') ''completionSummary'' 10000) (\<lambda>summary.
     let f = tk_fields t;
         t' = t\<lparr>tk_status := COMPLETED, tk_completed := Some (se_now e),
           tk_fields := f\<lparr>tf_progress := 100, tf_delivered := (case tf_delivered f of Some d \<Rightarrow> Some d | None \<Rightarrow> Some (shanghaiDate (se_now e)))\<rparr>,
           tk_version := tk_version t + 1, tk_updated_by := updatedBy a\<rparr> in
     bindE (body_attachments h (jget input ''attachments'')) (\<lambda>atts.
     bindE (assertAttachmentTenant atts a) (\<lambda>_.
     bindE (insert_progress (progressRecord a t' r (progress_value ''COMPLETION'' (Some 100) summary None None (tf_followup f) None None atts)) (save_task t' db)) (\<lambda>db'.
       Inr (audit a ''supervision-task-progress'' (Some r) ''supervision.task.completion_recorded''
         (audit a ''supervision-tasks'' (Some i) ''supervision.task.completed'' db'))))))))))))"

definition abortTask :: "sv_env \<Rightarrow> sv_actor \<Rightarrow> string \<Rightarrow> body \<Rightarrow> sv_db \<Rightarrow> sv_error + sv_db" where
  "abortTask e a i input db =
     bindE (assertAction a ''supervision-tasks'' ''update'') (\<lambda>_.
     bindE (lockTask e i a ''update'' db) (\<lambda>t.
     bindE (assertVersion (tk_version t) (jget input ''expectedVersion'')) (\<lambda>_.
     bindE (ensure (tk_status t \<noteq> COMPLETED) (SvBadRequest ''task is completed'')) (\<lambda>_.
     bindE (ensure (tk_status t \<noteq> ABORTED) (SvBadRequest ''task is aborted'')) (\<lambda>_.
     bindE (requiredText (se_host e) (jget input ''stopReason'') ''stopReason'' 5000) (\<lambda>reason.
       Inr (audit a ''supervision-tasks'' (Some i) ''supervision.task.aborted''
         (save_task (t\<lparr>tk_status := ABORTED, tk_stop := Some reason, tk_completed := None, tk_version := tk_version t + 1, tk_updated_by := updatedBy a\<rparr>) db))))))))"

section \<open>Attachments and deletion\<close>

definition recordAttachmentUpload :: "sv_actor \<Rightarrow> sv_db \<Rightarrow> sv_error + sv_db" where
  "recordAttachmentUpload a db = Inr (audit a ''supervision-attachments'' None ''supervision.attachment.uploaded'' db)"

definition assertIndependentDelete :: "lifecycle \<Rightarrow> attachment list \<Rightarrow> sv_error + unit" where
  "assertIndependentDelete status atts =
     bindE (ensure (status \<notin> set [COMPLETED, ABORTED]) (SvConflict ''record has ended'')) (\<lambda>_. ensure (atts = []) (SvConflict ''record has attachments''))"

definition deleteProject :: "sv_env \<Rightarrow> sv_actor \<Rightarrow> string \<Rightarrow> json option \<Rightarrow> sv_db \<Rightarrow> sv_error + sv_db" where
  "deleteProject e a i expected db =
     bindE (assertAction a ''supervision-projects'' ''delete'') (\<lambda>_.
     bindE (lockProject e i a ''delete'' db) (\<lambda>p.
     bindE (assertRecordScope e ''supervision-projects'' i a ''delete'' db) (\<lambda>_.
     bindE (assertVersion (pj_version p) expected) (\<lambda>_.
     bindE (assertIndependentDelete (pj_status p) (pf_attachments (pj_fields p))) (\<lambda>_.
     bindE (ensure (\<not> list_ex (\<lambda>t. tk_tenant t = sa_tenant a \<and> tf_project (tk_fields t) = i) (sv_tasks db)) (SvConflict ''project has tasks'')) (\<lambda>_.
     bindE (ensure (\<not> list_ex (\<lambda>r. pr_tenant r = sa_tenant a \<and> pr_project r = i) (sv_progress db)) (SvConflict ''project has history'')) (\<lambda>_.
       Inr (audit a ''supervision-projects'' (Some i) ''supervision.project.deleted''
         (db\<lparr>sv_projects := filter (\<lambda>q. \<not> (pj_tenant q = sa_tenant a \<and> pj_id q = i \<and> pj_version q = pj_version p)) (sv_projects db)\<rparr>)))))))))"

definition deleteTask :: "sv_env \<Rightarrow> sv_actor \<Rightarrow> string \<Rightarrow> json option \<Rightarrow> sv_db \<Rightarrow> sv_error + sv_db" where
  "deleteTask e a i expected db =
     bindE (assertAction a ''supervision-tasks'' ''delete'') (\<lambda>_.
     bindE (lockTask e i a ''delete'' db) (\<lambda>t.
     bindE (assertRecordScope e ''supervision-tasks'' i a ''delete'' db) (\<lambda>_.
     bindE (assertVersion (tk_version t) expected) (\<lambda>_.
     bindE (assertIndependentDelete (tk_status t) (tf_attachments (tk_fields t))) (\<lambda>_.
     bindE (ensure (\<not> list_ex (\<lambda>r. pr_tenant r = sa_tenant a \<and> pr_task r = i) (sv_progress db)) (SvConflict ''task has history'')) (\<lambda>_.
       Inr (audit a ''supervision-tasks'' (Some i) ''supervision.task.deleted''
         (db\<lparr>sv_tasks := filter (\<lambda>s. \<not> (tk_tenant s = sa_tenant a \<and> tk_id s = i \<and> tk_version s = tk_version t)) (sv_tasks db)\<rparr>))))))))"

section \<open>Commands and reachable states\<close>

datatype sv_command =
    CreateProject string body
  | UpdateProject string body
  | CompleteProject string body
  | AbortProject string body
  | CreateTask string body
  | UpdateTask string body
  | AddProgress string body
  | ChangeTaskDueDate string string body
  | CompleteTask string string body
  | AbortTask string body
  | RecordAttachmentUpload
  | DeleteProject string "json option"
  | DeleteTask string "json option"

fun run_sv :: "sv_env \<Rightarrow> sv_actor \<Rightarrow> sv_command \<Rightarrow> sv_db \<Rightarrow> sv_error + sv_db" where
  "run_sv e a (CreateProject i input) db = createProject e a i input db"
| "run_sv e a (UpdateProject i input) db = updateProject e a i input db"
| "run_sv e a (CompleteProject i input) db = completeProject e a i input db"
| "run_sv e a (AbortProject i input) db = abortProject e a i input db"
| "run_sv e a (CreateTask i input) db = createTask e a i input db"
| "run_sv e a (UpdateTask i input) db = updateTask e a i input db"
| "run_sv e a (AddProgress i input) db = addProgress e a i input db"
| "run_sv e a (ChangeTaskDueDate i r input) db = changeTaskDueDate e a i r input db"
| "run_sv e a (CompleteTask i r input) db = completeTask e a i r input db"
| "run_sv e a (AbortTask i input) db = abortTask e a i input db"
| "run_sv e a RecordAttachmentUpload db = recordAttachmentUpload a db"
| "run_sv e a (DeleteProject i v) db = deleteProject e a i v db"
| "run_sv e a (DeleteTask i v) db = deleteTask e a i v db"

definition sv_empty :: sv_db where
  "sv_empty = \<lparr>sv_projects = [], sv_tasks = [], sv_progress = [], sv_audit = []\<rparr>"

inductive sv_reach :: "sv_db \<Rightarrow> bool" where
  start: "sv_reach sv_empty"
| command: "sv_reach db \<Longrightarrow> run_sv e a c db = Inr db' \<Longrightarrow> sv_reach db'"

end
