(* ===== verification/SupervisionLaws.thy ===== *)
theory SupervisionLaws
  imports Supervision
begin

text \<open>
  What the supervision commands guarantee: every reachable row satisfies the check constraints of its table,
  whatever the bodies of the requests say (the day of a date is only checked to be at most 31, and codes
  collide, see \<open>same_window_code_refused\<close>), references are intact, a project that has
  ended has no open task, and ended rows never change again.
\<close>

section \<open>The table constraints\<close>

definition check_text :: "string \<Rightarrow> bool" where
  "check_text s \<longleftrightarrow> list_ex (\<lambda>c. c \<noteq> CHR '' '') s"

definition ended :: "lifecycle \<Rightarrow> bool" where
  "ended s \<longleftrightarrow> s = COMPLETED \<or> s = ABORTED"

definition project_fields_ok :: "project_fields \<Rightarrow> bool" where
  "project_fields_ok f \<longleftrightarrow> check_text (pf_name f) \<and> length (pf_name f) \<le> 300 \<and> check_text (pf_criteria f) \<and> pf_start f \<le> pf_due f \<and>
     body_date (pf_start f) \<and> body_date (pf_due f) \<and> pf_sourceType f \<in> set sv_sources \<and> pf_priority f \<in> set sv_priorities \<and>
     pf_owner f \<noteq> [] \<and> pf_participants f \<noteq> [] \<and> length (pf_attachments f) \<le> 20"

definition project_ok :: "project \<Rightarrow> bool" where
  "project_ok p \<longleftrightarrow> project_fields_ok (pj_fields p) \<and> (pj_status p = COMPLETED \<longleftrightarrow> pj_completed p \<noteq> None) \<and>
     (pj_status p = ABORTED \<longrightarrow> (\<exists>r. pj_stop p = Some r \<and> check_text r)) \<and> 1 \<le> pj_version p"

definition two_decimals :: "rat \<Rightarrow> bool" where
  "two_decimals r \<longleftrightarrow> 0 \<le> r \<and> r \<le> 100 \<and> (\<exists>k. r * 100 = of_int k)"

definition task_fields_ok :: "task_fields \<Rightarrow> bool" where
  "task_fields_ok f \<longleftrightarrow> check_text (tf_name f) \<and> length (tf_name f) \<le> 300 \<and> check_text (tf_criteria f) \<and> tf_start f \<le> tf_due f \<and>
     body_date (tf_start f) \<and> body_date (tf_due f) \<and> tf_priority f \<in> set sv_priorities \<and> two_decimals (tf_progress f) \<and>
     tf_owner f \<noteq> [] \<and> tf_collaborators f \<noteq> [] \<and> length (tf_attachments f) \<le> 20"

definition task_ok :: "task \<Rightarrow> bool" where
  "task_ok t \<longleftrightarrow> task_fields_ok (tk_fields t) \<and> (tk_status t = COMPLETED \<longleftrightarrow> tk_completed t \<noteq> None) \<and>
     (tk_status t = COMPLETED \<longrightarrow> tf_progress (tk_fields t) = 100) \<and>
     (tk_status t = ABORTED \<longrightarrow> (\<exists>r. tk_stop t = Some r \<and> check_text r)) \<and> 1 \<le> tk_version t"

definition progress_ok :: "progress_row \<Rightarrow> bool" where
  "progress_ok r \<longleftrightarrow> pr_kind r \<in> set [''PROGRESS'', ''RISK'', ''DUE_DATE_CHANGE'', ''COMPLETION''] \<and>
     (\<forall>p. pr_progress r = Some p \<longrightarrow> two_decimals p) \<and> check_text (pr_summary r) \<and>
     (pr_kind r = ''DUE_DATE_CHANGE'' \<longrightarrow> pr_proposed r \<noteq> None \<and> (\<exists>t. pr_reason r = Some t \<and> check_text t))"

definition of_project :: "project \<Rightarrow> task \<Rightarrow> bool" where
  "of_project p t \<longleftrightarrow> tk_tenant t = pj_tenant p \<and> tf_project (tk_fields t) = pj_id p"

definition of_task :: "task \<Rightarrow> progress_row \<Rightarrow> bool" where
  "of_task t r \<longleftrightarrow> pr_tenant r = tk_tenant t \<and> pr_task r = tk_id t \<and> pr_project r = tf_project (tk_fields t)"

definition project_tasks_ok :: "task list \<Rightarrow> project \<Rightarrow> bool" where
  "project_tasks_ok ts p \<longleftrightarrow>
     (ended (pj_status p) \<longrightarrow> (\<forall>t \<in> set ts. of_project p t \<longrightarrow> ended (tk_status t))) \<and>
     (pj_status p = COMPLETED \<longrightarrow> (\<exists>t \<in> set ts. of_project p t \<and> tk_status t = COMPLETED))"

definition sv_ok :: "sv_db \<Rightarrow> bool" where
  "sv_ok db \<longleftrightarrow> distinct (map pj_id (sv_projects db)) \<and> distinct (map tk_id (sv_tasks db)) \<and>
     (\<forall>p \<in> set (sv_projects db). project_ok p \<and> project_tasks_ok (sv_tasks db) p) \<and>
     (\<forall>t \<in> set (sv_tasks db). task_ok t \<and> (\<exists>p \<in> set (sv_projects db). of_project p t)) \<and>
     (\<forall>r \<in> set (sv_progress db). progress_ok r \<and> (\<exists>t \<in> set (sv_tasks db). of_task t r))"

lemma sv_ok_audit [simp]: "sv_ok (audit a resource i action db) = sv_ok db"
  by (simp add: sv_ok_def audit_def)

lemma audit_tables [simp]:
  "sv_projects (audit a resource i action db) = sv_projects db" "sv_tasks (audit a resource i action db) = sv_tasks db"
  "sv_progress (audit a resource i action db) = sv_progress db"
  by (simp_all add: audit_def)

section \<open>What the checks on a body give\<close>

lemma check_trim: "js_trim s \<noteq> [] \<Longrightarrow> check_text (js_trim s)"
proof -
  assume n: "js_trim s \<noteq> []"
  then have "\<not> js_space (hd (js_trim s))" by (rule js_trim_hd)
  then have "hd (js_trim s) \<noteq> CHR '' ''" by (auto simp: js_space_def)
  then show ?thesis using n by (cases "js_trim s") (simp_all add: check_text_def)
qed

lemma requiredText_ok: "requiredText h v label bound = Inr t \<Longrightarrow> check_text t \<and> length t \<le> bound"
  by (auto simp: requiredText_def Let_def check_trim split: if_splits)

lemma requiredDate_ok: "requiredDate h v label = Inr t \<Longrightarrow> body_date t"
  by (auto simp: requiredDate_def Let_def split: if_splits)

lemma body_progress_ok:
  assumes "body_progress v = Inr p"
  shows "two_decimals p"
proof -
  obtain n :: rat where j: "js_number_opt v = Some n" using assms by (cases "js_number_opt v") (simp_all add: body_progress_def)
  have n: "0 \<le> n" "n \<le> 100" "p = of_int \<lfloor>n * 100 + 1 / 2\<rfloor> / 100"
    using assms by (simp_all add: body_progress_def j split: if_splits)
  have "0 \<le> \<lfloor>n * 100 + 1 / 2\<rfloor>" using n(1) by simp
  moreover have "\<lfloor>n * 100 + 1 / 2\<rfloor> \<le> 10000" using n(2) by (simp add: floor_le_iff)
  ultimately have "0 \<le> p" "p \<le> 100" by (simp_all add: n(3))
  then show ?thesis by (auto simp: two_decimals_def n(3))
qed

lemma mapE_bound: "mapE f xs = Inr ys \<Longrightarrow> length xs \<le> k \<Longrightarrow> length ys \<le> k"
  by (simp add: mapE_length)

lemma body_attachments_ok: "body_attachments h v = Inr xs \<Longrightarrow> length xs \<le> 20"
  by (auto simp: body_attachments_def dest: mapE_length split: if_splits option.splits json.splits)

lemma bindE_cases: "bindE m f = Inr y \<Longrightarrow> \<exists>x. m = Inr x \<and> f x = Inr y"
  by (simp add: bindE_Inr_iff)

lemmas body_checks = requiredText_ok requiredDate_ok body_progress_ok body_attachments_ok

lemma projectInput_ok:
  assumes "projectInput e input = Inr f"
  shows "project_fields_ok f"
  using assms unfolding projectInput_def Let_def
  by (elim bindE_InrE) (auto simp: project_fields_ok_def dest!: body_checks)

lemma taskInput_ok:
  assumes "taskInput e input existing = Inr f"
  shows "task_fields_ok f"
  using assms unfolding taskInput_def Let_def
  by (elim bindE_InrE) (auto simp: task_fields_ok_def dest!: body_checks split del: option.split)

lemma taskInput_project:
  assumes "taskInput e input existing = Inr f"
  shows "tf_project f = (case existing of Some t \<Rightarrow> tf_project (tk_fields t) | None \<Rightarrow> body_text (se_host e) (input ''projectId''))"
  using assms unfolding taskInput_def Let_def by (elim bindE_InrE) (auto split del: option.split)

section \<open>Writing a row\<close>

lemma task_project: "sv_ok db \<Longrightarrow> t \<in> set (sv_tasks db) \<Longrightarrow> \<exists>p \<in> set (sv_projects db). of_project p t"
  by (simp add: sv_ok_def)

lemma progress_task: "sv_ok db \<Longrightarrow> r \<in> set (sv_progress db) \<Longrightarrow> \<exists>t \<in> set (sv_tasks db). of_task t r"
  by (simp add: sv_ok_def)

lemma filter_all_length: "length (filter P xs) = length xs \<Longrightarrow> \<forall>x \<in> set xs. P x"
  using length_filter_less[of _ xs P] by fastforce

lemma map_id_save: "(\<And>x. f (g x) = f x) \<Longrightarrow> map f (map g xs) = map f xs"
  by (simp add: comp_def)

lemma save_ids [simp]:
  "map pj_id (sv_projects (save_project p db)) = map pj_id (sv_projects db)" "sv_tasks (save_project p db) = sv_tasks db"
  "sv_progress (save_project p db) = sv_progress db"
  "map tk_id (sv_tasks (save_task t db)) = map tk_id (sv_tasks db)" "sv_projects (save_task t db) = sv_projects db"
  "sv_progress (save_task t db) = sv_progress db"
  by (simp_all add: save_project_def save_task_def comp_def if_distrib cong: if_cong)

lemma distinct_key: "distinct (map f xs) \<Longrightarrow> x \<in> set xs \<Longrightarrow> y \<in> set xs \<Longrightarrow> f x = f y \<Longrightarrow> x = y"
  by (metis distinct_map inj_onD)

lemma save_project_set: "distinct (map pj_id (sv_projects db)) \<Longrightarrow> p \<in> set (sv_projects db) \<Longrightarrow> pj_id p' = pj_id p \<Longrightarrow>
    set (sv_projects (save_project p' db)) = insert p' (set (sv_projects db) - {p})"
  by (auto simp: save_project_def image_iff dest: distinct_key)

lemma save_task_set: "distinct (map tk_id (sv_tasks db)) \<Longrightarrow> t \<in> set (sv_tasks db) \<Longrightarrow> tk_id t' = tk_id t \<Longrightarrow>
    set (sv_tasks (save_task t' db)) = insert t' (set (sv_tasks db) - {t})"
  by (auto simp: save_task_def image_iff dest: distinct_key)

definition same_project :: "project \<Rightarrow> project \<Rightarrow> bool" where
  "same_project p q \<longleftrightarrow> pj_id q = pj_id p \<and> pj_tenant q = pj_tenant p"

definition same_task :: "task \<Rightarrow> task \<Rightarrow> bool" where
  "same_task t s \<longleftrightarrow> tk_id s = tk_id t \<and> tk_tenant s = tk_tenant t \<and> tf_project (tk_fields s) = tf_project (tk_fields t)"

lemma save_project_ok:
  assumes "sv_ok db" and "p \<in> set (sv_projects db)" and "same_project p p'" and "project_ok p'" and "project_tasks_ok (sv_tasks db) p'"
  shows "sv_ok (save_project p' db)"
proof -
  have d: "distinct (map pj_id (sv_projects db))" "distinct (map tk_id (sv_tasks db))" using assms(1) by (simp_all add: sv_ok_def)
  have id: "pj_id p' = pj_id p" using assms(3) by (simp add: same_project_def)
  have of_p: "of_project p' t = of_project p t" for t using assms(3) by (simp add: of_project_def same_project_def)
  have S: "set (sv_projects (save_project p' db)) = insert p' (set (sv_projects db) - {p})" by (rule save_project_set[OF d(1) assms(2) id])
  have "\<forall>q \<in> set (sv_projects (save_project p' db)). project_ok q \<and> project_tasks_ok (sv_tasks db) q"
    using assms(1,4,5) unfolding S by (simp add: sv_ok_def)
  moreover have "\<exists>q \<in> set (sv_projects (save_project p' db)). of_project q t" if mem: "t \<in> set (sv_tasks db)" for t
  proof -
    obtain q where "q \<in> set (sv_projects db)" "of_project q t" using task_project[OF assms(1) mem] by blast
    then show ?thesis unfolding S using of_p by (cases "q = p") auto
  qed
  ultimately show ?thesis using assms(1) d unfolding sv_ok_def by simp
qed

lemma save_task_ok:
  assumes "sv_ok db" and "t \<in> set (sv_tasks db)" and "\<not> ended (tk_status t)" and "same_task t t'" and "task_ok t'"
  shows "sv_ok (save_task t' db)"
proof -
  have d: "distinct (map pj_id (sv_projects db))" "distinct (map tk_id (sv_tasks db))" using assms(1) by (simp_all add: sv_ok_def)
  have id: "tk_id t' = tk_id t" using assms(4) by (simp add: same_task_def)
  have of_t: "of_project q t' = of_project q t" "of_task t' r = of_task t r" for q r
    using assms(4) by (simp_all add: of_project_def of_task_def same_task_def)
  have S: "set (sv_tasks (save_task t' db)) = insert t' (set (sv_tasks db) - {t})" by (rule save_task_set[OF d(2) assms(2) id])
  have "project_tasks_ok (sv_tasks (save_task t' db)) p" if p: "p \<in> set (sv_projects db)" for p
  proof -
    have ok: "project_tasks_ok (sv_tasks db) p" using assms(1) p by (simp add: sv_ok_def)
    have "\<not> of_project p t" if "ended (pj_status p)" using ok that assms(2,3) by (auto simp: project_tasks_ok_def)
    then show ?thesis using ok assms(3) unfolding project_tasks_ok_def S of_t ended_def by (auto simp: of_t)
  qed
  moreover have "\<forall>s \<in> set (sv_tasks (save_task t' db)). task_ok s \<and> (\<exists>p \<in> set (sv_projects db). of_project p s)"
    using assms(1,2,5) unfolding S by (auto simp: sv_ok_def of_t)
  moreover have "\<exists>s \<in> set (sv_tasks (save_task t' db)). of_task s r" if mem: "r \<in> set (sv_progress db)" for r
  proof -
    obtain s where "s \<in> set (sv_tasks db)" "of_task s r" using progress_task[OF assms(1) mem] by blast
    then show ?thesis unfolding S using of_t by (cases "s = t") auto
  qed
  ultimately show ?thesis using assms(1) d unfolding sv_ok_def by simp
qed

lemma insert_project_ok:
  assumes "sv_ok db" and "insert_project p db = Inr db'" and "project_ok p" and "\<not> ended (pj_status p)"
  shows "sv_ok db'"
proof -
  have n: "pj_id p \<notin> pj_id ` set (sv_projects db)" "db' = db\<lparr>sv_projects := sv_projects db @ [p]\<rparr>"
    using assms(2) by (auto simp: insert_project_def err_simps)
  have "project_tasks_ok (sv_tasks db) p" using assms(4) by (simp add: project_tasks_ok_def ended_def)
  then show ?thesis using assms(1,3) n unfolding sv_ok_def by auto
qed

lemma insert_task_ok:
  assumes "sv_ok db" and "insert_task t db = Inr db'" and "task_ok t"
    and "p \<in> set (sv_projects db)" and "of_project p t" and "\<not> ended (pj_status p)"
  shows "sv_ok db'"
proof -
  have n: "tk_id t \<notin> tk_id ` set (sv_tasks db)" "db' = db\<lparr>sv_tasks := sv_tasks db @ [t]\<rparr>"
    using assms(2) by (auto simp: insert_task_def err_simps)
  have "project_tasks_ok (sv_tasks db @ [t]) q" if q: "q \<in> set (sv_projects db)" for q
  proof -
    have "project_tasks_ok (sv_tasks db) q" using assms(1) q by (simp add: sv_ok_def)
    moreover have "\<not> ended (pj_status q)" if "of_project q t"
    proof -
      have "pj_id q = pj_id p" using that assms(5) by (simp add: of_project_def)
      then have "q = p" using distinct_key[of pj_id "sv_projects db"] assms(1,4) q by (simp add: sv_ok_def)
      then show ?thesis using assms(6) by simp
    qed
    ultimately show ?thesis by (auto simp: project_tasks_ok_def)
  qed
  then show ?thesis using assms(1,3,4,5) n unfolding sv_ok_def by auto
qed

lemma insert_progress_ok:
  assumes "sv_ok db" and "insert_progress r db = Inr db'" and "progress_ok r" and "t \<in> set (sv_tasks db)" and "of_task t r"
  shows "sv_ok db'"
  using assms by (auto simp: insert_progress_def err_simps sv_ok_def)

text \<open>A step keeps the invariant, the ended rows and the recorded progress.\<close>

definition sv_keeps :: "sv_db \<Rightarrow> sv_db \<Rightarrow> bool" where
  "sv_keeps db db' \<longleftrightarrow> (\<forall>p \<in> set (sv_projects db). ended (pj_status p) \<longrightarrow> p \<in> set (sv_projects db')) \<and>
     (\<forall>t \<in> set (sv_tasks db). ended (tk_status t) \<longrightarrow> t \<in> set (sv_tasks db')) \<and> set (sv_progress db) \<subseteq> set (sv_progress db')"

definition sv_step :: "sv_db \<Rightarrow> sv_db \<Rightarrow> bool" where
  "sv_step db db' \<longleftrightarrow> sv_ok db' \<and> sv_keeps db db'"

lemma sv_step_audit [simp]: "sv_step db (audit a resource i action db') = sv_step db db'"
  by (simp add: sv_step_def sv_keeps_def)

lemma sv_step_refl: "sv_ok db \<Longrightarrow> sv_step db db"
  by (simp add: sv_step_def sv_keeps_def)

lemma sv_step_trans: "sv_step db db1 \<Longrightarrow> sv_step db1 db2 \<Longrightarrow> sv_step db db2"
  unfolding sv_step_def sv_keeps_def by blast

lemma sv_step_ok: "sv_step db db' \<Longrightarrow> sv_ok db'"
  by (simp add: sv_step_def)

lemma sv_ok_distinct: "sv_ok db \<Longrightarrow> distinct (map pj_id (sv_projects db)) \<and> distinct (map tk_id (sv_tasks db))"
  by (simp add: sv_ok_def)

lemma save_project_step:
  assumes "sv_ok db" and "p \<in> set (sv_projects db)" and "\<not> ended (pj_status p)" and "same_project p p'" and "project_ok p'"
    and "project_tasks_ok (sv_tasks db) p'"
  shows "sv_step db (save_project p' db)"
  using save_project_ok[OF assms(1,2,4-6)] save_project_set[of db p p'] sv_ok_distinct[OF assms(1)] assms(2-4)
  by (auto simp: sv_step_def sv_keeps_def same_project_def)

lemma save_task_step:
  assumes "sv_ok db" and "t \<in> set (sv_tasks db)" and "\<not> ended (tk_status t)" and "same_task t t'" and "task_ok t'"
  shows "sv_step db (save_task t' db)"
  using save_task_ok[OF assms] save_task_set[of db t t'] sv_ok_distinct[OF assms(1)] assms(2-4)
  by (auto simp: sv_step_def sv_keeps_def same_task_def)

lemma insert_keeps:
  "insert_project p db = Inr db' \<Longrightarrow> sv_ok db' \<Longrightarrow> sv_step db db'" "insert_task t db = Inr db' \<Longrightarrow> sv_ok db' \<Longrightarrow> sv_step db db'"
  "insert_progress r db = Inr db' \<Longrightarrow> sv_ok db' \<Longrightarrow> sv_step db db'"
  by (auto simp: insert_project_def insert_task_def insert_progress_def err_simps sv_keeps_def sv_step_def)

lemma open_status: "\<not> ended s \<longleftrightarrow> s \<notin> set [COMPLETED, ABORTED]" "s \<noteq> ABORTED \<Longrightarrow> s \<noteq> COMPLETED \<Longrightarrow> \<not> ended s"
  by (auto simp: ended_def)

lemma find_project_Some: "find_project a i db = Some p \<Longrightarrow> p \<in> set (sv_projects db) \<and> pj_id p = i \<and> pj_tenant p = sa_tenant a"
  unfolding find_project_def by (drule find_Some_mem) simp

lemma find_task_Some: "find_task a i db = Some t \<Longrightarrow> t \<in> set (sv_tasks db) \<and> tk_id t = i \<and> tk_tenant t = sa_tenant a"
  unfolding find_task_def by (drule find_Some_mem) simp

lemma lockProject_Inr: "lockProject e i a action db = Inr p \<Longrightarrow> p \<in> set (sv_projects db) \<and> pj_id p = i \<and> pj_tenant p = sa_tenant a"
  unfolding lockProject_def by (elim bindE_InrE) (auto dest: find_project_Some split: option.splits)

lemma lockTask_Inr: "lockTask e i a action db = Inr t \<Longrightarrow> t \<in> set (sv_tasks db) \<and> tk_id t = i \<and> tk_tenant t = sa_tenant a"
  unfolding lockTask_def by (elim bindE_InrE) (auto dest: find_task_Some split: option.splits)

lemma startProject_step:
  assumes "sv_ok db"
  shows "sv_step db (startProject i a db)"
proof (cases "find_project a i db")
  case None
  then show ?thesis using sv_step_refl[OF assms] by (simp add: startProject_def)
next
  case (Some p)
  have p: "p \<in> set (sv_projects db)" using find_project_Some[OF Some] by blast
  then have "project_ok p" using assms by (simp add: sv_ok_def)
  let ?p = "p\<lparr>pj_status := IN_PROGRESS, pj_version := pj_version p + 1, pj_updated_by := updatedBy a\<rparr>"
  have "sv_step db (save_project ?p db)" if st: "pj_status p = NOT_STARTED"
  proof -
    have "\<not> ended (pj_status p)" by (simp add: st ended_def)
    then show ?thesis
      by (rule save_project_step[OF assms p]) (use \<open>project_ok p\<close> st in \<open>simp_all add: same_project_def project_ok_def project_tasks_ok_def ended_def\<close>)
  qed
  then show ?thesis using sv_step_refl[OF assms] by (simp add: startProject_def Some)
qed

lemma startProject_tasks [simp]: "sv_tasks (startProject i a db) = sv_tasks db" "sv_progress (startProject i a db) = sv_progress db"
  by (simp_all add: startProject_def split: option.splits)

section \<open>The commands\<close>

lemma project_of: "sv_ok db \<Longrightarrow> p \<in> set (sv_projects db) \<Longrightarrow> project_ok p \<and> project_tasks_ok (sv_tasks db) p"
  by (simp add: sv_ok_def)

lemma task_of: "sv_ok db \<Longrightarrow> t \<in> set (sv_tasks db) \<Longrightarrow> task_ok t"
  by (simp add: sv_ok_def)

lemma createProject_step:
  assumes "sv_ok db" and "createProject e a i input db = Inr db'"
  shows "sv_step db db'"
  using assms(2) unfolding createProject_def
proof (elim bindE_InrE)
  fix u v normalized w x db1
  assume n: "projectInput e (jget input) = Inr normalized"
    and i: "insert_project \<lparr>pj_id = i, pj_tenant = sa_tenant a, pj_code = sv_code ''SP'' (se_now e) i, pj_fields = normalized, pj_status = NOT_STARTED,
         pj_completed = None, pj_summary = None, pj_stop = None, pj_created_by = sa_user a, pj_updated_by = updatedBy a, pj_version = 1\<rparr> db = Inr db1"
    and e: "Inr (audit a ''supervision-projects'' (Some i) ''supervision.project.created'' db1) = Inr db'"
  have "sv_step db db1"
    by (rule insert_keeps(1)[OF i insert_project_ok[OF assms(1) i]]) (simp_all add: project_ok_def projectInput_ok[OF n] ended_def)
  then show ?thesis using e by auto
qed

lemma updateProject_step:
  assumes "sv_ok db" and "updateProject e a i input db = Inr db'"
  shows "sv_step db db'"
  using assms(2) unfolding updateProject_def
proof (elim bindE_InrE)
  fix u v w x y normalized z and p :: project
  assume p: "lockProject e i a ''update'' db = Inr p" and o: "ensure (pj_status p \<notin> set [COMPLETED, ABORTED]) (SvBadRequest ''project has ended'') = Inr x"
    and n: "projectInput e (merged_body (project_json (pj_fields p)) input) = Inr normalized"
    and e: "Inr (audit a ''supervision-projects'' (Some i) ''supervision.project.updated''
         (save_project (p\<lparr>pj_fields := normalized, pj_version := pj_version p + 1, pj_updated_by := updatedBy a\<rparr>) db)) = Inr db'"
  have m: "p \<in> set (sv_projects db)" using lockProject_Inr[OF p] by blast
  have op: "\<not> ended (pj_status p)" using o unfolding open_status(1) ensure_Inr .
  have "sv_step db (save_project (p\<lparr>pj_fields := normalized, pj_version := pj_version p + 1, pj_updated_by := updatedBy a\<rparr>) db)"
    by (rule save_project_step[OF assms(1) m op])
      (use project_of[OF assms(1) m] projectInput_ok[OF n] op in \<open>simp_all add: same_project_def project_ok_def project_tasks_ok_def of_project_def ended_def\<close>)
  then show ?thesis using e by auto
qed

lemma completeProject_step:
  assumes "sv_ok db" and "completeProject e a i input db = Inr db'"
  shows "sv_step db db'"
  using assms(2) unfolding completeProject_def Let_def
proof (elim bindE_InrE)
  let ?active = "filter (\<lambda>t. tk_status t \<noteq> ABORTED) (filter (\<lambda>t. tk_tenant t = sa_tenant a \<and> tf_project (tk_fields t) = i) (sv_tasks db))"
  fix u v w x summary y z and p :: project
  let ?p = "p\<lparr>pj_status := COMPLETED, pj_completed := Some (se_now e), pj_summary := Some summary,
       pj_fields := (pj_fields p)\<lparr>pf_delivered := (case pf_delivered (pj_fields p) of Some d \<Rightarrow> Some d | None \<Rightarrow> Some (shanghaiDate (se_now e)))\<rparr>,
       pj_version := pj_version p + 1, pj_updated_by := updatedBy a\<rparr>"
  assume p: "lockProject e i a ''update'' db = Inr p" and n: "ensure (?active \<noteq> []) (SvBadRequest ''no task'') = Inr y"
    and o1: "ensure (pj_status p \<noteq> ABORTED) (SvBadRequest ''project is aborted'') = Inr w"
    and o2: "ensure (pj_status p \<noteq> COMPLETED) (SvBadRequest ''project is completed'') = Inr x"
    and c: "ensure (list_all (\<lambda>t. tk_status t = COMPLETED) ?active) (SvBadRequest ''open tasks'') = Inr z"
    and e: "Inr (audit a ''supervision-projects'' (Some i) ''supervision.project.completed'' (save_project ?p db)) = Inr db'"
  have m: "p \<in> set (sv_projects db)" "pj_id p = i" "pj_tenant p = sa_tenant a" using lockProject_Inr[OF p] by blast+
  have op: "\<not> ended (pj_status p)" using o1 o2 unfolding ensure_Inr by (rule open_status(2))
  have t: "\<forall>t \<in> set (sv_tasks db). of_project p t \<longrightarrow> ended (tk_status t)" using c by (auto simp: of_project_def m list_all_iff ended_def)
  have "?active \<noteq> []" using n unfolding ensure_Inr .
  then have "set ?active \<noteq> {}" by (simp only: set_empty not_False_eq_True)
  then have x: "\<exists>t \<in> set (sv_tasks db). of_project p t \<and> tk_status t = COMPLETED" using c by (auto simp: of_project_def m list_all_iff)
  have "sv_step db (save_project ?p db)"
    by (rule save_project_step[OF assms(1) m(1) op])
      (use project_of[OF assms(1) m(1)] t x in \<open>simp_all add: same_project_def project_ok_def project_fields_ok_def project_tasks_ok_def of_project_def\<close>)
  then show ?thesis using e by auto
qed

lemma abortProject_step:
  assumes "sv_ok db" and "abortProject e a i input db = Inr db'"
  shows "sv_step db db'"
  using assms(2) unfolding abortProject_def Let_def
proof (elim bindE_InrE)
  let ?tasks = "filter (\<lambda>t. tk_tenant t = sa_tenant a \<and> tf_project (tk_fields t) = i) (sv_tasks db)"
  fix u v w x y reason and p :: project
  let ?p = "p\<lparr>pj_status := ABORTED, pj_stop := Some reason, pj_completed := None, pj_version := pj_version p + 1, pj_updated_by := updatedBy a\<rparr>"
  assume p: "lockProject e i a ''update'' db = Inr p"
    and o2: "ensure (pj_status p \<noteq> COMPLETED) (SvBadRequest ''project is completed'') = Inr w"
    and o1: "ensure (pj_status p \<noteq> ABORTED) (SvBadRequest ''project is aborted'') = Inr x"
    and c: "ensure (length ?tasks = length (filter (\<lambda>t. tk_status t \<in> set [COMPLETED, ABORTED]) ?tasks)) (SvBadRequest ''open tasks'') = Inr y"
    and r: "requiredText (se_host e) (jget input ''stopReason'') ''stopReason'' 5000 = Inr reason"
    and e: "Inr (audit a ''supervision-projects'' (Some i) ''supervision.project.aborted'' (save_project ?p db)) = Inr db'"
  have m: "p \<in> set (sv_projects db)" "pj_id p = i" "pj_tenant p = sa_tenant a" using lockProject_Inr[OF p] by blast+
  have op: "\<not> ended (pj_status p)" using o1 o2 unfolding ensure_Inr by (rule open_status(2))
  have "\<forall>t \<in> set ?tasks. tk_status t \<in> set [COMPLETED, ABORTED]"
    by (rule filter_all_length) (use c in \<open>simp only: ensure_Inr\<close>)
  then have t: "\<forall>t \<in> set (sv_tasks db). of_project p t \<longrightarrow> ended (tk_status t)" by (auto simp: of_project_def m ended_def)
  have "sv_step db (save_project ?p db)"
    by (rule save_project_step[OF assms(1) m(1) op])
      (use project_of[OF assms(1) m(1)] t requiredText_ok[OF r] in \<open>simp_all add: same_project_def project_ok_def project_tasks_ok_def of_project_def\<close>)
  then show ?thesis using e by auto
qed

lemma createTask_step:
  assumes "sv_ok db" and "createTask e a i input db = Inr db'"
  shows "sv_step db db'"
  using assms(2) unfolding createTask_def
proof (elim bindE_InrE)
  fix u p normalized v w db1
  let ?t = "\<lparr>tk_id = i, tk_tenant = sa_tenant a, tk_code = sv_code ''ST'' (se_now e) i, tk_fields = normalized, tk_status = NOT_STARTED,
         tk_completed = None, tk_stop = None, tk_created_by = sa_user a, tk_updated_by = updatedBy a, tk_version = 1\<rparr>"
  assume p: "lockTaskCreationProject (body_text (se_host e) (jget input ''projectId'')) a db = Inr p"
    and n: "taskInput e (jget input) None = Inr normalized" and i: "insert_task ?t db = Inr db1"
    and e: "Inr (audit a ''supervision-tasks'' (Some i) ''supervision.task.created'' db1) = Inr db'"
  let ?i = "body_text (se_host e) (jget input ''projectId'')"
  obtain q where q: "find (\<lambda>p. pj_id p = ?i \<and> taskCreationProjectScope a p) (sv_projects db) = Some q" "find_project a ?i db = Some p"
    using p by (auto simp: lockTaskCreationProject_def err_simps split: option.splits)
  have m: "p \<in> set (sv_projects db)" "pj_id p = ?i" "pj_tenant p = sa_tenant a" using find_project_Some[OF q(2)] by blast+
  have "q \<in> set (sv_projects db)" "pj_id q = ?i" "taskCreationProjectScope a q" using find_Some_mem[OF q(1)] by blast+
  moreover from this have "q = p" using distinct_key[of pj_id "sv_projects db" q p] assms(1) m by (simp add: sv_ok_def)
  ultimately have "\<not> ended (pj_status p)" by (simp add: taskCreationProjectScope_def ended_def)
  moreover have "of_project p ?t" using m taskInput_project[OF n] by (simp add: of_project_def)
  ultimately have "sv_step db db1"
    by (intro insert_keeps(2)[OF i] insert_task_ok[OF assms(1) i _ m(1)]) (simp_all add: task_ok_def taskInput_ok[OF n])
  then show ?thesis using e by auto
qed

text \<open>A command that changes an open task and records progress.\<close>

lemma save_and_record:
  assumes "sv_ok db" and "t \<in> set (sv_tasks db)" and "\<not> ended (tk_status t)" and "same_task t t'" and "task_ok t'"
    and "tk_tenant t = sa_tenant a" and "insert_progress (progressRecord a t' i v) (save_task t' db) = Inr db'" and "progress_ok v"
  shows "sv_step db db'"
proof -
  note saved = save_task_step[OF assms(1-5)]
  have t': "t' \<in> set (sv_tasks (save_task t' db))"
    using save_task_set[of db t t'] sv_ok_distinct[OF assms(1)] assms(2,4) by (simp add: same_task_def)
  have "of_task t' (progressRecord a t' i v)" using assms(4,6) by (simp add: of_task_def progressRecord_def same_task_def)
  moreover have "progress_ok (progressRecord a t' i v)" using assms(8) by (simp add: progress_ok_def progressRecord_def)
  ultimately have "sv_ok db'" using insert_progress_ok[OF sv_step_ok[OF saved] assms(7) _ t'] by blast
  then show ?thesis using sv_step_trans[OF saved insert_keeps(3)[OF assms(7)]] by blast
qed

lemma updateTask_step:
  assumes "sv_ok db" and "updateTask e a i input db = Inr db'"
  shows "sv_step db db'"
  using assms(2) unfolding updateTask_def
proof (elim bindE_InrE)
  fix u v w x y z k normalized l and t :: task
  let ?t = "t\<lparr>tk_fields := normalized\<lparr>tf_project := tf_project (tk_fields t)\<rparr>, tk_version := tk_version t + 1, tk_updated_by := updatedBy a\<rparr>"
  assume t: "lockTask e i a ''update'' db = Inr t" and o: "ensure (tk_status t \<notin> set [COMPLETED, ABORTED]) (SvBadRequest ''task has ended'') = Inr y"
    and n: "taskInput e (merged_body (task_json (tk_fields t)) (filter (\<lambda>(k, v). k \<noteq> ''dueDate'') input)) (Some t) = Inr normalized"
    and e: "Inr (audit a ''supervision-tasks'' (Some i) ''supervision.task.updated'' (save_task ?t db)) = Inr db'"
  have m: "t \<in> set (sv_tasks db)" using lockTask_Inr[OF t] by blast
  have op: "\<not> ended (tk_status t)" using o unfolding open_status(1) ensure_Inr .
  then have st: "tk_status t \<noteq> COMPLETED" "tk_status t \<noteq> ABORTED" by (simp_all add: ended_def)
  have "sv_step db (save_task ?t db)"
    by (rule save_task_step[OF assms(1) m op]) (use task_of[OF assms(1) m] taskInput_ok[OF n] st in \<open>simp_all add: same_task_def task_ok_def task_fields_ok_def\<close>)
  then show ?thesis using e by auto
qed

lemma progress_value_ok: "progress_ok (progress_value kind p summary risk action followup proposed reason atts) \<longleftrightarrow>
    kind \<in> set [''PROGRESS'', ''RISK'', ''DUE_DATE_CHANGE'', ''COMPLETION''] \<and> (\<forall>x. p = Some x \<longrightarrow> two_decimals x) \<and> check_text summary \<and>
    (kind = ''DUE_DATE_CHANGE'' \<longrightarrow> proposed \<noteq> None \<and> (\<exists>t. reason = Some t \<and> check_text t))"
  by (simp add: progress_ok_def progress_value_def)

lemma task_parts: "task_ok t \<Longrightarrow> task_fields_ok (tk_fields t) \<and> two_decimals (tf_progress (tk_fields t)) \<and>
    (tk_status t = COMPLETED \<longleftrightarrow> tk_completed t \<noteq> None) \<and> 1 \<le> tk_version t"
  by (simp add: task_ok_def task_fields_ok_def)

lemma addProgress_step:
  assumes "sv_ok db" and "addProgress e a i input db = Inr db'"
  shows "sv_step db db'"
  using assms(2) unfolding addProgress_def Let_def
proof (elim bindE_InrE)
  fix u v w x y z progress followup summary risk action atts k db1 and t :: task
  let ?kind = "coalesce (jget input ''updateType'') (JStr ''PROGRESS'')"
  let ?t = "t\<lparr>tk_fields := (tk_fields t)\<lparr>tf_progress := (case progress of Some p \<Rightarrow> p | None \<Rightarrow> tf_progress (tk_fields t)), tf_followup := followup\<rparr>,
      tk_status := IN_PROGRESS, tk_version := tk_version t + 1, tk_updated_by := updatedBy a\<rparr>"
  let ?v = "progress_value (js_string (se_host e) ?kind) progress summary risk action followup None None atts"
  assume t: "lockTask e (body_text (se_host e) (jget input ''taskId'')) a ''update'' db = Inr t"
    and o: "ensure (tk_status t \<notin> set [COMPLETED, ABORTED]) (SvBadRequest ''task has ended'') = Inr y"
    and kd: "ensure (?kind \<in> set [JStr ''PROGRESS'', JStr ''RISK'']) (SvBadRequest ''updateType'') = Inr z"
    and pr: "(if nullish (jget input ''progress'') then Inr None else bindE (body_progress (jget input ''progress'')) (\<lambda>p. Inr (Some p))) = Inr progress"
    and su: "requiredText (se_host e) (jget input ''summary'') ''summary'' 10000 = Inr summary"
    and ins: "insert_progress (progressRecord a ?t i ?v) (save_task ?t db) = Inr db1"
    and e: "Inr (audit a ''supervision-tasks'' (Some (tk_id t)) ''supervision.task.progress_applied''
         (audit a ''supervision-task-progress'' (Some i) ''supervision.task.progress_added'' (startProject (tf_project (tk_fields t)) a db1))) = Inr db'"
  have m: "t \<in> set (sv_tasks db)" "tk_tenant t = sa_tenant a" using lockTask_Inr[OF t] by blast+
  have op: "\<not> ended (tk_status t)" using o unfolding open_status(1) ensure_Inr .
  have p: "two_decimals q" if "progress = Some q" for q
    using pr that body_progress_ok by (auto simp: err_simps split: if_splits)
  have "task_ok ?t" using task_parts[OF task_of[OF assms(1) m(1)]] op p
    by (auto simp: task_ok_def task_fields_ok_def ended_def split: option.splits)
  moreover have "js_string (se_host e) ?kind \<in> set [''PROGRESS'', ''RISK'']" using kd unfolding ensure_Inr by auto
  then have "progress_ok ?v" using p requiredText_ok[OF su] by (auto simp: progress_value_ok)
  ultimately have "sv_step db db1"
    by (intro save_and_record[OF assms(1) m(1) op _ _ m(2) ins]) (simp_all add: same_task_def)
  then show ?thesis using e sv_step_trans[OF _ startProject_step[OF sv_step_ok]] by auto
qed

lemma changeTaskDueDate_step:
  assumes "sv_ok db" and "changeTaskDueDate e a i r input db = Inr db'"
  shows "sv_step db db'"
  using assms(2) unfolding changeTaskDueDate_def Let_def
proof (elim bindE_InrE)
  fix u v w x due y reason db1 and t :: task
  let ?t = "t\<lparr>tk_fields := (tk_fields t)\<lparr>tf_due := due\<rparr>, tk_version := tk_version t + 1, tk_updated_by := updatedBy a\<rparr>"
  let ?v = "progress_value ''DUE_DATE_CHANGE'' (Some (tf_progress (tk_fields t))) (''due date changed from '' @ tf_due (tk_fields t) @ '' to '' @ due)
         None None (tf_followup (tk_fields t)) (Some due) (Some reason) []"
  assume t: "lockTask e i a ''update'' db = Inr t"
    and o: "ensure (tk_status t \<notin> set [COMPLETED, ABORTED]) (SvBadRequest ''task has ended'') = Inr x"
    and d: "requiredDate (se_host e) (jget input ''dueDate'') ''dueDate'' = Inr due"
    and s: "ensure (tf_start (tk_fields t) = [] \<or> tf_start (tk_fields t) \<le> due) (SvBadRequest ''dates'') = Inr y"
    and re: "requiredText (se_host e) (jget input ''changeReason'') ''changeReason'' 5000 = Inr reason"
    and ins: "insert_progress (progressRecord a ?t r ?v) (save_task ?t db) = Inr db1"
    and e: "Inr (audit a ''supervision-task-progress'' (Some r) ''supervision.task.due_date_change_recorded''
         (audit a ''supervision-tasks'' (Some (tk_id t)) ''supervision.task.due_date_changed'' db1)) = Inr db'"
  have m: "t \<in> set (sv_tasks db)" "tk_tenant t = sa_tenant a" using lockTask_Inr[OF t] by blast+
  have op: "\<not> ended (tk_status t)" using o unfolding open_status(1) ensure_Inr .
  note ok = task_parts[OF task_of[OF assms(1) m(1)]]
  have "tf_start (tk_fields t) \<le> due" using s by auto
  then have "task_ok ?t" using ok op requiredDate_ok[OF d] by (auto simp: task_ok_def task_fields_ok_def ended_def)
  moreover have "progress_ok ?v" using ok requiredText_ok[OF re] by (auto simp: progress_value_ok check_text_def)
  ultimately have "sv_step db db1" by (intro save_and_record[OF assms(1) m(1) op _ _ m(2) ins]) (simp_all add: same_task_def)
  then show ?thesis using e by auto
qed

lemma completeTask_step:
  assumes "sv_ok db" and "completeTask e a i r input db = Inr db'"
  shows "sv_step db db'"
  using assms(2) unfolding completeTask_def Let_def
proof (elim bindE_InrE)
  fix u v w x summary atts y db1 and t :: task
  let ?t = "t\<lparr>tk_status := COMPLETED, tk_completed := Some (se_now e),
      tk_fields := (tk_fields t)\<lparr>tf_progress := 100, tf_delivered := (case tf_delivered (tk_fields t) of Some d \<Rightarrow> Some d | None \<Rightarrow> Some (shanghaiDate (se_now e)))\<rparr>,
      tk_version := tk_version t + 1, tk_updated_by := updatedBy a\<rparr>"
  let ?v = "progress_value ''COMPLETION'' (Some 100) summary None None (tf_followup (tk_fields t)) None None atts"
  assume t: "lockTask e i a ''update'' db = Inr t"
    and o1: "ensure (tk_status t \<noteq> ABORTED) (SvBadRequest ''task is aborted'') = Inr w"
    and o2: "ensure (tk_status t \<noteq> COMPLETED) (SvBadRequest ''task is completed'') = Inr x"
    and su: "requiredText (se_host e) (jget input ''completionSummary'') ''completionSummary'' 10000 = Inr summary"
    and ins: "insert_progress (progressRecord a ?t r ?v) (save_task ?t db) = Inr db1"
    and e: "Inr (audit a ''supervision-task-progress'' (Some r) ''supervision.task.completion_recorded''
         (audit a ''supervision-tasks'' (Some i) ''supervision.task.completed'' db1)) = Inr db'"
  have m: "t \<in> set (sv_tasks db)" "tk_tenant t = sa_tenant a" using lockTask_Inr[OF t] by blast+
  have op: "\<not> ended (tk_status t)" using o1 o2 unfolding ensure_Inr by (rule open_status(2))
  have "task_ok ?t" using task_parts[OF task_of[OF assms(1) m(1)]] by (auto simp: task_ok_def task_fields_ok_def two_decimals_def intro: exI[of _ 10000])
  moreover have "progress_ok ?v" using requiredText_ok[OF su] by (auto simp: progress_value_ok two_decimals_def intro: exI[of _ 10000])
  ultimately have "sv_step db db1" by (intro save_and_record[OF assms(1) m(1) op _ _ m(2) ins]) (simp_all add: same_task_def)
  then show ?thesis using e by auto
qed

lemma abortTask_step:
  assumes "sv_ok db" and "abortTask e a i input db = Inr db'"
  shows "sv_step db db'"
  using assms(2) unfolding abortTask_def
proof (elim bindE_InrE)
  fix u v w x reason and t :: task
  let ?t = "t\<lparr>tk_status := ABORTED, tk_stop := Some reason, tk_completed := None, tk_version := tk_version t + 1, tk_updated_by := updatedBy a\<rparr>"
  assume t: "lockTask e i a ''update'' db = Inr t"
    and o1: "ensure (tk_status t \<noteq> COMPLETED) (SvBadRequest ''task is completed'') = Inr w"
    and o2: "ensure (tk_status t \<noteq> ABORTED) (SvBadRequest ''task is aborted'') = Inr x"
    and re: "requiredText (se_host e) (jget input ''stopReason'') ''stopReason'' 5000 = Inr reason"
    and e: "Inr (audit a ''supervision-tasks'' (Some i) ''supervision.task.aborted'' (save_task ?t db)) = Inr db'"
  have m: "t \<in> set (sv_tasks db)" using lockTask_Inr[OF t] by blast
  have op: "\<not> ended (tk_status t)" using o2 o1 unfolding ensure_Inr by (rule open_status(2))
  have "sv_step db (save_task ?t db)"
    by (rule save_task_step[OF assms(1) m op]) (use task_parts[OF task_of[OF assms(1) m]] requiredText_ok[OF re] in \<open>simp_all add: same_task_def task_ok_def\<close>)
  then show ?thesis using e by auto
qed

lemma deleteProject_step:
  assumes "sv_ok db" and "deleteProject e a i expected db = Inr db'"
  shows "sv_step db db'"
  using assms(2) unfolding deleteProject_def
proof (elim bindE_InrE)
  fix u v w x y z and p :: project
  let ?gone = "\<lambda>q. pj_tenant q = sa_tenant a \<and> pj_id q = i \<and> pj_version q = pj_version p"
  let ?db = "db\<lparr>sv_projects := filter (\<lambda>q. \<not> ?gone q) (sv_projects db)\<rparr>"
  assume p: "lockProject e i a ''delete'' db = Inr p"
    and ind: "assertIndependentDelete (pj_status p) (pf_attachments (pj_fields p)) = Inr x"
    and none: "ensure (\<not> list_ex (\<lambda>t. tk_tenant t = sa_tenant a \<and> tf_project (tk_fields t) = i) (sv_tasks db)) (SvConflict ''project has tasks'') = Inr y"
    and e: "Inr (audit a ''supervision-projects'' (Some i) ''supervision.project.deleted'' ?db) = Inr db'"
  have m: "p \<in> set (sv_projects db)" "pj_id p = i" using lockProject_Inr[OF p] by blast+
  have op: "\<not> ended (pj_status p)" using ind by (auto simp: assertIndependentDelete_def err_simps ended_def)
  have one: "q = p" if "q \<in> set (sv_projects db)" "?gone q" for q
    using distinct_key[of pj_id "sv_projects db" q p] sv_ok_distinct[OF assms(1)] that m by simp
  have "\<not> ?gone q" if "of_project q t" "t \<in> set (sv_tasks db)" for q t
    using none that by (auto simp: of_project_def list_ex_iff)
  then have "\<forall>t \<in> set (sv_tasks db). \<exists>q \<in> set (sv_projects ?db). of_project q t" using task_project[OF assms(1)] by fastforce
  then have "sv_ok ?db" using assms(1) unfolding sv_ok_def by (auto simp: distinct_map_filter)
  moreover have "sv_keeps db ?db" using one op by (auto simp: sv_keeps_def)
  ultimately have "sv_step db ?db" by (simp add: sv_step_def)
  then show ?thesis using e by auto
qed

lemma deleteTask_step:
  assumes "sv_ok db" and "deleteTask e a i expected db = Inr db'"
  shows "sv_step db db'"
  using assms(2) unfolding deleteTask_def
proof (elim bindE_InrE)
  fix u v w x y and t :: task
  let ?gone = "\<lambda>s. tk_tenant s = sa_tenant a \<and> tk_id s = i \<and> tk_version s = tk_version t"
  let ?db = "db\<lparr>sv_tasks := filter (\<lambda>s. \<not> ?gone s) (sv_tasks db)\<rparr>"
  assume t: "lockTask e i a ''delete'' db = Inr t"
    and ind: "assertIndependentDelete (tk_status t) (tf_attachments (tk_fields t)) = Inr x"
    and none: "ensure (\<not> list_ex (\<lambda>r. pr_tenant r = sa_tenant a \<and> pr_task r = i) (sv_progress db)) (SvConflict ''task has history'') = Inr y"
    and e: "Inr (audit a ''supervision-tasks'' (Some i) ''supervision.task.deleted'' ?db) = Inr db'"
  have m: "t \<in> set (sv_tasks db)" "tk_id t = i" using lockTask_Inr[OF t] by blast+
  have op: "\<not> ended (tk_status t)" using ind by (auto simp: assertIndependentDelete_def err_simps ended_def)
  have one: "s = t" if "s \<in> set (sv_tasks db)" "?gone s" for s
    using distinct_key[of tk_id "sv_tasks db" s t] sv_ok_distinct[OF assms(1)] that m by simp
  have "\<not> ?gone s" if "of_task s r" "r \<in> set (sv_progress db)" for s r
    using none that by (auto simp: of_task_def list_ex_iff)
  then have history: "\<forall>r \<in> set (sv_progress db). \<exists>s \<in> set (sv_tasks ?db). of_task s r"
    using progress_task[OF assms(1)] by fastforce
  have kept: "\<forall>s \<in> set (sv_tasks db). ended (tk_status s) \<longrightarrow> s \<in> set (sv_tasks ?db)" using one op by auto
  then have "\<forall>q \<in> set (sv_projects db). project_tasks_ok (sv_tasks ?db) q"
    using project_of[OF assms(1)] by (fastforce simp: project_tasks_ok_def ended_def)
  then have "sv_ok ?db" using assms(1) history unfolding sv_ok_def by (auto simp: distinct_map_filter)
  moreover have "sv_keeps db ?db" using kept by (auto simp: sv_keeps_def)
  ultimately have "sv_step db ?db" by (simp add: sv_step_def)
  then show ?thesis using e by auto
qed

lemmas command_steps = createProject_step updateProject_step completeProject_step abortProject_step createTask_step updateTask_step
  addProgress_step changeTaskDueDate_step completeTask_step abortTask_step deleteProject_step deleteTask_step

lemma run_step: "sv_ok db \<Longrightarrow> run_sv e a c db = Inr db' \<Longrightarrow> sv_step db db'"
  by (cases c) (auto simp: recordAttachmentUpload_def sv_step_refl intro: command_steps)

lemma reach_ok: "sv_reach db \<Longrightarrow> sv_ok db"
proof (induction rule: sv_reach.induct)
  case start
  then show ?case by (simp add: sv_ok_def sv_empty_def)
next
  case (command db e a c db')
  then show ?case using run_step sv_step_ok by blast
qed

section \<open>The properties\<close>


text \<open>C29: Ending is final and consistent: no command changes or removes a completed or aborted project or task or a recorded
  progress row, an ended project has no open task, and a completed one has a completed task.\<close>

theorem supervision_ended_is_final:
  assumes "sv_reach db" and "run_sv e a c db = Inr db'"
  shows "(\<forall>p \<in> set (sv_projects db). ended (pj_status p) \<longrightarrow> p \<in> set (sv_projects db')) \<and>
    (\<forall>t \<in> set (sv_tasks db). ended (tk_status t) \<longrightarrow> t \<in> set (sv_tasks db')) \<and> set (sv_progress db) \<subseteq> set (sv_progress db') \<and>
    (\<forall>p \<in> set (sv_projects db'). ended (pj_status p) \<longrightarrow> (\<forall>t \<in> set (sv_tasks db'). of_project p t \<longrightarrow> ended (tk_status t))) \<and>
    (\<forall>p \<in> set (sv_projects db'). pj_status p = COMPLETED \<longrightarrow> (\<exists>t \<in> set (sv_tasks db'). of_project p t \<and> tk_status t = COMPLETED))"
proof -
  have "sv_step db db'" by (rule run_step[OF reach_ok[OF assms(1)] assms(2)])
  then have "sv_ok db'" "sv_keeps db db'" by (simp_all add: sv_step_def)
  then show ?thesis by (simp add: sv_ok_def sv_keeps_def project_tasks_ok_def)
qed

lemma performance_partition:
  assumes "\<forall>(st, due, fin) \<in> set ts. st = COMPLETED \<longrightarrow> fin \<noteq> None"
  shows "pe_total (aggregateOwnerPerformance ts now) + pe_aborted (aggregateOwnerPerformance ts now) = length ts \<and>
    pe_total (aggregateOwnerPerformance ts now) = pe_on_time (aggregateOwnerPerformance ts now) + pe_late (aggregateOwnerPerformance ts now) +
      pe_overdue_now (aggregateOwnerPerformance ts now) + pe_not_due (aggregateOwnerPerformance ts now)"
  using assms
proof (induction ts)
  case (Cons x ts)
  obtain st due fin where x: "x = (st, due, fin)" by (cases x)
  have ih: "pe_total (aggregateOwnerPerformance ts now) + pe_aborted (aggregateOwnerPerformance ts now) = length ts \<and>
    pe_total (aggregateOwnerPerformance ts now) = pe_on_time (aggregateOwnerPerformance ts now) + pe_late (aggregateOwnerPerformance ts now) +
      pe_overdue_now (aggregateOwnerPerformance ts now) + pe_not_due (aggregateOwnerPerformance ts now)"
    using Cons by simp
  have "st = COMPLETED \<longrightarrow> fin \<noteq> None" using Cons.prems by (simp add: x)
  then show ?case using ih by (cases st) (auto simp: x aggregateOwnerPerformance_def completionTimeliness_def Let_def)
qed (simp add: aggregateOwnerPerformance_def)

definition performance_of :: "task \<Rightarrow> lifecycle \<times> string \<times> int option" where
  "performance_of t = (tk_status t, tf_due (tk_fields t), tk_completed t)"

text \<open>Of any selection of stored tasks, the owner report counts every task exactly once: aborted, completed on time,
  completed late, overdue now, or not yet due.\<close>

theorem supervision_report_partitions:
  assumes "sv_reach db" and "set ts \<subseteq> set (sv_tasks db)" and "report = aggregateOwnerPerformance (map performance_of ts) now"
  shows "pe_total report + pe_aborted report = length ts \<and>
    pe_total report = pe_on_time report + pe_late report + pe_overdue_now report + pe_not_due report"
proof -
  have "\<forall>t \<in> set ts. tk_status t = COMPLETED \<longrightarrow> tk_completed t \<noteq> None"
    using reach_ok[OF assms(1)] assms(2) by (auto simp: sv_ok_def task_ok_def)
  then have "\<forall>(st, due, fin) \<in> set (map performance_of ts). st = COMPLETED \<longrightarrow> fin \<noteq> None" by (simp add: performance_of_def)
  from performance_partition[OF this, of now] show ?thesis unfolding assms(3) length_map .
qed

section \<open>A clash of codes\<close>

text \<open>
  The code of a row holds the first eight characters of its identifier.  For \<open>uuidv7()\<close> these are the upper
  32 of the 48 bits of its time stamp, so identifiers made within 65.536 seconds of each other often share
  them, and the second insertion on the same day is refused by the unique constraint.
\<close>

lemma same_window_code_refused:
  assumes "createTask e a i input db = Inr db'" and "take 8 j = take 8 i" and "shanghaiDate (se_now e') = shanghaiDate (se_now e)"
  shows "\<not> isOk (createTask e' a j input' db')"
proof -
  from assms(1) have "\<exists>t \<in> set (sv_tasks db'). tk_code t = sv_code ''ST'' (se_now e) i \<and> tk_tenant t = sa_tenant a"
    unfolding createTask_def by (elim bindE_InrE) (auto simp: insert_task_def err_simps)
  moreover have "sv_code ''ST'' (se_now e') j = sv_code ''ST'' (se_now e) i" using assms(2,3) by (simp add: sv_code_def)
  ultimately have clash: "(sa_tenant a, sv_code ''ST'' (se_now e') j) \<in> (\<lambda>s. (tk_tenant s, tk_code s)) ` set (sv_tasks db')" by force
  show ?thesis
  proof
    assume "isOk (createTask e' a j input' db')"
    then obtain db'' where "createTask e' a j input' db' = Inr db''" by (auto simp: isOk_iff)
    then show False unfolding createTask_def by (elim bindE_InrE) (use clash in \<open>auto simp: insert_task_def err_simps\<close>)
  qed
qed

section \<open>A concrete run\<close>

definition sv_host :: host where
  "sv_host = \<lparr>num_str = \<lambda>_. ''1'', sha256 = \<lambda>s. s, url_protocol = \<lambda>_. None\<rparr>"

definition sv_sample_env :: sv_env where
  "sv_sample_env = \<lparr>se_host = sv_host, se_now = 0, se_users = [''u1'', ''u2''], se_departments = [''d1''], se_scope = \<lambda>_ _ _ _ _. True\<rparr>"

definition sv_admin :: sv_actor where
  "sv_admin = \<lparr>sa_tenant = ''T'', sa_user = Some ''u1'', sa_username = ''admin'', sa_admin = True, sa_modules = [], sa_permissions = [], sa_scopes = []\<rparr>"

definition project_body :: body where
  "project_body = [(''projectName'', JStr ''P''), (''projectDescription'', JStr ''D''), (''sourceType'', JStr ''OTHER''), (''ownerId'', JStr ''u1''),
     (''departmentId'', JStr ''d1''), (''participantIds'', JArr [JStr ''u2'']), (''plannedStartDate'', JStr ''2026-01-01''),
     (''dueDate'', JStr ''2026-02-01''), (''acceptanceCriteria'', JStr ''A'')]"

definition task_body :: body where
  "task_body = [(''projectId'', JStr ''p1''), (''taskName'', JStr ''N''), (''description'', JStr ''D''), (''ownerId'', JStr ''u1''),
     (''departmentId'', JStr ''d1''), (''collaboratorIds'', JArr [JStr ''u2'']), (''plannedStartDate'', JStr ''2026-01-01''),
     (''dueDate'', JStr ''2026-02-01''), (''acceptanceCriteria'', JStr ''A''), (''progress'', JNum 0)]"

definition done_body :: body where
  "done_body = [(''expectedVersion'', JNum 1), (''completionSummary'', JStr ''done'')]"

definition sample_project_fields :: project_fields where
  "sample_project_fields = \<lparr>pf_name = ''P'', pf_description = ''D'', pf_sourceType = ''OTHER'', pf_sourceName = None, pf_sourceDate = None, pf_owner = ''u1'',
     pf_supervisor = None, pf_department = ''d1'', pf_participants = [''u2''], pf_priority = ''MEDIUM'', pf_start = ''2026-01-01'', pf_due = ''2026-02-01'',
     pf_delivered = None, pf_criteria = ''A'', pf_attachments = []\<rparr>"

definition sample_task_fields :: task_fields where
  "sample_task_fields = \<lparr>tf_project = ''p1'', tf_name = ''N'', tf_description = ''D'', tf_owner = ''u1'', tf_collaborators = [''u2''], tf_department = ''d1'',
     tf_priority = ''MEDIUM'', tf_start = ''2026-01-01'', tf_due = ''2026-02-01'', tf_delivered = None, tf_progress = 0, tf_criteria = ''A'',
     tf_followup = None, tf_attachments = []\<rparr>"

lemma sample_inputs:
  "projectInput sv_sample_env (jget project_body) = Inr sample_project_fields"
  "taskInput sv_sample_env (jget task_body) None = Inr sample_task_fields"
  by code_simp+

lemma sample_bodies:
  "''progress'' \<notin> set (jkeys project_body)" "body_text sv_host (jget task_body ''projectId'') = ''p1''"
  "jget done_body ''expectedVersion'' = Some (JNum 1)" "requiredText sv_host (jget done_body ''completionSummary'') ''completionSummary'' k =
     (if k < 4 then Inl (SvBadRequest (''completionSummary'' @ '' is too long'')) else Inr ''done'')"
  "jget done_body ''attachments'' = None"
  by (code_simp | simp add: requiredText_def body_text_def done_body_def js_trim_def js_space_def Let_def)+

lemma admin_may:
  "administrator sv_admin" "assertAction sv_admin r act = Inr ()" "assertRecordScope e r i sv_admin act db = Inr ()" "assertCreateScope h sv_admin r row = Inr ()"
  by (simp_all add: administrator_def sv_admin_def assertAction_def hasSupervisionPermission_def ensure_def assertRecordScope_def assertCreateScope_def)

definition sample_project :: project where
  "sample_project = \<lparr>pj_id = ''p1'', pj_tenant = ''T'', pj_code = sv_code ''SP'' 0 ''p1'', pj_fields = sample_project_fields, pj_status = NOT_STARTED,
     pj_completed = None, pj_summary = None, pj_stop = None, pj_created_by = Some ''u1'', pj_updated_by = ''u1'', pj_version = 1\<rparr>"

definition sample_task :: task where
  "sample_task = \<lparr>tk_id = ''t1'', tk_tenant = ''T'', tk_code = sv_code ''ST'' 0 ''t1'', tk_fields = sample_task_fields, tk_status = NOT_STARTED,
     tk_completed = None, tk_stop = None, tk_created_by = Some ''u1'', tk_updated_by = ''u1'', tk_version = 1\<rparr>"

definition sv_db1 :: sv_db where
  "sv_db1 = audit sv_admin ''supervision-projects'' (Some ''p1'') ''supervision.project.created'' (sv_empty\<lparr>sv_projects := [sample_project]\<rparr>)"

definition sv_db2 :: sv_db where
  "sv_db2 = audit sv_admin ''supervision-tasks'' (Some ''t1'') ''supervision.task.created'' (sv_db1\<lparr>sv_tasks := [sample_task]\<rparr>)"

lemma env_parts [simp]: "se_host sv_sample_env = sv_host" "se_now sv_sample_env = 0"
  "sa_tenant sv_admin = ''T''" "sa_user sv_admin = Some ''u1''" "updatedBy sv_admin = ''u1''"
  by (simp_all add: sv_sample_env_def sv_admin_def updatedBy_def)

lemma db_parts [simp]: "sv_projects sv_db1 = [sample_project]" "sv_tasks sv_db1 = []" "sv_progress sv_db1 = []"
    "sv_projects sv_db2 = [sample_project]" "sv_tasks sv_db2 = [sample_task]" "sv_progress sv_db2 = []"
  by (simp_all add: sv_db1_def sv_db2_def sv_empty_def)

lemma run1: "run_sv sv_sample_env sv_admin (CreateProject ''p1'' project_body) sv_empty = Inr sv_db1"
  by (simp add: createProject_def sample_inputs sample_bodies admin_may ensure_def assertAttachmentTenant_def insert_project_def sv_empty_def sv_db1_def
      sample_project_def Let_def) (simp add: sample_project_fields_def)

lemma run2: "run_sv sv_sample_env sv_admin (CreateTask ''t1'' task_body) sv_db1 = Inr sv_db2"
  by (simp add: createTask_def sample_inputs sample_bodies admin_may ensure_def assertAttachmentTenant_def insert_task_def sv_db2_def
      lockTaskCreationProject_def taskCreationProjectScope_def hasSupervisionPermission_def find_project_def sample_project_def sample_task_def Let_def)
    (simp add: sample_task_fields_def)

lemma reach2: "sv_reach sv_db2"
  using sv_reach.command[OF sv_reach.command[OF sv_reach.start run1] run2] .


theorem supervision_report_partitions_witness:
  "pe_total (aggregateOwnerPerformance (map performance_of [sample_task]) 0) = pe_on_time (aggregateOwnerPerformance (map performance_of [sample_task]) 0) +
     pe_late (aggregateOwnerPerformance (map performance_of [sample_task]) 0) + pe_overdue_now (aggregateOwnerPerformance (map performance_of [sample_task]) 0) +
     pe_not_due (aggregateOwnerPerformance (map performance_of [sample_task]) 0)"
  using supervision_report_partitions[OF reach2 _ refl, of "[sample_task]" 0] by simp

definition done_task :: task where
  "done_task = sample_task\<lparr>tk_status := COMPLETED, tk_completed := Some 0,
     tk_fields := sample_task_fields\<lparr>tf_progress := 100, tf_delivered := Some (shanghaiDate 0)\<rparr>, tk_version := 2\<rparr>"

lemma run3: "\<exists>db. run_sv sv_sample_env sv_admin (CompleteTask ''t1'' ''r1'' done_body) sv_db2 = Inr db \<and> done_task \<in> set (sv_tasks db) \<and> sv_projects db = [sample_project] \<and> sv_tasks db = [done_task]"
  by (simp add: completeTask_def sample_bodies admin_may ensure_def assertAttachmentTenant_def insert_progress_def lockTask_def find_task_def
      sample_task_def assertVersion_def js_number_opt_def body_attachments_def nullish_def Let_def save_task_def done_task_def)
    (simp add: sample_task_fields_def)

lemma run4:
  assumes "sv_projects db = [sample_project]" and "sv_tasks db = [done_task]"
  shows "\<exists>db'. run_sv sv_sample_env sv_admin (CompleteProject ''p1'' done_body) db = Inr db' \<and> (\<exists>p \<in> set (sv_projects db'). pj_status p = COMPLETED)"
proof -
  have d: "tk_tenant done_task = ''T''" "tf_project (tk_fields done_task) = ''p1''" "tk_status done_task = COMPLETED"
    by (simp_all add: done_task_def sample_task_def sample_task_fields_def)
  show ?thesis
    by (simp add: completeProject_def sample_bodies admin_may ensure_def lockProject_def find_project_def assms d sample_project_def
        assertVersion_def js_number_opt_def Let_def save_project_def)
qed

theorem supervision_ended_is_final_witness:
  "\<exists>db db'. run_sv sv_sample_env sv_admin (CompleteProject ''p1'' done_body) db = Inr db' \<and> done_task \<in> set (sv_tasks db') \<and>
    (\<exists>p \<in> set (sv_projects db'). pj_status p = COMPLETED \<and> (\<exists>t \<in> set (sv_tasks db'). of_project p t \<and> tk_status t = COMPLETED))"
proof -
  obtain db where db: "run_sv sv_sample_env sv_admin (CompleteTask ''t1'' ''r1'' done_body) sv_db2 = Inr db"
    "sv_projects db = [sample_project]" "sv_tasks db = [done_task]" using run3 by blast
  have r: "sv_reach db" by (rule sv_reach.command[OF reach2 db(1)])
  obtain db' where db': "run_sv sv_sample_env sv_admin (CompleteProject ''p1'' done_body) db = Inr db'"
    "\<exists>p \<in> set (sv_projects db'). pj_status p = COMPLETED" using run4[OF db(2,3)] by blast
  have "done_task \<in> set (sv_tasks db)" "ended (tk_status done_task)" by (simp_all add: db(3) done_task_def ended_def)
  then show ?thesis using supervision_ended_is_final[OF r db'(1)] db' by blast
qed

end
