(* ===== verification/SyncRunner.thy ===== *)
theory SyncRunner
  imports JsValues "HOL-Library.Product_Lexorder"
begin

text \<open>
  \<open>master-plan.sync-runner.ts\<close>: the workers that run the synchronisation tasks of the master plan.  A worker
  takes a group of events of one task and scope from the outbox, claims the task (one lease and one version
  per task and per log row), runs the task and writes the outcome in one transaction, and otherwise records
  the failure.  Every database transaction is one function on the tables.  A \<open>sync_tx\<close> holds what such a
  transaction finds around it: the clock, the rows other transactions hold locked (which \<open>SKIP LOCKED\<close> skips),
  the identifiers the database makes up, and whether it fails: rolled back with an error (a statement timeout, a
  lost connection), or committed while the answer is lost.  The task itself (\<open>MasterPlanSyncService.execute\<close>) is
  a parameter; instants are milliseconds.
\<close>

section \<open>Types and rows\<close>

datatype sync_error =
    SyncBusy                    \<comment> \<open>the conflict whose message says that the task is running\<close>
  | SyncConflict string
  | SyncLeaseLost
  | SyncSqlState string
  | SyncFailure string

datatype run_type = SCHEDULED | MANUAL | EVENT | RECONCILIATION
datatype sync_status = IDLE | PENDING | RUNNING | SUCCESS | FAILED | DISABLED
datatype outcome_status = OutcomeSuccess | OutcomeSkipped | OutcomeBlocked | OutcomeDisabled
datatype sync_scope = BasePlans "string list" | ExecutionOf string string

record sync_outcome =
  so_count :: "rat option"
  so_metrics :: "(string \<times> rat) list option"
  so_status :: "string option"
  so_skipped :: bool

record verified_outcome =
  vo_count :: int
  vo_metrics :: "(string \<times> rat) list option"
  vo_status :: outcome_status

record sync_result =
  sr_key :: string
  sr_status :: outcome_status
  sr_count :: int
  sr_repeated :: bool
  sr_metrics :: "(string \<times> rat) list option"

record sync_config =
  sc_id :: string
  sc_tenant :: string
  sc_key :: string
  sc_enabled :: bool
  sc_interval :: nat
  sc_status :: sync_status
  sc_started :: "int option"
  sc_succeeded :: "int option"
  sc_failed :: "int option"
  sc_count :: int
  sc_error :: "string option"
  sc_lease :: "int option"
  sc_version :: nat

record sync_log =
  sl_id :: string
  sl_tenant :: string
  sl_config :: string
  sl_key :: string
  sl_type :: run_type
  sl_status :: sync_status
  sl_started :: int
  sl_completed :: "int option"
  sl_count :: int
  sl_metrics :: "(string \<times> rat) list option"
  sl_error :: "string option"
  sl_idem :: string
  sl_lease :: "int option"
  sl_attempts :: nat
  sl_scope :: "sync_scope option"
  sl_version :: nat

record sync_event =
  ob_id :: string
  ob_tenant :: string
  ob_key :: string
  ob_scope :: "json option"
  ob_idem :: string
  ob_actor :: string
  ob_name :: string
  ob_status :: sync_status
  ob_attempts :: nat
  ob_next :: int
  ob_error :: "string option"
  ob_completed :: "int option"
  ob_lease :: "int option"
  ob_created :: int
  ob_version :: nat

text \<open>An audit row without its JSON images; an active data exception of a task.\<close>

record sync_audit_row =
  sa_log :: string
  sa_action :: string

record 'b sync_db =
  sd_configs :: "sync_config list"
  sd_logs :: "sync_log list"
  sd_outbox :: "sync_event list"
  sd_exceptions :: "((string \<times> string) \<times> string option) list"
  sd_audit :: "sync_audit_row list"
  sd_data :: 'b

record sync_claim =
  cl_tenant :: string
  cl_key :: string
  cl_config :: string
  cl_version :: nat
  cl_actor :: string
  cl_name :: string
  cl_logs :: "sync_log list"
  cl_events :: "sync_event list"
  cl_disabled :: bool

datatype claim_answer = Repeated sync_result | Claimed sync_claim

datatype fault = NoFault | RolledBack sync_error | AnswerLost sync_error

record sync_tx =
  tx_now :: int
  tx_end :: int
  tx_locked :: "string list"
  tx_ids :: "string \<Rightarrow> string"
  tx_fault :: fault

text \<open>What a task does: it may fail, and it may put new events in the outbox.\<close>

record outbox_entry =
  ne_id :: string
  ne_key :: string
  ne_scope :: "json option"
  ne_idem :: string
  ne_actor :: string
  ne_name :: string

type_synonym 'b executor =
  "string \<Rightarrow> string \<Rightarrow> string \<Rightarrow> string \<Rightarrow> sync_scope option \<Rightarrow> 'b \<Rightarrow> sync_error + (sync_outcome option \<times> outbox_entry list \<times> 'b)"

section \<open>Scopes and messages\<close>

definition lower_letter :: "char \<Rightarrow> char" where
  "lower_letter c = (let n = (of_char c :: nat) in if 65 \<le> n \<and> n \<le> 90 then char_of (n + 32) else c)"

text \<open>The pattern of an identifier: version 1 to 8, variant 8, 9, a or b, letters of either case.\<close>

definition plan_id :: "string \<Rightarrow> bool" where
  "plan_id s \<longleftrightarrow> list_all2 (\<lambda>p c. if p = CHR ''x'' then c \<in> set ''0123456789abcdef''
      else if p = CHR ''v'' then c \<in> set ''12345678'' else if p = CHR ''n'' then c \<in> set ''89ab'' else c = p)
    ''xxxxxxxx-xxxx-vxxx-nxxx-xxxxxxxxxxxx'' (map lower_letter s)"

definition json_strings :: "json list \<Rightarrow> string list option" where
  "json_strings xs = those (map (\<lambda>x. case x of JStr s \<Rightarrow> Some s | _ \<Rightarrow> None) xs)"

definition base_plan_ids :: "json option \<Rightarrow> string list option" where
  "base_plan_ids v =
     (case v of
        Some (JArr xs) \<Rightarrow>
          (if xs = [] \<or> 100 < length xs then None
           else case json_strings xs of Some ids \<Rightarrow> if list_all plan_id ids then Some ids else None | None \<Rightarrow> None)
      | _ \<Rightarrow> None)"

text \<open>\<open>scope\<close>: no scope, the scope of the task, or an error; never the whole tenant instead.\<close>

definition sync_scope_of :: "string \<Rightarrow> json option \<Rightarrow> sync_error + sync_scope option" where
  "sync_scope_of key value =
     (if nullish value then Inr None
      else
        let member = (\<lambda>k. case value of Some (JObj kvs) \<Rightarrow> jget kvs k | _ \<Rightarrow> None) in
        case (key = ''base-to-weekly'', base_plan_ids (member ''basePlanIds'')) of
          (True, Some ids) \<Rightarrow> Inr (Some (BasePlans (sort (js_dedup ids))))
        | _ \<Rightarrow>
          (case (key = ''execution-rollup'', member ''weeklyPlanId'', member ''processCode'') of
             (True, Some (JStr w), Some (JStr p)) \<Rightarrow> Inr (Some (ExecutionOf w p))
           | _ \<Rightarrow> Inl (SyncConflict ''invalid scope'')))"

fun scope_json :: "sync_scope \<Rightarrow> json" where
  "scope_json (BasePlans ids) = JObj [(''basePlanIds'', JArr (map JStr ids))]"
| "scope_json (ExecutionOf w p) = JObj [(''weeklyPlanId'', JStr w), (''processCode'', JStr p)]"

fun sameScope :: "sync_scope option \<Rightarrow> sync_scope option \<Rightarrow> bool" where
  "sameScope (Some (BasePlans xs)) (Some (BasePlans ys)) = (sort xs = sort ys)"
| "sameScope (Some (BasePlans xs)) _ = False"
| "sameScope _ (Some (BasePlans ys)) = False"
| "sameScope a b = (a = b)"

text \<open>\<open>errorText\<close>: messages are cut, and what follows \<open>token=\<close>, \<open>secret=\<close> or \<open>password=\<close> is removed.\<close>

definition secret_word :: "string \<Rightarrow> string option" where
  "secret_word s = find (\<lambda>w. map lower_letter (take (length w) s) = w) [''token='', ''secret='', ''password='']"

function redacted :: "string \<Rightarrow> string" where
  "redacted [] = []"
| "redacted (c # cs) =
     (case secret_word (c # cs) of
        Some w \<Rightarrow>
          (let rest = drop (length w) (c # cs) in
           if rest \<noteq> [] \<and> \<not> js_space (hd rest) then take (length w - 1) (c # cs) @ ''=[redacted]'' @ redacted (dropWhile (\<lambda>d. \<not> js_space d) rest)
           else c # redacted cs)
      | None \<Rightarrow> c # redacted cs)"
  by pat_completeness auto

lemma secret_word_length: "secret_word s = Some w \<Longrightarrow> 0 < length w"
  unfolding secret_word_def by (drule find_Some_mem) auto

termination redacted
proof (relation "measure length")
  fix c cs w rest
  assume w: "secret_word (c # cs) = Some w" and r: "rest = drop (length w) (c # cs)"
  have "length (dropWhile (\<lambda>d. \<not> js_space d) rest) \<le> length rest" by (rule length_dropWhile_le)
  also have "length rest < length (c # cs)" using secret_word_length[OF w] unfolding r by simp
  finally show "(dropWhile (\<lambda>d. \<not> js_space d) rest, c # cs) \<in> measure length" by simp
qed simp_all

definition sql_state :: "string \<Rightarrow> bool" where
  "sql_state c \<longleftrightarrow> length c = 5 \<and> list_all (\<lambda>x. x \<in> set ''0123456789ABCDEFGHIJKLMNOPQRSTUVWXYZ'') c"

definition errorText :: "sync_error \<Rightarrow> string" where
  "errorText e =
     (case e of
        SyncSqlState c \<Rightarrow> if sql_state c then ''transaction failed (SQLSTATE '' @ c @ '')'' else take 4000 (redacted c)
      | SyncBusy \<Rightarrow> ''the task is running''
      | SyncLeaseLost \<Rightarrow> ''the lease is lost''
      | SyncConflict m \<Rightarrow> take 4000 (redacted m)
      | SyncFailure m \<Rightarrow> take 4000 (redacted m))"

section \<open>Transactions\<close>

definition transact :: "sync_tx \<Rightarrow> (sync_tx \<Rightarrow> 'd \<Rightarrow> sync_error + 'a \<times> 'd) \<Rightarrow> 'd \<Rightarrow> (sync_error + 'a) \<times> 'd" where
  "transact tx f db =
     (case (tx_fault tx, f tx db) of
        (RolledBack e, _) \<Rightarrow> (Inl e, db)
      | (_, Inl e) \<Rightarrow> (Inl e, db)
      | (NoFault, Inr (x, db')) \<Rightarrow> (Inr x, db')
      | (AnswerLost e, Inr (x, db')) \<Rightarrow> (Inl e, db'))"

definition assure :: "bool \<Rightarrow> sync_error \<Rightarrow> sync_error + unit" where
  "assure b e = (if b then Inr () else Inl e)"

lemma assure_Inr [simp, err_simps]: "assure b e = Inr u \<longleftrightarrow> b"
  by (simp add: assure_def)

definition lease_ended :: "int \<Rightarrow> int option \<Rightarrow> bool" where
  "lease_ended now lease = (case lease of Some t \<Rightarrow> t \<le> now | None \<Rightarrow> False)"

definition lease_runs :: "int \<Rightarrow> int option \<Rightarrow> bool" where
  "lease_runs now lease = (case lease of Some t \<Rightarrow> now < t | None \<Rightarrow> False)"

definition sync_audit :: "string \<Rightarrow> string \<Rightarrow> 'b sync_db \<Rightarrow> 'b sync_db" where
  "sync_audit i action db = db\<lparr>sd_audit := sd_audit db @ [\<lparr>sa_log = i, sa_action = action\<rparr>]\<rparr>"

text \<open>\<open>dueConfigurations\<close>: the enabled tasks whose interval is over or whose run was abandoned.\<close>

definition dueConfigurations :: "string \<Rightarrow> int \<Rightarrow> 'b sync_db \<Rightarrow> string list" where
  "dueConfigurations tenant now db =
     sort (map sc_key (filter (\<lambda>c. sc_tenant c = tenant \<and> sc_enabled c \<and>
        (sc_status c \<noteq> RUNNING \<and> (case sc_started c of None \<Rightarrow> True | Some t \<Rightarrow> t + int (sc_interval c) * 60000 \<le> now) \<or>
         sc_status c = RUNNING \<and> lease_ended now (sc_lease c))) (sd_configs db)))"

section \<open>The outbox\<close>

definition eligible :: "int \<Rightarrow> sync_event \<Rightarrow> bool" where
  "eligible now e \<longleftrightarrow> ob_status e \<in> set [PENDING, FAILED] \<and> ob_next e \<le> now \<or> ob_status e = RUNNING \<and> lease_ended now (ob_lease e)"

text \<open>An event that another module or a task puts in the outbox; the unique key refuses a second one silently.\<close>

definition enqueue_event :: "int \<Rightarrow> string \<Rightarrow> outbox_entry \<Rightarrow> 'b sync_db \<Rightarrow> 'b sync_db" where
  "enqueue_event now tenant n db =
     (if list_ex (\<lambda>e. ob_tenant e = tenant \<and> ob_idem e = ne_idem n \<or> ob_id e = ne_id n) (sd_outbox db) then db
      else db\<lparr>sd_outbox := sd_outbox db @
        [\<lparr>ob_id = ne_id n, ob_tenant = tenant, ob_key = ne_key n, ob_scope = ne_scope n, ob_idem = ne_idem n, ob_actor = ne_actor n,
          ob_name = ne_name n, ob_status = PENDING, ob_attempts = 0, ob_next = now, ob_error = None, ob_completed = None,
          ob_lease = None, ob_created = now, ob_version = 1\<rparr>]\<rparr>)"

definition same_group :: "sync_event \<Rightarrow> sync_event \<Rightarrow> bool" where
  "same_group a b \<longleftrightarrow> ob_key a = ob_key b \<and> coalesce (ob_scope a) JNull = coalesce (ob_scope b) JNull"

definition taken_event :: "int \<Rightarrow> int \<Rightarrow> sync_event \<Rightarrow> sync_event" where
  "taken_event now leaseMs e = e\<lparr>ob_status := RUNNING, ob_attempts := ob_attempts e + 1, ob_lease := Some (now + leaseMs),
     ob_completed := None, ob_version := ob_version e + 1\<rparr>"

definition open_for :: "sync_tx \<Rightarrow> string \<Rightarrow> string list \<Rightarrow> sync_event \<Rightarrow> bool" where
  "open_for tx tenant excl e \<longleftrightarrow> ob_tenant e = tenant \<and> ob_id e \<notin> set excl \<and> eligible (tx_now tx) e \<and> ob_id e \<notin> set (tx_locked tx)"

definition claimEvents :: "int \<Rightarrow> string \<Rightarrow> nat \<Rightarrow> string list \<Rightarrow> sync_tx \<Rightarrow> 'b sync_db \<Rightarrow> sync_error + sync_event list \<times> 'b sync_db" where
  "claimEvents leaseMs tenant limit exclude tx db =
     (let open_events = sort_key (\<lambda>e. (ob_created e, ob_id e))
        (filter (open_for tx tenant exclude) (sd_outbox db))
      in case open_events of
           [] \<Rightarrow> Inr ([], db)
         | first # _ \<Rightarrow>
             (let ids = map ob_id (take limit (filter (same_group first) open_events));
                  outbox = map (\<lambda>e. if ob_id e \<in> set ids then taken_event (tx_now tx) leaseMs e else e) (sd_outbox db)
              in Inr (filter (\<lambda>e. ob_id e \<in> set ids) outbox, db\<lparr>sd_outbox := outbox\<rparr>)))"

definition owns_event :: "int \<Rightarrow> sync_event \<Rightarrow> sync_event \<Rightarrow> bool" where
  "owns_event now e row \<longleftrightarrow> ob_tenant row = ob_tenant e \<and> ob_id row = ob_id e \<and> ob_version row = ob_version e \<and>
     ob_status row = RUNNING \<and> lease_runs now (ob_lease row)"

definition lockEvents :: "int \<Rightarrow> sync_event list \<Rightarrow> 'b sync_db \<Rightarrow> sync_error + unit" where
  "lockEvents now events db = assure (list_all (\<lambda>e. list_ex (owns_event now e) (sd_outbox db)) events) SyncLeaseLost"

definition retry_delay :: "nat \<Rightarrow> int" where
  "retry_delay attempts = int (min attempts 30) * 60000"

definition finished_event :: "int \<Rightarrow> bool \<Rightarrow> string option \<Rightarrow> sync_event \<Rightarrow> sync_event" where
  "finished_event now success err row = row\<lparr>ob_status := (if success then SUCCESS else FAILED), ob_error := err,
     ob_completed := (if success then Some now else None), ob_next := now + retry_delay (ob_attempts row), ob_lease := None,
     ob_version := ob_version row + 1\<rparr>"

definition finishEvents :: "int \<Rightarrow> sync_event list \<Rightarrow> bool \<Rightarrow> string option \<Rightarrow> 'b sync_db \<Rightarrow> sync_error + 'b sync_db" where
  "finishEvents now events success err db =
     bindE (lockEvents now events db) (\<lambda>_.
       Inr (db\<lparr>sd_outbox := map (\<lambda>row. if list_ex (\<lambda>e. owns_event now e row) events then finished_event now success err row else row) (sd_outbox db)\<rparr>))"

definition put_back_event :: "int \<Rightarrow> bool \<Rightarrow> string \<Rightarrow> sync_event \<Rightarrow> sync_event" where
  "put_back_event now busy err row = row\<lparr>ob_status := (if busy then PENDING else FAILED), ob_error := (if busy then None else Some err),
     ob_lease := None, ob_next := now + (if busy then 5000 else retry_delay (ob_attempts row)), ob_version := ob_version row + 1\<rparr>"

definition failEvents :: "sync_event list \<Rightarrow> string \<Rightarrow> bool \<Rightarrow> sync_tx \<Rightarrow> 'b sync_db \<Rightarrow> sync_error + unit \<times> 'b sync_db" where
  "failEvents events err busy tx db =
     Inr ((), db\<lparr>sd_outbox := map (\<lambda>row. if list_ex (\<lambda>e. owns_event (tx_now tx) e row) events
        then put_back_event (tx_now tx) busy err row else row) (sd_outbox db)\<rparr>)"

section \<open>Claiming a task\<close>

definition expired_log :: "int \<Rightarrow> sync_log \<Rightarrow> sync_log" where
  "expired_log now l = l\<lparr>sl_status := FAILED, sl_error := Some ''LEASE_EXPIRED'', sl_completed := Some now, sl_lease := None, sl_version := sl_version l + 1\<rparr>"

definition abandoned :: "int \<Rightarrow> string \<Rightarrow> string \<Rightarrow> sync_log \<Rightarrow> bool" where
  "abandoned now tenant key l \<longleftrightarrow> sl_tenant l = tenant \<and> sl_key l = key \<and> sl_status l = RUNNING \<and> lease_ended now (sl_lease l)"

definition expireLogs :: "int \<Rightarrow> string \<Rightarrow> string \<Rightarrow> 'b sync_db \<Rightarrow> 'b sync_db" where
  "expireLogs now tenant key db =
     (let ended = filter (abandoned now tenant key) (sd_logs db);
          db' = db\<lparr>sd_logs := map (\<lambda>l. if abandoned now tenant key l then expired_log now l else l) (sd_logs db)\<rparr>
      in foldl (\<lambda>d l. sync_audit (sl_id l) ''lease_expired'' d) db' ended)"

definition check_log :: "string \<Rightarrow> sync_scope option \<Rightarrow> sync_log \<Rightarrow> sync_error + unit" where
  "check_log key scope l =
     (if sl_key l \<noteq> key \<or> 0 < sl_attempts l \<and> \<not> sameScope (sl_scope l) scope then Inl (SyncConflict ''the key belongs to another task or scope'')
      else if sl_status l = RUNNING then Inl (if sl_lease l = None then SyncConflict ''RUNNING log without a lease'' else SyncBusy)
      else assure (\<not> (sl_status l = SUCCESS \<and> sl_attempts l = 0)) (SyncConflict ''unverified SUCCESS''))"

text \<open>A success that this version of the runner has verified.\<close>

definition succeeded :: "sync_log \<Rightarrow> bool" where
  "succeeded l \<longleftrightarrow> sl_status l = SUCCESS \<and> 0 < sl_attempts l"

definition restarted_log :: "int \<Rightarrow> int \<Rightarrow> sync_scope option \<Rightarrow> sync_log \<Rightarrow> sync_log" where
  "restarted_log now leaseMs scope l = l\<lparr>sl_status := RUNNING, sl_started := now, sl_completed := None, sl_error := None, sl_count := 0,
     sl_metrics := None, sl_lease := Some (now + leaseMs), sl_attempts := sl_attempts l + 1, sl_scope := scope, sl_version := sl_version l + 1\<rparr>"

definition new_log :: "int \<Rightarrow> int \<Rightarrow> string \<Rightarrow> string \<Rightarrow> string \<Rightarrow> string \<Rightarrow> run_type \<Rightarrow> sync_scope option \<Rightarrow> string \<Rightarrow> sync_log" where
  "new_log now leaseMs i tenant config key type scope identity =
     \<lparr>sl_id = i, sl_tenant = tenant, sl_config = config, sl_key = key, sl_type = type, sl_status = RUNNING, sl_started = now,
      sl_completed = None, sl_count = 0, sl_metrics = None, sl_error = None, sl_idem = identity, sl_lease = Some (now + leaseMs),
      sl_attempts = 1, sl_scope = scope, sl_version = 1\<rparr>"

text \<open>\<open>INSERT ... ON CONFLICT DO UPDATE ... WHERE status='FAILED'\<close> and the audit row of the attempt.\<close>

definition start_log :: "int \<Rightarrow> sync_tx \<Rightarrow> string \<Rightarrow> string \<Rightarrow> string \<Rightarrow> run_type \<Rightarrow> sync_scope option \<Rightarrow> string \<Rightarrow> 'b sync_db \<Rightarrow> sync_error + sync_log \<times> 'b sync_db" where
  "start_log leaseMs tx tenant config key type scope identity db =
     (let now = tx_now tx in
      case find (\<lambda>l. sl_tenant l = tenant \<and> sl_idem l = identity) (sd_logs db) of
        None \<Rightarrow>
          (let l = new_log now leaseMs (tx_ids tx identity) tenant config key type scope identity in
           if tx_ids tx identity \<in> set (map sl_id (sd_logs db)) then Inl (SyncSqlState ''23505'')
           else Inr (l, sync_audit (sl_id l) ''attempt_started'' (db\<lparr>sd_logs := sd_logs db @ [l]\<rparr>)))
      | Some old \<Rightarrow>
          if sl_status old \<noteq> FAILED then Inl SyncLeaseLost
          else (let l = restarted_log now leaseMs scope old in
                Inr (l, sync_audit (sl_id l) ''attempt_started'' (db\<lparr>sd_logs := map (\<lambda>r. if sl_id r = sl_id l then l else r) (sd_logs db)\<rparr>))))"

fun start_logs :: "int \<Rightarrow> sync_tx \<Rightarrow> string \<Rightarrow> string \<Rightarrow> string \<Rightarrow> run_type \<Rightarrow> sync_scope option \<Rightarrow> sync_log list \<Rightarrow> string list \<Rightarrow> 'b sync_db \<Rightarrow> sync_error + sync_log list \<times> 'b sync_db" where
  "start_logs leaseMs tx tenant config key type scope logs [] db = Inr ([], db)"
| "start_logs leaseMs tx tenant config key type scope logs (identity # keys) db =
     (if list_ex (\<lambda>l. sl_idem l = identity \<and> sl_status l = SUCCESS) logs then start_logs leaseMs tx tenant config key type scope logs keys db
      else bindE (start_log leaseMs tx tenant config key type scope identity db) (\<lambda>(l, db1).
           bindE (start_logs leaseMs tx tenant config key type scope logs keys db1) (\<lambda>(active, db2). Inr (l # active, db2))))"

definition started_config :: "int \<Rightarrow> int \<Rightarrow> sync_config \<Rightarrow> sync_config" where
  "started_config now leaseMs c = c\<lparr>sc_status := RUNNING, sc_started := Some now, sc_lease := Some (now + leaseMs), sc_error := None, sc_version := sc_version c + 1\<rparr>"

definition extend_events :: "int \<Rightarrow> int \<Rightarrow> sync_event list \<Rightarrow> 'b sync_db \<Rightarrow> 'b sync_db" where
  "extend_events now leaseMs events db =
     db\<lparr>sd_outbox := map (\<lambda>row. if list_ex (\<lambda>e. ob_tenant row = ob_tenant e \<and> ob_id row = ob_id e \<and> ob_version row = ob_version e) events
        then row\<lparr>ob_lease := Some (now + leaseMs)\<rparr> else row) (sd_outbox db)\<rparr>"

definition find_config :: "string \<Rightarrow> string \<Rightarrow> 'b sync_db \<Rightarrow> sync_config option" where
  "find_config tenant key db = find (\<lambda>c. sc_tenant c = tenant \<and> sc_key c = key) (sd_configs db)"

definition claimTask :: "int \<Rightarrow> string \<Rightarrow> string \<Rightarrow> run_type \<Rightarrow> string \<Rightarrow> string \<Rightarrow> string \<Rightarrow> sync_scope option \<Rightarrow> sync_event list \<Rightarrow>
    sync_tx \<Rightarrow> 'b sync_db \<Rightarrow> sync_error + claim_answer \<times> 'b sync_db" where
  "claimTask leaseMs tenant key type actor name idem scope events tx db =
     (let now = tx_now tx in
      case find_config tenant key db of
        None \<Rightarrow> Inl (SyncConflict ''no such task'')
      | Some c \<Rightarrow>
          bindE (assure (sc_id c \<notin> set (tx_locked tx)) SyncBusy) (\<lambda>_.
          bindE (assure (sc_status c \<noteq> RUNNING \<or> sc_lease c \<noteq> None) (SyncConflict ''RUNNING without a lease'')) (\<lambda>_.
          bindE (assure (\<not> (sc_status c = RUNNING \<and> lease_runs now (sc_lease c))) SyncBusy) (\<lambda>_.
          let db1 = expireLogs now tenant key db;
              keys = (if events = [] then [idem] else map ob_idem events);
              logs = sort_key sl_id (filter (\<lambda>l. sl_tenant l = tenant \<and> sl_idem l \<in> set keys) (sd_logs db1))
          in bindE (mapE (check_log key scope) logs) (\<lambda>_.
             if length logs = length keys \<and> list_all succeeded logs then
               bindE (finishEvents now events True None db1) (\<lambda>db2.
                 Inr (Repeated \<lparr>sr_key = key, sr_status = OutcomeSuccess, sr_count = sl_count (hd logs), sr_repeated = True,
                   sr_metrics = sl_metrics (hd logs)\<rparr>, db2))
             else
               let c' = started_config now leaseMs c;
                   db2 = db1\<lparr>sd_configs := map (\<lambda>d. if sc_id d = sc_id c then c' else d) (sd_configs db1)\<rparr>
               in bindE (start_logs leaseMs tx tenant (sc_id c) key type scope logs keys db2) (\<lambda>(active, db3).
                  bindE (lockEvents now events db3) (\<lambda>_.
                    Inr (Claimed \<lparr>cl_tenant = tenant, cl_key = key, cl_config = sc_id c, cl_version = sc_version c', cl_actor = actor,
                           cl_name = name, cl_logs = active, cl_events = events, cl_disabled = (\<not> sc_enabled c \<and> type \<noteq> MANUAL)\<rparr>,
                         extend_events now leaseMs events db3))))))))"

section \<open>Running a task\<close>

definition owns_config :: "int \<Rightarrow> sync_claim \<Rightarrow> sync_config \<Rightarrow> bool" where
  "owns_config now c row \<longleftrightarrow> sc_tenant row = cl_tenant c \<and> sc_id row = cl_config c \<and> sc_version row = cl_version c \<and>
     sc_status row = RUNNING \<and> lease_runs now (sc_lease row)"

definition owns_log :: "int \<Rightarrow> sync_claim \<Rightarrow> sync_log \<Rightarrow> sync_log \<Rightarrow> bool" where
  "owns_log now c l row \<longleftrightarrow> sl_tenant row = cl_tenant c \<and> sl_id row = sl_id l \<and> sl_version row = sl_version l \<and>
     sl_status row = RUNNING \<and> lease_runs now (sl_lease row)"

definition lockOwned :: "int \<Rightarrow> sync_tx \<Rightarrow> sync_claim \<Rightarrow> 'b sync_db \<Rightarrow> sync_error + unit" where
  "lockOwned now tx c db =
     bindE (assure (list_ex (\<lambda>row. owns_config now c row \<and> sc_id row \<notin> set (tx_locked tx)) (sd_configs db)) SyncLeaseLost) (\<lambda>_.
     bindE (assure (list_all (\<lambda>l. list_ex (owns_log now c l) (sd_logs db)) (cl_logs c)) SyncLeaseLost) (\<lambda>_.
       lockEvents now (cl_events c) db))"

definition outcome_word :: "string \<Rightarrow> outcome_status option" where
  "outcome_word s = map_of [(''SUCCESS'', OutcomeSuccess), (''BLOCKED'', OutcomeBlocked), (''SKIPPED'', OutcomeSkipped), (''DISABLED'', OutcomeDisabled)] s"

definition metric_positive :: "(string \<times> rat) list option \<Rightarrow> string \<Rightarrow> bool" where
  "metric_positive metrics k = (case metrics of Some ms \<Rightarrow> (case map_of ms k of Some n \<Rightarrow> 0 < n | None \<Rightarrow> False) | None \<Rightarrow> False)"

definition verifyOutcome :: "string \<Rightarrow> sync_outcome option \<Rightarrow> sync_error + verified_outcome" where
  "verifyOutcome key value =
     (case value of
        None \<Rightarrow> Inl (SyncFailure ''invalid count'')
      | Some v \<Rightarrow>
         (case so_count v of
            None \<Rightarrow> Inl (SyncFailure ''invalid count'')
          | Some n \<Rightarrow>
              if \<not> rat_is_int n \<or> 9007199254740991 < \<bar>n\<bar> \<or> n < 0 then Inl (SyncFailure ''invalid count'')
              else
                let word = (case so_status v of Some s \<Rightarrow> s | None \<Rightarrow> if so_skipped v then ''SKIPPED'' else ''SUCCESS'');
                    blocked = (key = ''plan-projections'' \<and> metric_positive (so_metrics v) ''skipped'' \<or>
                               key = ''shipping-to-base'' \<and> metric_positive (so_metrics v) ''base_conflicts'')
                in case outcome_word word of
                     None \<Rightarrow> Inl (SyncFailure ''unknown status'')
                   | Some status \<Rightarrow>
                       if so_skipped v \<and> status = OutcomeSuccess then Inl (SyncFailure ''skipped but SUCCESS'')
                       else Inr \<lparr>vo_count = \<lfloor>n\<rfloor>, vo_metrics = so_metrics v,
                         vo_status = (if status = OutcomeSuccess \<and> blocked then OutcomeBlocked else status)\<rparr>))"

definition config_status :: "outcome_status \<Rightarrow> sync_status" where
  "config_status out = (case out of OutcomeSuccess \<Rightarrow> SUCCESS | OutcomeDisabled \<Rightarrow> DISABLED | _ \<Rightarrow> FAILED)"

definition finished_config :: "int \<Rightarrow> verified_outcome \<Rightarrow> string option \<Rightarrow> sync_config \<Rightarrow> sync_config" where
  "finished_config now out err row = (let status = config_status (vo_status out) in
     row\<lparr>sc_status := status, sc_count := vo_count out, sc_error := err,
       sc_succeeded := (if status = SUCCESS then Some now else sc_succeeded row), sc_failed := (if status = FAILED then Some now else sc_failed row),
       sc_lease := None, sc_version := sc_version row + 1\<rparr>)"

definition finished_log :: "int \<Rightarrow> verified_outcome \<Rightarrow> string option \<Rightarrow> sync_log \<Rightarrow> sync_log" where
  "finished_log now out err row = row\<lparr>sl_status := (if vo_status out = OutcomeSuccess then SUCCESS else FAILED), sl_completed := Some now,
     sl_count := vo_count out, sl_metrics := vo_metrics out, sl_error := err, sl_lease := None, sl_version := sl_version row + 1\<rparr>"

fun finish_logs :: "int \<Rightarrow> sync_claim \<Rightarrow> verified_outcome \<Rightarrow> string option \<Rightarrow> sync_log list \<Rightarrow> 'b sync_db \<Rightarrow> sync_error + 'b sync_db" where
  "finish_logs now c out err [] db = Inr db"
| "finish_logs now c out err (l # ls) db =
     bindE (assure (list_ex (owns_log now c l) (sd_logs db)) SyncLeaseLost) (\<lambda>_.
       finish_logs now c out err ls (sync_audit (sl_id l) ''attempt_finished''
         (db\<lparr>sd_logs := map (\<lambda>row. if owns_log now c l row then finished_log now out err row else row) (sd_logs db)\<rparr>)))"

definition status_word :: "outcome_status \<Rightarrow> string" where
  "status_word out = (case out of OutcomeSuccess \<Rightarrow> ''SUCCESS'' | OutcomeBlocked \<Rightarrow> ''BLOCKED'' | OutcomeSkipped \<Rightarrow> ''SKIPPED'' | OutcomeDisabled \<Rightarrow> ''DISABLED'')"

definition finish_error :: "verified_outcome \<Rightarrow> string option \<Rightarrow> string option" where
  "finish_error out failure = (case failure of Some m \<Rightarrow> Some m
     | None \<Rightarrow> if vo_status out = OutcomeSuccess then None else Some (''not fully successful: '' @ status_word (vo_status out)))"

definition raise_exception :: "sync_claim \<Rightarrow> string option \<Rightarrow> 'b sync_db \<Rightarrow> 'b sync_db" where
  "raise_exception c err db = db\<lparr>sd_exceptions := ((cl_tenant c, cl_key c), err) # filter (\<lambda>(k, m). k \<noteq> (cl_tenant c, cl_key c)) (sd_exceptions db)\<rparr>"

definition finishRun :: "int \<Rightarrow> sync_claim \<Rightarrow> verified_outcome \<Rightarrow> string option \<Rightarrow> 'b sync_db \<Rightarrow> sync_error + 'b sync_db" where
  "finishRun now c out failure db =
     (let success = (vo_status out = OutcomeSuccess); err = finish_error out failure in
      bindE (assure (list_ex (owns_config now c) (sd_configs db)) SyncLeaseLost) (\<lambda>_.
      bindE (finish_logs now c out err (cl_logs c)
        (db\<lparr>sd_configs := map (\<lambda>row. if owns_config now c row then finished_config now out err row else row) (sd_configs db)\<rparr>)) (\<lambda>db1.
      bindE (finishEvents now (cl_events c) success err db1) (\<lambda>db2.
        Inr (if \<not> success \<and> vo_status out \<noteq> OutcomeDisabled then raise_exception c err db2 else db2)))))"

text \<open>The transaction that does the work: it starts at \<open>tx_now\<close> and writes its outcome at \<open>tx_end\<close>.\<close>

definition executeTask :: "'b executor \<Rightarrow> sync_claim \<Rightarrow> sync_scope option \<Rightarrow> sync_tx \<Rightarrow> 'b sync_db \<Rightarrow> sync_error + sync_result \<times> 'b sync_db" where
  "executeTask exec c scope tx db =
     bindE (lockOwned (tx_now tx) tx c db) (\<lambda>_.
     bindE (if cl_disabled c then Inr (Some \<lparr>so_count = Some 0, so_metrics = None, so_status = Some ''DISABLED'', so_skipped = False\<rparr>, [], sd_data db)
            else exec (cl_key c) (cl_tenant c) (cl_actor c) (cl_name c) scope (sd_data db)) (\<lambda>(raw, events, x).
     bindE (verifyOutcome (cl_key c) raw) (\<lambda>out.
     bindE (finishRun (tx_end tx) c out None (foldl (\<lambda>d n. enqueue_event (tx_now tx) (cl_tenant c) n d) (db\<lparr>sd_data := x\<rparr>) events)) (\<lambda>db'.
       Inr (\<lparr>sr_key = cl_key c, sr_status = vo_status out, sr_count = vo_count out, sr_repeated = False, sr_metrics = vo_metrics out\<rparr>, db')))))"

definition recordFailure :: "sync_claim \<Rightarrow> sync_error \<Rightarrow> sync_tx \<Rightarrow> 'b sync_db \<Rightarrow> sync_error + unit \<times> 'b sync_db" where
  "recordFailure c e tx db =
     (if \<not> list_ex (\<lambda>row. owns_config (tx_now tx) c row \<and> sc_id row \<notin> set (tx_locked tx)) (sd_configs db) then Inr ((), db)
      else bindE (finishRun (tx_now tx) c \<lparr>vo_count = 0, vo_metrics = None, vo_status = OutcomeBlocked\<rparr> (Some (errorText e)) db) (\<lambda>db'. Inr ((), db')))"

section \<open>The worker\<close>

text \<open>
  A worker's transactions are numbered.  Before the \<open>n\<close>-th one other workers and users may have changed the tables
  (\<open>sw_others n\<close>), and \<open>sw_tx n\<close> is what it finds.
\<close>

record 'b sync_world =
  sw_lease :: int
  sw_exec :: "'b executor"
  sw_tx :: "nat \<Rightarrow> sync_tx"
  sw_others :: "nat \<Rightarrow> 'b sync_db \<Rightarrow> 'b sync_db"

definition in_tx :: "'b sync_world \<Rightarrow> (sync_tx \<Rightarrow> 'b sync_db \<Rightarrow> sync_error + 'a \<times> 'b sync_db) \<Rightarrow> nat \<times> 'b sync_db \<Rightarrow> (sync_error + 'a) \<times> nat \<times> 'b sync_db" where
  "in_tx w f st = (case transact (sw_tx w (fst st)) f (sw_others w (fst st) (snd st)) of (r, db) \<Rightarrow> (r, Suc (fst st), db))"

definition executed_run :: "'b sync_world \<Rightarrow> sync_claim \<Rightarrow> sync_scope option \<Rightarrow> nat \<times> 'b sync_db \<Rightarrow> (sync_error + sync_result) \<times> nat \<times> 'b sync_db" where
  "executed_run w c scope st =
     (case in_tx w (executeTask (sw_exec w) c scope) st of
        (Inr res, st1) \<Rightarrow> (Inr res, st1)
      | (Inl e, st1) \<Rightarrow>
          (case in_tx w (recordFailure c e) st1 of (Inl e', st2) \<Rightarrow> (Inl e', st2) | (Inr _, st2) \<Rightarrow> (Inl e, st2)))"

definition runSync :: "'b sync_world \<Rightarrow> string \<Rightarrow> string \<Rightarrow> run_type \<Rightarrow> string \<Rightarrow> string \<Rightarrow> string \<Rightarrow> json option \<Rightarrow> sync_event list \<Rightarrow>
    nat \<times> 'b sync_db \<Rightarrow> (sync_error + sync_result) \<times> nat \<times> 'b sync_db" where
  "runSync w tenant key type actor name idem value events st =
     (case sync_scope_of key value of
        Inl e \<Rightarrow> (Inl e, st)
      | Inr scope \<Rightarrow>
          (case in_tx w (claimTask (sw_lease w) tenant key type actor name idem scope events) st of
             (Inl e, st1) \<Rightarrow> (Inl e, st1)
           | (Inr (Repeated res), st1) \<Rightarrow> (Inr res, st1)
           | (Inr (Claimed c), st1) \<Rightarrow> executed_run w c scope st1))"

text \<open>The query that confirms a success: the events are done and their log rows are verified successes.\<close>

definition verified :: "string \<Rightarrow> sync_event list \<Rightarrow> sync_tx \<Rightarrow> 'b sync_db \<Rightarrow> sync_error + nat \<times> 'b sync_db" where
  "verified tenant events tx db =
     Inr (length (concat (map (\<lambda>v. filter (\<lambda>l. sl_tenant l = ob_tenant v \<and> sl_idem l = ob_idem v \<and> sl_key l = ob_key v \<and> succeeded l) (sd_logs db))
            (filter (\<lambda>v. ob_tenant v = tenant \<and> ob_id v \<in> set (map ob_id events) \<and> ob_status v = SUCCESS) (sd_outbox db)))), db)"

text \<open>The body of the \<open>try\<close> block for one group of events, and the block with its handler.\<close>

definition try_group :: "'b sync_world \<Rightarrow> string \<Rightarrow> sync_event \<Rightarrow> sync_event list \<Rightarrow> nat \<times> 'b sync_db \<Rightarrow> (sync_error + unit) \<times> nat \<times> 'b sync_db" where
  "try_group w tenant first events st =
     (case sync_scope_of (ob_key first) (ob_scope first) of
        Inl e \<Rightarrow> (Inl e, st)
      | Inr scope \<Rightarrow>
          (case runSync w tenant (ob_key first) EVENT (ob_actor first) (ob_name first) (ob_idem first) (map_option scope_json scope) events st of
             (Inl e, st1) \<Rightarrow> (Inl e, st1)
           | (Inr res, st1) \<Rightarrow>
               if sr_status res = OutcomeSuccess then
                 (case in_tx w (verified tenant events) st1 of
                    (Inl e, st2) \<Rightarrow> (Inl e, st2)
                  | (Inr n, st2) \<Rightarrow> (if n \<noteq> length events then Inl (SyncFailure ''not verified'') else Inr (), st2))
               else in_tx w (failEvents events (''not fully successful: '' @ status_word (sr_status res)) False) st1))"

definition busy_error :: "sync_error \<Rightarrow> bool" where
  "busy_error e \<longleftrightarrow> e = SyncBusy \<or> e = SyncSqlState ''55P03''"

definition do_group :: "'b sync_world \<Rightarrow> string \<Rightarrow> sync_event \<Rightarrow> sync_event list \<Rightarrow> nat \<times> 'b sync_db \<Rightarrow> (sync_error + unit) \<times> nat \<times> 'b sync_db" where
  "do_group w tenant first events st =
     (case try_group w tenant first events st of
        (Inr _, st1) \<Rightarrow> (Inr (), st1)
      | (Inl e, st1) \<Rightarrow> in_tx w (failEvents events (errorText e) (busy_error e)) st1)"

text \<open>\<open>processOutbox\<close>: the loop, with the number of events processed and the identifiers seen.\<close>

function outbox_loop :: "'b sync_world \<Rightarrow> string \<Rightarrow> nat \<Rightarrow> nat \<Rightarrow> string list \<Rightarrow> nat \<times> 'b sync_db \<Rightarrow> (sync_error + nat \<times> string list) \<times> nat \<times> 'b sync_db" where
  "outbox_loop w tenant limit processed seen st =
     (if limit \<le> processed then (Inr (processed, seen), st)
      else case in_tx w (claimEvents (sw_lease w) tenant (limit - processed) seen) st of
        (Inl e, st1) \<Rightarrow> (Inl e, st1)
      | (Inr [], st1) \<Rightarrow> (Inr (processed, seen), st1)
      | (Inr (first # rest), st1) \<Rightarrow>
          (case do_group w tenant first (first # rest) st1 of
             (Inl e, st2) \<Rightarrow> (Inl e, st2)
           | (Inr _, st2) \<Rightarrow> outbox_loop w tenant limit (processed + length (first # rest)) (seen @ map ob_id (first # rest)) st2))"
  by pat_completeness auto

termination outbox_loop
  by (relation "measure (\<lambda>(w, tenant, limit, processed, seen, st). limit - processed)") auto

definition processOutbox :: "'b sync_world \<Rightarrow> string \<Rightarrow> nat \<Rightarrow> nat \<times> 'b sync_db \<Rightarrow> (sync_error + nat) \<times> nat \<times> 'b sync_db" where
  "processOutbox w tenant limit st =
     (case outbox_loop w tenant limit 0 [] st of (Inl e, st') \<Rightarrow> (Inl e, st') | (Inr (n, seen), st') \<Rightarrow> (Inr n, st'))"

text \<open>The tenants with open events, those waiting longest first.\<close>

definition open_tenants :: "sync_tx \<Rightarrow> 'b sync_db \<Rightarrow> sync_error + string list \<times> 'b sync_db" where
  "open_tenants tx db =
     (let events = filter (eligible (tx_now tx)) (sd_outbox db);
          oldest = (\<lambda>t. Min (set (map ob_created (filter (\<lambda>e. ob_tenant e = t) events))))
      in Inr (take 20 (sort_key (\<lambda>t. (oldest t, t)) (js_dedup (map ob_tenant events))), db))"

fun tenants_loop :: "'b sync_world \<Rightarrow> string list \<Rightarrow> nat \<Rightarrow> nat \<times> 'b sync_db \<Rightarrow> (sync_error + nat) \<times> nat \<times> 'b sync_db" where
  "tenants_loop w [] processed st = (Inr processed, st)"
| "tenants_loop w (t # ts) processed st =
     (if 20 \<le> processed then (Inr processed, st)
      else case processOutbox w t (20 - processed) st of
        (Inl e, st1) \<Rightarrow> (Inl e, st1)
      | (Inr n, st1) \<Rightarrow> tenants_loop w ts (processed + n) st1)"

definition processAvailableTenants :: "'b sync_world \<Rightarrow> nat \<times> 'b sync_db \<Rightarrow> (sync_error + nat) \<times> nat \<times> 'b sync_db" where
  "processAvailableTenants w st =
     (case in_tx w open_tenants st of (Inl e, st1) \<Rightarrow> (Inl e, st1) | (Inr ts, st1) \<Rightarrow> tenants_loop w ts 0 st1)"

end
