(* ===== verification/SyncTables.thy ===== *)
theory SyncTables
  imports SyncRunner
begin

text \<open>
  What the synchronisation workers guarantee, however their transactions, failures, lost answers and the edits of
  users interleave: at most one worker holds a task, an event is acknowledged only when its work was committed,
  and no event's work is committed twice.  The system \<open>sync_sys\<close> remembers the groups and claims handed out and,
  to count, which keys had their work committed.
\<close>

section \<open>Versioned tables\<close>

text \<open>The interface of a table whose rows are only changed in place: a key that never changes and a relation
  that every change of a row respects.\<close>

definition rows_step :: "('r \<Rightarrow> 'r \<Rightarrow> bool) \<Rightarrow> 'r list \<Rightarrow> 'r list \<Rightarrow> bool" where
  "rows_step step rs rs' \<longleftrightarrow> (\<forall>r \<in> set rs. \<exists>s \<in> set rs'. step r s)"

locale versioned_table =
  fixes key :: "'r \<Rightarrow> 'k" and step :: "'r \<Rightarrow> 'r \<Rightarrow> bool"
  assumes step_refl: "step r r"
    and step_trans: "step r s \<Longrightarrow> step s t \<Longrightarrow> step r t"
    and step_key: "step r s \<Longrightarrow> key s = key r"
begin

lemma rows_refl: "rows_step step rs rs"
  using step_refl by (auto simp: rows_step_def)

lemma rows_trans: "rows_step step rs ss \<Longrightarrow> rows_step step ss ts \<Longrightarrow> rows_step step rs ts"
  unfolding rows_step_def by (meson step_trans)

lemma rows_append: "rows_step step rs (rs @ xs)"
  using step_refl by (auto simp: rows_step_def)

lemma rows_update:
  assumes "\<And>r. r \<in> set rs \<Longrightarrow> P r \<Longrightarrow> step r (f r)"
  shows "rows_step step rs (map (\<lambda>r. if P r then f r else r) rs)"
proof (unfold rows_step_def, rule ballI)
  fix r assume r: "r \<in> set rs"
  then have "(if P r then f r else r) \<in> set (map (\<lambda>r. if P r then f r else r) rs)" by (simp only: set_map image_eqI)
  moreover have "step r (if P r then f r else r)" using assms[OF r] step_refl by simp
  ultimately show "\<exists>s \<in> set (map (\<lambda>r. if P r then f r else r) rs). step r s" by blast
qed

lemma keys_update: "(\<And>r. r \<in> set rs \<Longrightarrow> P r \<Longrightarrow> step r (f r)) \<Longrightarrow> map key (map (\<lambda>r. if P r then f r else r) rs) = map key rs"
  using step_key by (auto simp: comp_def)

lemma rows_find:
  assumes "rows_step step rs rs'" and "r \<in> set rs" and "s \<in> set rs'" and "key s = key r" and "distinct (map key rs')"
  shows "step r s"
proof -
  obtain t where t: "t \<in> set rs'" "step r t" using assms(1,2) by (auto simp: rows_step_def)
  have "key t = key s" using step_key[OF t(2)] assms(4) by simp
  then have "t = s" using assms(5) t(1) assms(3) by (metis distinct_map inj_onD)
  then show ?thesis using t(2) by simp
qed

end

definition config_key :: "sync_config \<Rightarrow> string \<times> string \<times> string" where
  "config_key c = (sc_id c, sc_tenant c, sc_key c)"

definition log_key :: "sync_log \<Rightarrow> string \<times> string \<times> string \<times> string" where
  "log_key l = (sl_id l, sl_tenant l, sl_idem l, sl_key l)"

definition event_key :: "sync_event \<Rightarrow> string \<times> string \<times> string \<times> string" where
  "event_key e = (ob_id e, ob_tenant e, ob_idem e, ob_key e)"

definition config_step :: "sync_config \<Rightarrow> sync_config \<Rightarrow> bool" where
  "config_step c c' \<longleftrightarrow> config_key c' = config_key c \<and> sc_version c \<le> sc_version c'"

definition log_step :: "sync_log \<Rightarrow> sync_log \<Rightarrow> bool" where
  "log_step l l' \<longleftrightarrow> log_key l' = log_key l \<and> sl_version l \<le> sl_version l' \<and> sl_attempts l \<le> sl_attempts l' \<and> (succeeded l \<longrightarrow> l' = l)"

definition event_step :: "sync_event \<Rightarrow> sync_event \<Rightarrow> bool" where
  "event_step e e' \<longleftrightarrow> event_key e' = event_key e \<and> ob_version e \<le> ob_version e' \<and> (ob_status e = SUCCESS \<longrightarrow> e' = e)"

interpretation config_table: versioned_table config_key config_step
  by unfold_locales (auto simp: config_step_def)

interpretation log_table: versioned_table log_key log_step
  by unfold_locales (auto simp: log_step_def)

interpretation event_table: versioned_table event_key event_step
  by unfold_locales (auto simp: event_step_def)

definition db_step :: "'b sync_db \<Rightarrow> 'b sync_db \<Rightarrow> bool" where
  "db_step db db' \<longleftrightarrow> rows_step config_step (sd_configs db) (sd_configs db') \<and> rows_step log_step (sd_logs db) (sd_logs db') \<and>
     rows_step event_step (sd_outbox db) (sd_outbox db')"

lemma db_step_refl [intro]: "db_step db db"
  by (simp add: db_step_def config_table.rows_refl log_table.rows_refl event_table.rows_refl)

lemma db_step_trans: "db_step db db1 \<Longrightarrow> db_step db1 db2 \<Longrightarrow> db_step db db2"
  unfolding db_step_def using config_table.rows_trans log_table.rows_trans event_table.rows_trans by blast

text \<open>The unique constraints.\<close>

definition tables_ok :: "'b sync_db \<Rightarrow> bool" where
  "tables_ok db \<longleftrightarrow>
     distinct (map fst (map config_key (sd_configs db))) \<and> distinct (map snd (map config_key (sd_configs db))) \<and>
     distinct (map fst (map log_key (sd_logs db))) \<and> distinct (map (\<lambda>(i, t, k, _). (t, k)) (map log_key (sd_logs db))) \<and>
     distinct (map fst (map event_key (sd_outbox db))) \<and> distinct (map (\<lambda>(i, t, k, _). (t, k)) (map event_key (sd_outbox db)))"

lemma tables_ok_cong:
  "map config_key (sd_configs db') = map config_key (sd_configs db) \<Longrightarrow> map log_key (sd_logs db') = map log_key (sd_logs db) \<Longrightarrow>
   map event_key (sd_outbox db') = map event_key (sd_outbox db) \<Longrightarrow> tables_ok db' = tables_ok db"
  unfolding tables_ok_def by simp

lemma key_eq:
  "config_key c = config_key c' \<longleftrightarrow> sc_id c = sc_id c' \<and> sc_tenant c = sc_tenant c' \<and> sc_key c = sc_key c'"
  "log_key l = log_key l' \<longleftrightarrow> sl_id l = sl_id l' \<and> sl_tenant l = sl_tenant l' \<and> sl_idem l = sl_idem l' \<and> sl_key l = sl_key l'"
  "event_key e = event_key e' \<longleftrightarrow> ob_id e = ob_id e' \<and> ob_tenant e = ob_tenant e' \<and> ob_idem e = ob_idem e' \<and> ob_key e = ob_key e'"
  by (simp_all add: config_key_def log_key_def event_key_def)

lemma distinct_map_eq: "distinct (map f xs) \<Longrightarrow> x \<in> set xs \<Longrightarrow> y \<in> set xs \<Longrightarrow> f x = f y \<Longrightarrow> x = y"
  by (metis distinct_map inj_onD)

lemma tables_distinct:
  assumes "tables_ok db"
  shows "distinct (map sc_id (sd_configs db))" "distinct (map (\<lambda>c. (sc_tenant c, sc_key c)) (sd_configs db))"
    "distinct (map sl_id (sd_logs db))" "distinct (map (\<lambda>l. (sl_tenant l, sl_idem l)) (sd_logs db))"
    "distinct (map ob_id (sd_outbox db))" "distinct (map (\<lambda>e. (ob_tenant e, ob_idem e)) (sd_outbox db))"
  using assms by (simp_all add: tables_ok_def comp_def config_key_def log_key_def event_key_def)

lemma unique_row:
  assumes "tables_ok db"
  shows "c \<in> set (sd_configs db) \<Longrightarrow> c' \<in> set (sd_configs db) \<Longrightarrow> sc_id c = sc_id c' \<Longrightarrow> c = c'"
    "c \<in> set (sd_configs db) \<Longrightarrow> c' \<in> set (sd_configs db) \<Longrightarrow> sc_tenant c = sc_tenant c' \<Longrightarrow> sc_key c = sc_key c' \<Longrightarrow> c = c'"
    "l \<in> set (sd_logs db) \<Longrightarrow> l' \<in> set (sd_logs db) \<Longrightarrow> sl_id l = sl_id l' \<Longrightarrow> l = l'"
    "l \<in> set (sd_logs db) \<Longrightarrow> l' \<in> set (sd_logs db) \<Longrightarrow> sl_tenant l = sl_tenant l' \<Longrightarrow> sl_idem l = sl_idem l' \<Longrightarrow> l = l'"
    "e \<in> set (sd_outbox db) \<Longrightarrow> e' \<in> set (sd_outbox db) \<Longrightarrow> ob_id e = ob_id e' \<Longrightarrow> e = e'"
    "e \<in> set (sd_outbox db) \<Longrightarrow> e' \<in> set (sd_outbox db) \<Longrightarrow> ob_tenant e = ob_tenant e' \<Longrightarrow> ob_idem e = ob_idem e' \<Longrightarrow> e = e'"
proof -
  note d = tables_distinct[OF assms]
  show "c \<in> set (sd_configs db) \<Longrightarrow> c' \<in> set (sd_configs db) \<Longrightarrow> sc_id c = sc_id c' \<Longrightarrow> c = c'"
    by (rule distinct_map_eq[OF d(1)])
  show "c \<in> set (sd_configs db) \<Longrightarrow> c' \<in> set (sd_configs db) \<Longrightarrow> sc_tenant c = sc_tenant c' \<Longrightarrow> sc_key c = sc_key c' \<Longrightarrow> c = c'"
    by (rule distinct_map_eq[OF d(2)]) simp_all
  show "l \<in> set (sd_logs db) \<Longrightarrow> l' \<in> set (sd_logs db) \<Longrightarrow> sl_id l = sl_id l' \<Longrightarrow> l = l'"
    by (rule distinct_map_eq[OF d(3)])
  show "l \<in> set (sd_logs db) \<Longrightarrow> l' \<in> set (sd_logs db) \<Longrightarrow> sl_tenant l = sl_tenant l' \<Longrightarrow> sl_idem l = sl_idem l' \<Longrightarrow> l = l'"
    by (rule distinct_map_eq[OF d(4)]) simp_all
  show "e \<in> set (sd_outbox db) \<Longrightarrow> e' \<in> set (sd_outbox db) \<Longrightarrow> ob_id e = ob_id e' \<Longrightarrow> e = e'"
    by (rule distinct_map_eq[OF d(5)])
  show "e \<in> set (sd_outbox db) \<Longrightarrow> e' \<in> set (sd_outbox db) \<Longrightarrow> ob_tenant e = ob_tenant e' \<Longrightarrow> ob_idem e = ob_idem e' \<Longrightarrow> e = e'"
    by (rule distinct_map_eq[OF d(6)]) simp_all
qed

section \<open>Transactions that acknowledge nothing\<close>

definition quiet :: "'b sync_db \<Rightarrow> 'b sync_db \<Rightarrow> bool" where
  "quiet db db' \<longleftrightarrow> (\<forall>l \<in> set (sd_logs db'). succeeded l \<longrightarrow> l \<in> set (sd_logs db)) \<and>
     (\<forall>e \<in> set (sd_outbox db'). ob_status e = SUCCESS \<longrightarrow> e \<in> set (sd_outbox db))"

text \<open>What such a transaction does to the tables.\<close>

definition change :: "'b sync_db \<Rightarrow> 'b sync_db \<Rightarrow> bool" where
  "change db db' \<longleftrightarrow> (tables_ok db \<longrightarrow> tables_ok db') \<and> db_step db db'"

lemma change_keys:
  assumes "map config_key (sd_configs db') = map config_key (sd_configs db)" and "map log_key (sd_logs db') = map log_key (sd_logs db)"
    and "map event_key (sd_outbox db') = map event_key (sd_outbox db)" and "db_step db db'"
  shows "change db db'"
  using assms tables_ok_cong[OF assms(1-3)] by (simp add: change_def)

lemma change_refl [intro]: "change db db"
  by (auto simp: change_def)

lemma change_trans: "change db db1 \<Longrightarrow> change db1 db2 \<Longrightarrow> change db db2"
  unfolding change_def using db_step_trans by blast

lemma quiet_refl [intro]: "quiet db db"
  by (simp add: quiet_def)

lemma quiet_trans: "quiet db db1 \<Longrightarrow> quiet db1 db2 \<Longrightarrow> quiet db db2"
  unfolding quiet_def by blast

text \<open>Changing rows in place.\<close>

lemma configs_change:
  assumes "\<And>c. c \<in> set (sd_configs db) \<Longrightarrow> P c \<Longrightarrow> config_step c (f c)"
  shows "change db (db\<lparr>sd_configs := map (\<lambda>c. if P c then f c else c) (sd_configs db)\<rparr>)"
  using config_table.keys_update[of _ P f, OF assms] config_table.rows_update[of _ P f, OF assms]
  by (intro change_keys) (simp_all add: db_step_def log_table.rows_refl event_table.rows_refl del: map_map)

lemma configs_quiet: "quiet db (db\<lparr>sd_configs := cs\<rparr>)"
  by (simp add: quiet_def)

lemma logs_change:
  assumes "\<And>l. l \<in> set (sd_logs db) \<Longrightarrow> P l \<Longrightarrow> log_step l (f l)"
  shows "change db (db\<lparr>sd_logs := map (\<lambda>l. if P l then f l else l) (sd_logs db)\<rparr>)"
  using log_table.keys_update[of _ P f, OF assms] log_table.rows_update[of _ P f, OF assms]
  by (intro change_keys) (simp_all add: db_step_def config_table.rows_refl event_table.rows_refl del: map_map)

lemma logs_quiet:
  assumes "\<And>l. l \<in> set (sd_logs db) \<Longrightarrow> P l \<Longrightarrow> \<not> succeeded (f l)"
  shows "quiet db (db\<lparr>sd_logs := map (\<lambda>l. if P l then f l else l) (sd_logs db)\<rparr>)"
  using assms by (auto simp: quiet_def)

lemma outbox_change:
  assumes "\<And>e. e \<in> set (sd_outbox db) \<Longrightarrow> P e \<Longrightarrow> event_step e (f e)"
  shows "change db (db\<lparr>sd_outbox := map (\<lambda>e. if P e then f e else e) (sd_outbox db)\<rparr>)"
  using event_table.keys_update[of _ P f, OF assms] event_table.rows_update[of _ P f, OF assms]
  by (intro change_keys) (simp_all add: db_step_def config_table.rows_refl log_table.rows_refl del: map_map)

lemma outbox_quiet:
  assumes "\<And>e. e \<in> set (sd_outbox db) \<Longrightarrow> P e \<Longrightarrow> ob_status (f e) \<noteq> SUCCESS"
  shows "quiet db (db\<lparr>sd_outbox := map (\<lambda>e. if P e then f e else e) (sd_outbox db)\<rparr>)"
  using assms by (auto simp: quiet_def)

text \<open>What is neither a task, a log nor an event.\<close>

lemma rest_change [simp]:
  "change db (sync_audit i a db') = change db db'" "change db (raise_exception c err db') = change db db'" "change db (db'\<lparr>sd_data := x\<rparr>) = change db db'"
  "quiet db (sync_audit i a db') = quiet db db'" "quiet db (raise_exception c err db') = quiet db db'" "quiet db (db'\<lparr>sd_data := x\<rparr>) = quiet db db'"
  by (simp_all add: change_def quiet_def db_step_def tables_ok_def sync_audit_def raise_exception_def)

lemma rest_tables [simp]:
  "sd_configs (sync_audit i a db) = sd_configs db" "sd_logs (sync_audit i a db) = sd_logs db" "sd_outbox (sync_audit i a db) = sd_outbox db"
  "sd_configs (raise_exception c err db) = sd_configs db" "sd_logs (raise_exception c err db) = sd_logs db" "sd_outbox (raise_exception c err db) = sd_outbox db"
  by (simp_all add: sync_audit_def raise_exception_def)

section \<open>Events\<close>

definition known_event :: "'b sync_db \<Rightarrow> sync_event \<Rightarrow> bool" where
  "known_event db e \<longleftrightarrow> (\<exists>row \<in> set (sd_outbox db). event_key row = event_key e)"

definition group_ok :: "'b sync_db \<Rightarrow> sync_event list \<Rightarrow> bool" where
  "group_ok db es \<longleftrightarrow> distinct (map ob_idem es) \<and> (\<forall>e \<in> set es. known_event db e) \<and> (\<exists>t. \<forall>e \<in> set es. ob_tenant e = t)"

definition done_log :: "'b sync_db \<Rightarrow> string \<Rightarrow> string \<Rightarrow> bool" where
  "done_log db t i \<longleftrightarrow> (\<exists>l \<in> set (sd_logs db). sl_tenant l = t \<and> sl_idem l = i \<and> succeeded l)"

lemma known_event_step: "db_step db db' \<Longrightarrow> known_event db e \<Longrightarrow> known_event db' e"
  unfolding db_step_def rows_step_def known_event_def event_step_def by metis

lemma group_ok_step: "db_step db db' \<Longrightarrow> group_ok db es \<Longrightarrow> group_ok db' es"
  unfolding group_ok_def using known_event_step by blast

lemma done_log_step: "db_step db db' \<Longrightarrow> done_log db t i \<Longrightarrow> done_log db' t i"
  unfolding db_step_def rows_step_def done_log_def log_step_def by metis

lemma enqueue_change: "change db (enqueue_event now tenant n db)" "quiet db (enqueue_event now tenant n db)"
proof -
  show "quiet db (enqueue_event now tenant n db)" by (simp add: quiet_def enqueue_event_def)
  have "tables_ok (enqueue_event now tenant n db)" if "tables_ok db"
    using that by (auto simp: enqueue_event_def tables_ok_def event_key_def list_ex_iff)
  moreover have "db_step db (enqueue_event now tenant n db)"
    by (auto simp: enqueue_event_def db_step_def config_table.rows_refl log_table.rows_refl event_table.rows_refl event_table.rows_append)
  ultimately show "change db (enqueue_event now tenant n db)" by (simp add: change_def)
qed

lemma enqueue_all_change: "change db (foldl (\<lambda>d n. enqueue_event now tenant n d) db ns)" "quiet db (foldl (\<lambda>d n. enqueue_event now tenant n d) db ns)"
  by (induction ns arbitrary: db) (auto intro: change_trans[OF enqueue_change(1)] quiet_trans[OF enqueue_change(2)])

lemma taken_step: "ob_status e \<noteq> SUCCESS \<Longrightarrow> event_step e (taken_event now lease e)"
  by (simp add: event_step_def taken_event_def event_key_def)

lemma distinct_second: "distinct (map (\<lambda>x. (f x, g x)) xs) \<Longrightarrow> \<forall>x \<in> set xs. f x = t \<Longrightarrow> distinct (map g xs)"
  by (induction xs) auto

lemma eligible_open: "eligible now e \<Longrightarrow> ob_status e \<noteq> SUCCESS"
  by (auto simp: eligible_def)

text \<open>What \<open>claimEvents\<close> takes: rows of the outbox that are open, at most as many as asked for.\<close>

lemma claimEvents_cases:
  assumes "claimEvents lease tenant limit excl tx db = Inr (es, db')" and ok: "tables_ok db"
  obtains (none) "es = []" "db' = db" "\<forall>e \<in> set (sd_outbox db). \<not> open_for tx tenant excl e"
  | (taken) P where "\<And>e. e \<in> set (sd_outbox db) \<Longrightarrow> P e \<Longrightarrow> open_for tx tenant excl e"
      "db' = db\<lparr>sd_outbox := map (\<lambda>e. if P e then taken_event (tx_now tx) lease e else e) (sd_outbox db)\<rparr>"
      "es = map (taken_event (tx_now tx) lease) (filter P (sd_outbox db))" "length es \<le> limit" "0 < limit \<Longrightarrow> es \<noteq> []"
proof -
  define opens where "opens = sort_key (\<lambda>e. (ob_created e, ob_id e)) (filter (open_for tx tenant excl) (sd_outbox db))"
  have so: "set opens = {e \<in> set (sd_outbox db). open_for tx tenant excl e}" by (simp add: opens_def)
  have eq: "claimEvents lease tenant limit excl tx db = (case opens of [] \<Rightarrow> Inr ([], db)
     | first # _ \<Rightarrow> (let ids = map ob_id (take limit (filter (same_group first) opens));
           outbox = map (\<lambda>e. if ob_id e \<in> set ids then taken_event (tx_now tx) lease e else e) (sd_outbox db)
       in Inr (filter (\<lambda>e. ob_id e \<in> set ids) outbox, db\<lparr>sd_outbox := outbox\<rparr>)))"
    unfolding claimEvents_def Let_def opens_def by (rule refl)
  show thesis
  proof (cases opens)
    case Nil
    then show thesis using none assms(1) so unfolding eq by simp
  next
    case (Cons first rest)
    define picked where "picked = take limit (filter (same_group first) opens)"
    define P where "P = (\<lambda>e :: sync_event. ob_id e \<in> set (map ob_id picked))"
    have sp: "set picked \<subseteq> set opens" unfolding picked_def using set_take_subset[of limit "filter (same_group first) opens"] by auto
    have in_picked: "P e \<longleftrightarrow> e \<in> set picked" if "e \<in> set (sd_outbox db)" for e
    proof
      assume "P e"
      then obtain c where c: "c \<in> set picked" "ob_id c = ob_id e" by (auto simp: P_def)
      then have "c = e" using unique_row(5)[OF ok _ that, of c] sp so by auto
      then show "e \<in> set picked" using c(1) by simp
    qed (simp add: P_def)
    have same_id: "ob_id (taken_event (tx_now tx) lease e) = ob_id e" for e by (simp add: taken_event_def)
    have r: "es = filter P (map (\<lambda>e. if P e then taken_event (tx_now tx) lease e else e) (sd_outbox db))"
      "db' = db\<lparr>sd_outbox := map (\<lambda>e. if P e then taken_event (tx_now tx) lease e else e) (sd_outbox db)\<rparr>"
      using assms(1) Cons unfolding eq by (simp_all add: Let_def P_def picked_def)
    have "filter P (map (\<lambda>e. if P e then taken_event (tx_now tx) lease e else e) xs) = map (taken_event (tx_now tx) lease) (filter P xs)" for xs
      by (induction xs) (auto simp: P_def same_id)
    then have es: "es = map (taken_event (tx_now tx) lease) (filter P (sd_outbox db))" by (simp add: r)
    have "set (filter P (sd_outbox db)) = set picked" using in_picked sp so by auto
    moreover have "distinct (filter P (sd_outbox db))" using tables_distinct(5)[OF ok] by (simp add: distinct_map)
    ultimately have "length (filter P (sd_outbox db)) \<le> length picked" by (metis card_length distinct_card)
    moreover have "length picked \<le> limit" by (simp add: picked_def)
    moreover have "first \<in> set picked" if "0 < limit"
    proof -
      have "same_group first first" by (simp add: same_group_def)
      then show ?thesis using that by (cases limit) (simp_all add: picked_def Cons)
    qed
    ultimately have bounds: "length es \<le> limit" "0 < limit \<Longrightarrow> es \<noteq> []"
      using \<open>set (filter P (sd_outbox db)) = set picked\<close> by (auto simp: es filter_empty_conv)
    have "open_for tx tenant excl e" if "e \<in> set (sd_outbox db)" "P e" for e using that in_picked sp so by auto
    then show thesis using r(2) es bounds by (rule taken)
  qed
qed

lemma claimEvents_laws:
  assumes "claimEvents lease tenant limit excl tx db = Inr (es, db')" and ok: "tables_ok db"
  shows "change db db'" and "quiet db db'" and "group_ok db' es" and "\<forall>e \<in> set es. ob_tenant e = tenant \<and> ob_id e \<notin> set excl"
    and "length es \<le> limit" and "distinct (map ob_id es)" and "es = [] \<Longrightarrow> 0 < limit \<Longrightarrow> db' = db \<and> (\<forall>e \<in> set (sd_outbox db). \<not> open_for tx tenant excl e)"
proof -
  have "change db db' \<and> quiet db db' \<and> group_ok db' es \<and> (\<forall>e \<in> set es. ob_tenant e = tenant \<and> ob_id e \<notin> set excl) \<and> length es \<le> limit \<and>
    distinct (map ob_id es) \<and> (es = [] \<longrightarrow> 0 < limit \<longrightarrow> db' = db \<and> (\<forall>e \<in> set (sd_outbox db). \<not> open_for tx tenant excl e))"
    using assms
  proof (cases rule: claimEvents_cases)
    case none
    then show ?thesis by (auto simp: group_ok_def)
  next
    case (taken P)
    have op: "ob_tenant e = tenant \<and> ob_id e \<notin> set excl \<and> ob_status e \<noteq> SUCCESS" if "e \<in> set (sd_outbox db)" "P e" for e
      using taken(1)[OF that] eligible_open by (auto simp: open_for_def)
    have ch: "change db db'" unfolding taken(2) by (rule outbox_change) (use op taken_step in blast)
    have q: "quiet db db'" unfolding taken(2) by (rule outbox_quiet) (simp add: taken_event_def)
    have sub: "set es \<subseteq> set (sd_outbox db')" by (auto simp: taken(2,3))
    have t: "\<forall>e \<in> set es. ob_tenant e = tenant \<and> ob_id e \<notin> set excl" using op by (auto simp: taken(3) taken_event_def)
    have keys: "map ob_id es = map ob_id (filter P (sd_outbox db))" "map (\<lambda>e. (ob_tenant e, ob_idem e)) es = map (\<lambda>e. (ob_tenant e, ob_idem e)) (filter P (sd_outbox db))"
      by (simp_all add: taken(3) comp_def taken_event_def)
    have d: "distinct (map ob_id es)" "distinct (map (\<lambda>e. (ob_tenant e, ob_idem e)) es)"
      unfolding keys using tables_distinct(5,6)[OF ok] by (simp_all add: distinct_map_filter)
    have "distinct (map ob_idem es)" using d(2) by (rule distinct_second[where t = tenant]) (use t in simp)
    moreover have "\<forall>e \<in> set es. known_event db' e" using sub by (auto simp: known_event_def)
    ultimately show ?thesis using ch q t d taken(4,5) by (auto simp: group_ok_def)
  qed
  then show "change db db'" and "quiet db db'" and "group_ok db' es" and "\<forall>e \<in> set es. ob_tenant e = tenant \<and> ob_id e \<notin> set excl"
    and "length es \<le> limit" and "distinct (map ob_id es)" and "es = [] \<Longrightarrow> 0 < limit \<Longrightarrow> db' = db \<and> (\<forall>e \<in> set (sd_outbox db). \<not> open_for tx tenant excl e)"
    by simp_all
qed

lemma owned_row:
  assumes "tables_ok db" and "known_event db e" and "row \<in> set (sd_outbox db)" and "owns_event now e row"
  shows "event_key row = event_key e"
proof -
  obtain r where "r \<in> set (sd_outbox db)" "event_key r = event_key e" using assms(2) by (auto simp: known_event_def)
  then show ?thesis using unique_row(5)[OF assms(1), of r row] assms(3,4) by (auto simp: owns_event_def key_eq)
qed

lemma finished_event_step: "owns_event now e row \<Longrightarrow> event_step row (finished_event now' ok err row)"
  by (simp add: event_step_def finished_event_def event_key_def owns_event_def)

lemma finishEvents_laws:
  assumes "finishEvents now es success err db = Inr db'"
  shows "change db db'" and "sd_configs db' = sd_configs db" and "sd_logs db' = sd_logs db" and "\<not> success \<Longrightarrow> quiet db db'"
    and "tables_ok db \<Longrightarrow> \<forall>e \<in> set es. known_event db e \<Longrightarrow> e' \<in> set (sd_outbox db') \<Longrightarrow> ob_status e' = SUCCESS \<Longrightarrow>
      e' \<in> set (sd_outbox db) \<or> (\<exists>e \<in> set es. event_key e' = event_key e)"
proof -
  have d: "db' = db\<lparr>sd_outbox := map (\<lambda>row. if list_ex (\<lambda>e. owns_event now e row) es then finished_event now success err row else row) (sd_outbox db)\<rparr>"
    using assms unfolding finishEvents_def by (elim bindE_InrE) simp
  show "change db db'" unfolding d by (rule outbox_change) (auto simp: list_ex_iff dest: finished_event_step)
  show "sd_configs db' = sd_configs db" "sd_logs db' = sd_logs db" by (simp_all add: d)
  show "quiet db db'" if "\<not> success" unfolding d by (rule outbox_quiet) (simp add: finished_event_def that)
  show "e' \<in> set (sd_outbox db) \<or> (\<exists>e \<in> set es. event_key e' = event_key e)"
    if ok: "tables_ok db" and k: "\<forall>e \<in> set es. known_event db e" and e': "e' \<in> set (sd_outbox db')"
  proof -
    obtain row where row: "row \<in> set (sd_outbox db)"
        "e' = (if list_ex (\<lambda>e. owns_event now e row) es then finished_event now success err row else row)" using e' by (auto simp: d)
    show ?thesis
    proof (cases "list_ex (\<lambda>e. owns_event now e row) es")
      case True
      then obtain e where e: "e \<in> set es" "owns_event now e row" by (auto simp: list_ex_iff)
      have "event_key row = event_key e" by (rule owned_row[OF ok _ row(1) e(2)]) (use k e(1) in blast)
      then have "event_key e' = event_key e" using True by (simp add: row(2) finished_event_def event_key_def)
      then show ?thesis using e(1) by blast
    qed (use row in simp)
  qed
qed

lemma failEvents_laws:
  assumes "failEvents es err busy tx db = Inr (u, db')"
  shows "change db db'" and "quiet db db'"
proof -
  have d: "db' = db\<lparr>sd_outbox := map (\<lambda>row. if list_ex (\<lambda>e. owns_event (tx_now tx) e row) es then put_back_event (tx_now tx) busy err row else row) (sd_outbox db)\<rparr>"
    using assms by (simp add: failEvents_def)
  show "change db db'" unfolding d
    by (rule outbox_change) (auto simp: list_ex_iff event_step_def put_back_event_def event_key_def owns_event_def)
  show "quiet db db'" unfolding d by (rule outbox_quiet) (auto simp: put_back_event_def)
qed

lemma extend_laws:
  assumes "lockEvents now es db = Inr u" and ok: "tables_ok db"
  shows "change db (extend_events now lease es db)" and "quiet db (extend_events now lease es db)"
proof -
  have run: "ob_status row = RUNNING" if mem: "row \<in> set (sd_outbox db)"
    and ex: "list_ex (\<lambda>e. ob_tenant row = ob_tenant e \<and> ob_id row = ob_id e \<and> ob_version row = ob_version e) es" for row
  proof -
    obtain e where e: "e \<in> set es" "ob_id row = ob_id e" using ex by (auto simp: list_ex_iff)
    obtain r where r: "r \<in> set (sd_outbox db)" "owns_event now e r" using assms(1) e(1) by (auto simp: lockEvents_def list_all_iff list_ex_iff)
    then have "r = row" using unique_row(5)[OF ok r(1) mem] e(2) by (simp add: owns_event_def)
    then show ?thesis using r(2) by (simp add: owns_event_def)
  qed
  show "change db (extend_events now lease es db)" unfolding extend_events_def
    by (rule outbox_change) (use run in \<open>auto simp: event_step_def event_key_def\<close>)
  show "quiet db (extend_events now lease es db)" unfolding extend_events_def
    by (rule outbox_quiet) (use run in auto)
qed

end
