(* ===== verification/SyncRunnerLaws.thy ===== *)
theory SyncRunnerLaws
  imports SyncTables
begin

text \<open>
  What the synchronisation workers guarantee, however their transactions, failures, lost answers and the edits of
  users interleave: one worker holds a task, an event is acknowledged only when its work was committed, and no
  event's work is committed twice.
\<close>

section \<open>Log rows\<close>

lemma mapE_each: "mapE f xs = Inr ys \<Longrightarrow> x \<in> set xs \<Longrightarrow> \<exists>y. f x = Inr y"
  by (induction xs arbitrary: ys) (auto simp: err_simps)

definition known_log :: "'b sync_db \<Rightarrow> sync_log \<Rightarrow> bool" where
  "known_log db l \<longleftrightarrow> (\<exists>row \<in> set (sd_logs db). log_key row = log_key l \<and> 0 < sl_attempts row)"

lemma known_log_step: "db_step db db' \<Longrightarrow> known_log db l \<Longrightarrow> known_log db' l"
  unfolding db_step_def rows_step_def known_log_def log_step_def by (metis order_less_le_trans)

lemma change_step: "change db db' \<Longrightarrow> db_step db db'"
  by (simp add: change_def)

lemma change_ok: "change db db' \<Longrightarrow> tables_ok db \<Longrightarrow> tables_ok db'"
  by (simp add: change_def)

lemma audits_tables [simp]:
  "sd_configs (foldl (\<lambda>d l. sync_audit (f l) a d) db ls) = sd_configs db" "sd_logs (foldl (\<lambda>d l. sync_audit (f l) a d) db ls) = sd_logs db"
  "sd_outbox (foldl (\<lambda>d l. sync_audit (f l) a d) db ls) = sd_outbox db"
  by (induction ls arbitrary: db) simp_all

lemma audits_change: "change db (foldl (\<lambda>d l. sync_audit (f l) a d) db' ls) = change db db'" "quiet db (foldl (\<lambda>d l. sync_audit (f l) a d) db' ls) = quiet db db'"
  by (induction ls arbitrary: db') simp_all

lemma not_succeeded: "sl_status l \<noteq> SUCCESS \<Longrightarrow> \<not> succeeded l"
  by (simp add: succeeded_def)

lemma expireLogs_laws: "change db (expireLogs now tenant key db)" "quiet db (expireLogs now tenant key db)"
  "sd_configs (expireLogs now tenant key db) = sd_configs db" "sd_outbox (expireLogs now tenant key db) = sd_outbox db"
proof -
  have "change db (db\<lparr>sd_logs := map (\<lambda>l. if abandoned now tenant key l then expired_log now l else l) (sd_logs db)\<rparr>)"
    by (rule logs_change) (simp add: log_step_def expired_log_def log_key_def abandoned_def succeeded_def)
  then show "change db (expireLogs now tenant key db)" by (simp add: expireLogs_def audits_change)
  have "quiet db (db\<lparr>sd_logs := map (\<lambda>l. if abandoned now tenant key l then expired_log now l else l) (sd_logs db)\<rparr>)"
    by (rule logs_quiet) (simp add: expired_log_def succeeded_def)
  then show "quiet db (expireLogs now tenant key db)" by (simp add: expireLogs_def audits_change)
qed (simp_all add: expireLogs_def)

lemma start_log_laws:
  assumes "start_log lease tx tenant config key type scope identity db = Inr (l, db')" and ok: "tables_ok db"
  shows "change db db'" and "quiet db db'" and "sd_configs db' = sd_configs db" and "sd_outbox db' = sd_outbox db"
    and "known_log db' l" and "sl_tenant l = tenant" and "sl_idem l = identity"
proof -
  have "change db db' \<and> quiet db db' \<and> sd_configs db' = sd_configs db \<and> sd_outbox db' = sd_outbox db \<and> known_log db' l \<and>
      sl_tenant l = tenant \<and> sl_idem l = identity"
  proof (cases "find (\<lambda>l. sl_tenant l = tenant \<and> sl_idem l = identity) (sd_logs db)")
    case None
    define n where "n = new_log (tx_now tx) lease (tx_ids tx identity) tenant config key type scope identity"
    have i: "tx_ids tx identity \<notin> set (map sl_id (sd_logs db))" and r: "l = n" "db' = sync_audit (sl_id n) ''attempt_started'' (db\<lparr>sd_logs := sd_logs db @ [n]\<rparr>)"
      using assms(1) None by (auto simp: start_log_def n_def Let_def split: if_splits)
    have n: "sl_id n = tx_ids tx identity" "sl_tenant n = tenant" "sl_idem n = identity" "sl_attempts n = 1" "sl_status n = RUNNING"
      by (simp_all add: n_def new_log_def)
    have fresh: "\<forall>l \<in> set (sd_logs db). sl_tenant l \<noteq> tenant \<or> sl_idem l \<noteq> identity" using None by (auto simp: find_None_iff)
    have "tables_ok (db\<lparr>sd_logs := sd_logs db @ [n]\<rparr>)" using ok i fresh n by (auto simp: tables_ok_def log_key_def)
    moreover have "db_step db (db\<lparr>sd_logs := sd_logs db @ [n]\<rparr>)"
      by (simp add: db_step_def config_table.rows_refl event_table.rows_refl log_table.rows_append)
    ultimately have "change db (db\<lparr>sd_logs := sd_logs db @ [n]\<rparr>)" by (simp add: change_def)
    moreover have "quiet db (db\<lparr>sd_logs := sd_logs db @ [n]\<rparr>)" using n by (auto simp: quiet_def succeeded_def)
    ultimately show ?thesis using n by (simp add: r known_log_def)
  next
    case (Some old)
    have old: "old \<in> set (sd_logs db)" "sl_tenant old = tenant" "sl_idem old = identity" using find_Some_mem[OF Some] by simp_all
    define n where "n = restarted_log (tx_now tx) lease scope old"
    have f: "sl_status old = FAILED" and r: "l = n" "db' = sync_audit (sl_id n) ''attempt_started'' (db\<lparr>sd_logs := map (\<lambda>r. if sl_id r = sl_id n then n else r) (sd_logs db)\<rparr>)"
      using assms(1) Some by (auto simp: start_log_def n_def[symmetric] Let_def split: if_splits)
    have n: "sl_id n = sl_id old" "log_key n = log_key old" "sl_tenant n = tenant" "sl_idem n = identity" "0 < sl_attempts n" "sl_status n = RUNNING" "log_step old n"
      using old f by (simp_all add: n_def restarted_log_def log_key_def log_step_def succeeded_def)
    have "change db (db\<lparr>sd_logs := map (\<lambda>r. if sl_id r = sl_id n then n else r) (sd_logs db)\<rparr>)"
      by (rule logs_change) (use unique_row(3)[OF ok _ old(1)] n in auto)
    moreover have "quiet db (db\<lparr>sd_logs := map (\<lambda>r. if sl_id r = sl_id n then n else r) (sd_logs db)\<rparr>)"
      by (rule logs_quiet) (use n in \<open>simp add: succeeded_def\<close>)
    moreover have "n \<in> set (map (\<lambda>r. if sl_id r = sl_id n then n else r) (sd_logs db))" using old(1) n(1) by force
    ultimately show ?thesis using n by (auto simp: r known_log_def)
  qed
  then show "change db db'" and "quiet db db'" and "sd_configs db' = sd_configs db" and "sd_outbox db' = sd_outbox db"
    and "known_log db' l" and "sl_tenant l = tenant" and "sl_idem l = identity" by simp_all
qed

lemma start_logs_laws:
  assumes "start_logs lease tx tenant config key type scope logs keys db = Inr (active, db')" and "tables_ok db"
  shows "change db db' \<and> quiet db db' \<and> sd_configs db' = sd_configs db \<and> sd_outbox db' = sd_outbox db \<and>
    (\<forall>l \<in> set active. known_log db' l \<and> sl_tenant l = tenant) \<and>
    map sl_idem active = filter (\<lambda>k. \<not> list_ex (\<lambda>l. sl_idem l = k \<and> sl_status l = SUCCESS) logs) keys"
  using assms
proof (induction lease tx tenant config key type scope logs keys db arbitrary: active rule: start_logs.induct)
  case (1 lease tx tenant config key type scope logs db)
  then show ?case by auto
next
  case (2 lease tx tenant config key type scope logs identity keys db)
  show ?case
  proof (cases "list_ex (\<lambda>l. sl_idem l = identity \<and> sl_status l = SUCCESS) logs")
    case True
    then show ?thesis using 2 by simp
  next
    case False
    then obtain l db1 rest where l: "start_log lease tx tenant config key type scope identity db = Inr (l, db1)"
      and rest: "start_logs lease tx tenant config key type scope logs keys db1 = Inr (rest, db')" "active = l # rest"
      using "2.prems"(1) by (auto simp: err_simps)
    note one = start_log_laws[OF l "2.prems"(2)]
    have tail: "change db1 db' \<and> quiet db1 db' \<and> sd_configs db' = sd_configs db1 \<and> sd_outbox db' = sd_outbox db1 \<and>
      (\<forall>l \<in> set rest. known_log db' l \<and> sl_tenant l = tenant) \<and>
      map sl_idem rest = filter (\<lambda>k. \<not> list_ex (\<lambda>l. sl_idem l = k \<and> sl_status l = SUCCESS) logs) keys"
      by (rule "2.IH"(2)[OF False l refl rest(1) change_ok[OF one(1) "2.prems"(2)]])
    then show ?thesis
      using one False change_trans[OF one(1)] quiet_trans[OF one(2)] known_log_step[OF change_step, of db1 db' l] by (auto simp: rest(2))
  qed
qed

lemma owned_log:
  assumes "tables_ok db" and "known_log db l" and "row \<in> set (sd_logs db)" and "owns_log now c l row"
  shows "log_key row = log_key l \<and> 0 < sl_attempts row"
proof -
  obtain r where "r \<in> set (sd_logs db)" "log_key r = log_key l" "0 < sl_attempts r" using assms(2) by (auto simp: known_log_def)
  then show ?thesis using unique_row(3)[OF assms(1), of r row] assms(3,4) by (auto simp: owns_log_def key_eq)
qed

lemma finished_log_step: "owns_log now c l row \<Longrightarrow> log_step row (finished_log now' out err row)"
  by (simp add: log_step_def finished_log_def log_key_def owns_log_def succeeded_def)

text \<open>Finishing the log rows of a claim; they are acknowledged exactly when the outcome is a success.\<close>

lemma finish_logs_laws:
  assumes "finish_logs now c out err ls db = Inr db'" and "tables_ok db" and "\<forall>l \<in> set ls. known_log db l \<and> sl_tenant l = cl_tenant c"
  shows "change db db' \<and> sd_configs db' = sd_configs db \<and> sd_outbox db' = sd_outbox db \<and> (vo_status out \<noteq> OutcomeSuccess \<longrightarrow> quiet db db') \<and>
    (\<forall>l' \<in> set (sd_logs db'). succeeded l' \<longrightarrow> l' \<in> set (sd_logs db) \<or> (sl_tenant l', sl_idem l') \<in> (\<lambda>l. (cl_tenant c, sl_idem l)) ` set ls) \<and>
    (\<forall>l \<in> set ls. \<not> done_log db (cl_tenant c) (sl_idem l)) \<and>
    (vo_status out = OutcomeSuccess \<longrightarrow> (\<forall>l \<in> set ls. done_log db' (cl_tenant c) (sl_idem l)))"
  using assms
proof (induction ls arbitrary: db)
  case Nil
  then show ?case by auto
next
  case (Cons l ls)
  note ok = Cons.prems(2)
  define db1 where "db1 = sync_audit (sl_id l) ''attempt_finished''
      (db\<lparr>sd_logs := map (\<lambda>row. if owns_log now c l row then finished_log now out err row else row) (sd_logs db)\<rparr>)"
  have ex: "list_ex (owns_log now c l) (sd_logs db)" and tail: "finish_logs now c out err ls db1 = Inr db'"
    using Cons.prems(1) by (auto simp: err_simps db1_def)
  have kl: "known_log db l" "sl_tenant l = cl_tenant c" using Cons.prems(3) by simp_all
  have ch: "change db db1" unfolding db1_def rest_change by (rule logs_change) (rule finished_log_step)
  have t1: "sd_configs db1 = sd_configs db" "sd_outbox db1 = sd_outbox db" by (simp_all add: db1_def)
  have q: "quiet db db1" if "vo_status out \<noteq> OutcomeSuccess"
    unfolding db1_def rest_change by (rule logs_quiet) (simp add: finished_log_def succeeded_def that)
  have owned: "sl_tenant row = cl_tenant c \<and> sl_idem row = sl_idem l \<and> 0 < sl_attempts row \<and> sl_status row = RUNNING"
    if "row \<in> set (sd_logs db)" and "owns_log now c l row" for row
    using owned_log[OF ok kl(1) that] that(2) kl(2) by (simp add: key_eq owns_log_def)
  obtain row where row: "row \<in> set (sd_logs db)" "owns_log now c l row" using ex by (auto simp: list_ex_iff)
  have notdone: "\<not> done_log db (cl_tenant c) (sl_idem l)"
  proof
    assume "done_log db (cl_tenant c) (sl_idem l)"
    then obtain s where "s \<in> set (sd_logs db)" "sl_tenant s = cl_tenant c" "sl_idem s = sl_idem l" "succeeded s" by (auto simp: done_log_def)
    then show False using unique_row(4)[OF ok _ row(1), of s] owned[OF row] by (auto simp: succeeded_def)
  qed
  have fresh: "l' \<in> set (sd_logs db) \<or> (sl_tenant l', sl_idem l') = (cl_tenant c, sl_idem l)" if "l' \<in> set (sd_logs db1)" for l'
    using that owned by (auto simp: db1_def finished_log_def)
  have new: "done_log db1 (cl_tenant c) (sl_idem l)" if "vo_status out = OutcomeSuccess"
  proof -
    have "finished_log now out err row \<in> set (sd_logs db1)" using row by (force simp: db1_def)
    moreover have "sl_tenant (finished_log now out err row) = cl_tenant c \<and> sl_idem (finished_log now out err row) = sl_idem l \<and>
        succeeded (finished_log now out err row)"
      using owned[OF row] that by (simp add: finished_log_def succeeded_def)
    ultimately show ?thesis unfolding done_log_def by blast
  qed
  have k1: "\<forall>l \<in> set ls. known_log db1 l \<and> sl_tenant l = cl_tenant c" using Cons.prems(3) known_log_step[OF change_step[OF ch]] by simp
  note ih = Cons.IH[OF tail change_ok[OF ch ok] k1]
  have "change db db'" using change_trans[OF ch] ih by blast
  moreover have "\<not> done_log db (cl_tenant c) (sl_idem m)" if "m \<in> set ls" for m using ih that done_log_step[OF change_step[OF ch]] by blast
  moreover have "done_log db' (cl_tenant c) (sl_idem l)" if "vo_status out = OutcomeSuccess"
    using new[OF that] done_log_step[OF change_step, of db1 db'] ih by blast
  moreover have "l' \<in> set (sd_logs db) \<or> (sl_tenant l', sl_idem l') \<in> (\<lambda>l. (cl_tenant c, sl_idem l)) ` set (l # ls)"
    if "l' \<in> set (sd_logs db')" "succeeded l'" for l'
    using ih that fresh[of l'] by auto
  ultimately show ?case using ih t1 q quiet_trans[of db db1 db'] notdone by simp
qed

section \<open>Claims\<close>

definition claim_ok :: "'b sync_db \<Rightarrow> sync_claim \<Rightarrow> bool" where
  "claim_ok db c \<longleftrightarrow>
     (\<exists>row \<in> set (sd_configs db). sc_id row = cl_config c \<and> sc_tenant row = cl_tenant c \<and> sc_key row = cl_key c \<and> cl_version c \<le> sc_version row) \<and>
     distinct (map sl_idem (cl_logs c)) \<and> (\<forall>l \<in> set (cl_logs c). sl_tenant l = cl_tenant c \<and> known_log db l) \<and>
     (\<forall>e \<in> set (cl_events c). known_event db e \<and> ob_tenant e = cl_tenant c \<and>
        (ob_idem e \<in> sl_idem ` set (cl_logs c) \<or> done_log db (cl_tenant c) (ob_idem e)))"

lemma claim_ok_step:
  assumes "db_step db db'" and "claim_ok db c"
  shows "claim_ok db' c"
proof -
  obtain row where row: "row \<in> set (sd_configs db)" "sc_id row = cl_config c" "sc_tenant row = cl_tenant c" "sc_key row = cl_key c" "cl_version c \<le> sc_version row"
    using assms(2) by (auto simp: claim_ok_def)
  obtain row' where "row' \<in> set (sd_configs db')" "config_step row row'" using assms(1) row(1) by (auto simp: db_step_def rows_step_def)
  then have "\<exists>r \<in> set (sd_configs db'). sc_id r = cl_config c \<and> sc_tenant r = cl_tenant c \<and> sc_key r = cl_key c \<and> cl_version c \<le> sc_version r"
    using row(2-) by (intro bexI[of _ row']) (auto simp: config_step_def config_key_def)
  then show ?thesis
    using assms(2) known_log_step[OF assms(1)] known_event_step[OF assms(1)] done_log_step[OF assms(1)] unfolding claim_ok_def by blast
qed

text \<open>All the keys of a group have verified logs when as many verified logs as keys were found.\<close>

lemma all_keys_done:
  assumes "tables_ok db" and "distinct keys" and "length (filter (\<lambda>l. sl_tenant l = t \<and> sl_idem l \<in> set keys) (sd_logs db)) = length keys"
    and "\<forall>l \<in> set (sd_logs db). sl_tenant l = t \<longrightarrow> sl_idem l \<in> set keys \<longrightarrow> succeeded l" and "k \<in> set keys"
  shows "done_log db t k"
proof -
  define logs where "logs = filter (\<lambda>l. sl_tenant l = t \<and> sl_idem l \<in> set keys) (sd_logs db)"
  have "distinct (map (\<lambda>l. (sl_tenant l, sl_idem l)) logs)" using tables_distinct(4)[OF assms(1)] by (simp add: logs_def distinct_map_filter)
  then have "distinct (map sl_idem logs)" by (rule distinct_second[where t = t]) (simp add: logs_def)
  then have "card (sl_idem ` set logs) = card (set keys)" using assms(2,3) distinct_card by (metis (no_types) length_map logs_def set_map)
  moreover have "sl_idem ` set logs \<subseteq> set keys" by (auto simp: logs_def)
  ultimately have "sl_idem ` set logs = set keys" by (simp add: card_subset_eq)
  then obtain l where "l \<in> set logs" "sl_idem l = k" using assms(5) by (metis imageE)
  then show ?thesis using assms(4,5) by (auto simp: done_log_def logs_def)
qed

lemma started_step: "config_step c (started_config now lease c)"
  by (simp add: config_step_def started_config_def config_key_def)

lemma claimTask_laws:
  assumes "claimTask lease tenant key type actor name idem scope es tx db = Inr (ans, db')" and ok: "tables_ok db"
    and g: "group_ok db es" and t: "\<forall>e \<in> set es. ob_tenant e = tenant"
  shows "change db db' \<and> (\<forall>l \<in> set (sd_logs db'). succeeded l \<longrightarrow> l \<in> set (sd_logs db)) \<and>
    (\<forall>e \<in> set (sd_outbox db'). ob_status e = SUCCESS \<longrightarrow> e \<in> set (sd_outbox db) \<or> done_log db' (ob_tenant e) (ob_idem e)) \<and>
    (case ans of Repeated res \<Rightarrow> True
     | Claimed c \<Rightarrow> claim_ok db' c \<and> (\<exists>row \<in> set (sd_configs db). sc_id row = cl_config c \<and> sc_version row < cl_version c))"
proof -
  define now where "now = tx_now tx"
  define db1 where "db1 = expireLogs now tenant key db"
  define keys where "keys = (if es = [] then [idem] else map ob_idem es)"
  define logs where "logs = sort_key sl_id (filter (\<lambda>l. sl_tenant l = tenant \<and> sl_idem l \<in> set keys) (sd_logs db1))"
  obtain c where c: "find_config tenant key db = Some c" using assms(1) by (cases "find_config tenant key db") (simp_all add: claimTask_def)
  then have cm: "c \<in> set (sd_configs db)" "sc_tenant c = tenant" "sc_key c = key" unfolding find_config_def by (auto dest: find_Some_mem)
  have ch1: "change db db1" and q1: "quiet db db1" and same1: "sd_configs db1 = sd_configs db" "sd_outbox db1 = sd_outbox db"
    unfolding db1_def by (simp_all add: expireLogs_laws)
  have ok1: "tables_ok db1" by (rule change_ok[OF ch1 ok])
  have g1: "group_ok db1 es" by (rule group_ok_step[OF change_step[OF ch1] g])
  have dk: "distinct keys" using g by (simp add: keys_def group_ok_def)
  show ?thesis
  proof (cases "length logs = length keys \<and> list_all succeeded logs")
    case True
    obtain db2 res where f: "finishEvents now es True None db1 = Inr db2" and r: "ans = Repeated res" "db' = db2"
      using assms(1) c True unfolding claimTask_def Let_def now_def[symmetric] db1_def[symmetric] keys_def[symmetric] logs_def[symmetric]
      by (auto simp: err_simps)
    note fin = finishEvents_laws[OF f]
    have "done_log db1 tenant k" if "k \<in> set keys" for k
      by (rule all_keys_done[OF ok1 dk _ _ that]) (use True in \<open>auto simp: logs_def list_all_iff\<close>)
    then have dn: "done_log db2 tenant k" if "k \<in> set keys" for k using that done_log_step[OF change_step[OF fin(1)]] by blast
    have kn: "\<forall>e \<in> set es. known_event db1 e" using g1 by (simp add: group_ok_def)
    have "e' \<in> set (sd_outbox db) \<or> done_log db2 (ob_tenant e') (ob_idem e')" if out: "e' \<in> set (sd_outbox db2)" "ob_status e' = SUCCESS" for e'
    proof -
      consider "e' \<in> set (sd_outbox db1)" | e where "e \<in> set es" "event_key e' = event_key e" using fin(5)[OF ok1 kn out] by blast
      then show ?thesis
      proof cases
        case 2
        then have "ob_idem e' \<in> set keys" "ob_tenant e' = tenant" using t by (auto simp: keys_def key_eq)
        then show ?thesis using dn by simp
      qed (simp add: same1)
    qed
    moreover have "l \<in> set (sd_logs db)" if "l \<in> set (sd_logs db2)" "succeeded l" for l using that q1 fin(3) by (simp add: quiet_def)
    ultimately show ?thesis using change_trans[OF ch1 fin(1)] by (simp add: r)
  next
    case False
    define c' where "c' = started_config now lease c"
    define db2 where "db2 = db1\<lparr>sd_configs := map (\<lambda>d. if sc_id d = sc_id c then c' else d) (sd_configs db1)\<rparr>"
    obtain active db3 where s: "start_logs lease tx tenant (sc_id c) key type scope logs keys db2 = Inr (active, db3)"
      and lk: "lockEvents now es db3 = Inr ()" and r: "db' = extend_events now lease es db3"
      and a: "ans = Claimed \<lparr>cl_tenant = tenant, cl_key = key, cl_config = sc_id c, cl_version = sc_version c', cl_actor = actor,
         cl_name = name, cl_logs = active, cl_events = es, cl_disabled = (\<not> sc_enabled c \<and> type \<noteq> MANUAL)\<rparr>"
      and chk: "\<exists>us. mapE (check_log key scope) logs = Inr us"
      using assms(1) c False
      unfolding claimTask_def Let_def now_def[symmetric] db1_def[symmetric] keys_def[symmetric] logs_def[symmetric] db2_def c'_def
      by (auto simp: err_simps simp del: assure_Inr)
    have ch2: "change db1 db2" unfolding db2_def
      by (rule configs_change) (use unique_row(1)[OF ok _ cm(1)] same1 started_step in \<open>auto simp: c'_def\<close>)
    have ok2: "tables_ok db2" by (rule change_ok[OF ch2 ok1])
    have q2: "quiet db1 db2" by (simp add: db2_def configs_quiet)
    note st = start_logs_laws[OF s ok2]
    have ok3: "tables_ok db3" using st change_ok ok2 by blast
    note ex = extend_laws[OF lk ok3, of lease]
    have ch: "change db db'" using change_trans[OF ch1 change_trans[OF ch2 change_trans[OF _ ex(1)]]] st by (simp add: r)
    have q: "quiet db db'" using quiet_trans[OF q1 quiet_trans[OF q2 quiet_trans[OF _ ex(2)]]] st by (simp add: r)
    have st3: "db_step db3 db'" using change_step[OF ex(1)] by (simp add: r)
    have logs': "sd_logs db' = sd_logs db3" "sd_configs db' = sd_configs db3" by (simp_all add: r extend_events_def)
    have idems: "map sl_idem active = filter (\<lambda>k. \<not> list_ex (\<lambda>l. sl_idem l = k \<and> sl_status l = SUCCESS) logs) keys" using st by blast
    have "c' \<in> set (sd_configs db')" using st cm(1) same1 by (force simp: logs' db2_def)
    then have "\<exists>row \<in> set (sd_configs db'). sc_id row = sc_id c \<and> sc_tenant row = tenant \<and> sc_key row = key \<and> sc_version c' \<le> sc_version row"
      using cm by (intro bexI[of _ c']) (simp_all add: c'_def started_config_def)
    moreover have "distinct (map sl_idem active)" using dk idems by simp
    moreover have "\<forall>l \<in> set active. sl_tenant l = tenant \<and> known_log db' l" using st known_log_step[OF st3] by blast
    moreover have "ob_idem e \<in> sl_idem ` set active \<or> done_log db' tenant (ob_idem e)" if e: "e \<in> set es" for e
    proof (cases "list_ex (\<lambda>l. sl_idem l = ob_idem e \<and> sl_status l = SUCCESS) logs")
      case True
      then obtain l where l: "l \<in> set logs" "sl_idem l = ob_idem e" "sl_status l = SUCCESS" by (auto simp: list_ex_iff)
      have "\<exists>u. check_log key scope l = Inr u" using chk mapE_each[OF _ l(1)] by fastforce
      then have "succeeded l" using l(3) by (auto simp: check_log_def succeeded_def split: if_splits)
      then have "done_log db1 tenant (ob_idem e)" using l(1,2) by (auto simp: logs_def done_log_def)
      moreover have "db_step db1 db'" using db_step_trans[OF change_step[OF ch2] db_step_trans[OF _ st3]] st change_step by blast
      ultimately show ?thesis using done_log_step by blast
    next
      case False
      then have "ob_idem e \<in> set (map sl_idem active)" unfolding idems using e by (auto simp: keys_def)
      then show ?thesis by simp
    qed
    moreover have "\<forall>e \<in> set es. known_event db' e" using group_ok_step[OF change_step[OF ch] g] by (simp add: group_ok_def)
    moreover have "sc_version c < sc_version c'" by (simp add: c'_def started_config_def)
    ultimately show ?thesis using ch q cm(1) t by (auto simp: a claim_ok_def quiet_def)
  qed
qed

section \<open>The end of a run\<close>

definition done_keys :: "sync_claim \<Rightarrow> (string \<times> string) list" where
  "done_keys c = map (\<lambda>l. (cl_tenant c, sl_idem l)) (cl_logs c)"

lemma finished_config_step: "owns_config now c row \<Longrightarrow> config_step row (finished_config now' out err row)"
  by (simp add: config_step_def finished_config_def config_key_def Let_def)

text \<open>What writing the outcome of a claim does: only a success acknowledges anything, namely the keys of the claim.\<close>

definition outcome_laws :: "sync_claim \<Rightarrow> bool \<Rightarrow> 'b sync_db \<Rightarrow> 'b sync_db \<Rightarrow> bool" where
  "outcome_laws c success db db' \<longleftrightarrow> change db db' \<and>
     (\<forall>l \<in> set (sd_logs db'). succeeded l \<longrightarrow> l \<in> set (sd_logs db) \<or> success \<and> (sl_tenant l, sl_idem l) \<in> set (done_keys c)) \<and>
     (\<forall>e \<in> set (sd_outbox db'). ob_status e = SUCCESS \<longrightarrow> e \<in> set (sd_outbox db) \<or> done_log db' (ob_tenant e) (ob_idem e)) \<and>
     (\<forall>(t, i) \<in> set (done_keys c). \<not> done_log db t i \<and> (success \<longrightarrow> done_log db' t i))"

lemma finishRun_laws:
  assumes "finishRun now c out failure db = Inr db'" and ok: "tables_ok db" and c: "claim_ok db c"
  shows "outcome_laws c (vo_status out = OutcomeSuccess) db db'"
proof -
  define err where "err = finish_error out failure"
  define db0 where "db0 = db\<lparr>sd_configs := map (\<lambda>row. if owns_config now c row then finished_config now out err row else row) (sd_configs db)\<rparr>"
  obtain db1 db2 where f: "finish_logs now c out err (cl_logs c) db0 = Inr db1" "finishEvents now (cl_events c) (vo_status out = OutcomeSuccess) err db1 = Inr db2"
    and r: "db' = (if vo_status out \<noteq> OutcomeSuccess \<and> vo_status out \<noteq> OutcomeDisabled then raise_exception c err db2 else db2)"
    using assms(1) unfolding finishRun_def Let_def err_def[symmetric] db0_def[symmetric] by (elim bindE_InrE) (auto simp del: assure_Inr)
  have ch0: "change db db0" unfolding db0_def by (rule configs_change) (rule finished_config_step)
  have ok0: "tables_ok db0" by (rule change_ok[OF ch0 ok])
  have c0: "claim_ok db0 c" by (rule claim_ok_step[OF change_step[OF ch0] c])
  have same: "sd_logs db0 = sd_logs db" "sd_outbox db0 = sd_outbox db" by (simp_all add: db0_def)
  have k: "\<forall>l \<in> set (cl_logs c). known_log db0 l \<and> sl_tenant l = cl_tenant c" using c0 by (simp add: claim_ok_def)
  note fl = finish_logs_laws[OF f(1) ok0 k]
  have ch1: "change db0 db1" using fl by blast
  have ok1: "tables_ok db1" by (rule change_ok[OF ch1 ok0])
  have c1: "claim_ok db1 c" by (rule claim_ok_step[OF change_step[OF ch1] c0])
  note fe = finishEvents_laws[OF f(2)]
  have tables: "sd_logs db' = sd_logs db1" "sd_outbox db' = sd_outbox db2" using fe(3) by (simp_all add: r)
  have ch: "change db db'" using change_trans[OF ch0 change_trans[OF ch1 fe(1)]] by (simp add: r)
  have dl: "done_log db' t i = done_log db1 t i" "done_log db0 t i = done_log db t i" for t i by (simp_all add: done_log_def tables same)
  have logs: "l \<in> set (sd_logs db) \<or> vo_status out = OutcomeSuccess \<and> (sl_tenant l, sl_idem l) \<in> set (done_keys c)"
    if "l \<in> set (sd_logs db')" "succeeded l" for l
    using fl that unfolding tables same[symmetric] quiet_def done_keys_def by auto
  have events: "e \<in> set (sd_outbox db) \<or> done_log db' (ob_tenant e) (ob_idem e)" if e: "e \<in> set (sd_outbox db')" "ob_status e = SUCCESS" for e
  proof (cases "vo_status out = OutcomeSuccess")
    case False
    then have "quiet db1 db2" using fe(4) by simp
    then show ?thesis using e fl by (simp add: quiet_def tables same)
  next
    case True
    have kn: "\<forall>e \<in> set (cl_events c). known_event db1 e" using c1 by (simp add: claim_ok_def)
    have "e \<in> set (sd_outbox db1) \<or> (\<exists>d \<in> set (cl_events c). event_key e = event_key d)"
      using fe(5)[OF ok1 kn _ e(2)] e(1) by (simp add: tables)
    moreover have "done_log db1 (ob_tenant d) (ob_idem d)" if d: "d \<in> set (cl_events c)" for d
    proof -
      have "ob_tenant d = cl_tenant c" "ob_idem d \<in> sl_idem ` set (cl_logs c) \<or> done_log db1 (cl_tenant c) (ob_idem d)"
        using c1 d by (simp_all add: claim_ok_def)
      then show ?thesis using fl True by auto
    qed
    ultimately show ?thesis using fl by (auto simp: dl same key_eq)
  qed
  have "\<not> done_log db t i \<and> (vo_status out = OutcomeSuccess \<longrightarrow> done_log db' t i)" if "(t, i) \<in> set (done_keys c)" for t i
    using fl that by (auto simp: done_keys_def dl)
  then show ?thesis using ch logs events unfolding outcome_laws_def by blast
qed

lemma outcome_laws_before:
  assumes "change db db0" and "quiet db db0" and "outcome_laws c ok db0 db'"
  shows "outcome_laws c ok db db'"
  using assms(3) change_trans[OF assms(1)] assms(2) done_log_step[OF change_step[OF assms(1)]] unfolding outcome_laws_def quiet_def by blast

lemma executeTask_laws:
  assumes "executeTask exec c scope tx db = Inr (res, db')" and ok: "tables_ok db" and c: "claim_ok db c"
  shows "outcome_laws c (sr_status res = OutcomeSuccess) db db'"
proof -
  obtain raw events x out where f: "finishRun (tx_end tx) c out None (foldl (\<lambda>d n. enqueue_event (tx_now tx) (cl_tenant c) n d) (db\<lparr>sd_data := x\<rparr>) events) = Inr db'"
    and r: "sr_status res = vo_status out"
    using assms(1) unfolding executeTask_def by (elim bindE_InrE) (auto simp: err_simps split: prod.splits)
  define db0 where "db0 = foldl (\<lambda>d n. enqueue_event (tx_now tx) (cl_tenant c) n d) (db\<lparr>sd_data := x\<rparr>) events"
  have ch: "change db db0" unfolding db0_def by (rule change_trans[OF _ enqueue_all_change(1)]) (simp add: change_refl)
  have q: "quiet db db0" unfolding db0_def by (rule quiet_trans[OF _ enqueue_all_change(2)]) (simp add: quiet_refl)
  have "outcome_laws c (vo_status out = OutcomeSuccess) db0 db'"
    by (rule finishRun_laws[OF f[folded db0_def] change_ok[OF ch ok] claim_ok_step[OF change_step[OF ch] c]])
  then show ?thesis unfolding r by (rule outcome_laws_before[OF ch q])
qed

lemma outcome_laws_refl: "\<forall>(t, i) \<in> set (done_keys c). \<not> done_log db t i \<Longrightarrow> outcome_laws c False db db"
  by (auto simp: outcome_laws_def)

lemma recordFailure_laws:
  assumes "recordFailure c e tx db = Inr (u, db')" and ok: "tables_ok db" and c: "claim_ok db c"
  shows "change db db' \<and> (\<forall>l \<in> set (sd_logs db'). succeeded l \<longrightarrow> l \<in> set (sd_logs db)) \<and>
    (\<forall>e \<in> set (sd_outbox db'). ob_status e = SUCCESS \<longrightarrow> e \<in> set (sd_outbox db) \<or> done_log db' (ob_tenant e) (ob_idem e))"
proof (cases "list_ex (\<lambda>row. owns_config (tx_now tx) c row \<and> sc_id row \<notin> set (tx_locked tx)) (sd_configs db)")
  case False
  then show ?thesis using assms(1) by (simp add: recordFailure_def change_refl)
next
  case True
  then have "finishRun (tx_now tx) c \<lparr>vo_count = 0, vo_metrics = None, vo_status = OutcomeBlocked\<rparr> (Some (errorText e)) db = Inr db'"
    using assms(1) by (auto simp: recordFailure_def err_simps)
  from finishRun_laws[OF this ok c] show ?thesis by (simp add: outcome_laws_def)
qed

section \<open>The system\<close>

text \<open>
  The tables, the clock, the groups and the claims (with their scopes) that were handed out to workers, and the keys
  whose work was committed, a key as often as it was.
\<close>

record 'b sync_sys =
  sy_db :: "'b sync_db"
  sy_now :: int
  sy_groups :: "sync_event list list"
  sy_claims :: "(sync_claim \<times> sync_scope option) list"
  sy_done :: "(string \<times> string) list"

text \<open>An edit of a task by a user, which the generic update of the module makes with a new version.\<close>

definition configure :: "string \<Rightarrow> bool \<Rightarrow> nat \<Rightarrow> 'b sync_db \<Rightarrow> 'b sync_db" where
  "configure i enabled minutes db = db\<lparr>sd_configs := map (\<lambda>c. if sc_id c = i
     then c\<lparr>sc_enabled := enabled, sc_interval := minutes, sc_version := sc_version c + 1\<rparr> else c) (sd_configs db)\<rparr>"

text \<open>Before the runner was in use: no events, and log rows of the older version, which counted no attempts.\<close>

definition sync_start :: "'b sync_db \<Rightarrow> bool" where
  "sync_start db \<longleftrightarrow> tables_ok db \<and> sd_outbox db = [] \<and> list_all (\<lambda>l. sl_attempts l = 0) (sd_logs db)"

inductive sync_reach :: "'b executor \<Rightarrow> int \<Rightarrow> 'b sync_sys \<Rightarrow> bool" for exec lease where
  start: "sync_start db \<Longrightarrow> sync_reach exec lease \<lparr>sy_db = db, sy_now = now, sy_groups = [], sy_claims = [], sy_done = []\<rparr>"
| clock: "sync_reach exec lease s \<Longrightarrow> sy_now s \<le> now \<Longrightarrow> sync_reach exec lease (s\<lparr>sy_now := now\<rparr>)"
| enqueue: "sync_reach exec lease s \<Longrightarrow> sync_reach exec lease (s\<lparr>sy_db := enqueue_event (sy_now s) tenant n (sy_db s)\<rparr>)"
| configure: "sync_reach exec lease s \<Longrightarrow> sync_reach exec lease (s\<lparr>sy_db := configure i enabled minutes (sy_db s)\<rparr>)"
| take_group: "sync_reach exec lease s \<Longrightarrow> tx_now tx = sy_now s \<Longrightarrow> claimEvents lease tenant limit excl tx (sy_db s) = Inr (es, db) \<Longrightarrow>
    sync_reach exec lease (s\<lparr>sy_db := db, sy_groups := es # sy_groups s\<rparr>)"
| repeated: "sync_reach exec lease s \<Longrightarrow> tx_now tx = sy_now s \<Longrightarrow> es = [] \<or> es \<in> set (sy_groups s) \<and> tenant = ob_tenant (hd es) \<Longrightarrow>
    claimTask lease tenant key type actor name idem scope es tx (sy_db s) = Inr (Repeated res, db) \<Longrightarrow> sync_reach exec lease (s\<lparr>sy_db := db\<rparr>)"
| claim: "sync_reach exec lease s \<Longrightarrow> tx_now tx = sy_now s \<Longrightarrow> es = [] \<or> es \<in> set (sy_groups s) \<and> tenant = ob_tenant (hd es) \<Longrightarrow>
    claimTask lease tenant key type actor name idem scope es tx (sy_db s) = Inr (Claimed c, db) \<Longrightarrow>
    sync_reach exec lease (s\<lparr>sy_db := db, sy_claims := (c, scope) # sy_claims s\<rparr>)"
| execute: "sync_reach exec lease s \<Longrightarrow> (c, scope) \<in> set (sy_claims s) \<Longrightarrow> tx_now tx = sy_now s \<Longrightarrow> sy_now s \<le> tx_end tx \<Longrightarrow>
    executeTask exec c scope tx (sy_db s) = Inr (res, db) \<Longrightarrow>
    sync_reach exec lease (s\<lparr>sy_db := db, sy_now := tx_end tx, sy_done := (if sr_status res = OutcomeSuccess then done_keys c else []) @ sy_done s\<rparr>)"
| record_failure: "sync_reach exec lease s \<Longrightarrow> (c, scope) \<in> set (sy_claims s) \<Longrightarrow> tx_now tx = sy_now s \<Longrightarrow>
    recordFailure c e tx (sy_db s) = Inr (u, db) \<Longrightarrow> sync_reach exec lease (s\<lparr>sy_db := db\<rparr>)"
| put_back: "sync_reach exec lease s \<Longrightarrow> es \<in> set (sy_groups s) \<Longrightarrow> tx_now tx = sy_now s \<Longrightarrow>
    failEvents es err busy tx (sy_db s) = Inr (u, db) \<Longrightarrow> sync_reach exec lease (s\<lparr>sy_db := db\<rparr>)"

definition sync_inv :: "'b sync_sys \<Rightarrow> bool" where
  "sync_inv s \<longleftrightarrow> tables_ok (sy_db s) \<and> (\<forall>es \<in> set (sy_groups s). group_ok (sy_db s) es) \<and>
     (\<forall>(c, scope) \<in> set (sy_claims s). claim_ok (sy_db s) c) \<and>
     distinct (map (\<lambda>(c, scope). (cl_config c, cl_version c)) (sy_claims s)) \<and> distinct (sy_done s) \<and>
     (\<forall>(t, i) \<in> set (sy_done s). done_log (sy_db s) t i) \<and>
     (\<forall>l \<in> set (sd_logs (sy_db s)). succeeded l \<longrightarrow> (sl_tenant l, sl_idem l) \<in> set (sy_done s)) \<and>
     (\<forall>e \<in> set (sd_outbox (sy_db s)). ob_status e = SUCCESS \<longrightarrow> done_log (sy_db s) (ob_tenant e) (ob_idem e))"

text \<open>A change of the tables that acknowledges no more keys keeps the invariant.\<close>

lemma sync_inv_change:
  assumes s: "sync_inv s" and ch: "change (sy_db s) db"
    and logs: "\<forall>l \<in> set (sd_logs db). succeeded l \<longrightarrow> l \<in> set (sd_logs (sy_db s))"
    and events: "\<forall>e \<in> set (sd_outbox db). ob_status e = SUCCESS \<longrightarrow> e \<in> set (sd_outbox (sy_db s)) \<or> done_log db (ob_tenant e) (ob_idem e)"
  shows "sync_inv (s\<lparr>sy_db := db\<rparr>)"
proof -
  note st = change_step[OF ch]
  have "\<forall>es \<in> set (sy_groups s). group_ok db es" using s group_ok_step[OF st] by (simp add: sync_inv_def)
  moreover have "\<forall>(c, scope) \<in> set (sy_claims s). claim_ok db c" using s claim_ok_step[OF st] by (auto simp: sync_inv_def)
  moreover have "\<forall>(t, i) \<in> set (sy_done s). done_log db t i" using s done_log_step[OF st] by (auto simp: sync_inv_def)
  moreover have "\<forall>e \<in> set (sd_outbox db). ob_status e = SUCCESS \<longrightarrow> done_log db (ob_tenant e) (ob_idem e)"
    using s events done_log_step[OF st] by (auto simp: sync_inv_def)
  ultimately show ?thesis using s logs change_ok[OF ch] by (simp add: sync_inv_def)
qed

lemma sync_inv_quiet: "sync_inv s \<Longrightarrow> change (sy_db s) db \<Longrightarrow> quiet (sy_db s) db \<Longrightarrow> sync_inv (s\<lparr>sy_db := db\<rparr>)"
  by (rule sync_inv_change) (simp_all add: quiet_def)

lemma sync_inv_parts:
  assumes "sync_inv s"
  shows "tables_ok (sy_db s)" "es \<in> set (sy_groups s) \<Longrightarrow> group_ok (sy_db s) es" "(c, scope) \<in> set (sy_claims s) \<Longrightarrow> claim_ok (sy_db s) c"
  using assms by (auto simp: sync_inv_def)

lemma sync_inv_clock [simp]: "sync_inv (s\<lparr>sy_now := now\<rparr>) = sync_inv s"
  by (simp add: sync_inv_def)

lemma sync_inv_group: "sync_inv (s\<lparr>sy_groups := es # sy_groups s\<rparr>) \<longleftrightarrow> sync_inv s \<and> group_ok (sy_db s) es"
  by (auto simp: sync_inv_def)

lemma sync_inv_claim:
  "sync_inv (s\<lparr>sy_claims := (c, scope) # sy_claims s\<rparr>) \<longleftrightarrow>
     sync_inv s \<and> claim_ok (sy_db s) c \<and> (cl_config c, cl_version c) \<notin> (\<lambda>(c, scope). (cl_config c, cl_version c)) ` set (sy_claims s)"
  by (auto simp: sync_inv_def)

lemma group_tenant:
  assumes "es = [] \<or> es \<in> set (sy_groups s) \<and> tenant = ob_tenant (hd es)" and "sync_inv s"
  shows "group_ok (sy_db s) es \<and> (\<forall>e \<in> set es. ob_tenant e = tenant)"
proof (cases "es = []")
  case False
  then have g: "group_ok (sy_db s) es" "tenant = ob_tenant (hd es)" using assms sync_inv_parts(2)[OF assms(2)] by auto
  then obtain t where "\<forall>e \<in> set es. ob_tenant e = t" by (auto simp: group_ok_def)
  then show ?thesis using g False by simp
qed (simp add: group_ok_def)

text \<open>The new claim has a version above those of all claims on its task.\<close>

lemma fresh_claim:
  assumes s: "sync_inv s" and row: "row \<in> set (sd_configs (sy_db s))" "sc_id row = cl_config c" "sc_version row < cl_version c"
  shows "(cl_config c, cl_version c) \<notin> (\<lambda>(c, scope). (cl_config c, cl_version c)) ` set (sy_claims s)"
proof
  assume "(cl_config c, cl_version c) \<in> (\<lambda>(c, scope). (cl_config c, cl_version c)) ` set (sy_claims s)"
  then obtain d scope where d: "(d, scope) \<in> set (sy_claims s)" "cl_config d = cl_config c" "cl_version d = cl_version c" by auto
  then obtain r where "r \<in> set (sd_configs (sy_db s))" "sc_id r = cl_config c" "cl_version c \<le> sc_version r"
    using sync_inv_parts(3)[OF s d(1)] by (auto simp: claim_ok_def)
  then show False using unique_row(1)[OF sync_inv_parts(1)[OF s], of r row] row by auto
qed

lemma configure_quiet: "change db (configure i enabled minutes db)" "quiet db (configure i enabled minutes db)"
  unfolding configure_def by (rule configs_change, simp add: config_step_def config_key_def) (rule configs_quiet)

text \<open>A committed run adds the keys of its claim, which were not done before.\<close>

lemma execute_inv:
  assumes s: "sync_inv s" and o: "outcome_laws c ok (sy_db s) db" and d: "distinct (done_keys c)"
  shows "sync_inv (s\<lparr>sy_db := db, sy_done := (if ok then done_keys c else []) @ sy_done s\<rparr>)"
proof -
  have ch: "change (sy_db s) db" using o by (simp add: outcome_laws_def)
  note st = change_step[OF ch]
  have old: "\<forall>(t, i) \<in> set (sy_done s). done_log db t i" using s done_log_step[OF st] by (auto simp: sync_inv_def)
  have "distinct ((if ok then done_keys c else []) @ sy_done s)" using s o d by (fastforce simp: outcome_laws_def sync_inv_def)
  moreover have "\<forall>(t, i) \<in> set ((if ok then done_keys c else []) @ sy_done s). done_log db t i" using old o by (auto simp: outcome_laws_def)
  moreover have "\<forall>l \<in> set (sd_logs db). succeeded l \<longrightarrow> (sl_tenant l, sl_idem l) \<in> set ((if ok then done_keys c else []) @ sy_done s)"
    using s o by (auto simp: outcome_laws_def sync_inv_def)
  moreover have "\<forall>e \<in> set (sd_outbox db). ob_status e = SUCCESS \<longrightarrow> done_log db (ob_tenant e) (ob_idem e)"
    using s o done_log_step[OF st] by (auto simp: outcome_laws_def sync_inv_def)
  moreover have "\<forall>es \<in> set (sy_groups s). group_ok db es" using s group_ok_step[OF st] by (simp add: sync_inv_def)
  moreover have "\<forall>(c, scope) \<in> set (sy_claims s). claim_ok db c" using s claim_ok_step[OF st] by (auto simp: sync_inv_def)
  ultimately show ?thesis using s change_ok[OF ch] by (simp add: sync_inv_def)
qed

lemma sync_reach_inv: "sync_reach exec lease s \<Longrightarrow> sync_inv s"
proof (induction rule: sync_reach.induct)
  case (start db now)
  then show ?case by (auto simp: sync_inv_def sync_start_def succeeded_def list_all_iff)
next
  case (clock s now)
  then show ?case by simp
next
  case (enqueue s tenant n)
  then show ?case using sync_inv_quiet enqueue_change by blast
next
  case (configure s i enabled minutes)
  then show ?case using sync_inv_quiet configure_quiet by blast
next
  case (take_group s tx tenant limit excl es db)
  note l = claimEvents_laws[OF take_group(3) sync_inv_parts(1)[OF take_group.IH]]
  have "sync_inv (s\<lparr>sy_db := db\<rparr>)" by (rule sync_inv_quiet[OF take_group.IH l(1,2)])
  then show ?case using l(3) sync_inv_group[where s = "s\<lparr>sy_db := db\<rparr>"] by simp
next
  case (repeated s tx es tenant key type actor name idem scope res db)
  note g = group_tenant[OF repeated(3) repeated.IH]
  note l = claimTask_laws[OF repeated(4) sync_inv_parts(1)[OF repeated.IH] conjunct1[OF g] conjunct2[OF g]]
  show ?case by (rule sync_inv_change[OF repeated.IH]) (use l in simp_all)
next
  case (claim s tx es tenant key type actor name idem scope c db)
  note g = group_tenant[OF claim(3) claim.IH]
  note l = claimTask_laws[OF claim(4) sync_inv_parts(1)[OF claim.IH] conjunct1[OF g] conjunct2[OF g]]
  have "sync_inv (s\<lparr>sy_db := db\<rparr>)" by (rule sync_inv_change[OF claim.IH]) (use l in simp_all)
  moreover have "(cl_config c, cl_version c) \<notin> (\<lambda>(c, scope). (cl_config c, cl_version c)) ` set (sy_claims s)"
  proof -
    obtain row where "row \<in> set (sd_configs (sy_db s))" "sc_id row = cl_config c" "sc_version row < cl_version c" using l by auto
    then show ?thesis by (rule fresh_claim[OF claim.IH])
  qed
  ultimately show ?case using l sync_inv_claim[where s = "s\<lparr>sy_db := db\<rparr>"] by simp
next
  case (execute s c scope tx res db)
  note k = sync_inv_parts(3)[OF execute.IH execute(2)]
  have "distinct (done_keys c)" using k by (auto simp: claim_ok_def done_keys_def distinct_map inj_on_def)
  from execute_inv[OF execute.IH executeTask_laws[OF execute(5) sync_inv_parts(1)[OF execute.IH] k] this]
  show ?case by (cases "sr_status res = OutcomeSuccess") (simp_all add: sync_inv_def)
next
  case (record_failure s c scope tx e u db)
  note l = recordFailure_laws[OF record_failure(4) sync_inv_parts(1)[OF record_failure.IH] sync_inv_parts(3)[OF record_failure.IH record_failure(2)]]
  show ?case by (rule sync_inv_change[OF record_failure.IH]) (use l in simp_all)
next
  case (put_back s es tx err busy u db)
  show ?case by (rule sync_inv_quiet[OF put_back.IH failEvents_laws[OF put_back(4)]])
qed

section \<open>What the system guarantees\<close>

text \<open>C30: In every state the workers can reach, whatever fails and however often work is retried, no event's work was
  committed twice, an event is marked as done only if its work was committed, and the log rows that count as verified
  successes are exactly those of committed work.\<close>

theorem sync_exactly_once:
  assumes "sync_reach exec lease s"
  shows "distinct (sy_done s) \<and>
    (\<forall>e \<in> set (sd_outbox (sy_db s)). ob_status e = SUCCESS \<longrightarrow> (ob_tenant e, ob_idem e) \<in> set (sy_done s)) \<and>
    (\<forall>l \<in> set (sd_logs (sy_db s)). succeeded l \<longleftrightarrow> (sl_tenant l, sl_idem l) \<in> set (sy_done s))"
proof -
  have s: "sync_inv s" by (rule sync_reach_inv[OF assms])
  then have "\<forall>e \<in> set (sd_outbox (sy_db s)). ob_status e = SUCCESS \<longrightarrow> (ob_tenant e, ob_idem e) \<in> set (sy_done s)"
    by (force simp: sync_inv_def done_log_def)
  moreover have "succeeded l" if l: "l \<in> set (sd_logs (sy_db s))" "(sl_tenant l, sl_idem l) \<in> set (sy_done s)" for l
  proof -
    obtain m where m: "m \<in> set (sd_logs (sy_db s))" "sl_tenant m = sl_tenant l" "sl_idem m = sl_idem l" "succeeded m"
      using s l(2) by (auto simp: sync_inv_def done_log_def)
    then have "m = l" using unique_row(4)[OF sync_inv_parts(1)[OF s] m(1) l(1)] by simp
    then show ?thesis using m(4) by simp
  qed
  ultimately show ?thesis using s by (auto simp: sync_inv_def)
qed

lemma owner_unique:
  assumes s: "sync_inv s" and c: "(c, a) \<in> set (sy_claims s)" "list_ex (owns_config now c) (sd_configs (sy_db s))"
    and d: "(d, b) \<in> set (sy_claims s)" "list_ex (owns_config now' d) (sd_configs (sy_db s))"
    and k: "cl_tenant d = cl_tenant c" "cl_key d = cl_key c"
  shows "(d, b) = (c, a)"
proof -
  note u = unique_row(1,2)[OF sync_inv_parts(1)[OF s]]
  obtain rc where rc: "rc \<in> set (sd_configs (sy_db s))" "sc_id rc = cl_config c" "sc_version rc = cl_version c"
    using c(2) by (auto simp: list_ex_iff owns_config_def)
  obtain rd where rd: "rd \<in> set (sd_configs (sy_db s))" "sc_id rd = cl_config d" "sc_version rd = cl_version d"
    using d(2) by (auto simp: list_ex_iff owns_config_def)
  obtain tc where tc: "tc \<in> set (sd_configs (sy_db s))" "sc_id tc = cl_config c" "sc_tenant tc = cl_tenant c" "sc_key tc = cl_key c"
    using sync_inv_parts(3)[OF s c(1)] by (auto simp: claim_ok_def)
  obtain td where td: "td \<in> set (sd_configs (sy_db s))" "sc_id td = cl_config d" "sc_tenant td = cl_tenant d" "sc_key td = cl_key d"
    using sync_inv_parts(3)[OF s d(1)] by (auto simp: claim_ok_def)
  have "td = tc" using u(2)[OF td(1) tc(1)] tc td k by simp
  then have "rd = rc" using u(1)[OF rd(1) td(1)] u(1)[OF rc(1) tc(1)] rd rc td tc by simp
  then have "(cl_config d, cl_version d) = (cl_config c, cl_version c)" using rd rc by simp
  moreover have "distinct (map (\<lambda>(c, scope). (cl_config c, cl_version c)) (sy_claims s))" using s by (simp add: sync_inv_def)
  ultimately show ?thesis using d(1) c(1) by (auto dest: distinct_map_eq[where f = "\<lambda>(c, scope). (cl_config c, cl_version c)"])
qed

lemma not_owner:
  assumes "\<not> list_ex (owns_config (tx_now tx) d) (sd_configs db)"
  shows "executeTask exec d scope tx db = Inl SyncLeaseLost" "recordFailure d e tx db = Inr ((), db)"
proof -
  have n: "\<not> list_ex (\<lambda>row. owns_config (tx_now tx) d row \<and> sc_id row \<notin> set (tx_locked tx)) (sd_configs db)"
    using assms by (auto simp: list_ex_iff)
  then show "executeTask exec d scope tx db = Inl SyncLeaseLost" by (simp add: executeTask_def lockOwned_def assure_def)
  show "recordFailure d e tx db = Inr ((), db)" using n by (simp add: recordFailure_def)
qed

text \<open>C31: A task has one worker: while a claim holds its task, every attempt to claim that task is refused as busy, and
  no other claim on the task can commit work or even record a failure.\<close>

theorem sync_one_worker:
  assumes "sync_reach exec lease s" and "(c, a) \<in> set (sy_claims s)" and "list_ex (owns_config now c) (sd_configs (sy_db s))"
  shows "(\<forall>(d, b) \<in> set (sy_claims s). cl_tenant d = cl_tenant c \<longrightarrow> cl_key d = cl_key c \<longrightarrow> (d, b) \<noteq> (c, a) \<longrightarrow>
      executeTask exec d b tx (sy_db s) = Inl SyncLeaseLost \<and> recordFailure d e tx (sy_db s) = Inr ((), sy_db s)) \<and>
    (tx_now tx = now \<longrightarrow> claimTask lease (cl_tenant c) (cl_key c) type actor name idem scope es tx (sy_db s) = Inl SyncBusy)"
proof -
  have s: "sync_inv s" by (rule sync_reach_inv[OF assms(1)])
  have others: "\<forall>(d, b) \<in> set (sy_claims s). cl_tenant d = cl_tenant c \<longrightarrow> cl_key d = cl_key c \<longrightarrow> (d, b) \<noteq> (c, a) \<longrightarrow>
      executeTask exec d b tx (sy_db s) = Inl SyncLeaseLost \<and> recordFailure d e tx (sy_db s) = Inr ((), sy_db s)"
    using owner_unique[OF s assms(2,3)] not_owner by blast
  note u = unique_row(1,2)[OF sync_inv_parts(1)[OF s]]
  obtain row where row: "row \<in> set (sd_configs (sy_db s))" "owns_config now c row" using assms(3) by (auto simp: list_ex_iff)
  obtain t where t: "t \<in> set (sd_configs (sy_db s))" "sc_id t = cl_config c" "sc_tenant t = cl_tenant c" "sc_key t = cl_key c"
    using sync_inv_parts(3)[OF s assms(2)] by (auto simp: claim_ok_def)
  then have "t = row" using u(1)[OF t(1) row(1)] row(2) by (simp add: owns_config_def)
  obtain f where f: "find_config (cl_tenant c) (cl_key c) (sy_db s) = Some f"
    using t by (cases "find_config (cl_tenant c) (cl_key c) (sy_db s)") (auto simp: find_config_def find_None_iff)
  then have "f \<in> set (sd_configs (sy_db s))" "sc_tenant f = cl_tenant c" "sc_key f = cl_key c" unfolding find_config_def by (auto dest: find_Some_mem)
  then have "f = row" using u(2)[of f t] t \<open>t = row\<close> by simp
  then have "sc_status f = RUNNING" "lease_runs now (sc_lease f)" using row(2) by (simp_all add: owns_config_def)
  then have "tx_now tx = now \<longrightarrow> claimTask lease (cl_tenant c) (cl_key c) type actor name idem scope es tx (sy_db s) = Inl SyncBusy"
    by (auto simp: claimTask_def f assure_def lease_runs_def)
  then show ?thesis using others by blast
qed

end
