(* ===== verification/SyncWorkers.thy ===== *)
theory SyncWorkers
  imports SyncRunnerLaws
begin

text \<open>
  The worker's loop.  \<open>processOutbox\<close> is a path of the system of \<open>SyncRunnerLaws\<close>, whatever the other workers do
  between its transactions and whichever of these fail, so the guarantees there hold at its end.  It stops after a
  number of transactions fixed by its limit, takes no event twice, and leaves none open unless it reached the limit.
\<close>

section \<open>Transactions as steps of the system\<close>

definition sync_later :: "'b sync_sys \<Rightarrow> 'b sync_sys \<Rightarrow> bool" where
  "sync_later s s' \<longleftrightarrow> set (sy_groups s) \<subseteq> set (sy_groups s') \<and> set (sy_claims s) \<subseteq> set (sy_claims s') \<and> set (sy_done s) \<subseteq> set (sy_done s')"

lemma sync_later_refl [intro]: "sync_later s s"
  by (simp add: sync_later_def)

lemma sync_later_trans: "sync_later s s1 \<Longrightarrow> sync_later s1 s2 \<Longrightarrow> sync_later s s2"
  unfolding sync_later_def by blast

text \<open>The clock does not go backwards, and what happens between two transactions of the worker is a path of the system.\<close>

definition world_ok :: "'b sync_world \<Rightarrow> bool" where
  "world_ok w \<longleftrightarrow> (\<forall>n. tx_now (sw_tx w n) \<le> tx_end (sw_tx w n) \<and> tx_end (sw_tx w n) \<le> tx_now (sw_tx w (Suc n))) \<and>
     (\<forall>n s. sync_reach (sw_exec w) (sw_lease w) s \<longrightarrow> sy_now s \<le> tx_now (sw_tx w n) \<longrightarrow>
        (\<exists>s'. sync_reach (sw_exec w) (sw_lease w) s' \<and> sync_later s s' \<and> sy_db s' = sw_others w n (sy_db s) \<and> sy_now s' = tx_now (sw_tx w n)))"

definition arrives :: "'b sync_world \<Rightarrow> 'b sync_sys \<Rightarrow> nat \<times> 'b sync_db \<Rightarrow> 'b sync_sys \<Rightarrow> bool" where
  "arrives w s st s' \<longleftrightarrow> sync_reach (sw_exec w) (sw_lease w) s' \<and> sync_later s s' \<and> sy_db s' = snd st \<and> sy_now s' \<le> tx_now (sw_tx w (fst st))"

lemma arrives_trans: "arrives w s st s1 \<Longrightarrow> arrives w s1 st' s2 \<Longrightarrow> arrives w s st' s2"
  unfolding arrives_def using sync_later_trans by blast

lemma arrives_after: "arrives w s st s1 \<Longrightarrow> \<exists>s2. arrives w s1 st' s2 \<Longrightarrow> \<exists>s2. arrives w s st' s2"
  using arrives_trans by blast

lemma arrives_start: "arrives w s st s1 \<Longrightarrow> arrives w s1 st s1"
  unfolding arrives_def by blast

text \<open>A transaction whose effect is a step from any state at its time.\<close>

definition is_step :: "'b sync_world \<Rightarrow> 'b sync_sys \<Rightarrow> nat \<Rightarrow> (sync_tx \<Rightarrow> 'b sync_db \<Rightarrow> sync_error + 'a \<times> 'b sync_db) \<Rightarrow> ('a \<Rightarrow> 'b sync_sys \<Rightarrow> bool) \<Rightarrow> bool" where
  "is_step w s n f Q \<longleftrightarrow> (\<forall>s1 x db. sync_reach (sw_exec w) (sw_lease w) s1 \<longrightarrow> sync_later s s1 \<longrightarrow> sy_now s1 = tx_now (sw_tx w n) \<longrightarrow>
     f (sw_tx w n) (sy_db s1) = Inr (x, db) \<longrightarrow>
     (\<exists>s2. sync_reach (sw_exec w) (sw_lease w) s2 \<and> sync_later s1 s2 \<and> sy_db s2 = db \<and> sy_now s2 \<le> tx_end (sw_tx w n) \<and> Q x s2))"

lemma is_stepI:
  assumes "\<And>s1 x db. sync_reach (sw_exec w) (sw_lease w) s1 \<Longrightarrow> sync_later s s1 \<Longrightarrow> sy_now s1 = tx_now (sw_tx w n) \<Longrightarrow>
      tx_now (sw_tx w n) \<le> tx_end (sw_tx w n) \<Longrightarrow> f (sw_tx w n) (sy_db s1) = Inr (x, db) \<Longrightarrow>
      \<exists>s2. sync_reach (sw_exec w) (sw_lease w) s2 \<and> sync_later s1 s2 \<and> sy_db s2 = db \<and> sy_now s2 \<le> tx_end (sw_tx w n) \<and> Q x s2"
    and "world_ok w"
  shows "is_step w s n f Q"
  using assms unfolding is_step_def world_ok_def by blast

lemma in_tx_step:
  assumes w: "world_ok w" and s: "arrives w s0 (n, db) s" and f: "is_step w s n f Q" and tx: "in_tx w f (n, db) = (r, st)"
  shows "fst st = Suc n \<and> (\<exists>s2. arrives w s st s2 \<and> (\<forall>x. r = Inr x \<longrightarrow> Q x s2))"
proof -
  have time: "tx_now (sw_tx w n) \<le> tx_end (sw_tx w n)" "tx_end (sw_tx w n) \<le> tx_now (sw_tx w (Suc n))" using w by (simp_all add: world_ok_def)
  obtain s1 where s1: "sync_reach (sw_exec w) (sw_lease w) s1" "sync_later s s1" "sy_db s1 = sw_others w n db" "sy_now s1 = tx_now (sw_tx w n)"
    using w s by (force simp: world_ok_def arrives_def)
  obtain d where t: "transact (sw_tx w n) f (sy_db s1) = (r, d)" "st = (Suc n, d)"
    using tx by (auto simp: in_tx_def s1(3) split: prod.splits)
  have stay: "arrives w s (Suc n, sy_db s1) s1" using s1 time by (auto simp: arrives_def)
  show ?thesis
  proof (cases "f (sw_tx w n) (sy_db s1)")
    case (Inl e)
    then have "d = sy_db s1" "\<forall>x. r \<noteq> Inr x" using t(1) by (auto simp: transact_def split: fault.splits)
    then show ?thesis using stay t(2) by auto
  next
    case (Inr y)
    obtain x db' where y: "y = (x, db')" by force
    obtain s2 where s2: "sync_reach (sw_exec w) (sw_lease w) s2" "sync_later s1 s2" "sy_db s2 = db'" "sy_now s2 \<le> tx_end (sw_tx w n)" "Q x s2"
      using f s1 Inr unfolding y is_step_def by blast
    have go: "arrives w s (Suc n, db') s2" using s2 s1(2) time sync_later_trans by (fastforce simp: arrives_def)
    show ?thesis
    proof (cases "tx_fault (sw_tx w n)")
      case NoFault
      then show ?thesis using t Inr y go s2(5) by (auto simp: transact_def)
    next
      case (RolledBack e)
      then show ?thesis using t stay by (auto simp: transact_def)
    next
      case (AnswerLost e)
      then show ?thesis using t Inr y go by (auto simp: transact_def)
    qed
  qed
qed

lemma later_group: "es \<in> set (sy_groups s) \<Longrightarrow> sync_later s s1 \<Longrightarrow> es \<in> set (sy_groups s1)"
  by (auto simp: sync_later_def)

lemma later_claim: "c \<in> set (sy_claims s) \<Longrightarrow> sync_later s s1 \<Longrightarrow> c \<in> set (sy_claims s1)"
  by (auto simp: sync_later_def)

lemma claimEvents_step:
  assumes "world_ok w"
  shows "is_step w s n (claimEvents (sw_lease w) tenant limit excl) (\<lambda>es s2. es \<in> set (sy_groups s2) \<and> (\<forall>e \<in> set es. ob_tenant e = tenant \<and> ob_id e \<notin> set excl) \<and>
     length es \<le> limit \<and> distinct (map ob_id es) \<and>
     (es = [] \<longrightarrow> 0 < limit \<longrightarrow> (\<forall>e \<in> set (sd_outbox (sy_db s2)). \<not> open_for (sw_tx w n) tenant excl e)))"
proof (rule is_stepI[OF _ assms])
  fix s1 es db
  assume a: "sync_reach (sw_exec w) (sw_lease w) s1" "sy_now s1 = tx_now (sw_tx w n)" "tx_now (sw_tx w n) \<le> tx_end (sw_tx w n)"
    and c: "claimEvents (sw_lease w) tenant limit excl (sw_tx w n) (sy_db s1) = Inr (es, db)"
  note l = claimEvents_laws[OF c sync_inv_parts(1)[OF sync_reach_inv[OF a(1)]]]
  have "sync_reach (sw_exec w) (sw_lease w) (s1\<lparr>sy_db := db, sy_groups := es # sy_groups s1\<rparr>)" by (rule sync_reach.take_group[OF a(1) a(2)[symmetric] c])
  then show "\<exists>s2. sync_reach (sw_exec w) (sw_lease w) s2 \<and> sync_later s1 s2 \<and> sy_db s2 = db \<and> sy_now s2 \<le> tx_end (sw_tx w n) \<and>
      es \<in> set (sy_groups s2) \<and> (\<forall>e \<in> set es. ob_tenant e = tenant \<and> ob_id e \<notin> set excl) \<and> length es \<le> limit \<and> distinct (map ob_id es) \<and>
      (es = [] \<longrightarrow> 0 < limit \<longrightarrow> (\<forall>e \<in> set (sd_outbox (sy_db s2)). \<not> open_for (sw_tx w n) tenant excl e))"
    using l a(2,3) by (intro exI[of _ "s1\<lparr>sy_db := db, sy_groups := es # sy_groups s1\<rparr>"]) (auto simp: sync_later_def)
qed

lemma claimTask_step:
  assumes "world_ok w" and "es = [] \<or> es \<in> set (sy_groups s) \<and> tenant = ob_tenant (hd es)"
  shows "is_step w s n (claimTask (sw_lease w) tenant key type actor name idem scope es) (\<lambda>ans s2. case ans of Repeated res \<Rightarrow> True | Claimed c \<Rightarrow> (c, scope) \<in> set (sy_claims s2))"
proof (rule is_stepI[OF _ assms(1)])
  fix s1 ans db
  assume a: "sync_reach (sw_exec w) (sw_lease w) s1" "sy_now s1 = tx_now (sw_tx w n)" "tx_now (sw_tx w n) \<le> tx_end (sw_tx w n)"
    and l: "sync_later s s1"
    and c: "claimTask (sw_lease w) tenant key type actor name idem scope es (sw_tx w n) (sy_db s1) = Inr (ans, db)"
  have g: "es = [] \<or> es \<in> set (sy_groups s1) \<and> tenant = ob_tenant (hd es)" using assms(2) later_group[OF _ l] by blast
  show "\<exists>s2. sync_reach (sw_exec w) (sw_lease w) s2 \<and> sync_later s1 s2 \<and> sy_db s2 = db \<and> sy_now s2 \<le> tx_end (sw_tx w n) \<and>
      (case ans of Repeated res \<Rightarrow> True | Claimed c \<Rightarrow> (c, scope) \<in> set (sy_claims s2))"
  proof (cases ans)
    case (Repeated res)
    then have "sync_reach (sw_exec w) (sw_lease w) (s1\<lparr>sy_db := db\<rparr>)" using sync_reach.repeated[OF a(1) a(2)[symmetric] g] c by blast
    then show ?thesis using Repeated a(2,3) by (intro exI[of _ "s1\<lparr>sy_db := db\<rparr>"]) (auto simp: sync_later_def)
  next
    case (Claimed c')
    then have "sync_reach (sw_exec w) (sw_lease w) (s1\<lparr>sy_db := db, sy_claims := (c', scope) # sy_claims s1\<rparr>)"
      using sync_reach.claim[OF a(1) a(2)[symmetric] g] c by blast
    then show ?thesis using Claimed a(2,3) by (intro exI[of _ "s1\<lparr>sy_db := db, sy_claims := (c', scope) # sy_claims s1\<rparr>"]) (auto simp: sync_later_def)
  qed
qed

lemma executeTask_step:
  assumes "world_ok w" and "(c, scope) \<in> set (sy_claims s)"
  shows "is_step w s n (executeTask (sw_exec w) c scope) (\<lambda>_ _. True)"
proof (rule is_stepI[OF _ assms(1)])
  fix s1 res db
  assume a: "sync_reach (sw_exec w) (sw_lease w) s1" "sync_later s s1" "sy_now s1 = tx_now (sw_tx w n)" "tx_now (sw_tx w n) \<le> tx_end (sw_tx w n)"
    and c: "executeTask (sw_exec w) c scope (sw_tx w n) (sy_db s1) = Inr (res, db)"
  have m: "(c, scope) \<in> set (sy_claims s1)" by (rule later_claim[OF assms(2) a(2)])
  have "sy_now s1 \<le> tx_end (sw_tx w n)" using a(3,4) by simp
  from sync_reach.execute[OF a(1) m a(3)[symmetric] this c]
  show "\<exists>s2. sync_reach (sw_exec w) (sw_lease w) s2 \<and> sync_later s1 s2 \<and> sy_db s2 = db \<and> sy_now s2 \<le> tx_end (sw_tx w n) \<and> True"
    by (intro exI[of _ "s1\<lparr>sy_db := db, sy_now := tx_end (sw_tx w n), sy_done := (if sr_status res = OutcomeSuccess then done_keys c else []) @ sy_done s1\<rparr>"])
      (auto simp: sync_later_def)
qed

lemma recordFailure_step:
  assumes "world_ok w" and "(c, scope) \<in> set (sy_claims s)"
  shows "is_step w s n (recordFailure c e) (\<lambda>_ _. True)"
proof (rule is_stepI[OF _ assms(1)])
  fix s1 u db
  assume a: "sync_reach (sw_exec w) (sw_lease w) s1" "sync_later s s1" "sy_now s1 = tx_now (sw_tx w n)" "tx_now (sw_tx w n) \<le> tx_end (sw_tx w n)"
    and c: "recordFailure c e (sw_tx w n) (sy_db s1) = Inr (u, db)"
  from sync_reach.record_failure[OF a(1) later_claim[OF assms(2) a(2)] a(3)[symmetric] c]
  show "\<exists>s2. sync_reach (sw_exec w) (sw_lease w) s2 \<and> sync_later s1 s2 \<and> sy_db s2 = db \<and> sy_now s2 \<le> tx_end (sw_tx w n) \<and> True"
    using a(3,4) by (intro exI[of _ "s1\<lparr>sy_db := db\<rparr>"]) (auto simp: sync_later_def)
qed

lemma failEvents_step:
  assumes "world_ok w" and "es \<in> set (sy_groups s)"
  shows "is_step w s n (failEvents es err busy) (\<lambda>_ _. True)"
proof (rule is_stepI[OF _ assms(1)])
  fix s1 u db
  assume a: "sync_reach (sw_exec w) (sw_lease w) s1" "sync_later s s1" "sy_now s1 = tx_now (sw_tx w n)" "tx_now (sw_tx w n) \<le> tx_end (sw_tx w n)"
    and c: "failEvents es err busy (sw_tx w n) (sy_db s1) = Inr (u, db)"
  from sync_reach.put_back[OF a(1) later_group[OF assms(2) a(2)] a(3)[symmetric] c]
  show "\<exists>s2. sync_reach (sw_exec w) (sw_lease w) s2 \<and> sync_later s1 s2 \<and> sy_db s2 = db \<and> sy_now s2 \<le> tx_end (sw_tx w n) \<and> True"
    using a(3,4) by (intro exI[of _ "s1\<lparr>sy_db := db\<rparr>"]) (auto simp: sync_later_def)
qed

lemma verified_step:
  assumes "world_ok w"
  shows "is_step w s n (verified tenant es) (\<lambda>_ _. True)"
proof (rule is_stepI[OF _ assms])
  fix s1 k db
  assume a: "sync_reach (sw_exec w) (sw_lease w) s1" "sy_now s1 = tx_now (sw_tx w n)" "tx_now (sw_tx w n) \<le> tx_end (sw_tx w n)"
    and c: "verified tenant es (sw_tx w n) (sy_db s1) = Inr (k, db)"
  then show "\<exists>s2. sync_reach (sw_exec w) (sw_lease w) s2 \<and> sync_later s1 s2 \<and> sy_db s2 = db \<and> sy_now s2 \<le> tx_end (sw_tx w n) \<and> True"
    by (intro exI[of _ s1]) (auto simp: verified_def)
qed

section \<open>A group of events\<close>

lemma executed_run_step:
  assumes w: "world_ok w" and s: "arrives w s0 st s" and c: "(c, scope) \<in> set (sy_claims s)" and r: "executed_run w c scope st = (r, st')"
  shows "(\<exists>s'. arrives w s st' s') \<and> fst st' \<le> fst st + (case r of Inl e \<Rightarrow> 2 | Inr res \<Rightarrow> 1)"
proof -
  obtain n db where st: "st = (n, db)" by (cases st)
  obtain r1 st1 where t1: "in_tx w (executeTask (sw_exec w) c scope) (n, db) = (r1, st1)" by (cases "in_tx w (executeTask (sw_exec w) c scope) (n, db)")
  obtain s1 where s1: "arrives w s st1 s1" "fst st1 = Suc n" using in_tx_step[OF w s[unfolded st] executeTask_step[OF w c] t1] by blast
  show ?thesis
  proof (cases r1)
    case (Inr res)
    then show ?thesis using r s1 t1 by (auto simp: executed_run_def st)
  next
    case (Inl e)
    obtain r2 st2 where t2: "in_tx w (recordFailure c e) st1 = (r2, st2)" by (cases "in_tx w (recordFailure c e) st1")
    have c1: "(c, scope) \<in> set (sy_claims s1)" using later_claim[OF c] s1(1) by (simp add: arrives_def)
    have "arrives w s (Suc n, snd st1) s1" "in_tx w (recordFailure c e) (Suc n, snd st1) = (r2, st2)" using s1 t2 by (cases st1; simp)+
    then obtain s2 where s2: "arrives w s1 st2 s2" "fst st2 = Suc (Suc n)" using in_tx_step[OF w _ recordFailure_step[OF w c1]] by blast
    have "st' = st2 \<and> (\<exists>e. r = Inl e)" using r t1 t2 Inl by (auto simp: executed_run_def st split: sum.splits)
    then show ?thesis using arrives_trans[OF s1(1) s2(1)] s2(2) by (auto simp: st)
  qed
qed

lemma runSync_step:
  assumes w: "world_ok w" and s: "arrives w s0 st s" and g: "es = [] \<or> es \<in> set (sy_groups s) \<and> tenant = ob_tenant (hd es)"
    and r: "runSync w tenant key type actor name idem value es st = (r, st')"
  shows "(\<exists>s'. arrives w s st' s') \<and> fst st' \<le> fst st + (case r of Inl e \<Rightarrow> 3 | Inr res \<Rightarrow> 2)"
proof (cases "sync_scope_of key value")
  case (Inl e)
  then have "st' = st \<and> r = Inl e" using r by (simp add: runSync_def)
  then show ?thesis using arrives_start[OF s] by auto
next
  case (Inr scope)
  obtain n db where st: "st = (n, db)" by (cases st)
  obtain r1 st1 where t1: "in_tx w (claimTask (sw_lease w) tenant key type actor name idem scope es) (n, db) = (r1, st1)"
    by (cases "in_tx w (claimTask (sw_lease w) tenant key type actor name idem scope es) (n, db)")
  obtain s1 where s1: "arrives w s st1 s1" "fst st1 = Suc n"
    "\<forall>x. r1 = Inr x \<longrightarrow> (case x of Repeated res \<Rightarrow> True | Claimed c \<Rightarrow> (c, scope) \<in> set (sy_claims s1))"
    using in_tx_step[OF w s[unfolded st] claimTask_step[OF w g] t1] by blast
  show ?thesis
  proof (cases "\<exists>c. r1 = Inr (Claimed c)")
    case False
    then have "st' = st1" using r t1 Inr by (auto simp: runSync_def st split: sum.splits claim_answer.splits)
    then show ?thesis using s1(1,2) by (auto simp: st split: sum.splits)
  next
    case True
    then obtain c where c: "r1 = Inr (Claimed c)" by blast
    then have "(c, scope) \<in> set (sy_claims s1)" "executed_run w c scope st1 = (r, st')" using s1(3) r t1 Inr by (auto simp: runSync_def st)
    from executed_run_step[OF w s1(1) this] show ?thesis using arrives_after[OF s1(1), of st'] s1(2) by (auto simp: st split: sum.splits)
  qed
qed

lemma in_tx_fst: "in_tx w f st = (r, st') \<Longrightarrow> fst st' = Suc (fst st)"
  by (auto simp: in_tx_def split: prod.splits)

lemma in_tx_last:
  assumes w: "world_ok w" and s: "arrives w s0 st s" and f: "\<And>n. is_step w s n f (\<lambda>_ _. True)" and r: "in_tx w f st = (r, st')"
  shows "(\<exists>s'. arrives w s st' s') \<and> fst st' = Suc (fst st)"
  using in_tx_step[OF w, of s0 "fst st" "snd st" s f "\<lambda>_ _. True" r st'] s f r by auto

lemma try_group_step:
  assumes w: "world_ok w" and s: "arrives w s0 st s" and g: "es \<in> set (sy_groups s)" "tenant = ob_tenant (hd es)"
    and r: "try_group w tenant first es st = (r, st')"
  shows "(\<exists>s'. arrives w s st' s') \<and> fst st' \<le> fst st + 3"
proof (cases "sync_scope_of (ob_key first) (ob_scope first)")
  case (Inl e)
  then have "st' = st" using r by (simp add: try_group_def)
  then show ?thesis using arrives_start[OF s] by auto
next
  case (Inr scope)
  obtain r1 st1 where t1: "runSync w tenant (ob_key first) EVENT (ob_actor first) (ob_name first) (ob_idem first) (map_option scope_json scope) es st = (r1, st1)"
    by (cases "runSync w tenant (ob_key first) EVENT (ob_actor first) (ob_name first) (ob_idem first) (map_option scope_json scope) es st")
  have g': "es = [] \<or> es \<in> set (sy_groups s) \<and> tenant = ob_tenant (hd es)" using g by simp
  obtain s1 where s1: "arrives w s st1 s1" and n1: "fst st1 \<le> fst st + (case r1 of Inl e \<Rightarrow> 3 | Inr res \<Rightarrow> 2)"
    using runSync_step[OF w s g' t1] by blast
  have g1: "es \<in> set (sy_groups s1)" using later_group[OF g(1)] s1 by (simp add: arrives_def)
  show ?thesis
  proof (cases r1)
    case (Inl e)
    then have "st' = st1" using r t1 Inr by (simp add: try_group_def)
    then show ?thesis using s1 n1 Inl by auto
  next
    case res: (Inr res)
    show ?thesis
    proof (cases "sr_status res = OutcomeSuccess")
      case True
      obtain r2 st2 where t2: "in_tx w (verified tenant es) st1 = (r2, st2)" by (cases "in_tx w (verified tenant es) st1")
      have "st' = st2" using r t1 t2 Inr res True by (auto simp: try_group_def split: sum.splits)
      then show ?thesis using in_tx_last[OF w s1 verified_step[OF w] t2] arrives_after[OF s1, of st'] n1 res by auto
    next
      case False
      then have t2: "in_tx w (failEvents es (''not fully successful: '' @ status_word (sr_status res)) False) st1 = (r, st')"
        using r t1 Inr res by (simp add: try_group_def)
      then show ?thesis using in_tx_last[OF w s1 failEvents_step[OF w g1] t2] arrives_after[OF s1, of st'] n1 res by auto
    qed
  qed
qed

lemma do_group_step:
  assumes w: "world_ok w" and s: "arrives w s0 st s" and g: "es \<in> set (sy_groups s)" "tenant = ob_tenant (hd es)"
    and r: "do_group w tenant first es st = (r, st')"
  shows "(\<exists>s'. arrives w s st' s') \<and> fst st' \<le> fst st + 4"
proof -
  obtain r1 st1 where t1: "try_group w tenant first es st = (r1, st1)" by (cases "try_group w tenant first es st")
  obtain s1 where s1: "arrives w s st1 s1" "fst st1 \<le> fst st + 3" using try_group_step[OF w s g t1] by blast
  have g1: "es \<in> set (sy_groups s1)" using later_group[OF g(1)] s1 by (simp add: arrives_def)
  show ?thesis
  proof (cases r1)
    case (Inr u)
    then have "st' = st1" using r t1 by (simp add: do_group_def)
    then show ?thesis using s1 by auto
  next
    case (Inl e)
    then have "in_tx w (failEvents es (errorText e) (busy_error e)) st1 = (r, st')" using r t1 by (simp add: do_group_def)
    from in_tx_last[OF w s1(1) failEvents_step[OF w g1] this] show ?thesis using arrives_after[OF s1(1), of st'] s1(2) by auto
  qed
qed

section \<open>The loop\<close>

lemma outbox_loop_steps:
  assumes "world_ok w" and "arrives w s0 st s" and "outbox_loop w tenant limit processed seen st = (r, st')"
    and "distinct seen" and "length seen = processed" and "processed \<le> limit"
  shows "(\<exists>s'. arrives w s st' s') \<and> fst st' \<le> fst st + 5 * (limit - processed) + 1 \<and>
    (\<forall>k seen'. r = Inr (k, seen') \<longrightarrow> k \<le> limit \<and> distinct seen' \<and> length seen' = k \<and>
       (k < limit \<longrightarrow> (\<exists>n. Suc n = fst st' \<and> (\<forall>e \<in> set (sd_outbox (snd st')). \<not> open_for (sw_tx w n) tenant seen' e))))"
  using assms
proof (induction w tenant limit processed seen st arbitrary: s0 s rule: outbox_loop.induct)
  case (1 w tenant limit processed seen st)
  note w = "1.prems"(1) and s = "1.prems"(2)
  show ?case
  proof (cases "limit \<le> processed")
    case True
    then have "r = Inr (processed, seen) \<and> st' = st" using "1.prems"(3) by simp
    then show ?thesis using "1.prems"(4-6) arrives_start[OF s] True by auto
  next
    case False
    obtain n db where st: "st = (n, db)" by (cases st)
    obtain r1 st1 where t1: "in_tx w (claimEvents (sw_lease w) tenant (limit - processed) seen) (n, db) = (r1, st1)"
      by (cases "in_tx w (claimEvents (sw_lease w) tenant (limit - processed) seen) (n, db)")
    obtain s1 where s1: "arrives w s st1 s1" "fst st1 = Suc n"
      and es: "\<forall>es. r1 = Inr es \<longrightarrow> es \<in> set (sy_groups s1) \<and> (\<forall>e \<in> set es. ob_tenant e = tenant \<and> ob_id e \<notin> set seen) \<and>
        length es \<le> limit - processed \<and> distinct (map ob_id es) \<and>
        (es = [] \<longrightarrow> 0 < limit - processed \<longrightarrow> (\<forall>e \<in> set (sd_outbox (sy_db s1)). \<not> open_for (sw_tx w n) tenant seen e))"
      using in_tx_step[OF w s[unfolded st] claimEvents_step[OF w] t1] by blast
    consider (err) e where "r1 = Inl e" | (none) "r1 = Inr []" | (some) first rest where "r1 = Inr (first # rest)"
      by (metis neq_Nil_conv sum.exhaust)
    then show ?thesis
    proof cases
      case err
      then have "r = Inl e \<and> st' = st1" using "1.prems"(3) t1 False by (simp add: st)
      then show ?thesis using s1 by (auto simp: st)
    next
      case none
      then have r: "r = Inr (processed, seen) \<and> st' = st1" using "1.prems"(3) t1 False by (simp add: st)
      have "\<forall>e \<in> set (sd_outbox (snd st1)). \<not> open_for (sw_tx w n) tenant seen e" using es none False s1(1) by (auto simp: arrives_def)
      then show ?thesis using r s1 "1.prems"(4-6) by (auto simp: st)
    next
      case some
      note es1 = es[rule_format, OF some]
      obtain r2 st2 where t2: "do_group w tenant first (first # rest) st1 = (r2, st2)" by (cases "do_group w tenant first (first # rest) st1")
      have hd: "first # rest \<in> set (sy_groups s1)" "tenant = ob_tenant (hd (first # rest))" using es1 by simp_all
      obtain s2 where s2: "arrives w s1 st2 s2" "fst st2 \<le> Suc n + 4" using do_group_step[OF w s1(1) hd t2] s1(2) by auto
      show ?thesis
      proof (cases r2)
        case (Inl e)
        then have "r = Inl e \<and> st' = st2" using "1.prems"(3) t1 t2 some False by (simp add: st)
        then show ?thesis using arrives_trans[OF s1(1) s2(1)] s2(2) False by (auto simp: st)
      next
        case (Inr u)
        let ?p = "processed + length (first # rest)" and ?seen = "seen @ map ob_id (first # rest)"
        have rec: "outbox_loop w tenant limit ?p ?seen st2 = (r, st')" using "1.prems"(3) t1 t2 some False Inr by (simp add: st)
        have d: "distinct ?seen" "length ?seen = ?p" "?p \<le> limit" using "1.prems"(4,5) es1 False by auto
        have ih: "(\<exists>s'. arrives w s2 st' s') \<and> fst st' \<le> fst st2 + 5 * (limit - ?p) + 1 \<and>
          (\<forall>k seen'. r = Inr (k, seen') \<longrightarrow> k \<le> limit \<and> distinct seen' \<and> length seen' = k \<and>
             (k < limit \<longrightarrow> (\<exists>n. Suc n = fst st' \<and> (\<forall>e \<in> set (sd_outbox (snd st')). \<not> open_for (sw_tx w n) tenant seen' e))))"
          by (rule "1.IH"[OF False t1[folded st, symmetric] some refl t2[symmetric] Inr w s2(1) rec d])
        have "5 * (limit - ?p) + 5 \<le> 5 * (limit - processed)" using d(3) by simp
        then show ?thesis using ih s2(2) arrives_after[OF s1(1) arrives_after[OF s2(1)], of st'] by (auto simp: st)
      qed
    qed
  qed
qed

section \<open>What the loop guarantees\<close>

lemma processOutbox_steps:
  assumes "world_ok w" and "sync_reach (sw_exec w) (sw_lease w) s" and "sy_now s \<le> tx_now (sw_tx w n)"
    and "processOutbox w tenant limit (n, sy_db s) = (r, n', db)"
  shows "n' \<le> n + 5 * limit + 1 \<and> (\<exists>s'. sync_reach (sw_exec w) (sw_lease w) s' \<and> sy_db s' = db) \<and>
    (\<forall>k. r = Inr k \<longrightarrow> k \<le> limit \<and> (\<exists>seen. distinct seen \<and> length seen = k \<and>
       (k < limit \<longrightarrow> (\<forall>e \<in> set (sd_outbox db). \<not> open_for (sw_tx w (n' - 1)) tenant seen e))))"
proof -
  obtain r1 where o: "outbox_loop w tenant limit 0 [] (n, sy_db s) = (r1, n', db)" and r1: "r = Inr k \<Longrightarrow> \<exists>seen. r1 = Inr (k, seen)" for k
    using assms(4) by (auto simp: processOutbox_def split: prod.splits sum.splits)
  have "arrives w s (n, sy_db s) s" using assms(2,3) by (auto simp: arrives_def)
  note l = outbox_loop_steps[OF assms(1) this o distinct.simps(1)[THEN iffD2, OF TrueI]]
  have "n' \<le> n + 5 * limit + 1" using l by simp
  moreover have "\<exists>s'. sync_reach (sw_exec w) (sw_lease w) s' \<and> sy_db s' = db" using l by (auto simp: arrives_def)
  moreover have "k \<le> limit \<and> (\<exists>seen. distinct seen \<and> length seen = k \<and>
       (k < limit \<longrightarrow> (\<forall>e \<in> set (sd_outbox db). \<not> open_for (sw_tx w (n' - 1)) tenant seen e)))" if k: "r = Inr k" for k
  proof -
    obtain seen where seen: "r1 = Inr (k, seen)" using r1[OF k] by blast
    have "k \<le> limit \<and> distinct seen \<and> length seen = k \<and>
      (k < limit \<longrightarrow> (\<exists>m. Suc m = n' \<and> (\<forall>e \<in> set (sd_outbox db). \<not> open_for (sw_tx w m) tenant seen e)))" using l seen by simp
    then show ?thesis by (metis diff_Suc_1)
  qed
  ultimately show ?thesis by blast
qed


section \<open>Sample runs\<close>

definition sample_tx :: "int \<Rightarrow> sync_tx" where
  "sample_tx t = \<lparr>tx_now = t, tx_end = t, tx_locked = [], tx_ids = (\<lambda>k. ''log-'' @ k), tx_fault = NoFault\<rparr>"

definition sample_exec :: "nat executor" where
  "sample_exec key tenant actor name scope x = Inr (Some \<lparr>so_count = Some 3, so_metrics = None, so_status = None, so_skipped = False\<rparr>, [], x + 3)"

definition sample_world :: "nat sync_world" where
  "sample_world = \<lparr>sw_lease = 300000, sw_exec = sample_exec, sw_tx = (\<lambda>n. sample_tx (int n * 10)), sw_others = (\<lambda>n db. db)\<rparr>"

definition sample_config :: sync_config where
  "sample_config = \<lparr>sc_id = ''c1'', sc_tenant = ''T'', sc_key = ''erp-orders'', sc_enabled = True, sc_interval = 30, sc_status = IDLE,
     sc_started = None, sc_succeeded = None, sc_failed = None, sc_count = 0, sc_error = None, sc_lease = None, sc_version = 1\<rparr>"

definition empty_db :: "nat sync_db" where
  "empty_db = \<lparr>sd_configs = [sample_config], sd_logs = [], sd_outbox = [], sd_exceptions = [], sd_audit = [], sd_data = 0\<rparr>"

definition sample_new :: outbox_entry where
  "sample_new = \<lparr>ne_id = ''e1'', ne_key = ''erp-orders'', ne_scope = None, ne_idem = ''k1'', ne_actor = ''u1'', ne_name = ''user''\<rparr>"

definition sample_sys :: "nat sync_sys" where
  "sample_sys = \<lparr>sy_db = empty_db, sy_now = 0, sy_groups = [], sy_claims = [], sy_done = []\<rparr>"

definition queued_db :: "nat sync_db" where
  "queued_db = enqueue_event 0 ''T'' sample_new empty_db"

lemma sample_start: "sync_reach sample_exec 300000 sample_sys"
  unfolding sample_sys_def by (rule sync_reach.start) (simp add: sync_start_def tables_ok_def empty_db_def)

lemma sample_queued: "sync_reach sample_exec 300000 (sample_sys\<lparr>sy_db := queued_db\<rparr>)"
  using sync_reach.enqueue[OF sample_start, of "''T''" sample_new] by (simp add: queued_db_def) (simp add: sample_sys_def)

lemma sample_world_ok: "world_ok sample_world"
proof -
  have "\<exists>s'. sync_reach sample_exec 300000 s' \<and> sync_later s s' \<and> sy_db s' = sy_db s \<and> sy_now s' = int n * 10"
    if "sync_reach sample_exec 300000 s" "sy_now s \<le> int n * 10" for s n
    using sync_reach.clock[OF that] by (intro exI[of _ "s\<lparr>sy_now := int n * 10\<rparr>"]) (simp add: sync_later_def)
  then show ?thesis by (simp add: world_ok_def sample_world_def sample_tx_def)
qed

lemma sample_run:
  "case processOutbox sample_world ''T'' 2 (0, queued_db) of (r, n, db) \<Rightarrow> r = Inr 1 \<and> n = 5 \<and> map ob_status (sd_outbox db) = [SUCCESS] \<and>
     map (\<lambda>e. (ob_tenant e, ob_idem e)) (sd_outbox db) = [(''T'', ''k1'')] \<and> sd_data db = 3"
  by code_simp

lemma sample_done:
  obtains n db where "processOutbox sample_world ''T'' 2 (0, sy_db (sample_sys\<lparr>sy_db := queued_db\<rparr>)) = (Inr 1, n, db)" "n = 5"
    "map ob_status (sd_outbox db) = [SUCCESS]" "map (\<lambda>e. (ob_tenant e, ob_idem e)) (sd_outbox db) = [(''T'', ''k1'')]" "sd_data db = 3"
  using sample_run by (auto split: prod.splits)

lemma sample_arrival:
  "sync_reach (sw_exec sample_world) (sw_lease sample_world) (sample_sys\<lparr>sy_db := queued_db\<rparr>)"
  "sy_now (sample_sys\<lparr>sy_db := queued_db\<rparr>) \<le> tx_now (sw_tx sample_world 0)"
  using sample_queued by (simp_all add: sample_world_def sample_sys_def sample_tx_def)


theorem sync_exactly_once_witness:
  "\<exists>s. sync_reach sample_exec 300000 s \<and> (''T'', ''k1'') \<in> set (sy_done s) \<and> distinct (sy_done s) \<and> sd_data (sy_db s) = 3"
proof -
  obtain n db where r: "processOutbox sample_world ''T'' 2 (0, sy_db (sample_sys\<lparr>sy_db := queued_db\<rparr>)) = (Inr 1, n, db)"
    and d: "map ob_status (sd_outbox db) = [SUCCESS]" "map (\<lambda>e. (ob_tenant e, ob_idem e)) (sd_outbox db) = [(''T'', ''k1'')]" "sd_data db = 3"
    by (rule sample_done)
  obtain s where s: "sync_reach sample_exec 300000 s" "sy_db s = db"
    using processOutbox_steps[OF sample_world_ok sample_arrival r] by (auto simp: sample_world_def)
  obtain e where "sd_outbox db = [e]" "ob_status e = SUCCESS" "(ob_tenant e, ob_idem e) = (''T'', ''k1'')" using d(1,2) by auto
  then show ?thesis using sync_exactly_once[OF s(1)] s d(3) by (intro exI[of _ s]) simp
qed

text \<open>A worker claims the task and stalls; when its lease is over another one claims it.\<close>

definition claim_at :: "int \<Rightarrow> string \<Rightarrow> nat sync_db \<Rightarrow> sync_error + claim_answer \<times> nat sync_db" where
  "claim_at t idem db = claimTask 300000 ''T'' ''erp-orders'' MANUAL ''u1'' ''user'' idem None [] (sample_tx t) db"

lemma claimed_cases:
  assumes "case m of Inr (Claimed c, db) \<Rightarrow> P c db | _ \<Rightarrow> False"
  shows "\<exists>c db. m = Inr (Claimed c, db) \<and> P c db"
proof (cases m)
  case (Inr p)
  then show ?thesis using assms by (cases p; cases "fst p") auto
qed (use assms in simp)

lemma sample_claims:
  "case claim_at 0 ''m1'' empty_db of Inr (Claimed c, db) \<Rightarrow>
     (case claim_at 400000 ''m2'' db of Inr (Claimed d, db') \<Rightarrow>
        list_ex (owns_config 400000 d) (sd_configs db') \<and> cl_tenant c = ''T'' \<and> cl_key c = ''erp-orders'' \<and> cl_tenant d = ''T'' \<and>
        cl_key d = ''erp-orders'' \<and> cl_version c = 2 \<and> cl_version d = 3
      | _ \<Rightarrow> False)
   | _ \<Rightarrow> False"
  by code_simp

theorem sync_one_worker_witness:
  "\<exists>c d s. sync_reach sample_exec 300000 s \<and> {(c, None), (d, None)} \<subseteq> set (sy_claims s) \<and> cl_version c = 2 \<and> cl_version d = 3 \<and>
     executeTask sample_exec c None (sample_tx 400000) (sy_db s) = Inl SyncLeaseLost \<and>
     claim_at 400000 ''m3'' (sy_db s) = Inl SyncBusy"
proof -
  obtain c db d db' where c: "claim_at 0 ''m1'' empty_db = Inr (Claimed c, db)" and d: "claim_at 400000 ''m2'' db = Inr (Claimed d, db')"
    and own: "list_ex (owns_config 400000 d) (sd_configs db')" and k: "cl_tenant c = ''T''" "cl_key c = ''erp-orders''" "cl_tenant d = ''T''" "cl_key d = ''erp-orders''"
    and v: "cl_version c = 2" "cl_version d = 3"
  proof -
    assume goal: "\<And>c db d db'. claim_at 0 ''m1'' empty_db = Inr (Claimed c, db) \<Longrightarrow> claim_at 400000 ''m2'' db = Inr (Claimed d, db') \<Longrightarrow>
      list_ex (owns_config 400000 d) (sd_configs db') \<Longrightarrow> cl_tenant c = ''T'' \<Longrightarrow> cl_key c = ''erp-orders'' \<Longrightarrow> cl_tenant d = ''T'' \<Longrightarrow>
      cl_key d = ''erp-orders'' \<Longrightarrow> cl_version c = 2 \<Longrightarrow> cl_version d = 3 \<Longrightarrow> thesis"
    obtain c db where c: "claim_at 0 ''m1'' empty_db = Inr (Claimed c, db)" and r: "case claim_at 400000 ''m2'' db of Inr (Claimed d, db') \<Rightarrow>
        list_ex (owns_config 400000 d) (sd_configs db') \<and> cl_tenant c = ''T'' \<and> cl_key c = ''erp-orders'' \<and> cl_tenant d = ''T'' \<and>
        cl_key d = ''erp-orders'' \<and> cl_version c = 2 \<and> cl_version d = 3 | _ \<Rightarrow> False"
      using claimed_cases[OF sample_claims] by blast
    then show thesis using claimed_cases[OF r] goal by blast
  qed
  define s1 where "s1 = sample_sys\<lparr>sy_db := db, sy_claims := [(c, None)], sy_now := 400000\<rparr>"
  have "sync_reach sample_exec 300000 (sample_sys\<lparr>sy_db := db, sy_claims := (c, None) # sy_claims sample_sys\<rparr>)"
    by (rule sync_reach.claim[OF sample_start]) (use c in \<open>simp_all add: sample_sys_def sample_tx_def claim_at_def\<close>)
  then have s1: "sync_reach sample_exec 300000 s1"
    using sync_reach.clock[of sample_exec 300000 "sample_sys\<lparr>sy_db := db, sy_claims := [(c, None)]\<rparr>" 400000] by (simp add: s1_def sample_sys_def)
  define s2 where "s2 = s1\<lparr>sy_db := db', sy_claims := [(d, None), (c, None)]\<rparr>"
  have "sync_reach sample_exec 300000 (s1\<lparr>sy_db := db', sy_claims := (d, None) # sy_claims s1\<rparr>)"
    by (rule sync_reach.claim[OF s1]) (use d in \<open>simp_all add: s1_def sample_tx_def claim_at_def\<close>)
  then have s2: "sync_reach sample_exec 300000 s2" by (simp add: s2_def s1_def)
  have m: "(d, None) \<in> set (sy_claims s2)" "(c, None) \<in> set (sy_claims s2)" by (simp_all add: s2_def)
  have o: "list_ex (owns_config 400000 d) (sd_configs (sy_db s2))" using own by (simp add: s2_def)
  have "d \<noteq> c" using v by auto
  note one = sync_one_worker[OF s2 m(1) o, of "sample_tx 400000", unfolded k]
  have "executeTask sample_exec c None (sample_tx 400000) (sy_db s2) = Inl SyncLeaseLost"
    using bspec[OF conjunct1[OF one] m(2)] \<open>d \<noteq> c\<close> k by simp
  moreover have "claimTask 300000 ''T'' ''erp-orders'' MANUAL ''u1'' ''user'' ''m3'' None [] (sample_tx 400000) (sy_db s2) = Inl SyncBusy"
    using conjunct2[OF one] by (simp add: sample_tx_def)
  ultimately show ?thesis using s2 m v by (intro exI[of _ c] exI[of _ d] exI[of _ s2]) (simp add: claim_at_def)
qed

end
