(* ===== verification/Notifications.thy ===== *)
theory Notifications
  imports DynamicDate "HOL-Library.Product_Lexorder"
begin

text \<open>
  \<open>modules/notifications/notification.service.ts\<close> and the retry of
  \<open>notification-admin.service.ts\<close>: the outbox of notifications and the log of their deliveries.  A
  dispatcher outside the database claims notifications under a lease; the claim resolves the rule, writes one
  delivery row per recipient and returns what to send; the dispatcher reports each delivery, and the report
  settles the notification when nothing is open.  Each operation is one transaction, a function of the tables
  (\<open>notice_db\<close>).  A \<open>notice_tx\<close> holds what the transaction reads elsewhere: the clock, the rows other
  transactions hold locked, generated identifiers, the people and the group webhooks the SQL queries find, the
  templates of the event registry, the cipher of the webhooks, and the two services that prepare deliveries with
  files.  Instants are milliseconds.
\<close>

section \<open>Tables\<close>

datatype notify_error =
    Invalid_field string
  | Notify_conflict string
  | Unique_violation
  | Foreign_key_violation
  | Other_failure string

datatype notice_status = Notice_pending | Notice_processing | Notice_sent | Notice_failed
datatype delivery_status =
  Delivery_pending | Delivery_processing | Delivery_sent | Delivery_failed | Delivery_retry | Delivery_skipped
datatype component_type = Comp_text | Comp_markdown | Comp_image

text \<open>\<open>last_error\<close>: a code or message, or the text for a failed delivery.\<close>

datatype notice_fault = Fault_text string | Delivery_fault

record notice_rule =
  nr_id :: string
  nr_tenant :: string
  nr_key :: string
  nr_name :: string
  nr_event :: string
  nr_channel :: string
  nr_resource :: string
  nr_recipients :: string
  nr_enabled :: bool
  nr_config :: "(string \<times> json) list"
  nr_updated :: int
  nr_version :: nat

record notice =
  nf_id :: string
  nf_tenant :: string
  nf_rule :: "string option"
  nf_event :: string
  nf_channel :: string
  nf_dedup :: string
  nf_payload :: json
  nf_status :: notice_status
  nf_attempts :: nat
  nf_next_retry :: "int option"
  nf_locked_at :: "int option"
  nf_locked_by :: "string option"
  nf_sent_at :: "int option"
  nf_failed_at :: "int option"
  nf_last_error :: "notice_fault option"
  nf_created :: int
  nf_version :: nat

record delivery_row =
  dv_id :: string
  dv_tenant :: string
  dv_notice :: string
  dv_recipient :: "string option"
  dv_wechat :: "string option"
  dv_attempt :: nat
  dv_status :: delivery_status
  dv_component :: string
  dv_target_type :: "string option"
  dv_target :: "string option"
  dv_code :: "string option"
  dv_provider :: "string option"
  dv_delivered_at :: "int option"

record event_component =
  ec_id :: string
  ec_tenant :: string
  ec_notice :: string
  ec_sequence :: nat
  ec_type :: component_type
  ec_text :: "string option"
  ec_filename :: "string option"
  ec_content :: "string option"

record notice_db =
  nd_rules :: "notice_rule list"
  nd_notices :: "notice list"
  nd_components :: "event_component list"
  nd_deliveries :: "delivery_row list"

section \<open>What a transaction reads elsewhere\<close>

record notice_user =
  nu_id :: string
  nu_name :: string
  nu_wechat :: "string option"
  nu_enabled :: bool

record webhook =
  wh_id :: string
  wh_group :: string
  wh_cipher :: string

record claim_recipient =
  cr_delivery :: string
  cr_user :: string
  cr_name :: string
  cr_wechat :: "string option"
  cr_target :: "string option"
  cr_url :: "string option"

datatype message_type = Msg_text | Msg_file | Msg_text_file | Msg_group component_type

record notice_claim =
  cm_notice :: string
  cm_type :: message_type
  cm_content :: string
  cm_recipients :: "claim_recipient list"
  cm_attachment :: "(string \<times> string \<times> string) option"

type_synonym preparation = "notify_error + notice_claim list \<times> notice_db"

record notice_tx =
  nt_now :: int
  nt_locked :: "string list"
  nt_host :: host
  nt_parse :: "string \<Rightarrow> json option"
  nt_rule_id :: "notice_rule list \<Rightarrow> string"
  nt_notice_id :: "notice list \<Rightarrow> string"
  nt_component_id :: "event_component list \<Rightarrow> string"
  nt_delivery_id :: "delivery_row list \<Rightarrow> string"
  nt_group_targets :: "string \<Rightarrow> webhook list"
  nt_webhook :: "json option \<Rightarrow> webhook option"
  nt_responsible :: "string \<Rightarrow> notice_user list"
  nt_configured :: "json list \<Rightarrow> notice_user list"
  nt_decrypt :: "string \<Rightarrow> notify_error + string"
  nt_template :: "string \<Rightarrow> string"
  nt_missing :: string
  nt_allocation :: "(string \<Rightarrow> notice \<Rightarrow> string \<Rightarrow> notice_db \<Rightarrow> preparation) option"
  nt_finance :: "(string \<Rightarrow> notice \<Rightarrow> string \<Rightarrow> notice_user list \<Rightarrow> ((string \<times> json) list \<Rightarrow> notify_error + string) \<Rightarrow> notice_db \<Rightarrow> preparation) option"

section \<open>The event registry\<close>

datatype event_message = Event_text | Event_text_file

record event_definition =
  ed_type :: string
  ed_resource :: string
  ed_channel :: string
  ed_group_route :: bool
  ed_message :: event_message
  ed_rules :: "string list"

definition allocation_event :: string where "allocation_event = ''mps.order_allocation.batch_changed''"
definition finance_event :: string where "finance_event = ''finance.monthly.daily_summary''"
definition group_channel :: string where "group_channel = ''WECHAT_GROUP_WEBHOOK''"
definition test_event :: string where "test_event = ''notification.group_webhook.test''"

definition notificationEventDefinitions :: "event_definition list" where
  "notificationEventDefinitions =
     [\<lparr>ed_type = finance_event, ed_resource = ''finance-e10-monthly'', ed_channel = ''WECHAT_WORK'',
        ed_group_route = False, ed_message = Event_text_file, ed_rules = [''FIXED_USERS'']\<rparr>,
      \<lparr>ed_type = allocation_event, ed_resource = ''mps-order-allocations'', ed_channel = ''WECHAT_WORK'',
        ed_group_route = False, ed_message = Event_text_file, ed_rules = [''ORDER_ALLOCATION_DYNAMIC'']\<rparr>,
      \<lparr>ed_type = ''equipment.status.fault_changed'', ed_resource = ''equipment-status-report'', ed_channel = ''WECHAT_WORK'',
        ed_group_route = True, ed_message = Event_text, ed_rules = [''EQUIPMENT_RESPONSIBLE'', ''FIXED_USERS'']\<rparr>,
      \<lparr>ed_type = ''equipment.daily_report'', ed_resource = ''equipment-dashboard'', ed_channel = group_channel,
        ed_group_route = False, ed_message = Event_text, ed_rules = []\<rparr>,
      \<lparr>ed_type = ''shipping_plan.key_fields_changed'', ed_resource = ''mps-shipping-plans'', ed_channel = ''WECHAT_WORK'',
        ed_group_route = False, ed_message = Event_text, ed_rules = [''FIXED_USERS'']\<rparr>]"

definition notificationEventDefinition :: "string \<Rightarrow> event_definition option" where
  "notificationEventDefinition e = find (\<lambda>d. ed_type d = e) notificationEventDefinitions"

section \<open>Checks and texts\<close>

definition requireText :: "string option \<Rightarrow> string \<Rightarrow> nat \<Rightarrow> notify_error + unit" where
  "requireText v name maxLength =
     (case v of
        None \<Rightarrow> Inl (Invalid_field name)
      | Some s \<Rightarrow> if js_trim s = [] \<or> length s > maxLength then Inl (Invalid_field name) else Inr ())"

definition requireTenant :: "string \<Rightarrow> notify_error + unit" where
  "requireTenant tenant = requireText (Some tenant) ''tenantId'' 64"

definition requireJobIdentity :: "string \<Rightarrow> string \<Rightarrow> string \<Rightarrow> notify_error + unit" where
  "requireJobIdentity tenant outbox worker =
     bindE (requireTenant tenant) (\<lambda>_. bindE (requireText (Some outbox) ''outboxId'' 64) (\<lambda>_.
       requireText (Some worker) ''workerId'' 255))"

definition normalizeLimit :: "rat \<Rightarrow> nat" where
  "normalizeLimit l = (if rat_is_int l then nat (min (max \<lfloor>l\<rfloor> 1) 100) else 20)"

definition normalizeTimeout :: "rat \<Rightarrow> nat" where
  "normalizeTimeout t = (if rat_is_int t then nat (max \<lfloor>t\<rfloor> 1) else 300)"

definition objectPayload :: "notice_tx \<Rightarrow> json \<Rightarrow> notify_error + (string \<times> json) list" where
  "objectPayload tx payload =
     (case payload of
        JStr s \<Rightarrow>
          (case nt_parse tx s of
             None \<Rightarrow> Inl (Other_failure ''SyntaxError'')
           | Some (JObj kvs) \<Rightarrow> Inr kvs
           | Some _ \<Rightarrow> Inl (Notify_conflict ''payload''))
      | JObj kvs \<Rightarrow> Inr kvs
      | _ \<Rightarrow> Inl (Notify_conflict ''payload''))"

definition requiredPayloadText :: "notice_tx \<Rightarrow> json option \<Rightarrow> string \<Rightarrow> notify_error + string" where
  "requiredPayloadText tx v name =
     (let s = js_trim (js_string (nt_host tx) (coalesce v (JStr [])))
      in if s = [] then Inl (Notify_conflict name) else Inr s)"

text \<open>
  \<open>template.replace(...)\<close> with the pattern \<open>{{?([A-Za-z][A-Za-z0-9_]*)}}?\<close>, all matches.  The payload is
  asked for own properties only.
\<close>

definition ascii_letter :: "char \<Rightarrow> bool" where
  "ascii_letter c = (let n = (of_char c :: nat) in (65 \<le> n \<and> n \<le> 90) \<or> (97 \<le> n \<and> n \<le> 122))"

definition variable_char :: "char \<Rightarrow> bool" where
  "variable_char c = (ascii_letter c \<or> js_digit c \<or> c = CHR ''_'')"

definition skip_one :: "char \<Rightarrow> string \<Rightarrow> string" where
  "skip_one c s = (case s of [] \<Rightarrow> [] | x # r \<Rightarrow> if x = c then r else s)"

definition variable_at :: "string \<Rightarrow> (string \<times> string) option" where
  "variable_at s =
     (case s of
        [] \<Rightarrow> None
      | c # r \<Rightarrow>
          if c \<noteq> CHR ''{'' then None
          else (let r1 = skip_one (CHR ''{'') r; key = takeWhile variable_char r1
                in if key = [] \<or> \<not> ascii_letter (hd key) then None
                   else (case dropWhile variable_char r1 of
                           [] \<Rightarrow> None
                         | d # r2 \<Rightarrow> if d = CHR ''}'' then Some (key, skip_one (CHR ''}'') r2) else None)))"

lemma length_skip_one: "length (skip_one c s) \<le> length s"
  by (simp add: skip_one_def split: list.split)

lemma variable_at_shorter: "variable_at s = Some (key, r) \<Longrightarrow> length r < length s"
proof -
  assume a: "variable_at s = Some (key, r)"
  then obtain c s1 d r2 where s: "s = c # s1" and "dropWhile variable_char (skip_one (CHR ''{'') s1) = d # r2"
    and r: "r = skip_one (CHR ''}'') r2"
    by (auto simp: variable_at_def Let_def split: list.splits if_splits)
  then have "length r2 < length (skip_one (CHR ''{'') s1)"
    using length_dropWhile_le [of variable_char "skip_one (CHR ''{'') s1"] by simp
  then show ?thesis
    using length_skip_one [of "CHR ''{''" s1] length_skip_one [of "CHR ''}''" r2] by (simp add: s r)
qed

function renderTemplate :: "notice_tx \<Rightarrow> string \<Rightarrow> (string \<times> json) list \<Rightarrow> string" where
  "renderTemplate tx s payload =
     (case variable_at s of
        Some (key, r) \<Rightarrow>
          (case coalesce (jget payload key) JNull of JNull \<Rightarrow> nt_missing tx | v \<Rightarrow> js_string (nt_host tx) v)
            @ renderTemplate tx r payload
      | None \<Rightarrow> (case s of [] \<Rightarrow> [] | c # r \<Rightarrow> c # renderTemplate tx r payload))"
  by pat_completeness auto
termination renderTemplate
  by (relation "measure (\<lambda>(tx, s, payload). length s)") (auto dest: variable_at_shorter)

declare renderTemplate.simps [simp del]

definition event_message_text :: "event_message \<Rightarrow> string" where
  "event_message_text m = (case m of Event_text \<Rightarrow> ''text'' | Event_text_file \<Rightarrow> ''text_file'')"

definition renderContent :: "notice_tx \<Rightarrow> notice_rule \<Rightarrow> event_definition \<Rightarrow> (string \<times> json) list \<Rightarrow> notify_error + string" where
  "renderContent tx rule ed payload =
     (let messageType = jget (nr_config rule) ''messageType'';
          legacyFinanceText = (ed_type ed = finance_event \<and> messageType = Some (JStr ''text''))
      in if \<not> nullish messageType \<and> messageType \<noteq> Some (JStr (event_message_text (ed_message ed))) \<and> \<not> legacyFinanceText
         then Inl (Notify_conflict ''messageType'')
         else Inr (renderTemplate tx
                (case jget (nr_config rule) ''template'' of
                   Some (JStr s) \<Rightarrow> if js_trim s \<noteq> [] then s else nt_template tx (ed_type ed)
                 | _ \<Rightarrow> nt_template tx (ed_type ed)) payload))"

section \<open>Delivery rows\<close>

definition dv_open :: "delivery_row \<Rightarrow> bool" where
  "dv_open d = (dv_status d = Delivery_pending \<or> dv_status d = Delivery_processing)"

text \<open>\<open>ORDER BY attempt DESC, id DESC LIMIT 1\<close>.\<close>

definition latest :: "(delivery_row \<Rightarrow> bool) \<Rightarrow> notice_db \<Rightarrow> delivery_row option" where
  "latest P db = js_last (sort_key (\<lambda>d. (dv_attempt d, dv_id d)) (filter P (nd_deliveries db)))"

definition next_attempt :: "delivery_row option \<Rightarrow> nat" where
  "next_attempt previous = (case previous of None \<Rightarrow> 0 | Some d \<Rightarrow> dv_attempt d) + 1"

text \<open>The unique indexes on recipients and on group targets, and the foreign key to the notification.\<close>

definition same_recipient_attempt :: "delivery_row \<Rightarrow> delivery_row \<Rightarrow> bool" where
  "same_recipient_attempt d e =
     (dv_recipient d \<noteq> None \<and> dv_tenant d = dv_tenant e \<and> dv_notice d = dv_notice e \<and> dv_recipient d = dv_recipient e \<and>
      dv_component d = dv_component e \<and> dv_attempt d = dv_attempt e)"

definition same_group_attempt :: "delivery_row \<Rightarrow> delivery_row \<Rightarrow> bool" where
  "same_group_attempt d e =
     (dv_target_type d = Some group_channel \<and> dv_target_type e = Some group_channel \<and> dv_target d \<noteq> None \<and>
      dv_tenant d = dv_tenant e \<and> dv_notice d = dv_notice e \<and> dv_target d = dv_target e \<and>
      dv_component d = dv_component e \<and> dv_attempt d = dv_attempt e)"

definition insert_delivery :: "delivery_row \<Rightarrow> notice_db \<Rightarrow> notify_error + delivery_row \<times> notice_db" where
  "insert_delivery d db =
     (if \<exists>e \<in> set (nd_deliveries db). dv_id e = dv_id d \<or> same_recipient_attempt d e \<or> same_group_attempt d e
      then Inl Unique_violation
      else if \<not> (\<exists>r \<in> set (nd_notices db). nf_tenant r = dv_tenant d \<and> nf_id r = dv_notice d)
      then Inl Foreign_key_violation
      else Inr (d, db\<lparr>nd_deliveries := nd_deliveries db @ [d]\<rparr>))"

definition recipient_log :: "notice_tx \<Rightarrow> string \<Rightarrow> notice \<Rightarrow> string option \<Rightarrow> string option \<Rightarrow> nat \<Rightarrow> delivery_status \<Rightarrow>
    string option \<Rightarrow> notice_db \<Rightarrow> delivery_row" where
  "recipient_log tx tenant row user wechat attempt status code db =
     \<lparr>dv_id = nt_delivery_id tx (nd_deliveries db), dv_tenant = tenant, dv_notice = nf_id row, dv_recipient = user,
      dv_wechat = wechat, dv_attempt = max attempt 1, dv_status = status, dv_component = ''text'',
      dv_target_type = None, dv_target = None, dv_code = code, dv_provider = None,
      dv_delivered_at = (if status = Delivery_skipped then Some (nt_now tx) else None)\<rparr>"

definition insertRecipientLog :: "notice_tx \<Rightarrow> string \<Rightarrow> notice \<Rightarrow> string option \<Rightarrow> string option \<Rightarrow> nat \<Rightarrow> delivery_status \<Rightarrow>
    string option \<Rightarrow> notice_db \<Rightarrow> notify_error + delivery_row \<times> notice_db" where
  "insertRecipientLog tx tenant row user wechat attempt status code db =
     insert_delivery (recipient_log tx tenant row user wechat attempt status code db) db"

text \<open>The condition of most updates: the notification is in work by this worker.\<close>

definition held_by :: "string \<Rightarrow> string \<Rightarrow> string \<Rightarrow> notice \<Rightarrow> bool" where
  "held_by tenant outbox worker r =
     (nf_tenant r = tenant \<and> nf_id r = outbox \<and> nf_status r = Notice_processing \<and> nf_locked_by r = Some worker)"

definition update_notices :: "(notice \<Rightarrow> bool) \<Rightarrow> (notice \<Rightarrow> notice) \<Rightarrow> notice_db \<Rightarrow> notice_db" where
  "update_notices P f db = db\<lparr>nd_notices := map (\<lambda>r. if P r then f r else r) (nd_notices db)\<rparr>"

definition quarantined :: "notice_tx \<Rightarrow> string \<Rightarrow> notice \<Rightarrow> notice" where
  "quarantined tx code r =
     r\<lparr>nf_status := Notice_failed, nf_failed_at := Some (nt_now tx), nf_next_retry := None,
       nf_last_error := Some (Fault_text code), nf_locked_at := None, nf_locked_by := None, nf_version := nf_version r + 1\<rparr>"

definition quarantine :: "notice_tx \<Rightarrow> string \<Rightarrow> notice \<Rightarrow> string \<Rightarrow> string \<Rightarrow> notice_db \<Rightarrow> preparation" where
  "quarantine tx tenant row worker code db =
     bindE (insertRecipientLog tx tenant row None None (nf_attempts row) Delivery_skipped (Some code)
              (update_notices (held_by tenant (nf_id row) worker) (quarantined tx code) db))
       (\<lambda>(_, db'). Inr ([], db'))"

definition completed :: "notice_tx \<Rightarrow> notice \<Rightarrow> notice" where
  "completed tx r =
     r\<lparr>nf_status := Notice_sent, nf_sent_at := Some (nt_now tx), nf_next_retry := None, nf_last_error := None,
       nf_locked_at := None, nf_locked_by := None, nf_version := nf_version r + 1\<rparr>"

definition completeWithoutDelivery :: "notice_tx \<Rightarrow> string \<Rightarrow> notice \<Rightarrow> string \<Rightarrow> notice_db \<Rightarrow> notice_db" where
  "completeWithoutDelivery tx tenant row worker db =
     update_notices (held_by tenant (nf_id row) worker) (completed tx) db"

section \<open>Preparing deliveries\<close>

definition the_text :: "string option \<Rightarrow> string" where
  "the_text v = (case v of None \<Rightarrow> [] | Some s \<Rightarrow> s)"

definition wechat_of :: "notice_user \<Rightarrow> string" where
  "wechat_of u = js_trim (the_text (nu_wechat u))"

definition user_recipient :: "delivery_row \<Rightarrow> notice_user \<Rightarrow> claim_recipient" where
  "user_recipient d u =
     \<lparr>cr_delivery = dv_id d, cr_user = nu_id u, cr_name = nu_name u, cr_wechat = Some (wechat_of u), cr_target = None, cr_url = None\<rparr>"

definition user_delivery :: "notice_tx \<Rightarrow> string \<Rightarrow> notice \<Rightarrow> (string \<Rightarrow> delivery_row option) \<Rightarrow> notice_user \<Rightarrow> notice_db \<Rightarrow>
    notify_error + claim_recipient option \<times> notice_db" where
  "user_delivery tx tenant row latest_of u db =
     (let previous = latest_of (nu_id u); wechat = wechat_of u; attempt = next_attempt previous;
          skip = (\<lambda>w code. if map_option dv_status previous = Some Delivery_skipped then Inr (None, db)
                   else bindE (insertRecipientLog tx tenant row (Some (nu_id u)) w attempt Delivery_skipped (Some code) db)
                          (\<lambda>(_, db'). Inr (None, db')))
      in if \<not> nu_enabled u then skip (if wechat = [] then None else Some wechat) ''SKIPPED_DISABLED''
         else if wechat = [] then skip None ''SKIPPED_MISSING_WECHAT_ID''
         else (case previous of
                 Some p \<Rightarrow>
                   if dv_status p = Delivery_sent then Inr (None, db)
                   else if dv_open p then Inr (Some (user_recipient p u), db)
                   else bindE (insertRecipientLog tx tenant row (Some (nu_id u)) (Some wechat) attempt Delivery_pending None db)
                          (\<lambda>(d, db'). Inr (Some (user_recipient d u), db'))
               | None \<Rightarrow>
                   bindE (insertRecipientLog tx tenant row (Some (nu_id u)) (Some wechat) attempt Delivery_pending None db)
                     (\<lambda>(d, db'). Inr (Some (user_recipient d u), db'))))"

definition prepareRecipientDeliveries :: "notice_tx \<Rightarrow> string \<Rightarrow> notice \<Rightarrow> notice_user list \<Rightarrow> notice_db \<Rightarrow>
    notify_error + claim_recipient list \<times> notice_db" where
  "prepareRecipientDeliveries tx tenant row users db =
     (let latest_of = (\<lambda>u. latest (\<lambda>d. dv_tenant d = tenant \<and> dv_notice d = nf_id row \<and> dv_recipient d = Some u) db)
      in bindE (mapES (user_delivery tx tenant row latest_of) users db)
           (\<lambda>(rs, db'). Inr (List.map_filter id rs, db')))"

definition component_name :: "component_type \<Rightarrow> string" where
  "component_name c = (case c of Comp_text \<Rightarrow> ''text'' | Comp_markdown \<Rightarrow> ''markdown'' | Comp_image \<Rightarrow> ''image'')"

definition group_recipient :: "string \<Rightarrow> webhook \<Rightarrow> string \<Rightarrow> claim_recipient" where
  "group_recipient delivery w url =
     \<lparr>cr_delivery = delivery, cr_user = [], cr_name = wh_group w, cr_wechat = None, cr_target = Some (wh_id w), cr_url = Some url\<rparr>"

definition group_log :: "notice_tx \<Rightarrow> string \<Rightarrow> notice \<Rightarrow> string \<Rightarrow> webhook \<Rightarrow> nat \<Rightarrow> notice_db \<Rightarrow> delivery_row" where
  "group_log tx tenant row component w attempt db =
     \<lparr>dv_id = nt_delivery_id tx (nd_deliveries db), dv_tenant = tenant, dv_notice = nf_id row, dv_recipient = None,
      dv_wechat = None, dv_attempt = attempt, dv_status = Delivery_pending, dv_component = component,
      dv_target_type = Some group_channel, dv_target = Some (wh_id w), dv_code = None, dv_provider = None,
      dv_delivered_at = None\<rparr>"

definition group_previous :: "string \<Rightarrow> notice \<Rightarrow> string \<Rightarrow> webhook \<Rightarrow> notice_db \<Rightarrow> delivery_row option" where
  "group_previous tenant row component w db =
     latest (\<lambda>d. dv_tenant d = tenant \<and> dv_notice d = nf_id row \<and> dv_target_type d = Some group_channel \<and>
                 dv_target d = Some (wh_id w) \<and> dv_component d = component) db"

definition group_delivery :: "notice_tx \<Rightarrow> string \<Rightarrow> notice \<Rightarrow> string \<Rightarrow> webhook \<Rightarrow> notice_db \<Rightarrow>
    notify_error + claim_recipient option \<times> notice_db" where
  "group_delivery tx tenant row component w db =
     (let previous = group_previous tenant row component w db
      in if map_option dv_status previous \<in> {Some Delivery_sent, Some Delivery_skipped} then Inr (None, db)
         else bindE (nt_decrypt tx (wh_cipher w)) (\<lambda>url.
                (case previous of
                   Some p \<Rightarrow>
                     if dv_open p then Inr (Some (group_recipient (dv_id p) w url), db)
                     else bindE (insert_delivery (group_log tx tenant row component w (next_attempt previous) db) db)
                            (\<lambda>(d, db'). Inr (Some (group_recipient (dv_id d) w url), db'))
                 | None \<Rightarrow>
                     bindE (insert_delivery (group_log tx tenant row component w (next_attempt previous) db) db)
                       (\<lambda>(d, db'). Inr (Some (group_recipient (dv_id d) w url), db')))))"

text \<open>A component of a group message: its row when it has one, sequence, type, text and file name.\<close>

definition stored_components :: "string \<Rightarrow> notice \<Rightarrow> notice_db \<Rightarrow> (string \<times> nat \<times> component_type \<times> string option \<times> string option) list" where
  "stored_components tenant row db =
     map (\<lambda>c. (ec_id c, ec_sequence c, ec_type c, ec_text c, ec_filename c))
       (sort_key (\<lambda>c. (ec_sequence c, ec_id c))
          (filter (\<lambda>c. ec_tenant c = tenant \<and> ec_notice c = nf_id row) (nd_components db)))"

definition group_components :: "string \<Rightarrow> notice \<Rightarrow> string \<Rightarrow> notice_db \<Rightarrow> (string \<times> nat \<times> component_type \<times> string option \<times> string option) list" where
  "group_components tenant row fallback db =
     (let stored = stored_components tenant row db
      in if stored \<noteq> [] then stored
         else if js_trim fallback \<noteq> [] then [([], 1, Comp_text, Some fallback, None)] else [])"

definition component_claim :: "notice_tx \<Rightarrow> string \<Rightarrow> notice \<Rightarrow> webhook list \<Rightarrow>
    string \<times> nat \<times> component_type \<times> string option \<times> string option \<Rightarrow> notice_db \<Rightarrow> notify_error + notice_claim option \<times> notice_db" where
  "component_claim tx tenant row targets c db =
     (case c of (cid, sequence, ctype, body, filename) \<Rightarrow>
        bindE (mapES (group_delivery tx tenant row (''group_'' @ component_name ctype @ ''_'' @ decimal_text sequence)) targets db)
          (\<lambda>(rs, db').
             let recipients = List.map_filter id rs
             in if recipients = [] then Inr (None, db')
                else Inr (Some \<lparr>cm_notice = nf_id row, cm_type = Msg_group ctype,
                                cm_content = the_text body, cm_recipients = recipients,
                                cm_attachment = (if ctype = Comp_image
                                  then Some (cid, the_text filename, ''/internal/notifications/'' @ nf_id row @ ''/group-attachments/'' @ cid) else None)\<rparr>, db')))"

definition prepareGroupWebhookClaims :: "notice_tx \<Rightarrow> string \<Rightarrow> notice \<Rightarrow> string \<Rightarrow> notice_db \<Rightarrow> preparation" where
  "prepareGroupWebhookClaims tx tenant row fallback db =
     (let targets = nt_group_targets tx (nf_event row); components = group_components tenant row fallback db
      in if targets = [] then Inr ([], db)
         else if components = [] then Inl (Notify_conflict ''components'')
         else bindE (mapES (component_claim tx tenant row targets) components db)
                (\<lambda>(cs, db'). Inr (List.map_filter id cs, db')))"

definition prepareDirectGroupWebhookTest :: "notice_tx \<Rightarrow> string \<Rightarrow> notice \<Rightarrow> notice_db \<Rightarrow> preparation" where
  "prepareDirectGroupWebhookTest tx tenant row db =
     bindE (objectPayload tx (nf_payload row)) (\<lambda>payload.
       (case nt_webhook tx (jget payload ''groupWebhookId'') of
          None \<Rightarrow> Inr ([], db)
        | Some w \<Rightarrow>
            (let previous = group_previous tenant row ''test_text'' w db;
                 claim = (\<lambda>d db'. bindE (nt_decrypt tx (wh_cipher w)) (\<lambda>url.
                   Inr ([\<lparr>cm_notice = nf_id row, cm_type = Msg_group Comp_text,
                          cm_content = (case coalesce (jget payload ''content'') JNull of JNull \<Rightarrow> nt_template tx test_event
                                          | v \<Rightarrow> js_string (nt_host tx) v),
                          cm_recipients = [group_recipient (dv_id d) w url], cm_attachment = None\<rparr>], db')))
             in (case previous of
                   Some p \<Rightarrow>
                     if dv_status p = Delivery_sent then Inr ([], db)
                     else if dv_open p then claim p db
                     else bindE (insert_delivery (group_log tx tenant row ''test_text'' w (next_attempt previous) db) db)
                            (\<lambda>(d, db'). claim d db')
                 | None \<Rightarrow>
                     bindE (insert_delivery (group_log tx tenant row ''test_text'' w (next_attempt previous) db) db)
                       (\<lambda>(d, db'). claim d db')))))"

section \<open>Claims of the dispatcher\<close>

definition claimable_notice :: "notice_tx \<Rightarrow> string \<Rightarrow> nat \<Rightarrow> notice \<Rightarrow> bool" where
  "claimable_notice tx tenant lockTimeoutSeconds r =
     (nf_tenant r = tenant \<and>
      (nf_status r = Notice_pending \<and> (case nf_next_retry r of None \<Rightarrow> True | Some t \<Rightarrow> t \<le> nt_now tx) \<or>
       nf_status r = Notice_failed \<and> (case nf_next_retry r of None \<Rightarrow> False | Some t \<Rightarrow> t \<le> nt_now tx) \<or>
       nf_status r = Notice_processing \<and>
         (case nf_locked_at r of None \<Rightarrow> False | Some t \<Rightarrow> t \<le> nt_now tx - int lockTimeoutSeconds * 1000)))"

definition claimed :: "notice_tx \<Rightarrow> string \<Rightarrow> notice \<Rightarrow> notice" where
  "claimed tx worker r =
     r\<lparr>nf_status := Notice_processing, nf_attempts := nf_attempts r + 1, nf_next_retry := None,
       nf_locked_at := Some (nt_now tx), nf_locked_by := Some worker, nf_failed_at := None, nf_version := nf_version r + 1\<rparr>"

definition claim_candidates :: "notice_tx \<Rightarrow> string \<Rightarrow> nat \<Rightarrow> nat \<Rightarrow> notice_db \<Rightarrow> notice list" where
  "claim_candidates tx tenant limit timeout db =
     take limit (sort_key (\<lambda>r. (nf_created r, nf_id r))
       (filter (\<lambda>r. claimable_notice tx tenant timeout r \<and> nf_id r \<notin> set (nt_locked tx)) (nd_notices db)))"

definition claimSql :: "notice_tx \<Rightarrow> string \<Rightarrow> string \<Rightarrow> nat \<Rightarrow> nat \<Rightarrow> notice_db \<Rightarrow> notice list \<times> notice_db" where
  "claimSql tx tenant worker limit timeout db =
     (let ids = map nf_id (claim_candidates tx tenant limit timeout db);
          db' = update_notices (\<lambda>r. nf_id r \<in> set ids) (claimed tx worker) db
      in (filter (\<lambda>r. nf_id r \<in> set ids) (nd_notices db'), db'))"

definition payload_field :: "json \<Rightarrow> string \<Rightarrow> json option" where
  "payload_field payload k = (case payload of JObj kvs \<Rightarrow> jget kvs k | _ \<Rightarrow> None)"

definition resolveRule :: "string \<Rightarrow> notice \<Rightarrow> notice_db \<Rightarrow> notice_rule option" where
  "resolveRule tenant row db =
     (case nf_rule row of
        Some rid \<Rightarrow>
          find (\<lambda>r. nr_tenant r = tenant \<and> nr_id r = rid \<and>
                  (nr_enabled r \<or> nf_event row = allocation_event \<and>
                                  payload_field (nf_payload row) ''deliveryMode'' = Some (JStr ''TEST''))) (nd_rules db)
      | None \<Rightarrow>
          js_last (sort_key (\<lambda>r. (nr_updated r, nr_id r))
            (filter (\<lambda>r. nr_tenant r = tenant \<and> nr_event r = nf_event row \<and> nr_channel r = nf_channel row \<and> nr_enabled r)
              (nd_rules db))))"

definition recipientTargets :: "notice_tx \<Rightarrow> (string \<times> json) list \<Rightarrow> json list" where
  "recipientTargets tx config =
     (case jget config ''recipientTargets'' of
        Some (JArr xs) \<Rightarrow> xs
      | _ \<Rightarrow> (case jget config ''recipientUserIds'' of
                Some (JArr xs) \<Rightarrow> map (\<lambda>u. JObj [(''type'', JStr ''USER''), (''userId'', JStr (js_string (nt_host tx) u))]) xs
              | _ \<Rightarrow> []))"

definition resolveRecipients :: "notice_tx \<Rightarrow> notice_rule \<Rightarrow> event_definition \<Rightarrow> (string \<times> json) list \<Rightarrow> notify_error + notice_user list" where
  "resolveRecipients tx rule ed payload =
     (if nr_recipients rule \<notin> set (ed_rules ed) then Inl (Notify_conflict ''recipientRule'')
      else if nr_recipients rule = ''EQUIPMENT_RESPONSIBLE''
      then bindE (requiredPayloadText tx (jget payload ''equipmentId'') ''equipmentId'') (\<lambda>e. Inr (nt_responsible tx e))
      else if nr_recipients rule = ''FIXED_USERS''
      then (let targets = recipientTargets tx (nr_config rule) in Inr (if targets = [] then [] else nt_configured tx targets))
      else Inl (Notify_conflict ''resolver''))"

text \<open>\<open>try\<close> within a savepoint: a failure of the file service undoes its writes and quarantines the notification.\<close>

definition within_savepoint :: "notice_tx \<Rightarrow> string \<Rightarrow> notice \<Rightarrow> string \<Rightarrow> string \<Rightarrow> preparation \<Rightarrow> notice_db \<Rightarrow> preparation" where
  "within_savepoint tx tenant row worker code result db =
     (case result of Inr r \<Rightarrow> Inr r | Inl _ \<Rightarrow> quarantine tx tenant row worker code db)"

definition name_rule :: "notice_rule option \<Rightarrow> notice \<Rightarrow> notice" where
  "name_rule rule r =
     r\<lparr>nf_rule := (case rule of None \<Rightarrow> nf_rule r | Some q \<Rightarrow> Some (nr_id q)), nf_version := nf_version r + 1\<rparr>"

definition deliver_to_users :: "notice_tx \<Rightarrow> string \<Rightarrow> string \<Rightarrow> notice \<Rightarrow> event_definition \<Rightarrow> (string \<times> json) list \<Rightarrow>
    notice_rule option \<Rightarrow> notice_user list \<Rightarrow> notice_claim list \<Rightarrow> notice_db \<Rightarrow> preparation" where
  "deliver_to_users tx tenant worker row ed payload rule users groupClaims db =
     bindE (prepareRecipientDeliveries tx tenant row users db) (\<lambda>(recipients, db1).
       let db2 = update_notices (held_by tenant (nf_id row) worker) (name_rule rule) db1
       in if recipients = [] \<and> groupClaims = [] then Inr ([], completeWithoutDelivery tx tenant row worker db2)
          else (case rule of
                  Some r \<Rightarrow>
                    if recipients = [] then Inr (groupClaims, db2)
                    else bindE (renderContent tx r ed payload) (\<lambda>content.
                           Inr (\<lparr>cm_notice = nf_id row,
                                 cm_type = (if ed_type ed = finance_event then Msg_text else
                                   (case ed_message ed of Event_text \<Rightarrow> Msg_text | Event_text_file \<Rightarrow> Msg_text_file)),
                                 cm_content = content, cm_recipients = recipients, cm_attachment = None\<rparr> # groupClaims, db2))
                | None \<Rightarrow> Inr (groupClaims, db2)))"

definition dispatch_known :: "notice_tx \<Rightarrow> string \<Rightarrow> string \<Rightarrow> notice \<Rightarrow> event_definition \<Rightarrow> notice_rule option \<Rightarrow> notice_db \<Rightarrow> preparation" where
  "dispatch_known tx tenant worker row ed rule db =
     bindE (objectPayload tx (nf_payload row)) (\<lambda>payload.
     bindE (case rule of Some r \<Rightarrow> renderContent tx r ed payload
              | None \<Rightarrow> Inr (renderTemplate tx (nt_template tx (ed_type ed)) payload)) (\<lambda>fallback.
     bindE (if ed_channel ed = group_channel \<or> ed_group_route ed then prepareGroupWebhookClaims tx tenant row fallback db
            else Inr ([], db)) (\<lambda>(groupClaims, db1).
     (case rule of
        None \<Rightarrow>
          if groupClaims = [] then quarantine tx tenant row worker ''NO_MATCHING_RULE'' db1
          else deliver_to_users tx tenant worker row ed payload None [] groupClaims db1
      | Some r \<Rightarrow>
          if ed_type ed = allocation_event then
            (case nt_allocation tx of
               None \<Rightarrow> Inl (Notify_conflict ''allocationDelivery'')
             | Some prepare \<Rightarrow>
                 within_savepoint tx tenant row worker ''ALLOCATION_DELIVERY_PREPARATION_FAILED''
                   (prepare tenant row worker db1) db1)
          else bindE (resolveRecipients tx r ed payload) (\<lambda>users.
            if ed_type ed = finance_event \<and> jget payload ''financeReportFormat'' = Some (JNum 1) then
              within_savepoint tx tenant row worker ''FINANCE_MONTHLY_ATTACHMENT_FAILED''
                (case nt_finance tx of
                   None \<Rightarrow> Inl (Notify_conflict ''financeFiles'')
                 | Some prepare \<Rightarrow>
                     prepare tenant row worker users
                       (renderContent tx r ed) db1) db1
            else deliver_to_users tx tenant worker row ed payload (Some r) users groupClaims db1)))))"

definition dispatch_row :: "notice_tx \<Rightarrow> string \<Rightarrow> string \<Rightarrow> notice \<Rightarrow> notice_db \<Rightarrow> preparation" where
  "dispatch_row tx tenant worker row db =
     (if nf_event row = test_event then
        bindE (prepareDirectGroupWebhookTest tx tenant row db) (\<lambda>(claims, db1).
          if claims = [] then quarantine tx tenant row worker ''GROUP_WEBHOOK_TEST_TARGET_MISSING'' db1 else Inr (claims, db1))
      else (case notificationEventDefinition (nf_event row) of
              None \<Rightarrow> quarantine tx tenant row worker ''UNREGISTERED_NOTIFICATION_EVENT'' db
            | Some ed \<Rightarrow>
                (let rule = resolveRule tenant row db
                 in case rule of
                      None \<Rightarrow> dispatch_known tx tenant worker row ed rule db
                    | Some r \<Rightarrow>
                        if nr_resource r \<noteq> ed_resource ed
                        then quarantine tx tenant row worker ''NOTIFICATION_EVENT_RESOURCE_MISMATCH'' db
                        else if nr_recipients r \<notin> set (ed_rules ed)
                        then quarantine tx tenant row worker ''UNSUPPORTED_RECIPIENT_RULE'' db
                        else dispatch_known tx tenant worker row ed rule db)))"

definition claimForDispatcher :: "notice_tx \<Rightarrow> string \<Rightarrow> string \<Rightarrow> rat \<Rightarrow> rat \<Rightarrow> notice_db \<Rightarrow> preparation" where
  "claimForDispatcher tx tenant worker limit timeout db =
     bindE (requireTenant tenant) (\<lambda>_. bindE (requireText (Some worker) ''workerId'' 255) (\<lambda>_.
       (case claimSql tx tenant worker (normalizeLimit limit) (normalizeTimeout timeout) db of
          (rows, db1) \<Rightarrow>
            bindE (mapES (dispatch_row tx tenant worker) rows db1) (\<lambda>(css, db2). Inr (concat css, db2)))))"

section \<open>Reports of the dispatcher\<close>

record delivery_result =
  dr_delivery :: string
  dr_provider :: "string option"
  dr_code :: "string option"

text \<open>The target of a delivery as the settlement groups it.\<close>

definition settle_key :: "delivery_row \<Rightarrow> string \<times> string option \<times> string" where
  "settle_key d =
     (case dv_target_type d of None \<Rightarrow> ''USER'' | Some t \<Rightarrow> t,
      case dv_target d of None \<Rightarrow> dv_recipient d | Some t \<Rightarrow> Some t, dv_component d)"

definition latest_deliveries :: "string \<Rightarrow> string \<Rightarrow> notice_db \<Rightarrow> delivery_row list" where
  "latest_deliveries tenant outbox db =
     (let mine = filter (\<lambda>d. dv_tenant d = tenant \<and> dv_notice d = outbox) (nd_deliveries db)
      in List.map_filter (\<lambda>k. latest (\<lambda>d. dv_tenant d = tenant \<and> dv_notice d = outbox \<and> settle_key d = k) db)
           (js_dedup (map settle_key mine)))"

definition has_active :: "delivery_row list \<Rightarrow> bool" where
  "has_active ds = (\<exists>d \<in> set ds. dv_open d)"

definition has_retry :: "delivery_row list \<Rightarrow> bool" where
  "has_retry ds = (\<exists>d \<in> set ds. dv_component d \<noteq> ''routing'' \<and> dv_status d \<in> {Delivery_retry, Delivery_failed})"

definition has_routing_error :: "delivery_row list \<Rightarrow> bool" where
  "has_routing_error ds = (\<exists>d \<in> set ds. dv_component d = ''routing'' \<and> dv_status d = Delivery_failed)"

definition settled_status :: "delivery_row list \<Rightarrow> notice_status" where
  "settled_status ds =
     (if has_active ds then Notice_processing
      else if has_retry ds \<or> has_routing_error ds then Notice_failed else Notice_sent)"

definition settled :: "notice_tx \<Rightarrow> delivery_row list \<Rightarrow> notice \<Rightarrow> notice" where
  "settled tx ds r =
     (let status = settled_status ds
      in r\<lparr>nf_status := status,
           nf_failed_at := (if status = Notice_failed then Some (nt_now tx) else nf_failed_at r),
           nf_sent_at := (if status = Notice_sent then Some (nt_now tx) else nf_sent_at r),
           nf_next_retry := (if status = Notice_failed \<and> has_retry ds
             then Some (nt_now tx + int (min (max (nf_attempts r) 1) 30) * 60000) else None),
           nf_locked_at := (if status = Notice_processing then Some (nt_now tx) else None),
           nf_locked_by := (if status = Notice_processing then nf_locked_by r else None),
           nf_last_error := (if status = Notice_failed
             then Some (case nf_last_error r of None \<Rightarrow> Delivery_fault | Some e \<Rightarrow> e) else None),
           nf_version := nf_version r + 1\<rparr>)"

definition reconcileOutbox :: "notice_tx \<Rightarrow> string \<Rightarrow> string \<Rightarrow> string \<Rightarrow> notice_db \<Rightarrow> notify_error + notice \<times> notice_db" where
  "reconcileOutbox tx tenant outbox worker db =
     (let ds = latest_deliveries tenant outbox db
      in case find (held_by tenant outbox worker) (nd_notices db) of
           None \<Rightarrow> Inl (Notify_conflict ''outbox'')
         | Some r \<Rightarrow> Inr (settled tx ds r, update_notices (held_by tenant outbox worker) (settled tx ds) db))"

definition reported :: "string \<Rightarrow> string \<Rightarrow> string \<Rightarrow> string \<Rightarrow> notice_db \<Rightarrow> delivery_row \<Rightarrow> bool" where
  "reported tenant outbox worker did db d =
     (dv_tenant d = tenant \<and> dv_notice d = outbox \<and> dv_id d = did \<and> dv_open d \<and>
      (\<exists>r \<in> set (nd_notices db). held_by tenant outbox worker r))"

definition report_delivery :: "notice_tx \<Rightarrow> string \<Rightarrow> string \<Rightarrow> string \<Rightarrow> delivery_result \<Rightarrow> (delivery_row \<Rightarrow> delivery_row) \<Rightarrow> notice_db \<Rightarrow>
    notify_error + notice \<times> notice_db" where
  "report_delivery tx tenant outbox worker res f db =
     bindE (requireJobIdentity tenant outbox worker) (\<lambda>_. bindE (requireText (Some (dr_delivery res)) ''deliveryId'' 64) (\<lambda>_.
       if \<not> (\<exists>d \<in> set (nd_deliveries db). reported tenant outbox worker (dr_delivery res) db d)
       then Inl (Notify_conflict ''delivery'')
       else reconcileOutbox tx tenant outbox worker
              (db\<lparr>nd_deliveries := map (\<lambda>d. if reported tenant outbox worker (dr_delivery res) db d then f d else d)
                                     (nd_deliveries db)\<rparr>)))"

definition delivered :: "notice_tx \<Rightarrow> delivery_result \<Rightarrow> delivery_row \<Rightarrow> delivery_row" where
  "delivered tx res d =
     d\<lparr>dv_status := Delivery_sent, dv_code := dr_code res, dv_provider := dr_provider res, dv_delivered_at := Some (nt_now tx)\<rparr>"

definition undelivered :: "delivery_result \<Rightarrow> delivery_row \<Rightarrow> delivery_row" where
  "undelivered res d = d\<lparr>dv_status := Delivery_retry, dv_code := dr_code res, dv_provider := dr_provider res\<rparr>"

definition markDeliverySuccess :: "notice_tx \<Rightarrow> string \<Rightarrow> string \<Rightarrow> string \<Rightarrow> delivery_result \<Rightarrow> notice_db \<Rightarrow> notify_error + notice \<times> notice_db" where
  "markDeliverySuccess tx tenant outbox worker res db = report_delivery tx tenant outbox worker res (delivered tx res) db"

definition markDeliveryFailure :: "notice_tx \<Rightarrow> string \<Rightarrow> string \<Rightarrow> string \<Rightarrow> delivery_result \<Rightarrow> notice_db \<Rightarrow> notify_error + notice \<times> notice_db" where
  "markDeliveryFailure tx tenant outbox worker res db = report_delivery tx tenant outbox worker res (undelivered res) db"

definition groupImageAttachment :: "string \<Rightarrow> string \<Rightarrow> string \<Rightarrow> string \<Rightarrow> notice_db \<Rightarrow> notify_error + event_component" where
  "groupImageAttachment tenant outbox component worker db =
     bindE (requireJobIdentity tenant outbox worker) (\<lambda>_.
       case find (\<lambda>c. ec_tenant c = tenant \<and> ec_notice c = outbox \<and> ec_id c = component \<and> ec_type c = Comp_image \<and>
                   (\<exists>r \<in> set (nd_notices db). held_by tenant outbox worker r) \<and>
                   (\<exists>d \<in> set (nd_deliveries db). dv_tenant d = tenant \<and> dv_notice d = outbox \<and>
                      dv_target_type d = Some group_channel \<and> dv_open d)) (nd_components db) of
         None \<Rightarrow> Inl (Notify_conflict ''image'')
       | Some c \<Rightarrow> Inr c)"

section \<open>Rules and new notifications\<close>

record rule_input =
  ri_key :: string
  ri_name :: string
  ri_event :: string
  ri_channel :: string
  ri_resource :: "string option"
  ri_recipients :: "string option"
  ri_enabled :: "bool option"
  ri_config :: "(string \<times> json) list option"

definition default_to :: "'a \<Rightarrow> 'a option \<Rightarrow> 'a" where
  "default_to d v = (case v of None \<Rightarrow> d | Some x \<Rightarrow> x)"

definition upsertRule :: "notice_tx \<Rightarrow> string \<Rightarrow> rule_input \<Rightarrow> notice_db \<Rightarrow> notify_error + notice_rule \<times> notice_db" where
  "upsertRule tx tenant i db =
     (let resource = default_to ''notification'' (ri_resource i); recipients = default_to ''NONE'' (ri_recipients i)
      in bindE (requireTenant tenant) (\<lambda>_. bindE (requireText (Some (ri_key i)) ''ruleKey'' 128) (\<lambda>_.
         bindE (requireText (Some (ri_name i)) ''name'' 255) (\<lambda>_. bindE (requireText (Some (ri_event i)) ''eventType'' 128) (\<lambda>_.
         bindE (requireText (Some (ri_channel i)) ''channel'' 64) (\<lambda>_. bindE (requireText (Some resource) ''resource'' 128) (\<lambda>_.
         bindE (requireText (Some recipients) ''recipientRule'' 128) (\<lambda>_.
         case find (\<lambda>r. nr_tenant r = tenant \<and> nr_key r = ri_key i) (nd_rules db) of
           Some old \<Rightarrow>
             (let new = old\<lparr>nr_name := ri_name i, nr_event := ri_event i, nr_channel := ri_channel i, nr_resource := resource,
                            nr_recipients := recipients, nr_enabled := default_to True (ri_enabled i),
                            nr_config := default_to [] (ri_config i), nr_updated := nt_now tx, nr_version := nr_version old + 1\<rparr>
              in Inr (new, db\<lparr>nd_rules := map (\<lambda>r. if nr_id r = nr_id old then new else r) (nd_rules db)\<rparr>))
         | None \<Rightarrow>
             (let new = \<lparr>nr_id = nt_rule_id tx (nd_rules db), nr_tenant = tenant, nr_key = ri_key i, nr_name = ri_name i,
                         nr_event = ri_event i, nr_channel = ri_channel i, nr_resource = resource, nr_recipients = recipients,
                         nr_enabled = default_to True (ri_enabled i), nr_config = default_to [] (ri_config i),
                         nr_updated = nt_now tx, nr_version = 1\<rparr>
              in Inr (new, db\<lparr>nd_rules := nd_rules db @ [new]\<rparr>))))))))))"

definition new_notice :: "notice_tx \<Rightarrow> string \<Rightarrow> string option \<Rightarrow> string \<Rightarrow> string \<Rightarrow> string \<Rightarrow> (string \<times> json) list \<Rightarrow> notice_db \<Rightarrow> notice" where
  "new_notice tx tenant rule event channel dedup payload db =
     \<lparr>nf_id = nt_notice_id tx (nd_notices db), nf_tenant = tenant, nf_rule = rule, nf_event = event, nf_channel = channel,
      nf_dedup = dedup, nf_payload = JObj payload, nf_status = Notice_pending, nf_attempts = 0, nf_next_retry = Some (nt_now tx),
      nf_locked_at = None, nf_locked_by = None, nf_sent_at = None, nf_failed_at = None, nf_last_error = None,
      nf_created = nt_now tx, nf_version = 1\<rparr>"

text \<open>\<open>INSERT ... ON CONFLICT(tenant_id,dedup_key) DO NOTHING RETURNING *\<close>, then the row that is there.\<close>

definition insert_notice :: "notice_tx \<Rightarrow> string \<Rightarrow> string option \<Rightarrow> string \<Rightarrow> string \<Rightarrow> string \<Rightarrow> (string \<times> json) list \<Rightarrow> notice_db \<Rightarrow>
    notify_error + (notice \<times> bool) \<times> notice_db" where
  "insert_notice tx tenant rule event channel dedup payload db =
     (let new = new_notice tx tenant rule event channel dedup payload db
      in case find (\<lambda>r. nf_tenant r = tenant \<and> nf_dedup r = dedup) (nd_notices db) of
           Some old \<Rightarrow> Inr ((old, False), db)
         | None \<Rightarrow>
             if \<exists>r \<in> set (nd_notices db). nf_id r = nf_id new then Inl Unique_violation
             else if rule \<noteq> None \<and> \<not> (\<exists>q \<in> set (nd_rules db). nr_tenant q = tenant \<and> rule = Some (nr_id q))
             then Inl Foreign_key_violation
             else Inr ((new, True), db\<lparr>nd_notices := nd_notices db @ [new]\<rparr>))"

definition enqueue :: "notice_tx \<Rightarrow> string \<Rightarrow> string option \<Rightarrow> string \<Rightarrow> string \<Rightarrow> string \<Rightarrow> (string \<times> json) list \<Rightarrow> notice_db \<Rightarrow>
    notify_error + (notice \<times> bool) \<times> notice_db" where
  "enqueue tx tenant rule event channel dedup payload db =
     bindE (requireTenant tenant) (\<lambda>_.
     bindE (case rule of None \<Rightarrow> Inr () | Some r \<Rightarrow> if r = [] then Inr () else requireText (Some r) ''ruleId'' 64) (\<lambda>_.
     bindE (requireText (Some event) ''eventType'' 128) (\<lambda>_. bindE (requireText (Some channel) ''channel'' 64) (\<lambda>_.
     bindE (requireText (Some dedup) ''dedupKey'' 255) (\<lambda>_. insert_notice tx tenant rule event channel dedup payload db)))))"

definition enqueueEvent :: "notice_tx \<Rightarrow> string \<Rightarrow> string \<Rightarrow> string \<Rightarrow> (string \<times> json) list \<Rightarrow> string option \<Rightarrow> string option \<Rightarrow> notice_db \<Rightarrow>
    notify_error + (notice \<times> bool) \<times> notice_db" where
  "enqueueEvent tx tenant event dedup payload channel rule db =
     enqueue tx tenant rule event (default_to ''UNASSIGNED'' channel) dedup payload db"

text \<open>A component of a group message; an image carries the bytes its base64 text stands for.\<close>

datatype component_input =
    Text_input component_type string
  | Image_input string string string

definition png_header :: string where
  "png_header = map char_of [0x89, 0x50, 0x4e, 0x47, 0x0d, 0x0a, 0x1a, 0x0a :: nat]"

definition utf8_length :: "string \<Rightarrow> nat" where
  "utf8_length s = sum_list (map (\<lambda>c. if (of_char c :: nat) < 128 then 1 else 2) s)"

definition image_bytes :: "component_input \<Rightarrow> nat" where
  "image_bytes c = (case c of Image_input _ _ bytes \<Rightarrow> length bytes | Text_input _ _ \<Rightarrow> 0)"

definition component_ok :: "component_input \<Rightarrow> bool" where
  "component_ok c =
     (case c of
        Image_input filename mime bytes \<Rightarrow>
          filename \<noteq> [] \<and> length filename \<le> 255 \<and> mime = ''image/png'' \<and> 8 \<le> length bytes \<and>
          length bytes \<le> 4 * 1024 * 1024 \<and> take 8 bytes = png_header
      | Text_input _ content \<Rightarrow> js_trim content \<noteq> [] \<and> utf8_length content \<le> 12000)"

definition new_component :: "notice_tx \<Rightarrow> string \<Rightarrow> string \<Rightarrow> component_input \<times> nat \<Rightarrow> event_component list \<Rightarrow> event_component list" where
  "new_component tx tenant outbox ci cs =
     (case ci of (c, k) \<Rightarrow>
        cs @ [(case c of
          Image_input filename mime bytes \<Rightarrow>
            \<lparr>ec_id = nt_component_id tx cs, ec_tenant = tenant, ec_notice = outbox, ec_sequence = k, ec_type = Comp_image,
             ec_text = None, ec_filename = Some filename, ec_content = Some bytes\<rparr>
        | Text_input t content \<Rightarrow>
            \<lparr>ec_id = nt_component_id tx cs, ec_tenant = tenant, ec_notice = outbox, ec_sequence = k, ec_type = t,
             ec_text = Some content, ec_filename = None, ec_content = None\<rparr>)])"

definition first_is_text :: "component_input list \<Rightarrow> bool" where
  "first_is_text cs =
     (case cs of Text_input t _ # _ \<Rightarrow> t \<in> {Comp_text, Comp_markdown} | _ \<Rightarrow> False)"

definition add_components :: "notice_tx \<Rightarrow> string \<Rightarrow> component_input list \<Rightarrow> notice \<times> bool \<Rightarrow> notice_db \<Rightarrow> notice_db" where
  "add_components tx tenant components a db =
     (if snd a then db\<lparr>nd_components :=
        fold (new_component tx tenant (nf_id (fst a))) (zip components [1..<length components + 1]) (nd_components db)\<rparr>
      else db)"

definition enqueueGroupEvent :: "notice_tx \<Rightarrow> string \<Rightarrow> string \<Rightarrow> string \<Rightarrow> component_input list \<Rightarrow> notice_db \<Rightarrow>
    notify_error + (notice \<times> bool) \<times> notice_db" where
  "enqueueGroupEvent tx tenant event dedup components db =
     bindE (requireTenant tenant) (\<lambda>_.
       if (case notificationEventDefinition event of None \<Rightarrow> True | Some ed \<Rightarrow> ed_channel ed \<noteq> group_channel)
       then Inl (Notify_conflict ''channel'')
       else bindE (requireText (Some dedup) ''dedupKey'' 255) (\<lambda>_.
         if components = [] \<or> length components > 3 \<or> \<not> first_is_text components then Inl (Notify_conflict ''order'')
         else if sum_list (map image_bytes components) > 6 * 1024 * 1024 then Inl (Notify_conflict ''size'')
         else if \<not> list_all component_ok components then Inl (Notify_conflict ''component'')
         else bindE (insert_notice tx tenant None event group_channel dedup [] db) (\<lambda>(a, db1).
           Inr (a, add_components tx tenant components a db1))))"

section \<open>Retry by an administrator\<close>

definition payload_without :: "string list \<Rightarrow> json \<Rightarrow> json" where
  "payload_without ks payload = (case payload of JObj kvs \<Rightarrow> JObj (filter (\<lambda>(k, _). k \<notin> set ks) kvs) | p \<Rightarrow> p)"

definition retried :: "notice_tx \<Rightarrow> notice_db \<Rightarrow> notice \<Rightarrow> notice" where
  "retried tx db r =
     r\<lparr>nf_payload :=
         (if nf_event r = allocation_event \<and>
             (\<exists>d \<in> set (nd_deliveries db). dv_notice d = nf_id r \<and> dv_tenant d = nf_tenant r \<and> dv_component d = ''routing'' \<and>
                dv_status d = Delivery_failed)
          then payload_without [''routes'', ''routingErrors''] (nf_payload r) else nf_payload r),
       nf_status := Notice_pending, nf_next_retry := Some (nt_now tx), nf_last_error := None, nf_failed_at := None,
       nf_locked_at := None, nf_locked_by := None, nf_version := nf_version r + 1\<rparr>"

definition retry_notice :: "notice_tx \<Rightarrow> (notice \<Rightarrow> bool) \<Rightarrow> string \<Rightarrow> string \<Rightarrow> notice_db \<Rightarrow> notify_error + notice_db" where
  "retry_notice tx permitted tenant outbox db =
     (let mine = (\<lambda>r. nf_tenant r = tenant \<and> nf_id r = outbox)
      in case find mine (nd_notices db) of
           None \<Rightarrow> Inl (Other_failure ''not found'')
         | Some row \<Rightarrow>
             if \<not> permitted row then Inl (Other_failure ''forbidden'')
             else if \<exists>d \<in> set (nd_deliveries db). dv_tenant d = tenant \<and> dv_notice d = outbox \<and> dv_status d = Delivery_skipped \<and>
                       dv_code d \<in> {Some ''SKIPPED_MISSING_WECHAT_ID'', Some ''SKIPPED_DISABLED''}
             then Inl (Notify_conflict ''skipped'')
             else if nf_status row \<noteq> Notice_failed then Inl (Notify_conflict ''status'')
             else Inr (update_notices (\<lambda>r. mine r \<and> nf_status r = Notice_failed) (retried tx db) db))"

end
