(* ===== verification/NoticeLaws.thy ===== *)
theory NoticeLaws
  imports Notifications
begin

text \<open>
  What the notification outbox keeps true.  A target of a notification is a person or a group webhook with a
  component of the message.  The invariant \<open>notice_inv\<close> says that a target gets a second live delivery only
  after a skipped one; \<open>step_on\<close> collects what a transaction may do to the notifications it works on, and
  the locale \<open>file_service\<close> is the same contract for the services that prepare deliveries with files.
\<close>

section \<open>The invariant\<close>

definition dkey :: "delivery_row \<Rightarrow> string \<times> string \<times> string option \<times> string option \<times> string option \<times> string" where
  "dkey d = (dv_tenant d, dv_notice d, dv_recipient d, dv_target_type d, dv_target d, dv_component d)"

definition live :: "delivery_row \<Rightarrow> bool" where
  "live d = (dv_open d \<or> dv_status d = Delivery_sent)"

definition skipped :: "delivery_row \<Rightarrow> bool" where
  "skipped d = (dv_status d = Delivery_skipped)"

definition addressed :: "delivery_row \<Rightarrow> bool" where
  "addressed d = (dv_recipient d \<noteq> None \<or> dv_target_type d \<noteq> None)"

definition shape_ok :: "delivery_row \<Rightarrow> bool" where
  "shape_ok d =
     (dv_target_type d = None \<and> dv_target d = None \<or>
      dv_target_type d = Some group_channel \<and> dv_target d \<noteq> None \<and> dv_recipient d = None)"

definition tried :: "delivery_row \<Rightarrow> bool" where
  "tried d = (live d \<or> dv_status d = Delivery_retry)"

definition log_ok :: "delivery_row \<Rightarrow> bool" where
  "log_ok d =
     (shape_ok d \<and> (tried d \<longrightarrow> addressed d \<and> dv_component d \<noteq> ''routing'') \<and> (dv_target_type d \<noteq> None \<longrightarrow> \<not> skipped d \<and> dv_component d \<noteq> ''routing''))"

definition repeats_skipped :: "delivery_row list \<Rightarrow> bool" where
  "repeats_skipped ds =
     (\<forall>d \<in> set ds. \<forall>e \<in> set ds. dkey d = dkey e \<longrightarrow> dv_attempt d < dv_attempt e \<longrightarrow> live d \<longrightarrow> \<not> skipped e \<longrightarrow>
        (\<exists>s \<in> set ds. dkey s = dkey d \<and> skipped s \<and> dv_attempt d < dv_attempt s \<and> dv_attempt s < dv_attempt e))"

definition attempts_distinct :: "delivery_row list \<Rightarrow> bool" where
  "attempts_distinct ds =
     (\<forall>d \<in> set ds. \<forall>e \<in> set ds. addressed d \<longrightarrow> dkey d = dkey e \<longrightarrow> dv_attempt d = dv_attempt e \<longrightarrow> d = e)"

definition logs_ok :: "delivery_row list \<Rightarrow> bool" where
  "logs_ok ds =
     (distinct (map dv_id ds) \<and> (\<forall>d \<in> set ds. log_ok d) \<and> attempts_distinct ds \<and> repeats_skipped ds)"

text \<open>Notifications whose deliveries are prepared by a service for files.\<close>

definition special :: "notice \<Rightarrow> bool" where
  "special r =
     (nf_event r = allocation_event \<or>
      nf_event r = finance_event \<and> payload_field (nf_payload r) ''financeReportFormat'' = Some (JNum 1))"

definition plain_logs :: "notice_db \<Rightarrow> bool" where
  "plain_logs db =
     (\<forall>d \<in> set (nd_deliveries db). \<forall>r \<in> set (nd_notices db).
        dv_notice d = nf_id r \<longrightarrow> \<not> special r \<longrightarrow> dv_recipient d \<noteq> None \<longrightarrow> dv_component d = ''text'')"

definition refers :: "notice_db \<Rightarrow> bool" where
  "refers db =
     (\<forall>d \<in> set (nd_deliveries db). \<exists>r \<in> set (nd_notices db). nf_id r = dv_notice d \<and> nf_tenant r = dv_tenant d)"

definition object_payload :: "notice \<Rightarrow> bool" where
  "object_payload r = (\<exists>kvs. nf_payload r = JObj kvs)"

definition notice_inv :: "notice_db \<Rightarrow> bool" where
  "notice_inv db =
     (logs_ok (nd_deliveries db) \<and> distinct (map nf_id (nd_notices db)) \<and> (\<forall>r \<in> set (nd_notices db). object_payload r) \<and>
      plain_logs db \<and> refers db)"

lemma plain_logsD: "notice_inv db \<Longrightarrow> d \<in> set (nd_deliveries db) \<Longrightarrow> r \<in> set (nd_notices db) \<Longrightarrow>
    dv_notice d = nf_id r \<Longrightarrow> \<not> special r \<Longrightarrow> dv_recipient d \<noteq> None \<Longrightarrow> dv_component d = ''text''"
  unfolding notice_inv_def plain_logs_def by blast

lemma refersD: "notice_inv db \<Longrightarrow> d \<in> set (nd_deliveries db) \<Longrightarrow>
    \<exists>r \<in> set (nd_notices db). nf_id r = dv_notice d \<and> nf_tenant r = dv_tenant d"
  unfolding notice_inv_def refers_def by blast

lemma unique_notice: "notice_inv db \<Longrightarrow> r \<in> set (nd_notices db) \<Longrightarrow> q \<in> set (nd_notices db) \<Longrightarrow> nf_id r = nf_id q \<Longrightarrow> r = q"
  by (auto simp: notice_inv_def distinct_map dest: inj_onD)

section \<open>Logs\<close>

lemma dkey_eq: "dkey d = dkey e \<longleftrightarrow>
    dv_tenant d = dv_tenant e \<and> dv_notice d = dv_notice e \<and> dv_recipient d = dv_recipient e \<and>
    dv_target_type d = dv_target_type e \<and> dv_target d = dv_target e \<and> dv_component d = dv_component e"
  by (auto simp: dkey_def)

lemma live_cases: "live d \<longleftrightarrow> dv_status d \<in> {Delivery_pending, Delivery_processing, Delivery_sent}"
  by (auto simp: live_def dv_open_def)

lemma live_not_skipped: "live d \<Longrightarrow> \<not> skipped d"
  by (auto simp: live_cases skipped_def)

lemma sorted_last: "sorted xs \<Longrightarrow> x \<in> set xs \<Longrightarrow> x \<le> last xs"
  by (induction xs) auto

lemma last_sort_key:
  assumes "x \<in> set xs"
  shows "last (sort_key f xs) \<in> set xs \<and> f x \<le> f (last (sort_key f xs))"
proof -
  have ne: "sort_key f xs \<noteq> []" using assms by (metis empty_iff empty_set set_sort)
  then have "last (sort_key f xs) \<in> set xs" using last_in_set by fastforce
  moreover have "f x \<le> last (map f (sort_key f xs))"
    using assms by (intro sorted_last) auto
  ultimately show ?thesis using ne by (simp add: last_map)
qed

lemma latest_None: "latest P db = None \<Longrightarrow> d \<in> set (nd_deliveries db) \<Longrightarrow> \<not> P d"
  by (auto simp: latest_def js_last_def split: if_splits)
    (metis (mono_tags, lifting) filter_empty_conv sort_key_simps(1) length_0_conv length_sort)

lemma latest_Some:
  assumes "latest P db = Some d"
  shows "d \<in> set (nd_deliveries db)" "P d"
    and "\<And>e. e \<in> set (nd_deliveries db) \<Longrightarrow> P e \<Longrightarrow> dv_attempt e \<le> dv_attempt d"
proof -
  let ?xs = "filter P (nd_deliveries db)"
  let ?f = "\<lambda>d. (dv_attempt d, dv_id d)"
  have d: "d = last (sort_key ?f ?xs)" and ne: "sort_key ?f ?xs \<noteq> []"
    using assms by (auto simp: latest_def js_last_def split: if_splits)
  have "d \<in> set ?xs" using last_in_set [OF ne] d by simp
  then show "d \<in> set (nd_deliveries db)" "P d" by auto
  fix e assume "e \<in> set (nd_deliveries db)" "P e"
  then have "?f e \<le> ?f d" using last_sort_key [of e ?xs ?f] d by auto
  then show "dv_attempt e \<le> dv_attempt d" by (auto simp: less_eq_prod_def)
qed

text \<open>When a pending row may follow: nothing there yet, or the newest row of the target is closed.\<close>

definition may_follow :: "delivery_row \<Rightarrow> delivery_row list \<Rightarrow> bool" where
  "may_follow d ds =
     ((\<forall>e \<in> set ds. dkey e \<noteq> dkey d) \<or>
      (\<exists>f \<in> set ds. dkey f = dkey d \<and> \<not> live f \<and> dv_attempt d = dv_attempt f + 1 \<and>
         (\<forall>g \<in> set ds. dkey g = dkey d \<longrightarrow> dv_attempt g \<le> dv_attempt f)))"

lemma may_follow_greater: "may_follow d ds \<Longrightarrow> e \<in> set ds \<Longrightarrow> dkey e = dkey d \<Longrightarrow> dv_attempt e < dv_attempt d"
  by (fastforce simp: may_follow_def)

lemma may_follow_repeats:
  assumes "may_follow d ds" "attempts_distinct ds" "repeats_skipped ds"
    and e: "e \<in> set ds" "dkey e = dkey d" "live e" "addressed e"
  shows "\<exists>s \<in> set ds. dkey s = dkey d \<and> skipped s \<and> dv_attempt e < dv_attempt s \<and> dv_attempt s < dv_attempt d"
proof -
  obtain f where f: "f \<in> set ds" "dkey f = dkey d" "\<not> live f" "dv_attempt d = dv_attempt f + 1"
      "dv_attempt e \<le> dv_attempt f"
    using assms(1) e by (auto simp: may_follow_def)
  have "dv_attempt e \<noteq> dv_attempt f"
    using assms(2) e f unfolding attempts_distinct_def by metis
  then have lt: "dv_attempt e < dv_attempt f" using f(5) by simp
  show ?thesis
  proof (cases "skipped f")
    case True
    then show ?thesis using f lt by (intro bexI [of _ f]) auto
  next
    case False
    then obtain s where "s \<in> set ds" "dkey s = dkey e" "skipped s" "dv_attempt e < dv_attempt s" "dv_attempt s < dv_attempt f"
      using assms(3) e f lt unfolding repeats_skipped_def by metis
    then show ?thesis using e(2) f(4) by (intro bexI [of _ s]) auto
  qed
qed

text \<open>A row that may be added: skipped, a routing failure, or a pending one that may follow.\<close>

definition fresh_log :: "delivery_row \<Rightarrow> delivery_row list \<Rightarrow> bool" where
  "fresh_log d ds =
     (log_ok d \<and> (\<forall>e \<in> set ds. dv_id e \<noteq> dv_id d \<and> \<not> same_recipient_attempt d e \<and> \<not> same_group_attempt d e) \<and>
      (skipped d \<or> \<not> live d \<and> dv_component d = ''routing'' \<or> may_follow d ds))"

lemma fresh_attempt:
  assumes "fresh_log d ds" "e \<in> set ds" "dkey e = dkey d" "addressed d"
  shows "dv_attempt e \<noteq> dv_attempt d"
  using assms by (auto simp: fresh_log_def log_ok_def shape_ok_def addressed_def same_recipient_attempt_def
      same_group_attempt_def dkey_eq)

lemma logs_ok_insert:
  assumes ok: "logs_ok ds" and d: "fresh_log d ds"
  shows "logs_ok (ds @ [d])"
proof -
  have rep: "repeats_skipped (ds @ [d])"
    unfolding repeats_skipped_def
  proof (intro ballI impI)
    fix a b assume a: "a \<in> set (ds @ [d])" and b: "b \<in> set (ds @ [d])"
      and k: "dkey a = dkey b" "dv_attempt a < dv_attempt b" "live a" "\<not> skipped b"
    have ad: "addressed a" "dv_component a \<noteq> ''routing''"
      using a ok d k(3) by (auto simp: logs_ok_def log_ok_def fresh_log_def tried_def)
    show "\<exists>s \<in> set (ds @ [d]). dkey s = dkey a \<and> skipped s \<and> dv_attempt a < dv_attempt s \<and> dv_attempt s < dv_attempt b"
    proof (cases "a \<in> set ds")
      case True
      show ?thesis
      proof (cases "b \<in> set ds")
        case True
        then have "\<exists>s \<in> set ds. dkey s = dkey a \<and> skipped s \<and> dv_attempt a < dv_attempt s \<and> dv_attempt s < dv_attempt b"
          using \<open>a \<in> set ds\<close> ok k unfolding logs_ok_def repeats_skipped_def by blast
        then show ?thesis by auto
      next
        case False
        then have "b = d" using b by simp
        moreover have "dv_component a = dv_component b" using k(1) by (simp add: dkey_eq)
        ultimately have "may_follow d ds" using d k ad by (auto simp: fresh_log_def)
        then have "\<exists>s \<in> set ds. dkey s = dkey d \<and> skipped s \<and> dv_attempt a < dv_attempt s \<and> dv_attempt s < dv_attempt d"
          using ok \<open>a \<in> set ds\<close> k ad \<open>b = d\<close> by (intro may_follow_repeats) (auto simp: logs_ok_def)
        then show ?thesis using k(1) \<open>b = d\<close> by auto
      qed
    next
      case False
      then have "a = d" using a by simp
      then have "b \<in> set ds" using b k(2) by auto
      have "may_follow d ds" using d k(3) ad \<open>a = d\<close> live_not_skipped by (auto simp: fresh_log_def)
      then have "dv_attempt b < dv_attempt d" using \<open>b \<in> set ds\<close> k(1) \<open>a = d\<close> by (simp add: may_follow_greater)
      then show ?thesis using k(2) \<open>a = d\<close> by simp
    qed
  qed
  have "attempts_distinct (ds @ [d])"
    unfolding attempts_distinct_def
  proof (intro ballI impI)
    fix a b assume a: "a \<in> set (ds @ [d])" and b: "b \<in> set (ds @ [d])"
      and k: "addressed a" "dkey a = dkey b" "dv_attempt a = dv_attempt b"
    have kb: "addressed b" using k by (auto simp: addressed_def dkey_eq)
    consider "a \<in> set ds" "b \<in> set ds" | "a = d" "b = d" | "a = d" "b \<in> set ds" | "a \<in> set ds" "b = d" using a b by auto
    then show "a = b"
    proof cases
      case 1 then show ?thesis using ok k unfolding logs_ok_def attempts_distinct_def by blast
    next
      case 3 then show ?thesis using fresh_attempt [OF d, of b] k by auto
    next
      case 4 then show ?thesis using fresh_attempt [OF d, of a] k kb by auto
    qed simp
  qed
  then show ?thesis using rep ok d by (auto simp: logs_ok_def fresh_log_def)
qed

text \<open>Changes of rows in place: none becomes live, a skipped row stays skipped.\<close>

definition log_change :: "delivery_row \<Rightarrow> delivery_row \<Rightarrow> bool" where
  "log_change d d' =
     (dv_id d' = dv_id d \<and> dkey d' = dkey d \<and> dv_attempt d' = dv_attempt d \<and> (live d' \<longrightarrow> live d) \<and> (tried d' \<longrightarrow> tried d) \<and>
      (skipped d \<longrightarrow> skipped d') \<and> (skipped d' \<longrightarrow> skipped d \<or> dv_target_type d = None))"

lemma logs_ok_change:
  assumes ok: "logs_ok ds" and f: "\<And>d. d \<in> set ds \<Longrightarrow> log_change d (f d)"
  shows "logs_ok (map f ds)"
proof -
  have "map dv_id (map f ds) = map dv_id ds" using f by (auto simp: log_change_def)
  then have "distinct (map dv_id (map f ds))" using ok by (simp only: logs_ok_def)
  moreover have "log_ok (f d)" if "d \<in> set ds" for d
    using ok f [OF that] that by (auto simp: logs_ok_def log_ok_def log_change_def shape_ok_def addressed_def dkey_eq)
  moreover have "attempts_distinct (map f ds)"
    unfolding attempts_distinct_def
  proof (intro ballI impI)
    fix a b assume "a \<in> set (map f ds)" "b \<in> set (map f ds)"
      and k: "addressed a" "dkey a = dkey b" "dv_attempt a = dv_attempt b"
    then obtain a' b' where *: "a' \<in> set ds" "b' \<in> set ds" "a = f a'" "b = f b'" by auto
    have c: "log_change a' a" "log_change b' b" using * f by auto
    then have "addressed a'" "dkey a' = dkey b'" "dv_attempt a' = dv_attempt b'"
      using k by (auto simp: log_change_def addressed_def dkey_eq)
    then have "a' = b'" using ok * unfolding logs_ok_def attempts_distinct_def by blast
    then show "a = b" using * by simp
  qed
  moreover have "repeats_skipped (map f ds)"
    unfolding repeats_skipped_def
  proof (intro ballI impI)
    fix a b assume "a \<in> set (map f ds)" "b \<in> set (map f ds)"
      and k: "dkey a = dkey b" "dv_attempt a < dv_attempt b" "live a" "\<not> skipped b"
    then obtain a' b' where *: "a' \<in> set ds" "b' \<in> set ds" "a = f a'" "b = f b'" by auto
    have c: "log_change a' a" "log_change b' b" using * f by auto
    have "dkey a' = dkey b'" "dv_attempt a' < dv_attempt b'" "live a'" "\<not> skipped b'"
      using k c by (auto simp: log_change_def)
    then obtain s where s: "s \<in> set ds" "dkey s = dkey a'" "skipped s" "dv_attempt a' < dv_attempt s" "dv_attempt s < dv_attempt b'"
      using ok * unfolding logs_ok_def repeats_skipped_def by blast
    have "log_change s (f s)" using f s(1) by blast
    then have "dkey (f s) = dkey a" "skipped (f s)" "dv_attempt a < dv_attempt (f s)" "dv_attempt (f s) < dv_attempt b"
      using s c by (auto simp: log_change_def)
    then show "\<exists>s \<in> set (map f ds). dkey s = dkey a \<and> skipped s \<and> dv_attempt a < dv_attempt s \<and> dv_attempt s < dv_attempt b"
      using s(1) by auto
  qed
  ultimately show ?thesis by (auto simp: logs_ok_def simp del: map_map)
qed

section \<open>What a transaction may do\<close>

definition facts :: "notice \<Rightarrow> string \<times> string \<times> string \<times> bool" where
  "facts r = (nf_id r, nf_tenant r, nf_event r, special r)"

text \<open>Only the notifications of \<open>I\<close> and their deliveries change, and these keep what they are.\<close>

definition frame :: "string set \<Rightarrow> notice_db \<Rightarrow> notice_db \<Rightarrow> bool" where
  "frame I db db' =
     (map facts (nd_notices db') = map facts (nd_notices db) \<and>
      filter (\<lambda>r. nf_id r \<notin> I) (nd_notices db') = filter (\<lambda>r. nf_id r \<notin> I) (nd_notices db) \<and>
      filter (\<lambda>d. dv_notice d \<notin> I) (nd_deliveries db') = filter (\<lambda>d. dv_notice d \<notin> I) (nd_deliveries db) \<and>
      nd_rules db' = nd_rules db \<and> nd_components db' = nd_components db)"

definition step_on :: "string set \<Rightarrow> notice_db \<Rightarrow> notice_db \<Rightarrow> bool" where
  "step_on I db db' = (notice_inv db \<longrightarrow> notice_inv db' \<and> frame I db db')"

lemma step_refl [simp]: "step_on I db db"
  by (simp add: step_on_def frame_def)

lemma step_trans: "step_on I db db' \<Longrightarrow> step_on I db' db'' \<Longrightarrow> step_on I db db''"
  by (auto simp: step_on_def frame_def)

lemma filter_sub: "filter P xs = filter P ys \<Longrightarrow> (\<And>x. Q x \<Longrightarrow> P x) \<Longrightarrow> filter Q xs = filter Q ys"
proof -
  assume a: "filter P xs = filter P ys" and b: "\<And>x. Q x \<Longrightarrow> P x"
  have "filter Q zs = filter Q (filter P zs)" for zs using b by (auto simp: filter_filter intro: filter_cong)
  then show ?thesis using a by metis
qed

lemma step_mono: "step_on I db db' \<Longrightarrow> I \<subseteq> J \<Longrightarrow> step_on J db db'"
  unfolding step_on_def frame_def
  by (intro impI conjI; elim impE conjE; (assumption | (rule filter_sub, assumption, blast)))

definition known_notice :: "notice \<Rightarrow> notice_db \<Rightarrow> bool" where
  "known_notice row db = (facts row \<in> set (map facts (nd_notices db)))"

lemma known_step: "known_notice row db \<Longrightarrow> notice_inv db \<Longrightarrow> step_on I db db' \<Longrightarrow> known_notice row db'"
  by (simp add: known_notice_def step_on_def frame_def del: set_map)

lemma known_plain:
  assumes "notice_inv db" "known_notice row db" "\<not> special row" "d \<in> set (nd_deliveries db)" "dv_notice d = nf_id row" "dv_recipient d \<noteq> None"
  shows "dv_component d = ''text''"
proof -
  obtain r where r: "r \<in> set (nd_notices db)" "facts r = facts row" using assms(2) by (auto simp: known_notice_def)
  then have "nf_id r = nf_id row" "\<not> special r" using assms(3) by (auto simp: facts_def)
  then show ?thesis using plain_logsD [OF assms(1,4) r(1)] assms(5,6) by simp
qed

lemma step_insert:
  assumes ins: "insert_delivery d db = Inr (d', db')"
    and d: "notice_inv db \<Longrightarrow> log_ok d \<and> (skipped d \<or> \<not> live d \<and> dv_component d = ''routing'' \<or> may_follow d (nd_deliveries db))"
    and plain: "notice_inv db \<Longrightarrow> dv_recipient d \<noteq> None \<Longrightarrow> dv_component d = ''text'' \<or> (\<exists>row. known_notice row db \<and> special row \<and> nf_id row = dv_notice d)"
    and i: "dv_notice d \<in> I"
  shows "d' = d \<and> db' = db\<lparr>nd_deliveries := nd_deliveries db @ [d]\<rparr> \<and> step_on I db db'"
proof -
  have db': "d' = d" "db' = db\<lparr>nd_deliveries := nd_deliveries db @ [d]\<rparr>"
    and new: "\<And>e. e \<in> set (nd_deliveries db) \<Longrightarrow> dv_id e \<noteq> dv_id d \<and> \<not> same_recipient_attempt d e \<and> \<not> same_group_attempt d e"
    and fk: "\<exists>r \<in> set (nd_notices db). nf_tenant r = dv_tenant d \<and> nf_id r = dv_notice d"
    using ins by (auto simp: insert_delivery_def split: if_splits)
  have "notice_inv db'" if inv: "notice_inv db"
  proof -
    have "fresh_log d (nd_deliveries db)" using d [OF inv] new by (auto simp: fresh_log_def)
    then have logs: "logs_ok (nd_deliveries db @ [d])" using inv by (intro logs_ok_insert) (auto simp: notice_inv_def)
    have "dv_component d = ''text''" if r: "r \<in> set (nd_notices db)" "dv_notice d = nf_id r" "\<not> special r" "dv_recipient d \<noteq> None" for r
    proof (rule ccontr)
      assume "dv_component d \<noteq> ''text''"
      then obtain row where row: "known_notice row db" "special row" "nf_id row = dv_notice d" using plain inv r(4) by auto
      then obtain q where q: "q \<in> set (nd_notices db)" "facts q = facts row" by (auto simp: known_notice_def)
      then have "nf_id q = nf_id r" "special q" using row r by (auto simp: facts_def)
      moreover have "distinct (map nf_id (nd_notices db))" using inv by (simp add: notice_inv_def)
      ultimately have "q = r" using q(1) r(1) by (auto simp: distinct_map dest: inj_onD)
      then show False using \<open>special q\<close> r by simp
    qed
    then show ?thesis using inv logs fk unfolding db' notice_inv_def plain_logs_def refers_def by (auto simp del: map_append)
  qed
  then show ?thesis using db' i by (simp add: step_on_def frame_def)
qed

text \<open>Updates of rows that keep what a notification is.\<close>

lemma step_update:
  assumes f: "\<And>r. r \<in> set (nd_notices db) \<Longrightarrow> P r \<Longrightarrow> facts (f r) = facts r \<and> (object_payload r \<longrightarrow> object_payload (f r)) \<and> nf_id r \<in> I"
  shows "step_on I db (update_notices P f db)"
proof -
  let ?g = "\<lambda>r. if P r then f r else r"
  have facts: "map facts (map ?g (nd_notices db)) = map facts (nd_notices db)" using f by auto
  have ids: "map nf_id (map ?g (nd_notices db)) = map nf_id (nd_notices db)"
    using f by (auto simp: facts_def)
  have "filter (\<lambda>r. nf_id r \<notin> I) (map ?g rs) = filter (\<lambda>r. nf_id r \<notin> I) rs" if "set rs \<subseteq> set (nd_notices db)" for rs
    using that
  proof (induction rs)
    case (Cons r rs)
    then show ?case using f [of r] by (auto simp: facts_def)
  qed simp
  then have others: "filter (\<lambda>r. nf_id r \<notin> I) (map ?g (nd_notices db)) = filter (\<lambda>r. nf_id r \<notin> I) (nd_notices db)" by simp
  have "notice_inv (update_notices P f db)" if inv: "notice_inv db"
  proof -
    have "distinct (map nf_id (map ?g (nd_notices db)))" using inv unfolding ids by (simp add: notice_inv_def)
    moreover have "\<forall>r \<in> set (map ?g (nd_notices db)). object_payload r" using inv f by (auto simp: notice_inv_def)
    moreover have "dv_component d = ''text''"
      if m: "d \<in> set (nd_deliveries db)" "r \<in> set (map ?g (nd_notices db))" "dv_notice d = nf_id r" "\<not> special r" "dv_recipient d \<noteq> None" for d r
    proof -
      obtain q where q: "q \<in> set (nd_notices db)" "r = ?g q" using m(2) by auto
      then have "nf_id q = nf_id r" "special q = special r" using f [of q] by (auto simp: facts_def)
      then show ?thesis using plain_logsD [OF inv m(1) q(1)] m by simp
    qed
    moreover have "\<exists>r \<in> set (map ?g (nd_notices db)). nf_id r = dv_notice d \<and> nf_tenant r = dv_tenant d"
      if m: "d \<in> set (nd_deliveries db)" for d
    proof -
      obtain q where q: "q \<in> set (nd_notices db)" "nf_id q = dv_notice d" "nf_tenant q = dv_tenant d"
        using refersD [OF inv m] by blast
      have "nf_id (?g q) = dv_notice d \<and> nf_tenant (?g q) = dv_tenant d" using q f [of q] by (auto simp: facts_def)
      moreover have "?g q \<in> set (map ?g (nd_notices db))" using q(1) by simp
      ultimately show ?thesis by blast
    qed
    ultimately show ?thesis
      using inv unfolding notice_inv_def plain_logs_def refers_def update_notices_def by auto
  qed
  then show ?thesis using facts others by (simp add: step_on_def frame_def update_notices_def)
qed

text \<open>Changes of delivery rows in place.\<close>

lemma step_logs:
  assumes f: "\<And>d. d \<in> set (nd_deliveries db) \<Longrightarrow> log_change d (f d) \<and> (dv_notice d \<notin> I \<longrightarrow> f d = d)"
  shows "step_on I db (db\<lparr>nd_deliveries := map f (nd_deliveries db)\<rparr>)"
proof -
  have "filter (\<lambda>d. dv_notice d \<notin> I) (map f ds) = filter (\<lambda>d. dv_notice d \<notin> I) ds" if "set ds \<subseteq> set (nd_deliveries db)" for ds
    using that
  proof (induction ds)
    case (Cons d ds)
    then show ?case using f [of d] by (auto simp: log_change_def dkey_eq)
  qed simp
  then have others: "filter (\<lambda>d. dv_notice d \<notin> I) (map f (nd_deliveries db)) = filter (\<lambda>d. dv_notice d \<notin> I) (nd_deliveries db)" by simp
  have "notice_inv (db\<lparr>nd_deliveries := map f (nd_deliveries db)\<rparr>)" if inv: "notice_inv db"
  proof -
    have "logs_ok (map f (nd_deliveries db))" using inv f by (intro logs_ok_change) (auto simp: notice_inv_def)
    moreover have "dv_component (f d) = ''text''"
      if "d \<in> set (nd_deliveries db)" "r \<in> set (nd_notices db)" "dv_notice (f d) = nf_id r" "\<not> special r" "dv_recipient (f d) \<noteq> None" for d r
    proof -
      have "dkey (f d) = dkey d" using f that(1) by (auto simp: log_change_def)
      then show ?thesis using plain_logsD [OF inv that(1,2)] that by (simp add: dkey_eq)
    qed
    moreover have "\<exists>r \<in> set (nd_notices db). nf_id r = dv_notice (f d) \<and> nf_tenant r = dv_tenant (f d)"
      if "d \<in> set (nd_deliveries db)" for d
    proof -
      have "dkey (f d) = dkey d" using f that by (auto simp: log_change_def)
      then show ?thesis using refersD [OF inv that] by (simp add: dkey_eq)
    qed
    ultimately show ?thesis using inv unfolding notice_inv_def plain_logs_def refers_def by auto
  qed
  then show ?thesis using others by (simp add: step_on_def frame_def)
qed

section \<open>Preparing deliveries\<close>

lemma notice_inv_log: "notice_inv db \<Longrightarrow> d \<in> set (nd_deliveries db) \<Longrightarrow> log_ok d"
  by (simp add: notice_inv_def logs_ok_def)

lemma may_followI:
  assumes P: "\<And>e. e \<in> set (nd_deliveries db) \<Longrightarrow> P e \<longleftrightarrow> dkey e = dkey d"
    and closed: "case latest P db of None \<Rightarrow> True | Some p \<Rightarrow> \<not> live p"
    and attempt: "dv_attempt d = next_attempt (latest P db)"
  shows "may_follow d (nd_deliveries db)"
proof (cases "latest P db")
  case None
  then show ?thesis using latest_None [OF None] P by (auto simp: may_follow_def)
next
  case (Some p)
  have "p \<in> set (nd_deliveries db)" "dkey p = dkey d" "\<not> live p" "dv_attempt d = dv_attempt p + 1"
    using latest_Some(1,2) [OF Some] P closed attempt Some by (auto simp: next_attempt_def)
  moreover have "dv_attempt g \<le> dv_attempt p" if "g \<in> set (nd_deliveries db)" "dkey g = dkey d" for g
    using latest_Some(3) [OF Some] P that by blast
  ultimately show ?thesis by (auto simp: may_follow_def)
qed

lemma skip_log_step:
  assumes "insertRecipientLog tx tenant row u w attempt Delivery_skipped code db = Inr (d, db')" "nf_id row \<in> I"
  shows "step_on I db db'"
proof -
  have "d = recipient_log tx tenant row u w attempt Delivery_skipped code db \<and>
      db' = db\<lparr>nd_deliveries := nd_deliveries db @ [recipient_log tx tenant row u w attempt Delivery_skipped code db]\<rparr> \<and> step_on I db db'"
    using assms unfolding insertRecipientLog_def
    by (intro step_insert) (auto simp: recipient_log_def log_ok_def shape_ok_def live_cases skipped_def tried_def)
  then show ?thesis by blast
qed

lemma held_facts: "facts (quarantined tx code r) = facts r" "facts (completed tx r) = facts r" "facts (name_rule q r) = facts r"
  "facts (settled tx ds r) = facts r" "facts (claimed tx worker r) = facts r"
  by (simp_all add: facts_def special_def quarantined_def completed_def name_rule_def settled_def claimed_def Let_def)

lemma held_payload: "object_payload (quarantined tx code r) = object_payload r" "object_payload (completed tx r) = object_payload r"
  "object_payload (name_rule q r) = object_payload r" "object_payload (settled tx ds r) = object_payload r"
  "object_payload (claimed tx worker r) = object_payload r"
  by (simp_all add: object_payload_def quarantined_def completed_def name_rule_def settled_def claimed_def Let_def)

lemmas held_simps = held_facts held_payload held_by_def

lemma quarantine_step: "quarantine tx tenant row worker code db = Inr (cs, db') \<Longrightarrow> nf_id row \<in> I \<Longrightarrow> step_on I db db'"
  unfolding quarantine_def
  by (elim bindE_InrE, clarsimp, rule step_trans [OF step_update skip_log_step])
    (auto simp: held_simps)

lemma complete_step: "nf_id row \<in> I \<Longrightarrow> step_on I db (completeWithoutDelivery tx tenant row worker db)"
  unfolding completeWithoutDelivery_def by (rule step_update) (auto simp: held_simps)

lemma group_insert_step:
  assumes ins: "insert_delivery (group_log tx tenant row component w (next_attempt (group_previous tenant row component w db)) db) db = Inr (d, db')"
    and dead: "case group_previous tenant row component w db of None \<Rightarrow> True | Some p \<Rightarrow> \<not> live p"
    and c: "component \<noteq> ''routing''" and i: "nf_id row \<in> I"
  shows "step_on I db db'"
proof -
  let ?n = "group_log tx tenant row component w (next_attempt (group_previous tenant row component w db)) db"
  have "log_ok ?n \<and> (skipped ?n \<or> \<not> live ?n \<and> dv_component ?n = ''routing'' \<or> may_follow ?n (nd_deliveries db))"
    if inv: "notice_inv db"
  proof -
    have "may_follow ?n (nd_deliveries db)"
    proof (rule may_followI)
      fix e assume "e \<in> set (nd_deliveries db)"
      then have "shape_ok e" using notice_inv_log [OF inv] by (simp add: log_ok_def)
      then show "(dv_tenant e = tenant \<and> dv_notice e = nf_id row \<and> dv_target_type e = Some group_channel \<and>
                 dv_target e = Some (wh_id w) \<and> dv_component e = component) \<longleftrightarrow> dkey e = dkey ?n"
        by (auto simp: dkey_eq group_log_def shape_ok_def)
    qed (use dead in \<open>simp_all add: group_previous_def [symmetric] group_log_def\<close>)
    then show ?thesis using c by (simp add: group_log_def log_ok_def shape_ok_def live_cases addressed_def skipped_def)
  qed
  then have "d = ?n \<and> db' = db\<lparr>nd_deliveries := nd_deliveries db @ [?n]\<rparr> \<and> step_on I db db'"
    using i by (intro step_insert [OF ins]) (auto simp: group_log_def)
  then show ?thesis by blast
qed

lemma closed_delivery: "dv_status p \<noteq> Delivery_sent \<Longrightarrow> \<not> dv_open p \<Longrightarrow> \<not> live p"
  by (simp add: live_def)

lemma group_delivery_step:
  assumes "group_delivery tx tenant row component w db = Inr (r, db')" "component \<noteq> ''routing''" "nf_id row \<in> I"
  shows "step_on I db db'"
proof (cases "group_previous tenant row component w db")
  case None
  then show ?thesis using assms group_insert_step [of tx tenant row component w db]
    by (auto simp: group_delivery_def Let_def elim!: bindE_InrE)
next
  case (Some p)
  then show ?thesis using assms group_insert_step [of tx tenant row component w db]
    by (auto simp: group_delivery_def Let_def closed_delivery split: if_splits elim!: bindE_InrE)
qed

lemma mapES_step:
  assumes "mapES f xs s = Inr (ys, s')" "\<And>x u y u'. x \<in> set xs \<Longrightarrow> f x u = Inr (y, u') \<Longrightarrow> step_on I u u'"
  shows "step_on I s s'"
  using assms
proof (induction xs arbitrary: s ys)
  case (Cons x xs)
  then obtain y u zs where "f x s = Inr (y, u)" "mapES f xs u = Inr (zs, s')"
    by (auto split: sum.splits)
  then show ?case using Cons.IH [of u zs] Cons.prems(2) by (meson list.set_intros step_trans)
qed simp

lemma group_component_name: "''group_'' @ x \<noteq> ''routing''" by simp

lemma component_claim_step:
  assumes "component_claim tx tenant row targets c db = Inr (r, db')" "nf_id row \<in> I"
  shows "step_on I db db'"
proof -
  obtain cid sequence ctype body filename where c: "c = (cid, sequence, ctype, body, filename)" by (cases c)
  obtain rs db1 where m: "mapES (group_delivery tx tenant row (''group_'' @ component_name ctype @ ''_'' @ decimal_text sequence)) targets db = Inr (rs, db1)"
    and "db' = db1"
    using assms(1) by (auto simp: component_claim_def c Let_def split: if_splits elim!: bindE_InrE)
  then show ?thesis
    using mapES_step [OF m] group_delivery_step [OF _ group_component_name] assms(2) by blast
qed

lemma group_claims_step:
  assumes "prepareGroupWebhookClaims tx tenant row fallback db = Inr (cs, db')" "nf_id row \<in> I"
  shows "step_on I db db'"
proof (cases "nt_group_targets tx (nf_event row) = []")
  case False
  then obtain rs where "mapES (component_claim tx tenant row (nt_group_targets tx (nf_event row)))
      (group_components tenant row fallback db) db = Inr (rs, db')"
    using assms(1) by (auto simp: prepareGroupWebhookClaims_def Let_def split: if_splits elim!: bindE_InrE)
  then show ?thesis by (rule mapES_step) (rule component_claim_step, assumption, rule assms(2))
qed (use assms in \<open>simp add: prepareGroupWebhookClaims_def\<close>)

lemma group_test_step:
  assumes "prepareDirectGroupWebhookTest tx tenant row db = Inr (cs, db')" "nf_id row \<in> I"
  shows "step_on I db db'"
proof -
  obtain payload where p: "objectPayload tx (nf_payload row) = Inr payload"
    using assms(1) by (auto simp: prepareDirectGroupWebhookTest_def elim: bindE_InrE)
  show ?thesis
  proof (cases "nt_webhook tx (jget payload ''groupWebhookId'')")
    case None
    then show ?thesis using assms(1) p by (simp add: prepareDirectGroupWebhookTest_def)
  next
    case (Some w)
    let ?previous = "group_previous tenant row ''test_text'' w db"
    have "db' = db \<or> ((case ?previous of None \<Rightarrow> True | Some p \<Rightarrow> \<not> live p) \<and>
        (\<exists>d. insert_delivery (group_log tx tenant row ''test_text'' w (next_attempt ?previous) db) db = Inr (d, db')))"
      using assms(1) p Some
      by (auto simp: prepareDirectGroupWebhookTest_def Let_def closed_delivery split: if_splits option.splits elim!: bindE_InrE)
    then show ?thesis using group_insert_step [of tx tenant row "''test_text''" w db _ db' I] assms(2) by auto
  qed
qed

text \<open>
  The people of a notification.  The newest delivery of each is read before the loop, so a person listed twice
  would be given the same attempt twice, which the index refuses.
\<close>

definition of_user :: "string \<Rightarrow> notice \<Rightarrow> string \<Rightarrow> delivery_row \<Rightarrow> bool" where
  "of_user tenant row u d = (dv_tenant d = tenant \<and> dv_notice d = nf_id row \<and> dv_recipient d = Some u)"

definition added_for :: "string \<Rightarrow> notice \<Rightarrow> notice_db \<Rightarrow> delivery_row \<Rightarrow> bool" where
  "added_for tenant row db0 e =
     (\<exists>u. of_user tenant row u e \<and> dv_component e = ''text'' \<and> dv_attempt e = next_attempt (latest (of_user tenant row u) db0))"

lemma next_attempt_pos: "max (next_attempt p) (Suc 0) = next_attempt p"
  by (simp add: next_attempt_def)

lemma user_delivery_cases:
  assumes "user_delivery tx tenant row latest_of u db = Inr (r, db')"
  shows "db' = db \<or> (\<exists>d w st code. insertRecipientLog tx tenant row (Some (nu_id u)) w (next_attempt (latest_of (nu_id u))) st code db = Inr (d, db') \<and>
      (st = Delivery_skipped \<or> st = Delivery_pending \<and> (case latest_of (nu_id u) of None \<Rightarrow> True | Some p \<Rightarrow> \<not> live p)))"
  using assms by (auto simp: user_delivery_def Let_def closed_delivery split: if_splits option.splits elim!: bindE_InrE) blast+

lemma pending_user_step:
  assumes ins: "insertRecipientLog tx tenant row (Some u) w (next_attempt (latest (of_user tenant row u) db0)) Delivery_pending code db = Inr (d, db')"
    and dead: "case latest (of_user tenant row u) db0 of None \<Rightarrow> True | Some p \<Rightarrow> \<not> live p"
    and row: "\<not> special row" "known_notice row db" "nf_id row \<in> I"
    and new: "nd_deliveries db = nd_deliveries db0 @ new" "\<forall>e \<in> set new. added_for tenant row db0 e"
  shows "step_on I db db'"
proof -
  let ?n = "recipient_log tx tenant row (Some u) w (next_attempt (latest (of_user tenant row u) db0)) Delivery_pending code db"
  have n: "dv_attempt ?n = next_attempt (latest (of_user tenant row u) db0)" "of_user tenant row u ?n" "dv_component ?n = ''text''"
    by (simp_all add: recipient_log_def next_attempt_pos of_user_def)
  have ins': "insert_delivery ?n db = Inr (d, db')" using ins by (simp add: insertRecipientLog_def)
  have "\<not> of_user tenant row u e" if "e \<in> set new" for e
  proof
    assume u: "of_user tenant row u e"
    then have "same_recipient_attempt ?n e"
      using new(2) that n by (auto simp: added_for_def of_user_def same_recipient_attempt_def)
    then show False using ins' that new(1) by (auto simp: insert_delivery_def split: if_splits)
  qed
  then have "filter (of_user tenant row u) (nd_deliveries db) = filter (of_user tenant row u) (nd_deliveries db0)"
    by (simp add: new(1) filter_empty_conv)
  then have same: "latest (of_user tenant row u) db = latest (of_user tenant row u) db0" by (simp add: latest_def)
  have "log_ok ?n \<and> (skipped ?n \<or> \<not> live ?n \<and> dv_component ?n = ''routing'' \<or> may_follow ?n (nd_deliveries db))"
    if inv: "notice_inv db"
  proof -
    have "may_follow ?n (nd_deliveries db)"
    proof (rule may_followI)
      fix e assume e: "e \<in> set (nd_deliveries db)"
      then have "shape_ok e" using notice_inv_log [OF inv] by (simp add: log_ok_def)
      then show "of_user tenant row u e \<longleftrightarrow> dkey e = dkey ?n"
        using known_plain [OF inv row(2,1) e] by (auto simp: of_user_def dkey_eq recipient_log_def shape_ok_def)
    qed (use dead n same in simp_all)
    then show ?thesis by (simp add: recipient_log_def log_ok_def shape_ok_def live_cases addressed_def skipped_def)
  qed
  then have "d = ?n \<and> db' = db\<lparr>nd_deliveries := nd_deliveries db @ [?n]\<rparr> \<and> step_on I db db'"
    using row by (intro step_insert [OF ins']) (auto simp: recipient_log_def)
  then show ?thesis by blast
qed

lemma insert_appends: "insertRecipientLog tx tenant row u w a st code db = Inr (d, db') \<Longrightarrow>
    nd_deliveries db' = nd_deliveries db @ [recipient_log tx tenant row u w a st code db]"
  by (auto simp: insertRecipientLog_def insert_delivery_def split: if_splits)

lemma user_delivery_step:
  assumes u: "user_delivery tx tenant row (\<lambda>u. latest (of_user tenant row u) db0) user db = Inr (r, db')"
    and row: "\<not> special row" "known_notice row db" "nf_id row \<in> I"
    and new: "nd_deliveries db = nd_deliveries db0 @ new" "\<forall>e \<in> set new. added_for tenant row db0 e"
  shows "step_on I db db' \<and> (\<exists>new'. nd_deliveries db' = nd_deliveries db0 @ new' \<and> (\<forall>e \<in> set new'. added_for tenant row db0 e))"
proof -
  let ?p = "latest (of_user tenant row (nu_id user)) db0"
  consider "db' = db" | d w st code where
      "insertRecipientLog tx tenant row (Some (nu_id user)) w (next_attempt ?p) st code db = Inr (d, db')"
      "st = Delivery_skipped \<or> st = Delivery_pending \<and> (case ?p of None \<Rightarrow> True | Some p \<Rightarrow> \<not> live p)"
    using user_delivery_cases [OF u] by blast
  then show ?thesis
  proof cases
    case 1
    then show ?thesis using new by auto
  next
    case 2
    have "step_on I db db'"
      using 2 skip_log_step [OF _ row(3)] pending_user_step [OF _ _ row new] by blast
    moreover have "added_for tenant row db0 (recipient_log tx tenant row (Some (nu_id user)) w (next_attempt ?p) st code db)"
      by (auto simp: added_for_def recipient_log_def of_user_def next_attempt_pos)
    ultimately show ?thesis using insert_appends [OF 2(1)] new
      by (intro conjI exI [of _ "new @ [recipient_log tx tenant row (Some (nu_id user)) w (next_attempt ?p) st code db]"]) auto
  qed
qed

lemma users_step:
  assumes "mapES (user_delivery tx tenant row (\<lambda>u. latest (of_user tenant row u) db0)) users db = Inr (rs, db')"
    and "\<not> special row" "known_notice row db" "nf_id row \<in> I" "notice_inv db"
    and "nd_deliveries db = nd_deliveries db0 @ new" "\<forall>e \<in> set new. added_for tenant row db0 e"
  shows "step_on I db db'"
  using assms
proof (induction users arbitrary: db rs new)
  case (Cons u users)
  let ?f = "user_delivery tx tenant row (\<lambda>u. latest (of_user tenant row u) db0)"
  obtain y db1 ys where d: "?f u db = Inr (y, db1)" "mapES ?f users db1 = Inr (ys, db')"
    using Cons.prems(1) by (auto split: sum.splits)
  obtain new' where s: "step_on I db db1" and n: "nd_deliveries db1 = nd_deliveries db0 @ new'" "\<forall>e \<in> set new'. added_for tenant row db0 e"
    using user_delivery_step [OF d(1) Cons.prems(2,3,4,6,7)] by blast
  have "known_notice row db1" "notice_inv db1" using known_step [OF Cons.prems(3,5) s] s Cons.prems(5) by (auto simp: step_on_def)
  then show ?case using Cons.IH [OF d(2) Cons.prems(2) _ Cons.prems(4) _ n] s step_trans by blast
qed simp

lemma recipients_step:
  assumes "prepareRecipientDeliveries tx tenant row users db = Inr (rs, db')"
    and "\<not> special row" "notice_inv db \<Longrightarrow> known_notice row db" "nf_id row \<in> I"
  shows "step_on I db db'"
proof -
  obtain ys where "mapES (user_delivery tx tenant row (\<lambda>u. latest (of_user tenant row u) db)) users db = Inr (ys, db')"
    using assms(1) by (auto simp: prepareRecipientDeliveries_def of_user_def [abs_def] elim: bindE_InrE)
  then have "step_on I db db'" if "notice_inv db"
    using users_step [of tx tenant row db users db ys db' I "[]"] assms that by simp
  then show ?thesis by (auto simp: step_on_def)
qed

section \<open>Services that prepare deliveries with files\<close>

text \<open>
  The contract of a service for files: on a notification of one of its events it changes only this notification
  and its deliveries, within the rules of \<open>step_on\<close>.
\<close>

locale file_service =
  fixes event :: string and prepare :: "string \<Rightarrow> notice \<Rightarrow> string \<Rightarrow> notice_db \<Rightarrow> preparation"
  assumes keeps: "\<lbrakk>nf_event row = event; special row; known_notice row db; notice_inv db; prepare (nf_tenant row) row worker db = Inr (cs, db')\<rbrakk> \<Longrightarrow>
    step_on {nf_id row} db db'"
begin

lemma step: "nf_event row = event \<Longrightarrow> special row \<Longrightarrow> (notice_inv db \<Longrightarrow> known_notice row db) \<Longrightarrow> nf_id row \<in> I \<Longrightarrow>
    prepare (nf_tenant row) row worker db = Inr (cs, db') \<Longrightarrow> step_on I db db'"
  using keeps [of row db worker cs db'] step_mono [of "{nf_id row}" db db' I] by (auto simp: step_on_def)

lemma savepoint: "nf_event row = event \<Longrightarrow> special row \<Longrightarrow> (notice_inv db \<Longrightarrow> known_notice row db) \<Longrightarrow> nf_id row \<in> I \<Longrightarrow>
    within_savepoint tx (nf_tenant row) row worker code (prepare (nf_tenant row) row worker db) db = Inr (cs, db') \<Longrightarrow>
    step_on I db db'"
  by (cases "prepare (nf_tenant row) row worker db")
    (auto simp: within_savepoint_def intro: quarantine_step step)

end

definition services_ok :: "notice_tx \<Rightarrow> bool" where
  "services_ok tx =
     ((case nt_allocation tx of None \<Rightarrow> True | Some p \<Rightarrow> file_service allocation_event p) \<and>
      (case nt_finance tx of None \<Rightarrow> True | Some p \<Rightarrow> \<forall>users render. file_service finance_event (\<lambda>t r w db. p t r w users render db)))"

section \<open>Claims\<close>

lemma find_Some_prop: "find P xs = Some x \<Longrightarrow> x \<in> set xs \<and> P x"
  by (induction xs) (auto split: if_splits)

lemma event_definition_type: "notificationEventDefinition e = Some ed \<Longrightarrow> ed_type ed = e"
  by (auto simp: notificationEventDefinition_def dest: find_Some_prop)

lemma deliver_step:
  assumes "deliver_to_users tx tenant worker row ed payload rule users gc db = Inr (cs, db')"
    and "users = [] \<or> \<not> special row" "notice_inv db \<Longrightarrow> known_notice row db" "nf_id row \<in> I"
  shows "step_on I db db'"
proof -
  obtain rs db1 where p: "prepareRecipientDeliveries tx tenant row users db = Inr (rs, db1)"
    and db': "db' = update_notices (held_by tenant (nf_id row) worker) (name_rule rule) db1 \<or>
              db' = completeWithoutDelivery tx tenant row worker (update_notices (held_by tenant (nf_id row) worker) (name_rule rule) db1)"
    using assms(1) by (auto simp: deliver_to_users_def Let_def split: if_splits option.splits elim!: bindE_InrE)
  have "step_on I db db1"
  proof (cases "users = []")
    case True
    then show ?thesis using p by (simp add: prepareRecipientDeliveries_def)
  next
    case False
    then show ?thesis using recipients_step [OF p] assms by blast
  qed
  moreover have "step_on I db1 (update_notices (held_by tenant (nf_id row) worker) (name_rule rule) db1)"
    using assms(4) by (intro step_update) (auto simp: held_simps)
  ultimately show ?thesis using db' complete_step [OF assms(4)] step_trans by metis
qed

lemma payload_object: "object_payload row \<Longrightarrow> objectPayload tx (nf_payload row) = Inr kvs \<Longrightarrow> nf_payload row = JObj kvs"
  by (auto simp: object_payload_def objectPayload_def)

lemma dispatch_known_step:
  assumes d: "dispatch_known tx (nf_tenant row) worker row ed rule db = Inr (cs, db')"
    and ed: "notificationEventDefinition (nf_event row) = Some ed"
    and ok: "services_ok tx" "object_payload row" "notice_inv db \<Longrightarrow> known_notice row db" "nf_id row \<in> I"
  shows "step_on I db db'"
proof -
  have type: "ed_type ed = nf_event row" using event_definition_type [OF ed] .
  obtain payload fallback gc db1 where payload: "objectPayload tx (nf_payload row) = Inr payload"
    and g: "(if ed_channel ed = group_channel \<or> ed_group_route ed then prepareGroupWebhookClaims tx (nf_tenant row) row fallback db
            else Inr ([], db)) = Inr (gc, db1)"
    and rest: "(case rule of
        None \<Rightarrow>
          if gc = [] then quarantine tx (nf_tenant row) row worker ''NO_MATCHING_RULE'' db1
          else deliver_to_users tx (nf_tenant row) worker row ed payload None [] gc db1
      | Some r \<Rightarrow>
          if ed_type ed = allocation_event then
            (case nt_allocation tx of
               None \<Rightarrow> Inl (Notify_conflict ''allocationDelivery'')
             | Some prepare \<Rightarrow>
                 within_savepoint tx (nf_tenant row) row worker ''ALLOCATION_DELIVERY_PREPARATION_FAILED''
                   (prepare (nf_tenant row) row worker db1) db1)
          else bindE (resolveRecipients tx r ed payload) (\<lambda>users.
            if ed_type ed = finance_event \<and> jget payload ''financeReportFormat'' = Some (JNum 1) then
              within_savepoint tx (nf_tenant row) row worker ''FINANCE_MONTHLY_ATTACHMENT_FAILED''
                (case nt_finance tx of
                   None \<Rightarrow> Inl (Notify_conflict ''financeFiles'')
                 | Some prepare \<Rightarrow>
                     prepare (nf_tenant row) row worker users (renderContent tx r ed) db1) db1
            else deliver_to_users tx (nf_tenant row) worker row ed payload (Some r) users gc db1)) = Inr (cs, db')"
    using d unfolding dispatch_known_def by (auto elim!: bindE_InrE)
  have obj: "nf_payload row = JObj payload" using payload_object [OF ok(2) payload] .
  have s1: "step_on I db db1" using g ok(4) by (auto split: if_splits intro: group_claims_step)
  have k1: "known_notice row db1" if "notice_inv db" using known_step [OF ok(3) that s1] that by blast
  have "step_on I db1 db'" if inv: "notice_inv db"
  proof (cases rule)
    case None
    then show ?thesis using rest ok(4) k1 [OF inv] by (auto split: if_splits intro: quarantine_step deliver_step)
  next
    case (Some r)
    show ?thesis
    proof (cases "nf_event row = allocation_event")
      case True
      then obtain p where p: "nt_allocation tx = Some p"
          "within_savepoint tx (nf_tenant row) row worker ''ALLOCATION_DELIVERY_PREPARATION_FAILED'' (p (nf_tenant row) row worker db1) db1 = Inr (cs, db')"
        using rest Some type by (auto split: option.splits)
      moreover have "file_service allocation_event p" using ok(1) p(1) by (simp add: services_ok_def)
      moreover have "special row" using True by (simp add: special_def)
      ultimately show ?thesis using file_service.savepoint True k1 [OF inv] ok(4) by blast
    next
      case no_alloc: False
      then obtain users where u: "(if ed_type ed = finance_event \<and> jget payload ''financeReportFormat'' = Some (JNum 1) then
              within_savepoint tx (nf_tenant row) row worker ''FINANCE_MONTHLY_ATTACHMENT_FAILED''
                (case nt_finance tx of
                   None \<Rightarrow> Inl (Notify_conflict ''financeFiles'')
                 | Some prepare \<Rightarrow>
                     prepare (nf_tenant row) row worker users (renderContent tx r ed) db1) db1
            else deliver_to_users tx (nf_tenant row) worker row ed payload (Some r) users gc db1) = Inr (cs, db')"
        using rest Some type by (auto elim!: bindE_InrE)
      show ?thesis
      proof (cases "special row")
        case True
        then have f: "nf_event row = finance_event" "jget payload ''financeReportFormat'' = Some (JNum 1)"
          using no_alloc obj by (simp_all add: special_def payload_field_def)
        show ?thesis
        proof (cases "nt_finance tx")
          case None
          then show ?thesis using u f type ok(4) by (auto simp: within_savepoint_def intro: quarantine_step)
        next
          case (Some p)
          then have "file_service finance_event (\<lambda>t r' w db. p t r' w users (renderContent tx r ed) db)"
            using ok(1) by (simp add: services_ok_def)
          moreover have "within_savepoint tx (nf_tenant row) row worker ''FINANCE_MONTHLY_ATTACHMENT_FAILED''
              (p (nf_tenant row) row worker users (renderContent tx r ed) db1) db1 = Inr (cs, db')"
            using u f type Some by simp
          ultimately show ?thesis using file_service.savepoint f(1) True k1 [OF inv] ok(4) by blast
        qed
      next
        case False
        then have "deliver_to_users tx (nf_tenant row) worker row ed payload (Some r) users gc db1 = Inr (cs, db')"
          using u type obj by (auto simp: special_def payload_field_def)
        then show ?thesis using deliver_step False k1 [OF inv] ok(4) by blast
      qed
    qed
  qed
  then show ?thesis using s1 step_trans [OF s1] by (cases "notice_inv db") (simp_all add: step_on_def)
qed

lemma dispatch_row_step:
  assumes "dispatch_row tx (nf_tenant row) worker row db = Inr (cs, db')"
    and "services_ok tx" "object_payload row" "notice_inv db \<Longrightarrow> known_notice row db" "nf_id row \<in> I"
  shows "step_on I db db'"
proof (cases "nf_event row = test_event")
  case True
  then obtain claims db1 where t: "prepareDirectGroupWebhookTest tx (nf_tenant row) row db = Inr (claims, db1)"
      and q: "db' = db1 \<or> quarantine tx (nf_tenant row) row worker ''GROUP_WEBHOOK_TEST_TARGET_MISSING'' db1 = Inr (cs, db')"
    using assms(1) by (auto simp: dispatch_row_def split: if_splits elim!: bindE_InrE)
  have "step_on I db1 db'" using q quarantine_step [OF _ assms(5)] by auto
  then show ?thesis by (rule step_trans [OF group_test_step [OF t assms(5)]])
next
  case False
  show ?thesis
  proof (cases "notificationEventDefinition (nf_event row)")
    case None
    then show ?thesis using assms False quarantine_step by (simp add: dispatch_row_def)
  next
    case (Some ed)
    then have "dispatch_known tx (nf_tenant row) worker row ed (resolveRule (nf_tenant row) row db) db = Inr (cs, db') \<or>
        (\<exists>code. quarantine tx (nf_tenant row) row worker code db = Inr (cs, db'))"
      using assms(1) False by (auto simp: dispatch_row_def Let_def split: option.splits if_splits)
    then show ?thesis using dispatch_known_step [OF _ Some assms(2-5)] quarantine_step assms(5) by blast
  qed
qed

text \<open>The rows a claim takes are not settled.\<close>

lemma claimSql_rows:
  assumes "claimSql tx tenant worker limit timeout db = (rows, db')" "notice_inv db"
  shows "step_on (set (map nf_id rows)) db db'"
    and "\<And>row. row \<in> set rows \<Longrightarrow> object_payload row \<and> known_notice row db' \<and> nf_tenant row = tenant"
    and "\<And>r. r \<in> set (nd_notices db) \<Longrightarrow> nf_id r \<in> set (map nf_id rows) \<Longrightarrow> claimable_notice tx tenant timeout r"
proof -
  define ids where "ids = map nf_id (claim_candidates tx tenant limit timeout db)"
  have db': "db' = update_notices (\<lambda>r. nf_id r \<in> set ids) (claimed tx worker) db"
    and rows: "rows = filter (\<lambda>r. nf_id r \<in> set ids) (nd_notices db')"
    using assms(1) by (auto simp: claimSql_def ids_def Let_def)
  have cand: "\<exists>r \<in> set (nd_notices db). nf_id r = i \<and> claimable_notice tx tenant timeout r" if "i \<in> set ids" for i
    using that by (auto simp: ids_def claim_candidates_def dest!: in_set_takeD)
  have id: "nf_id (claimed tx worker r) = nf_id r" for r by (simp add: claimed_def)
  have step: "step_on (set ids) db db'" unfolding db' by (rule step_update) (auto simp: held_simps)
  have eq: "set (map nf_id rows) = set ids"
  proof
    show "set ids \<subseteq> set (map nf_id rows)"
    proof
      fix i assume i: "i \<in> set ids"
      then obtain r where "r \<in> set (nd_notices db)" "nf_id r = i" using cand by blast
      then have "claimed tx worker r \<in> set rows" using i by (auto simp: rows db' update_notices_def id)
      then show "i \<in> set (map nf_id rows)" using \<open>nf_id r = i\<close> id by (metis image_eqI list.set_map)
    qed
  qed (auto simp: rows)
  have unique: "claimable_notice tx tenant timeout r" if r: "r \<in> set (nd_notices db)" "nf_id r \<in> set ids" for r
  proof -
    obtain q where "q \<in> set (nd_notices db)" "nf_id q = nf_id r" "claimable_notice tx tenant timeout q" using cand r(2) by blast
    then show ?thesis using r(1) assms(2) by (auto simp: notice_inv_def distinct_map dest: inj_onD)
  qed
  show "step_on (set (map nf_id rows)) db db'" using step eq by simp
  show "\<And>r. r \<in> set (nd_notices db) \<Longrightarrow> nf_id r \<in> set (map nf_id rows) \<Longrightarrow> claimable_notice tx tenant timeout r"
    using unique eq by simp
  fix row assume row: "row \<in> set rows"
  then have m: "row \<in> set (nd_notices db')" "nf_id row \<in> set ids" by (auto simp: rows)
  then obtain r where r: "r \<in> set (nd_notices db)" "row = (if nf_id r \<in> set ids then claimed tx worker r else r)"
    by (auto simp: db' update_notices_def)
  then have "nf_id r \<in> set ids" using m(2) by (auto split: if_splits)
  then have "row = claimed tx worker r" "nf_tenant r = tenant" using r unique by (auto simp: claimable_notice_def)
  moreover have "object_payload r" using r(1) assms(2) by (simp add: notice_inv_def)
  moreover have "nf_tenant (claimed tx worker r) = nf_tenant r" by (simp add: claimed_def)
  moreover have "known_notice row db'" using m(1) by (simp add: known_notice_def)
  ultimately show "object_payload row \<and> known_notice row db' \<and> nf_tenant row = tenant"
    by (simp add: held_simps)
qed

lemma dispatch_rows_step:
  assumes "mapES (dispatch_row tx tenant worker) rows db = Inr (css, db')" "services_ok tx" "notice_inv db"
    and "\<And>row. row \<in> set rows \<Longrightarrow> object_payload row \<and> known_notice row db \<and> nf_tenant row = tenant \<and> nf_id row \<in> I"
  shows "step_on I db db'"
  using assms
proof (induction rows arbitrary: db css)
  case (Cons row rows)
  obtain cs db1 css' where d: "dispatch_row tx tenant worker row db = Inr (cs, db1)"
      and r: "mapES (dispatch_row tx tenant worker) rows db1 = Inr (css', db')"
    using Cons.prems(1) by (auto split: sum.splits)
  have row: "object_payload row" "known_notice row db" "nf_tenant row = tenant" "nf_id row \<in> I" using Cons.prems(4) by auto
  have s: "step_on I db db1" using dispatch_row_step [of tx row worker db cs db1 I] d row Cons.prems(2) by simp
  then have i1: "notice_inv db1" using Cons.prems(3) by (simp add: step_on_def)
  have "object_payload q \<and> known_notice q db1 \<and> nf_tenant q = tenant \<and> nf_id q \<in> I" if "q \<in> set rows" for q
    using Cons.prems(4) [of q] that known_step [OF _ Cons.prems(3) s] by auto
  then have "step_on I db1 db'" using Cons.IH [OF r Cons.prems(2) i1] by blast
  then show ?case by (rule step_trans [OF s])
qed simp

lemma claim_step:
  assumes "claimForDispatcher tx tenant worker limit timeout db = Inr (cs, db')" "services_ok tx" "notice_inv db"
  shows "\<exists>I. step_on I db db' \<and> (\<forall>r \<in> set (nd_notices db). nf_id r \<in> I \<longrightarrow> claimable_notice tx tenant (normalizeTimeout timeout) r)"
proof -
  obtain rows db1 css where c: "claimSql tx tenant worker (normalizeLimit limit) (normalizeTimeout timeout) db = (rows, db1)"
      and d: "mapES (dispatch_row tx tenant worker) rows db1 = Inr (css, db')"
    using assms(1) unfolding claimForDispatcher_def by (auto elim!: bindE_InrE split: prod.splits)
  note rows = claimSql_rows [OF c assms(3)]
  have "notice_inv db1" using rows(1) assms(3) by (simp add: step_on_def)
  then have "step_on (set (map nf_id rows)) db1 db'"
    using rows(2) by (intro dispatch_rows_step [OF d assms(2)]) auto
  then have "step_on (set (map nf_id rows)) db db'" by (rule step_trans [OF rows(1)])
  then show ?thesis using rows(3) by blast
qed

section \<open>Reports, retries and new notifications\<close>

lemma reconcile_step:
  assumes "reconcileOutbox tx tenant outbox worker db = Inr (r, db')"
  shows "step_on {outbox} db db' \<and> (\<exists>q \<in> set (nd_notices db). held_by tenant outbox worker q)"
proof -
  have "db' = update_notices (held_by tenant outbox worker) (settled tx (latest_deliveries tenant outbox db)) db"
    and "\<exists>q \<in> set (nd_notices db). held_by tenant outbox worker q"
    using assms by (auto simp: reconcileOutbox_def Let_def dest: find_Some_prop split: option.splits)
  then show ?thesis using step_update [of db "held_by tenant outbox worker" _ "{outbox}"] by (simp add: held_simps)
qed

lemma report_step:
  assumes "report_delivery tx tenant outbox worker res f db = Inr (r, db')"
    and f: "\<And>d. dv_open d \<Longrightarrow> log_change d (f d)"
  shows "step_on {outbox} db db' \<and> (\<exists>q \<in> set (nd_notices db). held_by tenant outbox worker q)"
proof -
  let ?g = "\<lambda>d. if reported tenant outbox worker (dr_delivery res) db d then f d else d"
  have r: "reconcileOutbox tx tenant outbox worker (db\<lparr>nd_deliveries := map ?g (nd_deliveries db)\<rparr>) = Inr (r, db')"
    using assms(1) unfolding report_delivery_def by (auto elim!: bindE_InrE split: if_splits)
  have "step_on {outbox} db (db\<lparr>nd_deliveries := map ?g (nd_deliveries db)\<rparr>)"
    using f by (intro step_logs) (auto simp: reported_def log_change_def)
  moreover have "step_on {outbox} (db\<lparr>nd_deliveries := map ?g (nd_deliveries db)\<rparr>) db'" using reconcile_step [OF r] by blast
  ultimately show ?thesis using reconcile_step [OF r] step_trans by force
qed

lemma report_changes: "dv_open d \<Longrightarrow> log_change d (delivered tx res d)" "dv_open d \<Longrightarrow> log_change d (undelivered res d)"
  by (auto simp: log_change_def delivered_def undelivered_def dkey_def live_cases dv_open_def skipped_def tried_def)

lemma retry_step:
  assumes "retry_notice tx permitted tenant outbox db = Inr db'"
  shows "step_on {r. \<exists>q \<in> set (nd_notices db). nf_id q = r \<and> nf_status q = Notice_failed} db db'"
proof -
  have db': "db' = update_notices (\<lambda>r. (nf_tenant r = tenant \<and> nf_id r = outbox) \<and> nf_status r = Notice_failed) (retried tx db) db"
    using assms by (auto simp: retry_notice_def Let_def split: option.splits if_splits)
  show ?thesis unfolding db'
    by (intro step_update)
      (auto simp: facts_def special_def retried_def object_payload_def payload_without_def allocation_event_def finance_event_def)
qed

end
