(* ===== verification/NoticeSystem.thy ===== *)
theory NoticeSystem
  imports NoticeLaws
begin

text \<open>
  The notification outbox as a system: administrators write rules and retry, other modules enqueue, any number of
  dispatchers claim and report, in any order.  The properties hold in every reachable state.
\<close>

inductive notice_next :: "notice_db \<Rightarrow> notice_db \<Rightarrow> bool" where
  rule_saved: "upsertRule tx tenant i db = Inr (r, db') \<Longrightarrow> notice_next db db'"
| enqueued: "enqueue tx tenant rule event channel dedup payload db = Inr (a, db') \<Longrightarrow> notice_next db db'"
| group_enqueued: "enqueueGroupEvent tx tenant event dedup components db = Inr (a, db') \<Longrightarrow> notice_next db db'"
| claimed_by: "services_ok tx \<Longrightarrow> claimForDispatcher tx tenant worker limit timeout db = Inr (cs, db') \<Longrightarrow> notice_next db db'"
| succeeded: "markDeliverySuccess tx tenant outbox worker res db = Inr (r, db') \<Longrightarrow> notice_next db db'"
| failed: "markDeliveryFailure tx tenant outbox worker res db = Inr (r, db') \<Longrightarrow> notice_next db db'"
| retried_by: "retry_notice tx permitted tenant outbox db = Inr db' \<Longrightarrow> notice_next db db'"

definition no_notices :: notice_db where
  "no_notices = \<lparr>nd_rules = [], nd_notices = [], nd_components = [], nd_deliveries = []\<rparr>"

inductive notice_reach :: "notice_db \<Rightarrow> bool" where
  start: "notice_reach no_notices"
| more: "notice_reach db \<Longrightarrow> notice_next db db' \<Longrightarrow> notice_reach db'"

text \<open>What every step keeps: the invariant, and the notifications that are settled.\<close>

definition keeps_sent :: "notice_db \<Rightarrow> notice_db \<Rightarrow> bool" where
  "keeps_sent db db' =
     (\<forall>r \<in> set (nd_notices db). nf_status r = Notice_sent \<longrightarrow>
        r \<in> set (nd_notices db') \<and>
        filter (\<lambda>d. dv_notice d = nf_id r) (nd_deliveries db') = filter (\<lambda>d. dv_notice d = nf_id r) (nd_deliveries db))"

lemma frame_keeps_sent:
  assumes "frame I db db'" "\<And>r. r \<in> set (nd_notices db) \<Longrightarrow> nf_id r \<in> I \<Longrightarrow> nf_status r \<noteq> Notice_sent"
  shows "keeps_sent db db'"
  unfolding keeps_sent_def
proof (intro ballI impI conjI)
  fix r assume r: "r \<in> set (nd_notices db)" "nf_status r = Notice_sent"
  then have i: "nf_id r \<notin> I" using assms(2) by blast
  then have "r \<in> set (filter (\<lambda>r. nf_id r \<notin> I) (nd_notices db))" using r by simp
  then show "r \<in> set (nd_notices db')" using assms(1) by (metis frame_def filter_is_subset subsetD)
  show "filter (\<lambda>d. dv_notice d = nf_id r) (nd_deliveries db') = filter (\<lambda>d. dv_notice d = nf_id r) (nd_deliveries db)"
    by (rule filter_sub [of "\<lambda>d. dv_notice d \<notin> I"]) (use assms(1) i in \<open>auto simp: frame_def\<close>)
qed

lemma step_on_next:
  assumes "step_on I db db'" "notice_inv db" "\<And>r. r \<in> set (nd_notices db) \<Longrightarrow> nf_id r \<in> I \<Longrightarrow> nf_status r \<noteq> Notice_sent"
  shows "notice_inv db' \<and> keeps_sent db db'"
  using assms frame_keeps_sent by (auto simp: step_on_def)

lemma held_next:
  assumes "step_on {outbox} db db'" "q \<in> set (nd_notices db)" "held_by tenant outbox worker q" "notice_inv db"
  shows "notice_inv db' \<and> keeps_sent db db'"
proof (rule step_on_next [OF assms(1,4)])
  fix r assume "r \<in> set (nd_notices db)" "nf_id r \<in> {outbox}"
  then have "r = q" using unique_notice [OF assms(4)] assms(2,3) by (auto simp: held_by_def)
  then show "nf_status r \<noteq> Notice_sent" using assms(3) by (simp add: held_by_def)
qed

lemma insert_notice_next:
  assumes "insert_notice tx tenant rule event channel dedup payload db = Inr (a, db')" "notice_inv db"
  shows "notice_inv db' \<and> keeps_sent db db'"
proof (cases "db' = db")
  case True
  then show ?thesis using assms(2) by (simp add: keeps_sent_def)
next
  case False
  let ?n = "new_notice tx tenant rule event channel dedup payload db"
  have db': "db' = db\<lparr>nd_notices := nd_notices db @ [?n]\<rparr>" and new: "\<And>r. r \<in> set (nd_notices db) \<Longrightarrow> nf_id r \<noteq> nf_id ?n"
    using assms(1) False by (auto simp: insert_notice_def Let_def split: option.splits if_splits)
  have "dv_notice d \<noteq> nf_id ?n" if "d \<in> set (nd_deliveries db)" for d
    using refersD [OF assms(2) that] new by auto
  moreover have "object_payload ?n" by (simp add: object_payload_def new_notice_def)
  moreover have "nf_id ?n \<notin> nf_id ` set (nd_notices db)" using new by force
  ultimately have "notice_inv db'"
    using assms(2) new unfolding db' notice_inv_def plain_logs_def refers_def by auto
  then show ?thesis by (auto simp: keeps_sent_def db')
qed

lemma notice_next_inv:
  assumes "notice_next db db'" "notice_inv db"
  shows "notice_inv db' \<and> keeps_sent db db'"
  using assms
proof (cases rule: notice_next.cases)
  case (rule_saved tx tenant i r)
  then obtain rules where "db' = db\<lparr>nd_rules := rules\<rparr>"
    by (auto simp: upsertRule_def Let_def elim!: bindE_InrE split: option.splits)
  then show ?thesis using assms(2) by (simp add: notice_inv_def plain_logs_def refers_def keeps_sent_def)
next
  case (enqueued tx tenant rule event channel dedup payload a)
  then show ?thesis using insert_notice_next [OF _ assms(2)] by (cases a) (auto simp: enqueue_def elim!: bindE_InrE)
next
  case (group_enqueued tx tenant event dedup components a)
  then obtain b db1 where i: "insert_notice tx tenant None event group_channel dedup [] db = Inr (b, db1)"
      and "db' = add_components tx tenant components b db1"
    by (auto simp: enqueueGroupEvent_def elim!: bindE_InrE split: if_splits)
  then have "db' = db1 \<or> (\<exists>cs. db' = db1\<lparr>nd_components := cs\<rparr>)" by (auto simp: add_components_def)
  then show ?thesis using insert_notice_next [of tx tenant None event group_channel dedup "[]" db b db1] i assms(2)
    by (auto simp: notice_inv_def plain_logs_def refers_def keeps_sent_def)
next
  case (claimed_by tx tenant worker limit timeout cs)
  then obtain I where "step_on I db db'" "\<forall>r \<in> set (nd_notices db). nf_id r \<in> I \<longrightarrow> claimable_notice tx tenant (normalizeTimeout timeout) r"
    using claim_step [OF _ _ assms(2)] by blast
  then show ?thesis using assms(2) by (intro step_on_next [of I]) (auto simp: claimable_notice_def)
next
  case (succeeded tx tenant outbox worker res r)
  then have "step_on {outbox} db db' \<and> (\<exists>q \<in> set (nd_notices db). held_by tenant outbox worker q)"
    unfolding markDeliverySuccess_def by (rule report_step) (rule report_changes)
  then show ?thesis using held_next assms(2) by blast
next
  case (failed tx tenant outbox worker res r)
  then have "step_on {outbox} db db' \<and> (\<exists>q \<in> set (nd_notices db). held_by tenant outbox worker q)"
    unfolding markDeliveryFailure_def by (rule report_step) (rule report_changes)
  then show ?thesis using held_next assms(2) by blast
next
  case (retried_by tx permitted tenant outbox)
  show ?thesis
    by (rule step_on_next [OF retry_step [OF retried_by] assms(2)]) (auto dest: unique_notice [OF assms(2)])
qed

lemma notice_reach_inv: "notice_reach db \<Longrightarrow> notice_inv db"
proof (induction rule: notice_reach.induct)
  case start
  show ?case by (simp add: no_notices_def notice_inv_def logs_ok_def attempts_distinct_def repeats_skipped_def plain_logs_def refers_def)
next
  case (more db db')
  then show ?case using notice_next_inv by blast
qed


text \<open>whatever anybody does, a notification that is settled as sent stays as it is, and so do its deliveries: it is never claimed, retried or reported on again.\<close>

theorem notification_sent_is_final:
  assumes "notice_reach db" "notice_next db db'" "r \<in> set (nd_notices db)" "nf_status r = Notice_sent"
  shows "r \<in> set (nd_notices db') \<and>
    filter (\<lambda>d. dv_notice d = nf_id r) (nd_deliveries db') = filter (\<lambda>d. dv_notice d = nf_id r) (nd_deliveries db)"
  using notice_next_inv [OF assms(2) notice_reach_inv [OF assms(1)]] assms(3,4) by (simp add: keeps_sent_def)

section \<open>Settlement\<close>

text \<open>The newest delivery of a target.\<close>

definition newest :: "string \<Rightarrow> string \<Rightarrow> notice_db \<Rightarrow> delivery_row \<Rightarrow> bool" where
  "newest tenant outbox db d =
     (d \<in> set (nd_deliveries db) \<and> dv_tenant d = tenant \<and> dv_notice d = outbox \<and>
      (\<forall>e \<in> set (nd_deliveries db). dv_tenant e = tenant \<longrightarrow> dv_notice e = outbox \<longrightarrow> settle_key e = settle_key d \<longrightarrow>
         (dv_attempt e, dv_id e) \<le> (dv_attempt d, dv_id d)))"

lemma mem_map_filter: "y \<in> set (List.map_filter g xs) \<longleftrightarrow> (\<exists>x \<in> set xs. g x = Some y)"
  by (induction xs) (auto simp: List.map_filter_simps split: option.splits)

lemma latest_max: "latest P db = Some d \<Longrightarrow> e \<in> set (nd_deliveries db) \<Longrightarrow> P e \<Longrightarrow> (dv_attempt e, dv_id e) \<le> (dv_attempt d, dv_id d)"
  using last_sort_key [of e "filter P (nd_deliveries db)" "\<lambda>d. (dv_attempt d, dv_id d)"]
  by (auto simp: latest_def js_last_def split: if_splits)

lemma same_row: "notice_inv db \<Longrightarrow> d \<in> set (nd_deliveries db) \<Longrightarrow> e \<in> set (nd_deliveries db) \<Longrightarrow> dv_id d = dv_id e \<Longrightarrow> d = e"
  by (auto simp: notice_inv_def logs_ok_def distinct_map dest: inj_onD)

lemma latest_deliveries_newest:
  assumes inv: "notice_inv db"
  shows "d \<in> set (latest_deliveries tenant outbox db) \<longleftrightarrow> newest tenant outbox db d"
proof -
  let ?P = "\<lambda>k d. dv_tenant d = tenant \<and> dv_notice d = outbox \<and> settle_key d = k"
  have mem: "d \<in> set (latest_deliveries tenant outbox db) \<longleftrightarrow>
      (\<exists>e \<in> set (nd_deliveries db). dv_tenant e = tenant \<and> dv_notice e = outbox \<and> latest (?P (settle_key e)) db = Some d)"
    by (auto simp: latest_deliveries_def Let_def mem_map_filter)
  show ?thesis
  proof
    assume "d \<in> set (latest_deliveries tenant outbox db)"
    then obtain e where "e \<in> set (nd_deliveries db)" and l: "latest (?P (settle_key e)) db = Some d" using mem by blast
    then show "newest tenant outbox db d"
      using latest_Some(1,2) [OF l] latest_max [OF l] by (auto simp: newest_def)
  next
    assume n: "newest tenant outbox db d"
    then have d: "d \<in> set (nd_deliveries db)" "dv_tenant d = tenant" "dv_notice d = outbox" by (auto simp: newest_def)
    then obtain e where l: "latest (?P (settle_key d)) db = Some e" using latest_None [of "?P (settle_key d)" db d] by (cases "latest (?P (settle_key d)) db") auto
    have "(dv_attempt d, dv_id d) \<le> (dv_attempt e, dv_id e)" using latest_max [OF l d(1)] d by simp
    moreover have "(dv_attempt e, dv_id e) \<le> (dv_attempt d, dv_id d)"
      using n latest_Some(1,2) [OF l] by (simp add: newest_def)
    ultimately have "dv_id d = dv_id e" by auto
    then have "d = e" using same_row [OF inv d(1) latest_Some(1) [OF l]] by simp
    then show "d \<in> set (latest_deliveries tenant outbox db)" using mem d l by blast
  qed
qed

lemma settled_status_meaning:
  assumes inv: "notice_inv db" and ds: "ds = latest_deliveries tenant outbox db"
  shows "settled_status ds = Notice_processing \<longleftrightarrow> (\<exists>d. newest tenant outbox db d \<and> dv_open d)"
    and "settled_status ds = Notice_sent \<longleftrightarrow>
      (\<forall>d. newest tenant outbox db d \<longrightarrow> dv_status d \<in> {Delivery_sent, Delivery_skipped})"
proof -
  have mem: "d \<in> set ds \<longleftrightarrow> newest tenant outbox db d" for d using latest_deliveries_newest [OF inv] ds by simp
  have routing: "dv_status d \<noteq> Delivery_retry" if "newest tenant outbox db d" "dv_component d = ''routing''" for d
    using notice_inv_log [OF inv, of d] that by (auto simp: newest_def log_ok_def tried_def)
  have closed: "dv_status d \<in> {Delivery_sent, Delivery_skipped} \<longleftrightarrow>
      \<not> dv_open d \<and> \<not> (dv_status d \<in> {Delivery_retry, Delivery_failed})" for d
    by (cases "dv_status d") (auto simp: dv_open_def)
  show "settled_status ds = Notice_processing \<longleftrightarrow> (\<exists>d. newest tenant outbox db d \<and> dv_open d)"
    using mem by (auto simp: settled_status_def has_active_def)
  show "settled_status ds = Notice_sent \<longleftrightarrow>
      (\<forall>d. newest tenant outbox db d \<longrightarrow> dv_status d \<in> {Delivery_sent, Delivery_skipped})"
    unfolding closed using mem routing
    by (auto simp: settled_status_def has_active_def has_retry_def has_routing_error_def)
qed

lemma report_result:
  assumes rep: "report_delivery tx tenant outbox worker res f db = Inr (r, db')" and inv: "notice_inv db"
    and f: "\<And>d. dv_open d \<Longrightarrow> log_change d (f d)"
  shows "(\<exists>q \<in> set (nd_notices db). held_by tenant outbox worker q) \<and> r \<in> set (nd_notices db') \<and> nf_id r = outbox \<and>
    (\<exists>d \<in> set (nd_deliveries db). dv_id d = dr_delivery res \<and> dv_notice d = outbox \<and> dv_open d \<and> f d \<in> set (nd_deliveries db')) \<and>
    nf_status r = settled_status (latest_deliveries tenant outbox db')"
proof -
  let ?g = "\<lambda>d. if reported tenant outbox worker (dr_delivery res) db d then f d else d"
  let ?db = "db\<lparr>nd_deliveries := map ?g (nd_deliveries db)\<rparr>"
  obtain d where d: "d \<in> set (nd_deliveries db)" "reported tenant outbox worker (dr_delivery res) db d"
      and rec: "reconcileOutbox tx tenant outbox worker ?db = Inr (r, db')"
    using rep unfolding report_delivery_def by (auto elim!: bindE_InrE split: if_splits)
  have r: "r = settled tx (latest_deliveries tenant outbox ?db) q" and q: "q \<in> set (nd_notices db)" "held_by tenant outbox worker q"
    and db': "db' = update_notices (held_by tenant outbox worker) (settled tx (latest_deliveries tenant outbox ?db)) ?db"
    if "find (held_by tenant outbox worker) (nd_notices db) = Some q" for q
    using rec that find_Some_prop [OF that] by (simp_all add: reconcileOutbox_def Let_def)
  obtain q where fq: "find (held_by tenant outbox worker) (nd_notices db) = Some q"
    using rec by (auto simp: reconcileOutbox_def Let_def split: option.splits)
  have logs: "nd_deliveries db' = map ?g (nd_deliveries db)" using db' [OF fq] by (simp add: update_notices_def)
  have "latest_deliveries tenant outbox db' = latest_deliveries tenant outbox ?db"
    by (simp add: latest_deliveries_def latest_def logs)
  moreover have "f d \<in> set (nd_deliveries db')" using d by (auto simp: logs)
  moreover have "r \<in> set (nd_notices db')" using q [OF fq] r [OF fq] db' [OF fq] by (auto simp: update_notices_def)
  moreover have "nf_id r = outbox" "nf_status r = settled_status (latest_deliveries tenant outbox ?db)"
    using q [OF fq] r [OF fq] by (auto simp: settled_def Let_def held_by_def)
  ultimately show ?thesis using d q [OF fq] by (auto simp: reported_def)
qed


end
