(* ===== verification/NoticeRuns.thy ===== *)
theory NoticeRuns
  imports NoticeSystem
begin

text \<open>
  Runs of the notification outbox: a person who is disabled while a retry is pending and enabled again gets the
  message twice, and a notification whose preparation fails keeps every claim of its tenant from succeeding.
\<close>

section \<open>A person disabled between two retries\<close>

definition state_after :: "notify_error + 'a \<times> notice_db \<Rightarrow> notice_db" where
  "state_after m = (case m of Inr (_, db) \<Rightarrow> db | Inl _ \<Rightarrow> no_notices)"

lemma after_ok: "isOk m \<Longrightarrow> \<exists>a. m = Inr (a, state_after m)"
  by (auto simp: state_after_def isOk_iff split: prod.splits)

definition notice_host :: host where
  "notice_host = \<lparr>num_str = (\<lambda>_. ''0''), sha256 = (\<lambda>s. s), url_protocol = (\<lambda>_. None)\<rparr>"

definition sample_notice_tx :: "int \<Rightarrow> notice_user list \<Rightarrow> notice_tx" where
  "sample_notice_tx now users =
     \<lparr>nt_now = now, nt_locked = [], nt_host = notice_host, nt_parse = (\<lambda>_. None), nt_rule_id = (\<lambda>rs. ''R'' @ decimal_text (length rs)),
      nt_notice_id = (\<lambda>rs. ''N'' @ decimal_text (length rs)), nt_component_id = (\<lambda>cs. ''C'' @ decimal_text (length cs)),
      nt_delivery_id = (\<lambda>ds. ''D'' @ decimal_text (length ds)), nt_group_targets = (\<lambda>_. []), nt_webhook = (\<lambda>_. None),
      nt_responsible = (\<lambda>_. []), nt_configured = (\<lambda>_. users), nt_decrypt = (\<lambda>s. Inr s), nt_template = (\<lambda>_. ''changed: {itemCode}''),
      nt_missing = ''-'', nt_allocation = None, nt_finance = None\<rparr>"

definition person :: "string \<Rightarrow> bool \<Rightarrow> notice_user" where
  "person u enabled = \<lparr>nu_id = u, nu_name = u, nu_wechat = Some (''wx-'' @ u), nu_enabled = enabled\<rparr>"

definition two_people :: "bool \<Rightarrow> notice_user list" where
  "two_people enabled = [person ''ann'' enabled, person ''bob'' True]"

definition sample_rule :: rule_input where
  "sample_rule = \<lparr>ri_key = ''shipping'', ri_name = ''Shipping'', ri_event = ''shipping_plan.key_fields_changed'', ri_channel = ''WECHAT_WORK'',
     ri_resource = Some ''mps-shipping-plans'', ri_recipients = Some ''FIXED_USERS'', ri_enabled = None,
     ri_config = Some [(''recipientUserIds'', JArr [JStr ''ann'', JStr ''bob''])]\<rparr>"

definition report :: "string \<Rightarrow> delivery_result" where
  "report d = \<lparr>dr_delivery = d, dr_provider = None, dr_code = None\<rparr>"

definition claim_run :: "int \<Rightarrow> bool \<Rightarrow> notice_db \<Rightarrow> preparation" where
  "claim_run now enabled = claimForDispatcher (sample_notice_tx now (two_people enabled)) ''T'' ''W'' 10 300"

definition ack_at :: "int \<Rightarrow> string \<Rightarrow> notice_db \<Rightarrow> notify_error + notice \<times> notice_db" where
  "ack_at now d = markDeliverySuccess (sample_notice_tx now []) ''T'' ''N0'' ''W'' (report d)"

definition nack_at :: "int \<Rightarrow> string \<Rightarrow> notice_db \<Rightarrow> notify_error + notice \<times> notice_db" where
  "nack_at now d = markDeliveryFailure (sample_notice_tx now []) ''T'' ''N0'' ''W'' (report d)"

definition run1 :: notice_db where
  "run1 = state_after (enqueueEvent (sample_notice_tx 0 []) ''T'' ''shipping_plan.key_fields_changed'' ''k'' [(''itemCode'', JStr ''X'')] (Some ''WECHAT_WORK'') None
     (state_after (upsertRule (sample_notice_tx 0 []) ''T'' sample_rule no_notices)))"

definition run2 :: notice_db where "run2 = state_after (ack_at 2 ''D0'' (state_after (claim_run 1 True run1)))"
definition run3 :: notice_db where "run3 = state_after (claim_run 60003 False (state_after (nack_at 3 ''D1'' run2)))"
definition run4 :: notice_db where "run4 = state_after (claim_run 200000 True (state_after (nack_at 60004 ''D3'' run3)))"
definition run5 :: notice_db where "run5 = state_after (ack_at 200001 ''D4'' run4)"

definition run6 :: notice_db where "run6 = state_after (ack_at 200002 ''D5'' run5)"
definition run7 :: notice_db where
  "run7 = state_after (enqueueEvent (sample_notice_tx 200003 []) ''T'' ''shipping_plan.key_fields_changed'' ''k2'' [] None None run6)"

definition log_view :: "notice_db \<Rightarrow> (string \<times> string option \<times> nat \<times> delivery_status) list" where
  "log_view db = map (\<lambda>d. (dv_id d, dv_recipient d, dv_attempt d, dv_status d)) (nd_deliveries db)"

lemma services_sample: "services_ok (sample_notice_tx now users)"
  by (simp add: services_ok_def sample_notice_tx_def)

lemma after_rule: "notice_reach db \<Longrightarrow> isOk (upsertRule tx tenant i db) \<Longrightarrow> notice_reach (state_after (upsertRule tx tenant i db))"
  by (auto dest!: after_ok intro: notice_reach.more notice_next.rule_saved)

lemma after_event: "notice_reach db \<Longrightarrow> isOk (enqueueEvent tx tenant event dedup payload channel rule db) \<Longrightarrow>
    notice_reach (state_after (enqueueEvent tx tenant event dedup payload channel rule db))"
  unfolding enqueueEvent_def by (auto dest!: after_ok intro: notice_reach.more notice_next.enqueued)

lemma after_claim: "notice_reach db \<Longrightarrow> isOk (claim_run now enabled db) \<Longrightarrow> notice_reach (state_after (claim_run now enabled db))"
  unfolding claim_run_def by (auto dest!: after_ok intro: notice_reach.more notice_next.claimed_by services_sample)

lemma after_ack: "notice_reach db \<Longrightarrow> isOk (ack_at now d db) \<Longrightarrow> notice_reach (state_after (ack_at now d db))"
  unfolding ack_at_def by (auto dest!: after_ok intro: notice_reach.more notice_next.succeeded)

lemma after_nack: "notice_reach db \<Longrightarrow> isOk (nack_at now d db) \<Longrightarrow> notice_reach (state_after (nack_at now d db))"
  unfolding nack_at_def by (auto dest!: after_ok intro: notice_reach.more notice_next.failed)

lemma run1_ok: "isOk (upsertRule (sample_notice_tx 0 []) ''T'' sample_rule no_notices)"
  "isOk (enqueueEvent (sample_notice_tx 0 []) ''T'' ''shipping_plan.key_fields_changed'' ''k'' [(''itemCode'', JStr ''X'')] (Some ''WECHAT_WORK'') None
     (state_after (upsertRule (sample_notice_tx 0 []) ''T'' sample_rule no_notices)))"
  by code_simp+

lemma run2_ok: "isOk (claim_run 1 True run1)" "isOk (ack_at 2 ''D0'' (state_after (claim_run 1 True run1)))"
  by code_simp+

lemma run3_ok: "isOk (nack_at 3 ''D1'' run2)" "isOk (claim_run 60003 False (state_after (nack_at 3 ''D1'' run2)))"
  by code_simp+

lemma run4_ok: "isOk (nack_at 60004 ''D3'' run3)" "isOk (claim_run 200000 True (state_after (nack_at 60004 ''D3'' run3)))"
  by code_simp+

lemma run5_ok: "isOk (ack_at 200001 ''D4'' run4)" "isOk (ack_at 200002 ''D5'' run5)"
  "isOk (enqueueEvent (sample_notice_tx 200003 []) ''T'' ''shipping_plan.key_fields_changed'' ''k2'' [] None None run6)"
  by code_simp+

lemma run5_reach: "notice_reach run5"
  unfolding run5_def run4_def run3_def run2_def run1_def
  by (intro after_ack after_claim after_nack after_event after_rule notice_reach.start;
      simp only: run5_ok run4_ok run3_ok run2_ok run1_ok flip: run5_def run4_def run3_def run2_def run1_def)

lemma run6_reach: "notice_reach run6"
  unfolding run6_def by (rule after_ack [OF run5_reach run5_ok(2)])

text \<open>The person disabled and enabled again between two retries gets the message a second time.\<close>

lemma disabled_person_sent_again:
  "log_view run5 =
     [(''D0'', Some ''ann'', 1, Delivery_sent), (''D1'', Some ''bob'', 1, Delivery_retry),
      (''D2'', Some ''ann'', 2, Delivery_skipped), (''D3'', Some ''bob'', 2, Delivery_retry),
      (''D4'', Some ''ann'', 3, Delivery_sent), (''D5'', Some ''bob'', 3, Delivery_pending)]"
  by code_simp

section \<open>A notification that cannot be prepared\<close>

text \<open>
  The test of a rule accepts a payload without the variables the recipients are found by.  Its preparation then
  throws, which rolls back the whole claim, and it is claimed first again the next time: the notification behind
  it, of another event, is never sent.
\<close>

definition fault_rule :: rule_input where
  "fault_rule = \<lparr>ri_key = ''fault'', ri_name = ''Fault'', ri_event = ''equipment.status.fault_changed'', ri_channel = ''WECHAT_WORK'',
     ri_resource = Some ''equipment-status-report'', ri_recipients = Some ''EQUIPMENT_RESPONSIBLE'', ri_enabled = None, ri_config = None\<rparr>"

definition blocked :: notice_db where
  "blocked = state_after (enqueueEvent (sample_notice_tx 1 []) ''T'' ''shipping_plan.key_fields_changed'' ''k'' [] (Some ''WECHAT_WORK'') None
     (state_after (enqueueEvent (sample_notice_tx 0 []) ''T'' ''equipment.status.fault_changed'' ''test:R1'' [] (Some ''WECHAT_WORK'') (Some ''R1'')
     (state_after (upsertRule (sample_notice_tx 0 []) ''T'' fault_rule
     (state_after (upsertRule (sample_notice_tx 0 []) ''T'' sample_rule no_notices)))))))"

lemma incomplete_test_blocks_claims:
  "map (\<lambda>r. (nf_event r, nf_status r)) (nd_notices blocked) =
     [(''equipment.status.fault_changed'', Notice_pending), (''shipping_plan.key_fields_changed'', Notice_pending)] \<and>
   claim_run 2 True blocked = Inl (Notify_conflict ''equipmentId'')"
  by code_simp

section \<open>Examples of the properties\<close>

lemma run5_rows:
  "map dkey [nd_deliveries run5 ! 0, nd_deliveries run5 ! 4] =
     [(''T'', ''N0'', Some ''ann'', None, None, ''text''), (''T'', ''N0'', Some ''ann'', None, None, ''text'')]"
  "map dv_status [nd_deliveries run5 ! 0, nd_deliveries run5 ! 4] = [Delivery_sent, Delivery_sent]"
  "map dv_attempt [nd_deliveries run5 ! 0, nd_deliveries run5 ! 4] = [1, 3]" "length (nd_deliveries run5) = 6"
  by code_simp+


lemma run6_rows: "map nf_status (nd_notices run6) = [Notice_sent]" by code_simp

lemma run7_step: "notice_next run6 run7"
  using after_ok [OF run5_ok(3)] notice_next.enqueued unfolding run7_def enqueueEvent_def by blast

lemma notification_sent_is_final_witness: "nd_notices run6 ! 0 \<in> set (nd_notices run7)"
proof -
  obtain r where "nd_notices run6 = [r]" "nf_status r = Notice_sent" using run6_rows by auto
  then show ?thesis using notification_sent_is_final [OF run6_reach run7_step, of r] by simp
qed

lemma run6_status: "(case ack_at 200002 ''D5'' run5 of Inl _ \<Rightarrow> None | Inr (r, _) \<Rightarrow> Some (nf_status r)) = Some Notice_sent"
  by code_simp


end
