(* ===== verification/AllocationDelivery.thy ===== *)
theory AllocationDelivery
  imports NoticeLaws
begin

text \<open>
  \<open>modules/notifications/order-allocation.delivery.service.ts\<close>: the deliveries of a changed order
  allocation, a text and one or more workbooks per recipient.  The routing of the changes
  (\<open>resolveAllocationRoutes\<close>, which reads the people and the units), the workbooks and the wording are fields
  of \<open>allocation_tx\<close>.  The service keeps the contract of \<open>file_service\<close>.
\<close>

record alloc_route =
  ar_user :: string
  ar_name :: string
  ar_wechat :: string
  ar_changes :: json
  ar_identities :: json

record allocation_tx =
  ax_now :: int
  ax_delivery_id :: "delivery_row list \<Rightarrow> string"
  ax_routing :: "json list \<Rightarrow> alloc_route list \<times> string list"
  ax_test_user :: "json option \<Rightarrow> notice_user option"
  ax_users :: "notice_user list"
  ax_attachments :: "alloc_route \<Rightarrow> notify_error + (string \<times> string \<times> nat) list"
  ax_summary :: "alloc_route \<Rightarrow> string"
  ax_disabled_text :: "string \<Rightarrow> string"
  ax_unreachable_text :: "string \<Rightarrow> string"

definition json_chars :: "json option \<Rightarrow> string" where
  "json_chars v = (case v of Some (JStr s) \<Rightarrow> s | _ \<Rightarrow> [])"

definition route_json :: "alloc_route \<Rightarrow> json" where
  "route_json r =
     JObj [(''userId'', JStr (ar_user r)), (''displayName'', JStr (ar_name r)), (''enabled'', JBool True),
           (''changes'', ar_changes r), (''identities'', ar_identities r)]"

text \<open>A saved route with the current account of its recipient; a recipient who is gone becomes an error.\<close>

definition saved_route :: "allocation_tx \<Rightarrow> json \<Rightarrow> alloc_route option \<times> string list" where
  "saved_route ax saved =
     (let uid = json_chars (payload_field saved ''userId''); name = json_chars (payload_field saved ''displayName'')
      in case find (\<lambda>u. nu_id u = uid) (ax_users ax) of
           None \<Rightarrow> (None, [ax_disabled_text ax name])
         | Some u \<Rightarrow>
             if \<not> nu_enabled u then (None, [ax_disabled_text ax name])
             else (Some \<lparr>ar_user = uid, ar_name = name, ar_wechat = wechat_of u,
                         ar_changes = coalesce (payload_field saved ''changes'') JNull,
                         ar_identities = coalesce (payload_field saved ''identities'') JNull\<rparr>,
                   if wechat_of u = [] then [ax_unreachable_text ax name] else []))"

definition saved_routing :: "allocation_tx \<Rightarrow> json list \<Rightarrow> json option \<Rightarrow> alloc_route list \<times> string list" where
  "saved_routing ax routes errors =
     (List.map_filter (fst \<circ> saved_route ax) routes,
      (case errors of Some (JArr es) \<Rightarrow> map (json_chars \<circ> Some) es | _ \<Rightarrow> []) @ concat (map (snd \<circ> saved_route ax) routes))"

text \<open>\<open>payload || {routes, routingErrors}\<close>.\<close>

definition payload_with :: "(string \<times> json) list \<Rightarrow> json \<Rightarrow> json" where
  "payload_with new payload =
     (case payload of JObj kvs \<Rightarrow> JObj (filter (\<lambda>(k, _). k \<notin> set (map fst new)) kvs @ new) | p \<Rightarrow> p)"

definition store_routes :: "string \<Rightarrow> notice \<Rightarrow> alloc_route list \<times> string list \<Rightarrow> notice_db \<Rightarrow> notice_db" where
  "store_routes tenant row routing db =
     update_notices (\<lambda>r. nf_tenant r = tenant \<and> nf_id r = nf_id row)
       (\<lambda>r. r\<lparr>nf_payload := payload_with [(''routes'', JArr (map route_json (fst routing))),
                (''routingErrors'', JArr (map JStr (snd routing)))] (nf_payload r)\<rparr>) db"

definition allocation_routing :: "allocation_tx \<Rightarrow> string \<Rightarrow> notice \<Rightarrow> notice_db \<Rightarrow>
    notify_error + (alloc_route list \<times> string list) \<times> notice_db" where
  "allocation_routing ax tenant row db =
     (case payload_field (nf_payload row) ''changes'' of
        Some (JArr changes) \<Rightarrow>
          if changes = [] then Inl (Notify_conflict ''changes'')
          else if payload_field (nf_payload row) ''deliveryMode'' = Some (JStr ''TEST'') then
            (case ax_test_user ax (payload_field (nf_payload row) ''testRecipientUserId'') of
               None \<Rightarrow> Inl (Notify_conflict ''testRecipient'')
             | Some u \<Rightarrow>
                 if wechat_of u = [] then Inl (Notify_conflict ''testRecipient'')
                 else Inr (([\<lparr>ar_user = nu_id u, ar_name = nu_name u, ar_wechat = the_text (nu_wechat u),
                             ar_changes = JArr changes, ar_identities = JArr []\<rparr>], []), db))
          else (case payload_field (nf_payload row) ''routes'' of
                  Some (JArr routes) \<Rightarrow>
                    Inr (saved_routing ax routes (payload_field (nf_payload row) ''routingErrors''), db)
                | _ \<Rightarrow> Inr (ax_routing ax changes, store_routes tenant row (ax_routing ax changes) db))
      | _ \<Rightarrow> Inl (Notify_conflict ''changes''))"

definition routing_failure :: "string \<Rightarrow> notice \<Rightarrow> delivery_row \<Rightarrow> bool" where
  "routing_failure tenant row d =
     (dv_tenant d = tenant \<and> dv_notice d = nf_id row \<and> dv_component d = ''routing'' \<and> dv_status d = Delivery_failed)"

definition routing_log :: "allocation_tx \<Rightarrow> string \<Rightarrow> notice \<Rightarrow> notice_db \<Rightarrow> delivery_row" where
  "routing_log ax tenant row db =
     \<lparr>dv_id = ax_delivery_id ax (nd_deliveries db), dv_tenant = tenant, dv_notice = nf_id row, dv_recipient = None,
      dv_wechat = None, dv_attempt = nf_attempts row, dv_status = Delivery_failed, dv_component = ''routing'',
      dv_target_type = None, dv_target = None, dv_code = Some ''ALLOCATION_ROUTING_FAILED'', dv_provider = None,
      dv_delivered_at = None\<rparr>"

definition record_routing :: "allocation_tx \<Rightarrow> string \<Rightarrow> notice \<Rightarrow> string list \<Rightarrow> notice_db \<Rightarrow> notify_error + notice_db" where
  "record_routing ax tenant row errors db =
     (if errors = [] then
        Inr (db\<lparr>nd_deliveries := map (\<lambda>d. if routing_failure tenant row d
               then d\<lparr>dv_status := Delivery_skipped, dv_code := Some ''ROUTING_RESOLVED''\<rparr> else d) (nd_deliveries db)\<rparr>)
      else if \<exists>d \<in> set (nd_deliveries db). routing_failure tenant row d then Inr db
      else bindE (insert_delivery (routing_log ax tenant row db) db) (\<lambda>(_, db'). Inr db'))"

definition component_log :: "allocation_tx \<Rightarrow> string \<Rightarrow> notice \<Rightarrow> alloc_route \<Rightarrow> string \<Rightarrow> nat \<Rightarrow> notice_db \<Rightarrow> delivery_row" where
  "component_log ax tenant row route component attempt db =
     \<lparr>dv_id = ax_delivery_id ax (nd_deliveries db), dv_tenant = tenant, dv_notice = nf_id row,
      dv_recipient = Some (ar_user route), dv_wechat = Some (ar_wechat route), dv_attempt = attempt,
      dv_status = Delivery_pending, dv_component = component, dv_target_type = None, dv_target = None,
      dv_code = None, dv_provider = None, dv_delivered_at = None\<rparr>"

definition allocation_claim :: "allocation_tx \<Rightarrow> notice \<Rightarrow> alloc_route \<Rightarrow> (string \<times> string \<times> nat) option \<Rightarrow> string \<Rightarrow> notice_claim" where
  "allocation_claim ax row route attachment delivery =
     \<lparr>cm_notice = nf_id row, cm_type = (if attachment = None then Msg_text else Msg_file), cm_content = ax_summary ax route,
      cm_recipients = [\<lparr>cr_delivery = delivery, cr_user = ar_user route, cr_name = ar_name route,
                        cr_wechat = Some (ar_wechat route), cr_target = None, cr_url = None\<rparr>],
      cm_attachment = map_option (\<lambda>(aid, filename, _).
        (aid, filename, ''/internal/notifications/'' @ nf_id row @ ''/attachments/'' @ aid)) attachment\<rparr>"

definition component_previous :: "string \<Rightarrow> notice \<Rightarrow> string \<Rightarrow> string \<Rightarrow> notice_db \<Rightarrow> delivery_row option" where
  "component_previous tenant row u component db =
     latest (\<lambda>d. dv_tenant d = tenant \<and> dv_notice d = nf_id row \<and> dv_recipient d = Some u \<and> dv_component d = component) db"

definition component_delivery :: "allocation_tx \<Rightarrow> string \<Rightarrow> notice \<Rightarrow> alloc_route \<Rightarrow>
    string \<times> (string \<times> string \<times> nat) option \<Rightarrow> notice_db \<Rightarrow> notify_error + notice_claim option \<times> notice_db" where
  "component_delivery ax tenant row route c db =
     (case c of (component, attachment) \<Rightarrow>
        let previous = component_previous tenant row (ar_user route) component db;
            create = bindE (insert_delivery (component_log ax tenant row route component (next_attempt previous) db) db)
              (\<lambda>(d, db'). Inr (Some (allocation_claim ax row route attachment (dv_id d)), db'))
        in case previous of
             None \<Rightarrow> create
           | Some p \<Rightarrow>
               if dv_status p = Delivery_sent then Inr (None, db)
               else if dv_open p then Inr (Some (allocation_claim ax row route attachment (dv_id p)), db)
               else create)"

definition route_components :: "(string \<times> string \<times> nat) list \<Rightarrow> (string \<times> (string \<times> string \<times> nat) option) list" where
  "route_components attachments =
     (''text'', None) # map (\<lambda>(aid, filename, part). (''file:'' @ decimal_text part, Some (aid, filename, part))) attachments"

definition route_deliveries :: "allocation_tx \<Rightarrow> string \<Rightarrow> notice \<Rightarrow> alloc_route \<Rightarrow> notice_db \<Rightarrow> preparation" where
  "route_deliveries ax tenant row route db =
     (if ar_wechat route = [] then Inr ([], db)
      else bindE (ax_attachments ax route) (\<lambda>attachments.
        bindE (mapES (component_delivery ax tenant row route) (route_components attachments) db) (\<lambda>(cs, db').
          Inr (List.map_filter id cs, db'))))"

definition closed_allocation :: "allocation_tx \<Rightarrow> string list \<Rightarrow> notice \<Rightarrow> notice" where
  "closed_allocation ax errors r =
     r\<lparr>nf_status := (if errors = [] then Notice_sent else Notice_failed), nf_locked_by := None, nf_locked_at := None,
       nf_next_retry := None, nf_last_error := (if errors = [] then None else Some (Fault_text (take 4000 (js_join '';'' errors)))),
       nf_sent_at := (if errors = [] then Some (ax_now ax) else nf_sent_at r), nf_version := nf_version r + 1\<rparr>"

definition allocation_prepare :: "allocation_tx \<Rightarrow> string \<Rightarrow> notice \<Rightarrow> string \<Rightarrow> notice_db \<Rightarrow> preparation" where
  "allocation_prepare ax tenant row worker db =
     bindE (allocation_routing ax tenant row db) (\<lambda>((recipients, errors), db1).
     bindE (record_routing ax tenant row errors db1) (\<lambda>db2.
     bindE (mapES (route_deliveries ax tenant row) recipients db2) (\<lambda>(css, db3).
       let claims = concat css
       in Inr (claims,
            if claims = [] then update_notices (\<lambda>r. nf_tenant r = tenant \<and> nf_id r = nf_id row \<and> nf_locked_by r = Some worker)
                                  (closed_allocation ax errors) db3
            else db3))))"

section \<open>The contract\<close>

lemma routing_step:
  assumes "allocation_routing ax (nf_tenant row) row db = Inr (routing, db')" "nf_event row = allocation_event"
    "known_notice row db" "notice_inv db"
  shows "step_on {nf_id row} db db'"
proof -
  have "nf_event r = allocation_event" if "r \<in> set (nd_notices db)" "nf_id r = nf_id row" for r
  proof -
    obtain q where "q \<in> set (nd_notices db)" "facts q = facts row" using assms(3) by (auto simp: known_notice_def)
    then have "nf_id q = nf_id r" "nf_event q = nf_event row" using that(2) by (auto simp: facts_def)
    moreover have "q = r" using unique_notice [OF assms(4) \<open>q \<in> set (nd_notices db)\<close> that(1)] calculation(1) by simp
    ultimately show ?thesis using assms(2) by simp
  qed
  then have store: "step_on {nf_id row} db (store_routes (nf_tenant row) row x db)" for x
    unfolding store_routes_def
    by (intro step_update) (auto simp: facts_def special_def object_payload_def payload_with_def allocation_event_def finance_event_def)
  have "db' = db \<or> (\<exists>x. db' = store_routes (nf_tenant row) row x db)" using assms(1)
    by (auto simp: allocation_routing_def simp del: split_paired_Ex split: option.splits json.splits if_splits)
  then show ?thesis using store by (elim disjE exE) simp_all
qed

lemma record_routing_step:
  assumes "record_routing ax tenant row errors db = Inr db'" "notice_inv db"
  shows "step_on {nf_id row} db db'"
proof (cases "errors = []")
  case True
  have "log_change d (if routing_failure tenant row d then d\<lparr>dv_status := Delivery_skipped, dv_code := Some ''ROUTING_RESOLVED''\<rparr> else d)"
    if "d \<in> set (nd_deliveries db)" for d
    using notice_inv_log [OF assms(2) that]
    by (auto simp: log_change_def routing_failure_def dkey_def live_cases skipped_def tried_def log_ok_def)
  then show ?thesis using assms(1) True
    by (auto simp: record_routing_def routing_failure_def split: if_splits intro!: step_logs)
next
  case False
  have "d = routing_log ax tenant row db \<and> u = db\<lparr>nd_deliveries := nd_deliveries db @ [routing_log ax tenant row db]\<rparr> \<and>
      step_on {nf_id row} db u" if "insert_delivery (routing_log ax tenant row db) db = Inr (d, u)" for d u
    by (rule step_insert [OF that])
      (auto simp: routing_log_def log_ok_def shape_ok_def live_cases tried_def skipped_def)
  then show ?thesis using assms(1) False by (auto simp: record_routing_def split: if_splits elim!: bindE_InrE)
qed

lemma component_insert_step:
  assumes ins: "insert_delivery (component_log ax (nf_tenant row) row route component
        (next_attempt (component_previous (nf_tenant row) row (ar_user route) component db)) db) db = Inr (d, db')"
    and dead: "case component_previous (nf_tenant row) row (ar_user route) component db of None \<Rightarrow> True | Some p \<Rightarrow> \<not> live p"
    and c: "component \<noteq> ''routing''" and row: "special row" "notice_inv db \<Longrightarrow> known_notice row db"
  shows "step_on {nf_id row} db db'"
proof -
  let ?n = "component_log ax (nf_tenant row) row route component
    (next_attempt (component_previous (nf_tenant row) row (ar_user route) component db)) db"
  have "log_ok ?n \<and> (skipped ?n \<or> \<not> live ?n \<and> dv_component ?n = ''routing'' \<or> may_follow ?n (nd_deliveries db))"
    if inv: "notice_inv db"
  proof -
    have "may_follow ?n (nd_deliveries db)"
    proof (rule may_followI)
      fix e assume "e \<in> set (nd_deliveries db)"
      then have "shape_ok e" using notice_inv_log [OF inv] by (simp add: log_ok_def)
      then show "(dv_tenant e = nf_tenant row \<and> dv_notice e = nf_id row \<and> dv_recipient e = Some (ar_user route) \<and>
          dv_component e = component) \<longleftrightarrow> dkey e = dkey ?n"
        by (auto simp: dkey_eq component_log_def shape_ok_def)
    qed (use dead in \<open>simp_all add: component_previous_def [symmetric] component_log_def\<close>)
    then show ?thesis using c by (simp add: component_log_def log_ok_def shape_ok_def live_cases addressed_def skipped_def)
  qed
  then have "d = ?n \<and> db' = db\<lparr>nd_deliveries := nd_deliveries db @ [?n]\<rparr> \<and> step_on {nf_id row} db db'"
    using row by (intro step_insert [OF ins]) (auto simp: component_log_def)
  then show ?thesis by blast
qed

lemma component_delivery_step:
  assumes "component_delivery ax (nf_tenant row) row route (component, attachment) db = Inr (r, db')"
    and "component \<noteq> ''routing''" "special row" "notice_inv db \<Longrightarrow> known_notice row db"
  shows "step_on {nf_id row} db db'"
proof -
  let ?p = "component_previous (nf_tenant row) row (ar_user route) component db"
  have "db' = db \<or> (case ?p of None \<Rightarrow> True | Some p \<Rightarrow> \<not> live p) \<and>
      (\<exists>d. insert_delivery (component_log ax (nf_tenant row) row route component (next_attempt ?p) db) db = Inr (d, db'))"
    using assms(1) by (auto simp: component_delivery_def Let_def closed_delivery split: option.splits if_splits elim!: bindE_InrE)
  then show ?thesis using component_insert_step [OF _ _ assms(2-4)] by auto
qed

text \<open>A loop whose steps need the notification to be known.\<close>

lemma mapES_known:
  assumes "mapES f xs db = Inr (ys, db')" "known_notice row db" "notice_inv db"
    and "\<And>x u y u'. x \<in> set xs \<Longrightarrow> known_notice row u \<Longrightarrow> notice_inv u \<Longrightarrow> f x u = Inr (y, u') \<Longrightarrow> step_on I u u'"
  shows "step_on I db db'"
  using assms
proof (induction xs arbitrary: db ys)
  case (Cons x xs)
  then obtain y u zs where f: "f x db = Inr (y, u)" "mapES f xs u = Inr (zs, db')"
    by (auto split: sum.splits)
  have s: "step_on I db u" using Cons.prems(4) [OF _ Cons.prems(2,3) f(1)] by simp
  moreover have "known_notice row u" "notice_inv u" using known_step [OF Cons.prems(2,3) s] s Cons.prems(3) by (auto simp: step_on_def)
  then have "step_on I u db'" using Cons.IH [OF f(2)] Cons.prems(4) by (meson list.set_intros(2))
  ultimately show ?case by (rule step_trans)
qed simp

lemma route_step:
  assumes "route_deliveries ax (nf_tenant row) row route db = Inr (cs, db')" "special row" "known_notice row db" "notice_inv db"
  shows "step_on {nf_id row} db db'"
proof (cases "ar_wechat route = []")
  case False
  then obtain attachments ys where m: "mapES (component_delivery ax (nf_tenant row) row route) (route_components attachments) db = Inr (ys, db')"
    using assms(1) by (auto simp: route_deliveries_def elim!: bindE_InrE)
  have "fst c \<noteq> ''routing''" if "c \<in> set (route_components attachments)" for c
    using that by (auto simp: route_components_def)
  then show ?thesis
    using mapES_known [OF m assms(3,4)] component_delivery_step [OF _ _ assms(2)] by (metis prod.collapse)
qed (use assms in \<open>simp add: route_deliveries_def\<close>)

lemma allocation_step:
  assumes prep: "allocation_prepare ax (nf_tenant row) row worker db = Inr (cs, db')" and event: "nf_event row = allocation_event"
    and row: "known_notice row db" "notice_inv db"
  shows "step_on {nf_id row} db db'"
proof -
  have sp: "special row" using event by (simp add: special_def)
  obtain recipients errors db1 db2 css db3 where r: "allocation_routing ax (nf_tenant row) row db = Inr ((recipients, errors), db1)"
      and l: "record_routing ax (nf_tenant row) row errors db1 = Inr db2"
      and m: "mapES (route_deliveries ax (nf_tenant row) row) recipients db2 = Inr (css, db3)"
      and db': "db' = (if concat css = [] then update_notices (\<lambda>r. nf_tenant r = nf_tenant row \<and> nf_id r = nf_id row \<and> nf_locked_by r = Some worker)
                                  (closed_allocation ax errors) db3 else db3)"
    using prep by (auto simp: allocation_prepare_def Let_def elim!: bindE_InrE)
  have s1: "step_on {nf_id row} db db1" using routing_step [OF r event row] .
  then have i1: "notice_inv db1" using row by (simp add: step_on_def)
  have s2: "step_on {nf_id row} db1 db2" using record_routing_step [OF l i1] .
  have k2: "known_notice row db2" using known_step [OF known_step [OF row s1] i1 s2] .
  have i2: "notice_inv db2" using s2 i1 by (simp add: step_on_def)
  have s3: "step_on {nf_id row} db2 db3" using mapES_known [OF m k2 i2] route_step [OF _ sp] by blast
  have "step_on {nf_id row} db3 db'" unfolding db'
    by (auto intro!: step_update simp: closed_allocation_def facts_def special_def object_payload_def)
  then show ?thesis using s1 s2 s3 step_trans by blast
qed

text \<open>The service keeps its contract, whatever it reads: it may serve the claims of the outbox.\<close>

interpretation allocation: file_service allocation_event "allocation_prepare ax" for ax
  by unfold_locales (rule allocation_step)

lemma allocation_services: "nt_allocation tx = Some (allocation_prepare ax) \<Longrightarrow> nt_finance tx = None \<Longrightarrow> services_ok tx"
  using allocation.file_service_axioms by (simp add: services_ok_def)

end
