(* ===== verification/Accounts.thy ===== *)
theory Accounts
  imports JsValues
begin

text \<open>
  Accounts, sessions and password recovery: \<^verbatim>\<open>apps/api/src/auth.ts\<close> (class
  \<^verbatim>\<open>AuthService\<close>) and the operations of the user administration that write the same columns
  (\<^verbatim>\<open>controllers.ts\<close>, \<^verbatim>\<open>modules/admin/admin-application.service.ts\<close>).
  Login and renewal are not transactions: each of their statements is a definition of its own, and
  \<open>AccountSystem\<close> interleaves them.  bcrypt, SHA-256 and the signing of tokens are the fields of
  \<open>auth_host\<close>; an error carries the HTTP status of its exception.  Audit rows are not written here except
  where the code does more than append one.
\<close>

record jwt =
  jwtSub :: string
  jwtType :: string
  jwtId :: string
  jwtExp :: nat

record auth_host =
  bcrypt_hash :: "nat \<Rightarrow> string \<Rightarrow> string"
  bcrypt_ok :: "string \<Rightarrow> string \<Rightarrow> bool"
  digest :: "string \<Rightarrow> string"
  jwt_sign :: "string \<Rightarrow> jwt \<Rightarrow> string"
  jwt_verify :: "string \<Rightarrow> nat \<Rightarrow> string \<Rightarrow> jwt option"
  jwt_decode :: "string \<Rightarrow> jwt option"
  access_secret :: string
  refresh_secret :: string
  access_ttl :: nat
  refresh_ttl :: nat
  tenant_code :: string

datatype auth_error = Http nat string

record account =
  acId :: string
  acTenant :: string
  acUsername :: string
  acDisplay :: string
  acHash :: string
  acEnabled :: bool
  acDivision :: "string option"
  acEmployeeNo :: "string option"
  acPosition :: "string option"
  acAlias :: "string option"
  acGender :: "string option"
  acMobile :: "string option"
  acEmail :: "string option"
  acPaths :: "string list list"
  acModuleOrder :: "string list"
  acMustChange :: bool
  acLastLogin :: "nat option"
  acFailures :: nat
  acLocked :: "nat option"
  acUpdatedBy :: string
  acVersion :: nat

record refresh_token =
  rtId :: string
  rtUser :: string
  rtHash :: string
  rtExpires :: nat
  rtRevoked :: "nat option"

record reset_request =
  rqUser :: string
  rqHash :: string
  rqConsumed :: nat
  rqIp :: "string option"
  rqCreated :: nat

record admin_grant =
  grId :: string
  grTenant :: string
  grUser :: string
  grSystem :: bool
  grModules :: "string list"
  grUpdatedBy :: string
  grVersion :: nat

record auth_db =
  accounts :: "account list"
  tokens :: "refresh_token list"
  resets :: "reset_request list"
  grants :: "admin_grant list"

section \<open>Rules on texts\<close>

definition ascii_alpha :: "char \<Rightarrow> bool" where
  "ascii_alpha c = (let n = (of_char c :: nat) in 65 \<le> n \<and> n \<le> 90 \<or> 97 \<le> n \<and> n \<le> 122)"

definition ascii_digit :: "char \<Rightarrow> bool" where
  "ascii_digit c = (let n = (of_char c :: nat) in 48 \<le> n \<and> n \<le> 57)"

text \<open>\<open>PASSWORD_PATTERN\<close>.  The final \<open>\S+$\<close> excludes the line ends which a dot of the look-aheads
  does not match.\<close>

definition password_pattern :: "string \<Rightarrow> bool" where
  "password_pattern s = (8 \<le> length s \<and> length s \<le> 64 \<and> list_ex ascii_alpha s \<and> list_ex ascii_digit s \<and>
     list_all (\<lambda>c. \<not> js_space c) s)"

definition assertPasswordRule :: "string \<Rightarrow> auth_error + unit" where
  "assertPasswordRule p = (if password_pattern p then Inr () else Inl (Http 400 ''password rule''))"

text \<open>\<open>[^\s@]+@[^\s@]+\.[^\s@]+\<close>: one at sign, and a dot inside the domain.\<close>

definition email_format :: "string \<Rightarrow> bool" where
  "email_format s = (list_all (\<lambda>c. \<not> js_space c) s \<and>
     (case js_split CHR ''@'' s of
        [name, domain] \<Rightarrow> name \<noteq> [] \<and> list_ex ((=) CHR ''.'') (butlast (tl domain))
      | _ \<Rightarrow> False))"

definition normalizeEmail :: "string \<Rightarrow> auth_error + string" where
  "normalizeEmail v = (let n = js_lower (js_trim v) in
     if email_format n then Inr n else Inl (Http 400 ''email address''))"

definition maskEmail :: "string \<Rightarrow> string" where
  "maskEmail e = (case js_split CHR ''@'' e of
     name # domain # _ \<Rightarrow> if domain = [] then take 2 name @ ''***'' else take 2 name @ ''***@'' @ domain
   | name # _ \<Rightarrow> take 2 name @ ''***''
   | [] \<Rightarrow> ''***'')"

definition isPrimaryAdminUsername :: "string \<Rightarrow> bool" where
  "isPrimaryAdminUsername u = (js_lower (js_trim u) = ''admin'')"

definition DEFAULT_USER_PASSWORD :: string where
  "DEFAULT_USER_PASSWORD = ''kn123456''"

section \<open>The temporary password\<close>

text \<open>\<open>rnd k n\<close> is the answer of the \<open>k\<close>-th call of \<open>randomInt(n)\<close>.\<close>

definition temp_letters :: string where
  "temp_letters = ''ABCDEFGHJKLMNPQRSTUVWXYZabcdefghijkmnopqrstuvwxyz''"

definition temp_digits :: string where
  "temp_digits = ''23456789''"

definition temp_all :: string where
  "temp_all = temp_letters @ temp_digits"

definition temp_characters :: "(nat \<Rightarrow> nat \<Rightarrow> nat) \<Rightarrow> string" where
  "temp_characters rnd =
     [temp_letters ! rnd 0 (length temp_letters), temp_digits ! rnd 1 (length temp_digits)] @
     map (\<lambda>k. temp_all ! rnd k (length temp_all)) [2..<8]"

definition swap_at :: "nat \<Rightarrow> nat \<Rightarrow> 'a list \<Rightarrow> 'a list" where
  "swap_at i j xs = xs[i := xs ! j, j := xs ! i]"

text \<open>The loop \<open>for (index = length - 1; index > 0; index--)\<close>; call \<open>k\<close> is the next one.\<close>

fun shuffle_from :: "(nat \<Rightarrow> nat \<Rightarrow> nat) \<Rightarrow> nat \<Rightarrow> nat \<Rightarrow> 'a list \<Rightarrow> 'a list" where
  "shuffle_from rnd k 0 xs = xs"
| "shuffle_from rnd k (Suc i) xs = shuffle_from rnd (Suc k) i (swap_at (Suc i) (rnd k (Suc i + 1)) xs)"

definition randomTemporaryPassword :: "(nat \<Rightarrow> nat \<Rightarrow> nat) \<Rightarrow> string" where
  "randomTemporaryPassword rnd = (let cs = temp_characters rnd in shuffle_from rnd 8 (length cs - 1) cs)"

section \<open>Tables\<close>

definition account_by_id :: "string \<Rightarrow> auth_db \<Rightarrow> account option" where
  "account_by_id i db = find (\<lambda>u. acId u = i) (accounts db)"

definition account_by_name :: "string \<Rightarrow> auth_db \<Rightarrow> account option" where
  "account_by_name n db = find (\<lambda>u. acUsername u = n) (accounts db)"

definition set_account :: "string \<Rightarrow> (account \<Rightarrow> account) \<Rightarrow> auth_db \<Rightarrow> auth_db" where
  "set_account i f db = db\<lparr>accounts := map (\<lambda>u. if acId u = i then f u else u) (accounts db)\<rparr>"

definition revoke_row :: "(refresh_token \<Rightarrow> bool) \<Rightarrow> nat \<Rightarrow> refresh_token \<Rightarrow> refresh_token" where
  "revoke_row P now t = (if P t then t\<lparr>rtRevoked := Some now\<rparr> else t)"

definition revoke_where :: "(refresh_token \<Rightarrow> bool) \<Rightarrow> nat \<Rightarrow> auth_db \<Rightarrow> auth_db" where
  "revoke_where P now db = db\<lparr>tokens := map (revoke_row P now) (tokens db)\<rparr>"

definition live_of :: "string \<Rightarrow> refresh_token \<Rightarrow> bool" where
  "live_of i t = (rtUser t = i \<and> rtRevoked t = None)"

section \<open>Tokens\<close>

definition seconds :: "nat \<Rightarrow> nat" where
  "seconds now = now div 1000"

text \<open>\<open>issueTokens\<close>: the access token, the refresh token and its row.  The unique index on the hash makes
  the insert fail when the hash is taken.\<close>

definition issueTokens :: "auth_host \<Rightarrow> nat \<Rightarrow> string \<Rightarrow> string \<Rightarrow> string \<Rightarrow> string \<Rightarrow> auth_db \<Rightarrow> auth_error + (string \<times> string) \<times> auth_db" where
  "issueTokens h now j1 j2 rowid user db =
     (let access = jwt_sign h (access_secret h) \<lparr>jwtSub = user, jwtType = ''access'', jwtId = j1, jwtExp = seconds now + access_ttl h\<rparr>;
          refresh = jwt_sign h (refresh_secret h) \<lparr>jwtSub = user, jwtType = ''refresh'', jwtId = j2, jwtExp = seconds now + refresh_ttl h\<rparr>;
          expires = (case jwt_decode h refresh of Some p \<Rightarrow> jwtExp p | None \<Rightarrow> seconds now + 7 * 86400) * 1000;
          row = \<lparr>rtId = rowid, rtUser = user, rtHash = digest h refresh, rtExpires = expires, rtRevoked = None\<rparr>
      in if digest h refresh \<in> rtHash ` set (tokens db) \<or> rowid \<in> rtId ` set (tokens db) then Inl (Http 500 ''duplicate token'')
         else if user \<notin> acId ` set (accounts db) then Inl (Http 500 ''no such user'')
         else Inr ((access, refresh), db\<lparr>tokens := tokens db @ [row]\<rparr>))"

text \<open>\<open>login\<close>: the reads and checks, then the time stamp, then \<open>issueTokens\<close>.\<close>

definition login_check :: "auth_host \<Rightarrow> string option \<Rightarrow> string option \<Rightarrow> auth_db \<Rightarrow> auth_error + account" where
  "login_check h username password db =
     (let n = (case username of None \<Rightarrow> [] | Some u \<Rightarrow> js_trim u) in
      if n = [] then Inl (Http 401 ''username required'')
      else case account_by_name n db of
        None \<Rightarrow> Inl (Http 401 ''no such username'')
      | Some u \<Rightarrow>
          if \<not> acEnabled u then Inl (Http 401 ''account disabled'')
          else if \<not> bcrypt_ok h (case password of None \<Rightarrow> [] | Some p \<Rightarrow> p) (acHash u) then Inl (Http 401 ''wrong password'')
          else Inr u)"

definition login_stamp :: "nat \<Rightarrow> string \<Rightarrow> auth_db \<Rightarrow> auth_db" where
  "login_stamp now i db = set_account i (\<lambda>u. u\<lparr>acLastLogin := Some now\<rparr>) db"

text \<open>\<open>refresh\<close>: the token and its row, then the account, then the revocation, then
  \<open>issueTokens\<close>.\<close>

definition refresh_check :: "auth_host \<Rightarrow> nat \<Rightarrow> string \<Rightarrow> auth_db \<Rightarrow> auth_error + refresh_token \<times> string" where
  "refresh_check h now token db = (case jwt_verify h (refresh_secret h) now token of
     None \<Rightarrow> Inl (Http 401 ''refresh token invalid'')
   | Some p \<Rightarrow>
       if jwtType p \<noteq> ''refresh'' then Inl (Http 401 ''not a refresh token'')
       else case find (\<lambda>t. rtHash t = digest h token) (tokens db) of
         None \<Rightarrow> Inl (Http 401 ''refresh token invalid'')
       | Some t \<Rightarrow> if rtRevoked t \<noteq> None \<or> rtExpires t \<le> now then Inl (Http 401 ''refresh token invalid'')
                   else Inr (t, jwtSub p))"

definition refresh_account :: "string \<Rightarrow> auth_db \<Rightarrow> auth_error + account" where
  "refresh_account i db = (case account_by_id i db of
     None \<Rightarrow> Inl (Http 401 ''account disabled'')
   | Some u \<Rightarrow> if acEnabled u then Inr u else Inl (Http 401 ''account disabled''))"

definition refresh_revoke :: "nat \<Rightarrow> string \<Rightarrow> auth_db \<Rightarrow> auth_db" where
  "refresh_revoke now rowid db = revoke_where (\<lambda>t. rtId t = rowid) now db"

definition logout :: "auth_host \<Rightarrow> nat \<Rightarrow> string \<Rightarrow> auth_db \<Rightarrow> auth_db" where
  "logout h now token db = revoke_where (\<lambda>t. rtHash t = digest h token) now db"

text \<open>Without other requests in between.\<close>

definition login :: "auth_host \<Rightarrow> nat \<Rightarrow> string \<Rightarrow> string \<Rightarrow> string \<Rightarrow> string option \<Rightarrow> string option \<Rightarrow> auth_db \<Rightarrow> auth_error + (string \<times> string) \<times> auth_db" where
  "login h now j1 j2 rowid username password db =
     bindE (login_check h username password db) (\<lambda>u.
       issueTokens h now j1 j2 rowid (acId u) (login_stamp now (acId u) db))"

definition renew :: "auth_host \<Rightarrow> nat \<Rightarrow> string \<Rightarrow> string \<Rightarrow> string \<Rightarrow> string \<Rightarrow> auth_db \<Rightarrow> auth_error + (string \<times> string) \<times> auth_db" where
  "renew h now j1 j2 rowid token db =
     bindE (refresh_check h now token db) (\<lambda>(t, sub).
     bindE (refresh_account sub db) (\<lambda>u.
       issueTokens h now j1 j2 rowid (acId u) (refresh_revoke now (rtId t) db)))"

section \<open>Passwords\<close>

text \<open>The transaction of \<open>changePassword\<close>; the new tokens are issued after it.\<close>

definition changePassword :: "auth_host \<Rightarrow> nat \<Rightarrow> nat \<Rightarrow> string \<Rightarrow> string \<Rightarrow> string \<Rightarrow> string \<Rightarrow> auth_db \<Rightarrow> auth_error + account \<times> auth_db" where
  "changePassword h now salt userId currentPw nextPw email db =
     bindE (assertPasswordRule nextPw) (\<lambda>_.
     bindE (normalizeEmail email) (\<lambda>mail.
       case account_by_id userId db of
         None \<Rightarrow> Inl (Http 401 ''wrong current password'')
       | Some u \<Rightarrow>
           if \<not> bcrypt_ok h currentPw (acHash u) then Inl (Http 401 ''wrong current password'')
           else if bcrypt_ok h nextPw (acHash u) then Inl (Http 400 ''same password'')
           else (let u' = u\<lparr>acHash := bcrypt_hash h salt nextPw, acEmail := Some mail, acMustChange := False,
                        acFailures := 0, acLocked := None, acUpdatedBy := acUsername u, acVersion := acVersion u + 1\<rparr>
                 in Inr (u', revoke_where (live_of userId) now (set_account userId (\<lambda>_. u') db)))))"

datatype reset_outcome =
    Reset_locked
  | Reset_wrong_email nat bool
  | Reset_sent string

definition latest_reset :: "string \<Rightarrow> auth_db \<Rightarrow> nat option" where
  "latest_reset i db = (case filter (\<lambda>q. rqUser q = i) (resets db) of
     [] \<Rightarrow> None | q # qs \<Rightarrow> Some (foldl max (rqCreated q) (map rqCreated qs)))"

definition wrong_email_row :: "nat \<Rightarrow> account \<Rightarrow> account" where
  "wrong_email_row now u = (let failed = min (acFailures u + 1) 10 in
     u\<lparr>acFailures := failed, acLocked := (if failed \<ge> 10 then Some now else None),
       acUpdatedBy := ''password-reset'', acVersion := acVersion u + 1\<rparr>)"

text \<open>The transaction of \<open>requestPasswordReset\<close>.  \<open>candidates\<close> are the passwords the loop draws, until one
  differs from the present password; \<open>mailed\<close> tells whether the mail server takes the message.\<close>

definition reset_tx :: "auth_host \<Rightarrow> nat \<Rightarrow> nat \<Rightarrow> nat \<Rightarrow> string list \<Rightarrow> bool \<Rightarrow> string \<Rightarrow> string \<Rightarrow> string option \<Rightarrow> auth_db \<Rightarrow> auth_error + reset_outcome \<times> auth_db" where
  "reset_tx h now salt1 salt2 candidates mailed name mail ip db =
     (case find (\<lambda>u. acEnabled u \<and> acUsername u = name) (accounts db) of
        None \<Rightarrow> Inl (Http 400 ''account or email unknown'')
      | Some u \<Rightarrow>
          if acLocked u \<noteq> None then Inr (Reset_locked, db)
          else if \<not> email_format mail \<or> js_lower (js_trim (case acEmail u of None \<Rightarrow> [] | Some e \<Rightarrow> e)) \<noteq> mail then
            (let failed = min (acFailures u + 1) 10 in
             Inr (Reset_wrong_email (10 - failed) (failed \<ge> 10), set_account (acId u) (\<lambda>_. wrong_email_row now u) db))
          else if (case latest_reset (acId u) db of None \<Rightarrow> False | Some t \<Rightarrow> t + 60000 > now) then Inl (Http 429 ''too often'')
          else (case find (\<lambda>p. \<not> bcrypt_ok h p (acHash u)) candidates of
              None \<Rightarrow> Inl (Http 500 ''no password drawn'')
            | Some p \<Rightarrow>
                if \<not> mailed then Inl (Http 503 ''mail refused'')
                else (let q = \<lparr>rqUser = acId u, rqHash = bcrypt_hash h salt2 p, rqConsumed = now, rqIp = ip, rqCreated = now\<rparr>;
                          u' = u\<lparr>acHash := bcrypt_hash h salt1 p, acMustChange := True, acFailures := 0, acLocked := None,
                                 acUpdatedBy := ''password-reset'', acVersion := acVersion u + 1\<rparr>
                      in Inr (Reset_sent p, revoke_where (live_of (acId u)) now
                           (set_account (acId u) (\<lambda>_. u') (db\<lparr>resets := resets db @ [q]\<rparr>))))))"

text \<open>\<open>requestPasswordReset\<close>: the answer, and the tables, which are kept also when a wrong address is
  answered with an error.\<close>

definition requestPasswordReset :: "auth_host \<Rightarrow> nat \<Rightarrow> nat \<Rightarrow> nat \<Rightarrow> string list \<Rightarrow> bool \<Rightarrow> string \<Rightarrow> string \<Rightarrow> string option \<Rightarrow> auth_db \<Rightarrow> (auth_error + string) \<times> auth_db" where
  "requestPasswordReset h now salt1 salt2 candidates mailed username email ip db =
     (let name = js_trim username; mail = js_lower (js_trim email) in
      if name = [] then (Inl (Http 400 ''account required''), db)
      else case reset_tx h now salt1 salt2 candidates mailed name mail ip db of
        Inl e \<Rightarrow> (Inl e, db)
      | Inr (Reset_locked, db') \<Rightarrow> (Inl (Http 423 ''locked''), db')
      | Inr (Reset_wrong_email left locked, db') \<Rightarrow>
          (Inl (if locked then Http 423 ''locked'' else Http 400 ''wrong email''), db')
      | Inr (Reset_sent p, db') \<Rightarrow> (Inr (maskEmail mail), db'))"

section \<open>Administration of accounts\<close>

text \<open>System administrators whose accounts are enabled, and whether an account may be disabled:
  \<open>assertCanDisableUser\<close> and \<open>assertCanDisableUsers\<close>.\<close>

definition enabled_admins :: "string \<Rightarrow> auth_db \<Rightarrow> admin_grant list" where
  "enabled_admins tenant db = filter (\<lambda>g. grTenant g = tenant \<and> grSystem g \<and>
     list_ex (\<lambda>u. acId u = grUser g \<and> acEnabled u) (accounts db)) (grants db)"

definition system_grant :: "string \<Rightarrow> string \<Rightarrow> auth_db \<Rightarrow> bool" where
  "system_grant tenant i db = list_ex (\<lambda>g. grTenant g = tenant \<and> grUser g = i \<and> grSystem g) (grants db)"

definition assertCanDisableUser :: "string \<Rightarrow> string \<Rightarrow> auth_db \<Rightarrow> auth_error + unit" where
  "assertCanDisableUser i tenant db =
     (if (case account_by_id i db of None \<Rightarrow> False | Some u \<Rightarrow> isPrimaryAdminUsername (acUsername u)) then Inl (Http 409 ''admin'')
      else if \<not> system_grant tenant i db then Inr ()
      else if length (enabled_admins tenant db) \<le> 1 then Inl (Http 409 ''last administrator'')
      else Inr ())"

definition assertCanDisableUsers :: "string list \<Rightarrow> string \<Rightarrow> auth_db \<Rightarrow> auth_error + unit" where
  "assertCanDisableUsers is tenant db =
     (if is = [] then Inr ()
      else if list_ex (\<lambda>u. acId u \<in> set is \<and> isPrimaryAdminUsername (acUsername u)) (accounts db) then Inl (Http 409 ''admin'')
      else if length (enabled_admins tenant db) < length (filter (\<lambda>g. grUser g \<in> set is) (enabled_admins tenant db)) + 1
        then Inl (Http 409 ''last administrator'')
      else Inr ())"

text \<open>\<open>resetUserPassword\<close> of the administration service.\<close>

definition resetUserPassword :: "auth_host \<Rightarrow> nat \<Rightarrow> bool \<Rightarrow> string \<Rightarrow> string \<Rightarrow> nat option \<Rightarrow> auth_db \<Rightarrow> auth_error + auth_db" where
  "resetUserPassword h salt isSystemAdmin actor i expectedVersion db =
     (if \<not> isSystemAdmin \<or> actor = [] then Inl (Http 403 ''system administrators only'')
      else if expectedVersion = Some 0 then Inl (Http 400 ''expectedVersion'')
      else case find (\<lambda>u. acId u = actor \<and> acTenant u = tenant_code h \<and> acEnabled u) (accounts db) of
        None \<Rightarrow> Inl (Http 403 ''not an active system administrator'')
      | Some operator \<Rightarrow>
      if \<not> system_grant (tenant_code h) actor db then Inl (Http 403 ''not an active system administrator'')
      else case find (\<lambda>u. acId u = i \<and> acTenant u = tenant_code h) (accounts db) of
        None \<Rightarrow> Inl (Http 400 ''no such user'')
      | Some u \<Rightarrow>
          if isPrimaryAdminUsername (acUsername u) then Inl (Http 400 ''admin keeps its password'')
          else if expectedVersion \<noteq> None \<and> expectedVersion \<noteq> Some (acVersion u) then Inl (Http 409 ''changed'')
          else Inr (set_account i (\<lambda>_. u\<lparr>acHash := bcrypt_hash h salt DEFAULT_USER_PASSWORD, acMustChange := True,
                 acFailures := 0, acLocked := None, acUpdatedBy := acUsername operator, acVersion := acVersion u + 1\<rparr>) db))"

text \<open>The body of \<open>PATCH users/:id\<close>; an outer \<open>None\<close> is an absent property, an inner one \<open>null\<close>.\<close>

record user_patch =
  upDisplay :: "string option"
  upDivision :: "string option option"
  upEnabled :: "bool option"
  upPassword :: "string option"
  upAlias :: "string option option"
  upGender :: "string option option"
  upMobile :: "string option option"
  upEmail :: "string option option"
  upEmployeeNo :: "string option option"
  upPosition :: "string option option"
  upPaths :: "string list list option"

definition trimmed_or_null :: "string option \<Rightarrow> string option" where
  "trimmed_or_null v = (case v of None \<Rightarrow> None | Some s \<Rightarrow> if js_trim s = [] then None else Some (js_trim s))"

definition patched_user :: "user_patch \<Rightarrow> account \<Rightarrow> account" where
  "patched_user b u = (let text = (\<lambda>patch old. case patch of None \<Rightarrow> old | Some v \<Rightarrow> trimmed_or_null v) in
     u\<lparr>acDisplay := (case upDisplay b of None \<Rightarrow> acDisplay u | Some s \<Rightarrow> js_trim s),
       acDivision := (case upDivision b of None \<Rightarrow> acDivision u | Some v \<Rightarrow> v),
       acEnabled := (case upEnabled b of None \<Rightarrow> acEnabled u | Some v \<Rightarrow> v),
       acAlias := text (upAlias b) (acAlias u), acGender := text (upGender b) (acGender u),
       acMobile := text (upMobile b) (acMobile u), acEmail := text (upEmail b) (acEmail u),
       acEmployeeNo := text (upEmployeeNo b) (acEmployeeNo u), acPosition := text (upPosition b) (acPosition u),
       acPaths := (case upPaths b of None \<Rightarrow> acPaths u | Some v \<Rightarrow> v)\<rparr>)"

definition new_password :: "user_patch \<Rightarrow> string option" where
  "new_password b = (case upPassword b of Some p \<Rightarrow> if p = [] then None else Some p | None \<Rightarrow> None)"

definition number_taken :: "string option \<Rightarrow> string \<Rightarrow> auth_db \<Rightarrow> bool" where
  "number_taken n i db = (n \<noteq> None \<and> list_ex (\<lambda>u. acEmployeeNo u = n \<and> acId u \<noteq> i) (accounts db))"

text \<open>\<open>updateUser\<close>; the unique index refuses an employee number of somebody else.\<close>

definition updateUser :: "auth_host \<Rightarrow> nat \<Rightarrow> string \<Rightarrow> user_patch \<Rightarrow> auth_db \<Rightarrow> auth_error + auth_db" where
  "updateUser h salt i b db =
     bindE (if upEnabled b = Some False then assertCanDisableUser i (tenant_code h) db else Inr ()) (\<lambda>_.
      case account_by_id i db of
        None \<Rightarrow> Inl (Http 403 ''no such user'')
      | Some u \<Rightarrow>
          if number_taken (acEmployeeNo (patched_user b u)) i db then Inl (Http 500 ''number taken'')
          else (case new_password b of
             Some p \<Rightarrow> if \<not> password_pattern p then Inl (Http 403 ''password rule'')
               else Inr (set_account i (\<lambda>_. (patched_user b u)\<lparr>acHash := bcrypt_hash h salt p, acMustChange := True,
                      acFailures := 0, acLocked := None\<rparr>) db)
           | None \<Rightarrow>
               if upEmail b \<noteq> None then Inr (set_account i (\<lambda>_. (patched_user b u)\<lparr>acFailures := 0, acLocked := None\<rparr>) db)
               else Inr (set_account i (\<lambda>_. patched_user b u) db)))"

text \<open>\<open>POST users/delete\<close>, and the departure of people in the contact synchronisation, which also
  revokes; \<open>gone\<close> are the ids the synchronisation did not find.\<close>

definition disabled_where :: "(account \<Rightarrow> bool) \<Rightarrow> auth_db \<Rightarrow> auth_db" where
  "disabled_where P db = db\<lparr>accounts := map (\<lambda>u. if P u then u\<lparr>acEnabled := False\<rparr> else u) (accounts db)\<rparr>"

definition deleteUsers :: "auth_host \<Rightarrow> string list \<Rightarrow> auth_db \<Rightarrow> auth_error + auth_db" where
  "deleteUsers h is db = bindE (assertCanDisableUsers (js_dedup is) (tenant_code h) db) (\<lambda>_.
     if is = [] then Inl (Http 500 ''empty criteria'') else Inr (disabled_where (\<lambda>u. acId u \<in> set is) db))"

definition departing :: "string list \<Rightarrow> account \<Rightarrow> bool" where
  "departing gone u = (acEnabled u \<and> \<not> isPrimaryAdminUsername (acUsername u) \<and> acId u \<in> set gone)"

definition depart :: "nat \<Rightarrow> string list \<Rightarrow> auth_db \<Rightarrow> auth_db" where
  "depart now gone db =
     (let left = map acId (filter (departing gone) (accounts db))
      in revoke_where (\<lambda>t. rtUser t \<in> set left \<and> rtRevoked t = None) now (disabled_where (departing gone) db))"

definition username_format :: "string \<Rightarrow> bool" where
  "username_format s = (3 \<le> length s \<and> length s \<le> 64 \<and>
     list_all (\<lambda>c. ascii_alpha c \<or> ascii_digit c \<or> c \<in> set ''_.-'') s)"

record new_user =
  nuUsername :: string
  nuDisplay :: string
  nuPassword :: "string option"
  nuDivision :: "string option"
  nuAlias :: "string option"
  nuGender :: "string option"
  nuMobile :: "string option"
  nuEmail :: "string option"
  nuEmployeeNo :: "string option"
  nuPosition :: "string option"
  nuPaths :: "string list list option"

text \<open>\<open>POST users\<close>; the database refuses a taken username or employee number, and numbers the new id.\<close>

definition createUser :: "auth_host \<Rightarrow> nat \<Rightarrow> string \<Rightarrow> new_user \<Rightarrow> auth_db \<Rightarrow> auth_error + auth_db" where
  "createUser h salt i b db =
     (let p = (case nuPassword b of None \<Rightarrow> DEFAULT_USER_PASSWORD | Some s \<Rightarrow> if s = [] then DEFAULT_USER_PASSWORD else s);
          number = trimmed_or_null (nuEmployeeNo b)
      in if \<not> username_format (nuUsername b) \<or> \<not> password_pattern p then Inl (Http 403 ''username or password rule'')
         else if isPrimaryAdminUsername (nuUsername b) \<and> p = DEFAULT_USER_PASSWORD then Inl (Http 403 ''admin needs a password'')
         else if nuUsername b \<in> acUsername ` set (accounts db) then Inl (Http 500 ''username taken'')
         else if number_taken number i db then Inl (Http 500 ''number taken'')
         else if i \<in> acId ` set (accounts db) then Inl (Http 500 ''id taken'')
         else Inr (db\<lparr>accounts := accounts db @ [\<lparr>acId = i, acTenant = ''KAINAN'', acUsername = nuUsername b,
              acDisplay = js_trim (nuDisplay b), acHash = bcrypt_hash h salt p, acEnabled = True,
              acDivision = (case nuDivision b of None \<Rightarrow> None | Some s \<Rightarrow> if s = [] then None else Some s),
              acEmployeeNo = number, acPosition = trimmed_or_null (nuPosition b), acAlias = trimmed_or_null (nuAlias b),
              acGender = trimmed_or_null (nuGender b), acMobile = trimmed_or_null (nuMobile b),
              acEmail = trimmed_or_null (nuEmail b), acPaths = (case nuPaths b of None \<Rightarrow> [] | Some v \<Rightarrow> v),
              acModuleOrder = [], acMustChange = True, acLastLogin = None, acFailures = 0, acLocked = None,
              acUpdatedBy = ''system'', acVersion = 1\<rparr>]\<rparr>))"

section \<open>Preferences\<close>

definition PORTAL_MODULE_IDS :: "string list" where
  "PORTAL_MODULE_IDS = [''cockpit'', ''project-task'', ''planning'', ''data'', ''finance'', ''marketing'', ''hr'',
     ''workflow'', ''rd'', ''knowledge'', ''system'', ''profile'']"

definition updatePortalModuleOrder :: "string \<Rightarrow> json \<Rightarrow> auth_db \<Rightarrow> auth_error + string list \<times> auth_db" where
  "updatePortalModuleOrder userId requested db = (case requested of
     JArr vs \<Rightarrow>
       if \<not> list_all (\<lambda>v. case v of JStr s \<Rightarrow> s \<in> set PORTAL_MODULE_IDS | _ \<Rightarrow> False) vs then Inl (Http 400 ''unknown module'')
       else (let unique = js_dedup (map (\<lambda>v. case v of JStr s \<Rightarrow> s | _ \<Rightarrow> []) vs);
                 normalized = unique @ filter (\<lambda>i. i \<notin> set unique) PORTAL_MODULE_IDS
             in case account_by_id userId db of
                  None \<Rightarrow> Inl (Http 401 ''account disabled'')
                | Some u \<Rightarrow> if \<not> acEnabled u then Inl (Http 401 ''account disabled'')
                    else Inr (normalized, set_account userId (\<lambda>_. u\<lparr>acModuleOrder := normalized,
                           acUpdatedBy := acUsername u, acVersion := acVersion u + 1\<rparr>) db))
   | _ \<Rightarrow> Inl (Http 400 ''not a list''))"

end
