(* ===== verification/AccountSystem.thy ===== *)
theory AccountSystem
  imports Accounts
begin

text \<open>
  Accounts under concurrent requests.  A login is three statements and a renewal four; the state keeps the requests
  between two of their statements (\<open>procs\<close>), and every step is one statement of one request, or one
  transaction.  A request may also be dropped (an error, a restart).
\<close>

datatype proc =
    Login_checked string
  | Refresh_checked refresh_token string
  | Refresh_allowed refresh_token string
  | Issuing string

record auth_sys =
  sys_db :: auth_db
  procs :: "proc list"

inductive auth_next :: "auth_host \<Rightarrow> auth_sys \<Rightarrow> auth_sys \<Rightarrow> bool" for h where
  login_reads: "login_check h username password (sys_db s) = Inr u \<Longrightarrow>
     auth_next h s (s\<lparr>procs := Login_checked (acId u) # procs s\<rparr>)"
| login_writes: "Login_checked i \<in> set (procs s) \<Longrightarrow>
     auth_next h s (s\<lparr>sys_db := login_stamp now i (sys_db s), procs := Issuing i # remove1 (Login_checked i) (procs s)\<rparr>)"
| refresh_reads: "refresh_check h now token (sys_db s) = Inr (t, sub) \<Longrightarrow>
     auth_next h s (s\<lparr>procs := Refresh_checked t sub # procs s\<rparr>)"
| refresh_reads_account: "Refresh_checked t sub \<in> set (procs s) \<Longrightarrow> refresh_account sub (sys_db s) = Inr u \<Longrightarrow>
     auth_next h s (s\<lparr>procs := Refresh_allowed t (acId u) # remove1 (Refresh_checked t sub) (procs s)\<rparr>)"
| refresh_writes: "Refresh_allowed t i \<in> set (procs s) \<Longrightarrow>
     auth_next h s (s\<lparr>sys_db := refresh_revoke now (rtId t) (sys_db s), procs := Issuing i # remove1 (Refresh_allowed t i) (procs s)\<rparr>)"
| issues: "Issuing i \<in> set (procs s) \<Longrightarrow> issueTokens h now j1 j2 rowid i (sys_db s) = Inr (answer, db') \<Longrightarrow>
     auth_next h s (s\<lparr>sys_db := db', procs := remove1 (Issuing i) (procs s)\<rparr>)"
| dropped: "auth_next h s (s\<lparr>procs := remove1 p (procs s)\<rparr>)"
| logged_out: "auth_next h s (s\<lparr>sys_db := logout h now token (sys_db s)\<rparr>)"
| password_changed: "changePassword h now salt userId currentPw nextPw email (sys_db s) = Inr (u, db') \<Longrightarrow>
     auth_next h s (s\<lparr>sys_db := db', procs := Issuing (acId u) # procs s\<rparr>)"
| reset_requested: "requestPasswordReset h now salt1 salt2 candidates mailed username email ip (sys_db s) = (answer, db') \<Longrightarrow>
     auth_next h s (s\<lparr>sys_db := db'\<rparr>)"
| reset_by_admin: "resetUserPassword h salt flag actor i expected (sys_db s) = Inr db' \<Longrightarrow> auth_next h s (s\<lparr>sys_db := db'\<rparr>)"
| user_updated: "updateUser h salt i b (sys_db s) = Inr db' \<Longrightarrow> auth_next h s (s\<lparr>sys_db := db'\<rparr>)"
| users_deleted: "deleteUsers h is (sys_db s) = Inr db' \<Longrightarrow> auth_next h s (s\<lparr>sys_db := db'\<rparr>)"
| departed: "auth_next h s (s\<lparr>sys_db := depart now gone (sys_db s)\<rparr>)"
| user_created: "createUser h salt i b (sys_db s) = Inr db' \<Longrightarrow> auth_next h s (s\<lparr>sys_db := db'\<rparr>)"
| modules_ordered: "updatePortalModuleOrder userId order (sys_db s) = Inr (normalized, db') \<Longrightarrow> auth_next h s (s\<lparr>sys_db := db'\<rparr>)"

inductive auth_reach :: "auth_host \<Rightarrow> auth_sys \<Rightarrow> bool" for h where
  empty: "auth_reach h \<lparr>sys_db = \<lparr>accounts = [], tokens = [], resets = [], grants = gs\<rparr>, procs = []\<rparr>"
| more: "auth_reach h s \<Longrightarrow> auth_next h s s' \<Longrightarrow> auth_reach h s'"

section \<open>What every statement keeps\<close>

text \<open>Ten wrong addresses lock the recovery, and nothing else does.\<close>

definition recovery_ok :: "account \<Rightarrow> bool" where
  "recovery_ok u = (acFailures u \<le> 10 \<and> (acLocked u \<noteq> None \<longleftrightarrow> acFailures u = 10))"

definition auth_inv :: "auth_db \<Rightarrow> bool" where
  "auth_inv db = (distinct (map acId (accounts db)) \<and> distinct (map acUsername (accounts db)) \<and>
     distinct (map rtHash (tokens db)) \<and> list_all recovery_ok (accounts db))"

definition still_revoked :: "auth_db \<Rightarrow> auth_db \<Rightarrow> bool" where
  "still_revoked db db' = (\<forall>r \<in> set (tokens db). \<exists>r' \<in> set (tokens db').
     rtHash r' = rtHash r \<and> rtUser r' = rtUser r \<and> (rtRevoked r \<noteq> None \<longrightarrow> rtRevoked r' \<noteq> None))"

definition auth_keeps :: "auth_db \<Rightarrow> auth_db \<Rightarrow> bool" where
  "auth_keeps db db' = ((auth_inv db \<longrightarrow> auth_inv db') \<and> still_revoked db db')"

lemma still_revoked_refl [intro]: "still_revoked db db"
  by (auto simp: still_revoked_def)

lemma still_revoked_same: "tokens db' = tokens db \<Longrightarrow> still_revoked db db'"
  by (auto simp: still_revoked_def)

lemma still_revoked_trans: "still_revoked a b \<Longrightarrow> still_revoked b c \<Longrightarrow> still_revoked a c"
  unfolding still_revoked_def by fastforce

lemma auth_keeps_refl [intro]: "auth_keeps db db"
  by (auto simp: auth_keeps_def)

lemma auth_keeps_trans: "auth_keeps a b \<Longrightarrow> auth_keeps b c \<Longrightarrow> auth_keeps a c"
  using still_revoked_trans by (auto simp: auth_keeps_def)

lemma set_account_tables [simp]:
  "tokens (set_account i f db) = tokens db" "resets (set_account i f db) = resets db" "grants (set_account i f db) = grants db"
  by (simp_all add: set_account_def)

lemma revoke_row_simps [simp]:
  "rtId (revoke_row P now t) = rtId t" "rtHash (revoke_row P now t) = rtHash t" "rtUser (revoke_row P now t) = rtUser t"
  "rtExpires (revoke_row P now t) = rtExpires t"
  "rtRevoked (revoke_row P now t) = (if P t then Some now else rtRevoked t)"
  by (simp_all add: revoke_row_def)

lemma revoke_where_tables [simp]:
  "accounts (revoke_where P now db) = accounts db" "resets (revoke_where P now db) = resets db"
  "grants (revoke_where P now db) = grants db" "tokens (revoke_where P now db) = map (revoke_row P now) (tokens db)"
  by (simp_all add: revoke_where_def)

lemma set_account_keeps:
  assumes "\<And>u. u \<in> set (accounts db) \<Longrightarrow> acId u = i \<Longrightarrow>
    acId (f u) = i \<and> acUsername (f u) = acUsername u \<and> (recovery_ok u \<longrightarrow> recovery_ok (f u))"
  shows "auth_keeps db (set_account i f db)"
proof -
  have "map acId (map (\<lambda>u. if acId u = i then f u else u) (accounts db)) = map acId (accounts db)"
    and "map acUsername (map (\<lambda>u. if acId u = i then f u else u) (accounts db)) = map acUsername (accounts db)"
    using assms by (auto simp: map_eq_conv)
  moreover have "list_all recovery_ok (accounts db) \<Longrightarrow> list_all recovery_ok (map (\<lambda>u. if acId u = i then f u else u) (accounts db))"
    using assms by (auto simp: list_all_iff)
  ultimately show ?thesis
    by (auto simp: auth_keeps_def auth_inv_def set_account_def intro: still_revoked_same simp del: map_map)
qed

lemma revoke_where_keeps: "auth_keeps db (revoke_where P now db)"
  by (auto simp: auth_keeps_def auth_inv_def still_revoked_def comp_def)

lemma disabled_where_keeps: "auth_keeps db (disabled_where P db)"
proof -
  have "map acId (map (\<lambda>u. if P u then u\<lparr>acEnabled := False\<rparr> else u) (accounts db)) = map acId (accounts db)"
    and "map acUsername (map (\<lambda>u. if P u then u\<lparr>acEnabled := False\<rparr> else u) (accounts db)) = map acUsername (accounts db)"
    by (auto simp: map_eq_conv)
  then show ?thesis
    by (auto simp: auth_keeps_def auth_inv_def disabled_where_def list_all_iff recovery_ok_def
        intro: still_revoked_same simp del: map_map)
qed

lemma tokens_untouched_keeps:
  "tokens db' = tokens db \<Longrightarrow> accounts db' = accounts db \<Longrightarrow> auth_keeps db db'"
  by (auto simp: auth_keeps_def auth_inv_def still_revoked_same)

lemma issueTokens_keeps: "issueTokens h now j1 j2 rowid i db = Inr (answer, db') \<Longrightarrow> auth_keeps db db'"
  by (auto simp: issueTokens_def Let_def auth_keeps_def auth_inv_def still_revoked_def split: if_splits)

lemma account_by_id_Some: "account_by_id i db = Some u \<Longrightarrow> u \<in> set (accounts db) \<and> acId u = i"
  by (auto simp: account_by_id_def dest: find_Some_mem)

lemma same_account: "auth_inv db \<Longrightarrow> u \<in> set (accounts db) \<Longrightarrow> v \<in> set (accounts db) \<Longrightarrow> acId u = acId v \<Longrightarrow> u = v"
  by (simp add: auth_inv_def distinct_map inj_on_def)

text \<open>Writing back one row that was read.\<close>

lemma write_row_keeps:
  assumes "u \<in> set (accounts db)" "acId u' = acId u" "acUsername u' = acUsername u" "recovery_ok u \<Longrightarrow> recovery_ok u'"
  shows "auth_keeps db (set_account (acId u) (\<lambda>_. u') db)"
proof (cases "auth_inv db")
  case True
  then show ?thesis using same_account [OF True] assms by (intro set_account_keeps) (metis)
next
  case False
  then show ?thesis by (simp add: auth_keeps_def still_revoked_same)
qed

lemma recovery_reset: "acFailures u = 0 \<Longrightarrow> acLocked u = None \<Longrightarrow> recovery_ok u"
  by (simp add: recovery_ok_def)

lemma wrong_email_ok: "recovery_ok (wrong_email_row now u)"
  by (auto simp: recovery_ok_def wrong_email_row_def Let_def)

lemma wrong_email_simps [simp]:
  "acId (wrong_email_row now u) = acId u" "acUsername (wrong_email_row now u) = acUsername u"
  "acHash (wrong_email_row now u) = acHash u" "acEmail (wrong_email_row now u) = acEmail u"
  "acEnabled (wrong_email_row now u) = acEnabled u" "acFailures (wrong_email_row now u) = min (acFailures u + 1) 10"
  by (simp_all add: wrong_email_row_def Let_def)

lemma written_back:
  assumes "u \<in> set (accounts db)" "acId u = i" "db' = set_account i (\<lambda>_. u') db"
    and "acId u' = acId u" "acUsername u' = acUsername u" "recovery_ok u \<longrightarrow> recovery_ok u'"
  shows "auth_keeps db db'"
  using write_row_keeps [of u db u'] assms by simp

lemma changePassword_keeps:
  assumes "changePassword h now salt i p q e db = Inr (u, db')"
  shows "auth_keeps db db'"
proof -
  obtain v u' where v: "account_by_id i db = Some v" and db': "db' = revoke_where (live_of i) now (set_account i (\<lambda>_. u') db)"
    and u': "acId u' = acId v" "acUsername u' = acUsername v" "acFailures u' = 0" "acLocked u' = None"
    using assms by (auto simp: changePassword_def Let_def err_simps split: option.splits if_splits)
  have "auth_keeps db (set_account (acId v) (\<lambda>_. u') db)"
    using account_by_id_Some [OF v] u' by (intro write_row_keeps) (auto simp: recovery_reset)
  then show ?thesis using account_by_id_Some [OF v] revoke_where_keeps auth_keeps_trans by (metis db')
qed

lemma changePassword_id: "changePassword h now salt i p q e db = Inr (u, db') \<Longrightarrow> acId u = i"
  by (auto simp: changePassword_def Let_def err_simps dest!: account_by_id_Some split: option.splits if_splits)

text \<open>What a recovery transaction leaves: nothing, a counted wrong address, or a new password.\<close>

lemma reset_tx_cases:
  assumes "reset_tx h now s1 s2 cs mailed name mail ip db = Inr (out, db')"
  obtains (locked) "db' = db"
  | (wrong) u where "find (\<lambda>u. acEnabled u \<and> acUsername u = name) (accounts db) = Some u"
      "db' = set_account (acId u) (\<lambda>_. wrong_email_row now u) db"
  | (sent) u u' q where "find (\<lambda>u. acEnabled u \<and> acUsername u = name) (accounts db) = Some u"
      "db' = revoke_where (live_of (acId u)) now (set_account (acId u) (\<lambda>_. u') (db\<lparr>resets := resets db @ [q]\<rparr>))"
      "acId u' = acId u" "acUsername u' = acUsername u" "acFailures u' = 0" "acLocked u' = None"
proof -
  obtain u where u: "find (\<lambda>u. acEnabled u \<and> acUsername u = name) (accounts db) = Some u"
    using assms by (auto simp: reset_tx_def split: option.splits)
  consider "db' = db" | "db' = set_account (acId u) (\<lambda>_. wrong_email_row now u) db"
    | u' q where "db' = revoke_where (live_of (acId u)) now (set_account (acId u) (\<lambda>_. u') (db\<lparr>resets := resets db @ [q]\<rparr>))"
      "acId u' = acId u" "acUsername u' = acUsername u" "acFailures u' = 0" "acLocked u' = None"
    using assms u by (auto simp: reset_tx_def Let_def split: option.splits if_splits)
  then show thesis using that u by cases blast+
qed

lemma reset_tx_keeps:
  assumes "reset_tx h now s1 s2 cs mailed name mail ip db = Inr (out, db')"
  shows "auth_keeps db db'"
  using assms
proof (cases rule: reset_tx_cases)
  case locked
  then show ?thesis by blast
next
  case (wrong u)
  have mem: "u \<in> set (accounts db)" using find_Some_mem [OF wrong(1)] by simp
  show ?thesis by (rule written_back [OF mem refl wrong(2)]) (simp_all add: wrong_email_ok)
next
  case (sent u u' q)
  have mem: "u \<in> set (accounts db)" using find_Some_mem [OF sent(1)] by simp
  have "auth_keeps db (db\<lparr>resets := resets db @ [q]\<rparr>)" by (rule tokens_untouched_keeps) simp_all
  moreover have "auth_keeps (db\<lparr>resets := resets db @ [q]\<rparr>) (set_account (acId u) (\<lambda>_. u') (db\<lparr>resets := resets db @ [q]\<rparr>))"
    using mem sent by (intro write_row_keeps) (auto simp: recovery_reset)
  ultimately show ?thesis unfolding sent(2) using auth_keeps_trans revoke_where_keeps by blast
qed

lemma request_is_tx:
  assumes "requestPasswordReset h now s1 s2 cs mailed name mail ip db = (answer, db')"
  shows "db' = db \<or> (\<exists>out. reset_tx h now s1 s2 cs mailed (js_trim name) (js_lower (js_trim mail)) ip db = Inr (out, db'))"
  using assms by (auto simp: requestPasswordReset_def Let_def split: if_splits sum.splits reset_outcome.splits)

lemma requestPasswordReset_keeps:
  assumes "requestPasswordReset h now s1 s2 cs mailed name mail ip db = (answer, db')"
  shows "auth_keeps db db'"
  using request_is_tx [OF assms] reset_tx_keeps by blast

lemma resetUserPassword_keeps:
  assumes "resetUserPassword h salt flag actor i e db = Inr db'"
  shows "auth_keeps db db'"
proof -
  obtain u op where u: "find (\<lambda>u. acId u = i \<and> acTenant u = tenant_code h) (accounts db) = Some u"
    and db': "db' = set_account i (\<lambda>_. u\<lparr>acHash := bcrypt_hash h salt DEFAULT_USER_PASSWORD, acMustChange := True,
       acFailures := 0, acLocked := None, acUpdatedBy := op, acVersion := acVersion u + 1\<rparr>) db"
    using assms by (auto simp: resetUserPassword_def split: option.splits if_splits)
  from u have "u \<in> set (accounts db)" "acId u = i" using find_Some_mem by fastforce+
  then show ?thesis using db' by (rule written_back) (simp_all add: recovery_reset)
qed

lemma patched_user_simps [simp]:
  "acId (patched_user b u) = acId u" "acUsername (patched_user b u) = acUsername u"
  "acFailures (patched_user b u) = acFailures u" "acLocked (patched_user b u) = acLocked u" "acHash (patched_user b u) = acHash u"
  by (simp_all add: patched_user_def Let_def)

lemma updateUser_keeps:
  assumes "updateUser h salt i b db = Inr db'"
  shows "auth_keeps db db'"
proof -
  obtain u u' where u: "account_by_id i db = Some u"
    and u': "db' = set_account i (\<lambda>_. u') db" "acId u' = acId u" "acUsername u' = acUsername u"
      "recovery_ok u \<longrightarrow> recovery_ok u'"
    using assms by (auto simp: updateUser_def err_simps recovery_ok_def split: option.splits if_splits)
  then show ?thesis using written_back account_by_id_Some [OF u] by blast
qed

lemma createUser_keeps: "createUser h salt i b db = Inr db' \<Longrightarrow> auth_keeps db db'"
  by (auto simp: createUser_def Let_def auth_keeps_def auth_inv_def recovery_ok_def still_revoked_same split: if_splits)

lemma updatePortalModuleOrder_keeps:
  assumes "updatePortalModuleOrder i v db = Inr (n, db')"
  shows "auth_keeps db db'"
proof -
  obtain u u' where u: "account_by_id i db = Some u"
    and u': "db' = set_account i (\<lambda>_. u') db" "acId u' = acId u" "acUsername u' = acUsername u"
      "recovery_ok u \<longrightarrow> recovery_ok u'"
    using assms by (auto simp: updatePortalModuleOrder_def Let_def recovery_ok_def split: json.splits option.splits if_splits)
  then show ?thesis using written_back account_by_id_Some [OF u] by blast
qed

lemma auth_next_keeps:
  assumes "auth_next h s s'"
  shows "auth_keeps (sys_db s) (sys_db s')"
  using assms
proof cases
  case (login_writes i now)
  then show ?thesis by (auto simp: login_stamp_def recovery_ok_def intro!: set_account_keeps)
next
  case (departed now gone)
  then show ?thesis by (auto simp: depart_def Let_def intro: auth_keeps_trans [OF disabled_where_keeps revoke_where_keeps])
qed (auto simp: refresh_revoke_def logout_def deleteUsers_def err_simps split: if_splits
    intro: issueTokens_keeps revoke_where_keeps changePassword_keeps requestPasswordReset_keeps resetUserPassword_keeps
      updateUser_keeps createUser_keeps updatePortalModuleOrder_keeps disabled_where_keeps)

lemma auth_reach_inv: "auth_reach h s \<Longrightarrow> auth_inv (sys_db s)"
proof (induction rule: auth_reach.induct)
  case (empty gs)
  then show ?case by (simp add: auth_inv_def)
next
  case (more s s')
  then show ?case using auth_next_keeps by (auto simp: auth_keeps_def)
qed

lemma auth_path_keeps: "(auth_next h)\<^sup>*\<^sup>* s s' \<Longrightarrow> auth_keeps (sys_db s) (sys_db s')"
proof (induction rule: rtranclp_induct)
  case base
  then show ?case by blast
next
  case (step y z)
  then show ?case using auth_next_keeps auth_keeps_trans by blast
qed

section \<open>A revoked token stays revoked\<close>

lemma hash_row:
  assumes "distinct (map rtHash ts)" "r \<in> set ts"
  shows "find (\<lambda>t. rtHash t = rtHash r) ts = Some r"
  using assms by (induction ts) (auto simp: rev_image_eqI)

lemma revoked_refused:
  assumes "auth_inv db" "r \<in> set (tokens db)" "rtRevoked r \<noteq> None" "digest h token = rtHash r"
  shows "\<not> isOk (refresh_check h now token db)"
proof -
  have "find (\<lambda>t. rtHash t = digest h token) (tokens db) = Some r"
    using hash_row [of "tokens db" r] assms by (simp add: auth_inv_def)
  then show ?thesis using assms(3) by (auto simp: refresh_check_def split: option.splits)
qed

lemma revoked_for_good:
  assumes "auth_inv db" "auth_keeps db db'" "r \<in> set (tokens db)" "rtRevoked r \<noteq> None" "digest h token = rtHash r"
  shows "\<not> isOk (refresh_check h now token db')"
proof -
  obtain r' where "r' \<in> set (tokens db')" "rtHash r' = rtHash r" "rtRevoked r' \<noteq> None"
    using assms by (auto simp: auth_keeps_def still_revoked_def)
  then show ?thesis using assms revoked_refused by (simp add: auth_keeps_def)
qed

text \<open>What ends the sessions of a person: a changed password, a mailed password, a departure.\<close>

definition ends_sessions :: "auth_host \<Rightarrow> string \<Rightarrow> auth_db \<Rightarrow> auth_db \<Rightarrow> bool" where
  "ends_sessions h i db db' =
     ((\<exists>now salt p q e u. changePassword h now salt i p q e db = Inr (u, db')) \<or>
      (\<exists>now s1 s2 cs m name mail ip answer. requestPasswordReset h now s1 s2 cs m name mail ip db = (Inr answer, db') \<and>
         (\<exists>u \<in> set (accounts db). acId u = i \<and> acUsername u = js_trim name)) \<or>
      (\<exists>now gone. db' = depart now gone db \<and> (\<exists>u \<in> set (accounts db). acId u = i \<and> departing gone u)))"

lemma reset_revokes:
  assumes "requestPasswordReset h now s1 s2 cs m name mail ip db = (Inr answer, db')" "auth_inv db"
    and "u \<in> set (accounts db)" "acUsername u = js_trim name"
  shows "tokens db' = map (revoke_row (live_of (acId u)) now) (tokens db)"
proof -
  have same: "v = u" if "find (\<lambda>u. acEnabled u \<and> acUsername u = js_trim name) (accounts db) = Some v" for v
    using find_Some_mem [OF that] assms(2-4) by (auto simp: auth_inv_def distinct_map inj_on_def)
  show ?thesis using assms(1) same
    by (auto simp: requestPasswordReset_def reset_tx_def Let_def split: if_splits sum.splits reset_outcome.splits option.splits)
qed

lemma ended_rows:
  assumes "ends_sessions h i db db'" "auth_inv db" "r \<in> set (tokens db)" "rtUser r = i"
  shows "\<exists>r' \<in> set (tokens db'). rtHash r' = rtHash r \<and> rtRevoked r' \<noteq> None"
proof -
  have here: ?thesis if "tokens db' = map (revoke_row P now) (tokens db)" "rtRevoked r = None \<Longrightarrow> P r" for P now
    using that assms(3) by (cases "rtRevoked r") (force)+
  from assms(1) consider (changed) now salt p q e u where "changePassword h now salt i p q e db = Inr (u, db')"
    | (mailed) now s1 s2 cs m name mail ip answer u where "requestPasswordReset h now s1 s2 cs m name mail ip db = (Inr answer, db')"
        "u \<in> set (accounts db)" "acId u = i" "acUsername u = js_trim name"
    | (left) now gone u where "db' = depart now gone db" "u \<in> set (accounts db)" "acId u = i" "departing gone u"
    unfolding ends_sessions_def by blast
  then show ?thesis
  proof cases
    case changed
    then have "tokens db' = map (revoke_row (live_of i) now) (tokens db)"
      by (auto simp: changePassword_def Let_def err_simps split: option.splits if_splits)
    then show ?thesis by (rule here) (use assms(4) in \<open>simp add: live_of_def\<close>)
  next
    case mailed
    then have "tokens db' = map (revoke_row (live_of i) now) (tokens db)" using reset_revokes assms(2) by blast
    then show ?thesis by (rule here) (use assms(4) in \<open>simp add: live_of_def\<close>)
  next
    case left
    then have "tokens db' = map (revoke_row (\<lambda>t. rtUser t \<in> set (map acId (filter (departing gone) (accounts db))) \<and> rtRevoked t = None) now) (tokens db)"
      by (simp add: depart_def Let_def disabled_where_def)
    then show ?thesis by (rule here) (use assms(4) left in \<open>auto simp: image_iff intro!: bexI [of _ u]\<close>)
  qed
qed


end
