(* ===== verification/AccountRecovery.thy ===== *)
theory AccountRecovery
  imports AccountSystem "HOL-Library.Multiset"
begin

text \<open>
  Password recovery: how many addresses can be tried, what the mailed password looks like, and how the two
  statements of a renewal can be overtaken.
\<close>

section \<open>Trying addresses\<close>

record attempt =
  atNow :: nat
  atSalt1 :: nat
  atSalt2 :: nat
  atCandidates :: "string list"
  atMailed :: bool
  atName :: string
  atEmail :: string
  atIp :: "string option"

definition attempt_once :: "auth_host \<Rightarrow> attempt \<Rightarrow> auth_db \<Rightarrow> (auth_error + string) \<times> auth_db" where
  "attempt_once h a db = requestPasswordReset h (atNow a) (atSalt1 a) (atSalt2 a) (atCandidates a) (atMailed a) (atName a) (atEmail a) (atIp a) db"

fun attempts :: "auth_host \<Rightarrow> attempt list \<Rightarrow> auth_db \<Rightarrow> (auth_error + string) list \<times> auth_db" where
  "attempts h [] db = ([], db)"
| "attempts h (a # as) db =
     (let (answer, db1) = attempt_once h a db; (answers, db2) = attempts h as db1 in (answer # answers, db2))"

definition names :: "account \<Rightarrow> attempt \<Rightarrow> bool" where
  "names u a = (js_trim (atName a) = acUsername u)"

definition recorded_email :: "account \<Rightarrow> string" where
  "recorded_email u = js_lower (js_trim (case acEmail u of None \<Rightarrow> [] | Some e \<Rightarrow> e))"

definition guesses_wrong :: "account \<Rightarrow> attempt \<Rightarrow> bool" where
  "guesses_wrong u a = (\<not> email_format (js_lower (js_trim (atEmail a))) \<or> js_lower (js_trim (atEmail a)) \<noteq> recorded_email u)"

text \<open>What an attempt leaves of an account and its tokens.\<close>

definition account_untouched :: "account \<Rightarrow> auth_db \<Rightarrow> auth_db \<Rightarrow> bool" where
  "account_untouched u db db' = ((\<exists>v. account_by_id (acId u) db' = Some v \<and> acHash v = acHash u \<and> acUsername v = acUsername u \<and>
      acEmail v = acEmail u \<and> acEnabled v = acEnabled u) \<and>
    filter (\<lambda>t. rtUser t = acId u) (tokens db') = filter (\<lambda>t. rtUser t = acId u) (tokens db))"

lemma find_map_upd:
  "find (\<lambda>u. acId u = i) (map (\<lambda>u. if acId u = j then f u else u) us) =
     (if i = j then map_option f (find (\<lambda>u. acId u = i) us) else find (\<lambda>u. acId u = i) us)"
  if "\<And>u. acId u = j \<Longrightarrow> acId (f u) = j"
  using that by (induction us) auto

lemma account_by_id_set:
  "(\<And>u. acId u = j \<Longrightarrow> acId (f u) = j) \<Longrightarrow> account_by_id i (set_account j f db) =
     (if i = j then map_option f (account_by_id i db) else account_by_id i db)"
  by (simp add: account_by_id_def set_account_def find_map_upd)

lemma account_by_id_const:
  "acId u' = j \<Longrightarrow> account_by_id i (set_account j (\<lambda>_. u') db) =
     (if i = j then map_option (\<lambda>_. u') (account_by_id i db) else account_by_id i db)"
  by (simp add: account_by_id_set)

lemma account_by_id_frame [simp]:
  "account_by_id i (revoke_where P now db) = account_by_id i db"
  "account_by_id i (db\<lparr>resets := qs\<rparr>) = account_by_id i db"
  by (simp_all add: account_by_id_def)

lemma found_by_name:
  assumes "auth_inv db" "account_by_id i db = Some u" "acUsername u = name"
  shows "find (\<lambda>u. acEnabled u \<and> acUsername u = name) (accounts db) = (if acEnabled u then Some u else None)"
proof -
  have mem: "u \<in> set (accounts db)" using account_by_id_Some [OF assms(2)] by simp
  have inj: "inj_on acUsername (set (accounts db))" using assms(1) by (simp add: auth_inv_def distinct_map)
  have only: "v = u" if "v \<in> set (accounts db)" "acUsername v = name" for v
    using inj_onD [OF inj] that mem assms(3) by blast
  show ?thesis
  proof (cases "find (\<lambda>u. acEnabled u \<and> acUsername u = name) (accounts db)")
    case None
    then show ?thesis using mem assms(3) by (auto simp: find_None_iff)
  next
    case (Some v)
    then show ?thesis using only find_Some_mem [OF Some] by auto
  qed
qed

lemma other_rows_kept:
  "i \<noteq> j \<Longrightarrow> filter (\<lambda>t. rtUser t = i) (map (revoke_row (live_of j) now) ts) = filter (\<lambda>t. rtUser t = i) ts"
  by (induction ts) (auto simp: revoke_row_def live_of_def)

text \<open>An attempt at another account.\<close>

lemma attempt_elsewhere:
  assumes "auth_inv db" "account_by_id i db = Some u" "\<not> names u a" "attempt_once h a db = (answer, db')"
  shows "account_by_id i db' = Some u \<and> account_untouched u db db'"
proof -
  have iu: "acId u = i" using account_by_id_Some [OF assms(2)] by simp
  have off: "acId v \<noteq> i" if "find (\<lambda>u. acEnabled u \<and> acUsername u = js_trim (atName a)) (accounts db) = Some v" for v
    using find_Some_mem [OF that] same_account [OF assms(1)] account_by_id_Some [OF assms(2)] assms(3)
    by (metis names_def)
  from request_is_tx [OF assms(4) [unfolded attempt_once_def]] consider "db' = db"
    | out where "reset_tx h (atNow a) (atSalt1 a) (atSalt2 a) (atCandidates a) (atMailed a) (js_trim (atName a)) (js_lower (js_trim (atEmail a))) (atIp a) db = Inr (out, db')"
    by blast
  then show ?thesis
  proof cases
    case 1
    then show ?thesis using assms(2) iu by (simp add: account_untouched_def)
  next
    case 2
    then show ?thesis
    proof (cases rule: reset_tx_cases)
      case locked
      then show ?thesis using assms(2) iu by (simp add: account_untouched_def)
    next
      case (wrong v)
      then show ?thesis using off [OF wrong(1)] assms(2) iu by (simp add: account_untouched_def account_by_id_const)
    next
      case (sent v v' q)
      then show ?thesis using off [OF sent(1)] assms(2) iu by (simp add: account_untouched_def account_by_id_const other_rows_kept)
    qed
  qed
qed

lemma attempt_locked:
  assumes "auth_inv db" "account_by_id i db = Some u" "acLocked u \<noteq> None" "attempt_once h a db = (answer, db')"
  shows "account_by_id i db' = Some u \<and> account_untouched u db db'"
proof (cases "names u a")
  case True
  have "db' = db" using assms(3,4) found_by_name [OF assms(1,2)] True
    by (auto simp: attempt_once_def requestPasswordReset_def reset_tx_def Let_def names_def
        split: if_splits sum.splits reset_outcome.splits)
  then show ?thesis using assms(2) account_by_id_Some [OF assms(2)] by (auto simp: account_untouched_def)
next
  case False
  then show ?thesis using attempt_elsewhere assms by blast
qed

lemma attempt_wrong:
  assumes "auth_inv db" "account_by_id i db = Some u" "acEnabled u" "guesses_wrong u a" "acUsername u \<noteq> []"
    and "attempt_once h a db = (answer, db')"
  shows "account_untouched u db db' \<and> (\<exists>v. account_by_id i db' = Some v \<and>
     acFailures v = (if names u a then min 10 (acFailures u + 1) else acFailures u))"
proof (cases "names u a")
  case False
  then show ?thesis using attempt_elsewhere [OF assms(1,2) False assms(6)] by auto
next
  case True
  have iu: "acId u = i" using account_by_id_Some [OF assms(2)] by simp
  have f: "find (\<lambda>u. acEnabled u \<and> acUsername u = js_trim (atName a)) (accounts db) = Some u"
    using found_by_name [OF assms(1,2)] True assms(3) by (simp add: names_def)
  show ?thesis
  proof (cases "acLocked u")
    case None
    then have "db' = set_account i (\<lambda>_. wrong_email_row (atNow a) u) db"
      using assms(4-6) f True iu
      by (auto simp: attempt_once_def requestPasswordReset_def reset_tx_def Let_def names_def guesses_wrong_def recorded_email_def
          split: if_splits)
    then show ?thesis using True assms(2) iu by (simp add: account_untouched_def account_by_id_const)
  next
    case (Some l)
    have "recovery_ok u" using assms(1) account_by_id_Some [OF assms(2)] by (auto simp: auth_inv_def list_all_iff)
    then have "acFailures u = 10" using Some by (simp add: recovery_ok_def)
    then show ?thesis using attempt_locked [OF assms(1,2) _ assms(6)] Some by simp
  qed
qed

lemma attempt_locked_answer:
  assumes "auth_inv db" "account_by_id i db = Some u" "acLocked u \<noteq> None" "acEnabled u" "acUsername u \<noteq> []" "names u a"
  shows "fst (attempt_once h a db) = Inl (Http 423 ''locked'')"
  using assms found_by_name [OF assms(1,2)]
  by (simp add: attempt_once_def requestPasswordReset_def reset_tx_def Let_def names_def)

lemma attempt_once_inv: "auth_inv db \<Longrightarrow> attempt_once h a db = (answer, db') \<Longrightarrow> auth_inv db'"
  using requestPasswordReset_keeps by (auto simp: attempt_once_def auth_keeps_def)

lemma attempts_inv: "auth_inv db \<Longrightarrow> auth_inv (snd (attempts h as db))"
  by (induction as arbitrary: db) (auto simp: split_beta dest: attempt_once_inv [OF _ surjective_pairing])

lemma account_untouched_refl: "account_by_id (acId u) db = Some u \<Longrightarrow> account_untouched u db db"
  by (auto simp: account_untouched_def)

lemma account_untouched_trans:
  assumes "account_untouched u a b" "account_by_id (acId u) b = Some v" "account_untouched v b c"
  shows "account_untouched u a c"
  using assms account_by_id_Some [OF assms(2)] by (auto simp: account_untouched_def)

lemma attempts_locked:
  assumes "auth_inv db" "account_by_id i db = Some u" "acLocked u \<noteq> None" "acEnabled u" "acUsername u \<noteq> []"
  shows "account_by_id i (snd (attempts h as db)) = Some u \<and> account_untouched u db (snd (attempts h as db)) \<and>
    list_all2 (\<lambda>a answer. names u a \<longrightarrow> answer = Inl (Http 423 ''locked'')) as (fst (attempts h as db))"
  using assms
proof (induction as arbitrary: db)
  case Nil
  then show ?case using account_untouched_refl account_by_id_Some by auto
next
  case (Cons a as)
  have iu: "acId u = i" using account_by_id_Some [OF Cons.prems(2)] by simp
  obtain answer db1 where a: "attempt_once h a db = (answer, db1)" by fastforce
  note one = attempt_locked [OF Cons.prems(1-3) a]
  have rest: "account_by_id i (snd (attempts h as db1)) = Some u \<and> account_untouched u db1 (snd (attempts h as db1)) \<and>
    list_all2 (\<lambda>a answer. names u a \<longrightarrow> answer = Inl (Http 423 ''locked'')) as (fst (attempts h as db1))"
    using Cons.IH [OF attempt_once_inv [OF Cons.prems(1) a]] one Cons.prems(3-5) by blast
  moreover have "names u a \<longrightarrow> answer = Inl (Http 423 ''locked'')"
    using attempt_locked_answer [OF Cons.prems] a by (metis fst_conv)
  moreover have "account_untouched u db (snd (attempts h as db1))"
    using account_untouched_trans one rest iu by blast
  ultimately show ?case using a by (simp add: split_beta)
qed

lemma attempts_wrong:
  assumes "auth_inv db" "account_by_id i db = Some u" "acEnabled u" "acUsername u \<noteq> []" "list_all (guesses_wrong u) as"
  shows "account_untouched u db (snd (attempts h as db)) \<and> (\<exists>v. account_by_id i (snd (attempts h as db)) = Some v \<and>
     acFailures v = min 10 (acFailures u + length (filter (names u) as)))"
  using assms
proof (induction as arbitrary: db u)
  case Nil
  have "recovery_ok u" using Nil(1) account_by_id_Some [OF Nil(2)] by (auto simp: auth_inv_def list_all_iff)
  then show ?case using Nil account_untouched_refl account_by_id_Some by (auto simp: recovery_ok_def)
next
  case (Cons a as)
  have iu: "acId u = i" using account_by_id_Some [OF Cons.prems(2)] by simp
  obtain answer db1 where a: "attempt_once h a db = (answer, db1)" by fastforce
  obtain v where un: "account_untouched u db db1" and v: "account_by_id i db1 = Some v"
    and f: "acFailures v = (if names u a then min 10 (acFailures u + 1) else acFailures u)"
    using attempt_wrong [OF Cons.prems(1-3) _ Cons.prems(4) a] Cons.prems(5) by auto
  have vu: "acUsername v = acUsername u" "acEmail v = acEmail u" "acEnabled v = acEnabled u"
    using un v iu by (auto simp: account_untouched_def)
  then have same: "names v = names u" "guesses_wrong v = guesses_wrong u"
    by (auto simp: names_def guesses_wrong_def recorded_email_def)
  have rest: "account_untouched v db1 (snd (attempts h as db1)) \<and> (\<exists>w. account_by_id i (snd (attempts h as db1)) = Some w \<and>
     acFailures w = min 10 (acFailures v + length (filter (names v) as)))"
    using Cons.IH [OF attempt_once_inv [OF Cons.prems(1) a] v] vu same Cons.prems(3-5) by simp
  then have "account_untouched u db (snd (attempts h as db1))" using account_untouched_trans un v iu by blast
  moreover have "min 10 (acFailures v + length (filter (names v) as)) = min 10 (acFailures u + length (filter (names u) (a # as)))"
    using f same by (auto simp: min_def)
  ultimately show ?case using rest a by (auto simp: split_beta)
qed

text \<open>C36: In any sequence of recovery requests, by anybody and about any accounts, ten requests that name an account with
  an address other than the recorded one lock its recovery: its password and its tokens are as before, and whatever
  is requested afterwards, with the recorded address too, leaves them so and is answered as locked.\<close>

theorem reset_lockout:
  assumes "auth_reach h s" and "account_by_id i (sys_db s) = Some u" and "acEnabled u" and "acUsername u \<noteq> []"
    and "list_all (guesses_wrong u) wrong" and "10 \<le> acFailures u + length (filter (names u) wrong)"
    and "attempts h wrong (sys_db s) = (answers, db1)" and "attempts h later db1 = (answers', db2)"
  shows "account_untouched u (sys_db s) db2 \<and> list_all2 (\<lambda>a answer. names u a \<longrightarrow> answer = Inl (Http 423 ''locked'')) later answers'"
proof -
  have iu: "acId u = i" using account_by_id_Some [OF assms(2)] by simp
  note inv = auth_reach_inv [OF assms(1)]
  have inv1: "auth_inv db1" using attempts_inv [OF inv] assms(7) by (metis snd_conv)
  obtain v where un: "account_untouched u (sys_db s) db1" and v: "account_by_id i db1 = Some v" and ten: "acFailures v = 10"
    using attempts_wrong [OF inv assms(2-5), of h] assms(6,7) by auto
  have "recovery_ok v" using inv1 account_by_id_Some [OF v] by (auto simp: auth_inv_def list_all_iff)
  then have lock: "acLocked v \<noteq> None" using ten by (simp add: recovery_ok_def)
  have vu: "acUsername v = acUsername u" "acEnabled v = acEnabled u" using un v iu by (auto simp: account_untouched_def)
  then have n: "names v = names u" by (auto simp: names_def)
  have "account_untouched v db1 db2 \<and> list_all2 (\<lambda>a answer. names v a \<longrightarrow> answer = Inl (Http 423 ''locked'')) later answers'"
    using attempts_locked [OF inv1 v lock, of h later] vu assms(3,4,8) by simp
  then show ?thesis using account_untouched_trans [OF un] v iu n by auto
qed

section \<open>The mailed password\<close>

lemma mset_swap_at: "i < length xs \<Longrightarrow> j < length xs \<Longrightarrow> mset (swap_at i j xs) = mset xs"
  unfolding swap_at_def by (rule mset_swap)

lemma length_swap_at [simp]: "length (swap_at i j xs) = length xs"
  by (simp add: swap_at_def)

lemma mset_shuffle_from:
  assumes rnd: "\<And>k n. 0 < n \<Longrightarrow> rnd k n < n" and "i < length xs"
  shows "mset (shuffle_from rnd k i xs) = mset xs"
  using assms(2)
proof (induction i arbitrary: k xs)
  case (Suc i)
  have "rnd k (Suc i + 1) < length xs" using rnd [of "Suc i + 1" k] Suc.prems by simp
  then show ?case using Suc by (simp add: mset_swap_at)
qed simp

lemma temp_alphabet:
  "list_all ascii_alpha temp_letters" "list_all ascii_digit temp_digits"
  "list_all (\<lambda>c. \<not> js_space c \<and> c \<notin> set ''IOl01'') temp_all" "0 < length temp_letters" "0 < length temp_digits" "0 < length temp_all"
  by code_simp+

text \<open>C37: Whatever the random numbers are, the mailed password has eight characters, satisfies the rule the service
  demands of every password, and has none of the characters that are easily confused.\<close>

theorem temporary_password_ok:
  assumes rnd: "\<And>k n. 0 < n \<Longrightarrow> rnd k n < n"
  shows "length (randomTemporaryPassword rnd) = 8 \<and> password_pattern (randomTemporaryPassword rnd) \<and>
    set (randomTemporaryPassword rnd) \<inter> set ''IOl01'' = {}"
proof -
  let ?cs = "temp_characters rnd" and ?p = "randomTemporaryPassword rnd"
  have len: "length ?cs = 8" by (simp add: temp_characters_def)
  have same: "mset ?p = mset ?cs" using mset_shuffle_from [where rnd = rnd and i = 7 and xs = ?cs and k = 8] rnd len
    by (simp add: randomTemporaryPassword_def Let_def)
  have c: "temp_letters ! rnd 0 (length temp_letters) \<in> set temp_letters" "temp_digits ! rnd 1 (length temp_digits) \<in> set temp_digits"
    "temp_all ! rnd k (length temp_all) \<in> set temp_all" for k
    using rnd temp_alphabet(4-6) by (simp_all add: nth_mem)
  have "set ?cs \<subseteq> set temp_all" using c by (auto simp: temp_characters_def temp_all_def)
  moreover have "list_ex ascii_alpha ?cs" "list_ex ascii_digit ?cs"
    using c(1,2) temp_alphabet(1,2) by (auto simp: temp_characters_def list_ex_iff list_all_iff)
  moreover have "set ?p = set ?cs" "length ?p = 8" using same len by (metis set_mset_mset, metis size_mset)
  ultimately show ?thesis using temp_alphabet(3) by (auto simp: password_pattern_def list_ex_iff list_all_iff)
qed

end
