(* ===== verification/AdminGrants.thy ===== *)
theory AdminGrants
  imports AccountSystem
begin

text \<open>
  Administrators (\<^verbatim>\<open>modules/admin/administrator-grant.application.service.ts\<close>) and the
  actions on employees (\<^verbatim>\<open>admin-application.service.ts\<close>).  The table of grants belongs to
  the tables of \<open>Accounts\<close>; the advisory lock makes the changes of one tenant serial.  The properties hold
  for any mixture of these commands with everything \<open>AccountSystem\<close> can do.
\<close>

definition administrableModuleRegistry :: "string list" where
  "administrableModuleRegistry = [''cockpit'', ''project-task'', ''planning'', ''data'', ''finance'', ''marketing'', ''hr'',
     ''workflow'', ''rd'', ''knowledge'']"

record grant_input =
  giSystemAdmin :: bool
  giModuleCodes :: "string list"
  giExpectedVersion :: "nat option"
  giTargetUserId :: "string option"

record grant_actor =
  gaUserId :: "string option"
  gaUsername :: string
  gaSystemAdmin :: bool

definition grant_of :: "string \<Rightarrow> string \<Rightarrow> auth_db \<Rightarrow> admin_grant option" where
  "grant_of tenant i db = find (\<lambda>g. grTenant g = tenant \<and> grUser g = i) (grants db)"

text \<open>The checks before the first write, in the order of the code; their result is the grant to replace and the
  account it is for.\<close>

definition replace_checks :: "string \<Rightarrow> string \<Rightarrow> grant_input \<Rightarrow> grant_actor \<Rightarrow> auth_db \<Rightarrow> auth_error + admin_grant option \<times> string" where
  "replace_checks tenant userId inp actor db =
     (let codes = js_dedup (giModuleCodes inp); sys = giSystemAdmin inp in
      if \<not> set codes \<subseteq> set administrableModuleRegistry then Inl (Http 400 ''unknown module'')
      else if sys \<and> codes \<noteq> [] then Inl (Http 400 ''modules of a system administrator'')
      else case account_by_id userId db of
        None \<Rightarrow> Inl (Http 400 ''no such user'')
      | Some user \<Rightarrow>
        (let current = grant_of tenant userId db;
             touches = (sys \<or> (case current of None \<Rightarrow> False | Some g \<Rightarrow> grSystem g))
         in if (case current of None \<Rightarrow> giExpectedVersion inp \<noteq> None | Some g \<Rightarrow> giExpectedVersion inp \<noteq> Some (grVersion g))
              then Inl (Http 409 ''changed'')
            else if touches \<and> (\<not> gaSystemAdmin actor \<or> \<not> isPrimaryAdminUsername (gaUsername actor))
              then Inl (Http 403 ''admin only'')
            else if \<not> touches \<and> \<not> gaSystemAdmin actor then Inl (Http 403 ''system administrators only'')
            else if isPrimaryAdminUsername (acUsername user) \<and> \<not> sys then Inl (Http 400 ''admin stays'')
            else (let target = (case giTargetUserId inp of None \<Rightarrow> userId | Some t \<Rightarrow> t) in
              case (if target = userId then Some user else account_by_id target db) of
                None \<Rightarrow> Inl (Http 400 ''no such target'')
              | Some tu \<Rightarrow>
                  if \<not> acEnabled tu then Inl (Http 400 ''target disabled'')
                  else if target \<noteq> userId \<and> current = None then Inl (Http 400 ''nothing to transfer'')
                  else if target \<noteq> userId \<and> isPrimaryAdminUsername (acUsername user) then Inl (Http 400 ''admin stays'')
                  else if target \<noteq> userId \<and> grant_of tenant target db \<noteq> None then Inl (Http 409 ''target has a grant'')
                  else if (case current of None \<Rightarrow> False | Some g \<Rightarrow> grSystem g) \<and> \<not> sys \<and>
                      length (filter (\<lambda>g. grTenant g = tenant \<and> grSystem g) (grants db)) \<le> 1
                    then Inl (Http 409 ''last administrator'')
                  else Inr (current, target))))"

definition delete_grant :: "admin_grant option \<Rightarrow> admin_grant list \<Rightarrow> admin_grant list" where
  "delete_grant current gs = (case current of None \<Rightarrow> gs | Some g \<Rightarrow> filter (\<lambda>x. grId x \<noteq> grId g) gs)"

definition replace_grants :: "string \<Rightarrow> string \<Rightarrow> string \<Rightarrow> grant_input \<Rightarrow> grant_actor \<Rightarrow> auth_db \<Rightarrow> auth_error + auth_db" where
  "replace_grants newId tenant userId inp actor db =
     bindE (replace_checks tenant userId inp actor db) (\<lambda>(current, target).
       let codes = js_dedup (giModuleCodes inp); sys = giSystemAdmin inp;
           by = (case gaUserId actor of None \<Rightarrow> ''system'' | Some i \<Rightarrow> i);
           row = \<lparr>grId = newId, grTenant = tenant, grUser = target, grSystem = sys, grModules = codes, grUpdatedBy = by, grVersion = 1\<rparr>
       in if \<not> sys \<and> codes = [] then Inr (db\<lparr>grants := delete_grant current (grants db)\<rparr>)
          else case current of
            Some g \<Rightarrow>
              if target = userId
              then Inr (db\<lparr>grants := map (\<lambda>x. if grId x = grId g then g\<lparr>grSystem := sys, grModules := codes, grUpdatedBy := by,
                     grVersion := grVersion g + 1\<rparr> else x) (grants db)\<rparr>)
              else if newId \<in> grId ` set (grants db) then Inl (Http 500 ''id taken'')
              else Inr (db\<lparr>grants := delete_grant current (grants db @ [row])\<rparr>)
          | None \<Rightarrow> if newId \<in> grId ` set (grants db) then Inl (Http 500 ''id taken'')
              else Inr (db\<lparr>grants := grants db @ [row]\<rparr>))"

text \<open>\<open>employeeAction\<close>.\<close>

datatype employee_action = HANDOVER | DISABLE | TRANSFER | DEPARTURE

text \<open>\<open>String(input.action ?? "").toUpperCase()\<close>; below code unit 256 the four names are reached from their
  own letters only.\<close>

definition employee_action_of :: "string \<Rightarrow> auth_error + employee_action" where
  "employee_action_of s = (let a = js_lower s in
     if a = ''handover'' then Inr HANDOVER else if a = ''disable'' then Inr DISABLE
     else if a = ''transfer'' then Inr TRANSFER else if a = ''departure'' then Inr DEPARTURE
     else Inl (Http 400 ''unknown action''))"

definition employeeAction :: "auth_host \<Rightarrow> string \<Rightarrow> string \<Rightarrow> string option \<Rightarrow> string list list option \<Rightarrow> auth_db \<Rightarrow> auth_error + auth_db" where
  "employeeAction h i action targetUserId paths db =
     bindE (employee_action_of action) (\<lambda>act.
     bindE (if act \<in> {DISABLE, DEPARTURE} then assertCanDisableUser i (tenant_code h) db else Inr ()) (\<lambda>_.
       case account_by_id i db of
         None \<Rightarrow> Inl (Http 400 ''no such employee'')
       | Some u \<Rightarrow> (case act of
           HANDOVER \<Rightarrow> (case targetUserId of
               None \<Rightarrow> Inl (Http 400 ''choose another employee'')
             | Some t \<Rightarrow> if t = [] \<or> t = i then Inl (Http 400 ''choose another employee'')
                 else if list_ex (\<lambda>v. acId v = t \<and> acEnabled v) (accounts db) then Inr db
                 else Inl (Http 400 ''no such recipient''))
         | TRANSFER \<Rightarrow> (case paths of
               None \<Rightarrow> Inl (Http 400 ''choose departments'')
             | Some ps \<Rightarrow> if ps = [] then Inl (Http 400 ''choose departments'')
                 else Inr (set_account i (\<lambda>_. u\<lparr>acPaths := ps\<rparr>) db))
         | _ \<Rightarrow> Inr (set_account i (\<lambda>_. u\<lparr>acEnabled := False\<rparr>) db))))"

section \<open>The rows of grants\<close>

definition grant_ok :: "admin_grant \<Rightarrow> bool" where
  "grant_ok g = (set (grModules g) \<subseteq> set administrableModuleRegistry \<and> distinct (grModules g) \<and>
     (grSystem g \<longrightarrow> grModules g = []) \<and> (grSystem g \<or> grModules g \<noteq> []))"

definition grants_inv :: "auth_db \<Rightarrow> bool" where
  "grants_inv db = (distinct (map grId (grants db)) \<and> distinct (map (\<lambda>g. (grTenant g, grUser g)) (grants db)) \<and>
     list_all grant_ok (grants db))"

lemma grant_of_Some: "grant_of tenant i db = Some g \<Longrightarrow> g \<in> set (grants db) \<and> grTenant g = tenant \<and> grUser g = i"
  by (auto simp: grant_of_def dest: find_Some_mem)

lemma grant_of_None: "grant_of tenant i db = None \<longleftrightarrow> (tenant, i) \<notin> (\<lambda>g. (grTenant g, grUser g)) ` set (grants db)"
  by (auto simp: grant_of_def find_None_iff image_iff)

lemma grant_of_row: "g \<in> set (grants db) \<Longrightarrow> grant_of (grTenant g) (grUser g) db \<noteq> None"
  unfolding grant_of_None by (simp add: image_iff) (metis (no_types))

lemma replace_checks_facts:
  assumes "replace_checks tenant userId inp actor db = Inr (current, target)"
  shows "current = grant_of tenant userId db \<and> set (giModuleCodes inp) \<subseteq> set administrableModuleRegistry \<and>
    (giSystemAdmin inp \<longrightarrow> giModuleCodes inp = []) \<and>
    (target \<noteq> userId \<longrightarrow> grant_of tenant target db = None \<and> current \<noteq> None) \<and>
    (\<exists>user. account_by_id userId db = Some user \<and> (isPrimaryAdminUsername (acUsername user) \<longrightarrow> giSystemAdmin inp \<and> target = userId)) \<and>
    (giSystemAdmin inp \<or> (\<exists>g. current = Some g \<and> grSystem g) \<longrightarrow> gaSystemAdmin actor \<and> isPrimaryAdminUsername (gaUsername actor))"
proof (cases "grant_of tenant userId db")
  case None
  then show ?thesis using assms by (auto simp: replace_checks_def Let_def js_dedup_def split: if_splits option.splits)
next
  case (Some g)
  then show ?thesis using assms by (auto simp: replace_checks_def Let_def js_dedup_def split: if_splits option.splits) metis+
qed

text \<open>What a change of grants leaves: every other grant, and one row for the target or none.\<close>

definition grants_changed :: "string \<Rightarrow> string \<Rightarrow> grant_input \<Rightarrow> string \<Rightarrow> admin_grant list \<Rightarrow> admin_grant list \<Rightarrow> bool" where
  "grants_changed tenant userId inp target gs gs' =
     (filter (\<lambda>g. (grTenant g, grUser g) \<notin> {(tenant, userId), (tenant, target)}) gs' =
        filter (\<lambda>g. (grTenant g, grUser g) \<notin> {(tenant, userId), (tenant, target)}) gs \<and>
      (\<forall>g \<in> set gs'. grTenant g = tenant \<longrightarrow> grUser g \<in> {userId, target} \<longrightarrow>
         grUser g = target \<and> grSystem g = giSystemAdmin inp \<and> grModules g = js_dedup (giModuleCodes inp) \<and>
         (giSystemAdmin inp \<or> giModuleCodes inp \<noteq> [])) \<and>
      (giSystemAdmin inp \<longrightarrow> (\<exists>g \<in> set gs'. grTenant g = tenant \<and> grUser g = target \<and> grSystem g)))"

lemma grants_changed_frame:
  assumes "grants_changed tenant userId inp target gs gs'" "(grTenant g, grUser g) \<notin> {(tenant, userId), (tenant, target)}"
  shows "g \<in> set gs' \<longleftrightarrow> g \<in> set gs"
proof -
  let ?P = "\<lambda>g. (grTenant g, grUser g) \<notin> {(tenant, userId), (tenant, target)}"
  have "g \<in> set (filter ?P gs') \<longleftrightarrow> g \<in> set (filter ?P gs)" using assms(1) unfolding grants_changed_def by simp
  then show ?thesis using assms(2) by simp
qed

lemma same_grant:
  assumes "grants_inv db" "x \<in> set (grants db)" "g \<in> set (grants db)"
  shows "grId x = grId g \<longleftrightarrow> x = g" "grTenant x = grTenant g \<Longrightarrow> grUser x = grUser g \<Longrightarrow> x = g"
proof -
  have "inj_on grId (set (grants db))" "inj_on (\<lambda>g. (grTenant g, grUser g)) (set (grants db))"
    using assms(1) by (simp_all add: grants_inv_def distinct_map)
  then show "grId x = grId g \<longleftrightarrow> x = g" "grTenant x = grTenant g \<Longrightarrow> grUser x = grUser g \<Longrightarrow> x = g"
    using assms(2,3) by (auto dest: inj_onD)
qed

lemma grants_inv_filter: "grants_inv db \<Longrightarrow> grants_inv (db\<lparr>grants := filter P (grants db)\<rparr>)"
  by (auto simp: grants_inv_def list_all_iff intro: distinct_map_filter)

lemma deleted_grants:
  assumes "grants_inv db" "current = grant_of tenant userId db" "target \<noteq> userId \<longrightarrow> grant_of tenant target db = None"
  shows "set (delete_grant current (grants db)) = {g \<in> set (grants db). (grTenant g, grUser g) \<notin> {(tenant, userId), (tenant, target)}}"
    and "filter (\<lambda>g. (grTenant g, grUser g) \<notin> {(tenant, userId), (tenant, target)}) (delete_grant current (grants db)) =
      filter (\<lambda>g. (grTenant g, grUser g) \<notin> {(tenant, userId), (tenant, target)}) (grants db)"
    and "grants_inv (db\<lparr>grants := delete_grant current (grants db)\<rparr>)"
proof -
  have off: "(grTenant g, grUser g) \<noteq> (tenant, target)" if "target \<noteq> userId" "g \<in> set (grants db)" for g
    using assms(3) that by (auto simp: grant_of_None image_iff)
  have key: "(case current of None \<Rightarrow> True | Some g \<Rightarrow> grId x \<noteq> grId g) \<longleftrightarrow> (grTenant x, grUser x) \<notin> {(tenant, userId), (tenant, target)}"
    if x: "x \<in> set (grants db)" for x
  proof (cases current)
    case None
    then show ?thesis using assms(2) off x grant_of_None [of tenant userId db] by (auto simp: image_iff)
  next
    case (Some g)
    then have "g \<in> set (grants db) \<and> grTenant g = tenant \<and> grUser g = userId" using assms(2) grant_of_Some by metis
    then show ?thesis using Some same_grant [OF assms(1) x, of g] off x by auto
  qed
  have d: "delete_grant current (grants db) = filter (\<lambda>x. case current of None \<Rightarrow> True | Some g \<Rightarrow> grId x \<noteq> grId g) (grants db)"
    by (simp add: delete_grant_def split: option.splits)
  also have "\<dots> = filter (\<lambda>g. (grTenant g, grUser g) \<notin> {(tenant, userId), (tenant, target)}) (grants db)"
    using key by (intro filter_cong) auto
  finally have e: "delete_grant current (grants db) = filter (\<lambda>g. (grTenant g, grUser g) \<notin> {(tenant, userId), (tenant, target)}) (grants db)" .
  show "set (delete_grant current (grants db)) = {g \<in> set (grants db). (grTenant g, grUser g) \<notin> {(tenant, userId), (tenant, target)}}"
    unfolding e by auto
  show "filter (\<lambda>g. (grTenant g, grUser g) \<notin> {(tenant, userId), (tenant, target)}) (delete_grant current (grants db)) =
      filter (\<lambda>g. (grTenant g, grUser g) \<notin> {(tenant, userId), (tenant, target)}) (grants db)"
    unfolding e by simp
  show "grants_inv (db\<lparr>grants := delete_grant current (grants db)\<rparr>)" unfolding d by (rule grants_inv_filter) (rule assms(1))
qed

lemma grants_invI:
  assumes "distinct (map grId gs)" "distinct (map (\<lambda>g. (grTenant g, grUser g)) gs)" "\<And>g. g \<in> set gs \<Longrightarrow> grant_ok g"
  shows "grants_inv (db\<lparr>grants := gs\<rparr>)"
  using assms by (simp add: grants_inv_def list_all_iff)

text \<open>The new row at the end.\<close>

lemma inserted_grant:
  assumes inv: "grants_inv db" and cur: "current = grant_of tenant userId db"
    and tgt: "target \<noteq> userId \<longrightarrow> grant_of tenant target db = None"
    and row: "grTenant row = tenant" "grUser row = target" "grSystem row = giSystemAdmin inp" "grModules row = js_dedup (giModuleCodes inp)"
      "grant_ok row" "grId row \<notin> grId ` set (grants db)" and some: "giSystemAdmin inp \<or> giModuleCodes inp \<noteq> []"
  shows "grants_inv (db\<lparr>grants := delete_grant current (grants db) @ [row]\<rparr>) \<and>
    grants_changed tenant userId inp target (grants db) (delete_grant current (grants db) @ [row])"
proof
  note d = deleted_grants [OF inv cur tgt]
  have "(tenant, target) \<notin> (\<lambda>g. (grTenant g, grUser g)) ` set (delete_grant current (grants db))" using d(1) by auto
  moreover have "grId row \<notin> grId ` set (delete_grant current (grants db))" using d(1) row(6) by auto
  ultimately show "grants_inv (db\<lparr>grants := delete_grant current (grants db) @ [row]\<rparr>)"
    using d(3) row by (auto simp: grants_inv_def list_all_iff)
  show "grants_changed tenant userId inp target (grants db) (delete_grant current (grants db) @ [row])"
    using d(1,2) row some by (auto simp: grants_changed_def)
qed

lemma filter_map_frame:
  assumes "\<And>x. x \<in> set xs \<Longrightarrow> f x = x \<or> \<not> P x \<and> \<not> P (f x)"
  shows "filter P (map f xs) = filter P xs"
  using assms
proof (induction xs)
  case (Cons a xs)
  then have "f a = a \<or> \<not> P a \<and> \<not> P (f a)" and "filter P (map f xs) = filter P xs" by simp_all
  then show ?case by auto
qed simp

text \<open>The present row changed.\<close>

lemma updated_grant:
  assumes inv: "grants_inv db" and cur: "grant_of tenant i db = Some g"
    and row: "grTenant row = tenant" "grUser row = i" "grSystem row = giSystemAdmin inp" "grModules row = js_dedup (giModuleCodes inp)"
      "grant_ok row" "grId row = grId g" and some: "giSystemAdmin inp \<or> giModuleCodes inp \<noteq> []"
  shows "grants_inv (db\<lparr>grants := map (\<lambda>x. if grId x = grId g then row else x) (grants db)\<rparr>) \<and>
    grants_changed tenant i inp i (grants db) (map (\<lambda>x. if grId x = grId g then row else x) (grants db))"
proof
  let ?f = "\<lambda>x. if grId x = grId g then row else x"
  have g: "g \<in> set (grants db)" "grTenant g = tenant" "grUser g = i" using grant_of_Some [OF cur] by simp_all
  have key: "(grTenant (?f x), grUser (?f x)) = (grTenant x, grUser x)" and id: "grId (?f x) = grId x" if "x \<in> set (grants db)" for x
    using same_grant(1) [OF inv that g(1)] g row by auto
  have "map grId (map ?f (grants db)) = map grId (grants db)"
    and "map (\<lambda>g. (grTenant g, grUser g)) (map ?f (grants db)) = map (\<lambda>g. (grTenant g, grUser g)) (grants db)"
    using key id by auto
  then show "grants_inv (db\<lparr>grants := map ?f (grants db)\<rparr>)"
    using inv row by (auto simp: grants_inv_def list_all_iff simp del: map_map)
  have "filter (\<lambda>g. (grTenant g, grUser g) \<notin> {(tenant, i), (tenant, i)}) (map ?f (grants db)) =
      filter (\<lambda>g. (grTenant g, grUser g) \<notin> {(tenant, i), (tenant, i)}) (grants db)"
  proof (rule filter_map_frame)
    fix x assume "x \<in> set (grants db)"
    then have "grId x = grId g \<longleftrightarrow> x = g" using same_grant(1) [OF inv _ g(1)] by blast
    then show "?f x = x \<or> \<not> (grTenant x, grUser x) \<notin> {(tenant, i), (tenant, i)} \<and> \<not> (grTenant (?f x), grUser (?f x)) \<notin> {(tenant, i), (tenant, i)}"
      using g row by (cases "x = g") simp_all
  qed
  moreover have "y = row" if "y \<in> set (map ?f (grants db))" "grTenant y = tenant" "grUser y = i" for y
  proof -
    from that(1) obtain x where x: "x \<in> set (grants db)" "y = ?f x" by auto
    have "x = g" if "grId x \<noteq> grId g"
      using same_grant(2) [OF inv x(1) g(1)] x(2) that \<open>grTenant y = tenant\<close> \<open>grUser y = i\<close> g(2,3) by simp
    then show ?thesis using x(2) by (cases "grId x = grId g") auto
  qed
  moreover have "row \<in> set (map ?f (grants db))" using g(1) by force
  ultimately show "grants_changed tenant i inp i (grants db) (map ?f (grants db))"
    using row some by (auto simp: grants_changed_def)
qed

lemma new_grant_ok:
  "set codes \<subseteq> set administrableModuleRegistry \<Longrightarrow> (sys \<longrightarrow> codes = []) \<Longrightarrow> sys \<or> codes \<noteq> [] \<Longrightarrow>
    grSystem g = sys \<Longrightarrow> grModules g = js_dedup codes \<Longrightarrow> grant_ok g"
  by (auto simp: grant_ok_def js_dedup_def)

lemma js_dedup_Nil_iff [simp]: "js_dedup xs = [] \<longleftrightarrow> xs = []"
  by (simp add: js_dedup_def)

lemma replace_grants_effect:
  assumes "replace_grants newId tenant userId inp actor db = Inr db'" "grants_inv db"
  obtains target gs' where "replace_checks tenant userId inp actor db = Inr (grant_of tenant userId db, target)"
    "db' = db\<lparr>grants := gs'\<rparr>" "grants_inv db'" "grants_changed tenant userId inp target (grants db) gs'"
proof -
  obtain current target where c: "replace_checks tenant userId inp actor db = Inr (current, target)"
    using assms(1) by (auto simp: replace_grants_def err_simps)
  note f = replace_checks_facts [OF c]
  then have cur: "current = grant_of tenant userId db" and tgt: "target \<noteq> userId \<longrightarrow> grant_of tenant target db = None" by auto
  have c': "replace_checks tenant userId inp actor db = Inr (grant_of tenant userId db, target)" using c cur by simp
  show thesis
  proof (cases "\<not> giSystemAdmin inp \<and> giModuleCodes inp = []")
    case True
    then have db': "db' = db\<lparr>grants := delete_grant current (grants db)\<rparr>"
      using assms(1) c by (simp add: replace_grants_def)
    note d = deleted_grants [OF assms(2) cur tgt]
    have "grants_changed tenant userId inp target (grants db) (delete_grant current (grants db))"
      unfolding grants_changed_def using d(1,2) True by auto
    then show thesis using that [OF c' db'] d(3) db' by simp
  next
    case some: False
    let ?by = "case gaUserId actor of None \<Rightarrow> ''system'' | Some i \<Rightarrow> i"
    let ?row = "\<lparr>grId = newId, grTenant = tenant, grUser = target, grSystem = giSystemAdmin inp,
       grModules = js_dedup (giModuleCodes inp), grUpdatedBy = ?by, grVersion = 1\<rparr>"
    have ok: "grant_ok g" if "grSystem g = giSystemAdmin inp" "grModules g = js_dedup (giModuleCodes inp)" for g
      using f some that by (intro new_grant_ok [of "giModuleCodes inp"]) auto
    consider (upd) g where "current = Some g" "target = userId"
        "db' = db\<lparr>grants := map (\<lambda>x. if grId x = grId g then g\<lparr>grSystem := giSystemAdmin inp,
           grModules := js_dedup (giModuleCodes inp), grUpdatedBy := ?by, grVersion := grVersion g + 1\<rparr> else x) (grants db)\<rparr>"
      | (ins) "newId \<notin> grId ` set (grants db)" "db' = db\<lparr>grants := delete_grant current (grants db) @ [?row]\<rparr>"
    proof (cases current)
      case None
      then show thesis using assms(1) c some ins by (simp add: replace_grants_def delete_grant_def Let_def split: if_splits)
    next
      case (Some g)
      then have "grId g \<in> grId ` set (grants db)" using cur grant_of_Some by (metis imageI)
      then show thesis using Some assms(1) c some upd ins
        by (cases "target = userId") (auto simp: replace_grants_def delete_grant_def Let_def split: if_splits)
    qed
    then show thesis
    proof cases
      case (upd g)
      have g: "grant_of tenant userId db = Some g" using upd(1) cur by simp
      then show thesis using updated_grant [OF assms(2) g] upd grant_of_Some [OF g] ok some that [OF c'] by simp
    next
      case ins
      then show thesis using inserted_grant [OF assms(2) cur tgt, of ?row inp] ok some that [OF c'] by simp
    qed
  qed
qed

section \<open>The account admin\<close>

inductive admin_next :: "auth_host \<Rightarrow> auth_sys \<Rightarrow> auth_sys \<Rightarrow> bool" for h where
  of_accounts: "auth_next h s s' \<Longrightarrow> admin_next h s s'"
| granted: "replace_grants newId tenant userId inp actor (sys_db s) = Inr db' \<Longrightarrow> admin_next h s (s\<lparr>sys_db := db'\<rparr>)"
| employee: "employeeAction h i action target paths (sys_db s) = Inr db' \<Longrightarrow> admin_next h s (s\<lparr>sys_db := db'\<rparr>)"

definition admin_inv :: "auth_db \<Rightarrow> bool" where
  "admin_inv db = (auth_inv db \<and> grants_inv db)"

definition in_charge :: "string \<Rightarrow> string \<Rightarrow> auth_db \<Rightarrow> bool" where
  "in_charge tenant i db = ((\<exists>u \<in> set (accounts db). acId u = i \<and> acEnabled u \<and> isPrimaryAdminUsername (acUsername u)) \<and>
     system_grant tenant i db)"

text \<open>Account commands leave the grants and never disable the account.\<close>

definition keeps_admins :: "auth_db \<Rightarrow> auth_db \<Rightarrow> bool" where
  "keeps_admins db db' = (grants db' = grants db \<and>
     (\<forall>u \<in> set (accounts db). acEnabled u \<and> isPrimaryAdminUsername (acUsername u) \<longrightarrow>
        (\<exists>u' \<in> set (accounts db'). acId u' = acId u \<and> acUsername u' = acUsername u \<and> acEnabled u')))"

lemma keeps_admins_same: "accounts db' = accounts db \<Longrightarrow> grants db' = grants db \<Longrightarrow> keeps_admins db db'"
  by (auto simp: keeps_admins_def)

lemma keeps_admins_trans: "keeps_admins a b \<Longrightarrow> keeps_admins b c \<Longrightarrow> keeps_admins a c"
  unfolding keeps_admins_def by fastforce

lemma keeps_admins_map:
  assumes "\<And>u. u \<in> set (accounts db) \<Longrightarrow> acEnabled u \<Longrightarrow> isPrimaryAdminUsername (acUsername u) \<Longrightarrow>
    acId (f u) = acId u \<and> acUsername (f u) = acUsername u \<and> acEnabled (f u)"
  shows "keeps_admins db (db\<lparr>accounts := map f (accounts db)\<rparr>)"
  using assms by (auto simp: keeps_admins_def)

lemma written_admins:
  assumes "auth_inv db" "account_by_id i db = Some u" "db' = set_account i (\<lambda>_. u') db"
    and "acId u' = acId u" "acUsername u' = acUsername u" "acEnabled u \<and> isPrimaryAdminUsername (acUsername u) \<longrightarrow> acEnabled u'"
  shows "keeps_admins db db'"
proof -
  note u = account_by_id_Some [OF assms(2)]
  show ?thesis unfolding assms(3) set_account_def
  proof (rule keeps_admins_map)
    fix v assume v: "v \<in> set (accounts db)" "acEnabled v" "isPrimaryAdminUsername (acUsername v)"
    have "v = u" if "acId v = i" using same_account [OF assms(1) v(1)] u that by blast
    then show "acId (if acId v = i then u' else v) = acId v \<and> acUsername (if acId v = i then u' else v) = acUsername v \<and>
        acEnabled (if acId v = i then u' else v)"
      using v(2,3) assms(4-6) by auto
  qed
qed

lemma found_is_by_id:
  assumes "auth_inv db" "u \<in> set (accounts db)"
  shows "account_by_id (acId u) db = Some u"
proof (cases "account_by_id (acId u) db")
  case None
  then show ?thesis using assms(2) by (auto simp: account_by_id_def find_None_iff)
next
  case (Some v)
  then show ?thesis using same_account [OF assms(1) _ assms(2)] account_by_id_Some by metis
qed

lemma disable_refused:
  assumes "assertCanDisableUser i tenant db = Inr x" "account_by_id i db = Some u"
  shows "\<not> isPrimaryAdminUsername (acUsername u)"
  using assms by (auto simp: assertCanDisableUser_def split: if_splits)

lemma admins_kept_by_reset:
  assumes "auth_inv db" "requestPasswordReset h now s1 s2 cs mailed name mail ip db = (answer, db')"
  shows "keeps_admins db db'"
proof -
  consider "db' = db" | out where "reset_tx h now s1 s2 cs mailed (js_trim name) (js_lower (js_trim mail)) ip db = Inr (out, db')"
    using request_is_tx [OF assms(2)] by blast
  then show ?thesis
  proof cases
    case 1
    then show ?thesis by (simp add: keeps_admins_same)
  next
    case 2
    obtain u where u: "find (\<lambda>u. acEnabled u \<and> acUsername u = js_trim name) (accounts db) = Some u"
      using 2 by (auto simp: reset_tx_def split: option.splits)
    have mem: "u \<in> set (accounts db)" "acEnabled u" using find_Some_mem [OF u] by auto
    note by_id = found_is_by_id [OF assms(1) mem(1)]
    consider "db' = db" | "db' = set_account (acId u) (\<lambda>_. wrong_email_row now u) db"
      | u' q where "db' = revoke_where (live_of (acId u)) now (set_account (acId u) (\<lambda>_. u') (db\<lparr>resets := resets db @ [q]\<rparr>))"
        "acId u' = acId u" "acUsername u' = acUsername u" "acEnabled u' = acEnabled u"
      using 2 u by (auto simp: reset_tx_def Let_def split: option.splits if_splits)
    then show ?thesis
    proof cases
      case 1
      then show ?thesis by (simp add: keeps_admins_same)
    next
      case 2
      show ?thesis by (rule written_admins [OF assms(1) by_id 2]) simp_all
    next
      case (3 u' q)
      have "keeps_admins db (set_account (acId u) (\<lambda>_. u') db)" by (rule written_admins [OF assms(1) by_id refl]) (simp_all add: 3)
      moreover have "keeps_admins (set_account (acId u) (\<lambda>_. u') db) db'"
        unfolding 3(1) by (rule keeps_admins_same) (simp_all add: set_account_def)
      ultimately show ?thesis by (rule keeps_admins_trans)
    qed
  qed
qed

lemma admins_kept_by_change:
  assumes "auth_inv db" "changePassword h now salt i p q e db = Inr (u, db')"
  shows "keeps_admins db db'"
proof -
  obtain v u' where v: "account_by_id i db = Some v" and db': "db' = revoke_where (live_of i) now (set_account i (\<lambda>_. u') db)"
    and u': "acId u' = acId v" "acUsername u' = acUsername v" "acEnabled u' = acEnabled v"
    using assms(2) by (auto simp: changePassword_def Let_def err_simps split: option.splits if_splits)
  have "keeps_admins db (set_account i (\<lambda>_. u') db)" by (rule written_admins [OF assms(1) v refl]) (simp_all add: u')
  moreover have "keeps_admins (set_account i (\<lambda>_. u') db) db'" unfolding db' by (rule keeps_admins_same) simp_all
  ultimately show ?thesis by (rule keeps_admins_trans)
qed

lemma admins_kept_by_admin_reset:
  assumes "auth_inv db" "resetUserPassword h salt flag actor i e db = Inr db'"
  shows "keeps_admins db db'"
proof -
  obtain u op where u: "find (\<lambda>u. acId u = i \<and> acTenant u = tenant_code h) (accounts db) = Some u"
    and db': "db' = set_account i (\<lambda>_. u\<lparr>acHash := bcrypt_hash h salt DEFAULT_USER_PASSWORD, acMustChange := True,
       acFailures := 0, acLocked := None, acUpdatedBy := op, acVersion := acVersion u + 1\<rparr>) db"
    using assms(2) by (auto simp: resetUserPassword_def split: option.splits if_splits)
  have "account_by_id i db = Some u" using found_is_by_id [OF assms(1)] find_Some_mem [OF u] by auto
  then show ?thesis by (rule written_admins [OF assms(1) _ db']) simp_all
qed

lemma admins_kept_by_update:
  assumes "auth_inv db" "updateUser h salt i b db = Inr db'"
  shows "keeps_admins db db'"
proof -
  obtain u u' where u: "account_by_id i db = Some u" and db': "db' = set_account i (\<lambda>_. u') db"
    and u': "acId u' = acId u" "acUsername u' = acUsername u" "acEnabled u' = acEnabled (patched_user b u)"
    and guard: "upEnabled b = Some False \<longrightarrow> (\<exists>x. assertCanDisableUser i (tenant_code h) db = Inr x)"
    using assms(2) by (auto simp: updateUser_def err_simps split: option.splits if_splits)
  show ?thesis
    by (rule written_admins [OF assms(1) u db']) (use u' guard disable_refused [OF _ u] in \<open>auto simp: patched_user_def Let_def split: option.splits\<close>)
qed

lemma admins_kept_by_order:
  assumes "auth_inv db" "updatePortalModuleOrder i v db = Inr (n, db')"
  shows "keeps_admins db db'"
proof -
  obtain u u' where u: "account_by_id i db = Some u" and db': "db' = set_account i (\<lambda>_. u') db"
    and u': "acId u' = acId u" "acUsername u' = acUsername u" "acEnabled u' = acEnabled u"
    using assms(2) by (auto simp: updatePortalModuleOrder_def Let_def split: json.splits option.splits if_splits)
  show ?thesis by (rule written_admins [OF assms(1) u db']) (simp_all add: u')
qed

lemma admins_kept_by_delete: "deleteUsers h is db = Inr db' \<Longrightarrow> keeps_admins db db'"
  by (auto simp: deleteUsers_def assertCanDisableUsers_def err_simps disabled_where_def list_ex_iff split: if_splits
      intro!: keeps_admins_map)

lemma admins_kept_by_departure: "keeps_admins db (depart now gone db)"
proof -
  have "keeps_admins db (disabled_where (departing gone) db)"
    unfolding disabled_where_def by (rule keeps_admins_map) (simp add: departing_def)
  moreover have "keeps_admins (disabled_where (departing gone) db) (depart now gone db)"
    by (rule keeps_admins_same) (simp_all add: depart_def Let_def)
  ultimately show ?thesis by (rule keeps_admins_trans)
qed

lemma admins_kept_by_login: "keeps_admins db (login_stamp now i db)"
  unfolding login_stamp_def set_account_def by (rule keeps_admins_map) simp

lemma auth_next_admins:
  assumes "auth_next h s s'" "auth_inv (sys_db s)"
  shows "keeps_admins (sys_db s) (sys_db s')"
  using assms(1)
proof cases
  case (issues i now j1 j2 rowid answer db')
  then show ?thesis by (auto simp: issueTokens_def Let_def split: if_splits intro: keeps_admins_same)
next
  case (user_created salt i b db')
  then show ?thesis by (auto simp: createUser_def Let_def keeps_admins_def split: if_splits)
qed (use assms(2) in \<open>auto simp: refresh_revoke_def logout_def intro: keeps_admins_same admins_kept_by_login admins_kept_by_change
    admins_kept_by_reset admins_kept_by_admin_reset admins_kept_by_update admins_kept_by_delete admins_kept_by_departure admins_kept_by_order\<close>)

lemma employeeAction_effect:
  assumes "employeeAction h i action target paths db = Inr db'" "admin_inv db"
  shows "admin_inv db' \<and> keeps_admins db db'"
proof -
  note inv = assms(2) [unfolded admin_inv_def]
  obtain act where act: "employee_action_of action = Inr act"
    and guard: "act \<in> {DISABLE, DEPARTURE} \<longrightarrow> (\<exists>x. assertCanDisableUser i (tenant_code h) db = Inr x)"
    using assms(1) by (cases "employee_action_of action") (auto simp: employeeAction_def err_simps split: if_splits)
  obtain u where u: "account_by_id i db = Some u"
    using assms(1) act by (cases "account_by_id i db") (auto simp: employeeAction_def err_simps)
  consider "db' = db" | u' where "db' = set_account i (\<lambda>_. u') db" "acId u' = acId u" "acUsername u' = acUsername u"
      "recovery_ok u \<longrightarrow> recovery_ok u'" "acEnabled u \<and> isPrimaryAdminUsername (acUsername u) \<longrightarrow> acEnabled u'"
  proof (cases act)
    case HANDOVER
    then show thesis using assms(1) act u that(1) by (auto simp: employeeAction_def err_simps split: option.splits if_splits)
  next
    case TRANSFER
    then obtain ps where "db' = set_account i (\<lambda>_. u\<lparr>acPaths := ps\<rparr>) db"
      using assms(1) act u by (auto simp: employeeAction_def err_simps split: option.splits if_splits)
    then show thesis by (rule that(2)) (simp_all add: recovery_ok_def)
  next
    case DISABLE
    then have "db' = set_account i (\<lambda>_. u\<lparr>acEnabled := False\<rparr>) db"
      using assms(1) act u by (auto simp: employeeAction_def err_simps)
    then show thesis by (rule that(2)) (use DISABLE guard disable_refused [OF _ u] in \<open>auto simp: recovery_ok_def\<close>)
  next
    case DEPARTURE
    then have "db' = set_account i (\<lambda>_. u\<lparr>acEnabled := False\<rparr>) db"
      using assms(1) act u by (auto simp: employeeAction_def err_simps)
    then show thesis by (rule that(2)) (use DEPARTURE guard disable_refused [OF _ u] in \<open>auto simp: recovery_ok_def\<close>)
  qed
  then show ?thesis
  proof cases
    case 1
    then show ?thesis using assms(2) by (simp add: keeps_admins_same)
  next
    case (2 u')
    have "auth_keeps db db'" using written_back account_by_id_Some [OF u] 2 by blast
    then show ?thesis using inv written_admins [OF _ u 2(1-3,5)] 2(1)
      by (simp add: auth_keeps_def admin_inv_def grants_inv_def)
  qed
qed

lemma replace_in_charge:
  assumes "replace_grants newId tenant' userId inp actor db = Inr db'" "admin_inv db" "in_charge tenant i db"
  shows "in_charge tenant i db'"
proof -
  note inv = assms(2) [unfolded admin_inv_def]
  obtain target gs' where c: "replace_checks tenant' userId inp actor db = Inr (grant_of tenant' userId db, target)"
    and db': "db' = db\<lparr>grants := gs'\<rparr>" and ch: "grants_changed tenant' userId inp target (grants db) gs'"
    using replace_grants_effect [OF assms(1)] inv by blast
  obtain g where g: "g \<in> set (grants db)" "grTenant g = tenant" "grUser g = i" "grSystem g"
    using assms(3) by (auto simp: in_charge_def system_grant_def list_ex_iff)
  have acc: "accounts db' = accounts db" using db' by simp
  have "system_grant tenant i db'"
  proof (cases "(tenant, i) \<in> {(tenant', userId), (tenant', target)}")
    case False
    then have "g \<in> set gs'" using grants_changed_frame [OF ch] g by simp
    then show ?thesis using g db' by (auto simp: system_grant_def list_ex_iff)
  next
    case True
    have "i = userId"
    proof (rule ccontr)
      assume "i \<noteq> userId"
      then have "tenant = tenant'" "i = target" "target \<noteq> userId" using True by auto
      then have "grant_of tenant i db = None" using replace_checks_facts [OF c] by simp
      then show False using grant_of_row [OF g(1)] g(2,3) by simp
    qed
    then obtain user where u: "account_by_id i db = Some user"
        "isPrimaryAdminUsername (acUsername user) \<longrightarrow> giSystemAdmin inp \<and> target = userId"
      using replace_checks_facts [OF c] by blast
    obtain v where v: "v \<in> set (accounts db)" "acId v = i" "isPrimaryAdminUsername (acUsername v)"
      using assms(3) by (auto simp: in_charge_def)
    have "user = v" using found_is_by_id [of db v] inv v u(1) by simp
    then have "giSystemAdmin inp" "target = userId" using u(2) v(3) by simp_all
    then show ?thesis using ch True \<open>i = userId\<close> db' by (auto simp: grants_changed_def system_grant_def list_ex_iff)
  qed
  then show ?thesis using assms(3) acc by (simp add: in_charge_def)
qed

lemma keeps_in_charge: "keeps_admins db db' \<Longrightarrow> in_charge tenant i db \<Longrightarrow> in_charge tenant i db'"
  by (fastforce simp: keeps_admins_def in_charge_def system_grant_def)

lemma admin_next_inv:
  assumes "admin_next h s s'" "admin_inv (sys_db s)"
  shows "admin_inv (sys_db s') \<and> (in_charge tenant i (sys_db s) \<longrightarrow> in_charge tenant i (sys_db s'))"
  using assms(1)
proof cases
  case of_accounts
  have "keeps_admins (sys_db s) (sys_db s')" using auth_next_admins [OF of_accounts] assms(2) by (simp add: admin_inv_def)
  moreover have "admin_inv (sys_db s')" using auth_next_keeps [OF of_accounts] assms(2) calculation
    by (simp add: admin_inv_def auth_keeps_def keeps_admins_def grants_inv_def)
  ultimately show ?thesis using keeps_in_charge by blast
next
  case (granted newId tenant' userId inp actor db')
  have "grants_inv (sys_db s)" using assms(2) by (simp add: admin_inv_def)
  from granted(2) this obtain target gs' where "db' = (sys_db s)\<lparr>grants := gs'\<rparr>" "grants_inv db'"
    by (rule replace_grants_effect)
  then have "admin_inv db'" using assms(2) by (simp add: admin_inv_def auth_inv_def)
  then show ?thesis using granted replace_in_charge [OF granted(2) assms(2)] by simp
next
  case (employee i' action target paths db')
  then show ?thesis using employeeAction_effect [OF employee(2) assms(2)] keeps_in_charge by auto
qed

inductive admin_reach :: "auth_host \<Rightarrow> auth_sys \<Rightarrow> bool" for h where
  first: "admin_reach h \<lparr>sys_db = \<lparr>accounts = [], tokens = [], resets = [], grants = []\<rparr>, procs = []\<rparr>"
| next_admin: "admin_reach h s \<Longrightarrow> admin_next h s s' \<Longrightarrow> admin_reach h s'"

lemma admin_reach_inv: "admin_reach h s \<Longrightarrow> admin_inv (sys_db s)"
proof (induction rule: admin_reach.induct)
  case first
  then show ?case by (simp add: admin_inv_def auth_inv_def grants_inv_def)
next
  case (next_admin s s')
  then show ?case using admin_next_inv by blast
qed


text \<open>Only the account admin changes who is a system administrator.\<close>

lemma system_admins_changed_by_admin:
  assumes "replace_grants newId tenant userId inp actor db = Inr db'" "grants_inv db"
    and "system_grant tenant' i db' \<noteq> system_grant tenant' i db"
  shows "gaSystemAdmin actor \<and> isPrimaryAdminUsername (gaUsername actor)"
proof (rule ccontr)
  assume no: "\<not> (gaSystemAdmin actor \<and> isPrimaryAdminUsername (gaUsername actor))"
  obtain target gs' where c: "replace_checks tenant userId inp actor db = Inr (grant_of tenant userId db, target)"
    and db': "db' = db\<lparr>grants := gs'\<rparr>" and ch: "grants_changed tenant userId inp target (grants db) gs'"
    using replace_grants_effect [OF assms(1,2)] by blast
  have sys: "\<not> giSystemAdmin inp" "\<not> (\<exists>g. grant_of tenant userId db = Some g \<and> grSystem g)"
    and tgt: "target \<noteq> userId \<longrightarrow> grant_of tenant target db = None"
    using replace_checks_facts [OF c] no by blast+
  let ?P = "\<lambda>g. (grTenant g, grUser g) \<notin> {(tenant, userId), (tenant, target)}"
  have old: "?P g" if g: "g \<in> set (grants db)" "grSystem g" for g
  proof (rule ccontr)
    assume "\<not> ?P g"
    then consider "(grTenant g, grUser g) = (tenant, userId)" | "target \<noteq> userId" "(grTenant g, grUser g) = (tenant, target)" by auto
    then show False
    proof cases
      case 1
      then have "grant_of tenant userId db \<noteq> None" using grant_of_row [OF g(1)] by simp
      then obtain g' where "grant_of tenant userId db = Some g'" by blast
      then show False using same_grant(2) [OF assms(2) g(1)] grant_of_Some sys(2) g(2) 1 by (metis prod.inject)
    next
      case 2
      then show False using tgt grant_of_row [OF g(1)] by simp
    qed
  qed
  have new: "?P g" if "g \<in> set gs'" "grSystem g" for g
    using ch that sys(1) by (auto simp: grants_changed_def)
  have "(g \<in> set gs' \<and> grSystem g) = (g \<in> set (grants db) \<and> grSystem g)" for g
    using old [of g] new [of g] grants_changed_frame [OF ch, of g] by blast
  then show False using assms(3) db' by (auto simp: system_grant_def list_ex_iff)
qed

text \<open>The grant of a disabled person cannot be taken away, only moved to somebody else.\<close>

lemma disabled_grant_stays:
  assumes "account_by_id userId db = Some user" "\<not> acEnabled user" "giTargetUserId inp \<in> {None, Some userId}"
  shows "\<not> isOk (replace_grants newId tenant userId inp actor db)"
  using assms by (auto simp: replace_grants_def replace_checks_def Let_def)

end
