(* ===== verification/AccountRuns.thy ===== *)
theory AccountRuns
  imports AccountRecovery AdminGrants "HOL-Library.Code_Target_Nat"
begin

text \<open>
  Runs of the account system on a concrete host, which sign by writing a token out in full: witnesses, and schedules in which
  one request overtakes another.
\<close>

definition plain_hash :: "nat \<Rightarrow> string \<Rightarrow> string" where "plain_hash salt p = p"
definition plain_ok :: "string \<Rightarrow> string \<Rightarrow> bool" where "plain_ok p q = (p = q)"
definition plain_digest :: "string \<Rightarrow> string" where "plain_digest t = t"
definition plain_sign :: "string \<Rightarrow> jwt \<Rightarrow> string" where
  "plain_sign secret p = js_join ''/'' [secret, jwtType p, jwtSub p, jwtId p]"
definition plain_verify :: "string \<Rightarrow> nat \<Rightarrow> string \<Rightarrow> jwt option" where
  "plain_verify secret now token = (case js_split CHR ''/'' token of
     [k, t, i, j] \<Rightarrow> if k = secret then Some \<lparr>jwtSub = i, jwtType = t, jwtId = j, jwtExp = 604800\<rparr> else None
   | _ \<Rightarrow> None)"
definition plain_decode :: "string \<Rightarrow> jwt option" where "plain_decode t = None"

definition plain_host :: auth_host where
  "plain_host = \<lparr>bcrypt_hash = plain_hash, bcrypt_ok = plain_ok, digest = plain_digest, jwt_sign = plain_sign,
     jwt_verify = plain_verify, jwt_decode = plain_decode, access_secret = ''a'', refresh_secret = ''r'', access_ttl = 900,
     refresh_ttl = 604800, tenant_code = ''KAINAN''\<rparr>"

definition no_accounts :: auth_sys where
  "no_accounts = \<lparr>sys_db = \<lparr>accounts = [], tokens = [], resets = [], grants = []\<rparr>, procs = []\<rparr>"

definition member :: new_user where
  "member = \<lparr>nuUsername = ''member'', nuDisplay = ''Member'', nuPassword = Some ''Current123'', nuDivision = None, nuAlias = None,
     nuGender = None, nuMobile = None, nuEmail = Some ''Member@x.cn'', nuEmployeeNo = None, nuPosition = None, nuPaths = None\<rparr>"

definition ok_db :: "auth_error + auth_db \<Rightarrow> auth_db" where
  "ok_db m = (case m of Inr db \<Rightarrow> db | Inl _ \<Rightarrow> sys_db no_accounts)"

definition with_db :: "auth_db \<Rightarrow> proc list \<Rightarrow> auth_sys" where
  "with_db db ps = \<lparr>sys_db = db, procs = ps\<rparr>"

definition db1 :: auth_db where "db1 = ok_db (createUser plain_host 0 ''u1'' member (sys_db no_accounts))"
definition db2 :: auth_db where "db2 = login_stamp 1000 ''u1'' db1"
definition db3 :: auth_db where "db3 = ok_db (map_sum id snd (issueTokens plain_host 1000 ''j1'' ''j2'' ''t1'' ''u1'' db2))"
definition db4 :: auth_db where
  "db4 = ok_db (map_sum id snd (changePassword plain_host 2000 1 ''u1'' ''Current123'' ''Changed456'' '' Member@X.cn '' db3))"

definition token1 :: string where "token1 = ''r/refresh/u1/j2''"

lemma run_db:
  "createUser plain_host 0 ''u1'' member (sys_db no_accounts) = Inr db1"
  "map_sum id acId (login_check plain_host (Some '' member'') (Some ''Current123'') db1) = Inr ''u1''"
  "map_sum id snd (issueTokens plain_host 1000 ''j1'' ''j2'' ''t1'' ''u1'' db2) = Inr db3"
  "map_sum id snd (changePassword plain_host 2000 1 ''u1'' ''Current123'' ''Changed456'' '' Member@X.cn '' db3) = Inr db4"
  "isOk (refresh_check plain_host 1500 token1 db3)"
  by code_simp+

definition row1 :: refresh_token where
  "row1 = \<lparr>rtId = ''t1'', rtUser = ''u1'', rtHash = token1, rtExpires = 604801000, rtRevoked = None\<rparr>"

lemma row1_mem: "row1 \<in> set (tokens db3)"
  by code_simp

lemma with_db_simps [simp]: "sys_db (with_db db ps) = db" "procs (with_db db ps) = ps"
  "with_db db ps\<lparr>sys_db := db'\<rparr> = with_db db' ps" "with_db db ps\<lparr>procs := ps'\<rparr> = with_db db ps'"
  "with_db db ps\<lparr>sys_db := db', procs := ps'\<rparr> = with_db db' ps'"
  by (simp_all add: with_db_def)

lemma snd_ok: "map_sum id snd m = Inr db \<Longrightarrow> \<exists>a. m = Inr (a, db)"
  by (cases m) auto

text \<open>The steps on states written out.\<close>

lemma step_login:
  assumes "map_sum id acId (login_check h n p db) = Inr i" "map_sum id snd (issueTokens h t j1 j2 k i (login_stamp t i db)) = Inr db'"
  shows "(auth_next h)\<^sup>*\<^sup>* (with_db db ps) (with_db db' ps)"
proof -
  obtain u where u: "login_check h n p db = Inr u" "acId u = i" using assms(1) by (cases "login_check h n p db") auto
  have 1: "auth_next h (with_db db ps) (with_db db (Login_checked i # ps))"
    using login_reads [of h n p "with_db db ps" u] u by simp
  have 2: "auth_next h (with_db db (Login_checked i # ps)) (with_db (login_stamp t i db) (Issuing i # ps))"
    using login_writes [of i "with_db db (Login_checked i # ps)" h t] by simp
  obtain a where a: "issueTokens h t j1 j2 k i (login_stamp t i db) = Inr (a, db')" using snd_ok [OF assms(2)] by blast
  have 3: "auth_next h (with_db (login_stamp t i db) (Issuing i # ps)) (with_db db' ps)"
    using issues [of i "with_db (login_stamp t i db) (Issuing i # ps)" h t j1 j2 k a db'] a by simp
  show ?thesis using 1 2 3 by (meson rtranclp.rtrancl_into_rtrancl rtranclp.rtrancl_refl)
qed

lemma path_reach: "(auth_next h)\<^sup>*\<^sup>* s s' \<Longrightarrow> auth_reach h s \<Longrightarrow> auth_reach h s'"
  by (induction rule: rtranclp_induct) (auto intro: more)

lemma reach1: "auth_reach plain_host (with_db db1 [])"
proof -
  have "auth_reach plain_host no_accounts" unfolding no_accounts_def by (rule empty)
  moreover have "auth_next plain_host no_accounts (with_db db1 [])"
    using user_created [of plain_host 0 "''u1''" member no_accounts db1] run_db(1) by (simp add: with_db_def no_accounts_def)
  ultimately show ?thesis by (rule more)
qed

lemma reach3: "auth_reach plain_host (with_db db3 [])"
  using path_reach [OF step_login [OF run_db(2) run_db(3) [unfolded db2_def]] reach1] .

lemma change_result:
  obtains u where "changePassword plain_host 2000 1 ''u1'' ''Current123'' ''Changed456'' '' Member@X.cn '' db3 = Inr (u, db4)" "acId u = ''u1''"
proof -
  obtain u where u: "changePassword plain_host 2000 1 ''u1'' ''Current123'' ''Changed456'' '' Member@X.cn '' db3 = Inr (u, db4)"
    using snd_ok [OF run_db(4)] by blast
  then have "acId u = ''u1''" by (rule changePassword_id)
  then show thesis using that u by blast
qed

lemma step_change: "auth_next plain_host (with_db db3 ps) (with_db db4 (Issuing ''u1'' # ps))"
proof -
  obtain u where "changePassword plain_host 2000 1 ''u1'' ''Current123'' ''Changed456'' '' Member@X.cn '' db3 = Inr (u, db4)" "acId u = ''u1''"
    using change_result .
  then show ?thesis using password_changed [of plain_host 2000 1 "''u1''" "''Current123''" "''Changed456''" "'' Member@X.cn ''" "with_db db3 ps" u db4] by simp
qed

lemma change_ends: "ends_sessions plain_host ''u1'' db3 db4"
  unfolding ends_sessions_def using change_result by metis


section \<open>A renewal that is overtaken\<close>

text \<open>The renewal has read its token, then the password is changed, then the renewal goes on: its new token is accepted.\<close>

lemma step_refresh:
  assumes "refresh_check h t token db = Inr (r, sub)" "map_sum id acId (refresh_account sub db) = Inr i"
  shows "(auth_next h)\<^sup>*\<^sup>* (with_db db ps) (with_db db (Refresh_allowed r i # ps))"
proof -
  obtain u where u: "refresh_account sub db = Inr u" "acId u = i" using assms(2) by (cases "refresh_account sub db") auto
  have 1: "auth_next h (with_db db ps) (with_db db (Refresh_checked r sub # ps))"
    using refresh_reads [of h t token "with_db db ps" r sub] assms(1) by simp
  have 2: "auth_next h (with_db db (Refresh_checked r sub # ps)) (with_db db (Refresh_allowed r i # ps))"
    using refresh_reads_account [of r sub "with_db db (Refresh_checked r sub # ps)" u h] u by simp
  show ?thesis using 1 2 by (meson rtranclp.rtrancl_into_rtrancl rtranclp.rtrancl_refl)
qed

lemma step_renewed:
  assumes "Refresh_allowed r i \<in> set ps" "map_sum id snd (issueTokens h t j1 j2 k i (refresh_revoke t (rtId r) db)) = Inr db'"
  shows "(auth_next h)\<^sup>*\<^sup>* (with_db db ps) (with_db db' (remove1 (Refresh_allowed r i) ps))"
proof -
  let ?ps = "Issuing i # remove1 (Refresh_allowed r i) ps"
  have 1: "auth_next h (with_db db ps) (with_db (refresh_revoke t (rtId r) db) ?ps)"
    using refresh_writes [of r i "with_db db ps" h t] assms(1) by simp
  obtain a where a: "issueTokens h t j1 j2 k i (refresh_revoke t (rtId r) db) = Inr (a, db')" using snd_ok [OF assms(2)] by blast
  have 2: "auth_next h (with_db (refresh_revoke t (rtId r) db) ?ps) (with_db db' (remove1 (Refresh_allowed r i) ps))"
    using issues [of i "with_db (refresh_revoke t (rtId r) db) ?ps" h t j1 j2 k a db'] a by simp
  show ?thesis using 1 2 by (meson rtranclp.rtrancl_into_rtrancl rtranclp.rtrancl_refl)
qed

definition db5 :: auth_db where
  "db5 = ok_db (map_sum id snd (issueTokens plain_host 2100 ''j3'' ''j4'' ''t2'' ''u1'' (refresh_revoke 2100 (rtId row1) db4)))"

lemma overtaken_db:
  "refresh_check plain_host 1500 token1 db3 = Inr (row1, ''u1'')"
  "map_sum id acId (refresh_account ''u1'' db3) = Inr ''u1''"
  "map_sum id snd (issueTokens plain_host 2100 ''j3'' ''j4'' ''t2'' ''u1'' (refresh_revoke 2100 (rtId row1) db4)) = Inr db5"
  "isOk (refresh_check plain_host 3000 ''r/refresh/u1/j4'' db5)"
  by code_simp+

lemma renewal_overtakes_change:
  "auth_reach plain_host (with_db db3 [Refresh_allowed row1 ''u1'']) \<and>
   auth_next plain_host (with_db db3 [Refresh_allowed row1 ''u1'']) (with_db db4 [Issuing ''u1'', Refresh_allowed row1 ''u1'']) \<and>
   (auth_next plain_host)\<^sup>*\<^sup>* (with_db db4 [Issuing ''u1'', Refresh_allowed row1 ''u1'']) (with_db db5 [Issuing ''u1'']) \<and>
   isOk (refresh_check plain_host 3000 ''r/refresh/u1/j4'' db5)"
  using path_reach [OF step_refresh [OF overtaken_db(1,2)] reach3] step_change overtaken_db(4)
    step_renewed [OF _ overtaken_db(3), of "[Issuing ''u1'', Refresh_allowed row1 ''u1'']"] by simp

text \<open>Two renewals with one token, both accepted.\<close>

definition db6 :: auth_db where
  "db6 = ok_db (map_sum id snd (issueTokens plain_host 2100 ''j3'' ''j4'' ''t2'' ''u1'' (refresh_revoke 2100 (rtId row1) db3)))"

definition db7 :: auth_db where
  "db7 = ok_db (map_sum id snd (issueTokens plain_host 2200 ''j5'' ''j6'' ''t3'' ''u1'' (refresh_revoke 2200 (rtId row1) db6)))"

lemma twice_db:
  "map_sum id snd (issueTokens plain_host 2100 ''j3'' ''j4'' ''t2'' ''u1'' (refresh_revoke 2100 (rtId row1) db3)) = Inr db6"
  "map_sum id snd (issueTokens plain_host 2200 ''j5'' ''j6'' ''t3'' ''u1'' (refresh_revoke 2200 (rtId row1) db6)) = Inr db7"
  "isOk (refresh_check plain_host 3000 ''r/refresh/u1/j4'' db7)" "isOk (refresh_check plain_host 3000 ''r/refresh/u1/j6'' db7)"
  by code_simp+

lemma token_renewed_twice:
  "auth_reach plain_host (with_db db7 []) \<and>
   isOk (refresh_check plain_host 3000 ''r/refresh/u1/j4'' db7) \<and> isOk (refresh_check plain_host 3000 ''r/refresh/u1/j6'' db7)"
proof -
  let ?a = "Refresh_allowed row1 ''u1''"
  have "(auth_next plain_host)\<^sup>*\<^sup>* (with_db db3 []) (with_db db3 [?a, ?a])"
    using step_refresh [OF overtaken_db(1,2)] by (meson rtranclp_trans)
  moreover have "(auth_next plain_host)\<^sup>*\<^sup>* (with_db db3 [?a, ?a]) (with_db db6 [?a])"
    using step_renewed [OF _ twice_db(1), of "[?a, ?a]"] by simp
  moreover have "(auth_next plain_host)\<^sup>*\<^sup>* (with_db db6 [?a]) (with_db db7 [])"
    using step_renewed [OF _ twice_db(2), of "[?a]"] by simp
  ultimately have "(auth_next plain_host)\<^sup>*\<^sup>* (with_db db3 []) (with_db db7 [])" by (meson rtranclp_trans)
  then show ?thesis using path_reach [OF _ reach3] twice_db(3,4) by blast
qed

text \<open>A password set by an administrator leaves the sessions of the person as they are.\<close>

lemma admin_reset_keeps_sessions:
  "resetUserPassword h salt flag actor i expected db = Inr db' \<Longrightarrow> refresh_check h now token db' = refresh_check h now token db"
  "updateUser h salt i b db = Inr db' \<Longrightarrow> refresh_check h now token db' = refresh_check h now token db"
  by (auto simp: resetUserPassword_def updateUser_def refresh_check_def err_simps split: option.splits if_splits)

section \<open>Ten wrong addresses\<close>

definition guess :: "string \<Rightarrow> attempt" where
  "guess mail = \<lparr>atNow = 100000, atSalt1 = 1, atSalt2 = 2, atCandidates = [''Temp2345''], atMailed = True, atName = '' member'', atEmail = mail, atIp = None\<rparr>"

definition u1 :: account where "u1 = hd (accounts db3)"

lemma lockout_run:
  "account_by_id ''u1'' db3 = Some u1" "acEnabled u1" "acUsername u1 \<noteq> []" "list_all (guesses_wrong u1) (replicate 10 (guess ''other@x.cn''))"
  "length (filter (names u1) (replicate 10 (guess ''other@x.cn''))) = 10" "names u1 (guess ''member@x.cn'')"
  by code_simp+

text \<open>Before the tenth wrong address the recorded one is answered with a new password; after it, not.\<close>

lemma recovery_works: "isOk (fst (attempt_once plain_host (guess ''member@x.cn'') (snd (attempts plain_host (replicate 9 (guess ''other@x.cn'')) db3))))"
  by code_simp

lemma reset_lockout_witness:
  "fst (attempt_once plain_host (guess ''member@x.cn'') (snd (attempts plain_host (replicate 10 (guess ''other@x.cn'')) db3))) =
    Inl (Http 423 ''locked'')"
proof -
  obtain answers db answers' db' where
    a: "attempts plain_host (replicate 10 (guess ''other@x.cn'')) db3 = (answers, db)" and
    b: "attempts plain_host [guess ''member@x.cn''] db = (answers', db')" by (metis surj_pair)
  have "list_all2 (\<lambda>a answer. names u1 a \<longrightarrow> answer = Inl (Http 423 ''locked'')) [guess ''member@x.cn''] answers'"
    using reset_lockout [OF reach3 _ lockout_run(2-4) _ _ b, of "''u1''" answers] lockout_run(1,5) a by simp
  moreover have "answers' = [fst (attempt_once plain_host (guess ''member@x.cn'') db)]"
    using b by (auto simp: split_beta)
  ultimately show ?thesis using a lockout_run(6) by simp
qed

lemma temporary_password_ok_witness: "password_pattern (randomTemporaryPassword (\<lambda>k n. k mod n))"
  using temporary_password_ok [of "\<lambda>k n. k mod n"] by simp

section \<open>The account admin\<close>

definition admin_user :: new_user where
  "admin_user = member\<lparr>nuUsername := ''admin'', nuPassword := Some ''Secret99x''\<rparr>"

definition admin_db :: auth_db where "admin_db = ok_db (createUser plain_host 0 ''a1'' admin_user (sys_db no_accounts))"

definition as_admin :: grant_actor where
  "as_admin = \<lparr>gaUserId = Some ''a1'', gaUsername = ''admin'', gaSystemAdmin = True\<rparr>"

definition system_input :: grant_input where
  "system_input = \<lparr>giSystemAdmin = True, giModuleCodes = [], giExpectedVersion = None, giTargetUserId = None\<rparr>"

definition granted_db :: auth_db where
  "granted_db = ok_db (replace_grants ''g1'' ''KAINAN'' ''a1'' system_input as_admin admin_db)"

definition staffed_db :: auth_db where "staffed_db = ok_db (createUser plain_host 0 ''u1'' member granted_db)"

lemma admin_run:
  "createUser plain_host 0 ''a1'' admin_user (sys_db no_accounts) = Inr admin_db"
  "replace_grants ''g1'' ''KAINAN'' ''a1'' system_input as_admin admin_db = Inr granted_db"
  "createUser plain_host 0 ''u1'' member granted_db = Inr staffed_db"
  by code_simp+

lemma admin_reached: "admin_reach plain_host (with_db granted_db [])"
proof -
  have "admin_reach plain_host no_accounts" unfolding no_accounts_def by (rule first)
  moreover have "admin_next plain_host no_accounts (with_db admin_db [])"
    using of_accounts [OF user_created [of plain_host 0 "''a1''" admin_user no_accounts admin_db]] admin_run(1)
    by (simp add: with_db_def no_accounts_def)
  moreover have "admin_next plain_host (with_db admin_db []) (with_db granted_db [])"
    using granted [of "''g1''" "''KAINAN''" "''a1''" system_input as_admin "with_db admin_db []" granted_db plain_host] admin_run(2) by simp
  ultimately show ?thesis by (blast intro: next_admin)
qed


end
