(* ===== verification/AccountClaims.thy ===== *)
theory AccountClaims
  imports OrganizationIndex JsValues "HOL-Library.Monad_Syntax"
begin

text \<open>
  What a request may do: \<open>claimsFor\<close> of \<^verbatim>\<open>apps/api/src/auth.ts\<close>, which every
  authenticated request evaluates.  It joins roles, permission groups, organisation scopes and administrator grants,
  and walks the organisation twice: to the units below those a person leads, and to the divisions below the units of
  a role.  The first walk keeps a set of visited units; the second does not, so it is a partial function.  The table
  registry of the contracts package is the record \<open>registry\<close>.
\<close>

record claim_unit = org_unit +
  cuEnabled :: bool
  cuLeaders :: "string list"
  cuDivision :: "string option"

datatype role_name = GroupAdministrators | DivisionPlanningGroup | NamedRole string

record claim_role =
  roId :: string
  roName :: role_name
  roResource :: "string option"
  roGroupEnabled :: bool
  roScope :: "string option"
  roMatch :: string
  roRules :: "json list"

datatype table_action = ReadA | CreateA | CopyA | UpdateA | DeleteA | BatchPrintA | BatchUpdateA | ImportA | ExportA

definition table_actions :: "table_action list" where
  "table_actions = [ReadA, CreateA, CopyA, UpdateA, DeleteA, BatchPrintA, BatchUpdateA, ImportA, ExportA]"

fun action_text :: "table_action \<Rightarrow> string" where
  "action_text ReadA = ''read''" | "action_text CreateA = ''create''" | "action_text CopyA = ''copy''"
| "action_text UpdateA = ''update''" | "action_text DeleteA = ''delete''" | "action_text BatchPrintA = ''batch_print''"
| "action_text BatchUpdateA = ''batch_update''" | "action_text ImportA = ''import''" | "action_text ExportA = ''export''"

record role_permission =
  rpRole :: string
  rpResource :: string
  rpField :: string
  rpAllows :: "table_action \<Rightarrow> bool"

datatype group_subject = UserSubject string | RoleSubject string | OrganizationSubject string

record claims_db =
  clRoles :: "claim_role list"
  clUserRoles :: "(string \<times> string) list"
  clSubjects :: "(string \<times> group_subject) list"
  clUnits :: "claim_unit list"
  clOrgScopes :: "(string \<times> string) list"
  clPermissions :: "role_permission list"
  clScopes :: "(string \<times> string) list"

record registry =
  rgResources :: "(string \<times> string) list"
  rgFields :: "string \<Rightarrow> (string \<times> bool) list"
  rgModules :: "string list"

record claim_user =
  cuId :: string
  cuPaths :: "string list list"
  cuOwnDivision :: "string option"

record table_scope_claim =
  tcResource :: "string option"
  tcGroup :: string
  tcScope :: "string option"
  tcMatch :: string
  tcRules :: "json list"
  tcActions :: "string list"

record claims =
  clmRoles :: "role_name list"
  clmSystemAdmin :: bool
  clmModules :: "string list"
  clmScopes :: "table_scope_claim list"
  clmManaged :: "string list"
  clmDivisions :: "string list option"
  clmPermissions :: "string list"

section \<open>The units below those a person leads\<close>

text \<open>One pass of the loop over all units; the set grows during the pass.\<close>

definition managed_pass :: "claim_unit list \<Rightarrow> string list \<Rightarrow> string list" where
  "managed_pass units ids = foldl (\<lambda>ids u.
     if cuEnabled u \<and> (case unitParent u of None \<Rightarrow> False | Some p \<Rightarrow> p \<noteq> [] \<and> p \<in> set ids) \<and> unitId u \<notin> set ids
     then ids @ [unitId u] else ids) ids units"

definition led_units :: "claim_unit list \<Rightarrow> string \<Rightarrow> string list" where
  "led_units units user = js_dedup (map unitId (filter (\<lambda>u. cuEnabled u \<and> user \<in> set (cuLeaders u)) units))"

lemma managed_pass_snoc:
  "managed_pass (units @ [u]) ids = (let ids' = managed_pass units ids in
     if cuEnabled u \<and> (case unitParent u of None \<Rightarrow> False | Some p \<Rightarrow> p \<noteq> [] \<and> p \<in> set ids') \<and> unitId u \<notin> set ids'
     then ids' @ [unitId u] else ids')"
  by (simp add: managed_pass_def Let_def)

lemma managed_pass_grows: "\<exists>new. managed_pass units ids = ids @ new \<and> set new \<subseteq> unitId ` set units \<and> set new \<inter> set ids = {}"
proof (induction units rule: rev_induct)
  case Nil
  show ?case by (simp add: managed_pass_def)
next
  case (snoc u units)
  then obtain new where "managed_pass units ids = ids @ new" "set new \<subseteq> unitId ` set units" "set new \<inter> set ids = {}" by blast
  then show ?case by (auto simp: managed_pass_snoc Let_def)
qed

lemma managed_pass_measure:
  assumes "managed_pass units ids \<noteq> ids"
  shows "card (unitId ` set units - set (managed_pass units ids)) < card (unitId ` set units - set ids)"
proof -
  obtain new where new: "managed_pass units ids = ids @ new" "set new \<subseteq> unitId ` set units" "set new \<inter> set ids = {}"
    using managed_pass_grows by blast
  then obtain x where "x \<in> set new" using assms by (cases new) auto
  then show ?thesis using new by (intro psubset_card_mono) auto
qed

function managed_loop :: "claim_unit list \<Rightarrow> string list \<Rightarrow> string list" where
  "managed_loop units ids = (let ids' = managed_pass units ids in if ids' = ids then ids else managed_loop units ids')"
  by pat_completeness auto
termination
  by (relation "measure (\<lambda>(units, ids). card (unitId ` set units - set ids))") (auto simp: managed_pass_measure)

declare managed_loop.simps [simp del]

definition managedUnits :: "claim_unit list \<Rightarrow> string \<Rightarrow> string list" where
  "managedUnits units user = managed_loop units (led_units units user)"

inductive managed_by :: "claim_unit list \<Rightarrow> string \<Rightarrow> string \<Rightarrow> bool" for units user where
  leads: "u \<in> set units \<Longrightarrow> cuEnabled u \<Longrightarrow> user \<in> set (cuLeaders u) \<Longrightarrow> managed_by units user (unitId u)"
| under: "managed_by units user p \<Longrightarrow> u \<in> set units \<Longrightarrow> cuEnabled u \<Longrightarrow> unitParent u = Some p \<Longrightarrow> p \<noteq> [] \<Longrightarrow>
    managed_by units user (unitId u)"

lemma managed_pass_sound:
  "(\<And>i. i \<in> set ids \<Longrightarrow> managed_by all user i) \<Longrightarrow> set units \<subseteq> set all \<Longrightarrow> i \<in> set (managed_pass units ids) \<Longrightarrow> managed_by all user i"
proof (induction units arbitrary: i rule: rev_induct)
  case Nil
  then show ?case by (simp add: managed_pass_def)
next
  case (snoc u units)
  then show ?case by (auto simp: managed_pass_snoc Let_def split: if_splits option.splits intro: under)
qed

lemma managed_pass_closed:
  assumes "managed_pass units ids = ids" "u \<in> set units" "cuEnabled u" "unitParent u = Some p" "p \<noteq> []" "p \<in> set ids"
  shows "unitId u \<in> set ids"
proof -
  have mono: "set ids \<subseteq> set (managed_pass us ids)" for us using managed_pass_grows [of us ids] by auto
  have "unitId u \<in> set (managed_pass us ids)" if "u \<in> set us" for us
    using that
  proof (induction us rule: rev_induct)
    case (snoc v us)
    then show ?case using assms(3-6) mono [of us] by (auto simp: managed_pass_snoc Let_def)
  qed simp
  then show ?thesis using assms(1,2) by metis
qed

lemma managed_loop_sound:
  "(\<And>i. i \<in> set ids \<Longrightarrow> managed_by units user i) \<Longrightarrow> i \<in> set (managed_loop units ids) \<Longrightarrow> managed_by units user i"
proof (induction units ids arbitrary: i rule: managed_loop.induct)
  case (1 units ids)
  show ?case
  proof (cases "managed_pass units ids = ids")
    case True
    then show ?thesis using 1(2,3) by (simp add: managed_loop.simps [of units ids])
  next
    case False
    then have "i \<in> set (managed_loop units (managed_pass units ids))"
      using 1(3) by (subst (asm) managed_loop.simps) (simp add: Let_def)
    then show ?thesis using 1(1) [OF refl False] managed_pass_sound [OF 1(2)] by blast
  qed
qed

lemma managed_loop_fixed: "managed_pass units (managed_loop units ids) = managed_loop units ids \<and> set ids \<subseteq> set (managed_loop units ids)"
proof (induction units ids rule: managed_loop.induct)
  case (1 units ids)
  show ?case
  proof (cases "managed_pass units ids = ids")
    case True
    then show ?thesis by (simp add: managed_loop.simps [of units ids])
  next
    case False
    have "set ids \<subseteq> set (managed_pass units ids)" using managed_pass_grows [of units ids] by auto
    then show ?thesis using 1 [OF refl False] False by (subst (1 2 3) managed_loop.simps) (auto simp: Let_def)
  qed
qed

text \<open>C39: The units a person manages are those led by the person and the enabled units below them along enabled units,
  on any table of units.\<close>

theorem managed_units_correct: "set (managedUnits units user) = {i. managed_by units user i}"
proof
  have led: "i \<in> set (led_units units user) \<longleftrightarrow> (\<exists>u \<in> set units. cuEnabled u \<and> user \<in> set (cuLeaders u) \<and> unitId u = i)" for i
    by (auto simp: led_units_def)
  show "set (managedUnits units user) \<subseteq> {i. managed_by units user i}"
    using managed_loop_sound [of "led_units units user" units user] led by (auto simp: managedUnits_def intro: leads)
  have "managed_by units user i \<Longrightarrow> i \<in> set (managedUnits units user)" for i
  proof (induction rule: managed_by.induct)
    case (leads u)
    then have "unitId u \<in> set (led_units units user)" using led by blast
    then show ?case using managed_loop_fixed [of units "led_units units user"] unfolding managedUnits_def by blast
  next
    case (under p u)
    then show ?case using managed_pass_closed managed_loop_fixed by (metis managedUnits_def)
  qed
  then show "{i. managed_by units user i} \<subseteq> set (managedUnits units user)" by blast
qed

section \<open>The divisions below a unit\<close>

definition next_frontier :: "claim_unit list \<Rightarrow> string list \<Rightarrow> string list" where
  "next_frontier units current = concat (map (\<lambda>u. map unitId (filter (\<lambda>c. unitParent c = Some (unitId u)) units))
     (filter (\<lambda>u. unitId u \<in> set current) units))"

text \<open>The loop \<open>while (frontier.length)\<close>.  No result means that it does not end.\<close>

partial_function (option) division_walk :: "claim_unit list \<Rightarrow> string list \<Rightarrow> claim_unit list \<Rightarrow> claim_unit list option" where
  "division_walk units frontier subtree =
     (if frontier = [] then Some subtree
      else division_walk units (next_frontier units frontier) (subtree @ filter (\<lambda>u. unitId u \<in> set frontier) units))"

definition child_ids :: "claim_unit list \<Rightarrow> (string \<times> string) set" where
  "child_ids units = {(p, c). \<exists>u \<in> set units. \<exists>v \<in> set units. unitId u = p \<and> unitId v = c \<and> unitParent v = Some p}"

lemma set_next_frontier: "set (next_frontier units current) = child_ids units `` set current"
  by (auto simp: next_frontier_def child_ids_def)

lemma finite_child_ids: "finite (child_ids units)"
proof -
  have "child_ids units \<subseteq> unitId ` set units \<times> unitId ` set units" by (auto simp: child_ids_def)
  then show ?thesis by (rule finite_subset) simp
qed

text \<open>A walk that ends meets no cycle and every unit it reaches.\<close>

definition walk_result :: "claim_unit list \<Rightarrow> string list \<Rightarrow> claim_unit list \<Rightarrow> claim_unit list \<Rightarrow> bool" where
  "walk_result units frontier subtree r =
     ((\<nexists>x y. x \<in> set frontier \<and> (x, y) \<in> (child_ids units)\<^sup>* \<and> (y, y) \<in> (child_ids units)\<^sup>+) \<and>
      set r = set subtree \<union> {u \<in> set units. \<exists>x \<in> set frontier. (x, unitId u) \<in> (child_ids units)\<^sup>*})"

lemma division_walk_sound: "division_walk units frontier subtree = Some r \<Longrightarrow> walk_result units frontier subtree r"
proof (erule division_walk.raw_induct [where P = walk_result, rotated])
  fix walk units frontier subtree r
  assume step: "\<And>units frontier subtree r. walk units frontier subtree = Some r \<Longrightarrow> walk_result units frontier subtree r"
    and body: "(if frontier = [] then Some subtree
      else walk units (next_frontier units frontier) (subtree @ filter (\<lambda>u. unitId u \<in> set frontier) units)) = Some r"
  let ?R = "child_ids units"
  show "walk_result units frontier subtree r"
  proof (cases "frontier = []")
    case True
    then show ?thesis using body by (simp add: walk_result_def)
  next
    case False
    then have w: "walk units (next_frontier units frontier) (subtree @ filter (\<lambda>u. unitId u \<in> set frontier) units) = Some r"
      using body by simp
    note ih = step [OF w, unfolded walk_result_def set_next_frontier]
    have onward: "\<exists>z \<in> ?R `` set frontier. (z, y) \<in> ?R\<^sup>*" if "x \<in> set frontier" "(x, y) \<in> ?R\<^sup>*" "(y, y) \<in> ?R\<^sup>+" for x y
    proof -
      have "(x, y) \<in> ?R\<^sup>+" using that(2,3) by (meson rtrancl_trancl_trancl)
      then obtain z where "(x, z) \<in> ?R" "(z, y) \<in> ?R\<^sup>*" by (meson tranclD)
      then show ?thesis using that(1) by blast
    qed
    have reach: "(\<exists>x \<in> set frontier. (x, i) \<in> ?R\<^sup>*) \<longleftrightarrow> i \<in> set frontier \<or> (\<exists>z \<in> ?R `` set frontier. (z, i) \<in> ?R\<^sup>*)" for i
      by (auto elim: converse_rtranclE intro: converse_rtrancl_into_rtrancl)
    have "\<nexists>x y. x \<in> set frontier \<and> (x, y) \<in> ?R\<^sup>* \<and> (y, y) \<in> ?R\<^sup>+" using ih onward by blast
    then show ?thesis unfolding walk_result_def using ih reach by auto
  qed
qed

lemma relpow_step: "R ^^ Suc n = R O R ^^ n"
  by (simp add: relpow_commute)

lemma division_walk_total:
  assumes "(child_ids units ^^ n) `` set frontier = {}"
  shows "\<exists>r. division_walk units frontier subtree = Some r"
  using assms
proof (induction n arbitrary: frontier subtree)
  case 0
  then show ?case by (subst division_walk.simps) simp
next
  case (Suc n)
  have "(child_ids units ^^ n) `` set (next_frontier units frontier) = {}"
    using Suc.prems unfolding set_next_frontier relpow_step by (simp add: relcomp_Image)
  from Suc.IH [OF this] show ?case by (subst division_walk.simps) auto
qed

text \<open>Without a cycle below it, a unit has no descendants beyond some depth.\<close>

lemma bounded_depth:
  assumes "finite R" "\<nexists>y. (x, y) \<in> R\<^sup>* \<and> (y, y) \<in> R\<^sup>+"
  shows "\<exists>n. (R ^^ n) `` {x} = {}"
proof -
  define D where "D = R \<inter> {y. (x, y) \<in> R\<^sup>*} \<times> UNIV"
  have sub: "D \<subseteq> R" by (auto simp: D_def)
  have "(x, y) \<in> R\<^sup>*" if "(y, z) \<in> D\<^sup>+" for y z
    using that by (auto simp: D_def elim: converse_tranclE)
  moreover have "(y, z) \<in> R\<^sup>+" if "(y, z) \<in> D\<^sup>+" for y z
    using that sub by (meson trancl_mono)
  ultimately have "acyclic D" using assms(2) unfolding acyclic_def by blast
  then have wf: "wf (D\<inverse>)" using assms(1) sub by (meson finite_acyclic_wf_converse finite_subset)
  have "(x, y) \<in> R\<^sup>* \<Longrightarrow> \<exists>n. (R ^^ n) `` {y} = {}" for y
  proof (induction y rule: wf_induct_rule [OF wf])
    case (1 y)
    have fin: "finite (R `` {y})" using assms(1) by (simp add: finite_Image)
    have "\<forall>z \<in> R `` {y}. \<exists>n. (R ^^ n) `` {z} = {}"
    proof
      fix z assume "z \<in> R `` {y}"
      then have "(y, z) \<in> R" by simp
      then have "(z, y) \<in> D\<inverse>" "(x, z) \<in> R\<^sup>*" using 1(2) by (auto simp: D_def)
      then show "\<exists>n. (R ^^ n) `` {z} = {}" by (rule 1(1))
    qed
    then obtain d where d: "\<And>z. z \<in> R `` {y} \<Longrightarrow> (R ^^ d z) `` {z} = {}" by metis
    have later: "(R ^^ m) `` {z} = {}" if "(R ^^ n) `` {z} = {}" "n \<le> m" for m n z
    proof -
      have "R ^^ m = R ^^ n O R ^^ (m - n)" using that(2) by (metis le_add_diff_inverse relpow_add)
      then show ?thesis using that(1) by auto
    qed
    let ?m = "Max (insert 0 (d ` (R `` {y})))"
    have "(R ^^ ?m) `` {z} = {}" if z: "z \<in> R `` {y}" for z
      by (rule later [OF d [OF z]]) (use fin z in simp)
    then have "(R ^^ Suc ?m) `` {y} = {}" unfolding relpow_step by auto
    then show ?case by blast
  qed
  then show ?thesis by blast
qed

text \<open>C40: The walk to the divisions below a unit returns exactly when no cycle of units is below it, and then it has
  found that unit and all its descendants.\<close>

theorem division_walk_correct:
  "map_option set (division_walk units [i] []) =
     (if \<exists>y. (i, y) \<in> (child_ids units)\<^sup>* \<and> (y, y) \<in> (child_ids units)\<^sup>+ then None
      else Some {u \<in> set units. (i, unitId u) \<in> (child_ids units)\<^sup>*})"
proof (cases "\<exists>y. (i, y) \<in> (child_ids units)\<^sup>* \<and> (y, y) \<in> (child_ids units)\<^sup>+")
  case True
  then have "division_walk units [i] [] = None" using division_walk_sound [of units "[i]" "[]"] unfolding walk_result_def by (cases "division_walk units [i] []") auto
  then show ?thesis using True by simp
next
  case False
  then obtain n where "(child_ids units ^^ n) `` set [i] = {}" using bounded_depth [OF finite_child_ids False] by auto
  then obtain r where r: "division_walk units [i] [] = Some r" using division_walk_total by blast
  then show ?thesis using False division_walk_sound [OF r] by (simp add: walk_result_def)
qed

section \<open>The claims\<close>

definition belongs :: "claims_db \<Rightarrow> claim_user \<Rightarrow> string \<Rightarrow> bool" where
  "belongs db user org = list_ex (\<lambda>path. departmentPathBelongsTo (map org_unit.truncate (clUnits db)) path org) (cuPaths user)"

definition role_ids :: "claims_db \<Rightarrow> claim_user \<Rightarrow> string list" where
  "role_ids db user = js_dedup (map snd (filter (\<lambda>l. fst l = cuId user) (clUserRoles db)) @
     map fst (filter (\<lambda>s. belongs db user (snd s)) (clOrgScopes db)))"

definition subject_matches :: "claims_db \<Rightarrow> claim_user \<Rightarrow> group_subject \<Rightarrow> bool" where
  "subject_matches db user s = (case s of UserSubject i \<Rightarrow> i = cuId user
     | RoleSubject r \<Rightarrow> r \<in> set (role_ids db user) | OrganizationSubject org \<Rightarrow> belongs db user org)"

definition effective_groups :: "claims_db \<Rightarrow> claim_user \<Rightarrow> claim_role list" where
  "effective_groups db user = filter (\<lambda>r. roResource r \<noteq> None \<and> roGroupEnabled r \<and>
     list_ex (\<lambda>(role, s). role = roId r \<and> subject_matches db user s) (clSubjects db)) (clRoles db)"

definition effective_permissions :: "claims_db \<Rightarrow> claim_user \<Rightarrow> role_permission list" where
  "effective_permissions db user =
     (let ids = role_ids db user @ map roId (effective_groups db user)
      in filter (\<lambda>p. rpRole p \<in> set ids) (clPermissions db))"

text \<open>Which actions of a row count: all for the row \<open>*\<close> and for resources without a registered table; otherwise
  those on a field of the table, and updates only of editable fields that are read.\<close>

definition counts :: "registry \<Rightarrow> role_permission \<Rightarrow> table_action \<Rightarrow> bool" where
  "counts rg p a = (rpAllows p a \<and> (rpField p = ''*'' \<or> rpResource p \<notin> fst ` set (rgResources rg) \<or>
     list_ex (\<lambda>(key, editable). key = rpField p \<and> (a \<noteq> UpdateA \<or> editable \<and> rpAllows p ReadA)) (rgFields rg (rpResource p))))"

definition permission_text :: "string \<Rightarrow> string \<Rightarrow> table_action \<Rightarrow> string" where
  "permission_text resource field a = js_join '':'' [resource, field, action_text a]"

definition group_scope :: "role_permission list \<Rightarrow> claim_role \<Rightarrow> table_scope_claim" where
  "group_scope perms r = \<lparr>tcResource = roResource r, tcGroup = roId r, tcScope = roScope r, tcMatch = roMatch r, tcRules = roRules r,
     tcActions = (case find (\<lambda>p. rpRole p = roId r \<and> rpField p = ''*'') perms of
        None \<Rightarrow> [] | Some p \<Rightarrow> map action_text (filter (rpAllows p) table_actions))\<rparr>"

definition module_scope :: "string \<times> string \<Rightarrow> table_scope_claim" where
  "module_scope rm = \<lparr>tcResource = Some (fst rm), tcGroup = ''module-admin:'' @ snd rm, tcScope = Some ''ALL'', tcMatch = ''ALL'',
     tcRules = [], tcActions = map action_text table_actions\<rparr>"

text \<open>The divisions of one organisation scope of a role; no result when the walk does not end.\<close>

definition scope_divisions :: "claims_db \<Rightarrow> string \<Rightarrow> string list option" where
  "scope_divisions db org = (case find (\<lambda>u. unitId u = org) (clUnits db) of
     None \<Rightarrow> Some []
   | Some u \<Rightarrow> (case division_walk (clUnits db) [unitId u] [] of
       None \<Rightarrow> None
     | Some us \<Rightarrow> Some (concat (map (\<lambda>v. case cuDivision v of None \<Rightarrow> [] | Some d \<Rightarrow> if d = [] then [] else [d]) (us @ [u])))))"

fun all_divisions :: "claims_db \<Rightarrow> string list \<Rightarrow> string list option" where
  "all_divisions db [] = Some []"
| "all_divisions db (org # orgs) = Option.bind (scope_divisions db org) (\<lambda>ds. map_option ((@) ds) (all_divisions db orgs))"

definition claimsFor :: "registry \<Rightarrow> claims_db \<Rightarrow> (bool \<times> string list) option \<Rightarrow> claim_user \<Rightarrow> claims option" where
  "claimsFor rg db grant user =
     (let ids = role_ids db user;
          roles = filter (\<lambda>r. roId r \<in> set ids) (clRoles db);
          groups = effective_groups db user;
          perms = effective_permissions db user;
          orgs = map snd (filter (\<lambda>s. fst s \<in> set ids) (clOrgScopes db));
          sysadmin = (case grant of None \<Rightarrow> False | Some (s, _) \<Rightarrow> s);
          codes = (if sysadmin then [] else case grant of None \<Rightarrow> [] | Some (_, ms) \<Rightarrow> filter (\<lambda>m. m \<in> set (rgModules rg)) ms);
          full = (sysadmin \<or> list_ex (\<lambda>r. roName r = GroupAdministrators) roles);
          own = (if list_ex (\<lambda>r. roName r = DivisionPlanningGroup) roles
                 then (case cuOwnDivision user of None \<Rightarrow> [] | Some d \<Rightarrow> if d = [] then [] else [d]) else []);
          resources = filter (\<lambda>r. snd r \<in> set codes) (rgResources rg)
      in map_option (\<lambda>below. \<lparr>clmRoles = map roName roles, clmSystemAdmin = sysadmin, clmModules = codes,
           clmScopes = map (group_scope perms) groups @ map module_scope resources,
           clmManaged = managedUnits (clUnits db) (cuId user),
           clmDivisions = (if full then None
             else Some (js_dedup (map snd (filter (\<lambda>s. fst s \<in> set ids) (clScopes db)) @ below @ own))),
           clmPermissions = (if sysadmin then [''*'']
             else js_dedup (concat (map (\<lambda>p. map (permission_text (rpResource p) (rpField p)) (filter (counts rg p) table_actions)) perms) @
               concat (map (\<lambda>r. map (permission_text (fst r) ''*'') table_actions) resources)))\<rparr>)
         (all_divisions db orgs))"

text \<open>The claims of a person are computed exactly when no organisation scope of a role has a cycle below it.\<close>

lemma scope_divisions_total:
  assumes "acyclic (child_ids (clUnits db))"
  shows "\<exists>ds. scope_divisions db org = Some ds"
proof -
  have "\<exists>us. division_walk (clUnits db) [i] [] = Some us" for i
    using division_walk_correct [of "clUnits db" i] assms by (auto simp: acyclic_def split: if_splits)
  then show ?thesis by (metis (no_types, lifting) option.case_eq_if scope_divisions_def option.distinct(1))
qed

lemma claimsFor_returns:
  assumes "acyclic (child_ids (clUnits db))"
  shows "\<exists>c. claimsFor rg db grant user = Some c"
proof -
  have "\<exists>ds. all_divisions db orgs = Some ds" for orgs
  proof (induction orgs)
    case (Cons org orgs)
    then obtain d ds where "scope_divisions db org = Some d" "all_divisions db orgs = Some ds"
      using scope_divisions_total [OF assms] by blast
    then show ?case by simp
  qed simp
  then show ?thesis by (auto simp: claimsFor_def Let_def)
qed

end
