(* ===== verification/Spec2Isabelle.thy ===== *)
theory Spec2Isabelle
  imports KnowledgeContentLaws DraftSession DevelopmentRequestsLaws KnowledgeLaws FilterLaws MaterialHistory RdWatermark MasterPlan ShippingWindow SupervisionLaws SyncWorkers NoticeRuns AllocationDelivery AccountRuns AccountClaims
begin
text \<open>
  This development models the core logic of company_digital, a management platform of a company written in
  TypeScript: a NestJS server over PostgreSQL (\<^verbatim>\<open>src/apps/api\<close>), a worker
  (\<^verbatim>\<open>src/apps/worker\<close>), a React client (\<^verbatim>\<open>src/apps/web\<close>) and shared
  packages (\<^verbatim>\<open>src/packages\<close>).  Functions keep the names of the source.  A function that throws is
  a function into a sum type, the error on the left; tables are lists of records in the order of insertion; a
  command of a service, which runs in one database transaction, is a function from the tables before it to an
  error or the tables after it.  A request body is a JavaScript value (\<open>jsval\<close>), so the checks on its
  types are part of the models.

  \<^bold>\<open>How the parts interact.\<close>  Every request carries an actor, whose claims are computed anew from the account, its
  roles and its grants.  The organisation index answers which
  departments and people the actor stands above; the authorisation of the knowledge base and of supervision
  restricts what a command may read and write; the filter compiler turns the filter of a table request into SQL
  that the services add to their conditions; the knowledge editor in the browser sends its saves, with the version
  it edited, to the page commands.  The master plan enqueues events in an outbox which the synchronisation workers
  process; order allocations and other modules enqueue notifications, which dispatchers claim and report on.

  \<^bold>\<open>Shared theories.\<close>
  \<^item> \<open>Prelude\<close>: sums with their binds, lists of checks, tables by key, JavaScript text
    operations (trim, replace, substring) and the lemma collections the other theories extend.
  \<^item> \<open>JsValues\<close>: JavaScript values, truthiness, conversions to text and number.
  \<^item> \<open>Calendar\<close>, \<open>JsSort\<close>: days of the proleptic Gregorian calendar with the arithmetic of
    \<open>Date\<close>, and \<open>Array.sort\<close> as a stable sort for a comparison.
  \<^item> \<open>Forest\<close>: walks along parent links with a visited set; they equal reachability on any table,
    cyclic ones included.
  \<^item> \<open>SqlLogic\<close>: three-valued truth of SQL conditions.

  \<^bold>\<open>Knowledge base\<close> (\<^verbatim>\<open>apps/api/src/modules/knowledge\<close>).
  \<^item> \<open>KnowledgeContent\<close>, \<open>KnowledgeContentLaws\<close>: \<^verbatim>\<open>knowledge.content.ts\<close>, the
    validator of editor documents, and the grammar it decides (sound, and complete within the limits of 10000 nodes
    and 25 levels).
  \<^item> \<open>OrganizationIndex\<close>, \<open>KnowledgeScope\<close>: \<^verbatim>\<open>packages/permissions/src/index.ts\<close>,
    \<^verbatim>\<open>common/filtering/data-scope.ts\<close> and \<^verbatim>\<open>knowledge.scope.ts\<close>: membership,
    access levels along the chain of restricted pages, and the condition of each mode.
  \<^item> \<open>KnowledgeSpaces\<close>, \<open>KnowledgePages\<close>, \<open>KnowledgeFolders\<close>, \<open>KnowledgeFiles\<close>:
    the tables (record \<open>kb\<close>) and each command of \<^verbatim>\<open>knowledge.application.service.ts\<close>,
    \<^verbatim>\<open>knowledge.folders.service.ts\<close>, \<^verbatim>\<open>knowledge.files.service.ts\<close> and
    \<^verbatim>\<open>knowledge.preview.service.ts\<close>, with the unique indexes and triggers of the migrations they rely
    on.  The object storage is a list of keys outside the transaction: an upload may store an object and fail.
  \<^item> \<open>KnowledgeRun\<close>, \<open>KnowledgeStorage\<close>: all commands as one type, and the system of commands,
    uploads, clean-up runs with a storage that may refuse, and the preview worker, as an inductive step relation.
  \<^item> \<open>PageTree\<close>, \<open>KnowledgeTree\<close>: the abstract page tree and the simulation: every command is a
    step of it.  \<open>KnowledgeFolderTree\<close>, \<open>KnowledgePublication\<close>, \<open>KnowledgeVersions\<close>,
    \<open>KnowledgeAccess\<close>: the invariants of folders, published versions, version numbers and access lists.
  \<^item> \<open>KnowledgeLaws\<close>: the properties; \<open>KnowledgeSample\<close>: a reachable knowledge base on which
    their witnesses run.
  \<^item> \<open>DraftSession\<close>: \<^verbatim>\<open>apps/web/src/modules/knowledge/knowledge-autosave.ts\<close>, the editor
    session and the cache of drafts, as steps over edits, answers, failures and timers.

  \<^bold>\<open>Development requests\<close>.  \<open>ApprovalPolicy\<close>: \<^verbatim>\<open>packages/workflow-sdk\<close>.
  \<open>DevelopmentRequests\<close>: \<^verbatim>\<open>development-request.workflow.ts\<close> and
  \<^verbatim>\<open>development-request.service.ts\<close>, the state machine of a request with every command;
  \<open>DevelopmentRequestsLaws\<close>: the life cycle and separation of duties in every reachable state, through the
  locale \<open>stage_table\<close> of \<open>ApprovalPolicy\<close>, interpreted as \<open>dev\<close> on the model.

  \<^bold>\<open>Table filters\<close> (\<^verbatim>\<open>common/filtering\<close>).  \<open>DynamicDate\<close>, \<open>FilterGroups\<close>,
  \<open>FilterCompiler\<close>: \<^verbatim>\<open>dynamic-date.ts\<close>, \<^verbatim>\<open>filter.contract.ts\<close> and
  \<^verbatim>\<open>sql-filter.compiler.ts\<close> with the operator registry of the contracts package;
  \<open>FilterLaws\<close>: limits, permissions, errors and the alphabet of the SQL text.

  \<^bold>\<open>Research and development\<close> (\<^verbatim>\<open>modules/rd\<close>).  \<open>TextDiff\<close> (a table of
  16-bit cells, kept as words), \<open>MaterialFeatures\<close>, \<open>MaterialScan\<close>, \<open>MaterialHistory\<close>:
  the duplicate search of materials and its stored result; \<open>RdWatermark\<close>: the cursor of the
  synchronisation.

  \<^bold>\<open>Master plan\<close> (\<^verbatim>\<open>modules/master-plan-system\<close>).  \<open>MasterPlan\<close>: the rules of
  \<^verbatim>\<open>master-plan.domain.ts\<close> and \<^verbatim>\<open>master-plan.bom-process.domain.ts\<close>;
  \<open>ShippingWindow\<close>: when the shipping plan may be edited.  \<open>SyncRunner\<close>: every transaction of
  \<^verbatim>\<open>master-plan.sync-runner.ts\<close> and the loops over them; \<open>SyncTables\<close>: a locale for tables
  whose rows carry a version, interpreted on its three tables, and the effect of each statement;
  \<open>SyncRunnerLaws\<close>: any number of workers, failures, lost answers and edits of users, interleaved by
  transaction; \<open>SyncWorkers\<close>: one worker's loop is a path of that system and ends.

  \<^bold>\<open>Supervision\<close> (\<^verbatim>\<open>modules/supervision\<close>).  \<open>SupervisionInput\<close>: checks on
  bodies, permissions and display rules; \<open>Supervision\<close>: the commands over projects, tasks, progress rows and
  the audit log; \<open>SupervisionLaws\<close>: the constraints of the tables and the finality of ended rows in every
  reachable state.

  \<^bold>\<open>Notifications\<close> (\<^verbatim>\<open>modules/notifications\<close>).  \<open>Notifications\<close>: rules, the outbox, the claim of
  a dispatcher, deliveries to people and groups, reports and retries of \<^verbatim>\<open>notification.service.ts\<close>;
  \<open>NoticeLaws\<close>: the invariant every operation keeps and the locale \<open>file_service\<close>, the contract of the services
  that prepare files, interpreted in \<open>AllocationDelivery\<close> on \<^verbatim>\<open>order-allocation.delivery.service.ts\<close>;
  \<open>NoticeSystem\<close>: the system of all operations, in any order; \<open>NoticeRuns\<close>: runs, among them one that sends
  twice and one that blocks every claim.

  \<^bold>\<open>Accounts\<close> (\<^verbatim>\<open>auth.ts\<close>, \<^verbatim>\<open>modules/admin\<close>, the user routes of
  \<^verbatim>\<open>controllers.ts\<close>).  \<open>Accounts\<close>: login, renewal and logout by statement, password change and
  recovery, user administration, over the tables of accounts, refresh tokens, recovery requests and grants;
  \<open>AccountSystem\<close>: requests interleaved by statement, and that ended sessions stay ended;
  \<open>AccountRecovery\<close>: the lock after ten wrong addresses, and the mailed password; \<open>AdminGrants\<close>: grants of
  administrators and why the account admin stays in charge; \<open>AccountClaims\<close>: \<^verbatim>\<open>claimsFor\<close> with its two
  walks of the organisation; \<open>AccountRuns\<close>: runs, among them renewals that overtake a password change.

  \<^bold>\<open>Interfaces as locales.\<close>  \<open>comparison\<close> and \<open>collation\<close> for sorting, \<open>versioned_rows\<close> and
  \<open>versioned_table\<close> for rows changed under a version, \<open>stage_table\<close> for approval stages and \<open>file_service\<close>
  for prepared files; each is interpreted on the definitions that provide it.

  \<^bold>\<open>Parameters.\<close>  What is not code of the repository is an argument: printing of numbers, SHA-256 and the
  URL parser (record \<open>host\<close>), collation, the Unicode tables, \<open>JSON.parse\<close>, the clock, generated
  identifiers, the resolver of options, the data scope of supervision (a compiled SQL condition), the tasks a
  synchronisation run executes and the changes other transactions make between its own, the people, webhooks and templates a
  notification meets (record \<open>notice_tx\<close>), password hashing and signed tokens (record \<open>auth_host\<close>), random numbers.  Laws of a parameter
  are named hypotheses of the properties that need them, with a witness for a concrete instance.

  \<^bold>\<open>Termination and bounds.\<close>  Loops are structural recursion or functions with a proved measure: unseen keys
  for the walks, the remaining text for the scanners, the remaining limit for the outbox loop.  No definition takes
  fuel.  The walk to the divisions below a unit has no set of visited units and is a partial function; it returns exactly when
  no cycle is below the unit.  The limits of the code are in the model as written (10000 nodes, 25 levels, 50 rules, 4 levels of groups,
  middles of 250000 cells, 16-bit cells).

  \<^bold>\<open>Simplifications.\<close>  Transactions are serial (the code locks the rows it changes; a weaker isolation is not
  modelled, except in \<open>SyncRunner\<close>, whose other transactions are explicit, and in \<open>AccountSystem\<close>, which
  interleaves single statements).  Identifiers are compared as
  texts, so two spellings of one UUID differ.  Texts of the validators are code units below 256; quantities and
  numbers are rationals.  Writes to audit logs are kept where the code reads them back or a property is about them.

  \<^bold>\<open>Not modelled\<close>, and why:
  \<^item> HTTP controllers other than the user routes, the guard of requests, and the web pages: glue around the services and
    rendering.
  \<^item> Query, dashboard, export, printing and spreadsheet services: SQL text executed by the database, or
    calls of spreadsheet and PDF libraries.
  \<^item> Migrations, seeds, imports of files and validation scripts, other than the tables and triggers the
    commands rely on.
  \<^item> The synchronisation tasks, contact synchronisation and the ERP readers: transfers between two databases
    driven by remote data.
  \<^item> Mail, the messenger dispatcher, attachments of finance reports, object storage clients, the document converter: calls of
    external services.
  \<^item> Human resources, equipment, marketing, finance, supply chain, master data, the administration of roles and of
    notification rules: forms over single tables whose rules are in SQL.
\<close>
end
